(* ===== verification/Prelude.thy ===== *)
theory Prelude
  imports Main "HOL-Library.Sublist"
begin

text \<open>
  The vocabulary shared by every component: the Python exceptions the sources raise, the result
  of a call that may raise, the string operations of Python the sources use (on ASCII text), and
  tables of rows with a primary key. Nothing here models a component.
\<close>

section \<open>Collections of rules\<close>

named_theorems status_simps \<open>the status sets of a job and the transition table\<close>
named_theorems frame_simps \<open>what an operation leaves unchanged\<close>
named_theorems effect_simps \<open>what an operation does to the tables, one equation per table\<close>

section \<open>Exceptions and calls that may raise\<close>

text \<open>
  The exceptions the modelled code raises or catches. \<open>is_RunnerError\<close> and
  \<open>is_RunnerRetryableError\<close> are the subclass tests of
  \<^verbatim>\<open>core/services/runners/abstract_runner.py\<close> and of \<^verbatim>\<open>FleetAppearedError\<close>.
\<close>

datatype exn =
    ValueError string
  | KeyError string
  | AttributeError string
  | RuntimeError string
  | DoesNotExist
  | OperationalError
  | InterfaceError
  | InvalidJobTransitionException
  | FleetAppearedError
  | RunnerError string
  | RunnerRetryableError string
  | CosRetryableError string
  | RetryableError string
  | BackgroundExecutorNotInitializedError
  | InvalidEventError string
  | ValidationError string
  | RuntimeApiError string
  | JobNotFoundException string
  | FunctionNotFoundException string "string option"
  | ProviderNotFoundException string
  | FileNotFoundException string
  | FunctionDisabledException string
  | FunctionConfigurationException string
  | CustomFunctionNotEntitledException string string
  | ActiveJobLimitExceeded int
  | EngineUnavailableException string
  | InvalidAccessException string
  | InvalidArgumentsException string "(string + int) list"
  | InvalidFunctionSizesError string
  | InvalidArgumentsError string
  | UnsupportedSchemaError string
  | JsonValidationError string "(string + int) list"
  | IsolationError string
  | MemoryError
  | OSError string
  | OtherException string

type_synonym 'a res = "exn + 'a"

fun is_RunnerRetryableError :: "exn \<Rightarrow> bool" where
  "is_RunnerRetryableError (RunnerRetryableError _) = True"
| "is_RunnerRetryableError (CosRetryableError _) = True"
| "is_RunnerRetryableError FleetAppearedError = True"
| "is_RunnerRetryableError _ = False"

fun is_RunnerError :: "exn \<Rightarrow> bool" where
  "is_RunnerError (RunnerError _) = True"
| "is_RunnerError e = is_RunnerRetryableError e"

fun is_db_outage :: "exn \<Rightarrow> bool" where
  "is_db_outage OperationalError = True"
| "is_db_outage InterfaceError = True"
| "is_db_outage _ = False"

lemma retryable_is_RunnerError [simp]: "is_RunnerRetryableError e \<Longrightarrow> is_RunnerError e"
  by (cases e) simp_all

lemma db_outage_not_runner [simp]: "is_db_outage e \<Longrightarrow> \<not> is_RunnerError e"
  by (cases e) simp_all

section \<open>Python strings\<close>

text \<open>
  \<open>split_on c s\<close> is \<open>s.split(c)\<close> for a one-character separator: never the empty list.
\<close>

fun split_on :: "char \<Rightarrow> string \<Rightarrow> string list" where
  "split_on c [] = [[]]"
| "split_on c (x # xs) =
     (if x = c then [] # split_on c xs
      else (case split_on c xs of [] \<Rightarrow> [[x]] | p # ps \<Rightarrow> (x # p) # ps))"

fun join_with :: "string \<Rightarrow> string list \<Rightarrow> string" where
  "join_with sep [] = []"
| "join_with sep [x] = x"
| "join_with sep (x # y # ys) = x @ sep @ join_with sep (y # ys)"

definition lower_char :: "char \<Rightarrow> char" where
  "lower_char c = (let n = (of_char c :: nat) in if 65 \<le> n \<and> n \<le> 90 then char_of (n + 32) else c)"

definition upper_char :: "char \<Rightarrow> char" where
  "upper_char c = (let n = (of_char c :: nat) in if 97 \<le> n \<and> n \<le> 122 then char_of (n - 32) else c)"

definition lower :: "string \<Rightarrow> string" where
  "lower s = map lower_char s"

definition upper :: "string \<Rightarrow> string" where
  "upper s = map upper_char s"

definition is_space :: "char \<Rightarrow> bool" where
  "is_space c \<longleftrightarrow> (let n = (of_char c :: nat) in (9 \<le> n \<and> n \<le> 13) \<or> (28 \<le> n \<and> n \<le> 32))"

definition lstrip :: "string \<Rightarrow> string" where
  "lstrip s = dropWhile is_space s"

definition strip :: "string \<Rightarrow> string" where
  "strip s = rev (dropWhile is_space (rev (lstrip s)))"

definition removeprefix :: "string \<Rightarrow> string \<Rightarrow> string" where
  "removeprefix p s = (if prefix p s then drop (length p) s else s)"

definition is_digit :: "char \<Rightarrow> bool" where
  "is_digit c \<longleftrightarrow> (let n = (of_char c :: nat) in 48 \<le> n \<and> n \<le> 57)"

definition is_lower_letter :: "char \<Rightarrow> bool" where
  "is_lower_letter c \<longleftrightarrow> (let n = (of_char c :: nat) in 97 \<le> n \<and> n \<le> 122)"

definition is_upper_letter :: "char \<Rightarrow> bool" where
  "is_upper_letter c \<longleftrightarrow> (let n = (of_char c :: nat) in 65 \<le> n \<and> n \<le> 90)"

text \<open>Truth of an optional string: Python's \<open>bool(x)\<close> is false on None and on the empty string.\<close>

definition truthy :: "string option \<Rightarrow> bool" where
  "truthy x \<longleftrightarrow> (case x of None \<Rightarrow> False | Some s \<Rightarrow> s \<noteq> [])"

lemma truthy_simps [simp]: "\<not> truthy None" "truthy (Some s) \<longleftrightarrow> s \<noteq> []"
  by (simp_all add: truthy_def)

text \<open>
  \<open>py_int s\<close> is \<open>int(s)\<close> in base ten: surrounding white space, one sign and single
  underscores between digits are accepted, anything else is a ValueError (None here).
\<close>

fun digits_val :: "int \<Rightarrow> string \<Rightarrow> int option" where
  "digits_val acc [] = Some acc"
| "digits_val acc (c # cs) =
     (if is_digit c then digits_val (acc * 10 + (int (of_char c) - 48)) cs
      else if of_char c = (95::nat) then
        (case cs of [] \<Rightarrow> None
         | d # ds \<Rightarrow> if is_digit d then digits_val (acc * 10 + (int (of_char d) - 48)) ds else None)
      else None)"

definition unsigned_val :: "string \<Rightarrow> int option" where
  "unsigned_val s = (case s of [] \<Rightarrow> None | c # _ \<Rightarrow> if is_digit c then digits_val 0 s else None)"

definition py_int :: "string \<Rightarrow> int option" where
  "py_int s =
     (case strip s of
        [] \<Rightarrow> None
      | c # cs \<Rightarrow>
          if of_char c = (45::nat) then map_option uminus (unsigned_val cs)
          else if of_char c = (43::nat) then unsigned_val cs
          else unsigned_val (c # cs))"

lemma py_int_examples:
  "py_int ''500'' = Some 500" "py_int '' -12 '' = Some (-12)" "py_int ''1_000'' = Some 1000"
  "py_int ''abc'' = None" "py_int '''' = None" "py_int ''1__0'' = None"
  by code_simp+

subsection \<open>Facts on strings\<close>

lemma split_on_not_Nil [simp]: "split_on c s \<noteq> []"
  by (induction s) (auto split: list.splits)

lemma split_on_no_sep: "c \<notin> set s \<Longrightarrow> split_on c s = [s]"
  by (induction s) auto

lemma split_on_append_sep:
  "c \<notin> set p \<Longrightarrow> split_on c (p @ c # s) = p # split_on c s"
  by (induction p) auto

lemma split_on_parts_no_sep: "p \<in> set (split_on c s) \<Longrightarrow> c \<notin> set p"
  by (induction s arbitrary: p) (auto split: list.splits if_splits)

lemma join_split: "join_with [c] (split_on c s) = s"
proof (induction s)
  case Nil
  then show ?case by simp
next
  case (Cons x xs)
  obtain p ps where sp: "split_on c xs = p # ps"
    by (cases "split_on c xs") auto
  show ?case
    using Cons.IH by (cases ps) (auto simp: sp)
qed

lemma join_with_Cons: "ps \<noteq> [] \<Longrightarrow> join_with sep (p # ps) = p @ sep @ join_with sep ps"
  by (cases ps) simp_all

lemma split_join:
  "ps \<noteq> [] \<Longrightarrow> \<forall>p \<in> set ps. c \<notin> set p \<Longrightarrow> split_on c (join_with [c] ps) = ps"
proof (induction ps)
  case Nil
  then show ?case by simp
next
  case (Cons p ps)
  then show ?case
    by (cases ps) (simp_all add: split_on_no_sep split_on_append_sep)
qed

lemma lower_char_idem [simp]: "lower_char (lower_char c) = lower_char c"
  by (auto simp: lower_char_def Let_def)

lemma upper_char_idem [simp]: "upper_char (upper_char c) = upper_char c"
  by (auto simp: upper_char_def Let_def)

lemma upper_lower_char [simp]: "upper_char (lower_char c) = upper_char c"
  by (auto simp: upper_char_def lower_char_def Let_def)

lemma upper_idem [simp]: "upper (upper s) = upper s"
  by (simp add: upper_def comp_def)

lemma lower_idem [simp]: "lower (lower s) = lower s"
  by (simp add: lower_def comp_def)

lemma upper_lower [simp]: "upper (lower s) = upper s"
  by (simp add: upper_def lower_def comp_def)

lemma upper_eq_Nil [simp]: "upper s = [] \<longleftrightarrow> s = []"
  by (simp add: upper_def)

lemma lower_eq_Nil [simp]: "lower s = [] \<longleftrightarrow> s = []"
  by (simp add: lower_def)

lemma length_upper [simp]: "length (upper s) = length s"
  by (simp add: upper_def)

lemma distinct_count_list: "distinct xs \<Longrightarrow> count_list xs x = of_bool (x \<in> set xs)"
  by (induction xs) auto

lemma filter_notin [simp]: "x \<notin> set xs \<Longrightarrow> filter (\<lambda>y. y \<noteq> x) xs = xs"
  by (induction xs) auto

lemma set_map_filter: "set (List.map_filter f xs) = {y. \<exists>x \<in> set xs. f x = Some y}"
  by (induction xs) (auto simp: List.map_filter_simps split: option.splits)

section \<open>Tables\<close>

text \<open>
  A database table is the list of its rows, in an order the code does not rely on. \<open>key\<close> reads
  the primary key of a row. \<open>row_of key k t\<close> is \<open>objects.filter(pk=k).first()\<close>,
  \<open>upd_rows key k f t\<close> is a queryset UPDATE of the rows with that key.
\<close>

definition row_of :: "('r \<Rightarrow> 'k) \<Rightarrow> 'k \<Rightarrow> 'r list \<Rightarrow> 'r option" where
  "row_of key k t = find (\<lambda>r. key r = k) t"

definition upd_rows :: "('r \<Rightarrow> 'k) \<Rightarrow> 'k \<Rightarrow> ('r \<Rightarrow> 'r) \<Rightarrow> 'r list \<Rightarrow> 'r list" where
  "upd_rows key k f t = map (\<lambda>r. if key r = k then f r else r) t"

lemma row_of_Nil [simp]: "row_of key k [] = None"
  by (simp add: row_of_def)

lemma row_of_Cons [simp]:
  "row_of key k (r # t) = (if key r = k then Some r else row_of key k t)"
  by (simp add: row_of_def)

lemma row_of_key: "row_of key k t = Some r \<Longrightarrow> key r = k"
  by (induction t) (auto split: if_splits)

lemma row_of_mem: "row_of key k t = Some r \<Longrightarrow> r \<in> set t"
  by (induction t) (auto split: if_splits)

lemma row_of_None_iff: "row_of key k t = None \<longleftrightarrow> k \<notin> key ` set t"
  by (induction t) auto

lemma row_of_distinct:
  "distinct (map key t) \<Longrightarrow> r \<in> set t \<Longrightarrow> row_of key (key r) t = Some r"
  by (induction t) (auto simp: image_iff)

lemma row_of_append:
  "row_of key k (t @ u) = (case row_of key k t of Some r \<Rightarrow> Some r | None \<Rightarrow> row_of key k u)"
  by (induction t) auto

lemma row_of_upd_rows:
  assumes "\<And>r. key (f r) = key r"
  shows "row_of key k' (upd_rows key k f t) =
    (if k' = k then map_option f (row_of key k t) else row_of key k' t)"
  using assms by (induction t) (auto simp: upd_rows_def)

lemma upd_rows_keys [simp]:
  "(\<And>r. key (f r) = key r) \<Longrightarrow> map key (upd_rows key k f t) = map key t"
  by (induction t) (simp_all add: upd_rows_def)

lemma upd_rows_comp:
  "(\<And>r. key (f r) = key r) \<Longrightarrow>
    upd_rows key k g (upd_rows key k f t) = upd_rows key k (g \<circ> f) t"
  by (simp add: upd_rows_def)

lemma length_upd_rows [simp]: "length (upd_rows key k f t) = length t"
  by (simp add: upd_rows_def)

end
