(* ===== verification/Config_Store.thy ===== *)
theory Config_Store
  imports Prelude
begin

text \<open>
  Dynamic configuration: the keys of \<^verbatim>\<open>core/config_key.py\<close> and the \<open>Config\<close> model of
  \<^verbatim>\<open>core/models.py\<close>, a table of named values read through a cache with a time to live.
  The other components read it through a view \<open>conf :: ConfigKey \<Rightarrow> string\<close>, the values
  \<open>Config.get\<close> returns; \<open>cfg_bool\<close> and \<open>cfg_int\<close> parse such a value.
\<close>

section \<open>Keys\<close>

datatype ConfigKey =
    MAINTENANCE
  | UPLOAD_FILE_VALID_MIME_TYPES
  | RUNTIME_INSTANCES_API_ENABLED
  | FILLER_ENABLED
  | FILLER_FUNCTION
  | FILLER_SLOTS
  | OUTBOX_KAFKA_CHANNEL_BUDGET_MS
  | OUTBOX_KAFKA_CHANNEL_BREAKER_FAILURES
  | OUTBOX_KAFKA_CHANNEL_BREAKER_PAUSE_SECONDS
  | OUTBOX_KAFKA_CHANNEL_RETRY_BASE_SECONDS
  | OUTBOX_KAFKA_CHANNEL_RETRY_MAX_SECONDS
  | WORKLOADS_MIRROR_ENABLED
  | OUTBOX_WORKLOAD_CHANNEL_BUDGET_MS
  | OUTBOX_WORKLOAD_CHANNEL_BREAKER_FAILURES
  | OUTBOX_WORKLOAD_CHANNEL_BREAKER_PAUSE_SECONDS
  | OUTBOX_WORKLOAD_CHANNEL_RETRY_BASE_SECONDS
  | OUTBOX_WORKLOAD_CHANNEL_RETRY_MAX_SECONDS
  | FLEETS_CLEANUP_ENABLED
  | FLEETS_CLEANUP_RETENTION_HOURS
  | FLEETS_CLEANUP_FORCE_AT_PERCENT
  | FLEETS_CLEANUP_BUDGET_MS
  | FLEETS_CLEANUP_MAX_DELETES
  | FLEETS_QUOTA_PER_PROJECT
  | FLEETS_BREAKER_FAILURES
  | FLEETS_BREAKER_PAUSE_SECONDS
  | BLOCKED_JOBS_STOP_ENABLED
  | BLOCKED_RESOURCES_REGIONAL
  | FLEETS_JOBS_PER_TICK
  | ACTIVE_JOBS_PER_USER
  | PROGRAM_TIMEOUT_HOURS

fun key_value :: "ConfigKey \<Rightarrow> string" where
  "key_value MAINTENANCE = ''scheduler.maintenance''"
| "key_value UPLOAD_FILE_VALID_MIME_TYPES = ''gateway.upload_file.valid_mime_types''"
| "key_value RUNTIME_INSTANCES_API_ENABLED = ''gateway.runtime_instances_api.enabled''"
| "key_value FILLER_ENABLED = ''scheduler.filler.enabled''"
| "key_value FILLER_FUNCTION = ''scheduler.filler.function''"
| "key_value FILLER_SLOTS = ''scheduler.filler.slots''"
| "key_value OUTBOX_KAFKA_CHANNEL_BUDGET_MS = ''scheduler.outbox.kafka.budget_ms''"
| "key_value OUTBOX_KAFKA_CHANNEL_BREAKER_FAILURES = ''scheduler.outbox.kafka.breaker_failures''"
| "key_value OUTBOX_KAFKA_CHANNEL_BREAKER_PAUSE_SECONDS = ''scheduler.outbox.kafka.breaker_pause_seconds''"
| "key_value OUTBOX_KAFKA_CHANNEL_RETRY_BASE_SECONDS = ''scheduler.outbox.kafka.retry_base_seconds''"
| "key_value OUTBOX_KAFKA_CHANNEL_RETRY_MAX_SECONDS = ''scheduler.outbox.kafka.retry_max_seconds''"
| "key_value WORKLOADS_MIRROR_ENABLED = ''workloads.mirror.enabled''"
| "key_value OUTBOX_WORKLOAD_CHANNEL_BUDGET_MS = ''scheduler.outbox.workload.budget_ms''"
| "key_value OUTBOX_WORKLOAD_CHANNEL_BREAKER_FAILURES = ''scheduler.outbox.workload.breaker_failures''"
| "key_value OUTBOX_WORKLOAD_CHANNEL_BREAKER_PAUSE_SECONDS = ''scheduler.outbox.workload.breaker_pause_seconds''"
| "key_value OUTBOX_WORKLOAD_CHANNEL_RETRY_BASE_SECONDS = ''scheduler.outbox.workload.retry_base_seconds''"
| "key_value OUTBOX_WORKLOAD_CHANNEL_RETRY_MAX_SECONDS = ''scheduler.outbox.workload.retry_max_seconds''"
| "key_value FLEETS_CLEANUP_ENABLED = ''scheduler.fleets.cleanup.enabled''"
| "key_value FLEETS_CLEANUP_RETENTION_HOURS = ''scheduler.fleets.cleanup.retention_hours''"
| "key_value FLEETS_CLEANUP_FORCE_AT_PERCENT = ''scheduler.fleets.cleanup.force_at_percent''"
| "key_value FLEETS_CLEANUP_BUDGET_MS = ''scheduler.fleets.cleanup.budget_ms''"
| "key_value FLEETS_CLEANUP_MAX_DELETES = ''scheduler.fleets.cleanup.max_deletes_per_cycle''"
| "key_value FLEETS_QUOTA_PER_PROJECT = ''scheduler.fleets.quota_per_project''"
| "key_value FLEETS_BREAKER_FAILURES = ''scheduler.fleets.breaker_failures''"
| "key_value FLEETS_BREAKER_PAUSE_SECONDS = ''scheduler.fleets.breaker_pause_seconds''"
| "key_value BLOCKED_JOBS_STOP_ENABLED = ''scheduler.blocked_jobs_stop.enabled''"
| "key_value BLOCKED_RESOURCES_REGIONAL = ''gateway.blocked_resources.regional.enabled''"
| "key_value FLEETS_JOBS_PER_TICK = ''scheduler.fleets.jobs_per_tick''"
| "key_value ACTIVE_JOBS_PER_USER = ''gateway.limits.active_jobs_per_user''"
| "key_value PROGRAM_TIMEOUT_HOURS = ''scheduler.program_timeout_hours''"

definition all_keys :: "ConfigKey list" where
  "all_keys = [MAINTENANCE, UPLOAD_FILE_VALID_MIME_TYPES, RUNTIME_INSTANCES_API_ENABLED, FILLER_ENABLED, FILLER_FUNCTION, FILLER_SLOTS, OUTBOX_KAFKA_CHANNEL_BUDGET_MS, OUTBOX_KAFKA_CHANNEL_BREAKER_FAILURES, OUTBOX_KAFKA_CHANNEL_BREAKER_PAUSE_SECONDS, OUTBOX_KAFKA_CHANNEL_RETRY_BASE_SECONDS, OUTBOX_KAFKA_CHANNEL_RETRY_MAX_SECONDS, WORKLOADS_MIRROR_ENABLED, OUTBOX_WORKLOAD_CHANNEL_BUDGET_MS, OUTBOX_WORKLOAD_CHANNEL_BREAKER_FAILURES, OUTBOX_WORKLOAD_CHANNEL_BREAKER_PAUSE_SECONDS, OUTBOX_WORKLOAD_CHANNEL_RETRY_BASE_SECONDS, OUTBOX_WORKLOAD_CHANNEL_RETRY_MAX_SECONDS, FLEETS_CLEANUP_ENABLED, FLEETS_CLEANUP_RETENTION_HOURS, FLEETS_CLEANUP_FORCE_AT_PERCENT, FLEETS_CLEANUP_BUDGET_MS, FLEETS_CLEANUP_MAX_DELETES, FLEETS_QUOTA_PER_PROJECT, FLEETS_BREAKER_FAILURES, FLEETS_BREAKER_PAUSE_SECONDS, BLOCKED_JOBS_STOP_ENABLED, BLOCKED_RESOURCES_REGIONAL, FLEETS_JOBS_PER_TICK, ACTIVE_JOBS_PER_USER, PROGRAM_TIMEOUT_HOURS]"

lemma all_keys_UNIV: "set all_keys = UNIV"
proof -
  have "k \<in> set all_keys" for k
    by (cases k) (simp_all add: all_keys_def)
  then show ?thesis by blast
qed

lemma key_values_distinct: "distinct (map key_value all_keys)"
  by (simp add: all_keys_def)

lemma key_value_inj [simp]: "key_value k = key_value k' \<longleftrightarrow> k = k'"
  using key_values_distinct all_keys_UNIV by (metis UNIV_I distinct_map inj_onD)

section \<open>Parsing a value\<close>

text \<open>\<open>Config.get_bool\<close>, \<open>get_list\<close> and \<open>get_int\<close> once the value has been read.\<close>

definition cfg_bool :: "string \<Rightarrow> bool" where
  "cfg_bool v \<longleftrightarrow> lower v = ''true''"

definition cfg_list :: "string \<Rightarrow> string list" where
  "cfg_list v = map strip (split_on (CHR '','') v)"

definition cfg_int :: "string \<Rightarrow> int \<Rightarrow> int" where
  "cfg_int v dflt = (case py_int v of Some n \<Rightarrow> n | None \<Rightarrow> dflt)"

section \<open>The table and its cache\<close>

text \<open>
  \<open>cfg_rows\<close> holds the (name, value) columns of the table, \<open>cfg_cache\<close> the cached value of a
  cache key with the moment it expires, and \<open>cfg_ttl\<close> is \<open>settings.DYNAMIC_CONFIG_CACHE_TTL\<close>.
  The description and time stamp columns are not read by the code.
\<close>

record config_state =
  cfg_rows :: "(string \<times> string) list"
  cfg_cache :: "string \<rightharpoonup> string \<times> int"
  cfg_ttl :: int

definition cache_get :: "config_state \<Rightarrow> int \<Rightarrow> string \<Rightarrow> string option" where
  "cache_get st now k =
     (case cfg_cache st k of None \<Rightarrow> None
      | Some (v, expires) \<Rightarrow> if now < expires then Some v else None)"

definition cache_set :: "config_state \<Rightarrow> int \<Rightarrow> string \<Rightarrow> string \<Rightarrow> config_state" where
  "cache_set st now k v = st\<lparr>cfg_cache := (cfg_cache st)(k \<mapsto> (v, now + cfg_ttl st))\<rparr>"

definition get_cache_key :: "ConfigKey \<Rightarrow> string" where
  "get_cache_key k = ''dynamic_config:'' @ key_value k"

lemma get_cache_key_inj [simp]: "get_cache_key k = get_cache_key k' \<longleftrightarrow> k = k'"
  by (simp add: get_cache_key_def)

text \<open>
  \<open>Config.add_defaults\<close>, with \<open>defaults\<close> the dictionary
  \<open>settings.DYNAMIC_CONFIG_DEFAULTS\<close>: None where an entry lacks its default or description.
\<close>

fun add_defaults_loop ::
  "(string \<rightharpoonup> string option) \<Rightarrow> string list \<Rightarrow> config_state \<Rightarrow> unit res \<times> config_state" where
  "add_defaults_loop defaults [] st = (Inr (), st)"
| "add_defaults_loop defaults (k # ks) st =
     (case defaults k of
        None \<Rightarrow> (Inl (KeyError k), st)
      | Some None \<Rightarrow> (Inl (KeyError k), st)
      | Some (Some v) \<Rightarrow>
          add_defaults_loop defaults ks
            (if k \<in> fst ` set (cfg_rows st) then st
             else st\<lparr>cfg_rows := cfg_rows st @ [(k, v)]\<rparr>))"

definition add_defaults :: "(string \<rightharpoonup> string option) \<Rightarrow> config_state \<Rightarrow> unit res \<times> config_state" where
  "add_defaults defaults st = add_defaults_loop defaults (map key_value all_keys) st"

definition config_set :: "config_state \<Rightarrow> int \<Rightarrow> ConfigKey \<Rightarrow> string \<Rightarrow> config_state" where
  "config_set st now k v =
     cache_set (st\<lparr>cfg_rows := map (\<lambda>(n, w). (n, if n = key_value k then v else w)) (cfg_rows st)\<rparr>)
       now (get_cache_key k) v"

definition config_get :: "config_state \<Rightarrow> int \<Rightarrow> ConfigKey \<Rightarrow> string res \<times> config_state" where
  "config_get st now k =
     (case cache_get st now (get_cache_key k) of
        Some v \<Rightarrow> (Inr v, st)
      | None \<Rightarrow>
          (case map_of (cfg_rows st) (key_value k) of
             Some v \<Rightarrow> (Inr v, cache_set st now (get_cache_key k) v)
           | None \<Rightarrow> (Inl (KeyError (key_value k)), st)))"

definition config_get_bool :: "config_state \<Rightarrow> int \<Rightarrow> ConfigKey \<Rightarrow> bool res \<times> config_state" where
  "config_get_bool st now k =
     (case config_get st now k of (Inl e, s) \<Rightarrow> (Inl e, s) | (Inr v, s) \<Rightarrow> (Inr (cfg_bool v), s))"

definition config_get_list :: "config_state \<Rightarrow> int \<Rightarrow> ConfigKey \<Rightarrow> string list res \<times> config_state" where
  "config_get_list st now k =
     (case config_get st now k of (Inl e, s) \<Rightarrow> (Inl e, s) | (Inr v, s) \<Rightarrow> (Inr (cfg_list v), s))"

definition config_get_int ::
  "config_state \<Rightarrow> int \<Rightarrow> ConfigKey \<Rightarrow> int \<Rightarrow> int res \<times> config_state" where
  "config_get_int st now k dflt =
     (case config_get st now k of (Inl e, s) \<Rightarrow> (Inl e, s) | (Inr v, s) \<Rightarrow> (Inr (cfg_int v dflt), s))"

section \<open>What a read returns\<close>

definition registered :: "config_state \<Rightarrow> ConfigKey \<Rightarrow> bool" where
  "registered st k \<longleftrightarrow> key_value k \<in> fst ` set (cfg_rows st)"

lemma registered_iff: "registered st k \<longleftrightarrow> map_of (cfg_rows st) (key_value k) \<noteq> None"
  by (simp add: registered_def map_of_eq_None_iff)

lemma add_defaults_loop_rows:
  assumes "add_defaults_loop defaults ks st = (Inr (), st')"
  shows "fst ` set (cfg_rows st') = fst ` set (cfg_rows st) \<union> set ks \<and>
         cfg_cache st' = cfg_cache st \<and> cfg_ttl st' = cfg_ttl st \<and>
         (\<forall>n v. map_of (cfg_rows st) n = Some v \<longrightarrow> map_of (cfg_rows st') n = Some v)"
  using assms
proof (induction ks arbitrary: st)
  case Nil
  then show ?case by simp
next
  case (Cons k ks)
  then obtain v where v: "defaults k = Some (Some v)"
    by (auto split: option.splits)
  let ?st = "if k \<in> fst ` set (cfg_rows st) then st else st\<lparr>cfg_rows := cfg_rows st @ [(k, v)]\<rparr>"
  have "add_defaults_loop defaults ks ?st = (Inr (), st')"
    using Cons.prems v by simp
  from Cons.IH [OF this] show ?case
    by (auto simp: map_add_Some_iff split: if_splits)
qed

lemma map_of_set_row:
  "map_of (map (\<lambda>(n, w). (n, if n = k then v else w)) rows) n =
     (if n = k then map_option (\<lambda>_. v) (map_of rows n) else map_of rows n)"
  by (induction rows) auto

lemma config_get_set:
  "0 < cfg_ttl st \<Longrightarrow> now' < now + cfg_ttl st \<Longrightarrow>
    config_get (config_set st now k v) now' k = (Inr v, config_set st now k v)"
  by (simp add: config_get_def config_set_def cache_get_def cache_set_def)

text \<open>A cached value never outlives its time to live, and is the value of the row otherwise.\<close>

definition cache_coherent :: "config_state \<Rightarrow> bool" where
  "cache_coherent st \<longleftrightarrow>
     (\<forall>k v e. cfg_cache st (get_cache_key k) = Some (v, e) \<longrightarrow>
        map_of (cfg_rows st) (key_value k) = Some v)"

lemma config_get_coherent:
  assumes "cache_coherent st"
  shows "fst (config_get st now k) =
    (case map_of (cfg_rows st) (key_value k) of
       Some v \<Rightarrow> Inr v | None \<Rightarrow> Inl (KeyError (key_value k)))"
  using assms
  by (auto simp: config_get_def cache_get_def cache_coherent_def split: option.splits)

lemma config_get_keeps_coherent:
  "cache_coherent st \<Longrightarrow> cache_coherent (snd (config_get st now k))"
  by (auto simp: config_get_def cache_coherent_def cache_set_def split: option.splits)

lemma config_get_rows [frame_simps]: "cfg_rows (snd (config_get st now k)) = cfg_rows st"
  by (auto simp: config_get_def cache_set_def split: option.splits)

lemma config_set_keeps_coherent:
  "cache_coherent st \<Longrightarrow> registered st k \<Longrightarrow> cache_coherent (config_set st now k v)"
  by (auto simp: cache_coherent_def config_set_def cache_set_def map_of_set_row registered_iff)

text \<open>
  The configuration a process reads is what was last set. Starting from any coherent cache, after
  \<open>Config.add_defaults\<close> succeeded every key can be read without a KeyError; after
  \<open>Config.set\<close> of a key, a read of that key at any later moment returns the value set,
  whether it comes from the cache or, once the entry expired, from the table; a read of any other
  key returns what it returned before; and the cache stays coherent.
\<close>

theorem config_set_then_get:
  assumes "cache_coherent st0" and "add_defaults defaults st0 = (Inr (), st)"
  shows "fst (config_get (config_set st now k v) t k) = Inr v \<and>
    (\<forall>k'. k' \<noteq> k \<longrightarrow> fst (config_get (config_set st now k v) t k') = fst (config_get st t' k')) \<and>
    (\<forall>k'. \<exists>w. fst (config_get st t k') = Inr w) \<and>
    cache_coherent (config_set st now k v)"
proof -
  note loop = add_defaults_loop_rows [OF assms(2) [unfolded add_defaults_def]]
  have coh: "cache_coherent st"
    using assms(1) loop by (auto simp: cache_coherent_def)
  have "fst ` set (cfg_rows st) = fst ` set (cfg_rows st0) \<union> set (map key_value all_keys)"
    using loop by blast
  then have reg: "registered st k'" for k'
    using all_keys_UNIV by (auto simp: registered_def)
  have coh': "cache_coherent (config_set st now k v)"
    by (rule config_set_keeps_coherent [OF coh reg])
  have rows: "map_of (cfg_rows (config_set st now k v)) (key_value k') =
    (if k' = k then Some v else map_of (cfg_rows st) (key_value k'))" for k'
    using reg [of k] by (auto simp: config_set_def cache_set_def map_of_set_row registered_iff)
  have "\<exists>w. fst (config_get st t k') = Inr w" for k'
    using reg [of k'] coh by (auto simp: config_get_coherent registered_iff)
  then show ?thesis
    using coh coh' rows by (simp add: config_get_coherent)
qed

theorem config_set_then_get_witness:
  "fst (config_get (config_set
      \<lparr>cfg_rows = map (\<lambda>k. (key_value k, ''false'')) all_keys, cfg_cache = Map.empty, cfg_ttl = 60\<rparr>
      0 MAINTENANCE ''true'') 1000 MAINTENANCE) = Inr ''true''"
proof -
  let ?st = "\<lparr>cfg_rows = map (\<lambda>k. (key_value k, ''false'')) all_keys,
    cfg_cache = Map.empty, cfg_ttl = 60\<rparr> :: config_state"
  have present: "set ks \<subseteq> fst ` set (cfg_rows st) \<Longrightarrow>
      add_defaults_loop (\<lambda>_. Some (Some ''false'')) ks st = (Inr (), st)" for ks st
    by (induction ks) auto
  have "add_defaults (\<lambda>_. Some (Some ''false'')) ?st = (Inr (), ?st)"
    unfolding add_defaults_def by (rule present) force
  moreover have "cache_coherent ?st"
    by (simp add: cache_coherent_def)
  ultimately show ?thesis
    using config_set_then_get [of ?st "\<lambda>_. Some (Some ''false'')" ?st] by blast
qed

text \<open>
  Setting a key that no row holds changes no row, yet the value is served from the cache:
  \<open>Config.get\<close> returns it until the entry expires and raises KeyError afterwards.
\<close>

theorem config_set_unregistered:
  assumes "\<not> registered st k"
  shows "cfg_rows (config_set st now k v) = cfg_rows st \<and>
    (t < now + cfg_ttl st \<longrightarrow> fst (config_get (config_set st now k v) t k) = Inr v) \<and>
    (now + cfg_ttl st \<le> t \<longrightarrow>
       fst (config_get (config_set st now k v) t k) = Inl (KeyError (key_value k)))"
proof -
  have "map (\<lambda>(n, w). (n, if n = key_value k then v else w)) (cfg_rows st) = cfg_rows st"
    using assms by (force simp: registered_def intro: map_idI)
  then show ?thesis
    using assms by (simp add: config_set_def config_get_def cache_get_def cache_set_def registered_iff)
qed

theorem config_set_unregistered_witness:
  "fst (config_get (config_set \<lparr>cfg_rows = [], cfg_cache = Map.empty, cfg_ttl = 60\<rparr>
      0 FILLER_SLOTS ''4'') 30 FILLER_SLOTS) = Inr ''4'' \<and>
   fst (config_get (config_set \<lparr>cfg_rows = [], cfg_cache = Map.empty, cfg_ttl = 60\<rparr>
      0 FILLER_SLOTS ''4'') 60 FILLER_SLOTS) = Inl (KeyError ''scheduler.filler.slots'')"
proof -
  let ?st = "\<lparr>cfg_rows = [], cfg_cache = Map.empty, cfg_ttl = 60\<rparr> :: config_state"
  have "\<not> registered ?st FILLER_SLOTS" by (simp add: registered_def)
  note unreg = config_set_unregistered [OF this]
  show ?thesis using unreg [where t = 30 and now = 0 and v = "''4''"]
      unreg [where t = 60 and now = 0 and v = "''4''"] by simp
qed

end
