(* ===== verification/Crn.thy ===== *)
theory Crn
  imports Prelude
begin

text \<open>
  Instance CRNs (\<^verbatim>\<open>core/domain/crn.py\<close>): \<open>Crn.parse\<close> and the regular expression that
  selects the CRNs of a region in the database. The main fact is that the two agree.
\<close>

definition ACCOUNT_PREFIX :: string where
  "ACCOUNT_PREFIX = ''a/''"

definition REGION_INDEX :: nat where
  "REGION_INDEX = 5"

definition ACCOUNT_INDEX :: nat where
  "ACCOUNT_INDEX = 6"

record crn =
  crn_region :: string
  crn_account :: "string option"

text \<open>\<open>None\<close> stands for a value that is not a string.\<close>

definition Crn_parse :: "string option \<Rightarrow> crn option" where
  "Crn_parse value_opt =
     (case value_opt of
        None \<Rightarrow> None
      | Some s \<Rightarrow>
          let parts = split_on (CHR '':'') s in
          if length parts \<le> ACCOUNT_INDEX \<or> parts ! REGION_INDEX = [] then None
          else
            let acc = removeprefix ACCOUNT_PREFIX (parts ! ACCOUNT_INDEX) in
            Some \<lparr>crn_region = parts ! REGION_INDEX,
                  crn_account = (if acc = [] then None else Some acc)\<rparr>)"

text \<open>
  The regular expression \<^verbatim>\<open>^([^:]*:){5}<region>:\<close> of \<open>region_crn_regex\<close>, as the matcher it
  denotes: five times everything up to and including a colon, then the escaped region and a colon.
  Each repetition can end at one place only, so there is no choice to backtrack over.
\<close>

fun skip_segments :: "nat \<Rightarrow> string \<Rightarrow> string option" where
  "skip_segments 0 s = Some s"
| "skip_segments (Suc n) s =
     (case dropWhile (\<lambda>c. c \<noteq> CHR '':'') s of [] \<Rightarrow> None | _ # rest \<Rightarrow> skip_segments n rest)"

definition region_crn_regex :: "string \<Rightarrow> string \<Rightarrow> bool" where
  "region_crn_regex region s =
     (case skip_segments REGION_INDEX s of None \<Rightarrow> False | Some rest \<Rightarrow> prefix (region @ '':'') rest)"

section \<open>The matcher reads the region \<open>Crn.parse\<close> reads\<close>

lemma skip_segments_sep:
  assumes "CHR '':'' \<notin> set p"
  shows "skip_segments (Suc n) (p @ CHR '':'' # u) = skip_segments n u"
proof -
  have "dropWhile (\<lambda>c. c \<noteq> CHR '':'') (p @ CHR '':'' # u) = CHR '':'' # u"
    using assms by (induction p) auto
  then show ?thesis by simp
qed

lemma skip_segments_no_sep: "CHR '':'' \<notin> set s \<Longrightarrow> skip_segments (Suc n) s = None"
  by (induction s) auto

lemma skip_segments_split:
  "skip_segments n s = Some r \<longleftrightarrow> n < length (split_on (CHR '':'') s) \<and>
     drop n (split_on (CHR '':'') s) = split_on (CHR '':'') r"
proof (induction n arbitrary: s r)
  case 0
  have "split_on (CHR '':'') s = split_on (CHR '':'') r \<longleftrightarrow> s = r"
    by (metis join_split)
  then show ?case by auto
next
  case (Suc n)
  show ?case
  proof (cases "CHR '':'' \<in> set s")
    case True
    then obtain p u where "s = p @ CHR '':'' # u" and "CHR '':'' \<notin> set p"
      by (meson split_list_first)
    then show ?thesis
      by (simp add: skip_segments_sep split_on_append_sep Suc.IH del: skip_segments.simps)
  next
    case False
    then show ?thesis
      by (simp add: skip_segments_no_sep split_on_no_sep del: skip_segments.simps)
  qed
qed

lemma prefix_segment:
  assumes "CHR '':'' \<notin> set region"
  shows "prefix (region @ '':'') r \<longleftrightarrow>
    1 < length (split_on (CHR '':'') r) \<and> hd (split_on (CHR '':'') r) = region"
proof
  assume "prefix (region @ '':'') r"
  then obtain u where "r = region @ CHR '':'' # u"
    by (auto simp: prefix_def)
  then show "1 < length (split_on (CHR '':'') r) \<and> hd (split_on (CHR '':'') r) = region"
    using assms by (simp add: split_on_append_sep)
next
  assume two: "1 < length (split_on (CHR '':'') r) \<and> hd (split_on (CHR '':'') r) = region"
  then obtain ps where ps: "split_on (CHR '':'') r = region # ps" and "ps \<noteq> []"
    by (cases "split_on (CHR '':'') r") auto
  then have "r = region @ '':'' @ join_with '':'' ps"
    using join_split [of "CHR '':''" r] join_with_Cons [of ps "'':''" region] by simp
  then show "prefix (region @ '':'') r" by simp
qed

lemma region_crn_regex_iff:
  assumes "region \<noteq> []" and "CHR '':'' \<notin> set region"
  shows "region_crn_regex region s \<longleftrightarrow>
    (\<exists>c. Crn_parse (Some s) = Some c \<and> crn_region c = region)"
proof -
  let ?parts = "split_on (CHR '':'') s"
  have "region_crn_regex region s \<longleftrightarrow>
      (\<exists>r. skip_segments 5 s = Some r \<and> prefix (region @ '':'') r)"
    by (auto simp: region_crn_regex_def REGION_INDEX_def split: option.splits)
  also have "\<dots> \<longleftrightarrow> (\<exists>r. 5 < length ?parts \<and> drop 5 ?parts = split_on (CHR '':'') r \<and>
      1 < length (split_on (CHR '':'') r) \<and> hd (split_on (CHR '':'') r) = region)"
    by (simp add: skip_segments_split prefix_segment [OF assms(2)])
  also have "\<dots> \<longleftrightarrow> 6 < length ?parts \<and> ?parts ! 5 = region"
  proof
    assume "\<exists>r. 5 < length ?parts \<and> drop 5 ?parts = split_on (CHR '':'') r \<and>
      1 < length (split_on (CHR '':'') r) \<and> hd (split_on (CHR '':'') r) = region"
    then obtain r where r: "5 < length ?parts" "drop 5 ?parts = split_on (CHR '':'') r"
      "1 < length (drop 5 ?parts)" "hd (drop 5 ?parts) = region"
      by auto
    have "hd (drop 5 ?parts) = ?parts ! 5"
      using r(1) by (rule hd_drop_conv_nth)
    moreover have "6 < length ?parts"
      using r(3) unfolding length_drop by linarith
    ultimately show "6 < length ?parts \<and> ?parts ! 5 = region"
      using r(4) by simp
  next
    assume six: "6 < length ?parts \<and> ?parts ! 5 = region"
    have "\<forall>p \<in> set (drop 5 ?parts). CHR '':'' \<notin> set p"
      using split_on_parts_no_sep in_set_dropD by metis
    then have "split_on (CHR '':'') (join_with '':'' (drop 5 ?parts)) = drop 5 ?parts"
      using six by (intro split_join) auto
    then show "\<exists>r. 5 < length ?parts \<and> drop 5 ?parts = split_on (CHR '':'') r \<and>
      1 < length (split_on (CHR '':'') r) \<and> hd (split_on (CHR '':'') r) = region"
      using six by (intro exI [of _ "join_with '':'' (drop 5 ?parts)"]) (simp add: hd_drop_conv_nth less_diff_conv)
  qed
  finally show ?thesis
    using assms(1)
    by (auto simp: Crn_parse_def Let_def ACCOUNT_INDEX_def REGION_INDEX_def not_le)
qed

text \<open>
  For a non-empty region without a colon, the database filter \<open>region_crn_regex\<close> accepts a
  stored CRN exactly when \<open>Crn.parse\<close> reads that region from it, so the jobs selected for a
  blocked region are the jobs whose region the gateway reports.
\<close>

theorem region_crn_regex_parse:
  assumes "region \<noteq> []" and "CHR '':'' \<notin> set region"
  shows "region_crn_regex region s \<longleftrightarrow>
    (\<exists>c. Crn_parse (Some s) = Some c \<and> crn_region c = region)"
  by (rule region_crn_regex_iff [OF assms])

theorem region_crn_regex_parse_witness:
  "region_crn_regex ''us-east'' ''crn:v1:bluemix:public:quantum-computing:us-east:a/acc:inst::'' \<longleftrightarrow>
    (\<exists>c. Crn_parse (Some ''crn:v1:bluemix:public:quantum-computing:us-east:a/acc:inst::'') = Some c \<and>
      crn_region c = ''us-east'')"
  using region_crn_regex_parse [of "''us-east''"
    "''crn:v1:bluemix:public:quantum-computing:us-east:a/acc:inst::''"] by simp

lemma crn_examples:
  "Crn_parse (Some ''crn:v1:bluemix:public:quantum-computing:us-east:a/acc:inst::'') =
     Some \<lparr>crn_region = ''us-east'', crn_account = Some ''acc''\<rparr>"
  "Crn_parse (Some ''crn:v1:bluemix:public:quantum-computing::a/acc:inst::'') = None"
  "Crn_parse (Some ''crn:v1'') = None"
  by (simp_all add: Crn_parse_def ACCOUNT_INDEX_def REGION_INDEX_def ACCOUNT_PREFIX_def
      removeprefix_def Let_def)

end
