(* ===== verification/Models.thy ===== *)
theory Models
  imports Prelude Config_Store Crn
begin

text \<open>
  The data model of \<^verbatim>\<open>core/models.py\<close>: the rows of the tables as records, the status sets, and
  the methods the models define on a row. A foreign key holds the row it joins (\<open>select_related\<close>),
  a moment in time is an integer number of microseconds, an identifier of a job is its UUID text.
  Columns that no modelled code reads (descriptions, deprecated columns) are left out.
\<close>

section \<open>Enumerations\<close>

datatype Status = QUEUED | PENDING | RUNNING | STOPPING | STOPPED | SUCCEEDED | FAILED

datatype SubStatus = MAPPING | OPTIMIZING_HARDWARE | WAITING_QPU | EXECUTING_QPU | POST_PROCESSING

datatype Runner = RAY | FLEETS

datatype SizeSource =
    SIZE_SOURCE_REQUESTED | SIZE_SOURCE_DEFAULT_SIZE | SIZE_SOURCE_SETTINGS_DEFAULT | SIZE_SOURCE_NONE

datatype OutboxChannel = LICENSE_FEE | JOB_USAGE | WORKLOAD

definition TERMINAL_STATUSES :: "Status list" where
  "TERMINAL_STATUSES = [SUCCEEDED, FAILED, STOPPED]"

definition RUNNING_STATUSES :: "Status list" where
  "RUNNING_STATUSES = [RUNNING, PENDING, STOPPING]"

definition ACTIVE_STATUSES :: "Status list" where
  "ACTIVE_STATUSES = [QUEUED, PENDING, RUNNING, STOPPING]"

lemma terminal_status_iff [status_simps]:
  "s \<in> set TERMINAL_STATUSES \<longleftrightarrow> s = SUCCEEDED \<or> s = FAILED \<or> s = STOPPED"
  by (auto simp: TERMINAL_STATUSES_def)

lemma active_status_iff [status_simps]:
  "s \<in> set ACTIVE_STATUSES \<longleftrightarrow> s \<notin> set TERMINAL_STATUSES"
  by (cases s) (simp_all add: ACTIVE_STATUSES_def TERMINAL_STATUSES_def)

lemma running_status_iff [status_simps]:
  "s \<in> set RUNNING_STATUSES \<longleftrightarrow> s \<in> set ACTIVE_STATUSES \<and> s \<noteq> QUEUED"
  by (cases s) (simp_all add: ACTIVE_STATUSES_def RUNNING_STATUSES_def)

section \<open>Catalog rows\<close>

record user =
  user_id :: nat
  username :: string
  is_active :: bool
  user_groups :: "nat list"

record code_engine_project =
  cep_id :: nat
  project_id :: string
  project_name :: string
  cep_region :: string
  cos_bucket_task_store_name :: "string option"
  cos_bucket_user_data_name :: "string option"
  cos_bucket_provider_data_name :: "string option"
  cep_active :: bool
  cep_dedicated :: bool

record provider =
  provider_id :: nat
  provider_name :: string
  admin_groups :: "nat list"
  provider_project :: "code_engine_project option"

record compute_profile =
  profile_id :: string
  profile_name :: string
  cpu :: string
  gpu :: "string option"
  memory :: string

record function_size =
  fs_id :: nat
  fs_function :: nat
  fs_label :: string
  fs_profile :: compute_profile

record program =
  program_id :: nat
  title :: string
  disabled :: bool
  disabled_message :: "string option"
  program_env_vars :: string
  arguments_schema :: "string option"
  program_runner :: Runner
  program_gpu :: bool
  default_size :: "function_size option"
  instances :: "nat list"
  trial_instances :: "nat list"
  program_author :: user
  program_provider :: "provider option"
  program_project :: "code_engine_project option"

text \<open>\<open>Program.__str__\<close> and \<open>Program.clean\<close>.\<close>

definition program_str :: "program \<Rightarrow> string" where
  "program_str p =
     (case program_provider p of Some pr \<Rightarrow> provider_name pr @ ''/'' @ title p | None \<Rightarrow> title p)"

definition program_clean :: "program \<Rightarrow> unit res" where
  "program_clean p =
     (case default_size p of
        Some fs \<Rightarrow> if fs_function fs \<noteq> program_id p then Inl (ValueError ''default_size'') else Inr ()
      | None \<Rightarrow> Inr ())"

text \<open>\<open>FunctionSize.from_db\<close> and \<open>FunctionSize.save\<close> both uppercase the label.\<close>

definition uppercase_function_size :: "function_size \<Rightarrow> function_size" where
  "uppercase_function_size fs = (if fs_label fs \<noteq> [] then fs\<lparr>fs_label := upper (fs_label fs)\<rparr> else fs)"

section \<open>Jobs\<close>

record compute_resource =
  cr_id :: nat
  cr_title :: string
  cr_active :: bool
  cr_gpu :: bool

record job =
  job_id :: string
  created :: int
  updated :: int
  env_vars :: string
  job_gpu :: bool
  filler :: bool
  runner :: Runner
  ray_job_id :: "string option"
  fleet_id :: "string option"
  fleet_deleted_at :: "int option"
  status :: Status
  sub_status :: "SubStatus option"
  trial :: bool
  business_model :: string
  version :: int
  author :: user
  job_compute_resource :: "compute_resource option"
  job_program :: "program option"
  compute_profile_fk :: "string option"
  size_source :: SizeSource
  job_function_size :: "function_size option"
  function_size_name :: "string option"
  account_id :: "string option"
  instance_crn :: "string option"
  plan_id :: "string option"
  subscription_id :: "string option"
  ce_project_name :: "string option"
  ce_region :: "string option"

text \<open>A job built with only its author: every other column takes the default of the model.\<close>

definition Job_new :: "string \<Rightarrow> user \<Rightarrow> int \<Rightarrow> job" where
  "Job_new i u now =
     \<lparr>job_id = i, created = now, updated = now, env_vars = ''{}'', job_gpu = False, filler = False,
      runner = FLEETS, ray_job_id = None, fleet_id = None, fleet_deleted_at = None, status = QUEUED,
      sub_status = None, trial = False, business_model = ''LICENSED'', version = 0, author = u,
      job_compute_resource = None, job_program = None, compute_profile_fk = None,
      size_source = SIZE_SOURCE_NONE, job_function_size = None, function_size_name = None,
      account_id = None, instance_crn = None, plan_id = None, subscription_id = None,
      ce_project_name = None, ce_region = None\<rparr>"

definition in_terminal_state :: "job \<Rightarrow> bool" where
  "in_terminal_state j \<longleftrightarrow> status j \<in> set TERMINAL_STATUSES"

definition compute_profile_id :: "job \<Rightarrow> string option" where
  "compute_profile_id j = compute_profile_fk j"

definition size_label :: "job \<Rightarrow> string option" where
  "size_label j =
     (let label = (if \<not> truthy (function_size_name j) \<and> job_function_size j \<noteq> None
                   then map_option fs_label (job_function_size j) else function_size_name j)
      in if truthy label then map_option upper label else None)"

definition UNASSIGNED_PROJECT :: string where
  "UNASSIGNED_PROJECT = ''unassigned''"

definition fleet_project :: "job \<Rightarrow> string" where
  "fleet_project j = (if truthy (ce_project_name j) then the (ce_project_name j) else UNASSIGNED_PROJECT)"

definition fleet_region :: "job \<Rightarrow> string option" where
  "fleet_region j =
     (if truthy (ce_region j) then ce_region j
      else (case job_program j of None \<Rightarrow> None
            | Some p \<Rightarrow> map_option cep_region (program_project p)))"

text \<open>
  The SQL forms \<open>with_fleet_project\<close> and \<open>with_fleet_region\<close> of
  \<^verbatim>\<open>core/model_managers/jobs.py\<close>: \<open>Coalesce(NullIf(column, ''), other)\<close>.
\<close>

definition nullif_empty :: "string option \<Rightarrow> string option" where
  "nullif_empty x = (if x = Some [] then None else x)"

definition coalesce :: "'a option \<Rightarrow> 'a option \<Rightarrow> 'a option" where
  "coalesce x y = (case x of Some v \<Rightarrow> Some v | None \<Rightarrow> y)"

definition fleet_project_sql :: "job \<Rightarrow> string option" where
  "fleet_project_sql j = coalesce (nullif_empty (ce_project_name j)) (Some UNASSIGNED_PROJECT)"

definition fleet_region_sql :: "job \<Rightarrow> string option" where
  "fleet_region_sql j =
     coalesce (nullif_empty (ce_region j))
       (Option.bind (job_program j) (\<lambda>p. map_option cep_region (program_project p)))"

definition held_fleet :: "job \<Rightarrow> bool" where
  "held_fleet j \<longleftrightarrow> runner j = FLEETS \<and> fleet_id j \<noteq> None \<and> fleet_deleted_at j = None"

text \<open>
  \<open>Job.from_db\<close> translates the old business model name (\<^verbatim>\<open>subsidized_license_mapping.py\<close>).
\<close>

definition licensed_instead_of_subsidized :: "string \<Rightarrow> string" where
  "licensed_instead_of_subsidized m = (if m = ''SUBSIDIZED'' then ''LICENSED'' else m)"

definition licensed_job_from_db :: "bool \<Rightarrow> job \<Rightarrow> job" where
  "licensed_job_from_db loaded j =
     (if loaded then j\<lparr>business_model := licensed_instead_of_subsidized (business_model j)\<rparr> else j)"

section \<open>Job events and outbox rows\<close>

datatype JobEventOrigin = API | SCHEDULER | BACKOFFICE

datatype JobEventContext =
    RUN_PROGRAM | SCHEDULE_JOBS | STOP_JOB | UPDATE_JOB_STATUS | SET_SUB_STATUS | SAVE_MODEL
  | SEND_ERROR | FILLER_SUBMIT | FILLER_STOP | FILLER_FAILED | BLOCKED_RESOURCE_STOP

datatype JobEventType = ERROR | STATUS_CHANGE | SUB_STATUS_CHANGE

text \<open>The \<open>args\<close> of an error event: a text, or the resource ids of a job that was stopped as blocked.\<close>

datatype error_args = ArgsText string | ArgsResource "string option" "string option" "string option"

datatype event_data =
    StatusData Status
  | SubStatusData "SubStatus option"
  | ErrorData string string string error_args

record job_event =
  je_job :: string
  je_type :: JobEventType
  je_origin :: JobEventOrigin
  je_context :: JobEventContext
  je_created :: int
  je_data :: event_data

record billing_data =
  metric_type :: string
  metric_value :: int
  bd_instance_crn :: "string option"
  resource_id :: string
  job_started :: bool
  job_started_at :: "int option"
  job_completed :: bool
  bd_business_model :: "string option"

record billing_message =
  specversion :: string
  message_id :: string
  msg_source :: string
  message_time :: int
  subject :: string
  datacontenttype :: string
  msg_data :: billing_data

record workload_body =
  wb_name :: string
  wb_provider :: "string option"
  wb_crn :: string
  wb_user_id :: string
  wb_status :: string
  wb_compute_profile :: "string option"
  wb_size :: "string option"
  wb_created_at :: int
  wb_running_at :: "int option"
  wb_ended_at :: "int option"

record workload_payload =
  function_id :: string
  wp_body :: workload_body

datatype outbox_payload = Billing billing_message | Workload workload_payload

record outbox_row =
  ob_pk :: nat
  ob_job :: string
  ob_channel :: OutboxChannel
  ob_region :: "string option"
  ob_payload :: outbox_payload
  ob_created :: int
  attempts :: nat
  next_attempt_at :: int
  last_error :: string
  unrecoverable :: bool

record blocked_row =
  bl_account :: "string option"
  bl_plan :: "string option"
  bl_subscription :: "string option"
  bl_reason :: string
  bl_region :: string

section \<open>The database\<close>

text \<open>
  The tables the job life cycle reads and writes. \<open>mirror_tbl\<close> holds the job ids of
  \<open>WorkloadMirror\<close>, whose primary key is the job. \<open>outbox_seq\<close> is the sequence of the
  integer primary key of \<open>Outbox\<close>.
\<close>

record db =
  job_tbl :: "job list"
  event_tbl :: "job_event list"
  outbox_tbl :: "outbox_row list"
  outbox_seq :: nat
  mirror_tbl :: "string list"
  blocked_tbl :: "blocked_row list"

definition job_row :: "db \<Rightarrow> string \<Rightarrow> job option" where
  "job_row d i = row_of job_id i (job_tbl d)"

definition outbox_create ::
  "string \<Rightarrow> OutboxChannel \<Rightarrow> string option \<Rightarrow> outbox_payload \<Rightarrow> int \<Rightarrow> db \<Rightarrow> db" where
  "outbox_create i ch region p now d =
     d\<lparr>outbox_tbl := outbox_tbl d @
         [\<lparr>ob_pk = outbox_seq d, ob_job = i, ob_channel = ch, ob_region = region, ob_payload = p,
           ob_created = now, attempts = 0, next_attempt_at = now, last_error = [],
           unrecoverable = False\<rparr>],
       outbox_seq := Suc (outbox_seq d)\<rparr>"


section \<open>Writing a job row\<close>

text \<open>
  \<open>Job.update_fields(map)\<close> and \<open>Job.save_direct(names)\<close> write columns with a queryset UPDATE,
  which skips the optimistic lock, increments \<open>version\<close> in the row, and then re-reads
  \<open>version\<close> into the instance. A column assignment is a value of \<open>job_field\<close>. The state of
  a call is the instance in memory and the database; both survive an exception.
\<close>

datatype job_field =
    F_status Status
  | F_sub_status "SubStatus option"
  | F_env_vars string
  | F_fleet_id "string option"
  | F_fleet_deleted_at "int option"
  | F_ray_job_id "string option"
  | F_compute_resource "compute_resource option"
  | F_updated int

datatype field_name =
    N_status | N_sub_status | N_env_vars | N_fleet_id | N_fleet_deleted_at | N_ray_job_id
  | N_compute_resource | N_updated

fun apply_field :: "job_field \<Rightarrow> job \<Rightarrow> job" where
  "apply_field (F_status s) j = j\<lparr>status := s\<rparr>"
| "apply_field (F_sub_status s) j = j\<lparr>sub_status := s\<rparr>"
| "apply_field (F_env_vars e) j = j\<lparr>env_vars := e\<rparr>"
| "apply_field (F_fleet_id f) j = j\<lparr>fleet_id := f\<rparr>"
| "apply_field (F_fleet_deleted_at t) j = j\<lparr>fleet_deleted_at := t\<rparr>"
| "apply_field (F_ray_job_id r) j = j\<lparr>ray_job_id := r\<rparr>"
| "apply_field (F_compute_resource c) j = j\<lparr>job_compute_resource := c\<rparr>"
| "apply_field (F_updated t) j = j\<lparr>updated := t\<rparr>"

fun getattr :: "field_name \<Rightarrow> job \<Rightarrow> job_field" where
  "getattr N_status j = F_status (status j)"
| "getattr N_sub_status j = F_sub_status (sub_status j)"
| "getattr N_env_vars j = F_env_vars (env_vars j)"
| "getattr N_fleet_id j = F_fleet_id (fleet_id j)"
| "getattr N_fleet_deleted_at j = F_fleet_deleted_at (fleet_deleted_at j)"
| "getattr N_ray_job_id j = F_ray_job_id (ray_job_id j)"
| "getattr N_compute_resource j = F_compute_resource (job_compute_resource j)"
| "getattr N_updated j = F_updated (updated j)"

definition apply_fields :: "job_field list \<Rightarrow> job \<Rightarrow> job" where
  "apply_fields fs j = fold apply_field fs j"

text \<open>The UPDATE of the row, then \<open>refresh_from_db(fields=["version"])\<close>, which raises when there is no row.\<close>

definition write_row :: "job_field list \<Rightarrow> job \<times> db \<Rightarrow> unit res \<times> job \<times> db" where
  "write_row fs = (\<lambda>(j, d).
     let d' = d\<lparr>job_tbl := upd_rows job_id (job_id j)
                  (\<lambda>r. (apply_fields fs r)\<lparr>version := version r + 1\<rparr>) (job_tbl d)\<rparr>
     in case job_row d' (job_id j) of
          None \<Rightarrow> (Inl DoesNotExist, j, d')
        | Some r \<Rightarrow> (Inr (), j\<lparr>version := version r\<rparr>, d'))"

definition update_fields :: "int \<Rightarrow> job_field list \<Rightarrow> job \<times> db \<Rightarrow> unit res \<times> job \<times> db" where
  "update_fields now fields_map = (\<lambda>(j, d).
     let fs = F_updated now # fields_map in write_row fs (apply_fields fs j, d))"

definition save_direct :: "int \<Rightarrow> field_name list \<Rightarrow> job \<times> db \<Rightarrow> unit res \<times> job \<times> db" where
  "save_direct now names = (\<lambda>(j, d).
     let fs = map (\<lambda>n. getattr n j) names;
         fs' = (if N_updated \<in> set names then fs else fs @ [F_updated now])
     in write_row fs' ((if N_updated \<in> set names then j else j\<lparr>updated := now\<rparr>), d))"

subsection \<open>What a write changes\<close>

fun sets_status :: "job_field \<Rightarrow> bool" where
  "sets_status (F_status _) = True"
| "sets_status _ = False"

lemma apply_field_const [simp]:
  "job_id (apply_field f j) = job_id j" "runner (apply_field f j) = runner j"
  "filler (apply_field f j) = filler j" "instance_crn (apply_field f j) = instance_crn j"
  "job_program (apply_field f j) = job_program j" "author (apply_field f j) = author j"
  "created (apply_field f j) = created j" "version (apply_field f j) = version j"
  "business_model (apply_field f j) = business_model j"
  "compute_profile_fk (apply_field f j) = compute_profile_fk j"
  "function_size_name (apply_field f j) = function_size_name j"
  "job_function_size (apply_field f j) = job_function_size j"
  by (cases f; simp)+

lemma apply_field_status: "\<not> sets_status f \<Longrightarrow> status (apply_field f j) = status j"
  by (cases f) auto

lemma apply_fields_simps [simp]:
  "apply_fields [] j = j" "apply_fields (f # fs) j = apply_fields fs (apply_field f j)"
  by (simp_all add: apply_fields_def)

lemma apply_fields_const [simp]:
  "job_id (apply_fields fs j) = job_id j" "runner (apply_fields fs j) = runner j"
  "filler (apply_fields fs j) = filler j" "instance_crn (apply_fields fs j) = instance_crn j"
  "job_program (apply_fields fs j) = job_program j" "author (apply_fields fs j) = author j"
  "created (apply_fields fs j) = created j" "version (apply_fields fs j) = version j"
  "business_model (apply_fields fs j) = business_model j"
  "compute_profile_fk (apply_fields fs j) = compute_profile_fk j"
  "function_size_name (apply_fields fs j) = function_size_name j"
  "job_function_size (apply_fields fs j) = job_function_size j"
  by (induction fs arbitrary: j) simp_all

lemma apply_fields_status: "\<forall>f \<in> set fs. \<not> sets_status f \<Longrightarrow> status (apply_fields fs j) = status j"
  by (induction fs arbitrary: j) (simp_all add: apply_field_status)

lemma write_row_tables [frame_simps]:
  "write_row fs (j, d) = (r, j', d') \<Longrightarrow>
    event_tbl d' = event_tbl d \<and> outbox_tbl d' = outbox_tbl d \<and> outbox_seq d' = outbox_seq d \<and>
    mirror_tbl d' = mirror_tbl d \<and> blocked_tbl d' = blocked_tbl d"
  by (auto simp: write_row_def Let_def split: option.splits)

lemma write_row_job_row:
  assumes "write_row fs (j, d) = (r, j', d')"
  shows "job_row d' i = (if i = job_id j
      then map_option (\<lambda>x. (apply_fields fs x)\<lparr>version := version x + 1\<rparr>) (job_row d i)
      else job_row d i)"
  using assms by (auto simp: write_row_def job_row_def Let_def row_of_upd_rows split: option.splits)

lemma write_row_outcome:
  assumes "write_row fs (j, d) = (r, j', d')"
  shows "(r = Inr () \<and> job_row d (job_id j) \<noteq> None \<or> r = Inl DoesNotExist \<and> job_row d (job_id j) = None) \<and>
    (\<exists>v. j' = j\<lparr>version := v\<rparr>) \<and> map job_id (job_tbl d') = map job_id (job_tbl d)"
proof -
  have v: "\<exists>v. j = j\<lparr>version := v\<rparr>" by (metis job.surjective job.update_convs(15))
  show ?thesis
    using assms v
    by (auto simp: write_row_def job_row_def Let_def row_of_upd_rows split: option.splits)
qed

lemma update_fields_tables [frame_simps]:
  "update_fields now fs (j, d) = (r, j', d') \<Longrightarrow>
    event_tbl d' = event_tbl d \<and> outbox_tbl d' = outbox_tbl d \<and> outbox_seq d' = outbox_seq d \<and>
    mirror_tbl d' = mirror_tbl d \<and> blocked_tbl d' = blocked_tbl d"
  unfolding update_fields_def by (simp add: Let_def write_row_tables)

text \<open>
  The instance and the row hold the same values in the written columns afterwards, the row of no
  other job changes, and \<open>updated\<close> is stamped unless the caller passed it.
\<close>

lemma update_fields_row:
  assumes "update_fields now fs (j, d) = (r, j', d')"
  shows "job_row d' i = (if i = job_id j
      then map_option (\<lambda>x. (apply_fields (F_updated now # fs) x)\<lparr>version := version x + 1\<rparr>) (job_row d i)
      else job_row d i)"
  using assms unfolding update_fields_def by (simp add: Let_def write_row_job_row)

lemma update_fields_outcome:
  assumes "update_fields now fs (j, d) = (r, j', d')"
  shows "(r = Inr () \<and> job_row d (job_id j) \<noteq> None \<or> r = Inl DoesNotExist \<and> job_row d (job_id j) = None) \<and>
    (\<exists>v. j' = (apply_fields (F_updated now # fs) j)\<lparr>version := v\<rparr>) \<and>
    map job_id (job_tbl d') = map job_id (job_tbl d)"
  using write_row_outcome [of "F_updated now # fs" "apply_fields (F_updated now # fs) j" d r j' d'] assms
  by (simp add: update_fields_def Let_def)

section \<open>Blocked cloud resources\<close>

text \<open>
  \<open>BlockedCloudResource.blocks\<close> and \<open>blocked_jobs_filter\<close>. A filter on a nullable column with
  None is SQL \<open>IS NULL\<close>, so None matches None only. A clause of the filter is the tuple of values
  the disjunct compares; the region of a clause is compared with the CRN through the regular
  expression, and a null CRN matches no regular expression.
\<close>

type_synonym block_clause = "string option \<times> string option \<times> string option \<times> string option"

definition blocks ::
  "(ConfigKey \<Rightarrow> string) \<Rightarrow> blocked_row list \<Rightarrow> string option \<Rightarrow> string option \<Rightarrow> string option \<Rightarrow>
   string option \<Rightarrow> bool" where
  "blocks conf rows acc pln sub region =
     (if \<not> cfg_bool (conf BLOCKED_JOBS_STOP_ENABLED) then False
      else
        let rs = filter (\<lambda>r. bl_account r = acc \<and> bl_plan r = pln \<and> bl_subscription r = sub) rows;
            rs' = (if cfg_bool (conf BLOCKED_RESOURCES_REGIONAL)
                   then filter (\<lambda>r. Some (bl_region r) = region) rs else rs)
        in rs' \<noteq> [])"

definition blocked_jobs_filter ::
  "(ConfigKey \<Rightarrow> string) \<Rightarrow> blocked_row list \<Rightarrow> block_clause list option" where
  "blocked_jobs_filter conf rows =
     (if \<not> cfg_bool (conf BLOCKED_JOBS_STOP_ENABLED) then None
      else
        let clauses = remdups (map (\<lambda>r. (bl_account r, bl_plan r, bl_subscription r,
              if cfg_bool (conf BLOCKED_RESOURCES_REGIONAL) then Some (bl_region r) else None)) rows)
        in if clauses = [] then None else Some clauses)"

fun clause_matches :: "block_clause \<Rightarrow> job \<Rightarrow> bool" where
  "clause_matches (acc, pln, sub, region) j \<longleftrightarrow>
     account_id j = acc \<and> plan_id j = pln \<and> subscription_id j = sub \<and>
     (case region of None \<Rightarrow> True
      | Some rg \<Rightarrow> (case instance_crn j of None \<Rightarrow> False | Some s \<Rightarrow> region_crn_regex rg s))"

definition filter_matches :: "block_clause list option \<Rightarrow> job \<Rightarrow> bool" where
  "filter_matches q j \<longleftrightarrow> (case q of None \<Rightarrow> False | Some cs \<Rightarrow> list_ex (\<lambda>c. clause_matches c j) cs)"

definition job_region :: "job \<Rightarrow> string option" where
  "job_region j = map_option crn_region (Crn_parse (instance_crn j))"

text \<open>
  The two readers of the blocked set agree. When every stored region is a non-empty text without
  a colon, the job filter the scheduler uses to hold back and stop jobs selects a job exactly when
  \<open>BlockedCloudResource.blocks\<close> answers yes for the job's account, plan, subscription and the
  region of its instance CRN, under every setting of the two configuration flags.
\<close>

theorem blocked_jobs_filter_blocks:
  assumes "\<forall>r \<in> set rows. bl_region r \<noteq> [] \<and> CHR '':'' \<notin> set (bl_region r)"
  shows "filter_matches (blocked_jobs_filter conf rows) j \<longleftrightarrow>
    blocks conf rows (account_id j) (plan_id j) (subscription_id j) (job_region j)"
proof -
  have regional: "(case instance_crn j of None \<Rightarrow> False | Some s \<Rightarrow> region_crn_regex (bl_region r) s)
      \<longleftrightarrow> job_region j = Some (bl_region r)" if "r \<in> set rows" for r
    using assms that region_crn_regex_iff [of "bl_region r"]
    by (auto simp: job_region_def Crn_parse_def split: option.splits)
  show ?thesis
    using regional
    by (auto simp: filter_matches_def blocked_jobs_filter_def blocks_def Let_def list_ex_iff
        filter_empty_conv) metis+
qed

theorem blocked_jobs_filter_blocks_witness:
  "filter_matches (blocked_jobs_filter (\<lambda>_. ''true'')
      [\<lparr>bl_account = Some ''acc'', bl_plan = Some ''p'', bl_subscription = Some ''s'',
        bl_reason = ''total'', bl_region = ''us-east''\<rparr>])
      ((Job_new ''j1'' \<lparr>user_id = 1, username = ''u'', is_active = True, user_groups = []\<rparr> 0)
        \<lparr>account_id := Some ''acc'', plan_id := Some ''p'', subscription_id := Some ''s'',
         instance_crn := Some ''crn:v1:bluemix:public:quantum-computing:us-east:a/acc:inst::''\<rparr>)"
  (is "filter_matches (blocked_jobs_filter ?conf ?rows) ?job")
proof -
  have "\<forall>r \<in> set ?rows. bl_region r \<noteq> [] \<and> CHR '':'' \<notin> set (bl_region r)" by simp
  note agree = blocked_jobs_filter_blocks [OF this, of ?conf ?job]
  have "job_region ?job = Some ''us-east''"
    by (simp add: job_region_def crn_examples)
  then have "blocks ?conf ?rows (account_id ?job) (plan_id ?job) (subscription_id ?job) (job_region ?job)"
    by (simp add: blocks_def Let_def cfg_bool_def lower_def lower_char_def)
  then show ?thesis using agree by blast
qed

end
