(* ===== verification/Job_Events.thy ===== *)
theory Job_Events
  imports Models
begin

text \<open>
  The event history of jobs (\<^verbatim>\<open>core/model_managers/job_events.py\<close>). An event is appended to the
  table with the moment of its creation; the times of the first RUNNING and the first terminal status
  are read back from it.
\<close>

definition add_event :: "job_event \<Rightarrow> db \<Rightarrow> db" where
  "add_event e d = d\<lparr>event_tbl := event_tbl d @ [e]\<rparr>"

definition add_status_event ::
  "int \<Rightarrow> string \<Rightarrow> JobEventOrigin \<Rightarrow> JobEventContext \<Rightarrow> Status \<Rightarrow> db \<Rightarrow> job_event \<times> db" where
  "add_status_event now i origin ctx s d =
     (let e = \<lparr>je_job = i, je_type = STATUS_CHANGE, je_origin = origin, je_context = ctx,
               je_created = now, je_data = StatusData s\<rparr> in (e, add_event e d))"

definition add_sub_status_event ::
  "int \<Rightarrow> string \<Rightarrow> JobEventOrigin \<Rightarrow> JobEventContext \<Rightarrow> SubStatus option \<Rightarrow> db \<Rightarrow> job_event \<times> db" where
  "add_sub_status_event now i origin ctx s d =
     (let e = \<lparr>je_job = i, je_type = SUB_STATUS_CHANGE, je_origin = origin, je_context = ctx,
               je_created = now, je_data = SubStatusData s\<rparr> in (e, add_event e d))"

definition add_error_event ::
  "int \<Rightarrow> string \<Rightarrow> JobEventOrigin \<Rightarrow> JobEventContext \<Rightarrow> string \<Rightarrow> string \<Rightarrow> string \<Rightarrow> error_args \<Rightarrow> db \<Rightarrow>
   job_event \<times> db" where
  "add_error_event now i origin ctx code message exception args d =
     (let e = \<lparr>je_job = i, je_type = ERROR, je_origin = origin, je_context = ctx,
               je_created = now, je_data = ErrorData code message exception args\<rparr> in (e, add_event e d))"

fun data_status :: "event_data \<Rightarrow> Status option" where
  "data_status (StatusData s) = Some s"
| "data_status _ = None"

definition is_status_event :: "(Status \<Rightarrow> bool) \<Rightarrow> job_event \<Rightarrow> bool" where
  "is_status_event P e \<longleftrightarrow> je_type e = STATUS_CHANGE \<and>
     (case data_status (je_data e) of None \<Rightarrow> False | Some s \<Rightarrow> P s)"

definition running_status_events :: "job_event list \<Rightarrow> job_event list" where
  "running_status_events es = sort_key je_created (filter (is_status_event (\<lambda>s. s = RUNNING)) es)"

definition first_running_at :: "string \<Rightarrow> db \<Rightarrow> int option" where
  "first_running_at i d =
     (case running_status_events (filter (\<lambda>e. je_job e = i) (event_tbl d)) of
        [] \<Rightarrow> None | e # _ \<Rightarrow> Some (je_created e))"

definition first_terminal_at :: "string \<Rightarrow> db \<Rightarrow> int option" where
  "first_terminal_at i d =
     (case sort_key je_created
        (filter (\<lambda>e. je_job e = i \<and> is_status_event (\<lambda>s. s \<in> set TERMINAL_STATUSES) e) (event_tbl d)) of
        [] \<Rightarrow> None | e # _ \<Rightarrow> Some (je_created e))"

definition get_job_events :: "string \<Rightarrow> JobEventType option \<Rightarrow> db \<Rightarrow> job_event list" where
  "get_job_events i ty d =
     (let es = filter (\<lambda>e. je_job e = i) (event_tbl d)
      in case ty of None \<Rightarrow> es | Some t \<Rightarrow> filter (\<lambda>e. je_type e = t) es)"

text \<open>The statuses a job went through, in the order the events were written.\<close>

definition status_history :: "string \<Rightarrow> db \<Rightarrow> Status list" where
  "status_history i d =
     List.map_filter (\<lambda>e. if je_job e = i \<and> je_type e = STATUS_CHANGE
        then data_status (je_data e) else None) (event_tbl d)"

section \<open>Facts\<close>

lemma add_event_tables [simp]:
  "job_tbl (add_event e d) = job_tbl d" "outbox_tbl (add_event e d) = outbox_tbl d"
  "outbox_seq (add_event e d) = outbox_seq d" "mirror_tbl (add_event e d) = mirror_tbl d"
  "blocked_tbl (add_event e d) = blocked_tbl d" "event_tbl (add_event e d) = event_tbl d @ [e]"
  "job_row (add_event e d) i = job_row d i"
  by (simp_all add: add_event_def job_row_def)

lemma status_history_add_event:
  "status_history i (add_event e d) = status_history i d @
     (if je_job e = i \<and> je_type e = STATUS_CHANGE
      then (case data_status (je_data e) of None \<Rightarrow> [] | Some s \<Rightarrow> [s]) else [])"
  by (simp add: status_history_def List.map_filter_def split: option.splits)

lemma status_history_events_cong:
  "event_tbl d = event_tbl d' \<Longrightarrow> status_history i d = status_history i d'"
  by (simp add: status_history_def)

lemma sort_key_hd_least:
  assumes "sort_key f xs = y # ys"
  shows "y \<in> set xs \<and> (\<forall>x \<in> set xs. f y \<le> f x)"
proof -
  have sorted: "sorted (map f (y # ys))" and elems: "set xs = set (y # ys)"
    using assms sorted_sort_key [of f xs] set_sort [of f xs] by simp_all
  from sorted show ?thesis unfolding elems by auto
qed

lemma first_of_sort_key:
  "(case sort_key f xs of [] \<Rightarrow> None | y # _ \<Rightarrow> Some (f y)) =
     (if xs = [] then None else Some (Min (f ` set xs)))"
proof (cases "sort_key f xs")
  case Nil
  then have "length xs = 0" by (metis length_sort list.size(3))
  with Nil show ?thesis by simp
next
  case (Cons y ys)
  then have "xs \<noteq> []" by auto
  with Cons sort_key_hd_least [OF Cons] show ?thesis
    by (auto intro!: Min_eqI [symmetric])
qed

text \<open>The first RUNNING time is the earliest creation time among the RUNNING events of the job.\<close>

lemma first_running_at_Min:
  "first_running_at i d =
     (let ts = je_created ` {e \<in> set (event_tbl d). je_job e = i \<and> is_status_event (\<lambda>s. s = RUNNING) e}
      in if ts = {} then None else Some (Min ts))"
proof -
  let ?es = "filter (is_status_event (\<lambda>s. s = RUNNING)) (filter (\<lambda>e. je_job e = i) (event_tbl d))"
  let ?S = "{e \<in> set (event_tbl d). je_job e = i \<and> is_status_event (\<lambda>s. s = RUNNING) e}"
  have S: "set ?es = ?S" by auto
  have empty: "?es = [] \<longleftrightarrow> je_created ` ?S = {}"
    by (auto simp: filter_empty_conv)
  show ?thesis
    unfolding first_running_at_def running_status_events_def first_of_sort_key Let_def empty S ..
qed

lemma status_history_mem:
  "s \<in> set (status_history i d) \<longleftrightarrow>
     (\<exists>e \<in> set (event_tbl d). je_job e = i \<and> je_type e = STATUS_CHANGE \<and> data_status (je_data e) = Some s)"
  by (auto simp: status_history_def set_map_filter split: if_splits)

lemma first_running_at_None:
  "first_running_at i d = None \<longleftrightarrow> RUNNING \<notin> set (status_history i d)"
  by (auto simp: first_running_at_Min status_history_mem is_status_event_def Let_def
      split: option.splits)

end
