(* ===== verification/Billing_Events.thy ===== *)
theory Billing_Events
  imports Job_Events
begin

text \<open>
  The messages about a job's usage (\<^verbatim>\<open>core/domain/billing_events.py\<close>) and the billing names of the
  business models (\<^verbatim>\<open>core/domain/business_models.py\<close>). A moment is kept as an instant instead
  of its ISO text. \<open>uid\<close> is the fresh \<open>uuid4\<close> and \<open>now\<close> the clock reading of the envelope.
\<close>

definition BILLING_NAMES :: "string \<rightharpoonup> string" where
  "BILLING_NAMES =
     [''SUBSIDIZED'' \<mapsto> ''licensed'', ''LICENSED'' \<mapsto> ''licensed'', ''TRIAL'' \<mapsto> ''trial'',
      ''CONSUMPTION'' \<mapsto> ''consumption'']"

definition billing_name_for :: "string \<Rightarrow> string res" where
  "billing_name_for m =
     (case BILLING_NAMES m of Some n \<Rightarrow> Inr n | None \<Rightarrow> Inl (ValueError ''No billing name''))"

definition LICENSE_FEE_METRIC_TYPE :: string where
  "LICENSE_FEE_METRIC_TYPE = ''license''"

definition CLASSICAL_TIME_METRIC_TYPE_PREFIX :: string where
  "CLASSICAL_TIME_METRIC_TYPE_PREFIX = ''classical''"

definition envelope :: "string \<Rightarrow> int \<Rightarrow> job \<Rightarrow> billing_data \<Rightarrow> billing_message" where
  "envelope uid now j bd =
     \<lparr>specversion = ''1.0'', message_id = uid, msg_source = ''qiskit-serverless/scheduler/fleets'',
      message_time = now, subject = job_id j, datacontenttype = ''application/json'', msg_data = bd\<rparr>"

text \<open>
  \<open>_usage_seconds\<close>: whole seconds rounded up, never negative. An instant is in microseconds, so
  \<open>math.ceil(delta.total_seconds())\<close> is the ceiling of a division by one million.
\<close>

definition usage_seconds :: "int option \<Rightarrow> int \<Rightarrow> int" where
  "usage_seconds started as_of =
     (case started of None \<Rightarrow> 0 | Some t \<Rightarrow> max 0 (- ((- (as_of - t)) div 1000000)))"

definition classical_metric_type :: "job \<Rightarrow> string" where
  "classical_metric_type j =
     join_with ''_'' (CLASSICAL_TIME_METRIC_TYPE_PREFIX #
       (if truthy (compute_profile_id j) then [the (compute_profile_id j)] else []))"

text \<open>
  \<open>build_license_fee\<close> raises AttributeError when the job has no program, no provider or no size
  label, and ValueError for a business model without a billing name.
\<close>

definition build_license_fee :: "string \<Rightarrow> int \<Rightarrow> job \<Rightarrow> int option \<Rightarrow> billing_message res" where
  "build_license_fee uid now j started =
     (case job_program j of
        None \<Rightarrow> Inl (AttributeError ''provider'')
      | Some p \<Rightarrow>
          (case program_provider p of
             None \<Rightarrow> Inl (AttributeError ''name'')
           | Some pr \<Rightarrow>
               (case size_label j of
                  None \<Rightarrow> Inl (AttributeError ''lower'')
                | Some lbl \<Rightarrow>
                    (case billing_name_for (business_model j) of
                       Inl e \<Rightarrow> Inl e
                     | Inr bm \<Rightarrow>
                         Inr (envelope uid now j
                           \<lparr>metric_type = join_with ''_'' [LICENSE_FEE_METRIC_TYPE, provider_name pr,
                              title p, lower lbl],
                            metric_value = 1, bd_instance_crn = instance_crn j, resource_id = job_id j,
                            job_started = True, job_started_at = started, job_completed = True,
                            bd_business_model = Some bm\<rparr>)))))"

text \<open>
  \<open>build_job_usage\<close> calls \<open>job_started_at.isoformat()\<close> without a test, so a job with no start
  time raises AttributeError.
\<close>

definition build_job_usage ::
  "string \<Rightarrow> int \<Rightarrow> job \<Rightarrow> int option \<Rightarrow> int option \<Rightarrow> billing_message res" where
  "build_job_usage uid now j started last_progress =
     (let just_started = (last_progress = None);
          secs = (if just_started then 0 else usage_seconds started (the last_progress))
      in case started of
           None \<Rightarrow> Inl (AttributeError ''isoformat'')
         | Some t \<Rightarrow>
             Inr (envelope uid now j
               \<lparr>metric_type = classical_metric_type j, metric_value = secs,
                bd_instance_crn = instance_crn j, resource_id = job_id j, job_started = just_started,
                job_started_at = Some t, job_completed = False, bd_business_model = None\<rparr>))"

definition build_job_completed_event ::
  "string \<Rightarrow> int \<Rightarrow> job \<Rightarrow> int option \<Rightarrow> int \<Rightarrow> billing_message" where
  "build_job_completed_event uid now j started finished =
     envelope uid now j
       \<lparr>metric_type = classical_metric_type j, metric_value = usage_seconds started finished,
        bd_instance_crn = instance_crn j, resource_id = job_id j, job_started = False,
        job_started_at = started, job_completed = True, bd_business_model = None\<rparr>"

section \<open>Facts\<close>

lemma ceil_bounds:
  fixes a :: int
  shows "a \<le> - ((- a) div 1000000) * 1000000" "- ((- a) div 1000000) * 1000000 < a + 1000000"
proof -
  have "- a = ((- a) div 1000000) * 1000000 + (- a) mod 1000000"
    by (simp only: div_mult_mod_eq)
  moreover have "0 \<le> (- a) mod 1000000" "(- a) mod 1000000 < 1000000"
    by simp_all
  ultimately show "a \<le> - ((- a) div 1000000) * 1000000" "- ((- a) div 1000000) * 1000000 < a + 1000000"
    by linarith+
qed

text \<open>
  Billed usage is the exact number of started seconds: zero for a job that never ran or whose
  end precedes its start, otherwise the least number of whole seconds that covers the interval;
  it never decreases as time passes and never exceeds the elapsed time by a full second.
\<close>

theorem usage_seconds_exact:
  "usage_seconds None t = 0 \<and>
   (e \<le> s \<longrightarrow> usage_seconds (Some s) e = 0) \<and>
   (s \<le> e \<longrightarrow> e - s \<le> usage_seconds (Some s) e * 1000000 \<and>
              usage_seconds (Some s) e * 1000000 < (e - s) + 1000000) \<and>
   (e \<le> e' \<longrightarrow> usage_seconds (Some s) e \<le> usage_seconds (Some s) e')"
proof -
  have mono: "- ((- a) div 1000000) \<le> - ((- b) div 1000000)" if "a \<le> b" for a b :: int
    using that by (simp add: zdiv_mono1)
  have neg: "- ((- a) div 1000000) \<le> 0" if "a \<le> 0" for a :: int
    using that by (simp add: pos_imp_zdiv_nonneg_iff)
  have pos: "0 \<le> - ((- a) div 1000000)" if "0 \<le> a" for a :: int
    using mono [OF that] by simp
  show ?thesis
    using neg [of "e - s"] pos [of "e - s"] ceil_bounds [of "e - s"]
      mono [of "e - s" "e' - s"]
    by (auto simp: usage_seconds_def max_def)
qed

theorem usage_seconds_exact_witness:
  "usage_seconds (Some 0) 1500000 = 2 \<and> usage_seconds (Some 0) 2000000 = 2 \<and>
   usage_seconds (Some 5) 3 = 0 \<and> usage_seconds (Some 0) 1500000 \<le> usage_seconds (Some 0) 2000000"
  using usage_seconds_exact [of 0 1500000 0 2000000] usage_seconds_exact [of 0 3 5 3]
  by (simp add: usage_seconds_def)

lemma build_license_fee_ok:
  "(\<exists>m. build_license_fee uid now j started = Inr m) \<longleftrightarrow>
     (\<exists>p pr. job_program j = Some p \<and> program_provider p = Some pr) \<and> size_label j \<noteq> None \<and>
     business_model j \<in> {''SUBSIDIZED'', ''LICENSED'', ''TRIAL'', ''CONSUMPTION''}"
  by (auto simp: build_license_fee_def billing_name_for_def BILLING_NAMES_def
      split: option.splits sum.splits if_splits)

end
