(* ===== verification/Background_Executor.thy ===== *)
theory Background_Executor
  imports Prelude
begin

text \<open>
  The shared thread pool of \<^verbatim>\<open>core/services/background_executor.py\<close>. A \<open>cycle\<close> is the state
  between \<open>init()\<close> and \<open>shutdown()\<close>; every operation that runs under the condition of the
  cycle is one atomic function on it. Threads and callers interleave: taking a task, starting it,
  finishing it, cancelling a future and running the done callback of a cancelled future are separate
  steps of the relation \<open>exec_step\<close>. Pools are a parameter \<open>'p\<close> (the members of the enum
  \<open>BackgroundPool\<close>), tasks are numbered in the order \<open>submit\<close> accepted them.
\<close>

section \<open>State\<close>

datatype BackgroundPool = RUNTIME_API

datatype TaskOutcome = COMPLETED | TASK_FAILED | CANCELED | REPLACED

datatype DropReason = FULL | SHUT_DOWN

text \<open>The states of \<open>concurrent.futures.Future\<close>.\<close>

datatype fut = F_PENDING | F_RUNNING | F_CANCELLED | F_CANCELLED_AND_NOTIFIED | F_FINISHED

record ('p, 'a) task =
  t_pool :: 'p
  t_fn :: "'a option"
  t_key :: "string option"
  t_fut :: fut
  t_replaced :: bool

text \<open>
  \<open>queues\<close> to \<open>stopping\<close> are the attributes of \<open>_Cycle\<close>, \<open>m_pending\<close> to \<open>m_dropped\<close>
  the metrics. \<open>taken\<close> lists the tasks the threads hold: a thread holds at most one, so a free
  thread exists as long as it is shorter than \<open>max_workers\<close>. \<open>callbacks\<close> lists the tasks
  whose future was cancelled and whose done callback still has to get the lock. \<open>accepted\<close>
  counts the accepted tasks, to state that each one is accounted for once.
\<close>

record ('p, 'a) cycle =
  max_workers :: nat
  pool_limit :: nat
  queues :: "'p \<Rightarrow> nat list"
  running :: "'p \<Rightarrow> nat"
  served :: "'p \<Rightarrow> nat"
  clock :: nat
  stopping :: bool
  tasks :: "nat \<Rightarrow> ('p, 'a) task"
  next_task :: nat
  taken :: "nat list"
  callbacks :: "nat list"
  m_pending :: "'p \<Rightarrow> int"
  m_running :: "'p \<Rightarrow> int"
  m_tasks :: "'p \<Rightarrow> TaskOutcome \<Rightarrow> nat"
  m_dropped :: "'p \<Rightarrow> DropReason \<Rightarrow> nat"
  accepted :: "'p \<Rightarrow> nat"

record pool_status =
  ps_queued :: nat
  ps_running :: nat
  ps_free_slots :: nat
  ps_idle_workers :: nat

text \<open>
  \<open>BackgroundExecutor.init\<close>: \<open>pools\<close> is the list of members of the enum. The gauges start at
  zero. \<open>owner\<close> says whether this process already has a pool.
\<close>

definition Cycle_new :: "nat \<Rightarrow> nat \<Rightarrow> ('p, 'a) cycle" where
  "Cycle_new workers limit =
     \<lparr>max_workers = workers, pool_limit = limit, queues = (\<lambda>_. []), running = (\<lambda>_. 0),
      served = (\<lambda>_. 0), clock = 0, stopping = False, tasks = (\<lambda>_. undefined), next_task = 0,
      taken = [], callbacks = [], m_pending = (\<lambda>_. 0), m_running = (\<lambda>_. 0),
      m_tasks = (\<lambda>_ _. 0), m_dropped = (\<lambda>_ _. 0), accepted = (\<lambda>_. 0)\<rparr>"

definition executor_init :: "'p list \<Rightarrow> bool \<Rightarrow> int \<Rightarrow> int \<Rightarrow> ('p, 'a) cycle res" where
  "executor_init pools owner workers max_pending =
     (if owner then Inl (RuntimeError ''already initialized'')
      else if workers < 1 \<or> max_pending < 0 then Inl (ValueError ''max_workers'')
      else Inr (Cycle_new (nat workers) (nat (max_pending div int (length pools)))))"

section \<open>Operations under the lock\<close>

definition set_fut :: "nat \<Rightarrow> fut \<Rightarrow> ('p, 'a) cycle \<Rightarrow> ('p, 'a) cycle" where
  "set_fut t f c = c\<lparr>tasks := (tasks c)(t := (tasks c t)\<lparr>t_fut := f\<rparr>)\<rparr>"

definition release_task :: "nat \<Rightarrow> ('p, 'a) cycle \<Rightarrow> ('p, 'a) cycle" where
  "release_task t c = c\<lparr>tasks := (tasks c)(t := (tasks c t)\<lparr>t_fn := None\<rparr>)\<rparr>"

definition replace_task :: "nat \<Rightarrow> ('p, 'a) cycle \<Rightarrow> ('p, 'a) cycle" where
  "replace_task t c =
     release_task t (c\<lparr>tasks := (tasks c)(t := (tasks c t)\<lparr>t_replaced := True\<rparr>)\<rparr>)"

definition count_task :: "'p \<Rightarrow> TaskOutcome \<Rightarrow> ('p, 'a) cycle \<Rightarrow> ('p, 'a) cycle" where
  "count_task p oc c = c\<lparr>m_tasks := (m_tasks c)(p := (m_tasks c p)(oc := Suc (m_tasks c p oc)))\<rparr>"

text \<open>\<open>Future.cancelled()\<close>: true in both cancelled states.\<close>

definition cancelled :: "('p, 'a) cycle \<Rightarrow> nat \<Rightarrow> bool" where
  "cancelled c t \<longleftrightarrow> t_fut (tasks c t) = F_CANCELLED \<or> t_fut (tasks c t) = F_CANCELLED_AND_NOTIFIED"

text \<open>
  \<open>Future.set_running_or_notify_cancel()\<close>: \<open>None\<close> stands for the exception it raises when the
  future is in any other state.
\<close>

definition set_running_or_notify_cancel :: "nat \<Rightarrow> ('p, 'a) cycle \<Rightarrow> (bool \<times> ('p, 'a) cycle) option" where
  "set_running_or_notify_cancel t c =
     (case t_fut (tasks c t) of
        F_CANCELLED \<Rightarrow> Some (False, set_fut t F_CANCELLED_AND_NOTIFIED c)
      | F_PENDING \<Rightarrow> Some (True, set_fut t F_RUNNING c)
      | _ \<Rightarrow> None)"

definition waiting_index :: "('p, 'a) cycle \<Rightarrow> 'p \<Rightarrow> string \<Rightarrow> nat option" where
  "waiting_index c p k =
     find (\<lambda>i. t_key (tasks c (queues c p ! i)) = Some k) [0..<length (queues c p)]"

definition pending :: "('p, 'a) cycle \<Rightarrow> 'p \<Rightarrow> nat" where
  "pending c p = length (queues c p) + running c p"

text \<open>
  \<open>enqueue\<close> of the new task \<open>t\<close>, already in the task store: the reason it was dropped, or the
  task it replaced.
\<close>

definition enqueue ::
  "'p \<Rightarrow> nat \<Rightarrow> ('p, 'a) cycle \<Rightarrow> (DropReason option \<times> nat option) \<times> ('p, 'a) cycle" where
  "enqueue p t c =
     (if stopping c then ((Some SHUT_DOWN, None), c)
      else
        (case (case t_key (tasks c t) of None \<Rightarrow> None | Some k \<Rightarrow> waiting_index c p k) of
           Some i \<Rightarrow>
             let old = queues c p ! i;
                 c1 = replace_task old (c\<lparr>queues := (queues c)(p := (queues c p)[i := t])\<rparr>);
                 oc = (if cancelled c1 old then CANCELED else REPLACED)
             in ((None, Some old), count_task p oc c1)
         | None \<Rightarrow>
             if pending c p \<ge> pool_limit c then ((Some FULL, None), c)
             else ((None, None),
                   c\<lparr>queues := (queues c)(p := queues c p @ [t]),
                     m_pending := (m_pending c)(p := m_pending c p + 1)\<rparr>)))"

text \<open>
  \<open>Future.cancel()\<close>: nothing for a running or finished future; a pending one is cancelled and its
  done callback has to run. On a future that is already cancelled it returns True and runs no
  callback again.
\<close>

definition future_cancel :: "nat \<Rightarrow> ('p, 'a) cycle \<Rightarrow> bool \<times> ('p, 'a) cycle" where
  "future_cancel t c =
     (case t_fut (tasks c t) of
        F_RUNNING \<Rightarrow> (False, c)
      | F_FINISHED \<Rightarrow> (False, c)
      | F_PENDING \<Rightarrow> (True, (set_fut t F_CANCELLED c)\<lparr>callbacks := t # callbacks c\<rparr>)
      | _ \<Rightarrow> (True, c))"

text \<open>
  \<open>forget_if_cancelled\<close>, the done callback of a cancelled future, once it holds the lock. It is
  registered for accepted tasks only, with the pool they were submitted to.
\<close>

definition forget_if_cancelled :: "nat \<Rightarrow> ('p, 'a) cycle \<Rightarrow> ('p, 'a) cycle" where
  "forget_if_cancelled t c =
     (let c = c\<lparr>callbacks := removeAll t (callbacks c)\<rparr>; p = t_pool (tasks c t) in
      if \<not> cancelled c t then c
      else if t_replaced (tasks c t) then c
      else if t \<notin> set (queues c p) then c
      else
        let c1 = count_task p CANCELED
                   (c\<lparr>queues := (queues c)(p := remove1 t (queues c p)),
                      m_pending := (m_pending c)(p := m_pending c p - 1)\<rparr>);
            c2 = release_task t c1
        in case set_running_or_notify_cancel t c2 of None \<Rightarrow> c2 | Some (_, c3) \<Rightarrow> c3)"

text \<open>
  \<open>Future.cancel()\<close> as a thread calls it that can run the done callback at once: the callback runs
  inside \<open>cancel()\<close>, and the condition of the cycle is reentrant. A future that was already
  cancelled keeps the callback of the thread that cancelled it.
\<close>

definition cancel_now :: "nat \<Rightarrow> ('p, 'a) cycle \<Rightarrow> bool \<times> ('p, 'a) cycle" where
  "cancel_now t c =
     (let (ok, c1) = future_cancel t c
      in (ok, if t_fut (tasks c t) = F_PENDING then forget_if_cancelled t c1 else c1))"

text \<open>
  \<open>submit\<close>: the new task takes the number \<open>next_task\<close>. A replaced task is cancelled and its
  waiters released right after the lock; its callback then finds \<open>replaced\<close> set.
\<close>

definition submit ::
  "'p \<Rightarrow> 'a \<Rightarrow> string option \<Rightarrow> ('p, 'a) cycle \<Rightarrow> nat option \<times> ('p, 'a) cycle" where
  "submit p fn k c =
     (let t = next_task c;
          c0 = c\<lparr>tasks := (tasks c)(t := \<lparr>t_pool = p, t_fn = Some fn, t_key = k, t_fut = F_PENDING,
                                          t_replaced = False\<rparr>)\<rparr>
      in case enqueue p t c0 of
           ((Some reason, _), _) \<Rightarrow>
             (None, c\<lparr>m_dropped := (m_dropped c)(p := (m_dropped c p)(reason := Suc (m_dropped c p reason)))\<rparr>)
         | ((None, replaced), c1) \<Rightarrow>
             let c2 = c1\<lparr>next_task := Suc t, accepted := (accepted c1)(p := Suc (accepted c1 p))\<rparr>;
                 c3 = (case replaced of None \<Rightarrow> c2
                       | Some old \<Rightarrow>
                           let c' = snd (cancel_now old c2)
                           in case set_running_or_notify_cancel old c' of None \<Rightarrow> c' | Some (_, c'') \<Rightarrow> c'')
             in (Some t, c3))"

definition would_accept :: "'p \<Rightarrow> string option \<Rightarrow> ('p, 'a) cycle \<Rightarrow> bool" where
  "would_accept p k c =
     (if stopping c then False
      else pending c p < pool_limit c \<or>
           (case k of None \<Rightarrow> False | Some key \<Rightarrow> waiting_index c p key \<noteq> None))"

definition discard :: "'p \<Rightarrow> string \<Rightarrow> ('p, 'a) cycle \<Rightarrow> bool \<times> ('p, 'a) cycle" where
  "discard p k c =
     (case waiting_index c p k of
        None \<Rightarrow> (False, c)
      | Some i \<Rightarrow> cancel_now (queues c p ! i) c)"

definition executor_status :: "'p list \<Rightarrow> 'p \<Rightarrow> ('p, 'a) cycle \<Rightarrow> pool_status" where
  "executor_status pools p c =
     \<lparr>ps_queued = length (queues c p), ps_running = running c p,
      ps_free_slots = nat (max 0 (int (pool_limit c) - int (pending c p))),
      ps_idle_workers = nat (max 0 (int (max_workers c) - int (\<Sum>q\<leftarrow>pools. running c q)))\<rparr>"

text \<open>\<open>_next_pool\<close>: among the pools with tasks waiting, the first with the least (running, served).\<close>

fun min_pool :: "('p, 'a) cycle \<Rightarrow> 'p \<Rightarrow> 'p list \<Rightarrow> 'p" where
  "min_pool c best [] = best"
| "min_pool c best (p # ps) =
     min_pool c (if running c p < running c best \<or>
                    (running c p = running c best \<and> served c p < served c best) then p else best) ps"

definition next_pool :: "'p list \<Rightarrow> ('p, 'a) cycle \<Rightarrow> 'p option" where
  "next_pool pools c =
     (case filter (\<lambda>p. queues c p \<noteq> []) pools of [] \<Rightarrow> None | p # ps \<Rightarrow> Some (min_pool c p ps))"

section \<open>Operations of a thread\<close>

text \<open>\<open>_work\<close> up to the end of its lock: \<open>None\<close> when the thread keeps waiting or returns.\<close>

definition work_take :: "'p list \<Rightarrow> ('p, 'a) cycle \<Rightarrow> (nat \<times> ('p, 'a) cycle) option" where
  "work_take pools c =
     (if stopping c then None
      else
        (case next_pool pools c of
           None \<Rightarrow> None
         | Some p \<Rightarrow>
             (case queues c p of
                [] \<Rightarrow> None
              | t # rest \<Rightarrow>
                  Some (t, c\<lparr>queues := (queues c)(p := rest),
                             running := (running c)(p := Suc (running c p)),
                             clock := Suc (clock c), served := (served c)(p := Suc (clock c)),
                             taken := t # taken c\<rparr>))))"

definition finish :: "'p \<Rightarrow> TaskOutcome \<Rightarrow> nat \<Rightarrow> ('p, 'a) cycle \<Rightarrow> ('p, 'a) cycle" where
  "finish p oc t c =
     (let c1 = count_task p oc c in
      c1\<lparr>m_pending := (m_pending c1)(p := m_pending c1 p - 1),
         running := (running c1)(p := running c1 p - 1), taken := remove1 t (taken c1)\<rparr>)"

text \<open>
  \<open>_execute\<close> in two steps. \<open>execute_start\<close> decides whether the task runs: a future cancelled in
  the meantime frees its slot and its waiters. \<open>execute_end\<close> is the return of the function
  (\<open>ok\<close>) or its exception; the slot is free before the future is resolved.
\<close>

definition execute_start :: "nat \<Rightarrow> ('p, 'a) cycle \<Rightarrow> ('p, 'a) cycle" where
  "execute_start t c =
     (let p = t_pool (tasks c t) in
      if cancelled c t then
        let c1 = finish p CANCELED t c
        in release_task t (case set_running_or_notify_cancel t c1 of None \<Rightarrow> c1 | Some (_, c2) \<Rightarrow> c2)
      else
        (case set_running_or_notify_cancel t c of
           Some (True, c1) \<Rightarrow> c1\<lparr>m_running := (m_running c1)(p := m_running c1 p + 1)\<rparr>
         | _ \<Rightarrow> c))"

definition execute_end :: "nat \<Rightarrow> bool \<Rightarrow> ('p, 'a) cycle \<Rightarrow> ('p, 'a) cycle" where
  "execute_end t ok c =
     (let p = t_pool (tasks c t);
          c1 = finish p (if ok then COMPLETED else TASK_FAILED) t
                 (c\<lparr>m_running := (m_running c)(p := m_running c p - 1)\<rparr>)
      in release_task t (set_fut t F_FINISHED c1))"

text \<open>
  \<open>shutdown\<close> under the lock: no thread takes a task any more and every queued future is cancelled;
  the done callback of each one runs in the same thread.
\<close>

definition shutdown :: "'p list \<Rightarrow> ('p, 'a) cycle \<Rightarrow> ('p, 'a) cycle" where
  "shutdown pools c =
     fold (\<lambda>p c'. fold (\<lambda>t c''. snd (cancel_now t c'')) (queues c' p) c') pools (c\<lparr>stopping := True\<rparr>)"

end
