(* ===== verification/Executor_Invariants.thy ===== *)
theory Executor_Invariants
  imports Background_Executor
begin

text \<open>
  The background executor as a transition system and what holds in every state it can reach: each
  accepted task is in exactly one place and counted once, a pool never exceeds its share, the threads
  never exceed \<open>max_workers\<close>, and at most one task waits under a key.
\<close>

section \<open>Steps\<close>

text \<open>
  Callers submit, cancel the future of an accepted task, discard and shut down; a done callback runs
  once the thread that cancelled gets the lock; a free thread takes a task, starts it and ends it.
\<close>

inductive exec_step :: "'p list \<Rightarrow> ('p, 'a) cycle \<Rightarrow> ('p, 'a) cycle \<Rightarrow> bool" for pools where
  step_submit: "exec_step pools c (snd (submit p fn k c))"
| step_take: "work_take pools c = Some (t, c') \<Longrightarrow> length (taken c) < max_workers c \<Longrightarrow> exec_step pools c c'"
| step_start: "t \<in> set (taken c) \<Longrightarrow> t_fut (tasks c t) \<noteq> F_RUNNING \<Longrightarrow> exec_step pools c (execute_start t c)"
| step_end: "t \<in> set (taken c) \<Longrightarrow> t_fut (tasks c t) = F_RUNNING \<Longrightarrow> exec_step pools c (execute_end t ok c)"
| step_cancel: "t < next_task c \<Longrightarrow> exec_step pools c (snd (future_cancel t c))"
| step_callback: "t \<in> set (callbacks c) \<Longrightarrow> exec_step pools c (forget_if_cancelled t c)"
| step_discard: "exec_step pools c (snd (discard p k c))"
| step_shutdown: "exec_step pools c (shutdown pools c)"

inductive exec_reach :: "'p list \<Rightarrow> nat \<Rightarrow> nat \<Rightarrow> ('p, 'a) cycle \<Rightarrow> bool" for pools workers limit where
  reach_init: "exec_reach pools workers limit (Cycle_new workers limit)"
| reach_step: "exec_reach pools workers limit c \<Longrightarrow> exec_step pools c c' \<Longrightarrow> exec_reach pools workers limit c'"

section \<open>The invariant\<close>

definition queue_ok :: "('p, 'a) cycle \<Rightarrow> bool" where
  "queue_ok c \<longleftrightarrow>
     (\<forall>p. distinct (queues c p)) \<and>
     (\<forall>p. \<forall>t \<in> set (queues c p). t < next_task c \<and> t_pool (tasks c t) = p \<and> \<not> t_replaced (tasks c t) \<and>
        t_fn (tasks c t) \<noteq> None \<and> t \<notin> set (taken c) \<and>
        (t_fut (tasks c t) = F_PENDING \<or> t_fut (tasks c t) = F_CANCELLED \<and> t \<in> set (callbacks c)))"

definition taken_ok :: "('p, 'a) cycle \<Rightarrow> bool" where
  "taken_ok c \<longleftrightarrow> distinct (taken c) \<and> length (taken c) \<le> max_workers c \<and>
     (\<forall>t \<in> set (taken c). t < next_task c \<and> t_fut (tasks c t) \<in> {F_PENDING, F_CANCELLED, F_RUNNING})"

definition settled :: "('p, 'a) cycle \<Rightarrow> nat \<Rightarrow> bool" where
  "settled c t \<longleftrightarrow> t_fut (tasks c t) \<in> {F_CANCELLED_AND_NOTIFIED, F_FINISHED}"

definition place_ok :: "('p, 'a) cycle \<Rightarrow> bool" where
  "place_ok c \<longleftrightarrow>
     (\<forall>t < next_task c. t \<in> set (queues c (t_pool (tasks c t))) \<or> t \<in> set (taken c) \<or> settled c t)"

definition key_ok :: "('p, 'a) cycle \<Rightarrow> bool" where
  "key_ok c \<longleftrightarrow>
     (\<forall>p. \<forall>t \<in> set (queues c p). \<forall>t' \<in> set (queues c p).
        t_key (tasks c t) \<noteq> None \<longrightarrow> t_key (tasks c t) = t_key (tasks c t') \<longrightarrow> t = t')"

definition ended :: "('p, 'a) cycle \<Rightarrow> 'p \<Rightarrow> nat" where
  "ended c p = m_tasks c p COMPLETED + m_tasks c p TASK_FAILED + m_tasks c p CANCELED + m_tasks c p REPLACED"

definition running_ok :: "('p, 'a) cycle \<Rightarrow> bool" where
  "running_ok c \<longleftrightarrow> (\<forall>p. running c p = length (filter (\<lambda>t. t_pool (tasks c t) = p) (taken c)))"

definition count_ok :: "('p, 'a) cycle \<Rightarrow> bool" where
  "count_ok c \<longleftrightarrow>
     (\<forall>p. m_pending c p = int (pending c p) \<and> pending c p \<le> pool_limit c \<and>
          accepted c p = ended c p + pending c p)"

definition exec_inv :: "('p, 'a) cycle \<Rightarrow> bool" where
  "exec_inv c \<longleftrightarrow> queue_ok c \<and> taken_ok c \<and> place_ok c \<and> key_ok c \<and> running_ok c \<and> count_ok c"

lemmas exec_inv_defs =
  exec_inv_def queue_ok_def taken_ok_def place_ok_def key_ok_def running_ok_def count_ok_def

lemma exec_inv_frame [simp]:
  "exec_inv (c\<lparr>stopping := b\<rparr>) = exec_inv c" "exec_inv (c\<lparr>m_dropped := x\<rparr>) = exec_inv c"
  "exec_inv (c\<lparr>m_running := y\<rparr>) = exec_inv c"
  by (simp_all add: exec_inv_defs settled_def pending_def ended_def)

lemma callbacks_frame [simp]:
  "taken_ok (c\<lparr>callbacks := x\<rparr>) = taken_ok c" "place_ok (c\<lparr>callbacks := x\<rparr>) = place_ok c"
  "key_ok (c\<lparr>callbacks := x\<rparr>) = key_ok c" "running_ok (c\<lparr>callbacks := x\<rparr>) = running_ok c"
  "count_ok (c\<lparr>callbacks := x\<rparr>) = count_ok c"
  by (simp_all add: exec_inv_defs settled_def pending_def ended_def)

text \<open>A change that only takes tasks out of queues keeps what holds of the queued ones.\<close>

lemma queue_ok_mono:
  assumes "queue_ok c" "next_task c \<le> next_task c'" "\<And>p. distinct (queues c' p)"
    and "\<And>p t. t \<in> set (queues c' p) \<Longrightarrow> t \<in> set (queues c p) \<and> tasks c' t = tasks c t \<and>
      (t \<in> set (taken c') \<longrightarrow> t \<in> set (taken c)) \<and> (t \<in> set (callbacks c) \<longrightarrow> t \<in> set (callbacks c'))"
  shows "queue_ok c'"
  unfolding queue_ok_def
proof (intro conjI allI ballI)
  fix p t assume "t \<in> set (queues c' p)"
  note t = assms(4) [OF this]
  then have "t \<in> set (queues c p)" by blast
  then have "t < next_task c \<and> t_pool (tasks c t) = p \<and> \<not> t_replaced (tasks c t) \<and> t_fn (tasks c t) \<noteq> None \<and>
      t \<notin> set (taken c) \<and>
      (t_fut (tasks c t) = F_PENDING \<or> t_fut (tasks c t) = F_CANCELLED \<and> t \<in> set (callbacks c))"
    using assms(1) unfolding queue_ok_def by blast
  then show "t < next_task c'" "t_pool (tasks c' t) = p" "\<not> t_replaced (tasks c' t)"
      "t_fn (tasks c' t) \<noteq> None" "t \<notin> set (taken c')"
      "t_fut (tasks c' t) = F_PENDING \<or> t_fut (tasks c' t) = F_CANCELLED \<and> t \<in> set (callbacks c')"
    using t assms(2) by auto
qed (rule assms(3))

lemma key_ok_mono:
  assumes "key_ok c" "\<And>p t. t \<in> set (queues c' p) \<Longrightarrow> t \<in> set (queues c p) \<and> t_key (tasks c' t) = t_key (tasks c t)"
  shows "key_ok c'"
  using assms unfolding key_ok_def by metis

lemma running_ok_cong:
  assumes "running_ok c" "running c' = running c" "taken c' = taken c"
    and "\<And>t. t \<in> set (taken c) \<Longrightarrow> t_pool (tasks c' t) = t_pool (tasks c t)"
  shows "running_ok c'"
proof -
  have "filter (\<lambda>t. t_pool (tasks c' t) = p) (taken c) = filter (\<lambda>t. t_pool (tasks c t) = p) (taken c)" for p
    using assms(4) by (intro filter_cong) auto
  then show ?thesis using assms(1-3) by (simp add: running_ok_def)
qed

lemma exec_inv_init: "exec_inv (Cycle_new workers limit)"
  by (simp add: exec_inv_defs Cycle_new_def pending_def ended_def)

section \<open>Primitive effects\<close>

text \<open>A cancelled task leaves the queue: its slot is free, it is counted, its waiters are released.\<close>

definition drop_queued :: "nat \<Rightarrow> 'p \<Rightarrow> ('p, 'a) cycle \<Rightarrow> ('p, 'a) cycle" where
  "drop_queued t p c =
     c\<lparr>queues := (queues c)(p := remove1 t (queues c p)),
       m_pending := (m_pending c)(p := m_pending c p - 1),
       m_tasks := (m_tasks c)(p := (m_tasks c p)(CANCELED := Suc (m_tasks c p CANCELED))),
       tasks := (tasks c)(t := (tasks c t)\<lparr>t_fn := None, t_fut := F_CANCELLED_AND_NOTIFIED\<rparr>)\<rparr>"

lemma forget_if_cancelled_eq:
  assumes "t \<in> set (queues c (t_pool (tasks c t))) \<Longrightarrow> t_fut (tasks c t) \<noteq> F_CANCELLED_AND_NOTIFIED"
  shows "forget_if_cancelled t c =
     (let c0 = c\<lparr>callbacks := removeAll t (callbacks c)\<rparr>; p = t_pool (tasks c t) in
      if t_fut (tasks c t) = F_CANCELLED \<and> \<not> t_replaced (tasks c t) \<and> t \<in> set (queues c p)
      then drop_queued t p c0 else c0)"
  using assms
  by (auto simp: forget_if_cancelled_def drop_queued_def cancelled_def count_task_def release_task_def
      set_running_or_notify_cancel_def set_fut_def Let_def)

lemma drop_queued_inv:
  assumes inv: "exec_inv c" and t: "t \<in> set (queues c p)"
  shows "exec_inv ((drop_queued t p c)\<lparr>callbacks := removeAll t (callbacks c)\<rparr>)"
proof -
  have q: "distinct (queues c p)" "t_pool (tasks c t) = p" "t \<notin> set (taken c)"
    using inv t by (auto simp: exec_inv_def queue_ok_def)
  have np: "t \<notin> set (queues c p')" if "p' \<noteq> p" for p'
    using inv q that by (auto simp: exec_inv_def queue_ok_def)
  have len: "length (queues c p) = Suc (length (queues c p) - 1)"
    using t by (cases "queues c p") auto
  show ?thesis
    unfolding exec_inv_def
  proof (intro conjI)
    show "queue_ok ((drop_queued t p c)\<lparr>callbacks := removeAll t (callbacks c)\<rparr>)"
      using inv q np by (auto simp: exec_inv_def queue_ok_def drop_queued_def)
    show "taken_ok ((drop_queued t p c)\<lparr>callbacks := removeAll t (callbacks c)\<rparr>)"
      using inv q by (auto simp: exec_inv_def taken_ok_def drop_queued_def)
    show "place_ok ((drop_queued t p c)\<lparr>callbacks := removeAll t (callbacks c)\<rparr>)"
      using inv q by (auto simp: exec_inv_def place_ok_def drop_queued_def settled_def)
    show "key_ok ((drop_queued t p c)\<lparr>callbacks := removeAll t (callbacks c)\<rparr>)"
      using inv q np by (auto simp: exec_inv_def key_ok_def drop_queued_def)
    show "running_ok ((drop_queued t p c)\<lparr>callbacks := removeAll t (callbacks c)\<rparr>)"
      by (rule running_ok_cong [of c]) (use inv in \<open>auto simp: exec_inv_def drop_queued_def\<close>)
    show "count_ok ((drop_queued t p c)\<lparr>callbacks := removeAll t (callbacks c)\<rparr>)"
      using inv t len
      by (auto simp: exec_inv_def count_ok_def drop_queued_def pending_def ended_def length_remove1
          intro: le_trans [OF diff_le_self])
  qed
qed

section \<open>Every operation keeps the invariant\<close>

lemma queuedD:
  assumes "exec_inv c" "t \<in> set (queues c p)"
  shows "t < next_task c" "t_pool (tasks c t) = p" "t_fn (tasks c t) \<noteq> None" "t \<notin> set (taken c)"
    "t_fut (tasks c t) \<in> {F_PENDING, F_CANCELLED}"
  using assms unfolding exec_inv_def queue_ok_def by blast+

lemmas queued_fut = queuedD(5)

lemma forget_inv:
  assumes "exec_inv c"
  shows "exec_inv (forget_if_cancelled t c)"
proof -
  let ?p = "t_pool (tasks c t)"
  have eq: "forget_if_cancelled t c =
     (let c0 = c\<lparr>callbacks := removeAll t (callbacks c)\<rparr>; p = ?p in
      if t_fut (tasks c t) = F_CANCELLED \<and> \<not> t_replaced (tasks c t) \<and> t \<in> set (queues c p)
      then drop_queued t p c0 else c0)"
    by (rule forget_if_cancelled_eq) (use queued_fut [OF assms, of t ?p] in auto)
  have swap: "drop_queued t ?p (c\<lparr>callbacks := removeAll t (callbacks c)\<rparr>) =
      (drop_queued t ?p c)\<lparr>callbacks := removeAll t (callbacks c)\<rparr>"
    by (simp add: drop_queued_def)
  have keep: "exec_inv (c\<lparr>callbacks := removeAll t (callbacks c)\<rparr>)"
    if "\<not> (t_fut (tasks c t) = F_CANCELLED \<and> \<not> t_replaced (tasks c t) \<and> t \<in> set (queues c ?p))"
  proof -
    have "queue_ok (c\<lparr>callbacks := removeAll t (callbacks c)\<rparr>)"
      using assms that by (auto simp: exec_inv_def queue_ok_def)
    then show ?thesis using assms by (simp add: exec_inv_def)
  qed
  show ?thesis
    unfolding eq Let_def using drop_queued_inv [OF assms] keep by (simp add: swap)
qed

lemma future_cancel_inv:
  assumes "exec_inv c"
  shows "exec_inv (snd (future_cancel t c))"
proof (cases "t_fut (tasks c t) = F_PENDING")
  case False
  then show ?thesis using assms by (cases "t_fut (tasks c t)") (simp_all add: future_cancel_def)
next
  case True
  define c' where "c' = (set_fut t F_CANCELLED c)\<lparr>callbacks := t # callbacks c\<rparr>"
  have eff: "snd (future_cancel t c) = c'"
    using True by (simp add: future_cancel_def c'_def set_fut_def)
  have "queue_ok c'" "taken_ok c'" "place_ok c'" "key_ok c'" "count_ok c'"
    using assms True
    by (auto simp: exec_inv_defs c'_def set_fut_def settled_def pending_def ended_def)
  moreover have "running_ok c'"
    by (rule running_ok_cong [of c]) (use assms in \<open>auto simp: exec_inv_def c'_def set_fut_def\<close>)
  ultimately show ?thesis unfolding eff exec_inv_def by blast
qed

lemma cancel_now_inv: "exec_inv c \<Longrightarrow> exec_inv (snd (cancel_now t c))"
  using future_cancel_inv [of c t] forget_inv [of "snd (future_cancel t c)" t]
  by (simp add: cancel_now_def split_def Let_def)

lemma discard_inv: "exec_inv c \<Longrightarrow> exec_inv (snd (discard p k c))"
  by (simp add: discard_def cancel_now_inv split: option.splits)

lemma shutdown_inv:
  assumes "exec_inv c"
  shows "exec_inv (shutdown pools c)"
proof -
  have inner: "exec_inv c' \<Longrightarrow> exec_inv (fold (\<lambda>t c''. snd (cancel_now t c'')) ts c')" for ts c'
    by (induction ts arbitrary: c') (simp_all add: cancel_now_inv)
  have outer: "exec_inv c' \<Longrightarrow>
      exec_inv (fold (\<lambda>p c'. fold (\<lambda>t c''. snd (cancel_now t c'')) (queues c' p) c') ps c')" for ps c'
    by (induction ps arbitrary: c') (simp_all add: inner)
  have "exec_inv (c\<lparr>stopping := True\<rparr>)"
    using assms by simp
  then show ?thesis unfolding shutdown_def by (rule outer)
qed

lemma work_take_inv:
  assumes inv: "exec_inv c" and take: "work_take pools c = Some (t, c')" "length (taken c) < max_workers c"
  shows "exec_inv c'"
proof -
  obtain p rest where p: "queues c p = t # rest"
    and c': "c' = c\<lparr>queues := (queues c)(p := rest), running := (running c)(p := Suc (running c p)),
        clock := Suc (clock c), served := (served c)(p := Suc (clock c)), taken := t # taken c\<rparr>"
    using take(1) by (auto simp: work_take_def split: if_splits option.splits list.splits)
  have inq: "t \<in> set (queues c p)" by (simp add: p)
  then have t: "t_pool (tasks c t) = p" "t \<notin> set (taken c)" "t < next_task c"
      "t_fut (tasks c t) \<in> {F_PENDING, F_CANCELLED}"
    using inv unfolding exec_inv_def queue_ok_def by blast+
  have dist: "distinct (queues c p')" for p'
    using inv by (simp add: exec_inv_def queue_ok_def)
  have np: "t \<in> set (queues c p') \<Longrightarrow> p' = p" for p'
    using inv t(1) unfolding exec_inv_def queue_ok_def by (metis (no_types))
  have sub: "x \<in> set (queues c' p') \<Longrightarrow> x \<in> set (queues c p') \<and> x \<noteq> t" for x p'
    using p dist [of p] np [of p'] by (auto simp: c' split: if_splits)
  have q': "distinct (queues c' p')" for p'
    using dist [of p'] dist [of p] p by (auto simp: c')
  have frame: "tasks c' = tasks c" "callbacks c' = callbacks c" "next_task c' = next_task c"
      "taken c' = t # taken c" by (simp_all add: c')
  have "queue_ok c'"
    by (rule queue_ok_mono [of c]) (use inv q' sub in \<open>auto simp: exec_inv_def frame\<close>)
  moreover have "taken_ok c'" using inv t take(2) by (auto simp: exec_inv_def taken_ok_def c')
  moreover have "place_ok c'"
  proof -
    have "x \<in> set (queues c p') \<Longrightarrow> x \<in> set (queues c' p') \<or> x = t" for x p'
      using p by (auto simp: c')
    then show ?thesis using inv unfolding exec_inv_def place_ok_def settled_def frame by (metis list.set_intros)
  qed
  moreover have "key_ok c'"
    by (rule key_ok_mono [of c]) (use inv sub in \<open>auto simp: exec_inv_def frame\<close>)
  moreover have "running_ok c'" using inv t by (auto simp: exec_inv_def running_ok_def c')
  moreover have "count_ok c'"
    using inv p by (auto simp: exec_inv_def count_ok_def pending_def ended_def c' dest!: spec [of _ p])
  ultimately show ?thesis unfolding exec_inv_def by blast
qed

text \<open>A thread lets go of a task: it is counted, its slot is free, and its future is settled.\<close>

definition settle_taken :: "TaskOutcome \<Rightarrow> fut \<Rightarrow> nat \<Rightarrow> ('p, 'a) cycle \<Rightarrow> ('p, 'a) cycle" where
  "settle_taken oc f t c = release_task t (set_fut t f (finish (t_pool (tasks c t)) oc t c))"

lemma settle_taken_inv:
  assumes inv: "exec_inv c" and t: "t \<in> set (taken c)" and f: "f \<in> {F_CANCELLED_AND_NOTIFIED, F_FINISHED}"
  shows "exec_inv (settle_taken oc f t c)"
proof -
  define p where "p = t_pool (tasks c t)"
  define c' where "c' = settle_taken oc f t c"
  note c'_eq = c'_def settle_taken_def release_task_def set_fut_def finish_def count_task_def Let_def
  have dist: "distinct (taken c)" using inv by (simp add: exec_inv_def taken_ok_def)
  have nq: "t \<notin> set (queues c p')" for p' using inv t by (auto simp: exec_inv_def queue_ok_def)
  have pool: "t_pool (tasks c' x) = t_pool (tasks c x)" for x by (simp add: c'_eq)
  have tk: "taken c' = remove1 t (taken c)" by (simp add: c'_eq)
  have run: "running c p = Suc (running c p - 1)"
    using inv t by (cases "filter (\<lambda>x. t_pool (tasks c x) = p) (taken c)")
      (auto simp: exec_inv_def running_ok_def p_def filter_empty_conv)
  have "queue_ok c'" using inv nq by (auto simp: exec_inv_def queue_ok_def c'_eq)
  moreover have "taken_ok c'"
    using inv dist by (auto simp: exec_inv_def taken_ok_def c'_eq length_remove1 intro: le_trans [OF diff_le_self])
  moreover have "place_ok c'"
    using inv dist f by (auto simp: exec_inv_def place_ok_def settled_def c'_eq)
  moreover have "key_ok c'" using inv nq by (auto simp: exec_inv_def key_ok_def c'_eq)
  moreover have "running_ok c'"
    using inv t by (auto simp: exec_inv_def running_ok_def pool tk filter_remove1 length_remove1)
      (auto simp: c'_eq)
  moreover have "count_ok c'"
    using inv run by (cases oc) (auto simp: exec_inv_def count_ok_def pending_def ended_def c'_eq p_def
        intro: le_trans [OF diff_le_self])
  ultimately show ?thesis unfolding exec_inv_def c'_def by blast
qed

lemma execute_start_inv:
  assumes inv: "exec_inv c" and t: "t \<in> set (taken c)" "t_fut (tasks c t) \<noteq> F_RUNNING"
  shows "exec_inv (execute_start t c)"
proof (cases "t_fut (tasks c t) = F_CANCELLED")
  case True
  then have "execute_start t c = settle_taken CANCELED F_CANCELLED_AND_NOTIFIED t c"
    by (simp add: execute_start_def settle_taken_def cancelled_def set_running_or_notify_cancel_def finish_def
        count_task_def set_fut_def Let_def)
  then show ?thesis using settle_taken_inv [OF inv t(1)] by simp
next
  case False
  then have f: "t_fut (tasks c t) = F_PENDING"
    using inv t by (auto simp: exec_inv_def taken_ok_def)
  have nq: "t \<notin> set (queues c p)" for p using inv t by (auto simp: exec_inv_def queue_ok_def)
  define c' where "c' = set_fut t F_RUNNING c"
  have "queue_ok c'" "taken_ok c'" "place_ok c'" "key_ok c'" "count_ok c'"
    using inv t nq by (auto simp: exec_inv_defs c'_def set_fut_def settled_def pending_def ended_def)
  moreover have "running_ok c'"
    by (rule running_ok_cong [of c]) (use inv in \<open>auto simp: exec_inv_def c'_def set_fut_def\<close>)
  ultimately have "exec_inv c'" unfolding exec_inv_def by blast
  then show ?thesis
    using f by (simp add: execute_start_def cancelled_def set_running_or_notify_cancel_def c'_def Let_def)
qed

lemma execute_end_inv:
  assumes inv: "exec_inv c" and t: "t \<in> set (taken c)"
  shows "exec_inv (execute_end t ok c)"
proof -
  let ?m = "(m_running c)(t_pool (tasks c t) := m_running c (t_pool (tasks c t)) - 1)"
  have "execute_end t ok c =
      settle_taken (if ok then COMPLETED else TASK_FAILED) F_FINISHED t (c\<lparr>m_running := ?m\<rparr>)"
    by (simp add: execute_end_def settle_taken_def Let_def)
  then show ?thesis using settle_taken_inv [of "c\<lparr>m_running := ?m\<rparr>" t] inv t by simp
qed

subsection \<open>Submitting\<close>

text \<open>The three outcomes of \<open>submit\<close>, each with the state it leaves.\<close>

definition new_task :: "'p \<Rightarrow> 'a \<Rightarrow> string option \<Rightarrow> ('p, 'a) task" where
  "new_task p fn k = \<lparr>t_pool = p, t_fn = Some fn, t_key = k, t_fut = F_PENDING, t_replaced = False\<rparr>"

definition submit_drop :: "'p \<Rightarrow> DropReason \<Rightarrow> ('p, 'a) cycle \<Rightarrow> ('p, 'a) cycle" where
  "submit_drop p reason c =
     c\<lparr>m_dropped := (m_dropped c)(p := (m_dropped c p)(reason := Suc (m_dropped c p reason)))\<rparr>"

definition submit_append :: "'p \<Rightarrow> 'a \<Rightarrow> string option \<Rightarrow> ('p, 'a) cycle \<Rightarrow> ('p, 'a) cycle" where
  "submit_append p fn k c =
     c\<lparr>tasks := (tasks c)(next_task c := new_task p fn k), queues := (queues c)(p := queues c p @ [next_task c]),
       m_pending := (m_pending c)(p := m_pending c p + 1), next_task := Suc (next_task c),
       accepted := (accepted c)(p := Suc (accepted c p))\<rparr>"

definition submit_replace :: "'p \<Rightarrow> 'a \<Rightarrow> string option \<Rightarrow> nat \<Rightarrow> ('p, 'a) cycle \<Rightarrow> ('p, 'a) cycle" where
  "submit_replace p fn k i c =
     (let old = queues c p ! i; f = t_fut (tasks c old);
          oc = (if f = F_PENDING then REPLACED else CANCELED) in
      c\<lparr>queues := (queues c)(p := (queues c p)[i := next_task c]),
        m_tasks := (m_tasks c)(p := (m_tasks c p)(oc := Suc (m_tasks c p oc))),
        next_task := Suc (next_task c), accepted := (accepted c)(p := Suc (accepted c p)),
        tasks := (tasks c)(next_task c := new_task p fn k,
           old := (tasks c old)\<lparr>t_replaced := True, t_fn := None, t_fut := F_CANCELLED_AND_NOTIFIED\<rparr>),
        callbacks := (if f = F_PENDING then removeAll old (callbacks c) else callbacks c)\<rparr>)"

lemma waiting_index_Some:
  assumes "waiting_index c p k = Some i"
  shows "i < length (queues c p)" "t_key (tasks c (queues c p ! i)) = Some k"
  using assms by (auto simp: waiting_index_def find_Some_iff)

lemma waiting_index_None:
  "waiting_index c p k = None \<longleftrightarrow> (\<forall>t \<in> set (queues c p). t_key (tasks c t) \<noteq> Some k)"
  by (auto simp: waiting_index_def find_None_iff set_conv_nth)

lemma waiting_index_new_task:
  assumes "next_task c \<notin> set (queues c p)"
  shows "waiting_index (c\<lparr>tasks := (tasks c)(next_task c := x)\<rparr>) p k = waiting_index c p k"
proof -
  have "i < length (queues c p) \<Longrightarrow> queues c p ! i \<noteq> next_task c" for i
    using assms nth_mem by metis
  then show ?thesis unfolding waiting_index_def by (intro find_cong) auto
qed

lemma release_replaced:
  assumes "t_replaced (tasks c old)" "t_fut (tasks c old) \<in> {F_PENDING, F_CANCELLED}"
  shows "(let c' = snd (cancel_now old c)
      in case set_running_or_notify_cancel old c' of None \<Rightarrow> c' | Some (_, c'') \<Rightarrow> c'') =
    c\<lparr>tasks := (tasks c)(old := (tasks c old)\<lparr>t_fut := F_CANCELLED_AND_NOTIFIED\<rparr>),
      callbacks := (if t_fut (tasks c old) = F_PENDING then removeAll old (callbacks c) else callbacks c)\<rparr>"
  using assms
  by (auto simp: cancel_now_def future_cancel_def forget_if_cancelled_def set_running_or_notify_cancel_def
      cancelled_def set_fut_def Let_def)

lemma submit_accept:
  assumes "enqueue p (next_task c) (c\<lparr>tasks := (tasks c)(next_task c := new_task p fn k)\<rparr>) = ((None, Some old), c1)"
    and "c2 = c1\<lparr>next_task := Suc (next_task c), accepted := (accepted c1)(p := Suc (accepted c1 p))\<rparr>"
  shows "submit p fn k c = (Some (next_task c),
     let c' = snd (cancel_now old c2)
     in case set_running_or_notify_cancel old c' of None \<Rightarrow> c' | Some (_, c'') \<Rightarrow> c'')"
  using assms by (simp add: submit_def new_task_def Let_def)

lemma submit_cases:
  assumes inv: "exec_inv c"
  obtains (shut_down) "stopping c" "submit p fn k c = (None, submit_drop p SHUT_DOWN c)"
    | (replaced) key i where "\<not> stopping c" "k = Some key" "waiting_index c p key = Some i"
        "submit p fn k c = (Some (next_task c), submit_replace p fn k i c)"
    | (full) "\<not> stopping c" "pool_limit c \<le> pending c p" "case k of None \<Rightarrow> True | Some key \<Rightarrow> waiting_index c p key = None"
        "submit p fn k c = (None, submit_drop p FULL c)"
    | (appended) "\<not> stopping c" "pending c p < pool_limit c" "case k of None \<Rightarrow> True | Some key \<Rightarrow> waiting_index c p key = None"
        "submit p fn k c = (Some (next_task c), submit_append p fn k c)"
proof -
  have fresh: "next_task c \<notin> set (queues c p')" for p'
    using inv by (auto simp: exec_inv_def queue_ok_def)
  define w where "w = (case k of None \<Rightarrow> None | Some key \<Rightarrow> waiting_index c p key)"
  define c0 where "c0 = c\<lparr>tasks := (tasks c)(next_task c := new_task p fn k)\<rparr>"
  have w0: "(case t_key (tasks c0 (next_task c)) of None \<Rightarrow> None | Some key \<Rightarrow> waiting_index c0 p key) = w"
    using waiting_index_new_task [OF fresh]
    by (simp add: c0_def new_task_def w_def split: option.splits)
  show ?thesis
  proof (cases "stopping c")
    case True
    then show ?thesis by (intro shut_down) (simp_all add: submit_def enqueue_def submit_drop_def Let_def)
  next
    case False
    show ?thesis
    proof (cases w)
      case None
      have wk: "case k of None \<Rightarrow> True | Some key \<Rightarrow> waiting_index c p key = None"
        using None by (simp add: w_def split: option.splits)
      have enq: "enqueue p (next_task c) c0 = (if pending c p \<ge> pool_limit c then ((Some FULL, None), c0)
          else ((None, None), c0\<lparr>queues := (queues c)(p := queues c p @ [next_task c]),
             m_pending := (m_pending c)(p := m_pending c p + 1)\<rparr>))"
        using False None unfolding enqueue_def w0 by (simp add: c0_def pending_def)
      show ?thesis
      proof (cases "pending c p \<ge> pool_limit c")
        case True
        show ?thesis
          by (rule full) (use False wk True enq in \<open>simp_all add: submit_def submit_drop_def c0_def new_task_def Let_def\<close>)
      next
        case nfull: False
        show ?thesis
          by (rule appended)
            (use False wk nfull enq in \<open>simp_all add: submit_def submit_append_def c0_def new_task_def Let_def\<close>)
      qed
    next
      case (Some i)
      then obtain key where k: "k = Some key" "waiting_index c p key = Some i"
        by (auto simp: w_def split: option.splits)
      define old where "old = queues c p ! i"
      have old: "old \<in> set (queues c p)" "old \<noteq> next_task c" "t_fut (tasks c old) \<in> {F_PENDING, F_CANCELLED}"
        using waiting_index_Some(1) [OF k(2)] fresh [of p] queued_fut [OF inv, of old p]
        by (auto simp: old_def dest: nth_mem)
      have enq: "enqueue p (next_task c) c0 = ((None, Some old),
          count_task p (if cancelled c0 old then CANCELED else REPLACED)
            (replace_task old (c0\<lparr>queues := (queues c)(p := (queues c p)[i := next_task c])\<rparr>)))"
        using False Some unfolding enqueue_def w0
        by (simp add: c0_def old_def Let_def cancelled_def replace_task_def release_task_def)
      define c1 where "c1 = count_task p (if cancelled c0 old then CANCELED else REPLACED)
            (replace_task old (c0\<lparr>queues := (queues c)(p := (queues c p)[i := next_task c])\<rparr>))"
      define c2 where "c2 = c1\<lparr>next_task := Suc (next_task c), accepted := (accepted c1)(p := Suc (accepted c1 p))\<rparr>"
      have "submit p fn k c = (Some (next_task c),
          let c' = snd (cancel_now old c2)
          in case set_running_or_notify_cancel old c' of None \<Rightarrow> c' | Some (_, c'') \<Rightarrow> c'')"
        by (rule submit_accept [OF enq [folded c1_def, unfolded c0_def] c2_def])
      also have "\<dots> = (Some (next_task c), submit_replace p fn k i c)"
      proof -
        note c2_eq = c2_def c1_def c0_def count_task_def replace_task_def release_task_def
        have r: "t_replaced (tasks c2 old)" and f: "t_fut (tasks c2 old) = t_fut (tasks c old)"
          using old(2) by (simp_all add: c2_eq)
        have cb: "callbacks c2 = callbacks c" by (simp add: c2_eq)
        show ?thesis
        proof (cases "t_fut (tasks c old) = F_PENDING")
          case True
          then show ?thesis
            using release_replaced [OF r] f old(2)
            by (simp add: cb submit_replace_def old_def [symmetric])
              (simp add: c2_eq cancelled_def True)
        next
          case False
          then have "t_fut (tasks c old) = F_CANCELLED" using old(3) by simp
          then show ?thesis
            using release_replaced [OF r] f old(2)
            by (simp add: cb submit_replace_def old_def [symmetric])
              (simp add: c2_eq cancelled_def)
        qed
      qed
      finally have "submit p fn k c = (Some (next_task c), submit_replace p fn k i c)" .
      then show ?thesis using False k by (intro replaced)
    qed
  qed
qed

lemma fresh_task:
  assumes "exec_inv c"
  shows "next_task c \<notin> set (queues c p)" "next_task c \<notin> set (taken c)"
  using assms by (auto simp: exec_inv_def queue_ok_def taken_ok_def)

lemma submit_append_inv:
  assumes inv: "exec_inv c" and room: "pending c p < pool_limit c"
    and nokey: "case k of None \<Rightarrow> True | Some key \<Rightarrow> waiting_index c p key = None"
  shows "exec_inv (submit_append p fn k c)"
proof -
  define c' where "c' = submit_append p fn k c"
  note c'_eq = c'_def submit_append_def
  note fresh = fresh_task [OF inv]
  have old: "x \<in> set (queues c q) \<Longrightarrow> x \<noteq> next_task c" for x q using fresh by metis
  have "queue_ok c'"
    using inv fresh by (auto simp: exec_inv_def queue_ok_def c'_eq new_task_def less_Suc_eq)
  moreover have "taken_ok c'"
    using inv fresh by (auto simp: exec_inv_def taken_ok_def c'_eq less_Suc_eq)
  moreover have "place_ok c'"
    using inv by (auto simp: exec_inv_def place_ok_def settled_def c'_eq new_task_def less_Suc_eq)
  moreover have "key_ok c'"
  proof -
    have "t_key (tasks c x) = k \<Longrightarrow> k = None" if "x \<in> set (queues c p)" for x
      using nokey that by (auto simp: waiting_index_None split: option.splits)
    then show ?thesis
      using inv old by (auto simp: exec_inv_def key_ok_def c'_eq new_task_def) (metis option.discI)+
  qed
  moreover have "running_ok c'"
    by (rule running_ok_cong [of c]) (use inv fresh in \<open>auto simp: exec_inv_def c'_eq\<close>)
  moreover have "count_ok c'"
    using inv room by (auto simp: exec_inv_def count_ok_def pending_def ended_def c'_eq)
  ultimately show ?thesis unfolding exec_inv_def c'_def by blast
qed

lemma submit_replace_inv:
  assumes inv: "exec_inv c" and wait: "waiting_index c p key = Some i"
  shows "exec_inv (submit_replace p fn (Some key) i c)"
proof -
  define c' where "c' = submit_replace p fn (Some key) i c"
  define old where "old = queues c p ! i"
  note c'_eq = c'_def submit_replace_def Let_def old_def [symmetric]
  note fresh = fresh_task [OF inv]
  note i = waiting_index_Some [OF wait]
  have dist: "distinct (queues c q)" for q using inv by (simp add: exec_inv_def queue_ok_def)
  have oldq: "old \<in> set (queues c p)" using i(1) by (simp add: old_def)
  then have old: "t_pool (tasks c old) = p" "old \<notin> set (taken c)" "old < next_task c"
    using inv unfolding exec_inv_def queue_ok_def by blast+
  have np: "old \<in> set (queues c q) \<Longrightarrow> q = p" for q
    using inv old(1) unfolding exec_inv_def queue_ok_def by (metis (no_types))
  have qset: "set (queues c' p) = insert (next_task c) (set (queues c p) - {old})"
    using set_update_distinct [OF dist i(1)] by (simp add: c'_eq)
  have qother: "q \<noteq> p \<Longrightarrow> queues c' q = queues c q" for q by (simp add: c'_eq)
  have qdist: "distinct (queues c' q)" for q
    using distinct_list_update [OF dist [of p], of "next_task c" i] fresh(1) [of p] dist [of q]
    by (auto simp: c'_eq)
  have same: "x \<noteq> old \<Longrightarrow> x \<noteq> next_task c \<Longrightarrow> tasks c' x = tasks c x" for x by (simp add: c'_eq)
  have mem: "x \<in> set (queues c' q) \<Longrightarrow> x = next_task c \<and> q = p \<or>
      x \<noteq> old \<and> x \<noteq> next_task c \<and> x \<in> set (queues c q)" for x q
    using qset qother [of q] np [of q] fresh(1) [of q] fresh(1) [of p] by (cases "q = p") auto
  have new: "tasks c' (next_task c) = new_task p fn (Some key)" using old(3) by (simp add: c'_eq)
  have cb: "x \<noteq> old \<Longrightarrow> x \<in> set (callbacks c) \<Longrightarrow> x \<in> set (callbacks c')" for x by (simp add: c'_eq)
  have frame: "taken c' = taken c" "next_task c' = Suc (next_task c)" by (simp_all add: c'_eq)
  have "queue_ok c'"
    unfolding queue_ok_def
  proof (intro conjI allI ballI)
    fix q x assume x: "x \<in> set (queues c' q)"
    have *: "x \<in> set (queues c q) \<Longrightarrow> x < next_task c \<and> t_pool (tasks c x) = q \<and> \<not> t_replaced (tasks c x) \<and>
        t_fn (tasks c x) \<noteq> None \<and> x \<notin> set (taken c) \<and> (t_fut (tasks c x) = F_PENDING \<or> t_fut (tasks c x) = F_CANCELLED \<and> x \<in> set (callbacks c))"
      using inv unfolding exec_inv_def queue_ok_def by blast
    show "x < next_task c'" "t_pool (tasks c' x) = q" "\<not> t_replaced (tasks c' x)"
        "t_fn (tasks c' x) \<noteq> None" "x \<notin> set (taken c')"
        "t_fut (tasks c' x) = F_PENDING \<or> t_fut (tasks c' x) = F_CANCELLED \<and> x \<in> set (callbacks c')"
      using mem [OF x] * new same cb fresh(2) by (auto simp: frame new_task_def)
  qed (rule qdist)
  moreover have "taken_ok c'"
    using inv fresh(2) old(2) same unfolding exec_inv_def taken_ok_def frame
    by (auto simp: c'_eq less_Suc_eq)
  moreover have "place_ok c'"
    unfolding place_ok_def
  proof (intro allI impI)
    fix x assume "x < next_task c'"
    then consider "x = next_task c" | "x = old" | "x \<noteq> old" "x < next_task c" by (auto simp: frame less_Suc_eq)
    then show "x \<in> set (queues c' (t_pool (tasks c' x))) \<or> x \<in> set (taken c') \<or> settled c' x"
    proof cases
      case 1 then show ?thesis using new qset by (simp add: new_task_def)
    next
      case 2 then show ?thesis by (simp add: settled_def c'_eq)
    next
      case 3
      then have "x \<in> set (queues c (t_pool (tasks c x))) \<or> x \<in> set (taken c) \<or> settled c x"
        using inv by (simp add: exec_inv_def place_ok_def)
      moreover have "x \<in> set (queues c q) \<Longrightarrow> x \<in> set (queues c' q)" for q
        using 3 qset qother [of q] by (cases "q = p") auto
      ultimately show ?thesis using 3 same [of x] by (auto simp: settled_def frame)
    qed
  qed
  moreover have "key_ok c'"
  proof -
    have uniq: "t_key (tasks c x) \<noteq> Some key" if "x \<in> set (queues c p)" "x \<noteq> old" for x
      using inv i(2) oldq that unfolding exec_inv_def key_ok_def old_def [symmetric] by (metis option.discI)
    have inv_key: "x \<in> set (queues c q) \<Longrightarrow> y \<in> set (queues c q) \<Longrightarrow> t_key (tasks c x) \<noteq> None \<Longrightarrow>
        t_key (tasks c x) = t_key (tasks c y) \<Longrightarrow> x = y" for q x y
      using inv unfolding exec_inv_def key_ok_def by blast
    show ?thesis
      unfolding key_ok_def
    proof (intro allI ballI impI)
      fix q x y assume "x \<in> set (queues c' q)" "y \<in> set (queues c' q)" "t_key (tasks c' x) \<noteq> None"
        "t_key (tasks c' x) = t_key (tasks c' y)"
      then show "x = y"
        using mem [of x q] mem [of y q] same [of x] same [of y] new uniq [of x] uniq [of y] inv_key [of x q y]
        by (auto simp: new_task_def)
    qed
  qed
  moreover have "running_ok c'"
    by (rule running_ok_cong [of c]) (use inv fresh in \<open>auto simp: exec_inv_def c'_eq\<close>)
  moreover have "count_ok c'"
    using inv by (auto simp: exec_inv_def count_ok_def pending_def ended_def c'_eq)
  ultimately show ?thesis unfolding exec_inv_def c'_def by blast
qed

lemma submit_inv:
  assumes inv: "exec_inv c"
  shows "exec_inv (snd (submit p fn k c))"
  by (cases rule: submit_cases [OF inv, of p fn k])
    (simp_all add: inv submit_drop_def submit_append_inv submit_replace_inv)

section \<open>Reachable states\<close>

lemma exec_step_inv: "exec_step pools c c' \<Longrightarrow> exec_inv c \<Longrightarrow> exec_inv c'"
  by (induction rule: exec_step.induct)
    (simp_all add: submit_inv work_take_inv execute_start_inv execute_end_inv future_cancel_inv forget_inv
      discard_inv shutdown_inv)

lemma exec_reach_inv: "exec_reach pools workers limit c \<Longrightarrow> exec_inv c"
  by (induction rule: exec_reach.induct) (auto simp: exec_inv_init intro: exec_step_inv)

lemma work_take_const:
  "work_take pools c = Some (t, c') \<Longrightarrow> max_workers c' = max_workers c \<and> pool_limit c' = pool_limit c"
  by (auto simp: work_take_def split: if_splits option.splits list.splits)

lemma forget_const [simp]:
  "max_workers (forget_if_cancelled t c) = max_workers c" "pool_limit (forget_if_cancelled t c) = pool_limit c"
  by (simp_all add: forget_if_cancelled_def set_running_or_notify_cancel_def count_task_def release_task_def
      set_fut_def Let_def split: option.splits fut.splits)

lemma future_cancel_const [simp]:
  "max_workers (snd (future_cancel t c)) = max_workers c" "pool_limit (snd (future_cancel t c)) = pool_limit c"
  by (simp_all add: future_cancel_def set_fut_def split: fut.splits)

lemma cancel_now_const [simp]:
  "max_workers (snd (cancel_now t c)) = max_workers c" "pool_limit (snd (cancel_now t c)) = pool_limit c"
  by (simp_all add: cancel_now_def split_def Let_def)

lemma submit_const:
  "exec_inv c \<Longrightarrow> max_workers (snd (submit p fn k c)) = max_workers c \<and> pool_limit (snd (submit p fn k c)) = pool_limit c"
  by (cases rule: submit_cases [of c p fn k], assumption)
    (simp_all add: submit_drop_def submit_append_def submit_replace_def Let_def)

lemma fold_const:
  "(\<And>x s. f (g x s) = f s) \<Longrightarrow> f (fold g xs s) = f s"
  by (induction xs arbitrary: s) simp_all

lemma shutdown_const [simp]:
  "max_workers (shutdown pools c) = max_workers c" "pool_limit (shutdown pools c) = pool_limit c"
  by (simp_all add: shutdown_def fold_const [of max_workers] fold_const [of pool_limit])

lemma finish_const [simp]:
  "max_workers (finish p oc t c) = max_workers c" "pool_limit (finish p oc t c) = pool_limit c"
  by (simp_all add: finish_def count_task_def Let_def)

lemma exec_step_const:
  "exec_step pools c c' \<Longrightarrow> exec_inv c \<Longrightarrow> max_workers c' = max_workers c \<and> pool_limit c' = pool_limit c"
  by (induction rule: exec_step.induct)
    (auto simp: submit_const discard_def execute_start_def execute_end_def set_running_or_notify_cancel_def
      release_task_def set_fut_def Let_def split: option.splits fut.splits dest: work_take_const)

lemma exec_reach_const:
  "exec_reach pools workers limit c \<Longrightarrow> max_workers c = workers \<and> pool_limit c = limit"
proof (induction rule: exec_reach.induct)
  case reach_init
  then show ?case by (simp add: Cycle_new_def)
next
  case (reach_step c c')
  then show ?case using exec_step_const exec_reach_inv by metis
qed

section \<open>What the executor promises\<close>

lemma sum_pools_le_length:
  "distinct pools \<Longrightarrow> (\<Sum>q\<leftarrow>pools. length (filter (\<lambda>t. f t = q) ts)) \<le> length ts"
proof (induction ts)
  case Nil
  then show ?case by (simp add: sum_list_triv)
next
  case (Cons t ts)
  have "(\<Sum>q\<leftarrow>pools. length (filter (\<lambda>x. f x = q) (t # ts))) =
      (\<Sum>q\<leftarrow>pools. length (filter (\<lambda>x. f x = q) ts) + of_bool (f t = q))"
    by (rule arg_cong [of _ _ sum_list], rule map_cong) auto
  also have "\<dots> = (\<Sum>q\<leftarrow>pools. length (filter (\<lambda>x. f x = q) ts)) + (\<Sum>q\<leftarrow>pools. of_bool (f t = q))"
    by (simp add: sum_list_addf)
  also have "(\<Sum>q\<leftarrow>pools. of_bool (f t = q)) \<le> (1::nat)"
    using Cons.prems by (induction pools) auto
  finally show ?case using Cons by simp
qed


text \<open>A pool of one thread and one slot: two tasks under one key, so the second replaces the first.\<close>

definition two_puts :: "(BackgroundPool, unit) cycle" where
  "two_puts = snd (submit RUNTIME_API () (Some ''k'') (snd (submit RUNTIME_API () (Some ''k'') (Cycle_new 1 1))))"

lemma two_puts_reach: "exec_reach [RUNTIME_API] 1 1 two_puts"
  unfolding two_puts_def by (blast intro: exec_reach.intros exec_step.intros)

lemma two_puts_eval:
  "accepted two_puts RUNTIME_API = 2" "pending two_puts RUNTIME_API = 1" "next_task two_puts = 2"
  "settled two_puts 0" "queues two_puts RUNTIME_API = [1]" "waiting_index two_puts RUNTIME_API ''k'' = Some 0"
  "stopping two_puts = False" "t_fut (tasks two_puts 1) = F_PENDING"
  by code_simp+


text \<open>
  No task is lost and none is held twice. In every reachable state an accepted task is in exactly
  one place: waiting once in the queue of its own pool, held by exactly one thread, or settled, that is
  its future is finished or its cancellation was notified to whoever waits for it.
\<close>

theorem executor_task_in_one_place:
  assumes "exec_reach pools workers limit c" "t < next_task c"
  shows "count_list (queues c (t_pool (tasks c t))) t + count_list (taken c) t +
      of_bool (settled c t) = 1 \<and>
    (\<forall>q. t \<in> set (queues c q) \<longrightarrow> q = t_pool (tasks c t))"
proof -
  note inv = exec_reach_inv [OF assms(1)]
  let ?q = "t_pool (tasks c t)"
  have own: "t \<in> set (queues c q) \<Longrightarrow> q = ?q" for q
    using inv unfolding exec_inv_def queue_ok_def by (metis (no_types))
  have one: "count_list (queues c ?q) t = of_bool (t \<in> set (queues c ?q))"
      "count_list (taken c) t = of_bool (t \<in> set (taken c))"
    using inv by (simp_all add: exec_inv_def queue_ok_def taken_ok_def distinct_count_list)
  have excl: "t \<in> set (queues c ?q) \<Longrightarrow> t \<notin> set (taken c) \<and> \<not> settled c t"
      "t \<in> set (taken c) \<Longrightarrow> \<not> settled c t"
    using inv queuedD(4,5) [OF inv, of t ?q] by (auto simp: exec_inv_def taken_ok_def settled_def)
  have "t \<in> set (queues c ?q) \<or> t \<in> set (taken c) \<or> settled c t"
    using inv assms(2) by (auto simp: exec_inv_def place_ok_def)
  then have "count_list (queues c ?q) t + count_list (taken c) t + of_bool (settled c t) = 1"
    using excl by (auto simp: one)
  then show ?thesis using own by simp
qed

theorem executor_task_in_one_place_witness:
  "count_list (queues two_puts (t_pool (tasks two_puts 0))) 0 + count_list (taken two_puts) 0 +
     of_bool (settled two_puts 0) = 1 \<and> settled two_puts 0"
  using executor_task_in_one_place [OF two_puts_reach, of 0] by (simp add: two_puts_eval)

text \<open>
  \<open>would_accept\<close> is exact for a caller that submits next: in a reachable state it answers yes
  exactly when \<open>submit\<close> with that key returns a future, a replaced task frees its slot to its
  successor, and a dropped task leaves every queue as it was.
\<close>

theorem would_accept_exact:
  assumes "exec_reach pools workers limit c"
  shows "(would_accept p k c \<longleftrightarrow> fst (submit p fn k c) \<noteq> None) \<and>
    (\<not> would_accept p k c \<longrightarrow> queues (snd (submit p fn k c)) = queues c) \<and>
    (\<forall>key i. \<not> stopping c \<and> k = Some key \<and> waiting_index c p key = Some i \<longrightarrow>
       queues (snd (submit p fn k c)) p = (queues c p)[i := next_task c] \<and>
       pending (snd (submit p fn k c)) p = pending c p)"
  using exec_reach_inv [OF assms]
proof (cases rule: submit_cases [of c p fn k])
  case (replaced key i)
  then show ?thesis
    by (auto simp: would_accept_def submit_replace_def pending_def Let_def)
next
  case full
  then show ?thesis by (auto simp: would_accept_def submit_drop_def split: option.splits)
next
  case appended
  then show ?thesis by (auto simp: would_accept_def split: option.splits)
qed (auto simp: would_accept_def submit_drop_def)

theorem would_accept_exact_witness:
  "fst (submit RUNTIME_API () None two_puts) = None \<and>
   fst (submit RUNTIME_API () (Some ''k'') two_puts) \<noteq> None \<and>
   pending (snd (submit RUNTIME_API () (Some ''k'') two_puts)) RUNTIME_API = pending two_puts RUNTIME_API"
proof -
  have "\<not> would_accept RUNTIME_API None two_puts" "would_accept RUNTIME_API (Some ''k'') two_puts"
    by code_simp+
  then show ?thesis
    using would_accept_exact [OF two_puts_reach, of RUNTIME_API None "()"]
      would_accept_exact [OF two_puts_reach, of RUNTIME_API "Some ''k''" "()"] by (auto simp: two_puts_eval)
qed

section \<open>The contract the mirror of workloads relies on\<close>

text \<open>
  A pool that holds at most one waiting payload per key, where a new payload for the key takes the
  place of the waiting one. The law \<open>held_put\<close> is what makes the newest status win.
\<close>

locale replacing_pool =
  fixes good :: "'c \<Rightarrow> bool" and stopped :: "'c \<Rightarrow> bool" and accepts :: "'k \<Rightarrow> 'c \<Rightarrow> bool"
    and put :: "'a \<Rightarrow> 'k \<Rightarrow> 'c \<Rightarrow> bool \<times> 'c" and held :: "'c \<Rightarrow> 'k \<Rightarrow> 'a option"
  assumes put_good: "good c \<Longrightarrow> good (snd (put a k c))"
    and put_stopped: "good c \<Longrightarrow> stopped (snd (put a k c)) = stopped c"
    and put_accepted: "good c \<Longrightarrow> fst (put a k c) = accepts k c"
    and held_put: "good c \<Longrightarrow> held (snd (put a k c)) k' = (if k' = k \<and> accepts k c then Some a else held c k')"
    and accepts_held: "good c \<Longrightarrow> \<not> stopped c \<Longrightarrow> held c k \<noteq> None \<Longrightarrow> accepts k c"
begin

text \<open>Once a payload waits under a key, every later one for the key is accepted and the last one waits.\<close>

lemma put_again:
  "good c \<Longrightarrow> \<not> stopped c \<Longrightarrow> accepts k c \<Longrightarrow> accepts k (snd (put a k c))"
  by (rule accepts_held) (simp_all add: put_good put_stopped held_put)

lemma puts_last:
  assumes "good c" "\<not> stopped c" "accepts k c" "as \<noteq> []"
  shows "held (fold (\<lambda>a c. snd (put a k c)) as c) k = Some (last as)"
  using assms
proof (induction as arbitrary: c)
  case Nil
  then show ?case by simp
next
  case (Cons a as)
  show ?case
  proof (cases "as = []")
    case True
    with Cons.prems show ?thesis by (simp add: held_put)
  next
    case False
    with Cons show ?thesis by (simp add: put_good put_stopped put_again)
  qed
qed

lemma put_other: "good c \<Longrightarrow> k' \<noteq> k \<Longrightarrow> held (snd (put a k c)) k' = held c k'"
  by (simp add: held_put)

end

definition waiting_fn :: "'p \<Rightarrow> ('p, 'a) cycle \<Rightarrow> string \<Rightarrow> 'a option" where
  "waiting_fn p c k =
     (case waiting_index c p k of None \<Rightarrow> None | Some i \<Rightarrow> t_fn (tasks c (queues c p ! i)))"

definition put_task :: "'p \<Rightarrow> 'a \<Rightarrow> string \<Rightarrow> ('p, 'a) cycle \<Rightarrow> bool \<times> ('p, 'a) cycle" where
  "put_task p fn k c = (case submit p fn (Some k) c of (r, c') \<Rightarrow> (r \<noteq> None, c'))"

lemma waiting_fn_iff:
  assumes "exec_inv c"
  shows "waiting_fn p c k = Some a \<longleftrightarrow>
    (\<exists>t \<in> set (queues c p). t_key (tasks c t) = Some k \<and> t_fn (tasks c t) = Some a)"
proof (cases "waiting_index c p k")
  case None
  then have "\<forall>t \<in> set (queues c p). t_key (tasks c t) \<noteq> Some k" by (simp add: waiting_index_None)
  with None show ?thesis by (auto simp: waiting_fn_def)
next
  case (Some i)
  note i = waiting_index_Some [OF Some]
  have "t = queues c p ! i" if "t \<in> set (queues c p)" "t_key (tasks c t) = Some k" for t
    using assms that i unfolding exec_inv_def key_ok_def by (metis nth_mem option.discI)
  then show ?thesis using Some i by (auto simp: waiting_fn_def)
qed

lemma waiting_fn_None: "exec_inv c \<Longrightarrow> waiting_fn p c k = None \<longleftrightarrow> waiting_index c p k = None"
  using queuedD(3) [of c _ p] waiting_index_Some(1) [of c p k]
  by (cases "waiting_index c p k") (auto simp: waiting_fn_def)

lemma waiting_fn_drop [simp]: "waiting_fn p (submit_drop q reason c) k = waiting_fn p c k"
proof -
  have "waiting_index (submit_drop q reason c) p k = waiting_index c p k"
    by (simp add: submit_drop_def waiting_index_def)
  then show ?thesis by (cases "waiting_index c p k") (simp_all add: waiting_fn_def submit_drop_def)
qed

lemma waiting_fn_submit:
  assumes inv: "exec_inv c"
  shows "waiting_fn p (snd (submit p fn (Some k) c)) k' =
    (if k' = k \<and> would_accept p (Some k) c then Some fn else waiting_fn p c k')"
proof -
  define c' where "c' = snd (submit p fn (Some k) c)"
  have inv': "exec_inv c'" using submit_inv [OF inv] by (simp add: c'_def)
  have eqI: "x = y" if "\<And>a. x = Some a \<longleftrightarrow> y = Some a" for x y :: "'b option"
    using that by (metis option.exhaust)
  have "waiting_fn p c' k' = (if k' = k \<and> would_accept p (Some k) c then Some fn else waiting_fn p c k')"
  proof (cases rule: submit_cases [OF inv, of p fn "Some k"])
    case 1
    then show ?thesis by (simp add: c'_def would_accept_def)
  next
    case (2 key i)
    define old where "old = queues c p ! i"
    have k: "key = k" using 2 by simp
    note i = waiting_index_Some [OF 2(3)]
    have eff: "queues c' p = (queues c p)[i := next_task c]" "tasks c' (next_task c) = new_task p fn (Some k)"
        "\<And>t. t \<noteq> old \<Longrightarrow> t \<noteq> next_task c \<Longrightarrow> tasks c' t = tasks c t"
      using 2 fresh_task(1) [OF inv, of p] i(1)
      by (auto simp: c'_def submit_replace_def Let_def old_def dest: nth_mem)
    have qset: "set (queues c' p) = insert (next_task c) (set (queues c p) - {old})"
      unfolding eff old_def using inv i(1) by (intro set_update_distinct) (auto simp: exec_inv_def queue_ok_def)
    have uniq: "t = old" if "t \<in> set (queues c p)" "t_key (tasks c t) = Some k" for t
      using inv that i k unfolding exec_inv_def key_ok_def old_def by (metis nth_mem option.discI)
    have "would_accept p (Some k) c" using 2 k by (simp add: would_accept_def)
    moreover have "waiting_fn p c' k = Some fn"
      unfolding waiting_fn_iff [OF inv'] using qset eff(2) by (auto simp: new_task_def)
    moreover have "waiting_fn p c' k' = waiting_fn p c k'" if "k' \<noteq> k"
    proof (rule eqI)
      fix a
      have oldk: "t_key (tasks c old) = Some k" using i k by (simp add: old_def)
      have "t \<in> set (queues c' p) \<and> t_key (tasks c' t) = Some k' \<and> t_fn (tasks c' t) = Some a \<longleftrightarrow>
          t \<in> set (queues c p) \<and> t_key (tasks c t) = Some k' \<and> t_fn (tasks c t) = Some a" for t
        using qset eff(2) eff(3) [of t] oldk that fresh_task(1) [OF inv, of p]
        by (cases "t = next_task c"; cases "t = old") (auto simp: new_task_def)
      then show "(waiting_fn p c' k' = Some a) = (waiting_fn p c k' = Some a)"
        unfolding waiting_fn_iff [OF inv'] waiting_fn_iff [OF inv] by blast
    qed
    ultimately show ?thesis by simp
  next
    case 3
    then show ?thesis by (simp add: c'_def would_accept_def)
  next
    case 4
    have eff: "set (queues c' p) = insert (next_task c) (set (queues c p))"
        "tasks c' (next_task c) = new_task p fn (Some k)" "\<And>t. t \<noteq> next_task c \<Longrightarrow> tasks c' t = tasks c t"
      using 4 by (auto simp: c'_def submit_append_def)
    have old: "t \<in> set (queues c p) \<Longrightarrow> t_key (tasks c t) \<noteq> Some k \<and> t \<noteq> next_task c" for t
      using 4 fresh_task(1) [OF inv, of p] by (auto simp: waiting_index_None)
    have "would_accept p (Some k) c" using 4 by (simp add: would_accept_def)
    moreover have "waiting_fn p c' k = Some fn"
      unfolding waiting_fn_iff [OF inv'] using eff by (auto simp: new_task_def)
    moreover have "waiting_fn p c' k' = waiting_fn p c k'" if "k' \<noteq> k"
      by (rule eqI, unfold waiting_fn_iff [OF inv'] waiting_fn_iff [OF inv])
        (use eff that old in \<open>auto simp: new_task_def\<close>)
    ultimately show ?thesis by simp
  qed
  then show ?thesis by (simp add: c'_def)
qed

lemma submit_stopping: "exec_inv c \<Longrightarrow> stopping (snd (submit p fn k c)) = stopping c"
  by (cases rule: submit_cases [of c p fn k], assumption)
    (simp_all add: submit_drop_def submit_append_def submit_replace_def Let_def)

lemma would_accept_iff: "exec_inv c \<Longrightarrow> fst (submit p fn k c) \<noteq> None \<longleftrightarrow> would_accept p k c"
  by (cases rule: submit_cases [of c p fn k], assumption)
    (auto simp: would_accept_def split: option.splits)

interpretation runtime_pool: replacing_pool exec_inv stopping "\<lambda>k. would_accept RUNTIME_API (Some k)"
    "put_task RUNTIME_API" "waiting_fn RUNTIME_API"
proof (unfold_locales, goal_cases)
  case (3 c a k)
  then show ?case using would_accept_iff [of c RUNTIME_API a "Some k"] by (simp add: put_task_def split_def)
next
  case (5 c k)
  then show ?case using waiting_fn_None [of c RUNTIME_API k] by (simp add: would_accept_def)
qed (simp_all add: put_task_def split_def submit_inv submit_stopping waiting_fn_submit)

section \<open>Shutting down\<close>

text \<open>What \<open>cancel_now\<close> does to a task that waits in a queue of a sound state.\<close>

lemma cancel_now_queued:
  assumes inv: "exec_inv c" and t: "t \<in> set (queues c p)" and f: "t_fut (tasks c t) = F_PENDING"
  shows "snd (cancel_now t c) =
    (drop_queued t p c)\<lparr>callbacks := removeAll t (callbacks c)\<rparr>"
  using queuedD [OF inv t] f t inv
  by (auto simp: cancel_now_def future_cancel_def forget_if_cancelled_def drop_queued_def cancelled_def count_task_def
      release_task_def set_running_or_notify_cancel_def set_fut_def exec_inv_def queue_ok_def Let_def)

lemma cancel_now_cancelled: "t_fut (tasks c t) = F_CANCELLED \<Longrightarrow> snd (cancel_now t c) = c"
  by (simp add: cancel_now_def future_cancel_def)

text \<open>The pending tasks of one queue are cancelled and settled; nothing else changes.\<close>

definition cancelled_in :: "'p set \<Rightarrow> ('p, 'a) cycle \<Rightarrow> nat set \<Rightarrow> ('p, 'a) cycle \<Rightarrow> bool" where
  "cancelled_in P c T c' \<longleftrightarrow> exec_inv c' \<and> taken c' = taken c \<and> stopping c' = stopping c \<and>
     (\<forall>p. set (queues c' p) = (if p \<in> P then set (queues c p) - {t \<in> T. t_fut (tasks c t) = F_PENDING} else set (queues c p))) \<and>
     (\<forall>t. t_fut (tasks c' t) = (if t \<in> T \<and> t_fut (tasks c t) = F_PENDING then F_CANCELLED_AND_NOTIFIED
                                 else t_fut (tasks c t)))"

lemma cancel_list:
  assumes "exec_inv c" "set ts \<subseteq> set (queues c p)" "distinct ts"
  shows "cancelled_in {p} c (set ts) (fold (\<lambda>t c. snd (cancel_now t c)) ts c)"
  using assms
proof (induction ts arbitrary: c)
  case Nil
  then show ?case by (simp add: cancelled_in_def)
next
  case (Cons t ts)
  then have t: "t \<in> set (queues c p)" by simp
  note inv = Cons.prems(1)
  consider "t_fut (tasks c t) = F_PENDING" | "t_fut (tasks c t) = F_CANCELLED" using queued_fut [OF inv t] by auto
  then show ?case
  proof cases
    case 1
    define c1 where "c1 = snd (cancel_now t c)"
    have c1: "c1 = (drop_queued t p c)\<lparr>callbacks := removeAll t (callbacks c)\<rparr>"
      using cancel_now_queued [OF inv t 1] by (simp add: c1_def)
    have dist: "distinct (queues c p)" using inv by (simp add: exec_inv_def queue_ok_def)
    have "exec_inv c1" unfolding c1 by (rule drop_queued_inv [OF inv t])
    moreover have "set ts \<subseteq> set (queues c1 p)" using Cons.prems dist by (auto simp: c1 drop_queued_def)
    ultimately have "cancelled_in {p} c1 (set ts) (fold (\<lambda>t c. snd (cancel_now t c)) ts c1)"
      using Cons.IH Cons.prems(3) by simp
    moreover have "cancelled_in {p} c (set (t # ts)) c'" if "cancelled_in {p} c1 (set ts) c'" for c'
      using that 1 Cons.prems(3) dist by (auto simp: cancelled_in_def c1 drop_queued_def)
    ultimately show ?thesis by (simp add: c1_def)
  next
    case 2
    then show ?thesis
      using Cons by (auto simp: cancel_now_cancelled cancelled_in_def)
  qed
qed

lemma cancel_pools:
  assumes "exec_inv c" "distinct pools"
  shows "cancelled_in (set pools) c (\<Union>p \<in> set pools. set (queues c p))
    (fold (\<lambda>p c'. fold (\<lambda>t c''. snd (cancel_now t c'')) (queues c' p) c') pools c)"
  using assms
proof (induction pools arbitrary: c)
  case Nil
  then show ?case by (simp add: cancelled_in_def)
next
  case (Cons p ps)
  define c1 where "c1 = fold (\<lambda>t c''. snd (cancel_now t c'')) (queues c p) c"
  have one: "cancelled_in {p} c (set (queues c p)) c1"
    unfolding c1_def using Cons.prems(1) by (intro cancel_list) (auto simp: exec_inv_def queue_ok_def)
  then have inv1: "exec_inv c1" by (simp add: cancelled_in_def)
  have sep: "q \<noteq> q' \<Longrightarrow> t \<in> set (queues c q) \<Longrightarrow> t \<notin> set (queues c q')" for q q' t
    using queuedD(2) [OF Cons.prems(1)] by metis
  have "cancelled_in (set (p # ps)) c (\<Union>q \<in> set (p # ps). set (queues c q)) c'"
    if rest: "cancelled_in (set ps) c1 (\<Union>q \<in> set ps. set (queues c1 q)) c'" for c'
  proof -
    have p: "p \<notin> set ps" using Cons.prems(2) by simp
    have q1: "set (queues c1 q) = (if q = p then {t \<in> set (queues c p). t_fut (tasks c t) \<noteq> F_PENDING} else set (queues c q))" for q
      using one by (auto simp: cancelled_in_def)
    have f1: "t_fut (tasks c1 t) = (if t \<in> set (queues c p) \<and> t_fut (tasks c t) = F_PENDING
        then F_CANCELLED_AND_NOTIFIED else t_fut (tasks c t))" for t
      using one by (simp add: cancelled_in_def)
    have U: "(\<Union>q \<in> set ps. set (queues c1 q)) = (\<Union>q \<in> set ps. set (queues c q))"
      using p by (auto simp: q1)
    have fut: "t_fut (tasks c' t) = (if t \<in> (\<Union>q \<in> set (p # ps). set (queues c q)) \<and> t_fut (tasks c t) = F_PENDING
        then F_CANCELLED_AND_NOTIFIED else t_fut (tasks c t))" for t
      using rest f1 [of t] unfolding U by (auto simp: cancelled_in_def)
    have qs: "set (queues c' q) = (if q \<in> set (p # ps) then
        set (queues c q) - {t \<in> (\<Union>q \<in> set (p # ps). set (queues c q)). t_fut (tasks c t) = F_PENDING}
        else set (queues c q))" for q
      using rest p f1 q1 [of q] sep [of q p] unfolding U
      by (cases "q = p"; cases "q \<in> set ps") (auto simp: cancelled_in_def)
    have "exec_inv c'" "taken c' = taken c" "stopping c' = stopping c"
      using rest one by (simp_all add: cancelled_in_def)
    then show ?thesis unfolding cancelled_in_def using fut qs by blast
  qed
  then show ?case using Cons.IH [OF inv1] Cons.prems(2) by (simp add: c1_def)
qed

text \<open>
  After \<open>shutdown\<close> in a reachable state every task that was still waiting with a pending future
  is out of its queue and its waiters are released, the only tasks left in a queue are those some
  caller had already cancelled and whose callback has not run yet, the tasks the threads hold are
  untouched, no thread takes another task and nothing more is accepted.
\<close>

theorem shutdown_releases_waiting:
  assumes "exec_reach pools workers limit c" "distinct pools" "set pools = UNIV"
  shows "(\<forall>p. \<forall>t \<in> set (queues c p). t_fut (tasks c t) = F_PENDING \<longrightarrow>
       t_fut (tasks (shutdown pools c) t) = F_CANCELLED_AND_NOTIFIED \<and> t \<notin> set (queues (shutdown pools c) p)) \<and>
    (\<forall>p. \<forall>t \<in> set (queues (shutdown pools c) p). t \<in> set (queues c p) \<and> t_fut (tasks c t) = F_CANCELLED) \<and>
    taken (shutdown pools c) = taken c \<and>
    work_take pools (shutdown pools c) = None \<and> \<not> would_accept p k (shutdown pools c)"
proof -
  have inv: "exec_inv (c\<lparr>stopping := True\<rparr>)" using exec_reach_inv [OF assms(1)] by simp
  have "cancelled_in UNIV (c\<lparr>stopping := True\<rparr>) (\<Union>p. set (queues c p)) (shutdown pools c)"
    using cancel_pools [OF inv assms(2)] by (simp add: shutdown_def assms(3))
  moreover have "t \<in> set (queues c p) \<Longrightarrow> t_fut (tasks c t) \<noteq> F_PENDING \<Longrightarrow> t_fut (tasks c t) = F_CANCELLED" for t p
    using queued_fut [OF exec_reach_inv [OF assms(1)], of t p] by simp
  ultimately have pend: "t \<in> set (queues c p) \<Longrightarrow> t_fut (tasks c t) = F_PENDING \<Longrightarrow>
        t_fut (tasks (shutdown pools c) t) = F_CANCELLED_AND_NOTIFIED \<and> t \<notin> set (queues (shutdown pools c) p)"
      and left: "t \<in> set (queues (shutdown pools c) p) \<Longrightarrow> t \<in> set (queues c p) \<and> t_fut (tasks c t) = F_CANCELLED"
      and tk: "taken (shutdown pools c) = taken c" and st: "stopping (shutdown pools c)" for t p
    by (auto simp: cancelled_in_def)
  have "work_take pools (shutdown pools c) = None \<and> \<not> would_accept p k (shutdown pools c)"
    using st by (simp add: work_take_def would_accept_def)
  then show ?thesis using pend left tk by blast
qed

theorem shutdown_releases_waiting_witness:
  "t_fut (tasks (shutdown [RUNTIME_API] two_puts) 1) = F_CANCELLED_AND_NOTIFIED \<and>
   \<not> would_accept RUNTIME_API None (shutdown [RUNTIME_API] two_puts)"
proof -
  have "set [RUNTIME_API] = UNIV" using BackgroundPool.exhaust by auto
  note eff = shutdown_releases_waiting [OF two_puts_reach _ this, of RUNTIME_API None]
  have "1 \<in> set (queues two_puts RUNTIME_API)" by (simp add: two_puts_eval)
  then have "t_fut (tasks (shutdown [RUNTIME_API] two_puts) 1) = F_CANCELLED_AND_NOTIFIED"
    using eff two_puts_eval(8) by (meson distinct_singleton)
  moreover have "\<not> would_accept RUNTIME_API None (shutdown [RUNTIME_API] two_puts)"
    using eff by (meson distinct_singleton)
  ultimately show ?thesis ..
qed

section \<open>Which pool a free thread serves\<close>

definition serves_before :: "('p, 'a) cycle \<Rightarrow> 'p \<Rightarrow> 'p \<Rightarrow> bool" where
  "serves_before c p q \<longleftrightarrow> running c p < running c q \<or> running c p = running c q \<and> served c p \<le> served c q"

lemma serves_before_trans: "serves_before c p q \<Longrightarrow> serves_before c q r \<Longrightarrow> serves_before c p r"
  by (auto simp: serves_before_def)

lemma min_pool_least:
  "min_pool c b ps \<in> insert b (set ps) \<and> (\<forall>q \<in> insert b (set ps). serves_before c (min_pool c b ps) q)"
proof (induction ps arbitrary: b)
  case Nil
  then show ?case by (simp add: serves_before_def)
next
  case (Cons p ps)
  define b' where "b' = (if running c p < running c b \<or> running c p = running c b \<and> served c p < served c b then p else b)"
  have b': "b' \<in> {p, b}" "serves_before c b' p" "serves_before c b' b"
    by (auto simp: b'_def serves_before_def)
  have m: "min_pool c b (p # ps) = min_pool c b' ps" by (simp add: b'_def)
  show ?case
    unfolding m using Cons.IH [of b'] b' serves_before_trans [of c "min_pool c b' ps" b'] by auto
qed

text \<open>
  A free thread of a running executor takes a task whenever one waits. It takes the oldest task of
  a pool that has tasks waiting and that, among those pools, runs the fewest tasks, the one served least
  recently breaking a tie; so a pool that holds every thread cannot keep the others waiting.
\<close>

theorem work_take_fair:
  assumes "\<not> stopping c"
  shows "(work_take pools c = None \<longleftrightarrow> (\<forall>p \<in> set pools. queues c p = [])) \<and>
    (\<forall>t c'. work_take pools c = Some (t, c') \<longrightarrow>
       (\<exists>p \<in> set pools. queues c p \<noteq> [] \<and> t = hd (queues c p) \<and> queues c' p = tl (queues c p) \<and>
          (\<forall>q \<in> set pools. queues c q \<noteq> [] \<longrightarrow> serves_before c p q)))"
proof -
  consider "filter (\<lambda>p. queues c p \<noteq> []) pools = []"
    | p ps where "filter (\<lambda>p. queues c p \<noteq> []) pools = p # ps" by (cases "filter (\<lambda>p. queues c p \<noteq> []) pools") auto
  then show ?thesis
  proof cases
    case 1
    then have "work_take pools c = None" by (simp add: work_take_def next_pool_def)
    then show ?thesis using 1 by (simp add: filter_empty_conv)
  next
    case (2 p ps)
    let ?m = "min_pool c p ps"
    have waiting: "insert p (set ps) = {q \<in> set pools. queues c q \<noteq> []}"
      using arg_cong [OF 2, of set] by auto
    note least = min_pool_least [of c p ps, unfolded waiting]
    then obtain t rest where q: "queues c ?m = t # rest" by (cases "queues c ?m") auto
    have "\<exists>c'. work_take pools c = Some (t, c') \<and> queues c' ?m = rest"
      using assms 2 q by (simp add: work_take_def next_pool_def)
    then obtain c' where "work_take pools c = Some (t, c')" "queues c' ?m = rest" by blast
    with least q show ?thesis by (auto intro!: bexI [of _ ?m])
  qed
qed

theorem work_take_fair_witness:
  "\<exists>c'. work_take [RUNTIME_API] two_puts = Some (1, c') \<and> queues c' RUNTIME_API = []"
proof -
  have "work_take [RUNTIME_API] two_puts \<noteq> None" "\<not> stopping two_puts" by (simp_all add: two_puts_eval
      work_take_def next_pool_def)
  then show ?thesis using work_take_fair [of two_puts "[RUNTIME_API]"] by (auto simp: two_puts_eval)
qed

end
