(* ===== verification/Circuit_Breaker.thy ===== *)
theory Circuit_Breaker
  imports Config_Store
begin

text \<open>
  The in-memory circuit breaker of the scheduler (\<^verbatim>\<open>scheduler/tasks/circuit_breaker.py\<close>) and the
  registries that hold one per region (\<^verbatim>\<open>scheduler/schedule.py\<close>). \<open>time.monotonic()\<close> is a
  number of microseconds handed to each operation. Configuration is read at every use, so it is an
  argument too. Reading \<open>is_open\<close> may reset the breaker, so it returns the new state.
\<close>

section \<open>One breaker\<close>

record breaker =
  consecutive_failures :: nat
  opened_at :: "int option"

record breaker_keys =
  failure_threshold_key :: ConfigKey
  pause_seconds_key :: ConfigKey

definition DEFAULT_FAILURE_THRESHOLD :: int where
  "DEFAULT_FAILURE_THRESHOLD = 5"

definition DEFAULT_PAUSE_SECONDS :: int where
  "DEFAULT_PAUSE_SECONDS = 60"

definition new_breaker :: breaker where
  "new_breaker = \<lparr>consecutive_failures = 0, opened_at = None\<rparr>"

definition failure_threshold :: "(ConfigKey \<Rightarrow> string) \<Rightarrow> breaker_keys \<Rightarrow> int" where
  "failure_threshold conf k = cfg_int (conf (failure_threshold_key k)) DEFAULT_FAILURE_THRESHOLD"

definition pause_seconds :: "(ConfigKey \<Rightarrow> string) \<Rightarrow> breaker_keys \<Rightarrow> int" where
  "pause_seconds conf k = cfg_int (conf (pause_seconds_key k)) DEFAULT_PAUSE_SECONDS"

definition is_open :: "(ConfigKey \<Rightarrow> string) \<Rightarrow> breaker_keys \<Rightarrow> int \<Rightarrow> breaker \<Rightarrow> bool \<times> breaker" where
  "is_open conf k t b =
     (case opened_at b of
        None \<Rightarrow> (False, b)
      | Some t0 \<Rightarrow> if t - t0 \<ge> pause_seconds conf k * 1000000 then (False, new_breaker) else (True, b))"

definition record_success :: "breaker \<Rightarrow> breaker" where
  "record_success b = b\<lparr>consecutive_failures := 0\<rparr>"

definition record_failure :: "(ConfigKey \<Rightarrow> string) \<Rightarrow> breaker_keys \<Rightarrow> int \<Rightarrow> breaker \<Rightarrow> breaker" where
  "record_failure conf k t b =
     (let b' = b\<lparr>consecutive_failures := Suc (consecutive_failures b)\<rparr>
      in if int (consecutive_failures b') \<ge> failure_threshold conf k \<and> opened_at b' = None
         then b'\<lparr>opened_at := Some t\<rparr> else b')"

section \<open>Registries\<close>

text \<open>\<open>dict\<close> of breakers by region, None included, in the order the regions were first asked for.\<close>

type_synonym region_breakers = "(string option \<times> breaker) list"

definition get_breaker :: "string option \<Rightarrow> region_breakers \<Rightarrow> breaker \<times> region_breakers" where
  "get_breaker region bs =
     (case map_of bs region of
        Some b \<Rightarrow> (b, bs)
      | None \<Rightarrow> (new_breaker, bs @ [(region, new_breaker)]))"

definition put_breaker :: "string option \<Rightarrow> breaker \<Rightarrow> region_breakers \<Rightarrow> region_breakers" where
  "put_breaker region b bs = map (\<lambda>(r, x). (r, if r = region then b else x)) bs"

definition paused :: "(ConfigKey \<Rightarrow> string) \<Rightarrow> breaker_keys \<Rightarrow> int \<Rightarrow> string option \<Rightarrow> region_breakers \<Rightarrow> bool \<times> region_breakers" where
  "paused conf k t region bs =
     (let (b, bs1) = get_breaker region bs;
          (open, b') = is_open conf k t b
      in (open, put_breaker region b' bs1))"

fun paused_regions :: "(ConfigKey \<Rightarrow> string) \<Rightarrow> breaker_keys \<Rightarrow> int \<Rightarrow> region_breakers \<Rightarrow> string option list \<times> region_breakers" where
  "paused_regions conf k t [] = ([], [])"
| "paused_regions conf k t ((region, b) # bs) =
     (let (open, b') = is_open conf k t b; (rs, bs') = paused_regions conf k t bs
      in ((if open then region # rs else rs), (region, b') # bs'))"

definition record_in :: "(breaker \<Rightarrow> breaker) \<Rightarrow> string option \<Rightarrow> region_breakers \<Rightarrow> region_breakers" where
  "record_in f region bs = (let (b, bs1) = get_breaker region bs in put_breaker region (f b) bs1)"

record FleetsBreakers =
  cos :: region_breakers
  code_engine :: region_breakers
  cleanup :: region_breakers

definition FLEETS_BREAKER_KEYS :: breaker_keys where
  "FLEETS_BREAKER_KEYS =
     \<lparr>failure_threshold_key = FLEETS_BREAKER_FAILURES, pause_seconds_key = FLEETS_BREAKER_PAUSE_SECONDS\<rparr>"

text \<open>\<open>self.cos.paused(region) or self.code_engine.paused(region)\<close>: the second only when needed.\<close>

definition fleets_paused :: "(ConfigKey \<Rightarrow> string) \<Rightarrow> int \<Rightarrow> string option \<Rightarrow> FleetsBreakers \<Rightarrow> bool \<times> FleetsBreakers" where
  "fleets_paused conf t region fb =
     (let (a, c) = paused conf FLEETS_BREAKER_KEYS t region (cos fb) in
      if a then (True, fb\<lparr>cos := c\<rparr>)
      else let (b, ce) = paused conf FLEETS_BREAKER_KEYS t region (code_engine fb)
           in (b, fb\<lparr>cos := c, code_engine := ce\<rparr>))"

section \<open>When a breaker opens and closes\<close>

text \<open>The outcomes of a series of sends, each at its moment.\<close>

fun record_all :: "(ConfigKey \<Rightarrow> string) \<Rightarrow> breaker_keys \<Rightarrow> (int \<times> bool) list \<Rightarrow> breaker \<Rightarrow> breaker" where
  "record_all conf k [] b = b"
| "record_all conf k ((t, ok) # xs) b =
     record_all conf k xs (if ok then record_success b else record_failure conf k t b)"

text \<open>\<open>streak m n xs\<close>: starting with \<open>m\<close> failures in a row, some prefix reaches \<open>n\<close> in a row.\<close>

fun streak :: "nat \<Rightarrow> nat \<Rightarrow> bool list \<Rightarrow> bool" where
  "streak m n [] = False"
| "streak m n (ok # xs) = (if ok then streak 0 n xs else n \<le> Suc m \<or> streak (Suc m) n xs)"

definition starts_with_failures :: "nat \<Rightarrow> bool list \<Rightarrow> bool" where
  "starts_with_failures i xs \<longleftrightarrow> (\<exists>ys. xs = replicate i False @ ys)"

definition has_failures :: "nat \<Rightarrow> bool list \<Rightarrow> bool" where
  "has_failures n xs \<longleftrightarrow> (\<exists>us ys. xs = us @ replicate n False @ ys)"

lemma starts_simps:
  "starts_with_failures 0 xs" "\<not> starts_with_failures (Suc i) []"
  "starts_with_failures (Suc i) (a # xs) \<longleftrightarrow> \<not> a \<and> starts_with_failures i xs"
  by (auto simp: starts_with_failures_def)

lemma starts_antimono: "starts_with_failures l xs \<Longrightarrow> i \<le> l \<Longrightarrow> starts_with_failures i xs"
  unfolding starts_with_failures_def by (metis append.assoc le_add_diff_inverse replicate_add)

lemma starts_has: "starts_with_failures n xs \<Longrightarrow> has_failures n xs"
  unfolding starts_with_failures_def has_failures_def by (metis append_Nil)

lemma has_failures_Cons: "has_failures n (a # xs) \<longleftrightarrow> starts_with_failures n (a # xs) \<or> has_failures n xs"
  unfolding starts_with_failures_def has_failures_def by (metis append_Cons append_Nil list.exhaust list.inject)

lemma has_failures_Nil: "0 < n \<Longrightarrow> \<not> has_failures n []"
  by (simp add: has_failures_def)

lemma streak_iff:
  "m < n \<Longrightarrow> streak m n xs \<longleftrightarrow> starts_with_failures (n - m) xs \<or> has_failures n xs"
proof (induction xs arbitrary: m)
  case Nil
  then obtain i where "n - m = Suc i" by (metis Suc_diff_Suc)
  with Nil show ?case by (simp add: starts_simps has_failures_Nil)
next
  case (Cons ok xs)
  obtain i where i: "n - m = Suc i" using Cons.prems by (metis Suc_diff_Suc)
  obtain l where l: "n = Suc l" using Cons.prems by (cases n) auto
  have il: "i \<le> l" using i l by simp
  have heads: "starts_with_failures (n - m) (ok # xs) \<longleftrightarrow> \<not> ok \<and> starts_with_failures i xs"
      "starts_with_failures n (ok # xs) \<longleftrightarrow> \<not> ok \<and> starts_with_failures l xs"
    unfolding i starts_simps by (simp_all add: l starts_simps)
  show ?case
  proof (cases ok)
    case True
    have "streak 0 n xs \<longleftrightarrow> starts_with_failures n xs \<or> has_failures n xs"
      using Cons.IH [of 0] Cons.prems by simp
    then show ?thesis using True starts_has [of n xs] heads has_failures_Cons [of n ok xs] by auto
  next
    case False
    show ?thesis
    proof (cases "n \<le> Suc m")
      case True
      then have "i = 0" using i by simp
      then show ?thesis using False True heads by (simp add: starts_simps)
    next
      case nle: False
      have "n - Suc m = i" using i by simp
      then have "streak (Suc m) n xs \<longleftrightarrow> starts_with_failures i xs \<or> has_failures n xs"
        using Cons.IH [of "Suc m"] nle by simp
      moreover have "starts_with_failures l xs \<Longrightarrow> starts_with_failures i xs" using il by (rule starts_antimono [rotated])
      ultimately show ?thesis using False nle heads has_failures_Cons [of n ok xs] by auto
    qed
  qed
qed

lemma record_all_open_stays: "opened_at b \<noteq> None \<Longrightarrow> opened_at (record_all conf k xs b) = opened_at b"
  by (induction xs arbitrary: b) (auto simp: record_success_def record_failure_def Let_def)

lemma record_all_opens:
  assumes "opened_at b = None" "int (consecutive_failures b) < max 1 (failure_threshold conf k)"
  shows "opened_at (record_all conf k xs b) \<noteq> None \<longleftrightarrow>
    streak (consecutive_failures b) (nat (max 1 (failure_threshold conf k))) (map snd xs)"
  using assms
proof (induction xs arbitrary: b)
  case Nil
  then show ?case by simp
next
  case (Cons x xs)
  obtain t ok where x: "x = (t, ok)" by (cases x)
  show ?case
  proof (cases ok)
    case True
    then show ?thesis
      using Cons.IH [of "record_success b"] Cons.prems by (simp add: x record_success_def)
  next
    case False
    let ?b = "record_failure conf k t b"
    show ?thesis
    proof (cases "int (Suc (consecutive_failures b)) \<ge> failure_threshold conf k")
      case True
      then have "opened_at ?b = Some t" "nat (max 1 (failure_threshold conf k)) \<le> Suc (consecutive_failures b)"
        using Cons.prems by (auto simp: record_failure_def Let_def)
      then show ?thesis using False record_all_open_stays [of ?b] by (simp add: x)
    next
      case nopen: False
      then have "opened_at ?b = None" "consecutive_failures ?b = Suc (consecutive_failures b)"
        using Cons.prems by (auto simp: record_failure_def Let_def)
      then show ?thesis
        using Cons.IH [of ?b] False nopen by (simp add: x) linarith
    qed
  qed
qed

text \<open>
  A fresh breaker opens if and only if its sends contain as many consecutive failures as the
  configured threshold, at least one; successes in between start the count again. Once open
  it stays open, whatever is recorded, for every reading before the pause has passed, and the first
  reading after the pause finds it closed and fresh again, so it takes a whole new streak to reopen it.
\<close>

theorem breaker_opens_iff_streak:
  "(opened_at (record_all conf k xs new_breaker) \<noteq> None \<longleftrightarrow>
      (\<exists>us ys. map snd xs = us @ replicate (nat (max 1 (failure_threshold conf k))) False @ ys)) \<and>
   (\<forall>t0. opened_at b = Some t0 \<longrightarrow>
      (\<forall>t. t - t0 < pause_seconds conf k * 1000000 \<longrightarrow> is_open conf k t (record_all conf k xs b) = (True, record_all conf k xs b)) \<and>
      (\<forall>t. t - t0 \<ge> pause_seconds conf k * 1000000 \<longrightarrow> is_open conf k t (record_all conf k xs b) = (False, new_breaker)))"
proof -
  let ?n = "nat (max 1 (failure_threshold conf k))"
  have "opened_at (record_all conf k xs new_breaker) \<noteq> None \<longleftrightarrow> streak 0 ?n (map snd xs)"
    using record_all_opens [of new_breaker] by (simp add: new_breaker_def)
  also have "\<dots> \<longleftrightarrow> (\<exists>us ys. map snd xs = us @ replicate ?n False @ ys)"
    using streak_iff [of 0 ?n "map snd xs"] starts_has [of ?n "map snd xs"] by (auto simp: has_failures_def)
  finally show ?thesis
    using record_all_open_stays [of b conf k xs] by (auto simp: is_open_def)
qed

theorem breaker_opens_iff_streak_witness:
  "let k = FLEETS_BREAKER_KEYS; conf = (\<lambda>_. ''2'') in
     opened_at (record_all conf k [(1, False), (2, True), (3, False), (4, False)] new_breaker) = Some 4 \<and>
     is_open conf k 2000003 \<lparr>consecutive_failures = 2, opened_at = Some 4\<rparr> = (True, \<lparr>consecutive_failures = 2, opened_at = Some 4\<rparr>) \<and>
     is_open conf k 2000004 \<lparr>consecutive_failures = 2, opened_at = Some 4\<rparr> = (False, new_breaker)"
proof -
  let ?conf = "\<lambda>_ :: ConfigKey. ''2''"
  let ?b = "\<lparr>consecutive_failures = 2, opened_at = Some 4\<rparr>"
  have p: "pause_seconds ?conf FLEETS_BREAKER_KEYS = 2" by code_simp
  have "opened_at (record_all ?conf FLEETS_BREAKER_KEYS [(1, False), (2, True), (3, False), (4, False)] new_breaker) = Some 4"
    by code_simp
  then show ?thesis
    using breaker_opens_iff_streak [of ?conf FLEETS_BREAKER_KEYS "[]" ?b] by (simp add: p Let_def)
qed

end
