(* ===== verification/Workload_Payload.thy ===== *)
theory Workload_Payload
  imports Job_Events
begin

text \<open>
  Which jobs are mirrored to the Runtime API and the message that mirrors one
  (\<^verbatim>\<open>core/domain/workload_payload.py\<close>).
\<close>

definition CUSTOM_FUNCTIONS :: string where
  "CUSTOM_FUNCTIONS = ''custom''"

fun WORKLOAD_STATUS_MAPPING :: "Status \<Rightarrow> string" where
  "WORKLOAD_STATUS_MAPPING QUEUED = ''Queued''"
| "WORKLOAD_STATUS_MAPPING PENDING = ''Pending''"
| "WORKLOAD_STATUS_MAPPING RUNNING = ''Running''"
| "WORKLOAD_STATUS_MAPPING STOPPING = ''Stopping''"
| "WORKLOAD_STATUS_MAPPING SUCCEEDED = ''Completed''"
| "WORKLOAD_STATUS_MAPPING FAILED = ''Failed''"
| "WORKLOAD_STATUS_MAPPING STOPPED = ''Cancelled''"

definition should_be_mirrored :: "job \<Rightarrow> bool" where
  "should_be_mirrored j \<longleftrightarrow> runner j = FLEETS \<and> \<not> filler j \<and> truthy (instance_crn j)"

definition mirror_enabled_for :: "(ConfigKey \<Rightarrow> string) \<Rightarrow> job \<Rightarrow> bool" where
  "mirror_enabled_for conf j =
     (let v = lower (strip (conf WORKLOADS_MIRROR_ENABLED)) in
      if v = ''true'' \<or> v = ''false'' then v = ''true''
      else
        (case job_program j of
           None \<Rightarrow> False
         | Some p \<Rightarrow>
             let entries = map strip (split_on (CHR '','') v) in
             (case program_provider p of
                None \<Rightarrow> CUSTOM_FUNCTIONS \<in> set entries
              | Some pr \<Rightarrow>
                  let name = lower (provider_name pr) in
                  name \<in> set entries - {CUSTOM_FUNCTIONS} \<or>
                  (name @ ''/'' @ lower (title p)) \<in> set entries)))"

definition is_mirrored :: "db \<Rightarrow> job \<Rightarrow> bool" where
  "is_mirrored d j \<longleftrightarrow> job_id j \<in> set (mirror_tbl d)"

definition build_workload_payload :: "db \<Rightarrow> job \<Rightarrow> workload_payload res" where
  "build_workload_payload d j =
     (if \<not> truthy (instance_crn j) then Inl (ValueError ''no instance_crn'')
      else
        (case job_program j of
           None \<Rightarrow> Inl (ValueError ''no program'')
         | Some p \<Rightarrow>
             let ended = (if in_terminal_state j then first_terminal_at (job_id j) d else None);
                 started = first_running_at (job_id j) d
             in Inr \<lparr>function_id = job_id j,
                     wp_body = \<lparr>wb_name = title p, wb_provider = map_option provider_name (program_provider p),
                       wb_crn = the (instance_crn j), wb_user_id = username (author j),
                       wb_status = WORKLOAD_STATUS_MAPPING (status j),
                       wb_compute_profile = compute_profile_id j, wb_size = size_label j,
                       wb_created_at = created j, wb_running_at = started, wb_ended_at = ended\<rparr>\<rparr>))"

section \<open>Facts\<close>

lemma workload_status_inj: "WORKLOAD_STATUS_MAPPING s = WORKLOAD_STATUS_MAPPING s' \<longleftrightarrow> s = s'"
  by (cases s; cases s'; simp)

lemma build_workload_payload_ok:
  "build_workload_payload d j = Inl e \<longleftrightarrow>
     (\<not> truthy (instance_crn j) \<and> e = ValueError ''no instance_crn'' \<or>
      truthy (instance_crn j) \<and> job_program j = None \<and> e = ValueError ''no program'')"
  by (auto simp: build_workload_payload_def Let_def split: option.splits)

lemma build_workload_payload_fields:
  assumes "build_workload_payload d j = Inr p"
  shows "function_id p = job_id j" "wb_status (wp_body p) = WORKLOAD_STATUS_MAPPING (status j)"
    "wb_running_at (wp_body p) = first_running_at (job_id j) d"
    "wb_ended_at (wp_body p) = (if in_terminal_state j then first_terminal_at (job_id j) d else None)"
  using assms by (auto simp: build_workload_payload_def Let_def split: option.splits if_splits)

end
