(* ===== verification/Workload_Mirror.thy ===== *)
theory Workload_Mirror
  imports Workload_Payload Executor_Invariants
begin

text \<open>
  The best effort mirror of the intermediate statuses of a job
  (\<^verbatim>\<open>core/services/workload_best_effort_mirror.py\<close>). The Runtime API client is a parameter: the
  outcome of its PUT. What the queries of \<open>send\<close> raise and what other threads do to the executor
  between \<open>would_accept\<close> and \<open>submit\<close> are parameters too.
\<close>

section \<open>State\<close>

datatype mirror_outcome = SENT | NOT_SENT | DROPPED

record put_args =
  pa_payload :: workload_payload
  pa_status :: string

text \<open>
  \<open>executor\<close> is the executor of the process, None when \<open>init\<close> was not called in it; \<open>m_mirror\<close>
  the counter; \<open>puts\<close> the payloads the Runtime API client was called with.
\<close>

record mirror_state =
  executor :: "(BackgroundPool, put_args) cycle option"
  m_mirror :: "string \<Rightarrow> mirror_outcome \<Rightarrow> nat"
  puts :: "workload_payload list"

text \<open>What a query raises, if anything: the read of the mirror row, and the reads of the events.\<close>

record mirror_faults =
  mirror_query_raises :: "exn option"
  payload_query_raises :: "exn option"

datatype mirror_kind = NoOpWorkloadMirror | WorkloadBackgroundMirror | WorkloadInlineMirror

definition MIRROR_STATUSES :: "string list" where
  "MIRROR_STATUSES = [''Pending'', ''Running'', ''Stopping'']"

definition count_mirror :: "string \<Rightarrow> mirror_outcome \<Rightarrow> mirror_state \<Rightarrow> mirror_state" where
  "count_mirror s oc m =
     (if s \<in> set MIRROR_STATUSES
      then m\<lparr>m_mirror := (m_mirror m)(s := (m_mirror m s)(oc := Suc (m_mirror m s oc)))\<rparr> else m)"

section \<open>Sending\<close>

text \<open>\<open>put\<close> is the call of the client: it may raise anything.\<close>

definition put_background_task :: "(workload_payload \<Rightarrow> unit res) \<Rightarrow> put_args \<Rightarrow> mirror_state \<Rightarrow> mirror_state" where
  "put_background_task put a m =
     (let m' = m\<lparr>puts := puts m @ [pa_payload a]\<rparr>
      in case put (pa_payload a) of
           Inl _ \<Rightarrow> count_mirror (pa_status a) NOT_SENT m'
         | Inr _ \<Rightarrow> count_mirror (pa_status a) SENT m')"

definition replace_key :: "job \<Rightarrow> string" where
  "replace_key j = ''job:'' @ job_id j"

text \<open>The two handlers of \<open>send\<close>: outages and a missing executor are re-raised, the rest is counted.\<close>

definition mirror_except :: "string \<Rightarrow> exn \<Rightarrow> mirror_state \<Rightarrow> unit res \<times> mirror_state" where
  "mirror_except s e m =
     (if is_db_outage e \<or> e = BackgroundExecutorNotInitializedError then (Inl e, m)
      else (Inr (), count_mirror s NOT_SENT m))"

definition payload_or_fault :: "mirror_faults \<Rightarrow> db \<Rightarrow> job \<Rightarrow> workload_payload res" where
  "payload_or_fault f d j =
     (case payload_query_raises f of Some e \<Rightarrow> Inl e | None \<Rightarrow> build_workload_payload d j)"

definition background_send ::
  "mirror_faults \<Rightarrow> ((BackgroundPool, put_args) cycle option \<Rightarrow> (BackgroundPool, put_args) cycle option) \<Rightarrow>
   db \<Rightarrow> job \<Rightarrow> mirror_state \<Rightarrow> unit res \<times> mirror_state" where
  "background_send f others d j m =
     (if \<not> should_be_mirrored j then (Inr (), m)
      else
        let s = WORKLOAD_STATUS_MAPPING (status j) in
        (case mirror_query_raises f of
           Some e \<Rightarrow> mirror_except s e m
         | None \<Rightarrow>
             if \<not> is_mirrored d j then (Inr (), m)
             else
               (case executor m of
                  None \<Rightarrow> mirror_except s BackgroundExecutorNotInitializedError m
                | Some c \<Rightarrow>
                    if \<not> would_accept RUNTIME_API (Some (replace_key j)) c
                    then (Inr (), count_mirror s DROPPED m)
                    else
                      (case payload_or_fault f d j of
                         Inl e \<Rightarrow> mirror_except s e m
                       | Inr p \<Rightarrow>
                           (case others (Some c) of
                              None \<Rightarrow> mirror_except s BackgroundExecutorNotInitializedError (m\<lparr>executor := None\<rparr>)
                            | Some c1 \<Rightarrow>
                                let (future, c2) = submit RUNTIME_API \<lparr>pa_payload = p, pa_status = s\<rparr>
                                                     (Some (replace_key j)) c1;
                                    m' = m\<lparr>executor := Some c2\<rparr>
                                in (Inr (), if future = None then count_mirror s DROPPED m' else m'))))))"

definition inline_send ::
  "mirror_faults \<Rightarrow> (workload_payload \<Rightarrow> unit res) \<Rightarrow> db \<Rightarrow> job \<Rightarrow> mirror_state \<Rightarrow> unit res \<times> mirror_state" where
  "inline_send f put d j m =
     (if \<not> should_be_mirrored j then (Inr (), m)
      else
        (case mirror_query_raises f of
           Some _ \<Rightarrow> (Inr (), m)
         | None \<Rightarrow>
             if \<not> is_mirrored d j then (Inr (), m)
             else
               (case payload_or_fault f d j of
                  Inl _ \<Rightarrow> (Inr (), m)
                | Inr p \<Rightarrow> (Inr (), m\<lparr>puts := puts m @ [p]\<rparr>))))"

text \<open>The mirror a \<open>JobTransitionService\<close> was built with, with everything outside the program fixed.\<close>

record mirror_env =
  me_kind :: mirror_kind
  me_faults :: mirror_faults
  me_others :: "(BackgroundPool, put_args) cycle option \<Rightarrow> (BackgroundPool, put_args) cycle option"
  me_put :: "workload_payload \<Rightarrow> unit res"

definition mirror_send :: "mirror_env \<Rightarrow> db \<Rightarrow> job \<Rightarrow> mirror_state \<Rightarrow> unit res \<times> mirror_state" where
  "mirror_send env d j m =
     (case me_kind env of
        NoOpWorkloadMirror \<Rightarrow> (Inr (), m)
      | WorkloadBackgroundMirror \<Rightarrow> background_send (me_faults env) (me_others env) d j m
      | WorkloadInlineMirror \<Rightarrow> inline_send (me_faults env) (me_put env) d j m)"

section \<open>What it promises\<close>

lemma mirror_except_raises:
  "mirror_except s e m = (Inl x, m') \<Longrightarrow> is_db_outage x \<or> x = BackgroundExecutorNotInitializedError"
  by (auto simp: mirror_except_def split: if_splits)

lemma background_send_raises:
  "background_send f oth d j m = (Inl e, m') \<Longrightarrow> is_db_outage e \<or> e = BackgroundExecutorNotInitializedError"
  using mirror_except_raises
  by (auto simp: background_send_def Let_def split: option.splits sum.splits if_splits prod.splits)

lemma inline_send_quiet: "inline_send f put d j m \<noteq> (Inl e, m')"
  by (auto simp: inline_send_def split: option.splits sum.splits if_splits)

lemma mirror_raises:
  "mirror_send env d j m = (Inl e, m') \<Longrightarrow> is_db_outage e \<or> e = BackgroundExecutorNotInitializedError"
  by (auto simp: mirror_send_def inline_send_quiet split: mirror_kind.splits dest: background_send_raises)

text \<open>
  A mirror never raises anything but a database outage or a missing background executor, and only
  the background mirror raises those; the default mirror of the service and the one of the gateway
  never raise. Nothing is ever sent for a job that is not mirrored.
\<close>

theorem mirror_send_raises_only_outages:
  "(\<forall>e m'. mirror_send env d j m = (Inl e, m') \<longrightarrow>
      me_kind env = WorkloadBackgroundMirror \<and> (is_db_outage e \<or> e = BackgroundExecutorNotInitializedError)) \<and>
   (\<not> is_mirrored d j \<or> \<not> should_be_mirrored j \<longrightarrow>
      puts (snd (mirror_send env d j m)) = puts m \<and> executor (snd (mirror_send env d j m)) = executor m)"
proof (intro conjI allI impI)
  fix e m' assume e: "mirror_send env d j m = (Inl e, m')"
  then show "me_kind env = WorkloadBackgroundMirror"
    by (auto simp: mirror_send_def inline_send_quiet split: mirror_kind.splits)
  from e show "is_db_outage e \<or> e = BackgroundExecutorNotInitializedError" by (rule mirror_raises)
qed (auto simp: mirror_send_def background_send_def inline_send_def mirror_except_def count_mirror_def Let_def
      split: mirror_kind.splits option.splits)

theorem mirror_send_raises_only_outages_witness:
  "\<exists>env d j m m'. mirror_send env d j m = (Inl OperationalError, m') \<and> me_kind env = WorkloadBackgroundMirror"
proof -
  let ?env = "\<lparr>me_kind = WorkloadBackgroundMirror,
      me_faults = \<lparr>mirror_query_raises = Some OperationalError, payload_query_raises = None\<rparr>,
      me_others = id, me_put = (\<lambda>_. Inr ())\<rparr>"
  let ?d = "\<lparr>job_tbl = [], event_tbl = [], outbox_tbl = [], outbox_seq = 0, mirror_tbl = [], blocked_tbl = []\<rparr>"
  let ?j = "(Job_new ''j'' \<lparr>user_id = 1, username = ''u'', is_active = True, user_groups = []\<rparr> 0)
      \<lparr>instance_crn := Some ''c''\<rparr>"
  let ?m = "\<lparr>executor = None, m_mirror = (\<lambda>_ _. 0), puts = []\<rparr>"
  have r: "mirror_send ?env ?d ?j ?m = (Inl OperationalError, ?m)"
    by (simp add: mirror_send_def background_send_def should_be_mirrored_def Job_new_def mirror_except_def)
  moreover have "me_kind ?env = WorkloadBackgroundMirror"
    using mirror_send_raises_only_outages [of ?env ?d ?j ?m] r by blast
  ultimately show ?thesis by blast
qed

text \<open>One send of the background mirror, without faults and without other threads in between, is one put.\<close>

lemma background_send_put:
  assumes "should_be_mirrored j" "is_mirrored d j" "executor m = Some c"
    and "build_workload_payload d j = Inr p" "f = \<lparr>mirror_query_raises = None, payload_query_raises = None\<rparr>"
    and "exec_inv c" "would_accept RUNTIME_API (Some (replace_key j)) c"
  shows "fst (background_send f id d j m) = Inr ()"
    "executor (snd (background_send f id d j m)) =
       Some (snd (put_task RUNTIME_API \<lparr>pa_payload = p, pa_status = WORKLOAD_STATUS_MAPPING (status j)\<rparr> (replace_key j) c))"
  using assms
  by (auto simp: background_send_def payload_or_fault_def put_task_def count_mirror_def Let_def split: prod.splits)

text \<open>
  The newest status wins. When the background mirror sends the successive states of a mirrored job
  to an executor in a sound state that accepts the first one, every later one is accepted even if the
  pool is full, and the one task waiting for the job carries the payload of the last state.
\<close>

theorem mirror_newest_status_waits:
  assumes "exec_inv c" "\<not> stopping c" "executor m = Some c" "would_accept RUNTIME_API (Some key) c"
    and "js \<noteq> []"
    and "\<forall>j \<in> set js. replace_key j = key \<and> should_be_mirrored j \<and> is_mirrored d j \<and> (\<exists>p. build_workload_payload d j = Inr p)"
    and "f = \<lparr>mirror_query_raises = None, payload_query_raises = None\<rparr>"
  shows "\<exists>c' p. executor (fold (\<lambda>j m. snd (background_send f id d j m)) js m) = Some c' \<and>
    build_workload_payload d (last js) = Inr p \<and>
    waiting_fn RUNTIME_API c' key =
      Some \<lparr>pa_payload = p, pa_status = WORKLOAD_STATUS_MAPPING (status (last js))\<rparr>"
proof -
  define arg where "arg j = \<lparr>pa_payload = projr (build_workload_payload d j),
      pa_status = WORKLOAD_STATUS_MAPPING (status j)\<rparr>" for j
  have step: "executor (fold (\<lambda>j m. snd (background_send f id d j m)) xs m0) =
      Some (fold (\<lambda>a c. snd (put_task RUNTIME_API a key c)) (map arg xs) c0)"
    if "exec_inv c0" "\<not> stopping c0" "executor m0 = Some c0" "would_accept RUNTIME_API (Some key) c0"
      "set xs \<subseteq> set js" for xs m0 c0
    using that
  proof (induction xs arbitrary: m0 c0)
    case Nil
    then show ?case by simp
  next
    case (Cons j xs)
    let ?c1 = "snd (put_task RUNTIME_API (arg j) key c0)"
    obtain p where p: "build_workload_payload d j = Inr p" and j: "replace_key j = key" "should_be_mirrored j" "is_mirrored d j"
      using assms(6) Cons.prems(5) by auto
    have a: "arg j = \<lparr>pa_payload = p, pa_status = WORKLOAD_STATUS_MAPPING (status j)\<rparr>" by (simp add: arg_def p)
    have ex: "executor (snd (background_send f id d j m0)) = Some ?c1"
      using background_send_put(2) [OF j(2,3) Cons.prems(3) p assms(7) Cons.prems(1)] Cons.prems(4) by (simp add: j(1) a)
    show ?case
      using Cons.IH [OF _ _ ex] Cons.prems
      by (simp add: runtime_pool.put_good runtime_pool.put_stopped runtime_pool.put_again id_def)
  qed
  have "executor (fold (\<lambda>j m. snd (background_send f id d j m)) js m) =
      Some (fold (\<lambda>a c. snd (put_task RUNTIME_API a key c)) (map arg js) c)"
    by (rule step) (use assms(1-4) in auto)
  moreover have "waiting_fn RUNTIME_API (fold (\<lambda>a c. snd (put_task RUNTIME_API a key c)) (map arg js) c) key =
      Some (arg (last js))"
    using runtime_pool.puts_last [of c key "map arg js"] assms(1,2,4,5) by (simp add: last_map)
  moreover obtain p where "build_workload_payload d (last js) = Inr p"
    using assms(5,6) last_in_set by blast
  ultimately show ?thesis by (simp add: arg_def)
qed

definition example_user :: user where
  "example_user = \<lparr>user_id = 1, username = ''u'', is_active = True, user_groups = []\<rparr>"

definition example_program :: program where
  "example_program = \<lparr>program_id = 1, title = ''t'', disabled = False, disabled_message = None,
     program_env_vars = ''{}'', arguments_schema = None, program_runner = FLEETS, program_gpu = False,
     default_size = None, instances = [], trial_instances = [], program_author = example_user,
     program_provider = None, program_project = None\<rparr>"

definition example_job :: "Status \<Rightarrow> job" where
  "example_job s = (Job_new ''j'' example_user 0)
     \<lparr>instance_crn := Some ''crn:v1:bluemix:public:quantum-computing:us-east:a/acc:inst::'',
      job_program := Some example_program, status := s\<rparr>"

definition example_db :: "Status \<Rightarrow> db" where
  "example_db s = \<lparr>job_tbl = [example_job s], event_tbl = [], outbox_tbl = [], outbox_seq = 0,
     mirror_tbl = [''j''], blocked_tbl = []\<rparr>"

theorem mirror_newest_status_waits_witness:
  "\<exists>m c' p. executor m = Some (Cycle_new 1 1) \<and>
    executor (fold (\<lambda>j m. snd (background_send \<lparr>mirror_query_raises = None, payload_query_raises = None\<rparr> id
        (example_db RUNNING) j m)) [example_job PENDING, example_job RUNNING] m) = Some c' \<and>
    waiting_fn RUNTIME_API c' ''job:j'' = Some \<lparr>pa_payload = p, pa_status = ''Running''\<rparr>"
proof -
  let ?m = "\<lparr>executor = Some (Cycle_new 1 1), m_mirror = (\<lambda>_ _. 0), puts = []\<rparr>"
  have jobs: "\<forall>j \<in> set [example_job PENDING, example_job RUNNING]. replace_key j = ''job:j'' \<and>
      should_be_mirrored j \<and> is_mirrored (example_db RUNNING) j \<and>
      (\<exists>p. build_workload_payload (example_db RUNNING) j = Inr p)"
    by (simp add: replace_key_def should_be_mirrored_def is_mirrored_def build_workload_payload_def Let_def
        example_job_def example_db_def Job_new_def)
  have acc: "would_accept RUNTIME_API (Some ''job:j'') (Cycle_new 1 1)" "\<not> stopping (Cycle_new 1 1)"
    by (simp_all add: would_accept_def pending_def Cycle_new_def)
  have "\<exists>c' p. executor (fold (\<lambda>j m. snd (background_send \<lparr>mirror_query_raises = None, payload_query_raises = None\<rparr> id
        (example_db RUNNING) j m)) [example_job PENDING, example_job RUNNING] ?m) = Some c' \<and>
      build_workload_payload (example_db RUNNING) (last [example_job PENDING, example_job RUNNING]) = Inr p \<and>
      waiting_fn RUNTIME_API c' ''job:j'' = Some \<lparr>pa_payload = p,
        pa_status = WORKLOAD_STATUS_MAPPING (status (last [example_job PENDING, example_job RUNNING]))\<rparr>"
    by (rule mirror_newest_status_waits [OF exec_inv_init acc(2) _ acc(1) _ jobs]) simp_all
  moreover have "status (last [example_job PENDING, example_job RUNNING]) = RUNNING"
    by (simp add: example_job_def)
  ultimately show ?thesis by (metis WORKLOAD_STATUS_MAPPING.simps(3) mirror_state.select_convs(1))
qed

end
