(* ===== verification/Job_Transitions.thy ===== *)
theory Job_Transitions
  imports Billing_Events Workload_Mirror
begin

text \<open>
  \<open>JobTransitionService\<close> (\<^verbatim>\<open>core/services/job_transitions.py\<close>). Every operation acts on the
  in-memory instance of a job, which may be stale, and on the world: the database, the messages handed
  to the best effort Kafka sender, and the state of the workload mirror. \<open>transaction.atomic\<close>
  restores the database when its block raises; the instance keeps the attributes that were set. The lock
  \<open>select_for_update\<close> makes the block of a call one atomic step, so concurrency is the order of calls
  together with the staleness of the instances.
\<close>

section \<open>State and environment\<close>

record world =
  wdb :: db
  kafka :: "billing_message list"
  wmirror :: mirror_state

text \<open>
  One call: the clock, the fresh identifiers of the messages it builds, the answer of the Kafka sender
  and the mirror the service was built with.
\<close>

record call_env =
  env_now :: int
  env_uid :: "nat \<Rightarrow> string"
  kafka_send :: "billing_message \<Rightarrow> unit res"
  menv :: mirror_env

record cause =
  why_origin :: JobEventOrigin
  why_ctx :: JobEventContext

type_synonym 'a call = "job \<times> world \<Rightarrow> 'a res \<times> job \<times> world"

fun is_RuntimeError :: "exn \<Rightarrow> bool" where
  "is_RuntimeError (RuntimeError _) = True"
| "is_RuntimeError BackgroundExecutorNotInitializedError = True"
| "is_RuntimeError _ = False"

fun VALID_TRANSITIONS :: "Status \<Rightarrow> Status list" where
  "VALID_TRANSITIONS QUEUED = [PENDING, FAILED, STOPPED, STOPPING]"
| "VALID_TRANSITIONS PENDING = [SUCCEEDED, FAILED, STOPPED, STOPPING, RUNNING]"
| "VALID_TRANSITIONS RUNNING = [SUCCEEDED, FAILED, STOPPED, STOPPING]"
| "VALID_TRANSITIONS STOPPING = [SUCCEEDED, FAILED, STOPPED]"
| "VALID_TRANSITIONS SUCCEEDED = []"
| "VALID_TRANSITIONS FAILED = []"
| "VALID_TRANSITIONS STOPPED = []"

definition is_usage_billable :: "job \<Rightarrow> bool" where
  "is_usage_billable j \<longleftrightarrow> runner j = FLEETS \<and> \<not> filler j \<and> truthy (instance_crn j)"

definition is_fee_billable :: "job \<Rightarrow> bool" where
  "is_fee_billable j \<longleftrightarrow> runner j = FLEETS \<and> \<not> filler j \<and> truthy (instance_crn j) \<and>
     (case job_program j of None \<Rightarrow> False | Some p \<Rightarrow> program_provider p \<noteq> None)"

definition service_region :: "job \<Rightarrow> string option" where
  "service_region j = map_option crn_region (Crn_parse (instance_crn j))"

section \<open>Inside a transaction\<close>

text \<open>A block that runs inside \<open>transaction.atomic\<close>: state is the instance and the database.\<close>

definition atomic :: "(job \<times> db \<Rightarrow> 'a res \<times> job \<times> db) \<Rightarrow> job \<times> db \<Rightarrow> 'a res \<times> job \<times> db" where
  "atomic block s =
     (case block s of (Inl e, j, _) \<Rightarrow> (Inl e, j, snd s) | (Inr a, j, d) \<Rightarrow> (Inr a, j, d))"

definition change_status ::
  "call_env \<Rightarrow> Status \<Rightarrow> cause \<Rightarrow> job_field list \<Rightarrow> job \<times> db \<Rightarrow> job_event res \<times> job \<times> db" where
  "change_status env new why job_fields = (\<lambda>(j, d).
     (case job_row d (job_id j) of
        None \<Rightarrow> (Inl DoesNotExist, j, d)
      | Some r \<Rightarrow>
          if new \<notin> set (VALID_TRANSITIONS (status r)) then (Inl InvalidJobTransitionException, j, d)
          else
            let (e, d1) = add_status_event (env_now env) (job_id j) (why_origin why) (why_ctx why) new d
            in case update_fields (env_now env) (F_status new # job_fields) (j, d1) of
                 (Inl x, j', d') \<Rightarrow> (Inl x, j', d')
               | (Inr _, j', d') \<Rightarrow> (Inr e, j', d')))"

definition enqueue_job_usage :: "call_env \<Rightarrow> job \<Rightarrow> int option \<Rightarrow> int \<Rightarrow> db \<Rightarrow> db" where
  "enqueue_job_usage env j started finished d =
     outbox_create (job_id j) JOB_USAGE (service_region j)
       (Billing (build_job_completed_event (env_uid env 0) (env_now env) j started finished)) (env_now env) d"

definition enqueue_license_fee :: "call_env \<Rightarrow> job \<Rightarrow> int option \<Rightarrow> db \<Rightarrow> db res" where
  "enqueue_license_fee env j started d =
     (if size_label j = None then Inr d
      else
        (case build_license_fee (env_uid env 1) (env_now env) j started of
           Inl e \<Rightarrow> Inl e
         | Inr m \<Rightarrow> Inr (outbox_create (job_id j) LICENSE_FEE (service_region j) (Billing m) (env_now env) d)))"

definition enqueue_workload :: "call_env \<Rightarrow> job \<Rightarrow> db \<Rightarrow> db res" where
  "enqueue_workload env j d =
     (if is_mirrored d j then
        (case build_workload_payload d j of
           Inl e \<Rightarrow> Inl e
         | Inr p \<Rightarrow>
             let d' = outbox_create (job_id j) WORKLOAD (service_region j) (Workload p) (env_now env) d
             in Inr (d'\<lparr>mirror_tbl := filter (\<lambda>i. i \<noteq> job_id j) (mirror_tbl d')\<rparr>))
      else Inr d)"

text \<open>
  What a terminal transition owes after its status change: \<open>fee_due\<close> tells from the start time
  whether the license fee is considered.
\<close>

definition enqueue_owed :: "call_env \<Rightarrow> (int option \<Rightarrow> bool) \<Rightarrow> job \<Rightarrow> int \<Rightarrow> db \<Rightarrow> db res" where
  "enqueue_owed env fee_due j finished d =
     (case (if is_usage_billable j
            then let started = first_running_at (job_id j) d;
                     d1 = enqueue_job_usage env j started finished d
                 in if fee_due started \<and> is_fee_billable j then enqueue_license_fee env j started d1 else Inr d1
            else Inr d) of
        Inl e \<Rightarrow> Inl e
      | Inr d2 \<Rightarrow> enqueue_workload env j d2)"

definition terminal_block ::
  "call_env \<Rightarrow> (int option \<Rightarrow> bool) \<Rightarrow> Status \<Rightarrow> cause \<Rightarrow> job_field list \<Rightarrow> job \<times> db \<Rightarrow> job_event res \<times> job \<times> db" where
  "terminal_block env fee_due new why job_fields s =
     (case change_status env new why job_fields s of
        (Inl e, j, d) \<Rightarrow> (Inl e, j, d)
      | (Inr ev, j, d) \<Rightarrow>
          (case enqueue_owed env fee_due j (je_created ev) d of
             Inl e \<Rightarrow> (Inl e, j, d)
           | Inr d' \<Rightarrow> (Inr ev, j, d')))"

section \<open>The public methods\<close>

text \<open>Run a transaction on the database of the world.\<close>

definition in_db :: "(job \<times> db \<Rightarrow> 'a res \<times> job \<times> db) \<Rightarrow> 'a call" where
  "in_db block = (\<lambda>(j, w). case atomic block (j, wdb w) of (r, j', d) \<Rightarrow> (r, j', w\<lparr>wdb := d\<rparr>))"

text \<open>\<open>self.workload_mirror.send(job)\<close> once the transaction has committed, then the result.\<close>

definition then_mirror :: "call_env \<Rightarrow> 'a call \<Rightarrow> 'a call" where
  "then_mirror env f s =
     (case f s of
        (Inl e, j, w) \<Rightarrow> (Inl e, j, w)
      | (Inr a, j, w) \<Rightarrow>
          (case mirror_send (menv env) (wdb w) j (wmirror w) of
             (Inl e, m) \<Rightarrow> (Inl e, j, w\<lparr>wmirror := m\<rparr>)
           | (Inr _, m) \<Rightarrow> (Inr a, j, w\<lparr>wmirror := m\<rparr>)))"

definition send_job_in_progress :: "call_env \<Rightarrow> bool \<Rightarrow> int option \<Rightarrow> unit call" where
  "send_job_in_progress env just_started started = (\<lambda>(j, w).
     if filler j then (Inr (), j, w)
     else
       let last_progress = (if just_started then None else Some (env_now env)) in
       (case build_job_usage (env_uid env 2) (env_now env) j started last_progress of
          Inl e \<Rightarrow> if is_RuntimeError e then (Inr (), j, w) else (Inl e, j, w)
        | Inr m \<Rightarrow>
            let w' = w\<lparr>kafka := kafka w @ [m]\<rparr> in
            (case kafka_send env m of
               Inl e \<Rightarrow> if is_RuntimeError e then (Inr (), j, w') else (Inl e, j, w')
             | Inr _ \<Rightarrow> (Inr (), j, w'))))"

definition queued_to_pending :: "call_env \<Rightarrow> cause \<Rightarrow> job_field list \<Rightarrow> job_event call" where
  "queued_to_pending env why job_fields =
     then_mirror env (in_db (change_status env PENDING why job_fields))"

definition pending_to_running :: "call_env \<Rightarrow> cause \<Rightarrow> job_field list \<Rightarrow> job_event call" where
  "pending_to_running env why job_fields =
     then_mirror env (\<lambda>s.
       case in_db (change_status env RUNNING why job_fields) s of
         (Inl e, j, w) \<Rightarrow> (Inl e, j, w)
       | (Inr ev, j, w) \<Rightarrow>
           (case send_job_in_progress env True (Some (je_created ev)) (j, w) of
              (Inl e, j', w') \<Rightarrow> (Inl e, j', w')
            | (Inr _, j', w') \<Rightarrow> (Inr ev, j', w')))"

definition running_to_running :: "call_env \<Rightarrow> int option \<Rightarrow> unit call" where
  "running_to_running env started = send_job_in_progress env False started"

text \<open>
  \<open>stop\<close>, with \<open>runner_stop\<close> the answer of the runner's \<open>stop()\<close>. The branch that ends the
  job compares the fleet of the row with the one this decision was made on.
\<close>

definition stop_block :: "call_env \<Rightarrow> cause \<Rightarrow> job \<times> db \<Rightarrow> Status res \<times> job \<times> db" where
  "stop_block env why = (\<lambda>(j, d).
     (case job_row d (job_id j) of
        None \<Rightarrow> (Inl DoesNotExist, j, d)
      | Some r \<Rightarrow>
          if fleet_id r \<noteq> fleet_id j then (Inl FleetAppearedError, j\<lparr>fleet_id := fleet_id r\<rparr>, d)
          else
            (case change_status env STOPPED why [] (j, d) of
               (Inl e, j', d') \<Rightarrow> (Inl e, j', d')
             | (Inr ev, j', d') \<Rightarrow>
                 (case enqueue_workload env j' d' of
                    Inl e \<Rightarrow> (Inl e, j', d')
                  | Inr d'' \<Rightarrow> (Inr STOPPED, j', d'')))))"

definition stop :: "call_env \<Rightarrow> cause \<Rightarrow> bool res \<Rightarrow> Status call" where
  "stop env why runner_stop = (\<lambda>(j, w).
     if runner j \<noteq> FLEETS then (Inl (ValueError ''stop is for Fleets jobs''), j, w)
     else
       (case (if truthy (fleet_id j) then runner_stop else Inr False) of
          Inl e \<Rightarrow> (Inl e, j, w)
        | Inr True \<Rightarrow>
            then_mirror env (\<lambda>s.
              case in_db (change_status env STOPPING why []) s of
                (Inl e, s') \<Rightarrow> (Inl e, s')
              | (Inr _, s') \<Rightarrow> (Inr STOPPING, s')) (j, w)
        | Inr False \<Rightarrow> in_db (stop_block env why) (j, w)))"

definition to_succeeded :: "call_env \<Rightarrow> cause \<Rightarrow> job_field list \<Rightarrow> job_event call" where
  "to_succeeded env why job_fields = in_db (terminal_block env (\<lambda>_. True) SUCCEEDED why job_fields)"

definition to_stopped_or_failed :: "call_env \<Rightarrow> Status \<Rightarrow> cause \<Rightarrow> job_field list \<Rightarrow> job_event call" where
  "to_stopped_or_failed env new why job_fields =
     in_db (terminal_block env (\<lambda>started. started \<noteq> None) new why job_fields)"

definition to_failed :: "call_env \<Rightarrow> cause \<Rightarrow> job_field list \<Rightarrow> job_event call" where
  "to_failed env = to_stopped_or_failed env FAILED"

definition to_stopped :: "call_env \<Rightarrow> cause \<Rightarrow> job_field list \<Rightarrow> job_event call" where
  "to_stopped env = to_stopped_or_failed env STOPPED"

definition to_terminal :: "call_env \<Rightarrow> Status \<Rightarrow> cause \<Rightarrow> job_field list \<Rightarrow> job_event call" where
  "to_terminal env s why job_fields = (\<lambda>(j, w).
     (case s of
        SUCCEEDED \<Rightarrow> to_succeeded env why job_fields (j, w)
      | FAILED \<Rightarrow> to_failed env why job_fields (j, w)
      | STOPPED \<Rightarrow> to_stopped env why job_fields (j, w)
      | _ \<Rightarrow> (Inl (ValueError ''not a terminal status''), j, w)))"

end
