(* ===== verification/Job_Lifecycle.thy ===== *)
theory Job_Lifecycle
  imports Job_Transitions
begin

text \<open>
  What \<open>JobTransitionService\<close> guarantees: the effect of each method, the abstract contract they all
  refine, and the invariants of the life of a Fleets job over every interleaving of the writers of the
  database.
\<close>

section \<open>Effects of the blocks\<close>

definition plain_fields :: "job_field list \<Rightarrow> bool" where
  "plain_fields fs \<longleftrightarrow> (\<forall>f \<in> set fs. \<not> sets_status f)"

lemma apply_fields_new_status:
  "plain_fields fs \<Longrightarrow> status (apply_fields (F_updated t # F_status new # fs) j) = new"
  by (simp add: plain_fields_def apply_fields_status)

lemma change_status_err:
  assumes "change_status env new why fs (j, d) = (Inl e, j', d')"
  shows "j' = j \<and> d' = d \<and>
    (job_row d (job_id j) = None \<and> e = DoesNotExist \<or>
     (\<exists>r. job_row d (job_id j) = Some r \<and> new \<notin> set (VALID_TRANSITIONS (status r)) \<and>
        e = InvalidJobTransitionException))"
proof (cases "job_row d (job_id j)")
  case None
  with assms show ?thesis by (auto simp: change_status_def)
next
  case (Some r)
  have "fst (update_fields t fs' (j, add_event ev d)) = Inr ()" for t fs' ev
    using update_fields_outcome [of t fs' j "add_event ev d"] Some
    by (metis add_event_tables(7) option.distinct(1) prod.collapse)
  with assms Some show ?thesis
    by (auto simp: change_status_def add_status_event_def Let_def split: if_splits sum.splits prod.splits)
      (metis Inl_Inr_False fst_conv)+
qed

lemma change_status_ok:
  assumes "change_status env new why fs (j, d) = (Inr e, j', d')"
  obtains r where "job_row d (job_id j) = Some r" "new \<in> set (VALID_TRANSITIONS (status r))"
    "e = \<lparr>je_job = job_id j, je_type = STATUS_CHANGE, je_origin = why_origin why, je_context = why_ctx why,
          je_created = env_now env, je_data = StatusData new\<rparr>"
    "event_tbl d' = event_tbl d @ [e]" "outbox_tbl d' = outbox_tbl d" "outbox_seq d' = outbox_seq d"
    "mirror_tbl d' = mirror_tbl d" "blocked_tbl d' = blocked_tbl d"
    "map job_id (job_tbl d') = map job_id (job_tbl d)"
    "\<And>i. job_row d' i = (if i = job_id j
        then Some ((apply_fields (F_updated (env_now env) # F_status new # fs) r)\<lparr>version := version r + 1\<rparr>)
        else job_row d i)"
    "\<exists>v. j' = (apply_fields (F_updated (env_now env) # F_status new # fs) j)\<lparr>version := v\<rparr>"
proof -
  obtain r where r: "job_row d (job_id j) = Some r" and valid: "new \<in> set (VALID_TRANSITIONS (status r))"
    using assms by (auto simp: change_status_def split: option.splits if_splits)
  define ev where "ev = \<lparr>je_job = job_id j, je_type = STATUS_CHANGE, je_origin = why_origin why,
      je_context = why_ctx why, je_created = env_now env, je_data = StatusData new\<rparr>"
  have upd: "update_fields (env_now env) (F_status new # fs) (j, add_event ev d) = (Inr (), j', d')" and e: "e = ev"
    using assms r valid
    by (auto simp: change_status_def add_status_event_def ev_def Let_def split: sum.splits prod.splits)
  note tables = update_fields_tables [OF upd] and row = update_fields_row [OF upd]
    and out = update_fields_outcome [OF upd]
  show ?thesis
    by (rule that [OF r valid]) (use tables row out e r in \<open>auto simp: ev_def\<close>)
qed

lemma outbox_create_tables [simp]:
  "job_tbl (outbox_create i ch rg p t d) = job_tbl d" "event_tbl (outbox_create i ch rg p t d) = event_tbl d"
  "mirror_tbl (outbox_create i ch rg p t d) = mirror_tbl d" "blocked_tbl (outbox_create i ch rg p t d) = blocked_tbl d"
  "outbox_seq (outbox_create i ch rg p t d) = Suc (outbox_seq d)"
  "job_row (outbox_create i ch rg p t d) k = job_row d k"
  by (simp_all add: outbox_create_def job_row_def)

definition new_row :: "nat \<Rightarrow> string \<Rightarrow> OutboxChannel \<Rightarrow> string option \<Rightarrow> outbox_payload \<Rightarrow> int \<Rightarrow> outbox_row" where
  "new_row pk i ch rg p t =
     \<lparr>ob_pk = pk, ob_job = i, ob_channel = ch, ob_region = rg, ob_payload = p, ob_created = t, attempts = 0,
      next_attempt_at = t, last_error = [], unrecoverable = False\<rparr>"

lemma new_row_simps [simp]:
  "ob_pk (new_row pk i ch rg p t) = pk" "ob_job (new_row pk i ch rg p t) = i"
  "ob_channel (new_row pk i ch rg p t) = ch" "ob_payload (new_row pk i ch rg p t) = p"
  "ob_region (new_row pk i ch rg p t) = rg"
  by (simp_all add: new_row_def)

lemma outbox_create_rows [simp]:
  "outbox_tbl (outbox_create i ch rg p t d) = outbox_tbl d @ [new_row (outbox_seq d) i ch rg p t]"
  by (simp add: outbox_create_def new_row_def)

lemma first_times_frame [simp]:
  "first_running_at i (outbox_create k ch rg p t d) = first_running_at i d"
  "first_terminal_at i (outbox_create k ch rg p t d) = first_terminal_at i d"
  by (simp_all add: first_running_at_def first_terminal_at_def)

lemma build_workload_frame [simp]:
  "build_workload_payload (outbox_create k ch rg p t d) j = build_workload_payload d j"
  by (cases "job_program j") (simp_all add: build_workload_payload_def)

lemma is_mirrored_frame [simp]:
  "is_mirrored (outbox_create k ch rg p t d) j = is_mirrored d j"
  by (simp add: is_mirrored_def)

section \<open>What a terminal transition owes\<close>

text \<open>The channels that get a row, in the order the rows are written.\<close>

definition owed_channels :: "(int option \<Rightarrow> bool) \<Rightarrow> db \<Rightarrow> job \<Rightarrow> OutboxChannel list" where
  "owed_channels fee_due d j =
     (if is_usage_billable j then
        JOB_USAGE # (if fee_due (first_running_at (job_id j) d) \<and> is_fee_billable j \<and> size_label j \<noteq> None
                     then [LICENSE_FEE] else [])
      else []) @ (if is_mirrored d j then [WORKLOAD] else [])"

definition row_content :: "call_env \<Rightarrow> job \<Rightarrow> int \<Rightarrow> db \<Rightarrow> outbox_row \<Rightarrow> bool" where
  "row_content env j finished d r \<longleftrightarrow> ob_job r = job_id j \<and> ob_region r = service_region j \<and>
     (case ob_channel r of
        JOB_USAGE \<Rightarrow> ob_payload r =
          Billing (build_job_completed_event (env_uid env 0) (env_now env) j (first_running_at (job_id j) d) finished)
      | LICENSE_FEE \<Rightarrow> \<exists>m. ob_payload r = Billing m \<and>
          build_license_fee (env_uid env 1) (env_now env) j (first_running_at (job_id j) d) = Inr m
      | WORKLOAD \<Rightarrow> \<exists>p. ob_payload r = Workload p \<and> build_workload_payload d j = Inr p)"

lemma enqueue_workload_ok:
  assumes "enqueue_workload env j d = Inr d'"
  shows "job_tbl d' = job_tbl d" "event_tbl d' = event_tbl d" "blocked_tbl d' = blocked_tbl d"
    "mirror_tbl d' = filter (\<lambda>i. i \<noteq> job_id j) (mirror_tbl d)"
    "\<exists>rows. outbox_tbl d' = outbox_tbl d @ rows \<and> map ob_channel rows = (if is_mirrored d j then [WORKLOAD] else []) \<and>
       (\<forall>r \<in> set rows. row_content env j t d r) \<and> map ob_pk rows = [outbox_seq d ..< outbox_seq d'] \<and>
       outbox_seq d \<le> outbox_seq d'"
  using assms
  by (auto simp: enqueue_workload_def Let_def row_content_def is_mirrored_def
      split: if_splits sum.splits)

lemma enqueue_owed_ok:
  assumes "enqueue_owed env fee_due j finished d = Inr d'"
  shows "job_tbl d' = job_tbl d" "event_tbl d' = event_tbl d" "blocked_tbl d' = blocked_tbl d"
    "mirror_tbl d' = filter (\<lambda>i. i \<noteq> job_id j) (mirror_tbl d)"
    "\<exists>rows. outbox_tbl d' = outbox_tbl d @ rows \<and> map ob_channel rows = owed_channels fee_due d j \<and>
       (\<forall>r \<in> set rows. row_content env j finished d r) \<and> map ob_pk rows = [outbox_seq d ..< outbox_seq d'] \<and>
       outbox_seq d \<le> outbox_seq d'"
proof -
  let ?st = "first_running_at (job_id j) d"
  obtain d2 where d2: "(if is_usage_billable j
      then let started = ?st; d1 = enqueue_job_usage env j started finished d
           in if fee_due started \<and> is_fee_billable j then enqueue_license_fee env j started d1 else Inr d1
      else Inr d) = Inr d2" and wl: "enqueue_workload env j d2 = Inr d'"
    using assms unfolding enqueue_owed_def by (auto split: sum.splits)
  define bill where "bill = (if is_usage_billable j then
      JOB_USAGE # (if fee_due ?st \<and> is_fee_billable j \<and> size_label j \<noteq> None then [LICENSE_FEE] else []) else [])"
  have frame: "job_tbl d2 = job_tbl d" "event_tbl d2 = event_tbl d" "blocked_tbl d2 = blocked_tbl d"
      "mirror_tbl d2 = mirror_tbl d" "build_workload_payload d2 j = build_workload_payload d j"
    using d2 by (auto simp: enqueue_job_usage_def enqueue_license_fee_def Let_def split: if_splits sum.splits)
  have ft: "first_running_at i d2 = first_running_at i d" for i
    using frame(2) by (simp add: first_running_at_def)
  have "\<exists>rows. outbox_tbl d2 = outbox_tbl d @ rows \<and> map ob_channel rows = bill \<and>
      (\<forall>r \<in> set rows. row_content env j finished d r) \<and> map ob_pk rows = [outbox_seq d ..< outbox_seq d2] \<and>
      outbox_seq d \<le> outbox_seq d2"
    using d2 by (auto simp: bill_def enqueue_job_usage_def enqueue_license_fee_def row_content_def Let_def
        split: if_splits sum.splits)
  then obtain rows1 where r1: "outbox_tbl d2 = outbox_tbl d @ rows1" "map ob_channel rows1 = bill"
      "\<forall>r \<in> set rows1. row_content env j finished d r" "map ob_pk rows1 = [outbox_seq d ..< outbox_seq d2]"
      "outbox_seq d \<le> outbox_seq d2" by blast
  note w = enqueue_workload_ok [OF wl]
  obtain rows2 where r2: "outbox_tbl d' = outbox_tbl d2 @ rows2"
      "map ob_channel rows2 = (if is_mirrored d2 j then [WORKLOAD] else [])"
      "\<forall>r \<in> set rows2. row_content env j finished d2 r" "map ob_pk rows2 = [outbox_seq d2 ..< outbox_seq d']"
      "outbox_seq d2 \<le> outbox_seq d'"
    using w(5) by blast
  have "row_content env j finished d2 r = row_content env j finished d r" for r
    by (cases "ob_channel r") (simp_all add: row_content_def frame ft)
  moreover have "[outbox_seq d ..< outbox_seq d2] @ [outbox_seq d2 ..< outbox_seq d'] = [outbox_seq d ..< outbox_seq d']"
    using r1(5) r2(5) by (metis le_Suc_ex upt_add_eq_append)
  moreover have "bill @ (if is_mirrored d2 j then [WORKLOAD] else []) = owed_channels fee_due d j"
    by (simp add: bill_def owed_channels_def is_mirrored_def frame)
  ultimately show "\<exists>rows. outbox_tbl d' = outbox_tbl d @ rows \<and> map ob_channel rows = owed_channels fee_due d j \<and>
       (\<forall>r \<in> set rows. row_content env j finished d r) \<and> map ob_pk rows = [outbox_seq d ..< outbox_seq d'] \<and>
       outbox_seq d \<le> outbox_seq d'"
    using r1 r2 by (intro exI [of _ "rows1 @ rows2"]) auto
  show "job_tbl d' = job_tbl d" "event_tbl d' = event_tbl d" "blocked_tbl d' = blocked_tbl d"
    "mirror_tbl d' = filter (\<lambda>i. i \<noteq> job_id j) (mirror_tbl d)"
    using w frame by simp_all
qed

section \<open>The contract of a transition\<close>

text \<open>
  The abstract effect of a transition of job \<open>i\<close> to \<open>new\<close>, whatever the method: the row had a
  status that allows it, one status event is appended, the row takes the status and keeps its identity,
  rows are appended to the outbox for this job only and once per channel, and only a terminal status
  owes any. A job that gets its workload row leaves the mirror table.
\<close>

definition same_identity :: "job \<Rightarrow> job \<Rightarrow> bool" where
  "same_identity a b \<longleftrightarrow> job_id a = job_id b \<and> runner a = runner b \<and> filler a = filler b \<and> instance_crn a = instance_crn b"

definition transition_effect :: "job \<Rightarrow> Status \<Rightarrow> OutboxChannel list \<Rightarrow> db \<Rightarrow> db \<Rightarrow> bool" where
  "transition_effect j new chans d d' \<longleftrightarrow>
     (\<exists>r r'. job_row d (job_id j) = Some r \<and> new \<in> set (VALID_TRANSITIONS (status r)) \<and>
        job_row d' (job_id j) = Some r' \<and> status r' = new \<and> same_identity r' r) \<and>
     (\<forall>k. k \<noteq> job_id j \<longrightarrow> job_row d' k = job_row d k) \<and>
     map job_id (job_tbl d') = map job_id (job_tbl d) \<and>
     (\<exists>e. event_tbl d' = event_tbl d @ [e] \<and> je_job e = job_id j \<and> je_type e = STATUS_CHANGE \<and>
        je_data e = StatusData new) \<and>
     (\<exists>rows. outbox_tbl d' = outbox_tbl d @ rows \<and> map ob_channel rows = chans \<and>
        (\<forall>r \<in> set rows. ob_job r = job_id j) \<and> map ob_pk rows = [outbox_seq d ..< outbox_seq d'] \<and>
        outbox_seq d \<le> outbox_seq d') \<and>
     mirror_tbl d' = (if new \<in> set TERMINAL_STATUSES then filter (\<lambda>i. i \<noteq> job_id j) (mirror_tbl d) else mirror_tbl d) \<and>
     blocked_tbl d' = blocked_tbl d \<and> distinct chans \<and>
     (chans \<noteq> [] \<longrightarrow> new \<in> set TERMINAL_STATUSES \<and> (runner j = FLEETS \<or> job_id j \<in> set (mirror_tbl d)))"

lemma change_status_effect:
  assumes "change_status env new why fs (j, d) = (Inr e, j', d')" "plain_fields fs" "new \<notin> set TERMINAL_STATUSES"
  shows "transition_effect j new [] d d'"
proof -
  obtain r where r: "job_row d (job_id j) = Some r" "new \<in> set (VALID_TRANSITIONS (status r))"
    and e: "e = \<lparr>je_job = job_id j, je_type = STATUS_CHANGE, je_origin = why_origin why, je_context = why_ctx why,
          je_created = env_now env, je_data = StatusData new\<rparr>"
    and t: "event_tbl d' = event_tbl d @ [e]" "outbox_tbl d' = outbox_tbl d" "outbox_seq d' = outbox_seq d"
      "mirror_tbl d' = mirror_tbl d" "blocked_tbl d' = blocked_tbl d"
      "map job_id (job_tbl d') = map job_id (job_tbl d)"
    and row: "\<And>i. job_row d' i = (if i = job_id j
        then Some ((apply_fields (F_updated (env_now env) # F_status new # fs) r)\<lparr>version := version r + 1\<rparr>)
        else job_row d i)"
    using assms(1) by (rule change_status_ok) blast
  show ?thesis
    using r t row assms(3) apply_fields_new_status [OF assms(2), of "env_now env" new r] e
    by (auto simp: transition_effect_def same_identity_def)
qed

lemma owed_channels_distinct: "distinct (owed_channels fee_due d j)"
  by (simp add: owed_channels_def)

lemma owed_channels_cong:
  assumes "event_tbl d' = event_tbl d" "mirror_tbl d' = mirror_tbl d"
  shows "owed_channels fee_due d' j = owed_channels fee_due d j"
  using assms by (simp add: owed_channels_def is_mirrored_def first_running_at_def)

text \<open>The instance after the status change: the written columns and the version differ, nothing else.\<close>

definition moved :: "call_env \<Rightarrow> Status \<Rightarrow> job_field list \<Rightarrow> job \<Rightarrow> job" where
  "moved env new fs j = apply_fields (F_updated (env_now env) # F_status new # fs) j"

lemma terminal_block_ok:
  assumes "terminal_block env fee_due new why fs (j, d) = (Inr e, j', d')" "plain_fields fs"
    and "new \<in> set TERMINAL_STATUSES"
  shows "transition_effect j new (owed_channels fee_due (d\<lparr>event_tbl := event_tbl d'\<rparr>) j') d d'"
    and "\<exists>v. j' = (moved env new fs j)\<lparr>version := v\<rparr>"
    and "\<exists>d1 rows. change_status env new why fs (j, d) = (Inr e, j', d1) \<and> outbox_tbl d' = outbox_tbl d @ rows \<and>
      (\<forall>r \<in> set rows. row_content env j' (env_now env) d1 r)"
proof -
  obtain d1 where cs: "change_status env new why fs (j, d) = (Inr e, j', d1)"
    and owed: "enqueue_owed env fee_due j' (je_created e) d1 = Inr d'"
    using assms(1) unfolding terminal_block_def by (auto split: sum.splits prod.splits)
  obtain r where r: "job_row d (job_id j) = Some r" "new \<in> set (VALID_TRANSITIONS (status r))"
    and e: "e = \<lparr>je_job = job_id j, je_type = STATUS_CHANGE, je_origin = why_origin why, je_context = why_ctx why,
          je_created = env_now env, je_data = StatusData new\<rparr>"
    and t: "event_tbl d1 = event_tbl d @ [e]" "outbox_tbl d1 = outbox_tbl d" "outbox_seq d1 = outbox_seq d"
      "mirror_tbl d1 = mirror_tbl d" "blocked_tbl d1 = blocked_tbl d"
      "map job_id (job_tbl d1) = map job_id (job_tbl d)"
    and row: "\<And>i. job_row d1 i = (if i = job_id j
        then Some ((apply_fields (F_updated (env_now env) # F_status new # fs) r)\<lparr>version := version r + 1\<rparr>)
        else job_row d i)"
    and j': "\<exists>v. j' = (apply_fields (F_updated (env_now env) # F_status new # fs) j)\<lparr>version := v\<rparr>"
    using cs by (rule change_status_ok) blast
  have id: "job_id j' = job_id j" "runner j' = runner j" using j' by auto
  note o = enqueue_owed_ok [OF owed]
  have rows: "job_row d' i = job_row d1 i" for i using o(1) by (simp add: job_row_def)
  have ch: "owed_channels fee_due (d\<lparr>event_tbl := event_tbl d'\<rparr>) j' = owed_channels fee_due d1 j'"
    by (rule owed_channels_cong) (simp_all add: o t)
  have fleets: "owed_channels fee_due d1 j' \<noteq> [] \<Longrightarrow> runner j = FLEETS \<or> job_id j \<in> set (mirror_tbl d)"
    by (auto simp: owed_channels_def is_usage_billable_def is_mirrored_def id t split: if_splits)
  obtain rs where rs: "outbox_tbl d' = outbox_tbl d1 @ rs" "map ob_channel rs = owed_channels fee_due d1 j'"
      "\<forall>r \<in> set rs. row_content env j' (je_created e) d1 r" "map ob_pk rs = [outbox_seq d1 ..< outbox_seq d']"
      "outbox_seq d1 \<le> outbox_seq d'"
    using o(5) by blast
  show "\<exists>v. j' = (moved env new fs j)\<lparr>version := v\<rparr>" using j' by (simp add: moved_def)
  show "\<exists>d1 rows. change_status env new why fs (j, d) = (Inr e, j', d1) \<and> outbox_tbl d' = outbox_tbl d @ rows \<and>
      (\<forall>r \<in> set rows. row_content env j' (env_now env) d1 r)"
    using cs rs t e by auto
  show "transition_effect j new (owed_channels fee_due (d\<lparr>event_tbl := event_tbl d'\<rparr>) j') d d'"
    unfolding ch transition_effect_def
  proof (intro conjI)
    show "\<exists>r r'. job_row d (job_id j) = Some r \<and> new \<in> set (VALID_TRANSITIONS (status r)) \<and>
        job_row d' (job_id j) = Some r' \<and> status r' = new \<and> same_identity r' r"
      using r row rows apply_fields_new_status [OF assms(2), of "env_now env" new r]
      by (auto simp: same_identity_def)
    show "\<exists>rows. outbox_tbl d' = outbox_tbl d @ rows \<and> map ob_channel rows = owed_channels fee_due d1 j' \<and>
        (\<forall>r \<in> set rows. ob_job r = job_id j) \<and> map ob_pk rows = [outbox_seq d ..< outbox_seq d'] \<and>
        outbox_seq d \<le> outbox_seq d'"
      using rs t id by (intro exI [of _ rs]) (auto simp: row_content_def)
  qed (use o t e id rows row fleets assms(3) owed_channels_distinct in auto)
qed

lemma atomic_cases:
  assumes "atomic block (j, d) = (r, j', d')"
  shows "(\<exists>e. r = Inl e \<and> d' = d) \<or> (\<exists>a. r = Inr a \<and> block (j, d) = (Inr a, j', d'))"
  using assms by (auto simp: atomic_def split: prod.splits sum.splits)

lemma in_db_cases:
  assumes "in_db block (j, w) = (r, j', w')"
  shows "(\<exists>e. r = Inl e \<and> w' = w) \<or>
    (\<exists>a d'. r = Inr a \<and> block (j, wdb w) = (Inr a, j', d') \<and> w' = w\<lparr>wdb := d'\<rparr>)"
  using assms atomic_cases [of block j "wdb w"] by (auto simp: in_db_def split: prod.splits)

section \<open>The contract as an interface\<close>

text \<open>
  \<open>call\<close> is a method of the service, \<open>targets\<close> the statuses it may write. The database is
  unchanged or has exactly the effect of one transition; a call that returns a value made it; a call
  that raised after its transaction committed can only have failed in what is best effort.
\<close>

definition after_commit_error :: "exn \<Rightarrow> bool" where
  "after_commit_error e \<longleftrightarrow> is_db_outage e \<or> e = BackgroundExecutorNotInitializedError"

text \<open>
  \<open>used_ok\<close> is what the callers respect: they pass no status among the extra columns, and the Kafka
  sender raises nothing but the RuntimeError the service catches.
\<close>

definition sender_quiet :: "call_env \<Rightarrow> bool" where
  "sender_quiet env \<longleftrightarrow> (\<forall>m e. kafka_send env m = Inl e \<longrightarrow> is_RuntimeError e)"

locale transition_method =
  fixes call :: "job \<times> world \<Rightarrow> 'a res \<times> job \<times> world" and targets :: "Status set" and used_ok :: bool
  assumes call_effect: "used_ok \<Longrightarrow> call (j, w) = (r, j', w') \<Longrightarrow>
      wdb w' = wdb w \<or> (\<exists>new \<in> targets. \<exists>chans. transition_effect j new chans (wdb w) (wdb w'))"
    and call_returns: "used_ok \<Longrightarrow> call (j, w) = (Inr a, j', w') \<Longrightarrow>
      \<exists>new \<in> targets. \<exists>chans. transition_effect j new chans (wdb w) (wdb w')"
    and call_raises: "used_ok \<Longrightarrow> call (j, w) = (Inl e, j', w') \<Longrightarrow> wdb w' \<noteq> wdb w \<Longrightarrow> after_commit_error e"
begin

text \<open>A job that already ended refuses the call, whatever the instance in memory says.\<close>

lemma terminal_refuses:
  assumes "used_ok" "job_row (wdb w) (job_id j) = Some r0" "status r0 \<in> set TERMINAL_STATUSES"
  shows "(\<exists>e. fst (call (j, w)) = Inl e) \<and> wdb (snd (snd (call (j, w)))) = wdb w"
proof -
  obtain r j' w' where c: "call (j, w) = (r, j', w')" by (metis prod_cases3)
  have no: "\<not> transition_effect j new chans (wdb w) d'" for new chans d'
    using assms by (auto simp: transition_effect_def status_simps)
  have "\<exists>e. r = Inl e" using call_returns [of j w _ j' w'] c no assms(1) by (cases r) auto
  then show ?thesis using c call_effect [OF assms(1) c] no by auto
qed

text \<open>A call that raised before the commit left no trace; one that returned wrote one of its targets.\<close>

lemma raises_or_writes:
  assumes "used_ok" "call (j, w) = (r, j', w')"
  obtains "wdb w' = wdb w" "\<exists>e. r = Inl e"
    | new chans where "new \<in> targets" "transition_effect j new chans (wdb w) (wdb w')"
        "\<forall>e. r = Inl e \<longrightarrow> after_commit_error e"
proof (cases r)
  case (Inr a)
  then show ?thesis using call_returns [of j w a j' w'] assms that(2) by auto
next
  case (Inl e)
  then show ?thesis
    using call_effect [OF assms] call_raises [OF assms(1), of j w e j' w'] assms that by blast
qed

end

subsection \<open>The methods of the service satisfy it\<close>

lemma then_mirror_cases:
  assumes "then_mirror env f s = (r, j', w')"
  shows "\<exists>r0 w0. f s = (r0, j', w0) \<and> wdb w' = wdb w0 \<and> kafka w' = kafka w0 \<and>
    (r = r0 \<or> (\<exists>e. r = Inl e \<and> after_commit_error e))"
proof -
  obtain r0 j0 w0 where f: "f s = (r0, j0, w0)" by (metis prod_cases3)
  show ?thesis
  proof (cases r0)
    case (Inl e)
    with f assms show ?thesis by (auto simp: then_mirror_def)
  next
    case (Inr a)
    obtain mr m where m: "mirror_send (menv env) (wdb w0) j0 (wmirror w0) = (mr, m)" by (metis surj_pair)
    have "mr = Inl e \<Longrightarrow> after_commit_error e" for e
      using mirror_raises [of _ _ _ _ e m] m by (simp add: after_commit_error_def)
    with f m Inr assms show ?thesis by (cases mr) (auto simp: then_mirror_def)
  qed
qed

lemma send_in_progress_quiet:
  assumes "sender_quiet env" "send_job_in_progress env flag (Some t) (j, w) = (r, j', w')"
  shows "r = Inr () \<and> j' = j \<and> wdb w' = wdb w"
  using assms
  by (auto simp: send_job_in_progress_def build_job_usage_def sender_quiet_def Let_def
      split: if_splits sum.splits)

lemma change_status_in_db:
  assumes "in_db (change_status env new why fs) (j, w) = (r, j', w')" "plain_fields fs"
    and "new \<notin> set TERMINAL_STATUSES"
  shows "(\<exists>e. r = Inl e \<and> w' = w) \<or> (\<exists>ev. r = Inr ev \<and> transition_effect j new [] (wdb w) (wdb w'))"
  using in_db_cases [OF assms(1)] change_status_effect [OF _ assms(2,3), of env why j "wdb w"] by auto

lemma terminal_in_db:
  assumes "in_db (terminal_block env fee_due new why fs) (j, w) = (r, j', w')" "plain_fields fs"
    and "new \<in> set TERMINAL_STATUSES"
  shows "(\<exists>e. r = Inl e \<and> w' = w) \<or> (\<exists>ev chans. r = Inr ev \<and> transition_effect j new chans (wdb w) (wdb w'))"
  using in_db_cases [OF assms(1)] terminal_block_ok(1) [OF _ assms(2,3), of env fee_due why j "wdb w"] by fastforce

text \<open>A method is sound when each outcome is either a clean failure or one transition.\<close>

lemma transition_methodI:
  assumes "\<And>j w r j' w'. ok \<Longrightarrow> call (j, w) = (r, j', w') \<Longrightarrow>
      (\<exists>e. r = Inl e \<and> wdb w' = wdb w) \<or>
      ((\<exists>new \<in> targets. \<exists>chans. transition_effect j new chans (wdb w) (wdb w')) \<and>
       (\<forall>e. r = Inl e \<longrightarrow> after_commit_error e))"
  shows "transition_method call targets ok"
proof
  fix j w r j' w' assume "ok" "call (j, w) = (r, j', w')"
  from assms [OF this] show "wdb w' = wdb w \<or> (\<exists>new \<in> targets. \<exists>chans. transition_effect j new chans (wdb w) (wdb w'))"
    by blast
next
  fix j w a j' w' assume "ok" "call (j, w) = (Inr a, j', w')"
  from assms [OF this] show "\<exists>new \<in> targets. \<exists>chans. transition_effect j new chans (wdb w) (wdb w')" by blast
next
  fix j w e j' w' assume "ok" "call (j, w) = (Inl e, j', w')" "wdb w' \<noteq> wdb w"
  with assms [OF this(1,2)] show "after_commit_error e" by blast
qed

interpretation q2p: transition_method "queued_to_pending env why fs" "{PENDING}" "plain_fields fs" for env why fs
proof (rule transition_methodI)
  fix j w r j' w' assume fs: "plain_fields fs" and c: "queued_to_pending env why fs (j, w) = (r, j', w')"
  obtain r0 w0 where f: "in_db (change_status env PENDING why fs) (j, w) = (r0, j', w0)" and w: "wdb w' = wdb w0"
    and r: "r = r0 \<or> (\<exists>e. r = Inl e \<and> after_commit_error e)"
    using then_mirror_cases [OF c [unfolded queued_to_pending_def]] by blast
  have "PENDING \<notin> set TERMINAL_STATUSES" by (simp add: status_simps)
  note change_status_in_db [OF f fs this]
  then show "(\<exists>e. r = Inl e \<and> wdb w' = wdb w) \<or>
      ((\<exists>new \<in> {PENDING}. \<exists>chans. transition_effect j new chans (wdb w) (wdb w')) \<and>
       (\<forall>e. r = Inl e \<longrightarrow> after_commit_error e))"
    using w r by auto
qed

interpretation p2r: transition_method "pending_to_running env why fs" "{RUNNING}" "plain_fields fs \<and> sender_quiet env"
  for env why fs
proof (rule transition_methodI)
  fix j w r j' w' assume ok: "plain_fields fs \<and> sender_quiet env"
    and c: "pending_to_running env why fs (j, w) = (r, j', w')"
  let ?f = "\<lambda>s. case in_db (change_status env RUNNING why fs) s of (Inl e, j, w) \<Rightarrow> (Inl e, j, w)
     | (Inr ev, j, w) \<Rightarrow> (case send_job_in_progress env True (Some (je_created ev)) (j, w) of
          (Inl e, j', w') \<Rightarrow> (Inl e, j', w') | (Inr _, j', w') \<Rightarrow> (Inr ev, j', w'))"
  obtain r0 w0 where f: "?f (j, w) = (r0, j', w0)" and w: "wdb w' = wdb w0"
    and r: "r = r0 \<or> (\<exists>e. r = Inl e \<and> after_commit_error e)"
    using then_mirror_cases [OF c [unfolded pending_to_running_def]] by blast
  obtain r1 j1 w1 where g: "in_db (change_status env RUNNING why fs) (j, w) = (r1, j1, w1)" by (metis prod_cases3)
  have "RUNNING \<notin> set TERMINAL_STATUSES" by (simp add: status_simps)
  note eff = change_status_in_db [OF g conjunct1 [OF ok] this]
  have "(\<exists>e. r1 = Inl e \<and> r0 = Inl e \<and> w0 = w1) \<or> (\<exists>ev. r1 = Inr ev \<and> r0 = Inr ev \<and> wdb w0 = wdb w1)"
  proof (cases r1)
    case (Inl e)
    with f g show ?thesis by auto
  next
    case (Inr ev)
    obtain r2 j2 w2 where h: "send_job_in_progress env True (Some (je_created ev)) (j1, w1) = (r2, j2, w2)"
      by (metis prod_cases3)
    from send_in_progress_quiet [OF conjunct2 [OF ok] h] f g h Inr show ?thesis by auto
  qed
  then show "(\<exists>e. r = Inl e \<and> wdb w' = wdb w) \<or>
      ((\<exists>new \<in> {RUNNING}. \<exists>chans. transition_effect j new chans (wdb w) (wdb w')) \<and>
       (\<forall>e. r = Inl e \<longrightarrow> after_commit_error e))"
    using eff w r by auto
qed

lemma terminal_method:
  assumes "new \<in> set TERMINAL_STATUSES"
  shows "transition_method (in_db (terminal_block env fee_due new why fs)) {new} (plain_fields fs)"
proof (rule transition_methodI)
  fix j w r j' w'
  assume "plain_fields fs" "in_db (terminal_block env fee_due new why fs) (j, w) = (r, j', w')"
  from terminal_in_db [OF this(2,1) assms] show "(\<exists>e. r = Inl e \<and> wdb w' = wdb w) \<or>
      ((\<exists>n \<in> {new}. \<exists>chans. transition_effect j n chans (wdb w) (wdb w')) \<and>
       (\<forall>e. r = Inl e \<longrightarrow> after_commit_error e))"
    by blast
qed

interpretation succ: transition_method "to_succeeded env why fs" "{SUCCEEDED}" "plain_fields fs" for env why fs
  unfolding to_succeeded_def by (rule terminal_method) (simp add: status_simps)

interpretation failed: transition_method "to_failed env why fs" "{FAILED}" "plain_fields fs" for env why fs
  unfolding to_failed_def to_stopped_or_failed_def by (rule terminal_method) (simp add: status_simps)

interpretation stopped: transition_method "to_stopped env why fs" "{STOPPED}" "plain_fields fs" for env why fs
  unfolding to_stopped_def to_stopped_or_failed_def by (rule terminal_method) (simp add: status_simps)

lemma stop_block_effect:
  assumes "stop_block env why (j, d) = (Inr s, j', d')"
  shows "s = STOPPED \<and> transition_effect j STOPPED (if is_mirrored d j then [WORKLOAD] else []) d d'"
proof -
  obtain e d1 where cs: "change_status env STOPPED why [] (j, d) = (Inr e, j', d1)"
    and wl: "enqueue_workload env j' d1 = Inr d'" and s: "s = STOPPED"
    using assms by (auto simp: stop_block_def split: option.splits if_splits sum.splits prod.splits)
  obtain r where r: "job_row d (job_id j) = Some r" "STOPPED \<in> set (VALID_TRANSITIONS (status r))"
    and e: "e = \<lparr>je_job = job_id j, je_type = STATUS_CHANGE, je_origin = why_origin why, je_context = why_ctx why,
          je_created = env_now env, je_data = StatusData STOPPED\<rparr>"
    and t: "event_tbl d1 = event_tbl d @ [e]" "outbox_tbl d1 = outbox_tbl d" "outbox_seq d1 = outbox_seq d"
      "mirror_tbl d1 = mirror_tbl d" "blocked_tbl d1 = blocked_tbl d"
      "map job_id (job_tbl d1) = map job_id (job_tbl d)"
    and row: "\<And>i. job_row d1 i = (if i = job_id j
        then Some ((apply_fields (F_updated (env_now env) # F_status STOPPED # []) r)\<lparr>version := version r + 1\<rparr>)
        else job_row d i)"
    and j': "\<exists>v. j' = (apply_fields (F_updated (env_now env) # F_status STOPPED # []) j)\<lparr>version := v\<rparr>"
    using cs by (rule change_status_ok) blast
  have id: "job_id j' = job_id j" using j' by auto
  note o = enqueue_workload_ok [OF wl]
  have rows: "job_row d' i = job_row d1 i" for i using o(1) by (simp add: job_row_def)
  have m: "is_mirrored d1 j' = is_mirrored d j" by (simp add: is_mirrored_def t id)
  obtain rs where rs: "outbox_tbl d' = outbox_tbl d1 @ rs" "map ob_channel rs = (if is_mirrored d j then [WORKLOAD] else [])"
      "\<forall>r \<in> set rs. row_content env j' 0 d1 r" "map ob_pk rs = [outbox_seq d1 ..< outbox_seq d']"
      "outbox_seq d1 \<le> outbox_seq d'"
    using o(5) [where t = 0] unfolding m by blast
  have "transition_effect j STOPPED (if is_mirrored d j then [WORKLOAD] else []) d d'"
    unfolding transition_effect_def
  proof (intro conjI)
    show "\<exists>rows. outbox_tbl d' = outbox_tbl d @ rows \<and>
        map ob_channel rows = (if is_mirrored d j then [WORKLOAD] else []) \<and>
        (\<forall>r \<in> set rows. ob_job r = job_id j) \<and> map ob_pk rows = [outbox_seq d ..< outbox_seq d'] \<and>
        outbox_seq d \<le> outbox_seq d'"
      using rs t id by (intro exI [of _ rs]) (auto simp: row_content_def)
    show "\<exists>r r'. job_row d (job_id j) = Some r \<and> STOPPED \<in> set (VALID_TRANSITIONS (status r)) \<and>
        job_row d' (job_id j) = Some r' \<and> status r' = STOPPED \<and> same_identity r' r"
      using r row rows by (auto simp: same_identity_def)
  qed (use o t e id rows row in \<open>auto simp: status_simps is_mirrored_def\<close>)
  then show ?thesis using s by blast
qed

interpretation stop_m: transition_method "stop env why answer" "{STOPPING, STOPPED}" True for env why answer
proof (rule transition_methodI)
  fix j w r j' w' assume c: "stop env why answer (j, w) = (r, j', w')"
  let ?f = "\<lambda>s. case in_db (change_status env STOPPING why []) s of (Inl e, s') \<Rightarrow> (Inl e, s') | (Inr _, s') \<Rightarrow> (Inr STOPPING, s')"
  consider "\<exists>e. r = Inl e \<and> w' = w" | "then_mirror env ?f (j, w) = (r, j', w')"
    | "in_db (stop_block env why) (j, w) = (r, j', w')"
    using c by (auto simp: stop_def split: if_splits sum.splits bool.splits)
  then show "(\<exists>e. r = Inl e \<and> wdb w' = wdb w) \<or>
      ((\<exists>new \<in> {STOPPING, STOPPED}. \<exists>chans. transition_effect j new chans (wdb w) (wdb w')) \<and>
       (\<forall>e. r = Inl e \<longrightarrow> after_commit_error e))"
  proof cases
    case 2
    obtain r0 w0 where f: "?f (j, w) = (r0, j', w0)" and w: "wdb w' = wdb w0"
      and r: "r = r0 \<or> (\<exists>e. r = Inl e \<and> after_commit_error e)"
      using then_mirror_cases [OF 2] by blast
    obtain r1 where g: "in_db (change_status env STOPPING why []) (j, w) = (r1, j', w0)"
      and r1: "(\<exists>e. r1 = Inl e \<and> r0 = Inl e) \<or> (\<exists>ev. r1 = Inr ev \<and> r0 = Inr STOPPING)"
      using f by (cases "in_db (change_status env STOPPING why []) (j, w)") (auto split: sum.splits)
    have "plain_fields []" "STOPPING \<notin> set TERMINAL_STATUSES" by (simp_all add: status_simps plain_fields_def)
    from change_status_in_db [OF g this] show ?thesis using r r1 w by auto
  next
    case 3
    then show ?thesis using in_db_cases [OF 3] stop_block_effect [of env why j "wdb w"] by fastforce
  qed blast
qed

section \<open>The life of a Fleets job\<close>

text \<open>
  \<open>valid_history h s\<close>: the statuses a job went through start at QUEUED, each one may follow the
  one before, and the last one is the status of the row.
\<close>

definition valid_history :: "Status list \<Rightarrow> Status \<Rightarrow> bool" where
  "valid_history h s \<longleftrightarrow> h \<noteq> [] \<and> hd h = QUEUED \<and> last h = s \<and>
     successively (\<lambda>a b. b \<in> set (VALID_TRANSITIONS a)) h"

lemma valid_history_snoc:
  "valid_history h s \<Longrightarrow> new \<in> set (VALID_TRANSITIONS s) \<Longrightarrow> valid_history (h @ [new]) new"
  by (auto simp: valid_history_def successively_append_iff)

lemma valid_history_terminal:
  assumes "valid_history h s"
  shows "length (filter (\<lambda>x. x \<in> set TERMINAL_STATUSES) h) = of_bool (s \<in> set TERMINAL_STATUSES)"
proof -
  have "length (filter (\<lambda>x. x \<in> set TERMINAL_STATUSES) h) = of_bool (last h \<in> set TERMINAL_STATUSES)"
    if "h \<noteq> []" "successively (\<lambda>a b. b \<in> set (VALID_TRANSITIONS a)) h" for h
    using that
  proof (induction h rule: induct_list012)
    case (3 x y zs)
    then have "x \<notin> set TERMINAL_STATUSES" by (auto simp: status_simps)
    with 3 show ?case by simp
  qed auto
  then show ?thesis using assms by (simp add: valid_history_def)
qed

text \<open>
  \<open>job.save()\<close> of a new job with its first status event and, when the Runtime API took it, its row
  in the mirror table: the transaction of \<open>RunFunctionUseCase.execute\<close>.
\<close>

definition store_job :: "int \<Rightarrow> JobEventOrigin \<Rightarrow> JobEventContext \<Rightarrow> job \<Rightarrow> bool \<Rightarrow> db \<Rightarrow> db" where
  "store_job t org cx j mirrored d =
     (let d1 = d\<lparr>job_tbl := job_tbl d @ [j]\<rparr>;
          d2 = snd (add_status_event t (job_id j) org cx (status j) d1)
      in if mirrored then d2\<lparr>mirror_tbl := mirror_tbl d2 @ [job_id j]\<rparr> else d2)"

text \<open>
  A filler job is saved without a status event (\<open>BalanceFillerJobs._submit_filler_job\<close>), so its first
  status, QUEUED, is not in its recorded history.
\<close>

definition store_filler :: "job \<Rightarrow> db \<Rightarrow> db" where
  "store_filler j d = d\<lparr>job_tbl := job_tbl d @ [j]\<rparr>"

definition born :: "job \<Rightarrow> Status list" where
  "born r = (if filler r then [QUEUED] else [])"

definition loaded :: "job \<Rightarrow> db \<Rightarrow> bool" where
  "loaded j d \<longleftrightarrow> (\<forall>r. job_row d (job_id j) = Some r \<longrightarrow> same_identity j r)"

text \<open>
  Every writer of these tables. The service methods run on an instance that was loaded from the row at
  any earlier time. The Ray tasks write the status of a Ray job directly; the outbox loop deletes rows
  and rewrites their retry columns; events that are not status changes are appended at any time.
\<close>

inductive life_step :: "db \<Rightarrow> db \<Rightarrow> bool" where
  step_pending: "queued_to_pending env why fs (j, w) = (r, j', w') \<Longrightarrow> plain_fields fs \<Longrightarrow> loaded j (wdb w) \<Longrightarrow>
     life_step (wdb w) (wdb w')"
| step_running: "pending_to_running env why fs (j, w) = (r, j', w') \<Longrightarrow> plain_fields fs \<Longrightarrow> sender_quiet env \<Longrightarrow>
     loaded j (wdb w) \<Longrightarrow> life_step (wdb w) (wdb w')"
| step_succeeded: "to_succeeded env why fs (j, w) = (r, j', w') \<Longrightarrow> plain_fields fs \<Longrightarrow> loaded j (wdb w) \<Longrightarrow>
     life_step (wdb w) (wdb w')"
| step_failed: "to_failed env why fs (j, w) = (r, j', w') \<Longrightarrow> plain_fields fs \<Longrightarrow> loaded j (wdb w) \<Longrightarrow>
     life_step (wdb w) (wdb w')"
| step_stopped: "to_stopped env why fs (j, w) = (r, j', w') \<Longrightarrow> plain_fields fs \<Longrightarrow> loaded j (wdb w) \<Longrightarrow>
     life_step (wdb w) (wdb w')"
| step_stop: "stop env why answer (j, w) = (rs, j', w') \<Longrightarrow> loaded j (wdb w) \<Longrightarrow> life_step (wdb w) (wdb w')"
| step_create: "job_row d (job_id j) = None \<Longrightarrow> status j = QUEUED \<Longrightarrow> \<not> filler j \<Longrightarrow> (mirrored \<longrightarrow> should_be_mirrored j) \<Longrightarrow>
     life_step d (store_job t org cx j mirrored d)"
| step_create_filler: "job_row d (job_id j) = None \<Longrightarrow> status j = QUEUED \<Longrightarrow> filler j \<Longrightarrow> life_step d (store_filler j d)"
| step_fields: "update_fields t fs (j, d) = (ru, j', d') \<Longrightarrow> plain_fields fs \<Longrightarrow> life_step d d'"
| step_event: "job_row d (je_job e) \<noteq> None \<Longrightarrow> je_type e \<noteq> STATUS_CHANGE \<Longrightarrow> life_step d (add_event e d)"
| step_ray: "job_row d i = Some x \<Longrightarrow> runner x = RAY \<Longrightarrow> update_fields t fs (j, d) = (ru, j', d') \<Longrightarrow> job_id j = i \<Longrightarrow>
     life_step d d'"
| step_ray_event: "job_row d (je_job e) = Some x \<Longrightarrow> runner x = RAY \<Longrightarrow> life_step d (add_event e d)"
| step_outbox_delete: "life_step d (d\<lparr>outbox_tbl := filter keep (outbox_tbl d)\<rparr>)"
| step_outbox_retry: "\<forall>b. ob_pk (f b) = ob_pk b \<and> ob_job (f b) = ob_job b \<and> ob_channel (f b) = ob_channel b \<Longrightarrow>
     life_step d (d\<lparr>outbox_tbl := map f (outbox_tbl d)\<rparr>)"
| step_blocked: "life_step d (d\<lparr>blocked_tbl := bs\<rparr>)"

definition empty_db :: db where
  "empty_db = \<lparr>job_tbl = [], event_tbl = [], outbox_tbl = [], outbox_seq = 0, mirror_tbl = [], blocked_tbl = []\<rparr>"

inductive life_reach :: "db \<Rightarrow> bool" where
  life_init: "life_reach empty_db"
| life_next: "life_reach d \<Longrightarrow> life_step d d' \<Longrightarrow> life_reach d'"

definition rows_inv :: "db \<Rightarrow> bool" where
  "rows_inv d \<longleftrightarrow> distinct (map job_id (job_tbl d)) \<and>
     (\<forall>e \<in> set (event_tbl d). job_row d (je_job e) \<noteq> None) \<and>
     (\<forall>i r. job_row d i = Some r \<longrightarrow> runner r = FLEETS \<longrightarrow> valid_history (born r @ status_history i d) (status r))"

definition owed_inv :: "db \<Rightarrow> bool" where
  "owed_inv d \<longleftrightarrow>
     (\<forall>i \<in> set (mirror_tbl d). \<exists>r. job_row d i = Some r \<and> runner r = FLEETS \<and> status r \<notin> set TERMINAL_STATUSES) \<and>
     (\<forall>b \<in> set (outbox_tbl d). \<exists>r. job_row d (ob_job b) = Some r \<and> runner r = FLEETS \<and> status r \<in> set TERMINAL_STATUSES) \<and>
     distinct (map (\<lambda>b. (ob_job b, ob_channel b)) (outbox_tbl d)) \<and>
     distinct (map ob_pk (outbox_tbl d)) \<and> (\<forall>b \<in> set (outbox_tbl d). ob_pk b < outbox_seq d)"

definition life_inv :: "db \<Rightarrow> bool" where
  "life_inv d \<longleftrightarrow> rows_inv d \<and> owed_inv d"

subsection \<open>Every step keeps the invariant\<close>

lemma transition_history:
  assumes "transition_effect j new chans d d'"
  shows "status_history i d' = status_history i d @ (if i = job_id j then [new] else [])"
  using assms by (auto simp: transition_effect_def status_history_def List.map_filter_def)

lemma transition_rows_inv:
  assumes eff: "transition_effect j new chans d d'" and inv: "rows_inv d"
  shows "rows_inv d'"
proof -
  obtain r r' where r: "job_row d (job_id j) = Some r" "new \<in> set (VALID_TRANSITIONS (status r))"
      "job_row d' (job_id j) = Some r'" "status r' = new" "same_identity r' r"
    and other: "\<And>k. k \<noteq> job_id j \<Longrightarrow> job_row d' k = job_row d k"
    and ids: "map job_id (job_tbl d') = map job_id (job_tbl d)"
    and ev: "\<exists>e. event_tbl d' = event_tbl d @ [e] \<and> je_job e = job_id j"
    using eff by (auto simp: transition_effect_def)
  have hist: "valid_history (born x @ status_history i d') (status x)" if "job_row d' i = Some x" "runner x = FLEETS" for i x
  proof (cases "i = job_id j")
    case True
    then have b: "runner r = FLEETS" "born x = born r" using that r by (auto simp: same_identity_def born_def)
    then have "valid_history (born r @ status_history i d) (status r)" using inv r True by (simp add: rows_inv_def)
    then show ?thesis
      using valid_history_snoc [OF _ r(2)] transition_history [OF eff, of i] True that r b(2) by force
  next
    case False
    then show ?thesis using that inv other transition_history [OF eff, of i] by (simp add: rows_inv_def)
  qed
  have "job_row d' k \<noteq> None \<longleftrightarrow> job_row d k \<noteq> None" for k
    using r other [of k] by (cases "k = job_id j") auto
  then show ?thesis using hist inv ids ev r by (auto simp: rows_inv_def)
qed

lemma transition_owed_inv:
  assumes eff: "transition_effect j new chans d d'" and inv: "owed_inv d" and load: "loaded j d"
  shows "owed_inv d'"
proof -
  obtain r r' where r: "job_row d (job_id j) = Some r" "new \<in> set (VALID_TRANSITIONS (status r))"
      "job_row d' (job_id j) = Some r'" "status r' = new" "same_identity r' r"
    and other: "\<And>k. k \<noteq> job_id j \<Longrightarrow> job_row d' k = job_row d k"
    and mir: "mirror_tbl d' = (if new \<in> set TERMINAL_STATUSES then filter (\<lambda>i. i \<noteq> job_id j) (mirror_tbl d) else mirror_tbl d)"
    and ch: "distinct chans" "chans \<noteq> [] \<Longrightarrow> new \<in> set TERMINAL_STATUSES \<and> (runner j = FLEETS \<or> job_id j \<in> set (mirror_tbl d))"
    using eff unfolding transition_effect_def by blast
  obtain rows where rows: "outbox_tbl d' = outbox_tbl d @ rows" "map ob_channel rows = chans"
      "\<forall>b \<in> set rows. ob_job b = job_id j" "map ob_pk rows = [outbox_seq d ..< outbox_seq d']" "outbox_seq d \<le> outbox_seq d'"
    using eff by (auto simp: transition_effect_def)
  have run: "runner r' = runner r" "runner j = runner r"
    using r load by (auto simp: same_identity_def loaded_def)
  have active: "status r \<notin> set TERMINAL_STATUSES" using r(2) by (auto simp: status_simps)
  have none: "ob_job b \<noteq> job_id j" if "b \<in> set (outbox_tbl d)" for b
    using inv that r(1) active by (auto simp: owed_inv_def)
  have fleets: "runner r' = FLEETS \<and> new \<in> set TERMINAL_STATUSES" if "rows \<noteq> []"
  proof -
    from that rows(2) have "chans \<noteq> []" by auto
    from ch(2) [OF this] show ?thesis using inv r(1) run by (auto simp: owed_inv_def)
  qed
  have M: "\<forall>i \<in> set (mirror_tbl d'). \<exists>x. job_row d' i = Some x \<and> runner x = FLEETS \<and> status x \<notin> set TERMINAL_STATUSES"
  proof
    fix i assume i: "i \<in> set (mirror_tbl d')"
    then have "i \<in> set (mirror_tbl d)" by (auto simp: mir split: if_splits)
    then obtain x where x: "job_row d i = Some x" "runner x = FLEETS" "status x \<notin> set TERMINAL_STATUSES"
      using inv by (auto simp: owed_inv_def)
    show "\<exists>x. job_row d' i = Some x \<and> runner x = FLEETS \<and> status x \<notin> set TERMINAL_STATUSES"
      using i x r run other [of i] by (cases "i = job_id j") (auto simp: mir split: if_splits)
  qed
  have O: "\<forall>b \<in> set (outbox_tbl d'). \<exists>x. job_row d' (ob_job b) = Some x \<and> runner x = FLEETS \<and> status x \<in> set TERMINAL_STATUSES"
  proof
    fix b assume "b \<in> set (outbox_tbl d')"
    then consider "b \<in> set (outbox_tbl d)" | "b \<in> set rows" by (auto simp: rows(1))
    then show "\<exists>x. job_row d' (ob_job b) = Some x \<and> runner x = FLEETS \<and> status x \<in> set TERMINAL_STATUSES"
    proof cases
      case 1
      then show ?thesis using inv other [of "ob_job b"] none by (auto simp: owed_inv_def)
    next
      case 2
      then show ?thesis using fleets r rows(3) by (metis empty_iff empty_set)
    qed
  qed
  have "distinct (map (\<lambda>b. (ob_job b, ob_channel b)) rows)"
    using ch(1) rows(2) by (metis (mono_tags, lifting) distinct_map inj_on_def prod.inject)
  then have D: "distinct (map (\<lambda>b. (ob_job b, ob_channel b)) (outbox_tbl d'))"
    using inv none rows(1,3) by (auto simp: owed_inv_def)
  have pks: "ob_pk b \<in> {outbox_seq d ..< outbox_seq d'}" if "b \<in> set rows" for b
    using that rows(4) by (metis atLeastLessThan_upt image_eqI list.set_map)
  have "distinct (map ob_pk rows)" by (simp add: rows(4))
  then have P: "distinct (map ob_pk (outbox_tbl d'))" "\<forall>b \<in> set (outbox_tbl d'). ob_pk b < outbox_seq d'"
    using inv pks rows(1,5) by (fastforce simp: owed_inv_def)+
  show ?thesis using M O D P by (simp add: owed_inv_def)
qed

lemma transition_life_inv:
  "transition_effect j new chans d d' \<Longrightarrow> loaded j d \<Longrightarrow> life_inv d \<Longrightarrow> life_inv d'"
  by (simp add: life_inv_def transition_rows_inv transition_owed_inv)

lemma owed_inv_mono:
  assumes "owed_inv d" "outbox_tbl d' = outbox_tbl d" "mirror_tbl d' = mirror_tbl d" "outbox_seq d' = outbox_seq d"
    and keep: "\<And>i y. job_row d i = Some y \<Longrightarrow> runner y = FLEETS \<Longrightarrow>
      \<exists>x. job_row d' i = Some x \<and> runner x = FLEETS \<and> status x = status y"
  shows "owed_inv d'"
  unfolding owed_inv_def assms(2-4)
proof (intro conjI ballI)
  fix i assume "i \<in> set (mirror_tbl d)"
  then obtain y where "job_row d i = Some y" "runner y = FLEETS" "status y \<notin> set TERMINAL_STATUSES"
    using assms(1) by (auto simp: owed_inv_def)
  with keep [of i y] show "\<exists>r. job_row d' i = Some r \<and> runner r = FLEETS \<and> status r \<notin> set TERMINAL_STATUSES" by auto
next
  fix b assume "b \<in> set (outbox_tbl d)"
  then obtain y where "job_row d (ob_job b) = Some y" "runner y = FLEETS" "status y \<in> set TERMINAL_STATUSES"
    using assms(1) by (auto simp: owed_inv_def)
  with keep [of "ob_job b" y] show "\<exists>r. job_row d' (ob_job b) = Some r \<and> runner r = FLEETS \<and> status r \<in> set TERMINAL_STATUSES"
    by auto
qed (use assms(1) in \<open>simp_all add: owed_inv_def\<close>)

text \<open>A write of columns other than the status, or any write to a Ray job, and an event.\<close>

lemma update_fields_life_inv:
  assumes upd: "update_fields t fs (j, d) = (ru, j', d')" and inv: "life_inv d"
    and keep: "plain_fields fs \<or> (\<exists>x. job_row d (job_id j) = Some x \<and> runner x = RAY)"
  shows "life_inv d'"
proof -
  note tables = update_fields_tables [OF upd] and row = update_fields_row [OF upd] and out = update_fields_outcome [OF upd]
  have fleets: "\<exists>y. job_row d i = Some y \<and> runner y = FLEETS \<and> status y = status x \<and> born y = born x"
    if "job_row d' i = Some x" "runner x = FLEETS" for i x
    using that keep row [of i] apply_fields_status [of fs]
    by (cases "i = job_id j"; cases "job_row d i") (auto simp: plain_fields_def born_def)
  have fleets': "\<exists>x. job_row d' i = Some x \<and> runner x = FLEETS \<and> status x = status y"
    if "job_row d i = Some y" "runner y = FLEETS" for i y
    using that keep row [of i] apply_fields_status [of fs]
    by (cases "i = job_id j") (auto simp: plain_fields_def)
  have ex: "job_row d' i = None \<longleftrightarrow> job_row d i = None" for i using row [of i] by auto
  have hist: "status_history i d' = status_history i d" for i
    using tables by (intro status_history_events_cong) simp
  have "rows_inv d'"
    using inv fleets tables out unfolding life_inv_def rows_inv_def hist ex by metis
  moreover have "owed_inv d'"
    by (rule owed_inv_mono [of d]) (use inv fleets' tables in \<open>auto simp: life_inv_def\<close>)
  ultimately show ?thesis by (simp add: life_inv_def)
qed

lemma add_event_life_inv:
  assumes "life_inv d" "job_row d (je_job e) = Some x" "je_type e \<noteq> STATUS_CHANGE \<or> runner x = RAY"
  shows "life_inv (add_event e d)"
proof -
  have h: "status_history i (add_event e d) = status_history i d" if "job_row d i = Some r" "runner r = FLEETS" for i r
    using assms(2,3) that by (auto simp: status_history_add_event)
  show ?thesis using assms h by (auto simp: life_inv_def rows_inv_def owed_inv_def)
qed

lemma store_job_life_inv:
  assumes inv: "life_inv d" and new: "job_row d (job_id j) = None" "status j = QUEUED" "mirrored \<longrightarrow> should_be_mirrored j"
    and user: "\<not> filler j"
  shows "life_inv (store_job t org cx j mirrored d)"
proof -
  define d' where "d' = store_job t org cx j mirrored d"
  have row: "job_row d' i = (if i = job_id j then Some j else job_row d i)" for i
    using new(1) by (auto simp: d'_def store_job_def add_status_event_def add_event_def job_row_def row_of_append Let_def
        split: option.splits)
  have "\<forall>e \<in> set (event_tbl d). je_job e \<noteq> job_id j"
    using inv new(1) unfolding life_inv_def rows_inv_def by metis
  then have old: "status_history (job_id j) d = []"
    by (simp add: status_history_def List.map_filter_def filter_empty_conv)
  have hist: "status_history i d' = (if i = job_id j then [QUEUED] else status_history i d)" for i
    using old new(2) by (auto simp: d'_def store_job_def add_status_event_def add_event_def status_history_def
        List.map_filter_def Let_def)
  have fresh: "job_id j \<notin> set (map job_id (job_tbl d))"
    using new(1) by (simp add: job_row_def row_of_None_iff)
  have tables: "map job_id (job_tbl d') = map job_id (job_tbl d) @ [job_id j]" "outbox_tbl d' = outbox_tbl d"
      "outbox_seq d' = outbox_seq d" "set (mirror_tbl d') = set (mirror_tbl d) \<union> (if mirrored then {job_id j} else {})"
      "\<exists>e. event_tbl d' = event_tbl d @ [e] \<and> je_job e = job_id j"
    by (auto simp: d'_def store_job_def add_status_event_def add_event_def Let_def)
  have "rows_inv d'"
    using inv fresh tables by (auto simp: life_inv_def rows_inv_def row hist new(2) user born_def valid_history_def split: if_splits)
  moreover have "owed_inv d'"
  proof -
    have "should_be_mirrored j \<Longrightarrow> runner j = FLEETS" by (simp add: should_be_mirrored_def)
    then show ?thesis
      using inv new tables unfolding life_inv_def owed_inv_def row by (auto simp: status_simps)
  qed
  ultimately show ?thesis by (simp add: life_inv_def d'_def)
qed

lemma store_filler_life_inv:
  assumes inv: "life_inv d" and new: "job_row d (job_id j) = None" "status j = QUEUED" "filler j"
  shows "life_inv (store_filler j d)"
proof -
  have row: "job_row (store_filler j d) i = (if i = job_id j then Some j else job_row d i)" for i
    using new(1) by (auto simp: store_filler_def job_row_def row_of_append split: option.splits)
  have "\<forall>e \<in> set (event_tbl d). je_job e \<noteq> job_id j"
    using inv new(1) unfolding life_inv_def rows_inv_def by metis
  then have old: "status_history (job_id j) d = []"
    by (simp add: status_history_def List.map_filter_def filter_empty_conv)
  have hist: "status_history i (store_filler j d) = status_history i d" for i
    by (rule status_history_events_cong) (simp add: store_filler_def)
  have fresh: "job_id j \<notin> set (map job_id (job_tbl d))"
    using new(1) by (simp add: job_row_def row_of_None_iff)
  have tables: "map job_id (job_tbl (store_filler j d)) = map job_id (job_tbl d) @ [job_id j]"
      "event_tbl (store_filler j d) = event_tbl d" by (simp_all add: store_filler_def)
  have "valid_history (born j @ status_history (job_id j) d) (status j)"
    using old new by (simp add: born_def valid_history_def)
  then have "rows_inv (store_filler j d)"
    using inv fresh unfolding life_inv_def rows_inv_def tables row hist by auto
  moreover have "owed_inv (store_filler j d)"
    by (rule owed_inv_mono [of d]) (use inv row new(1) in \<open>auto simp: life_inv_def store_filler_def\<close>)
  ultimately show ?thesis by (simp add: life_inv_def)
qed

lemma life_step_inv: "life_step d d' \<Longrightarrow> life_inv d \<Longrightarrow> life_inv d'"
proof (induction rule: life_step.induct)
  case (step_pending env why fs j w r j' w')
  then show ?case using q2p.call_effect transition_life_inv by metis
next
  case (step_running env why fs j w r j' w')
  then show ?case using p2r.call_effect transition_life_inv by metis
next
  case (step_succeeded env why fs j w r j' w')
  then show ?case using succ.call_effect transition_life_inv by metis
next
  case (step_failed env why fs j w r j' w')
  then show ?case using failed.call_effect transition_life_inv by metis
next
  case (step_stopped env why fs j w r j' w')
  then show ?case using stopped.call_effect transition_life_inv by metis
next
  case (step_stop env why answer j w rs j' w')
  then show ?case using stop_m.call_effect transition_life_inv by metis
next
  case (step_outbox_delete d keep)
  then show ?case by (auto simp: life_inv_def rows_inv_def owed_inv_def job_row_def status_history_def distinct_map_filter)
next
  case (step_outbox_retry f d)
  have "(\<lambda>b. (ob_job b, ob_channel b)) \<circ> f = (\<lambda>b. (ob_job b, ob_channel b))" "ob_pk \<circ> f = ob_pk"
    using step_outbox_retry(1) by (simp_all add: fun_eq_iff)
  then show ?case
    using step_outbox_retry by (auto simp: life_inv_def rows_inv_def owed_inv_def job_row_def status_history_def)
next
  case (step_blocked d bs)
  then show ?case by (simp add: life_inv_def rows_inv_def owed_inv_def job_row_def status_history_def)
qed (auto simp: store_job_life_inv store_filler_life_inv intro: update_fields_life_inv add_event_life_inv)

lemma life_reach_inv: "life_reach d \<Longrightarrow> life_inv d"
proof (induction rule: life_reach.induct)
  case life_init
  then show ?case by (simp add: life_inv_def rows_inv_def owed_inv_def empty_db_def job_row_def)
qed (rule life_step_inv)

end
