(* ===== verification/Job_Properties.thy ===== *)
theory Job_Properties
  imports Job_Lifecycle
begin

text \<open>
  The theorems on the life of a Fleets job: the recorded history, the finality of a terminal status, what
  each transition owes and when it returns, and what \<open>stop\<close> does on each of its branches.
\<close>

section \<open>Properties of the life cycle\<close>

text \<open>A scenario the theorems are applied to: one mirrored job that is created, starts, runs and succeeds.\<close>

definition ex_env :: "int \<Rightarrow> call_env" where
  "ex_env t = \<lparr>env_now = t, env_uid = (\<lambda>_. ''uid''), kafka_send = (\<lambda>_. Inr ()),
     menv = \<lparr>me_kind = NoOpWorkloadMirror, me_faults = \<lparr>mirror_query_raises = None, payload_query_raises = None\<rparr>,
       me_others = id, me_put = (\<lambda>_. Inr ())\<rparr>\<rparr>"

definition ex_why :: cause where
  "ex_why = \<lparr>why_origin = SCHEDULER, why_ctx = UPDATE_JOB_STATUS\<rparr>"

definition ex_queued :: world where
  "ex_queued = \<lparr>wdb = store_job 0 API RUN_PROGRAM (example_job QUEUED) True empty_db, kafka = [],
     wmirror = \<lparr>executor = None, m_mirror = (\<lambda>_ _. 0), puts = []\<rparr>\<rparr>"

definition ex_pending :: world where
  "ex_pending = snd (snd (queued_to_pending (ex_env 1000000) ex_why [F_fleet_id (Some ''f'')] (example_job QUEUED, ex_queued)))"

definition ex_running :: world where
  "ex_running = snd (snd (pending_to_running (ex_env 2000000) ex_why [] (example_job PENDING, ex_pending)))"

definition ex_ended :: world where
  "ex_ended = snd (snd (to_succeeded (ex_env 4500000) ex_why [] (example_job RUNNING, ex_running)))"

lemma loaded_code: "loaded j d = (case job_row d (job_id j) of None \<Rightarrow> True | Some r \<Rightarrow> same_identity j r)"
  by (simp add: loaded_def split: option.splits)

lemma ex_plain: "plain_fields []" "plain_fields [F_fleet_id f]" "sender_quiet (ex_env t)"
  by (simp_all add: plain_fields_def sender_quiet_def ex_env_def)

lemma ex_loaded:
  "loaded (example_job QUEUED) (wdb ex_queued)" "loaded (example_job PENDING) (wdb ex_pending)"
  "loaded (example_job RUNNING) (wdb ex_running)"
  unfolding loaded_code by code_simp+

lemma ex_queued_reach: "life_reach (wdb ex_queued)"
proof -
  have "job_row empty_db (job_id (example_job QUEUED)) = None" "status (example_job QUEUED) = QUEUED"
      "should_be_mirrored (example_job QUEUED)" "\<not> filler (example_job QUEUED)"
    by (simp_all add: empty_db_def job_row_def example_job_def should_be_mirrored_def Job_new_def)
  then show ?thesis
    unfolding ex_queued_def by (auto intro: life_next [OF life_init] step_create)
qed

lemma reach_calls:
  assumes "life_reach (wdb w)" "plain_fields fs" "loaded j (wdb w)"
  shows "life_reach (wdb (snd (snd (queued_to_pending env why fs (j, w)))))"
    "sender_quiet env \<Longrightarrow> life_reach (wdb (snd (snd (pending_to_running env why fs (j, w)))))"
    "life_reach (wdb (snd (snd (to_succeeded env why fs (j, w)))))"
proof -
  show "life_reach (wdb (snd (snd (queued_to_pending env why fs (j, w)))))"
    using assms by (cases "queued_to_pending env why fs (j, w)") (auto intro: life_next step_pending)
  show "sender_quiet env \<Longrightarrow> life_reach (wdb (snd (snd (pending_to_running env why fs (j, w)))))"
    using assms by (cases "pending_to_running env why fs (j, w)") (auto intro: life_next step_running)
  show "life_reach (wdb (snd (snd (to_succeeded env why fs (j, w)))))"
    using assms by (cases "to_succeeded env why fs (j, w)") (auto intro: life_next step_succeeded)
qed

lemma ex_reach: "life_reach (wdb ex_pending)" "life_reach (wdb ex_running)" "life_reach (wdb ex_ended)"
proof -
  show p: "life_reach (wdb ex_pending)"
    unfolding ex_pending_def by (rule reach_calls(1) [OF ex_queued_reach ex_plain(2) ex_loaded(1)])
  show r: "life_reach (wdb ex_running)"
    unfolding ex_running_def by (rule reach_calls(2) [OF p ex_plain(1) ex_loaded(2) ex_plain(3)])
  show "life_reach (wdb ex_ended)"
    unfolding ex_ended_def by (rule reach_calls(3) [OF r ex_plain(1) ex_loaded(3)])
qed

lemma ex_ended_eval:
  "map_option status (job_row (wdb ex_ended) ''j'') = Some SUCCEEDED"
  "map_option runner (job_row (wdb ex_ended) ''j'') = Some FLEETS"
  "status_history ''j'' (wdb ex_ended) = [QUEUED, PENDING, RUNNING, SUCCEEDED]"
  "map ob_channel (outbox_tbl (wdb ex_ended)) = [JOB_USAGE, WORKLOAD]"
  "mirror_tbl (wdb ex_ended) = []" "outbox_tbl (wdb ex_running) = []"
  "first_running_at ''j'' (wdb ex_running) = Some 2000000"
  "isl (fst (to_succeeded (ex_env 4500000) ex_why [] (example_job RUNNING, ex_running))) = False"
  by code_simp+

lemma valid_history_running_once:
  assumes "valid_history h s"
  shows "count_list h RUNNING \<le> 1"
proof -
  have "count_list h RUNNING \<le> 1 \<and> (hd h \<in> set TERMINAL_STATUSES \<union> {STOPPING} \<longrightarrow> count_list h RUNNING = 0)"
    if "h \<noteq> []" "successively (\<lambda>a b. b \<in> set (VALID_TRANSITIONS a)) h" for h
    using that
  proof (induction h rule: induct_list012)
    case (3 x y zs)
    then show ?case by (cases x) (auto simp: status_simps)
  qed (auto simp: status_simps)
  then show ?thesis using assms by (simp add: valid_history_def)
qed

text \<open>
  C1: The recorded history of a Fleets job is a path of the state machine. In every reachable database,
  under any interleaving of the scheduler, the gateway and the outbox loop and with stale instances, the
  status events of a Fleets job start at QUEUED (for a filler job, which is saved without an event, at what
  follows QUEUED), each follows its predecessor by an allowed transition, the last one is the status of the row, the job entered RUNNING at most once, and it has
  exactly one terminal event when its row is terminal and none otherwise.
\<close>

theorem fleets_history_is_valid_path:
  assumes "life_reach d" "job_row d i = Some r" "runner r = FLEETS"
  shows "valid_history ((if filler r then [QUEUED] else []) @ status_history i d) (status r) \<and> count_list (status_history i d) RUNNING \<le> 1 \<and>
    length (filter (\<lambda>s. s \<in> set TERMINAL_STATUSES) (status_history i d)) = of_bool (status r \<in> set TERMINAL_STATUSES)"
proof -
  have v: "valid_history (born r @ status_history i d) (status r)"
    using life_reach_inv [OF assms(1)] assms(2,3) by (simp add: life_inv_def rows_inv_def)
  show ?thesis
    using v valid_history_running_once [OF v] valid_history_terminal [OF v] by (simp add: born_def status_simps split: if_splits)
qed

theorem fleets_history_is_valid_path_witness:
  "valid_history [QUEUED, PENDING, RUNNING, SUCCEEDED] SUCCEEDED \<and> life_reach (wdb ex_ended)"
proof -
  obtain r where r: "job_row (wdb ex_ended) ''j'' = Some r" "status r = SUCCEEDED" "runner r = FLEETS"
    using ex_ended_eval(1,2) by (cases "job_row (wdb ex_ended) ''j''") auto
  have "map_option filler (job_row (wdb ex_ended) ''j'') = Some False" by code_simp
  then have "\<not> filler r" using r(1) by simp
  then show ?thesis
    using fleets_history_is_valid_path [OF ex_reach(3) r(1,3)] ex_reach(3) r(2) by (simp add: ex_ended_eval(3))
qed

text \<open>
  C2: What is owed is owed once and only by jobs that ended. In every reachable database the outbox has
  at most one row per job and channel, every outbox row belongs to a Fleets job in a terminal status,
  and every job still in the mirror table is a Fleets job that has not ended, so no job is in both.
\<close>

theorem outbox_owed_once_after_the_end:
  assumes "life_reach d"
  shows "distinct (map (\<lambda>b. (ob_job b, ob_channel b)) (outbox_tbl d)) \<and>
    (\<forall>b \<in> set (outbox_tbl d). \<exists>r. job_row d (ob_job b) = Some r \<and> runner r = FLEETS \<and> status r \<in> set TERMINAL_STATUSES) \<and>
    (\<forall>i \<in> set (mirror_tbl d). \<exists>r. job_row d i = Some r \<and> runner r = FLEETS \<and> status r \<in> set ACTIVE_STATUSES) \<and>
    set (mirror_tbl d) \<inter> ob_job ` set (outbox_tbl d) = {}"
proof -
  have inv: "owed_inv d" using life_reach_inv [OF assms] by (simp add: life_inv_def)
  then have "set (mirror_tbl d) \<inter> ob_job ` set (outbox_tbl d) = {}"
    unfolding owed_inv_def by (force simp: disjoint_iff)
  with inv show ?thesis unfolding owed_inv_def active_status_iff by simp
qed

theorem outbox_owed_once_after_the_end_witness:
  "distinct (map (\<lambda>b. (ob_job b, ob_channel b)) (outbox_tbl (wdb ex_ended))) \<and>
   map ob_channel (outbox_tbl (wdb ex_ended)) = [JOB_USAGE, WORKLOAD]"
  using outbox_owed_once_after_the_end [OF ex_reach(3)] ex_ended_eval(4) by blast

lemma life_step_terminal:
  assumes "life_step d d'" "job_row d i = Some r" "runner r = FLEETS" "status r \<in> set TERMINAL_STATUSES"
  shows "\<exists>r'. job_row d' i = Some r' \<and> runner r' = FLEETS \<and> status r' = status r \<and> status_history i d' = status_history i d"
proof -
  have eff: ?thesis if h: "wdb w' = wdb w \<or> (\<exists>new \<in> T. \<exists>chans. transition_effect j new chans (wdb w) (wdb w'))"
      "d = wdb w" "d' = wdb w'" for w w' :: world and T :: "Status set" and j
  proof -
    consider "d' = d" | new chans where "transition_effect j new chans d d'" using h by auto
    then show ?thesis
    proof cases
      case 1
      then show ?thesis using assms by blast
    next
      case (2 new chans)
      then have "i \<noteq> job_id j" using assms by (auto simp: transition_effect_def status_simps)
      then show ?thesis using 2 assms transition_history [OF 2, of i] by (auto simp: transition_effect_def)
    qed
  qed
  have upd: ?thesis if u: "update_fields t fs (j, d) = (ru, j', d')"
      and keep: "plain_fields fs \<or> (\<exists>x. job_row d (job_id j) = Some x \<and> runner x = RAY)" for t fs j ru j'
  proof -
    have "status_history i d' = status_history i d"
      using update_fields_tables [OF u] by (intro status_history_events_cong) simp
    then show ?thesis
      using update_fields_row [OF u, of i] keep assms(2,3) apply_fields_status [of fs]
      by (cases "i = job_id j") (auto simp: plain_fields_def)
  qed
  from assms(1) show ?thesis
  proof (cases rule: life_step.cases)
    case step_pending then show ?thesis using q2p.call_effect eff by metis
  next
    case step_running then show ?thesis using p2r.call_effect eff by metis
  next
    case step_succeeded then show ?thesis using succ.call_effect eff by metis
  next
    case step_failed then show ?thesis using failed.call_effect eff by metis
  next
    case step_stopped then show ?thesis using stopped.call_effect eff by metis
  next
    case step_stop then show ?thesis using stop_m.call_effect eff by metis
  next
    case (step_create j mirrored t org cx)
    then have "i \<noteq> job_id j" using assms(2) by auto
    then show ?thesis
      using step_create assms by (auto simp: store_job_def add_status_event_def add_event_def job_row_def row_of_append
          status_history_def List.map_filter_def Let_def)
  next
    case (step_create_filler j)
    then show ?thesis
      using assms by (auto simp: store_filler_def job_row_def row_of_append status_history_def split: option.splits)
  next
    case (step_event e)
    then show ?thesis using assms by (auto simp: status_history_add_event)
  next
    case (step_ray_event e x)
    then show ?thesis using assms by (auto simp: status_history_add_event)
  qed (use assms upd in \<open>auto simp: job_row_def status_history_def\<close>)
qed

lemma change_status_refused:
  assumes "job_row d (job_id j) = Some r" "new \<notin> set (VALID_TRANSITIONS (status r))"
  shows "change_status env new why fs (j, d) = (Inl InvalidJobTransitionException, j, d)"
  using assms by (simp add: change_status_def)

lemma no_transition_from_terminal: "s \<in> set TERMINAL_STATUSES \<Longrightarrow> VALID_TRANSITIONS s = []"
  by (auto simp: status_simps)



section \<open>What each terminal transition owes\<close>

lemma moved_const [simp]:
  "job_id (moved env new fs j) = job_id j" "is_usage_billable (moved env new fs j) = is_usage_billable j"
  "is_fee_billable (moved env new fs j) = is_fee_billable j" "size_label (moved env new fs j) = size_label j"
  "compute_profile_id (moved env new fs j) = compute_profile_id j" "instance_crn (moved env new fs j) = instance_crn j"
  "service_region (moved env new fs j) = service_region j" "job_program (moved env new fs j) = job_program j"
  "business_model (moved env new fs j) = business_model j"
  by (simp_all add: moved_def is_usage_billable_def is_fee_billable_def size_label_def compute_profile_id_def
      service_region_def)

lemma version_const [simp]:
  "is_usage_billable (j\<lparr>version := v\<rparr>) = is_usage_billable j" "is_fee_billable (j\<lparr>version := v\<rparr>) = is_fee_billable j"
  "size_label (j\<lparr>version := v\<rparr>) = size_label j" "compute_profile_id (j\<lparr>version := v\<rparr>) = compute_profile_id j"
  by (simp_all add: is_usage_billable_def is_fee_billable_def size_label_def compute_profile_id_def)

lemma first_running_append:
  assumes "event_tbl d' = event_tbl d @ [e]" "je_data e \<noteq> StatusData RUNNING"
  shows "first_running_at i d' = first_running_at i d"
proof -
  have "\<not> is_status_event (\<lambda>s. s = RUNNING) e"
    using assms(2) by (cases "je_data e") (auto simp: is_status_event_def)
  then show ?thesis by (simp add: first_running_at_def running_status_events_def assms(1))
qed

text \<open>The rows a terminal transition writes, read off the instance and database before it.\<close>

lemma terminal_rows:
  assumes "in_db (terminal_block env fee_due new why fs) (j, w) = (Inr ev, j', w')" "plain_fields fs"
    and "new \<in> set TERMINAL_STATUSES"
  obtains rows where "outbox_tbl (wdb w') = outbox_tbl (wdb w) @ rows"
    "map ob_channel rows = owed_channels fee_due (wdb w) j"
    "\<forall>b \<in> set rows. ob_job b = job_id j \<and> ob_region b = service_region j"
    "\<forall>b \<in> set rows. ob_channel b = JOB_USAGE \<longrightarrow> (\<exists>m. ob_payload b = Billing m \<and> job_completed (msg_data m) \<and>
       metric_value (msg_data m) = usage_seconds (first_running_at (job_id j) (wdb w)) (env_now env))"
    "\<forall>b \<in> set rows. ob_channel b = WORKLOAD \<longrightarrow> (\<exists>p. ob_payload b = Workload p \<and> function_id p = job_id j \<and>
       wb_status (wp_body p) = WORKLOAD_STATUS_MAPPING new)"
    "job_row (wdb w') (job_id j) \<noteq> None" "kafka w' = kafka w"
proof -
  obtain d' where tb: "terminal_block env fee_due new why fs (j, wdb w) = (Inr ev, j', d')" and w': "w' = w\<lparr>wdb := d'\<rparr>"
    using in_db_cases [OF assms(1)] by auto
  note eff = terminal_block_ok [OF tb assms(2,3)]
  obtain v where j': "j' = (moved env new fs j)\<lparr>version := v\<rparr>" using eff(2) by blast
  obtain d1 rows where cs: "change_status env new why fs (j, wdb w) = (Inr ev, j', d1)"
    and rows: "outbox_tbl d' = outbox_tbl (wdb w) @ rows" "\<forall>b \<in> set rows. row_content env j' (env_now env) d1 b"
    using eff(3) by blast
  have nr: "new \<noteq> RUNNING" using assms(3) by (auto simp: status_simps)
  have ft: "first_running_at i d1 = first_running_at i (wdb w)" for i
    using cs by (rule change_status_ok) (rule first_running_append, assumption, simp add: nr)
  have ev: "\<exists>e. event_tbl d' = event_tbl (wdb w) @ [e] \<and> je_data e = StatusData new"
    using eff(1) by (auto simp: transition_effect_def)
  then have fr: "first_running_at i ((wdb w)\<lparr>event_tbl := event_tbl d'\<rparr>) = first_running_at i (wdb w)" for i
    using first_running_append [of "(wdb w)\<lparr>event_tbl := event_tbl d'\<rparr>" "wdb w" _ i] nr by auto
  have "owed_channels fee_due ((wdb w)\<lparr>event_tbl := event_tbl d'\<rparr>) j' = owed_channels fee_due (wdb w) j"
    unfolding owed_channels_def is_mirrored_def j' by (simp add: fr)
  then have ch: "map ob_channel rows = owed_channels fee_due (wdb w) j"
    using eff(1) rows(1) by (auto simp: transition_effect_def)
  have st: "status j' = new" using j' apply_fields_new_status [OF assms(2)] by (simp add: moved_def)
  have "service_region j' = service_region j" by (simp add: j' service_region_def) 
  show ?thesis
  proof (rule that [of rows])
    show "outbox_tbl (wdb w') = outbox_tbl (wdb w) @ rows" "kafka w' = kafka w" by (simp_all add: w' rows)
    show "map ob_channel rows = owed_channels fee_due (wdb w) j" by (rule ch)
    show "\<forall>b \<in> set rows. ob_job b = job_id j \<and> ob_region b = service_region j"
      using rows(2) \<open>service_region j' = service_region j\<close> by (auto simp: row_content_def j')
    show "\<forall>b \<in> set rows. ob_channel b = JOB_USAGE \<longrightarrow> (\<exists>m. ob_payload b = Billing m \<and> job_completed (msg_data m) \<and>
       metric_value (msg_data m) = usage_seconds (first_running_at (job_id j) (wdb w)) (env_now env))"
      using rows(2) by (auto simp: row_content_def j' ft build_job_completed_event_def envelope_def)
    show "\<forall>b \<in> set rows. ob_channel b = WORKLOAD \<longrightarrow> (\<exists>p. ob_payload b = Workload p \<and> function_id p = job_id j \<and>
       wb_status (wp_body p) = WORKLOAD_STATUS_MAPPING new)"
    proof (intro ballI impI)
      fix b assume b: "b \<in> set rows" "ob_channel b = WORKLOAD"
      obtain p where p: "ob_payload b = Workload p" "build_workload_payload d1 j' = Inr p"
        using bspec [OF rows(2) b(1)] b(2) by (auto simp: row_content_def)
      then show "\<exists>p. ob_payload b = Workload p \<and> function_id p = job_id j \<and>
          wb_status (wp_body p) = WORKLOAD_STATUS_MAPPING new"
        using build_workload_payload_fields(1,2) [OF p(2)] st j' by simp
    qed
    show "job_row (wdb w') (job_id j) \<noteq> None" using eff(1) by (auto simp: transition_effect_def w')
  qed
qed



text \<open>
  A job that failed or was stopped owes the same, except that the license fee is owed if and only if
  the job ever ran: there is a fee row exactly when the history of the job has RUNNING in it, the
  function has a provider and the job a size. The usage of a job that never ran is zero seconds.
\<close>

theorem to_stopped_or_failed_owes_exactly:
  assumes "to_stopped_or_failed env new why fs (j, w) = (Inr ev, j', w')" "plain_fields fs" "new \<in> {FAILED, STOPPED}"
  shows "\<exists>rows. outbox_tbl (wdb w') = outbox_tbl (wdb w) @ rows \<and>
    map ob_channel rows =
      (if is_usage_billable j then JOB_USAGE # (if RUNNING \<in> set (status_history (job_id j) (wdb w)) \<and>
          is_fee_billable j \<and> size_label j \<noteq> None then [LICENSE_FEE] else [])
       else []) @ (if is_mirrored (wdb w) j then [WORKLOAD] else []) \<and>
    (\<forall>b \<in> set rows. ob_channel b = JOB_USAGE \<longrightarrow> (\<exists>m. ob_payload b = Billing m \<and>
       metric_value (msg_data m) = usage_seconds (first_running_at (job_id j) (wdb w)) (env_now env) \<and>
       (RUNNING \<notin> set (status_history (job_id j) (wdb w)) \<longrightarrow> metric_value (msg_data m) = 0)))"
proof -
  have new: "new \<in> set TERMINAL_STATUSES" using assms(3) by (auto simp: status_simps)
  have ran: "first_running_at (job_id j) (wdb w) \<noteq> None \<longleftrightarrow> RUNNING \<in> set (status_history (job_id j) (wdb w))"
    by (simp add: first_running_at_None)
  have zero: "RUNNING \<notin> set (status_history (job_id j) (wdb w)) \<Longrightarrow>
      usage_seconds (first_running_at (job_id j) (wdb w)) t = 0" for t
    by (simp add: first_running_at_None [symmetric] usage_seconds_def)
  from assms(1) [unfolded to_stopped_or_failed_def] assms(2) new
  obtain rows where rows: "outbox_tbl (wdb w') = outbox_tbl (wdb w) @ rows"
      and ch: "map ob_channel rows = owed_channels (\<lambda>started. started \<noteq> None) (wdb w) j"
      and us: "\<forall>b \<in> set rows. ob_channel b = JOB_USAGE \<longrightarrow> (\<exists>m. ob_payload b = Billing m \<and> job_completed (msg_data m) \<and>
       metric_value (msg_data m) = usage_seconds (first_running_at (job_id j) (wdb w)) (env_now env))"
    by (rule terminal_rows)
  have "\<forall>b \<in> set rows. ob_channel b = JOB_USAGE \<longrightarrow> (\<exists>m. ob_payload b = Billing m \<and>
       metric_value (msg_data m) = usage_seconds (first_running_at (job_id j) (wdb w)) (env_now env) \<and>
       (RUNNING \<notin> set (status_history (job_id j) (wdb w)) \<longrightarrow> metric_value (msg_data m) = 0))"
    using us zero by metis
  with rows ch [unfolded owed_channels_def ran] show ?thesis by blast
qed

lemma call_returns:
  "isl (fst c) = False \<Longrightarrow> \<exists>a j w. c = (Inr a, j, w)"
  by (cases c) (metis fst_conv isl_def sum.exhaust prod.exhaust)

theorem to_stopped_or_failed_owes_exactly_witness:
  "\<exists>ev j' w' rows. to_stopped_or_failed (ex_env 3000000) FAILED ex_why [] (example_job PENDING, ex_pending) = (Inr ev, j', w') \<and>
     outbox_tbl (wdb w') = outbox_tbl (wdb ex_pending) @ rows \<and> map ob_channel rows = [JOB_USAGE, WORKLOAD] \<and>
     (\<forall>b \<in> set rows. ob_channel b = JOB_USAGE \<longrightarrow> (\<exists>m. ob_payload b = Billing m \<and> metric_value (msg_data m) = 0))"
proof -
  have "isl (fst (to_stopped_or_failed (ex_env 3000000) FAILED ex_why [] (example_job PENDING, ex_pending))) = False"
    by code_simp
  then obtain ev j' w' where c: "to_stopped_or_failed (ex_env 3000000) FAILED ex_why [] (example_job PENDING, ex_pending) = (Inr ev, j', w')"
    using call_returns by blast
  have j: "is_usage_billable (example_job PENDING)" "\<not> is_fee_billable (example_job PENDING)"
      "is_mirrored (wdb ex_pending) (example_job PENDING)"
      "RUNNING \<notin> set (status_history (job_id (example_job PENDING)) (wdb ex_pending))"
    by code_simp+
  show ?thesis
    using to_stopped_or_failed_owes_exactly [OF c ex_plain(1)] c j by auto
qed

subsection \<open>When a terminal transition returns\<close>

lemma enqueue_owed_returns_iff:
  "(\<exists>d'. enqueue_owed env fee_due j finished d = Inr d') \<longleftrightarrow>
     (is_usage_billable j \<and> fee_due (first_running_at (job_id j) d) \<and> is_fee_billable j \<and> size_label j \<noteq> None \<longrightarrow>
        business_model j \<in> {''SUBSIDIZED'', ''LICENSED'', ''TRIAL'', ''CONSUMPTION''}) \<and>
     (is_mirrored d j \<longrightarrow> truthy (instance_crn j) \<and> job_program j \<noteq> None)"
proof -
  have wl: "(\<exists>d'. enqueue_workload env j d2 = Inr d') \<longleftrightarrow>
      (is_mirrored d2 j \<longrightarrow> truthy (instance_crn j) \<and> job_program j \<noteq> None)" for d2
    by (auto simp: enqueue_workload_def Let_def build_workload_payload_def split: sum.splits option.splits)
  have fee: "(\<exists>d'. enqueue_license_fee env j st d2 = Inr d') \<longleftrightarrow>
      (size_label j \<noteq> None \<longrightarrow> business_model j \<in> {''SUBSIDIZED'', ''LICENSED'', ''TRIAL'', ''CONSUMPTION''})"
    if "is_fee_billable j" for st d2
  proof -
    have "\<exists>p pr. job_program j = Some p \<and> program_provider p = Some pr"
      using that by (auto simp: is_fee_billable_def split: option.splits)
    then show ?thesis
      using build_license_fee_ok [of "env_uid env 1" "env_now env" j st]
      by (auto simp: enqueue_license_fee_def split: sum.splits)
  qed
  have frame: "enqueue_license_fee env j st d2 = Inr d3 \<Longrightarrow> mirror_tbl d3 = mirror_tbl d2" for st d2 d3
    by (auto simp: enqueue_license_fee_def split: if_splits sum.splits)
  let ?st = "first_running_at (job_id j) d" and ?d1 = "enqueue_job_usage env j (first_running_at (job_id j) d) finished d"
  have m1: "is_mirrored ?d1 j = is_mirrored d j" by (simp add: enqueue_job_usage_def)
  consider "\<not> is_usage_billable j" | "is_usage_billable j" "\<not> (fee_due ?st \<and> is_fee_billable j)"
    | "is_usage_billable j" "fee_due ?st \<and> is_fee_billable j" by blast
  then show ?thesis
  proof cases
    case 1
    then show ?thesis using wl [of d] by (simp add: enqueue_owed_def)
  next
    case 2
    then have "enqueue_owed env fee_due j finished d = enqueue_workload env j ?d1"
      by (auto simp: enqueue_owed_def Let_def)
    then show ?thesis using 2 wl [of ?d1] m1 by auto
  next
    case 3
    then have eq: "enqueue_owed env fee_due j finished d =
        (case enqueue_license_fee env j ?st ?d1 of Inl e \<Rightarrow> Inl e | Inr d2 \<Rightarrow> enqueue_workload env j d2)"
      by (simp add: enqueue_owed_def Let_def)
    show ?thesis
    proof (cases "enqueue_license_fee env j ?st ?d1")
      case (Inl e)
      then show ?thesis using 3 fee [of ?st ?d1] eq by auto
    next
      case (Inr d2)
      then have "is_mirrored d2 j = is_mirrored d j" using frame m1 by (simp add: is_mirrored_def)
      then show ?thesis using 3 Inr fee [of ?st ?d1] eq wl [of d2] by auto
    qed
  qed
qed

lemma terminal_returns:
  assumes "plain_fields fs" "new \<in> {FAILED, STOPPED}"
  shows "(\<exists>ev j' w'. to_stopped_or_failed env new why fs (j, w) = (Inr ev, j', w')) \<longleftrightarrow>
    (\<exists>r. job_row (wdb w) (job_id j) = Some r \<and> new \<in> set (VALID_TRANSITIONS (status r))) \<and>
    (is_usage_billable j \<and> RUNNING \<in> set (status_history (job_id j) (wdb w)) \<and> is_fee_billable j \<and> size_label j \<noteq> None \<longrightarrow>
       business_model j \<in> {''SUBSIDIZED'', ''LICENSED'', ''TRIAL'', ''CONSUMPTION''}) \<and>
    (is_mirrored (wdb w) j \<longrightarrow> truthy (instance_crn j) \<and> job_program j \<noteq> None)"
proof (cases "\<exists>r. job_row (wdb w) (job_id j) = Some r \<and> new \<in> set (VALID_TRANSITIONS (status r))")
  case False
  then have "\<nexists>ev j' d1. change_status env new why fs (j, wdb w) = (Inr ev, j', d1)"
    using change_status_ok by metis
  then have "\<nexists>ev j' w'. to_stopped_or_failed env new why fs (j, w) = (Inr ev, j', w')"
    by (auto simp: to_stopped_or_failed_def in_db_def atomic_def terminal_block_def split: prod.splits sum.splits)
  then show ?thesis using False by blast
next
  case True
  then obtain ev j1 d1 where cs: "change_status env new why fs (j, wdb w) = (Inr ev, j1, d1)"
    using change_status_err by (metis option.inject option.simps(3) sum.exhaust surj_pair)
  have nr: "new \<noteq> RUNNING" using assms(2) by auto
  obtain v where j1: "j1 = (moved env new fs j)\<lparr>version := v\<rparr>"
    using cs by (rule change_status_ok) (auto simp: moved_def)
  have ft: "first_running_at i d1 = first_running_at i (wdb w)" for i
    using cs by (rule change_status_ok) (rule first_running_append, assumption, simp add: nr)
  have m: "is_mirrored d1 j1 = is_mirrored (wdb w) j"
    using cs by (rule change_status_ok) (simp add: is_mirrored_def j1)
  have "(\<exists>ev j' w'. to_stopped_or_failed env new why fs (j, w) = (Inr ev, j', w')) \<longleftrightarrow>
      (\<exists>d'. enqueue_owed env (\<lambda>started. started \<noteq> None) j1 (je_created ev) d1 = Inr d')"
    using cs by (auto simp: to_stopped_or_failed_def in_db_def atomic_def terminal_block_def split: sum.splits)
  also have "\<dots> \<longleftrightarrow> (is_usage_billable j \<and> RUNNING \<in> set (status_history (job_id j) (wdb w)) \<and> is_fee_billable j \<and>
       size_label j \<noteq> None \<longrightarrow> business_model j \<in> {''SUBSIDIZED'', ''LICENSED'', ''TRIAL'', ''CONSUMPTION''}) \<and>
    (is_mirrored (wdb w) j \<longrightarrow> truthy (instance_crn j) \<and> job_program j \<noteq> None)"
    unfolding enqueue_owed_returns_iff m ft by (simp add: j1 first_running_at_None)
  finally show ?thesis using True by blast
qed



section \<open>Stopping a job\<close>

lemma in_db_Inr: "block (j, wdb w) = (Inr a, j', d') \<Longrightarrow> in_db block (j, w) = (Inr a, j', w\<lparr>wdb := d'\<rparr>)"
  by (simp add: in_db_def atomic_def)



text \<open>
  The branch of \<open>stop\<close> that ends the job writes no billing row. When it returns STOPPED the outbox
  gains at most the workload row, so a billable job that was running and whose fleet is already gone
  ends without its final usage row and without its license fee, while \<open>to_stopped\<close> on the same job
  in the same state writes the usage row.
\<close>

theorem stop_ends_without_usage_row:
  assumes "stop env why answer (j, w) = (Inr STOPPED, j', w')"
  shows "(\<exists>rows. outbox_tbl (wdb w') = outbox_tbl (wdb w) @ rows \<and>
      map ob_channel rows = (if is_mirrored (wdb w) j then [WORKLOAD] else [])) \<and>
    (\<forall>ev j2 w2. is_usage_billable j \<and> to_stopped env why [] (j, w) = (Inr ev, j2, w2) \<longrightarrow>
      JOB_USAGE \<in> ob_channel ` set (drop (length (outbox_tbl (wdb w))) (outbox_tbl (wdb w2))))"
proof -
  let ?f = "\<lambda>s. case in_db (change_status env STOPPING why []) s of (Inl e, s') \<Rightarrow> (Inl e, s') | (Inr _, s') \<Rightarrow> (Inr STOPPING, s')"
  have "?f (j, w) \<noteq> (Inr STOPPED, x)" for x by (auto split: sum.splits prod.splits)
  then have "then_mirror env ?f (j, w) \<noteq> (Inr STOPPED, j', w')"
    using then_mirror_cases [of env ?f "(j, w)" "Inr STOPPED" j' w'] by (auto simp: after_commit_error_def)
  then have "in_db (stop_block env why) (j, w) = (Inr STOPPED, j', w')"
    using assms by (auto simp: stop_def split: if_splits sum.splits bool.splits)
  then obtain d' where sb: "stop_block env why (j, wdb w) = (Inr STOPPED, j', d')" "w' = w\<lparr>wdb := d'\<rparr>"
    using in_db_cases by blast
  have one: "\<exists>rows. outbox_tbl (wdb w') = outbox_tbl (wdb w) @ rows \<and>
      map ob_channel rows = (if is_mirrored (wdb w) j then [WORKLOAD] else [])"
    using stop_block_effect [OF sb(1)] sb(2) by (auto simp: transition_effect_def)
  have two: "JOB_USAGE \<in> ob_channel ` set (drop (length (outbox_tbl (wdb w))) (outbox_tbl (wdb w2)))"
    if "is_usage_billable j" "to_stopped env why [] (j, w) = (Inr ev, j2, w2)" for ev j2 w2
  proof -
    have "plain_fields []" "STOPPED \<in> set TERMINAL_STATUSES" by (simp_all add: plain_fields_def status_simps)
    from that(2) [unfolded to_stopped_def to_stopped_or_failed_def] this
    obtain rows where r: "outbox_tbl (wdb w2) = outbox_tbl (wdb w) @ rows"
        "map ob_channel rows = owed_channels (\<lambda>started. started \<noteq> None) (wdb w) j"
      by (rule terminal_rows)
    have "JOB_USAGE \<in> set (map ob_channel rows)" unfolding r(2) using that(1) by (simp add: owed_channels_def)
    then show ?thesis using r(1) by simp
  qed
  show ?thesis using one two by blast
qed

theorem stop_ends_without_usage_row_witness:
  "\<exists>j' w' rows. stop (ex_env 3000000) ex_why (Inr False) ((example_job RUNNING)\<lparr>fleet_id := Some ''f''\<rparr>, ex_running) = (Inr STOPPED, j', w') \<and>
     is_usage_billable (example_job RUNNING) \<and> status_history ''j'' (wdb ex_running) = [QUEUED, PENDING, RUNNING] \<and>
     outbox_tbl (wdb w') = outbox_tbl (wdb ex_running) @ rows \<and> map ob_channel rows = [WORKLOAD]"
proof -
  let ?j = "(example_job RUNNING)\<lparr>fleet_id := Some ''f''\<rparr>"
  have "fst (stop (ex_env 3000000) ex_why (Inr False) (?j, ex_running)) = Inr STOPPED" by code_simp
  then obtain j' w' where c: "stop (ex_env 3000000) ex_why (Inr False) (?j, ex_running) = (Inr STOPPED, j', w')"
    by (cases "stop (ex_env 3000000) ex_why (Inr False) (?j, ex_running)") auto
  have "is_mirrored (wdb ex_running) ?j" "is_usage_billable (example_job RUNNING)"
      "status_history ''j'' (wdb ex_running) = [QUEUED, PENDING, RUNNING]" by code_simp+
  then show ?thesis using stop_ends_without_usage_row [OF c] c by auto
qed

section \<open>Best effort messages\<close>

text \<open>
  The progress message of a job with no recorded start is not best effort: for any job that is not a
  filler, \<open>running_to_running\<close> without a start time raises AttributeError to its caller and sends
  nothing. With a start time and a sender that only raises RuntimeError it never raises, never touches
  the database, and hands the sender exactly one message with the elapsed whole seconds.
\<close>

theorem running_to_running_progress:
  assumes "\<not> filler j" "sender_quiet env"
  shows "running_to_running env None (j, w) = (Inl (AttributeError ''isoformat''), j, w) \<and>
    (\<exists>m. running_to_running env (Some t) (j, w) = (Inr (), j, w\<lparr>kafka := kafka w @ [m]\<rparr>) \<and>
       metric_value (msg_data m) = usage_seconds (Some t) (env_now env) \<and>
       \<not> job_started (msg_data m) \<and> \<not> job_completed (msg_data m) \<and> subject m = job_id j)"
  using assms
  by (auto simp: running_to_running_def send_job_in_progress_def build_job_usage_def envelope_def sender_quiet_def Let_def
      split: sum.splits)

theorem running_to_running_progress_witness:
  "running_to_running (ex_env 9) None (example_job RUNNING, ex_running) =
     (Inl (AttributeError ''isoformat''), example_job RUNNING, ex_running)"
proof -
  have "\<not> filler (example_job RUNNING)" by (simp add: example_job_def Job_new_def)
  from running_to_running_progress [OF this ex_plain(3)] show ?thesis by blast
qed

text \<open>
  The start of a job is announced once, with its recorded start. When \<open>pending_to_running\<close>
  returns, a job that is not a filler has handed the Kafka sender exactly one message, flagged as started,
  with zero usage and with the creation time of the RUNNING event it just wrote, and that time is the
  start that later usage is measured from.
\<close>

theorem pending_to_running_announces_start:
  assumes "pending_to_running env why fs (j, w) = (Inr ev, j', w')" "plain_fields fs" "sender_quiet env"
    and "life_inv (wdb w)" "loaded j (wdb w)" "runner j = FLEETS" "\<not> filler j"
  shows "\<exists>m. kafka w' = kafka w @ [m] \<and> job_started (msg_data m) \<and> metric_value (msg_data m) = 0 \<and>
    job_started_at (msg_data m) = Some (je_created ev) \<and> first_running_at (job_id j) (wdb w') = Some (je_created ev)"
proof -
  let ?f = "\<lambda>s. case in_db (change_status env RUNNING why fs) s of (Inl e, j, w) \<Rightarrow> (Inl e, j, w)
     | (Inr ev, j, w) \<Rightarrow> (case send_job_in_progress env True (Some (je_created ev)) (j, w) of
          (Inl e, j', w') \<Rightarrow> (Inl e, j', w') | (Inr _, j', w') \<Rightarrow> (Inr ev, j', w'))"
  obtain w0 where f: "?f (j, w) = (Inr ev, j', w0)" and w: "wdb w' = wdb w0" "kafka w' = kafka w0"
    using then_mirror_cases [OF assms(1) [unfolded pending_to_running_def]] by (auto simp: after_commit_error_def)
  obtain j1 d1 where cs: "change_status env RUNNING why fs (j, wdb w) = (Inr ev, j1, d1)"
    and g: "in_db (change_status env RUNNING why fs) (j, w) = (Inr ev, j1, w\<lparr>wdb := d1\<rparr>)"
  proof -
    obtain r1 j1 w1 where g: "in_db (change_status env RUNNING why fs) (j, w) = (r1, j1, w1)" by (metis prod_cases3)
    then obtain ev1 where ev1: "r1 = Inr ev1" using f by (cases r1) auto
    have "ev1 = ev" using f g ev1 by (auto split: sum.splits prod.splits)
    then show ?thesis using in_db_cases [OF g] ev1 g that by auto
  qed
  obtain r2 j2 w2 where h: "send_job_in_progress env True (Some (je_created ev)) (j1, w\<lparr>wdb := d1\<rparr>) = (r2, j2, w2)"
    by (metis prod_cases3)
  have w0: "w0 = w2" using f g h by (cases r2) auto
  obtain r where r: "job_row (wdb w) (job_id j) = Some r" "RUNNING \<in> set (VALID_TRANSITIONS (status r))"
    and ev: "ev = \<lparr>je_job = job_id j, je_type = STATUS_CHANGE, je_origin = why_origin why, je_context = why_ctx why,
          je_created = env_now env, je_data = StatusData RUNNING\<rparr>"
    and t: "event_tbl d1 = event_tbl (wdb w) @ [ev]"
    and j1: "\<exists>v. j1 = (apply_fields (F_updated (env_now env) # F_status RUNNING # fs) j)\<lparr>version := v\<rparr>"
    using cs by (rule change_status_ok) blast
  have nf: "\<not> filler j1" "job_id j1 = job_id j" using j1 assms(7) by auto
  have "runner r = FLEETS" "born r = []" using assms(5-7) r(1) by (auto simp: loaded_def same_identity_def born_def)
  then have vh: "valid_history (status_history (job_id j) (wdb w)) (status r)"
    using assms(4) r(1) by (fastforce simp: life_inv_def rows_inv_def)
  have "count_list (status_history (job_id j) (wdb w) @ [RUNNING]) RUNNING \<le> 1"
    by (rule valid_history_running_once [OF valid_history_snoc [OF vh r(2)]])
  then have nr: "RUNNING \<notin> set (status_history (job_id j) (wdb w))" by (simp add: count_list_0_iff)
  have "first_running_at (job_id j) d1 = Some (je_created ev)"
  proof -
    have "{e \<in> set (event_tbl d1). je_job e = job_id j \<and> is_status_event (\<lambda>s. s = RUNNING) e} = {ev}"
      using nr ev by (auto simp: t status_history_mem is_status_event_def split: option.splits)
    then show ?thesis by (simp add: first_running_at_Min Let_def)
  qed
  moreover have "\<exists>m. kafka w2 = kafka w @ [m] \<and> job_started (msg_data m) \<and> metric_value (msg_data m) = 0 \<and>
      job_started_at (msg_data m) = Some (je_created ev) \<and> wdb w2 = d1"
    using h nf assms(3)
    by (auto simp: send_job_in_progress_def build_job_usage_def envelope_def sender_quiet_def Let_def split: sum.splits)
  ultimately show ?thesis using w w0 by auto
qed

theorem pending_to_running_announces_start_witness:
  "\<exists>m. kafka ex_running = [m] \<and> job_started (msg_data m) \<and> first_running_at ''j'' (wdb ex_running) = Some 2000000"
proof -
  have "isl (fst (pending_to_running (ex_env 2000000) ex_why [] (example_job PENDING, ex_pending))) = False" by code_simp
  then obtain ev j' where c: "pending_to_running (ex_env 2000000) ex_why [] (example_job PENDING, ex_pending) = (Inr ev, j', ex_running)"
    unfolding ex_running_def using call_returns [of "pending_to_running (ex_env 2000000) ex_why [] (example_job PENDING, ex_pending)"] by auto
  have j: "runner (example_job PENDING) = FLEETS" "\<not> filler (example_job PENDING)"
    by (simp_all add: example_job_def Job_new_def)
  have k: "kafka ex_pending = []" by code_simp
  show ?thesis
    using pending_to_running_announces_start [OF c ex_plain(1,3) life_reach_inv [OF ex_reach(1)] ex_loaded(2) j] k
      ex_ended_eval(7) by auto
qed

end
