(* ===== verification/Outbox_Delivery.thy ===== *)
theory Outbox_Delivery
  imports Models Circuit_Breaker "HOL-Library.Product_Lexorder"
begin

text \<open>
  Draining the outbox (\<^verbatim>\<open>scheduler/tasks/outbox.py\<close>, \<^verbatim>\<open>scheduler/tasks/outbox_destination.py\<close>)
  and the batch senders (\<^verbatim>\<open>core/ibm_cloud/event_streams/kafka_sender.py\<close>). The clocks, the kill
  signal and the answers of the senders are functions of a counter that advances at every reading, so a
  drain sees them change while it runs. The loop over the batches of a region takes fuel.
\<close>

section \<open>Senders\<close>

text \<open>
  \<open>KafkaSender.send_batch\<close>: \<open>produce\<close> tells whether a payload could be queued in the producer of
  its region, \<open>confirmed\<close> whether the broker confirmed the key before the flush returned.
\<close>

type_synonym message = "nat \<times> outbox_payload"

definition kafka_send_batch :: "(outbox_payload \<Rightarrow> unit res) \<Rightarrow> (nat \<Rightarrow> bool) \<Rightarrow> message list \<Rightarrow> nat list" where
  "kafka_send_batch produce confirmed msgs =
     List.map_filter (\<lambda>(key, p). case produce p of Inl _ \<Rightarrow> None
        | Inr _ \<Rightarrow> if confirmed key then Some key else None) msgs"

definition noop_send_batch :: "message list \<Rightarrow> nat list" where
  "noop_send_batch msgs = map fst msgs"

text \<open>The contract of \<open>BatchSender.send_batch\<close>: it reports only keys it was given.\<close>

locale batch_sender =
  fixes send_batch :: "message list \<Rightarrow> nat list"
  assumes delivered_given: "set (send_batch msgs) \<subseteq> fst ` set msgs"
begin

lemma undelivered_or_given: "pk \<notin> fst ` set msgs \<Longrightarrow> pk \<notin> set (send_batch msgs)"
  using delivered_given by blast

lemma nothing_from_nothing: "send_batch [] = []"
  using delivered_given [of "[]"] by simp

end

interpretation kafka_sender: batch_sender "kafka_send_batch produce confirmed" for produce confirmed
  by unfold_locales (force simp: kafka_send_batch_def set_map_filter split: sum.splits if_splits)

interpretation noop_sender: batch_sender noop_send_batch
  by unfold_locales (simp add: noop_send_batch_def)

section \<open>Destinations and the state of a drain\<close>

definition BATCH_SIZE :: nat where "BATCH_SIZE = 100"
definition LAST_ERROR_MAX_LENGTH :: nat where "LAST_ERROR_MAX_LENGTH = 500"
definition MIN_RETRY_WAIT_SECONDS :: int where "MIN_RETRY_WAIT_SECONDS = 1"
definition MAX_RETRY_DOUBLINGS :: nat where "MAX_RETRY_DOUBLINGS = 30"
definition MAX_RETRY_WAIT_SECONDS :: int where "MAX_RETRY_WAIT_SECONDS = 24 * 3600"

datatype dest_name = KAFKA | WORKLOADS

record destination =
  dest_name :: dest_name
  dest_batch :: bool
  dest_keys :: breaker_keys
  budget_key :: ConfigKey
  retry_base_key :: ConfigKey
  retry_max_key :: ConfigKey

datatype send_outcome = SEND_SUCCESS | SEND_FAILURE | SEND_UNRECOVERABLE

text \<open>
  \<open>de_send_batch n\<close> and \<open>de_send n\<close> are the senders at the \<open>n\<close>-th reading; \<open>de_wall\<close> is
  \<open>timezone.now()\<close> and \<open>de_mono\<close> is \<open>time.monotonic()\<close>, in microseconds; \<open>de_text\<close> renders an exception as its class
  name and message.
\<close>

record drain_env =
  de_conf :: "ConfigKey \<Rightarrow> string"
  de_wall :: "nat \<Rightarrow> int"
  de_mono :: "nat \<Rightarrow> int"
  de_killed :: "nat \<Rightarrow> bool"
  de_send :: "nat \<Rightarrow> outbox_payload \<Rightarrow> unit res"
  de_send_batch :: "nat \<Rightarrow> message list \<Rightarrow> nat list"
  de_text :: "exn \<Rightarrow> string"

text \<open>\<open>d_log\<close> is the metric of sends: one entry per attempt, with the key of the row.\<close>

record drain_state =
  d_db :: db
  d_breakers :: "dest_name \<Rightarrow> region_breakers"
  d_tick :: nat
  d_log :: "(nat \<times> send_outcome) list"

definition next_tick :: "drain_state \<Rightarrow> drain_state" where
  "next_tick s = s\<lparr>d_tick := Suc (d_tick s)\<rparr>"

definition with_breaker ::
  "(region_breakers \<Rightarrow> region_breakers) \<Rightarrow> destination \<Rightarrow> drain_state \<Rightarrow> drain_state" where
  "with_breaker f dst s = s\<lparr>d_breakers := (d_breakers s)(dest_name dst := f (d_breakers s (dest_name dst)))\<rparr>"

definition dest_is_open :: "drain_env \<Rightarrow> destination \<Rightarrow> string option \<Rightarrow> drain_state \<Rightarrow> bool \<times> drain_state" where
  "dest_is_open env dst region s =
     (let (open, bs) = paused (de_conf env) (dest_keys dst) (de_mono env (d_tick s)) region (d_breakers s (dest_name dst))
      in (open, next_tick (with_breaker (\<lambda>_. bs) dst s)))"

definition dest_success :: "destination \<Rightarrow> string option \<Rightarrow> drain_state \<Rightarrow> drain_state" where
  "dest_success dst region = with_breaker (record_in record_success region) dst"

definition dest_failure :: "drain_env \<Rightarrow> destination \<Rightarrow> string option \<Rightarrow> drain_state \<Rightarrow> drain_state" where
  "dest_failure env dst region s =
     next_tick (with_breaker (record_in (record_failure (de_conf env) (dest_keys dst) (de_mono env (d_tick s))) region) dst s)"

definition should_continue_draining :: "drain_env \<Rightarrow> int \<Rightarrow> drain_state \<Rightarrow> bool \<times> drain_state" where
  "should_continue_draining env deadline s =
     (if de_killed env (d_tick s) then (False, next_tick s)
      else if de_mono env (d_tick s) \<ge> deadline then (False, next_tick s)
      else (True, next_tick s))"

section \<open>Recording an attempt\<close>

definition retry_wait :: "int \<Rightarrow> int \<Rightarrow> nat \<Rightarrow> int" where
  "retry_wait base cap tries =
     (let wait = base * 2 ^ min (tries - 1) MAX_RETRY_DOUBLINGS
      in max MIN_RETRY_WAIT_SECONDS (min (min wait cap) MAX_RETRY_WAIT_SECONDS))"

definition clean_error :: "string \<Rightarrow> string" where
  "clean_error e = take LAST_ERROR_MAX_LENGTH (filter (\<lambda>c. of_char c \<noteq> (0::nat)) e)"

text \<open>
  \<open>bulk_update\<close> and \<open>save(update_fields)\<close> write columns of the rows in memory over the table;
  a row is found by its primary key.
\<close>

definition retry_row :: "int \<Rightarrow> int \<Rightarrow> int \<Rightarrow> string \<Rightarrow> outbox_row \<Rightarrow> outbox_row" where
  "retry_row base cap t err r =
     r\<lparr>attempts := Suc (attempts r), last_error := clean_error err,
       next_attempt_at := t + retry_wait base cap (Suc (attempts r)) * 1000000\<rparr>"

definition write_retry :: "outbox_row list \<Rightarrow> outbox_row \<Rightarrow> outbox_row" where
  "write_retry rows r =
     (case find (\<lambda>x. ob_pk x = ob_pk r) rows of
        None \<Rightarrow> r
      | Some x \<Rightarrow> r\<lparr>attempts := attempts x, last_error := last_error x, next_attempt_at := next_attempt_at x\<rparr>)"

definition set_outbox :: "(outbox_row list \<Rightarrow> outbox_row list) \<Rightarrow> drain_state \<Rightarrow> drain_state" where
  "set_outbox f s = s\<lparr>d_db := (d_db s)\<lparr>outbox_tbl := f (outbox_tbl (d_db s))\<rparr>\<rparr>"

definition keep_for_retry :: "drain_env \<Rightarrow> destination \<Rightarrow> outbox_row list \<Rightarrow> string \<Rightarrow> drain_state \<Rightarrow> drain_state" where
  "keep_for_retry env dst rows err s =
     (if rows = [] then s
      else
        let base = cfg_int (de_conf env (retry_base_key dst)) 120;
            cap = cfg_int (de_conf env (retry_max_key dst)) 600;
            t = de_wall env (d_tick s);
            rows' = map (retry_row base cap t err) rows
        in next_tick (set_outbox (map (write_retry rows')) s))"

definition mark_unrecoverable :: "outbox_row \<Rightarrow> string \<Rightarrow> drain_state \<Rightarrow> drain_state" where
  "mark_unrecoverable row err =
     set_outbox (map (\<lambda>r. if ob_pk r = ob_pk row
       then r\<lparr>attempts := Suc (attempts row), last_error := clean_error err, unrecoverable := True\<rparr> else r))"

definition log_send :: "nat \<Rightarrow> send_outcome \<Rightarrow> drain_state \<Rightarrow> drain_state" where
  "log_send pk oc s = s\<lparr>d_log := d_log s @ [(pk, oc)]\<rparr>"

definition delete_rows :: "nat list \<Rightarrow> drain_state \<Rightarrow> drain_state" where
  "delete_rows pks = set_outbox (filter (\<lambda>r. ob_pk r \<notin> set pks))"

section \<open>Sending\<close>

definition send_batch_step :: "drain_env \<Rightarrow> destination \<Rightarrow> string option \<Rightarrow> outbox_row list \<Rightarrow> drain_state \<Rightarrow> drain_state" where
  "send_batch_step env dst region batch s =
     (let delivered = de_send_batch env (d_tick s) (map (\<lambda>r. (ob_pk r, ob_payload r)) batch);
          s1 = fold (\<lambda>r. log_send (ob_pk r) (if ob_pk r \<in> set delivered then SEND_SUCCESS else SEND_FAILURE)) batch (next_tick s);
          s2 = (if delivered \<noteq> [] then delete_rows delivered (dest_success dst region s1)
                else dest_failure env dst region s1)
      in keep_for_retry env dst (filter (\<lambda>r. ob_pk r \<notin> set delivered) batch) ''not confirmed by the sender'' s2)"

fun is_RetryableError :: "exn \<Rightarrow> bool" where
  "is_RetryableError (RetryableError _) = True"
| "is_RetryableError _ = False"

fun send_one_by_one ::
  "drain_env \<Rightarrow> destination \<Rightarrow> string option \<Rightarrow> int \<Rightarrow> outbox_row list \<Rightarrow> drain_state \<Rightarrow> drain_state" where
  "send_one_by_one env dst region deadline [] s = s"
| "send_one_by_one env dst region deadline (row # rest) s =
     (let (open, s1) = dest_is_open env dst region s in
      if open then s1
      else
        let (cont, s2) = should_continue_draining env deadline s1 in
        if \<not> cont then s2
        else
          let s3 = next_tick s2;
              s4 = (case de_send env (d_tick s2) (ob_payload row) of
                      Inl e \<Rightarrow>
                        if is_RetryableError e
                        then keep_for_retry env dst [row] (de_text env e)
                               (dest_failure env dst region (log_send (ob_pk row) SEND_FAILURE s3))
                        else mark_unrecoverable row (de_text env e) (log_send (ob_pk row) SEND_UNRECOVERABLE s3)
                    | Inr _ \<Rightarrow> delete_rows [ob_pk row] (dest_success dst region (log_send (ob_pk row) SEND_SUCCESS s3)))
          in send_one_by_one env dst region deadline rest s4)"

section \<open>Draining\<close>

definition due :: "OutboxChannel \<Rightarrow> string option \<Rightarrow> int \<Rightarrow> outbox_row \<Rightarrow> bool" where
  "due ch region t r \<longleftrightarrow>
     ob_channel r = ch \<and> ob_region r = region \<and> \<not> unrecoverable r \<and> next_attempt_at r \<le> t"

definition fetch_batch :: "OutboxChannel \<Rightarrow> string option \<Rightarrow> int \<Rightarrow> db \<Rightarrow> outbox_row list" where
  "fetch_batch ch region t d =
     take BATCH_SIZE (sort_key (\<lambda>r. (attempts r, ob_created r, ob_pk r)) (filter (due ch region t) (outbox_tbl d)))"

fun drain_region ::
  "nat \<Rightarrow> drain_env \<Rightarrow> destination \<Rightarrow> OutboxChannel \<Rightarrow> string option \<Rightarrow> int \<Rightarrow> drain_state \<Rightarrow> drain_state option" where
  "drain_region 0 env dst ch region deadline s = None"
| "drain_region (Suc fuel) env dst ch region deadline s =
     (let (open, s1) = dest_is_open env dst region s in
      if open then Some s1
      else
        let (cont, s2) = should_continue_draining env deadline s1 in
        if \<not> cont then Some s2
        else
          let batch = fetch_batch ch region (de_wall env (d_tick s2)) (d_db s2);
              s3 = next_tick s2
          in if batch = [] then Some s3
             else drain_region fuel env dst ch region deadline
                    (if dest_batch dst then send_batch_step env dst region batch s3
                     else send_one_by_one env dst region deadline batch s3))"

definition region_oldest :: "OutboxChannel \<Rightarrow> int \<Rightarrow> db \<Rightarrow> string option \<Rightarrow> int" where
  "region_oldest ch t d region = Min (ob_created ` set (filter (due ch region t) (outbox_tbl d)))"

definition pending_regions :: "OutboxChannel \<Rightarrow> int \<Rightarrow> db \<Rightarrow> string option list" where
  "pending_regions ch t d =
     sort_key (region_oldest ch t d)
       (remdups (map ob_region (filter (\<lambda>r. due ch (ob_region r) t r) (outbox_tbl d))))"

fun drain_regions ::
  "nat \<Rightarrow> drain_env \<Rightarrow> destination \<Rightarrow> OutboxChannel \<Rightarrow> int \<Rightarrow> string option list \<Rightarrow> drain_state \<Rightarrow> drain_state option" where
  "drain_regions fuel env dst ch deadline [] s = Some s"
| "drain_regions fuel env dst ch deadline (region # rest) s =
     (let (cont, s1) = should_continue_draining env deadline s in
      if \<not> cont then Some s1
      else
        let (open, s2) = dest_is_open env dst region s1 in
        if open then drain_regions fuel env dst ch deadline rest s2
        else
          (case drain_region fuel env dst ch region deadline s2 of
             None \<Rightarrow> None
           | Some s3 \<Rightarrow> drain_regions fuel env dst ch deadline rest s3))"

definition drain :: "nat \<Rightarrow> drain_env \<Rightarrow> destination \<Rightarrow> OutboxChannel \<Rightarrow> drain_state \<Rightarrow> drain_state option" where
  "drain fuel env dst ch s =
     (let budget_ms = cfg_int (de_conf env (budget_key dst)) 500;
          deadline = de_mono env (d_tick s) + budget_ms * 1000;
          s1 = next_tick s;
          regions = pending_regions ch (de_wall env (d_tick s1)) (d_db s1)
      in drain_regions fuel env dst ch deadline regions (next_tick s1))"

section \<open>The task\<close>

definition kafka_dest :: destination where
  "kafka_dest = \<lparr>dest_name = KAFKA, dest_batch = True,
     dest_keys = \<lparr>failure_threshold_key = OUTBOX_KAFKA_CHANNEL_BREAKER_FAILURES,
                  pause_seconds_key = OUTBOX_KAFKA_CHANNEL_BREAKER_PAUSE_SECONDS\<rparr>,
     budget_key = OUTBOX_KAFKA_CHANNEL_BUDGET_MS, retry_base_key = OUTBOX_KAFKA_CHANNEL_RETRY_BASE_SECONDS,
     retry_max_key = OUTBOX_KAFKA_CHANNEL_RETRY_MAX_SECONDS\<rparr>"

definition workloads_dest :: destination where
  "workloads_dest = \<lparr>dest_name = WORKLOADS, dest_batch = False,
     dest_keys = \<lparr>failure_threshold_key = OUTBOX_WORKLOAD_CHANNEL_BREAKER_FAILURES,
                  pause_seconds_key = OUTBOX_WORKLOAD_CHANNEL_BREAKER_PAUSE_SECONDS\<rparr>,
     budget_key = OUTBOX_WORKLOAD_CHANNEL_BUDGET_MS, retry_base_key = OUTBOX_WORKLOAD_CHANNEL_RETRY_BASE_SECONDS,
     retry_max_key = OUTBOX_WORKLOAD_CHANNEL_RETRY_MAX_SECONDS\<rparr>"

definition outbox_channels :: "(OutboxChannel \<times> destination) list" where
  "outbox_channels = [(LICENSE_FEE, kafka_dest), (JOB_USAGE, kafka_dest), (WORKLOAD, workloads_dest)]"

fun outbox_run :: "nat \<Rightarrow> drain_env \<Rightarrow> (OutboxChannel \<times> destination) list \<Rightarrow> drain_state \<Rightarrow> drain_state option" where
  "outbox_run fuel env [] s = Some s"
| "outbox_run fuel env ((ch, dst) # rest) s =
     (if de_killed env (d_tick s) then Some (next_tick s)
      else
        (case drain fuel env dst ch (next_tick s) of
           None \<Rightarrow> None
         | Some s' \<Rightarrow> outbox_run fuel env rest s'))"

end
