(* ===== verification/Outbox_Properties.thy ===== *)
theory Outbox_Properties
  imports Outbox_Delivery
begin

text \<open>
  What a drain of the outbox guarantees: a row only disappears when the sender took it, every other row
  keeps its message, a row is tried at most once per tick, the waits between tries are bounded, and a
  drain ends.
\<close>

section \<open>Waits\<close>

text \<open>
  Whatever the configuration says, negative and huge values included, the wait before the next try
  of a row is between one second and one day; with a non-negative base it never shrinks as the
  attempts grow; and until a cap applies it is the base doubled for every attempt so far.
\<close>

theorem retry_wait_bounds:
  "1 \<le> retry_wait base cap tries \<and> retry_wait base cap tries \<le> 86400 \<and>
   (0 \<le> base \<and> tries \<le> tries' \<longrightarrow> retry_wait base cap tries \<le> retry_wait base cap tries') \<and>
   (1 \<le> base * 2 ^ (tries - 1) \<and> base * 2 ^ (tries - 1) \<le> cap \<and> base * 2 ^ (tries - 1) \<le> 86400 \<and> tries \<le> 31 \<longrightarrow>
      retry_wait base cap tries = base * 2 ^ (tries - 1))"
proof -
  define g where "g x = max 1 (min (min x cap) 86400)" for x :: int
  have eq: "retry_wait base cap n = g (base * 2 ^ min (n - 1) 30)" for n
    by (simp add: retry_wait_def g_def MIN_RETRY_WAIT_SECONDS_def MAX_RETRY_DOUBLINGS_def MAX_RETRY_WAIT_SECONDS_def Let_def)
  have g: "x \<le> y \<Longrightarrow> g x \<le> g y" "1 \<le> g x" "g x \<le> 86400" "1 \<le> x \<Longrightarrow> x \<le> cap \<Longrightarrow> x \<le> 86400 \<Longrightarrow> g x = x" for x y
    by (auto simp: g_def)
  have "base * 2 ^ min (tries - 1) 30 \<le> base * 2 ^ min (tries' - 1) 30" if "0 \<le> base" "tries \<le> tries'"
    using that by (intro mult_left_mono power_increasing) auto
  moreover have "min (tries - 1) 30 = tries - 1" if "tries \<le> 31" using that by simp
  ultimately show ?thesis unfolding eq using g by presburger
qed

theorem retry_wait_bounds_witness:
  "retry_wait 120 600 1 = 120 \<and> retry_wait 120 600 3 = 480 \<and> retry_wait 120 600 1000 = 600 \<and>
   retry_wait 120 600 3 \<le> retry_wait 120 600 1000 \<and> retry_wait (-5) 600 2 = 1"
  using retry_wait_bounds [of 120 600 3 1000] retry_wait_bounds [of 120 600 1 1] by (simp add: retry_wait_def Let_def
      MIN_RETRY_WAIT_SECONDS_def MAX_RETRY_DOUBLINGS_def MAX_RETRY_WAIT_SECONDS_def)

section \<open>How the table evolves\<close>

text \<open>\<open>kept r r'\<close>: the row still carries the same message, and an unrecoverable row stays one.\<close>

definition kept :: "outbox_row \<Rightarrow> outbox_row \<Rightarrow> bool" where
  "kept r r' \<longleftrightarrow> ob_pk r' = ob_pk r \<and> ob_job r' = ob_job r \<and> ob_channel r' = ob_channel r \<and> ob_region r' = ob_region r \<and>
     ob_payload r' = ob_payload r \<and> ob_created r' = ob_created r \<and> (unrecoverable r \<longrightarrow> unrecoverable r')"

text \<open>A row that no fetch before \<open>t\<close> can find.\<close>

definition spent :: "int \<Rightarrow> outbox_row \<Rightarrow> bool" where
  "spent t r \<longleftrightarrow> unrecoverable r \<or> t \<le> next_attempt_at r"

definition confirmed_in :: "(nat \<times> send_outcome) list \<Rightarrow> outbox_row \<Rightarrow> bool" where
  "confirmed_in new r \<longleftrightarrow> (ob_pk r, SEND_SUCCESS) \<in> set new"

definition tried :: "(nat \<times> send_outcome) list \<Rightarrow> outbox_row \<Rightarrow> bool" where
  "tried new r \<longleftrightarrow> ob_pk r \<in> fst ` set new"

text \<open>
  \<open>window env T\<close>: the whole tick is over within a second, so that a row tried in it is not due
  again before it ends.
\<close>

definition window :: "drain_env \<Rightarrow> int \<Rightarrow> bool" where
  "window env T \<longleftrightarrow> (\<forall>n. T \<le> de_wall env n \<and> de_wall env n < T + 1000000)"

definition rows_of :: "drain_state \<Rightarrow> outbox_row list" where
  "rows_of s = outbox_tbl (d_db s)"

text \<open>
  \<open>new\<close> is what was logged: rows confirmed in it are deleted, every other row is kept, a row that was
  not tried is untouched, and only recoverable rows of the channels \<open>chs\<close> are tried; within a window no row is
  tried twice.
\<close>

definition evolution ::
  "drain_env \<Rightarrow> OutboxChannel set \<Rightarrow> int \<Rightarrow> drain_state \<Rightarrow> drain_state \<Rightarrow> (nat \<times> send_outcome) list \<Rightarrow> (outbox_row \<Rightarrow> outbox_row) \<Rightarrow> bool" where
  "evolution env chs T s s' new f \<longleftrightarrow>
     d_log s' = d_log s @ new \<and> d_db s' = (d_db s)\<lparr>outbox_tbl := rows_of s'\<rparr> \<and>
     rows_of s' = map f (filter (\<lambda>r. \<not> confirmed_in new r) (rows_of s)) \<and>
     (\<forall>r. kept r (f r)) \<and> (\<forall>r. \<not> tried new r \<longrightarrow> f r = r) \<and>
     (\<forall>pk \<in> fst ` set new. \<exists>r \<in> set (rows_of s). ob_pk r = pk \<and> ob_channel r \<in> chs \<and> \<not> unrecoverable r \<and>
        (window env T \<longrightarrow> \<not> spent (T + 1000000) r)) \<and>
     (window env T \<longrightarrow> distinct (map fst new) \<and> (\<forall>r. tried new r \<and> \<not> confirmed_in new r \<longrightarrow> spent (T + 1000000) (f r)))"

definition evolves :: "drain_env \<Rightarrow> OutboxChannel set \<Rightarrow> int \<Rightarrow> drain_state \<Rightarrow> drain_state \<Rightarrow> bool" where
  "evolves env chs T s s' \<longleftrightarrow> (distinct (map ob_pk (rows_of s)) \<longrightarrow> (\<exists>new f. evolution env chs T s s' new f))"

lemma kept_trans: "kept a b \<Longrightarrow> kept b c \<Longrightarrow> kept a c"
  by (auto simp: kept_def)

lemma kept_refl [simp]: "kept r r"
  by (simp add: kept_def)

lemma evolution_pks:
  assumes "evolution env chs T s s' new f"
  shows "map ob_pk (rows_of s') = map ob_pk (filter (\<lambda>r. \<not> confirmed_in new r) (rows_of s))"
  using assms by (simp add: evolution_def kept_def)

lemma evolution_distinct:
  "evolution env chs T s s' new f \<Longrightarrow> distinct (map ob_pk (rows_of s)) \<Longrightarrow> distinct (map ob_pk (rows_of s'))"
  by (simp add: evolution_pks distinct_map_filter)

lemma evolves_same:
  assumes "d_db s' = d_db s" "d_log s' = d_log s"
  shows "evolves env chs T s s'"
  unfolding evolves_def
  by (rule impI, rule exI [of _ "[]"], rule exI [of _ id])
    (use assms in \<open>simp add: evolution_def confirmed_in_def tried_def rows_of_def\<close>)

lemma evolution_trans:
  assumes e1: "evolution env chs T s s1 n1 f1" and e2: "evolution env chs T s1 s2 n2 f2"
    and dist: "distinct (map ob_pk (rows_of s))"
  shows "evolution env chs T s s2 (n1 @ n2) (\<lambda>r. if confirmed_in n1 r then r else f2 (f1 r))"
proof -
  let ?f = "\<lambda>r. if confirmed_in n1 r then r else f2 (f1 r)"
  have pk1: "ob_pk (f1 r) = ob_pk r" for r using e1 by (simp add: evolution_def kept_def)
  have c2: "confirmed_in n2 (f1 r) = confirmed_in n2 r" "tried n2 (f1 r) = tried n2 r" for r
    by (simp_all add: confirmed_in_def tried_def pk1)
  have c12: "confirmed_in (n1 @ n2) r \<longleftrightarrow> confirmed_in n1 r \<or> confirmed_in n2 r"
      "tried (n1 @ n2) r \<longleftrightarrow> tried n1 r \<or> tried n2 r" for r
    by (auto simp: confirmed_in_def tried_def)
  have rows: "rows_of s2 = map ?f (filter (\<lambda>r. \<not> confirmed_in (n1 @ n2) r) (rows_of s))"
  proof -
    have "rows_of s2 = map f2 (filter (\<lambda>r. \<not> confirmed_in n2 r) (map f1 (filter (\<lambda>r. \<not> confirmed_in n1 r) (rows_of s))))"
      using e1 e2 by (simp add: evolution_def)
    also have "\<dots> = map (\<lambda>r. f2 (f1 r)) (filter (\<lambda>r. \<not> confirmed_in (n1 @ n2) r) (rows_of s))"
      by (simp add: filter_map comp_def c2 c12 conj_commute)
    also have "\<dots> = map ?f (filter (\<lambda>r. \<not> confirmed_in (n1 @ n2) r) (rows_of s))"
      by (rule map_cong) (auto simp: c12)
    finally show ?thesis .
  qed
  have conf_tried: "confirmed_in n1 r \<Longrightarrow> tried n1 r" for r by (force simp: confirmed_in_def tried_def)
  have src1: "\<exists>r \<in> set (rows_of s). ob_pk r = pk \<and> ob_channel r \<in> chs \<and> \<not> unrecoverable r \<and>
      (window env T \<longrightarrow> \<not> spent (T + 1000000) r)" if "pk \<in> fst ` set n1" for pk
    using e1 that unfolding evolution_def by blast
  have src2: "\<exists>r \<in> set (rows_of s). ob_pk r = pk \<and> \<not> confirmed_in n1 r \<and> ob_channel r \<in> chs \<and> \<not> unrecoverable r \<and>
      (window env T \<longrightarrow> \<not> tried n1 r \<and> \<not> spent (T + 1000000) r)" if pk: "pk \<in> fst ` set n2" for pk
  proof -
    obtain r1 where r1: "r1 \<in> set (rows_of s1)" "ob_pk r1 = pk" "ob_channel r1 \<in> chs" "\<not> unrecoverable r1"
        "window env T \<Longrightarrow> \<not> spent (T + 1000000) r1"
      using e2 pk unfolding evolution_def by blast
    then obtain r where r: "r \<in> set (rows_of s)" "\<not> confirmed_in n1 r" "r1 = f1 r" using e1 by (auto simp: evolution_def)
    have k: "kept r (f1 r)" using e1 by (simp add: evolution_def)
    have "window env T \<Longrightarrow> \<not> tried n1 r" using e1 r r1(5) by (auto simp: evolution_def)
    moreover have "\<not> tried n1 r \<Longrightarrow> f1 r = r" using e1 by (simp add: evolution_def)
    ultimately show ?thesis using r r1 k by (intro bexI [of _ r]) (auto simp: kept_def)
  qed
  have fresh: "pk \<notin> fst ` set n1" if w: "window env T" and "pk \<in> fst ` set n2" for pk
    using src2 [OF that(2)] w by (auto simp: tried_def)
  show ?thesis
    unfolding evolution_def
  proof (intro conjI allI ballI impI)
    show "d_log s2 = d_log s @ n1 @ n2" using e1 e2 by (simp add: evolution_def)
    have "d_db s1 = (d_db s)\<lparr>outbox_tbl := rows_of s1\<rparr>" "d_db s2 = (d_db s1)\<lparr>outbox_tbl := rows_of s2\<rparr>"
      using e1 e2 unfolding evolution_def by blast+
    then show "d_db s2 = (d_db s)\<lparr>outbox_tbl := rows_of s2\<rparr>" by simp
    show "rows_of s2 = map ?f (filter (\<lambda>r. \<not> confirmed_in (n1 @ n2) r) (rows_of s))" by (rule rows)
  next
    fix r show "kept r (?f r)"
      using e1 e2 kept_trans [of r "f1 r" "f2 (f1 r)"] by (auto simp: evolution_def)
  next
    fix r assume "\<not> tried (n1 @ n2) r"
    then show "?f r = r" using e1 e2 c2(2) [of r] by (simp add: evolution_def c12)
  next
    fix pk assume "pk \<in> fst ` set (n1 @ n2)"
    then show "\<exists>r \<in> set (rows_of s). ob_pk r = pk \<and> ob_channel r \<in> chs \<and> \<not> unrecoverable r \<and>
        (window env T \<longrightarrow> \<not> spent (T + 1000000) r)"
      using src1 [of pk] src2 [of pk] by auto
  next
    assume w: "window env T"
    then show "distinct (map fst (n1 @ n2))" using e1 e2 fresh by (auto simp: evolution_def)
  next
    fix r assume w: "window env T" and t: "tried (n1 @ n2) r \<and> \<not> confirmed_in (n1 @ n2) r"
    show "spent (T + 1000000) (?f r)"
    proof (cases "tried n2 r")
      case True
      then show ?thesis using e2 w t c2 [of r] by (auto simp: evolution_def c12)
    next
      case False
      then have "f2 (f1 r) = f1 r" using e2 c2 [of r] by (simp add: evolution_def)
      then show ?thesis using e1 w t False by (auto simp: evolution_def c12)
    qed
  qed
qed

lemma evolves_trans: "evolves env chs T s s1 \<Longrightarrow> evolves env chs T s1 s2 \<Longrightarrow> evolves env chs T s s2"
  unfolding evolves_def using evolution_trans evolution_distinct by meson

section \<open>Each send is an evolution\<close>

text \<open>
  One round of attempts on the rows of \<open>batch\<close>, taken from the table, each tried once with outcome
  \<open>oc\<close>; \<open>f\<close> is what is written to the rows that were not confirmed.
\<close>

lemma evolves_round:
  assumes "d_log s' = d_log s @ map (\<lambda>r. (ob_pk r, oc r)) batch"
    and "d_db s' = (d_db s)\<lparr>outbox_tbl := rows_of s'\<rparr>"
    and "rows_of s' = map f (filter (\<lambda>r. \<not> confirmed_in (map (\<lambda>r. (ob_pk r, oc r)) batch) r) (rows_of s))"
    and "\<And>r. kept r (f r)" "\<And>r. ob_pk r \<notin> ob_pk ` set batch \<Longrightarrow> f r = r"
    and "set batch \<subseteq> set (rows_of s)" "distinct (map ob_pk batch)"
    and "\<And>r. r \<in> set batch \<Longrightarrow> due ch (ob_region r) t r" "window env T \<Longrightarrow> t < T + 1000000"
    and "\<And>r. window env T \<Longrightarrow> ob_pk r \<in> ob_pk ` set batch \<Longrightarrow> spent (T + 1000000) (f r) \<or>
      confirmed_in (map (\<lambda>r. (ob_pk r, oc r)) batch) r"
  shows "evolves env {ch} T s s'"
proof -
  have "evolution env {ch} T s s' (map (\<lambda>r. (ob_pk r, oc r)) batch) f"
    unfolding evolution_def
  proof (intro conjI)
    show "\<forall>pk \<in> fst ` set (map (\<lambda>r. (ob_pk r, oc r)) batch). \<exists>r \<in> set (rows_of s). ob_pk r = pk \<and> ob_channel r \<in> {ch} \<and>
        \<not> unrecoverable r \<and> (window env T \<longrightarrow> \<not> spent (T + 1000000) r)"
    proof
      fix pk assume "pk \<in> fst ` set (map (\<lambda>r. (ob_pk r, oc r)) batch)"
      then obtain r where r: "r \<in> set batch" "ob_pk r = pk" by auto
      have "due ch (ob_region r) t r" using r assms(8) by blast
      then show "\<exists>r \<in> set (rows_of s). ob_pk r = pk \<and> ob_channel r \<in> {ch} \<and> \<not> unrecoverable r \<and>
          (window env T \<longrightarrow> \<not> spent (T + 1000000) r)"
        using assms(6,9) r by (intro bexI [of _ r]) (auto simp: due_def spent_def)
    qed
    show "\<forall>r. \<not> tried (map (\<lambda>r. (ob_pk r, oc r)) batch) r \<longrightarrow> f r = r"
      using assms(5) by (auto simp: tried_def image_iff)
    show "window env T \<longrightarrow> distinct (map fst (map (\<lambda>r. (ob_pk r, oc r)) batch)) \<and>
        (\<forall>r. tried (map (\<lambda>r. (ob_pk r, oc r)) batch) r \<and> \<not> confirmed_in (map (\<lambda>r. (ob_pk r, oc r)) batch) r \<longrightarrow>
           spent (T + 1000000) (f r))"
    proof (intro impI conjI allI)
      show "distinct (map fst (map (\<lambda>r. (ob_pk r, oc r)) batch))" using assms(7) by (simp add: comp_def)
      fix r assume w: "window env T"
        and r: "tried (map (\<lambda>r. (ob_pk r, oc r)) batch) r \<and> \<not> confirmed_in (map (\<lambda>r. (ob_pk r, oc r)) batch) r"
      then have "ob_pk r \<in> ob_pk ` set batch" by (auto simp: tried_def)
      from assms(10) [OF w this] r show "spent (T + 1000000) (f r)" by blast
    qed
  qed (use assms(1-4) in auto)
  then show ?thesis unfolding evolves_def by blast
qed

lemma breaker_frame [simp]:
  "d_db (dest_success dst rg s) = d_db s" "d_log (dest_success dst rg s) = d_log s"
  "d_db (dest_failure env dst rg s) = d_db s" "d_log (dest_failure env dst rg s) = d_log s"
  "d_db (snd (dest_is_open env dst rg s)) = d_db s" "d_log (snd (dest_is_open env dst rg s)) = d_log s"
  "d_db (next_tick s) = d_db s" "d_log (next_tick s) = d_log s"
  "d_db (snd (should_continue_draining env dl s)) = d_db s" "d_log (snd (should_continue_draining env dl s)) = d_log s"
  by (simp_all add: dest_success_def dest_failure_def dest_is_open_def with_breaker_def next_tick_def
      should_continue_draining_def Let_def split_def)

lemma outbox_frame [simp]:
  "d_log (set_outbox g s) = d_log s" "d_log (keep_for_retry env dst rows err s) = d_log s"
  "d_log (mark_unrecoverable row err s) = d_log s" "d_log (delete_rows pks s) = d_log s"
  "d_db (log_send pk oc s) = d_db s" "d_log (log_send pk oc s) = d_log s @ [(pk, oc)]"
  "rows_of (set_outbox g s) = g (rows_of s)"
  "d_db (set_outbox g s) = (d_db s)\<lparr>outbox_tbl := g (rows_of s)\<rparr>"
  by (simp_all add: set_outbox_def keep_for_retry_def mark_unrecoverable_def delete_rows_def log_send_def rows_of_def
      Let_def next_tick_def)

lemma rows_of_frame [simp]:
  "rows_of (dest_success dst rg s) = rows_of s" "rows_of (dest_failure env dst rg s) = rows_of s"
  "rows_of (next_tick s) = rows_of s" "rows_of (log_send pk oc s) = rows_of s"
  by (simp_all add: rows_of_def)

lemma write_retry_kept [simp]: "kept r (write_retry rows r)"
  by (auto simp: write_retry_def kept_def split: option.splits)

lemma write_retry_other: "ob_pk r \<notin> ob_pk ` set rows \<Longrightarrow> write_retry rows r = r"
proof -
  assume "ob_pk r \<notin> ob_pk ` set rows"
  then have "find (\<lambda>x. ob_pk x = ob_pk r) rows = None" by (fastforce simp: find_None_iff image_iff)
  then show "write_retry rows r = r" by (simp add: write_retry_def)
qed

lemma retry_wait_pos: "1 \<le> retry_wait base cap n"
  by (simp add: retry_wait_def MIN_RETRY_WAIT_SECONDS_def Let_def)

lemma write_retry_spent:
  assumes "ob_pk r \<in> ob_pk ` set rows" "T \<le> t"
  shows "spent (T + 1000000) (write_retry (map (retry_row base cap t err) rows) r)"
proof -
  have "find (\<lambda>x. ob_pk x = ob_pk r) (map (retry_row base cap t err) rows) \<noteq> None"
    using assms(1) by (auto simp: find_None_iff retry_row_def image_iff)
  then obtain x where x: "find (\<lambda>x. ob_pk x = ob_pk r) (map (retry_row base cap t err) rows) = Some x" by blast
  then obtain y where "x = retry_row base cap t err y" by (auto simp: find_Some_iff)
  then have "t + 1000000 \<le> next_attempt_at x" using retry_wait_pos [of base cap] by (auto simp: retry_row_def)
  then show ?thesis using x assms(2) by (simp add: write_retry_def spent_def)
qed

lemma keep_for_retry_rows:
  "\<exists>t base cap. rows_of (keep_for_retry env dst rows err s) =
     map (write_retry (map (retry_row base cap t err) rows)) (rows_of s) \<and> (window env T \<longrightarrow> T \<le> t) \<and>
     d_db (keep_for_retry env dst rows err s) = (d_db s)\<lparr>outbox_tbl := rows_of (keep_for_retry env dst rows err s)\<rparr>"
proof (cases "rows = []")
  case True
  have "write_retry [] = id" by (auto simp: write_retry_def)
  then show ?thesis using True by (intro exI [of _ T]) (auto simp: keep_for_retry_def rows_of_def)
next
  case False
  then show ?thesis
    by (intro exI [of _ "de_wall env (d_tick s)"] exI [of _ "cfg_int (de_conf env (retry_base_key dst)) 120"]
        exI [of _ "cfg_int (de_conf env (retry_max_key dst)) 600"])
      (auto simp: keep_for_retry_def window_def Let_def)
qed

text \<open>The contract of the senders, as the drain relies on it.\<close>

definition batches_honest :: "drain_env \<Rightarrow> bool" where
  "batches_honest env \<longleftrightarrow> (\<forall>n. batch_sender (de_send_batch env n))"

lemma fold_log:
  "d_log (fold (\<lambda>r. log_send (ob_pk r) (oc r)) batch s) = d_log s @ map (\<lambda>r. (ob_pk r, oc r)) batch \<and>
   d_db (fold (\<lambda>r. log_send (ob_pk r) (oc r)) batch s) = d_db s"
  by (induction batch arbitrary: s) auto

lemma send_batch_evolves:
  assumes honest: "batches_honest env" and sub: "set batch \<subseteq> set (rows_of s)" and dist: "distinct (map ob_pk batch)"
    and due: "\<And>r. r \<in> set batch \<Longrightarrow> due ch (ob_region r) t r" and t: "window env T \<Longrightarrow> t < T + 1000000"
  shows "evolves env {ch} T s (send_batch_step env dst rg batch s)"
proof -
  define delivered where "delivered = de_send_batch env (d_tick s) (map (\<lambda>r. (ob_pk r, ob_payload r)) batch)"
  define oc where "oc r = (if ob_pk r \<in> set delivered then SEND_SUCCESS else SEND_FAILURE)" for r :: outbox_row
  define rest where "rest = filter (\<lambda>r. ob_pk r \<notin> set delivered) batch"
  define s1 where "s1 = fold (\<lambda>r. log_send (ob_pk r) (oc r)) batch (next_tick s)"
  define s2 where "s2 = (if delivered \<noteq> [] then delete_rows delivered (dest_success dst rg s1) else dest_failure env dst rg s1)"
  let ?s' = "keep_for_retry env dst rest ''not confirmed by the sender'' s2"
  let ?new = "map (\<lambda>r. (ob_pk r, oc r)) batch"
  have step: "send_batch_step env dst rg batch s = ?s'"
    by (simp add: send_batch_step_def delivered_def s1_def s2_def rest_def oc_def Let_def)
  have given: "set delivered \<subseteq> ob_pk ` set batch"
    using batch_sender.delivered_given [of "de_send_batch env (d_tick s)" "map (\<lambda>r. (ob_pk r, ob_payload r)) batch"] honest
    by (force simp: batches_honest_def delivered_def)
  have conf: "confirmed_in ?new r \<longleftrightarrow> ob_pk r \<in> set delivered" for r
  proof
    assume d: "ob_pk r \<in> set delivered"
    then obtain x where x: "x \<in> set batch" "ob_pk x = ob_pk r" using given by (metis imageE subsetD)
    then have "(ob_pk r, SEND_SUCCESS) = (ob_pk x, oc x)" using d by (simp add: oc_def)
    then show "confirmed_in ?new r" unfolding confirmed_in_def set_map by (rule image_eqI) (rule x(1))
  qed (auto simp: confirmed_in_def oc_def split: if_splits)
  have logs: "d_log s1 = d_log s @ ?new" "d_db s1 = d_db s" using fold_log [of oc batch "next_tick s"] by (simp_all add: s1_def)
  have s2: "d_log s2 = d_log s @ ?new" "rows_of s2 = filter (\<lambda>r. \<not> confirmed_in ?new r) (rows_of s)"
      "d_db s2 = (d_db s)\<lparr>outbox_tbl := rows_of s2\<rparr>"
    using logs by (auto simp: s2_def delete_rows_def conf rows_of_def)
  obtain tt base cap where k: "rows_of ?s' = map (write_retry (map (retry_row base cap tt ''not confirmed by the sender'') rest)) (rows_of s2)"
      "window env T \<longrightarrow> T \<le> tt" "d_db ?s' = (d_db s2)\<lparr>outbox_tbl := rows_of ?s'\<rparr>"
    using keep_for_retry_rows [of env dst rest _ s2 T] by blast
  let ?f = "write_retry (map (retry_row base cap tt ''not confirmed by the sender'') rest)"
  have pks: "ob_pk ` set (map (retry_row base cap tt e) rest) = ob_pk ` set rest" for e
    by (simp add: image_image retry_row_def)
  show ?thesis
    unfolding step
  proof (rule evolves_round [of _ _ oc batch ?f])
    show "d_log ?s' = d_log s @ ?new" using s2 by simp
    show "d_db ?s' = (d_db s)\<lparr>outbox_tbl := rows_of ?s'\<rparr>" using k(3) s2(3) by simp
    show "rows_of ?s' = map ?f (filter (\<lambda>r. \<not> confirmed_in ?new r) (rows_of s))" using k(1) s2(2) by simp
    show "?f r = r" if "ob_pk r \<notin> ob_pk ` set batch" for r
      by (rule write_retry_other) (use that pks in \<open>auto simp: rest_def\<close>)
    show "spent (T + 1000000) (?f r) \<or> confirmed_in ?new r" if "window env T" "ob_pk r \<in> ob_pk ` set batch" for r
    proof (cases "ob_pk r \<in> set delivered")
      case False
      then have "ob_pk r \<in> ob_pk ` set rest" using that(2) by (force simp: rest_def)
      then show ?thesis using write_retry_spent k(2) that(1) by blast
    qed (simp add: conf)
  qed (use sub dist due t in auto)
qed

lemma send_one_evolves:
  assumes row: "row \<in> set (rows_of s)" and due: "due ch (ob_region row) t row" and t: "window env T \<Longrightarrow> t < T + 1000000"
    and base: "d_db s0 = d_db s" "d_log s0 = d_log s"
  shows "evolves env {ch} T s (case r of
      Inl e \<Rightarrow> if is_RetryableError e
        then keep_for_retry env dst [row] (de_text env e) (dest_failure env dst rg (log_send (ob_pk row) SEND_FAILURE s0))
        else mark_unrecoverable row (de_text env e) (log_send (ob_pk row) SEND_UNRECOVERABLE s0)
    | Inr _ \<Rightarrow> delete_rows [ob_pk row] (dest_success dst rg (log_send (ob_pk row) SEND_SUCCESS s0)))"
proof -
  have r0: "rows_of s0 = rows_of s" using base by (simp add: rows_of_def)
  have none: "oc \<noteq> SEND_SUCCESS \<Longrightarrow> filter (\<lambda>r. \<not> confirmed_in [(ob_pk row, oc)] r) xs = xs" for oc xs
    by (simp add: confirmed_in_def)
  have gone: "confirmed_in [(ob_pk row, SEND_SUCCESS)] r \<longleftrightarrow> ob_pk r = ob_pk row" for r
    by (auto simp: confirmed_in_def)
  consider e where "r = Inl e" "is_RetryableError e" | e where "r = Inl e" "\<not> is_RetryableError e" | a where "r = Inr a"
    by (cases r) auto
  then show ?thesis
  proof cases
    case (1 e)
    let ?s2 = "dest_failure env dst rg (log_send (ob_pk row) SEND_FAILURE s0)"
    let ?s' = "keep_for_retry env dst [row] (de_text env e) ?s2"
    obtain tt b c where k: "rows_of ?s' = map (write_retry (map (retry_row b c tt (de_text env e)) [row])) (rows_of ?s2)"
        "window env T \<longrightarrow> T \<le> tt" "d_db ?s' = (d_db ?s2)\<lparr>outbox_tbl := rows_of ?s'\<rparr>"
      using keep_for_retry_rows [of env dst "[row]" _ ?s2 T] by blast
    have "evolves env {ch} T s ?s'"
    proof (rule evolves_round [of _ _ "\<lambda>_. SEND_FAILURE" "[row]" "write_retry (map (retry_row b c tt (de_text env e)) [row])"])
      show "write_retry (map (retry_row b c tt (de_text env e)) [row]) r = r" if "ob_pk r \<notin> ob_pk ` set [row]" for r
        by (rule write_retry_other) (use that in \<open>auto simp: retry_row_def\<close>)
      show "spent (T + 1000000) (write_retry (map (retry_row b c tt (de_text env e)) [row]) r) \<or>
          confirmed_in (map (\<lambda>r. (ob_pk r, SEND_FAILURE)) [row]) r"
        if "window env T" "ob_pk r \<in> ob_pk ` set [row]" for r
        using write_retry_spent [OF that(2)] k(2) that(1) by blast
    qed (use k row due t base in \<open>simp_all add: none r0\<close>)
    then show ?thesis using 1 by simp
  next
    case (2 e)
    let ?f = "\<lambda>r. if ob_pk r = ob_pk row then r\<lparr>attempts := Suc (attempts row), last_error := clean_error (de_text env e),
        unrecoverable := True\<rparr> else r"
    have "evolves env {ch} T s (mark_unrecoverable row (de_text env e) (log_send (ob_pk row) SEND_UNRECOVERABLE s0))"
      by (rule evolves_round [of _ _ "\<lambda>_. SEND_UNRECOVERABLE" "[row]" ?f])
        (use row due t base in \<open>auto simp: none r0 mark_unrecoverable_def kept_def spent_def\<close>)
    then show ?thesis using 2 by simp
  next
    case (3 a)
    have "evolves env {ch} T s (delete_rows [ob_pk row] (dest_success dst rg (log_send (ob_pk row) SEND_SUCCESS s0)))"
      by (rule evolves_round [of _ _ "\<lambda>_. SEND_SUCCESS" "[row]" id])
        (use row due t base in \<open>auto simp: gone r0 delete_rows_def\<close>)
    then show ?thesis using 3 by simp
  qed
qed

lemma send_one_others:
  assumes "r \<in> set (rows_of s0)" "ob_pk r \<noteq> ob_pk row"
  shows "r \<in> set (rows_of (case ans of
      Inl e \<Rightarrow> if is_RetryableError e
        then keep_for_retry env dst [row] (de_text env e) (dest_failure env dst rg (log_send (ob_pk row) SEND_FAILURE s0))
        else mark_unrecoverable row (de_text env e) (log_send (ob_pk row) SEND_UNRECOVERABLE s0)
    | Inr _ \<Rightarrow> delete_rows [ob_pk row] (dest_success dst rg (log_send (ob_pk row) SEND_SUCCESS s0))))"
proof -
  have w: "write_retry (map (retry_row b c tt err) [row]) r = r" for b c tt err
    by (rule write_retry_other) (use assms(2) in \<open>auto simp: retry_row_def\<close>)
  have "r \<in> set (rows_of (keep_for_retry env dst [row] err s1))" if "rows_of s1 = rows_of s0" for err s1
  proof -
    obtain tt b c where "rows_of (keep_for_retry env dst [row] err s1) =
        map (write_retry (map (retry_row b c tt err) [row])) (rows_of s1)"
      using keep_for_retry_rows [of env dst "[row]" err s1 0] by blast
    then show ?thesis using assms(1) w [of b c tt err] that by (metis image_eqI list.set_map)
  qed
  then show ?thesis
    using assms by (auto simp: mark_unrecoverable_def delete_rows_def image_iff split: sum.splits)
qed

lemma send_one_by_one_evolves:
  assumes "set batch \<subseteq> set (rows_of s)" "distinct (map ob_pk batch)"
    and "\<And>r. r \<in> set batch \<Longrightarrow> due ch (ob_region r) t r" "window env T \<Longrightarrow> t < T + 1000000"
  shows "evolves env {ch} T s (send_one_by_one env dst rg dl batch s)"
  using assms
proof (induction batch arbitrary: s)
  case Nil
  then show ?case by (simp add: evolves_same)
next
  case (Cons row rest)
  obtain op s1 where o: "dest_is_open env dst rg s = (op, s1)" by fastforce
  obtain ct s2 where c: "should_continue_draining env dl s1 = (ct, s2)" by fastforce
  have f1: "d_db s1 = d_db s" "d_log s1 = d_log s" using breaker_frame(5,6) [of env dst rg s] o by simp_all
  have f2: "d_db s2 = d_db s" "d_log s2 = d_log s" using breaker_frame(9,10) [of env dl s1] c f1 by simp_all
  consider "op" | "\<not> op" "\<not> ct" | "\<not> op" "ct" by blast
  then show ?case
  proof cases
    case 1
    then show ?thesis using o f1 by (simp add: evolves_same)
  next
    case 2
    then show ?thesis using o c f2 by (simp add: evolves_same)
  next
    case 3
    define s4 where "s4 = (case de_send env (d_tick s2) (ob_payload row) of
        Inl e \<Rightarrow> if is_RetryableError e
          then keep_for_retry env dst [row] (de_text env e) (dest_failure env dst rg (log_send (ob_pk row) SEND_FAILURE (next_tick s2)))
          else mark_unrecoverable row (de_text env e) (log_send (ob_pk row) SEND_UNRECOVERABLE (next_tick s2))
      | Inr _ \<Rightarrow> delete_rows [ob_pk row] (dest_success dst rg (log_send (ob_pk row) SEND_SUCCESS (next_tick s2))))"
    have eq: "send_one_by_one env dst rg dl (row # rest) s = send_one_by_one env dst rg dl rest s4"
      using 3 o c by (simp add: s4_def Let_def)
    have first: "evolves env {ch} T s s4"
      unfolding s4_def by (rule send_one_evolves) (use Cons.prems f2 in auto)
    have "set rest \<subseteq> set (rows_of s4)"
    proof
      fix r assume r: "r \<in> set rest"
      then have "ob_pk r \<noteq> ob_pk row" using Cons.prems(2) by (auto simp: image_iff)
      then show "r \<in> set (rows_of s4)"
        unfolding s4_def using r Cons.prems(1) f2 by (intro send_one_others) (auto simp: rows_of_def)
    qed
    then have "evolves env {ch} T s4 (send_one_by_one env dst rg dl rest s4)"
      using Cons.IH [of s4] Cons.prems by simp
    with first show ?thesis unfolding eq by (rule evolves_trans)
  qed
qed

lemma fetch_batch_facts:
  "set (fetch_batch ch rg t d) \<subseteq> set (outbox_tbl d)" "r \<in> set (fetch_batch ch rg t d) \<Longrightarrow> due ch rg t r"
  "distinct (map ob_pk (outbox_tbl d)) \<Longrightarrow> distinct (map ob_pk (fetch_batch ch rg t d))"
proof -
  have sub: "r \<in> set (fetch_batch ch rg t d) \<Longrightarrow> r \<in> set (filter (due ch rg t) (outbox_tbl d))" for r
    unfolding fetch_batch_def by (drule in_set_takeD) simp
  then show "set (fetch_batch ch rg t d) \<subseteq> set (outbox_tbl d)" "r \<in> set (fetch_batch ch rg t d) \<Longrightarrow> due ch rg t r"
    by auto
  assume "distinct (map ob_pk (outbox_tbl d))"
  then have "distinct (map ob_pk (filter (due ch rg t) (outbox_tbl d)))" by (simp add: distinct_map_filter)
  then have "distinct (map ob_pk (sort_key (\<lambda>r. (attempts r, ob_created r, ob_pk r)) (filter (due ch rg t) (outbox_tbl d))))"
    by (simp add: distinct_map)
  then show "distinct (map ob_pk (fetch_batch ch rg t d))"
    unfolding fetch_batch_def take_map [symmetric] by (rule distinct_take)
qed

lemma evolves_if_distinct:
  "(distinct (map ob_pk (rows_of s)) \<Longrightarrow> evolves env {ch} T s s') \<Longrightarrow> evolves env {ch} T s s'"
  by (auto simp: evolves_def)

lemma drain_region_evolves:
  assumes "batches_honest env"
  shows "drain_region fuel env dst ch rg dl s = Some s' \<Longrightarrow> evolves env {ch} T s s'"
proof (induction fuel arbitrary: s)
  case 0
  then show ?case by simp
next
  case (Suc fuel)
  obtain op s1 where o: "dest_is_open env dst rg s = (op, s1)" by fastforce
  obtain ct s2 where c: "should_continue_draining env dl s1 = (ct, s2)" by fastforce
  have f1: "d_db s1 = d_db s" "d_log s1 = d_log s" using breaker_frame(5,6) [of env dst rg s] o by simp_all
  have f2: "d_db s2 = d_db s" "d_log s2 = d_log s" using breaker_frame(9,10) [of env dl s1] c f1 by simp_all
  define t where "t = de_wall env (d_tick s2)"
  define batch where "batch = fetch_batch ch rg t (d_db s2)"
  define s3 where "s3 = next_tick s2"
  define s4 where "s4 = (if dest_batch dst then send_batch_step env dst rg batch s3 else send_one_by_one env dst rg dl batch s3)"
  have f3: "d_db s3 = d_db s" "d_log s3 = d_log s" using f2 by (simp_all add: s3_def)
  consider "op \<or> \<not> ct \<or> batch = []" | "\<not> op" "ct" "batch \<noteq> []" by blast
  then show ?case
  proof cases
    case 1
    then have "s' = s1 \<or> s' = s2 \<or> s' = s3"
      using Suc.prems o c by (auto simp: Let_def batch_def t_def s3_def split: if_splits)
    then show ?thesis using f1 f2 f3 by (auto intro: evolves_same)
  next
    case 2
    have rest: "drain_region fuel env dst ch rg dl s4 = Some s'"
      using Suc.prems o c 2 unfolding drain_region.simps Let_def s4_def s3_def batch_def t_def
      by (simp split del: if_split)
    have w: "window env T \<Longrightarrow> t < T + 1000000" by (simp add: window_def t_def)
    have "evolves env {ch} T s s4"
    proof (rule evolves_if_distinct)
      assume "distinct (map ob_pk (rows_of s))"
      then have b: "set batch \<subseteq> set (rows_of s3)" "distinct (map ob_pk batch)"
          "\<And>r. r \<in> set batch \<Longrightarrow> due ch (ob_region r) t r"
        using fetch_batch_facts [where ch = ch and rg = rg and t = t and d = "d_db s2"] f2 f3
        by (auto simp: batch_def rows_of_def due_def)
      have "evolves env {ch} T s3 s4"
        unfolding s4_def using send_batch_evolves [OF assms b w, where dst = dst] send_one_by_one_evolves [OF b w] by simp
      with evolves_same [OF f3] show "evolves env {ch} T s s4" by (rule evolves_trans)
    qed
    then show ?thesis using Suc.IH [OF rest] by (rule evolves_trans)
  qed
qed

lemma drain_regions_evolves:
  assumes "batches_honest env"
  shows "drain_regions fuel env dst ch dl rgs s = Some s' \<Longrightarrow> evolves env {ch} T s s'"
proof (induction rgs arbitrary: s)
  case Nil
  then show ?case by (simp add: evolves_same)
next
  case (Cons rg rgs)
  obtain ct s1 where c: "should_continue_draining env dl s = (ct, s1)" by fastforce
  obtain op s2 where o: "dest_is_open env dst rg s1 = (op, s2)" by fastforce
  have f1: "d_db s1 = d_db s" "d_log s1 = d_log s" using breaker_frame(9,10) [of env dl s] c by simp_all
  have f2: "d_db s2 = d_db s" "d_log s2 = d_log s" using breaker_frame(5,6) [of env dst rg s1] o f1 by simp_all
  note s2 = evolves_same [OF f2, of env "{ch}" T]
  show ?case
  proof (cases ct)
    case False
    then show ?thesis using Cons.prems c f1 by (simp add: evolves_same)
  next
    case True
    show ?thesis
    proof (cases op)
      case True
      then show ?thesis using Cons.prems Cons.IH [of s2] s2 \<open>ct\<close> c o by (auto intro: evolves_trans)
    next
      case False
      then obtain s3 where "drain_region fuel env dst ch rg dl s2 = Some s3" "drain_regions fuel env dst ch dl rgs s3 = Some s'"
        using Cons.prems \<open>ct\<close> c o by (auto split: option.splits)
      then show ?thesis using drain_region_evolves [OF assms] Cons.IH s2 by (blast intro: evolves_trans)
    qed
  qed
qed

lemma drain_evolves:
  assumes "batches_honest env" "drain fuel env dst ch s = Some s'"
  shows "evolves env {ch} T s s'"
proof -
  have "evolves env {ch} T s (next_tick (next_tick s))" by (rule evolves_same) simp_all
  moreover have "evolves env {ch} T (next_tick (next_tick s)) s'"
    using assms by (auto simp: drain_def Let_def intro: drain_regions_evolves)
  ultimately show ?thesis by (rule evolves_trans)
qed

section \<open>A drain ends\<close>

text \<open>
  \<open>steady env\<close>: \<open>time.monotonic()\<close> never goes back and a kill signal, once received, stays so.
\<close>

definition steady :: "drain_env \<Rightarrow> bool" where
  "steady env \<longleftrightarrow> (\<forall>m n. m \<le> n \<longrightarrow> de_mono env m \<le> de_mono env n \<and> (de_killed env m \<longrightarrow> de_killed env n))"

definition live :: "int \<Rightarrow> drain_state \<Rightarrow> nat" where
  "live T s = length (filter (\<lambda>r. \<not> spent (T + 1000000) r) (rows_of s))"

lemma evolution_live:
  assumes e: "evolution env chs T s s' new f" and w: "window env T" and "new \<noteq> []"
  shows "live T s' < live T s"
proof -
  have ct: "confirmed_in new r \<Longrightarrow> tried new r" for r by (force simp: confirmed_in_def tried_def)
  have "filter (\<lambda>r. \<not> spent (T + 1000000) (f r)) (filter (\<lambda>r. \<not> confirmed_in new r) (rows_of s)) =
      filter (\<lambda>r. \<not> tried new r) (filter (\<lambda>r. \<not> spent (T + 1000000) r) (rows_of s))"
    unfolding filter_filter
  proof (rule filter_cong [OF refl])
    fix r
    show "(\<not> confirmed_in new r \<and> \<not> spent (T + 1000000) (f r)) = (\<not> spent (T + 1000000) r \<and> \<not> tried new r)"
      using e w ct [of r] unfolding evolution_def by metis
  qed
  then have l: "live T s' = length (filter (\<lambda>r. \<not> tried new r) (filter (\<lambda>r. \<not> spent (T + 1000000) r) (rows_of s)))"
    using e by (simp add: live_def evolution_def filter_map comp_def)
  obtain pk where pk: "pk \<in> fst ` set new" using assms(3) by fastforce
  then obtain r where "r \<in> set (rows_of s)" "ob_pk r = pk" "\<not> spent (T + 1000000) r"
    using e w unfolding evolution_def by blast
  then have "live T s' < length (filter (\<lambda>r. \<not> spent (T + 1000000) r) (rows_of s))"
    unfolding l using pk by (intro length_filter_less [of r]) (auto simp: tried_def)
  then show ?thesis by (simp add: live_def)
qed

lemma evolves_live:
  assumes "evolves env chs T s s'" "distinct (map ob_pk (rows_of s))" "window env T"
  shows "distinct (map ob_pk (rows_of s'))" "d_log s' \<noteq> d_log s \<Longrightarrow> live T s' < live T s"
    "length (rows_of s') \<le> length (rows_of s)"
proof -
  obtain new f where e: "evolution env chs T s s' new f" using assms by (auto simp: evolves_def)
  then show "distinct (map ob_pk (rows_of s'))" using assms(2) by (rule evolution_distinct)
  show "d_log s' \<noteq> d_log s \<Longrightarrow> live T s' < live T s" using e evolution_live [OF e assms(3)] by (auto simp: evolution_def)
  show "length (rows_of s') \<le> length (rows_of s)" using e by (simp add: evolution_def)
qed

lemma map_of_put_breaker: "map_of (put_breaker rg b bs) rg = map_option (\<lambda>_. b) (map_of bs rg)"
  by (induction bs) (auto simp: put_breaker_def)

lemma paused_not_open:
  assumes "paused conf k t rg bs = (False, bs')"
  shows "\<exists>b. map_of bs' rg = Some b \<and> opened_at b = None"
proof -
  obtain b bs1 where g: "get_breaker rg bs = (b, bs1)" by fastforce
  have m: "map_of bs1 rg = Some b" using g by (auto simp: get_breaker_def map_add_def split: option.splits)
  obtain b' where b': "is_open conf k t b = (False, b')" "bs' = put_breaker rg b' bs1"
    using assms g by (auto simp: paused_def split: prod.splits)
  then have "opened_at b' = None" by (auto simp: is_open_def new_breaker_def split: option.splits if_splits)
  then show ?thesis using m b'(2) by (simp add: map_of_put_breaker)
qed

lemma paused_stays_closed: "map_of bs rg = Some b \<Longrightarrow> opened_at b = None \<Longrightarrow> \<not> fst (paused conf k t rg bs)"
  by (simp add: paused_def get_breaker_def is_open_def)

lemma not_open_again:
  assumes "dest_is_open env dst rg s = (False, s1)" "d_breakers s2 = d_breakers s1"
  shows "\<not> fst (dest_is_open env dst rg s2)"
proof -
  obtain bs where "paused (de_conf env) (dest_keys dst) (de_mono env (d_tick s)) rg (d_breakers s (dest_name dst)) = (False, bs)"
      "d_breakers s1 (dest_name dst) = bs"
    using assms(1) by (auto simp: dest_is_open_def Let_def with_breaker_def next_tick_def split: prod.splits)
  then obtain b where "map_of (d_breakers s2 (dest_name dst)) rg = Some b" "opened_at b = None"
    using paused_not_open assms(2) by fastforce
  from paused_stays_closed [OF this] show ?thesis by (simp add: dest_is_open_def split_def Let_def)
qed

lemma tick_frame [simp]:
  "d_tick (snd (dest_is_open env dst rg s)) = Suc (d_tick s)" "d_tick (snd (should_continue_draining env dl s)) = Suc (d_tick s)"
  "d_breakers (snd (should_continue_draining env dl s)) = d_breakers s" "d_breakers (next_tick s) = d_breakers s"
  "d_tick (next_tick s) = Suc (d_tick s)"
  by (simp_all add: dest_is_open_def should_continue_draining_def Let_def split_def next_tick_def with_breaker_def)

lemma stop_persists:
  assumes "steady env" "\<not> fst (should_continue_draining env dl s)" "d_tick s \<le> d_tick s'"
  shows "\<not> fst (should_continue_draining env dl s')"
proof -
  have "de_killed env (d_tick s) \<or> dl \<le> de_mono env (d_tick s)"
    using assms(2) by (simp add: should_continue_draining_def split: if_splits)
  then have "de_killed env (d_tick s') \<or> dl \<le> de_mono env (d_tick s')"
    using assms(1,3) unfolding steady_def by (meson order_trans)
  then show ?thesis by (auto simp: should_continue_draining_def)
qed

lemma send_batch_log: "batch \<noteq> [] \<Longrightarrow> d_log (send_batch_step env dst rg batch s) \<noteq> d_log s"
proof -
  assume b: "batch \<noteq> []"
  have g: "d_log (if c then delete_rows xs (dest_success dst rg x) else dest_failure env dst rg x) = d_log x" for c xs x by simp
  have "d_log (fold (\<lambda>r. log_send (ob_pk r) (oc r)) batch (next_tick s)) \<noteq> d_log s"
    for oc :: "outbox_row \<Rightarrow> send_outcome"
    using fold_log [of oc batch "next_tick s"] b by simp
  then show ?thesis unfolding send_batch_step_def Let_def outbox_frame g .
qed

lemma send_one_by_one_log_grows: "\<exists>new. d_log (send_one_by_one env dst rg dl batch s) = d_log s @ new"
proof (induction batch arbitrary: s)
  case (Cons row rest)
  obtain op s1 where o: "dest_is_open env dst rg s = (op, s1)" by fastforce
  obtain ct s2 where c: "should_continue_draining env dl s1 = (ct, s2)" by fastforce
  have f: "d_log s1 = d_log s" "d_log s2 = d_log s"
    using breaker_frame(6) [of env dst rg s] breaker_frame(10) [of env dl s1] o c by simp_all
  let ?n = "next_tick s2"
  have IH: "\<exists>new. d_log (send_one_by_one env dst rg dl rest x) = d_log s @ new" if "\<exists>new. d_log x = d_log s @ new" for x
    using Cons.IH [of x] that by force
  show ?case
    using o c f by (auto simp: Let_def split: sum.splits if_splits intro!: IH)
qed simp

lemma send_one_by_one_log:
  assumes "batch \<noteq> []" "\<not> fst (dest_is_open env dst rg s)"
    and "fst (should_continue_draining env dl (snd (dest_is_open env dst rg s)))"
  shows "d_log (send_one_by_one env dst rg dl batch s) \<noteq> d_log s"
proof -
  obtain row rest where b: "batch = row # rest" using assms(1) by (cases batch) auto
  obtain s1 where o: "dest_is_open env dst rg s = (False, s1)" using assms(2) by (cases "dest_is_open env dst rg s") auto
  obtain s2 where c: "should_continue_draining env dl s1 = (True, s2)"
    using assms(3) o by (cases "should_continue_draining env dl s1") auto
  have f: "d_log s2 = d_log s"
    using breaker_frame(6) [of env dst rg s] breaker_frame(10) [of env dl s1] o c by simp
  have grow: "d_log (send_one_by_one env dst rg dl rest x) \<noteq> d_log s" if "d_log x = d_log s @ [y]" for x y
    using send_one_by_one_log_grows [of env dst rg dl rest x] that by auto
  show ?thesis unfolding b using o c f by (auto simp: Let_def split: sum.splits intro!: grow)
qed

lemma send_one_by_one_stopped:
  assumes "batch \<noteq> []" "\<not> fst (dest_is_open env dst rg s)"
    and "\<not> fst (should_continue_draining env dl (snd (dest_is_open env dst rg s)))"
  shows "send_one_by_one env dst rg dl batch s = snd (should_continue_draining env dl (snd (dest_is_open env dst rg s)))"
  using assms by (cases batch) (auto simp: Let_def split_def)

lemma drain_region_stops_now:
  assumes "fst (dest_is_open env dst rg s) \<or> \<not> fst (should_continue_draining env dl (snd (dest_is_open env dst rg s)))"
  shows "\<exists>s'. drain_region (Suc n) env dst ch rg dl s = Some s'"
  using assms by (auto simp: Let_def split_def)

text \<open>One pass of the loop: it ends, or some row was tried, or the next pass ends.\<close>

lemma drain_region_progress:
  assumes "steady env" and "\<not> fst (dest_is_open env dst rg s0)"
    and s: "d_breakers s = d_breakers (snd (dest_is_open env dst rg s0))" and batch: "batch \<noteq> []"
  shows "d_log (send_one_by_one env dst rg dl batch s) \<noteq> d_log s \<or>
     (\<exists>s'. drain_region (Suc n) env dst ch rg dl (send_one_by_one env dst rg dl batch s) = Some s')"
proof -
  obtain s1 where "dest_is_open env dst rg s0 = (False, s1)" using assms(2) by (cases "dest_is_open env dst rg s0") auto
  then have o: "\<not> fst (dest_is_open env dst rg s)" using not_open_again [of env dst rg s0 s1 s] s by simp
  let ?s1 = "snd (dest_is_open env dst rg s)"
  show ?thesis
  proof (cases "fst (should_continue_draining env dl ?s1)")
    case True
    then show ?thesis using send_one_by_one_log [OF batch o] by blast
  next
    case False
    let ?s2 = "snd (should_continue_draining env dl ?s1)"
    have "\<not> fst (should_continue_draining env dl (snd (dest_is_open env dst rg ?s2)))"
      by (rule stop_persists [OF assms(1) False]) simp
    then show ?thesis
      using drain_region_stops_now [of env dst rg ?s2 dl n ch] send_one_by_one_stopped [OF batch o False] by simp
  qed
qed

lemma fetch_batch_live:
  assumes "window env T" "fetch_batch ch rg (de_wall env n) (d_db s) \<noteq> []"
  shows "0 < live T s"
proof -
  obtain r where "r \<in> set (fetch_batch ch rg (de_wall env n) (d_db s))" using assms(2) by (meson last_in_set)
  then have "r \<in> set (rows_of s)" "due ch rg (de_wall env n) r"
    using fetch_batch_facts [where ch = ch and rg = rg and t = "de_wall env n" and d = "d_db s"] by (auto simp: rows_of_def)
  then have "r \<in> set (filter (\<lambda>r. \<not> spent (T + 1000000) r) (rows_of s))"
    using assms(1) by (auto simp: due_def spent_def window_def not_le intro: le_less_trans)
  then show ?thesis unfolding live_def by (metis length_pos_if_in_set)
qed

lemma live_same: "d_db s' = d_db s \<Longrightarrow> live T s' = live T s"
  by (simp add: live_def rows_of_def)

lemma drain_region_ends:
  assumes "batches_honest env" "window env T" "steady env"
  shows "distinct (map ob_pk (rows_of s)) \<Longrightarrow> live T s + 2 \<le> fuel \<Longrightarrow> \<exists>s'. drain_region fuel env dst ch rg dl s = Some s'"
proof (induction fuel arbitrary: s)
  case (Suc fuel)
  let ?s1 = "snd (dest_is_open env dst rg s)"
  let ?s2 = "snd (should_continue_draining env dl ?s1)"
  let ?s3 = "next_tick ?s2"
  define batch where "batch = fetch_batch ch rg (de_wall env (d_tick ?s2)) (d_db ?s2)"
  define s4 where "s4 = (if dest_batch dst then send_batch_step env dst rg batch ?s3 else send_one_by_one env dst rg dl batch ?s3)"
  show ?case
  proof (cases "fst (dest_is_open env dst rg s) \<or> \<not> fst (should_continue_draining env dl ?s1) \<or> batch = []")
    case True
    then show ?thesis by (auto simp: Let_def split_def batch_def)
  next
    case False
    then have eq: "drain_region (Suc fuel) env dst ch rg dl s = drain_region fuel env dst ch rg dl s4"
      unfolding drain_region.simps Let_def split_def s4_def batch_def by (simp split del: if_split)
    have b: "set batch \<subseteq> set (rows_of ?s3)" "distinct (map ob_pk batch)"
        "\<And>r. r \<in> set batch \<Longrightarrow> due ch (ob_region r) (de_wall env (d_tick ?s2)) r"
      using fetch_batch_facts [where ch = ch and rg = rg and t = "de_wall env (d_tick ?s2)" and d = "d_db ?s2"] Suc.prems(1)
      by (auto simp: batch_def rows_of_def due_def)
    have w: "window env T \<Longrightarrow> de_wall env (d_tick ?s2) < T + 1000000" by (simp add: window_def)
    have ev: "evolves env {ch} T ?s3 s4"
      unfolding s4_def using send_batch_evolves [OF assms(1) b w, where dst = dst] send_one_by_one_evolves [OF b w] by simp
    have d3: "distinct (map ob_pk (rows_of ?s3))" using Suc.prems(1) by (simp add: rows_of_def)
    note lv = evolves_live [OF ev d3 assms(2)]
    have l3: "live T ?s3 = live T s" by (rule live_same) simp
    have "live T ?s2 = live T s" by (rule live_same) simp
    then have pos: "0 < live T s" using fetch_batch_live [OF assms(2), of ch rg "d_tick ?s2" ?s2] False by (simp add: batch_def)
    then obtain n where n: "fuel = Suc n" using Suc.prems(2) by (cases fuel) auto
    have "d_log s4 \<noteq> d_log ?s3 \<or> (\<exists>s'. drain_region fuel env dst ch rg dl s4 = Some s')"
      using send_batch_log [of batch env dst rg ?s3] drain_region_progress [OF assms(3), of dst rg s ?s3 batch dl n ch] False
      by (auto simp: s4_def n)
    then show ?thesis unfolding eq using Suc.IH [of s4] lv l3 Suc.prems(2) by auto
  qed
qed simp

lemma drain_regions_ends:
  assumes "batches_honest env" "window env T" "steady env"
  shows "distinct (map ob_pk (rows_of s)) \<Longrightarrow> length (rows_of s) + 2 \<le> fuel \<Longrightarrow>
    \<exists>s'. drain_regions fuel env dst ch dl rgs s = Some s'"
proof (induction rgs arbitrary: s)
  case (Cons rg rgs)
  let ?s1 = "snd (should_continue_draining env dl s)"
  let ?s2 = "snd (dest_is_open env dst rg ?s1)"
  have r2: "rows_of ?s2 = rows_of s" by (simp add: rows_of_def)
  have "live T ?s2 \<le> length (rows_of s)" by (simp add: live_def r2)
  then obtain s3 where s3: "drain_region fuel env dst ch rg dl ?s2 = Some s3"
    using drain_region_ends [OF assms, of ?s2 fuel dst ch rg dl] Cons.prems r2 by auto
  then have "evolves env {ch} T ?s2 s3" by (rule drain_region_evolves [OF assms(1)])
  from evolves_live [OF this _ assms(2)] have "distinct (map ob_pk (rows_of s3))" "length (rows_of s3) \<le> length (rows_of s)"
    using Cons.prems(1) r2 by simp_all
  then have "\<exists>s'. drain_regions fuel env dst ch dl rgs s3 = Some s'" "\<exists>s'. drain_regions fuel env dst ch dl rgs ?s2 = Some s'"
    using Cons.IH [of s3] Cons.IH [of ?s2] Cons.prems r2 by auto
  then show ?case using s3 by (auto simp: split_def Let_def)
qed simp

lemma evolution_mono: "evolution env chs T s s' new f \<Longrightarrow> evolution env UNIV T s s' new f"
  unfolding evolution_def by blast

lemma evolves_mono: "evolves env chs T s s' \<Longrightarrow> evolves env UNIV T s s'"
  unfolding evolves_def using evolution_mono by blast

lemma drain_ends:
  assumes "batches_honest env" "window env T" "steady env" "distinct (map ob_pk (rows_of s))" "length (rows_of s) + 2 \<le> fuel"
  shows "\<exists>s'. drain fuel env dst ch s = Some s'"
  using drain_regions_ends [OF assms(1-3), of "next_tick (next_tick s)"] assms(4,5) by (simp add: drain_def Let_def)

lemma outbox_run_evolves:
  assumes "batches_honest env"
  shows "outbox_run fuel env chans s = Some s' \<Longrightarrow> evolves env UNIV T s s'"
proof (induction chans arbitrary: s)
  case Nil
  then show ?case by (simp add: evolves_same)
next
  case (Cons cd chans)
  obtain ch dst where cd: "cd = (ch, dst)" by fastforce
  have first: "evolves env UNIV T s (next_tick s)" by (rule evolves_same) simp_all
  show ?case
  proof (cases "de_killed env (d_tick s)")
    case True
    then show ?thesis using Cons.prems first by (simp add: cd)
  next
    case False
    then obtain s1 where s1: "drain fuel env dst ch (next_tick s) = Some s1" "outbox_run fuel env chans s1 = Some s'"
      using Cons.prems by (auto simp: cd split: option.splits)
    have "evolves env UNIV T (next_tick s) s1" by (rule evolves_mono) (rule drain_evolves [OF assms s1(1)])
    then show ?thesis using first Cons.IH [OF s1(2)] by (blast intro: evolves_trans)
  qed
qed

lemma outbox_run_ends:
  assumes "batches_honest env" "window env T" "steady env"
  shows "distinct (map ob_pk (rows_of s)) \<Longrightarrow> length (rows_of s) + 2 \<le> fuel \<Longrightarrow> \<exists>s'. outbox_run fuel env chans s = Some s'"
proof (induction chans arbitrary: s)
  case (Cons cd chans)
  obtain ch dst where cd: "cd = (ch, dst)" by fastforce
  obtain s1 where s1: "drain fuel env dst ch (next_tick s) = Some s1"
    using drain_ends [OF assms, of "next_tick s" fuel dst ch] Cons.prems by auto
  from evolves_live [OF drain_evolves [OF assms(1) s1] _ assms(2)] Cons.prems
  have "\<exists>s'. outbox_run fuel env chans s1 = Some s'" by (intro Cons.IH) auto
  then show ?case using s1 by (simp add: cd)
qed simp

section \<open>The guarantees of a tick\<close>

text \<open>Two billing rows and one workload row; the broker confirms row 1 only and the Runtime API refuses the workload.\<close>

definition tick_message :: billing_message where
  "tick_message = \<lparr>specversion = ''1.0'', message_id = ''m'', msg_source = ''s'', message_time = 0, subject = ''x'',
     datacontenttype = ''application/json'',
     msg_data = \<lparr>metric_type = ''usage'', metric_value = 3, bd_instance_crn = None, resource_id = ''j'', job_started = True,
       job_started_at = None, job_completed = True, bd_business_model = None\<rparr>\<rparr>"

definition tick_row :: "nat \<Rightarrow> OutboxChannel \<Rightarrow> nat \<Rightarrow> outbox_row" where
  "tick_row pk ch n = \<lparr>ob_pk = pk, ob_job = ''j'', ob_channel = ch, ob_region = Some ''us-east'', ob_payload = Billing tick_message,
     ob_created = int pk, attempts = n, next_attempt_at = 0, last_error = [], unrecoverable = False\<rparr>"

definition tick_env :: drain_env where
  "tick_env = \<lparr>de_conf = (\<lambda>_. ''500''), de_wall = (\<lambda>_. 10), de_mono = (\<lambda>n. int n), de_killed = (\<lambda>_. False),
     de_send = (\<lambda>_ _. Inl (ValueError ''bad'')), de_send_batch = (\<lambda>_. kafka_send_batch (\<lambda>_. Inr ()) (\<lambda>k. k = 1)),
     de_text = (\<lambda>_. ''ValueError'')\<rparr>"

definition tick_state :: drain_state where
  "tick_state = \<lparr>d_db = \<lparr>job_tbl = [], event_tbl = [], outbox_tbl = [tick_row 1 JOB_USAGE 0, tick_row 2 JOB_USAGE 1, tick_row 3 WORKLOAD 0],
     outbox_seq = 4, mirror_tbl = [], blocked_tbl = []\<rparr>, d_breakers = (\<lambda>_. []), d_tick = 0, d_log = []\<rparr>"

definition crowded :: db where
  "crowded = (d_db tick_state)\<lparr>outbox_tbl := tick_row 0 JOB_USAGE 9 # map (\<lambda>n. tick_row n JOB_USAGE 0) [1..<101]\<rparr>"

lemma tick_facts: "batches_honest tick_env" "window tick_env 10" "steady tick_env" "distinct (map ob_pk (rows_of tick_state))"
  "length (rows_of tick_state) + 2 \<le> 5"
  by (simp_all add: batches_honest_def tick_env_def kafka_sender.batch_sender_axioms window_def steady_def tick_state_def
      rows_of_def tick_row_def)

lemma tick_run: "map_option d_log (outbox_run 5 tick_env outbox_channels tick_state) =
  Some [(1, SEND_SUCCESS), (2, SEND_FAILURE), (3, SEND_UNRECOVERABLE)]"
  by code_simp



text \<open>
  C36: When a tick is over within a second of wall clock time, with a monotonic clock that does not go back
  and a kill signal that stays on, it ends, whatever the senders answer, after at most two passes more
  than there are rows; and it makes at most one attempt per row: a row that was tried and is still in the
  table is marked unrecoverable or is not due again before the second is over.
\<close>

theorem outbox_tick_ends_with_one_attempt:
  assumes "batches_honest env" and "distinct (map ob_pk (outbox_tbl (d_db s)))"
    and "\<forall>n. T \<le> de_wall env n \<and> de_wall env n < T + 1000000" and "steady env"
    and "length (outbox_tbl (d_db s)) + 2 \<le> fuel"
  shows "\<exists>s' new. outbox_run fuel env outbox_channels s = Some s' \<and> d_log s' = d_log s @ new \<and> distinct (map fst new) \<and>
     (\<forall>r \<in> set (outbox_tbl (d_db s')). ob_pk r \<in> fst ` set new \<longrightarrow> unrecoverable r \<or> T + 1000000 \<le> next_attempt_at r)"
proof -
  have w: "window env T" using assms(3) by (simp add: window_def)
  obtain s' where s': "outbox_run fuel env outbox_channels s = Some s'"
    using outbox_run_ends [OF assms(1) w assms(4), of s fuel outbox_channels] assms(2,5) by (auto simp: rows_of_def)
  obtain new f where e: "evolution env UNIV T s s' new f"
    using outbox_run_evolves [OF assms(1) s', of T] assms(2) by (auto simp: evolves_def rows_of_def)
  have "unrecoverable r' \<or> T + 1000000 \<le> next_attempt_at r'"
    if r': "r' \<in> set (outbox_tbl (d_db s'))" "ob_pk r' \<in> fst ` set new" for r'
  proof -
    have "rows_of s' = map f (filter (\<lambda>r. \<not> confirmed_in new r) (rows_of s))" using e unfolding evolution_def by blast
    then obtain r where r: "\<not> confirmed_in new r" "r' = f r" using r'(1) unfolding rows_of_def by auto
    have "tried new r" using r'(2) e r(2) by (simp add: tried_def evolution_def kept_def)
    then show ?thesis using e w r unfolding evolution_def spent_def by blast
  qed
  then show ?thesis using s' e w unfolding evolution_def by blast
qed

theorem outbox_tick_ends_with_one_attempt_witness:
  "\<exists>s' new. outbox_run 5 tick_env outbox_channels tick_state = Some s' \<and> d_log s' = new \<and> distinct (map fst new) \<and>
     (\<forall>r \<in> set (outbox_tbl (d_db s')). ob_pk r \<in> fst ` set new \<longrightarrow> unrecoverable r \<or> 1000010 \<le> next_attempt_at r)"
proof -
  have "distinct (map ob_pk (outbox_tbl (d_db tick_state)))" "length (outbox_tbl (d_db tick_state)) + 2 \<le> 5"
      "\<forall>n. 10 \<le> de_wall tick_env n \<and> de_wall tick_env n < 10 + 1000000" "d_log tick_state = []"
    using tick_facts by (simp_all add: rows_of_def window_def tick_state_def)
  from outbox_tick_ends_with_one_attempt [OF tick_facts(1) this(1,3) tick_facts(3) this(2)] this(4) show ?thesis by simp
qed

text \<open>
  A fetch takes the hundred rows of the region that are due and come first by attempts, then age, then
  key: it is sorted that way, holds nothing but due rows, is as long as it can be, and a due row that is left
  out comes after every row that was taken. So rows that never failed go before any that did.
\<close>

theorem fetch_batch_takes_the_first:
  fixes d :: db
  defines "key \<equiv> \<lambda>r :: outbox_row. (attempts r, ob_created r, ob_pk r)"
  shows "sorted (map key (fetch_batch ch rg t d)) \<and>
     (\<forall>r \<in> set (fetch_batch ch rg t d). due ch rg t r \<and> r \<in> set (outbox_tbl d)) \<and>
     length (fetch_batch ch rg t d) = min 100 (length (filter (due ch rg t) (outbox_tbl d))) \<and>
     (\<forall>r \<in> set (outbox_tbl d). due ch rg t r \<and> r \<notin> set (fetch_batch ch rg t d) \<longrightarrow>
        (\<forall>r' \<in> set (fetch_batch ch rg t d). key r' \<le> key r \<and> attempts r' \<le> attempts r))"
proof -
  define xs where "xs = sort_key key (filter (due ch rg t) (outbox_tbl d))"
  have f: "fetch_batch ch rg t d = take 100 xs" by (simp add: fetch_batch_def xs_def key_def BATCH_SIZE_def)
  have sorted: "sorted (map key xs)" by (simp add: xs_def)
  have later: "key r' \<le> key r" if "r \<in> set xs" "r \<notin> set (take 100 xs)" "r' \<in> set (take 100 xs)" for r r'
  proof -
    have "r \<in> set (drop 100 xs)" using that(1,2) by (metis Un_iff append_take_drop_id set_append)
    moreover have "sorted (map key (take 100 xs) @ map key (drop 100 xs))"
      using sorted by (metis append_take_drop_id map_append)
    ultimately show ?thesis using that(3) by (auto simp: sorted_append)
  qed
  have le: "key r' \<le> key r \<Longrightarrow> attempts r' \<le> attempts r" for r r' by (auto simp: key_def less_eq_prod_def)
  show ?thesis
    unfolding f
  proof (intro conjI ballI impI)
    show "sorted (map key (take 100 xs))" using sorted by (metis sorted_wrt_take take_map)
    show "length (take 100 xs) = min 100 (length (filter (due ch rg t) (outbox_tbl d)))" by (simp add: xs_def)
  next
    fix r assume "r \<in> set (take 100 xs)"
    then have "r \<in> set xs" by (rule in_set_takeD)
    then show "due ch rg t r" "r \<in> set (outbox_tbl d)" by (simp_all add: xs_def)
  next
    fix r r' assume "r \<in> set (outbox_tbl d)" "due ch rg t r \<and> r \<notin> set (take 100 xs)" "r' \<in> set (take 100 xs)"
    then show "key r' \<le> key r" by (intro later) (auto simp: xs_def)
    then show "attempts r' \<le> attempts r" by (rule le)
  qed
qed

theorem fetch_batch_takes_the_first_witness:
  "length (fetch_batch JOB_USAGE (Some ''us-east'') 10 crowded) = 100 \<and>
   tick_row 0 JOB_USAGE 9 \<notin> set (fetch_batch JOB_USAGE (Some ''us-east'') 10 crowded) \<and>
   tick_row 100 JOB_USAGE 0 \<in> set (fetch_batch JOB_USAGE (Some ''us-east'') 10 crowded) \<and>
   attempts (tick_row 100 JOB_USAGE 0) \<le> attempts (tick_row 0 JOB_USAGE 9)"
proof -
  have "map ob_pk (fetch_batch JOB_USAGE (Some ''us-east'') 10 crowded) = [1..<101]" by code_simp
  moreover have "fetch_batch JOB_USAGE (Some ''us-east'') 10 crowded ! 99 = tick_row 100 JOB_USAGE 0" by code_simp
  ultimately have l: "length (fetch_batch JOB_USAGE (Some ''us-east'') 10 crowded) = 100"
      "0 \<notin> ob_pk ` set (fetch_batch JOB_USAGE (Some ''us-east'') 10 crowded)"
      "tick_row 100 JOB_USAGE 0 \<in> set (fetch_batch JOB_USAGE (Some ''us-east'') 10 crowded)"
    using nth_mem [of 99 "fetch_batch JOB_USAGE (Some ''us-east'') 10 crowded"]
    by (auto simp flip: set_map dest: arg_cong [where f = length])
  then have out: "tick_row 0 JOB_USAGE 9 \<notin> set (fetch_batch JOB_USAGE (Some ''us-east'') 10 crowded)"
    by (force simp: tick_row_def)
  have "tick_row 0 JOB_USAGE 9 \<in> set (outbox_tbl crowded)" "due JOB_USAGE (Some ''us-east'') 10 (tick_row 0 JOB_USAGE 9)"
    by (simp_all add: crowded_def due_def tick_row_def)
  with fetch_batch_takes_the_first [of JOB_USAGE "Some ''us-east''" 10 crowded] l(3) out
  have "attempts (tick_row 100 JOB_USAGE 0) \<le> attempts (tick_row 0 JOB_USAGE 9)" by blast
  with l out show ?thesis by blast
qed

end
