(* ===== verification/Fair_Share.thy ===== *)
theory Fair_Share
  imports Job_Events "HOL-Library.Product_Lexorder" "HOL-Library.Multiset"
begin

text \<open>
  Which queued jobs a tick of the scheduler takes, and when a running job has run for too long
  (\<^verbatim>\<open>scheduler/schedule.py\<close>: \<open>get_jobs_to_schedule_fair_share\<close>, \<open>check_job_timeout\<close>,
  \<open>first_cancel_refusal\<close>). The query ranks the queued jobs of each author by age with
  \<open>ROW_NUMBER\<close>; jobs created in the same microsecond keep the order of the table.
\<close>

section \<open>Definitions\<close>

definition counts_for :: "Runner \<Rightarrow> nat \<Rightarrow> job \<Rightarrow> bool" where
  "counts_for rn u j \<longleftrightarrow>
     status j \<in> set RUNNING_STATUSES \<and> runner j = rn \<and> \<not> filler j \<and> user_id (author j) = u"

definition running_of :: "Runner \<Rightarrow> db \<Rightarrow> nat \<Rightarrow> nat" where
  "running_of rn d u = length (filter (counts_for rn u) (job_tbl d))"

text \<open>An author is in the dictionary \<open>running\<close> only with a count of at least one.\<close>

definition at_max_capacity :: "Runner \<Rightarrow> int \<Rightarrow> db \<Rightarrow> nat \<Rightarrow> bool" where
  "at_max_capacity rn jobs_per_user d u \<longleftrightarrow> running_of rn d u \<noteq> 0 \<and> jobs_per_user \<le> int (running_of rn d u)"

definition schedulable :: "(ConfigKey \<Rightarrow> string) \<Rightarrow> bool \<Rightarrow> Runner \<Rightarrow> int \<Rightarrow> db \<Rightarrow> job list" where
  "schedulable conf g rn jobs_per_user d =
     filter (\<lambda>j. status j = QUEUED \<and> job_gpu j = g \<and> runner j = rn \<and>
               \<not> at_max_capacity rn jobs_per_user d (user_id (author j)) \<and>
               (rn = FLEETS \<longrightarrow> \<not> filter_matches (blocked_jobs_filter conf (blocked_tbl d)) j)) (job_tbl d)"

text \<open>\<open>ROW_NUMBER() OVER (PARTITION BY author ORDER BY created)\<close>.\<close>

fun number_rows :: "(nat \<Rightarrow> nat) \<Rightarrow> job list \<Rightarrow> (nat \<times> job) list" where
  "number_rows seen [] = []"
| "number_rows seen (j # js) =
     (let u = user_id (author j); n = Suc (seen u) in (n, j) # number_rows (seen(u := n)) js)"

definition ranked :: "job list \<Rightarrow> (nat \<times> job) list" where
  "ranked js = number_rows (\<lambda>_. 0) (sort_key created js)"

text \<open>Python's \<open>xs[:n]\<close>.\<close>

definition py_take :: "int \<Rightarrow> 'a list \<Rightarrow> 'a list" where
  "py_take n xs = (if n < 0 then take (nat (int (length xs) + n)) xs else take (nat n) xs)"

definition get_jobs_to_schedule_fair_share ::
  "(ConfigKey \<Rightarrow> string) \<Rightarrow> int \<Rightarrow> int \<Rightarrow> bool \<Rightarrow> Runner \<Rightarrow> int option \<Rightarrow> db \<Rightarrow> job list" where
  "get_jobs_to_schedule_fair_share conf limits_jobs_per_user slots g rn jobs_per_user d =
     (let jpu = (case jobs_per_user of None \<Rightarrow> limits_jobs_per_user | Some n \<Rightarrow> n);
          top = (if rn = RAY then 1 else slots);
          rows = filter (\<lambda>(n, j). int n \<le> top) (ranked (schedulable conf g rn jpu d));
          sorted_rows = sort_key (\<lambda>(n, j). (n, created j)) rows
      in py_take slots (map snd (filter (\<lambda>(n, j). int n \<le> jpu - int (running_of rn d (user_id (author j)))) sorted_rows)))"

definition program_timeout_hours :: "(ConfigKey \<Rightarrow> string) \<Rightarrow> int \<Rightarrow> int" where
  "program_timeout_hours conf program_timeout = cfg_int (conf PROGRAM_TIMEOUT_HOURS) program_timeout"

definition check_job_timeout :: "(ConfigKey \<Rightarrow> string) \<Rightarrow> int \<Rightarrow> int \<Rightarrow> job \<Rightarrow> int option \<Rightarrow> bool" where
  "check_job_timeout conf program_timeout now j started =
     (if status j \<notin> set RUNNING_STATUSES then False
      else (case started of
              None \<Rightarrow> False
            | Some t \<Rightarrow> t + program_timeout_hours conf program_timeout * 3600 * 1000000 < now))"

definition REFUSED_CANCEL_LIMIT :: nat where
  "REFUSED_CANCEL_LIMIT = 10000"

definition first_cancel_refusal :: "job \<Rightarrow> string list \<Rightarrow> bool \<times> string list" where
  "first_cancel_refusal j warned =
     (if job_id j \<in> set warned then (False, warned)
      else (True, job_id j # (if length warned \<ge> REFUSED_CANCEL_LIMIT then [] else warned)))"

section \<open>Ranks\<close>

abbreviation uid :: "job \<Rightarrow> nat" where
  "uid j \<equiv> user_id (author j)"

lemma number_rows_snd [simp]: "map snd (number_rows seen js) = js"
  by (induction js arbitrary: seen) (simp_all add: Let_def)

lemma number_rows_of_user:
  "filter (\<lambda>(n, j). uid j = u) (number_rows seen js) =
     zip [Suc (seen u)..<Suc (seen u) + length (filter (\<lambda>j. uid j = u) js)] (filter (\<lambda>j. uid j = u) js)"
proof (induction js arbitrary: seen)
  case (Cons j js)
  show ?case
  proof (cases "uid j = u")
    case True
    then show ?thesis by (simp add: Cons.IH Let_def upt_conv_Cons del: upt_Suc)
  next
    case False
    then show ?thesis by (simp add: Cons.IH Let_def)
  qed
qed simp

lemma ranked_of_user:
  "filter (\<lambda>(n, j). uid j = u) (ranked js) =
     zip [1..<Suc (length (filter (\<lambda>j. uid j = u) js))] (sort_key created (filter (\<lambda>j. uid j = u) js))"
  by (simp add: ranked_def number_rows_of_user filter_sort del: upt_Suc)

lemma ranked_snd: "mset (map snd (ranked js)) = mset js"
  by (simp add: ranked_def)

lemma ranked_distinct:
  assumes "distinct (map job_id js)"
  shows "distinct (ranked js)" "distinct (map (job_id \<circ> snd) (ranked js))"
proof -
  have "map (job_id \<circ> snd) (ranked js) = map job_id (sort_key created js)"
    by (simp add: ranked_def flip: map_map)
  moreover have "mset (map job_id (sort_key created js)) = mset (map job_id js)" by simp
  ultimately show "distinct (map (job_id \<circ> snd) (ranked js))" using assms by (metis mset_eq_imp_distinct_iff)
  then show "distinct (ranked js)" by (simp add: distinct_map)
qed

section \<open>The order of a tick\<close>

text \<open>
  The rows the tick considers, in its order, before the cut at the free slots. Of one user they are the
  oldest ones, ranked from one, up to the budget of the user.
\<close>

definition offered :: "(ConfigKey \<Rightarrow> string) \<Rightarrow> int \<Rightarrow> bool \<Rightarrow> Runner \<Rightarrow> int \<Rightarrow> db \<Rightarrow> (nat \<times> job) list" where
  "offered conf slots g rn jpu d =
     filter (\<lambda>(n, j). int n \<le> jpu - int (running_of rn d (uid j)))
       (sort_key (\<lambda>(n, j). (n, created j))
          (filter (\<lambda>(n, j). int n \<le> (if rn = RAY then 1 else slots)) (ranked (schedulable conf g rn jpu d))))"

lemma fair_share_offered:
  "get_jobs_to_schedule_fair_share conf lim slots g rn (Some jpu) d = py_take slots (map snd (offered conf slots g rn jpu d))"
  by (simp add: get_jobs_to_schedule_fair_share_def offered_def Let_def)

lemma filter_ranks:
  "length xs = m \<Longrightarrow> filter (\<lambda>(n, j). int n \<le> c) (zip [1..<Suc m] xs) = take (nat c) (zip [1..<Suc m] xs)"
proof (induction m arbitrary: xs)
  case (Suc m)
  obtain ys y where xs: "xs = ys @ [y]" "length ys = m" using Suc.prems by (cases xs rule: rev_cases) auto
  have z: "zip [1..<Suc (Suc m)] xs = zip [1..<Suc m] ys @ [(Suc m, y)]" using xs by simp
  show ?case
    unfolding z filter_append Suc.IH [OF xs(2)] using xs(2) by (auto simp: nat_le_iff)
qed simp

lemma sorted_ranks:
  assumes "length xs = m"
  shows "sorted (map (\<lambda>(n, j). (n, f j)) (take k (zip [1..<Suc m] xs)))"
proof -
  have "sorted_wrt (\<lambda>a b. fst a < fst b) (zip [1..<Suc m] xs)"
    using assms by (simp add: sorted_wrt_iff_nth_less del: upt_Suc)
  then have "sorted_wrt (\<lambda>a b. fst a < fst b) (take k (zip [1..<Suc m] xs))" by (rule sorted_wrt_take)
  then show ?thesis unfolding sorted_map by (rule sorted_wrt_mono_rel [rotated]) auto
qed

definition mine :: "nat \<Rightarrow> job list \<Rightarrow> job list" where
  "mine u js = filter (\<lambda>j. uid j = u) js"

definition budget :: "Runner \<Rightarrow> int \<Rightarrow> db \<Rightarrow> nat \<Rightarrow> nat" where
  "budget rn jpu d u = nat (jpu - int (running_of rn d u))"

lemma take_zip_ranks:
  "length xs = m \<Longrightarrow> take k (zip [1..<Suc m] xs) = zip [1..<Suc (min k m)] (take k xs)"
  by (cases "k \<le> m") (simp_all add: take_zip take_upt min_def del: upt_Suc)

lemma offered_of_user:
  fixes conf g rn jpu d slots
  defines "q \<equiv> schedulable conf g rn jpu d"
  defines "k u \<equiv> min (nat (if rn = RAY then 1 else slots)) (budget rn jpu d u)"
  shows "filter (\<lambda>(n, j). uid j = u) (offered conf slots g rn jpu d) =
    zip [1..<Suc (min (k u) (length (mine u q)))] (take (k u) (sort_key created (mine u q)))"
proof -
  let ?top = "if rn = RAY then 1 else slots" and ?z = "zip [1..<Suc (length (mine u q))] (sort_key created (mine u q))"
  have swap: "filter (\<lambda>(n, j). uid j = u) (filter P xs) = filter P (filter (\<lambda>(n, j). uid j = u) xs)"
    for P and xs :: "(nat \<times> job) list"
    by (simp add: conj_commute)
  have sort: "filter (\<lambda>(n, j). uid j = u) (sort_key (\<lambda>(n, j). (n, created j)) (filter T xs)) =
      sort_key (\<lambda>(n, j). (n, created j)) (filter T (filter (\<lambda>(n, j). uid j = u) xs))"
    for T and xs :: "(nat \<times> job) list"
    by (subst filter_sort, subst swap) (rule refl)
  have by_u: "filter (\<lambda>(n, j). int n \<le> jpu - int (running_of rn d (uid j))) (filter (\<lambda>(n, j). uid j = u) xs) =
      filter (\<lambda>(n, j). int n \<le> jpu - int (running_of rn d u)) (filter (\<lambda>(n, j). uid j = u) xs)"
    for xs :: "(nat \<times> job) list"
    by (auto intro: filter_cong)
  have z: "filter (\<lambda>(n, j). uid j = u) (ranked q) = ?z" by (simp add: ranked_of_user mine_def del: upt_Suc)
  have "filter (\<lambda>(n, j). uid j = u) (offered conf slots g rn jpu d) =
      filter (\<lambda>(n, j). int n \<le> jpu - int (running_of rn d u)) (filter (\<lambda>(n, j). uid j = u)
        (sort_key (\<lambda>(n, j). (n, created j)) (filter (\<lambda>(n, j). int n \<le> ?top) (ranked q))))"
    unfolding offered_def q_def [symmetric] by (subst swap) (rule by_u)
  also have "\<dots> = filter (\<lambda>(n, j). int n \<le> jpu - int (running_of rn d u))
        (sort_key (\<lambda>(n, j). (n, created j)) (filter (\<lambda>(n, j). int n \<le> ?top) ?z))"
    unfolding sort z ..
  also have "\<dots> = filter (\<lambda>(n, j). int n \<le> jpu - int (running_of rn d u)) (take (nat ?top) ?z)"
    by (simp only: filter_ranks [OF length_sort] sort_key_id_if_sorted [OF sorted_ranks [OF length_sort]])
  also have "\<dots> = take (budget rn jpu d u) (take (nat ?top) ?z)"
    unfolding take_zip_ranks [OF length_sort]
    by (subst filter_ranks) (simp_all only: budget_def length_take length_sort min.commute)
  also have "\<dots> = take (k u) ?z" by (simp only: take_take k_def min.commute)
  finally show ?thesis by (simp only: take_zip_ranks [OF length_sort])
qed

lemma offered_sorted: "sorted (map fst (offered conf slots g rn jpu d))"
proof -
  have "sorted (map (\<lambda>(n, j). (n, created j)) (offered conf slots g rn jpu d))"
    unfolding offered_def by (rule sorted_filter) (rule sorted_sort_key)
  then have "sorted_wrt (\<lambda>a b. (case a of (n, j) \<Rightarrow> (n, created j)) \<le> (case b of (n, j) \<Rightarrow> (n, created j)))
      (offered conf slots g rn jpu d)" by (simp only: sorted_map)
  then show ?thesis unfolding sorted_map by (rule sorted_wrt_mono_rel [rotated]) (auto simp: less_eq_prod_def)
qed

lemma offered_subset: "(n, j) \<in> set (offered conf slots g rn jpu d) \<Longrightarrow> j \<in> set (schedulable conf g rn jpu d)"
proof -
  assume "(n, j) \<in> set (offered conf slots g rn jpu d)"
  then have "(n, j) \<in> set (ranked (schedulable conf g rn jpu d))" by (auto simp: offered_def)
  then have "j \<in> set (map snd (ranked (schedulable conf g rn jpu d)))" by force
  then show ?thesis using ranked_snd by (metis mset_eq_setD)
qed

lemma offered_distinct:
  assumes "distinct (map job_id (job_tbl d))"
  shows "distinct (map (job_id \<circ> snd) (offered conf slots g rn jpu d))"
proof -
  have "distinct (map job_id (schedulable conf g rn jpu d))" using assms by (simp add: schedulable_def distinct_map_filter)
  then have "distinct (map (job_id \<circ> snd) (filter (\<lambda>(n, j). int n \<le> (if rn = RAY then 1 else slots))
      (ranked (schedulable conf g rn jpu d))))" by (intro distinct_map_filter ranked_distinct)
  then have "distinct (map (job_id \<circ> snd) (sort_key (\<lambda>(n, j). (n, created j))
      (filter (\<lambda>(n, j). int n \<le> (if rn = RAY then 1 else slots)) (ranked (schedulable conf g rn jpu d)))))"
    by (simp only: distinct_map distinct_sort set_sort)
  then show ?thesis unfolding offered_def by (rule distinct_map_filter)
qed

text \<open>A prefix of a list holds a prefix of what each user has in it.\<close>

lemma filter_take_prefix: "filter P (take n xs) = take (length (filter P (take n xs))) (filter P xs)"
proof -
  have "filter P xs = filter P (take n xs) @ filter P (drop n xs)" by (metis append_take_drop_id filter_append)
  then show ?thesis by simp
qed

section \<open>Fairness\<close>

lemma mine_snd: "mine u (map snd xs) = map snd (filter (\<lambda>(n, j). uid j = u) xs)" for xs :: "(nat \<times> job) list"
  by (induction xs) (auto simp: mine_def)

text \<open>What one user has in the first \<open>n\<close> offered rows: the ranks from one on, of the oldest jobs.\<close>

lemma offered_prefix_of_user:
  fixes conf g jpu d slots
  defines "X \<equiv> offered conf slots g FLEETS jpu d" and "S u \<equiv> sort_key created (mine u (schedulable conf g FLEETS jpu d))"
    and "k u \<equiv> min (nat slots) (budget FLEETS jpu d u)"
  assumes "n = nat slots"
  shows "mine u (map snd X) = take (k u) (S u)"
    and "length (mine u (map snd (take n X))) \<le> min (k u) (length (S u))"
    and "mine u (map snd (take n X)) = take (length (mine u (map snd (take n X)))) (S u)"
    and "map fst (filter (\<lambda>(n, j). uid j = u) (take n X)) = [1..<Suc (length (mine u (map snd (take n X))))]"
proof -
  let ?U = "\<lambda>(n :: nat, j). uid j = u"
  let ?a = "length (mine u (map snd (take n X)))"
  have XU: "filter ?U X = zip [1..<Suc (min (k u) (length (S u)))] (take (k u) (S u))"
    unfolding X_def S_def k_def by (simp add: offered_of_user del: upt_Suc)
  have ranks: "map fst (filter ?U X) = [1..<Suc (min (k u) (length (S u)))]" "map snd (filter ?U X) = take (k u) (S u)"
    by (simp_all add: XU min.commute del: upt_Suc)
  show m: "mine u (map snd X) = take (k u) (S u)" by (simp only: mine_snd ranks)
  have a: "?a = length (filter ?U (take n X))" by (simp add: mine_snd)
  have pre: "filter ?U (take n X) = take ?a (filter ?U X)" unfolding a by (rule filter_take_prefix)
  then have "?a = min ?a (length (filter ?U X))" by (metis a length_take min.commute)
  then have "?a \<le> length (filter ?U X)" by linarith
  then show le: "?a \<le> min (k u) (length (S u))" by (simp add: XU min.commute del: upt_Suc)
  show "mine u (map snd (take n X)) = take ?a (S u)"
  proof -
    have "mine u (map snd (take n X)) = map snd (take ?a (filter ?U X))" using arg_cong [OF pre, of "map snd"] by (simp only: mine_snd)
    also have "\<dots> = take ?a (take (k u) (S u))" by (simp only: take_map [symmetric] ranks(2))
    finally show ?thesis using le by (simp add: min_absorb1)
  qed
  show "map fst (filter ?U (take n X)) = [1..<Suc ?a]"
    using le by (subst pre) (simp only: take_map [symmetric] ranks(1) take_upt plus_1_eq_Suc)
qed

lemma fair_share_turns:
  fixes conf g jpu d slots
  defines "X \<equiv> offered conf slots g FLEETS jpu d"
  defines "got u \<equiv> length (mine u (map snd (take (nat slots) X)))"
  assumes less: "got u < min (length (mine u (schedulable conf g FLEETS jpu d))) (budget FLEETS jpu d u)"
  shows "got v \<le> Suc (got u)"
proof (cases "nat slots \<le> got u \<or> got v = 0")
  case True
  have "got v \<le> length (take (nat slots) X)"
    unfolding got_def mine_def using length_filter_le [of _ "map snd (take (nat slots) X)"] by simp
  then show ?thesis using True by auto
next
  case False
  note pre = offered_prefix_of_user [OF refl, where conf = conf and g = g and jpu = jpu and d = d and slots = slots, folded X_def]
  let ?U = "\<lambda>w (n :: nat, j). uid j = w"
  have ranks: "fst ` set (filter (?U w) (take (nat slots) X)) = {1..got w}" for w
    using arg_cong [OF pre(4) [of w], of set] by (simp add: got_def atLeastLessThanSuc_atLeastAtMost del: upt_Suc)
  have "filter (?U u) X = zip [1..<Suc (min (min (nat slots) (budget FLEETS jpu d u))
      (length (mine u (schedulable conf g FLEETS jpu d))))]
      (take (min (nat slots) (budget FLEETS jpu d u)) (sort_key created (mine u (schedulable conf g FLEETS jpu d))))"
    unfolding X_def by (simp add: offered_of_user del: upt_Suc)
  then have "map fst (filter (?U u) X) = [1..<Suc (min (min (nat slots) (budget FLEETS jpu d u))
      (length (mine u (schedulable conf g FLEETS jpu d))))]" by (simp add: min.commute del: upt_Suc)
  then have "fst ` set (filter (?U u) X) = set [1..<Suc (min (min (nat slots) (budget FLEETS jpu d u))
      (length (mine u (schedulable conf g FLEETS jpu d))))]" by (metis set_map)
  moreover have "Suc (got u) \<in> set [1..<Suc (min (min (nat slots) (budget FLEETS jpu d u))
      (length (mine u (schedulable conf g FLEETS jpu d))))]" using less False by auto
  ultimately have "Suc (got u) \<in> fst ` set (filter (?U u) X)" by (simp only:)
  then obtain x where x: "x \<in> set X" "?U u x" "fst x = Suc (got u)" by auto
  have "x \<notin> set (take (nat slots) X)" using ranks [of u] x(2,3) by force
  then have late: "x \<in> set (drop (nat slots) X)" using x(1) by (metis Un_iff append_take_drop_id set_append)
  have "got v \<in> fst ` set (filter (?U v) (take (nat slots) X))" using ranks [of v] False by auto
  then obtain y where y: "y \<in> set (take (nat slots) X)" "fst y = got v" by auto
  have "sorted (map fst (take (nat slots) X) @ map fst (drop (nat slots) X))"
    using offered_sorted [of conf slots g FLEETS jpu d] unfolding X_def by (metis append_take_drop_id map_append)
  then have "fst y \<le> fst x" using late y(1) by (auto simp: sorted_append)
  then show ?thesis using y(2) x(3) by simp
qed

text \<open>A queue of two users: the first has three jobs, one of them older than the only job of the second.\<close>

definition queued_job :: "string \<Rightarrow> nat \<Rightarrow> int \<Rightarrow> job" where
  "queued_job i u t = Job_new i \<lparr>user_id = u, username = [], is_active = True, user_groups = []\<rparr> t"

definition ex_queue :: db where
  "ex_queue = \<lparr>job_tbl = [queued_job ''a1'' 1 10, queued_job ''a2'' 1 11, queued_job ''b1'' 2 12, queued_job ''a3'' 1 9],
     event_tbl = [], outbox_tbl = [], outbox_seq = 0, mirror_tbl = [], blocked_tbl = []\<rparr>"

text \<open>
  C19: The tick of the Fleets scheduler shares its slots in rounds. The jobs it takes are queued, not blocked, not
  more than the slots, and no job twice. No user gets over the limit of jobs per user, counting the ones
  that run. Of each user the oldest queued jobs are taken. If slots are left over, every user got everything
  the limit allows; and when a user who still has queued jobs within the limit got \<open>k\<close> of them, nobody got
  more than \<open>k + 1\<close>.
\<close>

theorem fair_share_rounds:
  fixes conf g jpu d lim and slots :: int
  defines "R \<equiv> get_jobs_to_schedule_fair_share conf lim slots g FLEETS (Some jpu) d"
    and "Q \<equiv> schedulable conf g FLEETS jpu d"
  assumes "distinct (map job_id (job_tbl d))" "0 \<le> slots"
  shows "set R \<subseteq> set Q \<and> distinct (map job_id R) \<and> int (length R) \<le> slots \<and>
     (\<forall>u. int (running_of FLEETS d u + length (mine u R)) \<le> max (int (running_of FLEETS d u)) jpu \<and>
        mine u R = take (length (mine u R)) (sort_key created (mine u Q)) \<and>
        (int (length R) < slots \<longrightarrow> length (mine u R) = min (length (mine u Q)) (budget FLEETS jpu d u)) \<and>
        (length (mine u R) < min (length (mine u Q)) (budget FLEETS jpu d u) \<longrightarrow>
           (\<forall>v. length (mine v R) \<le> Suc (length (mine u R)))))"
proof -
  define X where "X = offered conf slots g FLEETS jpu d"
  have R: "R = map snd (take (nat slots) X)"
    using assms(4) by (simp add: R_def fair_share_offered py_take_def X_def take_map)
  note pre = offered_prefix_of_user [OF refl, where conf = conf and g = g and jpu = jpu and d = d and slots = slots, folded X_def R Q_def]
  have sub: "set R \<subseteq> set Q" unfolding R Q_def using offered_subset by (fastforce simp: X_def dest: in_set_takeD)
  have "distinct (map (job_id \<circ> snd) (take (nat slots) X))"
    using offered_distinct [OF assms(3)] by (metis X_def distinct_take take_map)
  then have dist: "distinct (map job_id R)" by (simp add: R)
  have len: "int (length R) \<le> slots" using assms(4) by (simp add: R)
  have cap: "int (running_of FLEETS d u + length (mine u R)) \<le> max (int (running_of FLEETS d u)) jpu" for u
    using pre(2) [of u] by (auto simp: budget_def)
  have rest: "length (mine u R) = min (length (mine u Q)) (budget FLEETS jpu d u)" if "int (length R) < slots" for u
  proof -
    have "length X < nat slots" using that by (simp add: R)
    then have "R = map snd X" by (simp add: R)
    then have "length (mine u R) = min (min (nat slots) (budget FLEETS jpu d u)) (length (mine u Q))"
      using pre(1) [of u] by (simp add: min.commute)
    moreover have "length (mine u R) < nat slots"
    proof -
      have "length (mine u R) \<le> length R" by (simp add: mine_def)
      then show ?thesis using that by linarith
    qed
    ultimately show ?thesis by linarith
  qed
  have turn: "length (mine v R) \<le> Suc (length (mine u R))"
    if "length (mine u R) < min (length (mine u Q)) (budget FLEETS jpu d u)" for u v
    using fair_share_turns [of u slots conf g jpu d v] that unfolding R X_def Q_def .
  show ?thesis using sub dist len cap rest pre(3) turn by (intro conjI allI impI)
qed

theorem fair_share_rounds_witness:
  "map job_id (get_jobs_to_schedule_fair_share (\<lambda>_. []) 0 2 False FLEETS (Some 5) ex_queue) = [''a3'', ''b1''] \<and>
   length (mine 1 (get_jobs_to_schedule_fair_share (\<lambda>_. []) 0 2 False FLEETS (Some 5) ex_queue)) \<le>
     Suc (length (mine 2 (get_jobs_to_schedule_fair_share (\<lambda>_. []) 0 2 False FLEETS (Some 5) ex_queue))) \<and>
   (\<forall>v. length (mine v (get_jobs_to_schedule_fair_share (\<lambda>_. []) 0 2 False FLEETS (Some 5) ex_queue)) \<le> 2)"
proof -
  let ?R = "get_jobs_to_schedule_fair_share (\<lambda>_. []) 0 2 False FLEETS (Some 5) ex_queue"
  have R: "map job_id ?R = [''a3'', ''b1'']" by code_simp
  have one: "length (mine 1 ?R) = 1" "length (mine 2 ?R) = 1"
    "length (mine 1 ?R) < min (length (mine 1 (schedulable (\<lambda>_. []) False FLEETS 5 ex_queue))) (budget FLEETS 5 ex_queue 1)"
    by code_simp+
  have "distinct (map job_id (job_tbl ex_queue))" "(0::int) \<le> 2" by code_simp+
  from fair_share_rounds [OF this, of "\<lambda>_. []" 0 False 5] one(3)
  have "\<forall>v. length (mine v ?R) \<le> Suc (length (mine 1 ?R))" by blast
  then show ?thesis using R one by (simp add: numeral_2_eq_2)
qed

end
