(* ===== verification/Fleets_Operations.thy ===== *)
theory Fleets_Operations
  imports Job_Lifecycle Circuit_Breaker Fair_Share
begin

text \<open>
  What the scheduler does to one Fleets job behind the circuit breakers of its region
  (\<^verbatim>\<open>scheduler/schedule.py\<close>): \<open>FleetsJobSubmitter\<close>, \<open>FleetsJobCanceller\<close> and
  \<open>FleetsFleetDeleter\<close>. The answers of the runner, which calls Code Engine and COS, are parameters.
\<close>

section \<open>State and environment\<close>

datatype metric =
    Skipped_by_breaker "string option"
  | Task_items string nat
  | Jobs_terminal string Status
  | Filler_jobs_stopped
  | Filler_jobs_ended Status
  | Filler_jobs_created string
  | Filler_profile_slots int
  | Filler_profile_jobs int string
  | Filler_profile_jobs_cleared
  | Execution_duration int string
  | Queue_wait_time int string
  | Fleet_deletes string string
  | Held_fleets nat string
  | Held_fleets_cleared

text \<open>
  The state the scheduler tasks share: the database with the senders, the breakers, the set
  \<open>_REFUSED_CANCEL_WARNED\<close> and the metrics reported so far.
\<close>

record sched =
  sc_world :: world
  sc_breakers :: FleetsBreakers
  sc_warned :: "string list"
  sc_metrics :: "metric list"

abbreviation sdb :: "sched \<Rightarrow> db" where
  "sdb s \<equiv> wdb (sc_world s)"

text \<open>
  The surroundings of the work on one job: clocks, configuration, the kill signal, and what the runner of the job answers.
  \<open>oe_submit\<close> also gives the \<open>fleet_id\<close> the runner leaves on the instance, \<open>oe_text\<close> is the
  class name and the text of an exception, \<open>oe_env\<close> parses the \<open>env_vars\<close> of the job, and
  \<open>oe_count\<close> is \<open>count_fleets\<close>.
\<close>

record ops_env =
  oe_call :: call_env
  oe_mono :: int
  oe_conf :: "ConfigKey \<Rightarrow> string"
  oe_killed :: bool
  oe_submit :: "job \<Rightarrow> unit res \<times> string option"
  oe_stop :: "job \<Rightarrow> bool res"
  oe_status :: "job \<Rightarrow> Status option res"
  oe_free :: "job \<Rightarrow> bool res"
  oe_count :: "code_engine_project \<Rightarrow> int res"
  oe_env :: "job \<Rightarrow> unit res"
  oe_text :: "exn \<Rightarrow> string \<times> string"
  oe_timeout :: int

abbreviation oe_now :: "ops_env \<Rightarrow> int" where
  "oe_now env \<equiv> env_now (oe_call env)"

type_synonym 'a op = "job \<times> sched \<Rightarrow> 'a res \<times> job \<times> sched"

definition on_world :: "'a call \<Rightarrow> 'a op" where
  "on_world f = (\<lambda>(j, s). case f (j, sc_world s) of (r, j', w) \<Rightarrow> (r, j', s\<lparr>sc_world := w\<rparr>))"

definition on_db :: "(job \<times> db \<Rightarrow> 'a res \<times> job \<times> db) \<Rightarrow> 'a op" where
  "on_db f = on_world (\<lambda>(j, w). case f (j, wdb w) of (r, j', d) \<Rightarrow> (r, j', w\<lparr>wdb := d\<rparr>))"

definition add_metric :: "metric \<Rightarrow> sched \<Rightarrow> sched" where
  "add_metric m s = s\<lparr>sc_metrics := sc_metrics s @ [m]\<rparr>"

definition error_event :: "ops_env \<Rightarrow> JobEventContext \<Rightarrow> string \<Rightarrow> string \<Rightarrow> exn \<Rightarrow> job \<Rightarrow> sched \<Rightarrow> sched" where
  "error_event env ctx code msg e j s =
     s\<lparr>sc_world := (sc_world s)\<lparr>wdb := snd (add_error_event (oe_now env) (job_id j) SCHEDULER ctx code msg
          (fst (oe_text env e)) (ArgsText (snd (oe_text env e))) (sdb s))\<rparr>\<rparr>"

definition cos_record :: "(breaker \<Rightarrow> breaker) \<Rightarrow> string option \<Rightarrow> sched \<Rightarrow> sched" where
  "cos_record f rg s = s\<lparr>sc_breakers := (sc_breakers s)\<lparr>cos := record_in f rg (cos (sc_breakers s))\<rparr>\<rparr>"

definition ce_record :: "(breaker \<Rightarrow> breaker) \<Rightarrow> string option \<Rightarrow> sched \<Rightarrow> sched" where
  "ce_record f rg s = s\<lparr>sc_breakers := (sc_breakers s)\<lparr>code_engine := record_in f rg (code_engine (sc_breakers s))\<rparr>\<rparr>"

abbreviation fails :: "ops_env \<Rightarrow> breaker \<Rightarrow> breaker" where
  "fails env \<equiv> record_failure (oe_conf env) FLEETS_BREAKER_KEYS (oe_mono env)"

section \<open>FleetsJobSubmitter\<close>

definition submitter_paused :: "ops_env \<Rightarrow> string option \<Rightarrow> sched \<Rightarrow> bool \<times> sched" where
  "submitter_paused env rg s =
     (case fleets_paused (oe_conf env) (oe_mono env) rg (sc_breakers s) of (p, fb) \<Rightarrow> (p, s\<lparr>sc_breakers := fb\<rparr>))"

definition str_of :: "string option \<Rightarrow> string" where
  "str_of x = (case x of None \<Rightarrow> ''None'' | Some t \<Rightarrow> t)"

definition cancel_orphan_fleet :: "ops_env \<Rightarrow> JobEventContext \<Rightarrow> job \<Rightarrow> sched \<Rightarrow> unit res \<times> sched" where
  "cancel_orphan_fleet env ctx j s =
     (case oe_stop env j of
        Inr _ \<Rightarrow> (Inr (), s)
      | Inl e \<Rightarrow>
          if is_RunnerError e
          then (Inr (), error_event env ctx ''FLEET_LEFT_RUNNING''
                  (''Fleet '' @ str_of (fleet_id j) @ '' was created but could not be cancelled'') e j s)
          else (Inl e, s))"

definition after_submit :: "ops_env \<Rightarrow> JobEventContext \<Rightarrow> unit op" where
  "after_submit env ctx = (\<lambda>(j, s).
     (case on_db (update_fields (oe_now env) [F_fleet_id (fleet_id j), F_env_vars ''{}'']) (j, s) of
        (Inl e, j1, s1) \<Rightarrow> (Inl e, j1, s1)
      | (Inr _, j1, s1) \<Rightarrow>
          (case on_world (queued_to_pending (oe_call env) \<lparr>why_origin = SCHEDULER, why_ctx = ctx\<rparr> []) (j1, s1) of
             (Inr _, j2, s2) \<Rightarrow> (Inr (), j2, s2)
           | (Inl e, j2, s2) \<Rightarrow>
               if e = InvalidJobTransitionException
               then (case cancel_orphan_fleet env ctx j2 s2 of
                       (Inl e', s3) \<Rightarrow> (Inl e', j2, s3)
                     | (Inr _, s3) \<Rightarrow> (Inl e, j2, s3))
               else (Inl e, j2, s2))))"

definition refused_submit :: "ops_env \<Rightarrow> JobEventContext \<Rightarrow> exn \<Rightarrow> unit op" where
  "refused_submit env ctx e = (\<lambda>(j, s).
     let s1 = error_event env ctx ''FLEET_SUBMIT_FAILED'' ''The job could not be submitted to Code Engine'' e j s in
     (case on_db (update_fields (oe_now env) [F_env_vars ''{}'']) (j, s1) of
        (Inl e', j2, s2) \<Rightarrow> (Inl e', j2, s2)
      | (Inr _, j2, s2) \<Rightarrow>
          (case on_world (to_failed (oe_call env) \<lparr>why_origin = SCHEDULER, why_ctx = ctx\<rparr> []) (j2, s2) of
             (Inr _, j3, s3) \<Rightarrow> (Inl e, j3, s3)
           | (Inl e', j3, s3) \<Rightarrow> (if e' = InvalidJobTransitionException then Inl e else Inl e', j3, s3))))"

fun is_CosRetryableError :: "exn \<Rightarrow> bool" where
  "is_CosRetryableError (CosRetryableError _) = True"
| "is_CosRetryableError _ = False"

definition fleets_submit :: "ops_env \<Rightarrow> JobEventContext \<Rightarrow> unit op" where
  "fleets_submit env ctx = (\<lambda>(j, s).
     let (p, s0) = submitter_paused env (ce_region j) s in
     if p then (Inl (RunnerRetryableError (''Fleets submits to region '' @ str_of (ce_region j) @ '' are paused by the circuit breaker'')), j, s0)
     else
       let (ans, fid) = oe_submit env j; j1 = j\<lparr>fleet_id := fid\<rparr> in
       (case ans of
          Inr _ \<Rightarrow> after_submit env ctx (j1, ce_record record_success (ce_region j) (cos_record record_success (ce_region j) s0))
        | Inl e \<Rightarrow>
            if is_CosRetryableError e then (Inl e, j1, cos_record (fails env) (ce_region j) s0)
            else if is_RunnerRetryableError e then (Inl e, j1, ce_record (fails env) (ce_region j) s0)
            else if is_RunnerError e then refused_submit env ctx e (j1, s0)
            else (Inl e, j1, s0)))"

section \<open>FleetsJobCanceller\<close>

definition canceller_paused :: "ops_env \<Rightarrow> string option \<Rightarrow> sched \<Rightarrow> bool \<times> sched" where
  "canceller_paused env rg s =
     (case paused (oe_conf env) FLEETS_BREAKER_KEYS (oe_mono env) rg (code_engine (sc_breakers s)) of
        (p, bs) \<Rightarrow> (p, s\<lparr>sc_breakers := (sc_breakers s)\<lparr>code_engine := bs\<rparr>\<rparr>))"

definition fleets_cancel :: "ops_env \<Rightarrow> JobEventContext \<Rightarrow> bool op" where
  "fleets_cancel env ctx = (\<lambda>(j, s).
     if \<not> truthy (fleet_id j) \<or> job_program j = None then (Inr False, j, s)
     else
       let (p, s0) = canceller_paused env (ce_region j) s in
       if p then (Inl (RunnerRetryableError (''Fleets cancels in region '' @ str_of (ce_region j) @ '' are paused by the circuit breaker'')), j, s0)
       else
         (case on_world (stop (oe_call env) \<lparr>why_origin = SCHEDULER, why_ctx = ctx\<rparr> (oe_stop env j)) (j, s0) of
            (Inl e, j1, s1) \<Rightarrow>
              (Inl e, j1,
                if e = FleetAppearedError then ce_record record_success (ce_region j) s1
                else if is_RunnerRetryableError e then ce_record (fails env) (ce_region j) s1
                else if e = InvalidJobTransitionException then ce_record record_success (ce_region j) s1
                else s1)
          | (Inr written, j1, s1) \<Rightarrow>
              let s2 = ce_record record_success (ce_region j) s1
              in (Inr (written = STOPPING), j1, s2\<lparr>sc_warned := filter (\<lambda>i. i \<noteq> job_id j) (sc_warned s2)\<rparr>)))"

section \<open>FleetsFleetDeleter\<close>

definition deleter_paused :: "ops_env \<Rightarrow> string option \<Rightarrow> sched \<Rightarrow> bool \<times> sched" where
  "deleter_paused env rg s =
     (case paused (oe_conf env) FLEETS_BREAKER_KEYS (oe_mono env) rg (cleanup (sc_breakers s)) of
        (p, bs) \<Rightarrow> (p, s\<lparr>sc_breakers := (sc_breakers s)\<lparr>cleanup := bs\<rparr>\<rparr>))"

definition deleter_paused_regions :: "ops_env \<Rightarrow> sched \<Rightarrow> string option list \<times> sched" where
  "deleter_paused_regions env s =
     (case paused_regions (oe_conf env) FLEETS_BREAKER_KEYS (oe_mono env) (cleanup (sc_breakers s)) of
        (rs, bs) \<Rightarrow> (rs, s\<lparr>sc_breakers := (sc_breakers s)\<lparr>cleanup := bs\<rparr>\<rparr>))"

definition fleet_delete :: "ops_env \<Rightarrow> job \<Rightarrow> sched \<Rightarrow> bool res \<times> sched" where
  "fleet_delete env j s =
     (let (p, s0) = deleter_paused env (fleet_region j) s in
      if p then (Inl (RunnerRetryableError (''Fleet deletes in region '' @ str_of (fleet_region j) @ '' are paused by the circuit breaker'')), s0)
      else (oe_free env j, s0))"

definition record_cycle :: "ops_env \<Rightarrow> bool \<Rightarrow> string option \<Rightarrow> sched \<Rightarrow> sched" where
  "record_cycle env answered rg s =
     s\<lparr>sc_breakers := (sc_breakers s)\<lparr>cleanup :=
         record_in (if answered then record_success else fails env) rg (cleanup (sc_breakers s))\<rparr>\<rparr>"

section \<open>The operations refine the life cycle\<close>

text \<open>
  The instance belongs to a stored row. Rows are never deleted and keep the columns that identify a job,
  so it stays so along every step of the life cycle.
\<close>

definition present :: "job \<Rightarrow> db \<Rightarrow> bool" where
  "present j d \<longleftrightarrow> (\<exists>r. job_row d (job_id j) = Some r \<and> same_identity j r)"

abbreviation life_steps :: "db \<Rightarrow> db \<Rightarrow> bool" where
  "life_steps \<equiv> life_step\<^sup>*\<^sup>*"

lemma same_identity_refl [simp]: "same_identity j j"
  by (simp add: same_identity_def)

lemma same_identity_trans: "same_identity a b \<Longrightarrow> same_identity b c \<Longrightarrow> same_identity a c"
  by (simp add: same_identity_def)

lemma present_loaded: "present j d \<Longrightarrow> loaded j d"
  by (auto simp: present_def loaded_def)

lemma transition_effect_row:
  assumes "transition_effect j new chans d d'" "job_row d i = Some r"
  shows "\<exists>r'. job_row d' i = Some r' \<and> same_identity r r'"
  using assms by (cases "i = job_id j") (auto simp: transition_effect_def same_identity_def)

lemma update_fields_keeps_rows:
  assumes "update_fields t fs (j, d) = (ru, j', d')" "job_row d i = Some r"
  shows "\<exists>r'. job_row d' i = Some r' \<and> same_identity r r'"
  using assms(2) update_fields_row [OF assms(1)] by (auto simp: same_identity_def)

lemma life_step_row: "life_step d d' \<Longrightarrow> job_row d i = Some r \<Longrightarrow> \<exists>r'. job_row d' i = Some r' \<and> same_identity r r'"
proof (induction rule: life_step.induct)
  case (step_pending env why fs j w ra j' w')
  then show ?case using q2p.call_effect transition_effect_row same_identity_refl by metis
next
  case (step_running env why fs j w ra j' w')
  then show ?case using p2r.call_effect transition_effect_row same_identity_refl by metis
next
  case (step_succeeded env why fs j w ra j' w')
  then show ?case using succ.call_effect transition_effect_row same_identity_refl by metis
next
  case (step_failed env why fs j w ra j' w')
  then show ?case using failed.call_effect transition_effect_row same_identity_refl by metis
next
  case (step_stopped env why fs j w ra j' w')
  then show ?case using stopped.call_effect transition_effect_row same_identity_refl by metis
next
  case (step_stop env why answer j w rs j' w')
  then show ?case using stop_m.call_effect transition_effect_row same_identity_refl by metis
next
  case (step_create d j mirrored t org cx)
  then have "job_row (store_job t org cx j mirrored d) i = Some r"
    by (auto simp: store_job_def add_status_event_def Let_def job_row_def row_of_append)
  then show ?case by simp
next
  case (step_create_filler d j)
  then have "job_row (store_filler j d) i = Some r"
    by (auto simp: store_filler_def job_row_def row_of_append)
  then show ?case by simp
qed (auto simp: job_row_def intro: update_fields_keeps_rows [unfolded job_row_def])

lemma life_steps_row: "life_steps d d' \<Longrightarrow> job_row d i = Some r \<Longrightarrow> \<exists>r'. job_row d' i = Some r' \<and> same_identity r r'"
proof (induction arbitrary: rule: rtranclp_induct)
  case (step d1 d2)
  then show ?case using life_step_row same_identity_trans by metis
qed simp

lemma life_steps_present: "life_steps d d' \<Longrightarrow> present j d \<Longrightarrow> same_identity j' j \<Longrightarrow> present j' d'"
proof -
  assume st: "life_steps d d'" and pr: "present j d" and same: "same_identity j' j"
  then obtain r where r: "job_row d (job_id j') = Some r" "same_identity j' r"
    by (auto simp: present_def same_identity_def)
  from life_steps_row [OF st r(1)] show "present j' d'"
    unfolding present_def using same_identity_trans [OF r(2)] by blast
qed

lemma life_steps_reach: "life_steps d d' \<Longrightarrow> life_reach d \<Longrightarrow> life_reach d'"
  by (induction rule: rtranclp_induct) (auto intro: life_next)

end
