(* ===== verification/Fleets_Refinement.thy ===== *)
theory Fleets_Refinement
  imports Fleets_Operations
begin

text \<open>
  The operations of the scheduler on one job are made of steps of the life cycle, so everything that holds in
  every reachable database holds after them.
\<close>

section \<open>What a service call does to the instance\<close>

definition keeps_id :: "(job \<times> 'w \<Rightarrow> 'a res \<times> job \<times> 'w) \<Rightarrow> bool" where
  "keeps_id f \<longleftrightarrow> (\<forall>j w r j' w'. f (j, w) = (r, j', w') \<longrightarrow> same_identity j' j)"

lemma keeps_idD: "keeps_id f \<Longrightarrow> f (j, w) = (r, j', w') \<Longrightarrow> same_identity j' j"
  unfolding keeps_id_def by blast

lemma keeps_idI: "(\<And>j w r j' w'. f (j, w) = (r, j', w') \<Longrightarrow> same_identity j' j) \<Longrightarrow> keeps_id f"
  unfolding keeps_id_def by blast

lemma same_identity_fields [simp]:
  "same_identity (j\<lparr>version := v\<rparr>) k \<longleftrightarrow> same_identity j k" "same_identity (j\<lparr>fleet_id := f\<rparr>) k \<longleftrightarrow> same_identity j k"
  "same_identity (j\<lparr>status := st\<rparr>) k \<longleftrightarrow> same_identity j k" "same_identity (j\<lparr>updated := t\<rparr>) k \<longleftrightarrow> same_identity j k"
  "same_identity (apply_fields fs j) k \<longleftrightarrow> same_identity j k" "same_identity (apply_field g j) k \<longleftrightarrow> same_identity j k"
  by (simp_all add: same_identity_def)

lemma keeps_id_update_fields: "keeps_id (update_fields t fs)"
  by (rule keeps_idI) (auto dest!: update_fields_outcome)

lemma keeps_id_change_status: "keeps_id (change_status env new why fs)"
proof (rule keeps_idI)
  fix j d r j' d' assume c: "change_status env new why fs (j, d) = (r, j', d')"
  show "same_identity j' j"
  proof (cases r)
    case (Inl e)
    then show ?thesis using change_status_err c by fastforce
  next
    case (Inr e)
    then show ?thesis using c by (auto elim!: change_status_ok)
  qed
qed

lemma keeps_id_in_db: "keeps_id block \<Longrightarrow> keeps_id (in_db block)"
  by (rule keeps_idI) (auto simp: in_db_def atomic_def split: prod.splits sum.splits dest: keeps_idD)

lemma keeps_id_then_mirror: "keeps_id f \<Longrightarrow> keeps_id (then_mirror env f)"
  by (rule keeps_idI) (auto simp: then_mirror_def split: prod.splits sum.splits dest: keeps_idD)

lemma keeps_id_in_progress: "keeps_id (send_job_in_progress env b started)"
  by (rule keeps_idI) (auto simp: send_job_in_progress_def Let_def split: if_splits sum.splits)

lemma keeps_id_terminal_block: "keeps_id (terminal_block env fee new why fs)"
  by (rule keeps_idI)
    (auto simp: terminal_block_def split: prod.splits sum.splits dest: keeps_idD [OF keeps_id_change_status])

lemma keeps_id_stop_block: "keeps_id (stop_block env why)"
  by (rule keeps_idI)
    (auto simp: stop_block_def split: prod.splits sum.splits option.splits if_splits dest: keeps_idD [OF keeps_id_change_status])

lemma keeps_id_map:
  "keeps_id f \<Longrightarrow> keeps_id (\<lambda>s. case f s of (Inl e, s') \<Rightarrow> (Inl e, s') | (Inr _, s') \<Rightarrow> (Inr a, s'))"
  by (rule keeps_idI) (auto split: prod.splits sum.splits dest: keeps_idD)

lemma keeps_id_pending_to_running: "keeps_id (pending_to_running env why fs)"
  unfolding pending_to_running_def
proof (rule keeps_id_then_mirror)
  show "keeps_id (\<lambda>s. case in_db (change_status env RUNNING why fs) s of (Inl e, j, w) \<Rightarrow> (Inl e, j, w)
      | (Inr ev, j, w) \<Rightarrow> (case send_job_in_progress env True (Some (je_created ev)) (j, w) of
          (Inl e, j', w') \<Rightarrow> (Inl e, j', w') | (Inr _, j', w') \<Rightarrow> (Inr ev, j', w')))"
    by (rule keeps_idI) (auto split: prod.splits sum.splits intro: same_identity_trans
        dest: keeps_idD [OF keeps_id_in_db [OF keeps_id_change_status]] keeps_idD [OF keeps_id_in_progress])
qed

lemma keeps_id_stop: "keeps_id (stop env why ans)"
proof -
  have m: "keeps_id (then_mirror env (\<lambda>s. case in_db (change_status env STOPPING why []) s of
      (Inl e, s') \<Rightarrow> (Inl e, s') | (Inr _, s') \<Rightarrow> (Inr STOPPING, s')))"
    by (intro keeps_id_then_mirror keeps_id_map keeps_id_in_db keeps_id_change_status)
  show ?thesis
    by (rule keeps_idI) (auto simp: stop_def split: if_splits sum.splits bool.splits
        dest: keeps_idD [OF m] keeps_idD [OF keeps_id_in_db [OF keeps_id_stop_block]])
qed

lemma keeps_id_terminal:
  "keeps_id (to_succeeded env why fs)" "keeps_id (to_failed env why fs)" "keeps_id (to_stopped env why fs)"
  unfolding to_succeeded_def to_failed_def to_stopped_def to_stopped_or_failed_def
  by (rule keeps_id_in_db, rule keeps_id_terminal_block)+

lemma keeps_id_queued_to_pending: "keeps_id (queued_to_pending env why fs)"
  unfolding queued_to_pending_def by (intro keeps_id_then_mirror keeps_id_in_db keeps_id_change_status)

lemmas keeps_id_methods = keeps_id_pending_to_running keeps_id_stop keeps_id_queued_to_pending keeps_id_terminal

section \<open>Operations as an interface\<close>

text \<open>
  An operation of the scheduler on one job: on an instance of a stored row it does nothing to the database but
  steps of the life cycle, and the instance it leaves is of the same job.
\<close>

locale lifecycle_op =
  fixes operation :: "job \<times> sched \<Rightarrow> 'a res \<times> job \<times> sched" and env_ok :: bool
  assumes refines: "env_ok \<Longrightarrow> present j (sdb s) \<Longrightarrow> operation (j, s) = (r, j', s') \<Longrightarrow>
      life_steps (sdb s) (sdb s') \<and> same_identity j' j"
begin

lemma stays_reachable:
  "env_ok \<Longrightarrow> present j (sdb s) \<Longrightarrow> operation (j, s) = (r, j', s') \<Longrightarrow> life_reach (sdb s) \<Longrightarrow> life_reach (sdb s')"
  using refines life_steps_reach by blast

lemma stays_present:
  "env_ok \<Longrightarrow> present j (sdb s) \<Longrightarrow> operation (j, s) = (r, j', s') \<Longrightarrow> present j' (sdb s')"
  using refines life_steps_present by blast

end

lemma on_world_op:
  assumes "\<And>j w r j' w'. f (j, w) = (r, j', w') \<Longrightarrow> loaded j (wdb w) \<Longrightarrow> life_step (wdb w) (wdb w')" "keeps_id f"
    and "present j (sdb s)" "on_world f (j, s) = (r, j', s')"
  shows "life_steps (sdb s) (sdb s') \<and> same_identity j' j"
proof -
  obtain w' where f: "f (j, sc_world s) = (r, j', w')" "s' = s\<lparr>sc_world := w'\<rparr>"
    using assms(4) by (auto simp: on_world_def split: prod.splits)
  then have "life_step (sdb s) (sdb s')" using assms(1) present_loaded [OF assms(3)] by simp
  then show ?thesis using keeps_idD [OF assms(2) f(1)] by blast
qed

lemma on_db_fields:
  assumes "present j (sdb s)" "plain_fields fs" "on_db (update_fields t fs) (j, s) = (r, j', s')"
  shows "life_steps (sdb s) (sdb s') \<and> same_identity j' j"
proof -
  obtain d' where f: "update_fields t fs (j, sdb s) = (r, j', d')" "sdb s' = d'"
    using assms(3) by (auto simp: on_db_def on_world_def split: prod.splits)
  then have "life_step (sdb s) (sdb s')" using assms(2) step_fields by blast
  then show ?thesis using keeps_idD [OF keeps_id_update_fields f(1)] by blast
qed

lemma error_event_steps:
  assumes "present j (sdb s)"
  shows "life_step (sdb s) (sdb (error_event env ctx code msg e j s))"
  unfolding error_event_def add_error_event_def Let_def
  using assms by (auto simp: present_def intro: step_event)

lemma service_ops:
  assumes "present j (sdb s)" "plain_fields fs"
  shows "on_world (queued_to_pending env why fs) (j, s) = (r, j', s') \<Longrightarrow> life_steps (sdb s) (sdb s') \<and> same_identity j' j"
    and "sender_quiet env \<Longrightarrow> on_world (pending_to_running env why fs) (j, s) = (r, j', s') \<Longrightarrow>
      life_steps (sdb s) (sdb s') \<and> same_identity j' j"
    and "on_world (to_succeeded env why fs) (j, s) = (r, j', s') \<Longrightarrow> life_steps (sdb s) (sdb s') \<and> same_identity j' j"
    and "on_world (to_failed env why fs) (j, s) = (r, j', s') \<Longrightarrow> life_steps (sdb s) (sdb s') \<and> same_identity j' j"
    and "on_world (to_stopped env why fs) (j, s) = (r, j', s') \<Longrightarrow> life_steps (sdb s) (sdb s') \<and> same_identity j' j"
    and "on_world (stop env why ans) (j, s) = (rs, j', s') \<Longrightarrow> life_steps (sdb s) (sdb s') \<and> same_identity j' j"
proof -
  show "on_world (queued_to_pending env why fs) (j, s) = (r, j', s') \<Longrightarrow> life_steps (sdb s) (sdb s') \<and> same_identity j' j"
    by (rule on_world_op [OF _ keeps_id_methods(3) assms(1)]) (auto intro: step_pending assms(2))
  show "sender_quiet env \<Longrightarrow> on_world (pending_to_running env why fs) (j, s) = (r, j', s') \<Longrightarrow>
      life_steps (sdb s) (sdb s') \<and> same_identity j' j"
    by (rule on_world_op [OF _ keeps_id_methods(1) assms(1)]) (auto intro: step_running assms(2))
  show "on_world (to_succeeded env why fs) (j, s) = (r, j', s') \<Longrightarrow> life_steps (sdb s) (sdb s') \<and> same_identity j' j"
    by (rule on_world_op [OF _ keeps_id_methods(4) assms(1)]) (auto intro: step_succeeded assms(2))
  show "on_world (to_failed env why fs) (j, s) = (r, j', s') \<Longrightarrow> life_steps (sdb s) (sdb s') \<and> same_identity j' j"
    by (rule on_world_op [OF _ keeps_id_methods(5) assms(1)]) (auto intro: step_failed assms(2))
  show "on_world (to_stopped env why fs) (j, s) = (r, j', s') \<Longrightarrow> life_steps (sdb s) (sdb s') \<and> same_identity j' j"
    by (rule on_world_op [OF _ keeps_id_methods(6) assms(1)]) (auto intro: step_stopped assms(2))
  show "on_world (stop env why ans) (j, s) = (rs, j', s') \<Longrightarrow> life_steps (sdb s) (sdb s') \<and> same_identity j' j"
    by (rule on_world_op [OF _ keeps_id_methods(2) assms(1)]) (auto intro: step_stop)
qed

lemma plain_extra [simp]: "plain_fields []" "plain_fields [F_env_vars e]" "plain_fields [F_fleet_id f, F_env_vars e]"
  "plain_fields [F_sub_status x, F_env_vars e]" "plain_fields [F_fleet_deleted_at t]"
  by (simp_all add: plain_fields_def)

text \<open>Breakers, metrics and warnings are not in the database.\<close>

lemma sched_frame [simp]:
  "sdb (cos_record f rg s) = sdb s" "sdb (ce_record f rg s) = sdb s" "sdb (snd (submitter_paused env rg s)) = sdb s"
  "sdb (snd (canceller_paused env rg s)) = sdb s" "sdb (snd (deleter_paused env rg s)) = sdb s"
  "sdb (add_metric m s) = sdb s" "sdb (s\<lparr>sc_warned := ws\<rparr>) = sdb s" "sdb (s\<lparr>sc_breakers := fb\<rparr>) = sdb s"
  by (simp_all add: cos_record_def ce_record_def submitter_paused_def canceller_paused_def deleter_paused_def add_metric_def
      split: prod.splits)

lemma present_same: "present j d \<Longrightarrow> same_identity j' j \<Longrightarrow> present j' d"
  using life_steps_present [of d d j j'] by simp

interpretation cancel_op: lifecycle_op "fleets_cancel env ctx" True for env ctx
proof
  fix j s r j' s' assume pr: "present j (sdb s)" and c: "fleets_cancel env ctx (j, s) = (r, j', s')"
  obtain p s0 where s0: "canceller_paused env (ce_region j) s = (p, s0)" by fastforce
  have d0: "sdb s0 = sdb s" using sched_frame(4) [of env "ce_region j" s] s0 by simp
  obtain r1 j1 s1 where st: "on_world (stop (oe_call env) \<lparr>why_origin = SCHEDULER, why_ctx = ctx\<rparr> (oe_stop env j)) (j, s0) = (r1, j1, s1)"
    by (metis prod_cases3)
  have "life_steps (sdb s0) (sdb s1) \<and> same_identity j1 j"
    by (rule service_ops(6) [OF _ plain_extra(1) st]) (use pr d0 in simp)
  then show "life_steps (sdb s) (sdb s') \<and> same_identity j' j"
    using c s0 st d0 by (auto simp: fleets_cancel_def Let_def split: if_splits sum.splits)
qed

lemma cancel_orphan_steps:
  assumes "present j (sdb s)" "cancel_orphan_fleet env ctx j s = (r, s')"
  shows "life_steps (sdb s) (sdb s')"
  using assms(2) error_event_steps [OF assms(1)]
  by (auto simp: cancel_orphan_fleet_def split: sum.splits if_splits intro: r_into_rtranclp)

lemma after_submit_steps:
  assumes pr: "present j (sdb s)" and c: "after_submit env ctx (j, s) = (r, j', s')"
  shows "life_steps (sdb s) (sdb s') \<and> same_identity j' j"
proof -
  let ?why = "\<lparr>why_origin = SCHEDULER, why_ctx = ctx\<rparr>"
  obtain r1 j1 s1 where u: "on_db (update_fields (oe_now env) [F_fleet_id (fleet_id j), F_env_vars ''{}'']) (j, s) = (r1, j1, s1)"
    by (metis prod_cases3)
  note 1 = on_db_fields [OF pr plain_extra(3) u]
  then have p1: "present j1 (sdb s1)" using life_steps_present [OF _ pr] by blast
  obtain r2 j2 s2 where q: "on_world (queued_to_pending (oe_call env) ?why []) (j1, s1) = (r2, j2, s2)"
    by (metis prod_cases3)
  note 2 = service_ops(1) [OF p1 plain_extra(1) q]
  then have p2: "present j2 (sdb s2)" using life_steps_present [OF _ p1] by blast
  obtain r3 s3 where o: "cancel_orphan_fleet env ctx j2 s2 = (r3, s3)" by fastforce
  note 3 = cancel_orphan_steps [OF p2 o]
  consider "s' = s1 \<and> j' = j1" | "s' = s2 \<and> j' = j2" | "s' = s3 \<and> j' = j2"
    using c u q o by (auto simp: after_submit_def split: sum.splits if_splits)
  then show ?thesis using 1 2 3 by cases (auto intro: rtranclp_trans same_identity_trans)
qed

lemma refused_submit_steps:
  assumes pr: "present j (sdb s)" and c: "refused_submit env ctx e (j, s) = (r, j', s')"
  shows "life_steps (sdb s) (sdb s') \<and> same_identity j' j"
proof -
  let ?why = "\<lparr>why_origin = SCHEDULER, why_ctx = ctx\<rparr>"
  define s1 where "s1 = error_event env ctx ''FLEET_SUBMIT_FAILED'' ''The job could not be submitted to Code Engine'' e j s"
  have 1: "life_steps (sdb s) (sdb s1)" unfolding s1_def using error_event_steps [OF pr] by blast
  then have p1: "present j (sdb s1)" using life_steps_present [OF _ pr] by simp
  obtain r2 j2 s2 where u: "on_db (update_fields (oe_now env) [F_env_vars ''{}'']) (j, s1) = (r2, j2, s2)"
    by (metis prod_cases3)
  note 2 = on_db_fields [OF p1 plain_extra(2) u]
  then have p2: "present j2 (sdb s2)" using life_steps_present [OF _ p1] by blast
  obtain r3 j3 s3 where q: "on_world (to_failed (oe_call env) ?why []) (j2, s2) = (r3, j3, s3)"
    by (metis prod_cases3)
  note 3 = service_ops(4) [OF p2 plain_extra(1) q]
  consider "s' = s2 \<and> j' = j2" | "s' = s3 \<and> j' = j3"
    using c u q by (auto simp: refused_submit_def Let_def s1_def split: sum.splits if_splits)
  then show ?thesis using 1 2 3 by cases (auto intro: rtranclp_trans same_identity_trans)
qed

interpretation submit_op: lifecycle_op "fleets_submit env ctx" True for env ctx
proof
  fix j s r j' s' assume pr: "present j (sdb s)" and c: "fleets_submit env ctx (j, s) = (r, j', s')"
  obtain p s0 where s0: "submitter_paused env (ce_region j) s = (p, s0)" by fastforce
  have d0: "sdb s0 = sdb s" using sched_frame(3) [of env "ce_region j" s] s0 by simp
  obtain ans fid where sub: "oe_submit env j = (ans, fid)" by fastforce
  have pr1: "present (j\<lparr>fleet_id := fid\<rparr>) (sdb s)" by (rule present_same [OF pr]) simp
  let ?s1 = "ce_record record_success (ce_region j) (cos_record record_success (ce_region j) s0)"
  consider "sdb s' = sdb s \<and> same_identity j' j" | "after_submit env ctx (j\<lparr>fleet_id := fid\<rparr>, ?s1) = (r, j', s')"
    | e where "refused_submit env ctx e (j\<lparr>fleet_id := fid\<rparr>, s0) = (r, j', s')"
    using c s0 sub d0 by (auto simp: fleets_submit_def Let_def split: if_splits sum.splits)
  then show "life_steps (sdb s) (sdb s') \<and> same_identity j' j"
  proof cases
    case 2
    then show ?thesis using after_submit_steps [of "j\<lparr>fleet_id := fid\<rparr>" ?s1] pr1 d0 by (simp add: same_identity_def)
  next
    case (3 e)
    then show ?thesis using refused_submit_steps [of "j\<lparr>fleet_id := fid\<rparr>" s0] pr1 d0 by (simp add: same_identity_def)
  qed auto
qed

end
