(* ===== verification/Fleets_Tasks.thy ===== *)
theory Fleets_Tasks
  imports Fleets_Refinement
begin

text \<open>
  The tasks of the scheduler that move Fleets jobs: submitting queued jobs
  (\<^verbatim>\<open>schedule_fleets_jobs.py\<close>), reading their status back (\<^verbatim>\<open>update_fleets_jobs_statuses.py\<close>)
  and stopping the jobs of blocked resources (\<^verbatim>\<open>stop_blocked_fleets_jobs.py\<close>). A task reads its jobs
  once and works on those instances while other writers go on; \<open>envs n\<close> are the surroundings
  when it works on its \<open>n\<close>-th job.
\<close>

section \<open>UpdateFleetsJobsStatuses\<close>

definition provider_label :: "job \<Rightarrow> string" where
  "provider_label j =
     (case job_program j of None \<Rightarrow> ''custom''
      | Some p \<Rightarrow> (case program_provider p of None \<Rightarrow> ''custom'' | Some pr \<Rightarrow> provider_name pr))"

definition increment_terminal_counter :: "job \<Rightarrow> bool \<Rightarrow> sched \<Rightarrow> sched" where
  "increment_terminal_counter j stop_landed s =
     (if filler j then (if stop_landed then add_metric Filler_jobs_stopped s else add_metric (Filler_jobs_ended (status j)) s)
      else add_metric (Jobs_terminal (provider_label j) (status j)) s)"

definition events_with_status :: "string \<Rightarrow> Status \<Rightarrow> db \<Rightarrow> job_event list" where
  "events_with_status i st d = filter (\<lambda>e. je_job e = i \<and> data_status (je_data e) = Some st) (event_tbl d)"

definition record_execution_duration :: "ops_env \<Rightarrow> job \<Rightarrow> sched \<Rightarrow> sched" where
  "record_execution_duration env j s =
     (if filler j then s
      else (case sort_key (\<lambda>e. - je_created e) (events_with_status (job_id j) RUNNING (sdb s)) of
              [] \<Rightarrow> s
            | e # _ \<Rightarrow> add_metric (Execution_duration (oe_now env - je_created e) (provider_label j)) s))"

definition update_cause :: cause where
  "update_cause = \<lparr>why_origin = SCHEDULER, why_ctx = UPDATE_JOB_STATUS\<rparr>"

definition task_to_terminal :: "ops_env \<Rightarrow> Status \<Rightarrow> unit op" where
  "task_to_terminal env new = (\<lambda>(j, s).
     let stop_landed = (status j = STOPPING \<and> new = STOPPED) in
     (case on_world (to_terminal (oe_call env) new update_cause [F_sub_status None, F_env_vars ''{}'']) (j, s) of
        (Inl e, j1, s1) \<Rightarrow> (if e = InvalidJobTransitionException then Inr () else Inl e, j1, s1)
      | (Inr _, j1, s1) \<Rightarrow>
          let s2 = increment_terminal_counter j1 stop_landed s1
          in (Inr (), j1, if new = SUCCEEDED then record_execution_duration env j1 s2 else s2)))"

definition task_to_running :: "ops_env \<Rightarrow> int option \<Rightarrow> unit op" where
  "task_to_running env started = (\<lambda>(j, s).
     if status j = PENDING
     then (case on_world (pending_to_running (oe_call env) update_cause []) (j, s) of
             (Inl e, j1, s1) \<Rightarrow> (if e = InvalidJobTransitionException then Inr () else Inl e, j1, s1)
           | (Inr _, j1, s1) \<Rightarrow> (Inr (), j1, s1))
     else on_world (running_to_running (oe_call env) started) (j, s))"

definition note_refusal :: "job \<Rightarrow> sched \<Rightarrow> sched" where
  "note_refusal j s = s\<lparr>sc_warned := snd (first_cancel_refusal j (sc_warned s))\<rparr>"

definition stop_job_if_timeout :: "ops_env \<Rightarrow> int option \<Rightarrow> bool op" where
  "stop_job_if_timeout env started = (\<lambda>(j, s).
     if filler j then (Inr False, j, s)
     else if \<not> check_job_timeout (oe_conf env) (oe_timeout env) (oe_now env) j started then (Inr False, j, s)
     else
       let (p, s0) = canceller_paused env (ce_region j) s in
       if p then (Inr False, j, s0)
       else
         (case fleets_cancel env UPDATE_JOB_STATUS (j, s0) of
            (Inr sent, j1, s1) \<Rightarrow>
              (Inr True, j1, if sent then s1 else increment_terminal_counter j1 False s1)
          | (Inl e, j1, s1) \<Rightarrow>
              if is_RunnerRetryableError e then (Inr False, j1, s1)
              else if is_RunnerError e then (Inr False, j1, note_refusal j1 s1)
              else if e = InvalidJobTransitionException then (Inr False, j1, s1)
              else (Inl e, j1, s1)))"

definition STOPPING_DEADLINE_SECONDS :: int where
  "STOPPING_DEADLINE_SECONDS = 600"

definition stopping_deadline_passed :: "ops_env \<Rightarrow> job \<Rightarrow> db \<Rightarrow> bool" where
  "stopping_deadline_passed env j d =
     (let reference = (case sort_key je_created (events_with_status (job_id j) STOPPING d) of
                         [] \<Rightarrow> updated j | e # _ \<Rightarrow> je_created e)
      in oe_now env - reference \<ge> STOPPING_DEADLINE_SECONDS * 1000000)"

definition confirm_stop :: "ops_env \<Rightarrow> Status option \<Rightarrow> bool op" where
  "confirm_stop env new_status = (\<lambda>(j, s).
     let finish = (\<lambda>final. case task_to_terminal env final (j, s) of
                     (Inl e, j1, s1) \<Rightarrow> (Inl e, j1, s1) | (Inr _, j1, s1) \<Rightarrow> (Inr True, j1, s1)) in
     (case new_status of
        Some st \<Rightarrow> if st \<in> set TERMINAL_STATUSES then finish st
                   else if stopping_deadline_passed env j (sdb s) then finish STOPPED else (Inr False, j, s)
      | None \<Rightarrow> if stopping_deadline_passed env j (sdb s) then finish STOPPED else (Inr False, j, s)))"

fun is_ValueError :: "exn \<Rightarrow> bool" where
  "is_ValueError (ValueError _) = True"
| "is_ValueError _ = False"

text \<open>The result of an operation is replaced by \<open>a\<close> when it returns.\<close>

definition returning :: "'b \<Rightarrow> 'a res \<times> job \<times> sched \<Rightarrow> 'b res \<times> job \<times> sched" where
  "returning a x = (case x of (Inl e, js) \<Rightarrow> (Inl e, js) | (Inr _, js) \<Rightarrow> (Inr a, js))"

definition and_then :: "'a res \<times> job \<times> sched \<Rightarrow> (job \<times> sched \<Rightarrow> 'b res \<times> job \<times> sched) \<Rightarrow> 'b res \<times> job \<times> sched" where
  "and_then x f = (case x of (Inl e, js) \<Rightarrow> (Inl e, js) | (Inr _, js) \<Rightarrow> f js)"

definition update_job_status :: "ops_env \<Rightarrow> int option \<Rightarrow> bool op" where
  "update_job_status env started = (\<lambda>(j, s).
     if \<not> truthy (fleet_id j)
     then (if status j = STOPPING then returning True (task_to_terminal env STOPPED (j, s)) else (Inr False, j, s))
     else
       (case (case oe_status env j of
                Inl e \<Rightarrow> if is_RunnerError e \<or> is_ValueError e then Inr None else Inl e
              | Inr st \<Rightarrow> Inr st) of
          Inl e \<Rightarrow> (Inl e, j, s)
        | Inr new_status \<Rightarrow>
            if status j = STOPPING then confirm_stop env new_status (j, s)
            else
              (case new_status of
                 None \<Rightarrow> stop_job_if_timeout env started (j, s)
               | Some st \<Rightarrow>
                   returning True
                     (if st \<in> set TERMINAL_STATUSES then task_to_terminal env st (j, s)
                      else if st = PENDING then returning () (stop_job_if_timeout env started (j, s))
                      else if st = RUNNING
                           then and_then (task_to_running env started (j, s)) (\<lambda>x. returning () (stop_job_if_timeout env started x))
                      else task_to_terminal env FAILED (j, s)))))"

text \<open>The pass over the jobs: \<open>db_error\<close> is the first database error, raised at the end.\<close>

record pass =
  p_counter :: nat
  p_checked :: nat
  p_db_error :: "exn option"

fun update_loop :: "(nat \<Rightarrow> ops_env) \<Rightarrow> nat \<Rightarrow> (job \<times> int option) list \<Rightarrow> pass \<times> sched \<Rightarrow> bool \<times> pass \<times> sched" where
  "update_loop envs n [] ps = (True, ps)"
| "update_loop envs n ((j, started) # js) (p, s) =
     (if oe_killed (envs n) then (False, p, s)
      else
        let p1 = p\<lparr>p_checked := Suc (p_checked p)\<rparr> in
        (case update_job_status (envs n) started (j, s) of
           (Inr changed, _, s1) \<Rightarrow>
             update_loop envs (Suc n) js (if changed then p1\<lparr>p_counter := Suc (p_counter p1)\<rparr> else p1, s1)
         | (Inl e, _, s1) \<Rightarrow>
             update_loop envs (Suc n) js
               (if is_db_outage e \<and> p_db_error p1 = None then p1\<lparr>p_db_error := Some e\<rparr> else p1, s1)))"

definition jobs_to_update :: "db \<Rightarrow> (job \<times> int option) list" where
  "jobs_to_update d =
     map (\<lambda>j. (j, first_running_at (job_id j) d))
       (filter (\<lambda>j. status j \<in> set RUNNING_STATUSES \<and> runner j = FLEETS) (job_tbl d))"

definition update_fleets_run :: "int \<Rightarrow> (nat \<Rightarrow> ops_env) \<Rightarrow> sched \<Rightarrow> unit res \<times> sched" where
  "update_fleets_run limits_max_fleets envs s =
     (if limits_max_fleets \<le> 0 then (Inr (), s)
      else
        let (completed, p, s1) = update_loop envs 0 (jobs_to_update (sdb s)) (\<lparr>p_counter = 0, p_checked = 0, p_db_error = None\<rparr>, s);
            s2 = add_metric (Task_items ''UpdateFleetsJobsStatuses'' (p_checked p)) s1
        in (if completed then (case p_db_error p of None \<Rightarrow> Inr () | Some e \<Rightarrow> Inl e) else Inr (), s2))"

section \<open>StopBlockedFleetsJobs\<close>

definition blocked_stop :: "ops_env \<Rightarrow> bool op" where
  "blocked_stop env = (\<lambda>(j, s).
     let (p, s0) = canceller_paused env (ce_region j) s in
     if p then (Inr False, j, s0)
     else
       let handle = (\<lambda>e j1 s1.
             if is_RunnerRetryableError e then (Inr False, j1, s1)
             else if is_RunnerError e then (Inr False, j1, note_refusal j1 s1)
             else if e = InvalidJobTransitionException then (Inr False, j1, s1)
             else (Inl e, j1, s1)) in
       (case fleets_cancel env BLOCKED_RESOURCE_STOP (j, s0) of
          (Inr True, j1, s1) \<Rightarrow> (Inr True, j1, s1)
        | (Inr False, j1, s1) \<Rightarrow>
            (case on_world (to_stopped (oe_call env) \<lparr>why_origin = SCHEDULER, why_ctx = BLOCKED_RESOURCE_STOP\<rparr> []) (j1, s1) of
               (Inr _, j2, s2) \<Rightarrow> (Inr True, j2, s2)
             | (Inl e, j2, s2) \<Rightarrow> handle e j2 s2)
        | (Inl e, j1, s1) \<Rightarrow> handle e j1 s1))"

definition BLOCKED_RESOURCE_ERROR_MESSAGE :: string where
  "BLOCKED_RESOURCE_ERROR_MESSAGE =
     ''This job was cancelled because your account, plan or subscription is blocked, so its result may be missing or incomplete. Run it again once the block is lifted.''"

definition blocked_resource_error :: "int \<Rightarrow> job \<Rightarrow> job_event" where
  "blocked_resource_error t j =
     \<lparr>je_job = job_id j, je_type = ERROR, je_origin = SCHEDULER, je_context = BLOCKED_RESOURCE_STOP, je_created = t,
      je_data = ErrorData ''BLOCKED_RESOURCE'' BLOCKED_RESOURCE_ERROR_MESSAGE ''BlockedResource''
        (ArgsResource (account_id j) (plan_id j) (subscription_id j))\<rparr>"

fun blocked_loop :: "(nat \<Rightarrow> ops_env) \<Rightarrow> nat \<Rightarrow> job list \<Rightarrow> job list \<times> sched \<Rightarrow> job list res \<times> sched" where
  "blocked_loop envs n [] (stopped, s) = (Inr stopped, s)"
| "blocked_loop envs n (j # js) (stopped, s) =
     (if oe_killed (envs n) then (Inr stopped, s)
      else
        (case blocked_stop (envs n) (j, s) of
           (Inl e, _, s1) \<Rightarrow> (Inl e, s1)
         | (Inr b, j1, s1) \<Rightarrow> blocked_loop envs (Suc n) js (if b then stopped @ [j1] else stopped, s1)))"

definition blocked_candidates :: "block_clause list option \<Rightarrow> db \<Rightarrow> job list" where
  "blocked_candidates blocked d =
     filter (\<lambda>j. filter_matches blocked j \<and> runner j = FLEETS \<and> \<not> filler j \<and> status j \<in> {PENDING, RUNNING}) (job_tbl d)"

definition bulk_create :: "job_event list \<Rightarrow> sched \<Rightarrow> sched" where
  "bulk_create es s = s\<lparr>sc_world := (sc_world s)\<lparr>wdb := fold add_event es (sdb s)\<rparr>\<rparr>"

definition stop_blocked_run :: "(nat \<Rightarrow> ops_env) \<Rightarrow> sched \<Rightarrow> unit res \<times> sched" where
  "stop_blocked_run envs s =
     (let env = envs 0 in
      if \<not> cfg_bool (oe_conf env BLOCKED_JOBS_STOP_ENABLED) then (Inr (), s)
      else
        (case blocked_jobs_filter (oe_conf env) (blocked_tbl (sdb s)) of
           None \<Rightarrow> (Inr (), s)
         | Some q \<Rightarrow>
             (case blocked_loop envs 0 (blocked_candidates (Some q) (sdb s)) ([], s) of
                (Inl e, s1) \<Rightarrow> (Inl e, s1)
              | (Inr stopped, s1) \<Rightarrow> (Inr (), bulk_create (map (blocked_resource_error (oe_now env)) stopped) s1))))"

section \<open>ScheduleFleetsJobs\<close>

definition DEFAULT_QUOTA_PER_PROJECT :: int where
  "DEFAULT_QUOTA_PER_PROJECT = 1000"

text \<open>\<open>free_fleets\<close> maps the id of a project to its free fleets; \<open>None\<close> stands for infinity.\<close>

definition free_fleets :: "ops_env \<Rightarrow> code_engine_project \<Rightarrow> int option res" where
  "free_fleets env pr =
     (case oe_count env pr of
        Inl e \<Rightarrow> if is_RunnerError e then Inr None else Inl e
      | Inr n \<Rightarrow> Inr (Some (max 0 (cfg_int (oe_conf env FLEETS_QUOTA_PER_PROJECT) DEFAULT_QUOTA_PER_PROJECT - n))))"

definition counted_project ::
  "ops_env \<Rightarrow> job \<Rightarrow> (nat \<times> int option) list \<Rightarrow> (nat option \<times> (nat \<times> int option) list) res" where
  "counted_project env j free =
     (case Option.bind (job_program j) program_project of
        None \<Rightarrow> Inr (None, free)
      | Some pr \<Rightarrow>
          if \<not> cep_active pr then Inr (None, free)
          else if map_of free (cep_id pr) \<noteq> None then Inr (Some (cep_id pr), free)
          else (case free_fleets env pr of
                  Inl e \<Rightarrow> Inl e
                | Inr n \<Rightarrow> Inr (Some (cep_id pr), (cep_id pr, n) # free)))"

definition no_free_fleet :: "nat option \<Rightarrow> (nat \<times> int option) list \<Rightarrow> bool" where
  "no_free_fleet pr free \<longleftrightarrow>
     (case pr of None \<Rightarrow> False
      | Some i \<Rightarrow> (case map_of free i of Some (Some n) \<Rightarrow> n \<le> 0 | _ \<Rightarrow> False))"

definition use_fleet :: "nat option \<Rightarrow> (nat \<times> int option) list \<Rightarrow> (nat \<times> int option) list" where
  "use_fleet pr free =
     (case pr of None \<Rightarrow> free
      | Some i \<Rightarrow> map (\<lambda>(k, n). (k, if k = i then map_option (\<lambda>m. m - 1) n else n)) free)"

definition add_queue_wait_time_metric :: "ops_env \<Rightarrow> job \<Rightarrow> sched \<Rightarrow> sched" where
  "add_queue_wait_time_metric env j s =
     (if filler j then s
      else add_metric (Queue_wait_time (oe_now env - created j) (if job_gpu j then ''gpu'' else ''cpu'')) s)"

record submit_pass =
  sp_skipped :: "string option list"
  sp_paused :: "string option list"
  sp_submitted :: nat
  sp_free :: "(nat \<times> int option) list"

text \<open>The result tells whether the loop went through all the jobs or the kill signal ended the task.\<close>

fun schedule_loop :: "(nat \<Rightarrow> ops_env) \<Rightarrow> nat \<Rightarrow> job list \<Rightarrow> submit_pass \<times> sched \<Rightarrow> bool res \<times> submit_pass \<times> sched" where
  "schedule_loop envs n [] ps = (Inr True, ps)"
| "schedule_loop envs n (j # js) (p, s) =
     (let env = envs n in
      if oe_killed env then (Inr False, p, s)
      else if ce_region j \<in> set (sp_skipped p)
      then schedule_loop envs (Suc n) js
             (p, if ce_region j \<in> set (sp_paused p) then add_metric (Skipped_by_breaker (ce_region j)) s else s)
      else
        let (pz, s0) = submitter_paused env (ce_region j) s in
        if pz
        then schedule_loop envs (Suc n) js
               (p\<lparr>sp_skipped := ce_region j # sp_skipped p, sp_paused := ce_region j # sp_paused p\<rparr>,
                add_metric (Skipped_by_breaker (ce_region j)) s0)
        else
          (case counted_project env j (sp_free p) of
             Inl e \<Rightarrow> (Inl e, p, s0)
           | Inr (pr, free) \<Rightarrow>
               let p1 = p\<lparr>sp_free := free\<rparr> in
               if no_free_fleet pr free then schedule_loop envs (Suc n) js (p1, s0)
               else
                 (case oe_env env j of
                    Inl e \<Rightarrow> (Inl e, p1, s0)
                  | Inr _ \<Rightarrow>
                      (case fleets_submit env SCHEDULE_JOBS (j, s0) of
                         (Inl e, _, s1) \<Rightarrow>
                           if is_RunnerRetryableError e
                           then schedule_loop envs (Suc n) js (p1\<lparr>sp_skipped := ce_region j # sp_skipped p1\<rparr>, s1)
                           else if is_RunnerError e \<or> e = InvalidJobTransitionException
                           then schedule_loop envs (Suc n) js (p1, s1)
                           else (Inl e, p1, s1)
                       | (Inr _, j1, s1) \<Rightarrow>
                           schedule_loop envs (Suc n) js
                             (p1\<lparr>sp_submitted := Suc (sp_submitted p1), sp_free := use_fleet pr (sp_free p1)\<rparr>,
                              add_queue_wait_time_metric env j1 s1)))))"

definition running_fleets :: "db \<Rightarrow> nat" where
  "running_fleets d = length (filter (\<lambda>j. status j \<in> set RUNNING_STATUSES \<and> runner j = FLEETS) (job_tbl d))"

definition jobs_of_tick :: "(ConfigKey \<Rightarrow> string) \<Rightarrow> int \<Rightarrow> int \<Rightarrow> db \<Rightarrow> job list" where
  "jobs_of_tick conf limits_jobs_per_user limits_max_fleets d =
     (let free_slots = limits_max_fleets - int (running_fleets d);
          jobs_per_tick = cfg_int (conf FLEETS_JOBS_PER_TICK) 0
      in if free_slots < 1 \<or> jobs_per_tick < 1 then []
         else get_jobs_to_schedule_fair_share conf limits_jobs_per_user (min free_slots jobs_per_tick) False FLEETS
                (Some (cfg_int (conf ACTIVE_JOBS_PER_USER) 0)) d)"

definition schedule_fleets_run :: "int \<Rightarrow> int \<Rightarrow> (nat \<Rightarrow> ops_env) \<Rightarrow> sched \<Rightarrow> unit res \<times> sched" where
  "schedule_fleets_run limits_jobs_per_user limits_max_fleets envs s =
     (let conf = oe_conf (envs 0);
          free_slots = limits_max_fleets - int (running_fleets (sdb s)) in
      if cfg_bool (conf MAINTENANCE) then (Inr (), s)
      else if free_slots < 1 \<or> cfg_int (conf FLEETS_JOBS_PER_TICK) 0 < 1 then (Inr (), s)
      else
        (case schedule_loop envs 0 (jobs_of_tick conf limits_jobs_per_user limits_max_fleets (sdb s))
                (\<lparr>sp_skipped = [], sp_paused = [], sp_submitted = 0, sp_free = []\<rparr>, s) of
           (Inl e, _, s1) \<Rightarrow> (Inl e, s1)
         | (Inr False, _, s1) \<Rightarrow> (Inr (), s1)
         | (Inr True, p, s1) \<Rightarrow> (Inr (), add_metric (Task_items ''ScheduleFleetsJobs'' (sp_submitted p)) s1)))"

section \<open>The tasks refine the life cycle\<close>

lemma metric_frame [simp]:
  "sdb (increment_terminal_counter j b s) = sdb s" "sdb (record_execution_duration env j s) = sdb s"
  "sdb (note_refusal j s) = sdb s" "sdb (add_queue_wait_time_metric env j s) = sdb s"
  by (simp_all add: increment_terminal_counter_def record_execution_duration_def note_refusal_def add_queue_wait_time_metric_def
      split: list.splits)

lemma to_terminal_op:
  assumes "present j (sdb s)" "plain_fields fs" "on_world (to_terminal env st why fs) (j, s) = (r, j', s')"
  shows "life_steps (sdb s) (sdb s') \<and> same_identity j' j"
  using assms(3) service_ops(3-5) [OF assms(1,2)]
  by (cases st) (auto simp: to_terminal_def on_world_def split: prod.splits)

lemma task_to_terminal_steps:
  assumes "present j (sdb s)" "task_to_terminal env new (j, s) = (r, j', s')"
  shows "life_steps (sdb s) (sdb s') \<and> same_identity j' j"
proof -
  obtain r1 j1 s1 where t: "on_world (to_terminal (oe_call env) new update_cause [F_sub_status None, F_env_vars ''{}'']) (j, s) = (r1, j1, s1)"
    by (metis prod_cases3)
  from to_terminal_op [OF assms(1) plain_extra(4) t] show ?thesis
    using assms(2) t by (auto simp: task_to_terminal_def Let_def split: sum.splits if_splits)
qed

lemma running_to_running_steps:
  assumes "on_world (running_to_running env started) (j, s) = (r, j', s')"
  shows "sdb s' = sdb s \<and> j' = j"
  using assms by (auto simp: on_world_def running_to_running_def send_job_in_progress_def Let_def
      split: if_splits sum.splits prod.splits)

lemma task_to_running_steps:
  assumes "sender_quiet (oe_call env)" "present j (sdb s)" "task_to_running env started (j, s) = (r, j', s')"
  shows "life_steps (sdb s) (sdb s') \<and> same_identity j' j"
proof (cases "status j = PENDING")
  case True
  obtain r1 j1 s1 where t: "on_world (pending_to_running (oe_call env) update_cause []) (j, s) = (r1, j1, s1)"
    by (metis prod_cases3)
  from service_ops(2) [OF assms(2) plain_extra(1) assms(1) t] show ?thesis
    using assms(3) t True by (auto simp: task_to_running_def split: sum.splits)
next
  case False
  then show ?thesis using running_to_running_steps [of "oe_call env" started j s r j' s'] assms(3)
    by (auto simp: task_to_running_def)
qed

lemma stop_if_timeout_steps:
  assumes "present j (sdb s)" "stop_job_if_timeout env started (j, s) = (r, j', s')"
  shows "life_steps (sdb s) (sdb s') \<and> same_identity j' j"
proof -
  obtain p s0 where s0: "canceller_paused env (ce_region j) s = (p, s0)" by fastforce
  have d0: "sdb s0 = sdb s" using sched_frame(4) [of env "ce_region j" s] s0 by simp
  obtain r1 j1 s1 where c: "fleets_cancel env UPDATE_JOB_STATUS (j, s0) = (r1, j1, s1)" by (metis prod_cases3)
  have "life_steps (sdb s0) (sdb s1) \<and> same_identity j1 j"
    by (rule cancel_op.refines [OF TrueI _ c]) (use assms(1) d0 in simp)
  then show ?thesis
    using assms(2) s0 c d0 by (auto simp: stop_job_if_timeout_def Let_def split: if_splits sum.splits)
qed

lemma confirm_stop_steps:
  assumes "present j (sdb s)" "confirm_stop env st (j, s) = (r, j', s')"
  shows "life_steps (sdb s) (sdb s') \<and> same_identity j' j"
proof -
  have "(s' = s \<and> j' = j) \<or> (\<exists>final r1. task_to_terminal env final (j, s) = (r1, j', s'))"
    using assms(2) by (auto simp: confirm_stop_def Let_def split: option.splits if_splits prod.splits sum.splits)
  then show ?thesis using task_to_terminal_steps [OF assms(1)] by auto
qed

lemma returning_cases: "returning a x = (r, j', s') \<Longrightarrow> \<exists>r0. x = (r0, j', s')"
  by (auto simp: returning_def split: prod.splits sum.splits)

interpretation update_op: lifecycle_op "update_job_status env started" "sender_quiet (oe_call env)" for env started
proof
  fix j s r j' s'
  assume q: "sender_quiet (oe_call env)" and pr: "present j (sdb s)" and u: "update_job_status env started (j, s) = (r, j', s')"
  have run: "life_steps (sdb s) (sdb s') \<and> same_identity j' j"
    if x: "and_then (task_to_running env started (j, s)) (\<lambda>x. returning () (stop_job_if_timeout env started x)) = (r0, j', s')" for r0
  proof -
    obtain r1 j1 s1 where t: "task_to_running env started (j, s) = (r1, j1, s1)" by (metis prod_cases3)
    note 1 = task_to_running_steps [OF q pr t]
    then have p1: "present j1 (sdb s1)" using life_steps_present [OF _ pr] by blast
    have "(s' = s1 \<and> j' = j1) \<or> (\<exists>r2. stop_job_if_timeout env started (j1, s1) = (r2, j', s'))"
      using x t by (auto simp: and_then_def split: sum.splits dest!: returning_cases)
    then show ?thesis
      using 1 stop_if_timeout_steps [OF p1] by (metis rtranclp_trans same_identity_trans)
  qed
  consider "s' = s \<and> j' = j" | st r0 where "task_to_terminal env st (j, s) = (r0, j', s')"
    | st where "confirm_stop env st (j, s) = (r, j', s')" | r0 where "stop_job_if_timeout env started (j, s) = (r0, j', s')"
    | r0 where "and_then (task_to_running env started (j, s)) (\<lambda>x. returning () (stop_job_if_timeout env started x)) = (r0, j', s')"
    using u by (auto simp: update_job_status_def split: if_splits sum.splits option.splits dest!: returning_cases)
  then show "life_steps (sdb s) (sdb s') \<and> same_identity j' j"
    using task_to_terminal_steps [OF pr] confirm_stop_steps [OF pr] stop_if_timeout_steps [OF pr] run
    by cases auto
qed

interpretation blocked_op: lifecycle_op "blocked_stop env" True for env
proof
  fix j s r j' s' assume pr: "present j (sdb s)" and b: "blocked_stop env (j, s) = (r, j', s')"
  obtain p s0 where s0: "canceller_paused env (ce_region j) s = (p, s0)" by fastforce
  have d0: "sdb s0 = sdb s" using sched_frame(4) [of env "ce_region j" s] s0 by simp
  then have pr0: "present j (sdb s0)" using pr by simp
  obtain r1 j1 s1 where c: "fleets_cancel env BLOCKED_RESOURCE_STOP (j, s0) = (r1, j1, s1)" by (metis prod_cases3)
  note 1 = cancel_op.refines [OF TrueI pr0 c] and p1 = cancel_op.stays_present [OF TrueI pr0 c]
  obtain r2 j2 s2 where t: "on_world (to_stopped (oe_call env) \<lparr>why_origin = SCHEDULER, why_ctx = BLOCKED_RESOURCE_STOP\<rparr> []) (j1, s1) = (r2, j2, s2)"
    by (metis prod_cases3)
  note 2 = service_ops(5) [OF p1 plain_extra(1) t]
  consider "s' = s0 \<and> j' = j" | "sdb s' = sdb s1 \<and> j' = j1" | "sdb s' = sdb s2 \<and> j' = j2"
    using b s0 c t by (auto simp: blocked_stop_def Let_def split: if_splits sum.splits bool.splits)
  then show "life_steps (sdb s) (sdb s') \<and> same_identity j' j"
    using 1 2 d0 by cases (auto intro: rtranclp_trans same_identity_trans)
qed

section \<open>Whole passes\<close>

lemma present_later: "\<forall>j \<in> set js. present j d \<Longrightarrow> life_steps d d' \<Longrightarrow> \<forall>j \<in> set js. present j d'"
  using life_steps_present by fastforce

lemma stored_present:
  assumes "distinct (map job_id (job_tbl d))" "j \<in> set (job_tbl d)"
  shows "present j d"
  using assms row_of_distinct [of job_id "job_tbl d" j] by (auto simp: present_def job_row_def)

lemma update_loop_steps:
  assumes "\<forall>n. sender_quiet (oe_call (envs n))"
  shows "\<forall>j \<in> set (map fst js). present j (sdb s) \<Longrightarrow> update_loop envs n js (p, s) = (b, p', s') \<Longrightarrow> life_steps (sdb s) (sdb s')"
proof (induction js arbitrary: n p s)
  case (Cons x js)
  obtain j started where x: "x = (j, started)" by fastforce
  obtain r j1 s1 where u: "update_job_status (envs n) started (j, s) = (r, j1, s1)" by (metis prod_cases3)
  have st: "life_steps (sdb s) (sdb s1)" using update_op.refines [OF _ _ u] assms Cons.prems(1) by (simp add: x)
  then have "\<forall>j \<in> set (map fst js). present j (sdb s1)" using present_later [OF _ st, of "map fst js"] Cons.prems(1) by simp
  note IH = Cons.IH [OF this]
  from Cons.prems(2) have "s' = s \<or> (\<exists>q. update_loop envs (Suc n) js (q, s1) = (b, p', s'))"
    by (auto simp: x u Let_def split: if_splits sum.splits)
  then show ?case using IH st by (meson rtranclp.rtrancl_refl rtranclp_trans)
qed simp

lemma blocked_loop_steps:
  "\<forall>j \<in> set js \<union> set done. present j (sdb s) \<Longrightarrow> blocked_loop envs n js (done, s) = (r, s') \<Longrightarrow>
    life_steps (sdb s) (sdb s') \<and> (\<forall>stopped. r = Inr stopped \<longrightarrow> (\<forall>j \<in> set stopped. present j (sdb s')))"
proof (induction js arbitrary: n "done" s)
  case (Cons j js)
  obtain ra j1 s1 where b: "blocked_stop (envs n) (j, s) = (ra, j1, s1)" by (metis prod_cases3)
  have st: "life_steps (sdb s) (sdb s1)" "present j1 (sdb s1)"
    using blocked_op.refines [OF TrueI _ b] blocked_op.stays_present [OF TrueI _ b] Cons.prems(1) by simp_all
  then have pres: "\<forall>k \<in> set js \<union> set (done @ [j1]). present k (sdb s1)"
    using present_later [OF _ st(1), of "js @ done"] Cons.prems(1) by auto
  show ?case
  proof (cases "oe_killed (envs n)")
    case True
    then show ?thesis using Cons.prems by auto
  next
    case False
    show ?thesis
    proof (cases ra)
      case (Inl e)
      then show ?thesis using Cons.prems(2) False b st by auto
    next
      case (Inr ok)
      let ?done = "if ok then done @ [j1] else done"
      have "blocked_loop envs (Suc n) js (?done, s1) = (r, s')" using Cons.prems(2) False b Inr by simp
      moreover have "\<forall>k \<in> set js \<union> set ?done. present k (sdb s1)" using pres by auto
      ultimately have "life_steps (sdb s1) (sdb s') \<and> (\<forall>stopped. r = Inr stopped \<longrightarrow> (\<forall>j \<in> set stopped. present j (sdb s')))"
        by (rule Cons.IH [rotated])
      then show ?thesis using st(1) by (auto intro: rtranclp_trans)
    qed
  qed
qed auto

lemma bulk_create_steps:
  "\<forall>j \<in> set js. present j (sdb s) \<Longrightarrow> life_steps (sdb s) (sdb (bulk_create (map (blocked_resource_error t) js) s))"
proof (induction js arbitrary: s)
  case (Cons j js)
  let ?e = "blocked_resource_error t j"
  let ?s1 = "s\<lparr>sc_world := (sc_world s)\<lparr>wdb := add_event ?e (sdb s)\<rparr>\<rparr>"
  have st: "life_step (sdb s) (add_event ?e (sdb s))"
    using Cons.prems by (intro step_event) (auto simp: present_def blocked_resource_error_def)
  then have "life_steps (sdb s) (sdb ?s1)" by simp
  then have "\<forall>k \<in> set js. present k (sdb ?s1)" using present_later [of js "sdb s" "sdb ?s1"] Cons.prems by simp
  from Cons.IH [OF this] have "life_steps (add_event ?e (sdb s)) (sdb (bulk_create (map (blocked_resource_error t) js) ?s1))"
    by simp
  then show ?case using st by (simp add: bulk_create_def)
qed (simp add: bulk_create_def)

lemma schedule_loop_steps:
  "\<forall>j \<in> set js. present j (sdb s) \<Longrightarrow> schedule_loop envs n js (p, s) = (r, p', s') \<Longrightarrow> life_steps (sdb s) (sdb s')"
proof (induction js arbitrary: n p s)
  case (Cons j js)
  obtain pz s0 where s0: "submitter_paused (envs n) (ce_region j) s = (pz, s0)" by fastforce
  have d0: "sdb s0 = sdb s" using sched_frame(3) [of "envs n" "ce_region j" s] s0 by simp
  obtain ra j1 s1 where f: "fleets_submit (envs n) SCHEDULE_JOBS (j, s0) = (ra, j1, s1)" by (metis prod_cases3)
  have st: "life_steps (sdb s) (sdb s1)" using submit_op.refines [OF TrueI _ f] Cons.prems(1) d0 by simp
  have later: "life_steps (sdb s) (sdb s')"
    if "life_steps (sdb s) (sdb t)" "schedule_loop envs (Suc n) js (q, t) = (r, p', s')" for t q
    using that Cons.IH [of t "Suc n" q] present_later [OF _ that(1), of js] Cons.prems(1) by (auto intro: rtranclp_trans)
  from Cons.prems(2) have "sdb s' = sdb s \<or> sdb s' = sdb s1 \<or>
      (\<exists>q t. (sdb t = sdb s \<or> sdb t = sdb s1) \<and> schedule_loop envs (Suc n) js (q, t) = (r, p', s'))"
    using s0 f d0 by (auto simp: Let_def split: if_splits sum.splits prod.splits)
       (metis metric_frame(4) sched_frame(6) d0)+
  then show ?case using st later by (metis rtranclp.rtrancl_refl)
qed simp

lemma schedulable_stored: "set (schedulable conf g rn jpu d) \<subseteq> set (job_tbl d)"
  by (auto simp: schedulable_def)

lemma py_take_subset: "set (py_take n xs) \<subseteq> set xs"
  by (auto simp: py_take_def dest: in_set_takeD)

lemma jobs_of_tick_stored: "set (jobs_of_tick conf lim maxf d) \<subseteq> set (job_tbl d)"
proof -
  have "set (get_jobs_to_schedule_fair_share conf lim n False FLEETS (Some jpu) d) \<subseteq> set (job_tbl d)" for n jpu
  proof
    fix j assume "j \<in> set (get_jobs_to_schedule_fair_share conf lim n False FLEETS (Some jpu) d)"
    then have "j \<in> set (map snd (offered conf n False FLEETS jpu d))"
      unfolding fair_share_offered using py_take_subset by (rule subsetD [rotated])
    then obtain k where "(k, j) \<in> set (offered conf n False FLEETS jpu d)" by auto
    then show "j \<in> set (job_tbl d)" using offered_subset schedulable_stored by blast
  qed
  then show ?thesis by (simp add: jobs_of_tick_def Let_def)
qed

lemma schedule_run_steps:
  assumes "distinct (map job_id (job_tbl (sdb s)))" "schedule_fleets_run lim maxf envs s = (r, s')"
  shows "life_steps (sdb s) (sdb s')"
proof -
  define js where "js = jobs_of_tick (oe_conf (envs 0)) lim maxf (sdb s)"
  obtain ra p s1 where l: "schedule_loop envs 0 js (\<lparr>sp_skipped = [], sp_paused = [], sp_submitted = 0, sp_free = []\<rparr>, s) = (ra, p, s1)"
    by (metis prod_cases3)
  have "\<forall>j \<in> set js. present j (sdb s)" using jobs_of_tick_stored stored_present [OF assms(1)] js_def by blast
  from schedule_loop_steps [OF this l] show ?thesis
    using assms(2) l by (auto simp: schedule_fleets_run_def js_def Let_def split: if_splits sum.splits bool.splits)
qed

lemma update_run_steps:
  assumes "distinct (map job_id (job_tbl (sdb s)))" "\<forall>n. sender_quiet (oe_call (envs n))"
    and "update_fleets_run maxf envs s = (r, s')"
  shows "life_steps (sdb s) (sdb s')"
proof -
  obtain b p s1 where l: "update_loop envs 0 (jobs_to_update (sdb s)) (\<lparr>p_counter = 0, p_checked = 0, p_db_error = None\<rparr>, s) = (b, p, s1)"
    by (metis prod_cases3)
  have "\<forall>j \<in> set (map fst (jobs_to_update (sdb s))). present j (sdb s)"
    using stored_present [OF assms(1)] by (auto simp: jobs_to_update_def)
  from update_loop_steps [OF assms(2) this l] show ?thesis
    using assms(3) l by (auto simp: update_fleets_run_def split: if_splits)
qed

lemma stop_blocked_run_steps:
  assumes "distinct (map job_id (job_tbl (sdb s)))" "stop_blocked_run envs s = (r, s')"
  shows "life_steps (sdb s) (sdb s')"
proof (cases "blocked_jobs_filter (oe_conf (envs 0)) (blocked_tbl (sdb s))")
  case None
  then show ?thesis using assms(2) by (auto simp: stop_blocked_run_def Let_def split: if_splits)
next
  case (Some q)
  obtain ra s1 where l: "blocked_loop envs 0 (blocked_candidates (Some q) (sdb s)) ([], s) = (ra, s1)" by fastforce
  have "\<forall>j \<in> set (blocked_candidates (Some q) (sdb s)) \<union> set []. present j (sdb s)"
    using stored_present [OF assms(1)] by (auto simp: blocked_candidates_def)
  note b = blocked_loop_steps [OF this l]
  have "life_steps (sdb s1) (sdb (bulk_create (map (blocked_resource_error t) stopped) s1))" if "ra = Inr stopped" for stopped t
    using b that by (intro bulk_create_steps) blast
  then show ?thesis
    using assms(2) Some l b by (auto simp: stop_blocked_run_def Let_def split: if_splits sum.splits intro: rtranclp_trans)
qed

end
