(* ===== verification/Fleets_Properties.thy ===== *)
theory Fleets_Properties
  imports Fleets_Tasks Job_Properties
begin

text \<open>
  What the scheduler guarantees for Fleets jobs: what a submit leaves behind on every outcome, that
  a job being stopped ends, and that whole passes of the tasks stay within the life cycle.
\<close>

section \<open>Submitting\<close>

lemma queued_to_pending_row:
  assumes "queued_to_pending env why [] (j, w) = (res, j', w')" "job_row (wdb w) (job_id j) = Some r"
  shows "if status r = QUEUED
    then (\<exists>r'. job_row (wdb w') (job_id j) = Some r' \<and> status r' = PENDING \<and> fleet_id r' = fleet_id r \<and>
            env_vars r' = env_vars r) \<and> res \<noteq> Inl InvalidJobTransitionException
    else res = Inl InvalidJobTransitionException \<and> w' = w \<and> j' = j"
proof -
  have q: "PENDING \<in> set (VALID_TRANSITIONS (status r)) \<longleftrightarrow> status r = QUEUED" by (cases "status r") auto
  obtain rc jc dc where cs: "change_status env PENDING why [] (j, wdb w) = (rc, jc, dc)" by (metis prod_cases3)
  show ?thesis
  proof (cases rc)
    case (Inl e)
    note err = change_status_err [OF cs [unfolded Inl]]
    then have "e = InvalidJobTransitionException" "status r \<noteq> QUEUED" "jc = j" "dc = wdb w" using assms(2) q by auto
    then show ?thesis
      using assms(1) cs Inl by (auto simp: queued_to_pending_def then_mirror_def in_db_def atomic_def)
  next
    case (Inr ev)
    obtain ra where row: "job_row (wdb w) (job_id j) = Some ra" "PENDING \<in> set (VALID_TRANSITIONS (status ra))"
        "\<And>i. job_row dc i = (if i = job_id j
          then Some ((apply_fields (F_updated (env_now env) # F_status PENDING # []) ra)\<lparr>version := version ra + 1\<rparr>)
          else job_row (wdb w) i)"
      using cs [unfolded Inr] by (rule change_status_ok) blast
    have "in_db (change_status env PENDING why []) (j, w) = (Inr ev, jc, w\<lparr>wdb := dc\<rparr>)"
      using cs Inr by (simp add: in_db_def atomic_def)
    then have "wdb w' = dc" "res \<noteq> Inl InvalidJobTransitionException"
      using then_mirror_cases [OF assms(1) [unfolded queued_to_pending_def]] by (auto simp: after_commit_error_def)
    then show ?thesis using row assms(2) q by simp
  qed
qed

lemma on_db_row:
  assumes "on_db (update_fields t fs) (j, s) = (res, j', s')" "job_row (sdb s) (job_id j) = Some r" "plain_fields fs"
  shows "res = Inr () \<and> job_id j' = job_id j \<and>
    job_row (sdb s') (job_id j) = Some ((apply_fields (F_updated t # fs) r)\<lparr>version := version r + 1\<rparr>)"
proof -
  have u: "update_fields t fs (j, sdb s) = (res, j', sdb s')"
    using assms(1) by (auto simp: on_db_def on_world_def split: prod.splits)
  show ?thesis using update_fields_row [OF u, of "job_id j"] update_fields_outcome [OF u] assms(2) by auto
qed

lemma error_event_row [simp]: "job_row (sdb (error_event env ctx code msg e j s)) i = job_row (sdb s) i"
  by (simp add: error_event_def add_error_event_def Let_def)

lemma cancel_orphan_row:
  "cancel_orphan_fleet env ctx j s = (r, s') \<Longrightarrow> job_row (sdb s') i = job_row (sdb s) i"
  by (auto simp: cancel_orphan_fleet_def split: sum.splits if_splits)

lemma after_submit_row:
  assumes a: "after_submit env ctx (j, s) = (res, j', s')" and r: "job_row (sdb s) (job_id j) = Some r"
  shows "\<exists>r'. job_row (sdb s') (job_id j) = Some r' \<and> fleet_id r' = fleet_id j \<and> env_vars r' = ''{}'' \<and>
     (if status r = QUEUED then status r' = PENDING \<and> res \<noteq> Inl InvalidJobTransitionException
      else status r' = status r \<and> (\<exists>e. res = Inl e))"
proof -
  obtain r1 j1 s1 where u: "on_db (update_fields (oe_now env) [F_fleet_id (fleet_id j), F_env_vars ''{}'']) (j, s) = (r1, j1, s1)"
    by (metis prod_cases3)
  note row1 = on_db_row [OF u r plain_extra(3)]
  define x where "x = (apply_fields [F_updated (oe_now env), F_fleet_id (fleet_id j), F_env_vars ''{}''] r)\<lparr>version := version r + 1\<rparr>"
  have x: "fleet_id x = fleet_id j" "env_vars x = ''{}''" "status x = status r" by (simp_all add: x_def)
  have row: "job_row (sdb s1) (job_id j1) = Some x" using row1 by (simp add: x_def)
  obtain r2 j2 w2 where q: "queued_to_pending (oe_call env) \<lparr>why_origin = SCHEDULER, why_ctx = ctx\<rparr> [] (j1, sc_world s1) = (r2, j2, w2)"
    by (metis prod_cases3)
  note qr = queued_to_pending_row [OF q row]
  define s2 where "s2 = s1\<lparr>sc_world := w2\<rparr>"
  have o: "on_world (queued_to_pending (oe_call env) \<lparr>why_origin = SCHEDULER, why_ctx = ctx\<rparr> []) (j1, s1) = (r2, j2, s2)"
    using q by (simp add: on_world_def s2_def)
  show ?thesis
  proof (cases "status r = QUEUED")
    case True
    then have "res \<noteq> Inl InvalidJobTransitionException" "s' = s2"
      using a u row1 o qr x by (auto simp: after_submit_def split: sum.splits)
    then show ?thesis using qr x row1 True by (auto simp: s2_def)
  next
    case False
    then have "r2 = Inl InvalidJobTransitionException" "sdb s2 = sdb s1" "j2 = j1" using qr x by (auto simp: s2_def)
    moreover obtain r3 s3 where c: "cancel_orphan_fleet env ctx j2 s2 = (r3, s3)" by fastforce
    ultimately have "s' = s3" "\<exists>e. res = Inl e" using a u row1 o by (auto simp: after_submit_def split: sum.splits)
    then show ?thesis
      using cancel_orphan_row [OF c, of "job_id j"] row row1 \<open>sdb s2 = sdb s1\<close> False x by auto
  qed
qed

text \<open>
  C5: What a submit leaves behind. When the runner created a fleet, the row of the job records that fleet
  whatever happens next: it becomes PENDING if it was still QUEUED, and otherwise keeps its status and the
  call raises, so no fleet is orphaned. The call returns only for a job that was QUEUED and is now
  PENDING. When a dependency is unavailable, or its breaker is open, the call raises a retryable error
  and the database is as it was.
\<close>

theorem submit_records_the_fleet:
  assumes "job_row (sdb s) (job_id j) = Some r" "fleets_submit env ctx (j, s) = (res, j', s')"
    and "oe_submit env j = (ans, fid)"
  shows "(ans = Inr () \<and> \<not> fst (submitter_paused env (ce_region j) s) \<longrightarrow>
       (\<exists>r'. job_row (sdb s') (job_id j) = Some r' \<and> fleet_id r' = fid \<and> env_vars r' = ''{}'' \<and>
          (if status r = QUEUED then status r' = PENDING else status r' = status r \<and> (\<exists>e. res = Inl e)))) \<and>
     (res = Inr () \<longrightarrow> ans = Inr () \<and> status r = QUEUED \<and> \<not> fst (submitter_paused env (ce_region j) s)) \<and>
     (fst (submitter_paused env (ce_region j) s) \<or> (\<exists>e. ans = Inl e \<and> is_RunnerRetryableError e) \<longrightarrow>
       (\<exists>e. res = Inl e \<and> is_RunnerRetryableError e) \<and> sdb s' = sdb s)"
proof -
  obtain p s0 where s0: "submitter_paused env (ce_region j) s = (p, s0)" by fastforce
  have d0: "sdb s0 = sdb s" using sched_frame(3) [of env "ce_region j" s] s0 by simp
  let ?j1 = "j\<lparr>fleet_id := fid\<rparr>"
  let ?s1 = "ce_record record_success (ce_region j) (cos_record record_success (ce_region j) s0)"
  have ok: "\<exists>r'. job_row (sdb s') (job_id j) = Some r' \<and> fleet_id r' = fid \<and> env_vars r' = ''{}'' \<and>
      (if status r = QUEUED then status r' = PENDING else status r' = status r \<and> (\<exists>e. res = Inl e))"
    if "ans = Inr ()" "\<not> p"
  proof -
    have "after_submit env ctx (?j1, ?s1) = (res, j', s')" using assms(2,3) s0 that by (simp add: fleets_submit_def)
    from after_submit_row [OF this, of r] show ?thesis using assms(1) d0 by (simp split: if_splits) blast+
  qed
  have "res \<noteq> Inr ()" if "p \<or> (\<exists>e. ans = Inl e)"
    using assms(2,3) s0 that by (auto simp: fleets_submit_def refused_submit_def Let_def split: if_splits sum.splits prod.splits)
  moreover have "(\<exists>e. res = Inl e \<and> is_RunnerRetryableError e) \<and> sdb s' = sdb s"
    if "p \<or> (\<exists>e. ans = Inl e \<and> is_RunnerRetryableError e)"
    using assms(2,3) s0 that d0 by (auto simp: fleets_submit_def Let_def split: if_splits)
  moreover have "status r = QUEUED" if "res = Inr ()" "ans = Inr ()" "\<not> p"
    using ok [OF that(2,3)] that(1) by (auto split: if_splits)
  ultimately show ?thesis using ok s0 by (cases ans) auto
qed

text \<open>The scheduler at work on the example job, with a Code Engine that answers.\<close>

definition ex_sched :: "world \<Rightarrow> sched" where
  "ex_sched w = \<lparr>sc_world = w, sc_breakers = \<lparr>cos = [], code_engine = [], cleanup = []\<rparr>, sc_warned = [], sc_metrics = []\<rparr>"

definition ex_ops :: "int \<Rightarrow> ops_env" where
  "ex_ops t = \<lparr>oe_call = ex_env t, oe_mono = t, oe_conf = (\<lambda>_. ''5''), oe_killed = False,
     oe_submit = (\<lambda>_. (Inr (), Some ''f'')), oe_stop = (\<lambda>_. Inr False), oe_status = (\<lambda>_. Inr None), oe_free = (\<lambda>_. Inr True),
     oe_count = (\<lambda>_. Inr 0), oe_env = (\<lambda>_. Inr ()), oe_text = (\<lambda>_. ([], [])), oe_timeout = 24\<rparr>"

theorem submit_records_the_fleet_witness:
  "\<exists>j' s' r'. fleets_submit (ex_ops 5) SCHEDULE_JOBS (example_job QUEUED, ex_sched ex_queued) = (Inr (), j', s') \<and>
     job_row (sdb s') ''j'' = Some r' \<and> fleet_id r' = Some ''f'' \<and> status r' = PENDING"
proof -
  let ?x = "fleets_submit (ex_ops 5) SCHEDULE_JOBS (example_job QUEUED, ex_sched ex_queued)"
  have ok: "\<not> isl (fst ?x)" by code_simp
  obtain a j' s' where y: "?x = (a, j', s')" by (metis prod_cases3)
  then have x: "?x = (Inr (), j', s')" using ok by (cases a) auto
  have id: "job_id (example_job QUEUED) = ''j''" by (simp add: example_job_def Job_new_def)
  have "map_option status (job_row (sdb (ex_sched ex_queued)) ''j'') = Some QUEUED" by code_simp
  then obtain r where r: "job_row (sdb (ex_sched ex_queued)) (job_id (example_job QUEUED)) = Some r" "status r = QUEUED"
    unfolding id by (cases "job_row (sdb (ex_sched ex_queued)) ''j''") auto
  have a: "oe_submit (ex_ops 5) (example_job QUEUED) = (Inr (), Some ''f'')" by (simp add: ex_ops_def)
  have p: "\<not> fst (submitter_paused (ex_ops 5) (ce_region (example_job QUEUED)) (ex_sched ex_queued))" by code_simp
  from submit_records_the_fleet [OF r(1) x a] show ?thesis using p r(2) x unfolding id by auto
qed

section \<open>Ending a job that is being stopped\<close>

lemma to_stopped_or_failed_ends:
  assumes "job_row (wdb w) (job_id j) = Some r" "new \<in> set (VALID_TRANSITIONS (status r))" "new \<in> {FAILED, STOPPED}" "plain_fields fs"
    and "is_usage_billable j \<and> RUNNING \<in> set (status_history (job_id j) (wdb w)) \<and> is_fee_billable j \<and> size_label j \<noteq> None \<longrightarrow>
       business_model j \<in> {''SUBSIDIZED'', ''LICENSED'', ''TRIAL'', ''CONSUMPTION''}"
    and "is_mirrored (wdb w) j \<longrightarrow> truthy (instance_crn j) \<and> job_program j \<noteq> None"
  shows "\<exists>ev j' w' r'. to_terminal env new why fs (j, w) = (Inr ev, j', w') \<and> job_row (wdb w') (job_id j) = Some r' \<and> status r' = new"
proof -
  obtain ev j' w' where t: "to_stopped_or_failed env new why fs (j, w) = (Inr ev, j', w')"
    using terminal_returns [OF assms(4,3), of env why j w] assms(1,2,5,6) by blast
  have tm: "new \<in> set TERMINAL_STATUSES" using assms(3) by (auto simp: status_simps)
  obtain ev2 chans where "transition_effect j new chans (wdb w) (wdb w')"
    using terminal_in_db [OF t [unfolded to_stopped_or_failed_def] assms(4) tm] by auto
  then obtain r' where "job_row (wdb w') (job_id j) = Some r'" "status r' = new" by (auto simp: transition_effect_def)
  moreover have "to_terminal env new why fs (j, w) = (Inr ev, j', w')"
    using t assms(3) by (auto simp: to_terminal_def to_failed_def to_stopped_def)
  ultimately show ?thesis by blast
qed

lemma confirm_stop_finishes:
  "st \<in> set TERMINAL_STATUSES \<Longrightarrow> confirm_stop env (Some st) (j, s) = returning True (task_to_terminal env st (j, s))"
  "stopping_deadline_passed env j (sdb s) \<Longrightarrow> \<forall>x. new = Some x \<longrightarrow> x \<notin> set TERMINAL_STATUSES \<Longrightarrow>
     confirm_stop env new (j, s) = returning True (task_to_terminal env STOPPED (j, s))"
  by (auto simp: confirm_stop_def returning_def Let_def split: prod.splits sum.splits option.splits)



text \<open>The example job as a pass of the status task finds it ten minutes after its stop was recorded.\<close>

definition ex_stopping :: "sched" where
  "ex_stopping = (ex_sched ex_queued)\<lparr>sc_world := ex_queued\<lparr>wdb :=
     (wdb ex_queued)\<lparr>job_tbl := [(example_job STOPPING)\<lparr>fleet_id := Some ''f''\<rparr>]\<rparr>\<rparr>\<rparr>"


section \<open>Stopping the job of a blocked resource\<close>

text \<open>
  When the runner finds no fleet to cancel, \<open>stop\<close> writes STOPPED itself and \<open>cancel\<close> answers False; the task then
  asks for STOPPED again, the transition is refused, and the job counts as not stopped, so no
  BLOCKED_RESOURCE event is written for it.
\<close>

definition ex_blocked :: sched where
  "ex_blocked = ex_sched (ex_queued\<lparr>wdb := (example_db RUNNING)\<lparr>job_tbl := [(example_job RUNNING)\<lparr>fleet_id := Some ''f''\<rparr>]\<rparr>\<rparr>)"

lemma blocked_stop_without_event:
  "fst (blocked_stop (ex_ops 5) ((example_job RUNNING)\<lparr>fleet_id := Some ''f''\<rparr>, ex_blocked)) = Inr False"
  "map_option status (job_row (sdb (snd (snd (blocked_stop (ex_ops 5) ((example_job RUNNING)\<lparr>fleet_id := Some ''f''\<rparr>, ex_blocked))))) ''j'') = Some STOPPED"
  by code_simp+

end
