(* ===== verification/Fleets_Cleanup.thy ===== *)
theory Fleets_Cleanup
  imports Fleets_Properties "HOL-Library.AList"
begin

text \<open>
  \<open>FreeFleetsResources\<close> (\<^verbatim>\<open>scheduler/tasks/free_fleets_resources.py\<close>): deleting the fleets of
  terminal jobs, past the retention window or over the quota of their project, and counting the
  failures of each. A dictionary is an association list in insertion order.
\<close>

section \<open>The jobs of a cycle\<close>

definition DEFAULT_BUDGET_MS :: int where "DEFAULT_BUDGET_MS = 500"

definition DEFAULT_MAX_DELETES_PER_CYCLE :: int where "DEFAULT_MAX_DELETES_PER_CYCLE = 20"

definition MAX_ATTEMPTS_PER_FLEET :: nat where "MAX_ATTEMPTS_PER_FLEET = 3"

definition MAX_TRACKED_FAILURES :: nat where "MAX_TRACKED_FAILURES = 500"

definition DEFAULT_RETENTION_HOURS :: int where "DEFAULT_RETENTION_HOURS = 336"

definition DEFAULT_FORCE_AT_PERCENT :: int where "DEFAULT_FORCE_AT_PERCENT = 80"

text \<open>The held fleets per project. SQL leaves the order of the groups open; here it is the order of the rows.\<close>

definition count_held_fleets :: "db \<Rightarrow> (string \<times> nat) list" where
  "count_held_fleets d =
     (let ps = map fleet_project (filter held_fleet (job_tbl d))
      in map (\<lambda>p. (p, length (filter ((=) p) ps))) (remdups ps))"

definition projects_over_quota :: "(ConfigKey \<Rightarrow> string) \<Rightarrow> (string \<times> nat) list \<Rightarrow> (string \<times> int) list" where
  "projects_over_quota conf counts =
     (let percent = cfg_int (conf FLEETS_CLEANUP_FORCE_AT_PERCENT) DEFAULT_FORCE_AT_PERCENT;
          quota = cfg_int (conf FLEETS_QUOTA_PER_PROJECT) DEFAULT_QUOTA_PER_PROJECT
      in if \<not> (1 \<le> percent \<and> percent < 100) \<or> quota < 1 then []
         else
           let threshold = quota * percent div 100
           in map (\<lambda>(p, held). (p, int held - threshold + 1))
                (filter (\<lambda>(p, held). p \<noteq> UNASSIGNED_PROJECT \<and> int held \<ge> threshold) counts))"

text \<open>
  The condition \<open>_in_regions\<close> in the three values of SQL, \<open>None\<close> standing for unknown: \<open>IN\<close> is
  unknown on a null region. \<open>keep_unknown\<close> says whether \<open>exclude\<close> keeps a row on which the
  condition is unknown, which the query compiler of the framework decides.
\<close>

definition in_regions :: "string option list \<Rightarrow> job \<Rightarrow> bool option" where
  "in_regions regions j =
     (let named = List.map_filter id regions in
      case fleet_region_sql j of
        Some r \<Rightarrow> Some (r \<in> set named)
      | None \<Rightarrow> if None \<in> set regions then Some True else if named = [] then Some False else None)"

definition deletable :: "bool \<Rightarrow> string option list \<Rightarrow> string list \<Rightarrow> db \<Rightarrow> job list" where
  "deletable keep_unknown paused_rs given_up d =
     filter (\<lambda>j. held_fleet j \<and> status j \<in> set TERMINAL_STATUSES \<and>
         (case in_regions paused_rs j of Some b \<Rightarrow> \<not> b | None \<Rightarrow> keep_unknown) \<and> job_id j \<notin> set given_up)
       (job_tbl d)"

definition past_the_window :: "(ConfigKey \<Rightarrow> string) \<Rightarrow> int \<Rightarrow> job list \<Rightarrow> job list" where
  "past_the_window conf now rows =
     (let retention = max 1 (cfg_int (conf FLEETS_CLEANUP_RETENTION_HOURS) DEFAULT_RETENTION_HOURS);
          cutoff = now - retention * 3600 * 1000000
      in sort_key updated (filter (\<lambda>j. updated j < cutoff) rows))"

fun over_quota_jobs :: "int \<Rightarrow> job list \<Rightarrow> (string \<times> int) list \<Rightarrow> job list \<Rightarrow> job list" where
  "over_quota_jobs cap rows [] jobs = jobs"
| "over_quota_jobs cap rows ((project, needed) # rest) jobs =
     (if int (length jobs) \<ge> cap then jobs
      else
        let n = min needed (cap - int (length jobs))
        in over_quota_jobs cap rows rest
             (jobs @ py_take n (sort_key updated (filter (\<lambda>j. ce_project_name j = Some project) rows))))"

definition jobs_to_clean ::
  "(ConfigKey \<Rightarrow> string) \<Rightarrow> int \<Rightarrow> bool \<Rightarrow> (string \<times> int) list \<Rightarrow> string option list \<Rightarrow> string list \<Rightarrow> db \<Rightarrow> job list" where
  "jobs_to_clean conf now keep_unknown over_quota paused_rs given_up d =
     (let cap = cfg_int (conf FLEETS_CLEANUP_MAX_DELETES) DEFAULT_MAX_DELETES_PER_CYCLE;
          rows = deletable keep_unknown paused_rs given_up d;
          jobs = over_quota_jobs cap rows over_quota []
      in if int (length jobs) < cap
         then jobs @ py_take (cap - int (length jobs))
                (filter (\<lambda>j. job_id j \<notin> job_id ` set jobs) (past_the_window conf now rows))
         else jobs)"

section \<open>Counting failures\<close>

record cleaner =
  failed_attempts :: "(string \<times> nat) list"
  given_up :: "string list"

text \<open>\<open>while len(d) >= n: d.pop(next(iter(d)))\<close>.\<close>

fun evict :: "nat \<Rightarrow> 'a list \<Rightarrow> 'a list" where
  "evict n [] = []"
| "evict n (x # xs) = (if Suc (length xs) \<ge> n then evict n xs else x # xs)"

definition count_failure :: "job \<Rightarrow> cleaner \<times> sched \<Rightarrow> cleaner \<times> sched" where
  "count_failure j = (\<lambda>(c, s).
     let i = job_id j;
         f1 = (if i \<notin> fst ` set (failed_attempts c) then evict MAX_TRACKED_FAILURES (failed_attempts c) else failed_attempts c);
         failures = (case map_of f1 i of None \<Rightarrow> 0 | Some n \<Rightarrow> n) + 1;
         f2 = AList.update i failures f1;
         gave_up = failures \<ge> MAX_ATTEMPTS_PER_FLEET;
         c' = (if gave_up
               then \<lparr>failed_attempts = AList.delete i f2,
                     given_up = (let g = (if length (given_up c) \<ge> MAX_TRACKED_FAILURES then tl (given_up c) else given_up c)
                                 in if i \<in> set g then g else g @ [i])\<rparr>
               else c\<lparr>failed_attempts := f2\<rparr>)
     in (c', add_metric (Fleet_deletes (fleet_project j) (if gave_up then ''gave_up'' else ''failed'')) s))"

definition delete_and_stamp :: "ops_env \<Rightarrow> job \<Rightarrow> cleaner \<times> sched \<Rightarrow> bool res \<times> cleaner \<times> sched" where
  "delete_and_stamp env j = (\<lambda>(c, s).
     (case fleet_delete env j s of
        (Inl e, s1) \<Rightarrow> (Inl e, c, s1)
      | (Inr deleted, s1) \<Rightarrow>
          if deleted
          then (case on_db (update_fields (oe_now env) [F_fleet_deleted_at (Some (oe_now env))]) (j, s1) of
                  (Inl e, _, s2) \<Rightarrow> (Inl e, c, s2)
                | (Inr _, _, s2) \<Rightarrow>
                    (Inr True, c\<lparr>failed_attempts := AList.delete (job_id j) (failed_attempts c)\<rparr>,
                     add_metric (Fleet_deletes (fleet_project j) ''deleted'') s2))
          else (Inr False, count_failure j (c, s1))))"

section \<open>The cycle\<close>

record clean_cycle =
  failed_regions :: "string option list"
  answered_regions :: "string option list"

fun clean_loop ::
  "(nat \<Rightarrow> ops_env) \<Rightarrow> int \<Rightarrow> nat \<Rightarrow> job list \<Rightarrow> clean_cycle \<times> cleaner \<times> sched \<Rightarrow> unit res \<times> clean_cycle \<times> cleaner \<times> sched" where
  "clean_loop envs deadline n [] st = (Inr (), st)"
| "clean_loop envs deadline n (j # js) (y, c, s) =
     (if oe_killed (envs n) \<or> 0 < n \<and> oe_mono (envs n) \<ge> deadline then (Inr (), y, c, s)
      else if fleet_region j \<in> set (failed_regions y) then clean_loop envs deadline (Suc n) js (y, c, s)
      else
        (case delete_and_stamp (envs n) j (c, s) of
           (Inr ok, c1, s1) \<Rightarrow>
             clean_loop envs deadline (Suc n) js
               (if ok then y\<lparr>answered_regions := List.insert (fleet_region j) (answered_regions y)\<rparr> else y, c1, s1)
         | (Inl e, c1, s1) \<Rightarrow>
             if is_RunnerRetryableError e
             then clean_loop envs deadline (Suc n) js
                    (y\<lparr>failed_regions := List.insert (fleet_region j) (failed_regions y)\<rparr>, c1,
                     record_cycle (envs n) False (fleet_region j) s1)
             else (Inl e, y, c1, s1)))"

definition free_fleets_run :: "bool \<Rightarrow> (nat \<Rightarrow> ops_env) \<Rightarrow> cleaner \<times> sched \<Rightarrow> unit res \<times> cleaner \<times> sched" where
  "free_fleets_run keep_unknown envs = (\<lambda>(c, s).
     let env = envs 0;
         counts = count_held_fleets (sdb s);
         s0 = fold (\<lambda>(p, n). add_metric (Held_fleets n p)) counts (add_metric Held_fleets_cleared s)
     in if \<not> cfg_bool (oe_conf env FLEETS_CLEANUP_ENABLED) then (Inr (), c, s0)
        else
          let (paused_rs, s1) = deleter_paused_regions env s0;
              js = jobs_to_clean (oe_conf env) (oe_now env) keep_unknown (projects_over_quota (oe_conf env) counts)
                     paused_rs (given_up c) (sdb s1);
              deadline = oe_mono env + cfg_int (oe_conf env FLEETS_CLEANUP_BUDGET_MS) DEFAULT_BUDGET_MS * 1000
          in (case clean_loop envs deadline 0 js (\<lparr>failed_regions = [], answered_regions = []\<rparr>, c, s1) of
                (Inl e, y, c2, s2) \<Rightarrow> (Inl e, c2, s2)
              | (Inr _, y, c2, s2) \<Rightarrow>
                  (Inr (), c2, fold (record_cycle env True)
                     (filter (\<lambda>r. r \<notin> set (failed_regions y)) (answered_regions y)) s2)))"

section \<open>What a cycle may delete\<close>

lemma py_take_bound: "0 \<le> n \<Longrightarrow> int (length (py_take n xs)) \<le> n"
  by (simp add: py_take_def)

lemma py_take_distinct: "distinct (map f xs) \<Longrightarrow> distinct (map f (py_take n xs))"
  by (simp add: py_take_def take_map [symmetric] distinct_take)

lemma sorted_rows [simp]: "distinct (map f (sort_key g xs)) \<longleftrightarrow> distinct (map f xs)"
  by (metis distinct_map distinct_sort set_sort)

text \<open>The jobs taken for the quota: within the budget, of distinct rows, and no more of a project than it needs.\<close>

definition quota_ok :: "int \<Rightarrow> job list \<Rightarrow> (string \<times> int) list \<Rightarrow> job list \<Rightarrow> bool" where
  "quota_ok cap rows over_quota jobs \<longleftrightarrow> (jobs = [] \<or> int (length jobs) \<le> cap) \<and> distinct (map job_id jobs) \<and> set jobs \<subseteq> set rows \<and>
     (\<forall>j \<in> set jobs. \<exists>p needed. (p, needed) \<in> set over_quota \<and> ce_project_name j = Some p \<and>
        int (length (filter (\<lambda>k. ce_project_name k = Some p) jobs)) \<le> needed)"

lemma over_quota_ok:
  assumes "distinct (map job_id rows)" "distinct (map fst (given @ rest))" "\<forall>(p, n) \<in> set rest. 0 < n"
    and "quota_ok cap rows given jobs"
  shows "quota_ok cap rows (given @ rest) (over_quota_jobs cap rows rest jobs)"
  using assms
proof (induction rest arbitrary: given jobs)
  case (Cons x rest)
  obtain p needed where x: "x = (p, needed)" by fastforce
  show ?case
  proof (cases "int (length jobs) \<ge> cap")
    case True
    have "quota_ok cap rows (given @ x # rest) jobs"
      using Cons.prems(4) unfolding quota_ok_def by (metis Un_iff set_append)
    then show ?thesis using True x by simp
  next
    case False
    define own where "own = sort_key updated (filter (\<lambda>j. ce_project_name j = Some p) rows)"
    define n where "n = min needed (cap - int (length jobs))"
    let ?new = "py_take n own"
    have n: "0 \<le> n" "n \<le> needed" "n \<le> cap - int (length jobs)" using Cons.prems(3) False by (auto simp: n_def x)
    have new: "set ?new \<subseteq> {j \<in> set rows. ce_project_name j = Some p}"
      using py_take_subset [of n own] by (auto simp: own_def)
    have old: "ce_project_name j \<noteq> Some p" if j: "j \<in> set jobs" for j
    proof
      assume p: "ce_project_name j = Some p"
      have "\<forall>j \<in> set jobs. \<exists>q m. (q, m) \<in> set given \<and> ce_project_name j = Some q"
        using Cons.prems(4) unfolding quota_ok_def by blast
      then obtain m where "(p, m) \<in> set given" using j p by auto
      then have "p \<in> fst ` set given" by (metis fst_conv imageI)
      then show False using Cons.prems(2) by (simp add: x)
    qed
    have dist: "distinct (map job_id ?new)"
      using Cons.prems(1) by (intro py_take_distinct) (simp add: own_def distinct_map_filter)
    have inj: "inj_on job_id (set rows)" using Cons.prems(1) by (simp add: distinct_map)
    have disj: "job_id ` set jobs \<inter> job_id ` set ?new = {}"
    proof (rule ccontr)
      assume "job_id ` set jobs \<inter> job_id ` set ?new \<noteq> {}"
      then obtain j k where jk: "j \<in> set jobs" "k \<in> set ?new" "job_id j = job_id k" by auto
      then have "j \<in> set rows" "k \<in> set rows" using Cons.prems(4) new by (auto simp: quota_ok_def)
      with jk(3) inj have "j = k" by (auto dest: inj_onD)
      then show False using jk new old by auto
    qed
    have c1: "filter (\<lambda>k. ce_project_name k = Some p) (jobs @ ?new) = ?new"
      using new old by (auto simp: filter_id_conv filter_empty_conv)
    have c2: "filter (\<lambda>k. ce_project_name k = Some q) (jobs @ ?new) = filter (\<lambda>k. ce_project_name k = Some q) jobs"
      if "q \<noteq> p" for q
      using new that by (auto simp: filter_empty_conv)
    have one: "int (length ?new) \<le> needed" using py_take_bound [OF n(1), of own] n(2) by linarith
    have "quota_ok cap rows (given @ [x]) (jobs @ ?new)"
      unfolding quota_ok_def
    proof (intro conjI ballI)
      show "jobs @ ?new = [] \<or> int (length (jobs @ ?new)) \<le> cap" using py_take_bound [OF n(1), of own] n(3) by simp
      show "distinct (map job_id (jobs @ ?new))" using Cons.prems(4) dist disj by (simp add: quota_ok_def)
      show "set (jobs @ ?new) \<subseteq> set rows" using Cons.prems(4) new by (auto simp: quota_ok_def)
      fix j assume "j \<in> set (jobs @ ?new)"
      then consider "j \<in> set ?new" | "j \<in> set jobs" by auto
      then show "\<exists>q m. (q, m) \<in> set (given @ [x]) \<and> ce_project_name j = Some q \<and>
          int (length (filter (\<lambda>k. ce_project_name k = Some q) (jobs @ ?new))) \<le> m"
      proof cases
        case 1
        then show ?thesis using c1 one new x by (intro exI [of _ p] exI [of _ needed]) auto
      next
        case 2
        then obtain q m where q: "(q, m) \<in> set given" "ce_project_name j = Some q"
            "int (length (filter (\<lambda>k. ce_project_name k = Some q) jobs)) \<le> m"
          using Cons.prems(4) by (auto simp: quota_ok_def)
        then have "q \<noteq> p" using old [OF 2] by auto
        then show ?thesis using q c2 [of q] by (intro exI [of _ q] exI [of _ m]) simp
      qed
    qed
    from Cons.IH [OF Cons.prems(1) _ _ this] Cons.prems(2,3) show ?thesis
      using False by (simp add: x n_def own_def Let_def)
  qed
qed simp

lemma fleet_region_agrees [simp]: "fleet_region_sql j = fleet_region j"
  by (auto simp: fleet_region_sql_def fleet_region_def coalesce_def nullif_empty_def truthy_def
      split: option.splits list.splits)

lemma named_iff: "r \<in> set (List.map_filter id regions) \<longleftrightarrow> Some r \<in> set regions"
  by (force simp: List.map_filter_def)

lemma deletable_facts:
  assumes "j \<in> set (deletable ku paused_rs gave d)"
  shows "j \<in> set (job_tbl d)" "status j \<in> set TERMINAL_STATUSES" "held_fleet j" "job_id j \<notin> set gave"
    "fleet_region j \<notin> set paused_rs"
  using assms
  by (auto simp: deletable_def in_regions_def named_iff Let_def split: option.splits if_splits)

abbreviation max_deletes :: "(ConfigKey \<Rightarrow> string) \<Rightarrow> int" where
  "max_deletes conf \<equiv> cfg_int (conf FLEETS_CLEANUP_MAX_DELETES) DEFAULT_MAX_DELETES_PER_CYCLE"

abbreviation window_start :: "(ConfigKey \<Rightarrow> string) \<Rightarrow> int \<Rightarrow> int" where
  "window_start conf now \<equiv> now - max 1 (cfg_int (conf FLEETS_CLEANUP_RETENTION_HOURS) DEFAULT_RETENTION_HOURS) * 3600 * 1000000"

abbreviation quota_threshold :: "(ConfigKey \<Rightarrow> string) \<Rightarrow> int" where
  "quota_threshold conf \<equiv> cfg_int (conf FLEETS_QUOTA_PER_PROJECT) DEFAULT_QUOTA_PER_PROJECT *
     cfg_int (conf FLEETS_CLEANUP_FORCE_AT_PERCENT) DEFAULT_FORCE_AT_PERCENT div 100"

lemma over_quota_facts:
  assumes "(p, n) \<in> set (projects_over_quota conf counts)"
  shows "\<exists>held. (p, held) \<in> set counts \<and> quota_threshold conf \<le> int held \<and> n = int held - quota_threshold conf + 1 \<and> 0 < n"
  using assms by (auto simp: projects_over_quota_def Let_def split: if_splits)

lemma over_quota_distinct: "distinct (map fst counts) \<Longrightarrow> distinct (map fst (projects_over_quota conf counts))"
  by (simp add: projects_over_quota_def Let_def comp_def case_prod_beta distinct_map_filter)

lemma jobs_to_clean_parts:
  assumes "distinct (map job_id (job_tbl d))" "distinct (map fst counts)"
    and "js = jobs_to_clean conf now ku (projects_over_quota conf counts) paused_rs gave d"
  obtains quota aged where "js = quota @ aged"
    "quota_ok (max_deletes conf) (deletable ku paused_rs gave d) (projects_over_quota conf counts) quota"
    "\<forall>j \<in> set aged. j \<in> set (deletable ku paused_rs gave d) \<and> updated j < window_start conf now \<and> job_id j \<notin> job_id ` set quota"
    "distinct (map job_id aged)" "aged = [] \<or> int (length (quota @ aged)) \<le> max_deletes conf"
proof -
  let ?cap = "max_deletes conf"
  define rows where "rows = deletable ku paused_rs gave d"
  define quota where "quota = over_quota_jobs ?cap rows (projects_over_quota conf counts) []"
  define older where "older = filter (\<lambda>j. job_id j \<notin> job_id ` set quota) (past_the_window conf now rows)"
  define aged where "aged = (if int (length quota) < ?cap then py_take (?cap - int (length quota)) older else [])"
  have rows: "distinct (map job_id rows)" using assms(1) by (simp add: rows_def deletable_def distinct_map_filter)
  have "\<forall>(p, n) \<in> set (projects_over_quota conf counts). 0 < n" using over_quota_facts by fastforce
  then have "quota_ok ?cap rows ([] @ projects_over_quota conf counts) quota"
    unfolding quota_def using rows over_quota_distinct [OF assms(2)] by (intro over_quota_ok) (simp_all add: quota_ok_def)
  moreover have "js = quota @ aged"
    using assms(3) by (simp add: jobs_to_clean_def Let_def quota_def aged_def older_def rows_def)
  moreover have sub: "set aged \<subseteq> set older" using py_take_subset [of "?cap - int (length quota)" older] by (auto simp: aged_def)
  then have "\<forall>j \<in> set aged. j \<in> set rows \<and> updated j < window_start conf now \<and> job_id j \<notin> job_id ` set quota"
    by (auto simp: older_def past_the_window_def Let_def)
  moreover have "distinct (map job_id older)" using rows by (simp add: older_def past_the_window_def Let_def distinct_map_filter)
  then have "distinct (map job_id aged)" by (simp add: aged_def py_take_distinct)
  moreover have "aged = [] \<or> int (length (quota @ aged)) \<le> ?cap"
    using py_take_bound [of "?cap - int (length quota)" older] by (auto simp: aged_def)
  ultimately show thesis using that unfolding rows_def by simp
qed

text \<open>
  What a cleanup cycle may delete. It picks at most the configured number of jobs, each once, and only held fleets of
  terminal jobs that are not given up on and not in a paused region. A fleet still inside the retention
  window is picked only if its project holds at least the threshold of its quota, and of such fresh
  fleets no more than the project needs to get back under the threshold.
\<close>

theorem cleanup_selection:
  assumes "distinct (map job_id (job_tbl d))" "distinct (map fst counts)"
    and "js = jobs_to_clean conf now ku (projects_over_quota conf counts) paused_rs gave d"
  shows "distinct (map job_id js) \<and> int (length js) \<le> max 0 (max_deletes conf) \<and>
    (\<forall>j \<in> set js. j \<in> set (job_tbl d) \<and> status j \<in> set TERMINAL_STATUSES \<and> held_fleet j \<and> job_id j \<notin> set gave \<and>
       fleet_region j \<notin> set paused_rs \<and>
       (window_start conf now \<le> updated j \<longrightarrow> (\<exists>p held. ce_project_name j = Some p \<and> (p, held) \<in> set counts \<and>
          quota_threshold conf \<le> int held \<and>
          int held - int (length (filter (\<lambda>k. ce_project_name k = Some p \<and> window_start conf now \<le> updated k) js)) \<ge> quota_threshold conf - 1)))"
proof -
  obtain quota aged where js: "js = quota @ aged"
    and q: "quota_ok (max_deletes conf) (deletable ku paused_rs gave d) (projects_over_quota conf counts) quota"
    and a: "\<forall>j \<in> set aged. j \<in> set (deletable ku paused_rs gave d) \<and> updated j < window_start conf now \<and> job_id j \<notin> job_id ` set quota"
      "distinct (map job_id aged)" "aged = [] \<or> int (length (quota @ aged)) \<le> max_deletes conf"
    using jobs_to_clean_parts [OF assms] .
  have nq: "job_id j \<notin> job_id ` set quota" if "j \<in> set aged" for j using a(1) that by simp
  have "job_id ` set quota \<inter> job_id ` set aged = {}" by (rule equals0I, elim IntE imageE) (metis nq imageI)
  then have dist: "distinct (map job_id js)" using q a(2) by (simp add: js quota_ok_def)
  have len: "int (length js) \<le> max 0 (max_deletes conf)" using q a(3) by (auto simp: js quota_ok_def)
  have picked: "set js \<subseteq> set (deletable ku paused_rs gave d)" using q a(1) by (auto simp: js quota_ok_def)
  have fresh: "\<exists>p held. ce_project_name j = Some p \<and> (p, held) \<in> set counts \<and> quota_threshold conf \<le> int held \<and>
      int held - int (length (filter (\<lambda>k. ce_project_name k = Some p \<and> window_start conf now \<le> updated k) js)) \<ge> quota_threshold conf - 1"
    if j: "j \<in> set js" and w: "window_start conf now \<le> updated j" for j
  proof -
    have "j \<in> set quota" using j w a(1) by (auto simp: js)
    then obtain p n where p: "(p, n) \<in> set (projects_over_quota conf counts)" "ce_project_name j = Some p"
        "int (length (filter (\<lambda>k. ce_project_name k = Some p) quota)) \<le> n"
      using q unfolding quota_ok_def by blast
    from over_quota_facts [OF p(1)] obtain held where h: "(p, held) \<in> set counts" "quota_threshold conf \<le> int held"
        "n = int held - quota_threshold conf + 1"
      by blast
    have "filter (\<lambda>k. ce_project_name k = Some p \<and> window_start conf now \<le> updated k) aged = []"
      using a(1) by (auto simp: filter_empty_conv)
    then have "length (filter (\<lambda>k. ce_project_name k = Some p \<and> window_start conf now \<le> updated k) js) \<le>
        length (filter (\<lambda>k. ce_project_name k = Some p) quota)"
      by (simp add: js length_filter_conv_card card_mono Collect_mono)
    then show ?thesis using p(2,3) h by (intro exI [of _ p] exI [of _ held]) simp
  qed
  have "j \<in> set (job_tbl d) \<and> status j \<in> set TERMINAL_STATUSES \<and> held_fleet j \<and> job_id j \<notin> set gave \<and> fleet_region j \<notin> set paused_rs"
    if "j \<in> set js" for j
    using deletable_facts [OF subsetD [OF picked that]] by simp
  then show ?thesis using dist len fresh by blast
qed

theorem cleanup_selection_witness:
  "length (jobs_to_clean (\<lambda>_. ''1'') 4000000000 True (projects_over_quota (\<lambda>_. ''1'') []) [] []
     \<lparr>job_tbl = [(example_job SUCCEEDED)\<lparr>fleet_id := Some ''f''\<rparr>], event_tbl = [], outbox_tbl = [], outbox_seq = 0, mirror_tbl = [], blocked_tbl = []\<rparr>) = 1"
  (is "length ?js = 1")
proof -
  let ?d = "\<lparr>job_tbl = [(example_job SUCCEEDED)\<lparr>fleet_id := Some ''f''\<rparr>], event_tbl = [], outbox_tbl = [], outbox_seq = 0, mirror_tbl = [], blocked_tbl = []\<rparr>"
  have d: "distinct (map job_id (job_tbl ?d))" "distinct (map fst ([] :: (string \<times> nat) list))" by simp_all
  have "cfg_int ''1'' DEFAULT_MAX_DELETES_PER_CYCLE = 1" by code_simp
  moreover have "?js \<noteq> []" by code_simp
  ultimately show ?thesis
    using cleanup_selection [OF d refl, of "\<lambda>_. ''1''" 4000000000 True "[]" "[]"] by (cases ?js) auto
qed

section \<open>What a cycle writes\<close>

abbreviation stamp :: "ops_env \<Rightarrow> job \<Rightarrow> job" where
  "stamp env r \<equiv> r\<lparr>updated := oe_now env, fleet_deleted_at := Some (oe_now env), version := version r + 1\<rparr>"

lemma deleter_paused_regions_frame [simp]: "sdb (snd (deleter_paused_regions env s)) = sdb s"
  by (simp add: deleter_paused_regions_def split: prod.splits)

lemma record_cycle_frame [simp]: "sdb (record_cycle env b rg s) = sdb s"
  by (simp add: record_cycle_def)

lemma fold_frame [simp]: "(\<And>x s. sdb (f x s) = sdb s) \<Longrightarrow> sdb (fold f xs s) = sdb s"
  by (induction xs arbitrary: s) simp_all

lemma count_failure_frame [simp]: "sdb (snd (count_failure j cs)) = sdb (snd cs)"
  by (cases cs) (simp add: count_failure_def Let_def)

lemma delete_and_stamp_effect:
  assumes "delete_and_stamp env j (c, s) = (r, c', s')"
  shows "sdb s' = sdb s \<and> r \<noteq> Inr True \<or>
    oe_free env j = Inr True \<and> (\<exists>j' ru. update_fields (oe_now env) [F_fleet_deleted_at (Some (oe_now env))] (j, sdb s) = (ru, j', sdb s') \<and>
       (r = Inr True \<longleftrightarrow> ru = Inr ()))"
proof -
  obtain a s1 where f: "fleet_delete env j s = (a, s1)" by fastforce
  obtain p s0 where s0: "deleter_paused env (fleet_region j) s = (p, s0)" by fastforce
  have "sdb s0 = sdb s" using sched_frame(5) [of env "fleet_region j" s] s0 by simp
  then have d: "sdb s1 = sdb s" and a: "a = Inr True \<Longrightarrow> oe_free env j = Inr True"
    using f s0 by (auto simp: fleet_delete_def split: if_splits)
  obtain ru j2 s2 where u: "on_db (update_fields (oe_now env) [F_fleet_deleted_at (Some (oe_now env))]) (j, s1) = (ru, j2, s2)"
    by (metis prod_cases3)
  then have u2: "update_fields (oe_now env) [F_fleet_deleted_at (Some (oe_now env))] (j, sdb s) = (ru, j2, sdb s2)"
    using d by (auto simp: on_db_def on_world_def split: prod.splits)
  have cf: "sdb s' = sdb s" if "count_failure j (c, s1) = (c', s')"
    using count_failure_frame [of j "(c, s1)"] that d by simp
  show ?thesis
    using assms f d a u u2 cf by (auto simp: delete_and_stamp_def split: sum.splits if_splits)
qed

lemma stamp_fields: "(apply_fields [F_updated t, F_fleet_deleted_at (Some t)] r)\<lparr>version := v\<rparr> =
    r\<lparr>updated := t, fleet_deleted_at := Some t, version := v\<rparr>"
  by simp

lemma delete_and_stamp_row:
  assumes "delete_and_stamp env j (c, s) = (r, c', s')" "job_row (sdb s) i = Some x"
  shows "job_row (sdb s') i = Some x \<or> i = job_id j \<and> oe_free env j = Inr True \<and> job_row (sdb s') i = Some (stamp env x)"
proof (cases "sdb s' = sdb s")
  case False
  then obtain j' ru where f: "oe_free env j = Inr True"
      "update_fields (oe_now env) [F_fleet_deleted_at (Some (oe_now env))] (j, sdb s) = (ru, j', sdb s')"
    using delete_and_stamp_effect [OF assms(1)] by blast
  show ?thesis using update_fields_row [OF f(2), of i] assms(2) f(1) by (simp split: if_splits)
qed (use assms(2) in simp)


lemma clean_loop_next:
  assumes "clean_loop envs deadline n (j # js) (y, c, s) = (r, y', c', s')" "delete_and_stamp (envs n) j (c, s) = (rd, c1, s1)"
  obtains (stop) "s' = s" "c' = c" | (raised) "s' = s1" "c' = c1"
    | (skip) y1 where "clean_loop envs deadline (Suc n) js (y1, c, s) = (r, y', c', s')"
    | (step) y1 s2 where "sdb s2 = sdb s1" "clean_loop envs deadline (Suc n) js (y1, c1, s2) = (r, y', c', s')"
proof -
  have "s' = s \<and> c' = c \<or> s' = s1 \<and> c' = c1 \<or> (\<exists>y1. clean_loop envs deadline (Suc n) js (y1, c, s) = (r, y', c', s')) \<or>
      (\<exists>y1. clean_loop envs deadline (Suc n) js (y1, c1, s1) = (r, y', c', s')) \<or>
      (\<exists>y1. clean_loop envs deadline (Suc n) js (y1, c1, record_cycle (envs n) False (fleet_region j) s1) = (r, y', c', s'))"
    using assms by (auto split: if_splits sum.splits)
  then show thesis using that record_cycle_frame by metis
qed

lemma clean_loop_row:
  "clean_loop envs deadline n js (y, c, s) = (r, y', c', s') \<Longrightarrow> job_row (sdb s) i = Some x \<Longrightarrow> distinct (map job_id js) \<Longrightarrow>
   job_row (sdb s') i = Some x \<or>
   (\<exists>j m. j \<in> set js \<and> job_id j = i \<and> oe_free (envs m) j = Inr True \<and> job_row (sdb s') i = Some (stamp (envs m) x))"
proof (induction js arbitrary: n y c s x)
  case (Cons j js)
  have keep: "clean_loop envs deadline (Suc n) js (y1, c1, s1) = (r, y', c', s') \<Longrightarrow> job_row (sdb s1) i = Some x \<Longrightarrow>
      job_row (sdb s') i = Some x \<or> (\<exists>j' m. j' \<in> set (j # js) \<and> job_id j' = i \<and> oe_free (envs m) j' = Inr True \<and>
        job_row (sdb s') i = Some (stamp (envs m) x))" for y1 c1 s1
    using Cons.IH [of "Suc n" y1 c1 s1 x] Cons.prems(3) by auto
  obtain rd c1 s1 where d: "delete_and_stamp (envs n) j (c, s) = (rd, c1, s1)" by (metis prod_cases3)
  have step: "job_row (sdb s') i = Some x \<or> (\<exists>j' m. j' \<in> set (j # js) \<and> job_id j' = i \<and> oe_free (envs m) j' = Inr True \<and>
        job_row (sdb s') i = Some (stamp (envs m) x))"
    if l: "clean_loop envs deadline (Suc n) js (y1, c1, s2) = (r, y', c', s')" and "sdb s2 = sdb s1" for y1 s2
  proof (cases "job_row (sdb s1) i = Some x")
    case True
    then show ?thesis using keep [OF l] that(2) by simp
  next
    case False
    then have st: "i = job_id j" "oe_free (envs n) j = Inr True" "job_row (sdb s1) i = Some (stamp (envs n) x)"
      using delete_and_stamp_row [OF d Cons.prems(2)] by auto
    have "job_row (sdb s2) i = Some (stamp (envs n) x)" using st(3) that(2) by simp
    moreover have "job_id k \<noteq> i" if "k \<in> set js" for k using Cons.prems(3) st(1) that by (metis distinct.simps(2) imageI list.set_map list.simps(9))
    ultimately have "job_row (sdb s') i = Some (stamp (envs n) x)" using Cons.IH [OF l] Cons.prems(3) by (metis distinct.simps(2) list.simps(9))
    then show ?thesis using st by auto
  qed
  from Cons.prems(1) d show ?case
    by (cases rule: clean_loop_next)
      (use delete_and_stamp_row [OF d Cons.prems(2)] keep step Cons.prems(2) in \<open>auto\<close>)
qed simp

text \<open>
  What a cleanup cycle writes. A row of the job table comes out as it was, or it is the row of a job that the cycle
  had selected, Code Engine confirmed the delete of its fleet, and only the stamp
  \<open>fleet_deleted_at\<close>, \<open>updated\<close> and \<open>version\<close> changed. No other table changes.
\<close>

theorem cleanup_stamps_deleted_fleets:
  assumes "free_fleets_run ku envs (c, s) = (r, c', s')" "distinct (map job_id (job_tbl (sdb s)))" "job_row (sdb s) i = Some x"
  shows "job_row (sdb s') i = Some x \<or>
    (held_fleet x \<and> status x \<in> set TERMINAL_STATUSES \<and> i \<notin> set (given_up c) \<and>
     (\<exists>m. oe_free (envs m) x = Inr True \<and> job_row (sdb s') i = Some (stamp (envs m) x)))"
proof -
  let ?env = "envs 0"
  define counts where "counts = count_held_fleets (sdb s)"
  define s0 where "s0 = fold (\<lambda>(p, n). add_metric (Held_fleets n p)) counts (add_metric Held_fleets_cleared s)"
  obtain rs s1 where s1: "deleter_paused_regions ?env s0 = (rs, s1)" by fastforce
  have d0: "sdb s0 = sdb s" by (simp add: s0_def case_prod_beta)
  then have d1: "sdb s1 = sdb s" using deleter_paused_regions_frame [of ?env s0] s1 by simp
  define js where "js = jobs_to_clean (oe_conf ?env) (oe_now ?env) ku (projects_over_quota (oe_conf ?env) counts) rs (given_up c) (sdb s1)"
  define dl where "dl = oe_mono ?env + cfg_int (oe_conf ?env FLEETS_CLEANUP_BUDGET_MS) DEFAULT_BUDGET_MS * 1000"
  obtain rl y c2 s2 where l: "clean_loop envs dl 0 js (\<lparr>failed_regions = [], answered_regions = []\<rparr>, c, s1) = (rl, y, c2, s2)"
    by (metis prod_cases4)
  have counts: "distinct (map fst counts)" by (simp add: counts_def count_held_fleets_def Let_def comp_def)
  obtain quota aged where parts: "js = quota @ aged"
      "quota_ok (max_deletes (oe_conf ?env)) (deletable ku rs (given_up c) (sdb s1)) (projects_over_quota (oe_conf ?env) counts) quota"
      "\<forall>j \<in> set aged. j \<in> set (deletable ku rs (given_up c) (sdb s1)) \<and> updated j < window_start (oe_conf ?env) (oe_now ?env) \<and> job_id j \<notin> job_id ` set quota"
      "distinct (map job_id aged)"
    using jobs_to_clean_parts [OF assms(2) [folded d1] counts js_def] .
  have sub: "set js \<subseteq> set (deletable ku rs (given_up c) (sdb s1))" using parts by (auto simp: quota_ok_def)
  have "job_id ` set quota \<inter> job_id ` set aged = {}" using parts(3) by (intro equals0I, elim IntE imageE) (metis imageI)
  then have dist: "distinct (map job_id js)" using parts by (simp add: quota_ok_def)
  have out: "sdb s' = sdb s \<or> sdb s' = sdb s2"
    using assms(1) s1 l d0
    by (auto simp: free_fleets_run_def js_def dl_def counts_def s0_def Let_def split: if_splits sum.splits)
  have row: "j = x" if "j \<in> set (job_tbl (sdb s))" "job_id j = i" for j
    using assms(2,3) that row_of_distinct [of job_id "job_tbl (sdb s)" j] by (simp add: job_row_def)
  from out show ?thesis
  proof
    assume "sdb s' = sdb s2"
    moreover have "job_row (sdb s2) i = Some x \<or>
        (\<exists>j m. j \<in> set js \<and> job_id j = i \<and> oe_free (envs m) j = Inr True \<and> job_row (sdb s2) i = Some (stamp (envs m) x))"
      using clean_loop_row [OF l _ dist] assms(3) d1 by simp
    ultimately show ?thesis using deletable_facts [OF subsetD [OF sub]] row d1 by metis
  qed (use assms(3) in simp)
qed

text \<open>The example job after it succeeded, its fleet still held, ten hours later.\<close>

definition ex_held :: sched where
  "ex_held = ex_sched (ex_queued\<lparr>wdb := (example_db SUCCEEDED)\<lparr>job_tbl := [(example_job SUCCEEDED)\<lparr>fleet_id := Some ''f''\<rparr>]\<rparr>\<rparr>)"

definition ex_cleanup_env :: ops_env where
  "ex_cleanup_env = (ex_ops 36000000000)\<lparr>oe_conf := (\<lambda>k. if k = FLEETS_CLEANUP_ENABLED then ''true'' else ''5'')\<rparr>"

theorem cleanup_stamps_deleted_fleets_witness:
  "\<exists>r c' s' m. free_fleets_run True (\<lambda>_. ex_cleanup_env) (\<lparr>failed_attempts = [], given_up = []\<rparr>, ex_held) = (r, c', s') \<and>
      job_row (sdb s') ''j'' = Some (stamp ex_cleanup_env ((example_job SUCCEEDED)\<lparr>fleet_id := Some ''f''\<rparr>))"
proof -
  let ?x = "free_fleets_run True (\<lambda>_. ex_cleanup_env) (\<lparr>failed_attempts = [], given_up = []\<rparr>, ex_held)"
  let ?j = "(example_job SUCCEEDED)\<lparr>fleet_id := Some ''f''\<rparr>"
  obtain r c' s' where x: "?x = (r, c', s')" by (metis prod_cases3)
  have tbl: "job_tbl (sdb ex_held) = [?j]" by (simp add: ex_held_def ex_sched_def)
  have row: "job_row (sdb ex_held) ''j'' = Some ?j" by (simp add: job_row_def tbl row_of_def example_job_def Job_new_def)
  have "map_option fleet_deleted_at (job_row (sdb (snd (snd ?x))) ''j'') = Some (Some 36000000000)" by code_simp
  then have "job_row (sdb s') ''j'' \<noteq> Some ?j" using x by (auto simp: example_job_def Job_new_def)
  then have "job_row (sdb s') ''j'' = Some (stamp ex_cleanup_env ?j)"
    using cleanup_stamps_deleted_fleets [OF x _ row] tbl by auto
  then show ?thesis using x by blast
qed

section \<open>Counting failures stays bounded\<close>

definition cleaner_inv :: "cleaner \<Rightarrow> bool" where
  "cleaner_inv c \<longleftrightarrow> length (failed_attempts c) \<le> MAX_TRACKED_FAILURES \<and> length (given_up c) \<le> MAX_TRACKED_FAILURES \<and>
     distinct (map fst (failed_attempts c)) \<and> distinct (given_up c) \<and>
     (\<forall>(i, n) \<in> set (failed_attempts c). 1 \<le> n \<and> n < MAX_ATTEMPTS_PER_FLEET)"

lemma evict_drop: "\<exists>k. evict n xs = drop k xs"
  by (induction xs) (auto intro: exI [of _ 0] exI [of _ "Suc _"])

lemma evict_length: "0 < n \<Longrightarrow> length (evict n xs) < n"
  by (induction xs) auto

lemma evict_small: "length xs < n \<Longrightarrow> evict n xs = xs"
  by (cases xs) auto

lemma update_length: "length (AList.update k v xs) = (if k \<in> fst ` set xs then length xs else Suc (length xs))"
  by (induction xs) auto

lemma delete_length: "length (AList.delete k xs) \<le> length xs"
  by (simp add: AList.delete_eq)

lemma update_entries: "set (AList.update k v xs) \<subseteq> insert (k, v) (set xs)"
  by (induction xs) auto

lemma count_failure_inv: "cleaner_inv c \<Longrightarrow> cleaner_inv (fst (count_failure j (c, s)))"
proof -
  assume inv: "cleaner_inv c"
  let ?i = "job_id j"
  define f1 where "f1 = (if ?i \<notin> fst ` set (failed_attempts c) then evict MAX_TRACKED_FAILURES (failed_attempts c) else failed_attempts c)"
  define m where "m = (case map_of f1 ?i of None \<Rightarrow> 0 | Some n \<Rightarrow> n) + 1"
  obtain k where k: "evict MAX_TRACKED_FAILURES (failed_attempts c) = drop k (failed_attempts c)" using evict_drop by blast
  have sub: "set f1 \<subseteq> set (failed_attempts c)" using set_drop_subset [of k "failed_attempts c"] by (simp add: f1_def k)
  have dist: "distinct (map fst f1)" using inv k by (auto simp: f1_def cleaner_inv_def drop_map [symmetric])
  have len: "length (AList.update ?i m f1) \<le> MAX_TRACKED_FAILURES"
    using inv evict_length [of MAX_TRACKED_FAILURES "failed_attempts c"]
    by (auto simp: update_length f1_def cleaner_inv_def MAX_TRACKED_FAILURES_def)
  have ok: "1 \<le> n \<and> n < MAX_ATTEMPTS_PER_FLEET" if "(i, n) \<in> set f1" for i n
    using inv sub that by (auto simp: cleaner_inv_def)
  show ?thesis
  proof (cases "m \<ge> MAX_ATTEMPTS_PER_FLEET")
    case True
    let ?g = "if length (given_up c) \<ge> MAX_TRACKED_FAILURES then tl (given_up c) else given_up c"
    have g: "distinct ?g" "length ?g < MAX_TRACKED_FAILURES"
      using inv by (auto simp: cleaner_inv_def distinct_tl MAX_TRACKED_FAILURES_def)
    have "set (AList.delete ?i (AList.update ?i m f1)) \<subseteq> set f1" using update_entries [of ?i m f1] by (auto simp: AList.delete_eq)
    then have "\<forall>(i, n) \<in> set (AList.delete ?i (AList.update ?i m f1)). 1 \<le> n \<and> n < MAX_ATTEMPTS_PER_FLEET" using ok by auto
    moreover have "length (AList.delete ?i (AList.update ?i m f1)) \<le> MAX_TRACKED_FAILURES"
      using len delete_length [of ?i "AList.update ?i m f1"] by linarith
    moreover have "distinct (map fst (AList.delete ?i (AList.update ?i m f1)))"
      by (intro distinct_delete distinct_update dist)
    moreover have "fst (count_failure j (c, s)) =
        \<lparr>failed_attempts = AList.delete ?i (AList.update ?i m f1), given_up = (if ?i \<in> set ?g then ?g else ?g @ [?i])\<rparr>"
      using True by (simp add: count_failure_def Let_def f1_def m_def)
    ultimately show ?thesis using g by (auto simp: cleaner_inv_def)
  next
    case False
    have "fst (count_failure j (c, s)) = c\<lparr>failed_attempts := AList.update ?i m f1\<rparr>"
      using False by (simp add: count_failure_def Let_def f1_def m_def)
    moreover have "\<forall>(i, n) \<in> set (AList.update ?i m f1). 1 \<le> n \<and> n < MAX_ATTEMPTS_PER_FLEET"
      using update_entries [of ?i m f1] ok False by (auto simp: m_def)
    ultimately show ?thesis using inv len distinct_update [OF dist] by (auto simp: cleaner_inv_def)
  qed
qed


lemma delete_and_stamp_inv:
  assumes "cleaner_inv c" "delete_and_stamp env j (c, s) = (r, c', s')"
  shows "cleaner_inv c'"
proof -
  have del: "cleaner_inv (c\<lparr>failed_attempts := AList.delete i (failed_attempts c)\<rparr>)" for i
    using assms(1) delete_length [of i "failed_attempts c"] distinct_delete [of "failed_attempts c" i]
    by (auto simp: cleaner_inv_def AList.delete_eq intro: le_trans [OF length_filter_le])
  have cf: "cleaner_inv c'" if "count_failure j (c, s1) = (c', s')" for s1
    using count_failure_inv [OF assms(1), of j s1] that by simp
  show ?thesis using assms del cf by (auto simp: delete_and_stamp_def split: prod.splits sum.splits if_splits)
qed

lemma clean_loop_inv:
  "cleaner_inv c \<Longrightarrow> clean_loop envs deadline n js (y, c, s) = (r, y', c', s') \<Longrightarrow> cleaner_inv c'"
proof (induction js arbitrary: n y c s)
  case (Cons j js)
  obtain rd c1 s1 where d: "delete_and_stamp (envs n) j (c, s) = (rd, c1, s1)" by (metis prod_cases3)
  note inv1 = delete_and_stamp_inv [OF Cons.prems(1) d]
  from Cons.prems(2) d show ?case
    by (cases rule: clean_loop_next) (use Cons.prems(1) inv1 Cons.IH in blast)+
qed simp

lemma three_failures_give_up:
  assumes "job_id j \<notin> fst ` set (failed_attempts c)"
  shows "job_id j \<in> set (given_up (fst ((count_failure j ^^ MAX_ATTEMPTS_PER_FLEET) (c, s))))"
proof -
  let ?i = "job_id j"
  define f1 where "f1 = evict MAX_TRACKED_FAILURES (failed_attempts c)"
  obtain k where "f1 = drop k (failed_attempts c)" using evict_drop f1_def by blast
  then have new: "?i \<notin> fst ` set f1" using assms set_drop_subset [of k "failed_attempts c"] by auto
  then have none: "map_of f1 ?i = None" by (simp add: map_of_eq_None_iff)
  have 1: "\<exists>s1. count_failure j (c, s) = (c\<lparr>failed_attempts := AList.update ?i 1 f1\<rparr>, s1)"
    using assms none by (simp add: count_failure_def Let_def f1_def MAX_ATTEMPTS_PER_FLEET_def)
  have key: "?i \<in> fst ` set (AList.update ?i v xs)" for v :: nat and xs by (simp add: dom_update)
  have get: "map_of (AList.update ?i v xs) ?i = Some v" for v :: nat and xs by (simp add: update_conv')
  have 2: "\<exists>s2. count_failure j (c\<lparr>failed_attempts := AList.update ?i 1 f1\<rparr>, s1) =
      (c\<lparr>failed_attempts := AList.update ?i 2 (AList.update ?i 1 f1)\<rparr>, s2)" for s1
    using key get by (simp add: count_failure_def Let_def MAX_ATTEMPTS_PER_FLEET_def numeral_2_eq_2)
  have 3: "?i \<in> set (given_up (fst (count_failure j (c\<lparr>failed_attempts := AList.update ?i 2 xs\<rparr>, s2))))" for xs s2
    using key get by (simp add: count_failure_def Let_def MAX_ATTEMPTS_PER_FLEET_def)
  from 1 obtain s1 where s1: "count_failure j (c, s) = (c\<lparr>failed_attempts := AList.update ?i 1 f1\<rparr>, s1)" by blast
  from 2 obtain s2 where "count_failure j (c\<lparr>failed_attempts := AList.update ?i 1 f1\<rparr>, s1) =
      (c\<lparr>failed_attempts := AList.update ?i 2 (AList.update ?i 1 f1)\<rparr>, s2)"
    by blast
  then show ?thesis using s1 3 by (simp add: MAX_ATTEMPTS_PER_FLEET_def numeral_3_eq_3)
qed

text \<open>
  The failure counts stay bounded. However many cycles run, at most 500 jobs are counted and at most 500 given up on, each
  once, and a counted job has failed one or two times; a job that fails three times in a row is given up on.
\<close>

theorem cleanup_counts_bounded:
  "(cleaner_inv c \<and> free_fleets_run ku envs (c, s) = (r, c', s') \<longrightarrow> cleaner_inv c') \<and>
   (job_id j \<notin> fst ` set (failed_attempts c) \<longrightarrow>
      job_id j \<in> set (given_up (fst ((count_failure j ^^ MAX_ATTEMPTS_PER_FLEET) (c, s)))))"
proof (intro conjI impI)
  assume "cleaner_inv c \<and> free_fleets_run ku envs (c, s) = (r, c', s')"
  then show "cleaner_inv c'"
    by (auto simp: free_fleets_run_def Let_def split: if_splits prod.splits sum.splits intro: clean_loop_inv)
qed (rule three_failures_give_up)

theorem cleanup_counts_bounded_witness:
  "job_id (example_job SUCCEEDED) \<in> set (given_up (fst ((count_failure (example_job SUCCEEDED) ^^ MAX_ATTEMPTS_PER_FLEET)
     (\<lparr>failed_attempts = [], given_up = []\<rparr>, ex_held)))) \<and>
   cleaner_inv (fst (snd (free_fleets_run True (\<lambda>_. ex_cleanup_env) (\<lparr>failed_attempts = [], given_up = []\<rparr>, ex_held))))"
proof -
  let ?c = "\<lparr>failed_attempts = [], given_up = []\<rparr>"
  obtain r c' s' where x: "free_fleets_run True (\<lambda>_. ex_cleanup_env) (?c, ex_held) = (r, c', s')" by (metis prod_cases3)
  have "cleaner_inv ?c" by (simp add: cleaner_inv_def)
  then show ?thesis
    using cleanup_counts_bounded [of ?c True "\<lambda>_. ex_cleanup_env" ex_held r c' s' "example_job SUCCEEDED"] x by simp
qed

section \<open>The cycle as steps of the life cycle\<close>

lemma clean_loop_steps:
  "\<forall>j \<in> set js. present j (sdb s) \<Longrightarrow> clean_loop envs deadline n js (y, c, s) = (r, y', c', s') \<Longrightarrow> life_steps (sdb s) (sdb s')"
proof (induction js arbitrary: n y c s)
  case (Cons j js)
  obtain rd c1 s1 where d: "delete_and_stamp (envs n) j (c, s) = (rd, c1, s1)" by (metis prod_cases3)
  have "sdb s1 = sdb s \<or> life_step (sdb s) (sdb s1)"
    using delete_and_stamp_effect [OF d] step_fields [OF _ plain_extra(5)] by blast
  then have st: "life_steps (sdb s) (sdb s1)" by auto
  have later: "life_steps (sdb s) (sdb s')"
    if "life_steps (sdb s) (sdb t)" "clean_loop envs deadline (Suc n) js (y1, c2, t) = (r, y', c', s')" for t y1 c2
    using that Cons.IH [of t "Suc n" y1 c2] present_later [OF _ that(1), of js] Cons.prems(1) by (auto intro: rtranclp_trans)
  from Cons.prems(2) d show ?case
  proof (cases rule: clean_loop_next)
    case (step y1 s2)
    then show ?thesis using later [of s2 y1 c1] st by simp
  qed (use st later [of s] in auto)
qed simp

lemma over_quota_subset: "set jobs \<subseteq> set rows \<Longrightarrow> set (over_quota_jobs cap rows oq jobs) \<subseteq> set rows"
proof (induction oq arbitrary: jobs)
  case (Cons x oq)
  obtain p n where x: "x = (p, n)" by fastforce
  have "set (jobs @ py_take k (sort_key updated (filter (\<lambda>j. ce_project_name j = Some p) rows))) \<subseteq> set rows" for k
    using Cons.prems py_take_subset [of k "sort_key updated (filter (\<lambda>j. ce_project_name j = Some p) rows)"] by auto
  from Cons.IH [OF this] Cons.prems show ?case by (simp add: x Let_def)
qed simp

lemma jobs_to_clean_stored: "set (jobs_to_clean conf now ku oq rs gave d) \<subseteq> set (job_tbl d)"
proof -
  define rows where "rows = deletable ku rs gave d"
  have "set rows \<subseteq> set (job_tbl d)" by (auto simp: rows_def deletable_def)
  moreover have "set (over_quota_jobs cap rows oq []) \<subseteq> set rows" for cap by (rule over_quota_subset) simp
  moreover have "set (py_take k (filter P (past_the_window conf now rows))) \<subseteq> set rows" for k P
    using py_take_subset [of k "filter P (past_the_window conf now rows)"] by (auto simp: past_the_window_def Let_def)
  ultimately show ?thesis unfolding jobs_to_clean_def Let_def rows_def [symmetric] set_append by (smt (verit) Un_subset_iff set_append subset_trans)
qed

lemma free_fleets_run_steps:
  assumes "distinct (map job_id (job_tbl (sdb s)))" "free_fleets_run ku envs (c, s) = (r, c', s')"
  shows "life_steps (sdb s) (sdb s')"
proof -
  define s0 where "s0 = fold (\<lambda>(p, n). add_metric (Held_fleets n p)) (count_held_fleets (sdb s)) (add_metric Held_fleets_cleared s)"
  obtain rs s1 where s1: "deleter_paused_regions (envs 0) s0 = (rs, s1)" by fastforce
  have d0: "sdb s0 = sdb s" by (simp add: s0_def case_prod_beta)
  then have d1: "sdb s1 = sdb s" using deleter_paused_regions_frame [of "envs 0" s0] s1 by simp
  have pres: "\<forall>j \<in> set (jobs_to_clean conf now ku oq rs gave (sdb s1)). present j (sdb s1)" for conf now oq gave
    using jobs_to_clean_stored [of conf now ku oq rs gave "sdb s1"] stored_present [OF assms(1)] by (auto simp: d1)
  have "sdb s' = sdb s \<or> (\<exists>js dl n y rl y2 c2 s2. (\<forall>j \<in> set js. present j (sdb s1)) \<and> clean_loop envs dl n js (y, c, s1) = (rl, y2, c2, s2) \<and> sdb s' = sdb s2)"
    using assms(2) s1 d0 pres
    by (auto simp: free_fleets_run_def s0_def [symmetric] Let_def split: if_splits sum.splits prod.splits) (metis fold_frame record_cycle_frame)+
  then show ?thesis using clean_loop_steps d1 by (metis rtranclp.rtrancl_refl)
qed

end
