(* ===== verification/Filler_Balance.thy ===== *)
theory Filler_Balance
  imports Fleets_Properties
begin

text \<open>
  \<open>BalanceFillerJobs\<close> (\<^verbatim>\<open>scheduler/tasks/balance_filler_jobs.py\<close>): keeping a minimum number of jobs running on the compute
  profile of the filler function, by creating at most one filler job per pass and stopping those that are
  too many or belong to another function or profile.
\<close>

definition RETRY_AFTER_LOOPS :: nat where
  "RETRY_AFTER_LOOPS = 60"

text \<open>
  What the task reads beyond a job's surroundings: the table of functions, the identifier the next job gets, how an
  identifier is parsed, and how saving the arguments and inserting the row end.
\<close>

record filler_env =
  fe_programs :: "program list"
  fe_uuid :: string
  fe_parse_uuid :: "string \<Rightarrow> nat option"
  fe_save_arguments :: "job \<Rightarrow> unit res"
  fe_save :: "unit res"

section \<open>The filler function\<close>

text \<open>\<open>Program.objects.get\<close>: the only row that matches.\<close>

definition get_row :: "'a list \<Rightarrow> 'a option res" where
  "get_row rows = (case rows of [] \<Rightarrow> Inr None | [p] \<Rightarrow> Inr (Some p) | _ \<Rightarrow> Inl (OtherException ''MultipleObjectsReturned''))"

definition lookup_filler_function :: "(ConfigKey \<Rightarrow> string) \<Rightarrow> filler_env \<Rightarrow> program option res" where
  "lookup_filler_function conf fe =
     (let v = strip (conf FILLER_FUNCTION) in
      if v = [] then Inr None
      else if CHR ''/'' \<in> set v
      then (case split_on (CHR ''/'') v of
              [pr, t] \<Rightarrow>
                if pr = [] \<or> t = [] then Inr None
                else get_row (filter (\<lambda>p. map_option provider_name (program_provider p) = Some pr \<and> title p = t) (fe_programs fe))
            | _ \<Rightarrow> Inr None)
      else (case fe_parse_uuid fe v of
              None \<Rightarrow> Inr None
            | Some i \<Rightarrow> get_row (filter (\<lambda>p. program_id p = i) (fe_programs fe))))"

definition usable_filler :: "program \<Rightarrow> bool" where
  "usable_filler p \<longleftrightarrow> program_runner p = FLEETS \<and> \<not> disabled p \<and> default_size p \<noteq> None \<and>
     (case program_project p of None \<Rightarrow> False | Some pr \<Rightarrow> cep_active pr \<and> truthy (cos_bucket_user_data_name pr))"

definition get_filler_program :: "(ConfigKey \<Rightarrow> string) \<Rightarrow> filler_env \<Rightarrow> program option res" where
  "get_filler_program conf fe =
     (if cfg_bool (conf MAINTENANCE) \<or> \<not> cfg_bool (conf FILLER_ENABLED) \<or> cfg_int (conf FILLER_SLOTS) 0 \<le> 0 then Inr None
      else (case lookup_filler_function conf fe of
              Inl e \<Rightarrow> Inl e
            | Inr None \<Rightarrow> Inr None
            | Inr (Some p) \<Rightarrow> Inr (if usable_filler p then Some p else None)))"

section \<open>Creating one filler job\<close>

definition mark_failed :: "ops_env \<Rightarrow> unit op" where
  "mark_failed env = (\<lambda>(j, s).
     (case on_world (to_failed (oe_call env) \<lparr>why_origin = SCHEDULER, why_ctx = FILLER_FAILED\<rparr> []) (j, s) of
        (Inl e, j1, s1) \<Rightarrow> (if e = InvalidJobTransitionException then Inr () else Inl e, j1, s1)
      | (Inr _, j1, s1) \<Rightarrow> (Inr (), j1, s1)))"

definition filler_job :: "ops_env \<Rightarrow> filler_env \<Rightarrow> program \<Rightarrow> function_size \<Rightarrow> job" where
  "filler_job env fe p fs =
     (Job_new (fe_uuid fe) (program_author p) (oe_now env))
       \<lparr>job_program := Some p, filler := True, runner := FLEETS, compute_profile_fk := Some (profile_id (fs_profile fs)),
        size_source := SIZE_SOURCE_NONE, job_function_size := Some fs, function_size_name := Some (fs_label fs),
        status := QUEUED, env_vars := ''{}'',
        ce_project_name := map_option project_name (program_project p), ce_region := map_option cep_region (program_project p)\<rparr>"

text \<open>What \<open>_submit_filler_job\<close> does when \<open>submit\<close> raised \<open>e\<close>.\<close>

definition creation_failed :: "sched \<Rightarrow> sched" where
  "creation_failed = add_metric (Filler_jobs_created ''failed'')"

definition submit_raised :: "ops_env \<Rightarrow> exn \<Rightarrow> job \<times> sched \<Rightarrow> bool res \<times> sched" where
  "submit_raised env e = (\<lambda>(j, s).
     if is_db_outage e then (Inl e, s)
     else if is_RunnerRetryableError e
     then (case mark_failed env (j, s) of (Inl e', _, s1) \<Rightarrow> (Inl e', s1) | (Inr _, _, s1) \<Rightarrow> (Inl e, creation_failed s1))
     else if e = InvalidJobTransitionException then (Inr False, s)
     else if status j = QUEUED \<and> \<not> truthy (fleet_id j)
     then (case mark_failed env (j, s) of (Inl e', _, s1) \<Rightarrow> (Inl e', s1) | (Inr _, _, s1) \<Rightarrow> (Inr False, creation_failed s1))
     else (Inr False, creation_failed s))"

definition submit_filler_job :: "ops_env \<Rightarrow> filler_env \<Rightarrow> program \<Rightarrow> sched \<Rightarrow> bool res \<times> sched" where
  "submit_filler_job env fe p s =
     (case default_size p of
        None \<Rightarrow> (Inl (AttributeError ''compute_profile''), s)
      | Some fs \<Rightarrow>
          let j = filler_job env fe p fs in
          (case (case fe_save_arguments fe j of Inl e \<Rightarrow> Inl e | Inr _ \<Rightarrow> fe_save fe) of
             Inl e \<Rightarrow> if is_db_outage e then (Inl e, s) else (Inr False, creation_failed s)
           | Inr _ \<Rightarrow>
               let s1 = s\<lparr>sc_world := (sc_world s)\<lparr>wdb := store_filler j (sdb s)\<rparr>\<rparr> in
               (case fleets_submit env FILLER_SUBMIT (j, s1) of
                  (Inr _, j2, s2) \<Rightarrow> (Inr True, add_metric (Filler_jobs_created ''submitted'') s2)
                | (Inl e, j2, s2) \<Rightarrow> submit_raised env e (j2, s2))))"

definition create_filler_job :: "ops_env \<Rightarrow> filler_env \<Rightarrow> program \<Rightarrow> nat \<times> sched \<Rightarrow> unit res \<times> nat \<times> sched" where
  "create_filler_job env fe p = (\<lambda>(retry_loops, s).
     if retry_loops > 0 then (Inr (), retry_loops - 1, s)
     else
       let (pz, s0) = (if oe_killed env then (True, s) else submitter_paused env (map_option cep_region (program_project p)) s) in
       if pz then (Inr (), retry_loops, s0)
       else
         (case submit_filler_job env fe p s0 of
            (Inr ok, s1) \<Rightarrow> (Inr (), if ok then retry_loops else RETRY_AFTER_LOOPS, s1)
          | (Inl e, s1) \<Rightarrow> (if is_RunnerRetryableError e then Inr () else Inl e, retry_loops, s1)))"

section \<open>Stopping filler jobs\<close>

definition stop_one_filler_job :: "ops_env \<Rightarrow> unit op" where
  "stop_one_filler_job env = (\<lambda>(j, s).
     let (pz, s0) = canceller_paused env (ce_region j) s in
     if pz then (Inr (), j, s0)
     else
       (case fleets_cancel env FILLER_STOP (j, s0) of
          (Inr sent, j1, s1) \<Rightarrow> (Inr (), j1, if sent then s1 else add_metric Filler_jobs_stopped s1)
        | (Inl e, j1, s1) \<Rightarrow>
            if is_RunnerRetryableError e then (Inr (), j1, s1)
            else if is_RunnerError e then (Inr (), j1, note_refusal j1 s1)
            else if e = InvalidJobTransitionException then (Inr (), j1, s1)
            else (Inl e, j1, s1)))"

text \<open>A loop of operations on a list of jobs that ends at the first exception.\<close>

fun each_job :: "(nat \<Rightarrow> job \<Rightarrow> bool) \<Rightarrow> (nat \<Rightarrow> bool) \<Rightarrow> (nat \<Rightarrow> 'a op) \<Rightarrow> nat \<Rightarrow> job list \<Rightarrow> sched \<Rightarrow> unit res \<times> sched" where
  "each_job skip quit f n [] s = (Inr (), s)"
| "each_job skip quit f n (j # js) s =
     (if quit n then (Inr (), s)
      else if skip n j then each_job skip quit f (Suc n) js s
      else (case f n (j, s) of
              (Inl e, _, s1) \<Rightarrow> (Inl e, s1)
            | (Inr _, _, s1) \<Rightarrow> each_job skip quit f (Suc n) js s1))"

definition stop_filler_jobs :: "(nat \<Rightarrow> ops_env) \<Rightarrow> job list \<Rightarrow> sched \<Rightarrow> unit res \<times> sched" where
  "stop_filler_jobs envs = each_job (\<lambda>_ j. status j = STOPPING) (\<lambda>n. oe_killed (envs n)) (\<lambda>n. stop_one_filler_job (envs n)) 0"

definition unsubmitted_filler_jobs :: "db \<Rightarrow> job list" where
  "unsubmitted_filler_jobs d = filter (\<lambda>j. filler j \<and> status j = QUEUED \<and> fleet_id j = None) (job_tbl d)"

definition discard_unsubmitted_filler_jobs :: "(nat \<Rightarrow> ops_env) \<Rightarrow> sched \<Rightarrow> unit res \<times> sched" where
  "discard_unsubmitted_filler_jobs envs s =
     each_job (\<lambda>_ _. False) (\<lambda>_. False) (\<lambda>n. mark_failed (envs n)) 0 (unsubmitted_filler_jobs (sdb s)) s"

section \<open>The pass\<close>

definition running_filler_jobs :: "db \<Rightarrow> job list" where
  "running_filler_jobs d =
     sort_key created (filter (\<lambda>j. filler j \<and> runner j = FLEETS \<and> status j \<in> set RUNNING_STATUSES) (job_tbl d))"

definition real_running :: "string \<Rightarrow> db \<Rightarrow> nat" where
  "real_running profile d =
     length (filter (\<lambda>j. compute_profile_fk j = Some profile \<and> runner j = FLEETS \<and> status j \<in> set RUNNING_STATUSES \<and> \<not> filler j) (job_tbl d))"

definition filler_target :: "(ConfigKey \<Rightarrow> string) \<Rightarrow> string \<Rightarrow> db \<Rightarrow> nat" where
  "filler_target conf profile d = nat (max 0 (cfg_int (conf FILLER_SLOTS) 0 - int (real_running profile d)))"

definition belongs :: "program \<Rightarrow> string \<Rightarrow> job \<Rightarrow> bool" where
  "belongs p profile j \<longleftrightarrow> map_option program_id (job_program j) = Some (program_id p) \<and> compute_profile_fk j = Some profile"

text \<open>The surroundings of a pass: when it discards, when it stops stale jobs, and when it closes the gap.\<close>

record pass_env =
  pe_discard :: "nat \<Rightarrow> ops_env"
  pe_stale :: "nat \<Rightarrow> ops_env"
  pe_gap :: "nat \<Rightarrow> ops_env"
  pe_filler :: filler_env

definition surplus :: "nat \<Rightarrow> job list \<Rightarrow> job list" where
  "surplus target current =
     (let stoppable = filter (\<lambda>j. status j \<noteq> STOPPING) current
      in take (length stoppable - target) stoppable)"

definition balance_filler_jobs ::
  "pass_env \<Rightarrow> program \<Rightarrow> function_size \<Rightarrow> job list \<Rightarrow> nat \<times> sched \<Rightarrow> unit res \<times> nat \<times> sched" where
  "balance_filler_jobs pe p fs filler_jobs = (\<lambda>(retry_loops, s).
     let profile = profile_id (fs_profile fs);
         conf = oe_conf (pe_gap pe 0);
         target = filler_target conf profile (sdb s);
         current = filter (belongs p profile) filler_jobs;
         stale = filter (\<lambda>j. \<not> belongs p profile j) filler_jobs;
         s0 = add_metric (Filler_profile_jobs (int (length current)) ''filler'')
                (add_metric (Filler_profile_jobs (int (real_running profile (sdb s))) ''real'')
                  (add_metric (Filler_profile_slots (cfg_int (conf FILLER_SLOTS) 0)) s))
     in (case (if stale \<noteq> [] then stop_filler_jobs (pe_stale pe) stale s0 else (Inr (), s0)) of
           (Inl e, s1) \<Rightarrow> (Inl e, retry_loops, s1)
         | (Inr _, s1) \<Rightarrow>
             if length current < target then create_filler_job (pe_gap pe 0) (pe_filler pe) p (retry_loops, s1)
             else if length current > target
             then (case stop_filler_jobs (pe_gap pe) (surplus target current) s1 of (r, s2) \<Rightarrow> (r, retry_loops, s2))
             else (Inr (), retry_loops, s1)))"

definition balance_run :: "pass_env \<Rightarrow> nat \<times> sched \<Rightarrow> unit res \<times> nat \<times> sched" where
  "balance_run pe = (\<lambda>(retry_loops, s).
     (case discard_unsubmitted_filler_jobs (pe_discard pe) s of
        (Inl e, s1) \<Rightarrow> (Inl e, retry_loops, s1)
      | (Inr _, s1) \<Rightarrow>
          let filler_jobs = running_filler_jobs (sdb s1) in
          (case get_filler_program (oe_conf (pe_gap pe 0)) (pe_filler pe) of
             Inl e \<Rightarrow> (Inl e, retry_loops, s1)
           | Inr None \<Rightarrow>
               (case stop_filler_jobs (pe_stale pe) filler_jobs
                       (add_metric Filler_profile_jobs_cleared (add_metric (Filler_profile_slots 0) s1)) of
                  (r, s2) \<Rightarrow> (r, retry_loops, s2))
           | Inr (Some p) \<Rightarrow>
               (case default_size p of
                  None \<Rightarrow> (Inl (AttributeError ''compute_profile''), retry_loops, s1)
                | Some fs \<Rightarrow> balance_filler_jobs pe p fs filler_jobs (retry_loops, s1)))))"

section \<open>Operations touch the row of their job\<close>

definition only_row :: "string \<Rightarrow> db \<Rightarrow> db \<Rightarrow> bool" where
  "only_row i d d' \<longleftrightarrow> (\<forall>k. k \<noteq> i \<longrightarrow> job_row d' k = job_row d k) \<and> map job_id (job_tbl d') = map job_id (job_tbl d)"

lemma only_row_refl [simp]: "only_row i d d"
  by (simp add: only_row_def)

lemma only_row_trans: "only_row i d d' \<Longrightarrow> only_row i d' d'' \<Longrightarrow> only_row i d d''"
  by (simp add: only_row_def)

lemma effect_only_row: "transition_effect j new chans d d' \<Longrightarrow> only_row (job_id j) d d'"
  by (simp add: only_row_def transition_effect_def)

text \<open>
  The interface of the loops: \<open>operation env\<close> works on one job, changes no row but that job's, and leaves an
  instance of it.
\<close>

locale local_op =
  fixes operation :: "'e \<Rightarrow> job \<times> sched \<Rightarrow> 'a res \<times> job \<times> sched"
  assumes local_row: "operation env (j, s) = (r, j', s') \<Longrightarrow> only_row (job_id j) (sdb s) (sdb s') \<and> job_id j' = job_id j"
begin

lemma others_kept: "operation env (j, s) = (r, j', s') \<Longrightarrow> k \<noteq> job_id j \<Longrightarrow> job_row (sdb s') k = job_row (sdb s) k"
  using local_row by (simp add: only_row_def)

lemma ids_kept: "operation env (j, s) = (r, j', s') \<Longrightarrow> map job_id (job_tbl (sdb s')) = map job_id (job_tbl (sdb s))"
  using local_row by (simp add: only_row_def)

lemma each_kept:
  "each_job skip quit (\<lambda>n. operation (es n)) n js s = (r, s') \<Longrightarrow>
   (\<forall>k. k \<notin> job_id ` set js \<longrightarrow> job_row (sdb s') k = job_row (sdb s) k) \<and> map job_id (job_tbl (sdb s')) = map job_id (job_tbl (sdb s))"
proof (induction js arbitrary: n s)
  case (Cons j js)
  obtain r1 j1 s1 where o: "operation (es n) (j, s) = (r1, j1, s1)" by (metis prod_cases3)
  have "s' = s \<or> s' = s1 \<or> each_job skip quit (\<lambda>n. operation (es n)) (Suc n) js s = (r, s') \<or>
      each_job skip quit (\<lambda>n. operation (es n)) (Suc n) js s1 = (r, s')"
    using Cons.prems o by (auto split: if_splits sum.splits)
  then show ?case
    using others_kept [OF o] ids_kept [OF o] Cons.IH [of "Suc n" s] Cons.IH [of "Suc n" s1] by auto
qed simp

end

lemma on_world_local:
  assumes "\<And>j w r j' w'. f (j, w) = (r, j', w') \<Longrightarrow> wdb w' = wdb w \<or> (\<exists>new chans. transition_effect j new chans (wdb w) (wdb w'))"
    and "keeps_id f" "on_world f (j, s) = (r, j', s')"
  shows "only_row (job_id j) (sdb s) (sdb s') \<and> job_id j' = job_id j"
proof -
  obtain w' where f: "f (j, sc_world s) = (r, j', w')" "s' = s\<lparr>sc_world := w'\<rparr>"
    using assms(3) by (auto simp: on_world_def split: prod.splits)
  then have "only_row (job_id j) (sdb s) (sdb s')" using assms(1) [OF f(1)] effect_only_row by auto
  then show ?thesis using keeps_idD [OF assms(2) f(1)] by (simp add: same_identity_def)
qed

lemma service_local:
  "on_world (queued_to_pending env why []) (j, s) = (r, j', s') \<Longrightarrow> only_row (job_id j) (sdb s) (sdb s') \<and> job_id j' = job_id j"
  "on_world (to_failed env why []) (j, s) = (r, j', s') \<Longrightarrow> only_row (job_id j) (sdb s) (sdb s') \<and> job_id j' = job_id j"
  "on_world (stop env why ans) (j, s) = (rs, j', s') \<Longrightarrow> only_row (job_id j) (sdb s) (sdb s') \<and> job_id j' = job_id j"
proof -
  show "on_world (queued_to_pending env why []) (j, s) = (r, j', s') \<Longrightarrow> only_row (job_id j) (sdb s) (sdb s') \<and> job_id j' = job_id j"
    by (rule on_world_local [OF _ keeps_id_methods(3)]) (use q2p.call_effect [OF plain_extra(1)] in blast)
  show "on_world (to_failed env why []) (j, s) = (r, j', s') \<Longrightarrow> only_row (job_id j) (sdb s) (sdb s') \<and> job_id j' = job_id j"
    by (rule on_world_local [OF _ keeps_id_methods(5)]) (use failed.call_effect [OF plain_extra(1)] in blast)
  show "on_world (stop env why ans) (j, s) = (rs, j', s') \<Longrightarrow> only_row (job_id j) (sdb s) (sdb s') \<and> job_id j' = job_id j"
    by (rule on_world_local [OF _ keeps_id_methods(2)]) (use stop_m.call_effect [OF TrueI] in blast)
qed

lemma on_db_local:
  assumes "on_db (update_fields t fs) (j, s) = (r, j', s')"
  shows "only_row (job_id j) (sdb s) (sdb s') \<and> job_id j' = job_id j"
proof -
  have u: "update_fields t fs (j, sdb s) = (r, j', sdb s')"
    using assms by (auto simp: on_db_def on_world_def split: prod.splits)
  show ?thesis using update_fields_row [OF u] update_fields_outcome [OF u] by (auto simp: only_row_def)
qed

interpretation failed_local: local_op mark_failed
proof
  fix env j s r j' s' assume "mark_failed env (j, s) = (r, j', s')"
  moreover obtain r1 j1 s1 where t: "on_world (to_failed (oe_call env) \<lparr>why_origin = SCHEDULER, why_ctx = FILLER_FAILED\<rparr> []) (j, s) = (r1, j1, s1)"
    by (metis prod_cases3)
  ultimately show "only_row (job_id j) (sdb s) (sdb s') \<and> job_id j' = job_id j"
    using service_local(2) [OF t] by (auto simp: mark_failed_def split: sum.splits)
qed

interpretation cancel_local: local_op "\<lambda>env. fleets_cancel env ctx" for ctx
proof
  fix env j s r j' s' assume c: "fleets_cancel env ctx (j, s) = (r, j', s')"
  obtain p s0 where s0: "canceller_paused env (ce_region j) s = (p, s0)" by fastforce
  have d0: "sdb s0 = sdb s" using sched_frame(4) [of env "ce_region j" s] s0 by simp
  obtain r1 j1 s1 where st: "on_world (stop (oe_call env) \<lparr>why_origin = SCHEDULER, why_ctx = ctx\<rparr> (oe_stop env j)) (j, s0) = (r1, j1, s1)"
    by (metis prod_cases3)
  show "only_row (job_id j) (sdb s) (sdb s') \<and> job_id j' = job_id j"
    using service_local(3) [OF st] c s0 st d0 by (auto simp: fleets_cancel_def Let_def split: if_splits sum.splits)
qed

lemma after_submit_local:
  assumes c: "after_submit env ctx (j, s) = (r, j', s')"
  shows "only_row (job_id j) (sdb s) (sdb s') \<and> job_id j' = job_id j"
proof -
  obtain r1 j1 s1 where u: "on_db (update_fields (oe_now env) [F_fleet_id (fleet_id j), F_env_vars ''{}'']) (j, s) = (r1, j1, s1)"
    by (metis prod_cases3)
  note 1 = on_db_local [OF u]
  obtain r2 j2 s2 where q: "on_world (queued_to_pending (oe_call env) \<lparr>why_origin = SCHEDULER, why_ctx = ctx\<rparr> []) (j1, s1) = (r2, j2, s2)"
    by (metis prod_cases3)
  note 2 = service_local(1) [OF q]
  obtain r3 s3 where o: "cancel_orphan_fleet env ctx j2 s2 = (r3, s3)" by fastforce
  have 3: "only_row (job_id j) (sdb s2) (sdb s3)"
    using o by (auto simp: cancel_orphan_fleet_def only_row_def error_event_def add_error_event_def Let_def split: sum.splits if_splits)
  consider "s' = s1 \<and> j' = j1" | "s' = s2 \<and> j' = j2" | "s' = s3 \<and> j' = j2"
    using c u q o by (auto simp: after_submit_def split: sum.splits if_splits)
  then show ?thesis using 1 2 3 by cases (auto intro: only_row_trans)
qed

interpretation submit_local: local_op "\<lambda>env. fleets_submit env ctx" for ctx
proof
  fix env j s r j' s' assume c: "fleets_submit env ctx (j, s) = (r, j', s')"
  obtain p s0 where s0: "submitter_paused env (ce_region j) s = (p, s0)" by fastforce
  have d0: "sdb s0 = sdb s" using sched_frame(3) [of env "ce_region j" s] s0 by simp
  obtain ans fid where sub: "oe_submit env j = (ans, fid)" by fastforce
  let ?j1 = "j\<lparr>fleet_id := fid\<rparr>" and ?s1 = "ce_record record_success (ce_region j) (cos_record record_success (ce_region j) s0)"
  have refused: "only_row (job_id j) (sdb s) (sdb s') \<and> job_id j' = job_id j"
    if x: "refused_submit env ctx e (?j1, s0) = (r, j', s')" for e
  proof -
    define s1 where "s1 = error_event env ctx ''FLEET_SUBMIT_FAILED'' ''The job could not be submitted to Code Engine'' e ?j1 s0"
    have e: "only_row i (sdb s0) (sdb s1)" for i by (simp add: s1_def only_row_def error_event_def add_error_event_def Let_def)
    obtain r2 j2 s2 where u: "on_db (update_fields (oe_now env) [F_env_vars ''{}'']) (?j1, s1) = (r2, j2, s2)" by (metis prod_cases3)
    obtain r3 j3 s3 where q: "on_world (to_failed (oe_call env) \<lparr>why_origin = SCHEDULER, why_ctx = ctx\<rparr> []) (j2, s2) = (r3, j3, s3)"
      by (metis prod_cases3)
    consider "s' = s2 \<and> j' = j2" | "s' = s3 \<and> j' = j3"
      using x u q by (auto simp: refused_submit_def Let_def s1_def split: sum.splits if_splits)
    then show ?thesis
      using e on_db_local [OF u] service_local(2) [OF q] d0 by cases (auto intro: only_row_trans)
  qed
  consider "sdb s' = sdb s \<and> job_id j' = job_id j" | "after_submit env ctx (?j1, ?s1) = (r, j', s')"
    | e where "refused_submit env ctx e (?j1, s0) = (r, j', s')"
    using c s0 sub d0 by (auto simp: fleets_submit_def Let_def split: if_splits sum.splits)
  then show "only_row (job_id j) (sdb s) (sdb s') \<and> job_id j' = job_id j"
    by cases (use after_submit_local [of env ctx ?j1 ?s1] d0 refused in auto)
qed

interpretation stop_one_local: local_op stop_one_filler_job
proof
  fix env j s r j' s' assume b: "stop_one_filler_job env (j, s) = (r, j', s')"
  obtain p s0 where s0: "canceller_paused env (ce_region j) s = (p, s0)" by fastforce
  have d0: "sdb s0 = sdb s" using sched_frame(4) [of env "ce_region j" s] s0 by simp
  obtain r1 j1 s1 where c: "fleets_cancel env FILLER_STOP (j, s0) = (r1, j1, s1)" by (metis prod_cases3)
  show "only_row (job_id j) (sdb s) (sdb s') \<and> job_id j' = job_id j"
    using cancel_local.local_row [OF c] b s0 c d0
    by (auto simp: stop_one_filler_job_def Let_def split: if_splits sum.splits)
qed

section \<open>What a pass changes\<close>

lemma stop_filler_jobs_kept:
  assumes "stop_filler_jobs envs js s = (r, s')"
  shows "k \<notin> job_id ` set js \<Longrightarrow> job_row (sdb s') k = job_row (sdb s) k"
    "map job_id (job_tbl (sdb s')) = map job_id (job_tbl (sdb s))"
  using stop_one_local.each_kept [OF assms [unfolded stop_filler_jobs_def]] by auto

lemma submit_raised_local:
  assumes "submit_raised env e (j, s) = (r, s')"
  shows "only_row (job_id j) (sdb s) (sdb s')"
proof -
  obtain r1 j1 s1 where f: "mark_failed env (j, s) = (r1, j1, s1)" by (metis prod_cases3)
  show ?thesis using failed_local.local_row [OF f] assms f
    by (auto simp: submit_raised_def creation_failed_def split: if_splits sum.splits)
qed

text \<open>Creating a filler job leaves every stored row as it is and appends at most one row, of a filler job.\<close>

lemma submit_filler_job_kept:
  assumes "submit_filler_job env fe p s = (r, s')" "job_row (sdb s) (fe_uuid fe) = None"
  shows "sdb s' = sdb s \<or> (\<forall>k. k \<noteq> fe_uuid fe \<longrightarrow> job_row (sdb s') k = job_row (sdb s) k) \<and>
    map job_id (job_tbl (sdb s')) = map job_id (job_tbl (sdb s)) @ [fe_uuid fe]"
proof (cases "default_size p")
  case None
  then show ?thesis using assms(1) by (simp add: submit_filler_job_def)
next
  case (Some fs)
  let ?j = "filler_job env fe p fs"
  let ?s1 = "s\<lparr>sc_world := (sc_world s)\<lparr>wdb := store_filler ?j (sdb s)\<rparr>\<rparr>"
  have id: "job_id ?j = fe_uuid fe" by (simp add: filler_job_def Job_new_def)
  have rows: "job_row (sdb ?s1) k = job_row (sdb s) k" if "k \<noteq> fe_uuid fe" for k
    using that id by (simp add: store_filler_def job_row_def row_of_append split: option.splits)
  obtain r2 j2 s2 where f: "fleets_submit env FILLER_SUBMIT (?j, ?s1) = (r2, j2, s2)" by (metis prod_cases3)
  have local: "only_row (fe_uuid fe) (sdb ?s1) (sdb s2)" "job_id j2 = fe_uuid fe" using submit_local.local_row [OF f] id by auto
  have "sdb s' = sdb s \<or> only_row (fe_uuid fe) (sdb ?s1) (sdb s')"
    using assms(1) Some f local
    by (auto simp: submit_filler_job_def Let_def creation_failed_def split: sum.splits if_splits
        intro: only_row_trans dest!: submit_raised_local)
  then show ?thesis using rows id by (auto simp: only_row_def store_filler_def)
qed

lemma create_filler_job_kept:
  assumes "create_filler_job env fe p (n, s) = (r, n', s')" "job_row (sdb s) (fe_uuid fe) = None"
  shows "sdb s' = sdb s \<or> (\<forall>k. k \<noteq> fe_uuid fe \<longrightarrow> job_row (sdb s') k = job_row (sdb s) k) \<and>
    map job_id (job_tbl (sdb s')) = map job_id (job_tbl (sdb s)) @ [fe_uuid fe]"
proof -
  let ?rg = "map_option cep_region (program_project p)"
  obtain pz s0 where s0: "(if oe_killed env then (True, s) else submitter_paused env ?rg s) = (pz, s0)" by fastforce
  have d0: "sdb s0 = sdb s" using sched_frame(3) [of env ?rg s] s0 by (metis prod.inject snd_conv)
  obtain r1 s1 where f: "submit_filler_job env fe p s0 = (r1, s1)" by fastforce
  have "sdb s' = sdb s \<or> s' = s1"
    using assms(1) s0 f d0 by (auto simp: create_filler_job_def split: if_splits sum.splits)
  then show ?thesis using submit_filler_job_kept [OF f] assms(2) d0 by auto
qed

lemma surplus_leaves:
  assumes "distinct current"
  shows "length (filter (\<lambda>j. j \<notin> set (surplus target current)) current) \<ge> min target (length current)"
proof -
  let ?st = "filter (\<lambda>j. status j \<noteq> STOPPING) current"
  have d: "distinct (surplus target current)" using assms by (simp add: surplus_def Let_def)
  have sub: "set (surplus target current) \<subseteq> set current" by (auto simp: surplus_def Let_def dest: in_set_takeD)
  have "length (filter (\<lambda>j. j \<notin> set (surplus target current)) current) = card (set current - set (surplus target current))"
    using assms by (simp add: distinct_length_filter Int_def Diff_eq conj_commute)
  also have "\<dots> = length current - length (surplus target current)"
    using assms d sub by (simp add: card_Diff_subset distinct_card)
  also have "\<dots> \<ge> min target (length current)"
  proof -
    have "length (surplus target current) = length ?st - target" by (simp add: surplus_def Let_def)
    moreover have "length ?st \<le> length current" by simp
    ultimately show ?thesis by linarith
  qed
  finally show ?thesis .
qed

text \<open>
  A pass of the balancer over the filler jobs it found creates at most one job, and only when fewer filler jobs
  than the target are on the profile; whatever it stops, the rows of at least as many filler jobs of the profile
  as the target asks for (or of all, when there are fewer) stay as they are, and so does every row that
  is not a filler job's.
\<close>

theorem balance_keeps_target:
  assumes "balance_filler_jobs pe p fs (running_filler_jobs (sdb s)) (n, s) = (r, n', s')"
    and "distinct (map job_id (job_tbl (sdb s)))" "job_row (sdb s) (fe_uuid (pe_filler pe)) = None"
    and "profile = profile_id (fs_profile fs)" "target = filler_target (oe_conf (pe_gap pe 0)) profile (sdb s)"
    and "current = filter (belongs p profile) (running_filler_jobs (sdb s))"
  shows "(\<exists>kept. set kept \<subseteq> set current \<and> distinct kept \<and> min target (length current) \<le> length kept \<and>
       (\<forall>j \<in> set kept. job_row (sdb s') (job_id j) = Some j)) \<and>
     (\<forall>k x. job_row (sdb s) k = Some x \<and> \<not> filler x \<longrightarrow> job_row (sdb s') k = Some x) \<and>
     (map job_id (job_tbl (sdb s')) = map job_id (job_tbl (sdb s)) \<or>
      length current < target \<and> map job_id (job_tbl (sdb s')) = map job_id (job_tbl (sdb s)) @ [fe_uuid (pe_filler pe)])"
proof -
  let ?fillers = "running_filler_jobs (sdb s)" and ?u = "fe_uuid (pe_filler pe)"
  define stale where "stale = filter (\<lambda>j. \<not> belongs p profile j) ?fillers"
  define s0 where "s0 = add_metric (Filler_profile_jobs (int (length current)) ''filler'')
      (add_metric (Filler_profile_jobs (int (real_running profile (sdb s))) ''real'')
        (add_metric (Filler_profile_slots (cfg_int (oe_conf (pe_gap pe 0) FILLER_SLOTS) 0)) s))"
  have d0: "sdb s0 = sdb s" by (simp add: s0_def)
  have row: "job_row (sdb s) (job_id j) = Some j" if "j \<in> set (job_tbl (sdb s))" for j
    using row_of_distinct [OF assms(2) that] by (simp add: job_row_def)
  have stored: "set ?fillers \<subseteq> set (job_tbl (sdb s))" "\<forall>j \<in> set ?fillers. filler j" by (auto simp: running_filler_jobs_def)
  have cur: "distinct current" "set current \<subseteq> set ?fillers"
    using assms(2,6) by (auto simp: running_filler_jobs_def distinct_map)
  have inj: "job_id j = job_id k \<Longrightarrow> j \<in> set ?fillers \<Longrightarrow> k \<in> set ?fillers \<Longrightarrow> j = k" for j k
    using stored row by (metis option.inject subsetD)
  obtain r1 s1 where st: "(if stale \<noteq> [] then stop_filler_jobs (pe_stale pe) stale s0 else (Inr (), s0)) = (r1, s1)" by fastforce
  have k1: "job_row (sdb s1) k = job_row (sdb s) k" if "k \<notin> job_id ` set stale" for k
    using st that stop_filler_jobs_kept(1) [of "pe_stale pe" stale s0 r1 s1 k] d0 by (auto split: if_splits)
  have i1: "map job_id (job_tbl (sdb s1)) = map job_id (job_tbl (sdb s))"
    using st stop_filler_jobs_kept(2) [of "pe_stale pe" stale s0 r1 s1] d0 by (auto split: if_splits)
  have cs: "job_id j \<notin> job_id ` set stale" if "j \<in> set current" for j
    using that cur(2) inj by (auto simp: stale_def assms(6))
  have c1: "job_row (sdb s1) (job_id j) = Some j" if "j \<in> set current" for j
    using k1 [OF cs [OF that]] row stored(1) cur(2) that by auto
  have real: "k \<notin> job_id ` set js" if "job_row (sdb s) k = Some x" "\<not> filler x" "set js \<subseteq> set ?fillers" for k x js
    using that stored row by (metis imageE option.inject subsetD)
  have r1: "job_row (sdb s1) k = Some x" if "job_row (sdb s) k = Some x" "\<not> filler x" for k x
    using real [OF that, of stale] k1 [of k] that(1) by (auto simp: stale_def)
  have fresh: "?u \<notin> job_id ` set (job_tbl (sdb s))" using assms(3) by (simp add: job_row_def row_of_None_iff)
  consider (ended) "sdb s' = sdb s1" | (made) "length current < target" "create_filler_job (pe_gap pe 0) (pe_filler pe) p (n, s1) = (r, n', s')"
    | (stopped) r2 where "stop_filler_jobs (pe_gap pe) (surplus target current) s1 = (r2, s')"
    using assms(1) st
    by (auto simp: balance_filler_jobs_def Let_def assms(4-6) stale_def s0_def split: if_splits sum.splits prod.splits)
  then show ?thesis
  proof cases
    case ended
    then show ?thesis using c1 r1 i1 cur(1) by (intro conjI exI [of _ current]) auto
  next
    case made
    have "job_row (sdb s1) ?u = None" using fresh i1 by (metis job_row_def list.set_map row_of_None_iff)
    note m = create_filler_job_kept [OF made(2) this]
    have "job_id j \<noteq> ?u" if "j \<in> set current" for j
      using that fresh stored(1) cur(2) by (metis imageI subsetD)
    moreover have "k \<noteq> ?u" if "job_row (sdb s) k = Some x" for k x using that assms(3) by auto
    ultimately show ?thesis using m c1 r1 i1 cur(1) made(1) by (intro conjI exI [of _ current]) auto
  next
    case stopped
    let ?kept = "filter (\<lambda>j. j \<notin> set (surplus target current)) current"
    have sub: "set (surplus target current) \<subseteq> set current" by (auto simp: surplus_def Let_def dest: in_set_takeD)
    have "job_id j \<notin> job_id ` set (surplus target current)" if "j \<in> set ?kept" for j
    proof
      assume "job_id j \<in> job_id ` set (surplus target current)"
      then obtain k where k: "k \<in> set (surplus target current)" "job_id j = job_id k" by blast
      then have "j = k" using inj that sub cur(2) by (metis (no_types, lifting) filter_is_subset subsetD)
      then show False using k(1) that by simp
    qed
    then have "\<forall>j \<in> set ?kept. job_row (sdb s') (job_id j) = Some j"
      using stop_filler_jobs_kept(1) [OF stopped] c1 by simp
    moreover have "job_row (sdb s') k = Some x" if "job_row (sdb s) k = Some x" "\<not> filler x" for k x
      using stop_filler_jobs_kept(1) [OF stopped real [OF that]] r1 [OF that] sub cur(2) by auto
    ultimately show ?thesis
      using surplus_leaves [OF cur(1), of target] cur(1) stop_filler_jobs_kept(2) [OF stopped] i1
      by (intro conjI exI [of _ ?kept]) auto
  qed
qed

text \<open>One filler job runs on the profile, and the configuration asks for one.\<close>

definition ex_filler :: job where
  "ex_filler = (example_job RUNNING)\<lparr>filler := True, compute_profile_fk := Some ''4x16''\<rparr>"

definition ex_size :: function_size where
  "ex_size = \<lparr>fs_id = 1, fs_function = 1, fs_label = ''S'',
     fs_profile = \<lparr>profile_id = ''4x16'', profile_name = ''small'', cpu = ''4'', gpu = None, memory = ''16''\<rparr>\<rparr>"

definition ex_pass :: pass_env where
  "ex_pass = (let env = (ex_ops 9)\<lparr>oe_conf := (\<lambda>_. ''1'')\<rparr> in
     \<lparr>pe_discard = (\<lambda>_. env), pe_stale = (\<lambda>_. env), pe_gap = (\<lambda>_. env),
      pe_filler = \<lparr>fe_programs = [], fe_uuid = ''new'', fe_parse_uuid = (\<lambda>_. None), fe_save_arguments = (\<lambda>_. Inr ()), fe_save = Inr ()\<rparr>\<rparr>)"

definition ex_filler_sched :: sched where
  "ex_filler_sched = ex_sched (ex_queued\<lparr>wdb := (example_db RUNNING)\<lparr>job_tbl := [ex_filler]\<rparr>\<rparr>)"

theorem balance_keeps_target_witness:
  "\<exists>r n' s'. balance_filler_jobs ex_pass example_program ex_size (running_filler_jobs (sdb ex_filler_sched)) (0, ex_filler_sched) = (r, n', s') \<and>
     job_row (sdb s') ''j'' = Some ex_filler"
proof -
  let ?fs = "running_filler_jobs (sdb ex_filler_sched)"
  let ?cur = "filter (belongs example_program ''4x16'') ?fs"
  obtain r n' s' where b: "balance_filler_jobs ex_pass example_program ex_size ?fs (0, ex_filler_sched) = (r, n', s')" by (metis prod_cases3)
  have tbl: "job_tbl (sdb ex_filler_sched) = [ex_filler]" by (simp add: ex_filler_sched_def ex_sched_def)
  have id: "job_id ex_filler = ''j''" by (simp add: ex_filler_def example_job_def Job_new_def)
  have u: "job_row (sdb ex_filler_sched) (fe_uuid (pe_filler ex_pass)) = None"
    by (simp add: job_row_def tbl id ex_pass_def Let_def)
  have d: "distinct (map job_id (job_tbl (sdb ex_filler_sched)))" by (simp add: tbl)
  have pr: "''4x16'' = profile_id (fs_profile ex_size)" by (simp add: ex_size_def)
  have "?fs = [ex_filler]" by (simp add: running_filler_jobs_def tbl) (simp add: ex_filler_def example_job_def Job_new_def status_simps)
  then have cur: "?cur = [ex_filler]" by (simp add: belongs_def ex_filler_def example_job_def Job_new_def)
  have t: "filler_target (oe_conf (pe_gap ex_pass 0)) ''4x16'' (sdb ex_filler_sched) = 1" by code_simp
  from balance_keeps_target [OF b d u pr refl refl] obtain kept where
    "set kept \<subseteq> {ex_filler}" "1 \<le> length kept" "\<forall>j \<in> set kept. job_row (sdb s') (job_id j) = Some j"
    unfolding cur t by auto
  then have "job_row (sdb s') ''j'' = Some ex_filler" using id by (cases kept) auto
  then show ?thesis using b by blast
qed

section \<open>The pass as steps of the life cycle\<close>

interpretation failed_op: lifecycle_op "mark_failed env" True for env
proof
  fix j s r j' s' assume pr: "present j (sdb s)" and "mark_failed env (j, s) = (r, j', s')"
  moreover obtain r1 j1 s1 where t: "on_world (to_failed (oe_call env) \<lparr>why_origin = SCHEDULER, why_ctx = FILLER_FAILED\<rparr> []) (j, s) = (r1, j1, s1)"
    by (metis prod_cases3)
  ultimately show "life_steps (sdb s) (sdb s') \<and> same_identity j' j"
    using service_ops(4) [OF pr plain_extra(1) t] by (auto simp: mark_failed_def split: sum.splits)
qed

interpretation stop_one_op: lifecycle_op "stop_one_filler_job env" True for env
proof
  fix j s r j' s' assume pr: "present j (sdb s)" and b: "stop_one_filler_job env (j, s) = (r, j', s')"
  obtain p s0 where s0: "canceller_paused env (ce_region j) s = (p, s0)" by fastforce
  have d0: "sdb s0 = sdb s" using sched_frame(4) [of env "ce_region j" s] s0 by simp
  then have pr0: "present j (sdb s0)" using pr by simp
  obtain r1 j1 s1 where c: "fleets_cancel env FILLER_STOP (j, s0) = (r1, j1, s1)" by (metis prod_cases3)
  show "life_steps (sdb s) (sdb s') \<and> same_identity j' j"
    using cancel_op.refines [OF TrueI pr0 c] b s0 c d0
    by (auto simp: stop_one_filler_job_def Let_def split: if_splits sum.splits)
qed

lemma each_job_steps:
  assumes "\<And>n j s r j' s'. present j (sdb s) \<Longrightarrow> f n (j, s) = (r, j', s') \<Longrightarrow> life_steps (sdb s) (sdb s')"
  shows "\<forall>j \<in> set js. present j (sdb s) \<Longrightarrow> each_job skip quit f n js s = (r, s') \<Longrightarrow> life_steps (sdb s) (sdb s')"
proof (induction js arbitrary: n s)
  case (Cons j js)
  obtain r1 j1 s1 where o: "f n (j, s) = (r1, j1, s1)" by (metis prod_cases3)
  have st: "life_steps (sdb s) (sdb s1)" using assms [OF _ o] Cons.prems(1) by simp
  have "\<forall>k \<in> set js. present k (sdb s1)" using present_later [OF _ st, of js] Cons.prems(1) by simp
  note IH1 = Cons.IH [OF this, of "Suc n"]
  have "s' = s \<or> s' = s1 \<or> each_job skip quit f (Suc n) js s = (r, s') \<or> each_job skip quit f (Suc n) js s1 = (r, s')"
    using Cons.prems(2) o by (auto split: if_splits sum.splits)
  then show ?case using st IH1 Cons.IH [of s "Suc n"] Cons.prems(1) by (auto intro: rtranclp_trans)
qed simp

lemma stop_filler_jobs_steps:
  "\<forall>j \<in> set js. present j (sdb s) \<Longrightarrow> stop_filler_jobs envs js s = (r, s') \<Longrightarrow> life_steps (sdb s) (sdb s')"
  unfolding stop_filler_jobs_def
  by (rule each_job_steps [of "\<lambda>n. stop_one_filler_job (envs n)"]) (use stop_one_op.refines [OF TrueI] in blast)+

lemma submit_filler_job_steps:
  assumes "submit_filler_job env fe p s = (r, s')" "job_row (sdb s) (fe_uuid fe) = None"
  shows "life_steps (sdb s) (sdb s')"
proof (cases "default_size p")
  case None
  then show ?thesis using assms(1) by (simp add: submit_filler_job_def)
next
  case (Some fs)
  let ?j = "filler_job env fe p fs"
  let ?s1 = "s\<lparr>sc_world := (sc_world s)\<lparr>wdb := store_filler ?j (sdb s)\<rparr>\<rparr>"
  have j: "job_id ?j = fe_uuid fe" "status ?j = QUEUED" "filler ?j" by (simp_all add: filler_job_def Job_new_def)
  have st1: "life_steps (sdb s) (sdb ?s1)" using step_create_filler [of "sdb s" ?j] assms(2) j by auto
  have pr: "present ?j (sdb ?s1)"
    using assms(2) j(1) by (auto simp: present_def store_filler_def job_row_def row_of_append)
  obtain r2 j2 s2 where f: "fleets_submit env FILLER_SUBMIT (?j, ?s1) = (r2, j2, s2)" by (metis prod_cases3)
  note st2 = submit_op.refines [OF TrueI pr f] and pr2 = submit_op.stays_present [OF TrueI pr f]
  obtain r3 j3 s3 where m: "mark_failed env (j2, s2) = (r3, j3, s3)" by (metis prod_cases3)
  note st3 = failed_op.refines [OF TrueI pr2 m]
  have "sdb s' \<in> {sdb s, sdb s2, sdb s3}"
    using assms(1) Some f m
    by (auto simp: submit_filler_job_def submit_raised_def Let_def creation_failed_def split: sum.splits if_splits)
  then show ?thesis using st1 st2 st3 by (auto intro: rtranclp_trans)
qed

lemma create_filler_job_steps:
  assumes "create_filler_job env fe p (n, s) = (r, n', s')" "job_row (sdb s) (fe_uuid fe) = None"
  shows "life_steps (sdb s) (sdb s')"
proof -
  let ?rg = "map_option cep_region (program_project p)"
  obtain pz s0 where s0: "(if oe_killed env then (True, s) else submitter_paused env ?rg s) = (pz, s0)" by fastforce
  have d0: "sdb s0 = sdb s" using sched_frame(3) [of env ?rg s] s0 by (metis prod.inject snd_conv)
  obtain r1 s1 where f: "submit_filler_job env fe p s0 = (r1, s1)" by fastforce
  have "sdb s' = sdb s \<or> s' = s1"
    using assms(1) s0 f d0 by (auto simp: create_filler_job_def split: if_splits sum.splits)
  then show ?thesis using submit_filler_job_steps [OF f] assms(2) d0 by auto
qed

lemma balance_filler_jobs_steps:
  assumes "balance_filler_jobs pe p fs js (n, s) = (r, n', s')" "\<forall>j \<in> set js. present j (sdb s)"
    and "job_row (sdb s) (fe_uuid (pe_filler pe)) = None"
  shows "life_steps (sdb s) (sdb s')"
proof -
  let ?pf = "profile_id (fs_profile fs)"
  define stale where "stale = filter (\<lambda>j. \<not> belongs p ?pf j) js"
  define current where "current = filter (belongs p ?pf) js"
  define s0 where "s0 = add_metric (Filler_profile_jobs (int (length current)) ''filler'')
      (add_metric (Filler_profile_jobs (int (real_running ?pf (sdb s))) ''real'')
        (add_metric (Filler_profile_slots (cfg_int (oe_conf (pe_gap pe 0) FILLER_SLOTS) 0)) s))"
  have d0: "sdb s0 = sdb s" by (simp add: s0_def)
  obtain r1 s1 where st: "(if stale \<noteq> [] then stop_filler_jobs (pe_stale pe) stale s0 else (Inr (), s0)) = (r1, s1)" by fastforce
  have "\<forall>j \<in> set stale. present j (sdb s0)" using assms(2) d0 by (simp add: stale_def)
  then have st1: "life_steps (sdb s) (sdb s1)"
    using st stop_filler_jobs_steps [of stale s0 "pe_stale pe" r1 s1] d0 by (auto split: if_splits)
  have pr1: "\<forall>j \<in> set js. present j (sdb s1)" using present_later [OF assms(2) st1] .
  have i1: "map job_id (job_tbl (sdb s1)) = map job_id (job_tbl (sdb s))"
    using st stop_filler_jobs_kept(2) [of "pe_stale pe" stale s0 r1 s1] d0 by (auto split: if_splits)
  then have u1: "job_row (sdb s1) (fe_uuid (pe_filler pe)) = None"
    using assms(3) by (metis job_row_def list.set_map row_of_None_iff)
  consider "sdb s' = sdb s1" | "create_filler_job (pe_gap pe 0) (pe_filler pe) p (n, s1) = (r, n', s')"
    | t r2 where "stop_filler_jobs (pe_gap pe) (surplus t current) s1 = (r2, s')"
    using assms(1) st by (auto simp: balance_filler_jobs_def Let_def stale_def current_def s0_def split: if_splits sum.splits prod.splits)
  then show ?thesis
  proof cases
    case 2
    then show ?thesis using st1 create_filler_job_steps [OF 2 u1] by (auto intro: rtranclp_trans)
  next
    case (3 t)
    have "set (surplus t current) \<subseteq> set js" by (auto simp: surplus_def Let_def current_def dest: in_set_takeD)
    then show ?thesis using st1 stop_filler_jobs_steps [OF _ 3] pr1 by (auto intro: rtranclp_trans)
  qed (use st1 in simp)
qed

lemma balance_run_steps:
  assumes "distinct (map job_id (job_tbl (sdb s)))" "balance_run pe (n, s) = (r, n', s')"
    and "job_row (sdb s) (fe_uuid (pe_filler pe)) = None"
  shows "life_steps (sdb s) (sdb s')"
proof -
  obtain r1 s1 where d: "discard_unsubmitted_filler_jobs (pe_discard pe) s = (r1, s1)" by fastforce
  have "\<forall>j \<in> set (unsubmitted_filler_jobs (sdb s)). present j (sdb s)"
    using stored_present [OF assms(1)] by (simp add: unsubmitted_filler_jobs_def)
  then have st1: "life_steps (sdb s) (sdb s1)"
    using each_job_steps [of "\<lambda>n. mark_failed (pe_discard pe n)"] failed_op.refines [OF TrueI]
      d [unfolded discard_unsubmitted_filler_jobs_def] by blast
  have ids: "map job_id (job_tbl (sdb s1)) = map job_id (job_tbl (sdb s))"
    using failed_local.each_kept d unfolding discard_unsubmitted_filler_jobs_def by blast
  then have u1: "job_row (sdb s1) (fe_uuid (pe_filler pe)) = None"
    using assms(3) by (metis job_row_def list.set_map row_of_None_iff)
  have pr: "\<forall>j \<in> set (running_filler_jobs (sdb s1)). present j (sdb s1)"
    using stored_present [of "sdb s1"] assms(1) ids by (auto simp: running_filler_jobs_def)
  let ?s2 = "add_metric Filler_profile_jobs_cleared (add_metric (Filler_profile_slots 0) s1)"
  consider "s' = s1" | r2 where "stop_filler_jobs (pe_stale pe) (running_filler_jobs (sdb s1)) ?s2 = (r2, s')"
    | p fs where "balance_filler_jobs pe p fs (running_filler_jobs (sdb s1)) (n, s1) = (r, n', s')"
    using assms(2) d by (auto simp: balance_run_def Let_def split: sum.splits option.splits prod.splits)
  then show ?thesis
  proof cases
    case 2
    have "life_steps (sdb s1) (sdb s')" using stop_filler_jobs_steps [OF _ 2] pr by simp
    then show ?thesis using st1 by (rule rtranclp_trans [rotated])
  next
    case 3
    show ?thesis using st1 balance_filler_jobs_steps [OF 3 pr u1] by (rule rtranclp_trans)
  qed (use st1 in simp)
qed

end
