(* ===== verification/Python_Text.thy ===== *)
theory Python_Text
  imports Prelude
begin

text \<open>
  Operations of Python on text that several components use: decimal numbers, quotes, replacement and the removal of characters
  outside a class.
\<close>

section \<open>Numbers and quotes\<close>

text \<open>The decimal text of an integer.\<close>

fun nat_text :: "nat \<Rightarrow> string" where
  "nat_text n = (if n < 10 then [char_of (48 + n)] else nat_text (n div 10) @ [char_of (48 + n mod 10)])"

declare nat_text.simps [simp del]

definition int_text :: "int \<Rightarrow> string" where
  "int_text n = (if n < 0 then ''-'' @ nat_text (nat (- n)) else nat_text (nat n))"

definition quoted :: "string \<Rightarrow> string" where
  "quoted s = [CHR 0x27] @ s @ [CHR 0x27]"

section \<open>Replacement\<close>

text \<open>\<open>str.replace\<close> of a text of two characters by one.\<close>

fun replace2 :: "char \<Rightarrow> char \<Rightarrow> char \<Rightarrow> string \<Rightarrow> string" where
  "replace2 a b c (x # y # xs) = (if x = a \<and> y = b then c # replace2 a b c xs else x # replace2 a b c (y # xs))"
| "replace2 a b c xs = xs"

fun has_pair :: "char \<Rightarrow> string \<Rightarrow> bool" where
  "has_pair a (x # y # xs) \<longleftrightarrow> x = a \<and> y = a \<or> has_pair a (y # xs)"
| "has_pair a _ \<longleftrightarrow> False"

lemma replace2_hd: "replace2 a b c (x # xs) = y # ys \<Longrightarrow> y = x \<or> y = c"
  by (cases xs) (auto split: if_splits)

lemma replace2_Nil [simp]: "replace2 a b c xs = [] \<longleftrightarrow> xs = []"
  by (cases xs; cases "tl xs") auto

lemma has_pair_Cons: "has_pair a (x # xs) \<longleftrightarrow> x = a \<and> (\<exists>ys. xs = a # ys) \<or> has_pair a xs"
  by (cases xs) auto

text \<open>Replacing a pair of the same character by another character leaves no such pair.\<close>

lemma replace2_no_pair: "c \<noteq> a \<Longrightarrow> \<not> has_pair a (replace2 a a c xs)"
proof (induction xs rule: induct_list012)
  case (3 x y xs)
  show ?case
  proof (cases "x = a \<and> y = a")
    case False
    have "ys = [] \<or> hd ys \<noteq> a \<or> x \<noteq> a" if "replace2 a a c (y # xs) = ys" for ys
      using replace2_hd [of a a c y xs "hd ys" "tl ys"] that False 3(3) by (cases ys) auto
    then show ?thesis using 3 False by (auto simp: has_pair_Cons)
  qed (use 3 in \<open>auto simp: has_pair_Cons\<close>)
qed auto

lemma replace2_id: "\<not> has_pair a xs \<Longrightarrow> replace2 a a c xs = xs"
  by (induction xs rule: induct_list012) auto

lemma replace2_set: "set (replace2 a b c xs) \<subseteq> insert c (set xs)"
  by (induction a b c xs rule: replace2.induct) auto

text \<open>\<open>re.sub("[^...]+", "_", s)\<close>: every run of characters outside the class becomes one underscore.\<close>

function sub_runs :: "(char \<Rightarrow> bool) \<Rightarrow> string \<Rightarrow> string" where
  "sub_runs ok [] = []"
| "sub_runs ok (c # cs) =
     (if ok c then c # sub_runs ok cs else CHR ''_'' # sub_runs ok (dropWhile (\<lambda>x. \<not> ok x) cs))"
  by pat_completeness auto

termination sub_runs
  by (relation "measure (length \<circ> snd)") (auto simp: le_imp_less_Suc length_dropWhile_le)

lemma sub_runs_set: "ok (CHR ''_'') \<Longrightarrow> c \<in> set (sub_runs ok s) \<Longrightarrow> ok c"
  by (induction ok s rule: sub_runs.induct) (auto split: if_splits)

lemma sub_runs_id: "\<forall>c \<in> set s. ok c \<Longrightarrow> sub_runs ok s = s"
  by (induction s) auto

lemma sub_runs_no_pair: "a \<noteq> CHR ''_'' \<Longrightarrow> \<not> has_pair a s \<Longrightarrow> \<not> has_pair a (sub_runs ok s)"
proof (induction ok s rule: sub_runs.induct)
  case (2 ok c cs)
  have head: "sub_runs ok cs = a # ys \<Longrightarrow> \<exists>zs. cs = a # zs" for ys using 2(3) by (cases cs) (auto split: if_splits)
  have drop: "\<not> has_pair a cs \<Longrightarrow> \<not> has_pair a (dropWhile P cs)" for P
    by (induction cs) (auto simp: has_pair_Cons)
  show ?case using 2 head drop by (auto simp: has_pair_Cons)
qed auto

lemma has_pair_append: "has_pair a (xs @ ys) \<longleftrightarrow> has_pair a xs \<or> has_pair a ys \<or> (\<exists>us vs. xs = us @ [a] \<and> ys = a # vs)"
proof (induction xs)
  case (Cons x xs)
  then show ?case by (cases xs; cases ys) (auto simp: has_pair_Cons append_eq_Cons_conv Cons_eq_append_conv)
qed auto

end
