(* ===== verification/Ray_Logs.thy ===== *)
theory Ray_Logs
  imports Python_Text "HOL-Library.Sublist"
begin

text \<open>
  The logs of a Ray job (\<^verbatim>\<open>core/services/runners/ray_runner.py\<close>, \<open>_stream_logs_from_ray\<close>): the body of the dashboard's answer
  arrives in chunks, its lines are split while it streams, and each line goes to one of two buffers that forget their oldest
  lines. Bytes and text are lists of characters; decoding a piece of a JSON string is a parameter.
\<close>

section \<open>Finding a piece of text\<close>

text \<open>\<open>bytes.find\<close>.\<close>

fun find_sub :: "string \<Rightarrow> string \<Rightarrow> nat option" where
  "find_sub pat [] = (if pat = [] then Some 0 else None)"
| "find_sub pat (x # xs) = (if prefix pat (x # xs) then Some 0 else map_option Suc (find_sub pat xs))"

lemma find_sub_bound: "find_sub pat xs = Some i \<Longrightarrow> i + length pat \<le> length xs"
  by (induction xs arbitrary: i) (auto dest: prefix_length_le split: if_splits)

lemma find_sub_short: "length xs < length pat \<Longrightarrow> find_sub pat xs = None"
  using find_sub_bound by (metis not_le add_leE option.exhaust)

lemma find_sub_append: "find_sub pat xs = Some i \<Longrightarrow> find_sub pat (xs @ ys) = Some i"
proof (induction xs arbitrary: i)
  case Nil
  then show ?case by (cases ys) (auto split: if_splits)
next
  case (Cons x xs)
  show ?case
  proof (cases "prefix pat (x # xs)")
    case True
    then have "prefix pat (x # xs @ ys)" by (metis append_Cons prefix_prefix)
    then show ?thesis using Cons.prems True by simp
  next
    case False
    then obtain k where k: "find_sub pat xs = Some k" "i = Suc k" using Cons.prems by auto
    then have "Suc (k + length pat) \<le> length (x # xs)" using find_sub_bound by fastforce
    then have "\<not> prefix pat (x # xs @ ys)"
      using False by (metis append_Cons append_take_drop_id less_imp_le_nat not_le prefix_length_le prefix_length_prefix prefixI Suc_leD add_leD2)
    then show ?thesis using Cons.IH [OF k(1)] k by simp
  qed
qed

text \<open>When a piece is not in the text so far, only its last characters matter for finding it later.\<close>

lemma find_sub_trim:
  assumes "find_sub pat xs = None" "length pat \<noteq> 0"
  shows "find_sub pat (xs @ ys) =
    map_option (\<lambda>i. i + (length xs - (length pat - 1))) (find_sub pat (drop (length xs - (length pat - 1)) xs @ ys))"
  using assms(1)
proof (induction xs)
  case (Cons x xs)
  show ?case
  proof (cases "length (x # xs) \<le> length pat - 1")
    case False
    then have len: "length pat \<le> length (x # xs)" by simp
    have np: "\<not> prefix pat (x # xs)" and rest: "find_sub pat xs = None" using Cons.prems by (auto split: if_splits)
    have "\<not> prefix pat (x # xs @ ys)"
      using np len by (metis append_Cons prefixI prefix_length_prefix)
    moreover have "length (x # xs) - (length pat - 1) = Suc (length xs - (length pat - 1))" using len assms(2) by simp
    ultimately show ?thesis using Cons.IH [OF rest] by (simp add: option.map_comp comp_def)
  qed (simp add: option.map_ident)
qed (simp add: option.map_ident)

section \<open>Splitting the stream\<close>

definition LOG_VALUE_MARKER :: string where
  "LOG_VALUE_MARKER = [CHR 0x22] @ ''logs'' @ [CHR 0x22] @ '': '' @ [CHR 0x22]"

definition JSON_ENCODED_NL :: string where
  "JSON_ENCODED_NL = [CHR 0x5C, CHR ''n'']"

definition seek_log_marker :: "string \<Rightarrow> bool \<times> string" where
  "seek_log_marker buffer =
     (case find_sub LOG_VALUE_MARKER buffer of
        None \<Rightarrow>
          let keep = length LOG_VALUE_MARKER - 1
          in (False, if length buffer > keep then drop (length buffer - keep) buffer else buffer)
      | Some i \<Rightarrow> (True, drop (i + length LOG_VALUE_MARKER) buffer))"

text \<open>The lines \<open>on_line\<close> is called with, in order, and the bytes left.\<close>

function consume_logs :: "string \<Rightarrow> string list \<times> string" where
  "consume_logs buffer =
     (case find_sub JSON_ENCODED_NL buffer of
        None \<Rightarrow> ([], buffer)
      | Some nl \<Rightarrow> (case consume_logs (drop (nl + 2) buffer) of (lines, rest) \<Rightarrow> (take nl buffer # lines, rest)))"
  by pat_completeness auto

termination consume_logs
proof (relation "measure length")
  fix buffer nl assume "find_sub JSON_ENCODED_NL buffer = Some nl"
  then have "nl + 2 \<le> length buffer" using find_sub_bound by (fastforce simp: JSON_ENCODED_NL_def)
  then show "(drop (nl + 2) buffer, buffer) \<in> measure length" by simp
qed simp

declare consume_logs.simps [simp del]

definition strip_right :: "(char \<Rightarrow> bool) \<Rightarrow> string \<Rightarrow> string" where
  "strip_right P s = rev (dropWhile P (rev s))"

text \<open>The last line, when the logs do not end with a newline, without what closes the document.\<close>

definition last_line :: "(string \<Rightarrow> string) \<Rightarrow> string \<Rightarrow> string list" where
  "last_line dec buffer =
     (let t = strip_right (\<lambda>c. c \<in> {CHR 0x0D, CHR 0x0A, CHR '' ''}) buffer;
          t1 = (if suffix [CHR 0x22, CHR ''}''] t then take (length t - 2) t
                else if suffix [CHR 0x22] t then take (length t - 1) t else t)
      in if t1 \<noteq> [] \<and> dec t1 \<noteq> [] then [dec t1] else [])"

section \<open>The two buffers\<close>

record FilteredLogs =
  public_logs :: "string list"
  private_logs :: "string list option"

text \<open>A buffer: its lines, the number of their characters, and whether lines were forgotten.\<close>

type_synonym rolling = "string list \<times> nat \<times> bool"

fun pop_left :: "nat \<Rightarrow> rolling \<Rightarrow> rolling" where
  "pop_left max_chars ([], chars, truncated) = ([], chars, truncated)"
| "pop_left max_chars (l # ls, chars, truncated) =
     (if chars > max_chars then pop_left max_chars (ls, chars - length l, True) else (l # ls, chars, truncated))"

definition append_bounded :: "nat \<Rightarrow> string \<Rightarrow> rolling \<Rightarrow> rolling" where
  "append_bounded max_chars line = (\<lambda>(ls, chars, truncated). pop_left max_chars (ls @ [line], chars + length line, truncated))"

definition is_public :: "string \<Rightarrow> bool" where
  "is_public raw \<longleftrightarrow> lower (take 8 raw) = ''[public]''"

definition is_private :: "string \<Rightarrow> bool" where
  "is_private raw \<longleftrightarrow> lower (take 9 raw) = ''[private]''"

definition dispatch :: "bool \<Rightarrow> nat \<Rightarrow> string \<Rightarrow> rolling \<times> rolling \<Rightarrow> rolling \<times> rolling" where
  "dispatch is_provider max_chars raw = (\<lambda>(pub, priv).
     if is_provider then
       (if is_public raw then (append_bounded max_chars (drop 9 raw) pub, priv)
        else (pub, append_bounded max_chars (if is_private raw then drop 10 raw else raw) priv))
     else
       (append_bounded max_chars (if is_public raw then drop 9 raw else if is_private raw then drop 10 raw else raw) pub, priv))"

record stream_state =
  st_buffer :: string
  st_in_logs :: bool
  st_bufs :: "rolling \<times> rolling"

definition on_chunk :: "(string \<Rightarrow> string) \<Rightarrow> bool \<Rightarrow> nat \<Rightarrow> string \<Rightarrow> stream_state \<Rightarrow> stream_state" where
  "on_chunk dec is_provider max_chars chunk st =
     (if chunk = [] then st
      else
        let buffer = st_buffer st @ chunk;
            (found, buffer1) = (if st_in_logs st then (True, buffer) else seek_log_marker buffer)
        in if \<not> found then st\<lparr>st_buffer := buffer1\<rparr>
           else
             (case consume_logs buffer1 of
                (lines, rest) \<Rightarrow>
                  \<lparr>st_buffer = rest, st_in_logs = True, st_bufs = fold (\<lambda>l. dispatch is_provider max_chars (dec l)) lines (st_bufs st)\<rparr>))"

text \<open>\<open>f"{max_chars / (1024 ** 2):.0f}"\<close> rounds half to even.\<close>

definition megabytes :: "nat \<Rightarrow> nat" where
  "megabytes n = (let q = n div 1048576; r = n mod 1048576 in if 2 * r < 1048576 \<or> 2 * r = 1048576 \<and> even q then q else q + 1)"

definition truncation_msg :: "nat \<Rightarrow> string" where
  "truncation_msg max_chars =
     ''[Logs exceeded maximum allowed size ('' @ nat_text (megabytes max_chars) @
     '' MB). Logs have been truncated, discarding the oldest entries first.]''"

definition with_notice :: "nat \<Rightarrow> rolling \<Rightarrow> string list" where
  "with_notice max_chars = (\<lambda>(ls, chars, truncated). if truncated then truncation_msg max_chars # ls else ls)"

definition stream_logs :: "(string \<Rightarrow> string) \<Rightarrow> bool \<Rightarrow> nat \<Rightarrow> string list \<Rightarrow> FilteredLogs" where
  "stream_logs dec is_provider max_chars chunks =
     (let st = fold (on_chunk dec is_provider max_chars) chunks \<lparr>st_buffer = [], st_in_logs = False, st_bufs = (([], 0, False), ([], 0, False))\<rparr>;
          (pub, priv) = fold (dispatch is_provider max_chars) (last_line dec (st_buffer st)) (st_bufs st)
      in \<lparr>public_logs = with_notice max_chars pub, private_logs = (if is_provider then Some (with_notice max_chars priv) else None)\<rparr>)"

section \<open>The reference\<close>

text \<open>The lines of the whole body, those of each kind, and the longest end of a list of lines within the limit.\<close>

definition body_lines :: "(string \<Rightarrow> string) \<Rightarrow> string \<Rightarrow> string list" where
  "body_lines dec body =
     (case find_sub LOG_VALUE_MARKER body of
        None \<Rightarrow> last_line dec (drop (length body - (length LOG_VALUE_MARKER - 1)) body)
      | Some i \<Rightarrow>
          (case consume_logs (drop (i + length LOG_VALUE_MARKER) body) of (lines, rest) \<Rightarrow> map dec lines @ last_line dec rest))"

definition public_of :: "bool \<Rightarrow> string list \<Rightarrow> string list" where
  "public_of is_provider lines =
     (if is_provider then map (drop 9) (filter is_public lines)
      else map (\<lambda>raw. if is_public raw then drop 9 raw else if is_private raw then drop 10 raw else raw) lines)"

definition private_of :: "bool \<Rightarrow> string list \<Rightarrow> string list" where
  "private_of is_provider lines =
     (if is_provider then map (\<lambda>raw. if is_private raw then drop 10 raw else raw) (filter (\<lambda>raw. \<not> is_public raw) lines) else [])"

abbreviation chars_of :: "string list \<Rightarrow> nat" where
  "chars_of ls \<equiv> sum_list (map length ls)"

fun keep_last :: "nat \<Rightarrow> string list \<Rightarrow> string list" where
  "keep_last n [] = []"
| "keep_last n (l # ls) = (if chars_of (l # ls) \<le> n then l # ls else keep_last n ls)"

definition cut :: "nat \<Rightarrow> string list \<Rightarrow> string list" where
  "cut n ls = (if chars_of ls \<le> n then ls else truncation_msg n # keep_last n ls)"

lemma keep_last_suffix: "suffix (keep_last n ls) ls"
  by (induction ls) (auto simp: suffix_Cons)

lemma keep_last_bound: "chars_of (keep_last n ls) \<le> n"
  by (induction ls) auto

lemma keep_last_all: "chars_of ls \<le> n \<Longrightarrow> keep_last n ls = ls"
  by (cases ls) auto

text \<open>It is the longest such end.\<close>

lemma keep_last_longest: "suffix xs ls \<Longrightarrow> chars_of xs \<le> n \<Longrightarrow> suffix xs (keep_last n ls)"
proof (induction ls)
  case (Cons l ls)
  then show ?case by (cases "xs = l # ls") (auto simp: suffix_Cons)
qed simp

section \<open>The stream is the reference\<close>

definition roll :: "nat \<Rightarrow> string list \<Rightarrow> rolling" where
  "roll n ls = (keep_last n ls, chars_of (keep_last n ls), n < chars_of ls)"

lemma pop_left_keep: "pop_left n (ls, chars_of ls, t) = (keep_last n ls, chars_of (keep_last n ls), t \<or> n < chars_of ls)"
  by (induction ls arbitrary: t) auto

lemma keep_last_snoc: "keep_last n (keep_last n ls @ [x]) = keep_last n (ls @ [x])"
  by (induction ls) auto

lemma append_roll: "append_bounded n x (roll n ls) = roll n (ls @ [x])"
proof -
  have "append_bounded n x (roll n ls) = pop_left n (keep_last n ls @ [x], chars_of (keep_last n ls @ [x]), n < chars_of ls)"
    by (simp add: append_bounded_def roll_def)
  also have "\<dots> = (keep_last n (ls @ [x]), chars_of (keep_last n (ls @ [x])), n < chars_of ls \<or> n < chars_of (keep_last n ls @ [x]))"
    unfolding pop_left_keep keep_last_snoc ..
  also have "n < chars_of ls \<or> n < chars_of (keep_last n ls @ [x]) \<longleftrightarrow> n < chars_of (ls @ [x])"
    by (cases "chars_of ls \<le> n") (auto simp: keep_last_all)
  finally show ?thesis by (simp add: roll_def)
qed

lemma dispatch_roll:
  "fold (dispatch p n) lines (roll n xs, roll n ys) = (roll n (xs @ public_of p lines), roll n (ys @ private_of p lines))"
proof (induction lines arbitrary: xs ys)
  case (Cons l lines)
  have "dispatch p n l (roll n xs, roll n ys) = (roll n (xs @ public_of p [l]), roll n (ys @ private_of p [l]))"
    by (simp add: dispatch_def append_roll public_of_def private_of_def)
  moreover have "public_of p (l # lines) = public_of p [l] @ public_of p lines" "private_of p (l # lines) = private_of p [l] @ private_of p lines"
    by (simp_all add: public_of_def private_of_def)
  ultimately show ?case using Cons [of "xs @ public_of p [l]" "ys @ private_of p [l]"] by simp
qed (simp add: public_of_def private_of_def)

lemma with_notice_roll: "with_notice n (roll n ls) = cut n ls"
  by (auto simp: with_notice_def roll_def cut_def keep_last_all)

lemma consume_logs_append:
  "consume_logs (xs @ ys) =
     (case consume_logs xs of (l1, r1) \<Rightarrow> (case consume_logs (r1 @ ys) of (l2, r2) \<Rightarrow> (l1 @ l2, r2)))"
proof (induction xs rule: consume_logs.induct)
  case (1 xs)
  show ?case
  proof (cases "find_sub JSON_ENCODED_NL xs")
    case None
    then show ?thesis by (subst (2) consume_logs.simps) (simp split: prod.split)
  next
    case (Some nl)
    have "nl + 2 \<le> length xs" using find_sub_bound [OF Some] by (simp add: JSON_ENCODED_NL_def)
    then have "drop (nl + 2) (xs @ ys) = drop (nl + 2) xs @ ys" "take nl (xs @ ys) = take nl xs" by simp_all
    then show ?thesis using 1 [OF Some] Some find_sub_append [OF Some, of ys]
      by (subst (1 2) consume_logs.simps) (simp split: prod.splits)
  qed
qed

lemma drop_drop_append: "m \<le> length xs \<Longrightarrow> drop (i + m + l) (xs @ ys) = drop (i + l) (drop m xs @ ys)"
  by (simp add: drop_append add.commute add.left_commute diff_diff_left)

lemma seek_none:
  "find_sub LOG_VALUE_MARKER b = None \<Longrightarrow> seek_log_marker b = (False, drop (length b - (length LOG_VALUE_MARKER - 1)) b)"
  by (auto simp: seek_log_marker_def Let_def)

text \<open>What the loop holds after a part \<open>body\<close> of the answer.\<close>

definition stream_inv :: "(string \<Rightarrow> string) \<Rightarrow> bool \<Rightarrow> nat \<Rightarrow> string \<Rightarrow> stream_state \<Rightarrow> bool" where
  "stream_inv dec p n body st \<longleftrightarrow>
     (case find_sub LOG_VALUE_MARKER body of
        None \<Rightarrow> st = \<lparr>st_buffer = drop (length body - (length LOG_VALUE_MARKER - 1)) body, st_in_logs = False, st_bufs = (roll n [], roll n [])\<rparr>
      | Some i \<Rightarrow>
          (case consume_logs (drop (i + length LOG_VALUE_MARKER) body) of
             (lines, rest) \<Rightarrow> st = \<lparr>st_buffer = rest, st_in_logs = True, st_bufs = fold (dispatch p n) (map dec lines) (roll n [], roll n [])\<rparr>))"

lemma fold_map_dispatch: "fold (\<lambda>l. dispatch p n (dec l)) lines b = fold (dispatch p n) (map dec lines) b"
  by (induction lines arbitrary: b) auto

lemma on_chunk_found:
  assumes "chunk \<noteq> []" "st_in_logs st \<Longrightarrow> b = st_buffer st @ chunk" "\<not> st_in_logs st \<Longrightarrow> seek_log_marker (st_buffer st @ chunk) = (True, b)"
    and "consume_logs b = (ls, r)"
  shows "on_chunk dec p n chunk st = \<lparr>st_buffer = r, st_in_logs = True, st_bufs = fold (dispatch p n) (map dec ls) (st_bufs st)\<rparr>"
  using assms by (cases "st_in_logs st") (simp_all add: on_chunk_def fold_map_dispatch [of p n dec])

lemma on_chunk_inv:
  assumes "stream_inv dec p n body st"
  shows "stream_inv dec p n (body @ chunk) (on_chunk dec p n chunk st)"
proof (cases "chunk = []")
  case False
  let ?k = "length LOG_VALUE_MARKER - 1"
  show ?thesis
  proof (cases "find_sub LOG_VALUE_MARKER body")
    case None
    let ?t = "drop (length body - ?k) body"
    have st: "st = \<lparr>st_buffer = ?t, st_in_logs = False, st_bufs = (roll n [], roll n [])\<rparr>"
      using assms None by (simp add: stream_inv_def)
    have "length LOG_VALUE_MARKER \<noteq> 0" by (simp add: LOG_VALUE_MARKER_def)
    note trim = find_sub_trim [OF None this, of chunk]
    show ?thesis
    proof (cases "find_sub LOG_VALUE_MARKER (?t @ chunk)")
      case none: None
      have eq: "drop (length (?t @ chunk) - ?k) (?t @ chunk) = drop (length (body @ chunk) - ?k) (body @ chunk)"
        by (cases "length body \<le> ?k") (simp_all add: drop_append add.commute)
      have "on_chunk dec p n chunk st = st\<lparr>st_buffer := drop (length (?t @ chunk) - ?k) (?t @ chunk)\<rparr>"
        using False seek_none [OF none] st by (simp add: on_chunk_def)
      then have "on_chunk dec p n chunk st = st\<lparr>st_buffer := drop (length (body @ chunk) - ?k) (body @ chunk)\<rparr>" unfolding eq .
      moreover have "find_sub LOG_VALUE_MARKER (body @ chunk) = None" using none trim by simp
      ultimately show ?thesis using st by (simp add: stream_inv_def)
    next
      case (Some i)
      have "drop (i + (length body - ?k) + length LOG_VALUE_MARKER) (body @ chunk) = drop (i + length LOG_VALUE_MARKER) (?t @ chunk)"
        by (rule drop_drop_append) simp
      note later = this
      obtain ls r where c: "consume_logs (drop (i + length LOG_VALUE_MARKER) (?t @ chunk)) = (ls, r)" by fastforce
      have "on_chunk dec p n chunk st = \<lparr>st_buffer = r, st_in_logs = True, st_bufs = fold (dispatch p n) (map dec ls) (roll n [], roll n [])\<rparr>"
        using on_chunk_found [OF False _ _ c, where st = st] Some by (simp add: st seek_log_marker_def)
      moreover have "find_sub LOG_VALUE_MARKER (body @ chunk) = Some (i + (length body - ?k))" using Some trim by simp
      ultimately show ?thesis unfolding stream_inv_def by (simp only: option.case later c prod.case)
    qed
  next
    case (Some i)
    have "i + length LOG_VALUE_MARKER \<le> length body" using find_sub_bound [OF Some] .
    then have "drop (i + length LOG_VALUE_MARKER) (body @ chunk) = drop (i + length LOG_VALUE_MARKER) body @ chunk" by simp
    then show ?thesis using False Some assms find_sub_append [OF Some, of chunk]
      consume_logs_append [of "drop (i + length LOG_VALUE_MARKER) body" chunk]
      by (simp add: stream_inv_def on_chunk_def fold_map_dispatch [of p n dec] split: prod.splits)
  qed
qed (use assms in \<open>simp add: on_chunk_def\<close>)

text \<open>
  C18: however the answer of the dashboard is cut into chunks, the logs are those of the whole body: every line goes to its stream,
  in order and without its prefix, and a stream over the limit is cut to its longest end within the limit, with a notice before it.
\<close>

theorem ray_logs_exact:
  "stream_logs dec p n chunks =
     \<lparr>public_logs = cut n (public_of p (body_lines dec (concat chunks))),
      private_logs = (if p then Some (cut n (private_of p (body_lines dec (concat chunks)))) else None)\<rparr>"
proof -
  let ?start = "\<lparr>st_buffer = [], st_in_logs = False, st_bufs = (roll n [], roll n [])\<rparr>"
  let ?st = "fold (on_chunk dec p n) chunks ?start"
  have "stream_inv dec p n (body @ concat cs) (fold (on_chunk dec p n) cs st)" if "stream_inv dec p n body st" for body cs st
    using that by (induction cs arbitrary: body st) (auto dest: on_chunk_inv simp flip: append_assoc)
  moreover have "stream_inv dec p n [] ?start" by (simp add: stream_inv_def LOG_VALUE_MARKER_def)
  ultimately have inv: "stream_inv dec p n (concat chunks) ?st" by (metis append_Nil)
  have "fold (dispatch p n) (last_line dec (st_buffer ?st)) (st_bufs ?st) = fold (dispatch p n) (body_lines dec (concat chunks)) (roll n [], roll n [])"
    using inv by (auto simp: stream_inv_def body_lines_def split: option.splits prod.splits)
  moreover have start: "([], 0, False) = roll n []" by (simp add: roll_def)
  ultimately show ?thesis unfolding stream_logs_def start Let_def by (simp add: dispatch_roll with_notice_roll)
qed

text \<open>
  Two corners of the code. A backslash followed by the letter n in a log line, which JSON writes as two backslashes and an n, is
  taken for a newline and splits the line; and an answer without the marker yields its last bytes as a line.
\<close>

lemma escaped_backslash_splits_line:
  "stream_logs (\<lambda>l. l) False 100 [LOG_VALUE_MARKER @ ''C:'' @ [CHR 0x5C, CHR 0x5C] @ ''new'' @ [CHR 0x22, CHR ''}'']] =
     \<lparr>public_logs = [''C:'' @ [CHR 0x5C], ''ew''], private_logs = None\<rparr>"
  by code_simp

lemma answer_without_marker_is_a_line:
  "stream_logs (\<lambda>l. l) False 100 [''{'' @ [CHR 0x22] @ ''error'' @ [CHR 0x22] @ '':1}''] = \<lparr>public_logs = [''rror'' @ [CHR 0x22] @ '':1}''], private_logs = None\<rparr>"
  by code_simp

end
