(* ===== verification/Ray_Tasks.thy ===== *)
theory Ray_Tasks
  imports Fleets_Properties Ray_Logs
begin

text \<open>
  The Ray side of the scheduler: the runner's work on the cluster of a job (\<^verbatim>\<open>core/services/runners/ray_runner.py\<close>), and the tasks
  that submit Ray jobs (\<^verbatim>\<open>schedule_ray_jobs.py\<close>), read their status back (\<^verbatim>\<open>update_ray_jobs_statuses.py\<close>) and free their
  clusters (\<^verbatim>\<open>free_ray_resources.py\<close>). The answers of Kubernetes, of the Ray dashboard and of the log storage are parameters. The
  foreign key of a job names a row of the table of clusters and counts as null once that row is gone (\<open>SET_NULL\<close>).
\<close>

section \<open>State and environment\<close>

record ray_state =
  ry_sched :: sched
  ry_clusters :: "compute_resource list"
  ry_k8s :: "string list"
  ry_logs :: "(string \<times> bool \<times> string) list"

abbreviation rdb :: "ray_state \<Rightarrow> db" where
  "rdb x \<equiv> sdb (ry_sched x)"

datatype ray_status = Ray_PENDING | Ray_RUNNING | Ray_STOPPED | Ray_SUCCEEDED | Ray_FAILED | Ray_other string

record ray_env =
  re_ops :: ops_env
  re_local :: bool
  re_uuid :: string
  re_new_id :: "compute_resource list \<Rightarrow> nat"
  re_create :: "string \<Rightarrow> string res"
  re_ready :: "string \<Rightarrow> bool"
  re_kill :: "string \<Rightarrow> bool res"
  re_submit :: "string \<Rightarrow> job \<Rightarrow> string res"
  re_status :: "job \<Rightarrow> ray_status option res"
  re_logs :: "job \<Rightarrow> FilteredLogs res"
  re_store :: "job \<Rightarrow> unit res"
  re_no_delete :: bool
  re_limits :: "string \<times> string"

definition cluster_of :: "ray_state \<Rightarrow> job \<Rightarrow> compute_resource option" where
  "cluster_of x j = Option.bind (job_compute_resource j) (\<lambda>c. find (\<lambda>r. cr_id r = cr_id c) (ry_clusters x))"

section \<open>The runner\<close>

fun map_status :: "ray_status \<Rightarrow> Status" where
  "map_status Ray_PENDING = PENDING"
| "map_status Ray_RUNNING = RUNNING"
| "map_status Ray_STOPPED = STOPPED"
| "map_status Ray_SUCCEEDED = SUCCEEDED"
| "map_status Ray_FAILED = FAILED"
| "map_status (Ray_other _) = FAILED"

definition name_char_ok :: "char \<Rightarrow> bool" where
  "name_char_ok c \<longleftrightarrow> is_lower_letter c \<or> is_digit c \<or> c = CHR ''-''"

definition generate_resource_name :: "string \<Rightarrow> string \<Rightarrow> string" where
  "generate_resource_name uuid user_name =
     ''c-'' @ map (\<lambda>c. if name_char_ok c then c else CHR ''-'') (take 20 (lower user_name)) @ ''-'' @ take 8 uuid"

text \<open>A deleted cluster is gone from Kubernetes; in local mode there is none.\<close>

definition kill_ray_cluster :: "ray_env \<Rightarrow> string \<Rightarrow> string list \<Rightarrow> bool res \<times> string list" where
  "kill_ray_cluster env nm k8s =
     (if re_local env then (Inr True, k8s)
      else (case re_kill env nm of Inr True \<Rightarrow> (Inr True, removeAll nm k8s) | r \<Rightarrow> (r, k8s)))"

definition after_kill :: "ray_env \<Rightarrow> string \<Rightarrow> exn \<Rightarrow> string list \<Rightarrow> exn \<times> string list" where
  "after_kill env nm e k8s = (case kill_ray_cluster env nm k8s of (Inl e', k) \<Rightarrow> (e', k) | (Inr _, k) \<Rightarrow> (e, k))"

definition create_k8s_cluster :: "ray_env \<Rightarrow> job \<Rightarrow> string list \<Rightarrow> string res \<times> string list" where
  "create_k8s_cluster env j k8s =
     (let nm = generate_resource_name (re_uuid env) (username (author j)) in
      case re_create env nm of
        Inl e \<Rightarrow> (Inl e, k8s)
      | Inr created_name \<Rightarrow>
          let k1 = List.insert created_name k8s in
          if created_name \<noteq> nm
          then (case after_kill env created_name (RuntimeError ''Wrong name after cluster creation'') k1 of (e, k2) \<Rightarrow> (Inl e, k2))
          else if \<not> re_ready env nm
          then (case after_kill env created_name (RuntimeError ''Something went wrong during cluster creation: Timeout'') k1 of (e, k2) \<Rightarrow> (Inl e, k2))
          else (Inr nm, k1))"

definition submit_failed :: "job \<Rightarrow> exn" where
  "submit_failed j = RunnerError (''Failed to submit job ['' @ job_id j @ '']'')"

definition ray_submit :: "ray_env \<Rightarrow> job \<times> ray_state \<Rightarrow> unit res \<times> job \<times> ray_state" where
  "ray_submit env = (\<lambda>(j, x).
     case (if re_local env then (Inr ''Local compute resource'', ry_k8s x) else create_k8s_cluster env j (ry_k8s x)) of
       (Inl e, k) \<Rightarrow> (Inl (submit_failed j), j, x\<lparr>ry_k8s := k\<rparr>)
     | (Inr nm, k) \<Rightarrow>
         (case re_submit env nm j of
            Inr rid \<Rightarrow>
              (Inr (), j\<lparr>job_compute_resource := Some \<lparr>cr_id = re_new_id env (ry_clusters x), cr_title = nm, cr_active = True, cr_gpu = job_gpu j\<rparr>,
                         ray_job_id := Some rid\<rparr>, x\<lparr>ry_k8s := k\<rparr>)
          | Inl e \<Rightarrow>
              if re_local env then (Inl (submit_failed j), j, x\<lparr>ry_k8s := k\<rparr>)
              else (case kill_ray_cluster env nm k of
                      (Inl e', k') \<Rightarrow> (Inl e', j, x\<lparr>ry_k8s := k'\<rparr>)
                    | (Inr _, k') \<Rightarrow> (Inl (submit_failed j), j, x\<lparr>ry_k8s := k'\<rparr>))))"

definition ray_free_resources :: "ray_env \<Rightarrow> compute_resource option \<Rightarrow> string list \<Rightarrow> bool res \<times> string list" where
  "ray_free_resources env c k8s = (case c of None \<Rightarrow> (Inr False, k8s) | Some r \<Rightarrow> kill_ray_cluster env (cr_title r) k8s)"

section \<open>ScheduleRayJobs\<close>

definition save_cluster :: "compute_resource \<Rightarrow> ray_state \<Rightarrow> ray_state" where
  "save_cluster c x =
     x\<lparr>ry_clusters := (if list_ex (\<lambda>r. cr_id r = cr_id c) (ry_clusters x) then map (\<lambda>r. if cr_id r = cr_id c then c else r) (ry_clusters x)
                      else ry_clusters x @ [c])\<rparr>"

definition execute_ray_job :: "ray_env \<Rightarrow> job \<times> ray_state \<Rightarrow> unit res \<times> job \<times> ray_state" where
  "execute_ray_job env = (\<lambda>(j, x).
     case ray_submit env (j, x) of
       (Inr _, j1, x1) \<Rightarrow>
         (Inr (), j1\<lparr>status := PENDING, env_vars := ''{}''\<rparr>,
          case job_compute_resource j1 of None \<Rightarrow> x1 | Some c \<Rightarrow> save_cluster c x1)
     | (Inl e, j1, x1) \<Rightarrow> if is_RunnerError e then (Inr (), j1\<lparr>status := FAILED, env_vars := ''{}''\<rparr>, x1) else (Inl e, j1, x1))"

definition on_ray_db :: "(job \<times> db \<Rightarrow> 'a res \<times> job \<times> db) \<Rightarrow> job \<times> ray_state \<Rightarrow> 'a res \<times> job \<times> ray_state" where
  "on_ray_db f = (\<lambda>(j, x). case on_db f (j, ry_sched x) of (r, j', s) \<Rightarrow> (r, j', x\<lparr>ry_sched := s\<rparr>))"

definition ray_event :: "ray_env \<Rightarrow> JobEventContext \<Rightarrow> job \<Rightarrow> ray_state \<Rightarrow> ray_state" where
  "ray_event env ctx j x =
     x\<lparr>ry_sched := (ry_sched x)\<lparr>sc_world := (sc_world (ry_sched x))\<lparr>wdb :=
        snd (add_status_event (oe_now (re_ops env)) (job_id j) SCHEDULER ctx (status j) (rdb x))\<rparr>\<rparr>\<rparr>"

definition ray_metric :: "metric \<Rightarrow> ray_state \<Rightarrow> ray_state" where
  "ray_metric m x = x\<lparr>ry_sched := add_metric m (ry_sched x)\<rparr>"

text \<open>Saving the columns of the instance, then the event of its status.\<close>

definition save_status :: "ray_env \<Rightarrow> field_name list \<Rightarrow> JobEventContext \<Rightarrow> job \<times> ray_state \<Rightarrow> unit res \<times> job \<times> ray_state" where
  "save_status env names ctx = (\<lambda>(j, x).
     case on_ray_db (save_direct (oe_now (re_ops env)) names) (j, x) of
       (Inl e, j1, x1) \<Rightarrow> (Inl e, j1, x1)
     | (Inr _, j1, x1) \<Rightarrow> (Inr (), j1, ray_event env ctx j1 x1))"

definition schedule_ray_job :: "ray_env \<Rightarrow> job \<times> ray_state \<Rightarrow> unit res \<times> job \<times> ray_state" where
  "schedule_ray_job env = (\<lambda>(j, x).
     case oe_env (re_ops env) j of
       Inl e \<Rightarrow> (Inl e, j, x)
     | Inr _ \<Rightarrow>
         (case execute_ray_job env (j, x) of
            (Inl e, j1, x1) \<Rightarrow> (Inl e, j1, x1)
          | (Inr _, j1, x1) \<Rightarrow>
              (case save_status env [N_status, N_ray_job_id, N_compute_resource, N_env_vars] SCHEDULE_JOBS (j1, x1) of
                 (Inl e, j2, x2) \<Rightarrow> (Inl e, j2, x2)
               | (Inr _, j2, x2) \<Rightarrow>
                   (Inr (), j2, if status j2 = PENDING
                                then ray_metric (Queue_wait_time (oe_now (re_ops env) - created j2) (if job_gpu j2 then ''gpu'' else ''cpu'')) x2
                                else x2))))"

text \<open>A pass over jobs: the kill signal ends it, and what a job raises ends it too.\<close>

fun each_ray_job ::
  "(nat \<Rightarrow> ray_env) \<Rightarrow> (ray_env \<Rightarrow> job \<times> ray_state \<Rightarrow> unit res \<times> job \<times> ray_state) \<Rightarrow> nat \<Rightarrow> job list \<Rightarrow> ray_state \<Rightarrow> unit res \<times> ray_state" where
  "each_ray_job envs f n [] x = (Inr (), x)"
| "each_ray_job envs f n (j # js) x =
     (if oe_killed (re_ops (envs n)) then (Inr (), x)
      else (case f (envs n) (j, x) of (Inl e, _, x1) \<Rightarrow> (Inl e, x1) | (Inr _, _, x1) \<Rightarrow> each_ray_job envs f (Suc n) js x1))"

definition schedule_jobs_if_slots_available :: "int \<Rightarrow> int \<Rightarrow> bool \<Rightarrow> (nat \<Rightarrow> ray_env) \<Rightarrow> ray_state \<Rightarrow> unit res \<times> ray_state" where
  "schedule_jobs_if_slots_available jobs_per_user max_slots g envs x =
     (let free_slots = max_slots - int (length (filter (\<lambda>c. cr_active c \<and> cr_gpu c = g) (ry_clusters x))) in
      if free_slots < 1 then (Inr (), x)
      else each_ray_job envs schedule_ray_job 0
             (get_jobs_to_schedule_fair_share (oe_conf (re_ops (envs 0))) jobs_per_user free_slots g RAY None (rdb x)) x)"

definition schedule_ray_run :: "int \<Rightarrow> int \<Rightarrow> int \<Rightarrow> (bool \<Rightarrow> nat \<Rightarrow> ray_env) \<Rightarrow> ray_state \<Rightarrow> unit res \<times> ray_state" where
  "schedule_ray_run jobs_per_user max_cpu max_gpu envs x =
     (if cfg_bool (oe_conf (re_ops (envs False 0)) MAINTENANCE) then (Inr (), x)
      else
        (case schedule_jobs_if_slots_available jobs_per_user max_cpu False (envs False) x of
           (Inl e, x1) \<Rightarrow> (Inl e, x1)
         | (Inr _, x1) \<Rightarrow> schedule_jobs_if_slots_available jobs_per_user max_gpu True (envs True) x1))"

section \<open>UpdateRayJobsStatuses\<close>

definition ray_increment_terminal_counter :: "job \<Rightarrow> ray_state \<Rightarrow> ray_state" where
  "ray_increment_terminal_counter j x = (if filler j then x else ray_metric (Jobs_terminal (provider_label j) (status j)) x)"

definition log_content :: "string list \<Rightarrow> string" where
  "log_content lines = (if lines = [] then [] else join_with [CHR 0x0A] lines @ [CHR 0x0A])"

definition save_logs_to_storage :: "ray_env \<Rightarrow> FilteredLogs \<Rightarrow> job \<Rightarrow> ray_state \<Rightarrow> unit res \<times> ray_state" where
  "save_logs_to_storage env logs j x =
     (case re_store env j of
        Inl e \<Rightarrow> (Inl e, x)
      | Inr _ \<Rightarrow>
          (case job_program j of
             None \<Rightarrow> (Inl (AttributeError ''provider''), x)
           | Some p \<Rightarrow>
               let public_entry = (job_id j, True, log_content (public_logs logs));
                   private_entry = (job_id j, False, log_content (case private_logs logs of None \<Rightarrow> [] | Some ls \<Rightarrow> ls))
               in (Inr (), x\<lparr>ry_logs := ry_logs x @ (if program_provider p \<noteq> None then [public_entry, private_entry] else [public_entry])\<rparr>)))"

definition logs_or_error :: "ray_env \<Rightarrow> job \<Rightarrow> FilteredLogs res" where
  "logs_or_error env j =
     (case re_logs env j of
        Inr l \<Rightarrow> Inr l
      | Inl e \<Rightarrow> if is_RunnerError e then Inr \<lparr>public_logs = [''Error getting logs''], private_logs = None\<rparr> else Inl e)"

definition NO_RESOURCES_LOG :: string where
  "NO_RESOURCES_LOG = ''No available node types can fulfill resource request''"

definition lacks_resources :: "FilteredLogs \<Rightarrow> bool" where
  "lacks_resources logs \<longleftrightarrow>
     list_ex (\<lambda>l. find_sub NO_RESOURCES_LOG l \<noteq> None) (public_logs logs @ (case private_logs logs of None \<Rightarrow> [] | Some ls \<Rightarrow> ls))"

definition insufficient_logs :: "ray_env \<Rightarrow> FilteredLogs" where
  "insufficient_logs env =
     \<lparr>public_logs = [''Insufficient resources available to the run job in this configuration.'' @ [CHR 0x0A] @ ''Max resources allowed are '' @
        fst (re_limits env) @ '' CPUs and '' @ snd (re_limits env) @ '' GB of RAM per job.''], private_logs = None\<rparr>"

text \<open>The cluster of the job is deleted, in Kubernetes and as a row.\<close>

definition fail_job_insufficient_resources :: "ray_env \<Rightarrow> job \<times> ray_state \<Rightarrow> Status res \<times> job \<times> ray_state" where
  "fail_job_insufficient_resources env = (\<lambda>(j, x).
     if re_no_delete env then (Inr FAILED, j, x)
     else
       (case ray_free_resources env (job_compute_resource j) (ry_k8s x) of
          (r, k) \<Rightarrow>
            let x1 = x\<lparr>ry_k8s := k\<rparr>;
                gone = x1\<lparr>ry_clusters := (case job_compute_resource j of None \<Rightarrow> ry_clusters x1 | Some c \<Rightarrow> filter (\<lambda>r. cr_id r \<noteq> cr_id c) (ry_clusters x1))\<rparr>
            in (case r of
                  Inl e \<Rightarrow> if is_RunnerError e then (Inr FAILED, j\<lparr>job_compute_resource := None\<rparr>, gone) else (Inl e, j, x1)
                | Inr _ \<Rightarrow> (Inr FAILED, j\<lparr>job_compute_resource := None\<rparr>, gone))))"

text \<open>
  The status read from Ray, or stopped by the timeout. None is what Ray may answer; the column does not allow it, so saving it raises.
\<close>

definition ray_new_status :: "ray_env \<Rightarrow> job \<Rightarrow> ray_state \<Rightarrow> ray_status option \<Rightarrow> Status option" where
  "ray_new_status env j x st =
     (if check_job_timeout (oe_conf (re_ops env)) (oe_timeout (re_ops env)) (oe_now (re_ops env)) j (first_running_at (job_id j) (rdb x))
      then Some STOPPED else map_option map_status st)"

definition is_terminal :: "Status option \<Rightarrow> bool" where
  "is_terminal st \<longleftrightarrow> (case st of None \<Rightarrow> False | Some s \<Rightarrow> s \<in> set TERMINAL_STATUSES)"

text \<open>The end of the method: the status to write is \<open>st\<close> when it changed.\<close>

definition finish_update :: "ray_env \<Rightarrow> Status option \<Rightarrow> bool \<Rightarrow> job \<times> ray_state \<Rightarrow> bool res \<times> job \<times> ray_state" where
  "finish_update env st changed = (\<lambda>(j, x).
     if \<not> changed then (Inr False, j, x)
     else
       (case st of
          None \<Rightarrow> (Inl (OtherException ''IntegrityError''), j, x)
        | Some s \<Rightarrow>
            (case save_status env [N_status, N_sub_status, N_env_vars] UPDATE_JOB_STATUS (j\<lparr>status := s\<rparr>, x) of
               (Inl e, j1, x1) \<Rightarrow> (Inl e, j1, x1)
             | (Inr _, j1, x1) \<Rightarrow> (Inr True, j1, if in_terminal_state j1 then ray_increment_terminal_counter j1 x1 else x1))))"

definition check_resources ::
  "ray_env \<Rightarrow> FilteredLogs \<Rightarrow> Status option \<Rightarrow> bool \<Rightarrow> job \<times> ray_state \<Rightarrow> bool res \<times> job \<times> ray_state" where
  "check_resources env lines st changed = (\<lambda>(j, x).
     if \<not> lacks_resources lines then finish_update env st changed (j, x)
     else
       (case fail_job_insufficient_resources env (j, x) of
          (Inl e, j1, x1) \<Rightarrow> (Inl e, j1, x1)
        | (Inr s, j1, x1) \<Rightarrow>
            (case save_logs_to_storage env (insufficient_logs env) j1 x1 of
               (Inl e, x2) \<Rightarrow> (Inl e, j1, x2)
             | (Inr _, x2) \<Rightarrow> finish_update env (Some s) True (j1\<lparr>env_vars := ''{}''\<rparr>, x2))))"

definition ray_update_job_status :: "ray_env \<Rightarrow> job \<times> ray_state \<Rightarrow> bool res \<times> job \<times> ray_state" where
  "ray_update_job_status env = (\<lambda>(j, x).
     if job_compute_resource j = None then (Inr False, j, x)
     else
       (case re_status env j of
          Inl e \<Rightarrow>
            if \<not> is_RunnerError e then (Inl e, j, x)
            else finish_update env (Some FAILED) True (j\<lparr>sub_status := None, env_vars := ''{}''\<rparr>, x)
        | Inr st \<Rightarrow>
            let new = ray_new_status env j x st; changed = (new \<noteq> Some (status j)) in
            if changed \<and> is_terminal new then
              (let j1 = j\<lparr>status := the new, sub_status := None, env_vars := ''{}''\<rparr> in
               case logs_or_error env j1 of
                 Inl e \<Rightarrow> (Inl e, j1, x)
               | Inr lines \<Rightarrow>
                   (case save_logs_to_storage env lines j1 x of
                      (Inl e, x1) \<Rightarrow> (Inl e, j1, x1)
                    | (Inr _, x1) \<Rightarrow>
                        let x2 = (if new = Some SUCCEEDED then x1\<lparr>ry_sched := record_execution_duration (re_ops env) j1 (ry_sched x1)\<rparr> else x1)
                        in check_resources env lines new True (j1, x2)))
            else if is_terminal new then finish_update env new changed (j, x)
            else
              (case logs_or_error env j of
                 Inl e \<Rightarrow> (Inl e, j, x)
               | Inr lines \<Rightarrow> check_resources env lines new changed (j, x))))"

text \<open>One broken job does not stop the others; a database outage ends the pass.\<close>

fun ray_update_loop :: "(nat \<Rightarrow> ray_env) \<Rightarrow> (job \<Rightarrow> bool) \<Rightarrow> nat \<Rightarrow> job list \<Rightarrow> ray_state \<Rightarrow> unit res \<times> ray_state" where
  "ray_update_loop envs enabled n [] x = (Inr (), x)"
| "ray_update_loop envs enabled n (j # js) x =
     (if oe_killed (re_ops (envs n)) then (Inr (), x)
      else if \<not> enabled j then ray_update_loop envs enabled (Suc n) js x
      else
        (case ray_update_job_status (envs n) (j, x) of
           (Inl e, _, x1) \<Rightarrow> if is_db_outage e then (Inl e, x1) else ray_update_loop envs enabled (Suc n) js x1
         | (Inr _, _, x1) \<Rightarrow> ray_update_loop envs enabled (Suc n) js x1))"

definition ray_jobs_to_update :: "ray_state \<Rightarrow> job list" where
  "ray_jobs_to_update x =
     map (\<lambda>j. j\<lparr>job_compute_resource := cluster_of x j\<rparr>)
       (filter (\<lambda>j. status j \<in> set RUNNING_STATUSES \<and> runner j \<noteq> FLEETS) (job_tbl (rdb x)))"

definition update_ray_run :: "int \<Rightarrow> int \<Rightarrow> (nat \<Rightarrow> ray_env) \<Rightarrow> ray_state \<Rightarrow> unit res \<times> ray_state" where
  "update_ray_run max_cpu max_gpu envs x =
     ray_update_loop envs (\<lambda>j. if job_gpu j then max_gpu > 0 else max_cpu > 0) 0 (ray_jobs_to_update x) x"

section \<open>FreeRayResources\<close>

definition free_job :: "ray_env \<Rightarrow> job \<times> ray_state \<Rightarrow> unit res \<times> job \<times> ray_state" where
  "free_job env = (\<lambda>(j, x).
     case ray_free_resources env (job_compute_resource j) (ry_k8s x) of
       (Inl e, k) \<Rightarrow> (Inl e, j, x\<lparr>ry_k8s := k\<rparr>)
     | (Inr b, k) \<Rightarrow>
         (Inr (), j, case job_compute_resource j of
                       Some c \<Rightarrow> if b then save_cluster (c\<lparr>cr_active := False\<rparr>) (x\<lparr>ry_k8s := k\<rparr>) else x\<lparr>ry_k8s := k\<rparr>
                     | None \<Rightarrow> x\<lparr>ry_k8s := k\<rparr>))"

definition jobs_to_free :: "ray_state \<Rightarrow> job list" where
  "jobs_to_free x =
     filter (\<lambda>j. case job_compute_resource j of None \<Rightarrow> False | Some c \<Rightarrow> cr_active c)
       (map (\<lambda>j. j\<lparr>job_compute_resource := cluster_of x j\<rparr>) (filter in_terminal_state (job_tbl (rdb x))))"

text \<open>What is only logged: active rows without a job, and clusters without a row or with an inactive one.\<close>

definition compute_resources_without_job :: "ray_state \<Rightarrow> string list" where
  "compute_resources_without_job x =
     map cr_title (filter (\<lambda>c. cr_active c \<and> \<not> list_ex (\<lambda>j. map_option cr_id (cluster_of x j) = Some (cr_id c)) (job_tbl (rdb x))) (ry_clusters x))"

definition orphan_clusters :: "string list \<Rightarrow> compute_resource list \<Rightarrow> string list \<times> string list" where
  "orphan_clusters names rows =
     (let known = filter (\<lambda>c. cr_title c \<in> set names) rows in
      (filter (\<lambda>n. n \<notin> cr_title ` set known) names, map cr_title (filter (\<lambda>c. \<not> cr_active c) known)))"

definition free_ray_run :: "(nat \<Rightarrow> ray_env) \<Rightarrow> ray_state \<Rightarrow> unit res \<times> ray_state" where
  "free_ray_run envs x = each_ray_job envs free_job 0 (jobs_to_free x) x"

section \<open>Saving a status\<close>

lemma apply_fields_updated:
  "\<forall>f \<in> set fs. \<forall>t'. f \<noteq> F_updated t' \<Longrightarrow> apply_fields fs (j\<lparr>updated := t\<rparr>) = (apply_fields fs j)\<lparr>updated := t\<rparr>"
proof (induction fs arbitrary: j)
  case (Cons f fs)
  have "apply_field f (j\<lparr>updated := t\<rparr>) = (apply_field f j)\<lparr>updated := t\<rparr>" using Cons.prems by (cases f) auto
  then show ?case using Cons by simp
qed simp

lemma apply_fields_append [simp]: "apply_fields (fs @ gs) j = apply_fields gs (apply_fields fs j)"
  by (simp add: apply_fields_def)

text \<open>\<open>save_direct\<close> writes the row \<open>update_fields\<close> would write with the values of the instance.\<close>

lemma save_direct_db:
  assumes "N_updated \<notin> set names" "save_direct t names (j, d) = (r, j', d')"
  shows "\<exists>ru j2. update_fields t (map (\<lambda>n. getattr n j) names) (j, d) = (ru, j2, d')"
    and "r = (if job_row d (job_id j) = None then Inl DoesNotExist else Inr ())"
    and "\<exists>v. j' = j\<lparr>updated := t, version := v\<rparr>"
    and "job_row d (job_id j) = Some row \<Longrightarrow>
      job_row d' (job_id j) = Some ((apply_fields (map (\<lambda>n. getattr n j) names) row)\<lparr>updated := t, version := version row + 1\<rparr>)"
proof -
  let ?fs = "map (\<lambda>n. getattr n j) names"
  have nu: "\<forall>f \<in> set ?fs. \<forall>t'. f \<noteq> F_updated t'" 
  proof (intro ballI allI)
    fix f t' assume "f \<in> set ?fs"
    then obtain n where "n \<in> set names" "f = getattr n j" by auto
    then have "n \<noteq> N_updated" using assms(1) by blast
    then show "f \<noteq> F_updated t'" unfolding \<open>f = _\<close> by (cases n rule: field_name.exhaust) simp_all
  qed
  have eq: "apply_fields (?fs @ [F_updated t]) x = apply_fields (F_updated t # ?fs) x" for x
    using apply_fields_updated [OF nu] by simp
  have w: "write_row (?fs @ [F_updated t]) (j\<lparr>updated := t\<rparr>, d) = (r, j', d')"
    using assms by (simp add: save_direct_def Let_def)
  obtain ru j2 d2 where u: "update_fields t ?fs (j, d) = (ru, j2, d2)" by (metis prod_cases3)
  then have "write_row (F_updated t # ?fs) (apply_fields (F_updated t # ?fs) j, d) = (ru, j2, d2)" by (simp add: update_fields_def)
  then have "d2 = d'" using w unfolding write_row_def Let_def prod.case eq by (auto split: option.splits)
  then show "\<exists>ru j2. update_fields t ?fs (j, d) = (ru, j2, d')" using u by blast
  show "r = (if job_row d (job_id j) = None then Inl DoesNotExist else Inr ())" "\<exists>v. j' = j\<lparr>updated := t, version := v\<rparr>"
    using write_row_outcome [OF w] by auto
  show "job_row d' (job_id j) = Some ((apply_fields ?fs row)\<lparr>updated := t, version := version row + 1\<rparr>)" if "job_row d (job_id j) = Some row"
    using write_row_job_row [OF w, of "job_id j"] that by simp
qed

lemma ray_event_db [simp]:
  "rdb (ray_event env ctx j x) = snd (add_status_event (oe_now (re_ops env)) (job_id j) SCHEDULER ctx (status j) (rdb x))"
  by (simp add: ray_event_def)

lemma ray_frame [simp]:
  "rdb (ray_metric m x) = rdb x" "rdb (save_cluster c x) = rdb x" "rdb (ray_increment_terminal_counter j x) = rdb x"
  "ry_logs (ray_increment_terminal_counter j x) = ry_logs x"
  by (simp_all add: ray_metric_def save_cluster_def ray_increment_terminal_counter_def)

text \<open>What saving a status does, for a job that is stored: its row, its event, and nothing else in the database.\<close>

definition status_written :: "int \<Rightarrow> field_name list \<Rightarrow> JobEventContext \<Rightarrow> job \<Rightarrow> db \<Rightarrow> db \<Rightarrow> bool" where
  "status_written t names ctx j d d' \<longleftrightarrow>
     (\<exists>row d1. job_row d (job_id j) = Some row \<and>
        job_row d1 (job_id j) = Some ((apply_fields (map (\<lambda>n. getattr n j) names) row)\<lparr>updated := t, version := version row + 1\<rparr>) \<and>
        (\<exists>ru j2. update_fields t (map (\<lambda>n. getattr n j) names) (j, d) = (ru, j2, d1)) \<and>
        d' = snd (add_status_event t (job_id j) SCHEDULER ctx (status j) d1))"

lemma save_status_written:
  assumes "N_updated \<notin> set names" "job_row (rdb x) (job_id j) = Some row" "save_status env names ctx (j, x) = (r, j', x')"
  shows "r = Inr ()" "status_written (oe_now (re_ops env)) names ctx j (rdb x) (rdb x')" "\<exists>t v. j' = j\<lparr>updated := t, version := v\<rparr>"
    "x' = x\<lparr>ry_sched := ry_sched x'\<rparr>"
proof -
  let ?t = "oe_now (re_ops env)"
  obtain ra j1 d1 where sd: "save_direct ?t names (j, rdb x) = (ra, j1, d1)" by (metis prod_cases3)
  note s = save_direct_db [OF assms(1) sd]
  have ra: "ra = Inr ()" using s(2) assms(2) by simp
  then have st: "r = Inr ()" "j' = j1" "rdb x' = snd (add_status_event ?t (job_id j1) SCHEDULER ctx (status j1) d1)" "x' = x\<lparr>ry_sched := ry_sched x'\<rparr>"
    using assms(3) sd by (auto simp: save_status_def on_ray_db_def on_db_def on_world_def ray_event_def)
  show "r = Inr ()" "x' = x\<lparr>ry_sched := ry_sched x'\<rparr>" using st by simp_all
  show "\<exists>t v. j' = j\<lparr>updated := t, version := v\<rparr>" using s(3) st by blast
  have "job_id j1 = job_id j" "status j1 = status j" using s(3) by auto
  then show "status_written ?t names ctx j (rdb x) (rdb x')"
    unfolding status_written_def using s(1) s(4) [OF assms(2)] assms(2) st by auto
qed

lemma status_written_steps:
  assumes "status_written t names ctx j d d'" "present j d" "runner j = RAY"
  shows "life_steps d d'"
proof -
  obtain row d1 ru j2 where w: "job_row d (job_id j) = Some row" "update_fields t (map (\<lambda>n. getattr n j) names) (j, d) = (ru, j2, d1)"
    "d' = snd (add_status_event t (job_id j) SCHEDULER ctx (status j) d1)" using assms(1) by (auto simp: status_written_def)
  have ray: "runner row = RAY" using assms(2,3) w(1) by (auto simp: present_def same_identity_def)
  have 1: "life_step d d1" using step_ray [OF w(1) ray w(2)] by simp
  obtain row1 where "job_row d1 (job_id j) = Some row1" "runner row1 = RAY"
    using life_step_row [OF 1 w(1)] ray by (auto simp: same_identity_def)
  then have "life_step d1 d'" unfolding w(3) add_status_event_def Let_def snd_conv by (intro step_ray_event) auto
  then show ?thesis using 1 by simp
qed

section \<open>What one update writes\<close>

abbreviation update_names :: "field_name list" where
  "update_names \<equiv> [N_status, N_sub_status, N_env_vars]"

text \<open>The status and its event are written together, or nothing is: the instance written is \<open>k\<close>.\<close>

definition update_outcome :: "ray_env \<Rightarrow> job \<Rightarrow> ray_state \<Rightarrow> bool res \<times> job \<times> ray_state \<Rightarrow> bool" where
  "update_outcome env j x = (\<lambda>(r, j', x').
     if r = Inr True
     then \<exists>k. same_identity k j \<and> status k \<noteq> status j \<and> status j' = status k \<and>
            status_written (oe_now (re_ops env)) update_names UPDATE_JOB_STATUS k (rdb x) (rdb x') \<and>
            (in_terminal_state k \<longrightarrow> env_vars k = ''{}'' \<and> (isl (re_status env j) \<or> (\<exists>c. (job_id j, True, c) \<in> set (ry_logs x'))))
     else rdb x' = rdb x)"

lemma save_logs_db: "save_logs_to_storage env logs j x = (r, x') \<Longrightarrow> rdb x' = rdb x"
  by (auto simp: save_logs_to_storage_def Let_def split: sum.splits option.splits)

lemma save_logs_public:
  "save_logs_to_storage env logs j x = (Inr u, x') \<Longrightarrow> \<exists>c. (job_id j, True, c) \<in> set (ry_logs x')"
  by (auto simp: save_logs_to_storage_def Let_def split: sum.splits option.splits if_splits)

lemma fail_job_db: "fail_job_insufficient_resources env (j, x) = (r, j', x') \<Longrightarrow>
    rdb x' = rdb x \<and> (\<exists>c. j' = j\<lparr>job_compute_resource := c\<rparr>) \<and> (\<forall>s. r = Inr s \<longrightarrow> s = FAILED)"
proof -
  have "\<exists>c. j = j\<lparr>job_compute_resource := c\<rparr>" by (metis job.surjective job.update_convs(17))
  then show "fail_job_insufficient_resources env (j, x) = (r, j', x') \<Longrightarrow> ?thesis"
    by (auto simp: fail_job_insufficient_resources_def Let_def split: if_splits prod.splits sum.splits)
qed

lemma finish_update_outcome:
  assumes "job_row (rdb x) (job_id j) = Some row" "same_identity k j" "changed \<Longrightarrow> st \<noteq> Some (status j)"
    and "is_terminal st \<Longrightarrow> changed \<Longrightarrow> env_vars k = ''{}'' \<and> (isl (re_status env j) \<or> (\<exists>c. (job_id j, True, c) \<in> set (ry_logs x)))"
  shows "update_outcome env j x (finish_update env st changed (k, x))"
proof (cases "changed \<and> st \<noteq> None")
  case True
  then obtain s where s: "st = Some s" by blast
  let ?k = "k\<lparr>status := s\<rparr>"
  have row: "job_row (rdb x) (job_id ?k) = Some row" using assms(1,2) by (simp add: same_identity_def)
  obtain r j1 x1 where sv: "save_status env update_names UPDATE_JOB_STATUS (?k, x) = (r, j1, x1)" by (metis prod_cases3)
  have nu: "N_updated \<notin> set update_names" by simp
  note w = save_status_written [OF nu row sv]
  have "status j1 = s" "ry_logs x1 = ry_logs x" using w(3,4) by (auto, metis ray_state.select_convs(4) ray_state.surjective ray_state.update_convs(1))
  then show ?thesis using True s sv w assms(2-4)
    by (auto simp: finish_update_def update_outcome_def in_terminal_state_def is_terminal_def intro!: exI [of _ ?k])
qed (auto simp: finish_update_def update_outcome_def)

lemma update_outcome_frame: "rdb x1 = rdb x \<Longrightarrow> update_outcome env j x1 res \<Longrightarrow> update_outcome env j x res"
  by (auto simp: update_outcome_def split: prod.splits if_splits)

lemma check_resources_outcome:
  assumes "job_row (rdb x) (job_id j) = Some row" "same_identity k j" "changed \<Longrightarrow> st \<noteq> Some (status j)"
    and "is_terminal st \<Longrightarrow> changed \<Longrightarrow> env_vars k = ''{}'' \<and> (isl (re_status env j) \<or> (\<exists>c. (job_id j, True, c) \<in> set (ry_logs x)))"
    and "\<not> in_terminal_state j"
  shows "update_outcome env j x (check_resources env lines st changed (k, x))"
proof (cases "lacks_resources lines")
  case True
  obtain r j1 x1 where f: "fail_job_insufficient_resources env (k, x) = (r, j1, x1)" by (metis prod_cases3)
  note fj = fail_job_db [OF f]
  show ?thesis
  proof (cases r)
    case (Inr s)
    obtain r2 x2 where sl: "save_logs_to_storage env (insufficient_logs env) j1 x1 = (r2, x2)" by fastforce
    have d2: "rdb x2 = rdb x" using save_logs_db [OF sl] fj by simp
    show ?thesis
    proof (cases r2)
      case r2: (Inr u)
      have "s = FAILED" using fj Inr by simp
      then have "Some s \<noteq> Some (status j)" using assms(5) by (auto simp: in_terminal_state_def TERMINAL_STATUSES_def)
      moreover have "same_identity (j1\<lparr>env_vars := ''{}''\<rparr>) j" "job_id j1 = job_id j" using fj assms(2) by (auto simp: same_identity_def)
      ultimately have "update_outcome env j x2 (finish_update env (Some s) True (j1\<lparr>env_vars := ''{}''\<rparr>, x2))"
        using assms(1) d2 save_logs_public [OF sl [unfolded r2]] \<open>job_id j1 = job_id j\<close> by (intro finish_update_outcome) auto
      then show ?thesis using update_outcome_frame [OF d2] True f Inr sl r2 by (simp add: check_resources_def)
    qed (use True f Inr sl d2 in \<open>simp add: check_resources_def update_outcome_def\<close>)
  qed (use True f fj in \<open>simp add: check_resources_def update_outcome_def\<close>)
qed (use finish_update_outcome [OF assms(1-4)] in \<open>simp add: check_resources_def\<close>)

lemma ray_update_outcome:
  assumes "job_row (rdb x) (job_id j) = Some row" "\<not> in_terminal_state j"
  shows "update_outcome env j x (ray_update_job_status env (j, x))"
proof (cases "job_compute_resource j")
  case (Some c)
  show ?thesis
  proof (cases "re_status env j")
    case (Inl e)
    have "same_identity (j\<lparr>sub_status := None, env_vars := ''{}''\<rparr>) j" by (simp add: same_identity_def)
    moreover have "Some FAILED \<noteq> Some (status j)" using assms(2) by (auto simp: in_terminal_state_def TERMINAL_STATUSES_def)
    ultimately have "update_outcome env j x (finish_update env (Some FAILED) True (j\<lparr>sub_status := None, env_vars := ''{}''\<rparr>, x))"
      using assms(1) Inl by (intro finish_update_outcome) auto
    then show ?thesis using Some Inl by (simp add: ray_update_job_status_def update_outcome_def)
  next
    case (Inr st)
    define new where "new = ray_new_status env j x st"
    show ?thesis
    proof (cases "new \<noteq> Some (status j) \<and> is_terminal new")
      case True
      let ?j = "j\<lparr>status := the new, sub_status := None, env_vars := ''{}''\<rparr>"
      have same: "same_identity ?j j" by (simp add: same_identity_def)
      show ?thesis
      proof (cases "logs_or_error env ?j")
        case lines: (Inr lines)
        obtain r1 x1 where sl: "save_logs_to_storage env lines ?j x = (r1, x1)" by fastforce
        define x2 where "x2 = (if new = Some SUCCEEDED then x1\<lparr>ry_sched := record_execution_duration (re_ops env) ?j (ry_sched x1)\<rparr> else x1)"
        have d2: "rdb x2 = rdb x" using save_logs_db [OF sl] by (simp add: x2_def)
        show ?thesis
        proof (cases r1)
          case r1: (Inr u)
          have "\<exists>c. (job_id j, True, c) \<in> set (ry_logs x2)" using save_logs_public [OF sl [unfolded r1]] by (simp add: x2_def)
          then have "update_outcome env j x2 (check_resources env lines new True (?j, x2))"
            using assms True same d2 by (intro check_resources_outcome) auto
          from update_outcome_frame [OF d2 this] show ?thesis using Some Inr True lines sl r1
            by (simp add: ray_update_job_status_def new_def [symmetric] x2_def Let_def)
        next
          case (Inl e)
          then show ?thesis using Some Inr True lines sl save_logs_db [OF sl]
            by (simp add: ray_update_job_status_def new_def [symmetric] update_outcome_def)
        qed
      qed (use Some Inr True in \<open>simp add: ray_update_job_status_def new_def [symmetric] update_outcome_def\<close>)
    next
      case False
      have "update_outcome env j x (finish_update env new (new \<noteq> Some (status j)) (j, x))"
        using assms(1) False by (intro finish_update_outcome) auto
      moreover have "update_outcome env j x (check_resources env lines new (new \<noteq> Some (status j)) (j, x))" for lines
        using assms False by (intro check_resources_outcome) auto
      moreover have "update_outcome env j x (Inl e, j, x)" for e by (simp add: update_outcome_def)
      ultimately show ?thesis using Some Inr False
        by (cases "is_terminal new"; cases "logs_or_error env j") (simp_all add: ray_update_job_status_def new_def [symmetric])
    qed
  qed
qed (simp add: ray_update_job_status_def update_outcome_def)

lemma status_written_facts:
  assumes "status_written t names ctx k d d'"
  shows "event_tbl d' = event_tbl d @ [\<lparr>je_job = job_id k, je_type = STATUS_CHANGE, je_origin = SCHEDULER, je_context = ctx, je_created = t,
      je_data = StatusData (status k)\<rparr>]" "outbox_tbl d' = outbox_tbl d" "mirror_tbl d' = mirror_tbl d" "i \<noteq> job_id k \<Longrightarrow> job_row d' i = job_row d i"
    "\<exists>row. job_row d (job_id k) = Some row \<and>
       job_row d' (job_id k) = Some ((apply_fields (map (\<lambda>n. getattr n k) names) row)\<lparr>updated := t, version := version row + 1\<rparr>)"
proof -
  obtain row d1 ru j2 where w: "job_row d (job_id k) = Some row"
    "job_row d1 (job_id k) = Some ((apply_fields (map (\<lambda>n. getattr n k) names) row)\<lparr>updated := t, version := version row + 1\<rparr>)"
    "update_fields t (map (\<lambda>n. getattr n k) names) (k, d) = (ru, j2, d1)"
    "d' = snd (add_status_event t (job_id k) SCHEDULER ctx (status k) d1)" using assms by (auto simp: status_written_def)
  note u = update_fields_tables [OF w(3)]
  show "event_tbl d' = event_tbl d @ [\<lparr>je_job = job_id k, je_type = STATUS_CHANGE, je_origin = SCHEDULER, je_context = ctx, je_created = t,
      je_data = StatusData (status k)\<rparr>]" "outbox_tbl d' = outbox_tbl d" "mirror_tbl d' = mirror_tbl d"
    using u w(4) by (simp_all add: add_status_event_def Let_def)
  show "i \<noteq> job_id k \<Longrightarrow> job_row d' i = job_row d i" using update_fields_row [OF w(3), of i] w(4) by (simp add: add_status_event_def Let_def)
  show "\<exists>row. job_row d (job_id k) = Some row \<and>
       job_row d' (job_id k) = Some ((apply_fields (map (\<lambda>n. getattr n k) names) row)\<lparr>updated := t, version := version row + 1\<rparr>)"
    using w by (auto simp: add_status_event_def Let_def)
qed

text \<open>
  reading the status of a Ray job back writes its new status and exactly one event with it, wiping the variables of a job that
  ended after its logs were stored (unless Ray could not be asked at all), or it leaves the database as it was.
\<close>

theorem ray_update_writes_once:
  assumes "ray_update_job_status env (j, x) = (r, j', x')" "job_row (rdb x) (job_id j) = Some row" "\<not> in_terminal_state j"
  shows "if r = Inr True
    then \<exists>row' s. job_row (rdb x') (job_id j) = Some row' \<and> status row' = s \<and> s \<noteq> status j \<and>
      event_tbl (rdb x') = event_tbl (rdb x) @ [\<lparr>je_job = job_id j, je_type = STATUS_CHANGE, je_origin = SCHEDULER,
        je_context = UPDATE_JOB_STATUS, je_created = oe_now (re_ops env), je_data = StatusData s\<rparr>] \<and>
      (s \<in> set TERMINAL_STATUSES \<longrightarrow> env_vars row' = ''{}'' \<and> (isl (re_status env j) \<or> (\<exists>c. (job_id j, True, c) \<in> set (ry_logs x')))) \<and>
      (\<forall>i. i \<noteq> job_id j \<longrightarrow> job_row (rdb x') i = job_row (rdb x) i) \<and> outbox_tbl (rdb x') = outbox_tbl (rdb x)
    else rdb x' = rdb x"
proof (cases "r = Inr True")
  case True
  then obtain k where k: "same_identity k j" "status k \<noteq> status j"
    "status_written (oe_now (re_ops env)) update_names UPDATE_JOB_STATUS k (rdb x) (rdb x')"
    "in_terminal_state k \<longrightarrow> env_vars k = ''{}'' \<and> (isl (re_status env j) \<or> (\<exists>c. (job_id j, True, c) \<in> set (ry_logs x')))"
    using ray_update_outcome [OF assms(2,3), of env] assms(1) by (auto simp: update_outcome_def)
  have i: "job_id k = job_id j" using k(1) by (simp add: same_identity_def)
  note w = status_written_facts [OF k(3), unfolded i]
  obtain row' where "job_row (rdb x') (job_id j) = Some row'" "status row' = status k" "env_vars row' = env_vars k"
    using w(5) by auto
  then show ?thesis using True k w by (auto simp: in_terminal_state_def)
next
  case False
  then show ?thesis using ray_update_outcome [OF assms(2,3), of env] assms(1) by (auto simp: update_outcome_def)
qed

section \<open>What one submission leaves\<close>

text \<open>Kubernetes makes clusters under names it does not have yet, and deletes those it is asked to.\<close>

definition k8s_works :: "ray_env \<Rightarrow> string list \<Rightarrow> bool" where
  "k8s_works env k8s \<longleftrightarrow> (\<forall>nm. re_kill env nm = Inr True) \<and> (\<forall>nm c. re_create env nm = Inr c \<longrightarrow> c \<notin> set k8s)"

lemma kill_created:
  "k8s_works env k8s \<Longrightarrow> re_create env nm = Inr c \<Longrightarrow> \<not> re_local env \<Longrightarrow> kill_ray_cluster env c (List.insert c k8s) = (Inr True, k8s)"
  by (auto simp: k8s_works_def kill_ray_cluster_def removeAll_id)

lemma create_k8s_cluster_cases:
  assumes "k8s_works env k8s" "\<not> re_local env" "create_k8s_cluster env j k8s = (r, k)"
  shows "(\<exists>e. r = Inl e \<and> k = k8s) \<or>
    (\<exists>nm. r = Inr nm \<and> nm = generate_resource_name (re_uuid env) (username (author j)) \<and> re_create env nm = Inr nm \<and> k = List.insert nm k8s)"
proof (cases "re_create env (generate_resource_name (re_uuid env) (username (author j)))")
  case (Inr c)
  then show ?thesis using assms(3) kill_created [OF assms(1) Inr assms(2)]
    by (auto simp: create_k8s_cluster_def after_kill_def Let_def split: if_splits)
next
  case (Inl e)
  then have "(Inl e, k8s) = (r, k)" using assms(3) unfolding create_k8s_cluster_def Let_def Inl sum.case by simp
  then show ?thesis by blast
qed

lemma ray_submit_cases:
  assumes "ray_submit env (j, x) = (r, j1, x1)" "re_local env \<or> k8s_works env (ry_k8s x)"
  shows "(r = Inl (submit_failed j) \<and> j1 = j \<and> x1 = x) \<or>
    (\<exists>nm rid. r = Inr () \<and> re_submit env nm j = Inr rid \<and> (re_local env \<or> nm \<in> set (ry_k8s x1)) \<and>
       j1 = j\<lparr>job_compute_resource := Some \<lparr>cr_id = re_new_id env (ry_clusters x), cr_title = nm, cr_active = True, cr_gpu = job_gpu j\<rparr>,
              ray_job_id := Some rid\<rparr> \<and> ry_sched x1 = ry_sched x \<and> ry_clusters x1 = ry_clusters x \<and> set (ry_k8s x1) \<subseteq> insert nm (set (ry_k8s x)))"
proof (cases "re_local env")
  case True
  then show ?thesis using assms(1) by (auto simp: ray_submit_def split: sum.splits)
next
  case False
  then have works: "k8s_works env (ry_k8s x)" using assms(2) by simp
  obtain rc k where c: "create_k8s_cluster env j (ry_k8s x) = (rc, k)" by fastforce
  from create_k8s_cluster_cases [OF works False c] show ?thesis
  proof (elim disjE exE conjE)
    fix e assume "rc = Inl e" "k = ry_k8s x"
    then show ?thesis using assms(1) c False by (auto simp: ray_submit_def)
  next
    fix nm assume "rc = Inr nm" "re_create env nm = Inr nm" "k = List.insert nm (ry_k8s x)"
    note k = this
    show ?thesis
    proof (cases "re_submit env nm j")
      case (Inl e)
      then show ?thesis using assms(1) c k False kill_created [OF works k(2) False] by (simp add: ray_submit_def) blast
    next
      case (Inr rid)
      then show ?thesis using assms(1) c k False by (intro disjI2 exI [of _ nm] exI [of _ rid]) (auto simp: ray_submit_def)
    qed
  qed
qed

abbreviation submit_names :: "field_name list" where
  "submit_names \<equiv> [N_status, N_ray_job_id, N_compute_resource, N_env_vars]"


section \<open>The tasks refine the life cycle\<close>

lemma schedule_ray_job_steps:
  assumes "schedule_ray_job env (j, x) = (r, j', x')" "present j (rdb x)" "runner j = RAY"
  shows "life_steps (rdb x) (rdb x')"
proof -
  obtain row where row: "job_row (rdb x) (job_id j) = Some row" using assms(2) by (auto simp: present_def)
  obtain r1 k y where e: "execute_ray_job env (j, x) = (r1, k, y)" by (metis prod_cases3)
  have y: "rdb y = rdb x" and k: "same_identity k j"
    using e by (auto simp: execute_ray_job_def ray_submit_def same_identity_def split: sum.splits prod.splits if_splits option.splits)
  obtain r2 j2 x2 where sv: "save_status env submit_names SCHEDULE_JOBS (k, y) = (r2, j2, x2)" by (metis prod_cases3)
  have "job_row (rdb y) (job_id k) = Some row" using row y k by (simp add: same_identity_def)
  note w = save_status_written [OF _ this sv]
  have "life_steps (rdb y) (rdb x2)"
    using status_written_steps [OF w(2)] assms(2,3) y k by (auto simp: present_def same_identity_def)
  moreover have "rdb x' = rdb x \<or> rdb x' = rdb x2"
    using assms(1) e sv y by (auto simp: schedule_ray_job_def split: sum.splits if_splits)
  ultimately show ?thesis using y by auto
qed

lemma free_job_steps: "free_job env (j, x) = (r, j', x') \<Longrightarrow> rdb x' = rdb x"
  by (auto simp: free_job_def split: sum.splits prod.splits option.splits if_splits)

text \<open>A pass over stored jobs refines the life cycle when the work on each of them does.\<close>

locale ray_pass =
  fixes work :: "ray_env \<Rightarrow> job \<times> ray_state \<Rightarrow> unit res \<times> job \<times> ray_state" and meant :: "job \<Rightarrow> bool"
  assumes work_steps: "work env (j, x) = (r, j', x') \<Longrightarrow> present j (rdb x) \<Longrightarrow> meant j \<Longrightarrow> life_steps (rdb x) (rdb x')"
begin

lemma pass_steps:
  "\<forall>j \<in> set js. present j (rdb x) \<and> meant j \<Longrightarrow> each_ray_job envs work n js x = (r, x') \<Longrightarrow> life_steps (rdb x) (rdb x')"
proof (induction js arbitrary: n x)
  case (Cons j js)
  obtain ra j1 x1 where f: "work (envs n) (j, x) = (ra, j1, x1)" by (metis prod_cases3)
  have st: "life_steps (rdb x) (rdb x1)" using work_steps [OF f] Cons.prems(1) by simp
  have pres: "\<forall>j \<in> set js. present j (rdb x1) \<and> meant j" using present_later [OF _ st, of js] Cons.prems(1) by simp
  show ?case using Cons.prems(2) f st Cons.IH [OF pres] by (auto split: if_splits sum.splits intro: rtranclp_trans)
qed simp

end

interpretation schedule_pass: ray_pass schedule_ray_job "\<lambda>j. runner j = RAY"
  by unfold_locales (rule schedule_ray_job_steps)

interpretation free_pass: ray_pass free_job "\<lambda>_. True"
  by unfold_locales (simp add: free_job_steps)

lemma fair_share_ray:
  assumes "j \<in> set (get_jobs_to_schedule_fair_share conf lim slots g RAY None d)"
  shows "j \<in> set (job_tbl d) \<and> runner j = RAY"
proof -
  have "get_jobs_to_schedule_fair_share conf lim slots g RAY None d = get_jobs_to_schedule_fair_share conf lim slots g RAY (Some lim) d"
    by (simp add: get_jobs_to_schedule_fair_share_def)
  then have "j \<in> set (map snd (offered conf slots g RAY lim d))"
    using assms unfolding fair_share_offered using py_take_subset by (metis subsetD)
  then have "j \<in> set (schedulable conf g RAY lim d)" using offered_subset by fastforce
  then show ?thesis by (simp add: schedulable_def)
qed

lemma slots_steps:
  assumes "schedule_jobs_if_slots_available lim slots g envs x = (r, x')" "distinct (map job_id (job_tbl (rdb x)))"
  shows "life_steps (rdb x) (rdb x')"
proof -
  let ?js = "\<lambda>n. get_jobs_to_schedule_fair_share (oe_conf (re_ops (envs 0))) lim n g RAY None (rdb x)"
  have "\<forall>j \<in> set (?js n). present j (rdb x) \<and> runner j = RAY" for n using fair_share_ray stored_present [OF assms(2)] by blast
  then have "each_ray_job envs schedule_ray_job 0 (?js n) x = (r, x') \<Longrightarrow> life_steps (rdb x) (rdb x')" for n
    using schedule_pass.pass_steps by blast
  then show ?thesis using assms(1) by (auto simp: schedule_jobs_if_slots_available_def Let_def split: if_splits)
qed

lemma schedule_ray_run_steps:
  assumes "schedule_ray_run lim mc mg envs x = (r, x')" "life_reach (rdb x)"
  shows "life_steps (rdb x) (rdb x')"
proof -
  have dist: "life_reach d \<Longrightarrow> distinct (map job_id (job_tbl d))" for d using life_reach_inv by (auto simp: life_inv_def rows_inv_def)
  obtain r1 x1 where s1: "schedule_jobs_if_slots_available lim mc False (envs False) x = (r1, x1)" by fastforce
  have 1: "life_steps (rdb x) (rdb x1)" using slots_steps [OF s1 dist [OF assms(2)]] .
  obtain r2 x2 where s2: "schedule_jobs_if_slots_available lim mg True (envs True) x1 = (r2, x2)" by fastforce
  have 2: "life_steps (rdb x1) (rdb x2)" using slots_steps [OF s2 dist] life_steps_reach [OF 1 assms(2)] by simp
  show ?thesis using assms(1) s1 s2 1 2 by (auto simp: schedule_ray_run_def split: if_splits sum.splits intro: rtranclp_trans)
qed

lemma ray_update_steps:
  assumes "ray_update_job_status env (j, x) = (r, j', x')" "present j (rdb x)" "runner j = RAY" "\<not> in_terminal_state j"
  shows "life_steps (rdb x) (rdb x')"
proof -
  obtain row where row: "job_row (rdb x) (job_id j) = Some row" "same_identity j row" using assms(2) by (auto simp: present_def)
  from ray_update_outcome [OF row(1) assms(4), of env] show ?thesis
    using assms(1,3) status_written_steps [of _ _ _ _ "rdb x" "rdb x'"] row
    by (auto simp: update_outcome_def present_def same_identity_def split: if_splits)
qed

lemma ray_update_loop_steps:
  "\<forall>j \<in> set js. present j (rdb x) \<and> runner j = RAY \<and> \<not> in_terminal_state j \<Longrightarrow> ray_update_loop envs en n js x = (r, x') \<Longrightarrow>
    life_steps (rdb x) (rdb x')"
proof (induction js arbitrary: n x)
  case (Cons j js)
  obtain ra j1 x1 where f: "ray_update_job_status (envs n) (j, x) = (ra, j1, x1)" by (metis prod_cases3)
  have st: "life_steps (rdb x) (rdb x1)" using ray_update_steps [OF f] Cons.prems(1) by simp
  have pres: "\<forall>j \<in> set js. present j (rdb x1) \<and> runner j = RAY \<and> \<not> in_terminal_state j"
    using present_later [OF _ st, of js] Cons.prems(1) by simp
  have pres0: "\<forall>j \<in> set js. present j (rdb x) \<and> runner j = RAY \<and> \<not> in_terminal_state j" using Cons.prems(1) by simp
  show ?case using Cons.prems(2) f st Cons.IH [OF pres] Cons.IH [OF pres0]
    by (auto split: if_splits sum.splits intro: rtranclp_trans)
qed simp

lemma update_ray_run_steps:
  assumes "update_ray_run mc mg envs x = (r, x')" "distinct (map job_id (job_tbl (rdb x)))"
  shows "life_steps (rdb x) (rdb x')"
proof -
  have "\<forall>j \<in> set (ray_jobs_to_update x). present j (rdb x) \<and> runner j = RAY \<and> \<not> in_terminal_state j"
  proof
    fix j assume "j \<in> set (ray_jobs_to_update x)"
    then obtain i where i: "i \<in> set (job_tbl (rdb x))" "status i \<in> set RUNNING_STATUSES" "runner i \<noteq> FLEETS"
      "j = i\<lparr>job_compute_resource := cluster_of x i\<rparr>" by (auto simp: ray_jobs_to_update_def)
    have "runner i = RAY" using i(3) by (cases "runner i") auto
    moreover have "status i \<notin> set TERMINAL_STATUSES" using i(2) by (auto simp: RUNNING_STATUSES_def TERMINAL_STATUSES_def)
    ultimately show "present j (rdb x) \<and> runner j = RAY \<and> \<not> in_terminal_state j"
      using stored_present [OF assms(2) i(1)] i(4) by (simp add: present_def same_identity_def in_terminal_state_def)
  qed
  then show ?thesis using ray_update_loop_steps assms(1) unfolding update_ray_run_def by blast
qed

lemma free_ray_run_steps:
  assumes "free_ray_run envs x = (r, x')" "distinct (map job_id (job_tbl (rdb x)))"
  shows "life_steps (rdb x) (rdb x')"
proof -
  have "\<forall>j \<in> set (jobs_to_free x). present j (rdb x) \<and> True"
  proof
    fix j assume "j \<in> set (jobs_to_free x)"
    then obtain i where "i \<in> set (job_tbl (rdb x))" "j = i\<lparr>job_compute_resource := cluster_of x i\<rparr>" by (auto simp: jobs_to_free_def)
    then show "present j (rdb x) \<and> True" using stored_present [OF assms(2)] by (simp add: present_def same_identity_def)
  qed
  then show ?thesis using free_pass.pass_steps assms(1) unfolding free_ray_run_def by blast
qed

section \<open>Concrete runs\<close>

text \<open>A queued and a running Ray job, and surroundings in which Kubernetes makes what it is asked for.\<close>

definition ex_ray_job :: "Status \<Rightarrow> job" where
  "ex_ray_job s = (example_job s)\<lparr>runner := RAY, env_vars := ''secret''\<rparr>"

definition ex_cluster :: compute_resource where
  "ex_cluster = \<lparr>cr_id = 1, cr_title = ''c-1'', cr_active = True, cr_gpu = False\<rparr>"

definition ex_ray_state :: "job \<Rightarrow> ray_state" where
  "ex_ray_state j = \<lparr>ry_sched = ex_sched (ex_queued\<lparr>wdb := (example_db QUEUED)\<lparr>job_tbl := [j], mirror_tbl := []\<rparr>\<rparr>), ry_clusters = [ex_cluster],
     ry_k8s = [''c-1''], ry_logs = []\<rparr>"

definition ex_ray_env :: "ray_status option \<Rightarrow> string list \<Rightarrow> ray_env" where
  "ex_ray_env answer lines = \<lparr>re_ops = ex_ops 5, re_local = False, re_uuid = ''12345678-9'', re_new_id = (\<lambda>cs. Suc (sum_list (map cr_id cs))),
     re_create = (\<lambda>nm. if nm = ''c-1'' then Inl (OtherException ''ApiException'') else Inr nm), re_ready = (\<lambda>_. True), re_kill = (\<lambda>_. Inr True),
     re_submit = (\<lambda>_ _. Inr ''raysubmit_1''), re_status = (\<lambda>_. Inr answer),
     re_logs = (\<lambda>_. Inr \<lparr>public_logs = lines, private_logs = None\<rparr>), re_store = (\<lambda>_. Inr ()), re_no_delete = False, re_limits = (''2'', ''8'')\<rparr>"

abbreviation ex_ray_running :: job where
  "ex_ray_running \<equiv> (ex_ray_job RUNNING)\<lparr>job_compute_resource := Some ex_cluster, sub_status := Some EXECUTING_QPU\<rparr>"

theorem ray_update_writes_once_witness:
  "\<exists>j' x' row'. ray_update_job_status (ex_ray_env (Some Ray_SUCCEEDED) [''done'']) (ex_ray_running, ex_ray_state ex_ray_running) = (Inr True, j', x') \<and>
     job_row (rdb x') ''j'' = Some row' \<and> env_vars row' = ''{}'' \<and> status row' = SUCCEEDED"
proof -
  let ?x = "ray_update_job_status (ex_ray_env (Some Ray_SUCCEEDED) [''done'']) (ex_ray_running, ex_ray_state ex_ray_running)"
  have ok: "fst ?x = Inr True" "status (fst (snd ?x)) = SUCCEEDED" "map status (job_tbl (rdb (snd (snd ?x)))) = [SUCCEEDED]" by code_simp+
  obtain j' x' where y: "?x = (Inr True, j', x')" using ok(1) by (metis prod.collapse)
  have "job_row (rdb (ex_ray_state ex_ray_running)) (job_id ex_ray_running) = Some ex_ray_running" "\<not> in_terminal_state ex_ray_running"
    by (code_simp, code_simp)
  from ray_update_writes_once [OF y this] obtain row' where r: "job_row (rdb x') (job_id ex_ray_running) = Some row'"
    "status row' \<in> set TERMINAL_STATUSES \<longrightarrow> env_vars row' = ''{}''" by auto
  have "row' \<in> set (job_tbl (rdb x'))" using r(1) by (simp add: job_row_def row_of_mem)
  then have "status row' \<in> set (map status (job_tbl (rdb x')))" by simp
  then have "status row' = SUCCEEDED" using ok(3) y by (auto simp: map_eq_Cons_conv)
  moreover have "job_id ex_ray_running = ''j''" by code_simp
  ultimately show ?thesis using y r by (auto simp: TERMINAL_STATUSES_def)
qed


text \<open>
  A job that Ray cannot place is failed, but in the pass that finds it still pending its sub status is kept: only the branch of a
  terminal answer clears it.
\<close>

lemma failed_for_resources_keeps_sub_status:
  "case ray_update_job_status (ex_ray_env (Some Ray_PENDING) [NO_RESOURCES_LOG]) (ex_ray_running, ex_ray_state ex_ray_running) of
     (r, _, x') \<Rightarrow> r = Inr True \<and> map (\<lambda>j. (status j, sub_status j)) (job_tbl (rdb x')) = [(FAILED, Some EXECUTING_QPU)]"
  by code_simp

text \<open>When Ray knows no status, saving the answer raises and the job is skipped, in every pass until the timeout.\<close>

lemma no_answer_raises:
  "case ray_update_job_status (ex_ray_env None []) (ex_ray_running, ex_ray_state ex_ray_running) of
     (r, _, x') \<Rightarrow> isl r \<and> rdb x' = rdb (ex_ray_state ex_ray_running)"
  by code_simp

end
