(* ===== verification/Json_Documents.thy ===== *)
theory Json_Documents
  imports Complex_Main "HOL-Library.FSet" Prelude
begin

text \<open>
  JSON documents and the walks over them of \<^verbatim>\<open>api/domain/arguments_schema.py\<close>: the limits on depth and on subschemas, which the
  gateway computes with an explicit stack, and the single-pass replacement of \<open>uniqueItems\<close>. Each is proved equal to
  a plain recursive or pairwise definition.
\<close>

section \<open>Documents\<close>

text \<open>
  What \<open>json.loads\<close> gives: a finite float is its rational value, an object is a dict in insertion order.
\<close>

datatype fl = Finite rat | Pos_inf | Neg_inf | Not_a_number

datatype json = JNull | JBool bool | JInt int | JFloat fl | JStr string | JList "json list" | JObj "(string \<times> json) list"

lemma weight_obj [termination_simp]: "kv \<in> set kvs \<Longrightarrow> size (snd kv) < Suc (size_list (size_prod (\<lambda>_. 0) size) kvs)"
  by (induction kvs) (auto simp: less_Suc_eq_le)

fun weight :: "json \<Rightarrow> nat" where
  "weight (JList xs) = Suc (sum_list (map weight xs))"
| "weight (JObj kvs) = Suc (sum_list (map (\<lambda>kv. weight (snd kv)) kvs))"
| "weight _ = 1"

fun wf_json :: "json \<Rightarrow> bool" where
  "wf_json (JList xs) \<longleftrightarrow> list_all wf_json xs"
| "wf_json (JObj kvs) \<longleftrightarrow> distinct (map fst kvs) \<and> list_all (\<lambda>kv. wf_json (snd kv)) kvs"
| "wf_json _ \<longleftrightarrow> True"

text \<open>Python's truth of a document.\<close>

definition json_truthy :: "json \<Rightarrow> bool" where
  "json_truthy v = (case v of JNull \<Rightarrow> False | JBool b \<Rightarrow> b | JInt n \<Rightarrow> n \<noteq> 0 | JFloat f \<Rightarrow> f \<noteq> Finite 0 | JStr s \<Rightarrow> s \<noteq> []
     | JList xs \<Rightarrow> xs \<noteq> [] | JObj kvs \<Rightarrow> kvs \<noteq> [])"

section \<open>The limits on depth and on subschemas\<close>

definition MAX_DOCUMENT_DEPTH :: nat where "MAX_DOCUMENT_DEPTH = 64"

definition MAX_SCHEMA_NODES :: nat where "MAX_SCHEMA_NODES = 200"

text \<open>The head of the list is the top of the stack, so extending it with a sequence puts the last element in front.\<close>

function depth_loop :: "(json \<times> nat) list \<Rightarrow> bool" where
  "depth_loop [] = False"
| "depth_loop ((v, d) # st) =
     (if d > MAX_DOCUMENT_DEPTH then True
      else (case v of
              JObj kvs \<Rightarrow> depth_loop (rev (map (\<lambda>kv. (snd kv, Suc d)) kvs) @ st)
            | JList xs \<Rightarrow> depth_loop (rev (map (\<lambda>x. (x, Suc d)) xs) @ st)
            | _ \<Rightarrow> depth_loop st))"
  by pat_completeness auto

lemma weight_pos [simp]: "0 < weight v"
  by (cases v) auto

termination depth_loop
  by (relation "measure (\<lambda>st. sum_list (map (weight \<circ> fst) st))") (auto simp: rev_map [symmetric] comp_def sum_list_rev)

definition exceeds_max_depth :: "json \<Rightarrow> bool" where
  "exceeds_max_depth v = depth_loop [(v, 0)]"

function nodes_loop :: "nat \<Rightarrow> json list \<Rightarrow> bool" where
  "nodes_loop seen [] = False"
| "nodes_loop seen (v # st) =
     (case v of
        JObj kvs \<Rightarrow> if Suc seen > MAX_SCHEMA_NODES then True else nodes_loop (Suc seen) (rev (map snd kvs) @ st)
      | JBool _ \<Rightarrow> if Suc seen > MAX_SCHEMA_NODES then True else nodes_loop (Suc seen) st
      | JList xs \<Rightarrow> nodes_loop seen (rev xs @ st)
      | _ \<Rightarrow> nodes_loop seen st)"
  by pat_completeness auto

termination nodes_loop
  by (relation "measure (\<lambda>(_, st). sum_list (map weight st))") (auto simp: rev_map [symmetric] comp_def sum_list_rev)

definition exceeds_max_nodes :: "json \<Rightarrow> bool" where
  "exceeds_max_nodes v = nodes_loop 0 [v]"

text \<open>The levels below a value, and the objects and booleans in it.\<close>

fun depth :: "json \<Rightarrow> nat" where
  "depth (JList xs) = foldr max (map (\<lambda>x. Suc (depth x)) xs) 0"
| "depth (JObj kvs) = foldr max (map (\<lambda>kv. Suc (depth (snd kv))) kvs) 0"
| "depth _ = 0"

fun nodes :: "json \<Rightarrow> nat" where
  "nodes (JList xs) = sum_list (map nodes xs)"
| "nodes (JObj kvs) = Suc (sum_list (map (\<lambda>kv. nodes (snd kv)) kvs))"
| "nodes (JBool _) = 1"
| "nodes _ = 0"

lemma less_foldr_max: "(n :: nat) < foldr max ns 0 \<longleftrightarrow> (\<exists>m \<in> set ns. n < m)"
  by (induction ns) (auto simp: less_max_iff_disj)

lemma depth_loop_exact: "depth_loop st \<longleftrightarrow> (\<exists>(v, d) \<in> set st. MAX_DOCUMENT_DEPTH < d + depth v)"
proof (induction st rule: depth_loop.induct)
  case (2 v d st)
  show ?case
  proof (cases "d > MAX_DOCUMENT_DEPTH")
    case False
    have deep: "MAX_DOCUMENT_DEPTH < d + foldr max (map f ys) 0 \<longleftrightarrow> (\<exists>y \<in> set ys. MAX_DOCUMENT_DEPTH < d + f y)" for f and ys :: "'b list"
      using False less_foldr_max [of "MAX_DOCUMENT_DEPTH - d" "map f ys"] by (auto simp: less_diff_conv2 add.commute)
    show ?thesis
      using False 2 by (cases v) (simp_all add: deep bex_Un image_iff bex_simps(5))
  qed auto
qed simp

lemma nodes_loop_exact: "seen \<le> MAX_SCHEMA_NODES \<Longrightarrow> nodes_loop seen st \<longleftrightarrow> MAX_SCHEMA_NODES < seen + sum_list (map nodes st)"
proof (induction seen st rule: nodes_loop.induct)
  case (2 seen v st)
  show ?case
    using 2 by (cases v) (auto simp: rev_map [symmetric] comp_def sum_list_rev)
qed simp

lemma limits_exact: "exceeds_max_depth v \<longleftrightarrow> 64 < depth v" "exceeds_max_nodes v \<longleftrightarrow> 200 < nodes v"
  using depth_loop_exact [of "[(v, 0)]"] nodes_loop_exact [of 0 "[v]"]
  by (simp_all add: exceeds_max_depth_def exceeds_max_nodes_def MAX_DOCUMENT_DEPTH_def MAX_SCHEMA_NODES_def)

text \<open>
  The limits on a document are exact. The walk with an explicit stack ends on every document and answers that it is too
  deep exactly when more than 64 levels lie below its root, and that it has too many subschemas exactly when it holds more
  than 200 objects and booleans, at whatever depth.
\<close>

theorem schema_limits_exact:
  "(exceeds_max_depth v \<longleftrightarrow> 64 < depth v) \<and> (exceeds_max_nodes v \<longleftrightarrow> 200 < nodes v)"
  by (simp add: limits_exact)

section \<open>Unique items\<close>

datatype num_key = N_int int | N_float fl

datatype ckey = K_boolean bool | K_number num_key | K_string string | K_array "ckey list" | K_object "(string \<times> ckey) fset" | K_other string

definition is_integer :: "fl \<Rightarrow> bool" where
  "is_integer f = (case f of Finite q \<Rightarrow> q = of_int \<lfloor>q\<rfloor> | _ \<Rightarrow> False)"

definition int_of_float :: "fl \<Rightarrow> int" where
  "int_of_float f = (case f of Finite q \<Rightarrow> \<lfloor>q\<rfloor> | _ \<Rightarrow> 0)"

fun comparison_key :: "json \<Rightarrow> ckey" where
  "comparison_key (JBool b) = K_boolean b"
| "comparison_key (JInt n) = K_number (N_int n)"
| "comparison_key (JFloat f) = K_number (if is_integer f then N_int (int_of_float f) else N_float f)"
| "comparison_key (JStr s) = K_string s"
| "comparison_key (JList xs) = K_array (map comparison_key xs)"
| "comparison_key (JObj kvs) = K_object (fset_of_list (map (\<lambda>kv. (fst kv, comparison_key (snd kv))) kvs))"
| "comparison_key JNull = K_other ''None''"

fun has_repeat :: "ckey list \<Rightarrow> json list \<Rightarrow> bool" where
  "has_repeat seen [] = False"
| "has_repeat seen (x # xs) = (if comparison_key x \<in> set seen then True else has_repeat (comparison_key x # seen) xs)"

text \<open>True when the keyword yields its one validation error.\<close>

definition unique_items :: "json \<Rightarrow> json \<Rightarrow> bool" where
  "unique_items uniq inst = (json_truthy uniq \<and> (case inst of JList xs \<Rightarrow> has_repeat [] xs | _ \<Rightarrow> False))"

text \<open>
  JSON Schema's equality: numbers by their value, booleans apart from numbers, arrays item by item, objects by their members.
\<close>

lemma zip_size [termination_simp]: "(x, y) \<in> set (zip xs ys) \<Longrightarrow> size x < Suc (size_list size xs)"
  by (auto dest!: set_zip_leftD simp: less_Suc_eq_le intro: size_list_estimation')

fun json_equal :: "json \<Rightarrow> json \<Rightarrow> bool" where
  "json_equal JNull w \<longleftrightarrow> w = JNull"
| "json_equal (JBool b) w \<longleftrightarrow> w = JBool b"
| "json_equal (JInt n) w \<longleftrightarrow> w = JInt n \<or> w = JFloat (Finite (of_int n))"
| "json_equal (JFloat f) w \<longleftrightarrow> (case w of JFloat g \<Rightarrow> f = g | JInt n \<Rightarrow> f = Finite (of_int n) | _ \<Rightarrow> False)"
| "json_equal (JStr s) w \<longleftrightarrow> w = JStr s"
| "json_equal (JList xs) w \<longleftrightarrow>
     (case w of JList ys \<Rightarrow> length xs = length ys \<and> list_all (\<lambda>(x, y). json_equal x y) (zip xs ys) | _ \<Rightarrow> False)"
| "json_equal (JObj kvs) w \<longleftrightarrow>
     (case w of
        JObj ws \<Rightarrow> length kvs = length ws \<and>
          list_all (\<lambda>kv. case map_of ws (fst kv) of None \<Rightarrow> False | Some x \<Rightarrow> json_equal (snd kv) x) kvs
      | _ \<Rightarrow> False)"

lemma integral_float: "is_integer f \<longleftrightarrow> (\<exists>n. f = Finite (of_int n))"
  by (cases f) (auto simp: is_integer_def)

lemma int_of_float_of_int [simp]: "int_of_float (Finite (of_int n)) = n"
  by (simp add: int_of_float_def)

lemma member_lists_equal:
  assumes "distinct (map fst as)" "distinct (map fst bs)"
  shows "map_prod id f ` set as = map_prod id f ` set bs \<longleftrightarrow>
    length as = length bs \<and> (\<forall>a \<in> set as. \<exists>x. map_of bs (fst a) = Some x \<and> f (snd a) = f x)"
proof -
  have card: "card (map_prod id f ` set cs) = length cs" if "distinct (map fst cs)" for cs
  proof -
    have "inj_on (map_prod id f) (set cs)" using that by (auto simp: inj_on_def dest: eq_key_imp_eq_value)
    then show ?thesis using that by (simp add: card_image distinct_card distinct_map)
  qed
  have mem: "map_prod id f a \<in> map_prod id f ` set bs \<longleftrightarrow> (\<exists>x. map_of bs (fst a) = Some x \<and> f (snd a) = f x)" for a
    using assms(2) by (cases a) (auto simp: image_iff map_prod_def split: prod.splits)
  have sub: "map_prod id f ` set as \<subseteq> map_prod id f ` set bs \<longleftrightarrow> (\<forall>a \<in> set as. \<exists>x. map_of bs (fst a) = Some x \<and> f (snd a) = f x)"
    by (simp add: image_subset_iff mem)
  show ?thesis
    unfolding sub [symmetric] using card [OF assms(1)] card [OF assms(2)]
    by (metis List.finite_set card_subset_eq finite_imageI subset_refl)
qed

lemma scalar_keys [simp]:
  "K_other ''None'' = comparison_key w \<longleftrightarrow> w = JNull"
  "K_boolean b = comparison_key w \<longleftrightarrow> w = JBool b"
  "K_string s = comparison_key w \<longleftrightarrow> w = JStr s"
  "K_number (N_int n) = comparison_key w \<longleftrightarrow> w = JInt n \<or> w = JFloat (Finite (of_int n))"
  by (cases w; auto simp: integral_float)+

lemma comparison_key_exact:
  assumes "wf_json a" "wf_json b"
  shows "comparison_key a = comparison_key b \<longleftrightarrow> json_equal a b"
  using assms
proof (induction a b rule: json_equal.induct)
  case (6 xs w)
  show ?case
  proof (cases w)
    case (JList ys)
    have "comparison_key x = comparison_key y \<longleftrightarrow> json_equal x y" if "(x, y) \<in> set (zip xs ys)" for x y
      using 6(1) [OF JList that refl] 6(2,3) JList set_zip_leftD [OF that] set_zip_rightD [OF that] by (simp add: list_all_iff)
    then have "length xs = length ys \<Longrightarrow> i < length ys \<Longrightarrow> comparison_key (xs ! i) = comparison_key (ys ! i) \<longleftrightarrow> json_equal (xs ! i) (ys ! i)" for i
      by (auto simp: set_zip)
    then show ?thesis
      using JList by (auto simp: list_eq_iff_nth_eq list_all_length)
  qed auto
next
  case (7 kvs w)
  show ?case
  proof (cases w)
    case (JObj ws)
    have d: "distinct (map fst kvs)" "distinct (map fst ws)" using 7(2,3) JObj by simp_all
    have eq: "comparison_key (snd kv) = comparison_key x \<longleftrightarrow> json_equal (snd kv) x"
      if "kv \<in> set kvs" "map_of ws (fst kv) = Some x" for kv x
      using 7(1) [OF JObj that] 7(2,3) JObj that(1) map_of_SomeD [OF that(2)] by (auto simp: list_all_iff)
    have "comparison_key (JObj kvs) = comparison_key w \<longleftrightarrow> map_prod id comparison_key ` set kvs = map_prod id comparison_key ` set ws"
      by (simp add: JObj fset_of_list.rep_eq map_prod_def case_prod_beta' flip: fset_inject)
    also have "\<dots> \<longleftrightarrow> json_equal (JObj kvs) w"
      unfolding member_lists_equal [OF d] using eq by (auto simp: JObj list_all_iff split: option.splits)
    finally show ?thesis .
  qed auto
qed (auto simp: integral_float split: json.splits)

lemma has_repeat_iff: "has_repeat seen xs \<longleftrightarrow> \<not> distinct (map comparison_key xs) \<or> set seen \<inter> comparison_key ` set xs \<noteq> {}"
  by (induction seen xs rule: has_repeat.induct) auto

text \<open>
  The single-pass \<open>uniqueItems\<close> is exact. It reports an array exactly when two of its items, at different places, are equal in the
  sense of JSON Schema: as comparing every pair would. An integer and the float of the same value are equal, true and 1 are
  not, and objects are compared whatever the order of their members.
\<close>

theorem unique_items_exact:
  assumes "wf_json inst"
  shows "unique_items uniq inst \<longleftrightarrow>
    json_truthy uniq \<and> (\<exists>xs i k. inst = JList xs \<and> i < k \<and> k < length xs \<and> json_equal (xs ! i) (xs ! k))"
proof (cases inst)
  case (JList xs)
  have "has_repeat [] xs \<longleftrightarrow> (\<exists>i k. i < k \<and> k < length xs \<and> comparison_key (xs ! i) = comparison_key (xs ! k))"
    (is "_ \<longleftrightarrow> ?pair")
  proof
    assume "has_repeat [] xs"
    then obtain i k where "i < length xs" "k < length xs" "i \<noteq> k" "comparison_key (xs ! i) = comparison_key (xs ! k)"
      by (auto simp: has_repeat_iff distinct_conv_nth)
    then show ?pair by (metis linorder_neqE_nat)
  next
    assume ?pair
    then obtain i k where "i < k" "k < length xs" "comparison_key (xs ! i) = comparison_key (xs ! k)" by blast
    then have "\<not> distinct (map comparison_key xs)" unfolding distinct_conv_nth
      by (metis length_map nth_map order.strict_trans order.strict_implies_not_eq)
    then show "has_repeat [] xs" by (simp add: has_repeat_iff)
  qed
  also have "\<dots> \<longleftrightarrow> (\<exists>i k. i < k \<and> k < length xs \<and> json_equal (xs ! i) (xs ! k))"
    using assms JList by (simp add: list_all_length comparison_key_exact cong: conj_cong)
  finally show ?thesis by (simp add: unique_items_def JList)
qed (simp_all add: unique_items_def)

theorem unique_items_exact_witness:
  "unique_items (JBool True) (JList [JObj [(''a'', JInt 1), (''b'', JNull)], JBool True, JObj [(''b'', JNull), (''a'', JFloat (Finite 1))]]) \<and>
   \<not> unique_items (JBool True) (JList [JInt 1, JBool True])"
proof -
  let ?x = "JList [JObj [(''a'', JInt 1), (''b'', JNull)], JBool True, JObj [(''b'', JNull), (''a'', JFloat (Finite 1))]]"
  let ?y = "JList [JInt 1, JBool True]"
  have wf: "wf_json ?x" "wf_json ?y" by simp_all
  have "\<exists>xs i k. ?x = JList xs \<and> i < k \<and> k < length xs \<and> json_equal (xs ! i) (xs ! k)"
    by (intro exI conjI, rule refl) (auto intro: exI [of _ 0])
  then have "unique_items (JBool True) ?x" using unique_items_exact [OF wf(1)] by (simp add: json_truthy_def)
  moreover have "\<not> unique_items (JBool True) ?y"
    unfolding unique_items_exact [OF wf(2)] by (auto simp: less_Suc_eq)
  ultimately show ?thesis by blast
qed

end
