(* ===== verification/Blocked_Events.thy ===== *)
theory Blocked_Events
  imports Json_Documents Python_Text Models Job_Lifecycle "HOL-Library.AList"
begin

text \<open>
  The events that keep the blocked set up to date: \<open>KafkaRegionalConsumer\<close>
  (\<^verbatim>\<open>core/ibm_cloud/event_streams/kafka_consumer.py\<close>), the service that applies one event
  (\<^verbatim>\<open>core/services/blocked_account_events.py\<close>) and the task that drains the regions
  (\<^verbatim>\<open>scheduler/tasks/consume_blocked_account_events.py\<close>). What the Kafka library answers is a parameter; what it is
  told is a log of commands.
\<close>

section \<open>Applying one event\<close>

fun json_type_name :: "json \<Rightarrow> string" where
  "json_type_name JNull = ''NoneType''"
| "json_type_name (JBool _) = ''bool''"
| "json_type_name (JInt _) = ''int''"
| "json_type_name (JFloat _) = ''float''"
| "json_type_name (JStr _) = ''str''"
| "json_type_name (JList _) = ''list''"
| "json_type_name (JObj _) = ''dict''"

definition key_suffix :: "string option \<Rightarrow> string" where
  "key_suffix k = '' (key='' @ (case k of None \<Rightarrow> ''None'' | Some s \<Rightarrow> s) @ '')''"

definition ACCOUNT_PLAN_SUBSCRIPTION_FIELDS :: "(string \<times> string) list" where
  "ACCOUNT_PLAN_SUBSCRIPTION_FIELDS = [(''account'', ''account_id''), (''plan'', ''plan_id''), (''subscription'', ''subscription_id'')]"

text \<open>The length of the three columns of the table.\<close>

definition BLOCKED_MAX_LENGTH :: nat where
  "BLOCKED_MAX_LENGTH = 255"

definition event_value :: "string \<Rightarrow> json option \<Rightarrow> json option" where
  "event_value column v =
     (case v of
        Some (JStr s) \<Rightarrow> Some (JStr (if column = ''account'' then removeprefix ACCOUNT_PREFIX s else s))
      | _ \<Rightarrow> v)"

fun parse_fields ::
  "(string \<times> json) list \<Rightarrow> string option \<Rightarrow> (string \<times> string) list \<Rightarrow> string list \<times> string list \<Rightarrow> (string list \<times> string list) res" where
  "parse_fields payload k [] (event, missing) = Inr (event, missing)"
| "parse_fields payload k ((column, event_field) # rest) (event, missing) =
     (case event_value column (map_of payload event_field) of
        None \<Rightarrow> parse_fields payload k rest (event, missing @ [event_field])
      | Some JNull \<Rightarrow> parse_fields payload k rest (event, missing @ [event_field])
      | Some (JStr []) \<Rightarrow> parse_fields payload k rest (event, missing @ [event_field])
      | Some (JStr s) \<Rightarrow>
          if length s > BLOCKED_MAX_LENGTH
          then Inl (InvalidEventError (event_field @ '' is longer than '' @ nat_text BLOCKED_MAX_LENGTH @ '' characters'' @ key_suffix k))
          else parse_fields payload k rest (event @ [s], missing)
      | Some v \<Rightarrow> Inl (InvalidEventError (event_field @ '' is a '' @ json_type_name v @ '', not a string'' @ key_suffix k)))"

text \<open>The account, plan, subscription and \<open>deleted\<close> of an event.\<close>

definition parse_event :: "(string \<times> json) list \<Rightarrow> string option \<Rightarrow> (string list \<times> bool) res" where
  "parse_event payload k =
     (case parse_fields payload k ACCOUNT_PLAN_SUBSCRIPTION_FIELDS ([], []) of
        Inl e \<Rightarrow> Inl e
      | Inr (event, missing) \<Rightarrow>
          if missing \<noteq> [] then Inl (InvalidEventError (''event is missing '' @ join_with '', '' missing @ key_suffix k))
          else
            (case map_of payload ''deleted'' of
               None \<Rightarrow> Inr (event, False)
             | Some JNull \<Rightarrow> Inr (event, False)
             | Some (JBool b) \<Rightarrow> Inr (event, b)
             | Some v \<Rightarrow> Inl (InvalidEventError (''deleted is a '' @ json_type_name v @ '', not a boolean'' @ key_suffix k))))"

definition blocked_of :: "string list \<Rightarrow> string \<Rightarrow> string \<Rightarrow> blocked_row" where
  "blocked_of event reason region =
     \<lparr>bl_account = Some (event ! 0), bl_plan = Some (event ! 1), bl_subscription = Some (event ! 2), bl_reason = reason, bl_region = region\<rparr>"

definition write_block :: "blocked_row \<Rightarrow> bool \<Rightarrow> blocked_row list \<Rightarrow> blocked_row list" where
  "write_block row deleted rows =
     (if deleted then filter (\<lambda>r. r \<noteq> row) rows else if row \<in> set rows then rows else rows @ [row])"

text \<open>\<open>outage\<close> is the exception the database raises, if it does.\<close>

definition handle_blocked ::
  "(string \<times> string) list \<Rightarrow> exn option \<Rightarrow> (string \<times> json) list \<Rightarrow> string option \<Rightarrow> string \<Rightarrow> string \<Rightarrow> blocked_row list \<Rightarrow>
   unit res \<times> blocked_row list" where
  "handle_blocked topic_reasons outage payload k region topic rows =
     (case map_of topic_reasons topic of
        None \<Rightarrow> (Inl (InvalidEventError (''topic '' @ topic @ '' has no blocking reason'' @ key_suffix k)), rows)
      | Some reason \<Rightarrow>
          (case parse_event payload k of
             Inl e \<Rightarrow> (Inl e, rows)
           | Inr (event, deleted) \<Rightarrow>
               (case outage of
                  Some e \<Rightarrow> (Inl e, rows)
                | None \<Rightarrow> (Inr (), write_block (blocked_of event reason region) deleted rows))))"

section \<open>The consumer\<close>

definition MAX_MESSAGES_PER_REGION_PER_TICK :: nat where
  "MAX_MESSAGES_PER_REGION_PER_TICK = 100"

definition HANDLED :: string where "HANDLED = ''handled''"
definition INVALID :: string where "INVALID = ''invalid''"
definition RETRY :: string where "RETRY = ''retry''"
definition CONSUMER_ERROR :: string where "CONSUMER_ERROR = ''consumer_error''"
definition COMMIT_ERROR :: string where "COMMIT_ERROR = ''commit_error''"
definition FATAL :: string where "FATAL = ''fatal''"

text \<open>A message; the error it may carry is given by whether it is fatal, and its key is decoded.\<close>

record kmsg =
  km_error :: "bool option"
  km_topic :: string
  km_partition :: nat
  km_offset :: nat
  km_key :: "string option"
  km_value :: "string option"

abbreviation km_tp :: "kmsg \<Rightarrow> string \<times> nat" where
  "km_tp m \<equiv> (km_topic m, km_partition m)"

datatype kafka_command =
    Seek string "string \<times> nat" nat
  | Commit string "((string \<times> nat) \<times> nat) list"
  | Close string

datatype kafka_callback = Error_cb bool | On_commit bool

datatype creation = Created | Not_built | Not_subscribed

record drain_stats =
  ds_counts :: "((string \<times> string) \<times> nat) list"
  ds_lag :: "((string \<times> string) \<times> int) list"

record kafka_consumer =
  kc_consumers :: "string list"
  kc_fatal_regions :: "string list"
  kc_failing_regions :: "string list"
  kc_stats :: drain_stats
  kc_sent :: "kafka_command list"

text \<open>
  The surroundings of a drain: the kill signal, read at index 0 before a region and at index \<open>Suc n\<close> before its \<open>n\<close>-th message,
  and what the library answers. \<open>ke_position\<close> lists topic, offset and high watermark of the assigned partitions.
\<close>

record kafka_env =
  ke_topics :: "string list"
  ke_regions :: "string list"
  ke_stop :: "string \<Rightarrow> nat \<Rightarrow> bool"
  ke_create :: "string \<Rightarrow> creation"
  ke_callbacks :: "string \<Rightarrow> kafka_callback list"
  ke_consume :: "string \<Rightarrow> bool + kmsg list"
  ke_commit_fails :: "string \<Rightarrow> bool"
  ke_position :: "string \<Rightarrow> (string \<times> int \<times> int option) list option"
  ke_loads :: "string \<Rightarrow> json res"

definition empty_stats :: drain_stats where
  "empty_stats = \<lparr>ds_counts = [], ds_lag = []\<rparr>"

definition bump :: "'k \<Rightarrow> 'n \<Rightarrow> ('k \<times> 'n :: comm_monoid_add) list \<Rightarrow> ('k \<times> 'n) list" where
  "bump k n xs = AList.update k ((case map_of xs k of None \<Rightarrow> 0 | Some m \<Rightarrow> m) + n) xs"

definition stats_add :: "string \<Rightarrow> string \<Rightarrow> kafka_consumer \<Rightarrow> kafka_consumer" where
  "stats_add region outcome c =
     c\<lparr>kc_stats := (kc_stats c)\<lparr>ds_counts := bump (region, outcome) 1 (ds_counts (kc_stats c))\<rparr>\<rparr>"

definition tell :: "kafka_command \<Rightarrow> kafka_consumer \<Rightarrow> kafka_consumer" where
  "tell cmd c = c\<lparr>kc_sent := kc_sent c @ [cmd]\<rparr>"

definition on_kafka_error :: "string \<Rightarrow> bool \<Rightarrow> kafka_consumer \<Rightarrow> kafka_consumer" where
  "on_kafka_error region fatal c =
     (if fatal then (stats_add region FATAL c)\<lparr>kc_fatal_regions := List.insert region (kc_fatal_regions c)\<rparr>
      else stats_add region CONSUMER_ERROR c)"

fun on_callback :: "string \<Rightarrow> kafka_callback \<Rightarrow> kafka_consumer \<Rightarrow> kafka_consumer" where
  "on_callback region (Error_cb fatal) c = on_kafka_error region fatal c"
| "on_callback region (On_commit failed) c = (if failed then stats_add region COMMIT_ERROR c else c)"

definition discard_consumer :: "string \<Rightarrow> kafka_consumer \<Rightarrow> kafka_consumer" where
  "discard_consumer region c =
     (if region \<in> set (kc_consumers c) then tell (Close region) (c\<lparr>kc_consumers := removeAll region (kc_consumers c)\<rparr>) else c)"

definition get_or_create_consumer :: "kafka_env \<Rightarrow> string \<Rightarrow> kafka_consumer \<Rightarrow> bool \<times> kafka_consumer" where
  "get_or_create_consumer env region c =
     (if region \<in> set (kc_consumers c) then (True, c)
      else if ke_create env region = Created
      then (True, c\<lparr>kc_failing_regions := removeAll region (kc_failing_regions c), kc_consumers := kc_consumers c @ [region]\<rparr>)
      else
        let c1 = (stats_add region CONSUMER_ERROR c)\<lparr>kc_failing_regions := List.insert region (kc_failing_regions c)\<rparr>
        in (False, if ke_create env region = Not_subscribed then tell (Close region) c1 else c1))"

definition deserialize :: "kafka_env \<Rightarrow> string option \<Rightarrow> (string \<times> json) list res" where
  "deserialize env v =
     (case v of
        None \<Rightarrow> Inl (InvalidEventError ''payload is empty'')
      | Some s \<Rightarrow>
          (case ke_loads env s of
             Inl (ValueError t) \<Rightarrow> Inl (InvalidEventError (''payload is not valid JSON: '' @ t))
           | Inl e \<Rightarrow> Inl e
           | Inr (JObj kvs) \<Rightarrow> Inr kvs
           | Inr j \<Rightarrow> Inl (InvalidEventError (''payload is a JSON '' @ json_type_name j @ '', not an object''))))"

type_synonym 'd event_handler = "(string \<times> json) list \<Rightarrow> string option \<Rightarrow> string \<Rightarrow> string \<Rightarrow> 'd \<Rightarrow> unit res \<times> 'd"

fun is_InvalidEventError :: "exn \<Rightarrow> bool" where
  "is_InvalidEventError (InvalidEventError _) = True"
| "is_InvalidEventError _ = False"

definition handle_message :: "kafka_env \<Rightarrow> 'd event_handler \<Rightarrow> kmsg \<Rightarrow> string \<Rightarrow> kafka_consumer \<times> 'd \<Rightarrow> exn option \<times> kafka_consumer \<times> 'd" where
  "handle_message env handler m region = (\<lambda>(c, d).
     (case (case deserialize env (km_value m) of Inl e \<Rightarrow> (Inl e, d) | Inr payload \<Rightarrow> handler payload (km_key m) region (km_topic m) d) of
        (Inr _, d') \<Rightarrow> (None, stats_add region HANDLED c, d')
      | (Inl e, d') \<Rightarrow>
          if is_InvalidEventError e then (None, stats_add region INVALID c, d') else (Some e, stats_add region RETRY c, d')))"

definition first_offset :: "kmsg \<Rightarrow> ((string \<times> nat) \<times> nat) list \<Rightarrow> ((string \<times> nat) \<times> nat) list" where
  "first_offset m acc = (if km_error m = None \<and> map_of acc (km_tp m) = None then acc @ [(km_tp m, km_offset m)] else acc)"

text \<open>A seek that raises is logged and has no other effect on the consumer.\<close>

definition rewind :: "string \<Rightarrow> kmsg list \<Rightarrow> kafka_consumer \<Rightarrow> kafka_consumer" where
  "rewind region remaining c = fold (\<lambda>(tp, off). tell (Seek region tp off)) (fold first_offset remaining []) c"

definition commit_done :: "kafka_env \<Rightarrow> string \<Rightarrow> ((string \<times> nat) \<times> nat) list \<Rightarrow> kafka_consumer \<Rightarrow> kafka_consumer" where
  "commit_done env region done_offsets c =
     (if done_offsets = [] then c
      else let c1 = tell (Commit region done_offsets) c in if ke_commit_fails env region then stats_add region COMMIT_ERROR c1 else c1)"

definition add_lag :: "string \<Rightarrow> string \<Rightarrow> int \<Rightarrow> kafka_consumer \<Rightarrow> kafka_consumer" where
  "add_lag region topic n c = c\<lparr>kc_stats := (kc_stats c)\<lparr>ds_lag := bump (region, topic) n (ds_lag (kc_stats c))\<rparr>\<rparr>"

definition measure_lag :: "kafka_env \<Rightarrow> string \<Rightarrow> kafka_consumer \<Rightarrow> kafka_consumer" where
  "measure_lag env region c =
     (let c1 = fold (\<lambda>topic. add_lag region topic 0) (ke_topics env) c in
      case ke_position env region of
        None \<Rightarrow> c1
      | Some parts \<Rightarrow>
          fold (\<lambda>(topic, off, high) x.
                  if off < 0 then x
                  else (case high of None \<Rightarrow> x | Some h \<Rightarrow> if h \<ge> 0 then add_lag region topic (max (h - off) 0) x else x)) parts c1)"

text \<open>The batch of a region from its \<open>n\<close>-th message on, with the offsets finished so far.\<close>

fun drain_batch ::
  "kafka_env \<Rightarrow> 'd event_handler \<Rightarrow> string \<Rightarrow> nat \<Rightarrow> kmsg list \<Rightarrow> ((string \<times> nat) \<times> nat) list \<Rightarrow> kafka_consumer \<times> 'd \<Rightarrow>
   exn option \<times> ((string \<times> nat) \<times> nat) list \<times> kafka_consumer \<times> 'd" where
  "drain_batch env handler region n [] fin (c, d) = (None, fin, c, d)"
| "drain_batch env handler region n (m # ms) fin (c, d) =
     (if ke_stop env region (Suc n) then (None, fin, c, d)
      else
        (case km_error m of
           Some fatal \<Rightarrow>
             let c1 = on_kafka_error region fatal c in
             if fatal then (None, fin, c1, d) else drain_batch env handler region (Suc n) ms fin (c1, d)
         | None \<Rightarrow>
             (case handle_message env handler m region (c, d) of
                (Some e, c1, d1) \<Rightarrow> (Some e, fin, rewind region (m # ms) c1, d1)
              | (None, c1, d1) \<Rightarrow> drain_batch env handler region (Suc n) ms (AList.update (km_tp m) (Suc (km_offset m)) fin) (c1, d1))))"

definition drain_one_region :: "kafka_env \<Rightarrow> 'd event_handler \<Rightarrow> string \<Rightarrow> kafka_consumer \<times> 'd \<Rightarrow> exn option \<times> kafka_consumer \<times> 'd" where
  "drain_one_region env handler region = (\<lambda>(c, d).
     let c1 = (if region \<in> set (kc_fatal_regions c)
               then discard_consumer region (c\<lparr>kc_fatal_regions := removeAll region (kc_fatal_regions c)\<rparr>) else c);
         (there, c2) = get_or_create_consumer env region c1
     in if \<not> there then (None, c2, d)
        else
          let c3 = fold (on_callback region) (ke_callbacks env region) c2 in
          (case ke_consume env region of
             Inl fatal \<Rightarrow> (None, on_kafka_error region fatal c3, d)
           | Inr messages \<Rightarrow>
               (case drain_batch env handler region 0 (take MAX_MESSAGES_PER_REGION_PER_TICK messages) [] (c3, d) of
                  (failure, fin, c4, d') \<Rightarrow> (failure, measure_lag env region (commit_done env region fin c4), d'))))"

fun drain_all :: "kafka_env \<Rightarrow> 'd event_handler \<Rightarrow> string list \<Rightarrow> exn option \<Rightarrow> kafka_consumer \<times> 'd \<Rightarrow> exn option \<times> kafka_consumer \<times> 'd" where
  "drain_all env handler [] failure (c, d) = (failure, c, d)"
| "drain_all env handler (region # rest) failure (c, d) =
     (if ke_stop env region 0 then (failure, c, d)
      else
        (case drain_one_region env handler region (c, d) of
           (region_failure, c', d') \<Rightarrow>
             drain_all env handler rest (case failure of Some e \<Rightarrow> Some e | None \<Rightarrow> region_failure) (c', d')))"

text \<open>The statistics of a drain are those it counted; afterwards the consumer has fresh ones.\<close>

definition drain_consumer :: "kafka_env \<Rightarrow> 'd event_handler \<Rightarrow> kafka_consumer \<times> 'd \<Rightarrow> unit res \<times> drain_stats \<times> kafka_consumer \<times> 'd" where
  "drain_consumer env handler = (\<lambda>(c, d).
     (case drain_all env handler (ke_regions env) None (c\<lparr>kc_stats := empty_stats\<rparr>, d) of
        (failure, c', d') \<Rightarrow>
          (case failure of Some e \<Rightarrow> Inl e | None \<Rightarrow> Inr (), kc_stats c', c'\<lparr>kc_stats := empty_stats\<rparr>, d')))"

definition close_consumer :: "kafka_consumer \<Rightarrow> kafka_consumer" where
  "close_consumer c = fold discard_consumer (kc_consumers c) c"

section \<open>The task\<close>

definition blocked_accounts_topics :: "string \<Rightarrow> (string \<times> string) list" where
  "blocked_accounts_topics environment =
     [(''quantum.'' @ environment @ ''.blocked-account-plans.v1'', ''total''),
      (''quantum.'' @ environment @ ''.blocked-account-plans-non-quantum.v1'', ''non_quantum'')]"

datatype event_metric =
    Blocked_account_event string string nat
  | Blocked_account_consumer_error string string nat
  | Blocked_account_lag string string int

definition EVENT_OUTCOMES :: "(string \<times> string) list" where
  "EVENT_OUTCOMES = [(HANDLED, ''handled''), (INVALID, ''invalid''), (RETRY, ''retry'')]"

definition ERROR_KINDS :: "(string \<times> string) list" where
  "ERROR_KINDS = [(CONSUMER_ERROR, ''consumer''), (COMMIT_ERROR, ''commit''), (FATAL, ''fatal'')]"

definition report_drain :: "drain_stats \<Rightarrow> event_metric list" where
  "report_drain stats =
     concat (map (\<lambda>((region, outcome), n).
        case map_of EVENT_OUTCOMES outcome of
          Some x \<Rightarrow> [Blocked_account_event region x n]
        | None \<Rightarrow> (case map_of ERROR_KINDS outcome of Some x \<Rightarrow> [Blocked_account_consumer_error region x n] | None \<Rightarrow> [])) (ds_counts stats)) @
     map (\<lambda>((region, topic), n). Blocked_account_lag region topic n) (ds_lag stats)"

text \<open>\<open>outage n\<close> is the exception the database raises while the row of an event with the given key is written.\<close>

definition consume_blocked_run ::
  "kafka_env \<Rightarrow> string \<Rightarrow> (string option \<Rightarrow> exn option) \<Rightarrow> kafka_consumer option \<times> db \<Rightarrow> unit res \<times> event_metric list \<times> kafka_consumer option \<times> db" where
  "consume_blocked_run env environment outage = (\<lambda>(consumer, d).
     (case consumer of
        None \<Rightarrow> (Inr (), [], None, d)
      | Some c \<Rightarrow>
          (case drain_consumer env
                  (\<lambda>payload k. handle_blocked (blocked_accounts_topics environment) (outage k) payload k) (c, blocked_tbl d) of
             (r, stats, c', rows) \<Rightarrow> (r, report_drain stats, Some c', d\<lparr>blocked_tbl := rows\<rparr>))))"

section \<open>What a batch commits and rewinds\<close>

lemma tell_simps [simp]: "kc_sent (tell cmd c) = kc_sent c @ [cmd]"
  by (simp add: tell_def)

lemma sent_frame [simp]:
  "kc_sent (stats_add region outcome c) = kc_sent c" "kc_sent (on_kafka_error region b c) = kc_sent c"
  "kc_sent (fst (snd (handle_message env handler m region (c, d)))) = kc_sent c"
  by (auto simp: stats_add_def on_kafka_error_def handle_message_def split: prod.splits sum.splits)

definition mark_done :: "kmsg \<Rightarrow> ((string \<times> nat) \<times> nat) list \<Rightarrow> ((string \<times> nat) \<times> nat) list" where
  "mark_done m fin = (if km_error m = None then AList.update (km_tp m) (Suc (km_offset m)) fin else fin)"

definition seeks_of :: "string \<Rightarrow> kmsg list \<Rightarrow> kafka_command list" where
  "seeks_of region ms = map (\<lambda>(tp, off). Seek region tp off) (fold first_offset ms [])"

lemma rewind_sent: "kc_sent (rewind region ms c) = kc_sent c @ seeks_of region ms"
proof -
  have "kc_sent (fold (\<lambda>(tp, off). tell (Seek region tp off)) xs c) = kc_sent c @ map (\<lambda>(tp, off). Seek region tp off) xs" for xs
    by (induction xs arbitrary: c) (auto split: prod.splits)
  then show ?thesis by (simp add: rewind_def seeks_of_def)
qed

text \<open>The handler sees the messages without an error of a prefix of the batch, and on a failure the rest is rewound.\<close>

definition deliver :: "kafka_env \<Rightarrow> 'd event_handler \<Rightarrow> string \<Rightarrow> kmsg \<Rightarrow> 'd \<Rightarrow> 'd" where
  "deliver env handler region m d =
     (if km_error m = None
      then (case deserialize env (km_value m) of Inl e \<Rightarrow> d | Inr payload \<Rightarrow> snd (handler payload (km_key m) region (km_topic m) d)) else d)"

definition message_failed :: "kafka_env \<Rightarrow> 'd event_handler \<Rightarrow> string \<Rightarrow> 'd \<Rightarrow> kmsg \<Rightarrow> bool" where
  "message_failed env handler region d m \<longleftrightarrow>
     km_error m = None \<and>
     (case deserialize env (km_value m) of
        Inl e \<Rightarrow> \<not> is_InvalidEventError e
      | Inr payload \<Rightarrow> (case fst (handler payload (km_key m) region (km_topic m) d) of Inl e \<Rightarrow> \<not> is_InvalidEventError e | Inr _ \<Rightarrow> False))"

lemma handle_message_state:
  assumes "km_error m = None" "handle_message env handler m region (c, d) = (r, c', d')"
  shows "d' = deliver env handler region m d" "r \<noteq> None \<longleftrightarrow> message_failed env handler region d m" "kc_sent c' = kc_sent c"
  using assms by (auto simp: handle_message_def deliver_def message_failed_def split: prod.splits sum.splits if_splits)

lemma drain_batch_prefix:
  assumes "drain_batch env handler region n ms fin (c, d) = (failure, fin', c', d')"
  shows "\<exists>finished rest. ms = finished @ rest \<and> fin' = fold mark_done finished fin \<and>
    kc_sent c' = kc_sent c @ (if failure = None then [] else seeks_of region rest) \<and>
    (failure = None \<longrightarrow> d' = fold (deliver env handler region) finished d) \<and>
    (failure \<noteq> None \<longrightarrow> rest \<noteq> [] \<and> d' = fold (deliver env handler region) (finished @ [hd rest]) d \<and>
       message_failed env handler region (fold (deliver env handler region) finished d) (hd rest))"
  using assms
proof (induction ms arbitrary: n fin c d)
  case (Cons m ms)
  show ?case
  proof (cases "ke_stop env region (Suc n)")
    case False
    show ?thesis
    proof (cases "km_error m")
      case None
      obtain r c1 d1 where h: "handle_message env handler m region (c, d) = (r, c1, d1)" by (metis prod_cases3)
      note st = handle_message_state [OF None h]
      show ?thesis
      proof (cases r)
        case (Some e)
        then show ?thesis using Cons.prems False None h st by (intro exI [of _ "[]"] exI [of _ "m # ms"]) (auto simp: rewind_sent)
      next
        case r: None
        then have "drain_batch env handler region (Suc n) ms (mark_done m fin) (c1, d1) = (failure, fin', c', d')"
          using Cons.prems False None h by (simp add: mark_done_def)
        from Cons.IH [OF this] obtain finished rest where ih: "ms = finished @ rest" "fin' = fold mark_done finished (mark_done m fin)"
          "kc_sent c' = kc_sent c1 @ (if failure = None then [] else seeks_of region rest)"
          "failure = None \<longrightarrow> d' = fold (deliver env handler region) finished d1"
          "failure \<noteq> None \<longrightarrow> rest \<noteq> [] \<and> d' = fold (deliver env handler region) (finished @ [hd rest]) d1 \<and>
             message_failed env handler region (fold (deliver env handler region) finished d1) (hd rest)" by blast
        then show ?thesis using st by (intro exI [of _ "m # finished"] exI [of _ rest]) simp
      qed
    next
      case (Some fatal)
      show ?thesis
      proof (cases fatal)
        case True
        then show ?thesis using Cons.prems False Some by (intro exI [of _ "[]"] exI [of _ "m # ms"]) (auto simp: Let_def)
      next
        case f: False
        then have "drain_batch env handler region (Suc n) ms fin (on_kafka_error region False c, d) = (failure, fin', c', d')"
          using Cons.prems False Some by (simp add: Let_def)
        from Cons.IH [OF this] obtain finished rest where ih: "ms = finished @ rest" "fin' = fold mark_done finished fin"
          "kc_sent c' = kc_sent c @ (if failure = None then [] else seeks_of region rest)"
          "failure = None \<longrightarrow> d' = fold (deliver env handler region) finished d"
          "failure \<noteq> None \<longrightarrow> rest \<noteq> [] \<and> d' = fold (deliver env handler region) (finished @ [hd rest]) d \<and>
             message_failed env handler region (fold (deliver env handler region) finished d) (hd rest)" by auto
        moreover have "mark_done m = id" "deliver env handler region m = id" using Some by (auto simp: mark_done_def deliver_def fun_eq_iff)
        ultimately show ?thesis by (intro exI [of _ "m # finished"] exI [of _ rest]) simp
      qed
    qed
  next
    case True
    then show ?thesis using Cons.prems by (intro exI [of _ "[]"] exI [of _ "m # ms"]) auto
  qed
qed auto

definition of_tp :: "string \<times> nat \<Rightarrow> kmsg \<Rightarrow> bool" where
  "of_tp tp m \<longleftrightarrow> km_error m = None \<and> km_tp m = tp"

lemma map_of_mark_done:
  "map_of (fold mark_done ms fin) tp =
     (case find (of_tp tp) (rev ms) of Some m \<Rightarrow> Some (Suc (km_offset m)) | None \<Rightarrow> map_of fin tp)"
proof (induction ms arbitrary: fin)
  case (Cons m ms)
  have "find P (xs @ [x]) = (case find P xs of Some y \<Rightarrow> Some y | None \<Rightarrow> if P x then Some x else None)" for P and xs and x :: kmsg
    by (induction xs) auto
  then show ?case using Cons by (auto simp: mark_done_def update_conv of_tp_def split: option.splits)
qed simp

lemma map_of_first_offset:
  "map_of (fold first_offset ms acc) tp =
     (case map_of acc tp of Some off \<Rightarrow> Some off
      | None \<Rightarrow> map_option km_offset (find (of_tp tp) ms))"
  by (induction ms arbitrary: acc) (auto simp: first_offset_def map_add_def of_tp_def split: option.splits)

text \<open>Messages of one partition come in the order of their offsets.\<close>

definition batch_ordered :: "kmsg list \<Rightarrow> bool" where
  "batch_ordered ms \<longleftrightarrow> sorted_wrt (\<lambda>a b. \<forall>tp. of_tp tp a \<longrightarrow> of_tp tp b \<longrightarrow> km_offset a < km_offset b) ms"

lemma find_last_ordered:
  assumes "batch_ordered ms" "find (of_tp tp) (rev ms) = Some l" "m \<in> set ms" "of_tp tp m"
  shows "km_offset m \<le> km_offset l"
  using assms
proof (induction ms rule: rev_induct)
  case (snoc x xs)
  then show ?case by (cases tp; cases "of_tp tp x") (auto simp: batch_ordered_def sorted_wrt_append less_imp_le)
qed simp

lemma find_first_ordered:
  assumes "batch_ordered ms" "m \<in> set ms" "of_tp tp m"
  shows "\<exists>x \<in> set ms. find (of_tp tp) ms = Some x \<and> of_tp tp x \<and> km_offset x \<le> km_offset m"
  using assms
proof (induction ms)
  case (Cons x xs)
  then show ?case by (cases tp; cases "of_tp tp x") (auto simp: batch_ordered_def less_imp_le)
qed simp

lemma find_SomeD: "find P xs = Some x \<Longrightarrow> x \<in> set xs \<and> P x"
  by (auto simp: find_Some_iff)


section \<open>The blocked set is a mirror\<close>

text \<open>
  Events that each set one key on or off: what holds afterwards is what the last event of a key says, so delivering the end of
  the stream again changes nothing.
\<close>

locale last_writer =
  fixes ekey :: "'e \<Rightarrow> 'k" and on :: "'e \<Rightarrow> bool" and act :: "'e \<Rightarrow> 'd \<Rightarrow> 'd" and holds :: "'d \<Rightarrow> 'k \<Rightarrow> bool"
  assumes act_holds: "holds (act e d) k \<longleftrightarrow> (if k = ekey e then on e else holds d k)"
begin

lemma holds_last:
  "holds (fold act es d) k \<longleftrightarrow> (case find (\<lambda>e. ekey e = k) (rev es) of Some e \<Rightarrow> on e | None \<Rightarrow> holds d k)"
  by (induction es rule: rev_induct) (auto simp: act_holds)

lemma replay: "holds (fold act (xs @ ys @ ys) d) = holds (fold act (xs @ ys) d)"
proof
  have "find P (zs @ ys) = (case find P zs of Some y \<Rightarrow> Some y | None \<Rightarrow> find P ys)" for P :: "'e \<Rightarrow> bool" and zs ys
    by (induction zs) auto
  then show "holds (fold act (xs @ ys @ ys) d) k = holds (fold act (xs @ ys) d) k" for k
    unfolding holds_last by (simp split: option.split)
qed

end

definition apply_block :: "blocked_row \<times> bool \<Rightarrow> blocked_row list \<Rightarrow> blocked_row list" where
  "apply_block e rows = write_block (fst e) (snd e) rows"

interpretation block: last_writer fst "\<lambda>e. \<not> snd e" apply_block "\<lambda>rows row. row \<in> set rows"
  by unfold_locales (auto simp: apply_block_def write_block_def)

lemma apply_block_distinct: "distinct rows \<Longrightarrow> distinct (fold apply_block es rows)"
  by (induction es arbitrary: rows) (auto simp: apply_block_def write_block_def)

text \<open>The change a message stands for, if it can be handled at all.\<close>

definition block_event :: "kafka_env \<Rightarrow> (string \<times> string) list \<Rightarrow> string \<Rightarrow> kmsg \<Rightarrow> (blocked_row \<times> bool) option" where
  "block_event env reasons region m =
     (if km_error m \<noteq> None then None
      else (case deserialize env (km_value m) of
              Inl _ \<Rightarrow> None
            | Inr payload \<Rightarrow>
                (case map_of reasons (km_topic m) of
                   None \<Rightarrow> None
                 | Some reason \<Rightarrow>
                     (case parse_event payload (km_key m) of
                        Inl _ \<Rightarrow> None
                      | Inr (event, deleted) \<Rightarrow> Some (blocked_of event reason region, deleted)))))"

abbreviation blocked_handler ::
  "(string \<times> string) list \<Rightarrow> (string option \<Rightarrow> exn option) \<Rightarrow> blocked_row list event_handler" where
  "blocked_handler reasons outage \<equiv> (\<lambda>payload k. handle_blocked reasons (outage k) payload k)"

lemma handle_blocked_error: "handle_blocked reasons outage payload k region topic rows = (Inl e, rows') \<Longrightarrow> rows' = rows"
  by (auto simp: handle_blocked_def split: option.splits sum.splits)

lemma parse_fields_invalid: "parse_fields payload k cs acc = Inl e \<Longrightarrow> is_InvalidEventError e"
  by (induction payload k cs acc rule: parse_fields.induct) (auto split: option.splits json.splits list.splits if_splits)

lemma parse_event_invalid: "parse_event payload k = Inl e \<Longrightarrow> is_InvalidEventError e"
  by (auto simp: parse_event_def dest: parse_fields_invalid split: sum.splits if_splits option.splits json.splits)

text \<open>What the database raises is no fault of the event.\<close>

definition outages_retry :: "(string option \<Rightarrow> exn option) \<Rightarrow> bool" where
  "outages_retry outage \<longleftrightarrow> (\<forall>k e. outage k = Some e \<longrightarrow> \<not> is_InvalidEventError e)"

lemma deliver_blocked:
  "outages_retry outage \<Longrightarrow> deliver env (blocked_handler reasons outage) region m rows =
     (if message_failed env (blocked_handler reasons outage) region rows m then rows
      else (case block_event env reasons region m of None \<Rightarrow> rows | Some e \<Rightarrow> apply_block e rows))"
  by (auto simp: deliver_def message_failed_def block_event_def apply_block_def handle_blocked_def outages_retry_def dest: parse_event_invalid
      split: sum.splits option.splits)

text \<open>A finished message did not fail, so the rows after a batch are those of its events.\<close>

lemma drain_batch_rows:
  assumes "outages_retry outage" "drain_batch env (blocked_handler reasons outage) region n ms fin (c, rows) = (failure, fin', c', rows')"
  shows "\<exists>finished rest. ms = finished @ rest \<and> rows' = fold apply_block (List.map_filter (block_event env reasons region) finished) rows \<and>
    (failure = None \<longrightarrow> ke_stop env region (Suc (n + length finished)) \<or> rest = [] \<or> km_error (hd rest) = Some True)"
  using assms(2)
proof (induction ms arbitrary: n fin c rows)
  case (Cons m ms)
  let ?h = "blocked_handler reasons outage"
  show ?case
  proof (cases "ke_stop env region (Suc n) \<or> km_error m = Some True")
    case True
    then have "failure = None" "rows' = rows" using Cons.prems by (auto simp: Let_def split: if_splits)
    then show ?thesis using True by (intro exI [of _ "[]"] exI [of _ "m # ms"]) (auto simp: map_filter_simps)
  next
    case go: False
    show ?thesis
    proof (cases "km_error m")
      case None
      obtain r c1 d1 where h: "handle_message env ?h m region (c, rows) = (r, c1, d1)"
        by (rule prod_cases3 [of "handle_message env ?h m region (c, rows)"])
      note st = handle_message_state [OF None h]
      show ?thesis
      proof (cases r)
        case (Some e)
        then have "failure = Some e" "rows' = d1" using Cons.prems go None h by simp_all
        then show ?thesis using st Some deliver_blocked [OF assms(1)] by (intro exI [of _ "[]"] exI [of _ "m # ms"]) (simp add: map_filter_simps)
      next
        case r: None
        have "drain_batch env ?h region (Suc n) ms (mark_done m fin) (c1, d1) = (failure, fin', c', rows')"
          using Cons.prems go None h r by (simp add: mark_done_def)
        from Cons.IH [OF this] obtain finished rest where ih: "ms = finished @ rest"
          "rows' = fold apply_block (List.map_filter (block_event env reasons region) finished) d1"
          "failure = None \<longrightarrow> ke_stop env region (Suc (Suc n + length finished)) \<or> rest = [] \<or> km_error (hd rest) = Some True" by blast
        moreover have "d1 = fold apply_block (List.map_filter (block_event env reasons region) [m]) rows"
          using st r deliver_blocked [OF assms(1)] by (simp add: map_filter_simps split: option.splits)
        ultimately show ?thesis
          by (intro exI [of _ "m # finished"] exI [of _ rest]) (simp add: map_filter_simps split: option.splits)
      qed
    next
      case (Some fatal)
      then have "drain_batch env ?h region (Suc n) ms fin (on_kafka_error region False c, rows) = (failure, fin', c', rows')"
        using Cons.prems go by (cases fatal) (auto simp: Let_def)
      from Cons.IH [OF this] obtain finished rest where ih: "ms = finished @ rest"
        "rows' = fold apply_block (List.map_filter (block_event env reasons region) finished) rows"
        "failure = None \<longrightarrow> ke_stop env region (Suc (Suc n + length finished)) \<or> rest = [] \<or> km_error (hd rest) = Some True" by blast
      moreover have "block_event env reasons region m = None" using Some by (simp add: block_event_def)
      ultimately show ?thesis by (intro exI [of _ "m # finished"] exI [of _ rest]) (simp add: map_filter_simps)
    qed
  qed
qed (auto simp: map_filter_simps)


lemma consume_blocked_steps:
  assumes "consume_blocked_run env environment outage (consumer, d) = (r, ms, consumer', d')"
  shows "life_step d d'"
proof -
  have "d' = d\<lparr>blocked_tbl := blocked_tbl d'\<rparr>" using assms by (auto simp: consume_blocked_run_def split: option.splits prod.splits)
  then show ?thesis using step_blocked [of d "blocked_tbl d'"] by simp
qed

text \<open>A batch in which the second message meets a database outage.\<close>

definition ex_kafka :: kafka_env where
  "ex_kafka = \<lparr>ke_topics = [''t''], ke_regions = [''r''], ke_stop = (\<lambda>_ _. False), ke_create = (\<lambda>_. Created), ke_callbacks = (\<lambda>_. []),
     ke_consume = (\<lambda>_. Inr []), ke_commit_fails = (\<lambda>_. False), ke_position = (\<lambda>_. None),
     ke_loads = (\<lambda>s. Inr (JObj [(''account_id'', JStr (''a/'' @ s)), (''plan_id'', JStr ''p''), (''subscription_id'', JStr ''s'')]))\<rparr>"

definition ex_kmsg :: "nat \<Rightarrow> kmsg" where
  "ex_kmsg n = \<lparr>km_error = None, km_topic = ''t'', km_partition = 0, km_offset = n, km_key = (if n = 1 then Some ''k'' else None), km_value = Some ''x''\<rparr>"

definition ex_consumer :: kafka_consumer where
  "ex_consumer = \<lparr>kc_consumers = [''r''], kc_fatal_regions = [], kc_failing_regions = [], kc_stats = empty_stats, kc_sent = []\<rparr>"

abbreviation ex_blocked_handler :: "blocked_row list event_handler" where
  "ex_blocked_handler \<equiv> blocked_handler [(''t'', ''total'')] (\<lambda>k. if k = Some ''k'' then Some OperationalError else None)"

definition ex_block :: blocked_row where
  "ex_block = \<lparr>bl_account = Some ''x'', bl_plan = Some ''p'', bl_subscription = Some ''s'', bl_reason = ''total'', bl_region = ''r''\<rparr>"

lemma ex_drain:
  "drain_batch ex_kafka ex_blocked_handler ''r'' 0 [ex_kmsg 0, ex_kmsg 1] [] (ex_consumer, []) =
     (Some OperationalError, [((''t'', 0), 1)],
      stats_add ''r'' RETRY (stats_add ''r'' HANDLED ex_consumer)\<lparr>kc_sent := [Seek ''r'' (''t'', 0) 1]\<rparr>, [ex_block])"
  by code_simp



end
