(* ===== verification/Metric_Tasks.thy ===== *)
theory Metric_Tasks
  imports Fleets_Tasks "HOL-Library.AList"
begin

text \<open>
  The two tasks of the scheduler that only set gauges: \<^verbatim>\<open>scheduler/tasks/update_job_status_counts.py\<close> and
  \<^verbatim>\<open>scheduler/tasks/export_fleets_breakers.py\<close>. A gauge is a dictionary from its labels to its value.
\<close>

record gauges =
  job_status_count :: "((Status \<times> string) \<times> nat) list"
  filler_jobs_count :: "(Status \<times> nat) list"
  fleets_breaker_open :: "((string \<times> string) \<times> bool) list"

section \<open>Counts of jobs\<close>

text \<open>\<open>values(...).annotate(count=Count("id"))\<close>: one row per group, here in the order in which the groups appear in the table.\<close>

definition group_counts :: "('a \<Rightarrow> 'k) \<Rightarrow> 'a list \<Rightarrow> ('k \<times> nat) list" where
  "group_counts f xs = map (\<lambda>k. (k, length (filter (\<lambda>x. f x = k) xs))) (remdups (map f xs))"

definition program_provider_name :: "job \<Rightarrow> string option" where
  "program_provider_name j = map_option provider_name (Option.bind (job_program j) program_provider)"

definition or_custom :: "string option \<Rightarrow> string" where
  "or_custom p = (if truthy p then the p else ''custom'')"

definition active_jobs :: "bool \<Rightarrow> db \<Rightarrow> job list" where
  "active_jobs f d = filter (\<lambda>j. status j \<in> set ACTIVE_STATUSES \<and> filler j = f) (job_tbl d)"

definition status_counts :: "db \<Rightarrow> ((Status \<times> string) \<times> nat) list" where
  "status_counts d =
     fold (\<lambda>((s, p), n). AList.update (s, or_custom p) n) (group_counts (\<lambda>j. (status j, program_provider_name j)) (active_jobs False d)) []"

definition update_job_status_counts_run :: "db \<Rightarrow> gauges \<Rightarrow> gauges" where
  "update_job_status_counts_run d g =
     g\<lparr>job_status_count := fold (\<lambda>(k, n). AList.update k n) (status_counts d) [],
       filler_jobs_count := fold (\<lambda>(k, n). AList.update k n) (group_counts status (active_jobs True d)) []\<rparr>"

section \<open>Breakers\<close>

definition set_fleets_breaker_open :: "bool \<Rightarrow> string \<Rightarrow> string option \<Rightarrow> gauges \<Rightarrow> gauges" where
  "set_fleets_breaker_open b dependency region g =
     g\<lparr>fleets_breaker_open := AList.update (dependency, if truthy region then the region else ''none'') b (fleets_breaker_open g)\<rparr>"

fun export_registry ::
  "(ConfigKey \<Rightarrow> string) \<Rightarrow> int \<Rightarrow> string \<Rightarrow> region_breakers \<Rightarrow> gauges \<Rightarrow> region_breakers \<times> gauges" where
  "export_registry conf t dependency [] g = ([], g)"
| "export_registry conf t dependency ((rg, b) # bs) g =
     (case is_open conf FLEETS_BREAKER_KEYS t b of
        (open, b') \<Rightarrow>
          (case export_registry conf t dependency bs (set_fleets_breaker_open open dependency rg g) of
             (bs', g') \<Rightarrow> ((rg, b') # bs', g')))"

definition export_breakers_run :: "(ConfigKey \<Rightarrow> string) \<Rightarrow> int \<Rightarrow> FleetsBreakers \<times> gauges \<Rightarrow> FleetsBreakers \<times> gauges" where
  "export_breakers_run conf t = (\<lambda>(fb, g).
     let (ce, g1) = export_registry conf t ''code_engine'' (code_engine fb) g;
         (co, g2) = export_registry conf t ''cos'' (cos fb) g1;
         (cl, g3) = export_registry conf t ''cleanup'' (cleanup fb) g2
     in (fb\<lparr>code_engine := ce, cos := co, cleanup := cl\<rparr>, g3))"

section \<open>The counts are exact\<close>

lemma map_of_fold_update:
  "map_of (fold (\<lambda>(k, n). AList.update (lab k) n) rows al) = map_of (rev (map (\<lambda>(k, n). (lab k, n)) rows) @ al)"
proof (induction rows arbitrary: al)
  case (Cons r rows)
  then show ?case by (cases r) (simp add: update_conv' fun_eq_iff map_add_def split: option.splits)
qed simp

lemma map_of_fold_injective:
  assumes "inj_on lab (insert k (fst ` set rows))" "distinct (map fst rows)"
  shows "map_of (fold (\<lambda>(k, n). AList.update (lab k) n) rows []) (lab k) = map_of rows k"
proof -
  let ?rs = "rev (map (\<lambda>(k, n). (lab k, n)) rows)"
  have "inj_on lab (set (map fst rows))" using assms(1) by (auto simp: inj_on_def)
  then have "distinct (map lab (map fst rows))" using assms(2) by (subst distinct_map) simp
  then have "distinct (map fst ?rs)" by (simp add: rev_map [symmetric] comp_def split_def)
  note mem = map_of_eq_Some_iff [OF this]
  have "map_of ?rs (lab k) = Some n \<longleftrightarrow> map_of rows k = Some n" for n
    unfolding mem map_of_eq_Some_iff [OF assms(2)] using assms(1) by (auto simp: inj_on_def)
  then have "map_of ?rs (lab k) = map_of rows k" by (metis not_None_eq)
  then show ?thesis using map_of_fold_update [of lab rows "[]"] by simp
qed

lemma map_of_group_counts:
  "map_of (group_counts f xs) k = (if k \<in> f ` set xs then Some (length (filter (\<lambda>x. f x = k) xs)) else None)"
  by (auto simp: group_counts_def map_of_map_restrict restrict_map_def)

lemma group_counts_keys [simp]: "fst ` set (group_counts f xs) = f ` set xs" "distinct (map fst (group_counts f xs))"
  by (force simp: group_counts_def, simp add: group_counts_def comp_def)

lemma or_custom_injective: "inj_on or_custom {p. p \<noteq> Some [] \<and> p \<noteq> Some ''custom''}"
  by (auto simp: inj_on_def or_custom_def truthy_def split: option.splits)

lemma inj_on_second: "inj_on f P \<Longrightarrow> inj_on (\<lambda>(s, p). (s, f p)) (UNIV \<times> P)"
  by (auto simp: inj_on_def)

text \<open>
  Unless a provider is called custom (or has no name), the gauge of a status and a provider is the number of its jobs, and has no
  value when there is none; so is the gauge of the fillers of a status.
\<close>

lemma status_gauges_exact:
  assumes "\<forall>j \<in> set (active_jobs False d). program_provider_name j \<notin> {Some [], Some ''custom''}" "p \<notin> {Some [], Some ''custom''}"
  shows "map_of (job_status_count (update_job_status_counts_run d g)) (s, or_custom p) =
      (let n = length (filter (\<lambda>j. (status j, program_provider_name j) = (s, p)) (active_jobs False d)) in if n = 0 then None else Some n)"
    and "map_of (filler_jobs_count (update_job_status_counts_run d g)) s =
      (let n = length (filter (\<lambda>j. status j = s) (active_jobs True d)) in if n = 0 then None else Some n)"
proof -
  have same: "map_of (fold (\<lambda>(k, n). AList.update k n) rows []) = map_of rows" if "distinct (map fst rows)" for rows :: "('k \<times> nat) list"
    using map_of_fold_injective [of "\<lambda>k. k" _ rows] that by (simp add: fun_eq_iff)
  have count: "(if k \<in> f ` set xs then Some (length (filter (\<lambda>x. f x = k) xs)) else None) =
      (let n = length (filter (\<lambda>x. f x = k) xs) in if n = 0 then None else Some n)" for k :: 'k and f :: "job \<Rightarrow> 'k" and xs
    by (auto simp: Let_def filter_empty_conv)
  let ?rows = "group_counts (\<lambda>j. (status j, program_provider_name j)) (active_jobs False d)"
  let ?lab = "\<lambda>(s, p). (s :: Status, or_custom p)"
  have inj: "inj_on ?lab (insert (s, p) (fst ` set ?rows))"
    by (rule inj_on_subset [OF inj_on_second [OF or_custom_injective]]) (use assms in \<open>simp add: image_subset_iff\<close>)
  have st: "status_counts d = fold (\<lambda>(k, n). AList.update (?lab k) n) ?rows []"
    by (simp add: status_counts_def split_def)
  have "distinct (map fst (status_counts d))" unfolding status_counts_def
    by (rule fold_invariant [of _ "\<lambda>_. True" "\<lambda>al. distinct (map fst al)"]) (auto simp: distinct_update)
  then have "map_of (job_status_count (update_job_status_counts_run d g)) (s, or_custom p) = map_of (status_counts d) (?lab (s, p))"
    by (simp add: update_job_status_counts_run_def same)
  also have "\<dots> = map_of ?rows (s, p)" unfolding st by (rule map_of_fold_injective [OF inj]) simp
  finally show "map_of (job_status_count (update_job_status_counts_run d g)) (s, or_custom p) =
      (let n = length (filter (\<lambda>j. (status j, program_provider_name j) = (s, p)) (active_jobs False d)) in if n = 0 then None else Some n)"
    unfolding map_of_group_counts count .
  show "map_of (filler_jobs_count (update_job_status_counts_run d g)) s =
      (let n = length (filter (\<lambda>j. status j = s) (active_jobs True d)) in if n = 0 then None else Some n)"
    by (simp add: update_job_status_counts_run_def same map_of_group_counts count)
qed

lemma export_registry_keeps:
  "map fst (fst (export_registry conf t dep bs g)) = map fst bs"
  by (induction conf t dep bs g rule: export_registry.induct) (auto split: prod.splits)

text \<open>A provider called custom and the functions without provider overwrite each other's count, instead of adding up.\<close>

definition custom_provider_jobs :: db where
  "custom_provider_jobs =
     (example_db QUEUED)\<lparr>job_tbl := [(example_job QUEUED)\<lparr>job_program := None\<rparr>,
        (example_job QUEUED)\<lparr>job_program := Some (example_program\<lparr>program_provider :=
           Some \<lparr>provider_id = 1, provider_name = ''custom'', admin_groups = [], provider_project = None\<rparr>\<rparr>)\<rparr>]\<rparr>"

lemma custom_provider_overwrites:
  "length (active_jobs False custom_provider_jobs) = 2 \<and>
     job_status_count (update_job_status_counts_run custom_provider_jobs g) = [((QUEUED, ''custom''), 1)]"
proof -
  have "status_counts custom_provider_jobs = [((QUEUED, ''custom''), 1)]" "length (active_jobs False custom_provider_jobs) = 2" by code_simp+
  then show ?thesis by (simp add: update_job_status_counts_run_def)
qed

end
