(* ===== verification/Scheduler_Loop.thy ===== *)
theory Scheduler_Loop
  imports Fleets_Cleanup Filler_Balance Ray_Tasks Blocked_Events Outbox_Properties Metric_Tasks
begin

text \<open>
  The loop of the scheduler (\<^verbatim>\<open>scheduler/main.py\<close>) with its health counter (\<^verbatim>\<open>scheduler/health.py\<close>), for tasks
  over any state, and then the tasks of the program in the order \<open>Main.__init__\<close> lists them. \<open>kill n\<close> is the
  value of \<open>kill_signal.received\<close> at the \<open>n\<close>-th read of the loop.
\<close>

section \<open>Health\<close>

definition UNHEALTHY_THRESHOLD :: nat where
  "UNHEALTHY_THRESHOLD = 5"

definition set_db_error :: "nat \<Rightarrow> bool \<times> nat" where
  "set_db_error errors = (errors + 1 = 1, errors + 1)"

definition clear_db_error :: "nat \<Rightarrow> nat" where
  "clear_db_error errors = 0"

definition is_unhealthy :: "nat \<Rightarrow> bool" where
  "is_unhealthy errors \<longleftrightarrow> errors \<ge> UNHEALTHY_THRESHOLD"

section \<open>The loop\<close>

datatype loop_event =
    Ran string "unit res"
  | Logged_traceback string
  | Iteration_observed
  | Executor_shutdown
  | Closed string "unit res"
  | Http_stopped

record 's loop_state =
  ls_state :: 's
  ls_errors :: nat
  ls_log :: "loop_event list"
  ls_reads :: nat

type_synonym 's sched_task = "string \<times> (nat \<Rightarrow> 's \<Rightarrow> unit res \<times> 's)"

definition log_event :: "loop_event \<Rightarrow> 's loop_state \<Rightarrow> 's loop_state" where
  "log_event e st = st\<lparr>ls_log := ls_log st @ [e]\<rparr>"

definition read_kill :: "'s loop_state \<Rightarrow> 's loop_state" where
  "read_kill st = st\<lparr>ls_reads := Suc (ls_reads st)\<rparr>"

definition run_task :: "'s sched_task \<Rightarrow> 's loop_state \<Rightarrow> 's loop_state" where
  "run_task t st =
     (case snd t (ls_reads st) (ls_state st) of
        (Inr u, s) \<Rightarrow> log_event (Ran (fst t) (Inr u)) (st\<lparr>ls_state := s, ls_errors := clear_db_error (ls_errors st)\<rparr>)
      | (Inl e, s) \<Rightarrow>
          if is_db_outage e
          then (case set_db_error (ls_errors st) of
                  (first_error, n) \<Rightarrow>
                    let st1 = log_event (Ran (fst t) (Inl e)) (st\<lparr>ls_state := s, ls_errors := n\<rparr>)
                    in if first_error then log_event (Logged_traceback (fst t)) st1 else st1)
          else log_event (Logged_traceback (fst t)) (log_event (Ran (fst t) (Inl e)) (st\<lparr>ls_state := s\<rparr>)))"

fun run_tasks :: "(nat \<Rightarrow> bool) \<Rightarrow> 's sched_task list \<Rightarrow> 's loop_state \<Rightarrow> 's loop_state" where
  "run_tasks kill [] st = st"
| "run_tasks kill (t # ts) st =
     (if kill (ls_reads st) then read_kill st else run_tasks kill ts (run_task t (read_kill st)))"

definition iteration :: "(nat \<Rightarrow> bool) \<Rightarrow> 's sched_task list \<Rightarrow> 's loop_state \<Rightarrow> 's loop_state" where
  "iteration kill ts st = read_kill (log_event Iteration_observed (run_tasks kill ts st))"

partial_function (option) main_loop :: "(nat \<Rightarrow> bool) \<Rightarrow> 's sched_task list \<Rightarrow> 's loop_state \<Rightarrow> 's loop_state option" where
  "main_loop kill ts st =
     (if kill (ls_reads st) then Some (read_kill st) else main_loop kill ts (iteration kill ts (read_kill st)))"

text \<open>\<open>close name\<close> is how closing a task ends, \<open>ending\<close> how shutting the executor down ends.\<close>

definition close_tasks :: "(string \<Rightarrow> unit res) \<Rightarrow> 's sched_task list \<Rightarrow> 's loop_state \<Rightarrow> 's loop_state" where
  "close_tasks close ts = fold (\<lambda>t. log_event (Closed (fst t) (close (fst t)))) ts"

definition main_run ::
  "(nat \<Rightarrow> bool) \<Rightarrow> unit res \<Rightarrow> (string \<Rightarrow> unit res) \<Rightarrow> 's sched_task list \<Rightarrow> 's loop_state \<Rightarrow> (unit res \<times> 's loop_state) option" where
  "main_run kill ending close ts st =
     map_option (\<lambda>st1. (ending, log_event Http_stopped (close_tasks close ts (log_event Executor_shutdown st1)))) (main_loop kill ts st)"

section \<open>The health counter is the streak of database errors\<close>

text \<open>The outcomes of the tasks so far, and the reference: the database errors since the last task that returned.\<close>

fun outcomes :: "loop_event list \<Rightarrow> unit res list" where
  "outcomes [] = []"
| "outcomes (Ran _ r # es) = r # outcomes es"
| "outcomes (_ # es) = outcomes es"

definition failed_db :: "unit res \<Rightarrow> bool" where
  "failed_db r \<longleftrightarrow> (case r of Inl e \<Rightarrow> is_db_outage e | Inr _ \<Rightarrow> False)"

definition error_streak :: "unit res list \<Rightarrow> nat" where
  "error_streak rs = length (filter failed_db (takeWhile isl (rev rs)))"

lemma outcomes_append [simp]: "outcomes (xs @ ys) = outcomes xs @ outcomes ys"
  by (induction xs rule: outcomes.induct) simp_all

definition healthy_state :: "'s loop_state \<Rightarrow> bool" where
  "healthy_state st \<longleftrightarrow> ls_errors st = error_streak (outcomes (ls_log st))"

lemma run_task_health: "healthy_state st \<Longrightarrow> healthy_state (run_task t st)"
  by (auto simp: healthy_state_def run_task_def log_event_def error_streak_def failed_db_def set_db_error_def clear_db_error_def Let_def
      split: prod.splits sum.splits)

lemma read_kill_simps [simp]:
  "ls_state (read_kill st) = ls_state st" "ls_errors (read_kill st) = ls_errors st" "ls_log (read_kill st) = ls_log st"
  "ls_reads (read_kill st) = Suc (ls_reads st)"
  by (simp_all add: read_kill_def)

lemma log_event_simps [simp]:
  "ls_state (log_event e st) = ls_state st" "ls_errors (log_event e st) = ls_errors st" "ls_log (log_event e st) = ls_log st @ [e]"
  "ls_reads (log_event e st) = ls_reads st"
  by (simp_all add: log_event_def)

lemma run_task_reads [simp]: "ls_reads (run_task t st) = ls_reads st"
  by (auto simp: run_task_def set_db_error_def Let_def split: prod.splits sum.splits)

text \<open>
  An interface for what the loop preserves: whatever every task keeps of the state, and whatever every task keeps of the
  counter and the log.
\<close>

locale loop_invariant =
  fixes ts :: "'s sched_task list" and inv :: "'s loop_state \<Rightarrow> bool"
  assumes task_keeps: "t \<in> set ts \<Longrightarrow> inv st \<Longrightarrow> inv (run_task t st)"
    and quiet_keeps: "inv st \<Longrightarrow> inv (read_kill st)" "inv st \<Longrightarrow> inv (log_event Iteration_observed st)"
begin

lemma run_tasks_keeps: "set us \<subseteq> set ts \<Longrightarrow> inv st \<Longrightarrow> inv (run_tasks kill us st)"
  by (induction us arbitrary: st) (simp_all add: quiet_keeps task_keeps)

lemma iteration_keeps: "inv st \<Longrightarrow> inv (iteration kill ts st)"
  unfolding iteration_def by (intro quiet_keeps run_tasks_keeps) simp_all

lemma main_loop_keeps: "main_loop kill ts st = Some st' \<Longrightarrow> inv st \<Longrightarrow> inv st'"
proof -
  assume m: "main_loop kill ts st = Some st'" and i: "inv st"
  have "ts = ts \<longrightarrow> inv st \<longrightarrow> inv st'"
    by (rule main_loop.raw_induct [OF _ m, where P = "\<lambda>_ us st st'. us = ts \<longrightarrow> inv st \<longrightarrow> inv st'"])
      (auto split: if_splits intro: quiet_keeps, metis iteration_keeps quiet_keeps(1))
  then show ?thesis using i by simp
qed

end

interpretation health: loop_invariant ts healthy_state for ts
  by unfold_locales (rule run_task_health, assumption, simp_all add: healthy_state_def)

lemma run_tasks_reads: "ls_reads st \<le> ls_reads (run_tasks kill ts st)"
proof (induction ts arbitrary: st)
  case (Cons t ts)
  then show ?case using Cons [of "run_task t (read_kill st)"] by simp
qed simp

lemma main_loop_returns:
  assumes "kill m" "\<forall>a b. kill a \<longrightarrow> a \<le> b \<longrightarrow> kill b"
  shows "\<exists>st'. main_loop kill ts st = Some st'"
proof (induction "m - ls_reads st" arbitrary: st rule: less_induct)
  case less
  show ?case
  proof (cases "kill (ls_reads st)")
    case True
    then show ?thesis by (subst main_loop.simps) simp
  next
    case False
    then have "ls_reads st < m" using assms by (meson not_le)
    moreover have "ls_reads st < ls_reads (iteration kill ts (read_kill st))"
      using run_tasks_reads [of "read_kill st" kill ts] by (simp add: iteration_def)
    ultimately show ?thesis using less [of "iteration kill ts (read_kill st)"] False by (subst main_loop.simps) simp
  qed
qed

lemma close_tasks_log: "ls_log (close_tasks close ts st) = ls_log st @ map (\<lambda>t. Closed (fst t) (close (fst t))) ts"
  by (induction ts arbitrary: st) (simp_all add: close_tasks_def)

lemma close_tasks_frame [simp]:
  "ls_state (close_tasks close ts st) = ls_state st" "ls_errors (close_tasks close ts st) = ls_errors st"
  by (induction ts arbitrary: st) (simp_all add: close_tasks_def)

text \<open>
  C30: The scheduler stops when it is told to. If the kill signal arrives and stays, the loop ends, whatever the
  tasks raised; then the executor is shut down, every task is closed once in order even if closing one
  raised, and the HTTP server is stopped last. The health counter is the number of database errors since the
  last task that returned, so the scheduler reports unhealthy exactly after five of them.
\<close>

theorem scheduler_shuts_down:
  assumes "kill m" "\<forall>a b. kill a \<longrightarrow> a \<le> b \<longrightarrow> kill b" "ls_log st = []" "ls_errors st = 0"
  shows "\<exists>st' before. main_run kill ending close ts st = Some (ending, st') \<and>
    ls_log st' = before @ [Executor_shutdown] @ map (\<lambda>t. Closed (fst t) (close (fst t))) ts @ [Http_stopped] \<and>
    (is_unhealthy (ls_errors st') \<longleftrightarrow> 5 \<le> error_streak (outcomes before))"
proof -
  obtain st1 where l: "main_loop kill ts st = Some st1" using main_loop_returns [OF assms(1,2)] by blast
  have "healthy_state st" using assms(3,4) by (simp add: healthy_state_def error_streak_def)
  then have "healthy_state st1" using health.main_loop_keeps [OF l] by simp
  then show ?thesis
    using l by (auto simp: main_run_def close_tasks_log healthy_state_def is_unhealthy_def UNHEALTHY_THRESHOLD_def)
qed

theorem scheduler_shuts_down_witness:
  "\<exists>st' before. main_run (\<lambda>n. n \<ge> 4) (Inr ()) (\<lambda>_. Inl OperationalError) [(''T'', \<lambda>_ s. (Inl OperationalError, Suc s))]
     \<lparr>ls_state = 0, ls_errors = 0, ls_log = [], ls_reads = 0\<rparr> = Some (Inr (), st') \<and>
     ls_log st' = before @ [Executor_shutdown, Closed ''T'' (Inl OperationalError), Http_stopped] \<and>
     (is_unhealthy (ls_errors st') \<longleftrightarrow> 5 \<le> error_streak (outcomes before))"
proof -
  have "(4::nat) \<le> 4" "\<forall>a b. (4::nat) \<le> a \<longrightarrow> a \<le> b \<longrightarrow> 4 \<le> b" by simp_all
  from scheduler_shuts_down [where kill = "\<lambda>n. n \<ge> 4" and m = 4 and ending = "Inr ()" and close = "\<lambda>_. Inl OperationalError"
      and ts = "[(''T'', \<lambda>_ s. (Inl OperationalError, Suc s))]" and st = "\<lparr>ls_state = 0, ls_errors = 0, ls_log = [], ls_reads = 0\<rparr>", OF this]
  show ?thesis by simp
qed

section \<open>The tasks of the program\<close>

text \<open>
  The state of the tasks: the database with the breakers and the clusters, what the tasks keep in memory, and the gauges. The values of the settings, the
  answers of the services and the readings of the clocks at the \<open>n\<close>-th read of the kill signal are \<open>main_env\<close>; \<open>me_pass n d\<close> are the surroundings
  of the balancer, whose next identifier depends on the stored rows only in that it is new.
\<close>

record scheduler =
  sr_ray :: ray_state
  sr_cleaner :: cleaner
  sr_retry :: nat
  sr_consumer :: "kafka_consumer option"
  sr_events :: "event_metric list"
  sr_destinations :: "dest_name \<Rightarrow> region_breakers"
  sr_sends :: "(nat \<times> send_outcome) list"
  sr_gauges :: gauges

abbreviation sr_sched :: "scheduler \<Rightarrow> sched" where
  "sr_sched x \<equiv> ry_sched (sr_ray x)"

record main_env =
  me_jobs_per_user :: int
  me_max_cpu :: int
  me_max_gpu :: int
  me_max_fleets :: int
  me_environment :: string
  me_envs :: "string \<Rightarrow> nat \<Rightarrow> nat \<Rightarrow> ops_env"
  me_ray :: "string \<Rightarrow> nat \<Rightarrow> bool \<Rightarrow> nat \<Rightarrow> ray_env"
  me_kafka :: "nat \<Rightarrow> kafka_env"
  me_outage :: "nat \<Rightarrow> string option \<Rightarrow> exn option"
  me_drain :: "nat \<Rightarrow> drain_env"
  me_fuel :: "nat \<Rightarrow> scheduler \<Rightarrow> nat"
  me_pass :: "nat \<Rightarrow> db \<Rightarrow> pass_env"
  me_keep_unknown :: bool

definition set_sched :: "sched \<Rightarrow> scheduler \<Rightarrow> scheduler" where
  "set_sched s x = x\<lparr>sr_ray := (sr_ray x)\<lparr>ry_sched := s\<rparr>\<rparr>"

definition set_db :: "db \<Rightarrow> scheduler \<Rightarrow> scheduler" where
  "set_db d x = set_sched ((sr_sched x)\<lparr>sc_world := (sc_world (sr_sched x))\<lparr>wdb := d\<rparr>\<rparr>) x"

definition on_sched :: "(sched \<Rightarrow> unit res \<times> sched) \<Rightarrow> scheduler \<Rightarrow> unit res \<times> scheduler" where
  "on_sched f x = (case f (sr_sched x) of (r, s) \<Rightarrow> (r, set_sched s x))"

definition on_ray :: "(ray_state \<Rightarrow> unit res \<times> ray_state) \<Rightarrow> scheduler \<Rightarrow> unit res \<times> scheduler" where
  "on_ray f x = (case f (sr_ray x) of (r, y) \<Rightarrow> (r, x\<lparr>sr_ray := y\<rparr>))"

definition counts_task :: "scheduler \<Rightarrow> unit res \<times> scheduler" where
  "counts_task x = (Inr (), x\<lparr>sr_gauges := update_job_status_counts_run (sdb (sr_sched x)) (sr_gauges x)\<rparr>)"

definition consume_task :: "main_env \<Rightarrow> nat \<Rightarrow> scheduler \<Rightarrow> unit res \<times> scheduler" where
  "consume_task me n x =
     (case consume_blocked_run (me_kafka me n) (me_environment me) (me_outage me n) (sr_consumer x, sdb (sr_sched x)) of
        (r, ms, c, d) \<Rightarrow> (r, (set_db d x)\<lparr>sr_consumer := c, sr_events := sr_events x @ ms\<rparr>))"

text \<open>
  \<open>me_fuel n x\<close> bounds the batches of the \<open>n\<close>-th tick of the outbox on the state \<open>x\<close>. A tick that does not end within it is not a tick of the
  program; \<open>outbox_tick_ends\<close> shows that two more than there are rows are enough when the tick takes less than a second.
\<close>

definition outbox_tick :: "main_env \<Rightarrow> nat \<Rightarrow> scheduler \<Rightarrow> drain_state option" where
  "outbox_tick me n x =
     outbox_run (me_fuel me n x) (me_drain me n) outbox_channels
       \<lparr>d_db = sdb (sr_sched x), d_breakers = sr_destinations x, d_tick = 0, d_log = sr_sends x\<rparr>"

definition outbox_task :: "main_env \<Rightarrow> nat \<Rightarrow> scheduler \<Rightarrow> unit res \<times> scheduler" where
  "outbox_task me n x =
     (case outbox_tick me n x of
        None \<Rightarrow> (Inl (OtherException ''out of fuel''), x)
      | Some s \<Rightarrow> (Inr (), (set_db (d_db s) x)\<lparr>sr_destinations := d_breakers s, sr_sends := d_log s\<rparr>))"

definition balance_task :: "main_env \<Rightarrow> nat \<Rightarrow> scheduler \<Rightarrow> unit res \<times> scheduler" where
  "balance_task me n x =
     (case balance_run (me_pass me n (sdb (sr_sched x))) (sr_retry x, sr_sched x) of
        (r, k, s) \<Rightarrow> (r, (set_sched s x)\<lparr>sr_retry := k\<rparr>))"

definition free_fleets_task :: "main_env \<Rightarrow> nat \<Rightarrow> scheduler \<Rightarrow> unit res \<times> scheduler" where
  "free_fleets_task me n x =
     (case free_fleets_run (me_keep_unknown me) (me_envs me ''FreeFleetsResources'' n) (sr_cleaner x, sr_sched x) of
        (r, c, s) \<Rightarrow> (r, (set_sched s x)\<lparr>sr_cleaner := c\<rparr>))"

definition export_task :: "main_env \<Rightarrow> nat \<Rightarrow> scheduler \<Rightarrow> unit res \<times> scheduler" where
  "export_task me n x =
     (let env = me_envs me ''ExportFleetsBreakers'' n 0 in
      case export_breakers_run (oe_conf env) (oe_mono env) (sc_breakers (sr_sched x), sr_gauges x) of
        (fb, g) \<Rightarrow> (Inr (), (set_sched ((sr_sched x)\<lparr>sc_breakers := fb\<rparr>) x)\<lparr>sr_gauges := g\<rparr>))"

definition main_tasks :: "main_env \<Rightarrow> scheduler sched_task list" where
  "main_tasks me =
     (let envs = me_envs me; ray = me_ray me in
      [(''UpdateJobStatusCounts'', \<lambda>n. counts_task),
       (''ConsumeBlockedAccountEvents'', consume_task me),
       (''ScheduleRayJobs'', \<lambda>n. on_ray (schedule_ray_run (me_jobs_per_user me) (me_max_cpu me) (me_max_gpu me) (ray ''ScheduleRayJobs'' n))),
       (''ScheduleFleetsJobs'', \<lambda>n. on_sched (schedule_fleets_run (me_jobs_per_user me) (me_max_fleets me) (envs ''ScheduleFleetsJobs'' n))),
       (''UpdateRayJobsStatuses'', \<lambda>n. on_ray (update_ray_run (me_max_cpu me) (me_max_gpu me) (ray ''UpdateRayJobsStatuses'' n False))),
       (''UpdateFleetsJobsStatuses'', \<lambda>n. on_sched (update_fleets_run (me_max_fleets me) (envs ''UpdateFleetsJobsStatuses'' n))),
       (''StopBlockedFleetsJobs'', \<lambda>n. on_sched (stop_blocked_run (envs ''StopBlockedFleetsJobs'' n))),
       (''OutboxTask'', outbox_task me),
       (''BalanceFillerJobs'', balance_task me),
       (''FreeRayResources'', \<lambda>n. on_ray (free_ray_run (ray ''FreeRayResources'' n False))),
       (''FreeFleetsResources'', free_fleets_task me),
       (''ExportFleetsBreakers'', export_task me)])"

text \<open>What is asked of the surroundings: Kafka senders raise only what the service catches and report only messages they were given, the next identifier is
  new, and every tick of the outbox ends.\<close>

definition main_ok :: "main_env \<Rightarrow> bool" where
  "main_ok me \<longleftrightarrow> (\<forall>c n k. sender_quiet (oe_call (me_envs me c n k))) \<and>
     (\<forall>n d. job_row d (fe_uuid (pe_filler (me_pass me n d))) = None) \<and>
     (\<forall>n. batches_honest (me_drain me n)) \<and>
     (\<forall>n x. life_reach (sdb (sr_sched x)) \<longrightarrow> outbox_tick me n x \<noteq> None)"

lemma set_db_simps [simp]: "sdb (sr_sched (set_db d x)) = d" "sr_sched (set_sched s x) = s" "sr_sched (x\<lparr>sr_consumer := c\<rparr>) = sr_sched x"
  by (simp_all add: set_db_def set_sched_def)

lemma reachable_facts: "life_reach d \<Longrightarrow> distinct (map job_id (job_tbl d))" "life_reach d \<Longrightarrow> distinct (map ob_pk (outbox_tbl d))"
  using life_reach_inv by (auto simp: life_inv_def rows_inv_def owed_inv_def)

lemma outbox_tick_ends:
  assumes "batches_honest (me_drain me n)" "window (me_drain me n) T" "steady (me_drain me n)" "life_reach (sdb (sr_sched x))"
    and "me_fuel me n x = length (outbox_tbl (sdb (sr_sched x))) + 2"
  shows "outbox_tick me n x \<noteq> None"
proof -
  let ?s = "\<lparr>d_db = sdb (sr_sched x), d_breakers = sr_destinations x, d_tick = 0, d_log = sr_sends x\<rparr>"
  have "distinct (map ob_pk (rows_of ?s))" "length (rows_of ?s) + 2 \<le> me_fuel me n x"
    using reachable_facts(2) [OF assms(4)] assms(5) by (simp_all add: rows_of_def)
  from outbox_run_ends [OF assms(1-3) this] show ?thesis by (auto simp: outbox_tick_def)
qed

lemma outbox_tick_steps:
  assumes "batches_honest env" "distinct (map ob_pk (outbox_tbl (d_db s)))" "outbox_run fuel env chans s = Some s'"
  shows "life_steps (d_db s) (d_db s')"
proof -
  obtain new f where e: "evolution env UNIV 0 s s' new f"
    using outbox_run_evolves [OF assms(1,3), of 0] assms(2) by (auto simp: evolves_def rows_of_def)
  let ?d = "(d_db s)\<lparr>outbox_tbl := filter (\<lambda>r. \<not> confirmed_in new r) (outbox_tbl (d_db s))\<rparr>"
  have "d_db s' = (d_db s)\<lparr>outbox_tbl := rows_of s'\<rparr>" "rows_of s' = map f (filter (\<lambda>r. \<not> confirmed_in new r) (rows_of s))"
    using e unfolding evolution_def by blast+
  then have "d_db s' = ?d\<lparr>outbox_tbl := map f (outbox_tbl ?d)\<rparr>" unfolding rows_of_def by simp
  moreover have "life_step ?d (?d\<lparr>outbox_tbl := map f (outbox_tbl ?d)\<rparr>)"
    by (rule step_outbox_retry) (use e in \<open>auto simp: evolution_def kept_def\<close>)
  moreover have "life_step (d_db s) ?d" by (rule step_outbox_delete)
  ultimately show ?thesis by simp
qed

lemma task_steps:
  assumes "main_ok me" "life_reach (sdb (sr_sched x))"
  shows "counts_task x = (r, x') \<Longrightarrow> life_steps (sdb (sr_sched x)) (sdb (sr_sched x'))"
    and "consume_task me n x = (r, x') \<Longrightarrow> life_steps (sdb (sr_sched x)) (sdb (sr_sched x'))"
    and "outbox_task me n x = (r, x') \<Longrightarrow> life_steps (sdb (sr_sched x)) (sdb (sr_sched x'))"
    and "balance_task me n x = (r, x') \<Longrightarrow> life_steps (sdb (sr_sched x)) (sdb (sr_sched x'))"
    and "free_fleets_task me n x = (r, x') \<Longrightarrow> life_steps (sdb (sr_sched x)) (sdb (sr_sched x'))"
    and "export_task me n x = (r, x') \<Longrightarrow> life_steps (sdb (sr_sched x)) (sdb (sr_sched x'))"
proof -
  note d = reachable_facts [OF assms(2)]
  have ok: "batches_honest (me_drain me n)" "job_row (sdb (sr_sched x)) (fe_uuid (pe_filler (me_pass me n (sdb (sr_sched x))))) = None"
    using assms(1) by (simp_all add: main_ok_def)
  show "counts_task x = (r, x') \<Longrightarrow> life_steps (sdb (sr_sched x)) (sdb (sr_sched x'))" by (auto simp: counts_task_def)
  show "consume_task me n x = (r, x') \<Longrightarrow> life_steps (sdb (sr_sched x)) (sdb (sr_sched x'))"
    by (auto simp: consume_task_def split: prod.splits dest!: consume_blocked_steps)
  show "outbox_task me n x = (r, x') \<Longrightarrow> life_steps (sdb (sr_sched x)) (sdb (sr_sched x'))"
    using outbox_tick_steps [OF ok(1)] d(2) by (force simp: outbox_task_def outbox_tick_def split: option.splits)
  show "balance_task me n x = (r, x') \<Longrightarrow> life_steps (sdb (sr_sched x)) (sdb (sr_sched x'))"
    using balance_run_steps [OF d(1)] ok(2) by (auto simp: balance_task_def split: prod.splits)
  show "free_fleets_task me n x = (r, x') \<Longrightarrow> life_steps (sdb (sr_sched x)) (sdb (sr_sched x'))"
    using free_fleets_run_steps [OF d(1)] by (auto simp: free_fleets_task_def split: prod.splits)
  show "export_task me n x = (r, x') \<Longrightarrow> life_steps (sdb (sr_sched x)) (sdb (sr_sched x'))"
    by (auto simp: export_task_def Let_def split: prod.splits)
qed

lemma main_task_steps:
  assumes "main_ok me" "t \<in> set (main_tasks me)" "life_reach (sdb (sr_sched x))" "snd t n x = (r, x')"
  shows "life_steps (sdb (sr_sched x)) (sdb (sr_sched x'))"
proof -
  note d = reachable_facts(1) [OF assms(3)]
  have quiet: "\<forall>k. sender_quiet (oe_call (me_envs me c n k))" for c using assms(1) by (simp add: main_ok_def)
  have fleets: "\<And>l m e s' r. schedule_fleets_run l m e (sr_sched x) = (r, s') \<Longrightarrow> life_steps (sdb (sr_sched x)) (sdb s')"
    "\<And>m c s' r. update_fleets_run m (me_envs me c n) (sr_sched x) = (r, s') \<Longrightarrow> life_steps (sdb (sr_sched x)) (sdb s')"
    "\<And>e s' r. stop_blocked_run e (sr_sched x) = (r, s') \<Longrightarrow> life_steps (sdb (sr_sched x)) (sdb s')"
    using schedule_run_steps [OF d] update_run_steps [OF d quiet] stop_blocked_run_steps [OF d] by blast+
  show ?thesis
    using assms(2,4) task_steps [OF assms(1,3)] fleets schedule_ray_run_steps [OF _ assms(3)] update_ray_run_steps [OF _ d] free_ray_run_steps [OF _ d]
    by (auto simp: main_tasks_def Let_def on_sched_def on_ray_def split: prod.splits)
qed

definition reachable_state :: "scheduler loop_state \<Rightarrow> bool" where
  "reachable_state st \<longleftrightarrow> life_reach (sdb (sr_sched (ls_state st)))"

lemma run_task_state: "ls_state (run_task t st) = snd (snd t (ls_reads st) (ls_state st))"
  by (auto simp: run_task_def Let_def split: prod.splits sum.splits)


lemma main_task_reachable:
  assumes "main_ok me" "t \<in> set (main_tasks me)" "reachable_state st"
  shows "reachable_state (run_task t st)"
proof -
  obtain r x' where x: "snd t (ls_reads st) (ls_state st) = (r, x')" by fastforce
  have "life_steps (sdb (sr_sched (ls_state st))) (sdb (sr_sched x'))"
    using main_task_steps [OF assms(1,2) _ x] assms(3) by (simp add: reachable_state_def)
  then show ?thesis using assms(3) x life_steps_reach by (simp add: reachable_state_def run_task_state)
qed

text \<open>The surroundings of the program as one interface, with a default where they are not as asked.\<close>

interpretation refine: loop_invariant "main_tasks me" "\<lambda>st. main_ok me \<longrightarrow> reachable_state st" for me
  by unfold_locales (use main_task_reachable in \<open>auto simp: reachable_state_def\<close>)

text \<open>
  C4: The scheduler refines the life cycle of jobs. Started on a database that the life cycle reaches, every task of the loop
  makes only steps of the life cycle, and when the loop ends the database is again one that the life cycle
  reaches, with the invariants of every such database.
\<close>

theorem scheduler_refines_lifecycle:
  assumes "main_ok me" "life_reach (sdb (sr_sched (ls_state st)))"
  shows "(\<forall>t \<in> set (main_tasks me). life_steps (sdb (sr_sched (ls_state st))) (sdb (sr_sched (snd (snd t n (ls_state st)))))) \<and>
    (\<forall>st'. main_loop kill (main_tasks me) st = Some st' \<longrightarrow>
       life_reach (sdb (sr_sched (ls_state st'))) \<and> life_inv (sdb (sr_sched (ls_state st'))))"
proof (intro conjI ballI allI impI)
  fix t assume t: "t \<in> set (main_tasks me)"
  obtain r x' where x: "snd t n (ls_state st) = (r, x')" by fastforce
  show "life_steps (sdb (sr_sched (ls_state st))) (sdb (sr_sched (snd (snd t n (ls_state st)))))"
    using main_task_steps [OF assms(1) t assms(2) x] x by simp
next
  fix st' assume m: "main_loop kill (main_tasks me) st = Some st'"
  then show "life_reach (sdb (sr_sched (ls_state st')))"
    using refine.main_loop_keeps [OF m] assms by (simp add: reachable_state_def)
  then show "life_inv (sdb (sr_sched (ls_state st')))" by (rule life_reach_inv)
qed

text \<open>An identifier longer than every stored one, and surroundings with it.\<close>

definition fresh_id :: "db \<Rightarrow> string" where
  "fresh_id d = CHR ''x'' # concat (map job_id (job_tbl d))"

lemma fresh_id_new: "job_row d (fresh_id d) = None"
proof -
  have "length (job_id j) < length (fresh_id d)" if "j \<in> set (job_tbl d)" for j
    using that by (auto simp: fresh_id_def length_concat comp_def less_Suc_eq_le intro: member_le_sum_list)
  then have "fresh_id d \<notin> job_id ` set (job_tbl d)" by (metis imageE less_irrefl)
  then show ?thesis by (simp add: job_row_def row_of_None_iff)
qed

definition ex_main :: main_env where
  "ex_main = \<lparr>me_jobs_per_user = 2, me_max_cpu = 1, me_max_gpu = 0, me_max_fleets = 5, me_environment = ''staging'', me_envs = (\<lambda>_ n _. ex_ops (int n)),
     me_ray = (\<lambda>_ _ _ _. ex_ray_env None []), me_kafka = (\<lambda>_. ex_kafka), me_outage = (\<lambda>_ _. None), me_drain = (\<lambda>_. tick_env),
     me_fuel = (\<lambda>_ x. length (outbox_tbl (sdb (sr_sched x))) + 2),
     me_pass = (\<lambda>n d. ex_pass\<lparr>pe_filler := (pe_filler ex_pass)\<lparr>fe_uuid := fresh_id d\<rparr>\<rparr>), me_keep_unknown = True\<rparr>"

definition ex_loop :: "scheduler loop_state" where
  "ex_loop = \<lparr>ls_state = \<lparr>sr_ray = \<lparr>ry_sched = ex_sched ex_queued, ry_clusters = [], ry_k8s = [], ry_logs = []\<rparr>,
     sr_cleaner = \<lparr>failed_attempts = [], given_up = []\<rparr>, sr_retry = 0, sr_consumer = None, sr_events = [], sr_destinations = (\<lambda>_. []), sr_sends = [],
     sr_gauges = \<lparr>job_status_count = [], filler_jobs_count = [], fleets_breaker_open = []\<rparr>\<rparr>,
     ls_errors = 0, ls_log = [], ls_reads = 0\<rparr>"

lemma ex_main_ok: "main_ok ex_main"
proof -
  have "outbox_tick ex_main n x \<noteq> None" if "life_reach (sdb (sr_sched x))" for n x
    by (rule outbox_tick_ends [of _ _ 10]) (use tick_facts that in \<open>simp_all add: ex_main_def\<close>)
  then show ?thesis using tick_facts by (simp add: main_ok_def ex_main_def fresh_id_new sender_quiet_def ex_ops_def ex_env_def)
qed

theorem scheduler_refines_lifecycle_witness:
  "\<exists>st'. main_loop (\<lambda>n. n \<ge> 20) (main_tasks ex_main) ex_loop = Some st' \<and> life_inv (sdb (sr_sched (ls_state st')))"
proof -
  have "life_reach (sdb (sr_sched (ls_state ex_loop)))"
  proof -
    have "life_step empty_db (store_job 0 API RUN_PROGRAM (example_job QUEUED) True empty_db)"
      by (rule step_create) (auto simp: empty_db_def job_row_def example_job_def Job_new_def should_be_mirrored_def truthy_def)
    then have "life_reach (store_job 0 API RUN_PROGRAM (example_job QUEUED) True empty_db)" by (rule life_next [OF life_init])
    then show ?thesis by (simp add: ex_loop_def ex_sched_def ex_queued_def)
  qed
  moreover obtain st' where "main_loop (\<lambda>n. n \<ge> 20) (main_tasks ex_main) ex_loop = Some st'"
    using main_loop_returns [of "\<lambda>n. n \<ge> 20" 20] by fastforce
  ultimately show ?thesis using scheduler_refines_lifecycle [OF ex_main_ok] by blast
qed

end
