(* ===== verification/Authorization.thy ===== *)
theory Authorization
  imports Models
begin

text \<open>
  Who may do what: what the Runtime API grants to an instance (\<^verbatim>\<open>core/domain/authorization\<close>), the access policies
  (\<^verbatim>\<open>api/access_policies\<close>), and the query sets that look functions up with a permission
  (\<^verbatim>\<open>core/model_managers/functions.py\<close> and its neighbours). The tables the queries read are in the record
  \<open>catalog\<close>; \<open>group_perms\<close> gives the codenames of the permissions of a Django group.
\<close>

section \<open>What an instance is granted\<close>

definition VIEW_PROGRAM_PERMISSION :: string where "VIEW_PROGRAM_PERMISSION = ''view_program''"

definition RUN_PROGRAM_PERMISSION :: string where "RUN_PROGRAM_PERMISSION = ''run_program''"

definition PLATFORM_PERMISSION_READ :: string where "PLATFORM_PERMISSION_READ = ''function.read''"

definition PLATFORM_PERMISSION_RUN :: string where "PLATFORM_PERMISSION_RUN = ''function.run''"

definition PLATFORM_PERMISSION_WRITE :: string where "PLATFORM_PERMISSION_WRITE = ''function.write''"

definition PLATFORM_PERMISSION_JOBS_READ :: string where "PLATFORM_PERMISSION_JOBS_READ = ''function-job.read''"

definition PLATFORM_PERMISSION_PROVIDER_LOGS :: string where
  "PLATFORM_PERMISSION_PROVIDER_LOGS = ''function-provider-logs.read''"

definition PLATFORM_PERMISSION_PROVIDER_FILES_READ :: string where
  "PLATFORM_PERMISSION_PROVIDER_FILES_READ = ''function-provider-files.read''"

definition PLATFORM_PERMISSION_PROVIDER_FILES_WRITE :: string where
  "PLATFORM_PERMISSION_PROVIDER_FILES_WRITE = ''function-provider-files.write''"

definition PLATFORM_PERMISSION_CUSTOM_WRITE :: string where "PLATFORM_PERMISSION_CUSTOM_WRITE = ''function-custom.write''"

definition PLATFORM_PERMISSION_CUSTOM_RUN :: string where "PLATFORM_PERMISSION_CUSTOM_RUN = ''function-custom.run''"

definition VALID_BUSINESS_MODELS :: "string list" where
  "VALID_BUSINESS_MODELS = [''TRIAL'', ''LICENSED'', ''CONSUMPTION'']"

record function_access_entry =
  fae_provider_name :: string
  fae_function_title :: string
  fae_business_model :: string
  fae_permissions :: "string list"

text \<open>The constructor with its \<open>__post_init__\<close>.\<close>

definition FunctionAccessEntry :: "string \<Rightarrow> string \<Rightarrow> string \<Rightarrow> string list \<Rightarrow> function_access_entry res" where
  "FunctionAccessEntry pn t bm perms =
     (let m = licensed_instead_of_subsidized (upper bm) in
      if m \<in> set VALID_BUSINESS_MODELS
      then Inr \<lparr>fae_provider_name = pn, fae_function_title = t, fae_business_model = m, fae_permissions = perms\<rparr>
      else Inl (ValueError (''Invalid business_model '' @ [CHR 0x27] @ m @ [CHR 0x27] @ '' for '' @ pn @ ''.'' @ t)))"

record function_access_result =
  use_legacy_authorization :: bool
  far_functions :: "function_access_entry list"
  custom_function_permissions :: "string list"

definition get_entry :: "function_access_result \<Rightarrow> string \<Rightarrow> string \<Rightarrow> function_access_entry option" where
  "get_entry far pn t = find (\<lambda>e. fae_provider_name e = pn \<and> fae_function_title e = t) (far_functions far)"

definition has_permission_for_function :: "function_access_result \<Rightarrow> string \<Rightarrow> string \<Rightarrow> string \<Rightarrow> bool" where
  "has_permission_for_function far pn t perm =
     (case get_entry far pn t of None \<Rightarrow> False | Some e \<Rightarrow> perm \<in> set (fae_permissions e))"

definition has_permission_for_provider :: "function_access_result \<Rightarrow> string \<Rightarrow> string \<Rightarrow> bool" where
  "has_permission_for_provider far pn perm =
     list_ex (\<lambda>e. fae_provider_name e = pn \<and> perm \<in> set (fae_permissions e)) (far_functions far)"

text \<open>A dictionary from provider to titles, in the order the providers first appear.\<close>

fun add_title :: "string \<Rightarrow> string \<Rightarrow> (string \<times> string list) list \<Rightarrow> (string \<times> string list) list" where
  "add_title pn t [] = [(pn, [t])]"
| "add_title pn t ((q, ts) # rest) =
     (if q = pn then (q, List.insert t ts) # rest else (q, ts) # add_title pn t rest)"

definition get_functions_by_provider :: "function_access_result \<Rightarrow> string \<Rightarrow> (string \<times> string list) list" where
  "get_functions_by_provider far perm =
     fold (\<lambda>e acc. if perm \<in> set (fae_permissions e) then add_title (fae_provider_name e) (fae_function_title e) acc else acc)
       (far_functions far) []"

definition has_custom_permission :: "function_access_result \<Rightarrow> string \<Rightarrow> bool" where
  "has_custom_permission far perm \<longleftrightarrow> perm \<in> set (custom_function_permissions far)"

section \<open>The tables of functions\<close>

record catalog =
  cat_programs :: "program list"
  cat_sizes :: "function_size list"
  cat_profiles :: "compute_profile list"
  cat_providers :: "provider list"
  cat_projects :: "code_engine_project list"
  group_perms :: "nat \<Rightarrow> string list"

text \<open>\<open>first()\<close> of a query set without an order takes the smallest primary key.\<close>

definition first_by :: "('a \<Rightarrow> 'k :: linorder) \<Rightarrow> 'a list \<Rightarrow> 'a option" where
  "first_by key rows = (case sort_key key rows of [] \<Rightarrow> None | x # _ \<Rightarrow> Some x)"

lemma first_by_mem: "first_by key rows = Some x \<Longrightarrow> x \<in> set rows"
  by (auto simp: first_by_def split: list.splits) (metis list.set_intros(1) set_sort)

lemma first_by_None [simp]: "first_by key rows = None \<longleftrightarrow> rows = []"
  by (auto simp: first_by_def split: list.splits) (metis set_empty set_sort)

lemma first_by_single: "(\<And>y. y \<in> set rows \<Longrightarrow> y = x) \<Longrightarrow> x \<in> set rows \<Longrightarrow> first_by key rows = Some x"
  by (metis first_by_None first_by_mem option.exhaust empty_iff empty_set)

lemma first_by_unique:
  assumes "\<And>x y. x \<in> set rows \<Longrightarrow> y \<in> set rows \<Longrightarrow> x = y"
  shows "first_by key rows = Some p \<longleftrightarrow> p \<in> set rows"
proof
  assume "p \<in> set rows"
  then show "first_by key rows = Some p" using assms by (intro first_by_single) auto
qed (rule first_by_mem)

definition is_author :: "user \<Rightarrow> program \<Rightarrow> bool" where
  "is_author u p \<longleftrightarrow> user_id (program_author p) = user_id u"

definition of_provider :: "string \<Rightarrow> program \<Rightarrow> bool" where
  "of_provider pn p \<longleftrightarrow> map_option provider_name (program_provider p) = Some pn"

definition groups_with :: "catalog \<Rightarrow> user \<Rightarrow> string option \<Rightarrow> nat list" where
  "groups_with cat u perm = filter (\<lambda>g. case perm of None \<Rightarrow> group_perms cat g = [] | Some c \<Rightarrow> c \<in> set (group_perms cat g)) (user_groups u)"

definition uses_instances :: "function_access_result option \<Rightarrow> bool" where
  "uses_instances far \<longleftrightarrow> (case far of None \<Rightarrow> False | Some f \<Rightarrow> \<not> use_legacy_authorization f)"

definition with_permission ::
  "catalog \<Rightarrow> user \<Rightarrow> string option \<Rightarrow> function_access_result option \<Rightarrow> string \<Rightarrow> program list \<Rightarrow> program list" where
  "with_permission cat u legacy_permission far perm rows =
     (if uses_instances far
      then (let names = get_functions_by_provider (the far) perm in
            filter (\<lambda>p. is_author u p \<and> program_provider p = None \<or>
              list_ex (\<lambda>(pn, ts). of_provider pn p \<and> title p \<in> set ts) names) rows)
      else (let gs = groups_with cat u legacy_permission in
            filter (\<lambda>p. is_author u p \<or> list_ex (\<lambda>g. g \<in> set gs) (instances p)) rows))"

definition user_functions :: "user \<Rightarrow> program list \<Rightarrow> program list" where
  "user_functions u rows = filter (\<lambda>p. is_author u p \<and> program_provider p = None) rows"

definition provider_functions :: "string option \<Rightarrow> program list \<Rightarrow> program list" where
  "provider_functions pn rows =
     (if \<not> truthy pn then filter (\<lambda>p. program_provider p \<noteq> None) rows else filter (of_provider (the pn)) rows)"

definition get_user_function :: "catalog \<Rightarrow> user \<Rightarrow> string \<Rightarrow> program option" where
  "get_user_function cat u t = first_by program_id (filter (\<lambda>p. title p = t) (user_functions u (cat_programs cat)))"

definition get_function :: "string \<Rightarrow> string option \<Rightarrow> program list \<Rightarrow> program option" where
  "get_function t pn rows =
     (let q = filter (\<lambda>p. title p = t) rows
      in first_by program_id (if truthy pn then provider_functions pn q else q))"

definition get_function_by_permission ::
  "catalog \<Rightarrow> user \<Rightarrow> string \<Rightarrow> string option \<Rightarrow> function_access_result option \<Rightarrow> string \<Rightarrow> string option \<Rightarrow> program option" where
  "get_function_by_permission cat u t pn far perm legacy_permission =
     (if \<not> truthy pn then get_function t None (user_functions u (cat_programs cat))
      else if uses_instances far
      then (case get_entry (the far) (the pn) t of
              None \<Rightarrow> None
            | Some e \<Rightarrow> if perm \<notin> set (fae_permissions e) then None else get_function t pn (cat_programs cat))
      else get_function t pn (with_permission cat u legacy_permission None perm (cat_programs cat)))"

text \<open>\<open>ProviderQuerySet\<close>, \<open>ComputeProfileQuerySet\<close>, \<open>FunctionSizeQuerySet\<close> and \<open>CodeEngineProjectQuerySet\<close>.\<close>

definition get_by_name :: "catalog \<Rightarrow> string \<Rightarrow> provider option" where
  "get_by_name cat nm = first_by provider_id (filter (\<lambda>p. provider_name p = nm) (cat_providers cat))"

definition get_by_id :: "catalog \<Rightarrow> string option \<Rightarrow> compute_profile option" where
  "get_by_id cat i = (if \<not> truthy i then None else find (\<lambda>c. Some (profile_id c) = i) (cat_profiles cat))"

definition function_sizes :: "catalog \<Rightarrow> program \<Rightarrow> function_size list" where
  "function_sizes cat p = filter (\<lambda>fs. fs_function fs = program_id p) (cat_sizes cat)"

definition get_function_size :: "catalog \<Rightarrow> program \<Rightarrow> string option \<Rightarrow> function_size option" where
  "get_function_size cat p sz =
     (if \<not> truthy sz then None
      else first_by fs_id (filter (\<lambda>fs. lower (fs_label fs) = lower (the sz)) (function_sizes cat p)))"

definition resolve_compute_profile :: "catalog \<Rightarrow> program \<Rightarrow> string option \<Rightarrow> compute_profile option" where
  "resolve_compute_profile cat p sz =
     (if \<not> truthy sz then None else map_option fs_profile (get_function_size cat p sz))"

definition select_default :: "string \<Rightarrow> catalog \<Rightarrow> code_engine_project option res" where
  "select_default default_name cat =
     (if default_name = [] then Inl (ValueError ''CE_DEFAULT_PROJECT_NAME not configured'')
      else Inr (first_by cep_id (filter (\<lambda>pr. cep_active pr \<and> project_name pr = default_name \<and>
              \<not> list_ex (\<lambda>p. map_option cep_id (provider_project p) = Some (cep_id pr)) (cat_providers cat)) (cat_projects cat))))"

definition assign_to_program :: "string \<Rightarrow> catalog \<Rightarrow> program \<Rightarrow> program res" where
  "assign_to_program default_name cat p =
     (if program_runner p \<noteq> FLEETS \<or> program_project p \<noteq> None then Inr p
      else (case program_provider p of
              Some pr \<Rightarrow> Inr (p\<lparr>program_project := (case provider_project pr of
                           Some x \<Rightarrow> if cep_active x then Some x else None | None \<Rightarrow> None)\<rparr>)
            | None \<Rightarrow> (case select_default default_name cat of
                        Inl e \<Rightarrow> Inl e
                      | Inr x \<Rightarrow> Inr (p\<lparr>program_project := x\<rparr>))))"

section \<open>Access policies\<close>

definition provider_admin :: "user \<Rightarrow> provider \<Rightarrow> bool" where
  "provider_admin u pr \<longleftrightarrow> list_ex (\<lambda>g. g \<in> set (user_groups u)) (admin_groups pr)"

definition check_provider :: "catalog \<Rightarrow> user \<Rightarrow> provider \<Rightarrow> string \<Rightarrow> function_access_result option \<Rightarrow> string \<Rightarrow> bool" where
  "check_provider cat u pr t far perm =
     (if \<not> uses_instances far \<and> provider_admin u pr then True
      else if uses_instances far \<and> has_permission_for_function (the far) (provider_name pr) t perm then True
      else list_ex (\<lambda>p. map_option provider_id (program_provider p) = Some (provider_id pr) \<and> title p = t \<and> is_author u p)
             (cat_programs cat))"

text \<open>The named methods of \<open>ProviderAccessPolicy\<close>: each refuses a missing provider and checks one permission.\<close>

definition provider_policy ::
  "string \<Rightarrow> catalog \<Rightarrow> user \<Rightarrow> provider option \<Rightarrow> string \<Rightarrow> function_access_result option \<Rightarrow> bool res" where
  "provider_policy perm cat u pr t far =
     (case pr of None \<Rightarrow> Inl (ValueError ''provider cannot be None'') | Some p \<Rightarrow> Inr (check_provider cat u p t far perm))"

abbreviation can_retrieve_job where "can_retrieve_job \<equiv> provider_policy PLATFORM_PERMISSION_JOBS_READ"

definition can_read_logs where "can_read_logs = provider_policy PLATFORM_PERMISSION_PROVIDER_LOGS"

definition can_list_jobs where "can_list_jobs = provider_policy PLATFORM_PERMISSION_JOBS_READ"

definition can_read_files where "can_read_files = provider_policy PLATFORM_PERMISSION_PROVIDER_FILES_READ"

definition can_write_files where "can_write_files = provider_policy PLATFORM_PERMISSION_PROVIDER_FILES_WRITE"

definition can_upload_function where "can_upload_function = provider_policy PLATFORM_PERMISSION_WRITE"

definition is_provider_admin :: "user \<Rightarrow> provider option \<Rightarrow> bool res" where
  "is_provider_admin u pr =
     (case pr of None \<Rightarrow> Inl (ValueError ''provider cannot be None'') | Some p \<Rightarrow> Inr (provider_admin u p))"

definition job_author :: "user \<Rightarrow> job \<Rightarrow> bool" where
  "job_author u j \<longleftrightarrow> user_id u = user_id (author j)"

definition job_provider :: "job \<Rightarrow> provider option" where
  "job_provider j = Option.bind (job_program j) program_provider"

text \<open>\<open>JobAccessPolicies\<close>.\<close>

definition can_access :: "catalog \<Rightarrow> user option \<Rightarrow> job option \<Rightarrow> function_access_result option \<Rightarrow> bool res" where
  "can_access cat u j far =
     (case u of None \<Rightarrow> Inl (ValueError ''user cannot be None'')
      | Some u \<Rightarrow>
          (case j of None \<Rightarrow> Inl (ValueError ''job cannot be None'')
           | Some j \<Rightarrow>
               if job_author u j then Inr True
               else (case job_provider j of
                       None \<Rightarrow> Inr False
                     | Some pr \<Rightarrow> can_retrieve_job cat u (Some pr) (title (the (job_program j))) far)))"

definition can_read_result :: "user \<Rightarrow> job \<Rightarrow> bool" where "can_read_result u j = job_author u j"

definition can_read_user_logs :: "user \<Rightarrow> job \<Rightarrow> bool" where "can_read_user_logs u j = job_author u j"

definition can_read_provider_logs :: "catalog \<Rightarrow> user \<Rightarrow> job \<Rightarrow> function_access_result option \<Rightarrow> bool res" where
  "can_read_provider_logs cat u j far =
     (case job_provider j of None \<Rightarrow> Inr False | Some pr \<Rightarrow> can_read_logs cat u (Some pr) (title (the (job_program j))) far)"

definition can_save_result :: "user \<Rightarrow> job \<Rightarrow> bool" where "can_save_result u j = job_author u j"

definition can_manage_runtime_jobs :: "user \<Rightarrow> job \<Rightarrow> bool" where "can_manage_runtime_jobs u j = job_author u j"

definition can_update_sub_status :: "user \<Rightarrow> job \<Rightarrow> bool" where "can_update_sub_status u j = job_author u j"

definition can_create_events :: "user \<Rightarrow> job \<Rightarrow> bool" where "can_create_events u j = job_author u j"

definition can_read_events :: "user \<Rightarrow> job \<Rightarrow> bool" where "can_read_events u j = job_author u j"

definition custom_policy :: "string \<Rightarrow> function_access_result option \<Rightarrow> bool" where
  "custom_policy perm far = (if \<not> uses_instances far then True else has_custom_permission (the far) perm)"

definition job_can_create :: "user \<Rightarrow> function_access_result option \<Rightarrow> bool" where
  "job_can_create u far = custom_policy PLATFORM_PERMISSION_CUSTOM_RUN far"

definition program_can_create :: "user \<Rightarrow> function_access_result option \<Rightarrow> bool" where
  "program_can_create u far = custom_policy PLATFORM_PERMISSION_CUSTOM_WRITE far"

definition can_get_status_token :: "user \<Rightarrow> job \<Rightarrow> bool" where
  "can_get_status_token u j \<longleftrightarrow> job_author u j \<and> \<not> in_terminal_state j"

definition can_stop :: "user \<Rightarrow> job \<Rightarrow> bool" where "can_stop u j = job_author u j"

definition user_can_access :: "user option \<Rightarrow> bool res" where
  "user_can_access u = (case u of None \<Rightarrow> Inl (ValueError ''user cannot be None'') | Some u \<Rightarrow> Inr (is_active u))"

section \<open>Listing and running agree\<close>

lemma add_title_mem:
  "(\<exists>ts. (q, ts) \<in> set (add_title pn t acc) \<and> u \<in> set ts) \<longleftrightarrow> q = pn \<and> u = t \<or> (\<exists>ts. (q, ts) \<in> set acc \<and> u \<in> set ts)"
  by (induction pn t acc rule: add_title.induct) auto

lemma functions_by_provider_mem:
  "(\<exists>ts. (q, ts) \<in> set (get_functions_by_provider far perm) \<and> u \<in> set ts) \<longleftrightarrow>
   (\<exists>e \<in> set (far_functions far). perm \<in> set (fae_permissions e) \<and> fae_provider_name e = q \<and> fae_function_title e = u)"
proof -
  let ?f = "\<lambda>e acc. if perm \<in> set (fae_permissions e) then add_title (fae_provider_name e) (fae_function_title e) acc else acc"
  have "(\<exists>ts. (q, ts) \<in> set (fold ?f es acc) \<and> u \<in> set ts) \<longleftrightarrow> (\<exists>ts. (q, ts) \<in> set acc \<and> u \<in> set ts) \<or>
      (\<exists>e \<in> set es. perm \<in> set (fae_permissions e) \<and> fae_provider_name e = q \<and> fae_function_title e = u)" for es acc
    by (induction es arbitrary: acc) (auto simp: add_title_mem)
  from this [of "far_functions far" "[]"] show ?thesis unfolding get_functions_by_provider_def by simp
qed

text \<open>The unique constraints of the table of functions, and one entry per function in what the Runtime API answers.\<close>

definition unique_titles :: "program list \<Rightarrow> bool" where
  "unique_titles ps \<longleftrightarrow> (\<forall>p \<in> set ps. \<forall>q \<in> set ps. title p = title q \<and>
      map_option provider_name (program_provider p) = map_option provider_name (program_provider q) \<and>
      (program_provider p = None \<longrightarrow> user_id (program_author p) = user_id (program_author q)) \<longrightarrow> p = q)"

lemma unique_titlesD:
  "unique_titles ps \<Longrightarrow> p \<in> set ps \<Longrightarrow> q \<in> set ps \<Longrightarrow> title p = title q \<Longrightarrow>
   map_option provider_name (program_provider p) = map_option provider_name (program_provider q) \<Longrightarrow>
   (program_provider p = None \<longrightarrow> user_id (program_author p) = user_id (program_author q)) \<Longrightarrow> p = q"
  by (simp add: unique_titles_def)

definition one_entry :: "function_access_result \<Rightarrow> bool" where
  "one_entry far \<longleftrightarrow> distinct (map (\<lambda>e. (fae_provider_name e, fae_function_title e)) (far_functions far))"

lemma get_entry_iff:
  assumes "one_entry far"
  shows "get_entry far pn t = Some e \<longleftrightarrow> e \<in> set (far_functions far) \<and> fae_provider_name e = pn \<and> fae_function_title e = t"
proof -
  have inj: "inj_on (\<lambda>e. (fae_provider_name e, fae_function_title e)) (set (far_functions far))"
    using assms by (simp add: one_entry_def distinct_map)
  have only: "x = y" if "x \<in> set (far_functions far)" "y \<in> set (far_functions far)"
      "fae_provider_name x = fae_provider_name y" "fae_function_title x = fae_function_title y" for x y
    using inj_onD [OF inj] that by simp
  show ?thesis
  proof (cases "get_entry far pn t")
    case None
    then have "\<not> (\<exists>x. x \<in> set (far_functions far) \<and> fae_provider_name x = pn \<and> fae_function_title x = t)"
      by (simp add: get_entry_def find_None_iff)
    then show ?thesis using None by auto
  next
    case (Some x)
    then have "x \<in> set (far_functions far) \<and> fae_provider_name x = pn \<and> fae_function_title x = t"
      unfolding get_entry_def by (auto simp: find_Some_iff)
    then show ?thesis using Some only by auto
  qed
qed

lemma listed_iff:
  assumes "\<not> use_legacy_authorization far"
  shows "p \<in> set (with_permission cat u leg (Some far) perm (cat_programs cat)) \<longleftrightarrow> p \<in> set (cat_programs cat) \<and>
    (is_author u p \<and> program_provider p = None \<or>
     (\<exists>e \<in> set (far_functions far). perm \<in> set (fae_permissions e) \<and> of_provider (fae_provider_name e) p \<and> title p = fae_function_title e))"
proof -
  have "list_ex (\<lambda>(pn, ts). of_provider pn p \<and> title p \<in> set ts) (get_functions_by_provider far perm) \<longleftrightarrow>
      (\<exists>e \<in> set (far_functions far). perm \<in> set (fae_permissions e) \<and> of_provider (fae_provider_name e) p \<and> title p = fae_function_title e)"
  proof -
    have "list_ex (\<lambda>(pn, ts). of_provider pn p \<and> title p \<in> set ts) (get_functions_by_provider far perm) \<longleftrightarrow>
        (\<exists>pn. of_provider pn p \<and> (\<exists>ts. (pn, ts) \<in> set (get_functions_by_provider far perm) \<and> title p \<in> set ts))"
      by (force simp: list_ex_iff)
    also have "\<dots> \<longleftrightarrow> (\<exists>e \<in> set (far_functions far). perm \<in> set (fae_permissions e) \<and>
        of_provider (fae_provider_name e) p \<and> title p = fae_function_title e)"
      unfolding functions_by_provider_mem by (metis (no_types, lifting))
    finally show ?thesis .
  qed
  then show ?thesis using assms by (simp add: with_permission_def uses_instances_def Let_def)
qed

text \<open>
  What an instance may run is what it sees. With Runtime instances, a function is found under its provider (or as
  the caller's own) with a permission exactly when it is in the list of functions with that
  permission under that title and provider.
\<close>

theorem runnable_iff_listed:
  assumes "\<not> use_legacy_authorization far" "one_entry far" "unique_titles (cat_programs cat)" "pn \<noteq> Some []"
  shows "get_function_by_permission cat u t pn (Some far) perm leg = Some p \<longleftrightarrow>
    p \<in> set (with_permission cat u leg (Some far) perm (cat_programs cat)) \<and> title p = t \<and>
    map_option provider_name (program_provider p) = pn"
proof (cases pn)
  case None
  let ?q = "filter (\<lambda>p. title p = t) (user_functions u (cat_programs cat))"
  have only: "x = y" if "x \<in> set ?q" "y \<in> set ?q" for x y
    by (rule unique_titlesD [OF assms(3)]) (use that in \<open>auto simp: user_functions_def is_author_def\<close>)
  have "get_function_by_permission cat u t pn (Some far) perm leg = first_by program_id ?q"
    using None by (simp add: get_function_by_permission_def get_function_def truthy_def Let_def)
  also have "\<dots> = Some p \<longleftrightarrow> p \<in> set ?q" using only by (rule first_by_unique)
  also have "\<dots> \<longleftrightarrow> p \<in> set (with_permission cat u leg (Some far) perm (cat_programs cat)) \<and> title p = t \<and>
      map_option provider_name (program_provider p) = pn"
    unfolding listed_iff [OF assms(1)] using None by (auto simp: user_functions_def of_provider_def)
  finally show ?thesis .
next
  case (Some n)
  let ?q = "filter (of_provider n) (filter (\<lambda>p. title p = t) (cat_programs cat))"
  have tr: "truthy pn" using assms(4) Some by (simp add: truthy_def)
  have only: "x = y" if "x \<in> set ?q" "y \<in> set ?q" for x y
    by (rule unique_titlesD [OF assms(3)]) (use that in \<open>auto simp: of_provider_def\<close>)
  have first: "first_by program_id ?q = Some p \<longleftrightarrow> p \<in> set ?q" using only by (rule first_by_unique)
  have "get_function_by_permission cat u t pn (Some far) perm leg = Some p \<longleftrightarrow>
      (\<exists>e. get_entry far n t = Some e \<and> perm \<in> set (fae_permissions e)) \<and> first_by program_id ?q = Some p"
    using tr Some assms(1)
    by (auto simp: get_function_by_permission_def uses_instances_def get_function_def provider_functions_def split: option.splits)
  also have "\<dots> \<longleftrightarrow> p \<in> set (with_permission cat u leg (Some far) perm (cat_programs cat)) \<and> title p = t \<and>
      map_option provider_name (program_provider p) = pn"
    unfolding first get_entry_iff [OF assms(2)] listed_iff [OF assms(1)] using Some by (auto simp: of_provider_def)
  finally show ?thesis .
qed

text \<open>A provider function and an instance that may run it.\<close>

definition ex_user :: user where
  "ex_user = \<lparr>user_id = 1, username = ''u'', is_active = True, user_groups = []\<rparr>"

definition ex_provider :: provider where
  "ex_provider = \<lparr>provider_id = 1, provider_name = ''p'', admin_groups = [], provider_project = None\<rparr>"

definition ex_function :: program where
  "ex_function = \<lparr>program_id = 7, title = ''f'', disabled = False, disabled_message = None, program_env_vars = ''{}'',
     arguments_schema = None, program_runner = RAY, program_gpu = False, default_size = None, instances = [], trial_instances = [],
     program_author = ex_user\<lparr>user_id := 2\<rparr>, program_provider = Some ex_provider, program_project = None\<rparr>"

definition ex_catalog :: catalog where
  "ex_catalog = \<lparr>cat_programs = [ex_function], cat_sizes = [], cat_profiles = [], cat_providers = [ex_provider], cat_projects = [],
     group_perms = (\<lambda>_. [])\<rparr>"

definition ex_access :: function_access_result where
  "ex_access = \<lparr>use_legacy_authorization = False, far_functions = [\<lparr>fae_provider_name = ''p'', fae_function_title = ''f'',
     fae_business_model = ''LICENSED'', fae_permissions = [''function.run'']\<rparr>], custom_function_permissions = []\<rparr>"

theorem runnable_iff_listed_witness:
  "get_function_by_permission ex_catalog ex_user ''f'' (Some ''p'') (Some ex_access) PLATFORM_PERMISSION_RUN None = Some ex_function"
proof -
  have "\<not> use_legacy_authorization ex_access" "one_entry ex_access" "unique_titles (cat_programs ex_catalog)" "Some ''p'' \<noteq> Some []"
    by (simp_all add: ex_access_def ex_catalog_def one_entry_def unique_titles_def)
  moreover have "ex_function \<in> set (with_permission ex_catalog ex_user None (Some ex_access) PLATFORM_PERMISSION_RUN (cat_programs ex_catalog))"
    by code_simp
  moreover have "title ex_function = ''f''" "map_option provider_name (program_provider ex_function) = Some ''p''"
    by (simp_all add: ex_function_def ex_provider_def)
  ultimately show ?thesis using runnable_iff_listed by blast
qed

end
