(* ===== verification/Job_Use_Cases.thy ===== *)
theory Job_Use_Cases
  imports Authorization Fleets_Refinement
begin

text \<open>
  The use cases of the API on one job (\<^verbatim>\<open>api/use_cases/jobs\<close>): retrieving it, its result, its logs and its events, setting its
  sub-status, associating runtime jobs, and stopping it. What storage, runners and the Qiskit Runtime client
  answer are parameters.
\<close>

section \<open>Reading and annotating a job\<close>

text \<open>The common start of a use case: the row, if the policy lets the user reach it.\<close>

definition reach_job :: "(job \<Rightarrow> bool) \<Rightarrow> string \<Rightarrow> db \<Rightarrow> job res" where
  "reach_job allowed i d =
     (case job_row d i of None \<Rightarrow> Inl (JobNotFoundException i)
      | Some j \<Rightarrow> if allowed j then Inr j else Inl (JobNotFoundException i))"

fun status_name :: "Status \<Rightarrow> string" where
  "status_name QUEUED = ''QUEUED''"
| "status_name PENDING = ''PENDING''"
| "status_name RUNNING = ''RUNNING''"
| "status_name STOPPING = ''STOPPING''"
| "status_name STOPPED = ''STOPPED''"
| "status_name SUCCEEDED = ''SUCCEEDED''"
| "status_name FAILED = ''FAILED''"

definition set_sub_status :: "int \<Rightarrow> string \<Rightarrow> user \<Rightarrow> SubStatus option \<Rightarrow> db \<Rightarrow> job res \<times> db" where
  "set_sub_status now i u ss d =
     (case reach_job (can_update_sub_status u) i d of
        Inl e \<Rightarrow> (Inl e, d)
      | Inr j \<Rightarrow>
          if status j \<notin> set ACTIVE_STATUSES
          then (Inl (InvalidAccessException (''Cannot update '' @ [CHR 0x27] @ ''sub_status'' @ [CHR 0x27] @
                 '' when is not in active status. (Currently '' @ status_name (status j) @ '')'')), d)
          else
            let d1 = d\<lparr>job_tbl := upd_rows job_id i (\<lambda>r. r\<lparr>sub_status := ss, updated := now\<rparr>) (job_tbl d)\<rparr> in
            if sub_status j \<noteq> ss
            then (Inr (j\<lparr>sub_status := ss\<rparr>), snd (add_sub_status_event now i API SET_SUB_STATUS ss d1))
            else (Inr j, d1))"

record event_request =
  er_type :: JobEventType
  er_exception :: string
  er_code :: string
  er_message :: string
  er_args :: error_args

definition create_event :: "int \<Rightarrow> string \<Rightarrow> user \<Rightarrow> event_request \<Rightarrow> db \<Rightarrow> unit res \<times> db" where
  "create_event now i u rq d =
     (case reach_job (can_create_events u) i d of
        Inl e \<Rightarrow> (Inl e, d)
      | Inr j \<Rightarrow>
          if status j \<notin> set ACTIVE_STATUSES then (Inl (InvalidAccessException ''You can create events on active jobs only''), d)
          else if er_type rq = ERROR
          then (Inr (), snd (add_error_event now i API SEND_ERROR (er_code rq) (er_message rq) (er_exception rq) (er_args rq) d))
          else (Inr (), d))"

definition list_job_events :: "string \<Rightarrow> user \<Rightarrow> JobEventType option \<Rightarrow> db \<Rightarrow> job_event list res" where
  "list_job_events i u ty d =
     (case reach_job (can_read_events u) i d of Inl e \<Rightarrow> Inl e | Inr _ \<Rightarrow> Inr (get_job_events i ty d))"

record runtime_job =
  rj_job :: string
  rj_runtime_job :: string
  rj_runtime_session :: "string option"

text \<open>\<open>created\<close> is how the insert ends; the use case turns an exception into the message it returns.\<close>

definition associate_runtime_jobs ::
  "unit res \<Rightarrow> (exn \<Rightarrow> string) \<Rightarrow> string \<Rightarrow> string \<Rightarrow> string option \<Rightarrow> user \<Rightarrow> db \<Rightarrow> runtime_job list \<Rightarrow> string res \<times> runtime_job list" where
  "associate_runtime_jobs made text_of i rj sess u d rows =
     (case reach_job (can_manage_runtime_jobs u) i d of
        Inl e \<Rightarrow> (Inl e, rows)
      | Inr _ \<Rightarrow>
          (case made of
             Inr _ \<Rightarrow> (Inr (''RuntimeJob object ['' @ rj @ ''] created for serverless job id ['' @ i @ ''].''),
                       rows @ [\<lparr>rj_job = i, rj_runtime_job = rj, rj_runtime_session = sess\<rparr>])
           | Inl e \<Rightarrow> (Inr (''Failed to create RuntimeJob object ['' @ rj @ ''] for job id ['' @ i @ '']. Error: '' @ text_of e), rows)))"

definition get_runtime_jobs :: "string \<Rightarrow> user \<Rightarrow> db \<Rightarrow> runtime_job list \<Rightarrow> runtime_job list res" where
  "get_runtime_jobs i u d rows =
     (case reach_job (can_manage_runtime_jobs u) i d of Inl e \<Rightarrow> Inl e | Inr _ \<Rightarrow> Inr (filter (\<lambda>r. rj_job r = i) rows))"

section \<open>Results and logs\<close>

definition save_result :: "(job \<Rightarrow> unit res) \<Rightarrow> string \<Rightarrow> user \<Rightarrow> db \<Rightarrow> unit res" where
  "save_result storage_save i u d =
     (case reach_job (can_save_result u) i d of
        Inl e \<Rightarrow> Inl e
      | Inr j \<Rightarrow>
          if runner j = FLEETS then Inl (InvalidAccessException ''Fleets results are written by the SDK via RESULTS_PATH'')
          else storage_save j)"

datatype answer = Redirect string | Raw "string option" | Not_ready

fun is_storage_error :: "exn \<Rightarrow> bool" where
  "is_storage_error (ValueError _) = True"
| "is_storage_error (OtherException c) = (c = ''NotImplementedError'')"
| "is_storage_error _ = False"

definition get_result :: "(job \<Rightarrow> string option res) \<Rightarrow> (job \<Rightarrow> string option res) \<Rightarrow> string \<Rightarrow> user \<Rightarrow> db \<Rightarrow> answer res" where
  "get_result get_url storage_get i u d =
     (case reach_job (can_read_result u) i d of
        Inl e \<Rightarrow> Inl e
      | Inr j \<Rightarrow>
          if runner j = FLEETS
          then (case get_url j of
                  Inl e \<Rightarrow> if is_storage_error e then Inr Not_ready else Inl e
                | Inr url \<Rightarrow> Inr (if truthy url then Redirect (the url) else Not_ready))
          else (case storage_get j of Inl e \<Rightarrow> Inl e | Inr raw \<Rightarrow> Inr (Raw raw)))"

text \<open>\<open>stored_result\<close> is the legacy column with the result of a job.\<close>

definition retrieve_result :: "(job \<Rightarrow> string option res) \<Rightarrow> (job \<Rightarrow> string option) \<Rightarrow> user \<Rightarrow> job \<Rightarrow> string option res" where
  "retrieve_result storage_get stored_result u j =
     (if \<not> can_read_result u j then Inr None
      else (case storage_get j of
              Inr (Some x) \<Rightarrow> Inr (Some x)
            | Inr None \<Rightarrow> Inr (stored_result j)
            | Inl e \<Rightarrow> if is_storage_error e then Inr (stored_result j) else Inl e))"

definition retrieve_job ::
  "(job \<Rightarrow> string option res) \<Rightarrow> (job \<Rightarrow> string option) \<Rightarrow> catalog \<Rightarrow> string \<Rightarrow> user \<Rightarrow> bool \<Rightarrow> function_access_result option \<Rightarrow> db \<Rightarrow>
   (job \<times> string option) res" where
  "retrieve_job storage_get stored_result cat i u with_result far d =
     (case job_row d i of
        None \<Rightarrow> Inl (JobNotFoundException i)
      | Some j \<Rightarrow>
          (case can_access cat (Some u) (Some j) far of
             Inl e \<Rightarrow> Inl e
           | Inr ok \<Rightarrow>
               if \<not> ok then Inl (JobNotFoundException i)
               else if with_result
               then (case retrieve_result storage_get stored_result u j of Inl e \<Rightarrow> Inl e | Inr x \<Rightarrow> Inr (j, x))
               else Inr (j, None)))"

text \<open>The answers of the logs storage and of the runner of a job.\<close>

record logs_env =
  le_url :: "job \<Rightarrow> string option res"
  le_stored :: "job \<Rightarrow> string option res"
  le_active :: "job \<Rightarrow> bool res"
  le_lines :: "job \<Rightarrow> string list res"
  le_legacy :: "job \<Rightarrow> string option"

text \<open>Both log use cases read the storage first, then the active runner, and then a legacy answer.\<close>

definition read_logs :: "logs_env \<Rightarrow> string \<Rightarrow> (job \<Rightarrow> string option res) \<Rightarrow> job \<Rightarrow> answer res" where
  "read_logs le unavailable legacy j =
     (if runner j = FLEETS
      then (case le_url le j of Inl e \<Rightarrow> Inl e | Inr url \<Rightarrow> Inr (if truthy url then Redirect (the url) else Not_ready))
      else
        (case le_stored le j of
           Inl e \<Rightarrow> Inl e
         | Inr logs \<Rightarrow>
             if truthy logs then Inr (Raw logs)
             else
               (case le_active le j of
                  Inl e \<Rightarrow> Inl e
                | Inr True \<Rightarrow>
                    (case le_lines le j of
                       Inl e \<Rightarrow> if is_RunnerError e then Inr (Raw (Some unavailable)) else Inl e
                     | Inr ls \<Rightarrow> Inr (Raw (Some (if ls = [] then [] else join_with [CHR 10] ls @ [CHR 10]))))
                | Inr False \<Rightarrow> (case legacy j of Inl e \<Rightarrow> Inl e | Inr x \<Rightarrow> Inr (Raw x)))))"

definition get_job_logs :: "logs_env \<Rightarrow> string \<Rightarrow> user \<Rightarrow> db \<Rightarrow> answer res" where
  "get_job_logs le i u d =
     (case job_row d i of
        None \<Rightarrow> Inl (JobNotFoundException i)
      | Some j \<Rightarrow>
          if \<not> can_read_user_logs u j then Inl (InvalidAccessException (''You don'' @ [CHR 0x27] @ ''t have access to read user logs of the job ['' @ i @ '']''))
          else read_logs le ''Logs not available for this job during execution.''
                 (\<lambda>j. case job_program j of
                        None \<Rightarrow> Inl (AttributeError ''provider'')
                      | Some p \<Rightarrow> Inr (if program_provider p \<noteq> None then Some ''No logs available.'' else le_legacy le j)) j)"

definition get_provider_job_logs :: "logs_env \<Rightarrow> catalog \<Rightarrow> string \<Rightarrow> user \<Rightarrow> function_access_result option \<Rightarrow> db \<Rightarrow> answer res" where
  "get_provider_job_logs le cat i u far d =
     (case job_row d i of
        None \<Rightarrow> Inl (JobNotFoundException i)
      | Some j \<Rightarrow>
          (case can_read_provider_logs cat u j far of
             Inl e \<Rightarrow> Inl e
           | Inr ok \<Rightarrow>
               if \<not> ok then Inl (InvalidAccessException (''You don'' @ [CHR 0x27] @ ''t have access to job ['' @ i @ '']''))
               else read_logs le (''Logs not available for job ['' @ i @ ''] during execution.'') (\<lambda>j. Inr (le_legacy le j)) j))"

section \<open>Stopping a job\<close>

text \<open>
  \<open>retry_function\<close> (\<^verbatim>\<open>core/utils.py\<close>): \<open>caught\<close> are the exceptions it retries on, \<open>late n\<close> says that the budget was
  spent when attempt \<open>n\<close> had failed. With no tries left from the start it returns None.
\<close>

fun retry_function :: "(exn \<Rightarrow> bool) \<Rightarrow> (nat \<Rightarrow> bool) \<Rightarrow> nat \<Rightarrow> nat \<Rightarrow> (nat \<Rightarrow> 's \<Rightarrow> 'a res \<times> 's) \<Rightarrow> 's \<Rightarrow> 'a option res \<times> 's" where
  "retry_function caught late 0 attempt f s = (Inr None, s)"
| "retry_function caught late (Suc left) attempt f s =
     (case f attempt s of
        (Inr a, s') \<Rightarrow> (Inr (Some a), s')
      | (Inl e, s') \<Rightarrow>
          if \<not> caught e \<or> left = 0 \<or> late attempt then (Inl e, s')
          else retry_function caught late left (Suc attempt) f s')"

definition CANCEL_ATTEMPTS :: nat where "CANCEL_ATTEMPTS = 2"

definition CANCEL_RETRY_BUDGET_SECONDS :: int where "CANCEL_RETRY_BUDGET_SECONDS = 5"

text \<open>
  What stopping reads: the surroundings of each attempt and what the runner answers there, the time since the first, how the
  caller's Qiskit Runtime service (if it sent one) answers, and the Ray runner.
\<close>

record runtime_service =
  rs_job :: "string \<Rightarrow> bool res"
  rs_cancel_session :: "string \<Rightarrow> unit res"
  rs_cancel_job :: "string \<Rightarrow> unit res"

record stop_env =
  se_call :: "nat \<Rightarrow> call_env"
  se_answer :: "nat \<Rightarrow> job \<Rightarrow> bool res"
  se_elapsed :: "nat \<Rightarrow> int"
  se_runner :: "job \<Rightarrow> unit res"
  se_service :: "runtime_service option"
  se_text :: "exn \<Rightarrow> string"
  se_ray_active :: "job \<Rightarrow> bool res"
  se_ray_stop :: "job \<Rightarrow> bool res"

definition stop_cause :: cause where
  "stop_cause = \<lparr>why_origin = API, why_ctx = STOP_JOB\<rparr>"

definition try_stop_with_retries :: "stop_env \<Rightarrow> job \<times> world \<Rightarrow> Status option res \<times> job \<times> world" where
  "try_stop_with_retries se = (\<lambda>(j, w).
     (case (if truthy (fleet_id j) then se_runner se j else Inr ()) of
        Inl e \<Rightarrow> (Inl e, j, w)
      | Inr _ \<Rightarrow>
          retry_function is_RunnerError (\<lambda>n. se_elapsed se n > CANCEL_RETRY_BUDGET_SECONDS * 1000000) CANCEL_ATTEMPTS 1
            (\<lambda>n (j, w). stop (se_call se n) stop_cause (se_answer se n j) (j, w)) (j, w)))"

definition cancel_session :: "stop_env \<Rightarrow> runtime_service \<Rightarrow> string \<Rightarrow> string list \<times> string list \<Rightarrow> string list \<times> string list" where
  "cancel_session se rs sid = (\<lambda>(messages, stopped_sessions).
     if sid \<in> set stopped_sessions then (messages, stopped_sessions)
     else (case rs_cancel_session rs sid of
             Inr _ \<Rightarrow> (messages @ [''Canceled runtime session: '' @ sid @ '' and associated runtime jobs.''], stopped_sessions @ [sid])
           | Inl e \<Rightarrow> (messages @ [''Runtime session '' @ sid @ '' could not be canceled. Exception: '' @ se_text se e], stopped_sessions)))"

fun cancel_entries :: "stop_env \<Rightarrow> runtime_service \<Rightarrow> runtime_job list \<Rightarrow> string list \<times> string list \<Rightarrow> unit res \<times> string list \<times> string list" where
  "cancel_entries se rs [] ms = (Inr (), ms)"
| "cancel_entries se rs (x # xs) (messages, stopped_sessions) =
     (case rs_job rs (rj_runtime_job x) of
        Inl e \<Rightarrow> (Inl e, messages, stopped_sessions)
      | Inr found \<Rightarrow>
          if \<not> found
          then cancel_entries se rs xs (messages @ [''Runtime job '' @ rj_runtime_job x @
                 '' not found in runtime service. Check that credentials used to authenticate match.''], stopped_sessions)
          else if truthy (rj_runtime_session x)
          then cancel_entries se rs xs (cancel_session se rs (the (rj_runtime_session x)) (messages, stopped_sessions))
          else
            (case rs_cancel_job rs (rj_runtime_job x) of
               Inr _ \<Rightarrow> cancel_entries se rs xs (messages @ [''Canceled runtime job ['' @ rj_runtime_job x @ ''].''], stopped_sessions)
             | Inl e \<Rightarrow>
                 if e = OtherException ''RuntimeInvalidStateError''
                 then cancel_entries se rs xs
                        (messages @ [''Runtime job '' @ rj_runtime_job x @ '' could not be canceled (invalid state).''], stopped_sessions)
                 else (Inl e, messages, stopped_sessions)))"

definition cancel_runtime_jobs :: "stop_env \<Rightarrow> job \<Rightarrow> runtime_job list \<Rightarrow> string list \<Rightarrow> unit res \<times> string list" where
  "cancel_runtime_jobs se j rows messages =
     (let own = filter (\<lambda>r. rj_job r = job_id j) rows in
      case se_service se of
        None \<Rightarrow> (Inr (), messages @ [''QiskitRuntimeService not found, cannot stop runtime jobs.''])
      | Some rs \<Rightarrow>
          if own = [] then (Inr (), messages @ [''No active runtime job ID associated with this serverless job ID.''])
          else (case cancel_entries se rs own (messages, []) of (r, ms, _) \<Rightarrow> (r, ms)))"

definition stop_ray_job_if_active :: "stop_env \<Rightarrow> job \<Rightarrow> string list \<Rightarrow> unit res \<times> string list" where
  "stop_ray_job_if_active se j messages =
     (case se_ray_active se j of
        Inl e \<Rightarrow> (Inl e, messages)
      | Inr False \<Rightarrow> (Inr (), messages)
      | Inr True \<Rightarrow>
          (case se_ray_stop se j of
             Inr ok \<Rightarrow> (Inr (), messages @ [if ok then ''Serverless job stop has been requested.''
                               else ''Serverless job was already stopping or no longer running.''])
           | Inl e \<Rightarrow> if is_RunnerError e then (Inr (), messages @ [''Serverless job was not accessible.'']) else (Inl e, messages)))"

text \<open>What follows the transition: the message that names the status, the runtime jobs, and the Ray job.\<close>

definition after_stop :: "stop_env \<Rightarrow> runtime_job list \<Rightarrow> job \<Rightarrow> string res" where
  "after_stop se rows j =
     (case cancel_runtime_jobs se j rows [if status j = STOPPING then ''Job is stopping.'' else ''Job has been stopped.''] of
        (Inl e, _) \<Rightarrow> Inl e
      | (Inr _, ms) \<Rightarrow>
          if runner j = RAY
          then (case stop_ray_job_if_active se j ms of (Inl e, _) \<Rightarrow> Inl e | (Inr _, ms') \<Rightarrow> Inr (join_with '' '' ms'))
          else Inr (join_with '' '' ms))"

definition stop_job :: "stop_env \<Rightarrow> runtime_job list \<Rightarrow> string \<Rightarrow> user \<Rightarrow> world \<Rightarrow> string res \<times> world" where
  "stop_job se rows i u w =
     (case reach_job (can_stop u) i (wdb w) of
        Inl e \<Rightarrow> (Inl e, w)
      | Inr j \<Rightarrow>
          if status j = STOPPING
          then (case cancel_runtime_jobs se j rows [''Job is already stopping.''] of
                  (Inl e, _) \<Rightarrow> (Inl e, w) | (Inr _, ms) \<Rightarrow> (Inr (join_with '' '' ms), w))
          else if in_terminal_state j then (Inr ''Job already in terminal state.'', w)
          else
            (case (if runner j = RAY
                   then (case to_stopped (se_call se 1) stop_cause [] (j, w) of (r, j1, w1) \<Rightarrow> (map_sum id (\<lambda>_. None) r, j1, w1))
                   else try_stop_with_retries se (j, w)) of
               (Inr _, j1, w1) \<Rightarrow> (after_stop se rows j1, w1)
             | (Inl e, j1, w1) \<Rightarrow>
                 if is_RunnerRetryableError e then (Inl (EngineUnavailableException ''Job could not be stopped right now, please retry.''), w1)
                 else if is_RunnerError e then (Inl (EngineUnavailableException ''Job could not be stopped. Please contact support.''), w1)
                 else if e = InvalidJobTransitionException
                 then (case job_row (wdb w1) (job_id j1) of
                         None \<Rightarrow> (Inl DoesNotExist, w1)
                       | Some r \<Rightarrow>
                           let j2 = j1\<lparr>status := status r\<rparr> in
                           if status j2 \<notin> {STOPPING, STOPPED} then (Inr ''Job already in terminal state.'', w1)
                           else (after_stop se rows j2, w1))
                 else (Inl e, w1)))"

section \<open>A job out of reach is a job that does not exist\<close>

lemma reach_job_hidden: "(\<And>j. job_row d i = Some j \<Longrightarrow> \<not> allowed j) \<Longrightarrow> reach_job allowed i d = Inl (JobNotFoundException i)"
  by (auto simp: reach_job_def split: option.splits)



section \<open>What stopping leaves and says\<close>

lemma prefix_join: "prefix x (join_with sep (x # xs))"
  by (cases xs) simp_all

lemma join_append_prefix: "prefix x (join_with sep ((x # xs) @ ys))"
  using prefix_join [of x sep "xs @ ys"] by simp

lemma cancel_entries_messages:
  "cancel_entries se rs xs (ms, ss) = (r, ms', ss') \<Longrightarrow> \<exists>more. ms' = ms @ more"
proof (induction xs arbitrary: ms ss)
  case (Cons x xs)
  obtain ms1 ss1 where c: "cancel_session se rs (the (rj_runtime_session x)) (ms, ss) = (ms1, ss1)" by fastforce
  then have "\<exists>more. ms1 = ms @ more" by (auto simp: cancel_session_def split: if_splits sum.splits)
  moreover have "ms' = ms \<or> (\<exists>m. cancel_entries se rs xs (ms @ [m], ss) = (r, ms', ss')) \<or> cancel_entries se rs xs (ms1, ss1) = (r, ms', ss')"
    using Cons.prems c by (auto split: sum.splits if_splits)
  ultimately show ?case using Cons.IH by (metis append.assoc append_Nil2)
qed simp

lemma cancel_runtime_messages:
  "cancel_runtime_jobs se j rows ms = (r, ms') \<Longrightarrow> \<exists>more. ms' = ms @ more"
  by (auto simp: cancel_runtime_jobs_def Let_def split: option.splits if_splits prod.splits dest: cancel_entries_messages)

lemma after_stop_says:
  assumes "after_stop se rows j = Inr msg" "runner j = FLEETS"
  shows "prefix (if status j = STOPPING then ''Job is stopping.'' else ''Job has been stopped.'') msg"
proof -
  let ?m = "if status j = STOPPING then ''Job is stopping.'' else ''Job has been stopped.''"
  obtain r ms where c: "cancel_runtime_jobs se j rows [?m] = (r, ms)" by fastforce
  then have "msg = join_with '' '' ms" using assms by (auto simp: after_stop_def split: sum.splits)
  moreover obtain more where "ms = [?m] @ more" using cancel_runtime_messages [OF c] by blast
  ultimately show ?thesis using prefix_join [of ?m "'' ''" more] by simp
qed

text \<open>What a stop may raise beside a failure of the engine: a failure of the mirror, or a job without the data of its workload.\<close>

definition late_error :: "exn \<Rightarrow> bool" where
  "late_error e \<longleftrightarrow> after_commit_error e \<or> (\<exists>m. e = ValueError m)"

lemma late_error_other [simp]:
  assumes "late_error e"
  shows "\<not> is_RunnerError e" "\<not> is_RunnerRetryableError e" "e \<noteq> InvalidJobTransitionException" "e \<noteq> EngineUnavailableException m"
  using assms by (cases e; simp add: late_error_def after_commit_error_def)+

text \<open>One attempt: it delivered nothing and wrote nothing, or it wrote the status it returns, or it ended in another error.\<close>

lemma stop_attempt:
  assumes s: "stop env why ans (j, w) = (r, j', w')" and row: "job_row (wdb w) (job_id j) = Some r0"
    and active: "status r0 \<in> {QUEUED, PENDING, RUNNING}" and fleets: "runner j = FLEETS"
    and ans: "\<And>e. ans = Inl e \<Longrightarrow> is_RunnerError e"
  shows "same_identity j' j \<and>
    ((\<exists>e. r = Inl e \<and> is_RunnerError e \<and> wdb w' = wdb w) \<or>
     (\<exists>st r'. r = Inr st \<and> st \<in> {STOPPING, STOPPED} \<and> status j' = st \<and> job_row (wdb w') (job_id j) = Some r' \<and> status r' = st) \<or>
     (\<exists>e. r = Inl e \<and> late_error e))"
proof (intro conjI)
  show "same_identity j' j" using keeps_idD [OF keeps_id_stop s] .
  have valid: "new \<in> set (VALID_TRANSITIONS (status r0))" if "new \<in> {STOPPING, STOPPED}" for new using active that by auto
  consider (err) e where "ans = Inl e" "truthy (fleet_id j)" | (sent) "ans = Inr True" "truthy (fleet_id j)"
    | (none) "(if truthy (fleet_id j) then ans else Inr False) = Inr False"
    by (cases ans; cases "truthy (fleet_id j)") auto
  then show "(\<exists>e. r = Inl e \<and> is_RunnerError e \<and> wdb w' = wdb w) \<or>
     (\<exists>st r'. r = Inr st \<and> st \<in> {STOPPING, STOPPED} \<and> status j' = st \<and> job_row (wdb w') (job_id j) = Some r' \<and> status r' = st) \<or>
     (\<exists>e. r = Inl e \<and> late_error e)"
  proof cases
    case err
    then show ?thesis using s fleets ans by (auto simp: stop_def)
  next
    case sent
    let ?f = "\<lambda>s. case in_db (change_status env STOPPING why []) s of (Inl e, s') \<Rightarrow> (Inl e, s') | (Inr _, s') \<Rightarrow> (Inr STOPPING, s')"
    have m: "then_mirror env ?f (j, w) = (r, j', w')" using s sent fleets by (simp add: stop_def)
    obtain ra wa where f: "?f (j, w) = (ra, j', wa)" "wdb w' = wdb wa" "r = ra \<or> (\<exists>e. r = Inl e \<and> after_commit_error e)"
      using then_mirror_cases [OF m] by blast
    obtain rc jc dc where c: "change_status env STOPPING why [] (j, wdb w) = (rc, jc, dc)" by (metis prod_cases3)
    show ?thesis
    proof (cases rc)
      case (Inl e)
      then show ?thesis using change_status_err [OF c [unfolded Inl]] row valid by auto
    next
      case (Inr ev)
      have fa: "ra = Inr STOPPING" "j' = jc" "wdb wa = dc" using f(1) c Inr by (auto simp: in_db_def atomic_def)
      obtain r1 where "job_row dc (job_id j) = Some r1 \<and> status r1 = STOPPING" "status jc = STOPPING"
        using c [unfolded Inr] by (rule change_status_ok) auto
      then show ?thesis using f(2,3) fa by (auto simp: late_error_def)
    qed
  next
    case none
    have b: "in_db (stop_block env why) (j, w) = (r, j', w')" using s none fleets by (simp add: stop_def)
    obtain rb jb db where sb: "stop_block env why (j, wdb w) = (rb, jb, db)" by (metis prod_cases3)
    have out: "r = rb" "j' = jb" "wdb w' = (case rb of Inl _ \<Rightarrow> wdb w | Inr _ \<Rightarrow> db)"
      using b sb by (auto simp: in_db_def atomic_def split: sum.splits)
    obtain rc jc dc where c: "change_status env STOPPED why [] (j, wdb w) = (rc, jc, dc)" by (metis prod_cases3)
    show ?thesis
    proof (cases "fleet_id r0 = fleet_id j")
      case False
      then show ?thesis using out sb row by (auto simp: stop_block_def)
    next
      case True
      obtain ev where rc: "rc = Inr ev" using change_status_err c row valid by (cases rc) fastforce+
      obtain r1 where r1: "job_row dc (job_id j) = Some r1 \<and> status r1 = STOPPED" "status jc = STOPPED"
        using c [unfolded rc] by (rule change_status_ok) auto
      show ?thesis
      proof (cases "enqueue_workload env jc dc")
        case (Inl e)
        then have "late_error e"
          by (auto simp: late_error_def enqueue_workload_def build_workload_payload_def Let_def split: if_splits sum.splits option.splits)
        then show ?thesis using out sb row True c rc Inl by (auto simp: stop_block_def)
      next
        case (Inr d2)
        then have "job_row d2 (job_id j) = job_row dc (job_id j)"
          by (auto simp: enqueue_workload_def Let_def job_row_def outbox_create_def split: if_splits sum.splits)
        then show ?thesis using out sb row True c rc Inr r1 by (auto simp: stop_block_def)
      qed
    qed
  qed
qed


lemma stop_retries:
  assumes "retry_function is_RunnerError late left n (\<lambda>n (j, w). stop (env n) why (ans n j) (j, w)) (j, w) = (r, j', w')"
    and "job_row (wdb w) (job_id j) = Some r0" "status r0 \<in> {QUEUED, PENDING, RUNNING}" "runner j = FLEETS"
    and "\<forall>n j e. ans n j = Inl e \<longrightarrow> is_RunnerError e" "0 < left"
  shows "same_identity j' j \<and>
    ((\<exists>e. r = Inl e \<and> is_RunnerError e \<and> wdb w' = wdb w) \<or>
     (\<exists>st r'. r = Inr (Some st) \<and> st \<in> {STOPPING, STOPPED} \<and> status j' = st \<and> job_row (wdb w') (job_id j) = Some r' \<and> status r' = st) \<or>
     (\<exists>e. r = Inl e \<and> late_error e))"
  using assms
proof (induction left arbitrary: n j w)
  case (Suc left)
  obtain r1 j1 w1 where s: "stop (env n) why (ans n j) (j, w) = (r1, j1, w1)" by (metis prod_cases3)
  have one: "same_identity j1 j \<and>
      ((\<exists>e. r1 = Inl e \<and> is_RunnerError e \<and> wdb w1 = wdb w) \<or>
       (\<exists>st r'. r1 = Inr st \<and> st \<in> {STOPPING, STOPPED} \<and> status j1 = st \<and> job_row (wdb w1) (job_id j) = Some r' \<and> status r' = st) \<or>
       (\<exists>e. r1 = Inl e \<and> late_error e))"
    by (rule stop_attempt [OF s Suc.prems(2-4)]) (use Suc.prems(5) in blast)
  show ?case
  proof (cases "\<exists>e. r1 = Inl e \<and> is_RunnerError e \<and> left \<noteq> 0 \<and> \<not> late n")
    case True
    then obtain e where e: "r1 = Inl e" "is_RunnerError e" "left \<noteq> 0" "\<not> late n" by blast
    then have db: "wdb w1 = wdb w" and id: "same_identity j1 j" using one by auto
    have again: "retry_function is_RunnerError late left (Suc n) (\<lambda>n (j, w). stop (env n) why (ans n j) (j, w)) (j1, w1) = (r, j', w')"
      using Suc.prems(1) s e by simp
    have "job_row (wdb w1) (job_id j1) = Some r0" "runner j1 = FLEETS" "job_id j1 = job_id j"
      using Suc.prems(2,4) db id by (auto simp: same_identity_def)
    then show ?thesis
      using Suc.IH [OF again _ Suc.prems(3) _ Suc.prems(5)] e(3) db same_identity_trans [OF _ id] by auto
  next
    case False
    have "(r, j', w') = (map_sum id Some r1, j1, w1)"
      using Suc.prems(1) s False by (auto split: sum.splits if_splits)
    then show ?thesis using one by auto
  qed
qed simp

text \<open>
  Stopping a Fleets job tells the truth. When the call returns a message, a job that had ended is as it was and the message
  says so; one that was stopping is as it was and the message says so; otherwise the row is now STOPPING or
  STOPPED and the message starts with the words for that status. When the call reports that the engine is unavailable,
  and no runtime session was to be cancelled, the database is as it was.
\<close>

theorem stop_tells_the_status:
  assumes "stop_job se rows i u w = (res, w')" "job_row (wdb w) i = Some r" "user_id (author r) = user_id u" "runner r = FLEETS"
    and "\<forall>n j e. se_answer se n j = Inl e \<longrightarrow> is_RunnerError e" "\<forall>j e. se_runner se j = Inl e \<longrightarrow> is_RunnerError e"
  shows "(\<forall>msg. res = Inr msg \<longrightarrow> (\<exists>r'. job_row (wdb w') i = Some r' \<and>
      (if status r \<in> set TERMINAL_STATUSES then r' = r \<and> msg = ''Job already in terminal state.''
       else if status r = STOPPING then r' = r \<and> prefix ''Job is already stopping.'' msg
       else status r' = STOPPING \<and> prefix ''Job is stopping.'' msg \<or> status r' = STOPPED \<and> prefix ''Job has been stopped.'' msg))) \<and>
    (\<forall>m. res = Inl (EngineUnavailableException m) \<and> se_service se = None \<longrightarrow> wdb w' = wdb w)"
proof -
  have id: "job_id r = i" using assms(2) unfolding job_row_def by (rule row_of_key)
  have reach: "reach_job (can_stop u) i (wdb w) = Inr r" using assms(2,3) by (simp add: reach_job_def can_stop_def job_author_def)
  have quiet: "fst (cancel_runtime_jobs se j rows ms) = Inr ()" if "se_service se = None" for j ms
    using that by (simp add: cancel_runtime_jobs_def)
  consider (ended) "status r \<in> set TERMINAL_STATUSES" | (stopping) "status r = STOPPING" | (active) "status r \<in> {QUEUED, PENDING, RUNNING}"
    by (cases "status r") (auto simp: status_simps)
  then show ?thesis
  proof cases
    case ended
    then have "stop_job se rows i u w = (Inr ''Job already in terminal state.'', w)"
      using reach by (auto simp: stop_job_def in_terminal_state_def status_simps)
    then show ?thesis using assms(1,2) ended by auto
  next
    case stopping
    obtain rc ms where c: "cancel_runtime_jobs se r rows [''Job is already stopping.''] = (rc, ms)" by fastforce
    obtain more where ms: "ms = ''Job is already stopping.'' # more" using cancel_runtime_messages [OF c] by auto
    have "w' = w" "\<And>msg. res = Inr msg \<Longrightarrow> msg = join_with '' '' ms"
      using assms(1) reach stopping c by (auto simp: stop_job_def split: sum.splits)
    then show ?thesis using assms(2) stopping prefix_join ms by (auto simp: status_simps)
  next
    case active
    obtain ra ja wa where t: "try_stop_with_retries se (r, w) = (ra, ja, wa)" by (metis prod_cases3)
    have eff: "same_identity ja r \<and> ((\<exists>e. ra = Inl e \<and> is_RunnerError e \<and> wdb wa = wdb w) \<or>
       (\<exists>st r'. ra = Inr (Some st) \<and> st \<in> {STOPPING, STOPPED} \<and> status ja = st \<and> job_row (wdb wa) i = Some r' \<and> status r' = st) \<or>
       (\<exists>e. ra = Inl e \<and> late_error e))"
    proof (cases "\<exists>e. truthy (fleet_id r) \<and> se_runner se r = Inl e")
      case True
      then show ?thesis using t assms(6) by (auto simp: try_stop_with_retries_def)
    next
      case False
      then have "retry_function is_RunnerError (\<lambda>n. se_elapsed se n > CANCEL_RETRY_BUDGET_SECONDS * 1000000) CANCEL_ATTEMPTS 1
          (\<lambda>n (j, w). stop (se_call se n) stop_cause (se_answer se n j) (j, w)) (r, w) = (ra, ja, wa)"
        using t by (auto simp: try_stop_with_retries_def split: sum.splits if_splits)
      from stop_retries [OF this _ active assms(4,5)] show ?thesis using assms(2) id by (simp add: CANCEL_ATTEMPTS_def)
    qed
    have step: "(res, w') = (case ra of Inr _ \<Rightarrow> (after_stop se rows ja, wa)
        | Inl e \<Rightarrow> if is_RunnerRetryableError e then (Inl (EngineUnavailableException ''Job could not be stopped right now, please retry.''), wa)
            else if is_RunnerError e then (Inl (EngineUnavailableException ''Job could not be stopped. Please contact support.''), wa)
            else (Inl e, wa))"
      using assms(1,4) reach active t eff
      by (auto simp: stop_job_def in_terminal_state_def status_simps split: sum.splits)
    have says: "prefix (if status ja = STOPPING then ''Job is stopping.'' else ''Job has been stopped.'') msg"
      if "after_stop se rows ja = Inr msg" for msg
      using after_stop_says [OF that] eff assms(4) by (simp add: same_identity_def)
    have fl: "runner ja \<noteq> RAY" using eff assms(4) by (simp add: same_identity_def)
    have raises: "after_stop se rows ja \<noteq> Inl e" if none: "se_service se = None" for e
    proof -
      define m where "m = (if status ja = STOPPING then ''Job is stopping.'' else ''Job has been stopped.'')"
      obtain rc ms where "cancel_runtime_jobs se ja rows [m] = (rc, ms)" by fastforce
      then show ?thesis using quiet [OF none, of ja "[m]"] fl by (simp add: after_stop_def m_def [symmetric])
    qed
    show ?thesis
    proof (cases ra)
      case (Inr so)
      then have out: "res = after_stop se rows ja" "w' = wa" using step by simp_all
      obtain st r' where st: "st \<in> {STOPPING, STOPPED}" "status ja = st" "job_row (wdb wa) i = Some r'" "status r' = st"
        using eff Inr by auto
      have "status r \<notin> set TERMINAL_STATUSES" "status r \<noteq> STOPPING" using active by (auto simp: status_simps)
      then show ?thesis using out st says raises by auto
    next
      case (Inl e)
      then show ?thesis using step eff by (auto split: if_splits)
    qed
  qed
qed

definition ex_stop :: stop_env where
  "ex_stop = \<lparr>se_call = (\<lambda>n. \<lparr>env_now = int n, env_uid = (\<lambda>_. ''uid''), kafka_send = (\<lambda>_. Inr ()),
       menv = \<lparr>me_kind = WorkloadInlineMirror, me_faults = \<lparr>mirror_query_raises = None, payload_query_raises = None\<rparr>, me_others = id,
         me_put = (\<lambda>_. Inr ())\<rparr>\<rparr>),
     se_answer = (\<lambda>_ _. Inr False), se_elapsed = (\<lambda>_. 0), se_runner = (\<lambda>_. Inr ()), se_service = None, se_text = (\<lambda>_. []),
     se_ray_active = (\<lambda>_. Inr False), se_ray_stop = (\<lambda>_. Inr False)\<rparr>"

definition ex_stop_world :: world where
  "ex_stop_world = \<lparr>wdb = example_db RUNNING, kafka = [], wmirror = \<lparr>executor = None, m_mirror = (\<lambda>_ _. 0), puts = []\<rparr>\<rparr>"

theorem stop_tells_the_status_witness:
  "\<exists>msg w' r'. stop_job ex_stop [] ''j'' example_user ex_stop_world = (Inr msg, w') \<and> job_row (wdb w') ''j'' = Some r' \<and>
     (status r' = STOPPING \<and> prefix ''Job is stopping.'' msg \<or> status r' = STOPPED \<and> prefix ''Job has been stopped.'' msg)"
proof -
  let ?x = "stop_job ex_stop [] ''j'' example_user ex_stop_world"
  obtain res w' where x: "?x = (res, w')" by fastforce
  have ok: "\<not> isl (fst ?x)" by code_simp
  then obtain msg where m: "res = Inr msg" using x by (cases res) auto
  have row: "job_row (wdb ex_stop_world) ''j'' = Some (example_job RUNNING)"
    by (simp add: ex_stop_world_def example_db_def job_row_def example_job_def Job_new_def)
  have j: "user_id (author (example_job RUNNING)) = user_id example_user" "runner (example_job RUNNING) = FLEETS"
      "status (example_job RUNNING) = RUNNING"
    by (simp_all add: example_job_def Job_new_def)
  have "\<forall>n j e. se_answer ex_stop n j = Inl e \<longrightarrow> is_RunnerError e" "\<forall>j e. se_runner ex_stop j = Inl e \<longrightarrow> is_RunnerError e"
    by (simp_all add: ex_stop_def)
  from stop_tells_the_status [OF x row j(1,2) this] show ?thesis
    using m x j(3) by (auto simp: status_simps)
qed

end
