(* ===== verification/Listings.thy ===== *)
theory Listings
  imports Authorization "HOL-Library.Product_Lexorder" "HOL-Library.List_Lexorder" "HOL-Library.Char_ord"
begin

text \<open>
  The listings of the API: pages of jobs with filters (\<^verbatim>\<open>core/model_managers/jobs.py\<close>), the jobs of a provider or of a
  function, and the functions a user sees (\<^verbatim>\<open>api/use_cases\<close>).
\<close>

section \<open>Pages of jobs\<close>

datatype TypeFilter = SERVERLESS | CATALOG

record job_filters =
  jf_function :: "string option"
  jf_functions :: "string list option"
  jf_provider :: "string option"
  jf_limit :: "int option"
  jf_offset :: "int option"
  jf_filter :: "TypeFilter option"
  jf_status :: "string option"
  jf_created_after :: "int option"

definition no_filters :: job_filters where
  "no_filters = \<lparr>jf_function = None, jf_functions = None, jf_provider = None, jf_limit = None, jf_offset = None, jf_filter = None,
     jf_status = None, jf_created_after = None\<rparr>"

abbreviation job_provider_name :: "job \<Rightarrow> string option" where
  "job_provider_name j \<equiv> map_option provider_name (Option.bind (job_program j) program_provider)"

abbreviation job_title :: "job \<Rightarrow> string option" where
  "job_title j \<equiv> map_option title (job_program j)"

text \<open>A text that names no status matches no row.\<close>

definition status_text :: "job \<Rightarrow> string" where
  "status_text j = (case status j of QUEUED \<Rightarrow> ''QUEUED'' | PENDING \<Rightarrow> ''PENDING'' | RUNNING \<Rightarrow> ''RUNNING'' | STOPPING \<Rightarrow> ''STOPPING''
     | STOPPED \<Rightarrow> ''STOPPED'' | SUCCEEDED \<Rightarrow> ''SUCCEEDED'' | FAILED \<Rightarrow> ''FAILED'')"

definition apply_filters :: "job_filters \<Rightarrow> job list \<Rightarrow> job list" where
  "apply_filters fs rows =
     (let q1 = (case jf_filter fs of
                  Some CATALOG \<Rightarrow> filter (\<lambda>j. Option.bind (job_program j) program_provider \<noteq> None) rows
                | Some SERVERLESS \<Rightarrow> filter (\<lambda>j. Option.bind (job_program j) program_provider = None) rows
                | None \<Rightarrow> rows);
          q2 = (if truthy (jf_provider fs) then filter (\<lambda>j. job_provider_name j = jf_provider fs) q1 else q1);
          q3 = (if truthy (jf_status fs) then filter (\<lambda>j. Some (status_text j) = jf_status fs) q2 else q2);
          q4 = (case jf_created_after fs of Some t \<Rightarrow> filter (\<lambda>j. created j \<ge> t) q3 | None \<Rightarrow> q3)
      in if truthy (jf_function fs) then filter (\<lambda>j. job_title j = jf_function fs) q4
         else (case jf_functions fs of
                 Some ts \<Rightarrow> if ts \<noteq> [] then filter (\<lambda>j. job_title j \<in> Some ` set ts) q4 else q4
               | None \<Rightarrow> q4))"

text \<open>Slicing a query set refuses negative bounds.\<close>

definition slice :: "int \<Rightarrow> int option \<Rightarrow> 'a list \<Rightarrow> 'a list res" where
  "slice start stop_at rows =
     (if start < 0 \<or> (case stop_at of Some e \<Rightarrow> e < 0 | None \<Rightarrow> False) then Inl (ValueError ''Negative indexing is not supported.'')
      else Inr (case stop_at of None \<Rightarrow> drop (nat start) rows | Some e \<Rightarrow> take (nat (e - start)) (drop (nat start) rows)))"

definition paginate_queryset :: "int option \<Rightarrow> int option \<Rightarrow> 'a list \<Rightarrow> ('a list \<times> nat) res" where
  "paginate_queryset limit offset rows =
     (let total = length rows;
          start = (case offset of None \<Rightarrow> 0 | Some n \<Rightarrow> n);
          stop_at = (case limit of None \<Rightarrow> None | Some l \<Rightarrow> if l = 0 then None else Some (start + l))
      in if start \<ge> int total \<and> total > 0 then Inr ([], total)
         else (case slice start stop_at rows of Inl e \<Rightarrow> Inl e | Inr page \<Rightarrow> Inr (page, total)))"

definition newest_first :: "job list \<Rightarrow> job list" where
  "newest_first rows = sort_key (\<lambda>j. - created j) rows"

definition user_jobs_page :: "user option \<Rightarrow> job_filters option \<Rightarrow> job list \<Rightarrow> (job list \<times> nat) res" where
  "user_jobs_page u fs rows =
     (let q = newest_first rows;
          q1 = (case u of None \<Rightarrow> q | Some x \<Rightarrow> filter (\<lambda>j. user_id (author j) = user_id x) q)
      in case fs of
           None \<Rightarrow> paginate_queryset (Some 20) (Some 0) q1
         | Some f \<Rightarrow> paginate_queryset (jf_limit f) (jf_offset f) (apply_filters f q1))"

section \<open>Use cases\<close>

definition jobs_list :: "catalog \<Rightarrow> user \<Rightarrow> job_filters \<Rightarrow> db \<Rightarrow> (job list \<times> nat) res" where
  "jobs_list cat u fs d =
     (if truthy (jf_function fs) \<and> get_function (the (jf_function fs)) (jf_provider fs) (cat_programs cat) = None
      then Inl (FunctionNotFoundException (the (jf_function fs)) None)
      else user_jobs_page (Some u) (Some fs) (job_tbl d))"

definition owned_function_titles :: "catalog \<Rightarrow> user \<Rightarrow> provider \<Rightarrow> string list" where
  "owned_function_titles cat u pr =
     remdups (map title (filter (\<lambda>p. map_option provider_id (program_provider p) = Some (provider_id pr) \<and> is_author u p) (cat_programs cat)))"

definition apply_access_scope ::
  "catalog \<Rightarrow> user \<Rightarrow> provider \<Rightarrow> job_filters \<Rightarrow> function_access_result \<Rightarrow> string list option res" where
  "apply_access_scope cat u pr fs far =
     (let pn = (case jf_provider fs of None \<Rightarrow> [] | Some n \<Rightarrow> n) in
      if truthy (jf_function fs)
      then (case can_list_jobs cat u (Some pr) (the (jf_function fs)) (Some far) of
              Inl e \<Rightarrow> Inl e
            | Inr False \<Rightarrow> Inl (ProviderNotFoundException pn)
            | Inr True \<Rightarrow>
                if get_function (the (jf_function fs)) (jf_provider fs) (cat_programs cat) = None
                then Inl (FunctionNotFoundException (the (jf_function fs)) (jf_provider fs)) else Inr None)
      else if use_legacy_authorization far \<and> provider_admin u pr then Inr None
      else
        let titles = (if use_legacy_authorization far then owned_function_titles cat u pr
                      else (case map_of (get_functions_by_provider far PLATFORM_PERMISSION_JOBS_READ) pn of None \<Rightarrow> [] | Some ts \<Rightarrow> ts) @
                             owned_function_titles cat u pr)
        in if titles = [] then Inl (ProviderNotFoundException pn) else Inr (Some titles))"

definition provider_jobs_list ::
  "catalog \<Rightarrow> user \<Rightarrow> job_filters \<Rightarrow> function_access_result \<Rightarrow> db \<Rightarrow> (job list \<times> nat) res" where
  "provider_jobs_list cat u fs far d =
     (let pn = (case jf_provider fs of None \<Rightarrow> [] | Some n \<Rightarrow> n) in
      case get_by_name cat pn of
        None \<Rightarrow> Inl (ProviderNotFoundException pn)
      | Some pr \<Rightarrow>
          (case apply_access_scope cat u pr fs far of
             Inl e \<Rightarrow> Inl e
           | Inr titles \<Rightarrow>
               user_jobs_page None (Some (case titles of None \<Rightarrow> fs | Some ts \<Rightarrow> fs\<lparr>jf_functions := Some ts\<rparr>)) (job_tbl d)))"

definition get_jobs_of_function ::
  "(nat \<Rightarrow> string) \<Rightarrow> catalog \<Rightarrow> user \<Rightarrow> function_access_result \<Rightarrow> nat \<Rightarrow> db \<Rightarrow> (job list \<times> bool) res" where
  "get_jobs_of_function id_text cat u far i d =
     (case first_by program_id (filter (\<lambda>p. program_id p = i) (cat_programs cat)) of
        None \<Rightarrow> Inl (FunctionNotFoundException (id_text i) None)
      | Some p \<Rightarrow>
          let jobs = filter (\<lambda>j. map_option program_id (job_program j) = Some i) (newest_first (job_tbl d));
              own = Inr (filter (job_author u) jobs, False)
          in (case program_provider p of
                None \<Rightarrow> own
              | Some pr \<Rightarrow>
                  (case can_list_jobs cat u (Some pr) (title p) (Some far) of
                     Inl e \<Rightarrow> Inl e
                   | Inr True \<Rightarrow> Inr (jobs, True)
                   | Inr False \<Rightarrow> own)))"

definition list_functions ::
  "catalog \<Rightarrow> user \<Rightarrow> function_access_result \<Rightarrow> TypeFilter option \<Rightarrow> string option \<Rightarrow> program list" where
  "list_functions cat u far ty pn =
     (let q = (case ty of
                 Some SERVERLESS \<Rightarrow> user_functions u (cat_programs cat)
               | Some CATALOG \<Rightarrow> with_permission cat u (Some RUN_PROGRAM_PERMISSION) (Some far) PLATFORM_PERMISSION_READ
                                    (provider_functions None (cat_programs cat))
               | None \<Rightarrow> with_permission cat u (Some VIEW_PROGRAM_PERMISSION) (Some far) PLATFORM_PERMISSION_READ (cat_programs cat))
      in sort_key (\<lambda>p. (title p, program_id p)) (if truthy pn then filter (of_provider (the pn)) q else q))"

definition get_function_by_title :: "catalog \<Rightarrow> user \<Rightarrow> function_access_result \<Rightarrow> string \<Rightarrow> string option \<Rightarrow> program res" where
  "get_function_by_title cat u far t pn =
     (case (if truthy pn
            then get_function_by_permission cat u t pn (Some far) PLATFORM_PERMISSION_READ (Some VIEW_PROGRAM_PERMISSION)
            else get_user_function cat u t) of
        None \<Rightarrow> Inl (FunctionNotFoundException t pn)
      | Some p \<Rightarrow> Inr p)"

section \<open>Pages are the listing\<close>

lemma paginate_page:
  assumes "0 < l"
  shows "paginate_queryset (Some (int l)) (Some (int (k * l))) rows = Inr (take l (drop (k * l) rows), length rows)"
proof (cases "k * l \<ge> length rows \<and> rows \<noteq> []")
  case True
  then show ?thesis by (simp add: paginate_queryset_def Let_def del: of_nat_mult)
next
  case False
  have "nat (int (k * l) + int l - int (k * l)) = l" "nat (int (k * l)) = k * l" by (simp_all del: of_nat_mult)
  then show ?thesis
    using False assms by (auto simp: paginate_queryset_def slice_def Let_def not_le simp del: of_nat_mult)
qed

lemma concat_pages: "concat (map (\<lambda>k. take l (drop (k * l) xs)) [0..<n]) = take (n * l) xs"
proof (induction n)
  case (Suc n)
  have "take (n * l) xs @ take l (drop (n * l) xs) = take (n * l + l) xs" by (simp add: take_add)
  then show ?case using Suc by (simp add: add.commute)
qed simp

lemma apply_filters_pages [simp]: "apply_filters (f\<lparr>jf_limit := a, jf_offset := b\<rparr>) rows = apply_filters f rows"
  by (cases f) (simp only: apply_filters_def job_filters.simps)

lemma apply_filters_subset: "set (apply_filters f rows) \<subseteq> set rows"
  by (auto simp: apply_filters_def Let_def split: option.splits TypeFilter.splits if_splits)

text \<open>
  The pages of a listing of jobs are the listing. For a page length above zero, every page is found, carries the total, and is the
  stretch of the user's matching jobs, newest first, at its offset; enough pages put together in order are exactly
  those jobs, and no job of another user is among them.
\<close>

theorem pages_are_the_listing:
  assumes "0 < l"
    and "all = apply_filters f (filter (\<lambda>j. user_id (author j) = user_id u) (newest_first rows))"
    and "page = (\<lambda>k. user_jobs_page (Some u) (Some (f\<lparr>jf_limit := Some (int l), jf_offset := Some (int (k * l))\<rparr>)) rows)"
  shows "(\<forall>k. page k = Inr (take l (drop (k * l) all), length all)) \<and>
    (length all \<le> n * l \<longrightarrow> concat (map (\<lambda>k. case page k of Inr (js, _) \<Rightarrow> js | Inl _ \<Rightarrow> []) [0..<n]) = all) \<and>
    (\<forall>j \<in> set all. user_id (author j) = user_id u)"
proof -
  have p: "page k = Inr (take l (drop (k * l) all), length all)" for k
    by (simp add: assms(2,3) user_jobs_page_def paginate_page [OF assms(1)] Let_def del: of_nat_mult)
  then have "concat (map (\<lambda>k. case page k of Inr (js, _) \<Rightarrow> js | Inl _ \<Rightarrow> []) [0..<n]) = take (n * l) all"
    by (simp add: concat_pages)
  moreover have "\<forall>j \<in> set all. user_id (author j) = user_id u" using apply_filters_subset by (fastforce simp: assms(2))
  ultimately show ?thesis using p by simp
qed

theorem pages_are_the_listing_witness:
  "user_jobs_page (Some ex_user) (Some (no_filters\<lparr>jf_limit := Some 1, jf_offset := Some 1\<rparr>)) [Job_new ''a'' ex_user 1, Job_new ''b'' ex_user 2] =
     Inr ([Job_new ''a'' ex_user 1], 2)"
proof -
  let ?rows = "[Job_new ''a'' ex_user 1, Job_new ''b'' ex_user 2]"
  let ?all = "apply_filters no_filters (filter (\<lambda>j. user_id (author j) = user_id ex_user) (newest_first ?rows))"
  have all: "?all = [Job_new ''b'' ex_user 2, Job_new ''a'' ex_user 1]"
    by (simp add: apply_filters_def no_filters_def newest_first_def Job_new_def)
  have "(0::nat) < 1" by simp
  from pages_are_the_listing [OF this refl refl, where f = no_filters and u = ex_user and rows = ?rows, THEN conjunct1, THEN spec, of 1] show ?thesis
    unfolding all by simp
qed

section \<open>The jobs of a provider\<close>

lemma map_of_mem_titles:
  "t \<in> set (case map_of (get_functions_by_provider far perm) pn of None \<Rightarrow> [] | Some ts \<Rightarrow> ts) \<Longrightarrow>
   \<exists>e \<in> set (far_functions far). perm \<in> set (fae_permissions e) \<and> fae_provider_name e = pn \<and> fae_function_title e = t"
  using functions_by_provider_mem [of pn far perm t] by (cases "map_of (get_functions_by_provider far perm) pn") (auto dest: map_of_SomeD)

lemma scope_allows:
  assumes "apply_access_scope cat u pr fs far = Inr titles" "provider_name pr = pn" "jf_provider fs = Some pn" "one_entry far"
    and "(case titles of None \<Rightarrow> truthy (jf_function fs) \<longrightarrow> Some t = jf_function fs | Some ts \<Rightarrow> t \<in> set ts)"
  shows "check_provider cat u pr t (Some far) PLATFORM_PERMISSION_JOBS_READ"
proof -
  have owned: "check_provider cat u pr t (Some far) PLATFORM_PERMISSION_JOBS_READ" if "t \<in> set (owned_function_titles cat u pr)"
    using that by (auto simp: owned_function_titles_def check_provider_def list_ex_iff)
  have granted: "check_provider cat u pr t (Some far) PLATFORM_PERMISSION_JOBS_READ"
    if nl: "\<not> use_legacy_authorization far"
      and t: "t \<in> set (case map_of (get_functions_by_provider far PLATFORM_PERMISSION_JOBS_READ) pn of None \<Rightarrow> [] | Some ts \<Rightarrow> ts)"
  proof -
    obtain e where e: "e \<in> set (far_functions far)" "PLATFORM_PERMISSION_JOBS_READ \<in> set (fae_permissions e)"
        "fae_provider_name e = pn" "fae_function_title e = t"
      using map_of_mem_titles [OF t] by blast
    then have "get_entry far pn t = Some e" using get_entry_iff [OF assms(4)] by blast
    then show ?thesis using nl e assms(2) by (simp add: check_provider_def uses_instances_def has_permission_for_function_def)
  qed
  show ?thesis
  proof (cases "truthy (jf_function fs)")
    case True
    then obtain t' where t': "jf_function fs = Some t'" by (cases "jf_function fs") simp_all
    show ?thesis
      using assms(1,5) t' True by (auto simp: apply_access_scope_def can_list_jobs_def provider_policy_def split: if_splits bool.splits)
  next
    case False
    show ?thesis
    proof (cases "use_legacy_authorization far \<and> provider_admin u pr")
      case True
      then show ?thesis by (simp add: check_provider_def uses_instances_def)
    next
      case no: False
      let ?g = "case map_of (get_functions_by_provider far PLATFORM_PERMISSION_JOBS_READ) pn of None \<Rightarrow> [] | Some ts \<Rightarrow> ts"
      let ?o = "owned_function_titles cat u pr"
      have "titles = Some (if use_legacy_authorization far then ?o else ?g @ ?o)"
        using assms(1) False no by (simp add: apply_access_scope_def Let_def assms(3) split: if_split_asm)
      then have "t \<in> set ?o \<or> \<not> use_legacy_authorization far \<and> t \<in> set ?g"
        using assms(5) by (simp split: if_split_asm) blast
      then show ?thesis using owned granted by blast
    qed
  qed
qed

text \<open>
  The jobs a provider listing shows are jobs the policy lets the user list. Every job on a page is of the named
  provider, and the access policy grants the user the listing of jobs of that job's function: as an
  administrator of the provider, by an entry of the instance, or as the author of the function.
\<close>

theorem provider_listing_is_scoped:
  assumes "provider_jobs_list cat u fs far d = Inr (js, n)" "jf_provider fs = Some pn" "pn \<noteq> []" "one_entry far" "j \<in> set js"
  shows "\<exists>pr t. get_by_name cat pn = Some pr \<and> job_provider_name j = Some pn \<and> job_title j = Some t \<and>
    can_list_jobs cat u (Some pr) t (Some far) = Inr True"
proof -
  obtain pr titles where pr: "get_by_name cat pn = Some pr" and sc: "apply_access_scope cat u pr fs far = Inr titles"
    and page: "user_jobs_page None (Some (case titles of None \<Rightarrow> fs | Some ts \<Rightarrow> fs\<lparr>jf_functions := Some ts\<rparr>)) (job_tbl d) = Inr (js, n)"
    using assms(1,2) by (auto simp: provider_jobs_list_def Let_def split: option.splits sum.splits)
  let ?f = "case titles of None \<Rightarrow> fs | Some ts \<Rightarrow> fs\<lparr>jf_functions := Some ts\<rparr>"
  have name: "provider_name pr = pn" using pr first_by_mem by (fastforce simp: get_by_name_def)
  have "j \<in> set (apply_filters ?f (newest_first (job_tbl d)))"
    using page assms(5)
    by (auto simp: user_jobs_page_def paginate_queryset_def slice_def Let_def
        split: option.splits if_splits sum.splits dest: in_set_takeD in_set_dropD)
  then have j: "job_provider_name j = Some pn" "truthy (jf_function fs) \<longrightarrow> job_title j = jf_function fs"
      "\<not> truthy (jf_function fs) \<longrightarrow> (case titles of None \<Rightarrow> True | Some ts \<Rightarrow> ts \<noteq> [] \<longrightarrow> job_title j \<in> Some ` set ts)"
    using assms(2,3) by (auto simp: apply_filters_def Let_def split: option.splits TypeFilter.splits if_splits)
  then obtain t where t: "job_title j = Some t" by (cases "job_program j") auto
  have some: "truthy (jf_function fs) \<Longrightarrow> titles = None" "titles \<noteq> Some []"
    using sc by (auto simp: apply_access_scope_def Let_def split: if_splits sum.splits bool.splits)
  have "check_provider cat u pr t (Some far) PLATFORM_PERMISSION_JOBS_READ"
    by (rule scope_allows [OF sc name assms(2,4)]) (use j t some in \<open>auto split: option.splits\<close>)
  then have "can_list_jobs cat u (Some pr) t (Some far) = Inr True" by (simp add: can_list_jobs_def provider_policy_def)
  then show ?thesis using pr j(1) t by blast
qed

theorem provider_listing_is_scoped_witness:
  "\<exists>pr. get_by_name ex_catalog ''p'' = Some pr \<and>
     can_list_jobs ex_catalog (ex_user\<lparr>user_id := 2\<rparr>) (Some pr) ''f'' (Some ex_access) = Inr True"
proof -
  let ?u = "ex_user\<lparr>user_id := 2\<rparr>" and ?j = "(Job_new ''a'' ex_user 1)\<lparr>job_program := Some ex_function\<rparr>"
  let ?d = "\<lparr>job_tbl = [?j], event_tbl = [], outbox_tbl = [], outbox_seq = 0, mirror_tbl = [], blocked_tbl = []\<rparr>"
  let ?fs = "no_filters\<lparr>jf_provider := Some ''p''\<rparr>"
  have "get_by_name ex_catalog ''p'' = Some ex_provider"
    by (simp add: get_by_name_def first_by_def ex_catalog_def ex_provider_def)
  moreover have "apply_access_scope ex_catalog ?u ex_provider ?fs ex_access = Inr (Some [''f''])" by code_simp
  ultimately have "provider_jobs_list ex_catalog ?u ?fs ex_access ?d = Inr ([?j], 1)"
    by (simp add: provider_jobs_list_def user_jobs_page_def newest_first_def apply_filters_def no_filters_def paginate_queryset_def slice_def
        ex_function_def ex_provider_def)
  moreover have "one_entry ex_access" by (simp add: one_entry_def ex_access_def)
  ultimately have list: "provider_jobs_list ex_catalog ?u ?fs ex_access ?d = Inr ([?j], 1)" "one_entry ex_access" by blast+
  have "jf_provider ?fs = Some ''p''" "''p'' \<noteq> []" "?j \<in> set [?j]" by simp_all
  from provider_listing_is_scoped [OF list(1) this(1,2) list(2) this(3)]
  obtain pr t where pr: "get_by_name ex_catalog ''p'' = Some pr" "job_title ?j = Some t"
      "can_list_jobs ex_catalog ?u (Some pr) t (Some ex_access) = Inr True"
    by blast
  have "t = ''f''" using pr(2) by (simp add: ex_function_def)
  then show ?thesis using pr(1,3) by blast
qed

end
