(* ===== verification/Isolation.thy ===== *)
theory Isolation
  imports Python_Text
begin

text \<open>
  Work in a forked child under limits (\<^verbatim>\<open>api/domain/isolated.py\<close>): what the child writes to the pipe, how the parent reads it and reaps
  the child, and the descriptors and processes the call leaves behind. What the operating system answers is an argument.
\<close>

section \<open>The child\<close>

datatype 'a payload = Result 'a | Reason string

text \<open>The type and the message of an exception as text.\<close>

record exn_words =
  exn_name :: "exn \<Rightarrow> string"
  exn_text :: "exn \<Rightarrow> string"

text \<open>
  The bytes the child has ready for the pipe. \<open>json.dumps\<close> is an argument; an exception that is not caught ends
  the child with nothing written.
\<close>

fun not_encodable :: "exn \<Rightarrow> bool" where
  "not_encodable (ValueError _) = True"
| "not_encodable (OtherException n) \<longleftrightarrow> n = ''TypeError''"
| "not_encodable _ = False"

definition too_much_memory :: "int \<Rightarrow> string" where
  "too_much_memory mb = ''it needed more than '' @ int_text mb @ '' MB of memory''"

definition child_payload :: "exn_words \<Rightarrow> int \<Rightarrow> 'a res \<Rightarrow> 'a payload" where
  "child_payload ew mb work =
     (case work of Inr x \<Rightarrow> Result x | Inl MemoryError \<Rightarrow> Reason (too_much_memory mb) | Inl e \<Rightarrow> Reason (''it raised '' @ exn_name ew e))"

definition run_child :: "exn_words \<Rightarrow> ('a payload \<Rightarrow> string res) \<Rightarrow> int \<Rightarrow> 'a res \<Rightarrow> string res" where
  "run_child ew dumps mb work =
     (case dumps (child_payload ew mb work) of
        Inr t \<Rightarrow> Inr t
      | Inl e \<Rightarrow> if e = MemoryError then dumps (Reason (too_much_memory mb))
                 else if not_encodable e then dumps (Reason ''its result could not be encoded as JSON'')
                 else Inl e)"

text \<open>
  Writing to the pipe past short writes: \<open>wr k m\<close> is what the \<open>k\<close>-th \<open>os.write\<close> of \<open>m\<close> remaining bytes answers. Gives the bytes written; it does not
  return if writes keep answering 0.
\<close>

partial_function (option) write_all :: "(nat \<Rightarrow> nat \<Rightarrow> nat res) \<Rightarrow> nat \<Rightarrow> string \<Rightarrow> string \<Rightarrow> (unit res \<times> string) option" where
  "write_all wr k done data =
     (if data = [] then Some (Inr (), done)
      else (case wr k (length data) of
              Inl e \<Rightarrow> Some (Inl e, done)
            | Inr n \<Rightarrow> write_all wr (Suc k) (done @ take n data) (drop n data)))"

section \<open>The parent\<close>

text \<open>The open descriptors of the parent, its children that still run, and its children that are not reaped.\<close>

record os_state =
  fds :: "nat list"
  alive :: "nat list"
  unreaped :: "nat list"

datatype wait_status = Exited | Signaled nat

definition SIGKILL :: nat where "SIGKILL = 9"

definition SIGXCPU :: nat where "SIGXCPU = 24"

record os_answers =
  oa_pipe :: "(nat \<times> nat) res"
  oa_fork :: "nat res"
  oa_select :: "bool res"
  oa_read :: "string list res"
  oa_kill :: "unit res"
  oa_wait :: "(wait_status \<times> int) res"
  oa_kill_again :: "unit res"
  oa_wait_again :: "unit res"

definition close_fd :: "nat \<Rightarrow> os_state \<Rightarrow> os_state" where
  "close_fd n s = s\<lparr>fds := removeAll n (fds s)\<rparr>"

definition killed :: "nat \<Rightarrow> unit res \<Rightarrow> os_state \<Rightarrow> os_state" where
  "killed pid answer s = (case answer of Inr _ \<Rightarrow> s\<lparr>alive := removeAll pid (alive s)\<rparr> | Inl _ \<Rightarrow> s)"

definition reaped :: "nat \<Rightarrow> 'a res \<Rightarrow> os_state \<Rightarrow> os_state" where
  "reaped pid answer s =
     (case answer of Inr _ \<Rightarrow> s\<lparr>alive := removeAll pid (alive s), unreaped := removeAll pid (unreaped s)\<rparr> | Inl _ \<Rightarrow> s)"

definition kill_and_reap :: "os_answers \<Rightarrow> nat \<Rightarrow> os_state \<Rightarrow> os_state" where
  "kill_and_reap oa pid s = reaped pid (oa_wait_again oa) (killed pid (oa_kill_again oa) s)"

text \<open>Reading the pipe, or killing the child when the deadline passed, and the wait; the first failure stops it.\<close>

definition read_then_wait :: "os_answers \<Rightarrow> nat \<Rightarrow> os_state \<Rightarrow> (string list \<times> bool \<times> wait_status \<times> int) res \<times> os_state" where
  "read_then_wait oa pid s =
     (case oa_select oa of
        Inl e \<Rightarrow> (Inl e, s)
      | Inr ready \<Rightarrow>
          let (chunks, s1) = (if ready then (oa_read oa, s) else (case oa_kill oa of Inl e \<Rightarrow> Inl e | Inr _ \<Rightarrow> Inr [], killed pid (oa_kill oa) s))
          in (case chunks of
                Inl e \<Rightarrow> (Inl e, s1)
              | Inr cs \<Rightarrow>
                  (case oa_wait oa of
                     Inl e \<Rightarrow> (Inl e, s1)
                   | Inr (st, used) \<Rightarrow> (Inr (cs, \<not> ready, st, used), reaped pid (oa_wait oa) s1))))"

fun is_os_or_memory :: "exn \<Rightarrow> bool" where
  "is_os_or_memory (OSError _) = True"
| "is_os_or_memory MemoryError = True"
| "is_os_or_memory _ = False"

definition read_and_reap ::
  "exn_words \<Rightarrow> os_answers \<Rightarrow> nat \<Rightarrow> os_state \<Rightarrow> (string list \<times> bool \<times> wait_status \<times> int) res \<times> os_state" where
  "read_and_reap ew oa pid s =
     (case read_then_wait oa pid s of
        (Inr x, s1) \<Rightarrow> (Inr x, s1)
      | (Inl e, s1) \<Rightarrow>
          (Inl (if is_os_or_memory e then IsolationError (''its answer could not be read ('' @ exn_name ew e @ '': '' @ exn_text ew e @ '')'') else e),
           kill_and_reap oa pid s1))"

definition collect ::
  "exn_words \<Rightarrow> (string \<Rightarrow> 'a payload res) \<Rightarrow> os_answers \<Rightarrow> int \<Rightarrow> nat \<Rightarrow> os_state \<Rightarrow> 'a res \<times> os_state" where
  "collect ew loads oa cpu pid s =
     (case read_and_reap ew oa pid s of
        (Inl e, s1) \<Rightarrow> (Inl e, s1)
      | (Inr (cs, timed_out, st, used), s1) \<Rightarrow>
          (if cs = [] then
             (if timed_out then Inl (IsolationError (''it took more than '' @ int_text (5 * cpu) @ ''.0 seconds of wall-clock time''))
              else (case st of
                      Signaled n \<Rightarrow>
                        if n = SIGXCPU \<or> n = SIGKILL \<and> used \<ge> cpu * 1000000
                        then Inl (IsolationError (''it took more than '' @ int_text cpu @ '' seconds of CPU time''))
                        else if n = SIGKILL
                        then Inl (IsolationError ''it was killed by the operating system, most likely for using too much memory'')
                        else Inl (IsolationError ''it stopped without producing an answer'')
                    | Exited \<Rightarrow> Inl (IsolationError ''it stopped without producing an answer'')))
           else (case loads (concat cs) of
                   Inl (ValueError _) \<Rightarrow> Inl (IsolationError ''it stopped without producing a complete answer'')
                 | Inl e \<Rightarrow> Inl e
                 | Inr (Reason r) \<Rightarrow> Inl (IsolationError r)
                 | Inr (Result x) \<Rightarrow> Inr x), s1))"

fun is_OSError :: "exn \<Rightarrow> bool" where
  "is_OSError (OSError _) = True"
| "is_OSError _ = False"

definition run_isolated ::
  "exn_words \<Rightarrow> (string \<Rightarrow> 'a payload res) \<Rightarrow> os_answers \<Rightarrow> int \<Rightarrow> os_state \<Rightarrow> 'a res \<times> os_state" where
  "run_isolated ew loads oa cpu s =
     (case oa_pipe oa of
        Inl e \<Rightarrow> (Inl (if is_OSError e then IsolationError (''it could not be started: '' @ exn_text ew e) else e), s)
      | Inr (r, w) \<Rightarrow>
          let s1 = s\<lparr>fds := w # r # fds s\<rparr> in
          (case oa_fork oa of
             Inl e \<Rightarrow>
               if is_OSError e
               then (Inl (IsolationError (''it could not be started: '' @ exn_text ew e)), close_fd w (close_fd r s1))
               else (Inl e, s1)
           | Inr pid \<Rightarrow>
               let s2 = close_fd w (s1\<lparr>alive := pid # alive s, unreaped := pid # unreaped s\<rparr>);
                   (res, s3) = collect ew loads oa cpu pid s2
               in (res, close_fd r s3)))"

section \<open>What the child sends\<close>

lemma write_all_sends:
  assumes "\<forall>k m. 0 < m \<longrightarrow> (\<exists>n. wr k m = Inr n \<and> 0 < n \<and> n \<le> m)"
  shows "write_all wr k sent data = Some (Inr (), sent @ data)"
proof (induction data arbitrary: k sent rule: length_induct)
  case (1 data)
  show ?case
  proof (cases "data = []")
    case False
    then obtain n where n: "wr k (length data) = Inr n" "0 < n" "n \<le> length data" using assms by blast
    then have "length (drop n data) < length data" using False by simp
    then have "write_all wr (Suc k) (sent @ take n data) (drop n data) = Some (Inr (), (sent @ take n data) @ drop n data)" using 1 by blast
    then show ?thesis using False n(1) by (subst write_all.simps) simp
  qed (subst write_all.simps, simp)
qed

section \<open>What the call leaves behind\<close>

lemma os_frame [simp]:
  "fds (killed pid a s) = fds s" "unreaped (killed pid a s) = unreaped s" "fds (reaped pid b s) = fds s"
  "alive (close_fd n s) = alive s" "unreaped (close_fd n s) = unreaped s" "fds (kill_and_reap oa pid s) = fds s"
  by (simp_all add: killed_def reaped_def kill_and_reap_def close_fd_def split: sum.splits)

lemma read_then_wait_frame:
  assumes "read_then_wait oa pid s = (r, s')"
  shows "fds s' = fds s" "(\<exists>x. r = Inr x) \<Longrightarrow> unreaped s' = removeAll pid (unreaped s) \<and> alive s' = removeAll pid (alive s)"
    "(\<exists>e. r = Inl e) \<Longrightarrow> unreaped s' = unreaped s \<and> set (alive s') \<subseteq> set (alive s) \<and> set (alive s) - {pid} \<subseteq> set (alive s')"
  using assms
  by (auto simp: read_then_wait_def killed_def reaped_def Let_def split: sum.splits if_splits prod.splits)

text \<open>A system call fails with \<open>OSError\<close> or \<open>MemoryError\<close>, and what the pipe carried may not be a document.\<close>

definition os_errors_only :: "os_answers \<Rightarrow> bool" where
  "os_errors_only oa \<longleftrightarrow>
     (\<forall>e. oa_pipe oa = Inl e \<or> oa_fork oa = Inl e \<longrightarrow> is_OSError e) \<and>
     (\<forall>e. oa_select oa = Inl e \<or> oa_read oa = Inl e \<or> oa_kill oa = Inl e \<or> oa_wait oa = Inl e \<longrightarrow> is_os_or_memory e)"

lemma read_then_wait_error:
  "read_then_wait oa pid s = (Inl e, s') \<Longrightarrow> os_errors_only oa \<Longrightarrow> is_os_or_memory e"
  by (auto simp: read_then_wait_def os_errors_only_def Let_def split: sum.splits if_splits prod.splits)

lemma collect_raises:
  assumes "collect ew loads oa cpu pid s = (Inl e, s')" "os_errors_only oa" "\<forall>t e. loads t = Inl e \<longrightarrow> (\<exists>m. e = ValueError m)"
  shows "\<exists>m. e = IsolationError m"
proof -
  obtain r1 s1 where r1: "read_then_wait oa pid s = (r1, s1)" by fastforce
  show ?thesis
  proof (cases r1)
    case (Inl x)
    then have "is_os_or_memory x" using read_then_wait_error r1 assms(2) by blast
    then show ?thesis using assms(1) r1 Inl by (auto simp: collect_def read_and_reap_def)
  next
    case (Inr x)
    obtain cs b st u where x: "x = (cs, b, st, u)" by (metis prod_cases4)
    show ?thesis
    proof (cases "cs = []")
      case True
      then show ?thesis using assms(1) r1 Inr x by (auto simp: collect_def read_and_reap_def split: if_splits wait_status.splits)
    next
      case False
      then show ?thesis
        using assms(1,3) r1 Inr x by (auto simp: collect_def read_and_reap_def split: sum.splits payload.splits exn.splits)
    qed
  qed
qed

lemma collect_frame:
  assumes "collect ew loads oa cpu pid s = (res, s')" "pid \<notin> set ps" "alive s = pid # ps" "unreaped s = pid # us" "pid \<notin> set us"
  shows "fds s' = fds s" "unreaped s' = us \<and> alive s' = ps \<or> oa_wait_again oa \<noteq> Inr ()"
proof -
  obtain r1 s1 where r1: "read_then_wait oa pid s = (r1, s1)" by fastforce
  note frame = read_then_wait_frame [OF r1]
  have "fds s' = fds s \<and> (unreaped s' = us \<and> alive s' = ps \<or> oa_wait_again oa \<noteq> Inr ())"
  proof (cases r1)
    case (Inr x)
    then have "s' = s1" using assms(1) r1 by (cases x) (simp add: collect_def read_and_reap_def)
    then show ?thesis using frame(1,2) Inr assms(2-5) by (cases x) simp
  next
    case (Inl e)
    then have s': "s' = kill_and_reap oa pid s1" using assms(1) r1 by (simp add: collect_def read_and_reap_def)
    have "alive s1 = pid # ps \<or> alive s1 = ps"
      using r1 Inl assms(2,3) by (auto simp: read_then_wait_def killed_def Let_def split: sum.splits if_splits prod.splits)
    then show ?thesis
      using s' frame(1) frame(3) Inl assms(2-5) by (auto simp: kill_and_reap_def reaped_def killed_def split: sum.splits)
  qed
  then show "fds s' = fds s" "unreaped s' = us \<and> alive s' = ps \<or> oa_wait_again oa \<noteq> Inr ()" by simp_all
qed

lemma isolation_answers:
  assumes "oa_pipe oa = Inr (a, b)" "oa_fork oa = Inr pid" "oa_select oa = Inr True" "oa_read oa = Inr cs" "oa_wait oa = Inr z"
    and "run_child ew dumps mb work = Inr (concat cs)" "\<forall>p t. dumps p = Inr t \<longrightarrow> t \<noteq> [] \<and> loads t = Inr p"
    and "dumps (child_payload ew mb work) = Inr t"
  shows "fst (run_isolated ew loads oa cpu s) =
    (case work of Inr x \<Rightarrow> Inr x | Inl MemoryError \<Rightarrow> Inl (IsolationError (too_much_memory mb))
      | Inl e \<Rightarrow> Inl (IsolationError (''it raised '' @ exn_name ew e)))"
proof -
  have t: "t = concat cs" using assms(6,8) by (simp add: run_child_def)
  then have "concat cs \<noteq> []" "loads (concat cs) = Inr (child_payload ew mb work)" using assms(7,8) by blast+
  then show ?thesis
    using assms(1-5)
    by (cases z; cases work)
      (auto simp: run_isolated_def collect_def read_and_reap_def read_then_wait_def child_payload_def Let_def split: exn.split)
qed

text \<open>
  Isolated work leaves nothing behind and answers. Whatever the operating system and the child do, the call ends with the
  descriptors it found, and with the child reaped unless the operating system refused even the last wait; it raises nothing but
  \<open>IsolationError\<close>. When the child could write its whole answer and the parent read it, the call returns what the work returned,
  and names the memory limit or the exception when the work raised.
\<close>

theorem isolation_leaks_nothing:
  assumes "run_isolated ew loads oa cpu s = (res, s')" "os_errors_only oa" "\<forall>t e. loads t = Inl e \<longrightarrow> (\<exists>m. e = ValueError m)"
    and "\<forall>a b. oa_pipe oa = Inr (a, b) \<longrightarrow> a \<notin> set (fds s) \<and> b \<notin> set (fds s)"
    and "\<forall>p. oa_fork oa = Inr p \<longrightarrow> p \<notin> set (alive s) \<and> p \<notin> set (unreaped s)"
  shows "fds s' = fds s \<and> (alive s' = alive s \<and> unreaped s' = unreaped s \<or> oa_wait_again oa \<noteq> Inr ()) \<and>
    (\<forall>e. res = Inl e \<longrightarrow> (\<exists>m. e = IsolationError m)) \<and>
    (\<forall>a b pid cs z t work. oa_pipe oa = Inr (a, b) \<and> oa_fork oa = Inr pid \<and> oa_select oa = Inr True \<and> oa_read oa = Inr cs \<and> oa_wait oa = Inr z \<and>
       run_child ew dumps mb work = Inr (concat cs) \<and> (\<forall>p t. dumps p = Inr t \<longrightarrow> t \<noteq> [] \<and> loads t = Inr p) \<and>
       dumps (child_payload ew mb work) = Inr t \<longrightarrow>
       res = (case work of Inr x \<Rightarrow> Inr x | Inl MemoryError \<Rightarrow> Inl (IsolationError (too_much_memory mb))
         | Inl e \<Rightarrow> Inl (IsolationError (''it raised '' @ exn_name ew e))))"
proof -
  have "fds s' = fds s \<and> (alive s' = alive s \<and> unreaped s' = unreaped s \<or> oa_wait_again oa \<noteq> Inr ()) \<and>
    (\<forall>e. res = Inl e \<longrightarrow> (\<exists>m. e = IsolationError m))"
  proof (cases "oa_pipe oa")
    case (Inl e)
    then show ?thesis using assms(1,2) by (auto simp: run_isolated_def os_errors_only_def)
  next
    case (Inr x)
    then obtain a b where ab: "oa_pipe oa = Inr (a, b)" by (cases x) simp
    have fresh: "a \<notin> set (fds s)" "b \<notin> set (fds s)" using assms(4) ab by blast+
    show ?thesis
    proof (cases "oa_fork oa")
      case (Inl e)
      then have "is_OSError e" using assms(2) by (simp add: os_errors_only_def)
      then show ?thesis using assms(1) ab Inl fresh by (auto simp: run_isolated_def close_fd_def removeAll_id)
    next
      case (Inr pid)
      define s2 where "s2 = close_fd b (s\<lparr>fds := b # a # fds s, alive := pid # alive s, unreaped := pid # unreaped s\<rparr>)"
      obtain r3 s3 where c: "collect ew loads oa cpu pid s2 = (r3, s3)" by fastforce
      have out: "res = r3" "s' = close_fd a s3"
        using assms(1) ab Inr c by (auto simp: run_isolated_def s2_def Let_def)
      have pid: "pid \<notin> set (alive s)" "pid \<notin> set (unreaped s)" using assms(5) Inr by blast+
      have s2: "alive s2 = pid # alive s" "unreaped s2 = pid # unreaped s" by (simp_all add: s2_def)
      note frame = collect_frame [OF c pid(1) s2 pid(2)]
      have "fds (close_fd a s3) = fds s" using frame(1) fresh by (auto simp: s2_def close_fd_def removeAll_id)
      then show ?thesis using frame(2) out c collect_raises [OF _ assms(2,3)] by auto
    qed
  qed
  moreover have "res = fst (run_isolated ew loads oa cpu s)" using assms(1) by simp
  ultimately show ?thesis
    by (intro conjI allI impI; (elim conjE)?) (simp, simp, blast, simp only:, rule isolation_answers)
qed

text \<open>
  The child's side and the parent's together: the parent reads, in some chunks, what arrived of the bytes the child wrote.
\<close>

definition isolated_work ::
  "exn_words \<Rightarrow> (string \<Rightarrow> 'a payload res) \<Rightarrow> ('a payload \<Rightarrow> string res) \<Rightarrow> os_answers \<Rightarrow> (string \<Rightarrow> string list res) \<Rightarrow> int \<Rightarrow> int \<Rightarrow> os_state \<Rightarrow> 'a res \<Rightarrow> 'a res" where
  "isolated_work ew loads dumps oa arrives mb cpu s work =
     fst (run_isolated ew loads (oa\<lparr>oa_read := (case run_child ew dumps mb work of Inr t \<Rightarrow> arrives t | Inl _ \<Rightarrow> Inr [])\<rparr>) cpu s)"

text \<open>What the callers rely on: a returned value is what the work returned, and everything else is an \<open>IsolationError\<close>.\<close>

definition isolating :: "('a res \<Rightarrow> 'a res) \<Rightarrow> bool" where
  "isolating run \<longleftrightarrow> (\<forall>work. (\<forall>x. run work = Inr x \<longrightarrow> work = Inr x) \<and> (\<forall>e. run work = Inl e \<longrightarrow> (\<exists>m. e = IsolationError m)))"

lemma run_isolated_returns:
  assumes "fst (run_isolated ew loads oa cpu s) = Inr x"
  obtains cs where "oa_read oa = Inr cs" "cs \<noteq> []" "loads (concat cs) = Inr (Result x)"
  using assms
  by (auto simp: run_isolated_def collect_def read_and_reap_def read_then_wait_def Let_def
      split: sum.splits prod.splits if_splits wait_status.splits payload.splits exn.splits)

lemma run_isolated_raises:
  assumes "fst (run_isolated ew loads oa cpu s) = Inl e" "os_errors_only oa" "\<forall>t e. loads t = Inl e \<longrightarrow> (\<exists>m. e = ValueError m)"
  shows "\<exists>m. e = IsolationError m"
  using assms collect_raises [OF _ assms(2,3)]
  by (auto simp: run_isolated_def os_errors_only_def Let_def split: sum.splits prod.splits if_splits)

lemma isolated_work_isolating:
  assumes "os_errors_only oa" "\<forall>t e. arrives t = Inl e \<longrightarrow> is_os_or_memory e"
    and "\<forall>t e. loads t = Inl e \<longrightarrow> (\<exists>m. e = ValueError m)" "\<forall>p t. dumps p = Inr t \<longrightarrow> loads t = Inr p"
    and "\<forall>p t cs. dumps p = Inr t \<and> arrives t = Inr cs \<longrightarrow> concat cs = t \<or> (\<exists>m. loads (concat cs) = Inl (ValueError m))"
  shows "isolating (isolated_work ew loads dumps oa arrives mb cpu s)"
  unfolding isolating_def
proof (intro allI conjI impI)
  fix work x
  define oa' where "oa' = oa\<lparr>oa_read := (case run_child ew dumps mb work of Inr t \<Rightarrow> arrives t | Inl _ \<Rightarrow> Inr [])\<rparr>"
  assume "isolated_work ew loads dumps oa arrives mb cpu s work = Inr x"
  then have r: "fst (run_isolated ew loads oa' cpu s) = Inr x" by (simp add: isolated_work_def oa'_def)
  obtain cs where cs: "oa_read oa' = Inr cs" "cs \<noteq> []" "loads (concat cs) = Inr (Result x)"
    using run_isolated_returns [OF r] .
  then obtain t where t: "run_child ew dumps mb work = Inr t" "arrives t = Inr cs"
    by (cases "run_child ew dumps mb work") (auto simp: oa'_def)
  then obtain p where p: "dumps p = Inr t" "p = child_payload ew mb work \<or> (\<exists>m. p = Reason m)"
    by (auto simp: run_child_def split: sum.splits if_splits)
  then have "loads t = Inr p" "concat cs = t" using assms(4,5) t(2) cs(3) by fastforce+
  then have "p = Result x" using cs(3) by simp
  then show "work = Inr x" using p(2) by (auto simp: child_payload_def split: sum.splits exn.splits)
next
  fix work e
  assume "isolated_work ew loads dumps oa arrives mb cpu s work = Inl e"
  moreover have "os_errors_only (oa\<lparr>oa_read := (case run_child ew dumps mb work of Inr t \<Rightarrow> arrives t | Inl _ \<Rightarrow> Inr [])\<rparr>)"
    using assms(1,2) by (auto simp: os_errors_only_def split: sum.splits)
  ultimately show "\<exists>m. e = IsolationError m" using run_isolated_raises assms(3) unfolding isolated_work_def by blast
qed

definition ex_answers :: os_answers where
  "ex_answers = \<lparr>oa_pipe = Inr (3, 4), oa_fork = Inr 7, oa_select = Inr True, oa_read = Inr [''o'', ''k''], oa_kill = Inr (),
     oa_wait = Inr (Exited, 0), oa_kill_again = Inr (), oa_wait_again = Inr ()\<rparr>"

definition ex_words :: exn_words where
  "ex_words = \<lparr>exn_name = (\<lambda>_. ''Exception''), exn_text = (\<lambda>_. [])\<rparr>"

definition ex_loads :: "string \<Rightarrow> nat payload res" where
  "ex_loads t = (if t = ''ok'' then Inr (Result 1) else Inl (ValueError t))"

definition ex_dumps :: "nat payload \<Rightarrow> string res" where
  "ex_dumps p = (if p = Result 1 then Inr ''ok'' else Inl (OtherException ''RecursionError''))"

theorem isolation_leaks_nothing_witness:
  "run_isolated ex_words ex_loads ex_answers 1 \<lparr>fds = [0, 1, 2], alive = [], unreaped = []\<rparr> = (Inr 1, \<lparr>fds = [0, 1, 2], alive = [], unreaped = []\<rparr>)"
proof -
  let ?s = "\<lparr>fds = [0, 1, 2], alive = [], unreaped = []\<rparr>"
  obtain r s' where x: "run_isolated ex_words ex_loads ex_answers 1 ?s = (r, s')" by fastforce
  have ok: "os_errors_only ex_answers" by (simp add: os_errors_only_def ex_answers_def)
  have lo: "\<forall>t e. ex_loads t = Inl e \<longrightarrow> (\<exists>m. e = ValueError m)" by (simp add: ex_loads_def)
  have fresh: "\<forall>a b. oa_pipe ex_answers = Inr (a, b) \<longrightarrow> a \<notin> set (fds ?s) \<and> b \<notin> set (fds ?s)"
    "\<forall>p. oa_fork ex_answers = Inr p \<longrightarrow> p \<notin> set (alive ?s) \<and> p \<notin> set (unreaped ?s)"
    by (simp_all add: ex_answers_def)
  have child: "run_child ex_words ex_dumps 64 (Inr 1) = Inr (concat [''o'', ''k''])" "child_payload ex_words 64 (Inr (1::nat)) = Result 1"
    "\<forall>p t. ex_dumps p = Inr t \<longrightarrow> t \<noteq> [] \<and> ex_loads t = Inr p"
    by (simp_all add: run_child_def child_payload_def ex_dumps_def ex_loads_def)
  note all = isolation_leaks_nothing [OF x ok lo fresh, of ex_dumps 64]
  have "r = Inr 1"
    using all [THEN conjunct2, THEN conjunct2, THEN conjunct2, rule_format, of 3 4 7 "[''o'', ''k'']" "(Exited, 0)" "Inr 1" "''ok''"] child
    by (simp add: ex_answers_def ex_dumps_def)
  moreover have "fds s' = [0, 1, 2]" "alive s' = []" "unreaped s' = []"
    using all by (simp_all add: ex_answers_def)
  ultimately show ?thesis using x by simp
qed

end
