(* ===== verification/Arguments_Schema.thy ===== *)
theory Arguments_Schema
  imports Json_Documents Isolation "HOL-Library.Sublist" Python_Text
begin

text \<open>
  The schema of a function's arguments (\<^verbatim>\<open>api/domain/arguments_schema.py\<close>) and its use
  (\<^verbatim>\<open>api/use_cases/programs/validate_arguments.py\<close>): the walks over references, the checks at upload and the validation of the arguments of a
  run. \<open>json.loads\<close>, the codec of \<open>urllib.parse.unquote\<close> and the jsonschema library are arguments.
\<close>

section \<open>References\<close>

definition REF_KEYWORDS :: "string list" where
  "REF_KEYWORDS = [''$ref'', ''$dynamicRef'', ''$recursiveRef'']"

definition LITERAL_VALUE_KEYWORDS :: "string list" where
  "LITERAL_VALUE_KEYWORDS = [''const'', ''default'', ''enum'', ''examples'']"

definition SCHEMA_MAP_KEYWORDS :: "string list" where
  "SCHEMA_MAP_KEYWORDS = [''properties'', ''patternProperties'', ''$defs'', ''definitions'', ''dependentSchemas'', ''dependencies'']"

definition member_children :: "string \<times> json \<Rightarrow> json list" where
  "member_children kv =
     (if fst kv \<in> set LITERAL_VALUE_KEYWORDS then []
      else (case snd kv of
              JObj m \<Rightarrow> if fst kv \<in> set SCHEMA_MAP_KEYWORDS then map snd m else [JObj m]
            | v \<Rightarrow> [v]))"

definition schema_children :: "(string \<times> json) list \<Rightarrow> json list" where
  "schema_children kvs = concat (map member_children kvs)"

lemma member_children_weight: "c \<in> set (member_children kv) \<Longrightarrow> weight c \<le> weight (snd kv)"
proof -
  have sub: "weight (snd x) \<le> weight (JObj m)" if "x \<in> set m" for x m
    using member_le_sum_list [of "weight (snd x)" "map (\<lambda>kv. weight (snd kv)) m"] that by force
  assume "c \<in> set (member_children kv)"
  then show ?thesis using sub by (auto simp: member_children_def split: if_splits json.splits)
qed

lemma child_weight [termination_simp]: "c \<in> set (schema_children kvs) \<Longrightarrow> weight c < weight (JObj kvs)"
proof -
  assume "c \<in> set (schema_children kvs)"
  then obtain kv where kv: "kv \<in> set kvs" "c \<in> set (member_children kv)" by (auto simp: schema_children_def)
  have "weight (snd kv) \<le> sum_list (map (\<lambda>kv. weight (snd kv)) kvs)" using kv(1) by (auto intro: member_le_sum_list)
  then show ?thesis using member_children_weight [OF kv(2)] by simp
qed

lemma item_weight [termination_simp]: "x \<in> set xs \<Longrightarrow> weight x < weight (JList xs)"
  by (auto intro!: le_imp_less_Suc member_le_sum_list)

fun first_some :: "('a \<Rightarrow> 'b option) \<Rightarrow> 'a list \<Rightarrow> 'b option" where
  "first_some f [] = None"
| "first_some f (x # xs) = (case f x of Some y \<Rightarrow> Some y | None \<Rightarrow> first_some f xs)"

lemma first_some_cong [fundef_cong]: "xs = ys \<Longrightarrow> (\<And>x. x \<in> set ys \<Longrightarrow> f x = g x) \<Longrightarrow> first_some f xs = first_some g ys"
  by (induction xs arbitrary: ys) (auto split: option.split)

lemma first_some_None [simp]: "first_some f xs = None \<longleftrightarrow> (\<forall>x \<in> set xs. f x = None)"
  by (induction xs) (auto split: option.splits)

text \<open>The text under one of the reference keywords.\<close>

definition ref_under :: "(string \<times> json) list \<Rightarrow> string \<Rightarrow> string option" where
  "ref_under kvs kw = (case map_of kvs kw of Some (JStr r) \<Rightarrow> Some r | _ \<Rightarrow> None)"

definition external :: "string \<Rightarrow> string option" where
  "external r = (if prefix ''#'' r then None else Some r)"

function find_external_ref :: "json \<Rightarrow> string option" where
  "find_external_ref (JObj kvs) =
     (case first_some (\<lambda>kw. Option.bind (ref_under kvs kw) external) REF_KEYWORDS of
        Some r \<Rightarrow> Some r
      | None \<Rightarrow> first_some find_external_ref (schema_children kvs))"
| "find_external_ref (JList xs) = first_some find_external_ref xs"
| "find_external_ref JNull = None"
| "find_external_ref (JBool b) = None"
| "find_external_ref (JInt n) = None"
| "find_external_ref (JFloat f) = None"
| "find_external_ref (JStr s) = None"
  by pat_completeness auto

termination find_external_ref
  by (relation "measure weight") (auto dest: child_weight item_weight simp del: weight.simps)

function holds_subresource :: "json \<Rightarrow> bool" where
  "holds_subresource (JObj kvs) = (if ref_under kvs ''$id'' \<noteq> None then True else list_ex holds_subresource (schema_children kvs))"
| "holds_subresource (JList xs) = list_ex holds_subresource xs"
| "holds_subresource JNull = False"
| "holds_subresource (JBool b) = False"
| "holds_subresource (JInt n) = False"
| "holds_subresource (JFloat f) = False"
| "holds_subresource (JStr s) = False"
  by pat_completeness auto

termination holds_subresource
  by (relation "measure weight") (auto dest: child_weight item_weight simp del: weight.simps)

text \<open>
  Percent-decoding: the ASCII runs of the text become bytes, which the UTF-8 codec (an argument) turns into characters; the other characters stay.
\<close>

definition hex_val :: "char \<Rightarrow> nat option" where
  "hex_val c = (let n = of_char c in
     if 48 \<le> n \<and> n \<le> 57 then Some (n - 48) else if 65 \<le> n \<and> n \<le> 70 then Some (n - 55)
     else if 97 \<le> n \<and> n \<le> 102 then Some (n - 87) else None)"

fun unquote_to_bytes :: "string \<Rightarrow> nat list" where
  "unquote_to_bytes (c # a # b # xs) =
     (if c = CHR ''%'' then
        (case (hex_val a, hex_val b) of
           (Some m, Some n) \<Rightarrow> (16 * m + n) # unquote_to_bytes xs
         | _ \<Rightarrow> of_char c # unquote_to_bytes (a # b # xs))
      else of_char c # unquote_to_bytes (a # b # xs))"
| "unquote_to_bytes (c # xs) = of_char c # unquote_to_bytes xs"
| "unquote_to_bytes [] = []"

definition is_ascii :: "char \<Rightarrow> bool" where
  "is_ascii c \<longleftrightarrow> (of_char c :: nat) < 128"

function unquote_runs :: "(nat list \<Rightarrow> string) \<Rightarrow> string \<Rightarrow> string" where
  "unquote_runs dec s =
     (if s = [] then []
      else if is_ascii (hd s) then dec (unquote_to_bytes (takeWhile is_ascii s)) @ unquote_runs dec (dropWhile is_ascii s)
      else hd s # unquote_runs dec (tl s))"
  by pat_completeness auto

termination unquote_runs
  by (relation "measure (length \<circ> snd)") (auto simp: neq_Nil_conv le_imp_less_Suc length_dropWhile_le)

declare unquote_runs.simps [simp del]

definition unquote :: "(nat list \<Rightarrow> string) \<Rightarrow> string \<Rightarrow> string" where
  "unquote dec s = (if CHR ''%'' \<notin> set s then s else unquote_runs dec s)"

definition unescape :: "string \<Rightarrow> string" where
  "unescape s = replace2 (CHR ''~'') (CHR ''0'') (CHR ''~'') (replace2 (CHR ''~'') (CHR ''1'') (CHR ''/'') s)"

fun names :: "json \<Rightarrow> string list \<Rightarrow> bool" where
  "names v [] = True"
| "names (JObj kvs) (p # ps) = (case map_of kvs p of None \<Rightarrow> False | Some v \<Rightarrow> names v ps)"
| "names (JList xs) (p # ps) = (case py_int p of None \<Rightarrow> False | Some i \<Rightarrow> if 0 \<le> i \<and> i < int (length xs) then names (xs ! nat i) ps else False)"
| "names _ (p # ps) = False"

definition pointer_resolves :: "(nat list \<Rightarrow> string) \<Rightarrow> json \<Rightarrow> string \<Rightarrow> bool" where
  "pointer_resolves dec doc ref =
     (let fragment = (if prefix ''/'' (drop 1 ref) then drop 2 ref else drop 1 ref)
      in if fragment = [] then True else names doc (map unescape (split_on (CHR ''/'') (unquote dec fragment))))"

text \<open>A reference that is a pointer into the document and names nothing; other references are left alone.\<close>

definition dangling :: "(nat list \<Rightarrow> string) \<Rightarrow> json \<Rightarrow> string \<Rightarrow> string option" where
  "dangling dec doc r =
     (if \<not> prefix ''#'' r then None
      else if drop 1 r \<noteq> [] \<and> \<not> prefix ''/'' (drop 1 r) then None
      else if pointer_resolves dec doc r then None else Some r)"

function find_unresolvable_in :: "(nat list \<Rightarrow> string) \<Rightarrow> json \<Rightarrow> json \<Rightarrow> string option" where
  "find_unresolvable_in dec doc (JObj kvs) =
     (case first_some (\<lambda>kw. Option.bind (ref_under kvs kw) (dangling dec doc)) REF_KEYWORDS of
        Some r \<Rightarrow> Some r
      | None \<Rightarrow> first_some (find_unresolvable_in dec doc) (schema_children kvs))"
| "find_unresolvable_in dec doc (JList xs) = first_some (find_unresolvable_in dec doc) xs"
| "find_unresolvable_in dec doc JNull = None"
| "find_unresolvable_in dec doc (JBool b) = None"
| "find_unresolvable_in dec doc (JInt n) = None"
| "find_unresolvable_in dec doc (JFloat f) = None"
| "find_unresolvable_in dec doc (JStr s) = None"
  by pat_completeness auto

termination find_unresolvable_in
  by (relation "measure (\<lambda>(_, _, v). weight v)") (auto dest: child_weight item_weight simp del: weight.simps)

definition find_unresolvable_ref :: "(nat list \<Rightarrow> string) \<Rightarrow> json \<Rightarrow> string option" where
  "find_unresolvable_ref dec schema = (if holds_subresource schema then None else find_unresolvable_in dec schema schema)"

section \<open>The schema positions of a document\<close>

inductive in_schema :: "json \<Rightarrow> json \<Rightarrow> bool" for doc where
  itself: "in_schema doc doc"
| below: "in_schema doc (JObj kvs) \<Longrightarrow> c \<in> set (schema_children kvs) \<Longrightarrow> in_schema doc c"
| item: "in_schema doc (JList xs) \<Longrightarrow> c \<in> set xs \<Longrightarrow> in_schema doc c"

text \<open>A reference that some schema position of the document holds.\<close>

definition has_ref :: "json \<Rightarrow> string \<Rightarrow> bool" where
  "has_ref doc r \<longleftrightarrow> (\<exists>kvs. \<exists>kw \<in> set REF_KEYWORDS. in_schema doc (JObj kvs) \<and> ref_under kvs kw = Some r)"

lemma find_external_none: "in_schema doc v \<Longrightarrow> find_external_ref doc = None \<Longrightarrow> find_external_ref v = None"
  by (induction rule: in_schema.induct) (auto split: option.splits)

lemma find_unresolvable_none: "in_schema doc v \<Longrightarrow> find_unresolvable_in dec d doc = None \<Longrightarrow> find_unresolvable_in dec d v = None"
  by (induction rule: in_schema.induct) (auto split: option.splits)

lemma no_subresource: "in_schema doc v \<Longrightarrow> \<not> holds_subresource doc \<Longrightarrow> \<not> holds_subresource v"
  by (induction rule: in_schema.induct) (auto simp: list_ex_iff split: if_splits)

lemma external_refs_refused: "find_external_ref doc = None \<Longrightarrow> has_ref doc r \<Longrightarrow> prefix ''#'' r"
proof -
  assume none: "find_external_ref doc = None" and "has_ref doc r"
  then obtain kvs kw where kw: "in_schema doc (JObj kvs)" "kw \<in> set REF_KEYWORDS" "ref_under kvs kw = Some r" by (auto simp: has_ref_def)
  have "find_external_ref (JObj kvs) = None" using find_external_none kw(1) none .
  then have "first_some (\<lambda>kw. Option.bind (ref_under kvs kw) external) REF_KEYWORDS = None" by (simp split: option.splits)
  then show ?thesis using kw(2,3) by (fastforce simp: external_def split: if_splits)
qed

lemma dangling_refs_refused:
  "find_unresolvable_ref dec doc = None \<Longrightarrow> \<not> holds_subresource doc \<Longrightarrow> has_ref doc r \<Longrightarrow> dangling dec doc r = None"
proof -
  assume none: "find_unresolvable_ref dec doc = None" "\<not> holds_subresource doc" and "has_ref doc r"
  then obtain kvs kw where kw: "in_schema doc (JObj kvs)" "kw \<in> set REF_KEYWORDS" "ref_under kvs kw = Some r" by (auto simp: has_ref_def)
  have "find_unresolvable_in dec doc (JObj kvs) = None"
    using find_unresolvable_none [OF kw(1)] none by (simp add: find_unresolvable_ref_def)
  then have "first_some (\<lambda>kw. Option.bind (ref_under kvs kw) (dangling dec doc)) REF_KEYWORDS = None" by (simp split: option.splits)
  then show ?thesis using kw(2,3) by fastforce
qed

text \<open>An \<open>$id\<close> at the very top switches the search for references that name nothing off, wherever they are.\<close>

lemma top_id_skips_the_check:
  "find_unresolvable_ref dec (JObj [(''$id'', JStr ''x''), (''properties'', JObj [(''p'', JObj [(''$ref'', JStr ''#/nope'')])])]) = None"
  by (simp add: find_unresolvable_ref_def ref_under_def)

section \<open>The check at upload\<close>

definition MAX_SCHEMA_LENGTH :: nat where "MAX_SCHEMA_LENGTH = 64 * 1024"

definition MIN_MEMORY_LIMIT_MB :: int where "MIN_MEMORY_LIMIT_MB = 64"

definition MAX_MEMORY_LIMIT_MB :: int where "MAX_MEMORY_LIMIT_MB = 256"

definition MIN_CPU_LIMIT_SECONDS :: int where "MIN_CPU_LIMIT_SECONDS = 1"

definition MAX_CPU_LIMIT_SECONDS :: int where "MAX_CPU_LIMIT_SECONDS = 5"

definition memory_limit_mb :: "int \<Rightarrow> int" where
  "memory_limit_mb setting = max MIN_MEMORY_LIMIT_MB (min setting MAX_MEMORY_LIMIT_MB)"

definition cpu_limit_seconds :: "int \<Rightarrow> int" where
  "cpu_limit_seconds setting = max MIN_CPU_LIMIT_SECONDS (min setting MAX_CPU_LIMIT_SECONDS)"

lemma limits_clamped: "memory_limit_mb a \<in> {64..256}" "cpu_limit_seconds a \<in> {1..5}"
  by (simp_all add: memory_limit_mb_def cpu_limit_seconds_def MIN_MEMORY_LIMIT_MB_def MAX_MEMORY_LIMIT_MB_def
      MIN_CPU_LIMIT_SECONDS_def MAX_CPU_LIMIT_SECONDS_def)

definition schema_shape_error :: "json \<Rightarrow> string option" where
  "schema_shape_error v = map_option (\<lambda>t. ''a JSON Schema must be an object or a boolean, not '' @ t)
     (case v of JObj _ \<Rightarrow> None | JBool _ \<Rightarrow> None | JNull \<Rightarrow> Some ''NoneType'' | JInt _ \<Rightarrow> Some ''int'' | JFloat _ \<Rightarrow> Some ''float''
      | JStr _ \<Rightarrow> Some ''str'' | JList _ \<Rightarrow> Some ''list'')"

text \<open>What the library reports of a value that does not match: the keyword, what it requires and the value, as \<open>repr\<close> gives them, and the path.\<close>

record mismatch =
  mm_validator :: "string option"
  mm_required :: string
  mm_instance :: string
  mm_path :: "(string + int) list"

datatype checked = Matches | Mismatch mismatch | Raises exn

record schema_lib =
  sl_words :: exn_words
  sl_loads :: "string \<Rightarrow> json res"
  sl_codec :: "nat list \<Rightarrow> string"
  sl_check_schema :: "json \<Rightarrow> unit res"
  sl_validate :: "json \<Rightarrow> json \<Rightarrow> checked"

fun is_json_error :: "exn \<Rightarrow> bool" where
  "is_json_error (ValueError _) = True"
| "is_json_error (OtherException n) \<longleftrightarrow> n = ''RecursionError''"
| "is_json_error _ = False"

fun is_SchemaError :: "exn \<Rightarrow> bool" where
  "is_SchemaError (OtherException n) \<longleftrightarrow> n = ''SchemaError''"
| "is_SchemaError _ = False"

definition cannot_be_used :: "exn_words \<Rightarrow> exn \<Rightarrow> string" where
  "cannot_be_used ew e = ''it cannot be used ('' @ exn_name ew e @ '': '' @ exn_text ew e @ '')''"

text \<open>The error of the upload, if any; an exception that leaves the work is the left value.\<close>

definition upload_work :: "schema_lib \<Rightarrow> string \<Rightarrow> string option res" where
  "upload_work sl schema_str =
     (case sl_loads sl schema_str of
        Inl e \<Rightarrow> if is_json_error e then Inr (Some ''it must be valid JSON'') else Inl e
      | Inr schema \<Rightarrow>
          (case schema_shape_error schema of
             Some m \<Rightarrow> Inr (Some m)
           | None \<Rightarrow>
               if exceeds_max_depth schema then Inr (Some (''it is nested more than '' @ nat_text MAX_DOCUMENT_DEPTH @ '' levels deep''))
               else if exceeds_max_nodes schema then Inr (Some (''it contains more than '' @ nat_text MAX_SCHEMA_NODES @ '' subschemas''))
               else
                 (case find_external_ref schema of
                    Some r \<Rightarrow> Inr (Some (''it must not reference external resources: '' @ quoted r @ ''. Inline the definitions or use an internal reference such as '' @ quoted ''#/$defs/name''))
                  | None \<Rightarrow>
                      (case find_unresolvable_ref (sl_codec sl) schema of
                         Some r \<Rightarrow> Inr (Some (''it contains a reference that does not resolve: '' @ quoted r))
                       | None \<Rightarrow>
                           (case sl_check_schema sl schema of
                              Inl e \<Rightarrow>
                                if is_SchemaError e then Inr (Some (''it is not a valid JSON Schema: '' @ exn_text (sl_words sl) e))
                                else if e = MemoryError then Inl e
                                else Inr (Some (cannot_be_used (sl_words sl) e))
                            | Inr _ \<Rightarrow>
                                (case sl_validate sl schema (JObj []) of
                                   Raises e \<Rightarrow> if e = MemoryError then Inl e else Inr (Some (cannot_be_used (sl_words sl) e))
                                 | _ \<Rightarrow> Inr None))))))"

definition answer_from_child :: "('a res \<Rightarrow> 'a res) \<Rightarrow> 'a res \<Rightarrow> 'a res" where
  "answer_from_child run work =
     (case run work of
        Inl (IsolationError m) \<Rightarrow> Inl (UnsupportedSchemaError m)
      | r \<Rightarrow> r)"

definition check_uploaded_schema :: "(string option res \<Rightarrow> string option res) \<Rightarrow> schema_lib \<Rightarrow> string \<Rightarrow> unit res" where
  "check_uploaded_schema run sl schema_str =
     (case answer_from_child run (upload_work sl schema_str) of
        Inl e \<Rightarrow> Inl e
      | Inr (Some m) \<Rightarrow> Inl (UnsupportedSchemaError m)
      | Inr None \<Rightarrow> Inr ())"


definition ex_lib :: schema_lib where
  "ex_lib = \<lparr>sl_words = ex_words, sl_loads = (\<lambda>t. if t = ''schema'' then Inr (JObj [(''$ref'', JStr ''#/a''), (''a'', JBool True)])
     else if t = ''{}'' then Inr (JObj []) else Inl (ValueError t)),
     sl_codec = map char_of, sl_check_schema = (\<lambda>_. Inr ()), sl_validate = (\<lambda>_ _. Matches)\<rparr>"

definition ex_run :: "'a res \<Rightarrow> 'a res" where
  "ex_run work = (case work of Inr x \<Rightarrow> Inr x | Inl _ \<Rightarrow> Inl (IsolationError ''it raised Exception''))"

lemma ex_run_isolating: "isolating ex_run"
  by (auto simp: isolating_def ex_run_def split: sum.splits)


section \<open>The arguments of a run\<close>

definition MAX_EXCERPT_LENGTH :: nat where "MAX_EXCERPT_LENGTH = 150"

definition excerpt :: "string \<Rightarrow> string" where
  "excerpt t = (if length t > MAX_EXCERPT_LENGTH then take MAX_EXCERPT_LENGTH t @ ''... (value truncated)'' else t)"

definition validation_message :: "mismatch \<Rightarrow> string" where
  "validation_message mm =
     (case mm_validator mm of
        None \<Rightarrow> ''the schema rejects every value: rejected value '' @ excerpt (mm_instance mm)
      | Some k \<Rightarrow> quoted k @ '' validation failed, schema requires '' @ excerpt (mm_required mm) @ '': rejected value '' @ excerpt (mm_instance mm))"

datatype verdict = Invalid_arguments string | Valid | Not_valid string "(string + int) list" | Unusable string

definition validate_work :: "schema_lib \<Rightarrow> json \<Rightarrow> string \<Rightarrow> verdict res" where
  "validate_work sl schema arguments_str =
     (case sl_loads sl arguments_str of
        Inl e \<Rightarrow> if is_json_error e then Inr (Invalid_arguments (''arguments is not valid JSON: '' @ exn_text (sl_words sl) e)) else Inl e
      | Inr a \<Rightarrow>
          if exceeds_max_depth a
          then Inr (Invalid_arguments (''arguments are nested more than '' @ nat_text MAX_DOCUMENT_DEPTH @ '' levels deep''))
          else
            (case sl_validate sl schema a of
               Matches \<Rightarrow> Inr Valid
             | Mismatch mm \<Rightarrow> Inr (Not_valid (validation_message mm) (mm_path mm))
             | Raises e \<Rightarrow> if e = MemoryError then Inl e else Inr (Unusable (exn_name (sl_words sl) e @ '': '' @ exn_text (sl_words sl) e))))"

definition validate_in_isolation :: "(verdict res \<Rightarrow> verdict res) \<Rightarrow> schema_lib \<Rightarrow> json \<Rightarrow> string \<Rightarrow> unit res" where
  "validate_in_isolation run sl schema arguments_str =
     (case schema_shape_error schema of
        Some m \<Rightarrow> Inl (UnsupportedSchemaError m)
      | None \<Rightarrow>
          (case answer_from_child run (validate_work sl schema arguments_str) of
             Inl e \<Rightarrow> Inl e
           | Inr (Invalid_arguments m) \<Rightarrow> Inl (InvalidArgumentsError m)
           | Inr (Unusable m) \<Rightarrow> Inl (UnsupportedSchemaError m)
           | Inr (Not_valid m p) \<Rightarrow> Inl (JsonValidationError m p)
           | Inr Valid \<Rightarrow> Inr ()))"

definition MAX_MESSAGE_LENGTH :: nat where "MAX_MESSAGE_LENGTH = 500"

definition shortened :: "string \<Rightarrow> string" where
  "shortened m = (if length m \<le> MAX_MESSAGE_LENGTH then m else take MAX_MESSAGE_LENGTH m @ ''... (message truncated)'')"

definition shortened_path :: "(string + int) list \<Rightarrow> (string + int) list" where
  "shortened_path p = map (\<lambda>seg. case seg of Inl t \<Rightarrow> Inl (shortened t) | Inr i \<Rightarrow> Inr i) p"

definition validate_arguments :: "(verdict res \<Rightarrow> verdict res) \<Rightarrow> schema_lib \<Rightarrow> nat \<Rightarrow> string \<Rightarrow> string \<Rightarrow> unit res" where
  "validate_arguments run sl max_mb schema_str arguments_str =
     (if schema_str = [] \<or> schema_str = ''{}'' then Inr ()
      else if length schema_str > MAX_SCHEMA_LENGTH
      then Inl (InvalidArgumentsException (''the function arguments schema is '' @ nat_text (length schema_str) @
             '' characters long and the maximum is '' @ nat_text MAX_SCHEMA_LENGTH) [])
      else if length arguments_str > max_mb * 1024 * 1024
      then Inl (InvalidArgumentsException (''arguments are '' @ nat_text (length arguments_str) @
             '' characters long and the maximum is '' @ nat_text (max_mb * 1024 * 1024)) [])
      else
        (case sl_loads sl schema_str of
           Inl e \<Rightarrow> if is_json_error e then Inl (InvalidArgumentsException ''the function arguments schema is not valid JSON'' []) else Inl e
         | Inr schema \<Rightarrow>
             if schema = JObj [] then Inr ()
             else if exceeds_max_depth schema
             then Inl (InvalidArgumentsException (''the function arguments schema is nested more than '' @ nat_text MAX_DOCUMENT_DEPTH @ '' levels deep'') [])
             else if exceeds_max_nodes schema
             then Inl (InvalidArgumentsException (''the function arguments schema contains more than '' @ nat_text MAX_SCHEMA_NODES @ '' subschemas'') [])
             else
               (case validate_in_isolation run sl schema (if arguments_str = [] then ''{}'' else arguments_str) of
                  Inl (InvalidArgumentsError m) \<Rightarrow> Inl (InvalidArgumentsException (shortened m) [])
                | Inl (UnsupportedSchemaError m) \<Rightarrow>
                    Inl (InvalidArgumentsException (shortened (''the function arguments schema cannot be used: '' @ m)) [])
                | Inl (JsonValidationError m p) \<Rightarrow> Inl (InvalidArgumentsException (shortened m) (shortened_path p))
                | r \<Rightarrow> r)))"

lemma shortened_length: "length (shortened m) \<le> 523"
  by (simp add: shortened_def MAX_MESSAGE_LENGTH_def)

text \<open>The reason of a mismatch is never cut off.\<close>

lemma reason_not_cut:
  assumes "\<forall>k. mm_validator mm = Some k \<longrightarrow> length k \<le> 80"
  shows "shortened (validation_message mm) = validation_message mm"
proof -
  have "length (excerpt t) \<le> 171" for t by (simp add: excerpt_def MAX_EXCERPT_LENGTH_def)
  then have "length (validation_message mm) \<le> 500"
    using assms add_mono [OF \<open>length (excerpt (mm_required mm)) \<le> 171\<close> \<open>length (excerpt (mm_instance mm)) \<le> 171\<close>]
    by (auto simp: validation_message_def quoted_def intro: order_trans split: option.splits)
  then show ?thesis by (simp add: shortened_def MAX_MESSAGE_LENGTH_def)
qed

lemma validate_in_isolation_ok:
  assumes "isolating run"
  shows "validate_in_isolation run sl v t = Inr () \<longleftrightarrow>
    schema_shape_error v = None \<and> (\<exists>a. sl_loads sl t = Inr a \<and> depth a \<le> 64 \<and> sl_validate sl v a = Matches) \<and> run (Inr Valid) = Inr Valid"
proof -
  have "validate_in_isolation run sl v t = Inr () \<longleftrightarrow> schema_shape_error v = None \<and> run (validate_work sl v t) = Inr Valid"
    by (auto simp: validate_in_isolation_def answer_from_child_def split: option.splits sum.splits verdict.splits exn.splits)
  also have "run (validate_work sl v t) = Inr Valid \<longleftrightarrow> validate_work sl v t = Inr Valid \<and> run (Inr Valid) = Inr Valid"
    using assms unfolding isolating_def by metis
  also have "validate_work sl v t = Inr Valid \<longleftrightarrow> (\<exists>a. sl_loads sl t = Inr a \<and> depth a \<le> 64 \<and> sl_validate sl v a = Matches)"
    by (auto simp: validate_work_def limits_exact not_less split: sum.splits if_splits checked.splits)
  finally show ?thesis by blast
qed

lemma validate_in_isolation_raises:
  assumes "isolating run" "validate_in_isolation run sl v t = Inl e"
  shows "(\<exists>m. e = InvalidArgumentsError m) \<or> (\<exists>m. e = UnsupportedSchemaError m) \<or> (\<exists>m p. e = JsonValidationError m p)"
proof -
  have "\<forall>e. run (validate_work sl v t) = Inl e \<longrightarrow> (\<exists>m. e = IsolationError m)" using assms(1) by (simp add: isolating_def)
  then show ?thesis
    using assms(2) by (auto simp: validate_in_isolation_def answer_from_child_def split: option.splits sum.splits verdict.splits exn.splits)
qed

text \<open>
  C33: The arguments of a run are accepted exactly when there is no schema, or when the schema and the arguments are documents within the limits,
  the library says that the arguments match and the isolated child could say so. Whatever is wrong, with the schema or with the arguments,
  ends in an \<open>InvalidArgumentsException\<close>, never in another error, and no text of the path in it is longer than 523 characters.
\<close>

theorem arguments_accepted_exactly:
  assumes "isolating run" "\<forall>t e. sl_loads sl t = Inl e \<longrightarrow> is_json_error e"
    and "args = (if arguments_str = [] then ''{}'' else arguments_str)"
  shows "(validate_arguments run sl mb schema_str arguments_str = Inr () \<longleftrightarrow>
      schema_str = [] \<or> schema_str = ''{}'' \<or>
      length schema_str \<le> 65536 \<and> length arguments_str \<le> mb * 1048576 \<and>
      (\<exists>v. sl_loads sl schema_str = Inr v \<and> (v = JObj [] \<or>
         ((\<exists>b. v = JBool b) \<or> (\<exists>kvs. v = JObj kvs)) \<and> depth v \<le> 64 \<and> nodes v \<le> 200 \<and>
         (\<exists>a. sl_loads sl args = Inr a \<and> depth a \<le> 64 \<and> sl_validate sl v a = Matches) \<and> run (Inr Valid) = Inr Valid))) \<and>
    (\<forall>e. validate_arguments run sl mb schema_str arguments_str = Inl e \<longrightarrow>
       (\<exists>m p. e = InvalidArgumentsException m p \<and> (\<forall>t. Inl t \<in> set p \<longrightarrow> length t \<le> 523)))"
proof (intro conjI allI impI)
  have shape: "schema_shape_error v = None \<longleftrightarrow> (\<exists>b. v = JBool b) \<or> (\<exists>kvs. v = JObj kvs)" for v
    by (cases v) (auto simp: schema_shape_error_def)
  have ends: "(case validate_in_isolation run sl v args of
                  Inl (InvalidArgumentsError m) \<Rightarrow> Inl (InvalidArgumentsException (shortened m) [])
                | Inl (UnsupportedSchemaError m) \<Rightarrow> Inl (InvalidArgumentsException (shortened (''the function arguments schema cannot be used: '' @ m)) [])
                | Inl (JsonValidationError m p) \<Rightarrow> Inl (InvalidArgumentsException (shortened m) (shortened_path p))
                | r \<Rightarrow> r) = Inr () \<longleftrightarrow> validate_in_isolation run sl v args = Inr ()" for v
    by (auto split: sum.splits exn.splits)
  show "validate_arguments run sl mb schema_str arguments_str = Inr () \<longleftrightarrow>
      schema_str = [] \<or> schema_str = ''{}'' \<or>
      length schema_str \<le> 65536 \<and> length arguments_str \<le> mb * 1048576 \<and>
      (\<exists>v. sl_loads sl schema_str = Inr v \<and> (v = JObj [] \<or>
         ((\<exists>b. v = JBool b) \<or> (\<exists>kvs. v = JObj kvs)) \<and> depth v \<le> 64 \<and> nodes v \<le> 200 \<and>
         (\<exists>a. sl_loads sl args = Inr a \<and> depth a \<le> 64 \<and> sl_validate sl v a = Matches) \<and> run (Inr Valid) = Inr Valid))"
    unfolding validate_arguments_def assms(3) [symmetric]
    by (cases "sl_loads sl schema_str")
      (simp_all add: ends validate_in_isolation_ok [OF assms(1)] shape limits_exact MAX_SCHEMA_LENGTH_def not_less conj_ac)
  fix e assume e: "validate_arguments run sl mb schema_str arguments_str = Inl e"
  have path: "length t \<le> 523" if "Inl t \<in> set (shortened_path p)" for t p
    using that shortened_length by (auto simp: shortened_path_def split: sum.splits)
  show "\<exists>m p. e = InvalidArgumentsException m p \<and> (\<forall>t. Inl t \<in> set p \<longrightarrow> length t \<le> 523)"
    using e assms(2) path validate_in_isolation_raises [OF assms(1)] unfolding validate_arguments_def assms(3) [symmetric]
    by (fastforce split: if_splits sum.splits exn.splits)
qed

theorem arguments_accepted_exactly_witness:
  "validate_arguments ex_run ex_lib 1 ''schema'' [] = Inr () \<and>
   (\<exists>m p. validate_arguments ex_run ex_lib 1 ''schema'' ''nonsense'' = Inl (InvalidArgumentsException m p))"
proof -
  have json: "\<forall>t e. sl_loads ex_lib t = Inl e \<longrightarrow> is_json_error e" by (simp add: ex_lib_def)
  have "depth (JObj [(''$ref'', JStr ''#/a''), (''a'', JBool True)]) \<le> 64" "nodes (JObj [(''$ref'', JStr ''#/a''), (''a'', JBool True)]) \<le> 200"
    by simp_all
  then have "validate_arguments ex_run ex_lib 1 ''schema'' [] = Inr ()"
    unfolding arguments_accepted_exactly [OF ex_run_isolating json refl, THEN conjunct1] by (simp add: ex_lib_def ex_run_def)
  moreover have "validate_arguments ex_run ex_lib 1 ''schema'' ''nonsense'' \<noteq> Inr ()"
    unfolding arguments_accepted_exactly [OF ex_run_isolating json refl, THEN conjunct1] by (simp add: ex_lib_def)
  then obtain e where "validate_arguments ex_run ex_lib 1 ''schema'' ''nonsense'' = Inl e"
    by (cases "validate_arguments ex_run ex_lib 1 ''schema'' ''nonsense''") auto
  moreover from this obtain m p where "e = InvalidArgumentsException m p"
    using arguments_accepted_exactly [OF ex_run_isolating json refl, THEN conjunct2] by blast
  ultimately show ?thesis by simp
qed

end
