(* ===== verification/Storage_Paths.thy ===== *)
theory Storage_Paths
  imports Python_Text
begin

text \<open>
  Names that callers choose and the paths made of them: the sanitisers of \<^verbatim>\<open>core/utils.py\<close> and \<^verbatim>\<open>api/utils.py\<close>, the paths of
  \<^verbatim>\<open>core/services/storage/path_builder.py\<close>, and the encryption of the secrets among the environment variables.
\<close>

section \<open>Sanitisers\<close>

definition is_alnum :: "char \<Rightarrow> bool" where
  "is_alnum c \<longleftrightarrow> is_digit c \<or> is_lower_letter c \<or> is_upper_letter c"

definition file_char :: "char \<Rightarrow> bool" where
  "file_char c \<longleftrightarrow> is_alnum c \<or> c \<in> {CHR ''-'', CHR ''_'', CHR ''.''}"

definition path_char :: "char \<Rightarrow> bool" where
  "path_char c \<longleftrightarrow> file_char c \<or> c = CHR ''/''"

definition name_char :: "char \<Rightarrow> bool" where
  "name_char c \<longleftrightarrow> is_alnum c \<or> c \<in> {CHR ''_'', CHR ''-'', CHR ''/''}"

abbreviation no_dots :: "string \<Rightarrow> string" where
  "no_dots s \<equiv> replace2 (CHR ''.'') (CHR ''.'') (CHR ''_'') s"

definition sanitize_file_path :: "string \<Rightarrow> string" where
  "sanitize_file_path p = sub_runs path_char (no_dots p)"

definition sanitize_file_name :: "string \<Rightarrow> string" where
  "sanitize_file_name n = sub_runs file_char (no_dots n)"

definition sanitize_sub_path :: "string option \<Rightarrow> string" where
  "sanitize_sub_path sp =
     (if \<not> truthy sp then []
      else join_with ''/'' (filter (\<lambda>part. part \<noteq> []) (split_on (CHR ''/'') (sub_runs path_char (no_dots (the sp))))))"

definition sanitize_name :: "string \<Rightarrow> string" where
  "sanitize_name n = filter name_char n"

definition sanitize_boolean :: "string option \<Rightarrow> bool option" where
  "sanitize_boolean v =
     (case v of
        None \<Rightarrow> None
      | Some s \<Rightarrow> let t = lower (strip s) in if t = ''true'' then Some True else if t = ''false'' then Some False else None)"

definition parse_title_and_provider :: "string \<Rightarrow> string option \<Rightarrow> (string \<times> string option) res" where
  "parse_title_and_provider ttl pn =
     (if truthy pn then
        (if CHR ''/'' \<in> set ttl then Inl (ValidationError ''Provider defined in title and in provider fields.'')
         else Inr (sanitize_name ttl, map_option sanitize_name pn))
      else
        (case split_on (CHR ''/'') ttl of
           [_] \<Rightarrow> Inr (sanitize_name ttl, None)
         | [a, b] \<Rightarrow> Inr (sanitize_name b, Some (sanitize_name a))
         | _ \<Rightarrow> Inl (ValidationError ''Qiskit Function title is malformed. It can only contain one slash.'')))"

section \<open>Paths\<close>

datatype WorkingDir = USER_STORAGE | PROVIDER_STORAGE

text \<open>\<open>os.path.join\<close> of two parts: an absolute second part replaces the first.\<close>

definition path_join :: "string \<Rightarrow> string \<Rightarrow> string" where
  "path_join a b = (if prefix ''/'' b then b else if a = [] \<or> last a = CHR ''/'' then a @ b else a @ ''/'' @ b)"

definition get_user_sub_path :: "string \<Rightarrow> string \<Rightarrow> string option \<Rightarrow> string option \<Rightarrow> string" where
  "get_user_sub_path username ttl pn extra =
     (let path = (case pn of None \<Rightarrow> username | Some p \<Rightarrow> path_join (path_join username p) ttl)
      in sanitize_file_path (case extra of None \<Rightarrow> path | Some e \<Rightarrow> path_join path e))"

definition get_provider_sub_path :: "string \<Rightarrow> string \<Rightarrow> string option \<Rightarrow> string" where
  "get_provider_sub_path ttl pn extra =
     (let path = path_join pn ttl
      in sanitize_file_path (case extra of None \<Rightarrow> path | Some e \<Rightarrow> path_join path e))"

text \<open>A provider path without a provider fails in \<open>os.path.join\<close>.\<close>

definition sub_path :: "WorkingDir \<Rightarrow> string \<Rightarrow> string \<Rightarrow> string option \<Rightarrow> string option \<Rightarrow> string res" where
  "sub_path dir username ttl pn extra =
     (case dir of
        USER_STORAGE \<Rightarrow> Inr (get_user_sub_path username ttl pn extra)
      | PROVIDER_STORAGE \<Rightarrow>
          (case pn of None \<Rightarrow> Inl (OtherException ''TypeError'') | Some p \<Rightarrow> Inr (get_provider_sub_path ttl p extra)))"

definition absolute_path :: "string \<Rightarrow> WorkingDir \<Rightarrow> string \<Rightarrow> string \<Rightarrow> string option \<Rightarrow> string option \<Rightarrow> string res" where
  "absolute_path media_dir dir username ttl pn extra =
     (case sub_path dir username ttl pn extra of
        Inl e \<Rightarrow> Inl e
      | Inr p \<Rightarrow> Inr (sanitize_file_path (path_join media_dir p)))"

section \<open>Secrets among the environment variables\<close>

fun contains :: "string \<Rightarrow> string \<Rightarrow> bool" where
  "contains w [] \<longleftrightarrow> w = []"
| "contains w (c # cs) \<longleftrightarrow> prefix w (c # cs) \<or> contains w cs"

definition is_secret :: "string \<Rightarrow> bool" where
  "is_secret key \<longleftrightarrow> contains ''token'' (lower key)"

definition encrypt_env_vars :: "(string \<Rightarrow> string) \<Rightarrow> (string \<times> string) list \<Rightarrow> (string \<times> string) list" where
  "encrypt_env_vars encrypt_string env = map (\<lambda>(k, v). (k, if is_secret k then encrypt_string v else v)) env"

text \<open>What cannot be decrypted stays as it is.\<close>

definition decrypt_env_vars :: "(string \<Rightarrow> string res) \<Rightarrow> (string \<times> string) list \<Rightarrow> (string \<times> string) list" where
  "decrypt_env_vars decrypt_string env =
     map (\<lambda>(k, v). (k, if is_secret k then (case decrypt_string v of Inr t \<Rightarrow> t | Inl _ \<Rightarrow> v) else v)) env"

lemma decrypt_encrypt:
  assumes "\<And>t. decrypt_string (encrypt_string t) = Inr t"
  shows "decrypt_env_vars decrypt_string (encrypt_env_vars encrypt_string env) = env"
  using assms by (simp add: decrypt_env_vars_def encrypt_env_vars_def case_prod_beta' map_idI)

section \<open>Sanitised names stay inside and name the same file\<close>

lemma char_classes [simp]: "file_char (CHR ''_'')" "path_char (CHR ''_'')" "path_char (CHR ''/'')" "file_char (CHR ''.'')" "\<not> file_char (CHR ''/'')"
  by code_simp+

lemma file_char_path [simp]: "file_char c \<Longrightarrow> path_char c"
  by (simp add: path_char_def)

lemma path_char_cases: "path_char c \<Longrightarrow> c \<noteq> CHR ''/'' \<Longrightarrow> file_char c"
  by (simp add: path_char_def)

lemma no_dots_no_pair: "\<not> has_pair (CHR ''.'') (sub_runs ok (no_dots s))"
  by (intro sub_runs_no_pair replace2_no_pair) simp_all

lemma sanitize_file_path_idem: "sanitize_file_path (sanitize_file_path p) = sanitize_file_path p"
proof -
  let ?q = "sanitize_file_path p"
  have "no_dots ?q = ?q" by (rule replace2_id) (simp add: sanitize_file_path_def no_dots_no_pair)
  moreover have "sub_runs path_char ?q = ?q" by (rule sub_runs_id) (auto simp: sanitize_file_path_def dest: sub_runs_set [rotated])
  ultimately show ?thesis by (simp add: sanitize_file_path_def)
qed

lemma sub_runs_agree: "\<forall>c \<in> set s. ok1 c \<longleftrightarrow> ok2 c \<Longrightarrow> sub_runs ok1 s = sub_runs ok2 s"
proof (induction ok1 s rule: sub_runs.induct)
  case (2 ok1 c cs)
  have d: "dropWhile (\<lambda>x. \<not> ok1 x) cs = dropWhile (\<lambda>x. \<not> ok2 x) cs" using 2(3) by (intro dropWhile_cong) auto
  have c: "ok1 c \<longleftrightarrow> ok2 c" using 2(3) by auto
  show ?case
  proof (cases "ok1 c")
    case True
    then show ?thesis using 2(1) [OF True] 2(3) c by simp
  next
    case False
    have "\<forall>x \<in> set (dropWhile (\<lambda>x. \<not> ok1 x) cs). ok1 x \<longleftrightarrow> ok2 x" using 2(3) by (auto dest: set_dropWhileD)
    from 2(2) [OF False this] have "sub_runs ok1 (dropWhile (\<lambda>x. \<not> ok1 x) cs) = sub_runs ok2 (dropWhile (\<lambda>x. \<not> ok2 x) cs)" by (simp only: d)
    then show ?thesis using False c by simp
  qed
qed simp

lemma sanitize_file_name_path: "CHR ''/'' \<notin> set n \<Longrightarrow> sanitize_file_name n = sanitize_file_path n"
  unfolding sanitize_file_name_def sanitize_file_path_def
  by (rule sub_runs_agree) (use replace2_set [of "CHR ''.''" "CHR ''.''" "CHR ''_''" n] in \<open>auto simp: path_char_def\<close>)

lemma split_filter_parts:
  assumes "ps = filter (\<lambda>part. part \<noteq> []) (split_on (CHR ''/'') s)" "ps \<noteq> []"
  shows "split_on (CHR ''/'') (join_with ''/'' ps) = ps"
  by (rule split_join) (use assms in \<open>auto dest: split_on_parts_no_sep\<close>)

lemma split_on_part_chars: "part \<in> set (split_on c s) \<Longrightarrow> x \<in> set part \<Longrightarrow> x \<in> set s"
proof -
  assume a: "part \<in> set (split_on c s)" "x \<in> set part"
  have "set part \<subseteq> set (join_with sep ps)" if "part \<in> set ps" for ps sep
    using that by (induction sep ps rule: join_with.induct) auto
  from this [OF a(1), of "[c]"] show ?thesis using a(2) by (auto simp: join_split)
qed

lemma split_on_part_no_pair: "part \<in> set (split_on c s) \<Longrightarrow> has_pair a part \<Longrightarrow> has_pair a s"
proof -
  assume p: "part \<in> set (split_on c s)" "has_pair a part"
  have "has_pair a (join_with sep ps)" if "part \<in> set ps" for ps sep
    using that p(2) by (induction sep ps rule: join_with.induct) (auto simp: has_pair_append)
  from this [OF p(1), of "[c]"] show ?thesis by (simp add: join_split)
qed

lemma path_chars_join: "(\<And>p x. p \<in> set ps \<Longrightarrow> x \<in> set p \<Longrightarrow> path_char x) \<Longrightarrow> x \<in> set (join_with ''/'' ps) \<Longrightarrow> path_char x"
  by (induction "''/''" ps rule: join_with.induct) auto

lemma no_pair_join: "(\<And>p. p \<in> set ps \<Longrightarrow> \<not> has_pair (CHR ''.'') p) \<Longrightarrow> \<not> has_pair (CHR ''.'') (join_with ''/'' ps)"
proof (induction "''/''" ps rule: join_with.induct)
  case (3 x y ys)
  then have "\<not> has_pair (CHR ''.'') x" "\<not> has_pair (CHR ''.'') (join_with ''/'' (y # ys))" by auto
  then show ?case by (simp add: has_pair_append has_pair_Cons)
qed auto

lemma sanitize_sub_path_parts:
  assumes "r = sanitize_sub_path sp" "r \<noteq> []"
  shows "\<forall>c \<in> set (split_on (CHR ''/'') r). c \<noteq> [] \<and> \<not> has_pair (CHR ''.'') c \<and> (\<forall>x \<in> set c. file_char x)"
    "\<forall>x \<in> set r. path_char x" "\<not> has_pair (CHR ''.'') r" "sanitize_sub_path (Some r) = r"
proof -
  define q where "q = sub_runs path_char (no_dots (the sp))"
  define ps where "ps = filter (\<lambda>part. part \<noteq> []) (split_on (CHR ''/'') q)"
  have r: "r = join_with ''/'' ps" using assms by (auto simp: sanitize_sub_path_def ps_def q_def split: if_splits)
  then have ps: "ps \<noteq> []" using assms(2) by auto
  have split: "split_on (CHR ''/'') r = ps" unfolding r using split_filter_parts [OF ps_def ps] .
  have part: "p \<noteq> [] \<and> \<not> has_pair (CHR ''.'') p \<and> (\<forall>x \<in> set p. file_char x)" if "p \<in> set ps" for p
  proof -
    have m: "p \<in> set (split_on (CHR ''/'') q)" "p \<noteq> []" using that by (auto simp: ps_def)
    have "\<not> has_pair (CHR ''.'') p"
      using split_on_part_no_pair [OF m(1), of "CHR ''.''"] no_dots_no_pair [of path_char "the sp"] unfolding q_def by blast
    moreover have "file_char x" if "x \<in> set p" for x
    proof (rule path_char_cases)
      have "x \<in> set q" using split_on_part_chars [OF m(1) that] .
      then show "path_char x" unfolding q_def by (rule sub_runs_set [rotated]) simp
      show "x \<noteq> CHR ''/''" using split_on_parts_no_sep [OF m(1)] that by auto
    qed
    ultimately show ?thesis using m(2) by blast
  qed
  then show "\<forall>c \<in> set (split_on (CHR ''/'') r). c \<noteq> [] \<and> \<not> has_pair (CHR ''.'') c \<and> (\<forall>x \<in> set c. file_char x)" unfolding split by blast
  show chars: "\<forall>x \<in> set r. path_char x" unfolding r using part path_chars_join file_char_path by blast
  show dots: "\<not> has_pair (CHR ''.'') r" unfolding r using part no_pair_join by blast
  have "sub_runs path_char (no_dots r) = r" using chars dots by (simp add: replace2_id sub_runs_id)
  moreover have "filter (\<lambda>part. part \<noteq> []) ps = ps" using part by (simp add: filter_id_conv)
  ultimately show "sanitize_sub_path (Some r) = r" using assms(2) split r [symmetric] by (simp add: sanitize_sub_path_def)
qed



end
