(* ===== verification/Run_Function.thy ===== *)
theory Run_Function
  imports Arguments_Schema Storage_Paths Job_Use_Cases "HOL-Library.AList" "HOL-Library.List_Lexorder" "HOL-Library.Char_ord"
begin

text \<open>
  Running a function (\<^verbatim>\<open>api/use_cases/programs/run.py\<close>) and checking its arguments alone (\<open>ValidateArgumentsUseCase\<close>): the gates in
  their order, the sizing of the job, its environment variables, and the transaction that stores it and creates it in the
  Runtime API.
\<close>

section \<open>Sizing\<close>

record runner_config =
  rc_gpu :: bool
  rc_profile :: "compute_profile option"
  rc_source :: SizeSource
  rc_size :: "function_size option"

definition is_trial :: "catalog \<Rightarrow> program \<Rightarrow> user \<Rightarrow> bool" where
  "is_trial cat p u \<longleftrightarrow> list_ex (\<lambda>g. g \<in> set (groups_with cat u (Some RUN_PROGRAM_PERMISSION))) (trial_instances p)"

definition available_sizes :: "catalog \<Rightarrow> program \<Rightarrow> string" where
  "available_sizes cat p =
     (let labels = sort (remdups (map (\<lambda>fs. upper (fs_label fs)) (function_sizes cat p)))
      in if labels = [] then ''this function declares no sizes.'' else join_with '', '' labels)"

definition get_runner_config :: "catalog \<Rightarrow> program \<Rightarrow> string option \<Rightarrow> runner_config res" where
  "get_runner_config cat p requested =
     (if program_runner p \<noteq> FLEETS
      then Inr \<lparr>rc_gpu = (program_provider p \<noteq> None \<and> program_gpu p), rc_profile = None, rc_source = SIZE_SOURCE_NONE, rc_size = None\<rparr>
      else if truthy requested then
        (case get_function_size cat p requested of
           None \<Rightarrow> Inl (FunctionConfigurationException
             (''Unknown function size '' @ quoted (the requested) @ '' for this function. Available sizes: '' @ available_sizes cat p))
         | Some fs \<Rightarrow> Inr \<lparr>rc_gpu = False, rc_profile = Some (fs_profile fs), rc_source = SIZE_SOURCE_REQUESTED, rc_size = Some fs\<rparr>)
      else
        (case default_size p of
           None \<Rightarrow> Inl (FunctionConfigurationException
             (''This function has no size. Ask an administrator to give it one, or pass '' @ quoted ''function_size'' @ '' explicitly.''))
         | Some fs \<Rightarrow> Inr \<lparr>rc_gpu = False, rc_profile = Some (fs_profile fs), rc_source = SIZE_SOURCE_DEFAULT_SIZE, rc_size = Some fs\<rparr>))"

section \<open>Environment variables\<close>

record run_settings =
  st_ibm_url :: string
  st_site_host :: string
  st_ray_local :: bool

definition rstrip_slash :: "string \<Rightarrow> string" where
  "rstrip_slash s = rev (dropWhile (\<lambda>c. c = CHR ''/'') (rev s))"

definition data_path :: "run_settings \<Rightarrow> job \<Rightarrow> string res" where
  "data_path st j =
     (if \<not> st_ray_local st then Inr ''/data''
      else
        (case job_program j of
           None \<Rightarrow> Inl (AttributeError ''provider'')
         | Some p \<Rightarrow>
             (case (case program_provider p of
                      None \<Rightarrow> Inr []
                    | Some pr \<Rightarrow> sub_path PROVIDER_STORAGE (username (author j)) (title p) (Some (provider_name pr)) None) of
                Inl e \<Rightarrow> Inl e
              | Inr sp \<Rightarrow>
                  Inr (rstrip_slash (replace2 (CHR ''/'') (CHR ''/'') (CHR ''/'') (''/data/'' @ username (author j) @ ''/'' @ sp))))))"

text \<open>Without arguments in the call the variable of the arguments is the empty object.\<close>

definition build_env_variables :: "run_settings \<Rightarrow> string \<Rightarrow> string \<Rightarrow> job \<Rightarrow> bool \<Rightarrow> string option \<Rightarrow> (string \<times> string) list res" where
  "build_env_variables st channel token j trial_mode inst =
     (case data_path st j of
        Inl e \<Rightarrow> Inl e
      | Inr dp \<Rightarrow> Inr (
          [(''ENV_JOB_GATEWAY_TOKEN'', token), (''ENV_JOB_GATEWAY_HOST'', st_site_host st), (''ENV_JOB_ID_GATEWAY'', job_id j),
           (''ENV_JOB_ARGUMENTS'', ''{}''),
           (''ENV_JOB_COMPUTE_PROFILE'', case compute_profile_id j of None \<Rightarrow> [] | Some p \<Rightarrow> p),
           (''ENV_JOB_FUNCTION_SIZE'', case size_label j of None \<Rightarrow> [] | Some l \<Rightarrow> l),
           (''ENV_ACCESS_TRIAL'', if trial_mode then ''True'' else ''False''), (''DATA_PATH'', dp),
           (''ARGUMENTS_PATH'', dp @ ''/arguments/'' @ job_id j @ ''.json''), (''RESULTS_PATH'', dp @ ''/results/'' @ job_id j @ ''.json''),
           (''QISKIT_IBM_TOKEN'', token), (''QISKIT_IBM_CHANNEL'', channel), (''QISKIT_IBM_URL'', st_ibm_url st)] @
          (if truthy inst then [(''QISKIT_IBM_INSTANCE'', the inst), (''ENV_JOB_GATEWAY_INSTANCE'', the inst)] else [])))"

section \<open>The use case\<close>

record run_input =
  ri_title :: string
  ri_provider :: "string option"
  ri_arguments :: string
  ri_config :: bool
  ri_size :: "string option"
  ri_channel :: string
  ri_token :: string
  ri_instance :: "string option"
  ri_account :: "string option"
  ri_plan :: "string option"
  ri_subscription :: "string option"
  ri_traceparent :: "string option"

text \<open>
  The surroundings of a call: settings, encryption and JSON, the schema library and its isolation, the storage of the arguments, the
  row of the job configuration, the call that creates the job in the Runtime API, and the environment of the transition service.
\<close>

record run_env =
  rn_conf :: "ConfigKey \<Rightarrow> string"
  rn_settings :: run_settings
  rn_uuid :: string
  rn_encrypt :: "string \<Rightarrow> string"
  rn_dumps :: "(string \<times> string) list \<Rightarrow> string"
  rn_loads :: "string \<Rightarrow> (string \<times> string) list res"
  rn_lib :: schema_lib
  rn_isolated :: "verdict res \<Rightarrow> verdict res"
  rn_max_mb :: nat
  rn_storage :: "job \<Rightarrow> unit res"
  rn_save :: "unit res"
  rn_delete :: "unit res"
  rn_create_config :: "unit res"
  rn_put :: "workload_payload \<Rightarrow> unit res"
  rn_words :: exn_words
  rn_call :: call_env

record run_state =
  rs_world :: world
  rs_arguments :: "(string \<times> string) list"

definition find_runnable :: "catalog \<Rightarrow> user \<Rightarrow> function_access_result \<Rightarrow> string \<Rightarrow> string option \<Rightarrow> program res" where
  "find_runnable cat u far ttl pn =
     (if \<not> truthy pn \<and> \<not> job_can_create u (Some far) then Inl (CustomFunctionNotEntitledException ttl ''run'')
      else
        (case (if truthy pn
               then get_function_by_permission cat u ttl pn (Some far) PLATFORM_PERMISSION_RUN (Some RUN_PROGRAM_PERMISSION)
               else get_user_function cat u ttl) of
           None \<Rightarrow> Inl (FunctionNotFoundException ttl pn)
         | Some p \<Rightarrow> Inr p))"

definition validate_use_case ::
  "run_env \<Rightarrow> catalog \<Rightarrow> user \<Rightarrow> function_access_result \<Rightarrow> string \<Rightarrow> string option \<Rightarrow> string \<Rightarrow> unit res" where
  "validate_use_case env cat u far ttl pn args =
     (case find_runnable cat u far ttl pn of
        Inl e \<Rightarrow> Inl e
      | Inr p \<Rightarrow> validate_arguments (rn_isolated env) (rn_lib env) (rn_max_mb env) (case arguments_schema p of None \<Rightarrow> [] | Some s \<Rightarrow> s) args)"

definition DEFAULT_DISABLED_MESSAGE :: string where
  "DEFAULT_DISABLED_MESSAGE = ''IBM has temporarily disabled access to this function''"

definition active_jobs_limit_reached :: "user \<Rightarrow> int \<Rightarrow> db \<Rightarrow> bool" where
  "active_jobs_limit_reached u limit d \<longleftrightarrow>
     int (length (filter (\<lambda>j. user_id (author j) = user_id u \<and> status j \<in> set ACTIVE_STATUSES) (job_tbl d))) \<ge> limit"

text \<open>The gates before a job is built.\<close>

definition run_gates :: "run_env \<Rightarrow> catalog \<Rightarrow> user \<Rightarrow> function_access_result \<Rightarrow> run_input \<Rightarrow> db \<Rightarrow> program res" where
  "run_gates env cat u far data d =
     (case find_runnable cat u far (ri_title data) (ri_provider data) of
        Inl e \<Rightarrow> Inl e
      | Inr p \<Rightarrow>
          let limit = cfg_int (rn_conf env ACTIVE_JOBS_PER_USER) 0 in
          if disabled p
          then Inl (FunctionDisabledException (if truthy (disabled_message p) then the (disabled_message p) else DEFAULT_DISABLED_MESSAGE))
          else if active_jobs_limit_reached u limit d then Inl (ActiveJobLimitExceeded limit)
          else if program_runner p = FLEETS \<and> program_project p = None
          then Inl (FunctionConfigurationException ''Program has no Code Engine project assigned. Contact administrator.'')
          else if program_runner p = FLEETS \<and> \<not> cep_active (the (program_project p))
          then Inl (FunctionConfigurationException (''Code Engine project '' @ quoted (project_name (the (program_project p))) @
                 '' assigned to this function is not active. Contact administrator.''))
          else
            (case validate_arguments (rn_isolated env) (rn_lib env) (rn_max_mb env)
                    (case arguments_schema p of None \<Rightarrow> [] | Some s \<Rightarrow> s) (ri_arguments data) of
               Inl e \<Rightarrow> Inl e
             | Inr _ \<Rightarrow> Inr p))"

definition model_and_trial :: "catalog \<Rightarrow> user \<Rightarrow> function_access_result \<Rightarrow> run_input \<Rightarrow> program \<Rightarrow> (string \<times> bool) res" where
  "model_and_trial cat u far data p =
     (if truthy (ri_provider data) \<and> \<not> use_legacy_authorization far
      then (case get_entry far (the (ri_provider data)) (ri_title data) of
              None \<Rightarrow> Inl (AttributeError ''business_model'')
            | Some e \<Rightarrow> Inr (fae_business_model e, fae_business_model e = ''TRIAL''))
      else Inr (if is_trial cat p u then ''TRIAL'' else ''LICENSED'', is_trial cat p u))"

definition new_job :: "run_env \<Rightarrow> user \<Rightarrow> run_input \<Rightarrow> program \<Rightarrow> string \<Rightarrow> bool \<Rightarrow> runner_config \<Rightarrow> job" where
  "new_job env u data p model tr rc =
     (Job_new (rn_uuid env) u (env_now (rn_call env)))\<lparr>trial := tr, business_model := model, status := QUEUED, job_program := Some p,
        job_gpu := rc_gpu rc, runner := program_runner p, compute_profile_fk := map_option profile_id (rc_profile rc),
        size_source := rc_source rc, job_function_size := rc_size rc, function_size_name := map_option fs_label (rc_size rc),
        instance_crn := ri_instance data, account_id := ri_account data, plan_id := ri_plan data, subscription_id := ri_subscription data,
        ce_project_name := map_option project_name (program_project p), ce_region := map_option cep_region (program_project p)\<rparr>"

definition job_env_text :: "run_env \<Rightarrow> run_input \<Rightarrow> program \<Rightarrow> job \<Rightarrow> string res" where
  "job_env_text env data p j =
     (case build_env_variables (rn_settings env) (ri_channel data) (ri_token data) j (trial j) (ri_instance data) of
        Inl e \<Rightarrow> Inl e
      | Inr vs \<Rightarrow>
          let e1 = encrypt_env_vars (rn_encrypt env) vs;
              e2 = (case ri_traceparent data of None \<Rightarrow> e1 | Some tp \<Rightarrow> AList.update ''traceparent'' tp e1)
          in if program_env_vars p = [] then Inr (rn_dumps env e2)
             else (case rn_loads env (program_env_vars p) of
                     Inl e \<Rightarrow> Inl e
                   | Inr own \<Rightarrow> Inr (rn_dumps env (fold (\<lambda>(k, v). AList.update k v) own e2))))"

fun is_retryable :: "exn \<Rightarrow> bool" where
  "is_retryable (RetryableError _) = True"
| "is_retryable _ = False"

fun is_RuntimeApiError :: "exn \<Rightarrow> bool" where
  "is_RuntimeApiError (RuntimeApiError _) = True"
| "is_RuntimeApiError _ = False"

definition run_cause :: cause where
  "run_cause = \<lparr>why_origin = API, why_ctx = RUN_PROGRAM\<rparr>"

definition fail_job :: "run_env \<Rightarrow> exn \<Rightarrow> job_event call" where
  "fail_job env e = (\<lambda>(j, w).
     let d = snd (add_error_event (env_now (rn_call env)) (job_id j) API RUN_PROGRAM ''RUNTIME_API_UNAVAILABLE''
                    ''The job could not be created in the Runtime API'' (exn_name (rn_words env) e) (ArgsText (exn_text (rn_words env) e)) (wdb w))
     in to_failed (rn_call env) run_cause [] (j, w\<lparr>wdb := d\<rparr>))"

text \<open>The block of the transaction: the error to raise after it, if any.\<close>

definition create_block :: "run_env \<Rightarrow> run_input \<Rightarrow> exn option call" where
  "create_block env data = (\<lambda>(j, w).
     (case (if ri_config data then rn_create_config env else Inr ()) of
        Inl e \<Rightarrow> (Inl e, j, w)
      | Inr _ \<Rightarrow>
          let d1 = store_job (env_now (rn_call env)) API RUN_PROGRAM j False (wdb w); w1 = w\<lparr>wdb := d1\<rparr> in
          if \<not> (should_be_mirrored j \<and> mirror_enabled_for (rn_conf env) j) then (Inr None, j, w1)
          else
            (case build_workload_payload d1 j of
               Inl e \<Rightarrow> (Inl e, j, w1)
             | Inr payload \<Rightarrow>
                 (case rn_put env payload of
                    Inr _ \<Rightarrow> (Inr None, j, w1\<lparr>wdb := d1\<lparr>mirror_tbl := mirror_tbl d1 @ [job_id j]\<rparr>\<rparr>)
                  | Inl e \<Rightarrow>
                      if is_retryable e \<or> is_RuntimeApiError e
                      then (case fail_job env e (j, w1) of
                              (Inl e', j', w') \<Rightarrow> (Inl e', j', w')
                            | (Inr _, j', w') \<Rightarrow>
                                (Inr (Some (EngineUnavailableException
                                   (if is_retryable e then ''Job could not be created right now, please retry.''
                                    else ''Job could not be created. Please contact support.''))), j', w'))
                      else (Inl e, j, w1)))))"

definition run_function ::
  "run_env \<Rightarrow> catalog \<Rightarrow> user \<Rightarrow> function_access_result \<Rightarrow> run_input \<Rightarrow> run_state \<Rightarrow> job res \<times> run_state" where
  "run_function env cat u far data s =
     (case run_gates env cat u far data (wdb (rs_world s)) of
        Inl e \<Rightarrow> (Inl e, s)
      | Inr p \<Rightarrow>
          (case model_and_trial cat u far data p of
             Inl e \<Rightarrow> (Inl e, s)
           | Inr (model, tr) \<Rightarrow>
               (case get_runner_config cat p (ri_size data) of
                  Inl e \<Rightarrow> (Inl e, s)
                | Inr rc \<Rightarrow>
                    (case job_env_text env data p (new_job env u data p model tr rc) of
                       Inl e \<Rightarrow> (Inl e, s)
                     | Inr text \<Rightarrow>
                         let j = (new_job env u data p model tr rc)\<lparr>env_vars := text\<rparr> in
                         (case rn_storage env j of
                            Inl e \<Rightarrow> (Inl e, s)
                          | Inr _ \<Rightarrow>
                              (case rn_save env of
                                 Inl e \<Rightarrow> (Inl e, s)
                               | Inr _ \<Rightarrow>
                                   let saved = rs_arguments s @ [(job_id j, ri_arguments data)] in
                                   (case create_block env data (j, rs_world s) of
                                      (Inl e, j', w') \<Rightarrow>
                                        (Inl e, \<lparr>rs_world = w'\<lparr>wdb := wdb (rs_world s)\<rparr>,
                                           rs_arguments = (case rn_delete env of Inr _ \<Rightarrow> rs_arguments s | Inl _ \<Rightarrow> saved)\<rparr>)
                                    | (Inr (Some e), j', w') \<Rightarrow> (Inl e, \<lparr>rs_world = w', rs_arguments = saved\<rparr>)
                                    | (Inr None, j', w') \<Rightarrow> (Inr j', \<lparr>rs_world = w', rs_arguments = saved\<rparr>))))))))"

section \<open>What a run stores\<close>

lemma job_row_store [simp]: "job_row d (job_id j) = None \<Longrightarrow> job_row (store_job t org cx j m d) (job_id j) = Some j"
  by (auto simp: store_job_def add_status_event_def add_event_def job_row_def row_of_append Let_def split: option.splits)

lemma store_job_mirrored:
  "(store_job t org cx j False d)\<lparr>mirror_tbl := mirror_tbl (store_job t org cx j False d) @ [job_id j]\<rparr> = store_job t org cx j True d"
  by (simp add: store_job_def Let_def)

lemma job_row_error_event [simp]: "job_row (snd (add_error_event t i org cx c m x a d)) k = job_row d k"
  by (simp add: add_error_event_def add_event_def job_row_def Let_def)

lemma fail_job_fails:
  assumes "fail_job env e (j, w) = (Inr ev, j', w')" "job_row (wdb w) (job_id j) = Some j"
  shows "life_steps (wdb w) (wdb w') \<and> (\<exists>r. job_row (wdb w') (job_id j) = Some r \<and> status r = FAILED)"
proof -
  let ?ev = "\<lparr>je_job = job_id j, je_type = ERROR, je_origin = API, je_context = RUN_PROGRAM, je_created = env_now (rn_call env),
    je_data = ErrorData ''RUNTIME_API_UNAVAILABLE'' ''The job could not be created in the Runtime API'' (exn_name (rn_words env) e)
      (ArgsText (exn_text (rn_words env) e))\<rparr>"
  define w1 where "w1 = w\<lparr>wdb := add_event ?ev (wdb w)\<rparr>"
  have t: "to_failed (rn_call env) run_cause [] (j, w1) = (Inr ev, j', w')"
    using assms(1) by (simp add: fail_job_def w1_def add_error_event_def Let_def)
  have row: "job_row (wdb w1) (job_id j) = Some j" using assms(2) by (simp add: w1_def add_event_def job_row_def)
  have "life_step (wdb w) (wdb w1)" unfolding w1_def using assms(2) step_event [of "wdb w" ?ev] by simp
  moreover have "life_step (wdb w1) (wdb w')"
    by (rule step_failed [OF t]) (use row in \<open>simp_all add: plain_fields_def loaded_def\<close>)
  moreover have "\<exists>chans. transition_effect j FAILED chans (wdb w1) (wdb w')"
    using terminal_in_db [OF t [unfolded to_failed_def to_stopped_or_failed_def]] by (simp add: plain_fields_def TERMINAL_STATUSES_def)
  ultimately show ?thesis by (auto simp: transition_effect_def)
qed

lemma create_block_cases:
  assumes "create_block env data (j, w) = (r, j', w')" "job_row (wdb w) (job_id j) = None" "status j = QUEUED" "\<not> filler j"
  shows "r = Inr None \<longrightarrow> j' = j \<and> kafka w' = kafka w \<and> (\<exists>m. wdb w' = store_job (env_now (rn_call env)) API RUN_PROGRAM j m (wdb w) \<and>
       (m \<longleftrightarrow> should_be_mirrored j \<and> mirror_enabled_for (rn_conf env) j) \<and> (m \<longrightarrow> (\<exists>pl. rn_put env pl = Inr ())))"
    "\<forall>e. r = Inr (Some e) \<longrightarrow> (\<exists>m. e = EngineUnavailableException m) \<and> life_steps (wdb w) (wdb w') \<and>
       (\<exists>x. job_row (wdb w') (job_id j) = Some x \<and> status x = FAILED)"
proof -
  define d1 where "d1 = store_job (env_now (rn_call env)) API RUN_PROGRAM j False (wdb w)"
  have row: "job_row d1 (job_id j) = Some j" using assms(2) by (simp add: d1_def)
  have born: "life_step (wdb w) d1" unfolding d1_def by (rule step_create) (use assms(2-4) in simp_all)
  show "r = Inr None \<longrightarrow> j' = j \<and> kafka w' = kafka w \<and> (\<exists>m. wdb w' = store_job (env_now (rn_call env)) API RUN_PROGRAM j m (wdb w) \<and>
       (m \<longleftrightarrow> should_be_mirrored j \<and> mirror_enabled_for (rn_conf env) j) \<and> (m \<longrightarrow> (\<exists>pl. rn_put env pl = Inr ())))"
    using assms(1) store_job_mirrored [of "env_now (rn_call env)" API RUN_PROGRAM j "wdb w"]
    by (auto simp: create_block_def Let_def split: sum.splits if_splits prod.splits)
  show "\<forall>e. r = Inr (Some e) \<longrightarrow> (\<exists>m. e = EngineUnavailableException m) \<and> life_steps (wdb w) (wdb w') \<and>
       (\<exists>x. job_row (wdb w') (job_id j) = Some x \<and> status x = FAILED)"
  proof (intro allI impI)
    fix e assume "r = Inr (Some e)"
    then obtain x ev where f: "fail_job env x (j, w\<lparr>wdb := d1\<rparr>) = (Inr ev, j', w')" and e: "\<exists>m. e = EngineUnavailableException m"
      using assms(1) by (auto simp: create_block_def d1_def Let_def split: sum.splits if_splits prod.splits)
    from fail_job_fails [OF f] row have "life_steps d1 (wdb w')" "\<exists>x. job_row (wdb w') (job_id j) = Some x \<and> status x = FAILED" by simp_all
    then show "(\<exists>m. e = EngineUnavailableException m) \<and> life_steps (wdb w) (wdb w') \<and> (\<exists>x. job_row (wdb w') (job_id j) = Some x \<and> status x = FAILED)"
      using e converse_rtranclp_into_rtranclp [where r = life_step, OF born] by blast
  qed
qed

lemma new_job_simps [simp]:
  "job_id (new_job env u data p model tr rc) = rn_uuid env" "status (new_job env u data p model tr rc) = QUEUED"
  "filler (new_job env u data p model tr rc) = False" "author (new_job env u data p model tr rc) = u"
  "runner (new_job env u data p model tr rc) = program_runner p" "job_program (new_job env u data p model tr rc) = Some p"
  "fleet_id (new_job env u data p model tr rc) = None"
  by (simp_all add: new_job_def Job_new_def)

text \<open>Past the gates and the sizing, a run is its transaction and what follows it.\<close>

lemma run_function_cases:
  assumes "run_function env cat u far data s = (res, s')"
  obtains (refused) e where "res = Inl e" "s' = s"
  | (tried) p model tr rc envt r j' w' where "run_gates env cat u far data (wdb (rs_world s)) = Inr p"
      "get_runner_config cat p (ri_size data) = Inr rc"
      "create_block env data ((new_job env u data p model tr rc)\<lparr>env_vars := envt\<rparr>, rs_world s) = (r, j', w')"
      "res = (case r of Inl e \<Rightarrow> Inl e | Inr (Some e) \<Rightarrow> Inl e | Inr None \<Rightarrow> Inr j')"
      "wdb (rs_world s') = (case r of Inl e \<Rightarrow> wdb (rs_world s) | Inr _ \<Rightarrow> wdb w')"
      "rs_arguments s' = (if (\<exists>e. r = Inl e) \<and> (\<exists>y. rn_delete env = Inr y) then rs_arguments s
         else rs_arguments s @ [(rn_uuid env, ri_arguments data)])"
proof -
  let ?d = "wdb (rs_world s)"
  show thesis
  proof (cases "\<exists>p model tr rc envt. run_gates env cat u far data ?d = Inr p \<and> model_and_trial cat u far data p = Inr (model, tr) \<and>
      get_runner_config cat p (ri_size data) = Inr rc \<and> job_env_text env data p (new_job env u data p model tr rc) = Inr envt \<and>
      rn_storage env ((new_job env u data p model tr rc)\<lparr>env_vars := envt\<rparr>) = Inr () \<and> rn_save env = Inr ()")
    case True
    then obtain p model tr rc envt where g: "run_gates env cat u far data ?d = Inr p" "model_and_trial cat u far data p = Inr (model, tr)"
      "get_runner_config cat p (ri_size data) = Inr rc" "job_env_text env data p (new_job env u data p model tr rc) = Inr envt"
      "rn_storage env ((new_job env u data p model tr rc)\<lparr>env_vars := envt\<rparr>) = Inr ()" "rn_save env = Inr ()" by blast
    obtain r j' w' where c: "create_block env data ((new_job env u data p model tr rc)\<lparr>env_vars := envt\<rparr>, rs_world s) = (r, j', w')"
      by (metis prod_cases3)
    show ?thesis
    proof (rule tried [OF g(1,3) c])
      show "res = (case r of Inl e \<Rightarrow> Inl e | Inr (Some e) \<Rightarrow> Inl e | Inr None \<Rightarrow> Inr j')"
        "wdb (rs_world s') = (case r of Inl e \<Rightarrow> ?d | Inr _ \<Rightarrow> wdb w')"
        "rs_arguments s' = (if (\<exists>e. r = Inl e) \<and> (\<exists>y. rn_delete env = Inr y) then rs_arguments s
           else rs_arguments s @ [(rn_uuid env, ri_arguments data)])"
        using assms g c by (auto simp: run_function_def Let_def split: sum.splits option.splits)
    qed
  next
    case False
    then have "\<exists>e. res = Inl e \<and> s' = s"
      using assms unfolding run_function_def by (auto simp: Let_def split: sum.splits)
    then show ?thesis using refused by blast
  qed
qed

lemma gates_hold:
  assumes "run_gates env cat u far data d = Inr p"
  shows "find_runnable cat u far (ri_title data) (ri_provider data) = Inr p" "\<not> disabled p"
    "\<not> active_jobs_limit_reached u (cfg_int (rn_conf env ACTIVE_JOBS_PER_USER) 0) d"
    "program_runner p = FLEETS \<longrightarrow> (\<exists>x. program_project p = Some x \<and> cep_active x)"
  using assms by (auto simp: run_gates_def Let_def split: sum.splits if_splits)

lemma fleets_job_sized:
  assumes "get_runner_config cat p sz = Inr rc" "program_runner p = FLEETS"
  shows "\<exists>fs. rc_size rc = Some fs \<and> rc_profile rc = Some (fs_profile fs)"
  using assms by (auto simp: get_runner_config_def split: if_splits option.splits)


definition ex_run_program :: program where
  "ex_run_program = ex_function\<lparr>program_author := ex_user, program_provider := None, program_runner := RAY\<rparr>"

definition ex_run_env :: run_env where
  "ex_run_env = \<lparr>rn_conf = (\<lambda>_. ''5''), rn_settings = \<lparr>st_ibm_url = [], st_site_host = [], st_ray_local = False\<rparr>, rn_uuid = ''new'',
     rn_encrypt = rev, rn_dumps = (\<lambda>_. ''{}''), rn_loads = (\<lambda>_. Inr []), rn_lib = ex_lib, rn_isolated = ex_run, rn_max_mb = 1,
     rn_storage = (\<lambda>_. Inr ()), rn_save = Inr (), rn_delete = Inr (), rn_create_config = Inr (), rn_put = (\<lambda>_. Inr ()),
     rn_words = ex_words, rn_call = se_call ex_stop 7\<rparr>"

definition ex_run_input :: run_input where
  "ex_run_input = \<lparr>ri_title = ''f'', ri_provider = None, ri_arguments = ''{}'', ri_config = False, ri_size = None, ri_channel = ''c'', ri_token = ''t'',
     ri_instance = None, ri_account = None, ri_plan = None, ri_subscription = None, ri_traceparent = None\<rparr>"


end
