(* ===== verification/Upload_Function.thy ===== *)
theory Upload_Function
  imports Json_Documents Storage_Paths Authorization "HOL-Library.Product_Lexorder" "HOL-Library.List_Lexorder" "HOL-Library.Char_ord"
begin

text \<open>
  Uploading a function (\<^verbatim>\<open>api/use_cases/programs/upload.py\<close>) and the rules for its size catalog (\<^verbatim>\<open>api/domain/function_sizes.py\<close>).
  The tables are those of the catalog; the columns that only the upload writes are kept beside them.
\<close>

section \<open>Size catalogs\<close>

definition VALID_SIZES :: "string list" where
  "VALID_SIZES = [''S'', ''M'', ''L'', ''XL'']"

definition MAX_SIZES_PER_FUNCTION :: nat where "MAX_SIZES_PER_FUNCTION = 32"

definition MAX_SIZE_NAME_LENGTH :: nat where "MAX_SIZE_NAME_LENGTH = 64"

definition MAX_COMPUTE_PROFILE_ID_LENGTH :: nat where "MAX_COMPUTE_PROFILE_ID_LENGTH = 255"

definition normalize_function_size :: "string \<Rightarrow> string" where
  "normalize_function_size s = upper (strip s)"

fun parse_sizes_loop :: "(string \<times> string) list \<Rightarrow> (string \<times> json) list \<Rightarrow> (string \<times> string) list res" where
  "parse_sizes_loop parsed [] = Inr parsed"
| "parse_sizes_loop parsed ((raw_name, raw_profile) # rest) =
     (case raw_profile of
        JStr t \<Rightarrow>
          let nm = normalize_function_size raw_name; profile = strip t in
          if nm = [] \<or> profile = [] then Inl (InvalidFunctionSizesError (quoted ''sizes'' @ '' names and compute profiles should both be non-empty.''))
          else if length nm > MAX_SIZE_NAME_LENGTH
          then Inl (InvalidFunctionSizesError (''Size name '' @ quoted raw_name @ '' is longer than the maximum of '' @
                 nat_text MAX_SIZE_NAME_LENGTH @ '' characters.''))
          else if length profile > MAX_COMPUTE_PROFILE_ID_LENGTH
          then Inl (InvalidFunctionSizesError (''Compute profile for size '' @ quoted raw_name @ '' is longer than the maximum of '' @
                 nat_text MAX_COMPUTE_PROFILE_ID_LENGTH @ '' characters.''))
          else if nm \<notin> set VALID_SIZES
          then Inl (InvalidFunctionSizesError (''Invalid size '' @ quoted raw_name @ ''. Valid sizes are: '' @ join_with '', '' VALID_SIZES @ ''.''))
          else if nm \<in> fst ` set parsed
          then Inl (InvalidFunctionSizesError (quoted ''sizes'' @ '' declares '' @ quoted nm @ '' more than once; size names are case-insensitive.''))
          else parse_sizes_loop (parsed @ [(nm, profile)]) rest
      | _ \<Rightarrow> Inl (InvalidFunctionSizesError (quoted ''sizes'' @ '' names and compute profiles should both be strings.'')))"

definition parse_function_sizes :: "json \<Rightarrow> (string \<times> string) list res" where
  "parse_function_sizes sizes =
     (case sizes of
        JObj kvs \<Rightarrow>
          if kvs = [] then Inl (InvalidFunctionSizesError (quoted ''sizes'' @ '' should declare at least one size.''))
          else if length kvs > MAX_SIZES_PER_FUNCTION
          then Inl (InvalidFunctionSizesError (quoted ''sizes'' @ '' declares '' @ nat_text (length kvs) @ '' sizes and the maximum is '' @
                 nat_text MAX_SIZES_PER_FUNCTION @ ''.''))
          else parse_sizes_loop [] kvs
      | _ \<Rightarrow> Inl (InvalidFunctionSizesError (quoted ''sizes'' @
            '' should be an object mapping a size name to a compute profile, e.g. {'' @ quoted ''M'' @ '': '' @ quoted ''16x128'' @ ''}.'')))"

section \<open>Inputs, surroundings and state\<close>

record upload_input =
  ui_title :: string
  ui_provider :: "string option"
  ui_entrypoint :: "string option"
  ui_artifact :: "string option"
  ui_image :: "string option"
  ui_env_vars :: "string option"
  ui_dependencies :: "string option"
  ui_runner :: "Runner option"
  ui_description :: "string option"
  ui_version :: "string option"
  ui_type :: "string option"
  ui_arguments_schema :: "string option"
  ui_sizes :: "json option"
  ui_default_size :: "string option"

text \<open>Absent fields are None in both; the title may carry the provider.\<close>

definition from_validated_data :: "upload_input \<Rightarrow> upload_input res" where
  "from_validated_data data =
     (case parse_title_and_provider (ui_title data) (ui_provider data) of
        Inl e \<Rightarrow> Inl e
      | Inr (t, pr) \<Rightarrow> Inr (data\<lparr>ui_title := t, ui_provider := pr\<rparr>))"

record details =
  dt_entrypoint :: string
  dt_artifact :: "string option"
  dt_image :: "string option"
  dt_dependencies :: string
  dt_description :: "string option"
  dt_version :: "string option"
  dt_type :: string

text \<open>
  Settings, encryption, JSON and the identifiers of new rows.
\<close>

record upload_env =
  ue_default_project :: string
  ue_default_profile :: string
  ue_default_size :: string
  ue_encrypt :: "string \<Rightarrow> string"
  ue_loads_env :: "string \<Rightarrow> (string \<times> string) list res"
  ue_dumps_env :: "(string \<times> string) list \<Rightarrow> string"
  ue_loads :: "string \<Rightarrow> json list res"
  ue_dumps :: "string list \<Rightarrow> string"
  ue_str :: "json \<Rightarrow> string"
  ue_program_id :: nat
  ue_size_id :: "function_size list \<Rightarrow> nat"

record upload_state =
  us_cat :: catalog
  us_details :: "(nat \<times> details) list"

definition DEFAULT_PROGRAM_ENTRYPOINT :: string where
  "DEFAULT_PROGRAM_ENTRYPOINT = ''main.py''"

definition GENERIC :: string where
  "GENERIC = ''GENERIC''"

section \<open>Dependencies and messages\<close>

definition normalize_dependency :: "(json \<Rightarrow> string) \<Rightarrow> json \<Rightarrow> string res" where
  "normalize_dependency str raw =
     (case raw of
        JStr s \<Rightarrow> Inr s
      | JObj [] \<Rightarrow> Inl (OtherException ''IndexError'')
      | JObj ((nm, v) # _) \<Rightarrow>
          (case str v of
             [] \<Rightarrow> Inl (OtherException ''IndexError'')
           | c # cs \<Rightarrow> Inr (nm @ (if is_digit c then ''=='' @ c # cs else c # cs)))
      | _ \<Rightarrow> Inl (AttributeError ''keys''))"

fun map_res :: "('a \<Rightarrow> 'b res) \<Rightarrow> 'a list \<Rightarrow> 'b list res" where
  "map_res f [] = Inr []"
| "map_res f (x # xs) = (case f x of Inl e \<Rightarrow> Inl e | Inr y \<Rightarrow> (case map_res f xs of Inl e \<Rightarrow> Inl e | Inr ys \<Rightarrow> Inr (y # ys)))"

definition dependencies_text :: "upload_env \<Rightarrow> string \<Rightarrow> string res" where
  "dependencies_text env text =
     (case ue_loads env text of
        Inl e \<Rightarrow> Inl e
      | Inr raws \<Rightarrow> (case map_res (normalize_dependency (ue_str env)) raws of Inl e \<Rightarrow> Inl e | Inr ds \<Rightarrow> Inr (ue_dumps env ds)))"

definition encrypted_env :: "upload_env \<Rightarrow> string \<Rightarrow> string res" where
  "encrypted_env env text =
     (case ue_loads_env env text of Inl e \<Rightarrow> Inl e | Inr vs \<Rightarrow> Inr (ue_dumps_env env (encrypt_env_vars (ue_encrypt env) vs)))"

definition no_ce_project_message :: "program \<Rightarrow> string" where
  "no_ce_project_message p =
     (case program_provider p of
        None \<Rightarrow> ''No active Code Engine project available. Contact administrator.''
      | Some pr \<Rightarrow>
          (case provider_project pr of
             Some x \<Rightarrow>
               if \<not> cep_active x
               then ''Code Engine project '' @ quoted (project_name x) @ '' assigned to provider '' @ quoted (provider_name pr) @
                    '' is not active. Contact administrator.''
               else ''No active Code Engine project for provider '' @ quoted (provider_name pr) @ ''. Contact administrator.''
           | None \<Rightarrow> ''No active Code Engine project for provider '' @ quoted (provider_name pr) @ ''. Contact administrator.''))"

section \<open>The listing of the profiles\<close>

text \<open>
  \<open>float(value)\<close> of a decimal number as an exact fraction; None stands for the infinity that other text sorts as.
  Exponents and the names of infinities are outside the columns' format.
\<close>

definition unsigned_decimal :: "string \<Rightarrow> rat option" where
  "unsigned_decimal s =
     (let whole = takeWhile is_digit s; rest = dropWhile is_digit s; frac = drop 1 rest in
      if rest \<noteq> [] \<and> hd rest \<noteq> CHR ''.'' \<or> \<not> list_all is_digit frac \<or> whole @ frac = [] then None
      else map_option (\<lambda>n. of_int n / 10 ^ length frac) (digits_val 0 (whole @ frac)))"

definition as_number :: "string \<Rightarrow> rat option" where
  "as_number s =
     (case strip s of
        [] \<Rightarrow> None
      | c # cs \<Rightarrow>
          if c = CHR ''-'' then map_option uminus (unsigned_decimal cs)
          else if c = CHR ''+'' then unsigned_decimal cs
          else unsigned_decimal (c # cs))"

text \<open>Infinity sorts after every number.\<close>

definition number_key :: "string \<Rightarrow> bool \<times> rat" where
  "number_key s = (case as_number s of Some r \<Rightarrow> (False, r) | None \<Rightarrow> (True, 0))"

definition ljust :: "nat \<Rightarrow> string \<Rightarrow> string" where
  "ljust n s = s @ replicate (n - length s) (CHR '' '')"

definition profile_line :: "nat \<Rightarrow> compute_profile \<Rightarrow> string" where
  "profile_line width c =
     ljust width (profile_id c) @ ''  ('' @ cpu c @ '' vCPU / '' @ memory c @ '' GB'' @
     (if truthy (gpu c) then '' / '' @ the (gpu c) else []) @ '')''"

definition available_profiles_message :: "compute_profile list \<Rightarrow> string" where
  "available_profiles_message profiles =
     (if profiles = [] then ''No compute profiles are registered on this deployment.''
      else
        let ps = sort_key (\<lambda>c. (truthy (gpu c), number_key (memory c), number_key (cpu c), profile_id c)) profiles;
            id_width = Max (set (map (length \<circ> profile_id) ps))
        in ''Available profiles:'' @ [CHR 0x0A] @ join_with [CHR 0x0A] (map (profile_line id_width) ps))"

section \<open>Validation of declared sizes\<close>

fun validate_compute_profiles :: "catalog \<Rightarrow> (string \<times> string) list \<Rightarrow> (string \<times> compute_profile) list res" where
  "validate_compute_profiles cat [] = Inr []"
| "validate_compute_profiles cat ((nm, pid) # rest) =
     (case get_by_id cat (Some pid) of
        None \<Rightarrow> Inl (ValidationError (''Unknown compute profile '' @ quoted pid @ '' for size '' @ quoted nm @ ''. '' @
                  available_profiles_message (cat_profiles cat)))
      | Some c \<Rightarrow> (case validate_compute_profiles cat rest of Inl e \<Rightarrow> Inl e | Inr ps \<Rightarrow> Inr ((nm, c) # ps)))"

definition validate_declared_sizes :: "catalog \<Rightarrow> json \<Rightarrow> (string \<times> compute_profile) list res" where
  "validate_declared_sizes cat sizes =
     (case parse_function_sizes sizes of Inl e \<Rightarrow> Inl e | Inr parsed \<Rightarrow> validate_compute_profiles cat parsed)"

definition validate_declared_default :: "(string \<times> compute_profile) list \<Rightarrow> string option \<Rightarrow> string option res" where
  "validate_declared_default profiles dflt =
     (case dflt of
        Some s \<Rightarrow>
          let nm = normalize_function_size s in
          if nm \<notin> fst ` set profiles
          then Inl (ValidationError (quoted ''default_size'' @ '' is '' @ quoted nm @ '', which is not one of this function'' @ [CHR 0x27] @ ''s sizes: '' @
                 join_with '', '' (sort (map fst profiles))))
          else Inr (Some nm)
      | None \<Rightarrow> Inr (if length profiles = 1 then Some (fst (hd profiles)) else None))"

section \<open>Writes\<close>

text \<open>
  A foreign key to a size is the row it points at: after a write of the sizes it is the row with the same key, or none once that
  row is deleted (\<open>SET_NULL\<close>).
\<close>

definition follow_key :: "function_size list \<Rightarrow> program \<Rightarrow> program" where
  "follow_key rows p =
     p\<lparr>default_size := Option.bind (default_size p) (\<lambda>fs. find (\<lambda>r. fs_id r = fs_id fs) rows)\<rparr>"

definition put_sizes :: "function_size list \<Rightarrow> catalog \<Rightarrow> catalog" where
  "put_sizes rows cat = cat\<lparr>cat_sizes := rows, cat_programs := map (follow_key rows) (cat_programs cat)\<rparr>"

definition save_program :: "program \<Rightarrow> catalog \<Rightarrow> catalog" where
  "save_program p cat =
     (let q = follow_key (cat_sizes cat) p in
      cat\<lparr>cat_programs := (if list_ex (\<lambda>x. program_id x = program_id p) (cat_programs cat)
                            then map (\<lambda>x. if program_id x = program_id p then q else x) (cat_programs cat)
                            else cat_programs cat @ [q])\<rparr>)"

text \<open>\<open>save(update_fields=["default_size"])\<close>.\<close>

definition save_default :: "program \<Rightarrow> catalog \<Rightarrow> catalog" where
  "save_default p cat =
     cat\<lparr>cat_programs := map (\<lambda>x. if program_id x = program_id p then follow_key (cat_sizes cat) (x\<lparr>default_size := default_size p\<rparr>) else x)
                            (cat_programs cat)\<rparr>"

definition size_row_is :: "program \<Rightarrow> string \<Rightarrow> function_size \<Rightarrow> bool" where
  "size_row_is p nm fs \<longleftrightarrow> fs_function fs = program_id p \<and> fs_label fs = nm"

definition new_size :: "upload_env \<Rightarrow> program \<Rightarrow> string \<Rightarrow> compute_profile \<Rightarrow> function_size list \<Rightarrow> function_size" where
  "new_size env p nm c rows =
     uppercase_function_size \<lparr>fs_id = ue_size_id env rows, fs_function = program_id p, fs_label = nm, fs_profile = c\<rparr>"

definition update_or_create :: "upload_env \<Rightarrow> program \<Rightarrow> string \<times> compute_profile \<Rightarrow> catalog \<Rightarrow> catalog" where
  "update_or_create env p = (\<lambda>(nm, c) cat.
     if list_ex (size_row_is p nm) (cat_sizes cat)
     then put_sizes (map (\<lambda>fs. if size_row_is p nm fs then fs\<lparr>fs_profile := c\<rparr> else fs) (cat_sizes cat)) cat
     else put_sizes (cat_sizes cat @ [new_size env p nm c (cat_sizes cat)]) cat)"

text \<open>The row of a declared size, once written.\<close>

definition size_row :: "catalog \<Rightarrow> program \<Rightarrow> string \<Rightarrow> function_size option" where
  "size_row cat p nm = find (size_row_is p nm) (cat_sizes cat)"

definition persist_function_sizes ::
  "upload_env \<Rightarrow> program \<Rightarrow> (string \<times> compute_profile) list \<Rightarrow> catalog \<Rightarrow> program \<times> catalog" where
  "persist_function_sizes env p profiles cat =
     (let cat1 = fold (update_or_create env p) profiles cat;
          stale = (case default_size p of Some fs \<Rightarrow> fs_label fs \<notin> fst ` set profiles | None \<Rightarrow> False);
          p1 = (if stale then p\<lparr>default_size := None\<rparr> else p);
          cat2 = (if stale then save_default p1 cat1 else cat1)
      in (p1, put_sizes (filter (\<lambda>fs. fs_function fs \<noteq> program_id p \<or> fs_label fs \<in> fst ` set profiles) (cat_sizes cat2)) cat2))"

definition apply_default_size :: "program \<Rightarrow> string \<Rightarrow> catalog \<Rightarrow> (program \<times> catalog) res" where
  "apply_default_size p s cat =
     (let nm = normalize_function_size s in
      case get_function_size cat p (Some nm) of
        None \<Rightarrow>
          let labels = sort (remdups (map (\<lambda>fs. upper (fs_label fs)) (function_sizes cat p))) in
          Inl (ValidationError (quoted ''default_size'' @ '' is '' @ quoted nm @ '', which is not one of this function'' @ [CHR 0x27] @ ''s sizes: '' @
            (if labels = [] then ''this function declares no sizes.'' else join_with '', '' labels)))
      | Some row \<Rightarrow> Inr (p\<lparr>default_size := Some row\<rparr>, save_default (p\<lparr>default_size := Some row\<rparr>) cat))"

definition seed_default_size :: "upload_env \<Rightarrow> program \<Rightarrow> catalog \<Rightarrow> (program \<times> catalog) res" where
  "seed_default_size env p cat =
     (case get_by_id cat (Some (ue_default_profile env)) of
        None \<Rightarrow> Inl (FunctionConfigurationException
          (''Default compute profile '' @ quoted (ue_default_profile env) @ '' is not registered. Contact administrator.''))
      | Some c \<Rightarrow>
          let row = new_size env p (ue_default_size env) c (cat_sizes cat);
              cat1 = put_sizes (cat_sizes cat @ [row]) cat;
              p1 = p\<lparr>default_size := Some row\<rparr>
          in Inr (p1, save_default p1 cat1))"

text \<open>The part of both transactions that follows the save of the row when sizes were declared.\<close>

definition declare_sizes :: "upload_env \<Rightarrow> json \<Rightarrow> string option \<Rightarrow> program \<Rightarrow> catalog \<Rightarrow> (program \<times> catalog) res" where
  "declare_sizes env sizes dflt p cat =
     (case validate_declared_sizes cat sizes of
        Inl e \<Rightarrow> Inl e
      | Inr profiles \<Rightarrow>
          (case validate_declared_default profiles dflt of
             Inl e \<Rightarrow> Inl e
           | Inr d \<Rightarrow>
               if program_runner p \<noteq> FLEETS then Inr (p, cat)
               else
                 let (p1, cat1) = persist_function_sizes env p profiles cat in
                 (case d of
                    None \<Rightarrow> Inr (p1, cat1)
                  | Some nm \<Rightarrow>
                      let p2 = p1\<lparr>default_size := size_row cat1 p nm\<rparr> in Inr (p2, save_default p2 cat1))))"

section \<open>The use case\<close>

definition put_details :: "nat \<Rightarrow> details \<Rightarrow> (nat \<times> details) list \<Rightarrow> (nat \<times> details) list" where
  "put_details i dt rows = (i, dt) # filter (\<lambda>x. fst x \<noteq> i) rows"

definition no_project_error :: "program \<Rightarrow> exn option" where
  "no_project_error p =
     (if program_runner p = FLEETS \<and> program_project p = None then Some (FunctionConfigurationException (no_ce_project_message p)) else None)"

definition new_function :: "upload_env \<Rightarrow> upload_input \<Rightarrow> user \<Rightarrow> provider option \<Rightarrow> string \<Rightarrow> program" where
  "new_function env data u pr envt =
     \<lparr>program_id = ue_program_id env, title = ui_title data, disabled = False, disabled_message = Some ''IBM has temporarily disabled access to this function'',
      program_env_vars = envt, arguments_schema = (case ui_arguments_schema data of None \<Rightarrow> Some ''{}'' | Some a \<Rightarrow> Some a),
      program_runner = (case ui_runner data of None \<Rightarrow> FLEETS | Some r \<Rightarrow> r), program_gpu = False, default_size = None, instances = [],
      trial_instances = [], program_author = u, program_provider = pr, program_project = None\<rparr>"

definition new_details :: "upload_input \<Rightarrow> string \<Rightarrow> details" where
  "new_details data deps =
     \<lparr>dt_entrypoint = (if truthy (ui_entrypoint data) then the (ui_entrypoint data) else DEFAULT_PROGRAM_ENTRYPOINT),
      dt_artifact = ui_artifact data, dt_image = ui_image data, dt_dependencies = deps, dt_description = ui_description data,
      dt_version = ui_version data, dt_type = (case ui_type data of None \<Rightarrow> GENERIC | Some t \<Rightarrow> t)\<rparr>"

definition create_sizes :: "upload_env \<Rightarrow> upload_input \<Rightarrow> program \<Rightarrow> catalog \<Rightarrow> (program \<times> catalog) res" where
  "create_sizes env data p cat =
     (case ui_sizes data of
        Some sizes \<Rightarrow> declare_sizes env sizes (ui_default_size data) p cat
      | None \<Rightarrow> if program_runner p = FLEETS then seed_default_size env p cat else Inr (p, cat))"

definition create_function ::
  "upload_env \<Rightarrow> upload_input \<Rightarrow> user \<Rightarrow> provider option \<Rightarrow> upload_state \<Rightarrow> program res \<times> upload_state" where
  "create_function env data u pr s =
     (if ui_entrypoint data = None \<and> ui_image data = None
      then (Inl (FunctionConfigurationException ''At least one of attributes (entrypoint, image) is required.''), s)
      else if ui_sizes data \<noteq> None \<and> ui_default_size data = None
      then (Inl (ValidationError (quoted ''default_size'' @ '' is required when '' @ quoted ''sizes'' @ '' is provided.'')), s)
      else if ui_default_size data \<noteq> None \<and> ui_sizes data = None
      then (Inl (ValidationError (quoted ''sizes'' @ '' is required when '' @ quoted ''default_size'' @ '' is provided.'')), s)
      else
        (case (if truthy (ui_env_vars data) then encrypted_env env (the (ui_env_vars data)) else Inr ''{}'') of
           Inl e \<Rightarrow> (Inl e, s)
         | Inr envt \<Rightarrow>
             (case dependencies_text env (if truthy (ui_dependencies data) then the (ui_dependencies data) else ''[]'') of
                Inl e \<Rightarrow> (Inl e, s)
              | Inr deps \<Rightarrow>
                  (case assign_to_program (ue_default_project env) (us_cat s) (new_function env data u pr envt) of
                     Inl e \<Rightarrow> (Inl e, s)
                   | Inr p \<Rightarrow>
                       (case no_project_error p of
                          Some e \<Rightarrow> (Inl e, s)
                        | None \<Rightarrow>
                            let cat1 = save_program p (us_cat s) in
                            (case create_sizes env data p cat1 of
                               Inl e \<Rightarrow> (Inl e, s)
                             | Inr (p', cat2) \<Rightarrow>
                                 (Inr p', \<lparr>us_cat = cat2, us_details = put_details (program_id p) (new_details data deps) (us_details s)\<rparr>)))))))"

definition apply_scalar_updates :: "upload_input \<Rightarrow> details \<Rightarrow> details" where
  "apply_scalar_updates data dt =
     dt\<lparr>dt_entrypoint := (case ui_entrypoint data of None \<Rightarrow> dt_entrypoint dt | Some x \<Rightarrow> x),
        dt_artifact := (case ui_artifact data of None \<Rightarrow> dt_artifact dt | Some x \<Rightarrow> Some x),
        dt_image := (case ui_image data of None \<Rightarrow> dt_image dt | Some x \<Rightarrow> Some x),
        dt_description := (case ui_description data of None \<Rightarrow> dt_description dt | Some x \<Rightarrow> Some x),
        dt_version := (case ui_version data of None \<Rightarrow> dt_version dt | Some x \<Rightarrow> Some x)\<rparr>"

text \<open>The row and its other columns as the request changes them, before anything is written.\<close>

definition updated_function :: "upload_env \<Rightarrow> upload_input \<Rightarrow> catalog \<Rightarrow> program \<Rightarrow> details \<Rightarrow> (program \<times> details) res" where
  "updated_function env data cat p dt =
     (let dt1 = apply_scalar_updates data dt;
          p1 = (case ui_arguments_schema data of None \<Rightarrow> p | Some a \<Rightarrow> p\<lparr>arguments_schema := Some a\<rparr>)
      in case (case ui_dependencies data of None \<Rightarrow> Inr (dt_dependencies dt1) | Some t \<Rightarrow> dependencies_text env t) of
           Inl e \<Rightarrow> Inl e
         | Inr deps \<Rightarrow>
             (case (case ui_env_vars data of None \<Rightarrow> Inr (program_env_vars p1) | Some t \<Rightarrow> encrypted_env env t) of
                Inl e \<Rightarrow> Inl e
              | Inr envt \<Rightarrow>
                  let p2 = p1\<lparr>program_env_vars := envt\<rparr>; dt2 = dt1\<lparr>dt_dependencies := deps\<rparr> in
                  (case ui_runner data of
                     None \<Rightarrow> Inr (p2, dt2)
                   | Some r \<Rightarrow>
                       (case assign_to_program (ue_default_project env) cat (p2\<lparr>program_runner := r\<rparr>) of
                          Inl e \<Rightarrow> Inl e
                        | Inr p3 \<Rightarrow> (case no_project_error p3 of Some e \<Rightarrow> Inl e | None \<Rightarrow> Inr (p3, dt2))))))"

definition update_sizes :: "upload_env \<Rightarrow> upload_input \<Rightarrow> program \<Rightarrow> catalog \<Rightarrow> (program \<times> catalog) res" where
  "update_sizes env data p cat =
     (case ui_sizes data of
        Some sizes \<Rightarrow> declare_sizes env sizes (ui_default_size data) p cat
      | None \<Rightarrow>
          (case ui_default_size data of
             Some d \<Rightarrow> apply_default_size p d cat
           | None \<Rightarrow> if program_runner p = FLEETS \<and> function_sizes cat p = [] then seed_default_size env p cat else Inr (p, cat)))"

definition update_function ::
  "upload_env \<Rightarrow> upload_input \<Rightarrow> program \<Rightarrow> upload_state \<Rightarrow> program res \<times> upload_state" where
  "update_function env data p s =
     (case map_of (us_details s) (program_id p) of
        None \<Rightarrow> (Inl DoesNotExist, s)
      | Some dt \<Rightarrow>
          (case updated_function env data (us_cat s) p dt of
             Inl e \<Rightarrow> (Inl e, s)
           | Inr (p1, dt1) \<Rightarrow>
               (case update_sizes env data p1 (save_program p1 (us_cat s)) of
                  Inl e \<Rightarrow> (Inl e, s)
                | Inr (p2, cat2) \<Rightarrow> (Inr p2, \<lparr>us_cat = cat2, us_details = put_details (program_id p) dt1 (us_details s)\<rparr>))))"

definition upload_function ::
  "upload_env \<Rightarrow> user \<Rightarrow> function_access_result \<Rightarrow> upload_input \<Rightarrow> upload_state \<Rightarrow> program res \<times> upload_state" where
  "upload_function env u far data s =
     (if truthy (ui_provider data) then
        let pn = the (ui_provider data); refused = Inl (FunctionNotFoundException (ui_title data) (Some pn)) in
        (case get_by_name (us_cat s) pn of
           None \<Rightarrow> (refused, s)
         | Some pr \<Rightarrow>
             (case can_upload_function (us_cat s) u (Some pr) (ui_title data) (Some far) of
                Inl e \<Rightarrow> (Inl e, s)
              | Inr False \<Rightarrow> (refused, s)
              | Inr True \<Rightarrow>
                  (case first_by program_id (filter (\<lambda>p. title p = ui_title data \<and> of_provider pn p) (cat_programs (us_cat s))) of
                     None \<Rightarrow> create_function env data u (Some pr) s
                   | Some p \<Rightarrow> update_function env data p s)))
      else if \<not> program_can_create u (Some far) then (Inl (CustomFunctionNotEntitledException (ui_title data) ''upload''), s)
      else
        (case first_by program_id (filter (\<lambda>p. title p = ui_title data \<and> is_author u p) (cat_programs (us_cat s))) of
           None \<Rightarrow> create_function env data u None s
         | Some p \<Rightarrow> update_function env data p s))"

section \<open>Well-formed catalogs\<close>

definition sizes_wf :: "nat set \<Rightarrow> function_size list \<Rightarrow> bool" where
  "sizes_wf ids rows \<longleftrightarrow> distinct (map fs_id rows) \<and> distinct (map (\<lambda>fs. (fs_function fs, fs_label fs)) rows) \<and>
     (\<forall>fs \<in> set rows. fs_function fs \<in> ids \<and> upper (fs_label fs) = fs_label fs)"

definition catalog_wf :: "catalog \<Rightarrow> bool" where
  "catalog_wf cat \<longleftrightarrow> distinct (map program_id (cat_programs cat)) \<and> sizes_wf (program_id ` set (cat_programs cat)) (cat_sizes cat) \<and>
     (\<forall>p \<in> set (cat_programs cat). \<forall>fs. default_size p = Some fs \<longrightarrow> fs \<in> set (cat_sizes cat) \<and> fs_function fs = program_id p)"

text \<open>Rows of other functions, and other functions, are as they were.\<close>

definition others_same :: "nat \<Rightarrow> catalog \<Rightarrow> catalog \<Rightarrow> bool" where
  "others_same i cat cat' \<longleftrightarrow>
     filter (\<lambda>p. program_id p \<noteq> i) (cat_programs cat') = filter (\<lambda>p. program_id p \<noteq> i) (cat_programs cat) \<and>
     filter (\<lambda>fs. fs_function fs \<noteq> i) (cat_sizes cat') = filter (\<lambda>fs. fs_function fs \<noteq> i) (cat_sizes cat) \<and>
     cat_profiles cat' = cat_profiles cat"

lemma others_same_refl [simp]: "others_same i cat cat"
  by (simp add: others_same_def)

lemma others_same_trans: "others_same i a b \<Longrightarrow> others_same i b c \<Longrightarrow> others_same i a c"
  by (simp add: others_same_def)

text \<open>The key of the default points at no row of another function.\<close>

definition default_fits :: "catalog \<Rightarrow> program \<Rightarrow> bool" where
  "default_fits cat p \<longleftrightarrow> (\<forall>fs r. default_size p = Some fs \<longrightarrow> r \<in> set (cat_sizes cat) \<longrightarrow> fs_id r = fs_id fs \<longrightarrow> fs_function r = program_id p)"

definition fresh_ids :: "upload_env \<Rightarrow> bool" where
  "fresh_ids env \<longleftrightarrow> (\<forall>rows. ue_size_id env rows \<notin> fs_id ` set rows) \<and> upper (ue_default_size env) = ue_default_size env"

definition writable :: "upload_env \<Rightarrow> program \<Rightarrow> catalog \<Rightarrow> bool" where
  "writable env p cat \<longleftrightarrow> fresh_ids env \<and> catalog_wf cat \<and> program_id p \<in> program_id ` set (cat_programs cat) \<and> default_fits cat p"

lemma follow_key_simps [simp]: "program_id (follow_key rows p) = program_id p" "program_runner (follow_key rows p) = program_runner p"
  "program_project (follow_key rows p) = program_project p"
  by (simp_all add: follow_key_def)

lemma follow_key_id:
  assumes "distinct (map fs_id rows)" "\<forall>fs. default_size p = Some fs \<longrightarrow> fs \<in> set rows"
  shows "follow_key rows p = p"
proof (cases "default_size p")
  case (Some fs)
  have "find (\<lambda>r. fs_id r = fs_id fs) rows = Some fs"
    using assms Some by (auto simp: find_Some_iff distinct_conv_nth in_set_conv_nth)
  then show ?thesis using Some by (simp add: follow_key_def)
qed (simp add: follow_key_def)

lemma follow_key_default: "default_size (follow_key rows p) = Some r \<Longrightarrow> \<exists>fs. default_size p = Some fs \<and> r \<in> set rows \<and> fs_id r = fs_id fs"
  by (auto simp: follow_key_def bind_eq_Some_conv find_Some_iff)

lemma put_sizes_wf:
  assumes "catalog_wf cat" "sizes_wf (program_id ` set (cat_programs cat)) rows"
    and "\<forall>old \<in> set (cat_sizes cat). \<forall>r \<in> set rows. fs_id r = fs_id old \<longrightarrow> fs_function r = fs_function old"
  shows "catalog_wf (put_sizes rows cat)"
proof -
  have "r \<in> set rows \<and> fs_function r = program_id q" if "q \<in> set (cat_programs cat)" "default_size (follow_key rows q) = Some r" for q r
    using follow_key_default [OF that(2)] assms(1,3) that(1) by (fastforce simp: catalog_wf_def)
  then show ?thesis using assms(1,2) by (auto simp: catalog_wf_def put_sizes_def image_image comp_def)
qed

lemma put_sizes_others:
  assumes "catalog_wf cat" "distinct (map fs_id rows)"
    and "filter (\<lambda>fs. fs_function fs \<noteq> i) rows = filter (\<lambda>fs. fs_function fs \<noteq> i) (cat_sizes cat)"
  shows "others_same i cat (put_sizes rows cat)"
proof -
  have "follow_key rows q = q" if "q \<in> set (cat_programs cat)" "program_id q \<noteq> i" for q
  proof (rule follow_key_id [OF assms(2)], intro allI impI)
    fix fs assume "default_size q = Some fs"
    then have "fs \<in> set (filter (\<lambda>fs. fs_function fs \<noteq> i) (cat_sizes cat))" using assms(1) that by (auto simp: catalog_wf_def)
    then show "fs \<in> set rows" unfolding assms(3) [symmetric] by simp
  qed
  then have "filter (\<lambda>p. program_id p \<noteq> i) (map (follow_key rows) (cat_programs cat)) = filter (\<lambda>p. program_id p \<noteq> i) (cat_programs cat)"
    by (induction "cat_programs cat") (auto simp: filter_map comp_def intro!: map_idI)
  then show ?thesis using assms(3) by (simp add: others_same_def put_sizes_def)
qed

text \<open>What a write of one function keeps, and the step from the row it is given to the row it leaves.\<close>

definition cat_kept :: "upload_env \<Rightarrow> program \<Rightarrow> catalog \<Rightarrow> program \<Rightarrow> catalog \<Rightarrow> bool" where
  "cat_kept env p cat p' cat' \<longleftrightarrow> writable env p' cat' \<and> others_same (program_id p) cat cat' \<and> program_id p' = program_id p \<and>
     program_runner p' = program_runner p"

lemma cat_kept_trans: "cat_kept env p a q b \<Longrightarrow> cat_kept env q b r c \<Longrightarrow> cat_kept env p a r c"
  by (auto simp: cat_kept_def intro: others_same_trans)

lemma cat_kept_refl: "writable env p cat \<Longrightarrow> cat_kept env p cat p cat"
  by (simp add: cat_kept_def)

lemma save_program_sizes [simp]: "cat_sizes (save_program p cat) = cat_sizes cat" "cat_profiles (save_program p cat) = cat_profiles cat"
  by (simp_all add: save_program_def Let_def)

lemma save_default_sizes [simp]: "cat_sizes (save_default p cat) = cat_sizes cat" "cat_profiles (save_default p cat) = cat_profiles cat"
  by (simp_all add: save_default_def)

lemma default_fits_cong:
  "default_fits cat p \<Longrightarrow> program_id q = program_id p \<Longrightarrow> default_size q = default_size p \<Longrightarrow> cat_sizes cat' = cat_sizes cat \<Longrightarrow> default_fits cat' q"
  unfolding default_fits_def by metis

lemma default_fits_follow:
  "default_fits cat p \<Longrightarrow> default_size (follow_key (cat_sizes cat) p) = Some r \<Longrightarrow> r \<in> set (cat_sizes cat) \<and> fs_function r = program_id p"
  using follow_key_default by (fastforce simp: default_fits_def)

text \<open>Rewriting the rows of one function in place.\<close>

lemma rewrite_rows:
  assumes "\<And>x. program_id x = i \<Longrightarrow> program_id (g x) = i"
  shows rewrite_ids: "map program_id (map (\<lambda>x. if program_id x = i then g x else x) ps) = map program_id ps"
    and rewrite_others: "filter (\<lambda>x. program_id x \<noteq> i) (map (\<lambda>x. if program_id x = i then g x else x) ps) = filter (\<lambda>x. program_id x \<noteq> i) ps"
  using assms by (induction ps) auto

lemma rewrite_wf:
  assumes "catalog_wf cat" "\<And>x. program_id x = i \<Longrightarrow> program_id (g x) = i"
    and "\<And>x fs. x \<in> set (cat_programs cat) \<Longrightarrow> program_id x = i \<Longrightarrow> default_size (g x) = Some fs \<Longrightarrow> fs \<in> set (cat_sizes cat) \<and> fs_function fs = i"
  shows "catalog_wf (cat\<lparr>cat_programs := map (\<lambda>x. if program_id x = i then g x else x) (cat_programs cat)\<rparr>)"
proof -
  let ?ps = "map (\<lambda>x. if program_id x = i then g x else x) (cat_programs cat)"
  have "fs \<in> set (cat_sizes cat) \<and> fs_function fs = program_id q" if "q \<in> set ?ps" "default_size q = Some fs" for q fs
    using that assms by (auto simp: catalog_wf_def split: if_splits)
  moreover have ids: "map program_id ?ps = map program_id (cat_programs cat)" using rewrite_ids [of i g, OF assms(2)] .
  moreover have "program_id ` set ?ps = program_id ` set (cat_programs cat)" using arg_cong [OF ids, of set] unfolding set_map .
  ultimately show ?thesis using assms(1) unfolding catalog_wf_def by (auto simp: simp del: map_map set_map)
qed

lemma save_program_kept:
  assumes "fresh_ids env" "catalog_wf cat" "default_fits cat p"
  shows "cat_kept env p cat p (save_program p cat)"
proof -
  let ?q = "follow_key (cat_sizes cat) p"
  have q: "default_size ?q = Some fs \<Longrightarrow> fs \<in> set (cat_sizes cat) \<and> fs_function fs = program_id p" for fs
    using default_fits_follow [OF assms(3)] by blast
  have wf: "catalog_wf (save_program p cat)"
  proof (cases "list_ex (\<lambda>x. program_id x = program_id p) (cat_programs cat)")
    case True
    then show ?thesis using rewrite_wf [OF assms(2), of "program_id p" "\<lambda>_. ?q"] q by (simp add: save_program_def Let_def)
  next
    case False
    then show ?thesis using assms(2) q by (auto simp: save_program_def catalog_wf_def sizes_wf_def Let_def list_ex_iff)
  qed
  have "map program_id (cat_programs (save_program p cat)) =
      (if list_ex (\<lambda>x. program_id x = program_id p) (cat_programs cat) then map program_id (cat_programs cat)
       else map program_id (cat_programs cat) @ [program_id p])"
    using rewrite_ids [of "program_id p" "\<lambda>_. ?q" "cat_programs cat"] by (simp add: save_program_def Let_def)
  then have "program_id p \<in> set (map program_id (cat_programs (save_program p cat)))"
    by (auto simp: list_ex_iff simp del: set_map) (metis image_eqI list.set_map)
  moreover have "others_same (program_id p) cat (save_program p cat)"
    using rewrite_others [of "program_id p" "\<lambda>_. ?q"] by (simp add: others_same_def save_program_def Let_def)
  moreover have "default_fits (save_program p cat) p" using default_fits_cong [OF assms(3)] by simp
  ultimately show ?thesis using assms wf by (simp add: cat_kept_def writable_def)
qed

lemma save_default_kept:
  assumes "writable env p cat"
  shows "cat_kept env p cat p (save_default p cat)"
proof -
  let ?g = "\<lambda>x. follow_key (cat_sizes cat) (x\<lparr>default_size := default_size p\<rparr>)"
  have g: "program_id x = program_id p \<Longrightarrow> program_id (?g x) = program_id p" for x by simp
  have "fs \<in> set (cat_sizes cat) \<and> fs_function fs = program_id p" if x: "program_id x = program_id p" and d: "default_size (?g x) = Some fs" for x fs
  proof -
    have "default_fits cat (x\<lparr>default_size := default_size p\<rparr>)"
      by (rule default_fits_cong [of cat p]) (use assms x in \<open>simp_all add: writable_def\<close>)
    from default_fits_follow [OF this d] x show ?thesis by simp
  qed
  then have "catalog_wf (save_default p cat)"
    unfolding save_default_def using assms by (intro rewrite_wf) (simp_all add: writable_def)
  moreover have "map program_id (cat_programs (save_default p cat)) = map program_id (cat_programs cat)"
    using rewrite_ids [of "program_id p" ?g "cat_programs cat", OF g] by (simp add: save_default_def)
  then have "program_id ` set (cat_programs (save_default p cat)) = program_id ` set (cat_programs cat)"
    by (metis list.set_map)
  moreover have "default_fits (save_default p cat) p" by (rule default_fits_cong [of cat p]) (use assms in \<open>simp_all add: writable_def\<close>)
  moreover have "others_same (program_id p) cat (save_default p cat)"
    using rewrite_others [of "program_id p" ?g, OF g] by (simp add: others_same_def save_default_def)
  ultimately show ?thesis using assms by (simp add: cat_kept_def writable_def)
qed

lemma put_sizes_kept:
  assumes "writable env p cat" "sizes_wf (program_id ` set (cat_programs cat)) rows"
    and "filter (\<lambda>fs. fs_function fs \<noteq> program_id p) rows = filter (\<lambda>fs. fs_function fs \<noteq> program_id p) (cat_sizes cat)"
    and "\<And>old r. old \<in> set (cat_sizes cat) \<Longrightarrow> r \<in> set rows \<Longrightarrow> fs_id r = fs_id old \<Longrightarrow> fs_function r = fs_function old"
    and "\<And>r. r \<in> set rows \<Longrightarrow> fs_function r = program_id p \<or> fs_id r \<in> fs_id ` set (cat_sizes cat)"
  shows "cat_kept env p cat p (put_sizes rows cat)"
proof -
  have "fs_function r = program_id p" if "default_size p = Some fs" "r \<in> set rows" "fs_id r = fs_id fs" for fs r
  proof -
    from assms(5) [OF that(2)] show ?thesis
    proof
      assume "fs_id r \<in> fs_id ` set (cat_sizes cat)"
      then obtain old where old: "old \<in> set (cat_sizes cat)" "fs_id r = fs_id old" by blast
      then have "fs_function old = program_id p" using assms(1) that by (auto simp: writable_def default_fits_def)
      then show ?thesis using assms(4) [OF old(1) that(2) old(2)] by simp
    qed
  qed
  then have "default_fits (put_sizes rows cat) p" unfolding default_fits_def put_sizes_def by fastforce
  moreover have "catalog_wf (put_sizes rows cat)" using assms(1,2,4) by (intro put_sizes_wf) (auto simp: writable_def)
  moreover have "others_same (program_id p) cat (put_sizes rows cat)"
    using assms(1,2,3) by (intro put_sizes_others) (auto simp: writable_def sizes_wf_def)
  ultimately show ?thesis using assms(1) by (auto simp: cat_kept_def writable_def put_sizes_def image_image)
qed

lemma new_size_fields [simp]:
  "fs_id (new_size env p nm c rows) = ue_size_id env rows" "fs_function (new_size env p nm c rows) = program_id p"
  "fs_label (new_size env p nm c rows) = upper nm" "fs_profile (new_size env p nm c rows) = c"
  by (auto simp: new_size_def uppercase_function_size_def upper_def)

lemma add_size_kept:
  assumes "writable env p cat" "\<forall>fs \<in> set (cat_sizes cat). \<not> size_row_is p (upper nm) fs"
  shows "cat_kept env p cat p (put_sizes (cat_sizes cat @ [new_size env p nm c (cat_sizes cat)]) cat)"
  using assms by (intro put_sizes_kept) (auto simp: writable_def fresh_ids_def catalog_wf_def sizes_wf_def size_row_is_def inj_on_def
    distinct_map image_iff)

lemma change_size_kept:
  assumes "writable env p cat"
  shows "cat_kept env p cat p (put_sizes (map (\<lambda>fs. if size_row_is p nm fs then fs\<lparr>fs_profile := c\<rparr> else fs) (cat_sizes cat)) cat)"
proof -
  let ?g = "\<lambda>fs. if size_row_is p nm fs then fs\<lparr>fs_profile := c\<rparr> else fs"
  have g: "fs_id (?g fs) = fs_id fs" "fs_function (?g fs) = fs_function fs" "fs_label (?g fs) = fs_label fs" for fs by auto
  have maps: "map fs_id (map ?g rows) = map fs_id rows"
    "map (\<lambda>fs. (fs_function fs, fs_label fs)) (map ?g rows) = map (\<lambda>fs. (fs_function fs, fs_label fs)) rows" for rows using g by simp_all
  have same: "filter (\<lambda>fs. fs_function fs \<noteq> program_id p) (map ?g rows) = filter (\<lambda>fs. fs_function fs \<noteq> program_id p) rows" for rows
    by (induction rows) (auto simp: size_row_is_def)
  have wf: "sizes_wf (program_id ` set (cat_programs cat)) (map ?g (cat_sizes cat))"
    using assms unfolding writable_def catalog_wf_def sizes_wf_def maps by auto
  show ?thesis
  proof (rule put_sizes_kept [OF assms wf same])
    fix old r assume "old \<in> set (cat_sizes cat)" "r \<in> set (map ?g (cat_sizes cat))" "fs_id r = fs_id old"
    then obtain fs where "fs \<in> set (cat_sizes cat)" "r = ?g fs" "fs_id fs = fs_id old" using g by force
    then have "fs = old" using assms \<open>old \<in> _\<close> by (auto simp: writable_def catalog_wf_def sizes_wf_def distinct_map inj_on_def)
    then show "fs_function r = fs_function old" using \<open>r = _\<close> g by simp
  next
    fix r assume "r \<in> set (map ?g (cat_sizes cat))"
    then show "fs_function r = program_id p \<or> fs_id r \<in> fs_id ` set (cat_sizes cat)" using g by force
  qed
qed

section \<open>The catalog of one function as a map\<close>

definition rows_map :: "nat \<Rightarrow> function_size list \<Rightarrow> string \<rightharpoonup> compute_profile" where
  "rows_map i rows = map_of (map (\<lambda>fs. (fs_label fs, fs_profile fs)) (filter (\<lambda>fs. fs_function fs = i) rows))"

definition size_map :: "catalog \<Rightarrow> nat \<Rightarrow> string \<rightharpoonup> compute_profile" where
  "size_map cat i = rows_map i (cat_sizes cat)"

lemma put_sizes_rows [simp]: "cat_sizes (put_sizes rows cat) = rows" "cat_profiles (put_sizes rows cat) = cat_profiles cat"
  by (simp_all add: put_sizes_def)

lemma size_map_put [simp]: "size_map (put_sizes rows cat) i = rows_map i rows"
  by (simp add: size_map_def put_sizes_def)

lemma size_map_save [simp]: "size_map (save_default p cat) = size_map cat" "size_map (save_program p cat) = size_map cat"
  by (simp_all add: size_map_def fun_eq_iff)

lemma size_map_None: "size_map cat i nm = None \<longleftrightarrow> (\<forall>fs \<in> set (cat_sizes cat). fs_function fs = i \<longrightarrow> fs_label fs \<noteq> nm)"
  by (auto simp: size_map_def rows_map_def map_of_eq_None_iff image_image)

lemma function_sizes_Nil: "function_sizes cat p = [] \<longleftrightarrow> size_map cat (program_id p) = Map.empty"
  by (auto simp: function_sizes_def fun_eq_iff size_map_None filter_empty_conv)

lemma rows_map_change:
  "list_ex (size_row_is p nm) rows \<Longrightarrow>
   rows_map (program_id p) (map (\<lambda>fs. if size_row_is p nm fs then fs\<lparr>fs_profile := c\<rparr> else fs) rows) = (rows_map (program_id p) rows)(nm \<mapsto> c)"
proof -
  have "rows_map (program_id p) (map (\<lambda>fs. if size_row_is p nm fs then fs\<lparr>fs_profile := c\<rparr> else fs) rows) x =
      (if x = nm \<and> list_ex (size_row_is p nm) rows then Some c else rows_map (program_id p) rows x)" for x
    by (induction rows) (auto simp: rows_map_def size_row_is_def)
  then show "list_ex (size_row_is p nm) rows \<Longrightarrow> ?thesis" by auto
qed

lemma rows_map_filter: "rows_map i (filter (\<lambda>fs. fs_function fs \<noteq> i \<or> fs_label fs \<in> L) rows) = rows_map i rows |` L"
proof
  show "rows_map i (filter (\<lambda>fs. fs_function fs \<noteq> i \<or> fs_label fs \<in> L) rows) x = (rows_map i rows |` L) x" for x
    by (induction rows) (auto simp: rows_map_def restrict_map_def)
qed

lemma size_map_update_or_create:
  assumes "upper nm = nm"
  shows "size_map (update_or_create env p (nm, c) cat) (program_id p) = (size_map cat (program_id p))(nm \<mapsto> c)"
proof (cases "list_ex (size_row_is p nm) (cat_sizes cat)")
  case True
  then show ?thesis using rows_map_change [OF True] by (simp add: update_or_create_def size_map_def)
next
  case False
  then have "size_map cat (program_id p) nm = None" by (auto simp: size_map_None list_ex_iff size_row_is_def)
  then show ?thesis using False assms by (auto simp: update_or_create_def size_map_def rows_map_def map_add_def fun_eq_iff split: option.splits)
qed

lemma update_or_create_kept:
  assumes "writable env p cat" "upper nm = nm"
  shows "cat_kept env p cat p (update_or_create env p (nm, c) cat)"
  using assms change_size_kept [OF assms(1), of nm c] add_size_kept [OF assms(1), of nm c]
  by (auto simp: update_or_create_def list_ex_iff)

lemma update_all_sizes:
  assumes "writable env p cat" "\<forall>x \<in> set profiles. upper (fst x) = fst x" "distinct (map fst profiles)"
  shows "cat_kept env p cat p (fold (update_or_create env p) profiles cat) \<and>
    size_map (fold (update_or_create env p) profiles cat) (program_id p) = size_map cat (program_id p) ++ map_of profiles"
  using assms
proof (induction profiles arbitrary: cat)
  case (Cons x xs)
  obtain nm c where x: "x = (nm, c)" by force
  let ?cat = "update_or_create env p x cat"
  have k: "cat_kept env p cat p ?cat" using update_or_create_kept [OF Cons.prems(1)] Cons.prems(2) x by simp
  have nm: "map_of xs nm = None" using Cons.prems(3) x by (simp add: map_of_eq_None_iff)
  have "size_map ?cat (program_id p) = (size_map cat (program_id p))(nm \<mapsto> c)"
    using size_map_update_or_create Cons.prems(2) x by simp
  then show ?case using Cons.IH [of ?cat] Cons.prems k cat_kept_trans [OF k] x nm
    by (auto simp: cat_kept_def fun_eq_iff map_add_def split: option.splits)
qed (simp add: cat_kept_refl)

lemma set_default_kept:
  assumes "writable env p cat" "\<And>fs. d = Some fs \<Longrightarrow> fs \<in> set (cat_sizes cat) \<and> fs_function fs = program_id p"
  shows "cat_kept env p cat (p\<lparr>default_size := d\<rparr>) cat"
proof -
  have "fs_function r = program_id p" if "d = Some fs" "r \<in> set (cat_sizes cat)" "fs_id r = fs_id fs" for fs r
  proof -
    have "r = fs" using assms(1) assms(2) [OF that(1)] that
      by (auto simp: writable_def catalog_wf_def sizes_wf_def distinct_map inj_on_def)
    then show ?thesis using assms(2) [OF that(1)] by simp
  qed
  moreover have "default_size (p\<lparr>default_size := d\<rparr>) = d" "program_id (p\<lparr>default_size := d\<rparr>) = program_id p" by simp_all
  ultimately have "default_fits cat (p\<lparr>default_size := d\<rparr>)" unfolding default_fits_def by metis
  then show ?thesis using assms(1) by (simp add: cat_kept_def writable_def)
qed

text \<open>Setting the default of a function and saving it.\<close>

lemma store_default_kept:
  assumes "writable env p cat" "\<And>fs. d = Some fs \<Longrightarrow> fs \<in> set (cat_sizes cat) \<and> fs_function fs = program_id p"
  shows "cat_kept env p cat (p\<lparr>default_size := d\<rparr>) (save_default (p\<lparr>default_size := d\<rparr>) cat)"
proof (rule cat_kept_trans)
  show k: "cat_kept env p cat (p\<lparr>default_size := d\<rparr>) cat" using assms by (rule set_default_kept)
  show "cat_kept env (p\<lparr>default_size := d\<rparr>) cat (p\<lparr>default_size := d\<rparr>) (save_default (p\<lparr>default_size := d\<rparr>) cat)"
    using k by (intro save_default_kept) (simp add: cat_kept_def)
qed

lemma persist_function_sizes_kept:
  assumes "writable env p cat" "\<forall>x \<in> set profiles. upper (fst x) = fst x" "distinct (map fst profiles)"
    and "persist_function_sizes env p profiles cat = (p', cat')"
  shows "cat_kept env p cat p' cat' \<and> size_map cat' (program_id p) = map_of profiles"
proof -
  define cat1 where "cat1 = fold (update_or_create env p) profiles cat"
  define stale where "stale = (case default_size p of Some fs \<Rightarrow> fs_label fs \<notin> fst ` set profiles | None \<Rightarrow> False)"
  define cat2 where "cat2 = (if stale then save_default p' cat1 else cat1)"
  define rows where "rows = filter (\<lambda>fs. fs_function fs \<noteq> program_id p \<or> fs_label fs \<in> fst ` set profiles) (cat_sizes cat2)"
  have p': "p' = (if stale then p\<lparr>default_size := None\<rparr> else p)" and cat': "cat' = put_sizes rows cat2"
    using assms(4) unfolding persist_function_sizes_def Let_def cat1_def stale_def cat2_def rows_def by auto
  have k1: "cat_kept env p cat p cat1" and m1: "size_map cat1 (program_id p) = size_map cat (program_id p) ++ map_of profiles"
    using update_all_sizes [OF assms(1-3)] unfolding cat1_def by auto
  have w1: "writable env p cat1" using k1 by (simp add: cat_kept_def)
  have k2: "cat_kept env p cat p' cat2" and i: "program_id p' = program_id p"
    using cat_kept_trans [OF k1 store_default_kept [OF w1, of None]] k1 unfolding p' cat2_def by auto
  have "cat_kept env p' cat2 p' cat'" unfolding cat'
  proof (rule put_sizes_kept)
    show w2: "writable env p' cat2" using k2 by (simp add: cat_kept_def)
    then show "sizes_wf (program_id ` set (cat_programs cat2)) rows"
      by (auto simp: writable_def catalog_wf_def sizes_wf_def rows_def distinct_map_filter)
    show "fs_function r = fs_function old" if "old \<in> set (cat_sizes cat2)" "r \<in> set rows" "fs_id r = fs_id old" for old r
      using w2 that by (auto simp: writable_def catalog_wf_def sizes_wf_def rows_def distinct_map inj_on_def)
  qed (auto simp: rows_def i intro!: filter_cong)
  have "size_map cat2 (program_id p) = size_map cat1 (program_id p)" by (simp add: cat2_def)
  then have "size_map cat' (program_id p) = (size_map cat (program_id p) ++ map_of profiles) |` (fst ` set profiles)"
    unfolding cat' size_map_put rows_def rows_map_filter using m1 by (simp add: size_map_def)
  also have "(m ++ map_of profiles) |` (fst ` set profiles) = map_of profiles" for m :: "string \<rightharpoonup> compute_profile"
    unfolding dom_map_of_conv_image_fst [symmetric] by (auto simp: restrict_map_def fun_eq_iff map_add_def dom_def split: option.splits)
  finally have "size_map cat' (program_id p) = map_of profiles" .
  with \<open>cat_kept env p' cat2 p' cat'\<close> show ?thesis using cat_kept_trans [OF k2] by blast
qed

lemma apply_default_size_kept:
  assumes "writable env p cat" "apply_default_size p d cat = Inr (p', cat')"
  shows "cat_kept env p cat p' cat' \<and> size_map cat' = size_map cat \<and> function_sizes cat p \<noteq> []"
proof -
  obtain row where row: "get_function_size cat p (Some (normalize_function_size d)) = Some row"
    and p': "p' = p\<lparr>default_size := Some row\<rparr>" "cat' = save_default (p\<lparr>default_size := Some row\<rparr>) cat"
    using assms(2) by (auto simp: apply_default_size_def Let_def split: option.splits)
  have "row \<in> set (function_sizes cat p)"
    using row first_by_mem by (fastforce simp: get_function_size_def split: if_splits)
  then show ?thesis using store_default_kept [OF assms(1), of "Some row"] p' by (auto simp: function_sizes_def filter_empty_conv)
qed

lemma seed_default_size_kept:
  assumes "writable env p cat" "function_sizes cat p = []" "seed_default_size env p cat = Inr (p', cat')"
  shows "cat_kept env p cat p' cat' \<and> (\<exists>c. get_by_id cat (Some (ue_default_profile env)) = Some c \<and>
    size_map cat' (program_id p) = [ue_default_size env \<mapsto> c])"
proof -
  define row where "row c = new_size env p (ue_default_size env) c (cat_sizes cat)" for c
  obtain c where c: "get_by_id cat (Some (ue_default_profile env)) = Some c" and p': "p' = p\<lparr>default_size := Some (row c)\<rparr>"
    "cat' = save_default (p\<lparr>default_size := Some (row c)\<rparr>) (put_sizes (cat_sizes cat @ [row c]) cat)"
    using assms(3) by (auto simp: seed_default_size_def row_def Let_def split: option.splits)
  have "cat_kept env p cat p (put_sizes (cat_sizes cat @ [row c]) cat)"
    using add_size_kept [OF assms(1)] assms(2) by (auto simp: row_def function_sizes_def filter_empty_conv size_row_is_def)
  moreover from this have "cat_kept env p (put_sizes (cat_sizes cat @ [row c]) cat) p' cat'"
    unfolding p' by (intro store_default_kept) (auto simp: cat_kept_def row_def)
  moreover have "size_map cat' (program_id p) = [ue_default_size env \<mapsto> c]"
    using assms(1,2) by (auto simp: p' rows_map_def row_def function_sizes_def writable_def fresh_ids_def)
  ultimately show ?thesis using c cat_kept_trans by blast
qed

section \<open>What an upload keeps\<close>

lemma parse_sizes_loop_names:
  assumes "parse_sizes_loop acc kvs = Inr ps" "distinct (map fst acc)" "\<forall>x \<in> set acc. fst x \<in> set VALID_SIZES"
  shows "distinct (map fst ps) \<and> (\<forall>x \<in> set ps. fst x \<in> set VALID_SIZES) \<and> length ps = length acc + length kvs"
  using assms
proof (induction acc kvs rule: parse_sizes_loop.induct)
  case (2 acc raw_name raw_profile rest)
  then obtain t where "raw_profile = JStr t" by (cases raw_profile) auto
  with 2 show ?case by (auto simp: Let_def split: if_splits)
qed auto

lemma parse_function_sizes_names:
  assumes "parse_function_sizes sizes = Inr ps"
  shows "distinct (map fst ps)" "\<forall>x \<in> set ps. fst x \<in> set VALID_SIZES" "ps \<noteq> []"
proof -
  obtain kvs where "kvs \<noteq> []" "parse_sizes_loop [] kvs = Inr ps"
    using assms by (auto simp: parse_function_sizes_def split: json.splits if_splits)
  with parse_sizes_loop_names [of "[]" kvs ps] show "distinct (map fst ps)" "\<forall>x \<in> set ps. fst x \<in> set VALID_SIZES" "ps \<noteq> []"
    by auto
qed

lemma validate_compute_profiles_names: "validate_compute_profiles cat ps = Inr profiles \<Longrightarrow> map fst profiles = map fst ps"
  by (induction ps arbitrary: profiles) (auto split: option.splits sum.splits)

lemma valid_sizes_upper: "nm \<in> set VALID_SIZES \<Longrightarrow> upper nm = nm"
proof -
  have "\<forall>nm \<in> set VALID_SIZES. upper nm = nm" by code_simp
  then show "nm \<in> set VALID_SIZES \<Longrightarrow> upper nm = nm" by blast
qed

lemma validate_declared_sizes_names:
  assumes "validate_declared_sizes cat sizes = Inr profiles"
  shows "distinct (map fst profiles)" "\<forall>x \<in> set profiles. upper (fst x) = fst x" "profiles \<noteq> []"
proof -
  obtain ps where ps: "parse_function_sizes sizes = Inr ps" and v: "validate_compute_profiles cat ps = Inr profiles"
    using assms by (auto simp: validate_declared_sizes_def split: sum.splits)
  have names: "map fst profiles = map fst ps" using validate_compute_profiles_names [OF v] .
  show "distinct (map fst profiles)" "profiles \<noteq> []" using parse_function_sizes_names [OF ps] names by auto
  have "fst ` set profiles = fst ` set ps" using names by (metis list.set_map)
  then show "\<forall>x \<in> set profiles. upper (fst x) = fst x"
    using parse_function_sizes_names(2) [OF ps] valid_sizes_upper by (metis imageE image_eqI)
qed

lemma validate_declared_sizes_cong:
  assumes "cat_profiles cat' = cat_profiles cat"
  shows "validate_declared_sizes cat' sizes = validate_declared_sizes cat sizes"
proof -
  have "validate_compute_profiles cat' ps = validate_compute_profiles cat ps" for ps
    by (induction ps) (auto simp: get_by_id_def assms split: option.splits)
  then show ?thesis by (simp add: validate_declared_sizes_def split: sum.split)
qed

lemma declare_sizes_kept:
  assumes "writable env p cat" "declare_sizes env sizes d p cat = Inr (p', cat')"
  shows "cat_kept env p cat p' cat' \<and> (program_runner p = FLEETS \<longrightarrow>
    (\<exists>profiles. validate_declared_sizes cat sizes = Inr profiles \<and> profiles \<noteq> [] \<and> size_map cat' (program_id p) = map_of profiles))"
proof -
  obtain profiles d' where v: "validate_declared_sizes cat sizes = Inr profiles" and d': "validate_declared_default profiles d = Inr d'"
    using assms(2) by (auto simp: declare_sizes_def split: sum.splits)
  show ?thesis
  proof (cases "program_runner p = FLEETS")
    case True
    obtain p1 cat1 where p1: "persist_function_sizes env p profiles cat = (p1, cat1)" by force
    note names = validate_declared_sizes_names [OF v]
    have k: "cat_kept env p cat p1 cat1" and m: "size_map cat1 (program_id p) = map_of profiles"
      using persist_function_sizes_kept [OF assms(1) names(2,1) p1] by auto
    have "cat_kept env p1 cat1 (p1\<lparr>default_size := size_row cat1 p nm\<rparr>) (save_default (p1\<lparr>default_size := size_row cat1 p nm\<rparr>) cat1)" for nm
      using k by (intro store_default_kept) (auto simp: cat_kept_def size_row_def size_row_is_def find_Some_iff)
    then have "cat_kept env p1 cat1 p' cat' \<and> size_map cat' = size_map cat1" using assms(2) v d' True p1 cat_kept_refl k
      by (auto simp: declare_sizes_def Let_def cat_kept_def split: option.splits)
    then show ?thesis using cat_kept_trans [OF k] m v names(3) by auto
  qed (use assms v d' in \<open>auto simp: declare_sizes_def cat_kept_refl\<close>)
qed

lemma update_sizes_kept:
  assumes "writable env p cat" "update_sizes env data p cat = Inr (p', cat')"
  shows "cat_kept env p cat p' cat'" (is ?kept) and "program_runner p' = FLEETS \<Longrightarrow> size_map cat' (program_id p') \<noteq> Map.empty"
    and "ui_sizes data = Some sizes \<Longrightarrow> program_runner p' = FLEETS \<Longrightarrow>
      \<exists>profiles. validate_declared_sizes cat sizes = Inr profiles \<and> size_map cat' (program_id p') = map_of profiles"
proof -
  have all: "?kept \<and> (program_runner p = FLEETS \<longrightarrow> size_map cat' (program_id p) \<noteq> Map.empty) \<and>
      (\<forall>sizes. ui_sizes data = Some sizes \<longrightarrow> program_runner p = FLEETS \<longrightarrow>
        (\<exists>profiles. validate_declared_sizes cat sizes = Inr profiles \<and> size_map cat' (program_id p) = map_of profiles))"
  proof (cases "ui_sizes data")
    case (Some sizes)
    then have "declare_sizes env sizes (ui_default_size data) p cat = Inr (p', cat')" using assms(2) by (simp add: update_sizes_def)
    from declare_sizes_kept [OF assms(1) this] show ?thesis using Some by auto
  next
    case None
    show ?thesis
    proof (cases "ui_default_size data")
      case d: (Some d)
      from apply_default_size_kept [OF assms(1), of d p' cat'] show ?thesis
        using None d assms(2) function_sizes_Nil [of cat p] by (simp add: update_sizes_def)
    next
      case d: None
      show ?thesis
      proof (cases "program_runner p = FLEETS \<and> function_sizes cat p = []")
        case True
        from seed_default_size_kept [OF assms(1), of p' cat'] show ?thesis using None d True assms(2) by (auto simp: update_sizes_def) (metis map_upd_nonempty)
      next
        case False
        then show ?thesis using None d assms cat_kept_refl function_sizes_Nil [of cat p] by (auto simp: update_sizes_def)
      qed
    qed
  qed
  then show ?kept by simp
  then have "program_id p' = program_id p" "program_runner p' = program_runner p" by (simp_all add: cat_kept_def)
  then show "program_runner p' = FLEETS \<Longrightarrow> size_map cat' (program_id p') \<noteq> Map.empty"
    "ui_sizes data = Some sizes \<Longrightarrow> program_runner p' = FLEETS \<Longrightarrow>
      \<exists>profiles. validate_declared_sizes cat sizes = Inr profiles \<and> size_map cat' (program_id p') = map_of profiles"
    using all by simp_all
qed

lemma updated_function_fields:
  "updated_function env data cat p dt = Inr (p', dt') \<Longrightarrow> program_id p' = program_id p \<and> default_size p' = default_size p"
  by (auto simp: updated_function_def assign_to_program_def Let_def split: sum.splits option.splits if_splits)

lemma assign_to_program_fields: "assign_to_program nm cat p = Inr p' \<Longrightarrow> program_id p' = program_id p \<and> default_size p' = default_size p"
  by (auto simp: assign_to_program_def split: sum.splits option.splits if_splits)

text \<open>The result of an upload beside the tables: an error with nothing written, or one function's part rewritten.\<close>

definition upload_ok :: "upload_env \<Rightarrow> upload_input \<Rightarrow> upload_state \<Rightarrow> program res \<times> upload_state \<Rightarrow> bool" where
  "upload_ok env data s = (\<lambda>(r, s').
     case r of
       Inl e \<Rightarrow> s' = s
     | Inr p \<Rightarrow>
         catalog_wf (us_cat s') \<and> others_same (program_id p) (us_cat s) (us_cat s') \<and>
         program_id p \<in> program_id ` set (cat_programs (us_cat s')) \<and>
         (program_runner p = FLEETS \<longrightarrow>
            function_sizes (us_cat s') p \<noteq> [] \<and>
            (\<forall>sizes. ui_sizes data = Some sizes \<longrightarrow>
               (\<exists>profiles. validate_declared_sizes (us_cat s) sizes = Inr profiles \<and> size_map (us_cat s') (program_id p) = map_of profiles))))"

lemma saved_then_sized:
  assumes "fresh_ids env" "catalog_wf (us_cat s)" "default_fits (us_cat s) p"
    and "update_sizes env data p (save_program p (us_cat s)) = Inr (p', cat')"
  shows "upload_ok env data s (Inr p', \<lparr>us_cat = cat', us_details = ds\<rparr>)"
proof -
  have k0: "cat_kept env p (us_cat s) p (save_program p (us_cat s))" using save_program_kept [OF assms(1-3)] .
  then have "writable env p (save_program p (us_cat s))" by (simp add: cat_kept_def)
  note u = update_sizes_kept [OF this assms(4)]
  have k: "cat_kept env p (us_cat s) p' cat'" using cat_kept_trans [OF k0 u(1)] .
  show ?thesis using k u(2,3) validate_declared_sizes_cong [of "save_program p (us_cat s)" "us_cat s"]
    by (auto simp: upload_ok_def cat_kept_def writable_def function_sizes_Nil)
qed

lemma stored_default_fits:
  assumes "catalog_wf cat" "p \<in> set (cat_programs cat)"
  shows "default_fits cat p"
  unfolding default_fits_def
proof (intro allI impI)
  fix fs r assume d: "default_size p = Some fs" "r \<in> set (cat_sizes cat)" "fs_id r = fs_id fs"
  then have fs: "fs \<in> set (cat_sizes cat)" "fs_function fs = program_id p" using assms unfolding catalog_wf_def by blast+
  have "inj_on fs_id (set (cat_sizes cat))" using assms(1) by (simp add: catalog_wf_def sizes_wf_def distinct_map)
  then have "r = fs" using d(2,3) fs(1) by (auto dest: inj_onD)
  then show "fs_function r = program_id p" using fs(2) by simp
qed

lemma update_function_ok:
  assumes "fresh_ids env" "catalog_wf (us_cat s)" "p \<in> set (cat_programs (us_cat s))"
  shows "upload_ok env data s (update_function env data p s)"
proof -
  have fits: "default_fits (us_cat s) p1" if "updated_function env data (us_cat s) p dt = Inr (p1, dt1)" for dt p1 dt1
  proof (rule default_fits_cong)
    show "default_fits (us_cat s) p" using assms(2,3) by (rule stored_default_fits)
  qed (use updated_function_fields [OF that] in simp_all)
  show ?thesis using saved_then_sized [OF assms(1,2) fits]
    by (auto simp: update_function_def upload_ok_def split: option.splits sum.splits)
qed

text \<open>A new function is sized as an updated one without sizes.\<close>

lemma create_sizes_eq:
  assumes "function_sizes cat p = []" "ui_sizes data = None \<Longrightarrow> ui_default_size data = None"
  shows "create_sizes env data p cat = update_sizes env data p cat"
  using assms by (auto simp: create_sizes_def update_sizes_def split: option.splits)

lemma create_function_ok:
  assumes "fresh_ids env" "catalog_wf (us_cat s)" "ue_program_id env \<notin> program_id ` set (cat_programs (us_cat s))"
  shows "upload_ok env data s (create_function env data u pr s)"
proof -
  have new: "default_fits (us_cat s) p \<and> function_sizes (save_program p (us_cat s)) p = []"
    if "assign_to_program (ue_default_project env) (us_cat s) (new_function env data u pr envt) = Inr p" for p envt
  proof -
    have p: "program_id p = ue_program_id env" "default_size p = None"
      using assign_to_program_fields [OF that] by (simp_all add: new_function_def)
    have "function_sizes (save_program p (us_cat s)) p = []"
      using assms(2,3) p by (force simp: function_sizes_def filter_empty_conv catalog_wf_def sizes_wf_def)
    then show ?thesis using p by (simp add: default_fits_def)
  qed
  show ?thesis
  proof (cases "create_function env data u pr s")
    case (Pair r s')
    show ?thesis
    proof (cases r)
      case (Inl e)
      then show ?thesis using Pair
        by (auto simp: create_function_def upload_ok_def Let_def split: option.splits sum.splits if_splits)
    next
      case (Inr p')
      then have guard: "ui_sizes data = None \<Longrightarrow> ui_default_size data = None"
        using Pair by (auto simp: create_function_def split: if_splits)
      from Inr Pair obtain envt p cat2 ds where
        p: "assign_to_program (ue_default_project env) (us_cat s) (new_function env data u pr envt) = Inr p"
        and step: "create_sizes env data p (save_program p (us_cat s)) = Inr (p', cat2)"
        and s': "s' = \<lparr>us_cat = cat2, us_details = ds\<rparr>"
        unfolding create_function_def Let_def
        by (auto split: if_split_asm sum.split_asm option.split_asm)
      have "update_sizes env data p (save_program p (us_cat s)) = Inr (p', cat2)"
        using step create_sizes_eq [of "save_program p (us_cat s)" p data env] new [OF p] guard by simp
      from saved_then_sized [OF assms(1,2) _ this] new [OF p] show ?thesis unfolding Pair Inr s' by blast
    qed
  qed
qed

text \<open>
  Several declared sizes without a default leave a function that had none without one: such a Fleets function is stored with sizes
  and no default.
\<close>

lemma several_sizes_leave_no_default:
  assumes "validate_declared_sizes cat sizes = Inr profiles" "length profiles \<noteq> 1" "default_size p = None" "program_runner p = FLEETS"
  shows "\<exists>cat'. declare_sizes env sizes None p cat = Inr (p, cat')"
  using assms by (auto simp: declare_sizes_def validate_declared_default_def persist_function_sizes_def Let_def)

text \<open>
  C8: an upload either raises and writes nothing, or leaves a well-formed catalog in which the rows of every other function are as
  they were, the uploaded function is stored, a Fleets function has at least one size, and declared sizes are exactly its catalog.
\<close>

theorem upload_keeps_catalog:
  assumes "fresh_ids env" "catalog_wf (us_cat s)" "ue_program_id env \<notin> program_id ` set (cat_programs (us_cat s))"
  shows "upload_ok env data s (upload_function env u far data s)"
proof -
  have err: "upload_ok env data s (Inl e, s)" for e by (simp add: upload_ok_def)
  have "upload_ok env data s (update_function env data p s)" if "first_by program_id (filter P (cat_programs (us_cat s))) = Some p" for P p
    using update_function_ok [OF assms(1,2)] first_by_mem [OF that] by simp
  then show ?thesis using create_function_ok [OF assms] err
    by (auto simp: upload_function_def Let_def split: option.splits sum.splits bool.splits)
qed

definition ex_upload_env :: upload_env where
  "ex_upload_env = \<lparr>ue_default_project = ''d'', ue_default_profile = ''4x16'', ue_default_size = ''S'', ue_encrypt = (\<lambda>s. s),
     ue_loads_env = (\<lambda>_. Inr []), ue_dumps_env = (\<lambda>_. ''{}''), ue_loads = (\<lambda>_. Inr []), ue_dumps = (\<lambda>_. ''[]''), ue_str = (\<lambda>_. ''1''),
     ue_program_id = 8, ue_size_id = (\<lambda>rows. Suc (sum_list (map fs_id rows)))\<rparr>"

definition ex_upload_catalog :: catalog where
  "ex_upload_catalog = ex_catalog\<lparr>
     cat_profiles := [\<lparr>profile_id = ''4x16'', profile_name = ''small'', cpu = ''4'', gpu = None, memory = ''16''\<rparr>],
     cat_projects := [\<lparr>cep_id = 1, project_id = ''i'', project_name = ''d'', cep_region = ''r'', cos_bucket_task_store_name = None,
       cos_bucket_user_data_name = None, cos_bucket_provider_data_name = None, cep_active = True, cep_dedicated = False\<rparr>]\<rparr>"

definition ex_upload_input :: upload_input where
  "ex_upload_input = \<lparr>ui_title = ''g'', ui_provider = None, ui_entrypoint = Some ''main.py'', ui_artifact = None, ui_image = None,
     ui_env_vars = None, ui_dependencies = None, ui_runner = None, ui_description = None, ui_version = None, ui_type = None,
     ui_arguments_schema = None, ui_sizes = Some (JObj [('' m '', JStr ''4x16'')]), ui_default_size = Some ''M''\<rparr>"

theorem upload_keeps_catalog_witness:
  "\<exists>p s'. upload_function ex_upload_env ex_user (ex_access\<lparr>use_legacy_authorization := True\<rparr>) ex_upload_input
       \<lparr>us_cat = ex_upload_catalog, us_details = []\<rparr> = (Inr p, s') \<and> catalog_wf (us_cat s') \<and> size_map (us_cat s') (program_id p) ''M'' \<noteq> None"
proof -
  let ?far = "ex_access\<lparr>use_legacy_authorization := True\<rparr>" and ?s = "\<lparr>us_cat = ex_upload_catalog, us_details = []\<rparr>"
  have "fresh_ids ex_upload_env"
  proof -
    have "fs_id fs \<le> sum_list (map fs_id rows)" if "fs \<in> set rows" for fs :: function_size and rows using that by (simp add: member_le_sum_list)
    then have "Suc (sum_list (map fs_id rows)) \<notin> fs_id ` set rows" for rows :: "function_size list" by force
    moreover have "upper (ue_default_size ex_upload_env) = ue_default_size ex_upload_env" by code_simp
    ultimately show ?thesis by (simp add: fresh_ids_def ex_upload_env_def)
  qed
  moreover have "catalog_wf ex_upload_catalog" "ue_program_id ex_upload_env \<notin> program_id ` set (cat_programs ex_upload_catalog)"
    by (simp_all add: catalog_wf_def sizes_wf_def ex_upload_catalog_def ex_catalog_def ex_function_def ex_upload_env_def)
  ultimately have ok: "upload_ok ex_upload_env ex_upload_input ?s (upload_function ex_upload_env ex_user ?far ex_upload_input ?s)"
    by (intro upload_keeps_catalog) simp_all
  have r: "case fst (upload_function ex_upload_env ex_user ?far ex_upload_input ?s) of Inl _ \<Rightarrow> False | Inr p \<Rightarrow> program_runner p = FLEETS"
    by code_simp
  have v: "validate_declared_sizes ex_upload_catalog (JObj [('' m '', JStr ''4x16'')]) = Inr [(''M'', hd (cat_profiles ex_upload_catalog))]"
    by code_simp
  show ?thesis using ok r v by (cases "upload_function ex_upload_env ex_user ?far ex_upload_input ?s")
    (auto simp: upload_ok_def ex_upload_input_def split: sum.splits)
qed

end
