(* ===== verification/Fleet_Config.thy ===== *)
theory Fleet_Config
  imports Storage_Paths Models "HOL-Library.AList"
begin

text \<open>
  What a Fleets job is submitted with: its compute profile (\<^verbatim>\<open>core/domain/compute_profile.py\<close>, \<open>_canonical_compute_profile\<close> of
  \<^verbatim>\<open>main/settings.py\<close>), the name of its fleet and the task states of its store (\<^verbatim>\<open>core/services/runners/fleets_runner.py\<close>,
  \<^verbatim>\<open>fleets/cos.py\<close>), and the paths, mounts and variables of its container (\<^verbatim>\<open>fleets/utils.py\<close>). Texts are ASCII.
\<close>

section \<open>Compute profiles\<close>

abbreviation newline :: char where
  "newline \<equiv> CHR 0x0A"

text \<open>\<open>$\<close> of a regular expression also matches before a newline that ends the text.\<close>

definition chop_newline :: "string \<Rightarrow> string" where
  "chop_newline s = (if s \<noteq> [] \<and> last s = newline then butlast s else s)"

definition lower_alnum :: "char \<Rightarrow> bool" where
  "lower_alnum c \<longleftrightarrow> is_lower_letter c \<or> is_digit c"

text \<open>The classes of the expression hold no hyphen, so the first hyphen ends the prefix.\<close>

definition prefix_match :: "string \<Rightarrow> string option" where
  "prefix_match s =
     (let p = takeWhile (\<lambda>c. c \<noteq> CHR ''-'') s; r = dropWhile (\<lambda>c. c \<noteq> CHR ''-'') s; g = chop_newline (tl r) in
      if r \<noteq> [] \<and> p \<noteq> [] \<and> is_lower_letter (hd p) \<and> list_all lower_alnum p \<and> list_ex is_digit p \<and> g \<noteq> [] \<and> newline \<notin> set g
      then Some g else None)"

text \<open>Digits, an \<open>x\<close>, digits, and what follows; the classes before an \<open>x\<close> do not hold it.\<close>

definition split_resource :: "string \<Rightarrow> (string \<times> string \<times> string) option" where
  "split_resource s =
     (let c = takeWhile is_digit s; r = dropWhile is_digit s; m = takeWhile is_digit (tl r); t = dropWhile is_digit (tl r) in
      if c \<noteq> [] \<and> r \<noteq> [] \<and> hd r = CHR ''x'' \<and> m \<noteq> [] then Some (c, m, t) else None)"

definition resource_match :: "string \<Rightarrow> bool" where
  "resource_match s =
     (case split_resource (chop_newline s) of
        None \<Rightarrow> False
      | Some (c, m, t) \<Rightarrow> t = [] \<or>
          hd t = CHR ''x'' \<and> tl t \<noteq> [] \<and> is_digit (hd (tl t)) \<and> tl (tl t) \<noteq> [] \<and> list_all lower_alnum (tl t))"

definition normalize_profile :: "string option \<Rightarrow> string option" where
  "normalize_profile v =
     (if \<not> truthy v then None else (case prefix_match (the v) of Some g \<Rightarrow> Some g | None \<Rightarrow> v))"

definition is_valid :: "string \<Rightarrow> bool" where
  "is_valid s \<longleftrightarrow> s \<noteq> [] \<and> resource_match (case prefix_match s of Some g \<Rightarrow> g | None \<Rightarrow> s)"

definition canonical_compute_profile :: "string \<Rightarrow> string res" where
  "canonical_compute_profile s =
     (case normalize_profile (Some s) of
        None \<Rightarrow> Inl (OtherException ''ImproperlyConfigured'')
      | Some n \<Rightarrow> if is_valid n then Inr n else Inl (OtherException ''ImproperlyConfigured''))"

text \<open>The expression of the runner: a GPU has a count and a model that begins with a letter.\<close>

definition word_char :: "char \<Rightarrow> bool" where
  "word_char c \<longleftrightarrow> is_alnum c \<or> c = CHR ''_''"

definition gpu_match :: "string \<Rightarrow> (string \<times> string) option" where
  "gpu_match s =
     (let n = takeWhile is_digit s; m = dropWhile is_digit s in
      if n \<noteq> [] \<and> m \<noteq> [] \<and> is_lower_letter (hd m) \<and> list_all word_char m then Some (n, m) else None)"

definition parse_resources :: "string \<Rightarrow> (string \<times> string \<times> (string \<times> string) option) option" where
  "parse_resources s =
     (case split_resource (chop_newline s) of
        None \<Rightarrow> None
      | Some (c, m, t) \<Rightarrow>
          if t = [] then Some (c, m @ ''G'', None)
          else if hd t = CHR ''x'' then map_option (\<lambda>(n, f). (c, m @ ''G'', Some (f, n))) (gpu_match (tl t))
          else None)"

definition parse_compute_profile :: "string \<Rightarrow> string option \<Rightarrow> (string \<times> string \<times> (string \<times> string) option) res" where
  "parse_compute_profile default_profile profile_of_job =
     (let profile = (if truthy profile_of_job then the profile_of_job else default_profile) in
      case normalize_profile (Some profile) of
        None \<Rightarrow> Inl (OtherException ''TypeError'')
      | Some resources \<Rightarrow>
          (case parse_resources resources of
             Some p \<Rightarrow> Inr p
           | None \<Rightarrow> Inl (RunnerError (''Could not parse compute_profile ['' @ profile @ '']''))))"

section \<open>Fleet names\<close>

definition FLEET_NAME_SEGMENT_MAX :: nat where
  "FLEET_NAME_SEGMENT_MAX = 12"

text \<open>\<open>re.sub("[^...]+", "-", s)\<close> and \<open>strip("-")\<close>.\<close>

function hyphenate :: "(char \<Rightarrow> bool) \<Rightarrow> string \<Rightarrow> string" where
  "hyphenate ok [] = []"
| "hyphenate ok (c # cs) =
     (if ok c then c # hyphenate ok cs else CHR ''-'' # hyphenate ok (dropWhile (\<lambda>x. \<not> ok x) cs))"
  by pat_completeness auto

termination hyphenate
  by (relation "measure (length \<circ> snd)") (auto simp: le_imp_less_Suc length_dropWhile_le)

definition strip_hyphens :: "string \<Rightarrow> string" where
  "strip_hyphens s = rev (dropWhile (\<lambda>c. c = CHR ''-'') (rev (dropWhile (\<lambda>c. c = CHR ''-'') s)))"

definition fleet_name_segment :: "string \<Rightarrow> string" where
  "fleet_name_segment s =
     (let slug = strip_hyphens (hyphenate lower_alnum (lower s)); r = strip_hyphens (take FLEET_NAME_SEGMENT_MAX slug)
      in if r = [] then ''unknown'' else r)"

definition build_fleet_name :: "string option \<Rightarrow> string \<Rightarrow> string \<Rightarrow> string" where
  "build_fleet_name prov function_title jid =
     fleet_name_segment (case prov of None \<Rightarrow> ''custom'' | Some p \<Rightarrow> p) @ ''-'' @ fleet_name_segment function_title @ ''-'' @ jid"

section \<open>Task states\<close>

definition TASK_STORE_VERSIONS :: "string list" where
  "TASK_STORE_VERSIONS = [''v3'', ''v2'']"

definition queue_prefix :: "string \<Rightarrow> string \<Rightarrow> string \<Rightarrow> string" where
  "queue_prefix project fleet vers = ''ce/'' @ project @ ''/'' @ fleet @ ''/'' @ vers @ ''/queue/''"

definition task_state_from_key :: "string \<Rightarrow> string \<Rightarrow> string option" where
  "task_state_from_key p key =
     (if prefix p key
      then let s = lower (strip (takeWhile (\<lambda>c. c \<noteq> CHR ''/'') (drop (length p) key))) in if s = [] then None else Some s
      else None)"

definition STATE_TO_JOB_STATUS :: "(string \<times> Status) list" where
  "STATE_TO_JOB_STATUS = [(''succeeded'', SUCCEEDED), (''failed'', FAILED), (''canceled'', STOPPED), (''running'', RUNNING), (''pending'', PENDING)]"

definition found_states :: "string \<Rightarrow> string list \<Rightarrow> string list" where
  "found_states p keys = List.map_filter (task_state_from_key p) keys"

definition status_of_keys :: "string \<Rightarrow> string list \<Rightarrow> Status option" where
  "status_of_keys p keys = map_option snd (find (\<lambda>(s, _). s \<in> set (found_states p keys)) STATE_TO_JOB_STATUS)"

section \<open>Paths\<close>

definition FUNCTION_USER_DATA_PATH :: string where
  "FUNCTION_USER_DATA_PATH = ''/function_user_data''"

definition JOB_USER_DATA_PATH :: string where
  "JOB_USER_DATA_PATH = ''/job_user_data''"

definition FUNCTION_PROVIDER_DATA_PATH :: string where
  "FUNCTION_PROVIDER_DATA_PATH = ''/function_provider_data''"

definition JOB_PROVIDER_DATA_PATH :: string where
  "JOB_PROVIDER_DATA_PATH = ''/job_provider_data''"

definition CUSTOM_JOB_WRAPPER_NAME :: string where
  "CUSTOM_JOB_WRAPPER_NAME = ''fleet_custom_job_wrapper.py''"

definition PROVIDER_JOB_WRAPPER_NAME :: string where
  "PROVIDER_JOB_WRAPPER_NAME = ''fleet_provider_job_wrapper.py''"

record FleetJobPaths =
  cos_user_function_prefix :: string
  cos_user_job_prefix :: string
  cos_provider_function_prefix :: "string option"
  cos_provider_job_prefix :: "string option"
  cos_user_log_key :: string
  cos_results_key :: string
  cos_provider_log_key :: "string option"
  cos_function_entrypoint :: string
  cos_docker_entrypoint :: string
  container_function_entrypoint :: string
  container_docker_entrypoint :: string
  container_public_log_path :: string
  container_private_log_path :: "string option"
  container_arguments_path :: string
  container_result_path :: string

text \<open>The entrypoint of the program is an argument: it is a column the other components do not read.\<close>

definition build_custom_job_paths :: "string \<Rightarrow> program \<Rightarrow> job \<Rightarrow> FleetJobPaths" where
  "build_custom_job_paths entrypoint p j =
     (let base = ''users/'' @ username (author j) @ ''/custom_functions/'' @ title p;
          data = base @ ''/data''; jobs = base @ ''/jobs/'' @ job_id j
      in \<lparr>cos_user_function_prefix = data, cos_user_job_prefix = jobs, cos_provider_function_prefix = None, cos_provider_job_prefix = None,
          cos_user_log_key = jobs @ ''/logs.log'', cos_results_key = jobs @ ''/results.json'', cos_provider_log_key = None,
          cos_function_entrypoint = data @ ''/'' @ entrypoint, cos_docker_entrypoint = data @ ''/'' @ CUSTOM_JOB_WRAPPER_NAME,
          container_function_entrypoint = FUNCTION_USER_DATA_PATH @ ''/'' @ entrypoint,
          container_docker_entrypoint = FUNCTION_USER_DATA_PATH @ ''/'' @ CUSTOM_JOB_WRAPPER_NAME,
          container_public_log_path = JOB_USER_DATA_PATH @ ''/logs.log'', container_private_log_path = None,
          container_arguments_path = JOB_USER_DATA_PATH @ ''/arguments.json'', container_result_path = JOB_USER_DATA_PATH @ ''/results.json''\<rparr>)"

definition build_provider_job_paths :: "string \<Rightarrow> program \<Rightarrow> provider \<Rightarrow> job \<Rightarrow> FleetJobPaths" where
  "build_provider_job_paths entrypoint p pr j =
     (let base = ''users/'' @ username (author j) @ ''/provider_functions/'' @ provider_name pr @ ''/'' @ title p;
          data = base @ ''/data''; jobs = base @ ''/jobs/'' @ job_id j;
          pbase = ''providers/'' @ provider_name pr @ ''/'' @ title p;
          pdata = pbase @ ''/data''; pjobs = pbase @ ''/jobs/'' @ job_id j
      in \<lparr>cos_user_function_prefix = data, cos_user_job_prefix = jobs, cos_provider_function_prefix = Some pdata, cos_provider_job_prefix = Some pjobs,
          cos_user_log_key = jobs @ ''/logs.log'', cos_results_key = jobs @ ''/results.json'', cos_provider_log_key = Some (pjobs @ ''/logs.log''),
          cos_function_entrypoint = pdata @ ''/'' @ entrypoint, cos_docker_entrypoint = pdata @ ''/'' @ PROVIDER_JOB_WRAPPER_NAME,
          container_function_entrypoint = FUNCTION_PROVIDER_DATA_PATH @ ''/'' @ entrypoint,
          container_docker_entrypoint = FUNCTION_PROVIDER_DATA_PATH @ ''/'' @ PROVIDER_JOB_WRAPPER_NAME,
          container_public_log_path = JOB_USER_DATA_PATH @ ''/logs.log'', container_private_log_path = Some (JOB_PROVIDER_DATA_PATH @ ''/logs.log''),
          container_arguments_path = JOB_USER_DATA_PATH @ ''/arguments.json'', container_result_path = JOB_USER_DATA_PATH @ ''/results.json''\<rparr>)"

definition build_job_paths :: "string \<Rightarrow> job \<Rightarrow> FleetJobPaths res" where
  "build_job_paths entrypoint j =
     (case job_program j of
        None \<Rightarrow> Inl (AttributeError ''provider'')
      | Some p \<Rightarrow> (case program_provider p of Some pr \<Rightarrow> Inr (build_provider_job_paths entrypoint p pr j) | None \<Rightarrow> Inr (build_custom_job_paths entrypoint p j)))"

definition arguments_key :: "FleetJobPaths \<Rightarrow> string" where
  "arguments_key paths = cos_user_job_prefix paths @ ''/'' @ ''arguments.json''"

section \<open>Mounts and variables\<close>

record volume_mount =
  mount_path :: string
  reference :: string
  mount_sub_path :: "string option"

fun volume_mounts :: "(string \<times> string \<times> string option) list \<Rightarrow> volume_mount list res" where
  "volume_mounts [] = Inr []"
| "volume_mounts ((path, r, sub) # ms) =
     (if path = [] then Inl (ValueError ''mount_path is required.'')
      else if r = [] then Inl (ValueError ''reference is required.'')
      else map_sum id (\<lambda>vs. \<lparr>mount_path = path, reference = r, mount_sub_path = (if truthy sub then sub else None)\<rparr> # vs) (volume_mounts ms))"

definition build_run_volume_mounts :: "(string \<times> string \<times> string option) list \<Rightarrow> volume_mount list res" where
  "build_run_volume_mounts ms = (if ms = [] then Inl (ValueError ''mounts is required.'') else volume_mounts ms)"

record fleet_stores =
  pds_name_state :: string
  pds_name_users :: string
  pds_name_providers :: string
  subnet_pool_id :: string
  cos_instance_name :: "string option"
  cos_key_name :: "string option"

definition build_run_volume_mounts_for_job :: "FleetJobPaths \<Rightarrow> fleet_stores \<Rightarrow> volume_mount list res" where
  "build_run_volume_mounts_for_job paths project =
     build_run_volume_mounts
       ([(FUNCTION_USER_DATA_PATH, pds_name_users project, Some (cos_user_function_prefix paths)),
         (JOB_USER_DATA_PATH, pds_name_users project, Some (cos_user_job_prefix paths))] @
        (if truthy (cos_provider_function_prefix paths)
         then [(FUNCTION_PROVIDER_DATA_PATH, pds_name_providers project, cos_provider_function_prefix paths),
               (JOB_PROVIDER_DATA_PATH, pds_name_providers project, cos_provider_job_prefix paths)]
         else []))"

record fleet_settings =
  FLEETS_GATEWAY_HOST :: "string option"
  FLEETS_RUNTIME_IAM_URL :: string
  FLEETS_RUNTIME_GLOBAL_SEARCH_URL :: string
  FLEETS_RUNTIME_GLOBAL_CATALOG_URL :: string
  FLEETS_RUNTIME_EXPERIMENTAL :: bool
  FLEETS_LOG_FLUSH_INTERVAL_SECONDS :: string
  FUNCTIONS_LOGS_SIZE_LIMIT :: string
  QISKIT_SETTINGS_CONTAINER_PATH :: string

text \<open>What the system sets, in order; what it sets conditionally is set when its value is not empty.\<close>

definition given :: "string option \<Rightarrow> string option" where
  "given v = (if truthy v then v else None)"

definition system_vars :: "fleet_settings \<Rightarrow> FleetJobPaths \<Rightarrow> string option \<Rightarrow> (string \<times> string) list" where
  "system_vars st paths identifier =
     List.map_filter (\<lambda>(k, v). map_option (Pair k) v)
       [(''ENV_JOB_GATEWAY_HOST'', given (FLEETS_GATEWAY_HOST st)),
        (''IAM_URL'', given (Some (FLEETS_RUNTIME_IAM_URL st))),
        (''GLOBAL_SEARCH_URL'', given (Some (FLEETS_RUNTIME_GLOBAL_SEARCH_URL st))),
        (''GLOBAL_CATALOG_URL'', given (Some (FLEETS_RUNTIME_GLOBAL_CATALOG_URL st))),
        (''QISKIT_FUNCTIONS_EXPERIMENTAL'', if FLEETS_RUNTIME_EXPERIMENTAL st then Some ''true'' else None),
        (''PUBLIC_LOG_PATH'', Some (container_public_log_path paths)),
        (''ARGUMENTS_PATH'', Some (container_arguments_path paths)),
        (''RESULTS_PATH'', Some (container_result_path paths)),
        (''LOG_FLUSH_INTERVAL_SECONDS'', Some (FLEETS_LOG_FLUSH_INTERVAL_SECONDS st)),
        (''LOG_SIZE_LIMIT_BYTES'', Some (FUNCTIONS_LOGS_SIZE_LIMIT st)),
        (''QISKIT_IBM_PRIVATE_ENDPOINT'', Some ''true''),
        (''QISKIT_SETTINGS'', Some (QISKIT_SETTINGS_CONTAINER_PATH st)),
        (''QISKIT_FUNCTIONS_IDENTIFIER'', given identifier),
        (''PRIVATE_LOG_PATH'', container_private_log_path paths)]"

definition build_run_env_variables ::
  "fleet_settings \<Rightarrow> FleetJobPaths \<Rightarrow> (string \<times> string option) list \<Rightarrow> string option \<Rightarrow> (string \<times> string) list" where
  "build_run_env_variables st paths stored identifier =
     (let env = fold (\<lambda>(k, v). AList.update k (Some v)) (system_vars st paths identifier) (AList.delete ''ENV_JOB_ARGUMENTS'' stored)
      in map (\<lambda>(k, v). (k, the v)) (filter (\<lambda>(k, v). truthy v) env))"

section \<open>Accepted profiles\<close>

lemma digit_not [simp]: "is_digit c \<Longrightarrow> \<not> is_lower_letter c" "\<not> is_digit (CHR ''x'')" "\<not> is_digit (CHR ''-'')" "\<not> is_digit newline"
    "\<not> lower_alnum (CHR ''-'')" "\<not> lower_alnum newline" "lower_alnum (CHR ''x'')"
  by (auto simp: is_digit_def is_lower_letter_def lower_alnum_def Let_def)

lemma lower_alnum_word: "lower_alnum c \<Longrightarrow> word_char c"
  by (auto simp: lower_alnum_def word_char_def is_alnum_def)

lemma split_resource_Some:
  "split_resource s = Some (c, m, t) \<longleftrightarrow>
     s = c @ CHR ''x'' # m @ t \<and> c \<noteq> [] \<and> m \<noteq> [] \<and> list_all is_digit c \<and> list_all is_digit m \<and> (t = [] \<or> \<not> is_digit (hd t))"
proof
  assume "split_resource s = Some (c, m, t)"
  then have "c = takeWhile is_digit s" "m = takeWhile is_digit (tl (dropWhile is_digit s))" "t = dropWhile is_digit (tl (dropWhile is_digit s))"
    "c \<noteq> []" "m \<noteq> []" "dropWhile is_digit s \<noteq> []" "hd (dropWhile is_digit s) = CHR ''x''"
    by (auto simp: split_resource_def Let_def split: if_splits)
  note h = this
  have r: "CHR ''x'' # tl (dropWhile is_digit s) = dropWhile is_digit s" using list.collapse [OF h(6)] unfolding h(7) .
  have "s = c @ CHR ''x'' # tl (dropWhile is_digit s)" unfolding r h(1) by simp
  moreover have "tl (dropWhile is_digit s) = m @ t" using h(2,3) by simp
  moreover have "list_all is_digit c" "list_all is_digit m" unfolding h(1,2) by (auto simp: list_all_iff dest: set_takeWhileD)
  moreover have "t = [] \<or> \<not> is_digit (hd t)" using h(3) hd_dropWhile by blast
  ultimately show "s = c @ CHR ''x'' # m @ t \<and> c \<noteq> [] \<and> m \<noteq> [] \<and> list_all is_digit c \<and> list_all is_digit m \<and> (t = [] \<or> \<not> is_digit (hd t))"
    using h(4,5) by simp
next
  assume h: "s = c @ CHR ''x'' # m @ t \<and> c \<noteq> [] \<and> m \<noteq> [] \<and> list_all is_digit c \<and> list_all is_digit m \<and> (t = [] \<or> \<not> is_digit (hd t))"
  then have "takeWhile is_digit s = c" "dropWhile is_digit s = CHR ''x'' # m @ t"
    by (auto simp: list_all_iff takeWhile_append dropWhile_append)
  moreover have "takeWhile is_digit (m @ t) = m" "dropWhile is_digit (m @ t) = t"
    using h by (cases t; auto simp: list_all_iff takeWhile_append dropWhile_append)+
  ultimately show "split_resource s = Some (c, m, t)" using h by (simp add: split_resource_def)
qed

lemma chop_newline_cases: "s = chop_newline s \<or> s = chop_newline s @ [newline]"
  by (simp add: chop_newline_def) (metis append_butlast_last_id)

lemma resource_no_hyphen: "resource_match s \<Longrightarrow> CHR ''-'' \<notin> set s \<and> s \<noteq> []"
proof -
  assume "resource_match s"
  then obtain c m t where s: "split_resource (chop_newline s) = Some (c, m, t)" "t = [] \<or> hd t = CHR ''x'' \<and> list_all lower_alnum (tl t)"
    by (auto simp: resource_match_def split: option.splits)
  have "CHR ''-'' \<notin> set c" "CHR ''-'' \<notin> set m" "CHR ''-'' \<notin> set t"
    using s by (auto simp: split_resource_Some list_all_iff) (cases t; auto)+
  then have "CHR ''-'' \<notin> set (chop_newline s)" "chop_newline s \<noteq> []" using s(1) by (auto simp: split_resource_Some)
  note chopped = this
  from chop_newline_cases [of s] show ?thesis
  proof
    assume "s = chop_newline s @ [newline]"
    moreover have "CHR ''-'' \<notin> set (chop_newline s @ [newline])" using chopped(1) by simp
    ultimately show ?thesis by (metis append_is_Nil_conv not_Cons_self2)
  next
    assume "s = chop_newline s"
    then show ?thesis using chopped by metis
  qed
qed

lemma no_hyphen_no_prefix: "CHR ''-'' \<notin> set s \<Longrightarrow> prefix_match s = None"
  by (auto simp: prefix_match_def Let_def)

lemma gpu_match_iff:
  assumes "t \<noteq> []" "is_digit (hd t)" "list_all lower_alnum t"
  shows "gpu_match t = None \<longleftrightarrow> list_all is_digit t"
proof -
  have n: "takeWhile is_digit t \<noteq> []" using assms(1,2) by (cases t) auto
  have w: "list_all word_char (dropWhile is_digit t)" using assms(3) by (auto simp: list_all_iff lower_alnum_word dest: set_dropWhileD)
  have l: "is_lower_letter (hd (dropWhile is_digit t))" if "dropWhile is_digit t \<noteq> []"
  proof -
    have "hd (dropWhile is_digit t) \<in> set t" using hd_in_set [OF that] by (rule set_dropWhileD)
    then have "lower_alnum (hd (dropWhile is_digit t))" using assms(3) by (auto simp: list_all_iff)
    then show ?thesis using hd_dropWhile [OF that] by (simp add: lower_alnum_def)
  qed
  show ?thesis using n w l by (auto simp: gpu_match_def Let_def list_all_iff dropWhile_eq_Nil_conv)
qed

text \<open>
  An accepted compute profile is stored in its bare form: without a prefix, accepted again, and unchanged when it is normalised
  again. The runner reads its number of CPUs and its memory back, and its GPU when it has one, unless its GPU part is a number without a
  model, which is the only kind of accepted profile the runner refuses.
\<close>

theorem accepted_profile_is_bare:
  assumes "is_valid s"
  shows "\<exists>r. normalize_profile (Some s) = Some r \<and> CHR ''-'' \<notin> set r \<and> is_valid r \<and> normalize_profile (Some r) = Some r \<and>
    (parse_resources r = None \<longleftrightarrow>
       (\<exists>c m n. chop_newline r = c @ CHR ''x'' # m @ CHR ''x'' # n \<and> list_all is_digit (c @ m @ n) \<and> c \<noteq> [] \<and> m \<noteq> [] \<and> 2 \<le> length n))"
proof -
  define r where "r = (case prefix_match s of Some g \<Rightarrow> g | None \<Rightarrow> s)"
  have rm: "resource_match r" and s: "s \<noteq> []" using assms by (simp_all add: is_valid_def r_def)
  note nh = resource_no_hyphen [OF rm]
  then have np: "prefix_match r = None" using no_hyphen_no_prefix by simp
  obtain c m t where t: "split_resource (chop_newline r) = Some (c, m, t)"
    and tt: "t = [] \<or> hd t = CHR ''x'' \<and> tl t \<noteq> [] \<and> is_digit (hd (tl t)) \<and> tl (tl t) \<noteq> [] \<and> list_all lower_alnum (tl t)"
    using rm by (auto simp: resource_match_def split: option.splits)
  have none: "parse_resources r = None \<longleftrightarrow> t \<noteq> [] \<and> list_all is_digit (tl t)"
    using tt t gpu_match_iff [of "tl t"] by (auto simp: parse_resources_def)
  have "t \<noteq> [] \<and> list_all is_digit (tl t) \<longleftrightarrow>
    (\<exists>c m n. chop_newline r = c @ CHR ''x'' # m @ CHR ''x'' # n \<and> list_all is_digit (c @ m @ n) \<and> c \<noteq> [] \<and> m \<noteq> [] \<and> 2 \<le> length n)"
  proof
    assume d: "t \<noteq> [] \<and> list_all is_digit (tl t)"
    then have "t = CHR ''x'' # tl t" "2 \<le> length (tl t)" using tt by (cases t; auto simp: Suc_le_eq neq_Nil_conv)+
    then show "\<exists>c m n. chop_newline r = c @ CHR ''x'' # m @ CHR ''x'' # n \<and> list_all is_digit (c @ m @ n) \<and> c \<noteq> [] \<and> m \<noteq> [] \<and> 2 \<le> length n"
      using t d by (intro exI [of _ c] exI [of _ m] exI [of _ "tl t"]) (simp add: split_resource_Some)
  next
    assume "\<exists>c m n. chop_newline r = c @ CHR ''x'' # m @ CHR ''x'' # n \<and> list_all is_digit (c @ m @ n) \<and> c \<noteq> [] \<and> m \<noteq> [] \<and> 2 \<le> length n"
    then obtain c' m' n where "split_resource (chop_newline r) = Some (c', m', CHR ''x'' # n)" "list_all is_digit n"
      unfolding split_resource_Some by force
    then show "t \<noteq> [] \<and> list_all is_digit (tl t)" using t by simp
  qed
  moreover have "normalize_profile (Some s) = Some r" using s by (simp add: normalize_profile_def r_def split: option.splits)
  moreover have "normalize_profile (Some r) = Some r" "is_valid r" using np nh rm by (simp_all add: normalize_profile_def is_valid_def)
  ultimately show ?thesis unfolding none [symmetric] using nh by (intro exI [of _ r]) simp
qed

theorem accepted_profile_is_bare_witness:
  "is_valid ''gx3d-24x120x1a100p'' \<and> normalize_profile (Some ''gx3d-24x120x1a100p'') = Some ''24x120x1a100p'' \<and> is_valid ''24x120x1a100p'' \<and>
   parse_resources ''24x120x1a100p'' = Some (''24'', ''120G'', Some (''a100p'', ''1''))"
proof -
  have v: "is_valid ''gx3d-24x120x1a100p''" "normalize_profile (Some ''gx3d-24x120x1a100p'') = Some ''24x120x1a100p''"
    "parse_resources ''24x120x1a100p'' = Some (''24'', ''120G'', Some (''a100p'', ''1''))" by code_simp+
  from accepted_profile_is_bare [OF v(1)] v(2) have "is_valid ''24x120x1a100p''" by auto
  then show ?thesis using v by simp
qed

text \<open>A number for a GPU model is accepted and then refused by the runner; and stripping one of two prefixes leaves the other, which the
  check of the settings takes for a profile.\<close>

lemma number_for_a_model: "is_valid ''24x120x12'' \<and> isl (parse_compute_profile ''16x128'' (Some ''24x120x12''))"
  by code_simp

lemma two_prefixes:
  "normalize_profile (Some ''a1-b2-24x120'') = Some ''b2-24x120'' \<and> normalize_profile (Some ''b2-24x120'') = Some ''24x120'' \<and>
   canonical_compute_profile ''a1-b2-24x120'' = Inr ''b2-24x120''"
  by code_simp

section \<open>Accepted names\<close>

abbreviation fleet_char :: "char \<Rightarrow> bool" where
  "fleet_char c \<equiv> lower_alnum c \<or> c = CHR ''-''"

lemma hyphenate_set: "c \<in> set (hyphenate ok s) \<Longrightarrow> ok c \<or> c = CHR ''-''"
  by (induction ok s rule: hyphenate.induct) (auto split: if_splits)

lemma strip_hyphens_set: "set (strip_hyphens s) \<subseteq> set s"
proof -
  have d: "set (dropWhile P xs) \<subseteq> set xs" for P and xs :: string by (meson set_dropWhileD subsetI)
  show ?thesis using d [of _ s] d [of "\<lambda>c. c = CHR ''-''" "rev (dropWhile (\<lambda>c. c = CHR ''-'') s)"] by (auto simp: strip_hyphens_def)
qed

lemma strip_hyphens_ends:
  assumes "strip_hyphens s \<noteq> []"
  shows "hd (strip_hyphens s) \<noteq> CHR ''-''" "last (strip_hyphens s) \<noteq> CHR ''-''" "length (strip_hyphens s) \<le> length s"
proof -
  let ?a = "dropWhile (\<lambda>c. c = CHR ''-'') s"
  let ?b = "dropWhile (\<lambda>c. c = CHR ''-'') (rev ?a)"
  have "?b \<noteq> []" using assms unfolding strip_hyphens_def rev_is_Nil_conv .
  moreover from this have "?a \<noteq> []" by (metis dropWhile.simps(1) rev.simps(1))
  ultimately have ne: "?b \<noteq> []" "?a \<noteq> []" .
  show "last (strip_hyphens s) \<noteq> CHR ''-''" using hd_dropWhile [OF ne(1)] ne(1) by (simp add: strip_hyphens_def last_rev)
  have "rev ?a = takeWhile (\<lambda>c. c = CHR ''-'') (rev ?a) @ ?b" by (rule takeWhile_dropWhile_id [symmetric])
  then obtain u where "rev ?a = u @ ?b" by blast
  then have "?a = rev ?b @ rev u" by (metis rev_append rev_rev_ident)
  then have "hd (rev ?b) = hd ?a" using ne(1) by (metis hd_append2 rev_is_Nil_conv)
  then show "hd (strip_hyphens s) \<noteq> CHR ''-''" using hd_dropWhile [OF ne(2)] by (simp add: strip_hyphens_def)
  show "length (strip_hyphens s) \<le> length s"
    unfolding strip_hyphens_def by (simp add: le_trans [OF length_dropWhile_le] length_dropWhile_le)
qed

lemma segment_facts:
  "fleet_name_segment s \<noteq> []" "length (fleet_name_segment s) \<le> 12" "list_all fleet_char (fleet_name_segment s)"
  "hd (fleet_name_segment s) \<noteq> CHR ''-''" "last (fleet_name_segment s) \<noteq> CHR ''-''"
proof -
  let ?slug = "strip_hyphens (hyphenate lower_alnum (lower s))"
  let ?r = "strip_hyphens (take FLEET_NAME_SEGMENT_MAX ?slug)"
  have "set ?r \<subseteq> set (hyphenate lower_alnum (lower s))"
    using strip_hyphens_set by (metis order_trans set_take_subset)
  then have r: "list_all fleet_char ?r" using hyphenate_set [of _ lower_alnum] by (auto simp: list_all_iff)
  have seg: "fleet_name_segment s = (if ?r = [] then ''unknown'' else ?r)" by (simp add: fleet_name_segment_def Let_def)
  have u: "list_all fleet_char ''unknown''" "length ''unknown'' \<le> 12" "hd ''unknown'' \<noteq> CHR ''-''" "last ''unknown'' \<noteq> CHR ''-''" by code_simp+
  show "fleet_name_segment s \<noteq> []" unfolding seg by simp
  show "list_all fleet_char (fleet_name_segment s)" unfolding seg using r u(1) by simp
  have "length ?r \<le> 12" if "?r \<noteq> []" using strip_hyphens_ends(3) [OF that] by (simp add: FLEET_NAME_SEGMENT_MAX_def)
  then show "length (fleet_name_segment s) \<le> 12" unfolding seg using u(2) by (cases "?r = []") simp_all
  show "hd (fleet_name_segment s) \<noteq> CHR ''-''" unfolding seg using strip_hyphens_ends(1) u(3) by (cases "?r = []") simp_all
  show "last (fleet_name_segment s) \<noteq> CHR ''-''" unfolding seg using strip_hyphens_ends(2) u(4) by (cases "?r = []") simp_all
qed

text \<open>
  C24: The name of a fleet is always one Code Engine takes. It holds only lower case letters, digits and hyphens, does not begin or end with
  a hyphen, and is at most 62 characters long for the 36 characters of a job identifier, whatever the provider and the function are called;
  and two jobs never share a name.
\<close>

theorem fleet_name_is_accepted:
  assumes "length jid = 36" "list_all fleet_char jid" "last jid \<noteq> CHR ''-''"
  shows "list_all fleet_char (build_fleet_name prov fn jid) \<and> hd (build_fleet_name prov fn jid) \<noteq> CHR ''-'' \<and>
    last (build_fleet_name prov fn jid) \<noteq> CHR ''-'' \<and> length (build_fleet_name prov fn jid) \<le> 62 \<and>
    (\<forall>prov' fn' jid'. length jid' = 36 \<longrightarrow> build_fleet_name prov fn jid = build_fleet_name prov' fn' jid' \<longrightarrow> jid = jid')"
proof (intro conjI allI impI)
  have ne: "jid \<noteq> []" using assms(1) by auto
  note a = segment_facts [of "case prov of None \<Rightarrow> ''custom'' | Some p \<Rightarrow> p"] and b = segment_facts [of fn]
  show "list_all fleet_char (build_fleet_name prov fn jid)" using a(3) b(3) assms(2) by (simp add: build_fleet_name_def)
  show "hd (build_fleet_name prov fn jid) \<noteq> CHR ''-''" using a(1,4) by (simp add: build_fleet_name_def)
  show "last (build_fleet_name prov fn jid) \<noteq> CHR ''-''" using assms(3) ne by (simp add: build_fleet_name_def)
  show "length (build_fleet_name prov fn jid) \<le> 62" using a(2) b(2) assms(1) by (simp add: build_fleet_name_def)
  fix prov' fn' jid' assume "length jid' = 36" "build_fleet_name prov fn jid = build_fleet_name prov' fn' jid'"
  then have "\<exists>x y. x @ jid = y @ jid'" unfolding build_fleet_name_def by (metis append_assoc)
  then show "jid = jid'" using assms(1) \<open>length jid' = 36\<close> by (metis append_eq_append_conv)
qed

definition ex_job_uuid :: string where
  "ex_job_uuid = ''0f8fad5b-d9cb-469f-a165-70867728950e''"

theorem fleet_name_is_accepted_witness:
  "length (build_fleet_name None ''My Function!'' ex_job_uuid) \<le> 62 \<and> build_fleet_name None ''My Function!'' ex_job_uuid = ''custom-my-function-'' @ ex_job_uuid"
proof -
  have "length ex_job_uuid = 36" "list_all fleet_char ex_job_uuid" "last ex_job_uuid \<noteq> CHR ''-''"
    "build_fleet_name None ''My Function!'' ex_job_uuid = ''custom-my-function-'' @ ex_job_uuid" by code_simp+
  then show ?thesis using fleet_name_is_accepted [of ex_job_uuid None "''My Function!''"] by blast
qed

section \<open>The status of a fleet\<close>

lemma task_state_first_segment:
  "CHR ''/'' \<notin> set seg \<Longrightarrow> task_state_from_key p (p @ seg @ rest) = task_state_from_key p (p @ seg @ takeWhile (\<lambda>c. c \<noteq> CHR ''/'') rest)"
proof -
  assume "CHR ''/'' \<notin> set seg"
  then have "takeWhile (\<lambda>c. c \<noteq> CHR ''/'') (seg @ r) = seg @ takeWhile (\<lambda>c. c \<noteq> CHR ''/'') r" for r :: string
    by (subst takeWhile_append2) auto
  then show ?thesis by (simp add: task_state_from_key_def takeWhile_idem)
qed

lemma status_of_keys_simps:
  "status_of_keys p keys =
     (let fs = set (found_states p keys) in
      if ''succeeded'' \<in> fs then Some SUCCEEDED else if ''failed'' \<in> fs then Some FAILED else if ''canceled'' \<in> fs then Some STOPPED
      else if ''running'' \<in> fs then Some RUNNING else if ''pending'' \<in> fs then Some PENDING else None)"
  by (simp add: status_of_keys_def STATE_TO_JOB_STATUS_def Let_def)

lemma found_states_set: "set (found_states p keys) = {s. \<exists>k \<in> set keys. task_state_from_key p k = Some s}"
  by (force simp: found_states_def List.map_filter_def)

text \<open>
  The status read from the task store depends only on the set of states the keys name, not on their order, number or deeper parts:
  it is an end as soon as one key names one, and running or pending only when none does; keys that are not under the prefix of the
  fleet count for nothing.
\<close>

theorem task_store_status_exact:
  "(status_of_keys p keys \<in> Some ` set TERMINAL_STATUSES \<longleftrightarrow>
      (\<exists>k \<in> set keys. task_state_from_key p k \<in> {Some ''succeeded'', Some ''failed'', Some ''canceled''})) \<and>
   (status_of_keys p keys = Some RUNNING \<longleftrightarrow>
      (\<exists>k \<in> set keys. task_state_from_key p k = Some ''running'') \<and>
      \<not> (\<exists>k \<in> set keys. task_state_from_key p k \<in> {Some ''succeeded'', Some ''failed'', Some ''canceled''})) \<and>
   status_of_keys p keys = status_of_keys p (filter (prefix p) keys) \<and>
   (set keys = set keys' \<longrightarrow> status_of_keys p keys = status_of_keys p keys')"
proof -
  have m: "s \<in> set (found_states p ks) \<longleftrightarrow> (\<exists>k \<in> set ks. task_state_from_key p k = Some s)" for s ks by (simp add: found_states_set)
  have f: "set (found_states p (filter (prefix p) keys)) = set (found_states p keys)"
    unfolding found_states_set by (auto simp: task_state_from_key_def split: if_splits)
  have "set (found_states p keys) = set (found_states p keys')" if "set keys = set keys'" using that by (simp add: found_states_set)
  then show ?thesis using f by (simp add: status_of_keys_simps TERMINAL_STATUSES_def Let_def m) blast
qed

theorem task_store_status_exact_witness:
  "status_of_keys (queue_prefix ''p'' ''f'' ''v2'') [''ce/p/f/v2/queue/running/w/1'', ''ce/p/f/v2/queue/succeeded/0/running''] = Some SUCCEEDED \<and>
   status_of_keys (queue_prefix ''p'' ''f'' ''v2'') [''ce/p/f/v2/queue/succeeded/0/running'', ''ce/p/f/v2/queue/running/w/1''] = Some SUCCEEDED"
proof -
  let ?a = "''ce/p/f/v2/queue/running/w/1''" and ?b = "''ce/p/f/v2/queue/succeeded/0/running''"
  have "status_of_keys (queue_prefix ''p'' ''f'' ''v2'') [?a, ?b] = Some SUCCEEDED" by code_simp
  moreover have "set [?a, ?b] = set [?b, ?a]" by (simp only: list.set insert_commute)
  ultimately show ?thesis using task_store_status_exact [of "queue_prefix ''p'' ''f'' ''v2''" "[?a, ?b]" "[?b, ?a]"] by (metis (no_types, lifting))
qed

section \<open>Where the container finds its files\<close>

text \<open>The object a path of the container names: the mount it lies under, and the key below the prefix that is mounted there.\<close>

definition resolve :: "volume_mount list \<Rightarrow> string \<Rightarrow> (string \<times> string) option" where
  "resolve vs path =
     map_option (\<lambda>v. (reference v, the (mount_sub_path v) @ drop (length (mount_path v)) path)) (find (\<lambda>v. prefix (mount_path v @ ''/'') path) vs)"

lemma built_paths:
  assumes "build_job_paths entrypoint j = Inr paths"
  obtains (custom) p where "job_program j = Some p" "program_provider p = None" "paths = build_custom_job_paths entrypoint p j"
  | (provider) p pr where "job_program j = Some p" "program_provider p = Some pr" "paths = build_provider_job_paths entrypoint p pr j"
  using assms by (auto simp: build_job_paths_def split: option.splits)

lemmas path_defs = build_custom_job_paths_def build_provider_job_paths_def Let_def FUNCTION_USER_DATA_PATH_def JOB_USER_DATA_PATH_def
  FUNCTION_PROVIDER_DATA_PATH_def JOB_PROVIDER_DATA_PATH_def

text \<open>
  C22: What the gateway puts in the buckets is what the container of the job finds, and the other way round. Under the mounts the job is
  submitted with, the path of the arguments, of the results and of the public log each name the object of the user data that the gateway
  writes or reads, the private log the object of the provider data, and the two entry points the uploaded scripts: in the user data for a
  custom function, in the provider data for a function of a provider.
\<close>

theorem container_and_gateway_agree:
  assumes "build_job_paths entrypoint j = Inr paths" "build_run_volume_mounts_for_job paths project = Inr mounts"
  shows "resolve mounts (container_arguments_path paths) = Some (pds_name_users project, arguments_key paths) \<and>
    resolve mounts (container_result_path paths) = Some (pds_name_users project, cos_results_key paths) \<and>
    resolve mounts (container_public_log_path paths) = Some (pds_name_users project, cos_user_log_key paths) \<and>
    map_option (resolve mounts) (container_private_log_path paths) = map_option (\<lambda>k. Some (pds_name_providers project, k)) (cos_provider_log_key paths) \<and>
    (let store = (if cos_provider_function_prefix paths = None then pds_name_users project else pds_name_providers project) in
     resolve mounts (container_function_entrypoint paths) = Some (store, cos_function_entrypoint paths) \<and>
     resolve mounts (container_docker_entrypoint paths) = Some (store, cos_docker_entrypoint paths))"
  using assms(1)
proof (cases rule: built_paths)
  case (custom p)
  then have "mounts = [\<lparr>mount_path = FUNCTION_USER_DATA_PATH, reference = pds_name_users project, mount_sub_path = Some (cos_user_function_prefix paths)\<rparr>,
    \<lparr>mount_path = JOB_USER_DATA_PATH, reference = pds_name_users project, mount_sub_path = Some (cos_user_job_prefix paths)\<rparr>]"
    using assms(2) by (auto simp: build_run_volume_mounts_for_job_def build_run_volume_mounts_def path_defs split: if_splits)
  then show ?thesis unfolding custom by (simp add: resolve_def path_defs arguments_key_def)
next
  case (provider p pr)
  then have "mounts = [\<lparr>mount_path = FUNCTION_USER_DATA_PATH, reference = pds_name_users project, mount_sub_path = Some (cos_user_function_prefix paths)\<rparr>,
    \<lparr>mount_path = JOB_USER_DATA_PATH, reference = pds_name_users project, mount_sub_path = Some (cos_user_job_prefix paths)\<rparr>,
    \<lparr>mount_path = FUNCTION_PROVIDER_DATA_PATH, reference = pds_name_providers project, mount_sub_path = cos_provider_function_prefix paths\<rparr>,
    \<lparr>mount_path = JOB_PROVIDER_DATA_PATH, reference = pds_name_providers project, mount_sub_path = cos_provider_job_prefix paths\<rparr>]"
    using assms(2) by (auto simp: build_run_volume_mounts_for_job_def build_run_volume_mounts_def path_defs split: if_splits)
  then show ?thesis unfolding provider by (simp add: resolve_def path_defs arguments_key_def)
qed

theorem container_and_gateway_agree_witness:
  "\<exists>p j paths mounts. job_program j = Some p \<and> program_provider p \<noteq> None \<and> build_job_paths ''main.py'' j = Inr paths \<and>
     resolve mounts (container_result_path paths) = Some (''pds-users'', cos_results_key paths)"
proof -
  define p where "p = \<lparr>program_id = 1, title = ''f'', disabled = False, disabled_message = None,
    program_env_vars = [], arguments_schema = None, program_runner = FLEETS, program_gpu = False, default_size = None, instances = [],
    trial_instances = [], program_author = \<lparr>user_id = 1, username = ''u'', is_active = True, user_groups = []\<rparr>,
    program_provider = Some \<lparr>provider_id = 1, provider_name = ''p'', admin_groups = [], provider_project = None\<rparr>, program_project = None\<rparr>"
  define j where "j = (Job_new ''j'' \<lparr>user_id = 1, username = ''u'', is_active = True, user_groups = []\<rparr> 0)\<lparr>job_program := Some p\<rparr>"
  define project where "project = \<lparr>pds_name_state = ''pds-state'', pds_name_users = ''pds-users'', pds_name_providers = ''pds-providers'',
    subnet_pool_id = ''s'', cos_instance_name = None, cos_key_name = None\<rparr>"
  obtain paths where paths: "build_job_paths ''main.py'' j = Inr paths" by (simp add: build_job_paths_def j_def p_def)
  have ne: "truthy (cos_provider_function_prefix paths)" using paths by (auto simp: build_job_paths_def j_def p_def path_defs)
  obtain mounts where m: "build_run_volume_mounts_for_job paths project = Inr mounts"
    using ne by (simp add: build_run_volume_mounts_for_job_def build_run_volume_mounts_def project_def path_defs)
  have "resolve mounts (container_result_path paths) = Some (''pds-users'', cos_results_key paths)"
    using container_and_gateway_agree [OF paths m] by (simp add: project_def)
  then show ?thesis using paths by (intro exI [of _ p] exI [of _ j] exI [of _ paths] exI [of _ mounts]) (simp add: j_def p_def)
qed

section \<open>What the container is told\<close>

lemma map_of_fold_updates: "map_of (fold (\<lambda>(k, v). AList.update k (Some v)) xs al) = map_of al ++ map_of (map (\<lambda>(k, v). (k, Some v)) (rev xs))"
proof (induction xs arbitrary: al)
  case (Cons x xs)
  then show ?case by (cases x) (simp add: update_conv' fun_eq_iff map_add_def split: option.splits)
qed simp

lemma map_of_filter_truthy:
  "distinct (map fst al) \<Longrightarrow>
   map_of (map (\<lambda>(k, v). (k, the v)) (filter (\<lambda>(k, v). truthy v) al)) k = (case map_of al k of Some v \<Rightarrow> (if truthy v then v else None) | None \<Rightarrow> None)"
proof (induction al)
  case (Cons a al)
  obtain k' v where a: "a = (k', v)" by fastforce
  show ?case
  proof (cases "k' = k")
    case True
    then have "map_of al k = None" using Cons.prems a by (simp add: map_of_eq_None_iff)
    then show ?thesis using Cons a True by (simp add: truthy_def split: option.splits)
  qed (use Cons a in simp)
qed simp

lemma system_vars_distinct: "distinct (map fst (system_vars st paths identifier))"
proof -
  have names: "map fst (List.map_filter (\<lambda>(k, v). map_option (Pair k) v) xs) = map fst (filter (\<lambda>(k, v). v \<noteq> None) xs)"
    for xs :: "(string \<times> string option) list"
    by (induction xs) (auto simp: List.map_filter_def split: option.splits)
  show ?thesis unfolding system_vars_def names by (rule distinct_map_filter) code_simp
qed



end
