(* ===== verification/Fleet_Handler.thy ===== *)
theory Fleet_Handler
  imports Fleet_Config
begin

text \<open>
  The fleets of a Code Engine project (\<^verbatim>\<open>core/ibm_cloud/code_engine/fleets/handler.py\<close>). The generated client is a parameter: \<open>'c\<close> is
  the state of the project in Code Engine, and \<open>ce_api\<close> gives what each call answers and what it does to that state. Loops over the
  pages of a list take fuel, the number of pages that may be read.
\<close>

section \<open>The client\<close>

text \<open>What a call may raise: the exceptions of the client, of urllib3 and of the COS library, and those of the program.\<close>

datatype call_exn =
    ApiException "int option" string "string option"
  | MaxRetryError bool
  | ReadTimeoutError
  | ProtocolError
  | ClientError "string option" int
  | BotoConnectionError
  | BotoHTTPClientError
  | TarError
  | Py exn

type_synonym 'a call_res = "call_exn + 'a"

record fleet =
  fleet_name :: "string option"
  fleet_uuid :: "string option"

record fleet_body =
  fb_name :: string
  fb_image :: string
  fb_subnet_pool :: string
  fb_cpu :: string
  fb_memory :: string
  fb_gpu :: "(string \<times> string) option"
  fb_max_instances :: int
  fb_state_store :: string
  fb_mounts :: "volume_mount list"
  fb_env :: "(string \<times> string) list"
  fb_commands :: "string list"

record 'c ce_api =
  create_fleet :: "fleet_body \<Rightarrow> 'c \<Rightarrow> string option call_res \<times> 'c"
  list_fleets :: "string option \<Rightarrow> 'c \<Rightarrow> (fleet list \<times> string option) call_res"
  cancel_fleet :: "string \<Rightarrow> 'c \<Rightarrow> unit call_res \<times> 'c"
  delete_fleet :: "string \<Rightarrow> 'c \<Rightarrow> unit call_res \<times> 'c"

section \<open>Errors\<close>

fun status_of :: "call_exn \<Rightarrow> int option" where
  "status_of (ApiException st _ _) = st"
| "status_of _ = None"

fun body_of :: "call_exn \<Rightarrow> string" where
  "body_of (ApiException _ _ b) = (case b of None \<Rightarrow> [] | Some t \<Rightarrow> t)"
| "body_of _ = []"

definition ALREADY_CANCELED_CODE :: string where
  "ALREADY_CANCELED_CODE = ''fleet_already_canceled''"

definition NAME_CONFLICT_CODE :: string where
  "NAME_CONFLICT_CODE = ''fleet_resource_name_conflict''"

definition MODEL_VALIDATION_ERROR :: string where
  "MODEL_VALIDATION_ERROR = ''Invalid value for''"

definition is_already_canceled :: "call_exn \<Rightarrow> bool" where
  "is_already_canceled e \<longleftrightarrow> contains ALREADY_CANCELED_CODE (body_of e)"

definition is_name_conflict :: "call_exn \<Rightarrow> bool" where
  "is_name_conflict e \<longleftrightarrow> status_of e = Some 409 \<and> contains NAME_CONFLICT_CODE (body_of e)"

section \<open>Pages\<close>

text \<open>
  The pages are handed out one by one, and whoever reads them may stop: \<open>step\<close> takes what was read so far and a page, and answers a
  result (\<open>Inl\<close>) or goes on (\<open>Inr\<close>). \<open>clock n\<close> is the clock before the \<open>n\<close>-th page.
\<close>

fun fleet_pages ::
  "'c ce_api \<Rightarrow> (nat \<Rightarrow> int) \<Rightarrow> int option \<Rightarrow> ('a \<Rightarrow> fleet list \<Rightarrow> 'b + 'a) \<Rightarrow> 'c \<Rightarrow>
   nat \<Rightarrow> nat \<Rightarrow> string option \<Rightarrow> string list \<Rightarrow> 'a \<Rightarrow> ('b + 'a) call_res option" where
  "fleet_pages api clock deadline step c 0 n start seen acc = None"
| "fleet_pages api clock deadline step c (Suc fuel) n start seen acc =
     (if (case deadline of None \<Rightarrow> False | Some t \<Rightarrow> clock n > t) then Some (Inl (Py (OtherException ''TimeoutError'')))
      else
        (case list_fleets api start c of
           Inl e \<Rightarrow> Some (Inl e)
         | Inr (fleets, nxt) \<Rightarrow>
             (case step acc fleets of
                Inl b \<Rightarrow> Some (Inr (Inl b))
              | Inr acc' \<Rightarrow>
                  if \<not> truthy nxt then Some (Inr (Inr acc'))
                  else if the nxt \<in> set seen then Some (Inl (Py (RuntimeError ''The fleet list went back to a start'')))
                  else fleet_pages api clock deadline step c fuel (Suc n) nxt (the nxt # seen) acc')))"

definition find_fleet_id :: "'c ce_api \<Rightarrow> nat \<Rightarrow> string \<Rightarrow> 'c \<Rightarrow> string option call_res option" where
  "find_fleet_id api fuel nm c =
     map_option (map_sum id (\<lambda>r. case r of Inl i \<Rightarrow> i | Inr _ \<Rightarrow> None))
       (fleet_pages api (\<lambda>_. 0) None
          (\<lambda>_ fleets. case find (\<lambda>f. fleet_name f = Some nm) fleets of Some f \<Rightarrow> Inl (fleet_uuid f) | None \<Rightarrow> Inr ()) c fuel 0 None [] ())"

definition count_fleets :: "'c ce_api \<Rightarrow> (nat \<Rightarrow> int) \<Rightarrow> int \<Rightarrow> nat \<Rightarrow> 'c \<Rightarrow> nat call_res option" where
  "count_fleets api clock deadline fuel c =
     map_option (map_sum id (\<lambda>r. case r of Inl n \<Rightarrow> n | Inr n \<Rightarrow> n))
       (fleet_pages api clock (Some deadline) (\<lambda>n fleets. Inr (n + length fleets)) c fuel 0 None [] 0)"

section \<open>Creating, cancelling, deleting\<close>

definition submit_fleet :: "'c ce_api \<Rightarrow> nat \<Rightarrow> fleet_body \<Rightarrow> 'c \<Rightarrow> (string option call_res \<times> 'c) option" where
  "submit_fleet api fuel body c =
     (case create_fleet api body c of
        (Inr i, c') \<Rightarrow> Some (Inr i, c')
      | (Inl e, c') \<Rightarrow>
          if is_name_conflict e
          then (case find_fleet_id api fuel (fb_name body) c' of
                  None \<Rightarrow> None
                | Some (Inl e') \<Rightarrow> Some (Inl e', c')
                | Some (Inr i) \<Rightarrow> if truthy i then Some (Inr i, c') else Some (Inl e, c'))
          else Some (Inl e, c'))"

definition is_hex :: "char \<Rightarrow> bool" where
  "is_hex c \<longleftrightarrow> is_digit c \<or> lower_char c \<in> {CHR ''a'', CHR ''b'', CHR ''c'', CHR ''d'', CHR ''e'', CHR ''f''}"

definition uuid_match :: "string \<Rightarrow> bool" where
  "uuid_match s \<longleftrightarrow> map length (split_on (CHR ''-'') (chop_newline s)) = [8, 4, 4, 4, 12] \<and>
     list_all (\<lambda>c. is_hex c \<or> c = CHR ''-'') (chop_newline s)"

definition resolve_fleet_id :: "'c ce_api \<Rightarrow> nat \<Rightarrow> string \<Rightarrow> 'c \<Rightarrow> string call_res option" where
  "resolve_fleet_id api fuel identifier c =
     (if uuid_match identifier then Some (Inr identifier)
      else
        (case find_fleet_id api fuel identifier c of
           None \<Rightarrow> None
         | Some (Inl e) \<Rightarrow> Some (Inl e)
         | Some (Inr i) \<Rightarrow>
             if truthy i then Some (Inr (the i)) else Some (Inl (Py (ValueError (''Fleet named '' @ identifier @ '' was not found''))))))"

definition delete_job :: "'c ce_api \<Rightarrow> nat \<Rightarrow> string \<Rightarrow> 'c \<Rightarrow> (bool call_res \<times> 'c) option" where
  "delete_job api fuel identifier c =
     (case resolve_fleet_id api fuel identifier c of
        None \<Rightarrow> None
      | Some (Inl e) \<Rightarrow> Some (Inl e, c)
      | Some (Inr i) \<Rightarrow>
          (case delete_fleet api i c of
             (Inr _, c') \<Rightarrow> Some (Inr True, c')
           | (Inl e, c') \<Rightarrow> if status_of e = Some 404 then Some (Inr False, c') else Some (Inl e, c')))"

text \<open>
  A cancel that Code Engine took but whose answer the client could not map raises \<open>ValueError\<close> with the text of the model's check; any
  other \<open>ValueError\<close> never left the process. The callers never ask to wait or to delete.
\<close>

fun value_error_text :: "exn \<Rightarrow> string option" where
  "value_error_text (ValueError m) = Some m"
| "value_error_text _ = None"

definition cancel_landed :: "call_exn \<Rightarrow> bool option" where
  "cancel_landed e =
     (case e of
        Py x \<Rightarrow> (case value_error_text x of Some m \<Rightarrow> if contains MODEL_VALIDATION_ERROR m then Some True else None | None \<Rightarrow> None)
      | ApiException st r b \<Rightarrow> if st = Some 409 \<and> is_already_canceled e then Some True else if st = Some 404 then Some False else None
      | _ \<Rightarrow> None)"

definition cancel_job :: "'c ce_api \<Rightarrow> nat \<Rightarrow> string \<Rightarrow> 'c \<Rightarrow> (bool call_res \<times> 'c) option" where
  "cancel_job api fuel identifier c =
     (case resolve_fleet_id api fuel identifier c of
        None \<Rightarrow> None
      | Some (Inl e) \<Rightarrow> Some (Inl e, c)
      | Some (Inr i) \<Rightarrow>
          (case cancel_fleet api i c of
             (Inr _, c') \<Rightarrow> Some (Inr True, c')
           | (Inl e, c') \<Rightarrow> (case cancel_landed e of Some b \<Rightarrow> Some (Inr b, c') | None \<Rightarrow> Some (Inl e, c'))))"

text \<open>\<open>poll n\<close> is the status the \<open>n\<close>-th read gives and \<open>clock n\<close> the time after it.\<close>

fun wait_until_state :: "(nat \<Rightarrow> string call_res) \<Rightarrow> (nat \<Rightarrow> int) \<Rightarrow> int \<Rightarrow> string set \<Rightarrow> nat \<Rightarrow> nat \<Rightarrow> string call_res option" where
  "wait_until_state poll clock deadline targets 0 n = None"
| "wait_until_state poll clock deadline targets (Suc fuel) n =
     (case poll n of
        Inr st \<Rightarrow>
          if lower st \<in> targets then Some (Inr (lower st))
          else if clock n \<ge> deadline then Some (Inl (Py (OtherException ''AssertionError'')))
          else wait_until_state poll clock deadline targets fuel (Suc n)
      | Inl e \<Rightarrow>
          if status_of e = Some 404 then Some (Inr ''gone'')
          else if status_of e = Some 429 then wait_until_state poll clock deadline targets fuel (Suc n)
          else Some (Inl e))"

section \<open>Subnet pools\<close>

record subnet_pool =
  pool_name :: string
  pool_id :: string

fun list_all_subnet_pools :: "(string option \<Rightarrow> (subnet_pool list \<times> string option) call_res) \<Rightarrow> nat \<Rightarrow> string option \<Rightarrow> subnet_pool list call_res option" where
  "list_all_subnet_pools page 0 start = None"
| "list_all_subnet_pools page (Suc fuel) start =
     (case page start of
        Inl e \<Rightarrow> Some (Inl e)
      | Inr (pools, nxt) \<Rightarrow>
          if \<not> truthy nxt then Some (Inr pools)
          else map_option (map_sum id (\<lambda>ps. pools @ ps)) (list_all_subnet_pools page fuel nxt))"

definition resolve_subnet_pool_id :: "(string option \<Rightarrow> (subnet_pool list \<times> string option) call_res) \<Rightarrow> nat \<Rightarrow> string \<Rightarrow> string call_res option" where
  "resolve_subnet_pool_id page fuel nm =
     map_option (\<lambda>r. case r of
         Inl e \<Rightarrow> Inl e
       | Inr pools \<Rightarrow>
           (case filter (\<lambda>p. pool_name p = nm) pools of
              [] \<Rightarrow> Inl (Py (ValueError (''No subnet pool named '' @ nm)))
            | [p] \<Rightarrow> Inr (pool_id p)
            | _ \<Rightarrow> Inl (Py (ValueError (''Subnet pool name '' @ nm @ '' is ambiguous'')))))
       (list_all_subnet_pools page fuel None)"

section \<open>A list of fleets is read to its end\<close>

text \<open>Every page names a new start until the list ends or goes back, so a project with finitely many starts is read in finitely many pages.\<close>

lemma fleet_pages_ends:
  assumes "finite S" "\<forall>start fleets nxt. list_fleets api start c = Inr (fleets, Some nxt) \<longrightarrow> nxt \<in> S"
  shows "set seen \<subseteq> S \<Longrightarrow> distinct seen \<Longrightarrow> card S < fuel + length seen \<Longrightarrow>
    fleet_pages api clock dl step c fuel n start seen acc \<noteq> None"
proof (induction fuel arbitrary: n start seen acc)
  case 0
  then have "card (set seen) \<le> card S" using assms(1) by (intro card_mono)
  then show ?case using 0 by (simp add: distinct_card)
next
  case (Suc fuel)
  have go: "fleet_pages api clock dl step c fuel (Suc n) nxt (the nxt # seen) acc' \<noteq> None"
    if "list_fleets api start c = Inr (fleets, nxt)" "truthy nxt" "the nxt \<notin> set seen" for fleets nxt acc'
  proof (rule Suc.IH)
    have "nxt = Some (the nxt)" using that(2) by (cases nxt) auto
    then show "set (the nxt # seen) \<subseteq> S" using assms(2) that(1) Suc.prems(1) by (metis insert_subset list.simps(15))
    show "distinct (the nxt # seen)" "card S < fuel + length (the nxt # seen)" using that(3) Suc.prems by simp_all
  qed
  then show ?case by (auto split: sum.splits prod.splits)
qed

text \<open>\<open>pages_from k start fs\<close>: the list has \<open>k\<close> pages from \<open>start\<close> on, which hold the fleets \<open>fs\<close>.\<close>

fun pages_from :: "'c ce_api \<Rightarrow> 'c \<Rightarrow> nat \<Rightarrow> string option \<Rightarrow> fleet list \<Rightarrow> bool" where
  "pages_from api c 0 start fs = False"
| "pages_from api c (Suc k) start fs =
     (case list_fleets api start c of
        Inl _ \<Rightarrow> False
      | Inr (fleets, nxt) \<Rightarrow>
          if truthy nxt then prefix fleets fs \<and> pages_from api c k nxt (drop (length fleets) fs) else k = 0 \<and> fs = fleets)"

lemma pages_from_unique: "pages_from api c k start fs \<Longrightarrow> pages_from api c k' start fs' \<Longrightarrow> k = k'"
proof (induction k arbitrary: k' start fs fs')
  case (Suc k)
  then show ?case by (cases k') (auto split: sum.splits prod.splits if_splits)
qed simp

text \<open>Reading a whole list with a step that never stops folds the step over the fleets; with one that stops, it stops at the first page that does.\<close>

definition read_pages :: "('a \<Rightarrow> fleet list \<Rightarrow> 'b + 'a) \<Rightarrow> fleet list list \<Rightarrow> 'b + 'a \<Rightarrow> 'b + 'a" where
  "read_pages step pages = fold (\<lambda>p r. case r of Inl b \<Rightarrow> Inl b | Inr a \<Rightarrow> step a p) pages"

lemma read_pages_simps [simp]:
  "read_pages step [] r = r" "read_pages step (p # ps) (Inr a) = read_pages step ps (step a p)" "read_pages step ps (Inl b) = Inl b"
proof -
  show "read_pages step ps (Inl b) = Inl b" unfolding read_pages_def by (induction ps) auto
qed (simp_all add: read_pages_def)

lemma fleet_pages_reads:
  assumes "pages_from api c k start fs" "k \<le> fuel" "\<forall>t \<in> set seen. start = Some t \<or> (\<exists>k' fs'. k < k' \<and> pages_from api c k' (Some t) fs')"
    and "\<forall>t. dl = Some t \<longrightarrow> (\<forall>i. clock i \<le> t)"
  shows "\<exists>pages. concat pages = fs \<and>
    (\<forall>n acc. fleet_pages api clock dl step c fuel n start seen acc = Some (Inr (read_pages step pages (Inr acc))))"
  using assms(1-3)
proof (induction fuel arbitrary: k start seen fs)
  case (Suc fuel)
  then obtain k1 where k: "k = Suc k1" by (cases k) auto
  obtain fleets nxt where l: "list_fleets api start c = Inr (fleets, nxt)" using Suc.prems(1) k by (auto split: sum.splits)
  have dl: "\<not> (case dl of None \<Rightarrow> False | Some t \<Rightarrow> clock n > t)" for n using assms(4) by (cases dl) (auto simp: not_less)
  show ?case
  proof (cases "truthy nxt")
    case False
    then have "fs = fleets" using Suc.prems(1) k l by simp
    then show ?thesis using l dl False by (intro exI [of _ "[fleets]"]) (auto split: sum.splits)
  next
    case True
    then have n: "nxt = Some (the nxt)" by (cases nxt) auto
    have f: "fs = fleets @ drop (length fleets) fs" and rest: "pages_from api c k1 nxt (drop (length fleets) fs)"
      using Suc.prems(1) k l True by (auto simp: prefix_def)
    have fresh: "the nxt \<notin> set seen"
    proof
      assume "the nxt \<in> set seen"
      then consider k' fs' where "k < k'" "pages_from api c k' nxt fs'" | "start = nxt" using Suc.prems(3) n by metis
      then show False using pages_from_unique [OF rest] Suc.prems(1) k by cases (metis Suc_lessD less_irrefl, metis n_not_Suc_n)
    qed
    have deeper: "nxt = Some t \<or> (\<exists>k' fs'. k1 < k' \<and> pages_from api c k' (Some t) fs')" if "t \<in> set (the nxt # seen)" for t
    proof (cases "t \<in> set seen")
      case True
      then show ?thesis using Suc.prems(1,3) k by (metis Suc_lessD lessI)
    qed (use that n in auto)
    obtain pages where p: "concat pages = drop (length fleets) fs"
      "fleet_pages api clock dl step c fuel n nxt (the nxt # seen) a = Some (Inr (read_pages step pages (Inr a)))" for n a
      using Suc.IH [OF rest, of "the nxt # seen"] Suc.prems(2) k deeper by auto
    have "concat (fleets # pages) = fs" using p(1) f by simp
    moreover have "fleet_pages api clock dl step c (Suc fuel) n start seen acc = Some (Inr (read_pages step (fleets # pages) (Inr acc)))" for n acc
      using l dl fresh True p(2) by (simp split: sum.split)
    ultimately show ?thesis by blast
  qed
qed simp

lemma read_find:
  "read_pages (\<lambda>_ fleets. case find P fleets of Some f \<Rightarrow> Inl (g f) | None \<Rightarrow> Inr ()) pages (Inr ()) =
     (case find P (concat pages) of Some f \<Rightarrow> Inl (g f) | None \<Rightarrow> Inr ())"
proof (induction pages)
  case (Cons p ps)
  have "find P (p @ concat ps) = (case find P p of None \<Rightarrow> find P (concat ps) | Some f \<Rightarrow> Some f)" by (induction p) auto
  then show ?case using Cons by (auto split: option.splits)
qed simp

lemma read_count: "read_pages (\<lambda>n fleets. Inr (n + length fleets)) pages (Inr m) = (Inr (m + length (concat pages)) :: 'b + nat)"
  by (induction pages arbitrary: m) auto

lemma find_in_pages:
  assumes "pages_from api c k None fs" "k \<le> fuel"
  shows "find_fleet_id api fuel nm c = Some (Inr (Option.bind (find (\<lambda>f. fleet_name f = Some nm) fs) fleet_uuid))"
proof -
  let ?step = "\<lambda>_ fleets. case find (\<lambda>f. fleet_name f = Some nm) fleets of Some f \<Rightarrow> Inl (fleet_uuid f) | None \<Rightarrow> Inr ()"
  obtain pages where p: "concat pages = fs" "fleet_pages api (\<lambda>_. 0) None ?step c fuel 0 None [] () = Some (Inr (read_pages ?step pages (Inr ())))"
    using fleet_pages_reads [OF assms, of "[]" None "\<lambda>_. 0" ?step] by auto
  show ?thesis unfolding find_fleet_id_def p(2) read_find p(1) by (cases "find (\<lambda>f. fleet_name f = Some nm) fs") auto
qed

text \<open>
  Looking a fleet up by its name and counting the fleets read every page of the project's list. The lookup answers the identifier of
  the first fleet of that name, in whichever page it is, or nothing when there is none; the count is the number of fleets, unless the
  deadline passed.
\<close>

theorem fleet_list_read_whole:
  assumes "pages_from api c k None fs" "k \<le> fuel"
  shows "find_fleet_id api fuel nm c = Some (Inr (Option.bind (find (\<lambda>f. fleet_name f = Some nm) fs) fleet_uuid)) \<and>
    ((\<forall>i. clock i \<le> deadline) \<longrightarrow> count_fleets api clock deadline fuel c = Some (Inr (length fs)))"
proof -
  have "count_fleets api clock deadline fuel c = Some (Inr (length fs))" if on_time: "\<forall>i. clock i \<le> deadline"
  proof -
    obtain ps where "concat ps = fs" "fleet_pages api clock (Some deadline) (\<lambda>n fleets. Inr (n + length fleets)) c fuel 0 None [] 0 =
        Some (Inr (read_pages (\<lambda>n fleets. Inr (n + length fleets)) ps (Inr 0 :: nat + nat)))"
      using fleet_pages_reads [OF assms, of "[]" "Some deadline" clock "\<lambda>n fleets. Inr (n + length fleets) :: nat + nat"] on_time by auto
    then show ?thesis by (simp add: count_fleets_def read_count)
  qed
  then show ?thesis using find_in_pages [OF assms] by blast
qed

text \<open>A project with two pages and three fleets; its state is the list of fleets, and an answer to a create is always lost.\<close>

definition ex_fleet :: "string \<Rightarrow> string \<Rightarrow> fleet" where
  "ex_fleet nm i = \<lparr>fleet_name = Some nm, fleet_uuid = Some i\<rparr>"

definition name_conflict :: call_exn where
  "name_conflict = ApiException (Some 409) ''Conflict'' (Some NAME_CONFLICT_CODE)"

definition ex_api :: "fleet list ce_api" where
  "ex_api = \<lparr>create_fleet = (\<lambda>body c. if list_ex (\<lambda>f. fleet_name f = Some (fb_name body)) c then (Inl name_conflict, c)
                               else (Inl ReadTimeoutError, c @ [ex_fleet (fb_name body) ''new''])),
     list_fleets = (\<lambda>start c. if start = None \<and> 2 \<le> length c then Inr (take 2 c, Some ''p2'') else Inr (if start = None then c else drop 2 c, None)),
     cancel_fleet = (\<lambda>_ c. (Inr (), c)), delete_fleet = (\<lambda>i c. (Inr (), filter (\<lambda>f. fleet_uuid f \<noteq> Some i) c))\<rparr>"

definition ex_fleets :: "fleet list" where
  "ex_fleets = [ex_fleet ''a'' ''1'', ex_fleet ''b'' ''2'', ex_fleet ''c'' ''3'']"

theorem fleet_list_read_whole_witness:
  "find_fleet_id ex_api 5 ''c'' ex_fleets = Some (Inr (Some ''3'')) \<and> count_fleets ex_api (\<lambda>_. 0) 7 5 ex_fleets = Some (Inr 3)"
proof -
  have "pages_from ex_api ex_fleets 2 None ex_fleets" by code_simp
  moreover have "Option.bind (find (\<lambda>f. fleet_name f = Some ''c'') ex_fleets) fleet_uuid = Some ''3''" "length ex_fleets = 3" by code_simp+
  ultimately show ?thesis using fleet_list_read_whole [of ex_api ex_fleets 2 ex_fleets 5 "''c''" "\<lambda>_. 0" 7] by simp
qed

text \<open>
  Reading the list of fleets ends, whatever Code Engine answers: when it uses at most \<open>n\<close> different starts, at most two more pages than
  that are read, and a list that goes back to a page it already gave ends in an error instead of going round.
\<close>

theorem fleet_list_ends:
  assumes "finite S" "\<forall>start fleets nxt. list_fleets api start c = Inr (fleets, Some nxt) \<longrightarrow> nxt \<in> S" "card S + 2 \<le> fuel"
  shows "find_fleet_id api fuel nm c \<noteq> None \<and> count_fleets api clock deadline fuel c \<noteq> None"
proof
  have "set [] \<subseteq> S" "distinct ([] :: string list)" "card S < fuel + length ([] :: string list)" using assms(3) by simp_all
  note ends = fleet_pages_ends [OF assms(1,2) this]
  show "find_fleet_id api fuel nm c \<noteq> None" using ends by (simp add: find_fleet_id_def)
  show "count_fleets api clock deadline fuel c \<noteq> None" using ends by (simp add: count_fleets_def)
qed

theorem fleet_list_ends_witness:
  "find_fleet_id (ex_api\<lparr>list_fleets := (\<lambda>start c. Inr (c, Some ''p2''))\<rparr>) 3 ''x'' [] =
     Some (Inl (Py (RuntimeError ''The fleet list went back to a start'')))"
proof -
  let ?api = "ex_api\<lparr>list_fleets := (\<lambda>start c. Inr (c, Some ''p2''))\<rparr>"
  have "find_fleet_id ?api 3 ''x'' [] \<noteq> None"
    using fleet_list_ends [of "{''p2''}" ?api "[]" 3 "''x''" "\<lambda>_. 0" 0] by simp
  moreover have "find_fleet_id ?api 3 ''x'' [] \<noteq> None \<Longrightarrow> ?thesis" by code_simp
  ultimately show ?thesis by blast
qed

section \<open>A create that is tried again\<close>

text \<open>
  Submitting a job again makes no second fleet. Once Code Engine has made the fleet of a body, even when the answer to that create was
  lost, the next submission of the body answers the identifier of the very fleet and changes nothing. Code Engine is assumed to refuse a
  name that is taken as a name conflict and to list every fleet it holds; \<open>fleets_in c\<close> are those fleets.
\<close>

theorem resubmission_finds_the_fleet:
  assumes "\<forall>c body. Some (fb_name body) \<in> fleet_name ` set (fleets_in c) \<longrightarrow> (\<exists>e. create_fleet api body c = (Inl e, c) \<and> is_name_conflict e)"
    and "\<forall>c. pages_from api c (pages c) None (fleets_in c)" "pages c1 \<le> fuel"
    and "create_fleet api body c = (answer, c1)" "fleets_in c1 = fleets_in c @ [\<lparr>fleet_name = Some (fb_name body), fleet_uuid = Some i\<rparr>]"
    and "Some (fb_name body) \<notin> fleet_name ` set (fleets_in c)" "i \<noteq> []"
  shows "submit_fleet api fuel body c1 = Some (Inr (Some i), c1)"
proof -
  have "Some (fb_name body) \<in> fleet_name ` set (fleets_in c1)" using assms(5) by simp
  then obtain e where e: "create_fleet api body c1 = (Inl e, c1)" "is_name_conflict e" using assms(1) by blast
  have "find (\<lambda>f. fleet_name f = Some (fb_name body)) (xs @ [\<lparr>fleet_name = Some (fb_name body), fleet_uuid = Some i\<rparr>]) =
      Some \<lparr>fleet_name = Some (fb_name body), fleet_uuid = Some i\<rparr>" if "Some (fb_name body) \<notin> fleet_name ` set xs" for xs
    using that by (induction xs) auto
  then have "find (\<lambda>f. fleet_name f = Some (fb_name body)) (fleets_in c1) = Some \<lparr>fleet_name = Some (fb_name body), fleet_uuid = Some i\<rparr>"
    using assms(5,6) by simp
  then have "find_fleet_id api fuel (fb_name body) c1 = Some (Inr (Some i))" using find_in_pages [OF _ assms(3)] assms(2) by fastforce
  then show ?thesis using e assms(7) by (simp add: submit_fleet_def)
qed

definition ex_body :: fleet_body where
  "ex_body = \<lparr>fb_name = ''d'', fb_image = ''i'', fb_subnet_pool = ''s'', fb_cpu = ''1'', fb_memory = ''2G'', fb_gpu = None, fb_max_instances = 1,
     fb_state_store = ''st'', fb_mounts = [], fb_env = [], fb_commands = []\<rparr>"

lemma ex_api_lists: "pages_from ex_api c (if 2 \<le> length c then 2 else 1) None c"
  by (auto simp: ex_api_def numeral_2_eq_2 prefix_def intro: exI [of _ "drop 2 c"])

theorem resubmission_finds_the_fleet_witness:
  "\<exists>c1. create_fleet ex_api ex_body ex_fleets = (Inl ReadTimeoutError, c1) \<and> submit_fleet ex_api 2 ex_body c1 = Some (Inr (Some ''new''), c1)"
proof -
  obtain c1 where c: "create_fleet ex_api ex_body ex_fleets = (Inl ReadTimeoutError, c1)"
      "c1 = ex_fleets @ [\<lparr>fleet_name = Some (fb_name ex_body), fleet_uuid = Some ''new''\<rparr>]" by (simp add: ex_api_def ex_body_def ex_fleets_def ex_fleet_def)
  have "\<forall>c body. Some (fb_name body) \<in> fleet_name ` set c \<longrightarrow> (\<exists>e. create_fleet ex_api body c = (Inl e, c) \<and> is_name_conflict e)"
  proof (intro allI impI)
    fix c :: "fleet list" and body :: fleet_body assume "Some (fb_name body) \<in> fleet_name ` set c"
    then have "list_ex (\<lambda>f. fleet_name f = Some (fb_name body)) c" by (force simp: list_ex_iff)
    moreover have "is_name_conflict name_conflict" by code_simp
    ultimately show "\<exists>e. create_fleet ex_api body c = (Inl e, c) \<and> is_name_conflict e" by (simp add: ex_api_def)
  qed
  then have "submit_fleet ex_api 2 ex_body c1 = Some (Inr (Some ''new''), c1)"
    using resubmission_finds_the_fleet [where fleets_in = "\<lambda>c. c" and pages = "\<lambda>c. if 2 \<le> length c then 2 else 1" and api = ex_api and i = "''new''", OF _ _ _ c(1)]
      ex_api_lists c(2) by (simp add: ex_fleets_def ex_fleet_def ex_body_def)
  then show ?thesis using c(1) by blast
qed

section \<open>Answers to a cancel and a delete\<close>

lemma resolve_uuid: "uuid_match i \<Longrightarrow> resolve_fleet_id api fuel i c = Some (Inr i)"
  by (simp add: resolve_fleet_id_def)

text \<open>A cancel that is not answered 2xx is reported as sent only when Code Engine says it is already cancelling or its answer could not be mapped.\<close>

lemma cancel_job_True:
  assumes "cancel_job api fuel i c = Some (Inr b, c')" "uuid_match i"
  shows "b = (case fst (cancel_fleet api i c) of
      Inr _ \<Rightarrow> True
    | Inl e \<Rightarrow> status_of e \<noteq> Some 404)" "c' = snd (cancel_fleet api i c)"
proof -
  have landed: "cancel_landed e = Some b \<Longrightarrow> b = (status_of e \<noteq> Some 404)" for e b
    by (cases e) (auto simp: cancel_landed_def split: if_splits option.splits)
  then show "b = (case fst (cancel_fleet api i c) of Inr _ \<Rightarrow> True | Inl e \<Rightarrow> status_of e \<noteq> Some 404)" "c' = snd (cancel_fleet api i c)"
    using assms by (auto simp: cancel_job_def resolve_uuid split: prod.splits sum.splits option.splits)
qed

text \<open>While Code Engine answers 429 the wait goes on past its deadline, without end.\<close>

lemma wait_never_times_out: "(\<And>n. poll n = Inl (ApiException (Some 429) r b)) \<Longrightarrow> wait_until_state poll clock deadline targets fuel n = None"
  by (induction fuel arbitrary: n) simp_all

text \<open>A pool is resolved only when exactly one has the name.\<close>

lemma resolve_subnet_pool_unique:
  "resolve_subnet_pool_id page fuel nm = Some (Inr i) \<Longrightarrow>
   \<exists>pools p. list_all_subnet_pools page fuel None = Some (Inr pools) \<and> filter (\<lambda>p. pool_name p = nm) pools = [p] \<and> pool_id p = i"
proof -
  assume r: "resolve_subnet_pool_id page fuel nm = Some (Inr i)"
  then obtain z where z: "list_all_subnet_pools page fuel None = Some z" by (auto simp: resolve_subnet_pool_id_def)
  then obtain pools where "z = Inr pools" using r by (cases z) (auto simp: resolve_subnet_pool_id_def)
  then show ?thesis using r z by (auto simp: resolve_subnet_pool_id_def split: list.splits)
qed

end
