(* ===== verification/Fleets_Runner.thy ===== *)
theory Fleets_Runner
  imports Fleet_Handler
begin

text \<open>
  The runner of Fleets jobs (\<^verbatim>\<open>core/services/runners/fleets_runner.py\<close>): submitting a job (its files to COS, then its fleet to Code
  Engine), reading its status from the task store, cancelling and deleting its fleet. A runner lives for one operation, so what it caches
  is read once. The answers of IAM, COS and the archive of the function are parameters.
\<close>

section \<open>State and environment\<close>

text \<open>Columns of the program that only the runner reads. A member of the artifact may be no file, and reading it may give nothing or raise.\<close>

record tar_member =
  tm_name :: string
  tm_isfile :: bool
  tm_extract :: "bool call_res"

record program_columns =
  pc_entrypoint :: string
  pc_artifact :: "tar_member list call_res option"
  pc_image :: "string option"

record 'c rn_state =
  rn_ce :: 'c
  rn_objects :: "(string \<times> string) list"

text \<open>
  \<open>rn_put b k n\<close> answers the upload of a key when \<open>n\<close> objects were stored before it, \<open>rn_loads\<close> parses and decrypts the variables of a
  job, \<open>rn_mirrored\<close> asks the database, and \<open>rn_fuel\<close> bounds the pages of a list of fleets.
\<close>

record 'c rn_env =
  rn_api :: "code_engine_project \<Rightarrow> 'c ce_api"
  rn_api_key :: bool
  rn_auth :: "code_engine_project \<Rightarrow> unit call_res"
  rn_cos :: "code_engine_project \<Rightarrow> unit call_res"
  rn_put :: "string \<Rightarrow> string \<Rightarrow> nat \<Rightarrow> unit call_res"
  rn_list_keys :: "string \<Rightarrow> string \<Rightarrow> string list call_res"
  rn_columns :: "program \<Rightarrow> program_columns"
  rn_project :: "code_engine_project \<Rightarrow> fleet_stores"
  rn_projects :: "code_engine_project list"
  rn_settings :: fleet_settings
  rn_default_profile :: string
  rn_default_image :: string
  rn_default_instances :: int
  rn_workers :: "job \<Rightarrow> int option"
  rn_loads :: "string \<Rightarrow> (string \<times> string option) list call_res"
  rn_mirrored :: "job \<Rightarrow> bool res"
  rn_text :: "call_exn \<Rightarrow> string"
  rn_fuel :: nat

section \<open>Projects\<close>

definition get_project :: "job \<Rightarrow> code_engine_project res" where
  "get_project j =
     (case job_program j of
        None \<Rightarrow> Inl (RunnerError (''Program for job '' @ quoted (job_id j) @ '' has been deleted''))
      | Some p \<Rightarrow>
          (case program_project p of
             None \<Rightarrow> Inl (RunnerError (''No Code Engine project assigned to program '' @ quoted (title p)))
           | Some pj \<Rightarrow> if cep_active pj then Inr pj else Inl (RunnerError (''Code Engine project '' @ quoted (project_name pj) @ '' is not active''))))"

text \<open>\<open>order_by("-active", "created").first()\<close>: the table is in the order of creation.\<close>

definition select_by_name :: "code_engine_project list \<Rightarrow> string \<Rightarrow> string option \<Rightarrow> code_engine_project option" where
  "select_by_name rows nm region =
     (let named = filter (\<lambda>r. project_name r = nm \<and> (truthy region \<longrightarrow> cep_region r = the region)) rows in
      case find cep_active named of Some r \<Rightarrow> Some r | None \<Rightarrow> find (\<lambda>_. True) named)"

definition execution_project :: "'c rn_env \<Rightarrow> job \<Rightarrow> code_engine_project res" where
  "execution_project env j =
     (if \<not> truthy (ce_project_name j)
      then (case job_program j of
              None \<Rightarrow> Inl (RunnerError (''Program for job '' @ quoted (job_id j) @ '' has been deleted''))
            | Some p \<Rightarrow>
                (case program_project p of
                   None \<Rightarrow> Inl (RunnerError (''No Code Engine project assigned to job '' @ quoted (job_id j)))
                 | Some pj \<Rightarrow> Inr pj))
      else
        (case select_by_name (rn_projects env) (the (ce_project_name j)) (ce_region j) of
           None \<Rightarrow> Inl (RunnerError (''No Code Engine project '' @ quoted (the (ce_project_name j)) @ '' for job '' @ quoted (job_id j)))
         | Some pj \<Rightarrow> Inr pj))"

text \<open>\<open>_get_handler\<close> turns every failure into a \<open>RunnerError\<close>, the missing key too.\<close>

definition get_handler :: "'c rn_env \<Rightarrow> code_engine_project \<Rightarrow> 'c ce_api res" where
  "get_handler env pj =
     (if rn_api_key env \<and> \<not> isl (rn_auth env pj) then Inr (rn_api env pj)
      else Inl (RunnerError (''Failed to initialize FleetHandler for project ['' @ project_name pj @ '']'')))"

definition is_cos_configured :: "'c rn_env \<Rightarrow> program \<Rightarrow> code_engine_project \<Rightarrow> bool" where
  "is_cos_configured env p pj \<longleftrightarrow>
     (program_provider p \<noteq> None \<longrightarrow> truthy (cos_bucket_provider_data_name pj)) \<and> truthy (cos_bucket_user_data_name pj) \<and>
     truthy (cos_instance_name (rn_project env pj)) \<and> truthy (cos_key_name (rn_project env pj))"

section \<open>Uploading\<close>

text \<open>\<open>os.path.normpath\<close>: empty and dot components go, a component and the \<open>..\<close> behind it cancel out.\<close>

fun norm_components :: "bool \<Rightarrow> string list \<Rightarrow> string list \<Rightarrow> string list" where
  "norm_components rooted acc [] = rev acc"
| "norm_components rooted acc (c # cs) =
     (if c = [] \<or> c = ''.'' then norm_components rooted acc cs
      else if c \<noteq> ''..'' \<or> (\<not> rooted \<and> acc = []) \<or> (acc \<noteq> [] \<and> hd acc = ''..'') then norm_components rooted (c # acc) cs
      else norm_components rooted (tl acc) cs)"

definition initial_slashes :: "string \<Rightarrow> nat" where
  "initial_slashes s =
     (if prefix ''/'' s then (if prefix ''//'' s \<and> \<not> prefix ''///'' s then 2 else 1) else 0)"

definition normpath :: "string \<Rightarrow> string" where
  "normpath s =
     (if s = [] then ''.''
      else
        let r = replicate (initial_slashes s) (CHR ''/'') @ join_with ''/'' (norm_components (initial_slashes s \<noteq> 0) [] (split_on (CHR ''/'') s))
        in if r = [] then ''.'' else r)"

definition unsafe_name :: "string \<Rightarrow> bool" where
  "unsafe_name nm \<longleftrightarrow> prefix ''/'' nm \<or> nm = ''..'' \<or> prefix ''../'' nm"

definition upload_fileobj ::
  "'c rn_env \<Rightarrow> code_engine_project \<Rightarrow> string option \<Rightarrow> string \<Rightarrow> 'c rn_state \<Rightarrow> unit call_res \<times> 'c rn_state" where
  "upload_fileobj env pj bucket key s =
     (case rn_cos env pj of
        Inl e \<Rightarrow> (Inl e, s)
      | Inr _ \<Rightarrow>
          if \<not> truthy bucket then (Inl (Py (ValueError ''bucket_name is required.'')), s)
          else if key = [] then (Inl (Py (ValueError ''key is required.'')), s)
          else (case rn_put env (the bucket) key (length (rn_objects s)) of
                  Inl e \<Rightarrow> (Inl e, s)
                | Inr _ \<Rightarrow> (Inr (), s\<lparr>rn_objects := rn_objects s @ [(the bucket, key)]\<rparr>)))"

text \<open>Whether the entry point was among the members.\<close>

fun upload_members ::
  "'c rn_env \<Rightarrow> code_engine_project \<Rightarrow> string \<Rightarrow> string \<Rightarrow> bool \<Rightarrow> tar_member list \<Rightarrow> 'c rn_state \<Rightarrow> bool call_res \<times> 'c rn_state" where
  "upload_members env pj base entrypoint found [] s = (Inr found, s)"
| "upload_members env pj base entrypoint found (m # ms) s =
     (let nm = normpath (tm_name m) in
      if \<not> tm_isfile m \<or> unsafe_name nm then upload_members env pj base entrypoint found ms s
      else
        (case tm_extract m of
           Inl e \<Rightarrow> (Inl e, s)
         | Inr False \<Rightarrow> upload_members env pj base entrypoint found ms s
         | Inr True \<Rightarrow>
             (case upload_fileobj env pj (cos_bucket_user_data_name pj) (base @ ''/'' @ nm) s of
                (Inl e, s1) \<Rightarrow> (Inl e, s1)
              | (Inr _, s1) \<Rightarrow> upload_members env pj base entrypoint (found \<or> nm = entrypoint) ms s1)))"

definition tar_error :: "job \<Rightarrow> call_exn \<Rightarrow> call_exn" where
  "tar_error j e = (if e = TarError then Py (RunnerError (''Failed to read artifact for job_id=['' @ job_id j @ '']'')) else e)"

definition upload_custom_image_entrypoint ::
  "'c rn_env \<Rightarrow> code_engine_project \<Rightarrow> program_columns \<Rightarrow> FleetJobPaths \<Rightarrow> job \<Rightarrow> 'c rn_state \<Rightarrow> unit call_res \<times> 'c rn_state" where
  "upload_custom_image_entrypoint env pj cols paths j s =
     (case pc_artifact cols of
        None \<Rightarrow> (Inr (), s)
      | Some artifact \<Rightarrow>
          (case upload_fileobj env pj (cos_bucket_user_data_name pj) (cos_docker_entrypoint paths) s of
             (Inl e, s1) \<Rightarrow> (Inl e, s1)
           | (Inr _, s1) \<Rightarrow>
               (case artifact of
                  Inl e \<Rightarrow> (Inl (tar_error j e), s1)
                | Inr members \<Rightarrow>
                    (case upload_members env pj (cos_user_function_prefix paths) (pc_entrypoint cols) False members s1 of
                       (Inl e, s2) \<Rightarrow> (Inl (tar_error j e), s2)
                     | (Inr found, s2) \<Rightarrow>
                         if found then (Inr (), s2)
                         else (Inl (Py (RunnerError (''Entrypoint '' @ quoted (pc_entrypoint cols) @ '' not found in artifact for job_id=['' @ job_id j @ '']''))), s2)))))"

definition upload_provider_image_entrypoint ::
  "'c rn_env \<Rightarrow> code_engine_project \<Rightarrow> program \<Rightarrow> FleetJobPaths \<Rightarrow> 'c rn_state \<Rightarrow> unit call_res \<times> 'c rn_state" where
  "upload_provider_image_entrypoint env pj p paths s =
     (if program_provider p = None then (Inl (Py (RunnerError ''_upload_provider_image_entrypoint called on non-provider job'')), s)
      else
        (case upload_fileobj env pj (cos_bucket_provider_data_name pj) (cos_docker_entrypoint paths) s of
           (Inl e, s1) \<Rightarrow> (Inl e, s1)
         | (Inr _, s1) \<Rightarrow> upload_fileobj env pj (cos_bucket_provider_data_name pj) (cos_function_entrypoint paths) s1))"

definition upload_program_to_cos ::
  "'c rn_env \<Rightarrow> code_engine_project \<Rightarrow> program \<Rightarrow> FleetJobPaths \<Rightarrow> job \<Rightarrow> 'c rn_state \<Rightarrow> unit call_res \<times> 'c rn_state" where
  "upload_program_to_cos env pj p paths j s =
     (let cols = rn_columns env p in
      if pc_artifact cols \<noteq> None then upload_custom_image_entrypoint env pj cols paths j s
      else if truthy (pc_image cols) then upload_provider_image_entrypoint env pj p paths s
      else (Inr (), s))"

section \<open>What the failures become\<close>

definition transient :: "int option \<Rightarrow> bool" where
  "transient st \<longleftrightarrow> (let n = (case st of None \<Rightarrow> 0 | Some n \<Rightarrow> n) in n = 0 \<or> n = 429 \<or> n \<ge> 500)"

definition failed_to_submit :: "job \<Rightarrow> exn" where
  "failed_to_submit j = RunnerError (''Failed to submit job_id=['' @ job_id j @ ''] to Code Engine Fleets'')"

definition api_error :: "int option \<Rightarrow> string \<Rightarrow> exn" where
  "api_error st reason =
     (if transient st then RunnerRetryableError (''Code Engine API error: '' @ reason) else RunnerError (''Code Engine API error: '' @ reason))"

definition host_error :: "bool \<Rightarrow> exn" where
  "host_error unresolved =
     (if unresolved then RunnerError ''Unable to resolve the Code Engine host, check the CE project region''
      else RunnerRetryableError ''Unable to reach Code Engine'')"

fun retryable_text :: "exn \<Rightarrow> string option" where
  "retryable_text (RetryableError m) = Some m"
| "retryable_text _ = None"

definition upload_error :: "job \<Rightarrow> call_exn \<Rightarrow> exn" where
  "upload_error j ex =
     (case ex of
        ClientError code st \<Rightarrow>
          if st \<in> {429, 500, 502, 503, 504} \<or> code \<in> {Some ''SlowDown'', Some ''RequestTimeout'', Some ''Throttling''}
          then CosRetryableError ''COS error'' else RunnerError ''COS error''
      | ApiException st reason _ \<Rightarrow> api_error st reason
      | MaxRetryError unresolved \<Rightarrow> host_error unresolved
      | TarError \<Rightarrow> failed_to_submit j
      | Py e \<Rightarrow>
          if is_RunnerError e then e else (case retryable_text e of Some m \<Rightarrow> RunnerRetryableError m | None \<Rightarrow> failed_to_submit j)
      | _ \<Rightarrow> CosRetryableError ''Unable to reach COS'')"

definition create_error :: "job \<Rightarrow> call_exn \<Rightarrow> exn" where
  "create_error j ex =
     (case ex of
        ApiException st reason _ \<Rightarrow> api_error st reason
      | MaxRetryError unresolved \<Rightarrow> host_error unresolved
      | ReadTimeoutError \<Rightarrow> RunnerRetryableError ''Unable to reach Code Engine''
      | ProtocolError \<Rightarrow> RunnerRetryableError ''Unable to reach Code Engine''
      | Py e \<Rightarrow>
          if is_RunnerError e then e
          else (case retryable_text e of Some m \<Rightarrow> RunnerRetryableError ''Unable to reach IBM Cloud IAM'' | None \<Rightarrow> failed_to_submit j)
      | _ \<Rightarrow> failed_to_submit j)"

definition stop_error :: "string \<Rightarrow> call_exn \<Rightarrow> exn" where
  "stop_error i ex =
     (let failed = RunnerError (''Unable to stop fleet ['' @ i @ '']''); unreachable = RunnerRetryableError ''Unable to reach Code Engine'' in
      case ex of
        ApiException st reason _ \<Rightarrow> RunnerRetryableError (''Code Engine API error: '' @ reason)
      | MaxRetryError _ \<Rightarrow> unreachable
      | ReadTimeoutError \<Rightarrow> unreachable
      | ProtocolError \<Rightarrow> unreachable
      | Py e \<Rightarrow> (case retryable_text e of Some m \<Rightarrow> RunnerRetryableError ''Unable to reach IBM Cloud IAM'' | None \<Rightarrow> failed)
      | _ \<Rightarrow> failed)"

text \<open>None: the delete is given up, with the answer False.\<close>

definition free_error :: "(call_exn \<Rightarrow> string) \<Rightarrow> call_exn \<Rightarrow> exn option" where
  "free_error txt ex =
     (let request_failed = Some (RunnerRetryableError (''Code Engine request failed: '' @ txt ex)) in
      case ex of
        ApiException st reason _ \<Rightarrow> if transient st then Some (RunnerRetryableError (''Code Engine API error: '' @ reason)) else None
      | MaxRetryError unresolved \<Rightarrow> if unresolved then None else request_failed
      | ReadTimeoutError \<Rightarrow> request_failed
      | ProtocolError \<Rightarrow> request_failed
      | Py e \<Rightarrow>
          if is_RunnerError e then Some (RunnerRetryableError (''Unable to reach Code Engine: '' @ txt ex))
          else map_option (\<lambda>_. RunnerRetryableError ''Unable to reach IBM Cloud IAM'') (retryable_text e)
      | _ \<Rightarrow> None)"

section \<open>Operations\<close>

text \<open>\<open>_upload_to_cos\<close>: the project and the paths of the job, with the files uploaded.\<close>

definition upload_to_cos ::
  "'c rn_env \<Rightarrow> job \<Rightarrow> 'c rn_state \<Rightarrow> (code_engine_project \<times> program \<times> FleetJobPaths) res \<times> 'c rn_state" where
  "upload_to_cos env j s =
     (case get_project j of
        Inl e \<Rightarrow> (Inl e, s)
      | Inr pj \<Rightarrow>
          (case job_program j of
             None \<Rightarrow> (Inl (failed_to_submit j), s)
           | Some p \<Rightarrow>
               if \<not> is_cos_configured env p pj then (Inl (RunnerError (''COS is not configured for job_id=['' @ job_id j @ '']'')), s)
               else
                 (case build_job_paths (pc_entrypoint (rn_columns env p)) j of
                    Inl e \<Rightarrow> (Inl (upload_error j (Py e)), s)
                  | Inr paths \<Rightarrow>
                      (case upload_program_to_cos env pj p paths j s of
                         (Inl e, s1) \<Rightarrow> (Inl (upload_error j e), s1)
                       | (Inr _, s1) \<Rightarrow> (Inr (pj, p, paths), s1)))))"

definition get_image :: "'c rn_env \<Rightarrow> program \<Rightarrow> string" where
  "get_image env p =
     (let cols = rn_columns env p in
      if pc_artifact cols \<noteq> None then rn_default_image env else if truthy (pc_image cols) then the (pc_image cols) else rn_default_image env)"

definition get_max_instances :: "'c rn_env \<Rightarrow> job \<Rightarrow> int" where
  "get_max_instances env j = (case rn_workers env j of Some n \<Rightarrow> if n \<noteq> 0 then n else rn_default_instances env | None \<Rightarrow> rn_default_instances env)"

definition fleet_body_of :: "'c rn_env \<Rightarrow> code_engine_project \<Rightarrow> program \<Rightarrow> FleetJobPaths \<Rightarrow> string option \<Rightarrow> job \<Rightarrow> fleet_body call_res" where
  "fleet_body_of env pj p paths identifier j =
     (case parse_compute_profile (rn_default_profile env) (compute_profile_id j) of
        Inl e \<Rightarrow> Inl (Py e)
      | Inr (cpu_limit, memory_limit, scale_gpu) \<Rightarrow>
          (case rn_loads env (env_vars j) of
             Inl e \<Rightarrow> Inl e
           | Inr stored \<Rightarrow>
               (case build_run_volume_mounts_for_job paths (rn_project env pj) of
                  Inl e \<Rightarrow> Inl (Py e)
                | Inr mounts \<Rightarrow>
                    Inr \<lparr>fb_name = build_fleet_name (map_option provider_name (program_provider p)) (title p) (job_id j), fb_image = get_image env p,
                         fb_subnet_pool = subnet_pool_id (rn_project env pj), fb_cpu = cpu_limit, fb_memory = memory_limit, fb_gpu = scale_gpu,
                         fb_max_instances = get_max_instances env j, fb_state_store = pds_name_state (rn_project env pj), fb_mounts = mounts,
                         fb_env = build_run_env_variables (rn_settings env) paths stored identifier,
                         fb_commands = [''python'', container_docker_entrypoint paths]\<rparr>)))"

definition runner_create_fleet ::
  "'c rn_env \<Rightarrow> code_engine_project \<times> program \<times> FleetJobPaths \<Rightarrow> job \<Rightarrow> 'c rn_state \<Rightarrow> (unit res \<times> job \<times> 'c rn_state) option" where
  "runner_create_fleet env = (\<lambda>(pj, p, paths) j s.
     case rn_mirrored env j of
       Inl e \<Rightarrow> Some (Inl e, j, s)
     | Inr mirrored \<Rightarrow>
         (case get_handler env pj of
            Inl e \<Rightarrow> Some (Inl e, j, s)
          | Inr api \<Rightarrow>
              (case fleet_body_of env pj p paths (if mirrored then Some (job_id j) else None) j of
                 Inl e \<Rightarrow> Some (Inl (create_error j e), j, s)
               | Inr body \<Rightarrow>
                   (case submit_fleet api (rn_fuel env) body (rn_ce s) of
                      None \<Rightarrow> None
                    | Some (Inl e, c) \<Rightarrow> Some (Inl (create_error j e), j, s\<lparr>rn_ce := c\<rparr>)
                    | Some (Inr i, c) \<Rightarrow>
                        if truthy i then Some (Inr (), j\<lparr>fleet_id := i\<rparr>, s\<lparr>rn_ce := c\<rparr>)
                        else Some (Inl (RunnerError ''Fleet submission succeeded but no fleet ID returned''), j, s\<lparr>rn_ce := c\<rparr>)))))"

definition runner_submit :: "'c rn_env \<Rightarrow> job \<times> 'c rn_state \<Rightarrow> (unit res \<times> job \<times> 'c rn_state) option" where
  "runner_submit env = (\<lambda>(j, s).
     case upload_to_cos env j s of
       (Inl e, s1) \<Rightarrow> Some (Inl e, j, s1)
     | (Inr p, s1) \<Rightarrow> runner_create_fleet env p j s1)"

text \<open>Reading the status. None is a failed listing; a \<open>ValueError\<close> is a mistake of the caller and is raised.\<close>

definition list_task_state_keys :: "'c rn_env \<Rightarrow> code_engine_project \<Rightarrow> string \<Rightarrow> string \<Rightarrow> string list option call_res" where
  "list_task_state_keys env pj bucket p =
     (case (case rn_cos env pj of Inl e \<Rightarrow> Inl e | Inr _ \<Rightarrow> rn_list_keys env bucket p) of
        Inr keys \<Rightarrow> Inr (Some keys)
      | Inl ex \<Rightarrow> (case ex of Py e \<Rightarrow> if value_error_text e \<noteq> None then Inl ex else Inr None | _ \<Rightarrow> Inr None))"

fun resolve_task_state_keys :: "'c rn_env \<Rightarrow> code_engine_project \<Rightarrow> string \<Rightarrow> string \<Rightarrow> string list \<Rightarrow> string \<Rightarrow> (string \<times> string list) call_res" where
  "resolve_task_state_keys env pj bucket fleet [] p = Inr (p, [])"
| "resolve_task_state_keys env pj bucket fleet (v # vs) _ =
     (let p = queue_prefix (project_id pj) fleet v in
      case list_task_state_keys env pj bucket p of
        Inl e \<Rightarrow> Inl e
      | Inr None \<Rightarrow> Inr (p, [])
      | Inr (Some keys) \<Rightarrow> if keys \<noteq> [] then Inr (p, keys) else resolve_task_state_keys env pj bucket fleet vs p)"

definition WARNED_FLEETS_LIMIT :: nat where
  "WARNED_FLEETS_LIMIT = 10000"

text \<open>The fleets that were warned about, as a list without repetition: whether this one is warned about now, and the fleets after it.\<close>

definition warn_unresolved_state :: "string \<Rightarrow> string list \<Rightarrow> bool \<times> string list" where
  "warn_unresolved_state fleet warned =
     (if fleet \<in> set warned then (False, warned)
      else (True, fleet # (if WARNED_FLEETS_LIMIT \<le> length warned then [] else warned)))"

definition runner_status :: "'c rn_env \<Rightarrow> job \<Rightarrow> string list \<Rightarrow> Status option call_res \<times> string list" where
  "runner_status env j warned =
     (if \<not> truthy (fleet_id j) then (Inl (Py (RunnerError ''Job has no fleet_id assigned'')), warned)
      else
        (case get_project j of
           Inl e \<Rightarrow> (Inl (Py e), warned)
         | Inr pj \<Rightarrow>
             if \<not> truthy (cos_bucket_task_store_name pj)
             then (Inl (Py (RunnerError (''CodeEngineProject '' @ quoted (project_name pj) @ '' has no cos_bucket_task_store_name configured''))), warned)
             else
               (case resolve_task_state_keys env pj (the (cos_bucket_task_store_name pj)) (the (fleet_id j)) TASK_STORE_VERSIONS [] of
                  Inl e \<Rightarrow> (Inl e, warned)
                | Inr (p, keys) \<Rightarrow>
                    if keys = [] then (Inr None, warned)
                    else (case status_of_keys p keys of
                            Some st \<Rightarrow> (Inr (Some st), removeAll (the (fleet_id j)) warned)
                          | None \<Rightarrow> (Inr None, snd (warn_unresolved_state (the (fleet_id j)) warned))))))"

definition runner_stop :: "'c rn_env \<Rightarrow> job \<times> 'c rn_state \<Rightarrow> (bool res \<times> 'c rn_state) option" where
  "runner_stop env = (\<lambda>(j, s).
     if \<not> truthy (fleet_id j) then Some (Inl (RunnerError ''Job has no fleet_id assigned''), s)
     else if job_program j = None then Some (Inr False, s)
     else
       (case get_project j of
          Inl e \<Rightarrow> Some (Inl e, s)
        | Inr pj \<Rightarrow>
            (case get_handler env pj of
               Inl e \<Rightarrow> Some (Inl (RunnerRetryableError ''Unable to reach Code Engine''), s)
             | Inr api \<Rightarrow>
                 (case cancel_job api (rn_fuel env) (the (fleet_id j)) (rn_ce s) of
                    None \<Rightarrow> None
                  | Some (Inr b, c) \<Rightarrow> Some (Inr b, s\<lparr>rn_ce := c\<rparr>)
                  | Some (Inl e, c) \<Rightarrow> Some (Inl (stop_error (the (fleet_id j)) e), s\<lparr>rn_ce := c\<rparr>)))))"

definition may_delete_fleet :: "job \<Rightarrow> bool" where
  "may_delete_fleet j \<longleftrightarrow> truthy (fleet_id j) \<and> status j \<in> set TERMINAL_STATUSES"

definition runner_free_resources :: "'c rn_env \<Rightarrow> job \<times> 'c rn_state \<Rightarrow> (bool res \<times> 'c rn_state) option" where
  "runner_free_resources env = (\<lambda>(j, s).
     if \<not> may_delete_fleet j then Some (Inr False, s)
     else
       (case execution_project env j of
          Inl e \<Rightarrow> Some (Inr False, s)
        | Inr pj \<Rightarrow>
            (case get_handler env pj of
               Inl e \<Rightarrow>
                 Some (Inl (RunnerRetryableError (''Unable to reach Code Engine: '' @
                   rn_text env (Py (RunnerError (''Unable to connect to Code Engine Fleets in region ['' @ cep_region pj @ '']''))))), s)
             | Inr api \<Rightarrow>
                 (case delete_job api (rn_fuel env) (the (fleet_id j)) (rn_ce s) of
                    None \<Rightarrow> None
                  | Some (Inr _, c) \<Rightarrow> Some (Inr True, s\<lparr>rn_ce := c\<rparr>)
                  | Some (Inl e, c) \<Rightarrow>
                      (case free_error (rn_text env) e of
                         Some e' \<Rightarrow> Some (Inl e', s\<lparr>rn_ce := c\<rparr>)
                       | None \<Rightarrow> Some (Inr False, s\<lparr>rn_ce := c\<rparr>))))))"

definition count_project_fleets :: "'c rn_env \<Rightarrow> (nat \<Rightarrow> int) \<Rightarrow> int \<Rightarrow> code_engine_project \<Rightarrow> 'c \<Rightarrow> nat res option" where
  "count_project_fleets env clock deadline pj c =
     (let failed = RunnerError (''Unable to count the fleets of project '' @ project_name pj) in
      if \<not> rn_api_key env then Some (Inl (RunnerError ''IBM_CLOUD_API_KEY not configured in settings''))
      else if isl (rn_auth env pj) then Some (Inl failed)
      else map_option (map_sum (\<lambda>_. failed) id) (count_fleets (rn_api env pj) clock deadline (rn_fuel env) c))"

section \<open>Names that stay inside\<close>

lemma norm_components_shape:
  assumes "\<exists>k xs. rev acc = replicate k ''..'' @ xs \<and> ''..'' \<notin> set xs \<and> (rooted \<longrightarrow> k = 0)" "\<forall>c \<in> set acc \<union> set cs. CHR ''/'' \<notin> set c" "[] \<notin> set acc"
  shows "\<exists>k xs. norm_components rooted acc cs = replicate k ''..'' @ xs \<and> ''..'' \<notin> set xs \<and> (rooted \<longrightarrow> k = 0) \<and>
    (\<forall>c \<in> set (replicate k ''..'' @ xs). CHR ''/'' \<notin> set c \<and> c \<noteq> [])"
  using assms
proof (induction rooted acc cs rule: norm_components.induct)
  case (1 rooted acc)
  then show ?case by (metis (no_types, lifting) UnCI norm_components.simps(1) set_rev)
next
  case (2 rooted acc c cs)
  obtain k xs where a: "rev acc = replicate k ''..'' @ xs" "''..'' \<notin> set xs" "rooted \<longrightarrow> k = 0" using 2(4) by blast
  consider (skip) "c = [] \<or> c = ''.''" | (push) "\<not> (c = [] \<or> c = ''.'')" "c \<noteq> ''..'' \<or> (\<not> rooted \<and> acc = []) \<or> (acc \<noteq> [] \<and> hd acc = ''..'')"
    | (pop) "\<not> (c = [] \<or> c = ''.'')" "\<not> (c \<noteq> ''..'' \<or> (\<not> rooted \<and> acc = []) \<or> (acc \<noteq> [] \<and> hd acc = ''..''))" by blast
  then show ?case
  proof cases
    case skip
    then show ?thesis using 2(1) [OF skip 2(4)] 2(5,6) by simp
  next
    case push
    have "\<exists>k xs. rev (c # acc) = replicate k ''..'' @ xs \<and> ''..'' \<notin> set xs \<and> (rooted \<longrightarrow> k = 0)"
    proof (cases "c = ''..''")
      case False
      then show ?thesis using a by (intro exI [of _ k] exI [of _ "xs @ [c]"]) simp
    next
      case True
      have "xs = []"
      proof (cases xs rule: rev_cases)
        case (snoc ys y)
        then have "rev (rev acc) = rev (replicate k ''..'' @ ys @ [y])" unfolding a(1) by simp
        then have "acc \<noteq> [] \<and> hd acc = y" by simp
        then show ?thesis using push(2) True a(2) snoc by auto
      qed simp
      moreover have "\<not> rooted"
      proof
        assume "rooted"
        then have "acc = []" using a \<open>xs = []\<close> by simp
        then show False using push(2) True \<open>rooted\<close> by simp
      qed
      ultimately show ?thesis using a True by (intro exI [of _ "Suc k"] exI [of _ "[]"]) (simp add: replicate_append_same)
    qed
    moreover have "\<forall>d \<in> set (c # acc) \<union> set cs. CHR ''/'' \<notin> set d" "[] \<notin> set (c # acc)" using 2(5,6) push(1) by auto
    ultimately show ?thesis using 2(2) [OF push] push by simp
  next
    case pop
    have "\<exists>k xs. rev (tl acc) = replicate k ''..'' @ xs \<and> ''..'' \<notin> set xs \<and> (rooted \<longrightarrow> k = 0)"
    proof (cases xs rule: rev_cases)
      case Nil
      then have "acc = replicate k ''..''" using a(1) by (metis append_Nil2 rev_replicate rev_rev_ident)
      then have "acc = []" using pop(2) by (cases k) auto
      then show ?thesis by (intro exI [of _ 0] exI [of _ "[]"]) simp
    next
      case (snoc ys y)
      then have "rev (tl acc) = replicate k ''..'' @ ys" using a(1) butlast_rev [of acc] by (simp add: butlast_append)
      then show ?thesis using a snoc by (intro exI [of _ k] exI [of _ ys]) auto
    qed
    moreover have "set (tl acc) \<subseteq> set acc" by (cases acc) auto
    ultimately show ?thesis using 2(3) [OF pop] 2(5,6) pop by (simp add: subset_iff) blast
  qed
qed

text \<open>A safe name has no \<open>..\<close> among its components, so the key it is stored under lies below the prefix it is put behind.\<close>

lemma safe_name_inside:
  assumes "\<not> unsafe_name (normpath nm)"
  shows "''..'' \<notin> set (split_on (CHR ''/'') (normpath nm))"
proof (cases "nm = []")
  case True
  then show ?thesis by (simp add: normpath_def)
next
  case False
  let ?cs = "norm_components (initial_slashes nm \<noteq> 0) [] (split_on (CHR ''/'') nm)"
  obtain k xs where n: "?cs = replicate k ''..'' @ xs" "''..'' \<notin> set xs" "\<forall>c \<in> set ?cs. CHR ''/'' \<notin> set c \<and> c \<noteq> []"
  proof -
    have parts: "\<forall>c \<in> set [] \<union> set (split_on (CHR ''/'') nm). CHR ''/'' \<notin> set c" by (auto simp: split_on_parts_no_sep)
    have start: "\<exists>k xs. rev [] = replicate k ''..'' @ xs \<and> ''..'' \<notin> set xs \<and> (initial_slashes nm \<noteq> 0 \<longrightarrow> k = 0)"
      by (intro exI [of _ 0] exI [of _ "[]"]) simp
    from norm_components_shape [OF start parts] obtain k xs where "?cs = replicate k ''..'' @ xs" "''..'' \<notin> set xs"
      "\<forall>c \<in> set (replicate k ''..'' @ xs). CHR ''/'' \<notin> set c \<and> c \<noteq> []" by auto
    then show thesis by (intro that [of k xs]) simp_all
  qed
  have z: "initial_slashes nm = 0"
  proof (rule ccontr)
    assume "initial_slashes nm \<noteq> 0"
    then have "prefix ''/'' (normpath nm)" using False by (auto simp: normpath_def Let_def gr0_conv_Suc dest!: not0_implies_Suc)
    then show False using assms by (simp add: unsafe_name_def)
  qed
  show ?thesis
  proof (cases "?cs = []")
    case True
    then show ?thesis using z False by (simp add: normpath_def)
  next
    case ne: False
    have j: "split_on (CHR ''/'') (join_with ''/'' ?cs) = ?cs" using ne n(3) by (intro split_join) auto
    have "join_with ''/'' ?cs \<noteq> []" using ne n(3) by (cases ?cs; cases "tl ?cs") auto
    then have p: "normpath nm = join_with ''/'' ?cs" using z False by (simp add: normpath_def Let_def)
    have "k = 0"
    proof (rule ccontr)
      assume "k \<noteq> 0"
      then obtain rest where "?cs = ''..'' # rest" using n(1) by (cases k) auto
      then have "unsafe_name (normpath nm)" unfolding p unsafe_name_def by (cases rest) auto
      then show False using assms by simp
    qed
    then show ?thesis using p j n by simp
  qed
qed

section \<open>What an upload stores\<close>

text \<open>The objects a submission may store: below the function's prefix in the user data, without a way up, or one of the two scripts of a provider.\<close>

definition own_object :: "code_engine_project \<Rightarrow> FleetJobPaths \<Rightarrow> string \<times> string \<Rightarrow> bool" where
  "own_object pj paths = (\<lambda>(b, k).
     (Some b = cos_bucket_user_data_name pj \<and>
        (k = cos_docker_entrypoint paths \<or> (\<exists>nm. k = cos_user_function_prefix paths @ ''/'' @ nm \<and> ''..'' \<notin> set (split_on (CHR ''/'') nm)))) \<or>
     (Some b = cos_bucket_provider_data_name pj \<and> k \<in> {cos_docker_entrypoint paths, cos_function_entrypoint paths}))"

definition stores :: "(string \<times> string \<Rightarrow> bool) \<Rightarrow> 'c rn_state \<Rightarrow> 'c rn_state \<Rightarrow> bool" where
  "stores ok s s' \<longleftrightarrow> rn_ce s' = rn_ce s \<and> (\<exists>new. rn_objects s' = rn_objects s @ new \<and> list_all ok new)"

lemma stores_refl [simp]: "stores ok s s"
  by (simp add: stores_def)

lemma stores_trans: "stores ok s s1 \<Longrightarrow> stores ok s1 s2 \<Longrightarrow> stores ok s s2"
  by (force simp: stores_def)

lemma upload_fileobj_stores:
  "upload_fileobj env pj bucket key s = (r, s') \<Longrightarrow> (\<And>b. bucket = Some b \<Longrightarrow> ok (b, key)) \<Longrightarrow> stores ok s s'"
  by (cases bucket) (auto simp: upload_fileobj_def stores_def split: sum.splits if_splits)

lemma upload_members_stores:
  assumes "\<And>b nm. cos_bucket_user_data_name pj = Some b \<Longrightarrow> ''..'' \<notin> set (split_on (CHR ''/'') nm) \<Longrightarrow> ok (b, base @ ''/'' @ nm)"
  shows "upload_members env pj base entrypoint found ms s = (r, s') \<Longrightarrow> stores ok s s'"
proof (induction ms arbitrary: found s)
  case (Cons m ms)
  let ?nm = "normpath (tm_name m)"
  show ?case
  proof (cases "\<not> tm_isfile m \<or> unsafe_name ?nm")
    case True
    then show ?thesis using Cons by (simp add: Let_def)
  next
    case False
    obtain ru s1 where u: "upload_fileobj env pj (cos_bucket_user_data_name pj) (base @ ''/'' @ ?nm) s = (ru, s1)" by fastforce
    have st: "stores ok s s1" using False assms safe_name_inside by (intro upload_fileobj_stores [OF u]) blast
    show ?thesis using Cons.prems False u st Cons.IH stores_trans [OF st]
      by (auto simp: Let_def split: sum.splits bool.splits)
  qed
qed simp

lemma upload_program_stores:
  assumes "upload_program_to_cos env pj p paths j s = (r, s')"
  shows "stores (own_object pj paths) s s'"
proof -
  let ?ok = "own_object pj paths"
  have custom: "stores ?ok s s'" if "upload_custom_image_entrypoint env pj cols paths j s = (r, s')" for cols
  proof -
    obtain r1 s1 where u: "upload_fileobj env pj (cos_bucket_user_data_name pj) (cos_docker_entrypoint paths) s = (r1, s1)" by fastforce
    have st: "stores ?ok s s1" by (rule upload_fileobj_stores [OF u]) (simp add: own_object_def)
    have mem: "stores ?ok s1 s2" if "upload_members env pj (cos_user_function_prefix paths) e f ms s1 = (rm, s2)" for e f ms rm s2
      by (rule upload_members_stores [OF _ that]) (auto simp: own_object_def)
    show ?thesis using that u st mem stores_trans [OF st]
      by (auto simp: upload_custom_image_entrypoint_def split: option.splits sum.splits prod.splits if_splits)
  qed
  have provider: "stores ?ok s s'" if u: "upload_provider_image_entrypoint env pj p paths s = (r, s')"
  proof (cases "program_provider p")
    case (Some pr)
    obtain r1 s1 where u1: "upload_fileobj env pj (cos_bucket_provider_data_name pj) (cos_docker_entrypoint paths) s = (r1, s1)" by fastforce
    have st: "stores ?ok s s1" by (rule upload_fileobj_stores [OF u1]) (simp add: own_object_def)
    moreover have "stores ?ok s1 s2" if "upload_fileobj env pj (cos_bucket_provider_data_name pj) (cos_function_entrypoint paths) s1 = (r2, s2)" for r2 s2
      by (rule upload_fileobj_stores [OF that]) (simp add: own_object_def)
    ultimately show ?thesis using u u1 Some stores_trans [OF st] by (auto simp: upload_provider_image_entrypoint_def split: sum.splits)
  qed (use u in \<open>simp add: upload_provider_image_entrypoint_def\<close>)
  show ?thesis using assms custom provider by (auto simp: upload_program_to_cos_def Let_def split: if_splits)
qed

section \<open>What a submission ends in\<close>

lemma api_error_runner [simp]: "is_RunnerError (api_error st reason)" "is_RunnerError (host_error b)" "is_RunnerError (failed_to_submit j)"
  by (simp_all add: api_error_def host_error_def failed_to_submit_def)

lemma errors_runner [simp]: "is_RunnerError (upload_error j e)" "is_RunnerError (create_error j e)" "is_RunnerError (stop_error i e)"
  by (simp_all add: upload_error_def create_error_def stop_error_def Let_def split: call_exn.split option.split)

lemma get_project_runner: "get_project j = Inl e \<Longrightarrow> is_RunnerError e"
  by (auto simp: get_project_def split: option.splits if_splits)

lemma get_handler_runner: "get_handler env pj = Inl e \<Longrightarrow> is_RunnerError e"
  by (auto simp: get_handler_def split: if_splits)

lemma upload_to_cos_outcome:
  assumes "upload_to_cos env j s = (r, s')"
  shows "(\<forall>e. r = Inl e \<longrightarrow> is_RunnerError e) \<and>
    (s' = s \<or> (\<exists>pj p paths. get_project j = Inr pj \<and> job_program j = Some p \<and> build_job_paths (pc_entrypoint (rn_columns env p)) j = Inr paths \<and>
       stores (own_object pj paths) s s'))"
proof (cases "get_project j")
  case (Inr pj)
  then obtain p where p: "job_program j = Some p" by (auto simp: get_project_def split: option.splits)
  show ?thesis
  proof (cases "is_cos_configured env p pj")
    case True
    show ?thesis
    proof (cases "build_job_paths (pc_entrypoint (rn_columns env p)) j")
      case paths: (Inr paths)
      obtain r1 s1 where u: "upload_program_to_cos env pj p paths j s = (r1, s1)" by fastforce
      show ?thesis using assms Inr p True paths u upload_program_stores [OF u] by (auto simp: upload_to_cos_def split: sum.splits)
    qed (use assms Inr p True in \<open>auto simp: upload_to_cos_def\<close>)
  qed (use assms Inr p in \<open>auto simp: upload_to_cos_def\<close>)
qed (use assms get_project_runner in \<open>auto simp: upload_to_cos_def\<close>)

lemma runner_create_fleet_outcome:
  assumes "runner_create_fleet env (pj, p, paths) j s = Some (r, j', s')"
  shows "rn_objects s' = rn_objects s" "r = Inr u \<Longrightarrow> \<exists>i. i \<noteq> [] \<and> j' = j\<lparr>fleet_id := Some i\<rparr>"
    "r = Inl e \<Longrightarrow> j' = j \<and> (is_RunnerError e \<or> rn_mirrored env j = Inl e)"
  using assms get_handler_runner
  by (auto simp: runner_create_fleet_def truthy_def split: sum.splits option.splits if_splits prod.splits)

text \<open>
  C20: Submitting a Fleets job ends in one of two ways. It returns and the job carries the identifier of its fleet, or it raises and leaves
  the job as it was; what it raises is always an error of the runner, unless asking the database failed. When the upload of the files failed,
  nothing was asked of Code Engine. And all it ever stores are objects of its own: below the prefix of the function in the user data, with no
  way up from there whatever the names in the archive are, or the two scripts in the provider data.
\<close>

theorem submission_is_contained:
  assumes "runner_submit env (j, s) = Some (r, j', s')"
  shows "(case r of
      Inr _ \<Rightarrow> \<exists>i. i \<noteq> [] \<and> j' = j\<lparr>fleet_id := Some i\<rparr>
    | Inl e \<Rightarrow> j' = j \<and> (is_RunnerError e \<or> rn_mirrored env j = Inl e)) \<and>
    (isl (fst (upload_to_cos env j s)) \<longrightarrow> rn_ce s' = rn_ce s) \<and>
    (\<exists>new. rn_objects s' = rn_objects s @ new \<and>
       (new = [] \<or> (\<exists>pj p paths. get_project j = Inr pj \<and> job_program j = Some p \<and>
          build_job_paths (pc_entrypoint (rn_columns env p)) j = Inr paths \<and> list_all (own_object pj paths) new)))"
proof -
  obtain r1 s1 where u: "upload_to_cos env j s = (r1, s1)" by fastforce
  note o = upload_to_cos_outcome [OF u]
  have ce: "rn_ce s1 = rn_ce s" using o by (auto simp: stores_def)
  have new: "\<exists>new. rn_objects s1 = rn_objects s @ new \<and>
       (new = [] \<or> (\<exists>pj p paths. get_project j = Inr pj \<and> job_program j = Some p \<and>
          build_job_paths (pc_entrypoint (rn_columns env p)) j = Inr paths \<and> list_all (own_object pj paths) new))"
    using o unfolding stores_def by fastforce
  show ?thesis
  proof (cases r1)
    case (Inl e)
    then have "r = Inl e" "j' = j" "s' = s1" using assms u by (auto simp: runner_submit_def)
    then show ?thesis using Inl o ce new by simp
  next
    case (Inr q)
    obtain pj p paths where q: "q = (pj, p, paths)" by (metis prod_cases3)
    have c: "runner_create_fleet env (pj, p, paths) j s1 = Some (r, j', s')" using assms u Inr q by (simp add: runner_submit_def)
    note k = runner_create_fleet_outcome [OF c]
    have "case r of Inr _ \<Rightarrow> \<exists>i. i \<noteq> [] \<and> j' = j\<lparr>fleet_id := Some i\<rparr>
      | Inl e \<Rightarrow> j' = j \<and> (is_RunnerError e \<or> rn_mirrored env j = Inl e)" using k(2,3) by (cases r) auto
    then show ?thesis using k(1) new u Inr by simp
  qed
qed

text \<open>A custom function and its job, in surroundings where everything works; its archive tries to climb out.\<close>

definition ex_project :: code_engine_project where
  "ex_project = \<lparr>cep_id = 1, project_id = ''p'', project_name = ''proj'', cep_region = ''us-east'', cos_bucket_task_store_name = Some ''tasks'',
     cos_bucket_user_data_name = Some ''users'', cos_bucket_provider_data_name = None, cep_active = True, cep_dedicated = False\<rparr>"

definition ex_author :: user where
  "ex_author = \<lparr>user_id = 1, username = ''u'', is_active = True, user_groups = []\<rparr>"

definition ex_function :: program where
  "ex_function = \<lparr>program_id = 1, title = ''f'', disabled = False, disabled_message = None, program_env_vars = [], arguments_schema = None,
     program_runner = FLEETS, program_gpu = False, default_size = None, instances = [], trial_instances = [], program_author = ex_author,
     program_provider = None, program_project = Some ex_project\<rparr>"

definition ex_fleets_job :: job where
  "ex_fleets_job = (Job_new ex_job_uuid ex_author 0)\<lparr>job_program := Some ex_function\<rparr>"

definition ex_member :: "string \<Rightarrow> tar_member" where
  "ex_member nm = \<lparr>tm_name = nm, tm_isfile = True, tm_extract = Inr True\<rparr>"

definition made_api :: "fleet list ce_api" where
  "made_api = ex_api\<lparr>create_fleet := (\<lambda>body c. if list_ex (\<lambda>f. fleet_name f = Some (fb_name body)) c then (Inl name_conflict, c)
     else (Inr (Some ex_job_uuid), c @ [ex_fleet (fb_name body) ex_job_uuid]))\<rparr>"

definition ex_runner :: "fleet list rn_env" where
  "ex_runner = \<lparr>rn_api = (\<lambda>_. made_api), rn_api_key = True, rn_auth = (\<lambda>_. Inr ()), rn_cos = (\<lambda>_. Inr ()), rn_put = (\<lambda>_ _ _. Inr ()),
     rn_list_keys = (\<lambda>_ _. Inr [''ce/p/x/v3/queue/running/1'']),
     rn_columns = (\<lambda>_. \<lparr>pc_entrypoint = ''main.py'', pc_artifact = Some (Inr [ex_member ''./main.py'', ex_member ''a/../../x/results.json'']), pc_image = None\<rparr>),
     rn_project = (\<lambda>_. \<lparr>pds_name_state = ''st'', pds_name_users = ''us'', pds_name_providers = ''pr'', subnet_pool_id = ''s'', cos_instance_name = Some ''c'',
       cos_key_name = Some ''k''\<rparr>), rn_projects = [ex_project],
     rn_settings = \<lparr>FLEETS_GATEWAY_HOST = None, FLEETS_RUNTIME_IAM_URL = [], FLEETS_RUNTIME_GLOBAL_SEARCH_URL = [],
       FLEETS_RUNTIME_GLOBAL_CATALOG_URL = [], FLEETS_RUNTIME_EXPERIMENTAL = False, FLEETS_LOG_FLUSH_INTERVAL_SECONDS = ''15'',
       FUNCTIONS_LOGS_SIZE_LIMIT = ''52428800'', QISKIT_SETTINGS_CONTAINER_PATH = ''/tmp/settings''\<rparr>,
     rn_default_profile = ''16x128'', rn_default_image = ''img'', rn_default_instances = 1, rn_workers = (\<lambda>_. None), rn_loads = (\<lambda>_. Inr []),
     rn_mirrored = (\<lambda>_. Inr True), rn_text = (\<lambda>_. []), rn_fuel = 3\<rparr>"

definition ex_store :: "fleet list rn_state" where
  "ex_store = \<lparr>rn_ce = [], rn_objects = []\<rparr>"

theorem submission_is_contained_witness:
  "\<exists>j' s' i. runner_submit ex_runner (ex_fleets_job, ex_store) = Some (Inr (), j', s') \<and> j' = ex_fleets_job\<lparr>fleet_id := Some i\<rparr> \<and> i \<noteq> [] \<and>
     map snd (rn_objects s') = [''users/u/custom_functions/f/data/fleet_custom_job_wrapper.py'', ''users/u/custom_functions/f/data/main.py'']"
proof -
  let ?x = "runner_submit ex_runner (ex_fleets_job, ex_store)"
  have "map_option (\<lambda>(r, j, s). (r, map snd (rn_objects s))) ?x =
    Some (Inr (), [''users/u/custom_functions/f/data/fleet_custom_job_wrapper.py'', ''users/u/custom_functions/f/data/main.py''])" by code_simp
  then obtain j' s' where x: "?x = Some (Inr (), j', s')"
    "map snd (rn_objects s') = [''users/u/custom_functions/f/data/fleet_custom_job_wrapper.py'', ''users/u/custom_functions/f/data/main.py'']" by auto
  from submission_is_contained [OF x(1)] obtain i where "i \<noteq> []" "j' = ex_fleets_job\<lparr>fleet_id := Some i\<rparr>" by auto
  with x show ?thesis by (intro exI [of _ j'] exI [of _ s'] exI [of _ i]) simp
qed

section \<open>What a delete and a cancel end in\<close>

lemma free_error_retryable: "free_error txt e = Some e' \<Longrightarrow> is_RunnerRetryableError e'"
  by (cases e) (auto simp: free_error_def Let_def split: if_splits)

text \<open>
  C21: The fleet of a job that has not ended is never deleted, whatever Code Engine would say: nothing is asked of it then. Of a job that
  ended, the answer True means that Code Engine deleted its fleet in the project it ran in, or has no such fleet there; every failure that
  a later try can fix is raised as such, and nothing else is raised.
\<close>

theorem running_fleet_is_not_deleted:
  assumes "runner_free_resources env (j, s) = Some (r, s')"
  shows "(\<not> in_terminal_state j \<or> \<not> truthy (fleet_id j) \<longrightarrow> r = Inr False \<and> s' = s) \<and>
    (\<forall>e. r = Inl e \<longrightarrow> is_RunnerRetryableError e) \<and> rn_objects s' = rn_objects s \<and>
    (r = Inr True \<longrightarrow> in_terminal_state j \<and>
       (\<exists>pj i c. execution_project env j = Inr pj \<and> resolve_fleet_id (rn_api env pj) (rn_fuel env) (the (fleet_id j)) (rn_ce s) = Some (Inr i) \<and>
          delete_fleet (rn_api env pj) i (rn_ce s) = (c, rn_ce s') \<and> (\<forall>e. c = Inl e \<longrightarrow> status_of e = Some 404)))"
proof (cases "may_delete_fleet j")
  case True
  show ?thesis
  proof (cases "execution_project env j")
    case (Inr pj)
    show ?thesis
    proof (cases "get_handler env pj")
      case api: (Inr api)
      then have a: "api = rn_api env pj" by (auto simp: get_handler_def split: if_splits)
      obtain d c where d: "delete_job api (rn_fuel env) (the (fleet_id j)) (rn_ce s) = Some (d, c)"
        using assms True Inr api by (auto simp: runner_free_resources_def split: option.splits)
      then have s': "rn_objects s' = rn_objects s" "rn_ce s' = c" "r = (case d of Inr _ \<Rightarrow> Inr True | Inl e \<Rightarrow> (case free_error (rn_text env) e of Some e' \<Rightarrow> Inl e' | None \<Rightarrow> Inr False))"
        using assms True Inr api by (auto simp: runner_free_resources_def split: sum.splits option.splits)
      have "\<exists>i x. resolve_fleet_id api (rn_fuel env) (the (fleet_id j)) (rn_ce s) = Some (Inr i) \<and> delete_fleet api i (rn_ce s) = (x, c) \<and>
          (\<forall>e. x = Inl e \<longrightarrow> status_of e = Some 404)" if "d = Inr b" for b
        using d that by (auto simp: delete_job_def split: option.splits sum.splits prod.splits if_splits)
      then show ?thesis using True Inr s' a free_error_retryable
        by (cases d) (auto simp: may_delete_fleet_def in_terminal_state_def split: option.splits)
    qed (use assms True Inr in \<open>auto simp: runner_free_resources_def may_delete_fleet_def in_terminal_state_def\<close>)
  qed (use assms True in \<open>auto simp: runner_free_resources_def may_delete_fleet_def in_terminal_state_def\<close>)
qed (use assms in \<open>auto simp: runner_free_resources_def may_delete_fleet_def in_terminal_state_def\<close>)

definition ex_held :: "fleet list rn_state" where
  "ex_held = \<lparr>rn_ce = [ex_fleet ''n'' ex_job_uuid], rn_objects = []\<rparr>"

theorem running_fleet_is_not_deleted_witness:
  "(\<exists>s'. runner_free_resources ex_runner (ex_fleets_job\<lparr>fleet_id := Some ex_job_uuid, status := RUNNING\<rparr>, ex_held) = Some (Inr False, s') \<and> s' = ex_held) \<and>
   (\<exists>s'. runner_free_resources ex_runner (ex_fleets_job\<lparr>fleet_id := Some ex_job_uuid, status := SUCCEEDED\<rparr>, ex_held) = Some (Inr True, s') \<and> rn_ce s' = [])"
proof
  let ?j = "\<lambda>st. ex_fleets_job\<lparr>fleet_id := Some ex_job_uuid, status := st\<rparr>"
  have some: "runner_free_resources ex_runner (?j RUNNING, ex_held) \<noteq> None" by (simp add: runner_free_resources_def may_delete_fleet_def TERMINAL_STATUSES_def)
  then obtain r s' where "runner_free_resources ex_runner (?j RUNNING, ex_held) = Some (r, s')" by auto
  from running_fleet_is_not_deleted [OF this] this
  show "\<exists>s'. runner_free_resources ex_runner (?j RUNNING, ex_held) = Some (Inr False, s') \<and> s' = ex_held"
    by (simp add: in_terminal_state_def TERMINAL_STATUSES_def)
  have "map_option (\<lambda>(r, s). (r, rn_ce s)) (runner_free_resources ex_runner (?j SUCCEEDED, ex_held)) = Some (Inr True, [])" by code_simp
  then show "\<exists>s'. runner_free_resources ex_runner (?j SUCCEEDED, ex_held) = Some (Inr True, s') \<and> rn_ce s' = []" by auto
qed

text \<open>
  Stopping raises only errors of the runner; the answer False means that nothing will report an end any more, because the function was
  deleted or Code Engine has no such fleet; and every answer of Code Engine that is not an acceptance can be tried again.
\<close>

lemma runner_stop_outcome:
  assumes "runner_stop env (j, s) = Some (r, s')" "uuid_match (the (fleet_id j))"
  shows "\<forall>e. r = Inl e \<longrightarrow> is_RunnerError e"
    and "r = Inr False \<Longrightarrow> job_program j = None \<or>
      (\<exists>pj e. get_project j = Inr pj \<and> fst (cancel_fleet (rn_api env pj) (the (fleet_id j)) (rn_ce s)) = Inl e \<and> status_of e = Some 404)"
proof -
  show "\<forall>e. r = Inl e \<longrightarrow> is_RunnerError e"
    using assms get_project_runner by (auto simp: runner_stop_def split: if_splits sum.splits option.splits prod.splits)
  assume r: "r = Inr False"
  show "job_program j = None \<or>
      (\<exists>pj e. get_project j = Inr pj \<and> fst (cancel_fleet (rn_api env pj) (the (fleet_id j)) (rn_ce s)) = Inl e \<and> status_of e = Some 404)"
  proof (cases "job_program j = None")
    case False
    then obtain pj api c where k: "get_project j = Inr pj" "get_handler env pj = Inr api"
      "cancel_job api (rn_fuel env) (the (fleet_id j)) (rn_ce s) = Some (Inr False, c)"
      using assms(1) r by (auto simp: runner_stop_def split: if_splits sum.splits option.splits prod.splits)
    have "api = rn_api env pj" using k(2) by (auto simp: get_handler_def split: if_splits)
    then show ?thesis using k(1) cancel_job_True(1) [OF k(3) assms(2)] by (auto split: sum.splits)
  qed simp
qed

text \<open>The set of fleets that were warned about never grows past its limit.\<close>

lemma warned_bounded: "length warned \<le> WARNED_FLEETS_LIMIT \<Longrightarrow> length (snd (runner_status env j warned)) \<le> WARNED_FLEETS_LIMIT"
proof -
  assume w: "length warned \<le> WARNED_FLEETS_LIMIT"
  have "length (removeAll f warned) \<le> WARNED_FLEETS_LIMIT" for f using w length_removeAll_less_eq [of f warned] by linarith
  moreover have "length (snd (warn_unresolved_state f warned)) \<le> WARNED_FLEETS_LIMIT" for f
    using w by (auto simp: warn_unresolved_state_def WARNED_FLEETS_LIMIT_def)
  ultimately show ?thesis using w by (auto simp: runner_status_def split: sum.splits prod.splits option.splits)
qed

end
