(* ===== verification/Client_Requests.thy ===== *)
theory Client_Requests
  imports Json_Documents "HOL-Library.AList"
begin

text \<open>
  The requests of the client library: how an answer of the gateway becomes data or an exception
  (\<^verbatim>\<open>client/qiskit_serverless/utils/json.py\<close>, \<^verbatim>\<open>utils/errors.py\<close>), the names of the statuses, and the reading of a job with its
  status token (\<^verbatim>\<open>core/job.py\<close>, \<open>ServerlessClient.get_job_data\<close>). What the network answers, how long it takes, \<open>json.loads\<close> and \<open>str\<close> are
  parameters. Moments and lengths of time are integers, in microseconds.
\<close>

section \<open>Errors\<close>

datatype err_code = Status_code int | Text_code string

datatype client_exn =
    ServerlessException string "err_code option"
  | Client_TypeError string
  | Client_AttributeError string
  | Client_TimeoutError string
  | Client_KeyError string
  | Client_ValueError string

type_synonym 'a client_res = "client_exn + 'a"

definition TRANSIENT_ERROR_CODES :: "err_code list" where
  "TRANSIENT_ERROR_CODES = [Text_code ''CONN1001'', Text_code ''EMPTY1001'', Status_code 429, Status_code 502, Status_code 503, Status_code 504]"

definition code_of :: "client_exn \<Rightarrow> err_code option" where
  "code_of e = (case e of ServerlessException _ c \<Rightarrow> c | _ \<Rightarrow> None)"

definition is_transient_error :: "client_exn \<Rightarrow> bool" where
  "is_transient_error e \<longleftrightarrow> (case code_of e of None \<Rightarrow> False | Some c \<Rightarrow> c \<in> set TRANSIENT_ERROR_CODES)"

definition is_http_standard_error :: "err_code \<Rightarrow> bool" where
  "is_http_standard_error c = (case c of Status_code n \<Rightarrow> 100 \<le> n \<and> n < 600 | Text_code _ \<Rightarrow> False)"

definition error_mapping :: "(string \<times> string) list" where
  "error_mapping =
     [(''AUTH1001'', ''Connection error. Make sure configuration (host and auth details) is correct.''),
      (''CONN1001'', ''Could not reach the Functions service. This is often temporary; check your network connection and try again. '' @
         ''If it persists, verify the host you are connecting to.''),
      (''EMPTY1001'', ''The Functions service returned an empty response. This is usually temporary; try again.''),
      (''HTTP_STD_ERROR'', ''Http bad request.''),
      (''JSON1001'', ''Error occurred during decoding server json response.'')]"

definition DEFAULT_ERROR_MESSAGE :: string where
  "DEFAULT_ERROR_MESSAGE = ''Something went wrong.''"

text \<open>\<open>len\<close> of a document: a number, a boolean and null have none.\<close>

fun json_len :: "json \<Rightarrow> nat option" where
  "json_len (JStr s) = Some (length s)"
| "json_len (JList xs) = Some (length xs)"
| "json_len (JObj kvs) = Some (length kvs)"
| "json_len _ = None"

abbreviation line_break :: string where
  "line_break \<equiv> [char_of (10 :: nat)]"

fun detail_lines :: "(json \<Rightarrow> string) \<Rightarrow> (string \<times> json) list \<Rightarrow> string option" where
  "detail_lines str [] = Some []"
| "detail_lines str ((k, v) # kvs) =
     (case json_len v of
        None \<Rightarrow> None
      | Some n \<Rightarrow>
          map_option (\<lambda>rest. (if n = 0 then []
             else line_break @ ''|   - '' @ k @ '': '' @ (case v of JList (x # _) \<Rightarrow> str x | _ \<Rightarrow> str v)) @ rest)
            (detail_lines str kvs))"

definition format_err_msg :: "(string \<Rightarrow> json option) \<Rightarrow> (json \<Rightarrow> string) \<Rightarrow> err_code \<Rightarrow> string \<Rightarrow> string client_res" where
  "format_err_msg loads str c details =
     (let msg = (if is_http_standard_error c then the (map_of error_mapping ''HTTP_STD_ERROR'')
                 else (case c of Text_code t \<Rightarrow> (case map_of error_mapping t of Some m \<Rightarrow> m | None \<Rightarrow> DEFAULT_ERROR_MESSAGE)
                       | Status_code _ \<Rightarrow> DEFAULT_ERROR_MESSAGE));
          shown = (case c of Status_code n \<Rightarrow> if n = 0 then [] else line_break @ ''| Code: '' @ str (JInt n)
                   | Text_code t \<Rightarrow> if t = [] then [] else line_break @ ''| Code: '' @ t);
          r = line_break @ ''| Message: '' @ msg @ shown
      in if details = [] then Inr r
         else
           (case loads details of
              Some (JObj (kv # kvs)) \<Rightarrow>
                (case detail_lines str (kv # kvs) of
                   None \<Rightarrow> Inl (Client_TypeError ''object has no len()'')
                 | Some ls \<Rightarrow> Inr (r @ line_break @ ''| Details:'' @ ls))
            | _ \<Rightarrow> Inr (r @ line_break @ ''| Details: '' @ details)))"

text \<open>\<open>_error\<close>: the exception that is raised, which is another one when the message cannot be put together.\<close>

definition mk_error :: "(string \<Rightarrow> json option) \<Rightarrow> (json \<Rightarrow> string) \<Rightarrow> err_code \<Rightarrow> string \<Rightarrow> client_exn" where
  "mk_error loads str c details =
     (case format_err_msg loads str c details of Inl e \<Rightarrow> e | Inr m \<Rightarrow> ServerlessException m (Some c))"

section \<open>Answers\<close>

record response =
  rsp_code :: int
  rsp_text :: string
  rsp_token :: "string option"

datatype outcome =
    Answered response
  | Unreachable string
  | Request_failed string

definition rsp_ok :: "response \<Rightarrow> bool" where
  "rsp_ok r \<longleftrightarrow> rsp_code r < 400"

fun words_of :: "string \<Rightarrow> string \<Rightarrow> string list" where
  "words_of acc [] = (if acc = [] then [] else [rev acc])"
| "words_of acc (c # cs) =
     (if is_space c then (if acc = [] then words_of [] cs else rev acc # words_of [] cs) else words_of (c # acc) cs)"

definition MAX_BODY_SNIPPET_LEN :: nat where
  "MAX_BODY_SNIPPET_LEN = 500"

definition body_snippet :: "string \<Rightarrow> string" where
  "body_snippet t =
     (if strip t = [] then ''(empty response body)''
      else let c = join_with '' '' (words_of [] t) in
           if length c > MAX_BODY_SNIPPET_LEN then take MAX_BODY_SNIPPET_LEN c @ ''...'' else c)"

record client_env =
  ce_answer :: "nat \<Rightarrow> int \<Rightarrow> string option \<Rightarrow> outcome"
  ce_took :: "nat \<Rightarrow> int"
  ce_jitter :: "nat \<Rightarrow> int"
  ce_overslept :: "nat \<Rightarrow> int"
  ce_loads :: "string \<Rightarrow> json option"
  ce_str :: "json \<Rightarrow> string"
  ce_decode_error :: "string \<Rightarrow> string"

definition raise_for_non_ok_response :: "client_env \<Rightarrow> response \<Rightarrow> unit client_res" where
  "raise_for_non_ok_response env r =
     (if rsp_ok r then Inr ()
      else Inl (mk_error (ce_loads env) (ce_str env) (Status_code (rsp_code r))
        (case ce_loads env (rsp_text r) of
           None \<Rightarrow> body_snippet (rsp_text r)
         | Some (JObj kvs) \<Rightarrow> concat (map (\<lambda>kv. ce_str env (snd kv)) kvs)
         | Some v \<Rightarrow> ce_str env v)))"

text \<open>A body that is JSON but no object has no \<open>values()\<close>.\<close>

definition safe_json_request :: "client_env \<Rightarrow> outcome \<Rightarrow> json client_res" where
  "safe_json_request env out =
     (let err = mk_error (ce_loads env) (ce_str env) in
      case out of
        Unreachable args \<Rightarrow> Inl (err (Text_code ''CONN1001'') args)
      | Request_failed args \<Rightarrow> Inl (err (Text_code ''AUTH1001'') args)
      | Answered r \<Rightarrow>
          (case ce_loads env (rsp_text r) of
             None \<Rightarrow>
               if \<not> rsp_ok r then Inl (err (Status_code (rsp_code r)) (body_snippet (rsp_text r)))
               else if strip (rsp_text r) = [] then Inl (err (Text_code ''EMPTY1001'') (ce_decode_error env (rsp_text r)))
               else Inl (err (Text_code ''JSON1001'') (ce_decode_error env (rsp_text r)))
           | Some v \<Rightarrow>
               if rsp_ok r then Inr v
               else (case v of
                       JObj kvs \<Rightarrow> Inl (err (Status_code (rsp_code r)) (concat (map (\<lambda>kv. ce_str env (snd kv)) kvs)))
                     | _ \<Rightarrow> Inl (Client_AttributeError ''object has no attribute values''))))"

definition safe_json_request_as_dict :: "client_env \<Rightarrow> outcome \<Rightarrow> (string \<times> json) list client_res" where
  "safe_json_request_as_dict env out =
     (case safe_json_request env out of
        Inl e \<Rightarrow> Inl e
      | Inr (JObj kvs) \<Rightarrow> Inr kvs
      | Inr _ \<Rightarrow> Inl (Client_TypeError ''JSON is not a Dict''))"

definition safe_json_request_as_list :: "client_env \<Rightarrow> outcome \<Rightarrow> json list client_res" where
  "safe_json_request_as_list env out =
     (case safe_json_request env out of
        Inl e \<Rightarrow> Inl e
      | Inr (JList xs) \<Rightarrow> Inr xs
      | Inr _ \<Rightarrow> Inl (Client_TypeError ''JSON is not a List''))"

section \<open>Names of statuses\<close>

definition STATUS_MAP :: "(string \<times> string) list" where
  "STATUS_MAP =
     [(''PENDING'', ''INITIALIZING''), (''RUNNING'', ''RUNNING''), (''STOPPING'', ''CANCELING''), (''STOPPED'', ''CANCELED''),
      (''SUCCEEDED'', ''DONE''), (''FAILED'', ''ERROR''), (''QUEUED'', ''QUEUED''), (''MAPPING'', ''RUNNING: MAPPING''),
      (''OPTIMIZING_HARDWARE'', ''RUNNING: OPTIMIZING_FOR_HARDWARE''), (''WAITING_QPU'', ''RUNNING: WAITING_FOR_QPU''),
      (''EXECUTING_QPU'', ''RUNNING: EXECUTING_QPU''), (''POST_PROCESSING'', ''RUNNING: POST_PROCESSING'')]"

definition INVERSE_STATUS_MAP :: "(string \<times> string) list" where
  "INVERSE_STATUS_MAP = map (\<lambda>(k, v). (v, k)) STATUS_MAP"

definition FINAL_STATUSES :: "string list" where
  "FINAL_STATUSES = [''CANCELED'', ''DONE'', ''ERROR'']"

text \<open>A status may be missing (null); a list or an object cannot be looked up in a dict.\<close>

definition map_status_from_serverless :: "json \<Rightarrow> json client_res" where
  "map_status_from_serverless v =
     (case v of
        JStr s \<Rightarrow> Inr (JStr (case map_of STATUS_MAP s of Some t \<Rightarrow> t | None \<Rightarrow> s))
      | JList _ \<Rightarrow> Inl (Client_TypeError ''unhashable type'')
      | JObj _ \<Rightarrow> Inl (Client_TypeError ''unhashable type'')
      | _ \<Rightarrow> Inr v)"

definition map_status_to_serverless :: "string \<Rightarrow> string \<times> string option" where
  "map_status_to_serverless s =
     (case map_of INVERSE_STATUS_MAP s of
        None \<Rightarrow> (s, None)
      | Some t \<Rightarrow> if prefix ''RUNNING:'' s then (''RUNNING'', Some t) else (t, None))"

definition is_final :: "json \<Rightarrow> bool" where
  "is_final v \<longleftrightarrow> (case v of JStr s \<Rightarrow> s \<in> set FINAL_STATUSES | _ \<Rightarrow> False)"

section \<open>Reading a job\<close>

text \<open>
  \<open>cs_sent\<close> is the list of the requests sent, with their times and the status token each carries (without one it carries the key of the
  user). \<open>ce_answer n t tok\<close> is the outcome of the \<open>n\<close>-th request, sent at \<open>t\<close>.
\<close>

record client_state =
  cs_now :: int
  cs_sent :: "(int \<times> string \<times> string option) list"
  cs_sleeps :: nat
  cs_tokens :: "(string \<times> string \<times> int) list"

definition send_request :: "client_env \<Rightarrow> string \<Rightarrow> string option \<Rightarrow> client_state \<Rightarrow> outcome \<times> client_state" where
  "send_request env jid tok s =
     (let n = length (cs_sent s) in
      (ce_answer env n (cs_now s) tok, s\<lparr>cs_now := cs_now s + ce_took env n, cs_sent := cs_sent s @ [(cs_now s, jid, tok)]\<rparr>))"

definition seconds :: "int \<Rightarrow> int" where
  "seconds n = n * 1000000"

definition STATUS_TOKEN_REUSE_SECONDS :: int where
  "STATUS_TOKEN_REUSE_SECONDS = 270"

definition TOKEN_REFUSED_CODES :: "int list" where
  "TOKEN_REFUSED_CODES = [401, 403, 404]"

definition token_refused :: "client_exn \<Rightarrow> bool" where
  "token_refused e \<longleftrightarrow> (case code_of e of Some (Status_code n) \<Rightarrow> n \<in> set TOKEN_REFUSED_CODES | _ \<Rightarrow> False)"

definition young :: "int \<Rightarrow> int \<Rightarrow> bool" where
  "young now t \<longleftrightarrow> now - t < seconds STATUS_TOKEN_REUSE_SECONDS"

definition keep_token :: "string \<Rightarrow> outcome \<Rightarrow> client_state \<Rightarrow> client_state" where
  "keep_token jid out s =
     (case out of
        Answered r \<Rightarrow>
          if truthy (rsp_token r)
          then s\<lparr>cs_tokens := AList.update jid (the (rsp_token r), cs_now s) (filter (\<lambda>(k, tok, t). young (cs_now s) t) (cs_tokens s))\<rparr>
          else s\<lparr>cs_tokens := AList.delete jid (cs_tokens s)\<rparr>
      | _ \<Rightarrow> s)"

definition get_with_key :: "client_env \<Rightarrow> string \<Rightarrow> client_state \<Rightarrow> (string \<times> json) list option client_res \<times> client_state" where
  "get_with_key env jid s =
     (case send_request env jid None s of
        (out, s') \<Rightarrow>
          (case safe_json_request_as_dict env out of
             Inl e \<Rightarrow> (Inl e, s')
           | Inr kvs \<Rightarrow> (Inr (if kvs = [] then None else Some kvs), keep_token jid out s')))"

definition get_job_data :: "client_env \<Rightarrow> string \<Rightarrow> client_state \<Rightarrow> (string \<times> json) list option client_res \<times> client_state" where
  "get_job_data env jid s =
     (case map_of (cs_tokens s) jid of
        Some (tok, t) \<Rightarrow>
          if young (cs_now s) t
          then (case send_request env jid (Some tok) s of
                  (out, s') \<Rightarrow>
                    (case safe_json_request_as_dict env out of
                       Inr kvs \<Rightarrow> (Inr (Some kvs), s')
                     | Inl e \<Rightarrow>
                         if token_refused e then get_with_key env jid (s'\<lparr>cs_tokens := AList.delete jid (cs_tokens s')\<rparr>)
                         else (Inl e, s')))
          else get_with_key env jid s
      | None \<Rightarrow> get_with_key env jid s)"

text \<open>\<open>ServerlessClient.status\<close>, which the job asks when it got no data.\<close>

definition field :: "string \<Rightarrow> (string \<times> json) list \<Rightarrow> json" where
  "field k kvs = (case map_of kvs k of Some v \<Rightarrow> v | None \<Rightarrow> JNull)"

definition running_or :: "json \<Rightarrow> json \<Rightarrow> json" where
  "running_or st sub = (if st = JStr ''RUNNING'' \<and> sub \<noteq> JNull then sub else st)"

definition service_status :: "client_env \<Rightarrow> string \<Rightarrow> client_state \<Rightarrow> json client_res \<times> client_state" where
  "service_status env jid s =
     (case send_request env jid None s of
        (out, s') \<Rightarrow>
          (case safe_json_request_as_dict env out of
             Inl e \<Rightarrow> (Inl e, s')
           | Inr kvs \<Rightarrow> (Inr (running_or (case map_of kvs ''status'' of Some v \<Rightarrow> v | None \<Rightarrow> JStr ''Unknown'') (field ''sub_status'' kvs)), s')))"

record client_job =
  cj_id :: string
  cj_raw :: "(string \<times> json) list"
  cj_final :: "json option"

definition fetch_status :: "client_env \<Rightarrow> client_job \<times> client_state \<Rightarrow> json client_res \<times> client_job \<times> client_state" where
  "fetch_status env = (\<lambda>(j, s).
     case get_job_data env (cj_id j) s of
       (Inl e, s') \<Rightarrow> (Inl e, j, s')
     | (Inr (Some kvs), s') \<Rightarrow>
         (map_status_from_serverless (running_or (field ''status'' kvs) (field ''sub_status'' kvs)),
          j\<lparr>cj_raw := fold (\<lambda>(k, v). AList.update k v) kvs (cj_raw j)\<rparr>, s')
     | (Inr None, s') \<Rightarrow>
         (case service_status env (cj_id j) s' of
            (Inl e, s'') \<Rightarrow> (Inl e, j, s'')
          | (Inr st, s'') \<Rightarrow> (map_status_from_serverless st, j, s'')))"

definition job_status :: "client_env \<Rightarrow> client_job \<times> client_state \<Rightarrow> json client_res \<times> client_job \<times> client_state" where
  "job_status env = (\<lambda>(j, s).
     case cj_final j of
       Some v \<Rightarrow> (Inr v, j, s)
     | None \<Rightarrow>
         (case fetch_status env (j, s) of
            (Inl e, j', s') \<Rightarrow> (Inl e, j', s')
          | (Inr st, j', s') \<Rightarrow> (Inr st, if is_final st then j'\<lparr>cj_final := Some st\<rparr> else j', s')))"

section \<open>Which errors a retry can cure\<close>

lemma mk_error_cases: "mk_error loads str c d = Client_TypeError ''object has no len()'' \<or> (\<exists>m. mk_error loads str c d = ServerlessException m (Some c))"
  by (auto simp: mk_error_def format_err_msg_def Let_def split: json.splits option.splits list.splits)

lemma transient_mk_error: "is_transient_error (mk_error loads str c d) \<Longrightarrow> c \<in> set TRANSIENT_ERROR_CODES"
  using mk_error_cases [of loads str c d] by (auto simp: is_transient_error_def code_of_def)

lemma detail_lines_None: "detail_lines str kvs = None \<longleftrightarrow> (\<exists>kv \<in> set kvs. json_len (snd kv) = None)"
  by (induction str kvs rule: detail_lines.induct) (auto split: option.splits)

lemma format_err_msg_Inl:
  "format_err_msg loads str c d = Inl e \<Longrightarrow> \<exists>kvs. loads d = Some (JObj kvs) \<and> detail_lines str kvs = None"
  by (simp add: format_err_msg_def Let_def split: if_splits option.splits json.splits list.splits)

text \<open>Objects whose values all have a length, as the gateway's error bodies do: texts, lists and objects.\<close>

definition describable :: "client_env \<Rightarrow> bool" where
  "describable env \<longleftrightarrow> (\<forall>t kvs. ce_loads env t = Some (JObj kvs) \<longrightarrow> list_all (\<lambda>kv. json_len (snd kv) \<noteq> None) kvs)"

lemma describable_mk_error:
  assumes "describable env"
  obtains m where "mk_error (ce_loads env) (ce_str env) c d = ServerlessException m (Some c)"
proof (cases "format_err_msg (ce_loads env) (ce_str env) c d")
  case (Inl e)
  then obtain kvs where "ce_loads env d = Some (JObj kvs)" "detail_lines (ce_str env) kvs = None"
    using format_err_msg_Inl by blast
  with assms show ?thesis unfolding describable_def detail_lines_None list_all_iff by blast
next
  case (Inr m)
  then show ?thesis using that by (simp add: mk_error_def)
qed

fun worth_retrying :: "client_env \<Rightarrow> outcome \<Rightarrow> bool" where
  "worth_retrying env (Unreachable _) \<longleftrightarrow> True"
| "worth_retrying env (Request_failed _) \<longleftrightarrow> False"
| "worth_retrying env (Answered r) \<longleftrightarrow>
     (case ce_loads env (rsp_text r) of
        None \<Rightarrow> rsp_code r \<in> {429, 502, 503, 504} \<or> (rsp_code r < 400 \<and> strip (rsp_text r) = [])
      | Some (JObj _) \<Rightarrow> rsp_code r \<in> {429, 502, 503, 504}
      | Some _ \<Rightarrow> False)"

text \<open>
  A failed request is reported as one to try again exactly when trying again can help: the service could not be reached, it answered
  that it is busy or unavailable, or a success arrived with an empty body. Nothing else is ever retried, so a refusal, a bad request or a
  broken answer reaches the caller at once.
\<close>

theorem transient_errors_exact:
  assumes "describable env"
  shows "(\<exists>e. safe_json_request env out = Inl e \<and> is_transient_error e) \<longleftrightarrow> worth_retrying env out"
proof -
  have err: "is_transient_error (mk_error (ce_loads env) (ce_str env) c d) \<longleftrightarrow> c \<in> set TRANSIENT_ERROR_CODES" for c d
    by (rule describable_mk_error [OF assms, of c d]) (simp add: is_transient_error_def code_of_def)
  show ?thesis
  proof (cases out)
    case (Answered r)
    show ?thesis
      by (auto simp: Answered safe_json_request_def Let_def err rsp_ok_def TRANSIENT_ERROR_CODES_def is_transient_error_def [of "Client_AttributeError _"]
          code_of_def split: option.splits json.splits)
  qed (auto simp: safe_json_request_def Let_def err TRANSIENT_ERROR_CODES_def)
qed

text \<open>When a detail has no length the exception is another one, without a code, so the same busy answer is not retried.\<close>

lemma undescribable_error: "mk_error (\<lambda>_. Some (JObj [(''retry_after'', JInt 30)])) str (Status_code 503) ''{...}'' = Client_TypeError ''object has no len()''"
  by (simp add: mk_error_def format_err_msg_def Let_def)

lemma list_body_error: "rsp_code r = 503 \<Longrightarrow> ce_loads env (rsp_text r) = Some (JList xs) \<Longrightarrow>
  safe_json_request env (Answered r) = Inl (Client_AttributeError ''object has no attribute values'')"
  by (simp add: safe_json_request_def rsp_ok_def Let_def)

section \<open>An instance\<close>

text \<open>A gateway that answers a running job with a token, for the witnesses: its bodies are the letters below.\<close>

definition ex_loads :: "string \<Rightarrow> json option" where
  "ex_loads t =
     (if t = ''R'' then Some (JObj [(''status'', JStr ''RUNNING''), (''sub_status'', JStr ''MAPPING'')])
      else if t = ''D'' then Some (JObj [(''status'', JStr ''SUCCEEDED'')])
      else if t = ''E'' then Some (JObj [(''message'', JStr ''no'')])
      else None)"

definition ex_client :: "(nat \<Rightarrow> int \<Rightarrow> string option \<Rightarrow> outcome) \<Rightarrow> client_env" where
  "ex_client answer = \<lparr>ce_answer = answer, ce_took = (\<lambda>_. 200000), ce_jitter = (\<lambda>_. 1000000), ce_overslept = (\<lambda>_. 0),
     ce_loads = ex_loads, ce_str = (\<lambda>v. case v of JStr t \<Rightarrow> t | _ \<Rightarrow> []), ce_decode_error = (\<lambda>_. [])\<rparr>"

definition answered :: "int \<Rightarrow> string \<Rightarrow> string option \<Rightarrow> outcome" where
  "answered c t tok = Answered \<lparr>rsp_code = c, rsp_text = t, rsp_token = tok\<rparr>"

lemma ex_describable: "describable (ex_client a)"
  by (auto simp: describable_def ex_client_def ex_loads_def split: if_splits)

theorem transient_errors_exact_witness:
  "(\<exists>e. safe_json_request (ex_client (\<lambda>_ _ _. Unreachable [])) (answered 503 ''E'' None) = Inl e \<and> is_transient_error e) \<and>
   \<not> (\<exists>e. safe_json_request (ex_client (\<lambda>_ _ _. Unreachable [])) (answered 404 ''E'' None) = Inl e \<and> is_transient_error e)"
  using transient_errors_exact [OF ex_describable, of "\<lambda>_ _ _. Unreachable []" "answered 503 ''E'' None"]
    transient_errors_exact [OF ex_describable, of "\<lambda>_ _ _. Unreachable []" "answered 404 ''E'' None"]
  by (simp add: answered_def ex_client_def ex_loads_def)

section \<open>What a read of a job sends and keeps\<close>

lemma send_request_facts:
  assumes "send_request env jid tok s = (out, s')"
  shows "cs_sent s' = cs_sent s @ [(cs_now s, jid, tok)]" "cs_tokens s' = cs_tokens s" "cs_sleeps s' = cs_sleeps s"
    "cs_now s' = cs_now s + ce_took env (length (cs_sent s))" "out = ce_answer env (length (cs_sent s)) (cs_now s) tok"
  using assms by (simp_all add: send_request_def Let_def prod_eq_iff) auto

lemma keep_token_simps [simp]:
  "cs_sent (keep_token jid out s) = cs_sent s" "cs_now (keep_token jid out s) = cs_now s" "cs_sleeps (keep_token jid out s) = cs_sleeps s"
  by (auto simp: keep_token_def split: outcome.splits)

definition tokens_kept :: "string \<Rightarrow> client_state \<Rightarrow> client_state \<Rightarrow> bool" where
  "tokens_kept jid s s' \<longleftrightarrow> (\<forall>k tok t. map_of (cs_tokens s') k = Some (tok, t) \<longrightarrow>
     map_of (cs_tokens s) k = Some (tok, t) \<or> (k = jid \<and> t = cs_now s' \<and> tok \<noteq> []))"

lemma distinct_filter_keys: "distinct (map fst xs) \<Longrightarrow> distinct (map fst (filter P xs))"
  by (rule distinct_map_filter)

lemma keep_token_kept:
  assumes "distinct (map fst (cs_tokens s))"
  shows "distinct (map fst (cs_tokens (keep_token jid out s)))" "tokens_kept jid s (keep_token jid out s)"
proof -
  show "distinct (map fst (cs_tokens (keep_token jid out s)))"
    using assms by (auto simp: keep_token_def distinct_filter_keys distinct_update AList.distinct_delete split: outcome.splits)
  show "tokens_kept jid s (keep_token jid out s)"
    using assms by (auto simp: tokens_kept_def keep_token_def update_conv' delete_conv' truthy_def dest!: map_of_SomeD
        split: outcome.splits if_splits option.splits)
qed

lemma get_with_key_sends:
  assumes "distinct (map fst (cs_tokens s))" "get_with_key env jid s = (r, s')"
  shows "cs_sent s' = cs_sent s @ [(cs_now s, jid, None)] \<and> cs_sleeps s' = cs_sleeps s \<and> cs_now s' = cs_now s + ce_took env (length (cs_sent s)) \<and>
    distinct (map fst (cs_tokens s')) \<and> tokens_kept jid s s'"
proof -
  obtain out u where u: "send_request env jid None s = (out, u)" by force
  note f = send_request_facts [OF u]
  have "s' = u \<or> s' = keep_token jid out u" using assms(2) by (auto simp: get_with_key_def u split: sum.splits)
  moreover have "distinct (map fst (cs_tokens u))" using f assms(1) by simp
  moreover have "tokens_kept jid s x = tokens_kept jid u x" for x using f by (simp add: tokens_kept_def)
  moreover have "tokens_kept jid u u" by (simp add: tokens_kept_def)
  ultimately show ?thesis using f keep_token_kept [of u jid out] by auto
qed



definition ex_state :: client_state where
  "ex_state = \<lparr>cs_now = seconds 400, cs_sent = [], cs_sleeps = 0, cs_tokens = [(''j'', ''old'', seconds 200), (''k'', ''stale'', 0)]\<rparr>"


section \<open>Names of statuses\<close>

lemma status_names_back:
  "list_all (\<lambda>(k, v). map_status_from_serverless (JStr k) = Inr (JStr v) \<and>
     map_status_to_serverless v = (if prefix ''RUNNING:'' v then (''RUNNING'', Some k) else (k, None))) STATUS_MAP"
  by code_simp

end
