(* ===== verification/Client_Wait.thy ===== *)
theory Client_Wait
  imports Client_Requests
begin

text \<open>
  Waiting for a job in the client library (\<^verbatim>\<open>client/qiskit_serverless/core/job.py\<close>, \<open>Job.wait_for_final_state\<close>): the back-off, its
  resets, the retried errors and the deadline. The loop is fuelled; how much fuel is enough is part of what is proved.
\<close>

section \<open>The loop\<close>

definition BACKOFF_SECONDS :: "int list" where
  "BACKOFF_SECONDS = [1, 2, 4, 8, 16, 32, 60]"

definition RETRY_SECONDS :: int where
  "RETRY_SECONDS = 300"

definition MIN_POLL_INTERVAL_SECONDS :: int where
  "MIN_POLL_INTERVAL_SECONDS = 1"

definition main_status :: "json \<Rightarrow> json" where
  "main_status v = (case v of JStr s \<Rightarrow> JStr (fst (map_status_to_serverless s)) | _ \<Rightarrow> v)"

definition resets_backoff :: "json \<Rightarrow> json \<Rightarrow> bool" where
  "resets_backoff previous st \<longleftrightarrow> st = JStr ''RUNNING: POST_PROCESSING'' \<or> main_status previous \<noteq> main_status st"

text \<open>The jitter is a number of millionths, so a base in seconds times it is a number of microseconds.\<close>

definition next_wait :: "client_env \<Rightarrow> nat \<Rightarrow> int option \<Rightarrow> int option \<Rightarrow> client_state \<Rightarrow> int" where
  "next_wait env step deadline poll s =
     (let w = (case poll of
                 Some p \<Rightarrow> max p (seconds MIN_POLL_INTERVAL_SECONDS)
               | None \<Rightarrow> BACKOFF_SECONDS ! min step (length BACKOFF_SECONDS - 1) * ce_jitter env (cs_sleeps s))
      in case deadline of None \<Rightarrow> w | Some d \<Rightarrow> min w (max (d - cs_now s) 0))"

definition sleep :: "client_env \<Rightarrow> int \<Rightarrow> client_state \<Rightarrow> client_state" where
  "sleep env w s = s\<lparr>cs_now := cs_now s + w + ce_overslept env (cs_sleeps s), cs_sleeps := Suc (cs_sleeps s)\<rparr>"

text \<open>\<open>last_status\<close> is null before the first answer, as the null status is.\<close>

fun wait_loop ::
  "client_env \<Rightarrow> int option \<Rightarrow> int option \<Rightarrow> nat \<Rightarrow> nat \<Rightarrow> int option \<Rightarrow> json \<Rightarrow> client_job \<times> client_state \<Rightarrow>
   (json client_res \<times> client_job \<times> client_state) option" where
  "wait_loop env poll deadline 0 step failing last_status js = None"
| "wait_loop env poll deadline (Suc fuel) step failing last_status js =
     (case job_status env js of
        (Inl e, j, s) \<Rightarrow>
          let since = (case failing of None \<Rightarrow> cs_now s | Some t \<Rightarrow> t);
              give_up = (case deadline of None \<Rightarrow> since + seconds RETRY_SECONDS | Some d \<Rightarrow> d)
          in if \<not> is_transient_error e \<or> cs_now s \<ge> give_up then Some (Inl e, j, s)
             else wait_loop env poll deadline fuel (Suc step) (Some since) last_status (j, sleep env (next_wait env step (Some give_up) poll s) s)
      | (Inr st, j, s) \<Rightarrow>
          let step' = (if st \<noteq> last_status \<and> last_status \<noteq> JNull \<and> resets_backoff last_status st then 0 else step)
          in if is_final st then Some (Inr st, j, s)
             else if (case deadline of None \<Rightarrow> False | Some d \<Rightarrow> cs_now s \<ge> d) then Some (Inl (Client_TimeoutError (cj_id j)), j, s)
             else wait_loop env poll deadline fuel (Suc step') None st (j, sleep env (next_wait env step' deadline poll s) s))"

definition wait_for_final_state ::
  "client_env \<Rightarrow> int option \<Rightarrow> int option \<Rightarrow> nat \<Rightarrow> client_job \<times> client_state \<Rightarrow> (json client_res \<times> client_job \<times> client_state) option" where
  "wait_for_final_state env timeout poll fuel js =
     wait_loop env poll (map_option (\<lambda>t. cs_now (snd js) + t) timeout) fuel 0 None JNull js"

section \<open>Time\<close>

text \<open>A request takes at most \<open>D\<close>, a sleep is longer than asked by at most \<open>V\<close>, and \<open>random.uniform\<close> stays in its interval.\<close>

definition clockwork :: "client_env \<Rightarrow> int \<Rightarrow> int \<Rightarrow> bool" where
  "clockwork env D V \<longleftrightarrow> (\<forall>n. 0 \<le> ce_took env n \<and> ce_took env n \<le> D \<and> 0 \<le> ce_overslept env n \<and> ce_overslept env n \<le> V \<and>
     900000 \<le> ce_jitter env n \<and> ce_jitter env n \<le> 1100000)"

lemma clockworkD:
  assumes "clockwork env D V"
  shows "0 \<le> ce_took env n" "ce_took env n \<le> D" "0 \<le> ce_overslept env n" "ce_overslept env n \<le> V"
    "900000 \<le> ce_jitter env n" "ce_jitter env n \<le> 1100000"
  using assms by (auto simp: clockwork_def)

definition longest_wait :: "int option \<Rightarrow> int" where
  "longest_wait poll = (case poll of Some p \<Rightarrow> max p (seconds 1) | None \<Rightarrow> seconds 66)"

lemma backoff_bounds: "1 \<le> BACKOFF_SECONDS ! min step (length BACKOFF_SECONDS - 1)" "BACKOFF_SECONDS ! min step (length BACKOFF_SECONDS - 1) \<le> 60"
proof -
  have "BACKOFF_SECONDS ! min step (length BACKOFF_SECONDS - 1) \<in> set BACKOFF_SECONDS"
    by (rule nth_mem) (simp add: BACKOFF_SECONDS_def)
  then show "1 \<le> BACKOFF_SECONDS ! min step (length BACKOFF_SECONDS - 1)" "BACKOFF_SECONDS ! min step (length BACKOFF_SECONDS - 1) \<le> 60"
    by (auto simp: BACKOFF_SECONDS_def)
qed

lemma product_bounds:
  fixes b g :: int
  assumes "1 \<le> b" "b \<le> 60" "900000 \<le> g" "g \<le> 1100000"
  shows "900000 \<le> b * g" "b * g \<le> 66000000"
  using mult_mono [of 1 b 900000 g] mult_mono [of b 60 g 1100000] assms by auto

lemma uncut_wait:
  assumes "clockwork env D V"
  shows "900000 \<le> next_wait env step None poll s" "next_wait env step None poll s \<le> longest_wait poll"
proof -
  let ?b = "BACKOFF_SECONDS ! min step (length BACKOFF_SECONDS - 1)" and ?g = "ce_jitter env (cs_sleeps s)"
  have "900000 \<le> ?b * ?g" "?b * ?g \<le> 66000000"
    using product_bounds [OF backoff_bounds clockworkD(5,6) [OF assms]] by simp_all
  then show "900000 \<le> next_wait env step None poll s" "next_wait env step None poll s \<le> longest_wait poll"
    by (auto simp: next_wait_def longest_wait_def seconds_def MIN_POLL_INTERVAL_SECONDS_def split: option.splits)
qed

lemma cut_wait: "next_wait env step (Some d) poll s = min (next_wait env step None poll s) (max (d - cs_now s) 0)"
  by (simp add: next_wait_def Let_def)

lemma sleep_simps [simp]:
  "cs_now (sleep env w s) = cs_now s + w + ce_overslept env (cs_sleeps s)" "cs_sent (sleep env w s) = cs_sent s" "cs_tokens (sleep env w s) = cs_tokens s"
  by (simp_all add: sleep_def)

text \<open>The last request of a read decides: when it was sent, and that it was no refused token.\<close>

lemma get_with_key_last:
  assumes "get_with_key env jid s = (r, s')"
  shows "cs_now s' = cs_now s + ce_took env (length (cs_sent s)) \<and>
    r = map_sum id (\<lambda>kvs. if kvs = [] then None else Some kvs) (safe_json_request_as_dict env (ce_answer env (length (cs_sent s)) (cs_now s) None))"
  using assms by (auto simp: get_with_key_def send_request_def Let_def split: sum.splits)

definition refused :: "client_env \<Rightarrow> outcome \<Rightarrow> bool" where
  "refused env out \<longleftrightarrow> (\<exists>e. safe_json_request_as_dict env out = Inl e \<and> token_refused e)"

lemma get_job_data_last:
  assumes "clockwork env D V" "get_job_data env jid s = (r, s')"
  shows "\<exists>n t x. cs_now s \<le> t \<and> t \<le> cs_now s + D \<and> cs_now s' = t + ce_took env n \<and> \<not> (x \<noteq> None \<and> refused env (ce_answer env n t x)) \<and>
    r = map_sum id (\<lambda>kvs. if x = None \<and> kvs = [] then None else Some kvs) (safe_json_request_as_dict env (ce_answer env n t x))"
proof -
  note D = clockworkD [OF assms(1)]
  have D0: "0 \<le> D" using D(1,2) [of 0] by linarith
  have key: ?thesis if "get_with_key env jid u = (r, s')" "cs_now s \<le> cs_now u" "cs_now u \<le> cs_now s + D" for u
    using get_with_key_last [OF that(1)] that(2,3)
    by (intro exI [of _ "length (cs_sent u)"] exI [of _ "cs_now u"] exI [of _ "None :: string option"]) simp
  show ?thesis
  proof (cases "\<exists>tok since. map_of (cs_tokens s) jid = Some (tok, since) \<and> young (cs_now s) since")
    case False
    then have "get_with_key env jid s = (r, s')" using assms(2) by (auto simp: get_job_data_def split: option.splits)
    then show ?thesis using key D0 by simp
  next
    case True
    then obtain tok since where t: "map_of (cs_tokens s) jid = Some (tok, since)" "young (cs_now s) since" by blast
    obtain out u where u: "send_request env jid (Some tok) s = (out, u)" by force
    note f = send_request_facts [OF u]
    show ?thesis
    proof (cases "refused env out")
      case True
      then have "get_with_key env jid (u\<lparr>cs_tokens := AList.delete jid (cs_tokens u)\<rparr>) = (r, s')"
        using assms(2) t u by (auto simp: get_job_data_def refused_def)
      then show ?thesis by (rule key) (use f D in auto)
    next
      case False
      then have "s' = u" "r = map_sum id Some (safe_json_request_as_dict env out)"
        using assms(2) t u by (auto simp: get_job_data_def refused_def split: sum.splits)
      then show ?thesis using f False D0
        by (intro exI [of _ "length (cs_sent s)"] exI [of _ "cs_now s"] exI [of _ "Some tok"]) simp
    qed
  qed
qed

section \<open>A wait with a timeout ends\<close>

lemma no_timeout_error: "safe_json_request_as_dict env out \<noteq> Inl (Client_TimeoutError x)"
  using mk_error_cases [of "ce_loads env" "ce_str env"]
  by (auto simp: safe_json_request_as_dict_def safe_json_request_def Let_def split: outcome.splits option.splits json.splits if_splits sum.splits)
    (metis client_exn.distinct)+

lemma service_status_time:
  assumes "service_status env jid s = (r, s')"
  shows "cs_now s' = cs_now s + ce_took env (length (cs_sent s)) \<and> r \<noteq> Inl (Client_TimeoutError x)"
  using assms no_timeout_error [of env "fst (send_request env jid None s)" x]
  by (auto simp: service_status_def send_request_def Let_def split: sum.splits)

lemma fetch_status_time:
  assumes "clockwork env D V" "fetch_status env (j, s) = (r, j', s')"
  shows "cs_now s \<le> cs_now s' \<and> cs_now s' \<le> cs_now s + 3 * D \<and> r \<noteq> Inl (Client_TimeoutError x) \<and> cj_final j' = cj_final j"
proof -
  note D = clockworkD [OF assms(1)]
  obtain d u where g: "get_job_data env (cj_id j) s = (d, u)" by force
  from get_job_data_last [OF assms(1) g] obtain n t y where n:
      "cs_now s \<le> t" "t \<le> cs_now s + D" "cs_now u = t + ce_took env n"
      "d = map_sum id (\<lambda>kvs. if y = None \<and> kvs = [] then None else Some kvs) (safe_json_request_as_dict env (ce_answer env n t y))"
    by blast
  have u: "cs_now s \<le> cs_now u" "cs_now u \<le> cs_now s + 2 * D" using n D(1,2) [of n] by linarith+
  have d: "d \<noteq> Inl (Client_TimeoutError x)"
    using n(4) no_timeout_error [of env "ce_answer env n t y" x] by (cases "safe_json_request_as_dict env (ce_answer env n t y)") auto
  have m: "map_status_from_serverless v \<noteq> Inl (Client_TimeoutError x)" for v
    by (cases v) (auto simp: map_status_from_serverless_def)
  have D0: "0 \<le> D" using D(1,2) [of 0] by linarith
  show ?thesis
  proof (cases "d = Inr None")
    case True
    obtain r2 s2 where r2: "service_status env (cj_id j) u = (r2, s2)" by force
    from service_status_time [OF this, of x] D(1,2) [of "length (cs_sent u)"] u
    have "cs_now s \<le> cs_now s2" "cs_now s2 \<le> cs_now s + 3 * D" "r2 \<noteq> Inl (Client_TimeoutError x)" by auto
    then show ?thesis using assms(2) g True r2 m by (auto simp: fetch_status_def split: sum.splits)
  next
    case False
    then show ?thesis using assms(2) g u d m D0 by (auto simp: fetch_status_def split: sum.splits option.splits)
  qed
qed

lemma job_status_time:
  assumes "clockwork env D V" "job_status env (j, s) = (r, j', s')"
  shows "cs_now s \<le> cs_now s' \<and> cs_now s' \<le> cs_now s + 3 * D \<and> r \<noteq> Inl (Client_TimeoutError x)"
proof (cases "cj_final j")
  case (Some v)
  moreover have "0 \<le> D" using clockworkD(1,2) [OF assms(1), of 0] by linarith
  ultimately show ?thesis using assms(2) by (auto simp: job_status_def)
next
  case None
  obtain r2 j2 s2 where f: "fetch_status env (j, s) = (r2, j2, s2)" by (metis prod_cases3)
  from fetch_status_time [OF assms(1) f] None f assms(2) show ?thesis by (auto simp: job_status_def split: sum.splits)
qed

definition polls_left :: "int \<Rightarrow> client_state \<Rightarrow> int" where
  "polls_left d s = (if cs_now s \<ge> d then 1 else 2 + (d - cs_now s) div 900000)"

lemma polls_left_sleep:
  assumes "clockwork env D V" "cs_now s \<le> cs_now u" "cs_now u < d"
  shows "polls_left d (sleep env (next_wait env step (Some d) poll u) u) < polls_left d s" "cs_now (sleep env (next_wait env step (Some d) poll u) u) \<le> d + V"
proof -
  let ?w = "next_wait env step None poll u" and ?u = "sleep env (next_wait env step (Some d) poll u) u"
  note w = uncut_wait(1) [OF assms(1), of step poll u] and o = clockworkD(3,4) [OF assms(1), of "cs_sleeps u"]
  have now: "cs_now ?u = cs_now u + min ?w (d - cs_now u) + ce_overslept env (cs_sleeps u)" using assms(3) by (simp add: cut_wait)
  show "cs_now ?u \<le> d + V" using now o by linarith
  have pos: "0 \<le> (d - cs_now s) div 900000" using assms by (simp add: pos_imp_zdiv_nonneg_iff)
  show "polls_left d ?u < polls_left d s"
  proof (cases "d \<le> cs_now ?u")
    case True
    then show ?thesis using pos assms by (simp add: polls_left_def)
  next
    case False
    then have "d - cs_now ?u \<le> (d - cs_now s) + (- 1) * 900000" using now w o assms by linarith
    then have "(d - cs_now ?u) div 900000 \<le> ((d - cs_now s) + (- 1) * 900000) div 900000" by (rule zdiv_mono1) simp
    also have "\<dots> = (d - cs_now s) div 900000 - 1" by simp
    finally show ?thesis using False assms by (simp add: polls_left_def)
  qed
qed

lemma wait_loop_deadline:
  assumes "clockwork env D V" "cs_now (snd js) \<le> d + V" "polls_left d (snd js) \<le> int fuel"
  shows "\<exists>r j' s'. wait_loop env poll (Some d) fuel step failing last_status js = Some (r, j', s') \<and> cs_now s' \<le> d + V + 3 * D \<and>
    (\<forall>st. r = Inr st \<longrightarrow> is_final st) \<and> (\<forall>x. r = Inl (Client_TimeoutError x) \<longrightarrow> d \<le> cs_now s')"
  using assms(2,3)
proof (induction fuel arbitrary: step failing last_status js)
  case 0
  have "0 < polls_left d (snd js)" by (auto simp: polls_left_def pos_imp_zdiv_nonneg_iff intro: add_pos_nonneg)
  with 0 show ?case by simp
next
  case (Suc fuel)
  obtain j s where js: "js = (j, s)" by force
  obtain r j1 s1 where r: "job_status env js = (r, j1, s1)" by (metis prod_cases3)
  have t: "cs_now s \<le> cs_now s1" "cs_now s1 \<le> cs_now s + 3 * D" "\<And>x. r \<noteq> Inl (Client_TimeoutError x)"
    using job_status_time [OF assms(1)] r js by blast+
  have b: "cs_now s1 \<le> d + V + 3 * D" using t Suc.prems(1) js by simp
  have again: ?case if "cs_now s1 < d"
      "wait_loop env poll (Some d) (Suc fuel) step failing last_status js =
       wait_loop env poll (Some d) fuel st' f' l' (j1, sleep env (next_wait env k (Some d) poll s1) s1)" for st' f' l' k
    unfolding that(2) using polls_left_sleep [OF assms(1) t(1) that(1), of k poll] Suc.prems(2) js by (intro Suc.IH) auto
  show ?case
  proof (cases r)
    case (Inl e)
    show ?thesis
    proof (cases "is_transient_error e \<and> cs_now s1 < d")
      case True
      then show ?thesis using again r Inl by (simp add: Let_def)
    next
      case False
      then show ?thesis using r Inl b t(3) by (auto simp: Let_def not_less)
    qed
  next
    case (Inr st)
    show ?thesis
    proof (cases "\<not> is_final st \<and> cs_now s1 < d")
      case True
      then show ?thesis using again r Inr by (simp add: Let_def)
    next
      case False
      then show ?thesis using r Inr b by (auto simp: Let_def not_less)
    qed
  qed
qed

text \<open>
  C25: A wait with a timeout always ends, whatever the service answers: after at most one request round every 0.9 seconds of the timeout and
  two more, and no later than the timeout plus the time one status request can take. It returns a final status, raises what a request
  raised, or raises \<open>TimeoutError\<close>, and the latter never before the timeout has passed.
\<close>

theorem wait_ends_by_the_timeout:
  assumes "clockwork env D V" "0 \<le> timeout" "2 + timeout div 900000 \<le> int fuel"
  shows "\<exists>r j' s'. wait_for_final_state env (Some timeout) poll fuel (j, s) = Some (r, j', s') \<and> cs_now s' \<le> cs_now s + timeout + V + 3 * D \<and>
    (\<forall>st. r = Inr st \<longrightarrow> is_final st) \<and> (\<forall>x. r = Inl (Client_TimeoutError x) \<longrightarrow> cs_now s + timeout \<le> cs_now s')"
proof -
  have V: "0 \<le> V" using clockworkD(3,4) [OF assms(1), of 0] by linarith
  have "0 \<le> timeout div 900000" using assms(2) by (simp add: pos_imp_zdiv_nonneg_iff)
  then have "polls_left (cs_now s + timeout) s \<le> int fuel" using assms by (auto simp: polls_left_def)
  then show ?thesis using wait_loop_deadline [OF assms(1), of "(j, s)" "cs_now s + timeout" fuel poll 0 None JNull] assms(2) V
    by (simp add: wait_for_final_state_def)
qed

definition ex_client_job :: client_job where
  "ex_client_job = \<lparr>cj_id = ''j'', cj_raw = [], cj_final = None\<rparr>"

definition ex_start :: client_state where
  "ex_start = \<lparr>cs_now = 0, cs_sent = [], cs_sleeps = 0, cs_tokens = []\<rparr>"

text \<open>A service that gives status tokens, is unavailable from the tenth to the thirteenth second, and whose job succeeds after twenty.\<close>

definition ex_answers :: "nat \<Rightarrow> int \<Rightarrow> string option \<Rightarrow> outcome" where
  "ex_answers n t tok =
     (if t \<ge> seconds 20 then answered 200 ''D'' (Some ''tok'')
      else if seconds 10 \<le> t \<and> t < seconds 13 then answered 503 ''E'' None
      else answered 200 ''R'' (Some ''tok''))"

lemma ex_clockwork: "clockwork (ex_client a) 200000 0"
  by (simp add: clockwork_def ex_client_def)

theorem wait_ends_by_the_timeout_witness:
  "\<exists>r j' s'. wait_for_final_state (ex_client ex_answers) (Some (seconds 6)) None 8 (ex_client_job, ex_start) = Some (r, j', s') \<and>
     r = Inl (Client_TimeoutError ''j'') \<and> seconds 6 \<le> cs_now s' \<and> cs_now s' \<le> seconds 6 + 600000"
proof -
  let ?x = "wait_for_final_state (ex_client ex_answers) (Some (seconds 6)) None 8 (ex_client_job, ex_start)"
  have "0 \<le> seconds 6" "2 + seconds 6 div 900000 \<le> int 8" "cs_now ex_start = 0" by (simp_all add: seconds_def ex_start_def)
  from wait_ends_by_the_timeout [OF ex_clockwork this(1,2), of ex_answers None ex_client_job ex_start] this(3)
  obtain r j' s' where x: "?x = Some (r, j', s')" "cs_now s' \<le> seconds 6 + 600000"
    "\<And>x. r = Inl (Client_TimeoutError x) \<Longrightarrow> seconds 6 \<le> cs_now s'" by auto
  have "map_option fst ?x = Some (Inl (Client_TimeoutError ''j''))" by code_simp
  then show ?thesis using x by auto
qed

section \<open>A wait without a timeout sees the end\<close>

definition reports :: "client_env \<Rightarrow> outcome \<Rightarrow> json \<Rightarrow> bool" where
  "reports env out st \<longleftrightarrow> (\<exists>kvs. kvs \<noteq> [] \<and> safe_json_request_as_dict env out = Inr kvs \<and>
     map_status_from_serverless (running_or (field ''status'' kvs) (field ''sub_status'' kvs)) = Inr st)"

definition busy :: "client_env \<Rightarrow> outcome \<Rightarrow> bool" where
  "busy env out \<longleftrightarrow> (\<exists>e. safe_json_request_as_dict env out = Inl e \<and> is_transient_error e)"

text \<open>
  A service whose job ends at \<open>t1\<close> in \<open>fin\<close>: from then on it says so, before it says something else, and between \<open>a\<close> and \<open>b\<close> it may be
  busy. A status token it may refuse at any time.
\<close>

definition job_ends_at :: "client_env \<Rightarrow> int \<Rightarrow> json \<Rightarrow> int \<Rightarrow> int \<Rightarrow> bool" where
  "job_ends_at env t1 fin a b \<longleftrightarrow> is_final fin \<and>
     (\<forall>n t x. let out = ce_answer env n t x in
        (x \<noteq> None \<and> refused env out) \<or>
        (if t1 \<le> t then reports env out fin
         else (\<exists>st. reports env out st \<and> \<not> is_final st) \<or> (a \<le> t \<and> t < b \<and> busy env out)))"

lemma reports_fetch:
  assumes "reports env out st" "d = map_sum id (\<lambda>kvs. if x = None \<and> kvs = [] then None else Some kvs) (safe_json_request_as_dict env out)"
  shows "\<exists>kvs. d = Inr (Some kvs) \<and> map_status_from_serverless (running_or (field ''status'' kvs) (field ''sub_status'' kvs)) = Inr st"
  using assms by (auto simp: reports_def)

lemma poll_outcome:
  assumes "clockwork env D V" "job_ends_at env t1 fin a b" "cj_final j = None" "job_status env (j, s) = (r, j', s')"
  shows "cs_now s \<le> cs_now s' \<and> cs_now s' \<le> cs_now s + 2 * D \<and>
    (r = Inr fin \<or>
     (cs_now s < t1 \<and> cj_final j' = None \<and>
      ((\<exists>st. r = Inr st \<and> \<not> is_final st) \<or>
       (\<exists>e. r = Inl e \<and> is_transient_error e \<and> a \<le> cs_now s' \<and> cs_now s' \<le> b + D \<and> cs_now s < b))))"
proof -
  note D = clockworkD [OF assms(1)]
  obtain d u where g: "get_job_data env (cj_id j) s = (d, u)" by force
  from get_job_data_last [OF assms(1) g] obtain n t x where n:
      "cs_now s \<le> t" "t \<le> cs_now s + D" "cs_now u = t + ce_took env n" "\<not> (x \<noteq> None \<and> refused env (ce_answer env n t x))"
      "d = map_sum id (\<lambda>kvs. if x = None \<and> kvs = [] then None else Some kvs) (safe_json_request_as_dict env (ce_answer env n t x))"
    by blast
  have time: "cs_now s \<le> cs_now u" "cs_now u \<le> cs_now s + 2 * D" "t \<le> cs_now u" "cs_now u \<le> t + D" using n D(1,2) [of n] by linarith+
  have fin: "is_final fin" using assms(2) by (simp add: job_ends_at_def)
  have known: "s' = u \<and> r = Inr st \<and> (\<not> is_final st \<longrightarrow> cj_final j' = None)" if "reports env (ce_answer env n t x) st" for st
    using reports_fetch [OF that n(5)] assms(3,4) g by (auto simp: job_status_def fetch_status_def split: if_splits)
  show ?thesis
  proof (cases "t1 \<le> t")
    case True
    then have "reports env (ce_answer env n t x) fin"
      using assms(2) n(4) unfolding job_ends_at_def Let_def by (metis (full_types))
    from known [OF this] show ?thesis using time by simp
  next
    case False
    then consider st where "reports env (ce_answer env n t x) st" "\<not> is_final st" | "a \<le> t" "t < b" "busy env (ce_answer env n t x)"
      using assms(2) n(4) unfolding job_ends_at_def Let_def by (metis (full_types))
    then show ?thesis
    proof cases
      case 1
      with known [OF 1(1)] time False n show ?thesis by auto
    next
      case 2
      then obtain e where "d = Inl e" "is_transient_error e" using n(5) by (auto simp: busy_def)
      then have "s' = u \<and> r = Inl e \<and> cj_final j' = None" using assms(3,4) g by (auto simp: job_status_def fetch_status_def)
      then show ?thesis using 2 \<open>is_transient_error e\<close> time False n by auto
    qed
  qed
qed

lemma polls_left_mono: "cs_now s \<le> cs_now u \<Longrightarrow> polls_left d u \<le> polls_left d s"
  by (auto simp: polls_left_def pos_imp_zdiv_nonneg_iff intro: zdiv_mono1 add_increasing)

lemma polls_left_less:
  assumes "cs_now s < d" "cs_now s + 900000 \<le> cs_now u"
  shows "polls_left d u < polls_left d s"
proof -
  have "0 \<le> (d - cs_now s) div 900000" using assms by (simp add: pos_imp_zdiv_nonneg_iff)
  moreover have "(d - cs_now u) div 900000 \<le> ((d - cs_now s) + (- 1) * 900000) div 900000" using assms by (intro zdiv_mono1) simp_all
  moreover have "((d - cs_now s) + (- 1) * 900000) div 900000 = (d - cs_now s) div 900000 - 1" by simp
  ultimately show ?thesis using assms by (simp add: polls_left_def)
qed

lemma wait_loop_sees_end:
  assumes "clockwork env D V" "job_ends_at env t1 fin a b" "b + D < a + seconds RETRY_SECONDS"
    and "cj_final j = None" "\<And>f. failing = Some f \<Longrightarrow> a \<le> f" "cs_now s \<le> B" "t1 + longest_wait poll + V + 2 * D \<le> B"
    and "polls_left t1 s + (if cs_now s < b then 1 else 0) \<le> int fuel"
  shows "\<exists>j' s'. wait_loop env poll None fuel step failing last_status (j, s) = Some (Inr fin, j', s') \<and> cs_now s' \<le> B + 2 * D"
  using assms(4-6,8)
proof (induction fuel arbitrary: step failing last_status j s)
  case 0
  have "0 < polls_left t1 s" by (auto simp: polls_left_def pos_imp_zdiv_nonneg_iff intro: add_pos_nonneg)
  with 0 show ?case by (simp split: if_splits)
next
  case (Suc fuel)
  obtain r j1 s1 where r: "job_status env (j, s) = (r, j1, s1)" by (metis prod_cases3)
  note p = poll_outcome [OF assms(1,2) Suc.prems(1) r]
  have fin: "is_final fin" using assms(2) by (simp add: job_ends_at_def)
  show ?case
  proof (cases "r = Inr fin")
    case True
    then show ?thesis using r p fin Suc.prems(3) by (auto simp: Let_def)
  next
    case False
    then have early: "cs_now s < t1" and none: "cj_final j1 = None" using p by auto
    have again: "\<exists>j' s'. wait_loop env poll None fuel k f' l' (j1, sleep env w s1) = Some (Inr fin, j', s') \<and> cs_now s' \<le> B + 2 * D"
      if w: "w \<le> longest_wait poll" "0 \<le> w" "900000 \<le> w \<or> (cs_now s < b \<and> b \<le> cs_now s1 + w)" and f': "\<And>f. f' = Some f \<Longrightarrow> a \<le> f" for k f' l' w
    proof (rule Suc.IH [OF none f'])
      let ?u = "sleep env w s1"
      have o: "0 \<le> ce_overslept env (cs_sleeps s1)" "ce_overslept env (cs_sleeps s1) \<le> V" using clockworkD(3,4) [OF assms(1)] by auto
      show "cs_now ?u \<le> B" using o w p early assms(7) by simp
      have "cs_now s \<le> cs_now ?u" using o w p by simp
      moreover have "polls_left t1 ?u < polls_left t1 s" if "900000 \<le> w" by (rule polls_left_less [OF early]) (use that o p in simp)
      ultimately show "polls_left t1 ?u + (if cs_now ?u < b then 1 else 0) \<le> int fuel"
        using Suc.prems(4) w(3) o polls_left_mono [of s ?u t1] by (auto split: if_splits)
    qed
    have wait: "next_wait env k None poll s1 \<le> longest_wait poll" "900000 \<le> next_wait env k None poll s1" for k
      using uncut_wait [OF assms(1)] by auto
    from False p consider st where "r = Inr st" "\<not> is_final st"
      | e where "r = Inl e" "is_transient_error e" "a \<le> cs_now s1" "cs_now s1 \<le> b + D" "cs_now s < b" by blast
    then show ?thesis
    proof cases
      case 1
      let ?k = "if st \<noteq> last_status \<and> last_status \<noteq> JNull \<and> resets_backoff last_status st then 0 else step"
      have "0 \<le> next_wait env ?k None poll s1" using wait(2) [of ?k] by linarith
      then show ?thesis using again [OF wait(1) _ disjI1 [OF wait(2)], of ?k None "Suc ?k" st] r 1 by (simp add: Let_def)
    next
      case 2
      define since where "since = (case failing of None \<Rightarrow> cs_now s1 | Some t \<Rightarrow> t)"
      have a: "a \<le> since" using Suc.prems(2) 2 by (auto simp: since_def split: option.splits)
      let ?g = "since + seconds RETRY_SECONDS" and ?w = "next_wait env step (Some (since + seconds RETRY_SECONDS)) poll s1"
      have g: "cs_now s1 < ?g" "b \<le> ?g" using a 2 assms(1,3) clockworkD(1,2) [OF assms(1), of 0] by linarith+
      have "?w = min (next_wait env step None poll s1) (?g - cs_now s1)" using g by (simp add: cut_wait)
      then have "?w \<le> longest_wait poll" "0 \<le> ?w" "900000 \<le> ?w \<or> (cs_now s < b \<and> b \<le> cs_now s1 + ?w)"
        using wait [of step] g 2 by linarith+
      then show ?thesis using again [of ?w "Some since" "Suc step" last_status] a r 2 g by (simp add: Let_def since_def [symmetric])
    qed
  qed
qed

text \<open>
  C26: A wait without a timeout sees the end of the job. When the job ends in some final status, and the service is out of reach for less than
  five minutes at most, the wait returns exactly that status: it is not given up during the outage, and it returns no later than one
  back-off step (66 seconds, or the poll interval) and two status requests after the end.
\<close>

theorem wait_sees_the_end:
  assumes "clockwork env D V" "job_ends_at env t1 fin a b" "b + D < a + seconds 300" "cj_final j = None"
    and "3 + (max t1 (cs_now s) - cs_now s) div 900000 \<le> int fuel"
  shows "\<exists>j' s'. wait_for_final_state env None poll fuel (j, s) = Some (Inr fin, j', s') \<and>
    cs_now s' \<le> max t1 (cs_now s) + longest_wait poll + V + 4 * D"
proof -
  have V: "0 \<le> V" "0 \<le> D" using clockworkD [OF assms(1), of 0] by linarith+
  have W: "0 \<le> longest_wait poll" by (auto simp: longest_wait_def seconds_def split: option.splits)
  have "polls_left t1 s + (if cs_now s < b then 1 else 0) \<le> int fuel" using assms(5) by (auto simp: polls_left_def max_def split: if_splits)
  moreover have "cs_now s \<le> max t1 (cs_now s) + longest_wait poll + V + 2 * D" "b + D < a + seconds RETRY_SECONDS" "\<And>f. None = Some f \<Longrightarrow> a \<le> f"
    using assms(3) V W by (simp_all add: RETRY_SECONDS_def)
  ultimately obtain j' s' where "wait_loop env poll None fuel 0 None JNull (j, s) = Some (Inr fin, j', s')"
    "cs_now s' \<le> (max t1 (cs_now s) + longest_wait poll + V + 2 * D) + 2 * D"
    using wait_loop_sees_end [OF assms(1,2) _ assms(4), of None s "max t1 (cs_now s) + longest_wait poll + V + 2 * D" poll fuel 0 JNull] by auto
  then show ?thesis by (simp add: wait_for_final_state_def)
qed

lemma ex_job_ends: "job_ends_at (ex_client ex_answers) (seconds 20) (JStr ''DONE'') (seconds 10) (seconds 13)"
proof -
  have ended: "reports (ex_client ex_answers) (answered 200 ''D'' (Some ''tok'')) (JStr ''DONE'')"
    by (simp add: reports_def safe_json_request_as_dict_def safe_json_request_def answered_def ex_client_def ex_loads_def rsp_ok_def field_def running_or_def
        map_status_from_serverless_def STATUS_MAP_def)
  have running: "reports (ex_client ex_answers) (answered 200 ''R'' (Some ''tok'')) (JStr ''RUNNING: MAPPING'')"
    by (simp add: reports_def safe_json_request_as_dict_def safe_json_request_def answered_def ex_client_def ex_loads_def rsp_ok_def field_def running_or_def
        map_status_from_serverless_def STATUS_MAP_def)
  have "busy (ex_client ex_answers) (answered 503 ''E'' None)"
    unfolding busy_def by (intro exI [of _ "mk_error ex_loads (\<lambda>v. case v of JStr t \<Rightarrow> t | _ \<Rightarrow> []) (Status_code 503) ''no''"])
      (simp add: safe_json_request_as_dict_def safe_json_request_def answered_def ex_client_def ex_loads_def rsp_ok_def mk_error_def
        format_err_msg_def Let_def is_transient_error_def code_of_def TRANSIENT_ERROR_CODES_def)
  moreover have "\<not> is_final (JStr ''RUNNING: MAPPING'')" "is_final (JStr ''DONE'')" by code_simp+
  ultimately show ?thesis
    using ended running unfolding job_ends_at_def Let_def by (auto simp: ex_client_def [of ex_answers] ex_answers_def)
qed

theorem wait_sees_the_end_witness:
  "\<exists>j' s'. wait_for_final_state (ex_client ex_answers) None None 26 (ex_client_job, ex_start) = Some (Inr (JStr ''DONE''), j', s') \<and>
     cs_now s' \<le> seconds 20 + seconds 66 + 800000"
proof -
  have "seconds 13 + 200000 < seconds 10 + seconds 300" "cj_final ex_client_job = None"
    "3 + (max (seconds 20) (cs_now ex_start) - cs_now ex_start) div 900000 \<le> int 26"
    by (simp_all add: seconds_def ex_client_job_def ex_start_def)
  from wait_sees_the_end [OF ex_clockwork ex_job_ends this, of None] show ?thesis
    by (simp add: longest_wait_def seconds_def ex_start_def)
qed

end
