(* ===== verification/Client_Library.thy ===== *)
theory Client_Library
  imports Client_Wait Storage_Paths
begin

text \<open>
  The rest of the client library's own logic: the results and errors of a job (\<^verbatim>\<open>core/job.py\<close>), functions and their titles, schemas and
  sizes (\<^verbatim>\<open>core/function.py\<close>, \<^verbatim>\<open>utils/formatting.py\<close>), and of \<^verbatim>\<open>core/clients/serverless_client.py\<close> the filtered logs, the choice of a
  compute profile, the report on dependencies and the checks before a run. The answers of the services are parameters, regular
  expressions given by the user are predicates on lines.
\<close>

section \<open>Results of a job\<close>

type_synonym error_data = "(string \<times> json) list"

record job_service =
  sv_events :: "error_data list client_res"
  sv_result :: "json client_res"
  sv_error_logs :: "string client_res"
  sv_decode :: "string \<Rightarrow> json option"
  sv_unescape :: "string \<Rightarrow> string option"

definition event_field :: "string \<Rightarrow> error_data \<Rightarrow> json client_res" where
  "event_field k d = (case map_of d k of Some v \<Rightarrow> Inr v | None \<Rightarrow> Inl (Client_KeyError k))"

definition event_detail :: "(json \<Rightarrow> string) \<Rightarrow> string \<times> json \<Rightarrow> string" where
  "event_detail str = (\<lambda>(k, v).
     case v of
       JList [] \<Rightarrow> []
     | JList (x # _) \<Rightarrow> line_break @ ''|   - '' @ k @ '': '' @ str x
     | _ \<Rightarrow> line_break @ ''|   - '' @ k @ '': '' @ str v)"

definition format_err_event :: "(json \<Rightarrow> string) \<Rightarrow> error_data \<Rightarrow> string client_res" where
  "format_err_event str d =
     (case (event_field ''message'' d, event_field ''code'' d, event_field ''exception'' d) of
        (Inr m, Inr c, Inr x) \<Rightarrow>
          (let head = line_break @ ''| Message: '' @ str m @ line_break @ ''| Code: '' @ str c @ line_break @ ''| Exception: '' @ str x in
           case map_of d ''args'' of
             None \<Rightarrow> Inr head
           | Some a \<Rightarrow>
               if \<not> json_truthy a then Inr head
               else (case a of
                       JObj kvs \<Rightarrow> Inr (head @ line_break @ ''| Details:'' @ concat (map (event_detail str) kvs))
                     | _ \<Rightarrow> Inr (head @ line_break @ ''| Details: '' @ str a)))
      | (Inl e, _, _) \<Rightarrow> Inl e
      | (_, Inl e, _) \<Rightarrow> Inl e
      | (_, _, Inl e) \<Rightarrow> Inl e)"

fun format_all :: "(json \<Rightarrow> string) \<Rightarrow> error_data list \<Rightarrow> string list client_res" where
  "format_all str [] = Inr []"
| "format_all str (d # ds) =
     (case format_err_event str d of
        Inl e \<Rightarrow> Inl e
      | Inr t \<Rightarrow> (case format_all str ds of Inl e \<Rightarrow> Inl e | Inr ts \<Rightarrow> Inr (t # ts)))"

definition strip_quotes :: "string \<Rightarrow> string" where
  "strip_quotes s = rev (dropWhile (\<lambda>c. c = CHR 0x22) (rev (dropWhile (\<lambda>c. c = CHR 0x22) s)))"

text \<open>The status is read before each step; a final one is cached, so after the first read it is the same.\<close>

definition error_message :: "client_env \<Rightarrow> job_service \<Rightarrow> json \<Rightarrow> json client_res" where
  "error_message env sv st =
     (if st \<noteq> JStr ''ERROR'' then Inr (JStr [])
      else
        (case sv_events sv of
           Inl e \<Rightarrow> Inl e
         | Inr [] \<Rightarrow>
             (case sv_result sv of
                Inr (JStr t) \<Rightarrow> Inr (JStr (case sv_unescape sv (strip_quotes t) of Some u \<Rightarrow> u | None \<Rightarrow> t))
              | r \<Rightarrow> r)
         | Inr (d # ds) \<Rightarrow>
             (case format_all (ce_str env) (d # ds) of
                Inl e \<Rightarrow> Inl e
              | Inr ts \<Rightarrow> Inr (JStr (join_with (line_break @ line_break) ts)))))"

definition BLOCKED_RESOURCE_ERROR_CODE :: string where
  "BLOCKED_RESOURCE_ERROR_CODE = ''BLOCKED_RESOURCE''"

definition is_blocked_event :: "error_data \<Rightarrow> bool" where
  "is_blocked_event d \<longleftrightarrow> map_of d ''code'' = Some (JStr BLOCKED_RESOURCE_ERROR_CODE)"

definition raise_blocked :: "client_env \<Rightarrow> job_service \<Rightarrow> unit client_res" where
  "raise_blocked env sv =
     (case sv_events sv of
        Inl e \<Rightarrow> Inl e
      | Inr ds \<Rightarrow>
          (case find is_blocked_event ds of
             None \<Rightarrow> Inr ()
           | Some d \<Rightarrow> (case format_err_event (ce_str env) d of Inl e \<Rightarrow> Inl e | Inr t \<Rightarrow> Inl (ServerlessException t None))))"

definition decoded_results :: "job_service \<Rightarrow> json client_res" where
  "decoded_results sv =
     (case sv_result sv of
        Inr (JStr t) \<Rightarrow> Inr (case sv_decode sv t of Some v \<Rightarrow> v | None \<Rightarrow> JStr t)
      | r \<Rightarrow> r)"

definition result_of :: "client_env \<Rightarrow> job_service \<Rightarrow> json \<Rightarrow> json client_res" where
  "result_of env sv st =
     (if st = JStr ''ERROR''
      then (case error_message env sv st of
              Inl e \<Rightarrow> Inl e
            | Inr m \<Rightarrow>
                if json_truthy m then Inl (ServerlessException (ce_str env m) None)
                else (case sv_error_logs sv of Inl e \<Rightarrow> Inl e | Inr t \<Rightarrow> Inl (ServerlessException t None)))
      else if st = JStr ''CANCELED'' then (case raise_blocked env sv of Inl e \<Rightarrow> Inl e | Inr _ \<Rightarrow> decoded_results sv)
      else decoded_results sv)"

text \<open>The loop of \<open>result\<close>: \<open>maxwait\<close> zero waits for ever.\<close>

fun result_wait :: "client_env \<Rightarrow> int \<Rightarrow> nat \<Rightarrow> nat \<Rightarrow> nat \<Rightarrow> client_job \<times> client_state \<Rightarrow> (unit client_res \<times> client_job \<times> client_state) option" where
  "result_wait env cadence maxwait 0 n js = None"
| "result_wait env cadence maxwait (Suc fuel) n js =
     (case job_status env js of
        (Inl e, j, s) \<Rightarrow> Some (Inl e, j, s)
      | (Inr st, j, s) \<Rightarrow>
          if is_final st \<or> (maxwait \<noteq> 0 \<and> n \<ge> maxwait) then Some (Inr (), j, s)
          else result_wait env cadence maxwait fuel (Suc n) (j, sleep env cadence s))"

definition job_result ::
  "client_env \<Rightarrow> job_service \<Rightarrow> bool \<Rightarrow> int \<Rightarrow> nat \<Rightarrow> nat \<Rightarrow> client_job \<times> client_state \<Rightarrow> (json client_res \<times> client_job \<times> client_state) option" where
  "job_result env sv wait cadence maxwait fuel js =
     (case (if wait then result_wait env cadence maxwait fuel 0 js else Some (Inr (), js)) of
        None \<Rightarrow> None
      | Some (Inl e, j, s) \<Rightarrow> Some (Inl e, j, s)
      | Some (Inr _, j, s) \<Rightarrow>
          (case job_status env (j, s) of
             (Inl e, j', s') \<Rightarrow> Some (Inl e, j', s')
           | (Inr st, j', s') \<Rightarrow>
               if is_final st then Some (result_of env sv st, j', s')
               else (case job_status env (j', s') of
                       (Inl e, j'', s'') \<Rightarrow> Some (Inl e, j'', s'')
                     | (Inr st', j'', s'') \<Rightarrow>
                         Some (if st' = JStr ''CANCELED'' then result_of env sv st' else decoded_results sv, j'', s''))))"

section \<open>Functions\<close>

text \<open>The fields of \<open>QiskitFunction\<close> its own code looks at; a size may be a text or a \<open>ComputeProfile\<close>, and \<open>str\<close> of either is its id.\<close>

record qiskit_function =
  qf_title :: string
  qf_provider :: "string option"
  qf_entrypoint :: "string option"
  qf_image :: "string option"
  qf_runner :: string
  qf_schema :: "json option"
  qf_sizes :: "(string \<times> string) list option"
  qf_default_size :: "string option"

definition post_init :: "qiskit_function \<Rightarrow> qiskit_function client_res" where
  "post_init f =
     (if CHR ''/'' \<notin> set (qf_title f) then Inr f
      else
        (case split_on (CHR ''/'') (qf_title f) of
           [a, b] \<Rightarrow>
             if qf_provider f \<noteq> Some a \<and> qf_provider f \<noteq> None
             then Inl (Client_ValueError ''Invalid provider: you provided two different providers.'')
             else Inr (f\<lparr>qf_provider := Some a, qf_title := b\<rparr>)
         | _ \<Rightarrow> Inl (Client_ValueError ''Invalid title: it can only contain one slash.'')))"

definition format_provider_name_and_title :: "string option \<Rightarrow> string \<Rightarrow> string option \<times> string" where
  "format_provider_name_and_title prov t =
     (if truthy prov then (prov, t)
      else (case split_on (CHR ''/'') t of a # b # _ \<Rightarrow> (Some a, b) | [a] \<Rightarrow> (None, a) | [] \<Rightarrow> (None, [])))"

definition decode_arguments_schema :: "(string \<Rightarrow> json option) \<Rightarrow> json \<Rightarrow> json option client_res" where
  "decode_arguments_schema loads raw =
     (let decoded = (case raw of
            JStr t \<Rightarrow> if t = [] then Inr JNull
              else (case loads t of None \<Rightarrow> Inl (ServerlessException ''The function arguments schema is not valid JSON'' None) | Some v \<Rightarrow> Inr v)
          | _ \<Rightarrow> Inr raw)
      in case decoded of
           Inl e \<Rightarrow> Inl e
         | Inr v \<Rightarrow>
             (case v of
                JNull \<Rightarrow> Inr None
              | JObj [] \<Rightarrow> Inr None
              | JObj _ \<Rightarrow> Inr (Some v)
              | JBool _ \<Rightarrow> Inr (Some v)
              | _ \<Rightarrow> Inl (ServerlessException ''A function arguments schema must be an object or a boolean'' None)))"

text \<open>What the upload sends of a schema and of the sizes: a field that is \<open>None\<close> is left out, an empty one is sent.\<close>

definition schema_payload :: "(json \<Rightarrow> string) \<Rightarrow> qiskit_function \<Rightarrow> string option" where
  "schema_payload dumps f = map_option dumps (qf_schema f)"

definition sizes_payload :: "qiskit_function \<Rightarrow> (string \<times> string) list option \<times> string option" where
  "sizes_payload f = (qf_sizes f, qf_default_size f)"

definition upload_kind :: "qiskit_function \<Rightarrow> bool client_res" where
  "upload_kind f =
     (if truthy (qf_image f) then Inr True
      else if truthy (qf_entrypoint f) then Inr False
      else Inl (ServerlessException ''Function must either have `entrypoint` or `image` specified.'' None))"

section \<open>Logs\<close>

definition unlines_with :: "string list \<Rightarrow> string" where
  "unlines_with ls = concat (map (\<lambda>l. l @ line_break) ls)"

fun keep_lines :: "(string \<Rightarrow> bool) \<Rightarrow> string list \<Rightarrow> string \<Rightarrow> string" where
  "keep_lines ok [] acc = acc"
| "keep_lines ok (l # ls) acc = keep_lines ok ls (if ok l then acc @ l @ line_break else acc)"

definition filtered_logs :: "(string \<Rightarrow> bool) option \<Rightarrow> (string \<Rightarrow> bool) option \<Rightarrow> string \<Rightarrow> string" where
  "filtered_logs incl excl logs =
     (let included = (case incl of None \<Rightarrow> logs | Some p \<Rightarrow> keep_lines p (split_on (char_of (10 :: nat)) logs) [])
      in case excl of
           None \<Rightarrow> included
         | Some q \<Rightarrow> keep_lines (\<lambda>l. l \<noteq> [] \<and> \<not> q l) (split_on (char_of (10 :: nat)) included) [])"

section \<open>Compute profiles\<close>

record compute_profile_entry =
  compute_profile_id_of :: string
  cpu_of :: string
  memory_of :: string
  gpu_of :: "string option"

definition match_profile ::
  "compute_profile_entry list client_res \<Rightarrow> string option \<Rightarrow> string option \<Rightarrow> string option \<Rightarrow> string option \<Rightarrow> compute_profile_entry client_res" where
  "match_profile listed pid cpu memory gpu =
     (let by_id = pid \<noteq> None; by_resources = cpu \<noteq> None \<or> memory \<noteq> None \<or> gpu \<noteq> None in
      if by_id \<and> by_resources then Inl (ServerlessException ''Pass either a compute_profile_id or cpu/memory/gpu, not both.'' None)
      else if \<not> by_id \<and> \<not> by_resources then Inl (ServerlessException ''Provide a compute_profile_id, or cpu and memory.'' None)
      else
        (case listed of
           Inl e \<Rightarrow> Inl e
         | Inr profiles \<Rightarrow>
             if \<not> by_id \<and> (cpu = None \<or> memory = None)
             then Inl (ServerlessException ''Both cpu and memory are required to match by resources.'' None)
             else
               (case find (\<lambda>p. if by_id then compute_profile_id_of p = the pid
                               else cpu_of p = the cpu \<and> memory_of p = the memory \<and> gpu_of p = gpu) profiles of
                  Some p \<Rightarrow> Inr p
                | None \<Rightarrow> Inl (ServerlessException ''No compute profile matches'' None))))"

section \<open>Dependencies\<close>

definition requirement_char :: "char \<Rightarrow> bool" where
  "requirement_char c \<longleftrightarrow> is_lower_letter c \<or> is_upper_letter c \<or> is_digit c \<or> c \<in> {CHR ''.'', CHR ''_'', CHR ''-''}"

text \<open>\<open>_REQUIREMENT_RE\<close>: a name, extras in brackets that are dropped, and the rest of a line without white space around it.\<close>

definition drop_extras :: "string \<Rightarrow> string" where
  "drop_extras r = (if r \<noteq> [] \<and> hd r = CHR ''['' \<and> CHR '']'' \<in> set r then tl (dropWhile (\<lambda>c. c \<noteq> CHR '']'') r) else r)"

definition split_requirement :: "string \<Rightarrow> string \<times> string" where
  "split_requirement req =
     (let s = lstrip req; nm = takeWhile requirement_char s; spec = strip (drop_extras (lstrip (dropWhile requirement_char s))) in
      if nm = [] \<or> char_of (10 :: nat) \<in> set spec then (strip req, [])
      else (nm, if prefix ''=='' spec then strip (drop 2 spec) else spec))"

fun hyphen_runs :: "bool \<Rightarrow> string \<Rightarrow> string" where
  "hyphen_runs inside [] = []"
| "hyphen_runs inside (c # cs) =
     (if c \<in> {CHR ''-'', CHR ''_'', CHR ''.''} then (if inside then [] else ''-'') @ hyphen_runs True cs else c # hyphen_runs False cs)"

definition normalize_dep_name :: "string \<Rightarrow> string" where
  "normalize_dep_name nm = lower (hyphen_runs False nm)"

definition spec_allows :: "string \<Rightarrow> string \<Rightarrow> bool" where
  "spec_allows spec baked =
     (let s = strip spec in
      if s = [] then True
      else if prefix ''=='' s then strip (drop 2 s) = baked
      else if is_digit (hd s) then s = baked
      else True)"

definition baked_versions :: "string list \<Rightarrow> (string \<times> string) list" where
  "baked_versions deps = fold (\<lambda>d. let (nm, v) = split_requirement d in AList.update (normalize_dep_name nm) v) deps []"

definition report_entry :: "(string \<times> string) list \<Rightarrow> string \<Rightarrow> string \<times> string" where
  "report_entry baked req =
     (let (nm, spec) = split_requirement req in
      (req, case map_of baked (normalize_dep_name nm) of
              None \<Rightarrow> ''bring''
            | Some v \<Rightarrow> if spec \<noteq> [] \<and> \<not> spec_allows spec v then ''clash'' else ''baked''))"

definition dependency_report :: "string list \<Rightarrow> string list \<Rightarrow> (string \<times> string) list" where
  "dependency_report deps requirements = map (report_entry (baked_versions deps)) requirements"

section \<open>Checks before a run\<close>

text \<open>
  What \<open>QiskitRuntimeService\<close> answers: the seconds that remain and whether the limit is reached, the names of the backends, and whether one
  of them can be used. \<open>ic_cache\<close> holds the names of the cached backends, \<open>ic_warned\<close> counts warnings.
\<close>

record runtime_api =
  rs_usage :: "(rat option \<times> bool) client_res"
  rs_backends :: "nat option \<Rightarrow> string list client_res"
  rs_backend :: "string \<Rightarrow> bool client_res"

record ibm_client =
  ic_cache :: "string list"
  ic_warned :: nat

definition exhausted :: "rat \<Rightarrow> rat option \<times> bool \<Rightarrow> bool" where
  "exhausted eps u = (case u of (Some r, _) \<Rightarrow> r \<le> eps | (None, reached) \<Rightarrow> reached \<and> 0 \<le> eps)"

definition warn :: "ibm_client \<Rightarrow> ibm_client" where
  "warn c = c\<lparr>ic_warned := Suc (ic_warned c)\<rparr>"

definition check_usage :: "runtime_api \<Rightarrow> rat \<Rightarrow> rat \<Rightarrow> bool \<Rightarrow> ibm_client \<Rightarrow> unit client_res \<times> ibm_client" where
  "check_usage rs eps low suppress c =
     (case rs_usage rs of
        Inl _ \<Rightarrow> (Inr (), warn c)
      | Inr (remaining, reached) \<Rightarrow>
          if remaining = None \<and> \<not> reached then (Inr (), c)
          else
            (let r = (case remaining of None \<Rightarrow> 0 | Some x \<Rightarrow> x) in
             if r \<le> eps then (Inl (ServerlessException ''no remaining runtime quota'' None), c)
             else (Inr (), if \<not> suppress \<and> r \<le> low then warn c else c)))"

definition backends :: "runtime_api \<Rightarrow> bool \<Rightarrow> nat option \<Rightarrow> ibm_client \<Rightarrow> string list client_res \<times> ibm_client" where
  "backends rs refresh qubits c =
     (if \<not> refresh \<and> ic_cache c \<noteq> [] then (Inr (ic_cache c), c)
      else (case rs_backends rs qubits of
              Inl _ \<Rightarrow> (Inl (ServerlessException ''Failed to retrieve backends'' None), c)
            | Inr names \<Rightarrow> (Inr names, c\<lparr>ic_cache := rev (remdups (rev names))\<rparr>)))"

definition backend :: "runtime_api \<Rightarrow> string \<Rightarrow> ibm_client \<Rightarrow> unit client_res \<times> ibm_client" where
  "backend rs nm c =
     (case rs_backend rs nm of
        Inr True \<Rightarrow> (Inr (), if nm \<in> set (ic_cache c) then c else c\<lparr>ic_cache := ic_cache c @ [nm]\<rparr>)
      | Inr False \<Rightarrow> (Inl (ServerlessException ''Backend is not available'' None), c)
      | Inl _ \<Rightarrow> (Inl (ServerlessException ''Failed to retrieve backend'' None), c))"

text \<open>\<open>submit\<close> is the run of the plain client, which is only reached when every check passed.\<close>

definition ibm_run ::
  "runtime_api \<Rightarrow> rat \<Rightarrow> rat \<Rightarrow> bool \<Rightarrow> bool \<Rightarrow> string option \<Rightarrow> 'a client_res \<Rightarrow> ibm_client \<Rightarrow> bool \<times> 'a client_res \<times> ibm_client" where
  "ibm_run rs eps low suppress bypass backend_name submit c =
     (let (u, c1) = (if \<not> bypass then check_usage rs eps low suppress c
                     else (Inr (), if \<not> suppress then warn c else c)) in
      case u of
        Inl e \<Rightarrow> (False, Inl e, c1)
      | Inr _ \<Rightarrow>
          (if truthy backend_name
           then (case backend rs (the backend_name) c1 of (Inl e, c2) \<Rightarrow> (False, Inl e, c2) | (Inr _, c2) \<Rightarrow> (True, submit, c2))
           else (case backends rs False None c1 of
                   (Inl e, c2) \<Rightarrow> (False, Inl e, c2)
                 | (Inr [], c2) \<Rightarrow> (False, Inl (ServerlessException ''no backends available'' None), c2)
                 | (Inr (_ # _), c2) \<Rightarrow> (True, submit, c2))))"

section \<open>A failure is never taken for a result\<close>

lemma job_status_final:
  assumes "job_status env (j, s) = (Inr st, j', s')"
  shows "(is_final st \<longrightarrow> (cj_final j = None \<or> cj_final j = Some st) \<and> cj_final j' = Some st) \<and> (\<not> is_final st \<longrightarrow> cj_final j' = cj_final j)"
proof (cases "cj_final j")
  case None
  have "cj_final j2 = cj_final j" if "fetch_status env (j, s) = (r, j2, s2)" for r j2 s2
    using that by (auto simp: fetch_status_def split: prod.splits sum.splits option.splits)
  then show ?thesis using assms None by (auto simp: job_status_def split: prod.splits sum.splits if_splits)
next
  case (Some v)
  then show ?thesis using assms by (auto simp: job_status_def)
qed

lemma result_wait_final:
  assumes "result_wait env cadence 0 fuel n js = Some (Inr (), j', s')"
  shows "\<exists>st. is_final st \<and> cj_final j' = Some st"
  using assms
proof (induction fuel arbitrary: n js)
  case (Suc fuel)
  obtain j s where js: "js = (j, s)" by force
  obtain r j1 s1 where r: "job_status env (j, s) = (r, j1, s1)" by (metis prod_cases3)
  show ?case
  proof (cases r)
    case (Inl e)
    then show ?thesis using Suc.prems r js by simp
  next
    case (Inr st)
    then show ?thesis using Suc.prems Suc.IH r js job_status_final [of env j s st j1 s1] by (auto split: if_splits)
  qed
qed simp

lemma result_of_Inr:
  assumes "result_of env sv st = Inr v"
  shows "st \<noteq> JStr ''ERROR'' \<and> decoded_results sv = Inr v \<and>
    (st = JStr ''CANCELED'' \<longrightarrow> (\<exists>ds. sv_events sv = Inr ds \<and> list_all (\<lambda>d. \<not> is_blocked_event d) ds))"
  using assms by (auto simp: result_of_def raise_blocked_def list_all_iff find_None_iff split: if_splits sum.splits option.splits)

text \<open>
  C28: When \<open>result()\<close> returns, after waiting for the end, the job is done, or it was cancelled and none of its error events says that its
  account is blocked; the value is exactly the decoded result. A job that failed, and one that was stopped because it is blocked, always
  raises.
\<close>

theorem result_hides_no_failure:
  assumes "job_result env sv True cadence 0 fuel js = Some (Inr v, j', s')"
  shows "decoded_results sv = Inr v \<and>
    (cj_final j' = Some (JStr ''DONE'') \<or>
     (cj_final j' = Some (JStr ''CANCELED'') \<and> (\<exists>ds. sv_events sv = Inr ds \<and> list_all (\<lambda>d. \<not> is_blocked_event d) ds)))"
proof -
  obtain j s where w: "result_wait env cadence 0 fuel 0 js = Some (Inr (), j, s)"
    using assms by (auto simp: job_result_def split: option.splits sum.splits)
  then obtain st where st: "is_final st" "cj_final j = Some st" using result_wait_final by blast
  then have status: "job_status env (j, s) = (Inr st, j, s)" by (simp add: job_status_def)
  then have r: "result_of env sv st = Inr v" "j' = j" using assms w st by (auto simp: job_result_def)
  have "st \<in> {JStr ''CANCELED'', JStr ''DONE'', JStr ''ERROR''}"
    using st(1) by (cases st) (auto simp: is_final_def FINAL_STATUSES_def)
  then show ?thesis using result_of_Inr [OF r(1)] r(2) st(2) by auto
qed

text \<open>Without the wait the status is read twice, and a failure between the two reads is not raised.\<close>

lemma failure_between_reads:
  assumes "job_status env (j, s) = (Inr st, j1, s1)" "\<not> is_final st" "job_status env (j1, s1) = (Inr (JStr ''ERROR''), j2, s2)"
  shows "job_result env sv False cadence maxwait fuel (j, s) = Some (decoded_results sv, j2, s2)"
  using assms by (simp add: job_result_def)

section \<open>Titles\<close>

text \<open>
  The client and the gateway read a function's name alike. When a function is created from a title that may carry its provider, the
  client's look-up by title and the gateway's parser split it the same way, and the gateway never rejects the pair the client then sends.
\<close>

theorem titles_read_alike:
  assumes "post_init f = Inr g" "qf_provider g \<noteq> Some []"
  shows "parse_title_and_provider (qf_title g) (qf_provider g) = Inr (sanitize_name (qf_title g), map_option sanitize_name (qf_provider g)) \<and>
    (qf_provider f = None \<longrightarrow> format_provider_name_and_title None (qf_title f) = (qf_provider g, qf_title g) \<and>
       parse_title_and_provider (qf_title f) None = Inr (sanitize_name (qf_title g), map_option sanitize_name (qf_provider g)))"
proof (cases "CHR ''/'' \<in> set (qf_title f)")
  case False
  with assms have "g = f" by (simp add: post_init_def)
  with False assms(2) show ?thesis
    by (cases "qf_provider f") (auto simp: parse_title_and_provider_def format_provider_name_and_title_def split_on_no_sep)
next
  case True
  then obtain a b where ab: "split_on (CHR ''/'') (qf_title f) = [a, b]" "g = f\<lparr>qf_provider := Some a, qf_title := b\<rparr>"
    using assms(1) by (auto simp: post_init_def split: list.splits if_splits)
  moreover have "CHR ''/'' \<notin> set b" by (rule split_on_parts_no_sep [of _ _ "qf_title f"]) (simp add: ab)
  ultimately show ?thesis using assms(2) by (auto simp: parse_title_and_provider_def format_provider_name_and_title_def)
qed

definition ex_function_of :: "string \<Rightarrow> qiskit_function" where
  "ex_function_of t = \<lparr>qf_title = t, qf_provider = None, qf_entrypoint = Some ''main.py'', qf_image = None, qf_runner = ''fleets'', qf_schema = None,
     qf_sizes = None, qf_default_size = None\<rparr>"

theorem titles_read_alike_witness:
  "\<exists>g. post_init (ex_function_of ''acme/solve'') = Inr g \<and> format_provider_name_and_title None ''acme/solve'' = (qf_provider g, qf_title g) \<and>
     parse_title_and_provider ''acme/solve'' None = Inr (''solve'', Some ''acme'')"
proof -
  let ?g = "(ex_function_of ''acme/solve'')\<lparr>qf_provider := Some ''acme'', qf_title := ''solve''\<rparr>"
  have g: "post_init (ex_function_of ''acme/solve'') = Inr ?g" "qf_provider ?g \<noteq> Some []" by code_simp+
  have "sanitize_name ''solve'' = ''solve''" "sanitize_name ''acme'' = ''acme''" by code_simp+
  then show ?thesis using titles_read_alike [OF g] g by (intro exI [of _ ?g]) (simp add: ex_function_of_def)
qed

definition ex_service :: job_service where
  "ex_service = \<lparr>sv_events = Inr [], sv_result = Inr (JStr ''R''), sv_error_logs = Inr [], sv_decode = ex_loads, sv_unescape = Some\<rparr>"

theorem result_hides_no_failure_witness:
  "\<exists>v j' s'. job_result (ex_client ex_answers) ex_service True (seconds 14) 0 6 (ex_client_job, ex_start) = Some (Inr v, j', s') \<and>
     decoded_results ex_service = Inr v \<and> (cj_final j' = Some (JStr ''DONE'') \<or> cj_final j' = Some (JStr ''CANCELED''))"
proof -
  let ?x = "job_result (ex_client ex_answers) ex_service True (seconds 14) 0 6 (ex_client_job, ex_start)"
  show ?thesis
  proof (cases ?x)
    case None
    have "?x \<noteq> None" by code_simp
    with None show ?thesis by simp
  next
    case (Some y)
    moreover have "map_option (isl \<circ> fst) ?x = Some False" by code_simp
    ultimately obtain v j' s' where "?x = Some (Inr v, j', s')" by (cases y; cases "fst y") auto
    from this result_hides_no_failure [OF this] show ?thesis by blast
  qed
qed

section \<open>Filtered logs\<close>

lemma keep_lines_eq: "keep_lines ok ls acc = acc @ unlines_with (filter ok ls)"
  by (induction ok ls acc rule: keep_lines.induct) (auto simp: unlines_with_def)

lemma split_unlines: "\<forall>l \<in> set ls. char_of (10 :: nat) \<notin> set l \<Longrightarrow> split_on (char_of (10 :: nat)) (unlines_with ls) = ls @ [[]]"
  by (induction ls) (auto simp: unlines_with_def split_on_append_sep)

text \<open>
  The filtered logs are exactly the lines, in order, that match the one expression and not the other; an empty line is only left when
  nothing is excluded.
\<close>

theorem filtered_logs_exact:
  "filtered_logs (Some p) None logs = unlines_with (filter p (split_on (char_of (10 :: nat)) logs)) \<and>
   filtered_logs (Some p) (Some q) logs = unlines_with (filter (\<lambda>l. p l \<and> l \<noteq> [] \<and> \<not> q l) (split_on (char_of (10 :: nat)) logs)) \<and>
   filtered_logs None (Some q) logs = unlines_with (filter (\<lambda>l. l \<noteq> [] \<and> \<not> q l) (split_on (char_of (10 :: nat)) logs))"
proof -
  have "\<forall>l \<in> set (filter p (split_on (char_of (10 :: nat)) logs)). char_of (10 :: nat) \<notin> set l"
    using split_on_parts_no_sep by fastforce
  from split_unlines [OF this] show ?thesis
    by (simp add: filtered_logs_def keep_lines_eq conj_commute conj_left_commute cong: conj_cong)
qed

section \<open>Schemas and sizes come back as they were sent\<close>

text \<open>
  A schema that is uploaded reads back as the same schema; an empty object reads back as no schema, which is how one is removed.
\<close>

theorem schema_reads_back:
  assumes "\<And>v. loads (dumps v) = Some v" "\<And>v. dumps v \<noteq> []" "schema_payload dumps f = Some t"
    and "case qf_schema f of Some (JObj _) \<Rightarrow> True | Some (JBool _) \<Rightarrow> True | _ \<Rightarrow> False"
  shows "decode_arguments_schema loads (JStr t) = Inr (if qf_schema f = Some (JObj []) then None else qf_schema f)"
  using assms by (auto simp: decode_arguments_schema_def schema_payload_def split: option.splits json.splits list.splits)

section \<open>What is checked before a run\<close>

definition usable_backend :: "runtime_api \<Rightarrow> string option \<Rightarrow> ibm_client \<Rightarrow> bool" where
  "usable_backend rs nm c \<longleftrightarrow>
     (if truthy nm then rs_backend rs (the nm) = Inr True
      else ic_cache c \<noteq> [] \<or> (\<exists>ns. rs_backends rs None = Inr ns \<and> ns \<noteq> []))"

text \<open>
  A run of the IBM client reaches the gateway exactly when its checks pass: the quota is not used up (unless the check is bypassed, or
  the usage cannot be read), and the named backend can be used, or some backend is known when none is named. Otherwise it raises and
  nothing is submitted.
\<close>

theorem run_submits_iff_checks_pass:
  assumes "ibm_run rs eps low suppress bypass nm submit c = (submitted, r, c')"
  shows "(submitted \<longleftrightarrow> (bypass \<or> isl (rs_usage rs) \<or> \<not> exhausted eps (projr (rs_usage rs))) \<and> usable_backend rs nm c) \<and>
    (submitted \<longrightarrow> r = submit) \<and> (\<not> submitted \<longrightarrow> isl r)"
proof -
  define u where "u = (if \<not> bypass then check_usage rs eps low suppress c else (Inr (), if \<not> suppress then warn c else c))"
  have u: "isl (fst u) \<longleftrightarrow> \<not> bypass \<and> \<not> isl (rs_usage rs) \<and> exhausted eps (projr (rs_usage rs))" "ic_cache (snd u) = ic_cache c"
    by (auto simp: u_def check_usage_def exhausted_def warn_def Let_def split: sum.splits option.splits prod.splits)
  have "ibm_run rs eps low suppress bypass nm submit c =
      (case fst u of Inl e \<Rightarrow> (False, Inl e, snd u) | Inr _ \<Rightarrow>
         (if truthy nm then (case backend rs (the nm) (snd u) of (Inl e, c2) \<Rightarrow> (False, Inl e, c2) | (Inr _, c2) \<Rightarrow> (True, submit, c2))
          else (case backends rs False None (snd u) of (Inl e, c2) \<Rightarrow> (False, Inl e, c2)
             | (Inr [], c2) \<Rightarrow> (False, Inl (ServerlessException ''no backends available'' None), c2) | (Inr (_ # _), c2) \<Rightarrow> (True, submit, c2))))"
    unfolding ibm_run_def u_def [symmetric] Let_def by (simp add: split_beta)
  with assms u show ?thesis
    by (auto simp: usable_backend_def backend_def backends_def split: sum.splits if_splits list.splits bool.splits)
qed

theorem run_submits_iff_checks_pass_witness:
  "\<exists>r c'. ibm_run \<lparr>rs_usage = Inr (Some 1, False), rs_backends = (\<lambda>_. Inr [''ibm_x'']), rs_backend = (\<lambda>_. Inr True)\<rparr> 1 600 False False None
     (Inr ''job'') \<lparr>ic_cache = [], ic_warned = 0\<rparr> = (False, r, c') \<and> isl r"
proof -
  let ?rs = "\<lparr>rs_usage = Inr (Some 1, False), rs_backends = (\<lambda>_. Inr [''ibm_x'']), rs_backend = (\<lambda>_. Inr True)\<rparr>" and ?c = "\<lparr>ic_cache = [], ic_warned = 0\<rparr>"
  obtain b r c' where x: "ibm_run ?rs 1 600 False False None (Inr ''job'') ?c = (b, r, c')" by (metis prod_cases3)
  from run_submits_iff_checks_pass [OF this] have "\<not> b" "isl r" by (auto simp: exhausted_def)
  then show ?thesis using x by auto
qed

text \<open>A cached backend answers every later listing, whatever filters that listing has.\<close>

lemma cached_listing_ignores_filters:
  "rs_backend rs nm = Inr True \<Longrightarrow> ic_cache c = [] \<Longrightarrow> fst (backends rs False qubits (snd (backend rs nm c))) = Inr [nm]"
  by (simp add: backend_def backends_def)

section \<open>Profiles and dependencies\<close>

lemma match_profile_sound:
  "match_profile listed pid cpu memory gpu = Inr p \<Longrightarrow>
     \<exists>ps. listed = Inr ps \<and> p \<in> set ps \<and> (pid = Some (compute_profile_id_of p) \<or> (pid = None \<and> cpu = Some (cpu_of p) \<and> memory = Some (memory_of p) \<and> gpu = gpu_of p))"
  by (auto simp: match_profile_def Let_def find_Some_iff split: if_splits option.splits sum.splits)

lemma baked_versions_dom:
  "fst ` set (fold (\<lambda>d. let (nm, v) = split_requirement d in AList.update (normalize_dep_name nm) v) deps acc) =
     fst ` set acc \<union> (normalize_dep_name \<circ> fst \<circ> split_requirement) ` set deps"
proof (induction deps arbitrary: acc)
  case (Cons d deps)
  then show ?case by (auto simp: split_beta Let_def dom_update)
qed simp

text \<open>A requirement has to be brought exactly when no shipped one has its normalised name.\<close>

lemma bring_iff_not_shipped:
  "snd (report_entry (baked_versions deps) req) = ''bring'' \<longleftrightarrow>
     normalize_dep_name (fst (split_requirement req)) \<notin> (normalize_dep_name \<circ> fst \<circ> split_requirement) ` set deps"
proof -
  have shipped: "map_of (baked_versions deps) k = None \<longleftrightarrow> k \<notin> (normalize_dep_name \<circ> fst \<circ> split_requirement) ` set deps" for k
    using baked_versions_dom [of deps "[]"] by (simp only: baked_versions_def map_of_eq_None_iff) simp
  show ?thesis unfolding shipped [symmetric] by (auto simp: report_entry_def split_beta Let_def split: option.splits)
qed

end
