(* ===== verification/Upload_Request.thy ===== *)
theory Upload_Request
  imports Upload_Function Fleets_Runner Client_Library
begin

text \<open>
  The request body of an upload (\<^verbatim>\<open>api/v1/views/programs/upload.py\<close>, \<open>ProgramSerializer\<close>): what is accepted of an entry point, an image,
  the dependencies, the sizes and the title before the use case sees them. \<open>packaging\<close>'s parsers of requirements and versions and the
  check of the schema are parameters.
\<close>

section \<open>Fields\<close>

definition strip_slashes :: "string \<Rightarrow> string" where
  "strip_slashes s = rev (dropWhile (\<lambda>c. c = CHR ''/'') (rev s))"

definition image_in_registry :: "string \<Rightarrow> string \<Rightarrow> bool" where
  "image_in_registry img registry \<longleftrightarrow> img = strip_slashes registry \<or> prefix (strip_slashes registry @ ''/'') img"

definition validate_title :: "string \<Rightarrow> string" where
  "validate_title = sanitize_name"

definition validate_provider :: "string \<Rightarrow> string" where
  "validate_provider v = (if v = [] then v else sanitize_name v)"

definition entry_char :: "char \<Rightarrow> bool" where
  "entry_char c \<longleftrightarrow> is_lower_letter c \<or> is_upper_letter c \<or> is_digit c \<or> c \<in> {CHR ''_'', CHR ''.'', CHR ''/'', CHR ''-''}"

definition INVALID_ENTRYPOINT :: string where
  "INVALID_ENTRYPOINT = ''Invalid entrypoint. It must be a relative path to a .py file without '' @ quoted ''..'' @ '' segments or shell characters.''"

text \<open>\<open>fullmatch\<close> of \<open>[...]+\.py\<close>: at least one character before the ending.\<close>

definition entry_match :: "string \<Rightarrow> bool" where
  "entry_match s \<longleftrightarrow> length s > 3 \<and> suffix ''.py'' s \<and> list_all entry_char (take (length s - 3) s)"

definition validate_entrypoint :: "string \<Rightarrow> string res" where
  "validate_entrypoint v =
     (let nm = normpath v in
      if \<not> entry_match nm \<or> prefix ''/'' nm \<or> ''..'' \<in> set (split_on (CHR ''/'') nm) then Inl (ValidationError INVALID_ENTRYPOINT)
      else Inr nm)"

section \<open>Dependencies\<close>

text \<open>\<open>require\<close> is \<open>Requirement\<close>: the operators of its specifiers, or None for \<open>InvalidRequirement\<close>.\<close>

definition pinned :: "string \<Rightarrow> string res" where
  "pinned v =
     (case v of
        [] \<Rightarrow> Inl (OtherException ''IndexError'')
      | c # _ \<Rightarrow> Inr (if is_digit c then ''=='' @ v else v))"

definition dependency_text :: "(json \<Rightarrow> string) \<Rightarrow> json \<Rightarrow> string res" where
  "dependency_text str dep =
     (case dep of
        JStr s \<Rightarrow> Inr s
      | JObj [(k, v)] \<Rightarrow> (case pinned (str v) of Inl e \<Rightarrow> Inl e | Inr p \<Rightarrow> Inr (k @ p))
      | JObj _ \<Rightarrow> Inl (ValidationError (quoted ''dependencies'' @ '' should be an array with dict containing one dependency only.''))
      | _ \<Rightarrow> Inl (ValidationError (quoted ''dependencies'' @ '' should be an array with strings or dict.'')))"

definition parse_dependency :: "(json \<Rightarrow> string) \<Rightarrow> (string \<Rightarrow> string list option) \<Rightarrow> json \<Rightarrow> unit res option" where
  "parse_dependency str require dep =
     (case dependency_text str dep of
        Inl e \<Rightarrow> Some (Inl e)
      | Inr t \<Rightarrow>
          (case require t of
             None \<Rightarrow> None
           | Some ops \<Rightarrow>
               if length ops > 1 \<or> (ops \<noteq> [] \<and> hd ops \<noteq> ''=='')
               then Some (Inl (ValidationError (quoted ''dependencies'' @ '' needs one fixed version using the '' @ quoted ''=='' @ '' operator.'')))
               else Some (Inr ())))"

fun parse_dependencies :: "(json \<Rightarrow> string) \<Rightarrow> (string \<Rightarrow> string list option) \<Rightarrow> json list \<Rightarrow> unit res" where
  "parse_dependencies str require [] = Inr ()"
| "parse_dependencies str require (d # ds) =
     (case parse_dependency str require d of
        None \<Rightarrow> Inl (ValidationError ''Error while parsing dependencies.'')
      | Some (Inl e) \<Rightarrow> Inl e
      | Some (Inr _) \<Rightarrow> parse_dependencies str require ds)"

definition validate_deps :: "(json \<Rightarrow> string) \<Rightarrow> (string \<Rightarrow> string list option) \<Rightarrow> json \<Rightarrow> unit res" where
  "validate_deps str require deps =
     (case deps of
        JList ds \<Rightarrow> parse_dependencies str require ds
      | _ \<Rightarrow> Inl (ValidationError (quoted ''dependencies'' @ '' should be an array.'')))"

section \<open>The body\<close>

record upload_checks =
  uc_loads :: "string \<Rightarrow> json option"
  uc_str :: "json \<Rightarrow> string"
  uc_require :: "string \<Rightarrow> string list option"
  uc_version :: "string \<Rightarrow> bool"
  uc_schema :: "string \<Rightarrow> string option"
  uc_registry :: "string \<Rightarrow> string option option"
  uc_max_schema :: nat

definition MALFORMED_TITLE :: string where
  "MALFORMED_TITLE = ''Qiskit Function title is malformed. It can only contain one slash.''"

definition check_schema :: "upload_checks \<Rightarrow> string \<Rightarrow> unit res" where
  "check_schema uc t =
     (if length t > uc_max_schema uc then Inl (ValidationError ''arguments_schema is too long'')
      else (case uc_schema uc t of None \<Rightarrow> Inr () | Some why \<Rightarrow> Inl (ValidationError (''arguments_schema cannot be used: '' @ why @ ''.''))))"

definition check_image :: "upload_checks \<Rightarrow> string \<Rightarrow> string option \<Rightarrow> string \<Rightarrow> unit res" where
  "check_image uc t prov img =
     (let parts = split_on (CHR ''/'') t in
      if prov = None \<and> length parts \<noteq> 2 then Inl (ValidationError ''Custom images are only available if you are a provider.'')
      else
        (let p = (if truthy prov then the prov else hd parts) in
         case uc_registry uc p of
           None \<Rightarrow> Inl (ValidationError (p @ '' is not valid provider.''))
         | Some reg \<Rightarrow>
             if truthy reg \<and> \<not> image_in_registry img (the reg) then Inl (ValidationError (''Custom images must be in '' @ the reg @ ''.''))
             else Inr ()))"

definition check_default_size :: "(string \<times> string) list option \<Rightarrow> string option \<Rightarrow> unit res" where
  "check_default_size sizes def =
     (case (sizes, def) of
        (Some ss, Some d) \<Rightarrow> if d \<in> fst ` set ss then Inr () else Inl (ValidationError ''default_size is not one of the sizes sent'')
      | _ \<Rightarrow> Inr ())"

definition opt_res :: "('a \<Rightarrow> 'b res) \<Rightarrow> 'a option \<Rightarrow> 'b option res" where
  "opt_res f x = (case x of None \<Rightarrow> Inr None | Some v \<Rightarrow> map_sum id Some (f v))"

definition validate_default_size :: "string \<Rightarrow> string res" where
  "validate_default_size v =
     (if normalize_function_size v = [] then Inl (ValidationError (quoted ''default_size'' @ '' should be a non-empty size name.''))
      else Inr (normalize_function_size v))"

text \<open>\<open>validate\<close>, on fields that passed their own checks.\<close>

definition validate_body :: "upload_checks \<Rightarrow> upload_input \<Rightarrow> (string \<times> string) list option \<Rightarrow> unit res" where
  "validate_body uc d sizes =
     (case uc_loads uc (case ui_dependencies d of None \<Rightarrow> ''[]'' | Some t \<Rightarrow> t) of
        None \<Rightarrow> Inl (ValidationError (quoted ''dependencies'' @ '' should be an array of strings or objects''))
      | Some deps \<Rightarrow>
          (case validate_deps (uc_str uc) (uc_require uc) deps of
             Inl e \<Rightarrow> Inl e
           | Inr _ \<Rightarrow>
               if truthy (ui_provider d) \<and> CHR ''/'' \<in> set (ui_title d) then Inl (ValidationError ''Provider defined in title and in provider fields.'')
               else if length (split_on (CHR ''/'') (ui_title d)) > 2 then Inl (ValidationError MALFORMED_TITLE)
               else
                 (case opt_res (check_image uc (ui_title d) (ui_provider d)) (ui_image d) of
                    Inl e \<Rightarrow> Inl e
                  | Inr _ \<Rightarrow>
                      if (case ui_version d of None \<Rightarrow> False | Some v \<Rightarrow> \<not> uc_version uc v) then Inl (ValidationError ''Invalid version - expected format x.y.z'')
                      else check_default_size sizes (ui_default_size d))))"

definition validate_upload :: "upload_checks \<Rightarrow> upload_input \<Rightarrow> upload_input res" where
  "validate_upload uc d =
     (case opt_res validate_entrypoint (ui_entrypoint d) of
        Inl e \<Rightarrow> Inl e
      | Inr entry \<Rightarrow>
          (case opt_res (check_schema uc) (ui_arguments_schema d) of
             Inl e \<Rightarrow> Inl e
           | Inr _ \<Rightarrow>
               (case opt_res parse_function_sizes (ui_sizes d) of
                  Inl e \<Rightarrow> Inl e
                | Inr sizes \<Rightarrow>
                    (case opt_res validate_default_size (ui_default_size d) of
                       Inl e \<Rightarrow> Inl e
                     | Inr def \<Rightarrow>
                         (let d' = d\<lparr>ui_title := validate_title (ui_title d), ui_provider := map_option validate_provider (ui_provider d),
                            ui_entrypoint := entry, ui_default_size := def\<rparr>
                          in case validate_body uc d' sizes of Inl e \<Rightarrow> Inl e | Inr _ \<Rightarrow> Inr d')))))"

section \<open>Normalised names\<close>

lemma in_tl: "x \<in> set (tl xs) \<Longrightarrow> x \<in> set xs"
  by (cases xs) auto

lemma norm_components_no_dot: "''.'' \<notin> set acc \<Longrightarrow> ''.'' \<notin> set (norm_components rooted acc cs)"
  by (induction rooted acc cs rule: norm_components.induct) (auto dest: in_tl)

lemma norm_components_id:
  "\<forall>c \<in> set cs. c \<noteq> [] \<and> c \<noteq> ''.'' \<and> c \<noteq> ''..'' \<Longrightarrow> norm_components rooted acc cs = rev acc @ cs"
  by (induction cs arbitrary: acc) auto

lemma normpath_of_parts:
  assumes "q \<noteq> []" "initial_slashes q = 0" "norm_components False [] (split_on (CHR ''/'') q) = split_on (CHR ''/'') q"
  shows "normpath q = q"
  using assms join_split [of "CHR ''/''" q] by (simp add: normpath_def)

lemma normpath_idem:
  assumes "\<not> unsafe_name (normpath s)"
  shows "normpath (normpath s) = normpath s"
proof (cases "normpath s = ''.''")
  case True
  have "normpath ''.'' = ''.''" by code_simp
  with True show ?thesis by simp
next
  case False
  let ?p = "normpath s" and ?cs = "norm_components (initial_slashes s \<noteq> 0) [] (split_on (CHR ''/'') s)"
  have s: "s \<noteq> []" using False by (auto simp: normpath_def)
  have z: "initial_slashes s = 0"
  proof (rule ccontr)
    assume "initial_slashes s \<noteq> 0"
    then have "prefix ''/'' ?p" using s by (auto simp: normpath_def Let_def gr0_conv_Suc dest!: not0_implies_Suc)
    then show False using assms by (simp add: unsafe_name_def)
  qed
  have p: "?p = join_with ''/'' ?cs" "?cs \<noteq> []" using False s z by (auto simp: normpath_def Let_def split: if_splits)
  have parts: "\<forall>c \<in> set [] \<union> set (split_on (CHR ''/'') s). CHR ''/'' \<notin> set c" by (auto simp: split_on_parts_no_sep)
  have "\<exists>k xs. rev [] = replicate k ''..'' @ xs \<and> ''..'' \<notin> set xs \<and> (initial_slashes s \<noteq> 0 \<longrightarrow> k = 0)"
    by (intro exI [of _ 0] exI [of _ "[]"]) simp
  from norm_components_shape [OF this parts] have c: "\<forall>c \<in> set ?cs. CHR ''/'' \<notin> set c \<and> c \<noteq> []" by fastforce
  have split: "split_on (CHR ''/'') ?p = ?cs" unfolding p(1) using p(2) c by (intro split_join) auto
  have dots: "''..'' \<notin> set ?cs" "''.'' \<notin> set ?cs" using safe_name_inside [OF assms] split norm_components_no_dot [of "[]"] by simp_all
  show ?thesis
  proof (rule normpath_of_parts)
    show "?p \<noteq> []" using p c by (cases ?cs; cases "tl ?cs") auto
    show "initial_slashes ?p = 0" using assms by (simp add: initial_slashes_def unsafe_name_def)
    show "norm_components False [] (split_on (CHR ''/'') ?p) = split_on (CHR ''/'') ?p"
      unfolding split using norm_components_id [of ?cs False "[]"] c dots by auto
  qed
qed

section \<open>What an accepted upload promises\<close>

lemma opt_res_iff:
  fixes f :: "'a \<Rightarrow> 'b res"
  shows "opt_res f x = Inr (Some y) \<longleftrightarrow> (\<exists>v. x = Some v \<and> f v = Inr y)" "opt_res f x = Inr None \<longleftrightarrow> x = None"
proof -
  have "map_sum id Some r = Inr (Some y) \<longleftrightarrow> r = Inr y" "map_sum id Some r \<noteq> Inr None" for r :: "'b res" and y by (cases r; simp)+
  then show "opt_res f x = Inr (Some y) \<longleftrightarrow> (\<exists>v. x = Some v \<and> f v = Inr y)" "opt_res f x = Inr None \<longleftrightarrow> x = None"
    by (auto simp: opt_res_def split: option.splits)
qed

lemma opt_res_unit: "opt_res f (Some v) = Inr y \<Longrightarrow> f v = Inr ()"
  by (cases y) (auto simp: opt_res_iff)

lemma validate_entrypoint_Inr:
  assumes "validate_entrypoint v = Inr e"
  shows "normpath e = e \<and> \<not> unsafe_name e \<and> ''..'' \<notin> set (split_on (CHR ''/'') e) \<and> entry_match e \<and> e = normpath v"
proof -
  have e: "e = normpath v" "entry_match e" "\<not> prefix ''/'' e" "''..'' \<notin> set (split_on (CHR ''/'') e)"
    using assms by (auto simp: validate_entrypoint_def Let_def split: if_splits)
  have "\<not> unsafe_name e"
  proof
    assume "unsafe_name e"
    then consider "e = ''..''" | r where "e = ''..'' @ CHR ''/'' # r" using e(3) by (auto simp: unsafe_name_def prefix_def)
    then show False
    proof cases
      case 1
      then show ?thesis using e(4) by simp
    next
      case 2
      have "split_on (CHR ''/'') e = ''..'' # split_on (CHR ''/'') r" unfolding 2 by (rule split_on_append_sep) simp
      then show ?thesis using e(4) by simp
    qed
  qed
  then show ?thesis using e normpath_idem [of v] by simp
qed

lemma validate_body_Inr:
  assumes "validate_body uc d sizes = Inr u"
  shows "\<not> (truthy (ui_provider d) \<and> CHR ''/'' \<in> set (ui_title d)) \<and> length (split_on (CHR ''/'') (ui_title d)) \<le> 2 \<and>
    (\<forall>img. ui_image d = Some img \<longrightarrow> check_image uc (ui_title d) (ui_provider d) img = Inr ()) \<and> check_default_size sizes (ui_default_size d) = Inr ()"
  using assms by (auto simp: validate_body_def dest: opt_res_unit split: option.splits sum.splits if_splits)

lemma parse_title_ok:
  assumes "\<not> (truthy pn \<and> CHR ''/'' \<in> set t)" "length (split_on (CHR ''/'') t) \<le> 2"
  shows "\<not> isl (parse_title_and_provider t pn)"
proof -
  obtain a as where s: "split_on (CHR ''/'') t = a # as" using split_on_not_Nil by (cases "split_on (CHR ''/'') t") auto
  then show ?thesis using assms by (cases as) (auto simp: parse_title_and_provider_def)
qed


definition ex_checks :: upload_checks where
  "ex_checks = \<lparr>uc_loads = (\<lambda>_. Some (JList [])), uc_str = (\<lambda>_. []), uc_require = (\<lambda>_. Some []), uc_version = (\<lambda>_. True), uc_schema = (\<lambda>_. None),
     uc_registry = (\<lambda>p. if p = ''acme'' then Some (Some ''icr.io/acme/'') else None), uc_max_schema = 100\<rparr>"

definition ex_upload :: upload_input where
  "ex_upload = \<lparr>ui_title = ''solve'', ui_provider = Some ''acme'', ui_entrypoint = Some ''./src//main.py'', ui_artifact = None, ui_image = Some ''icr.io/acme/solve:1'',
     ui_env_vars = None, ui_dependencies = None, ui_runner = None, ui_description = None, ui_version = None, ui_type = None, ui_arguments_schema = None,
     ui_sizes = Some (JObj [(''m'', JStr ''16x128'')]), ui_default_size = Some '' M''\<rparr>"


text \<open>A name that only begins like the registry is refused.\<close>

lemma registry_boundary: "\<not> image_in_registry ''docker.io.attacker.com/evil'' ''docker.io''" "image_in_registry ''docker.io/a'' ''docker.io/''"
  by code_simp+

text \<open>
  A function that declares no sizes reads back with an empty catalogue; sent again, this is refused, although a catalogue that is not sent
  is left alone.
\<close>

lemma empty_catalogue_is_refused:
  "qf_sizes f = Some [] \<Longrightarrow> fst (sizes_payload f) = Some kvs \<Longrightarrow> isl (parse_function_sizes (JObj (map (\<lambda>(k, v). (k, JStr v)) kvs)))"
  by (simp add: sizes_payload_def parse_function_sizes_def)

end
