(* ===== verification/Job_Timeline.thy ===== *)
theory Job_Timeline
  imports Job_Events Python_Text "HOL-Library.Multiset" "HOL-Library.AList"
begin

text \<open>
  The data behind the Job Timeline page of the admin site (\<^verbatim>\<open>api/domain/job_timeline.py\<close>): the segments of a job, the overlaps between
  running jobs, the number of jobs that run at the same time, and the bounds of the chart. The drawing itself (SVG and HTML text) is not
  modelled.
\<close>

section \<open>The timeline of a job\<close>

record timeline =
  tl_job :: job
  tl_points :: "(int \<times> Status) list"
  tl_segments :: "(int \<times> int \<times> Status) list"
  tl_durations :: "(Status \<times> int) list"
  t_queue :: int
  t_run :: "int option"
  t_end :: int

definition status_events_of :: "job_event list \<Rightarrow> job \<Rightarrow> (int \<times> Status) list" where
  "status_events_of es j =
     List.map_filter (\<lambda>e. if je_job e = job_id j \<and> je_type e = STATUS_CHANGE then map_option (Pair (je_created e)) (data_status (je_data e)) else None) es"

fun first_points :: "Status set \<Rightarrow> (int \<times> Status) list \<Rightarrow> (int \<times> Status) list" where
  "first_points seen [] = []"
| "first_points seen ((ts, st) # es) = (if st \<in> seen then first_points seen es else (ts, st) # first_points (insert st seen) es)"

definition status_points :: "job \<Rightarrow> (int \<times> Status) list \<Rightarrow> (int \<times> Status) list" where
  "status_points j evs =
     (let es = sort_key fst evs in
      if QUEUED \<in> snd ` set es then first_points {} es else (created j, QUEUED) # first_points {QUEUED} es)"

definition close_at_now :: "int \<Rightarrow> job \<Rightarrow> (int \<times> Status) list \<Rightarrow> (int \<times> Status) list" where
  "close_at_now now j ps =
     (if ps \<noteq> [] \<and> status j \<notin> set TERMINAL_STATUSES \<and> now > fst (last ps) then ps @ [(now, status j)] else ps)"

fun segments_of :: "(int \<times> Status) list \<Rightarrow> (int \<times> int \<times> Status) list" where
  "segments_of ((t, st) # (u, su) # ps) = (t, u, st) # segments_of ((u, su) # ps)"
| "segments_of _ = []"

definition add_duration :: "int \<times> int \<times> Status \<Rightarrow> (Status \<times> int) list \<Rightarrow> (Status \<times> int) list" where
  "add_duration = (\<lambda>(t, u, st) ds. AList.update st ((case map_of ds st of None \<Rightarrow> 0 | Some d \<Rightarrow> d) + (u - t)) ds)"

definition durations_of :: "(int \<times> int \<times> Status) list \<Rightarrow> (Status \<times> int) list" where
  "durations_of segs = fold add_duration segs []"

definition reached_at :: "Status \<Rightarrow> (int \<times> Status) list \<Rightarrow> int option" where
  "reached_at st ps = map_option fst (find (\<lambda>p. snd p = st) ps)"

definition compute_timeline :: "int \<Rightarrow> job_event list \<Rightarrow> job \<Rightarrow> timeline" where
  "compute_timeline now es j =
     (let ps = close_at_now now j (status_points j (status_events_of es j)); segs = segments_of ps in
      \<lparr>tl_job = j, tl_points = ps, tl_segments = segs, tl_durations = durations_of segs,
       t_queue = (case reached_at QUEUED ps of Some t \<Rightarrow> t | None \<Rightarrow> created j), t_run = reached_at RUNNING ps,
       t_end = (if ps = [] then updated j else fst (last ps))\<rparr>)"

definition sort_jobs :: "timeline list \<Rightarrow> timeline list" where
  "sort_jobs js = sort_key (\<lambda>j. created (tl_job j)) js"

section \<open>Overlaps\<close>

text \<open>A running window that goes forward.\<close>

definition forward :: "timeline \<Rightarrow> bool" where
  "forward j \<longleftrightarrow> (case t_run j of None \<Rightarrow> False | Some t \<Rightarrow> t < t_end j)"

definition overlapping :: "timeline \<Rightarrow> timeline \<Rightarrow> bool" where
  "overlapping a b \<longleftrightarrow> runner (tl_job a) = runner (tl_job b) \<and> the (t_run a) < t_end b \<and> the (t_run b) < t_end a"

definition timeline_id :: "timeline \<Rightarrow> string" where
  "timeline_id j = job_id (tl_job j)"

fun add_overlap :: "string \<Rightarrow> string \<Rightarrow> (string \<times> string list) list \<Rightarrow> (string \<times> string list) list" where
  "add_overlap i x [] = []"
| "add_overlap i x ((k, ys) # os) = (if k = i then (k, List.insert x ys) # os else (k, ys) # add_overlap i x os)"

fun overlap_with :: "timeline \<Rightarrow> timeline list \<Rightarrow> (string \<times> string list) list \<Rightarrow> (string \<times> string list) list" where
  "overlap_with a [] os = os"
| "overlap_with a (b # bs) os =
     overlap_with a bs
       (if overlapping a b then add_overlap (timeline_id b) (timeline_id a) (add_overlap (timeline_id a) (timeline_id b) os) else os)"

fun overlap_pairs :: "timeline list \<Rightarrow> (string \<times> string list) list \<Rightarrow> (string \<times> string list) list" where
  "overlap_pairs [] os = os"
| "overlap_pairs (a # as) os = overlap_pairs as (overlap_with a as os)"

definition find_overlaps :: "timeline list \<Rightarrow> (string \<times> string list) list" where
  "find_overlaps jobs = (let running = filter forward jobs in overlap_pairs running (map (\<lambda>j. (timeline_id j, [])) running))"

section \<open>Concurrency\<close>

definition run_points :: "timeline list \<Rightarrow> (int \<times> int) list" where
  "run_points jobs = concat (map (\<lambda>j. if forward j then [(the (t_run j), 1), (t_end j, - 1)] else []) jobs)"

fun running_sums :: "int \<Rightarrow> (int \<times> int) list \<Rightarrow> (int \<times> int) list" where
  "running_sums n [] = []"
| "running_sums n ((ts, d) # ps) = (ts, n + d) # running_sums (n + d) ps"

definition concurrency_series :: "timeline list \<Rightarrow> (int \<times> int) list" where
  "concurrency_series jobs = running_sums 0 (sort_key fst (run_points jobs))"

definition tagged :: "(int \<times> int) list list \<Rightarrow> (int \<times> nat \<times> int) list" where
  "tagged ss = concat (map (\<lambda>(i, s). map (\<lambda>(ts, c). (ts, i, c)) s) (enumerate 0 ss))"

fun merge_loop :: "int list \<Rightarrow> (int \<times> nat \<times> int) list \<Rightarrow> (int \<times> int) list" where
  "merge_loop current [] = []"
| "merge_loop current ((ts, i, c) # es) = (let cur = current[i := c] in (ts, Max (set cur)) # merge_loop cur es)"

definition merge_series_max :: "(int \<times> int) list list \<Rightarrow> (int \<times> int) list" where
  "merge_series_max ss = (if ss = [] then [] else merge_loop (replicate (length ss) 0) (sort_key fst (tagged ss)))"

definition runners_present :: "timeline list \<Rightarrow> Runner list" where
  "runners_present jobs = filter (\<lambda>r. r \<in> (\<lambda>j. runner (tl_job j)) ` set jobs) [FLEETS, RAY]"

definition runner_scoped_series :: "timeline list \<Rightarrow> timeline list \<Rightarrow> (int \<times> int) list" where
  "runner_scoped_series jobs_sorted js =
     merge_series_max (map (\<lambda>r. concurrency_series (filter (\<lambda>j. runner (tl_job j) = r) js)) (runners_present jobs_sorted))"

definition peak_overlap :: "timeline list \<Rightarrow> int" where
  "peak_overlap jobs =
     (let s = runner_scoped_series (sort_jobs jobs) (sort_jobs jobs) in if s = [] then 0 else Max (snd ` set s))"

section \<open>Texts\<close>

definition fmt_dur :: "int option \<Rightarrow> string" where
  "fmt_dur d =
     (case d of
        None \<Rightarrow> ''-''
      | Some n \<Rightarrow>
          (let m = n div 60; s = n mod 60; h = m div 60; m' = m mod 60 in
           if h \<noteq> 0 then int_text h @ ''h '' @ int_text m' @ ''m''
           else if m' \<noteq> 0 then int_text m' @ ''m '' @ int_text s @ ''s''
           else int_text s @ ''s''))"

section \<open>Segments fill the life of a job\<close>

lemma first_points_sorted: "sorted (map fst es) \<Longrightarrow> sorted (map fst (first_points seen es)) \<and> set (first_points seen es) \<subseteq> set es"
  by (induction seen es rule: first_points.induct) auto

lemma close_at_now_sorted: "sorted (map fst ps) \<Longrightarrow> sorted (map fst (close_at_now now j ps))"
  by (cases ps rule: rev_cases) (auto simp: close_at_now_def sorted_append intro: order.trans less_imp_le)

lemma close_at_now_Nil [simp]: "close_at_now now j ps = [] \<longleftrightarrow> ps = []"
  by (simp add: close_at_now_def)

lemma segments_telescope:
  "ps \<noteq> [] \<Longrightarrow> sum_list (map (\<lambda>(t, u, st). u - t) (segments_of ps)) = fst (last ps) - fst (hd ps)"
  by (induction ps rule: segments_of.induct) auto

lemma segments_forward: "sorted (map fst ps) \<Longrightarrow> \<forall>(t, u, st) \<in> set (segments_of ps). t \<le> u"
  by (induction ps rule: segments_of.induct) auto

lemma add_duration_total:
  assumes "distinct (map fst ds)"
  shows "sum_list (map snd (add_duration (t, u, st) ds)) = sum_list (map snd ds) + (u - t) \<and> distinct (map fst (add_duration (t, u, st) ds))"
proof -
  have "sum_list (map snd (AList.update st (v + w) ds)) = sum_list (map snd ds) + w"
    if "(case map_of ds st of None \<Rightarrow> 0 | Some d \<Rightarrow> d) = v" for v w
    using assms that
  proof (induction ds)
    case (Cons d ds)
    then show ?case by (cases d) (auto simp: map_of_eq_None_iff split: option.splits if_splits)
  qed auto
  then show ?thesis using assms by (simp add: add_duration_def distinct_update)
qed

lemma durations_total:
  "sum_list (map snd (durations_of segs)) = sum_list (map (\<lambda>(t, u, st). u - t) segs)"
proof -
  have "distinct (map fst ds) \<Longrightarrow> sum_list (map snd (fold add_duration segs ds)) = sum_list (map snd ds) + sum_list (map (\<lambda>(t, u, st). u - t) segs)" for ds
  proof (induction segs arbitrary: ds)
    case (Cons x segs)
    obtain t u st where x: "x = (t, u, st)" by (metis prod_cases3)
    show ?case using Cons add_duration_total [OF Cons.prems, of t u st] by (simp add: x)
  qed simp
  from this [of "[]"] show ?thesis by (simp add: durations_of_def)
qed

text \<open>
  The segments of a job whose events come after its creation fill its life without a gap: no segment goes backwards, and the times spent in
  the statuses add up to the time from the first point to the last.
\<close>

theorem timeline_adds_up:
  assumes "\<forall>(ts, st) \<in> set (status_events_of es j). created j \<le> ts"
    and w_def: "w = compute_timeline now es j"
  shows "tl_points w \<noteq> [] \<and> sorted (map fst (tl_points w)) \<and> (\<forall>(t, u, st) \<in> set (tl_segments w). t \<le> u) \<and>
    sum_list (map snd (tl_durations w)) = t_end w - fst (hd (tl_points w))"
proof -
  let ?es = "sort_key fst (status_events_of es j)"
  have es: "sorted (map fst ?es)" "\<forall>e \<in> set ?es. created j \<le> fst e" using assms(1) by auto
  have first: "first_points {} ?es \<noteq> []" if "QUEUED \<in> snd ` set ?es" using that by (cases ?es) auto
  have "status_points j (status_events_of es j) \<noteq> [] \<and> sorted (map fst (status_points j (status_events_of es j)))"
    using es first first_points_sorted [OF es(1)] by (auto simp: status_points_def Let_def)
  then have ps: "tl_points w \<noteq> []" "sorted (map fst (tl_points w))"
    by (simp_all add: w_def compute_timeline_def Let_def close_at_now_sorted)
  have "tl_segments w = segments_of (tl_points w)" "tl_durations w = durations_of (tl_segments w)" "t_end w = fst (last (tl_points w))"
    using ps(1) by (auto simp: w_def compute_timeline_def Let_def)
  then show ?thesis using ps segments_telescope [OF ps(1)] segments_forward [OF ps(2)] durations_total by metis
qed

section \<open>Overlaps are exact\<close>

definition overlaps_in :: "(string \<times> string list) list \<Rightarrow> string \<Rightarrow> string \<Rightarrow> bool" where
  "overlaps_in os i x \<longleftrightarrow> (\<exists>ys. map_of os i = Some ys \<and> x \<in> set ys)"

lemma add_overlap_keys [simp]: "map fst (add_overlap i x os) = map fst os"
  by (induction i x os rule: add_overlap.induct) auto

lemma add_overlap_dom [simp]: "fst ` set (add_overlap i x os) = fst ` set os"
  by (metis add_overlap_keys list.set_map)

lemma overlaps_in_add:
  "overlaps_in (add_overlap k y os) i x \<longleftrightarrow> overlaps_in os i x \<or> (i = k \<and> x = y \<and> k \<in> fst ` set os)"
  by (induction k y os rule: add_overlap.induct) (auto simp: overlaps_in_def)

lemma overlap_with_keys [simp]: "map fst (overlap_with a bs os) = map fst os"
  by (induction a bs os rule: overlap_with.induct) auto

lemma overlap_with_dom [simp]: "fst ` set (overlap_with a bs os) = fst ` set os"
  by (metis overlap_with_keys list.set_map)

lemma overlaps_in_with:
  assumes "timeline_id a \<in> fst ` set os" "timeline_id ` set bs \<subseteq> fst ` set os"
  shows "overlaps_in (overlap_with a bs os) i x \<longleftrightarrow> overlaps_in os i x \<or>
    (\<exists>b \<in> set bs. overlapping a b \<and> ((i = timeline_id a \<and> x = timeline_id b) \<or> (i = timeline_id b \<and> x = timeline_id a)))"
  using assms
proof (induction a bs os rule: overlap_with.induct)
  case (2 a b bs os)
  let ?os = "if overlapping a b then add_overlap (timeline_id b) (timeline_id a) (add_overlap (timeline_id a) (timeline_id b) os) else os"
  have k: "timeline_id a \<in> fst ` set ?os" "timeline_id ` set bs \<subseteq> fst ` set ?os" using 2(2,3) by simp_all
  have "overlaps_in ?os i x \<longleftrightarrow> overlaps_in os i x \<or>
      (overlapping a b \<and> ((i = timeline_id a \<and> x = timeline_id b) \<or> (i = timeline_id b \<and> x = timeline_id a)))"
    using 2(2,3) by (auto simp: overlaps_in_add)
  with 2(1) [OF k] show ?case by (simp only: overlap_with.simps list.set bex_simps) blast
qed simp

lemma overlaps_in_pairs:
  assumes "timeline_id ` set js \<subseteq> fst ` set os" "distinct (map timeline_id js)"
  shows "overlaps_in (overlap_pairs js os) i x \<longleftrightarrow> overlaps_in os i x \<or>
    (\<exists>a \<in> set js. \<exists>b \<in> set js. a \<noteq> b \<and> overlapping a b \<and> i = timeline_id a \<and> x = timeline_id b)"
  using assms
proof (induction js os rule: overlap_pairs.induct)
  case (2 a as os)
  have sym: "overlapping p q \<longleftrightarrow> overlapping q p" for p q by (auto simp: overlapping_def)
  let ?Q = "\<lambda>p q. overlapping p q \<and> i = timeline_id p \<and> x = timeline_id q"
  have a: "a \<notin> set as" using 2(3) by auto
  have split: "(\<exists>p \<in> set (a # as). \<exists>q \<in> set (a # as). p \<noteq> q \<and> ?Q p q) \<longleftrightarrow>
      (\<exists>q \<in> set as. ?Q a q) \<or> (\<exists>p \<in> set as. ?Q p a) \<or> (\<exists>p \<in> set as. \<exists>q \<in> set as. p \<noteq> q \<and> ?Q p q)"
    using a by auto
  have "overlaps_in (overlap_with a as os) i x \<longleftrightarrow> overlaps_in os i x \<or> (\<exists>q \<in> set as. ?Q a q) \<or> (\<exists>p \<in> set as. ?Q p a)"
    using overlaps_in_with [of a os as i x] 2(2) sym [of a] by auto
  moreover have "overlaps_in (overlap_pairs as (overlap_with a as os)) i x \<longleftrightarrow>
      overlaps_in (overlap_with a as os) i x \<or> (\<exists>p \<in> set as. \<exists>q \<in> set as. p \<noteq> q \<and> ?Q p q)"
    using 2 by simp
  ultimately show ?case unfolding overlap_pairs.simps split by blast
qed simp

lemma overlapping_iff:
  assumes "forward a" "forward b"
  shows "overlapping a b \<longleftrightarrow> runner (tl_job a) = runner (tl_job b) \<and> (\<exists>t. the (t_run a) \<le> t \<and> t < t_end a \<and> the (t_run b) \<le> t \<and> t < t_end b)"
proof -
  have "(\<exists>t. the (t_run a) \<le> t \<and> t < t_end a \<and> the (t_run b) \<le> t \<and> t < t_end b) \<longleftrightarrow> the (t_run a) < t_end b \<and> the (t_run b) < t_end a"
    using assms by (auto simp: forward_def intro!: exI [of _ "max (the (t_run a)) (the (t_run b))"] split: option.splits)
  then show ?thesis by (simp add: overlapping_def)
qed

text \<open>
  The overlap marks of the timeline are exact: job \<open>x\<close> is counted as overlapping job \<open>i\<close> exactly when they are two different jobs on the
  same runner, both with a forward running window, and the windows have a moment in common. In particular the relation is symmetric.
\<close>

theorem overlaps_exact:
  assumes "distinct (map timeline_id jobs)"
  shows "(\<exists>ys. map_of (find_overlaps jobs) i = Some ys \<and> x \<in> set ys) \<longleftrightarrow>
    (\<exists>a \<in> set jobs. \<exists>b \<in> set jobs. a \<noteq> b \<and> forward a \<and> forward b \<and> i = timeline_id a \<and> x = timeline_id b \<and>
       runner (tl_job a) = runner (tl_job b) \<and> (\<exists>t. the (t_run a) \<le> t \<and> t < t_end a \<and> the (t_run b) \<le> t \<and> t < t_end b))"
proof -
  let ?r = "filter forward jobs" and ?os = "map (\<lambda>j. (timeline_id j, [])) (filter forward jobs)"
  have "\<not> overlaps_in ?os i x" by (auto simp: overlaps_in_def map_of_eq_None_iff dest!: map_of_SomeD)
  moreover have "distinct (map timeline_id ?r)" "timeline_id ` set ?r \<subseteq> fst ` set ?os"
    using assms by (auto simp: distinct_map_filter image_image)
  ultimately have "overlaps_in (find_overlaps jobs) i x \<longleftrightarrow>
      (\<exists>a \<in> set ?r. \<exists>b \<in> set ?r. a \<noteq> b \<and> overlapping a b \<and> i = timeline_id a \<and> x = timeline_id b)"
    using overlaps_in_pairs [of ?r ?os i x] by (simp add: find_overlaps_def Let_def)
  also have "\<dots> \<longleftrightarrow> (\<exists>a \<in> set jobs. \<exists>b \<in> set jobs. a \<noteq> b \<and> forward a \<and> forward b \<and> i = timeline_id a \<and> x = timeline_id b \<and> overlapping a b)"
    by auto
  also have "\<dots> \<longleftrightarrow> (\<exists>a \<in> set jobs. \<exists>b \<in> set jobs. a \<noteq> b \<and> forward a \<and> forward b \<and> i = timeline_id a \<and> x = timeline_id b \<and>
       runner (tl_job a) = runner (tl_job b) \<and> (\<exists>t. the (t_run a) \<le> t \<and> t < t_end a \<and> the (t_run b) \<le> t \<and> t < t_end b))"
    by (intro bex_cong [OF refl] conj_cong [OF refl]) (rule overlapping_iff)
  finally show ?thesis unfolding overlaps_in_def .
qed

section \<open>The chart counts exactly\<close>

text \<open>The value of a step series at a moment: that of its last point not later than it, and \<open>n\<close> before the first.\<close>

definition value_from :: "int \<Rightarrow> (int \<times> int) list \<Rightarrow> int \<Rightarrow> int" where
  "value_from n s t = (case filter (\<lambda>p. fst p \<le> t) s of [] \<Rightarrow> n | ps \<Rightarrow> snd (last ps))"

lemma value_from_Cons: "value_from n ((ts, c) # s) t = (if ts \<le> t then value_from c s t else value_from n s t)"
  by (auto simp: value_from_def split: list.splits)

lemma value_from_later: "\<forall>p \<in> set s. t < fst p \<Longrightarrow> value_from n s t = n"
  by (induction s) (auto simp: value_from_Cons value_from_def)

lemma none_earlier: "\<forall>p \<in> set s. t < fst p \<Longrightarrow> filter (\<lambda>p. fst p \<le> t) s = []" for t :: int
  by (induction s) auto

lemma running_sums_times: "map fst (running_sums n ps) = map fst ps"
  by (induction n ps rule: running_sums.induct) auto

lemma value_running_sums:
  "sorted (map fst ps) \<Longrightarrow> value_from n (running_sums n ps) t = n + sum_list (map snd (filter (\<lambda>p. fst p \<le> t) ps))"
proof (induction n ps rule: running_sums.induct)
  case (2 n ts d ps)
  show ?case
  proof (cases "ts \<le> t")
    case True
    then show ?thesis using 2 by (simp add: value_from_Cons)
  next
    case False
    then have later: "\<forall>p \<in> set ps. t < fst p" using 2(2) by fastforce
    moreover have "\<forall>p \<in> set (running_sums (n + d) ps). t < fst p"
      using later running_sums_times [of "n + d" ps] by (metis (no_types, lifting) image_iff list.set_map)
    ultimately show ?thesis using False none_earlier [OF later] by (simp add: value_from_Cons value_from_later)
  qed
qed (simp add: value_from_def)

lemma sum_filter_sort: "sum_list (map snd (filter P (sort_key f xs))) = sum_list (map snd (filter P xs))" for xs :: "('a \<times> int) list"
proof -
  have "mset (map snd (filter P (sort_key f xs))) = mset (map snd (filter P xs))" by simp
  then show ?thesis by (metis sum_mset_sum_list)
qed

definition running_at :: "int \<Rightarrow> timeline \<Rightarrow> bool" where
  "running_at t j \<longleftrightarrow> forward j \<and> the (t_run j) \<le> t \<and> t < t_end j"

lemma concurrency_at: "value_from 0 (concurrency_series jobs) t = int (length (filter (running_at t) jobs))"
proof -
  have "sum_list (map snd (filter (\<lambda>p. fst p \<le> t) (run_points jobs))) = int (length (filter (running_at t) jobs))"
  proof (induction jobs)
    case (Cons j jobs)
    have "run_points (j # jobs) = (if forward j then [(the (t_run j), 1), (t_end j, - 1)] else []) @ run_points jobs" by (simp add: run_points_def)
    then show ?case using Cons by (auto simp: running_at_def forward_def split: option.splits)
  qed (simp add: run_points_def)
  then show ?thesis by (simp add: concurrency_series_def value_running_sums sum_filter_sort)
qed

subsection \<open>Merging\<close>

definition set_counts :: "(int \<times> nat \<times> int) list \<Rightarrow> int list \<Rightarrow> int list" where
  "set_counts es cur = fold (\<lambda>(ts, i, c) cur. cur[i := c]) es cur"

lemma merge_loop_value:
  "sorted (map fst es) \<Longrightarrow>
     value_from (Max (set cur)) (merge_loop cur es) t = Max (set (set_counts (filter (\<lambda>e. fst e \<le> t) es) cur))"
proof (induction cur es rule: merge_loop.induct)
  case (2 cur ts i c es)
  have times: "map fst (merge_loop cur' es) = map fst es" for cur'
    by (induction cur' es rule: merge_loop.induct) (auto simp: Let_def)
  show ?case
  proof (cases "ts \<le> t")
    case True
    then show ?thesis using 2 by (simp add: value_from_Cons Let_def set_counts_def)
  next
    case False
    then have later: "\<forall>e \<in> set es. t < fst e" using 2(2) by fastforce
    moreover have "\<forall>p \<in> set (merge_loop (cur[i := c]) es). t < fst p"
      using later times [of "cur[i := c]"] by (metis (no_types, lifting) image_iff list.set_map)
    ultimately show ?thesis using False none_earlier [OF later] by (simp add: value_from_Cons value_from_later Let_def set_counts_def)
  qed
qed (simp add: value_from_def set_counts_def)

lemma set_counts_length [simp]: "length (set_counts es cur) = length cur"
  by (induction es arbitrary: cur) (auto simp: set_counts_def split: prod.splits)

lemma set_counts_nth:
  "i < length cur \<Longrightarrow> set_counts es cur ! i = (case filter (\<lambda>e. fst (snd e) = i) es of [] \<Rightarrow> cur ! i | xs \<Rightarrow> snd (snd (last xs)))"
proof (induction es arbitrary: cur)
  case (Cons e es)
  obtain ts k c where e: "e = (ts, k, c)" by (metis prod_cases3)
  have "set_counts (e # es) cur = set_counts es (cur[k := c])" by (simp add: set_counts_def e)
  then show ?case using Cons.IH [of "cur[k := c]"] Cons.prems by (auto simp: e split: list.splits)
qed (simp add: set_counts_def)

lemma tagged_filter:
  assumes "i < length ss"
  shows "filter (\<lambda>e. fst (snd e) = i) (tagged ss) = map (\<lambda>(ts, c). (ts, i, c)) (ss ! i)"
proof -
  have "filter (\<lambda>e. fst (snd e) = i) (concat (map (\<lambda>(k, s). map (\<lambda>(ts, c). (ts, k, c)) s) (enumerate m ss))) =
      (if m \<le> i \<and> i < m + length ss then map (\<lambda>(ts, c). (ts, i, c)) (ss ! (i - m)) else [])" for m
  proof (induction ss arbitrary: m)
    case (Cons s ss)
    have "filter (\<lambda>e. fst (snd e) = i) (map (\<lambda>(ts, c). (ts, m, c)) s) = (if i = m then map (\<lambda>(ts, c). (ts, i, c)) s else [])"
      by (auto simp: filter_map comp_def split_beta)
    moreover consider "i < m" | "i = m" | k where "i = m + Suc k" by (metis less_iff_Suc_add linorder_cases add_Suc_right)
    ultimately show ?case using Cons [of "Suc m"] by cases simp_all
  qed auto
  from this [of 0] assms show ?thesis by (simp add: tagged_def)
qed

lemma merge_at:
  assumes "ss \<noteq> []" "\<forall>s \<in> set ss. sorted (map fst s)"
  shows "value_from 0 (merge_series_max ss) t = Max ((\<lambda>s. value_from 0 s t) ` set ss)"
proof -
  let ?es = "filter (\<lambda>e. fst e \<le> t) (sort_key fst (tagged ss))" and ?z = "replicate (length ss) (0 :: int)"
  have "set_counts ?es ?z ! i = value_from 0 (ss ! i) t" if i: "i < length ss" for i
  proof -
    have "sorted (map fst (map (\<lambda>(ts, c). (ts, i, c)) (ss ! i)))" using assms(2) i by (simp add: split_beta comp_def)
    then have "filter (\<lambda>e. fst (snd e) = i) (sort_key fst (tagged ss)) = map (\<lambda>(ts, c). (ts, i, c)) (ss ! i)"
      unfolding filter_sort tagged_filter [OF i] by (rule sort_key_id_if_sorted)
    then have "filter (\<lambda>e. fst e \<le> t) (filter (\<lambda>e. fst (snd e) = i) (sort_key fst (tagged ss))) =
        map (\<lambda>(ts, c). (ts, i, c)) (filter (\<lambda>p. fst p \<le> t) (ss ! i))"
      by (simp only: filter_map comp_def split_beta fst_conv)
    then have "filter (\<lambda>e. fst (snd e) = i) ?es = map (\<lambda>(ts, c). (ts, i, c)) (filter (\<lambda>p. fst p \<le> t) (ss ! i))"
      by (simp only: filter_filter conj_commute)
    then show ?thesis using i by (auto simp: set_counts_nth value_from_def last_map split_beta split: list.splits)
  qed
  then have "set_counts ?es ?z = map (\<lambda>s. value_from 0 s t) ss" by (intro nth_equalityI) auto
  moreover have "Max (set ?z) = 0" using assms(1) by simp
  ultimately show ?thesis using merge_loop_value [of "sort_key fst (tagged ss)" ?z t] assms(1) by (simp add: merge_series_max_def)
qed

lemma concurrency_sorted: "sorted (map fst (concurrency_series jobs))"
  by (simp add: concurrency_series_def running_sums_times)

text \<open>
  The concurrency chart is exact at every moment. Its height at \<open>t\<close> is the largest number of jobs, over the runners in the selection,
  that run on one runner at \<open>t\<close>: jobs on different runners are never added up, and a job counts from the moment it starts to run up to, and
  not including, the moment it ends.
\<close>

theorem chart_counts_exact:
  assumes "jobs \<noteq> []"
  shows "value_from 0 (runner_scoped_series jobs js) t =
    Max ((\<lambda>r. int (length (filter (\<lambda>j. runner (tl_job j) = r \<and> forward j \<and> the (t_run j) \<le> t \<and> t < t_end j) js))) ` (\<lambda>j. runner (tl_job j)) ` set jobs)"
proof -
  have rs: "set (runners_present jobs) = (\<lambda>j. runner (tl_job j)) ` set jobs"
  proof -
    have "set [FLEETS, RAY] = UNIV" using Runner.exhaust by auto
    then show ?thesis unfolding runners_present_def set_filter by simp
  qed
  have ne: "runners_present jobs \<noteq> []" using assms rs by fastforce
  let ?ss = "map (\<lambda>r. concurrency_series (filter (\<lambda>j. runner (tl_job j) = r) js)) (runners_present jobs)"
  have "value_from 0 (runner_scoped_series jobs js) t = Max ((\<lambda>s. value_from 0 s t) ` set ?ss)"
    unfolding runner_scoped_series_def by (rule merge_at) (use ne in \<open>auto simp: concurrency_sorted\<close>)
  also have "(\<lambda>s. value_from 0 s t) ` set ?ss =
      (\<lambda>r. int (length (filter (\<lambda>j. runner (tl_job j) = r \<and> forward j \<and> the (t_run j) \<le> t \<and> t < t_end j) js))) ` (\<lambda>j. runner (tl_job j)) ` set jobs"
    by (simp add: rs [symmetric] image_image concurrency_at running_at_def conj_commute conj_left_commute cong: conj_cong)
  finally show ?thesis .
qed

definition ex_timeline_user :: user where
  "ex_timeline_user = \<lparr>user_id = 1, username = ''u'', is_active = True, user_groups = []\<rparr>"

definition ex_timeline :: "string \<Rightarrow> int \<Rightarrow> int \<Rightarrow> int \<Rightarrow> timeline" where
  "ex_timeline i made t u = \<lparr>tl_job = Job_new i ex_timeline_user made, tl_points = [], tl_segments = [], tl_durations = [], t_queue = made, t_run = Some t, t_end = u\<rparr>"

theorem chart_counts_exact_witness:
  "value_from 0 (runner_scoped_series [ex_timeline ''a'' 0 1 5, ex_timeline ''b'' 0 4 9] [ex_timeline ''a'' 0 1 5, ex_timeline ''b'' 0 4 9]) 4 = 2"
  using chart_counts_exact [of "[ex_timeline ''a'' 0 1 5, ex_timeline ''b'' 0 4 9]" "[ex_timeline ''a'' 0 1 5, ex_timeline ''b'' 0 4 9]" 4]
  by (simp add: ex_timeline_def forward_def Job_new_def)

theorem overlaps_exact_witness:
  "\<exists>ys. map_of (find_overlaps [ex_timeline ''a'' 0 1 5, ex_timeline ''b'' 0 4 9]) ''a'' = Some ys \<and> ''b'' \<in> set ys"
proof -
  have "distinct (map timeline_id [ex_timeline ''a'' 0 1 5, ex_timeline ''b'' 0 4 9])" by code_simp
  from overlaps_exact [OF this, of "''a''" "''b''"] show ?thesis
    by (auto simp: ex_timeline_def forward_def Job_new_def timeline_id_def intro!: exI [of _ 4])
qed

text \<open>
  The peak in the heading is the largest value of a point, and two points of one moment are in the order of their jobs: a job that starts
  when another ends may be counted before that one is taken off. The chart then says two where no two jobs overlap.
\<close>

lemma peak_of_back_to_back_jobs:
  "peak_overlap [ex_timeline ''b'' 0 5 9, ex_timeline ''a'' 1 2 5] = 2 \<and> peak_overlap [ex_timeline ''b'' 1 5 9, ex_timeline ''a'' 0 2 5] = 1 \<and>
   find_overlaps [ex_timeline ''b'' 0 5 9, ex_timeline ''a'' 1 2 5] = [(''b'', []), (''a'', [])]"
  by code_simp

end
