(* ===== verification/Authentication.thy ===== *)
theory Authentication
  imports Complex_Main Authorization Crn Python_Text "HOL-Library.AList" "HOL-Library.List_Lexorder" "HOL-Library.Char_ord"
begin

text \<open>
  Who a request comes from (\<^verbatim>\<open>api/authentication.py\<close>, \<^verbatim>\<open>api/use_cases/authentication.py\<close>, \<^verbatim>\<open>api/services/authentication\<close>,
  \<^verbatim>\<open>api/clients/function_access_client.py\<close>). What IAM, the Resource Controller, Access Groups and the Runtime API answer, the clock, the hash and
  the random number of the jitter are parameters. The shared cache is one table per kind of entry, since the keys of two kinds begin differently.
  The log holds what the services answered, in the order of the calls; it is what the theorems refer to.
\<close>

section \<open>State and environment\<close>

datatype auth_exn = AuthenticationFailed string | ServiceUnavailable | Unhandled exn

datatype Channel = IBM_CLOUD | IBM_QUANTUM_PLATFORM | LOCAL

definition Channel_of :: "string \<Rightarrow> Channel option" where
  "Channel_of s =
     (if s = ''ibm_cloud'' then Some IBM_CLOUD else if s = ''ibm_quantum_platform'' then Some IBM_QUANTUM_PLATFORM
      else if s = ''local'' then Some LOCAL else None)"

text \<open>How a call fails: no answer (a connection error, a timeout), an answer with an error status, or anything else.\<close>

datatype call_failure = Unreachable | Api_exception "int option" | Other_failure exn

type_synonym 'a call_answer = "call_failure + 'a"

definition is_transient_api_exception :: "int option \<Rightarrow> bool" where
  "is_transient_api_exception status_code \<longleftrightarrow> (case status_code of None \<Rightarrow> False | Some n \<Rightarrow> n = 429 \<or> n \<ge> 500)"

fun transient_failure :: "call_failure \<Rightarrow> bool" where
  "transient_failure Unreachable = True"
| "transient_failure (Api_exception c) = is_transient_api_exception c"
| "transient_failure (Other_failure _) = False"

text \<open>The claims of a decoded token that are read: \<open>iam_id\<close>, and of \<open>account\<close> its \<open>bss\<close>.\<close>

record claims =
  cl_iam_id :: "string option"
  cl_account :: "string option option"

record resource_instance =
  ri_plan_id :: "string option"
  ri_extensions :: "(string \<times> string) list option"

record access_group =
  ag_id :: string
  ag_name :: string

text \<open>An answer of the entitlements endpoint; a key that may be missing is an option, a body that is not JSON is \<open>None\<close>.\<close>

record raw_entry =
  re_provider :: "string option"
  re_name :: "string option"
  re_permissions :: "string list option"
  re_business_model :: "string option"

record entitlement =
  en_crn :: string
  en_error :: "(string \<times> string) list option"
  en_functions :: "raw_entry list option"
  en_custom :: "string list option option"

record access_response =
  ar_status :: int
  ar_body :: "entitlement list option option"

record base_url =
  url_scheme :: string
  url_netloc :: string
  url_path :: string

record auth_settings =
  IAM_BASE_URL :: "string option"
  IAM_CACHE_TTL :: int
  PLANS_ALLOWED :: "string list"
  RUNTIME_BASE_URL :: base_url
  RUNTIME_DEFAULT_REGION :: string
  RUNTIME_CACHE_TTL :: int
  MOCK_TOKEN :: "string option"
  MOCKPROVIDER_REGISTRY :: "string option"
  sha256_hex :: "string \<Rightarrow> string"

text \<open>The surroundings of one request: moments are in seconds.\<close>

record auth_world =
  aw_now :: int
  aw_random :: rat
  aw_token :: "string \<Rightarrow> string call_answer"
  aw_signing_key :: "string \<Rightarrow> string call_answer"
  aw_decode :: "string \<Rightarrow> string \<Rightarrow> claims call_answer"
  aw_instance :: "string \<Rightarrow> string option \<Rightarrow> resource_instance call_answer"
  aw_groups :: "string \<Rightarrow> string \<Rightarrow> access_group list call_answer"
  aw_entitlements :: "base_url \<Rightarrow> string \<Rightarrow> string \<Rightarrow> access_response option"
  aw_instances_enabled :: "bool res"

datatype call_log =
    Token_of string claims
  | Instance_of string "string option" "string option \<times> string option"
  | Groups_of string string "string list"
  | Access_of string string function_access_result
  | Refused call_failure

record group_row =
  gr_id :: nat
  gr_name :: string
  gr_permissions :: "string list"
  gr_metadata :: "string option option"

record auth_state =
  ac_jwt :: "(string \<times> claims \<times> int) list"
  ac_access :: "((string option \<times> string) \<times> (string option \<times> string option) \<times> int) list"
  ac_groups :: "((string \<times> string) \<times> string list \<times> int) list"
  ac_functions :: "((string \<times> string) \<times> function_access_result \<times> int) list"
  as_log :: "(int \<times> call_log) list"
  as_users :: "user list"
  as_groups :: "group_row list"
  as_providers :: "(provider \<times> string option) list"

section \<open>The cache\<close>

definition jittered_cache_ttl :: "rat \<Rightarrow> int \<Rightarrow> int" where
  "jittered_cache_ttl r ttl = (if ttl \<le> 0 then ttl else max 1 \<lfloor>of_int ttl * (1 - r / 5)\<rfloor>)"

definition cache_read :: "int \<Rightarrow> 'k \<Rightarrow> ('k \<times> 'v \<times> int) list \<Rightarrow> 'v option" where
  "cache_read now k c = (case map_of c k of None \<Rightarrow> None | Some (v, expiry) \<Rightarrow> if now < expiry then Some v else None)"

definition cache_store :: "int \<Rightarrow> int \<Rightarrow> 'k \<Rightarrow> 'v \<Rightarrow> ('k \<times> 'v \<times> int) list \<Rightarrow> ('k \<times> 'v \<times> int) list" where
  "cache_store now ttl k v c = AList.update k (v, now + ttl) c"

definition note_call :: "auth_world \<Rightarrow> call_log \<Rightarrow> auth_state \<Rightarrow> auth_state" where
  "note_call w e s = s\<lparr>as_log := as_log s @ [(aw_now w, e)]\<rparr>"

section \<open>IBMQuantumPlatform\<close>

definition REVIEW_KEY :: string where
  "REVIEW_KEY = ''You couldn't be authenticated, please review your API Key.''"

definition REVIEW_CRN :: string where
  "REVIEW_CRN = ''There was a problem in the authentication process with IBM Quantum Platform, please review your CRN.''"

text \<open>The token, the key it was signed with, and the verified claims.\<close>

definition verified_claims :: "auth_world \<Rightarrow> string \<Rightarrow> claims call_answer" where
  "verified_claims w key =
     (case aw_token w key of
        Inl f \<Rightarrow> Inl f
      | Inr tok \<Rightarrow> (case aw_signing_key w tok of Inl f \<Rightarrow> Inl f | Inr sk \<Rightarrow> aw_decode w tok sk))"

definition request_or_cache_jwt_data :: "auth_settings \<Rightarrow> auth_world \<Rightarrow> string \<Rightarrow> auth_state \<Rightarrow> (auth_exn + claims) \<times> auth_state" where
  "request_or_cache_jwt_data st w key s =
     (case cache_read (aw_now w) (sha256_hex st key) (ac_jwt s) of
        Some c \<Rightarrow> (Inr c, s)
      | None \<Rightarrow>
          (case verified_claims w key of
             Inl f \<Rightarrow> (Inl (if transient_failure f then ServiceUnavailable else AuthenticationFailed REVIEW_KEY), note_call w (Refused f) s)
           | Inr c \<Rightarrow>
               (Inr c, note_call w (Token_of key c)
                  (s\<lparr>ac_jwt := cache_store (aw_now w) (jittered_cache_ttl (aw_random w) (IAM_CACHE_TTL st)) (sha256_hex st key) c (ac_jwt s)\<rparr>))))"

definition instance_attributes :: "resource_instance \<Rightarrow> string option \<times> string option" where
  "instance_attributes i = (ri_plan_id i, map_of (case ri_extensions i of None \<Rightarrow> [] | Some e \<Rightarrow> e) ''subscription_id'')"

definition request_or_cache_instance_attributes ::
  "auth_settings \<Rightarrow> auth_world \<Rightarrow> string \<Rightarrow> string option \<Rightarrow> auth_state \<Rightarrow> (auth_exn + string option \<times> string option) \<times> auth_state" where
  "request_or_cache_instance_attributes st w key crn s =
     (case cache_read (aw_now w) (crn, sha256_hex st key) (ac_access s) of
        Some a \<Rightarrow> (Inr a, s)
      | None \<Rightarrow>
          (case aw_instance w key crn of
             Inl (Other_failure e) \<Rightarrow> (Inl (Unhandled e), note_call w (Refused (Other_failure e)) s)
           | Inl f \<Rightarrow> (Inl (if transient_failure f then ServiceUnavailable else AuthenticationFailed REVIEW_CRN), note_call w (Refused f) s)
           | Inr i \<Rightarrow>
               let a = instance_attributes i in
               (Inr a, note_call w (Instance_of key crn a)
                  (s\<lparr>ac_access := cache_store (aw_now w) (jittered_cache_ttl (aw_random w) (IAM_CACHE_TTL st)) (crn, sha256_hex st key) a (ac_access s)\<rparr>))))"

definition group_ids :: "access_group list \<Rightarrow> string list" where
  "group_ids gs = map ag_id (filter (\<lambda>g. ag_name g \<noteq> ''Public Access'') gs)"

definition request_or_cache_group_ids ::
  "auth_settings \<Rightarrow> auth_world \<Rightarrow> string \<Rightarrow> string \<Rightarrow> auth_state \<Rightarrow> (auth_exn + string list) \<times> auth_state" where
  "request_or_cache_group_ids st w key account s =
     (case cache_read (aw_now w) (account, sha256_hex st key) (ac_groups s) of
        Some ids \<Rightarrow> (Inr ids, s)
      | None \<Rightarrow>
          (case aw_groups w key account of
             Inl (Other_failure e) \<Rightarrow> (Inl (Unhandled e), note_call w (Refused (Other_failure e)) s)
           | Inl f \<Rightarrow> (if transient_failure f then Inl ServiceUnavailable else Inr [], note_call w (Refused f) s)
           | Inr gs \<Rightarrow>
               (Inr (group_ids gs), note_call w (Groups_of key account (group_ids gs))
                  (s\<lparr>ac_groups := cache_store (aw_now w) (jittered_cache_ttl (aw_random w) (IAM_CACHE_TTL st)) (account, sha256_hex st key) (group_ids gs) (ac_groups s)\<rparr>))))"

text \<open>The attributes of the service object.\<close>

record ibm_platform =
  ip_account_id :: "string option"
  ip_iam_id :: "string option"
  ip_plan_id :: "string option"
  ip_subscription_id :: "string option"

record authentication_group =
  au_group_name :: string
  au_account :: "string option"

definition platform_authenticate ::
  "auth_settings \<Rightarrow> auth_world \<Rightarrow> string \<Rightarrow> ibm_platform \<times> auth_state \<Rightarrow> (auth_exn + string) \<times> ibm_platform \<times> auth_state" where
  "platform_authenticate st w key = (\<lambda>(p, s).
     if IAM_BASE_URL st = None then (Inl (AuthenticationFailed ''You couldn't be authenticated.''), p, s)
     else case request_or_cache_jwt_data st w key s of
       (Inl e, s') \<Rightarrow> (Inl e, p, s')
     | (Inr c, s') \<Rightarrow>
         (case cl_iam_id c of
            None \<Rightarrow> (Inl (AuthenticationFailed ''IBM Cloud returned a token with no IAM ID for this API key. Please contact IBM support.''), p\<lparr>ip_iam_id := None\<rparr>, s')
          | Some iam \<Rightarrow>
              (case cl_account c of
                 None \<Rightarrow> (Inl (AuthenticationFailed ''IBM Cloud returned a token with no account for this API key. Please contact IBM support.''), p\<lparr>ip_iam_id := Some iam\<rparr>, s')
               | Some bss \<Rightarrow>
                   (if bss = None then Inl (AuthenticationFailed ''IBM Cloud returned a token with no account ID for this API key. Please contact IBM support.'') else Inr iam,
                    p\<lparr>ip_iam_id := Some iam, ip_account_id := bss\<rparr>, s'))))"

definition platform_verify_access ::
  "auth_settings \<Rightarrow> auth_world \<Rightarrow> string \<Rightarrow> string option \<Rightarrow> ibm_platform \<times> auth_state \<Rightarrow> (auth_exn + bool) \<times> ibm_platform \<times> auth_state" where
  "platform_verify_access st w key crn = (\<lambda>(p, s).
     case request_or_cache_instance_attributes st w key crn s of
       (Inl e, s') \<Rightarrow> (Inl e, p, s')
     | (Inr (plan, sub), s') \<Rightarrow>
         (case plan of
            None \<Rightarrow> Inl (AuthenticationFailed ''IBM Cloud returned no resource plan for this instance. Please contact IBM support.'')
          | Some pl \<Rightarrow> Inr (pl \<in> set (PLANS_ALLOWED st)),
          p\<lparr>ip_plan_id := plan, ip_subscription_id := sub\<rparr>, s'))"

definition platform_get_groups ::
  "auth_settings \<Rightarrow> auth_world \<Rightarrow> string \<Rightarrow> ibm_platform \<times> auth_state \<Rightarrow> (auth_exn + authentication_group list) \<times> ibm_platform \<times> auth_state" where
  "platform_get_groups st w key = (\<lambda>(p, s).
     case ip_account_id p of
       None \<Rightarrow> (Inl (AuthenticationFailed ''You couldn't be authenticated.''), p, s)
     | Some account \<Rightarrow>
         (case request_or_cache_group_ids st w key account s of
            (Inl e, s') \<Rightarrow> (Inl e, p, s')
          | (Inr ids, s') \<Rightarrow> (Inr (map (\<lambda>i. \<lparr>au_group_name = i, au_account = Some account\<rparr>) ids), p, s')))"

section \<open>The service interface\<close>

text \<open>\<open>AuthenticationBase\<close>: the object and what its methods do to it and to the shared state.\<close>

record 'o auth_service =
  sv_object :: 'o
  sv_authenticate :: "'o \<times> auth_state \<Rightarrow> (auth_exn + string) \<times> 'o \<times> auth_state"
  sv_verify_access :: "'o \<times> auth_state \<Rightarrow> (auth_exn + bool) \<times> 'o \<times> auth_state"
  sv_get_groups :: "'o \<times> auth_state \<Rightarrow> (auth_exn + authentication_group list) \<times> 'o \<times> auth_state"
  sv_get_account_id :: "'o \<Rightarrow> string option"
  sv_get_plan_id :: "'o \<Rightarrow> string option"
  sv_get_subscription_id :: "'o \<Rightarrow> string option"

definition IBMQuantumPlatform :: "auth_settings \<Rightarrow> auth_world \<Rightarrow> string \<Rightarrow> string option \<Rightarrow> ibm_platform auth_service" where
  "IBMQuantumPlatform st w key crn =
     \<lparr>sv_object = \<lparr>ip_account_id = None, ip_iam_id = None, ip_plan_id = None, ip_subscription_id = None\<rparr>,
      sv_authenticate = platform_authenticate st w key, sv_verify_access = platform_verify_access st w key crn,
      sv_get_groups = platform_get_groups st w key, sv_get_account_id = ip_account_id, sv_get_plan_id = ip_plan_id,
      sv_get_subscription_id = ip_subscription_id\<rparr>"

definition local_authenticate :: "auth_settings \<Rightarrow> string \<Rightarrow> unit \<times> auth_state \<Rightarrow> (auth_exn + string) \<times> unit \<times> auth_state" where
  "local_authenticate st tok = (\<lambda>(p, s).
     (case MOCK_TOKEN st of
        None \<Rightarrow> Inl (AuthenticationFailed ''Mock token environment variable is not configured.'')
      | Some m \<Rightarrow> if tok \<noteq> m then Inl (AuthenticationFailed ''Authorization token is not valid.'') else Inr ''mockuser'', p, s))"

definition LocalAuthenticationService :: "auth_settings \<Rightarrow> string \<Rightarrow> unit auth_service" where
  "LocalAuthenticationService st tok =
     \<lparr>sv_object = (), sv_authenticate = local_authenticate st tok, sv_verify_access = (\<lambda>(p, s). (Inr True, p, s)),
      sv_get_groups = (\<lambda>(p, s). (Inr [\<lparr>au_group_name = ''mockgroup'', au_account = None\<rparr>], p, s)),
      sv_get_account_id = (\<lambda>_. None), sv_get_plan_id = (\<lambda>_. None), sv_get_subscription_id = (\<lambda>_. None)\<rparr>"

section \<open>Users and their groups\<close>

definition next_id :: "nat list \<Rightarrow> nat" where
  "next_id ids = Suc (fold max ids 0)"

definition get_or_create_user :: "string \<Rightarrow> auth_state \<Rightarrow> user \<times> auth_state" where
  "get_or_create_user name s =
     (case find (\<lambda>u. username u = name) (as_users s) of
        Some u \<Rightarrow> (u, s)
      | None \<Rightarrow>
          let u = \<lparr>user_id = next_id (map user_id (as_users s)), username = name, is_active = True, user_groups = []\<rparr>
          in (u, s\<lparr>as_users := as_users s @ [u]\<rparr>))"

definition has_account :: "group_row \<Rightarrow> string option \<Rightarrow> bool" where
  "has_account g account \<longleftrightarrow> account = None \<or> gr_metadata g = Some account"

definition accounts_of :: "authentication_group list \<Rightarrow> (string \<times> string option) list" where
  "accounts_of gs = fold (\<lambda>g m. AList.update (au_group_name g) (au_account g) m) gs []"

definition named :: "string \<Rightarrow> group_row list \<Rightarrow> group_row option" where
  "named n gs = find (\<lambda>g. gr_name g = n) gs"

definition add_to_user :: "group_row \<Rightarrow> user \<Rightarrow> user" where
  "add_to_user g u = (if gr_id g \<in> set (user_groups u) then u else u\<lparr>user_groups := user_groups u @ [gr_id g]\<rparr>)"

definition set_account :: "group_row \<Rightarrow> string option \<Rightarrow> group_row list \<Rightarrow> group_row list" where
  "set_account g account gs = (if has_account g account then gs else map (\<lambda>h. if gr_id h = gr_id g then h\<lparr>gr_metadata := Some account\<rparr> else h) gs)"

text \<open>One turn of the loop over the sorted accounts.\<close>

definition join_group :: "string list \<Rightarrow> group_row list \<Rightarrow> string \<times> string option \<Rightarrow> user \<times> group_row list \<Rightarrow> user \<times> group_row list" where
  "join_group permission_names current = (\<lambda>(name, account) (u, gs).
     case named name current of
       Some g \<Rightarrow> (u, set_account g account gs)
     | None \<Rightarrow>
         (case named name gs of
            Some g \<Rightarrow> (add_to_user g u, set_account g account gs)
          | None \<Rightarrow>
              let g = \<lparr>gr_id = next_id (map gr_id gs), gr_name = name, gr_permissions = permission_names, gr_metadata = None\<rparr>
              in (add_to_user g u, set_account g account (gs @ [g]))))"

definition sync_user_groups :: "user \<Rightarrow> authentication_group list \<Rightarrow> string list \<Rightarrow> auth_state \<Rightarrow> user \<times> auth_state" where
  "sync_user_groups u groups permission_names s =
     (let accounts = accounts_of groups; current = filter (\<lambda>g. gr_id g \<in> set (user_groups u)) (as_groups s) in
      if set (map gr_name current) = set (map fst accounts) \<and>
         list_all (\<lambda>(name, account). case named name current of None \<Rightarrow> False | Some g \<Rightarrow> has_account g account) accounts
      then (u, s)
      else
        let gone = map gr_id (filter (\<lambda>g. gr_name g \<notin> set (map fst accounts)) current);
            (u', gs) = fold (join_group permission_names current) (sort_key fst accounts)
                         (u\<lparr>user_groups := filter (\<lambda>i. i \<notin> set gone) (user_groups u)\<rparr>, as_groups s)
        in (u', s\<lparr>as_users := map (\<lambda>v. if user_id v = user_id u then u' else v) (as_users s), as_groups := gs\<rparr>))"

section \<open>AuthenticationUseCase\<close>

record authentication_result =
  res_user :: user
  res_account_id :: "string option"
  res_plan_id :: "string option"
  res_subscription_id :: "string option"

text \<open>\<open>Provider.name\<close> is unique, so a provider of this name with another registry makes the creation raise.\<close>

definition mock_provider :: "auth_settings \<Rightarrow> user \<Rightarrow> auth_state \<Rightarrow> (auth_exn + unit) \<times> auth_state" where
  "mock_provider st u s =
     (if list_ex (\<lambda>(p, r). provider_name p = ''mockprovider'' \<and> r = MOCKPROVIDER_REGISTRY st) (as_providers s) then (Inr (), s)
      else if list_ex (\<lambda>(p, r). provider_name p = ''mockprovider'') (as_providers s) then (Inl (Unhandled (OtherException ''IntegrityError'')), s)
      else (Inr (), s\<lparr>as_providers := as_providers s @
        [(\<lparr>provider_id = next_id (map (provider_id \<circ> fst) (as_providers s)), provider_name = ''mockprovider'', admin_groups = user_groups u,
           provider_project = None\<rparr>, MOCKPROVIDER_REGISTRY st)]\<rparr>))"

definition NOT_ENTITLED :: string where
  "NOT_ENTITLED = ''Your instance's resource plan is not entitled to use Qiskit Functions. Please use an instance provisioned on a supported plan, or contact IBM support if you believe this is an error.''"

definition DEACTIVATED :: string where
  "DEACTIVATED = ''Your user was deactivated. Please contact IBM support for reactivation.''"

text \<open>The user is known by now: it is found or created, must be active, and gets the groups of the service.\<close>

definition admit :: "auth_settings \<Rightarrow> Channel \<Rightarrow> string \<Rightarrow> authentication_group list \<Rightarrow> auth_state \<Rightarrow> (auth_exn + user) \<times> auth_state" where
  "admit st channel name groups s =
     (case get_or_create_user name s of
        (u, s1) \<Rightarrow>
          if \<not> is_active u then (Inl (AuthenticationFailed DEACTIVATED), s1)
          else if channel = LOCAL
          then (case sync_user_groups u groups [VIEW_PROGRAM_PERMISSION, RUN_PROGRAM_PERMISSION] s1 of
                  (u', s2) \<Rightarrow> (case mock_provider st u' s2 of (Inl e, s3) \<Rightarrow> (Inl e, s3) | (Inr _, s3) \<Rightarrow> (Inr u', s3)))
          else (case sync_user_groups u groups [VIEW_PROGRAM_PERMISSION] s1 of (u', s2) \<Rightarrow> (Inr u', s2)))"

definition execute_with ::
  "auth_settings \<Rightarrow> Channel \<Rightarrow> bool \<Rightarrow> 'o auth_service \<Rightarrow> auth_state \<Rightarrow> (auth_exn + authentication_result) \<times> auth_state" where
  "execute_with st channel public svc s =
     (case sv_authenticate svc (sv_object svc, s) of
        (Inl e, _, s1) \<Rightarrow> (Inl e, s1)
      | (Inr name, p1, s1) \<Rightarrow>
          (case (if public then (Inr True, p1, s1) else sv_verify_access svc (p1, s1)) of
             (Inl e, _, s2) \<Rightarrow> (Inl e, s2)
           | (Inr verified, p2, s2) \<Rightarrow>
               if \<not> verified then (Inl (AuthenticationFailed NOT_ENTITLED), s2)
               else (case sv_get_groups svc (p2, s2) of
                  (Inl e, _, s3) \<Rightarrow> (Inl e, s3)
                | (Inr groups, p3, s3) \<Rightarrow>
                    (case admit st channel name groups s3 of
                       (Inl e, s4) \<Rightarrow> (Inl e, s4)
                     | (Inr u, s4) \<Rightarrow>
                         (Inr \<lparr>res_user = u, res_account_id = sv_get_account_id svc p1, res_plan_id = sv_get_plan_id svc p3,
                               res_subscription_id = sv_get_subscription_id svc p3\<rparr>, s4)))))"

definition execute ::
  "auth_settings \<Rightarrow> auth_world \<Rightarrow> Channel \<Rightarrow> string \<Rightarrow> string option \<Rightarrow> bool \<Rightarrow> auth_state \<Rightarrow> (auth_exn + authentication_result) \<times> auth_state" where
  "execute st w channel tok crn public s =
     (if channel \<in> {IBM_CLOUD, IBM_QUANTUM_PLATFORM} then execute_with st channel public (IBMQuantumPlatform st w tok crn) s
      else execute_with st channel public (LocalAuthenticationService st tok) s)"

section \<open>FunctionAccessClient\<close>

definition regional_base_url :: "base_url \<Rightarrow> string option \<Rightarrow> string \<Rightarrow> base_url" where
  "regional_base_url base crn default_region =
     (case Crn_parse crn of
        None \<Rightarrow> base
      | Some c \<Rightarrow> if crn_region c = default_region then base else base\<lparr>url_netloc := crn_region c @ ''.'' @ url_netloc base\<rparr>)"

datatype access_exn = RuntimeFunctionsUnavailable string | RuntimeFunctionsException string | Access_unhandled exn

definition instance_entitlements :: "entitlement list option \<Rightarrow> string \<Rightarrow> access_exn + entitlement" where
  "instance_entitlements els crn =
     (case find (\<lambda>el. en_crn el = crn) (case els of None \<Rightarrow> [] | Some xs \<Rightarrow> xs) of
        None \<Rightarrow> Inl (RuntimeFunctionsException (''No entitlements for CRN '' @ crn))
      | Some el \<Rightarrow> if en_error el = None \<or> en_error el = Some [] then Inr el
                   else Inl (RuntimeFunctionsException (''Runtime API error '' @
                     (case map_of (the (en_error el)) ''code'' of None \<Rightarrow> ''None'' | Some code \<Rightarrow> code) @ '' for CRN '' @ crn)))"

definition read_entry :: "raw_entry \<Rightarrow> function_access_entry list" where
  "read_entry e =
     (case (re_provider e, re_name e, re_business_model e) of
        (Some p, Some t, Some bm) \<Rightarrow>
          (case FunctionAccessEntry p t bm (case re_permissions e of None \<Rightarrow> [] | Some ps \<Rightarrow> ps) of Inl _ \<Rightarrow> [] | Inr x \<Rightarrow> [x])
      | _ \<Rightarrow> [])"

definition legacy_access :: function_access_result where
  "legacy_access = \<lparr>use_legacy_authorization = True, far_functions = [], custom_function_permissions = []\<rparr>"

definition granted :: "entitlement \<Rightarrow> function_access_result" where
  "granted el =
     \<lparr>use_legacy_authorization = False, far_functions = concat (map read_entry (case en_functions el of None \<Rightarrow> [] | Some es \<Rightarrow> es)),
      custom_function_permissions = (case en_custom el of Some (Some ps) \<Rightarrow> ps | _ \<Rightarrow> [])\<rparr>"

definition read_access :: "access_response option \<Rightarrow> string \<Rightarrow> access_exn + function_access_result" where
  "read_access rsp crn =
     (case rsp of
        None \<Rightarrow> Inl (RuntimeFunctionsUnavailable ''Error connecting to Runtime API'')
      | Some r \<Rightarrow>
          if ar_status r = 204 then Inr legacy_access
          else if ar_status r = 429 \<or> ar_status r \<ge> 500 then Inl (RuntimeFunctionsUnavailable (''Runtime API returned '' @ int_text (ar_status r) @ '' for CRN '' @ crn))
          else if ar_status r \<noteq> 200 then Inl (RuntimeFunctionsException (''Unexpected status '' @ int_text (ar_status r) @ '' for CRN '' @ crn))
          else (case ar_body r of
                  None \<Rightarrow> Inl (Access_unhandled (OtherException ''JSONDecodeError''))
                | Some els \<Rightarrow> (case instance_entitlements els crn of Inl e \<Rightarrow> Inl e | Inr el \<Rightarrow> Inr (granted el))))"

definition failure_of :: "access_response option \<Rightarrow> call_failure" where
  "failure_of rsp =
     (case rsp of None \<Rightarrow> Unreachable
      | Some r \<Rightarrow> if ar_status r = 200 then Other_failure (OtherException ''entitlements'') else Api_exception (Some (ar_status r)))"

definition get_accessible_functions ::
  "auth_settings \<Rightarrow> auth_world \<Rightarrow> string option \<Rightarrow> string \<Rightarrow> auth_state \<Rightarrow> (access_exn + function_access_result) \<times> auth_state" where
  "get_accessible_functions st w crn_opt key s =
     (case aw_instances_enabled w of
        Inl e \<Rightarrow> (Inl (Access_unhandled e), s)
      | Inr False \<Rightarrow> (Inr legacy_access, s)
      | Inr True \<Rightarrow>
          (case crn_opt of
             None \<Rightarrow> (Inl (RuntimeFunctionsException ''Missing instance_crn''), s)
           | Some [] \<Rightarrow> (Inl (RuntimeFunctionsException ''Missing instance_crn''), s)
           | Some crn \<Rightarrow>
               (case cache_read (aw_now w) (crn, sha256_hex st key) (ac_functions s) of
                  Some far \<Rightarrow> (Inr far, s)
                | None \<Rightarrow>
                    let rsp = aw_entitlements w (regional_base_url (RUNTIME_BASE_URL st) (Some crn) (RUNTIME_DEFAULT_REGION st)) crn key in
                    (case read_access rsp crn of
                       Inl e \<Rightarrow> (Inl e, note_call w (Refused (failure_of rsp)) s)
                     | Inr far \<Rightarrow>
                         (Inr far, note_call w (Access_of key crn far)
                            (s\<lparr>ac_functions := cache_store (aw_now w) (jittered_cache_ttl (aw_random w) (RUNTIME_CACHE_TTL st)) (crn, sha256_hex st key) far (ac_functions s)\<rparr>))))))"

section \<open>The backends\<close>

record auth_request =
  rq_path :: string
  rq_crn :: "string option"
  rq_channel :: "string option"
  rq_authorization :: "string option"

record custom_authentication =
  ca_channel :: Channel
  ca_token :: string
  ca_accessible :: function_access_result
  ca_instance :: "string option"
  ca_account_id :: "string option"
  ca_plan_id :: "string option"
  ca_subscription_id :: "string option"

definition PUBLIC_ENDPOINTS :: "string list" where
  "PUBLIC_ENDPOINTS = [''swagger'']"

definition is_public_endpoint :: "string \<Rightarrow> bool" where
  "is_public_endpoint path = list_ex (\<lambda>p. sublist p path) PUBLIC_ENDPOINTS"

definition service_crn :: "auth_request \<Rightarrow> string option" where
  "service_crn rq = (let c = strip (case rq_crn rq of None \<Rightarrow> [] | Some c \<Rightarrow> c) in if c = [] then None else Some c)"

definition bearer :: "string \<Rightarrow> string" where
  "bearer h = last (split_on (CHR '' '') h)"

definition WRONG_CHANNEL :: string where
  "WRONG_CHANNEL = ''The value of the channel is not correct. Verify that you are using one of these: ibm_cloud, ibm_quantum_platform''"

definition UNVERIFIED :: string where
  "UNVERIFIED = ''We couldn't verify your access to Qiskit Functions. Check that your instance can use Qiskit Functions and that your API key has access to it, then try again. If the problem persists, contact IBM support.''"

definition custom_token_authenticate ::
  "auth_settings \<Rightarrow> auth_world \<Rightarrow> auth_request \<Rightarrow> auth_state \<Rightarrow> (auth_exn + (user \<times> custom_authentication) option) \<times> auth_state" where
  "custom_token_authenticate st w rq s =
     (let crn = service_crn rq; public = is_public_endpoint (rq_path rq) in
      case Channel_of (case rq_channel rq of None \<Rightarrow> ''ibm_quantum_platform'' | Some c \<Rightarrow> c) of
        None \<Rightarrow> (Inl (AuthenticationFailed WRONG_CHANNEL), s)
      | Some LOCAL \<Rightarrow> (Inl (AuthenticationFailed WRONG_CHANNEL), s)
      | Some channel \<Rightarrow>
          (case rq_authorization rq of
             None \<Rightarrow> (if public then Inr None else Inl (AuthenticationFailed ''Authorization token was not provided.''), s)
           | Some h \<Rightarrow>
               if crn = None \<and> \<not> public \<and> channel \<in> {IBM_CLOUD, IBM_QUANTUM_PLATFORM}
               then (Inl (AuthenticationFailed ''The Service-CRN header is required: send the CRN of your instance.''), s)
               else (case execute st w channel (bearer h) crn public s of
                  (Inl e, s1) \<Rightarrow> (Inl e, s1)
                | (Inr res, s1) \<Rightarrow>
                    (case get_accessible_functions st w crn (bearer h) s1 of
                       (Inl (RuntimeFunctionsUnavailable _), s2) \<Rightarrow> (Inl ServiceUnavailable, s2)
                     | (Inl (RuntimeFunctionsException _), s2) \<Rightarrow> (Inl (AuthenticationFailed UNVERIFIED), s2)
                     | (Inl (Access_unhandled e), s2) \<Rightarrow> (Inl (Unhandled e), s2)
                     | (Inr far, s2) \<Rightarrow>
                         (Inr (Some (res_user res, \<lparr>ca_channel = channel, ca_token = bearer h, ca_accessible = far, ca_instance = crn,
                            ca_account_id = res_account_id res, ca_plan_id = res_plan_id res, ca_subscription_id = res_subscription_id res\<rparr>)), s2)))))"

definition mock_token_authenticate ::
  "auth_settings \<Rightarrow> auth_world \<Rightarrow> auth_request \<Rightarrow> auth_state \<Rightarrow> (auth_exn + (user \<times> custom_authentication) option) \<times> auth_state" where
  "mock_token_authenticate st w rq s =
     (let public = is_public_endpoint (rq_path rq) in
      case rq_authorization rq of
        None \<Rightarrow> (if public then Inr None else Inl (AuthenticationFailed ''Authorization token was not provided.''), s)
      | Some h \<Rightarrow>
          (case execute st w LOCAL (bearer h) None public s of
             (Inl e, s1) \<Rightarrow> (Inl e, s1)
           | (Inr res, s1) \<Rightarrow>
               (Inr (Some (res_user res, \<lparr>ca_channel = LOCAL, ca_token = bearer h, ca_accessible = legacy_access, ca_instance = None,
                  ca_account_id = None, ca_plan_id = None, ca_subscription_id = None\<rparr>)), s1)))"

end
