(* ===== verification/User_Groups.thy ===== *)
theory User_Groups
  imports Authentication
begin

text \<open>
  What the synchronisation of a user's groups does (\<open>_sync_user_groups\<close> of \<^verbatim>\<open>api/use_cases/authentication.py\<close>): the user ends in exactly the groups
  the service named, each tied to its account, nobody else is touched, and doing it again changes nothing.
\<close>

section \<open>Tables\<close>

definition tables_ok :: "auth_state \<Rightarrow> bool" where
  "tables_ok s \<longleftrightarrow> distinct (map user_id (as_users s)) \<and> distinct (map username (as_users s)) \<and> distinct (map gr_id (as_groups s)) \<and>
     distinct (map gr_name (as_groups s)) \<and> (\<forall>u \<in> set (as_users s). set (user_groups u) \<subseteq> gr_id ` set (as_groups s))"

definition group_names :: "auth_state \<Rightarrow> user \<Rightarrow> string set" where
  "group_names s u = gr_name ` {g \<in> set (as_groups s). gr_id g \<in> set (user_groups u)}"

lemma fold_max_ge: "(x :: nat) \<in> set xs \<Longrightarrow> x \<le> fold max xs m"
proof (induction xs arbitrary: m)
  case (Cons y xs)
  have grow: "(a :: nat) \<le> fold max zs a" for zs a by (induction zs arbitrary: a) (auto intro: order_trans [OF max.cobounded2])
  show ?case using Cons grow [of "max y m" xs] by auto
qed simp

lemma next_id_fresh [simp]: "next_id ids \<notin> set ids"
  using fold_max_ge [of "next_id ids" ids 0] by (auto simp: next_id_def)

lemma named_Some: "named n gs = Some g \<Longrightarrow> g \<in> set gs \<and> gr_name g = n"
  by (auto simp: named_def find_Some_iff)

lemma named_None: "named n gs = None \<longleftrightarrow> n \<notin> gr_name ` set gs"
  by (auto simp: named_def find_None_iff)

lemma fst_update: "fst ` set (AList.update k v al) = insert k (fst ` set al)"
  by (induction al) auto

lemma accounts_of_names: "fst ` set (accounts_of gs) = au_group_name ` set gs"
proof -
  have "fst ` set (fold (\<lambda>g m. AList.update (au_group_name g) (au_account g) m) gs al) = fst ` set al \<union> au_group_name ` set gs" for al
    by (induction gs arbitrary: al) (auto simp: fst_update)
  then show ?thesis by (simp add: accounts_of_def)
qed

lemma accounts_of_distinct: "distinct (map fst (accounts_of gs))"
proof -
  have "distinct (map fst al) \<Longrightarrow> distinct (map fst (fold (\<lambda>g m. AList.update (au_group_name g) (au_account g) m) gs al))" for al
    by (induction gs arbitrary: al) (auto simp: distinct_update)
  then show ?thesis by (simp add: accounts_of_def)
qed

section \<open>One turn of the loop\<close>

definition marked :: "group_row \<Rightarrow> string option \<Rightarrow> group_row" where
  "marked g account = (if has_account g account then g else g\<lparr>gr_metadata := Some account\<rparr>)"

lemma marked_simps [simp]: "gr_id (marked g a) = gr_id g" "gr_name (marked g a) = gr_name g" "gr_permissions (marked g a) = gr_permissions g"
  "has_account (marked g a) a"
  by (simp_all add: marked_def has_account_def)

lemma set_account_eq:
  assumes "g \<in> set gs" "distinct (map gr_id gs)"
  shows "set_account g a gs = map (\<lambda>h. if h = g then marked g a else h) gs"
proof -
  have "gr_id h = gr_id g \<longleftrightarrow> h = g" if "h \<in> set gs" for h using assms that by (auto simp: distinct_map inj_on_def)
  then show ?thesis by (auto simp: set_account_def marked_def map_idI cong: map_cong)
qed

lemma set_account_facts:
  assumes "g \<in> set gs" "distinct (map gr_id gs)"
  shows "set (set_account g a gs) = insert (marked g a) (set gs - {g})" "map gr_id (set_account g a gs) = map gr_id gs"
    "map gr_name (set_account g a gs) = map gr_name gs"
proof -
  show "set (set_account g a gs) = insert (marked g a) (set gs - {g})" using assms(1) by (auto simp: set_account_eq [OF assms])
  show "map gr_id (set_account g a gs) = map gr_id gs" "map gr_name (set_account g a gs) = map gr_name gs"
    by (auto simp: set_account_eq [OF assms])
qed

text \<open>What holds after the accounts in \<open>D\<close> were handled, for a loop that began with the groups \<open>gs0\<close> and the user in those named in \<open>keep\<close>.\<close>

definition joined :: "group_row list \<Rightarrow> string set \<Rightarrow> user \<Rightarrow> (string \<times> string option) set \<Rightarrow> user \<times> group_row list \<Rightarrow> bool" where
  "joined gs0 keep u0 D = (\<lambda>(u, gs).
     distinct (map gr_id gs) \<and> distinct (map gr_name gs) \<and> user_id u = user_id u0 \<and> username u = username u0 \<and> is_active u = is_active u0 \<and>
     set (user_groups u) = gr_id ` {g \<in> set gs. gr_name g \<in> keep \<union> fst ` D} \<and>
     (\<forall>g. gr_name g \<notin> fst ` D \<longrightarrow> (g \<in> set gs \<longleftrightarrow> g \<in> set gs0)) \<and>
     (\<forall>g \<in> set gs0. \<exists>g' \<in> set gs. gr_id g' = gr_id g \<and> gr_name g' = gr_name g \<and> gr_permissions g' = gr_permissions g) \<and>
     (\<forall>(n, a) \<in> D. \<exists>g \<in> set gs. gr_name g = n \<and> has_account g a))"

lemma joinedD:
  assumes "joined gs0 keep u0 D (u, gs)"
  shows "\<And>g. g \<in> set gs0 \<Longrightarrow> \<exists>g' \<in> set gs. gr_id g' = gr_id g \<and> gr_name g' = gr_name g \<and> gr_permissions g' = gr_permissions g"
    "\<And>n a. (n, a) \<in> D \<Longrightarrow> \<exists>g \<in> set gs. gr_name g = n \<and> has_account g a"
    "set (user_groups u) = gr_id ` {g \<in> set gs. gr_name g \<in> keep \<union> fst ` D}"
    "distinct (map gr_id gs)" "distinct (map gr_name gs)" "user_id u = user_id u0" "username u = username u0" "is_active u = is_active u0"
  using assms unfolding joined_def by auto

lemma same_name_same_group:
  "distinct (map gr_name gs) \<Longrightarrow> g \<in> set gs \<Longrightarrow> h \<in> set gs \<Longrightarrow> gr_name g = gr_name h \<Longrightarrow> g = h"
  by (auto simp: distinct_map inj_on_def)

lemma same_id_same_group:
  "distinct (map gr_id gs) \<Longrightarrow> g \<in> set gs \<Longrightarrow> h \<in> set gs \<Longrightarrow> gr_id g = gr_id h \<Longrightarrow> g = h"
  by (auto simp: distinct_map inj_on_def)

text \<open>A group with the next name is in the table already, or was appended just now.\<close>

lemma joined_mark:
  assumes j: "joined gs0 keep u0 D (u, gs)" and n: "n \<notin> fst ` D" and g: "g \<in> set gs'" "gr_name g = n"
    and gs': "gs' = gs \<or> gs' = gs @ [g] \<and> n \<notin> gr_name ` set gs \<and> gr_id g \<notin> gr_id ` set gs"
    and u: "user_id u' = user_id u" "username u' = username u" "is_active u' = is_active u" "set (user_groups u') = insert (gr_id g) (set (user_groups u))"
  shows "joined gs0 keep u0 (insert (n, a) D) (u', set_account g a gs')"
proof -
  have d: "distinct (map gr_id gs')" "distinct (map gr_name gs')" using j gs' g by (auto simp: joined_def)
  note f = set_account_facts [OF g(1) d(1), of a]
  have m: "h \<in> set (set_account g a gs') \<longleftrightarrow> h = marked g a \<or> h \<in> set gs \<and> h \<noteq> g" for h using f(1) gs' g by auto
  have only: "h = g" if "h \<in> set gs" "gr_name h = n" for h
    using gs' that same_name_same_group [OF d(2), of h g] g by auto
  have ug: "set (user_groups u) = gr_id ` {h \<in> set gs. gr_name h \<in> keep \<union> fst ` D}" using j by (simp add: joined_def)
  have "set (user_groups u') = gr_id ` {h \<in> set (set_account g a gs'). gr_name h \<in> keep \<union> fst ` insert (n, a) D}"
  proof -
    have "{h \<in> set (set_account g a gs'). gr_name h \<in> keep \<union> fst ` insert (n, a) D} =
        insert (marked g a) {h \<in> set gs. h \<noteq> g \<and> gr_name h \<in> keep \<union> fst ` D}"
      using m only g(2) by auto
    moreover have "insert (gr_id g) (gr_id ` {h \<in> set gs. gr_name h \<in> keep \<union> fst ` D}) =
        insert (gr_id g) (gr_id ` {h \<in> set gs. h \<noteq> g \<and> gr_name h \<in> keep \<union> fst ` D})" by blast
    ultimately show ?thesis using u(4) ug by simp
  qed
  moreover have "h \<in> set (set_account g a gs') \<longleftrightarrow> h \<in> set gs0" if "gr_name h \<notin> fst ` insert (n, a) D" for h
  proof -
    have "h \<in> set gs \<longleftrightarrow> h \<in> set gs0" using j that by (simp add: joined_def)
    moreover have "h \<noteq> g" "h \<noteq> marked g a" using that g(2) by auto
    ultimately show ?thesis using m by blast
  qed
  moreover have "\<exists>g' \<in> set (set_account g a gs'). gr_id g' = gr_id h \<and> gr_name g' = gr_name h \<and> gr_permissions g' = gr_permissions h"
    if h0: "h \<in> set gs0" for h
  proof -
    obtain x where x: "x \<in> set gs" "gr_id x = gr_id h" "gr_name x = gr_name h" "gr_permissions x = gr_permissions h"
      using joinedD(1) [OF j h0] by blast
    show ?thesis
    proof (cases "x = g")
      case True
      then show ?thesis using x m by (intro bexI [of _ "marked g a"]) auto
    next
      case False
      then show ?thesis using x m by (intro bexI [of _ x]) auto
    qed
  qed
  moreover have "\<exists>h \<in> set (set_account g a gs'). gr_name h = k \<and> has_account h b" if kb: "(k, b) \<in> insert (n, a) D" for k b
  proof (cases "(k, b) = (n, a)")
    case True
    then show ?thesis using m g(2) by (intro bexI [of _ "marked g a"]) auto
  next
    case False
    then have D: "(k, b) \<in> D" using kb by blast
    then obtain h where "h \<in> set gs" "gr_name h = k" "has_account h b" using joinedD(2) [OF j] by blast
    moreover have "k \<noteq> n" using n D by force
    ultimately show ?thesis using m g(2) by (intro bexI [of _ h]) auto
  qed
  ultimately show ?thesis using d f(2,3) u j by (auto simp: joined_def)
qed

lemma joined_step:
  assumes j: "joined gs0 keep u0 D ug" and n: "n \<notin> fst ` D" and cur: "\<And>g. named n current = Some g \<Longrightarrow> g \<in> set gs0 \<and> n \<in> keep"
  shows "joined gs0 keep u0 (insert (n, a) D) (join_group perms current (n, a) ug)"
proof -
  obtain u gs where ug: "ug = (u, gs)" by force
  have add: "user_id (add_to_user g u) = user_id u" "username (add_to_user g u) = username u" "is_active (add_to_user g u) = is_active u"
    "set (user_groups (add_to_user g u)) = insert (gr_id g) (set (user_groups u))" for g by (auto simp: add_to_user_def)
  show ?thesis
  proof (cases "named n current")
    case (Some g)
    then have g: "g \<in> set gs" "gr_name g = n" "n \<in> keep" using cur [OF Some] named_Some [OF Some] n j by (auto simp: joined_def ug)
    then have "gr_id g \<in> set (user_groups u)" using j by (auto simp: joined_def ug)
    then show ?thesis using joined_mark [OF j [unfolded ug] n g(1,2), of u a] Some by (auto simp: join_group_def ug insert_absorb)
  next
    case None
    show ?thesis
    proof (cases "named n gs")
      case (Some g)
      then show ?thesis using joined_mark [OF j [unfolded ug] n _ _ _ add, of g gs a] named_Some [OF Some] None by (auto simp: join_group_def ug)
    next
      case None2: None
      let ?g = "\<lparr>gr_id = next_id (map gr_id gs), gr_name = n, gr_permissions = perms, gr_metadata = None\<rparr>"
      have "gr_id ?g \<notin> gr_id ` set gs" using next_id_fresh [of "map gr_id gs"] by simp
      moreover have "n \<notin> gr_name ` set gs" using None2 by (simp add: named_None)
      ultimately have "joined gs0 keep u0 (insert (n, a) D) (add_to_user ?g u, set_account ?g a (gs @ [?g]))"
        using joined_mark [OF j [unfolded ug] n _ _ _ add, of ?g "gs @ [?g]" a] by simp
      then show ?thesis using None None2 by (simp add: join_group_def ug Let_def)
    qed
  qed
qed

lemma joined_fold:
  assumes "joined gs0 keep u0 D ug" "distinct (map fst as)" "fst ` set as \<inter> fst ` D = {}"
    "\<And>n g. n \<in> fst ` set as \<Longrightarrow> named n current = Some g \<Longrightarrow> g \<in> set gs0 \<and> n \<in> keep"
  shows "joined gs0 keep u0 (set as \<union> D) (fold (join_group perms current) as ug)"
  using assms
proof (induction "as" arbitrary: D ug)
  case (Cons x "as")
  obtain n a where x: "x = (n, a)" by force
  have "joined gs0 keep u0 (insert (n, a) D) (join_group perms current (n, a) ug)"
    by (rule joined_step [OF Cons.prems(1)]) (use Cons.prems(3,4) x in auto)
  from Cons.IH [OF this] Cons.prems(2-4) x show ?case by auto
qed simp

section \<open>The whole synchronisation\<close>

lemma tables_okD:
  assumes "tables_ok s"
  shows "distinct (map user_id (as_users s))" "distinct (map username (as_users s))" "distinct (map gr_id (as_groups s))" "distinct (map gr_name (as_groups s))"
    "\<And>u. u \<in> set (as_users s) \<Longrightarrow> set (user_groups u) \<subseteq> gr_id ` set (as_groups s)"
  using assms by (auto simp: tables_ok_def)

text \<open>The loop starts with the user in the groups that stay.\<close>

lemma joined_start:
  assumes ok: "tables_ok s" and u: "u \<in> set (as_users s)" and cur: "current = filter (\<lambda>g. gr_id g \<in> set (user_groups u)) (as_groups s)"
  shows "joined (as_groups s) (gr_name ` set current \<inter> names) u {}
    (u\<lparr>user_groups := filter (\<lambda>i. i \<notin> gr_id ` {g \<in> set current. gr_name g \<notin> names}) (user_groups u)\<rparr>, as_groups s)"
proof -
  have "set (filter (\<lambda>i. i \<notin> gr_id ` {g \<in> set current. gr_name g \<notin> names}) (user_groups u)) =
      gr_id ` {g \<in> set (as_groups s). gr_name g \<in> gr_name ` set current \<inter> names}" (is "?L = ?R")
  proof (intro set_eqI iffI)
    fix i assume i: "i \<in> ?L"
    then obtain g where g: "g \<in> set (as_groups s)" "i = gr_id g" using tables_okD(5) [OF ok u] by auto
    then have "g \<in> set current" using i cur by simp
    then have "gr_name g \<in> names" using i g by auto
    then show "i \<in> ?R" using g \<open>g \<in> set current\<close> by auto
  next
    fix i assume "i \<in> ?R"
    then obtain g h where g: "g \<in> set (as_groups s)" "i = gr_id g" "h \<in> set current" "gr_name g = gr_name h" "gr_name g \<in> names" by auto
    then have c: "g \<in> set current" using same_name_same_group [OF tables_okD(4) [OF ok], of g h] cur by auto
    have "g = x" if "x \<in> set current" "gr_id g = gr_id x" for x
      using same_id_same_group [OF tables_okD(3) [OF ok], of g x] that g cur by auto
    then show "i \<in> ?L" using g c cur by auto
  qed
  then show ?thesis using tables_okD(3,4) [OF ok] by (auto simp: joined_def)
qed

lemma distinct_map_update:
  assumes "distinct (map f xs)" "distinct (map k xs)" "u \<in> set xs" "f u' = f u" "k u' = k u"
  shows "map f (map (\<lambda>v. if k v = k u then u' else v) xs) = map f xs"
proof -
  have "v = u" if "v \<in> set xs" "k v = k u" for v using assms that by (auto simp: distinct_map inj_on_def)
  then show ?thesis using assms(4) by auto
qed

text \<open>What either branch leaves: the loop's result, or the state as it was.\<close>

lemma sync_cases:
  assumes ok: "tables_ok s" and u: "u \<in> set (as_users s)" and r: "sync_user_groups u groups perms s = (u', s')"
  shows "\<exists>keep \<subseteq> fst ` set (accounts_of groups). joined (as_groups s) keep u (set (accounts_of groups)) (u', as_groups s') \<and>
    as_users s' = map (\<lambda>v. if user_id v = user_id u then u' else v) (as_users s) \<and>
    s' = s\<lparr>as_users := as_users s', as_groups := as_groups s'\<rparr>"
proof -
  define current where cur: "current = filter (\<lambda>g. gr_id g \<in> set (user_groups u)) (as_groups s)"
  let ?A = "accounts_of groups"
  let ?names = "fst ` set ?A"
  have me: "v = u" if "v \<in> set (as_users s)" "user_id v = user_id u" for v
    using tables_okD(1) [OF ok] u that by (auto simp: distinct_map inj_on_def)
  show ?thesis
  proof (cases "gr_name ` set current = ?names \<and>
      list_all (\<lambda>(name, account). case named name current of None \<Rightarrow> False | Some g \<Rightarrow> has_account g account) ?A")
    case True
    then have same: "u' = u" "s' = s" using r by (auto simp: sync_user_groups_def Let_def cur)
    have users: "map (\<lambda>v. if user_id v = user_id u then u else v) (as_users s) = as_users s" by (rule map_idI) (use me in auto)
    have "set (user_groups u) = gr_id ` {g \<in> set (as_groups s). gr_name g \<in> ?names}"
    proof (intro set_eqI iffI)
      fix i assume "i \<in> set (user_groups u)"
      then show "i \<in> gr_id ` {g \<in> set (as_groups s). gr_name g \<in> ?names}" using tables_okD(5) [OF ok u] True cur by fastforce
    next
      fix i assume "i \<in> gr_id ` {g \<in> set (as_groups s). gr_name g \<in> ?names}"
      then obtain g where g: "g \<in> set (as_groups s)" "i = gr_id g" "gr_name g \<in> gr_name ` set current" using True by auto
      then obtain h where "h \<in> set current" "gr_name h = gr_name g" by auto
      then show "i \<in> set (user_groups u)" using same_name_same_group [OF tables_okD(4) [OF ok], of h g] g cur by auto
    qed
    moreover have "\<exists>g \<in> set (as_groups s). gr_name g = n \<and> has_account g a" if "(n, a) \<in> set ?A" for n a
    proof -
      have "case named n current of None \<Rightarrow> False | Some g \<Rightarrow> has_account g a" using True that by (auto simp: list_all_iff)
      then obtain g where "named n current = Some g" "has_account g a" by (auto split: option.splits)
      then show ?thesis using named_Some [of n current g] cur by auto
    qed
    ultimately have "joined (as_groups s) {} u (set ?A) (u, as_groups s)"
      using tables_okD(3,4) [OF ok] by (auto simp: joined_def)
    then show ?thesis unfolding same users by (intro exI [of _ "{}"]) simp
  next
    case False
    let ?u0 = "u\<lparr>user_groups := filter (\<lambda>i. i \<notin> gr_id ` {g \<in> set current. gr_name g \<notin> ?names}) (user_groups u)\<rparr>"
    have c: "(set (map gr_name current) = set (map fst ?A) \<and>
        list_all (\<lambda>(name, account). case named name current of None \<Rightarrow> False | Some g \<Rightarrow> has_account g account) ?A) = False" using False by simp
    have "sync_user_groups u groups perms s = (case fold (join_group perms current) (sort_key fst ?A) (?u0, as_groups s) of
        (u', gs) \<Rightarrow> (u', s\<lparr>as_users := map (\<lambda>v. if user_id v = user_id u then u' else v) (as_users s), as_groups := gs\<rparr>))"
      unfolding sync_user_groups_def Let_def cur [symmetric] c if_False by simp
    then have res: "(u', as_groups s') = fold (join_group perms current) (sort_key fst ?A) (?u0, as_groups s)"
      "as_users s' = map (\<lambda>v. if user_id v = user_id u then u' else v) (as_users s)" "s' = s\<lparr>as_users := as_users s', as_groups := as_groups s'\<rparr>"
      using r by (auto split: prod.splits)
    have "joined (as_groups s) (gr_name ` set current \<inter> ?names) u (set (sort_key fst ?A) \<union> {})
        (fold (join_group perms current) (sort_key fst ?A) (?u0, as_groups s))"
    proof (rule joined_fold)
      show "joined (as_groups s) (gr_name ` set current \<inter> ?names) u {} (?u0, as_groups s)" by (rule joined_start [OF ok u cur])
      show "distinct (map fst (sort_key fst ?A))" using accounts_of_distinct [of groups] by (simp add: distinct_map)
      show "g \<in> set (as_groups s) \<and> n \<in> gr_name ` set current \<inter> ?names" if "n \<in> fst ` set (sort_key fst ?A)" "named n current = Some g" for n g
        using named_Some [OF that(2)] that(1) cur by auto
    qed simp
    then show ?thesis using res by (intro exI [of _ "gr_name ` set current \<inter> ?names"]) auto
  qed
qed

lemma joined_group_names:
  assumes "joined gs0 keep u0 (set A) (u, gs)" "keep \<subseteq> fst ` set A"
  shows "set (user_groups u) = gr_id ` {g \<in> set gs. gr_name g \<in> fst ` set A}" "gr_name ` {g \<in> set gs. gr_id g \<in> set (user_groups u)} = fst ` set A"
proof -
  have k: "keep \<union> fst ` set A = fst ` set A" using assms(2) by blast
  show ug: "set (user_groups u) = gr_id ` {g \<in> set gs. gr_name g \<in> fst ` set A}" using joinedD(3) [OF assms(1)] by (simp add: k)
  have "g \<in> set gs \<and> gr_id g \<in> set (user_groups u) \<longleftrightarrow> g \<in> set gs \<and> gr_name g \<in> fst ` set A" for g
    using ug same_id_same_group [OF joinedD(4) [OF assms(1)]] by auto
  then have "gr_name ` {g \<in> set gs. gr_id g \<in> set (user_groups u)} = gr_name ` {g \<in> set gs. gr_name g \<in> fst ` set A}" by simp
  also have "\<dots> = fst ` set A" using joinedD(2) [OF assms(1)] by force
  finally show "gr_name ` {g \<in> set gs. gr_id g \<in> set (user_groups u)} = fst ` set A" .
qed

lemma sync_facts:
  assumes ok: "tables_ok s" and u: "u \<in> set (as_users s)" and r: "sync_user_groups u groups perms s = (u', s')"
  shows "user_id u' = user_id u" "username u' = username u" "is_active u' = is_active u" "u' \<in> set (as_users s')" "tables_ok s'"
    "group_names s' u' = au_group_name ` set groups"
    "\<And>n a. (n, a) \<in> set (accounts_of groups) \<Longrightarrow> \<exists>g \<in> set (as_groups s'). gr_name g = n \<and> has_account g a"
    "\<And>v. v \<in> set (as_users s) \<Longrightarrow> user_id v \<noteq> user_id u \<Longrightarrow> v \<in> set (as_users s')"
    "\<And>g. g \<in> set (as_groups s) \<Longrightarrow> \<exists>g' \<in> set (as_groups s'). gr_id g' = gr_id g \<and> gr_name g' = gr_name g \<and> gr_permissions g' = gr_permissions g"
    "s' = s\<lparr>as_users := as_users s', as_groups := as_groups s'\<rparr>"
proof -
  obtain keep where k: "keep \<subseteq> fst ` set (accounts_of groups)" "joined (as_groups s) keep u (set (accounts_of groups)) (u', as_groups s')"
      "as_users s' = map (\<lambda>v. if user_id v = user_id u then u' else v) (as_users s)" "s' = s\<lparr>as_users := as_users s', as_groups := as_groups s'\<rparr>"
    using sync_cases [OF assms] by blast
  note d = joinedD [OF k(2)]
  show id: "user_id u' = user_id u" "username u' = username u" "is_active u' = is_active u" using d by simp_all
  show me: "u' \<in> set (as_users s')" using k(3) u by force
  show "group_names s' u' = au_group_name ` set groups" unfolding group_names_def using joined_group_names(2) [OF k(2,1)] by (simp add: accounts_of_names)
  show "\<exists>g \<in> set (as_groups s'). gr_name g = n \<and> has_account g a" if "(n, a) \<in> set (accounts_of groups)" for n a using d(2) that by blast
  show "v \<in> set (as_users s')" if "v \<in> set (as_users s)" "user_id v \<noteq> user_id u" for v using that k(3) by force
  show keeps: "\<exists>g' \<in> set (as_groups s'). gr_id g' = gr_id g \<and> gr_name g' = gr_name g \<and> gr_permissions g' = gr_permissions g"
    if "g \<in> set (as_groups s)" for g using d(1) that by blast
  show "s' = s\<lparr>as_users := as_users s', as_groups := as_groups s'\<rparr>" by (rule k(4))
  have "map user_id (as_users s') = map user_id (as_users s)" "map username (as_users s') = map username (as_users s)"
    unfolding k(3) using tables_okD(1,2) [OF ok] u id by (auto intro: distinct_map_update simp del: map_map)
  moreover have "set (user_groups v) \<subseteq> gr_id ` set (as_groups s')" if "v \<in> set (as_users s')" for v
  proof (cases "v = u'")
    case True
    then show ?thesis using joined_group_names(1) [OF k(2,1)] by auto
  next
    case False
    then have "v \<in> set (as_users s)" using that k(3) by (auto split: if_splits)
    then have "set (user_groups v) \<subseteq> gr_id ` set (as_groups s)" by (rule tables_okD(5) [OF ok])
    moreover have "i \<in> gr_id ` set (as_groups s')" if "i \<in> gr_id ` set (as_groups s)" for i using that keeps by (metis (no_types, lifting) imageE image_eqI)
    ultimately show ?thesis by blast
  qed
  ultimately show "tables_ok s'" using tables_okD(1,2) [OF ok] d(4,5) by (auto simp: tables_ok_def)
qed

text \<open>A synchronisation that found nothing to do returns at once, so a second one after any other changes nothing.\<close>

lemma sync_idle:
  assumes ok: "tables_ok s" and names: "group_names s u = au_group_name ` set groups"
    and accounts: "\<And>n a. (n, a) \<in> set (accounts_of groups) \<Longrightarrow> \<exists>g \<in> set (as_groups s). gr_name g = n \<and> has_account g a"
  shows "sync_user_groups u groups perms s = (u, s)"
proof -
  let ?c = "filter (\<lambda>g. gr_id g \<in> set (user_groups u)) (as_groups s)"
  have n: "gr_name ` set ?c = fst ` set (accounts_of groups)" using names by (simp add: group_names_def accounts_of_names)
  have "case named n ?c of None \<Rightarrow> False | Some g \<Rightarrow> has_account g a" if na: "(n, a) \<in> set (accounts_of groups)" for n a
  proof (cases "named n ?c")
    case None
    then show ?thesis using n na by (force simp: named_None)
  next
    case (Some g)
    obtain h where "h \<in> set (as_groups s)" "gr_name h = n" "has_account h a" using accounts [OF na] by blast
    then show ?thesis using named_Some [OF Some] Some same_name_same_group [OF tables_okD(4) [OF ok], of h g] by auto
  qed
  then have "list_all (\<lambda>(name, account). case named name ?c of None \<Rightarrow> False | Some g \<Rightarrow> has_account g account) (accounts_of groups)"
    by (auto simp: list_all_iff)
  then show ?thesis using n by (simp add: sync_user_groups_def Let_def)
qed

lemma other_members_kept:
  assumes ok: "tables_ok s" and u: "u \<in> set (as_users s)" and r: "sync_user_groups u groups perms s = (u', s')" and v: "v \<in> set (as_users s)"
  shows "group_names s' v = group_names s v"
proof -
  note f = sync_facts [OF ok u r]
  have into: "group_names s v \<subseteq> group_names s' v"
  proof
    fix n assume "n \<in> group_names s v"
    then obtain g where g: "g \<in> set (as_groups s)" "gr_id g \<in> set (user_groups v)" "gr_name g = n" by (auto simp: group_names_def)
    obtain g' where "g' \<in> set (as_groups s')" "gr_id g' = gr_id g" "gr_name g' = gr_name g" using f(9) [OF g(1)] by blast
    then show "n \<in> group_names s' v" using g unfolding group_names_def by (intro image_eqI [of _ _ g']) auto
  qed
  moreover have "group_names s' v \<subseteq> group_names s v"
  proof
    fix n assume "n \<in> group_names s' v"
    then obtain h where h: "h \<in> set (as_groups s')" "gr_id h \<in> set (user_groups v)" "gr_name h = n" by (auto simp: group_names_def)
    obtain g where g: "g \<in> set (as_groups s)" "gr_id g = gr_id h" using tables_okD(5) [OF ok v] h(2) by auto
    obtain g' where g': "g' \<in> set (as_groups s')" "gr_id g' = gr_id g" "gr_name g' = gr_name g" using f(9) [OF g(1)] by blast
    then have "g' = h" using same_id_same_group [OF tables_okD(3) [OF f(5)] g'(1) h(1)] g by simp
    then show "n \<in> group_names s v" using g g' h unfolding group_names_def by (intro image_eqI [of _ _ g]) auto
  qed
  ultimately show ?thesis by blast
qed


definition ex_member :: user where
  "ex_member = \<lparr>user_id = 1, username = ''u'', is_active = True, user_groups = [1]\<rparr>"

definition ex_groups :: auth_state where
  "ex_groups = \<lparr>ac_jwt = [], ac_access = [], ac_groups = [], ac_functions = [], as_log = [], as_users = [ex_member],
     as_groups = [\<lparr>gr_id = 1, gr_name = ''old'', gr_permissions = [], gr_metadata = None\<rparr>], as_providers = []\<rparr>"


end
