(* ===== verification/Authentication_Properties.thy ===== *)
theory Authentication_Properties
  imports User_Groups
begin

text \<open>
  What the authentication of a request guarantees: 503 is answered exactly when a service of IBM failed for the moment, and a request that is let in
  belongs to an active user whom IBM's answers, at most one cache life old, vouch for.
\<close>

section \<open>Calls and outages\<close>

definition transient_entry :: "int \<times> call_log \<Rightarrow> bool" where
  "transient_entry e \<longleftrightarrow> (case snd e of Refused f \<Rightarrow> transient_failure f | _ \<Rightarrow> False)"

definition outage :: "(int \<times> call_log) list \<Rightarrow> bool" where
  "outage new \<longleftrightarrow> list_ex transient_entry new"

lemma outage_simps [simp]: "\<not> outage []" "outage (a @ b) \<longleftrightarrow> outage a \<or> outage b" "outage [(t, Refused f)] \<longleftrightarrow> transient_failure f"
  "\<not> outage [(t, Token_of k c)]" "\<not> outage [(t, Instance_of k i p)]" "\<not> outage [(t, Groups_of k g ids)]" "\<not> outage [(t, Access_of k j far)]"
  by (auto simp: outage_def transient_entry_def)

text \<open>A call of a service changes caches and the log only, and raises \<open>ServiceUnavailable\<close> exactly on a transient failure.\<close>

definition only_calls :: "(auth_exn + 'a) \<Rightarrow> auth_state \<Rightarrow> auth_state \<Rightarrow> bool" where
  "only_calls r s s' \<longleftrightarrow> as_users s' = as_users s \<and> as_groups s' = as_groups s \<and> as_providers s' = as_providers s \<and>
     (\<exists>new. as_log s' = as_log s @ new \<and> (r = Inl ServiceUnavailable \<longleftrightarrow> outage new))"

locale authentication_service =
  fixes svc :: "'o auth_service"
  assumes authenticate_calls: "sv_authenticate svc (p, s) = (r1, p', s') \<Longrightarrow> only_calls r1 s s'"
    and verify_calls: "sv_verify_access svc (p, s) = (r2, p', s') \<Longrightarrow> only_calls r2 s s'"
    and groups_calls: "sv_get_groups svc (p, s) = (r3, p', s') \<Longrightarrow> only_calls r3 s s'"

lemma admit_log:
  assumes "admit st channel name groups s = (r, s')"
  shows "as_log s' = as_log s" "r \<noteq> Inl ServiceUnavailable"
proof -
  have sync: "as_log (snd (sync_user_groups u groups perms t)) = as_log t" for u perms t
    by (simp add: sync_user_groups_def Let_def split: prod.splits)
  have user: "as_log (snd (get_or_create_user name s)) = as_log s" by (simp add: get_or_create_user_def Let_def split: option.splits)
  have prov: "mock_provider st u t = (x, t') \<Longrightarrow> as_log t' = as_log t \<and> x \<noteq> Inl ServiceUnavailable" for u t x t'
    by (auto simp: mock_provider_def split: if_splits)
  obtain u s1 where u: "get_or_create_user name s = (u, s1)" by force
  note f = user [unfolded u snd_conv]
  show "as_log s' = as_log s" "r \<noteq> Inl ServiceUnavailable"
    using assms f sync [of u "[VIEW_PROGRAM_PERMISSION, RUN_PROGRAM_PERMISSION]" s1] sync [of u "[VIEW_PROGRAM_PERMISSION]" s1]
    by (auto simp: admit_def u split: if_splits prod.splits sum.splits dest: prov)
qed

context authentication_service
begin

text \<open>Whatever the service, the use case is unavailable exactly when one of the calls it made was.\<close>

lemma execute_unavailable:
  assumes "execute_with st channel public svc s = (r, s')"
  shows "\<exists>new. as_log s' = as_log s @ new \<and> (r = Inl ServiceUnavailable \<longleftrightarrow> outage new)"
proof -
  obtain r1 p1 s1 where a: "sv_authenticate svc (sv_object svc, s) = (r1, p1, s1)" by (metis prod_cases3)
  obtain n1 where n1: "as_log s1 = as_log s @ n1" "r1 = Inl ServiceUnavailable \<longleftrightarrow> outage n1" using authenticate_calls [OF a] by (auto simp: only_calls_def)
  show ?thesis
  proof (cases r1)
    case (Inl e)
    then show ?thesis using assms n1 by (auto simp: execute_with_def a)
  next
    case (Inr name)
    obtain r2 p2 s2 where v: "(if public then (Inr True, p1, s1) else sv_verify_access svc (p1, s1)) = (r2, p2, s2)" by (metis prod_cases3)
    have "only_calls r2 s1 s2"
    proof (cases public)
      case True
      then show ?thesis using v by (auto simp: only_calls_def)
    qed (use v verify_calls in auto)
    then obtain n2 where n2: "as_log s2 = as_log s1 @ n2" "r2 = Inl ServiceUnavailable \<longleftrightarrow> outage n2" by (auto simp: only_calls_def)
    show ?thesis
    proof (cases r2)
      case (Inl e)
      then show ?thesis using assms n1 n2 Inr by (auto simp: execute_with_def a v)
    next
      case r2: (Inr ok)
      obtain r3 p3 s3 where g: "sv_get_groups svc (p2, s2) = (r3, p3, s3)" by (metis prod_cases3)
      obtain n3 where n3: "as_log s3 = as_log s2 @ n3" "r3 = Inl ServiceUnavailable \<longleftrightarrow> outage n3" using groups_calls [OF g] by (auto simp: only_calls_def)
      show ?thesis
      proof (cases "\<not> ok \<or> isl r3")
        case True
        then show ?thesis using assms n1 n2 n3 Inr r2 by (auto simp: execute_with_def a v g isl_def split: if_splits)
      next
        case False
        then obtain groups where r3: "r3 = Inr groups" "ok" by (cases r3) auto
        obtain r4 s4 where d: "admit st channel name groups s3 = (r4, s4)" by force
        note l = admit_log [OF d]
        show ?thesis using assms n1 n2 n3 Inr r2 r3 l by (auto simp: execute_with_def a v g d split: sum.splits)
      qed
    qed
  qed
qed

end

interpretation ibm_service: authentication_service "IBMQuantumPlatform st w key crn" for st w key crn
proof
  have jwt: "request_or_cache_jwt_data st w key s = (r, s') \<Longrightarrow> only_calls r s s'" for s r s'
    by (auto simp: request_or_cache_jwt_data_def only_calls_def note_call_def split: option.splits sum.splits if_splits)
  fix p p' s s'
  show "only_calls r s s'" if "sv_authenticate (IBMQuantumPlatform st w key crn) (p, s) = (r, p', s')" for r
  proof (cases "request_or_cache_jwt_data st w key s")
    case (Pair x y)
    then show ?thesis using that jwt [OF Pair]
      by (auto simp: IBMQuantumPlatform_def platform_authenticate_def only_calls_def split: if_splits sum.splits option.splits)
  qed
  show "only_calls r s s'" if "sv_verify_access (IBMQuantumPlatform st w key crn) (p, s) = (r, p', s')" for r
    using that by (auto simp: IBMQuantumPlatform_def platform_verify_access_def request_or_cache_instance_attributes_def only_calls_def note_call_def Let_def
        split: option.splits sum.splits call_failure.splits if_splits prod.splits)
  show "only_calls r s s'" if "sv_get_groups (IBMQuantumPlatform st w key crn) (p, s) = (r, p', s')" for r
    using that by (auto simp: IBMQuantumPlatform_def platform_get_groups_def request_or_cache_group_ids_def only_calls_def note_call_def
        split: option.splits sum.splits call_failure.splits if_splits)
qed

interpretation local_service: authentication_service "LocalAuthenticationService st tok" for st tok
  by unfold_locales (auto simp: LocalAuthenticationService_def local_authenticate_def only_calls_def split: option.splits if_splits)

lemma execute_unavailable_iff:
  "execute st w channel tok crn public s = (r, s') \<Longrightarrow> \<exists>new. as_log s' = as_log s @ new \<and> (r = Inl ServiceUnavailable \<longleftrightarrow> outage new)"
  using ibm_service.execute_unavailable local_service.execute_unavailable by (simp add: execute_def split: if_splits)

lemma access_calls:
  assumes "get_accessible_functions st w crn key s = (r, s')"
  shows "\<exists>new. as_log s' = as_log s @ new \<and> ((\<exists>m. r = Inl (RuntimeFunctionsUnavailable m)) \<longleftrightarrow> outage new)"
proof -
  have "(\<exists>m. read_access rsp c = Inl (RuntimeFunctionsUnavailable m)) \<longleftrightarrow> isl (read_access rsp c) \<and> transient_failure (failure_of rsp)" for rsp c
    by (auto simp: read_access_def failure_of_def is_transient_api_exception_def instance_entitlements_def split: option.splits if_splits sum.splits)
  then show ?thesis using assms
    by (auto simp: get_accessible_functions_def note_call_def Let_def split: sum.splits bool.splits option.splits list.splits)
      (metis isl_def)+
qed

definition backend_result ::
  "Channel \<Rightarrow> string \<Rightarrow> string option \<Rightarrow> (auth_exn + authentication_result) \<times> auth_state \<Rightarrow> (access_exn + function_access_result) \<times> auth_state \<Rightarrow>
    (auth_exn + (user \<times> custom_authentication) option) \<times> auth_state" where
  "backend_result channel tok crn ex ac =
     (case ex of
        (Inl e, s1) \<Rightarrow> (Inl e, s1)
      | (Inr res, _) \<Rightarrow>
          (case ac of
             (Inl (RuntimeFunctionsUnavailable _), s2) \<Rightarrow> (Inl ServiceUnavailable, s2)
           | (Inl (RuntimeFunctionsException _), s2) \<Rightarrow> (Inl (AuthenticationFailed UNVERIFIED), s2)
           | (Inl (Access_unhandled e), s2) \<Rightarrow> (Inl (Unhandled e), s2)
           | (Inr far, s2) \<Rightarrow>
               (Inr (Some (res_user res, \<lparr>ca_channel = channel, ca_token = tok, ca_accessible = far, ca_instance = crn,
                  ca_account_id = res_account_id res, ca_plan_id = res_plan_id res, ca_subscription_id = res_subscription_id res\<rparr>)), s2)))"

text \<open>A request is turned away before any call, or the use case and then the access client decide.\<close>

lemma custom_token_cases:
  assumes "custom_token_authenticate st w rq s = (r, s')"
  obtains "s' = s" "r = Inr None \<or> (\<exists>m. r = Inl (AuthenticationFailed m))"
  | channel h r1 s1 ac where "rq_authorization rq = Some h" "channel \<in> {IBM_CLOUD, IBM_QUANTUM_PLATFORM}"
      "service_crn rq \<noteq> None \<or> is_public_endpoint (rq_path rq)"
      "execute st w channel (bearer h) (service_crn rq) (is_public_endpoint (rq_path rq)) s = (r1, s1)"
      "get_accessible_functions st w (service_crn rq) (bearer h) s1 = ac" "backend_result channel (bearer h) (service_crn rq) (r1, s1) ac = (r, s')"
proof -
  define crn public co where d: "crn = service_crn rq" "public = is_public_endpoint (rq_path rq)"
    "co = Channel_of (case rq_channel rq of None \<Rightarrow> ''ibm_quantum_platform'' | Some c \<Rightarrow> c)"
  note a = assms [unfolded custom_token_authenticate_def Let_def, folded d]
  show thesis
  proof (cases "\<exists>channel h. co = Some channel \<and> channel \<noteq> LOCAL \<and> rq_authorization rq = Some h \<and> \<not> (crn = None \<and> \<not> public)")
    case False
    then show ?thesis using a by (intro that(1)) (auto split: option.splits Channel.splits if_splits)
  next
    case True
    then obtain channel h where ch: "co = Some channel" "channel \<noteq> LOCAL" "rq_authorization rq = Some h" "\<not> (crn = None \<and> \<not> public)" by blast
    obtain r1 s1 where e: "execute st w channel (bearer h) crn public s = (r1, s1)" by force
    obtain ac where ac: "get_accessible_functions st w crn (bearer h) s1 = ac" by blast
    have ibm: "channel \<in> {IBM_CLOUD, IBM_QUANTUM_PLATFORM}" using ch(2) by (cases channel) auto
    then have "backend_result channel (bearer h) crn (r1, s1) ac = (r, s')" using a ch e ac by (auto simp: backend_result_def split: sum.splits)
    then show ?thesis using that(2) ch(3,4) ibm e ac unfolding d by blast
  qed
qed

text \<open>
  C12: A request is answered with 503 exactly when one of the calls it made, of IAM, the Resource Controller, Access Groups or the Runtime API,
  failed for the moment: no answer, too many requests, or a failing server. A refusal is never reported as an outage, and an outage never as a
  refusal of the user's key, instance or access.
\<close>

theorem unavailable_iff_outage:
  assumes "custom_token_authenticate st w rq s = (r, s')"
  shows "\<exists>new. as_log s' = as_log s @ new \<and> (r = Inl ServiceUnavailable \<longleftrightarrow> outage new)"
  using assms
proof (cases rule: custom_token_cases)
  case 1
  then show ?thesis by auto
next
  case (2 channel h r1 s1 ac)
  obtain r2 s2 where ac: "ac = (r2, s2)" by force
  obtain n1 where n1: "as_log s1 = as_log s @ n1" "r1 = Inl ServiceUnavailable \<longleftrightarrow> outage n1" using execute_unavailable_iff [OF 2(4)] by blast
  obtain n2 where n2: "as_log s2 = as_log s1 @ n2" "(\<exists>m. r2 = Inl (RuntimeFunctionsUnavailable m)) \<longleftrightarrow> outage n2" using access_calls [OF 2(5) [unfolded ac]] by blast
  show ?thesis using 2(6) ac n1 n2 by (cases r1) (auto simp: backend_result_def split: sum.splits access_exn.splits)
qed

section \<open>The caches remember what was answered\<close>

text \<open>Every entry of a cache is an answer in the log and expires at most one life after it.\<close>

definition remembers :: "(int \<times> call_log) list \<Rightarrow> ('k \<Rightarrow> 'v \<Rightarrow> call_log set) \<Rightarrow> int \<Rightarrow> ('k \<times> 'v \<times> int) list \<Rightarrow> bool" where
  "remembers L says ttl c \<longleftrightarrow> (\<forall>(k, v, expiry) \<in> set c. \<exists>t. \<exists>e \<in> says k v. (t, e) \<in> set L \<and> expiry \<le> t + max 0 ttl)"

lemma jittered_at_most: "0 \<le> r \<Longrightarrow> jittered_cache_ttl r ttl \<le> max 0 ttl"
proof -
  assume r: "0 \<le> r"
  have "\<lfloor>of_int ttl * (1 - r / 5)\<rfloor> \<le> ttl" if "0 < ttl"
  proof -
    have "of_int ttl * (1 - r / 5) \<le> (of_int ttl :: rat)" using that r by (simp add: mult_le_cancel_left1)
    then show ?thesis by (simp add: floor_le_iff)
  qed
  then show ?thesis by (auto simp: jittered_cache_ttl_def)
qed

lemma set_update_subset: "set (AList.update k v al) \<subseteq> insert (k, v) (set al)"
  by (induction al) auto

lemma remembers_read:
  assumes "remembers L says ttl c" "cache_read now k c = Some v"
  shows "\<exists>t. \<exists>e \<in> says k v. (t, e) \<in> set L \<and> now - t \<le> max 0 ttl"
proof -
  obtain x where "(k, v, x) \<in> set c" "now < x" using assms(2) by (auto simp: cache_read_def split: option.splits if_splits dest: map_of_SomeD)
  then show ?thesis using assms(1) unfolding remembers_def by fastforce
qed

lemma remembers_store:
  assumes "remembers L says ttl c" "e \<in> says k v" "0 \<le> r"
  shows "remembers (L @ [(now, e)]) says ttl (cache_store now (jittered_cache_ttl r ttl) k v c)"
proof -
  have "\<exists>t. \<exists>e \<in> says k' v'. (t, e) \<in> set (L @ [(now, e')]) \<and> x \<le> t + max 0 ttl" if "(k', v', x) \<in> set c" for k' v' x e'
    using assms(1) that unfolding remembers_def by fastforce
  moreover have "now + jittered_cache_ttl r ttl \<le> now + max 0 ttl" using jittered_at_most [OF assms(3)] by simp
  ultimately show ?thesis using set_update_subset [of k "(v, now + jittered_cache_ttl r ttl)" c] assms(2)
    unfolding remembers_def cache_store_def by fastforce
qed

lemma remembers_mono: "remembers L says ttl c \<Longrightarrow> set L \<subseteq> set L' \<Longrightarrow> set c' \<subseteq> set c \<Longrightarrow> remembers L' says ttl c'"
  unfolding remembers_def by fastforce

definition caches_sound :: "auth_settings \<Rightarrow> auth_state \<Rightarrow> bool" where
  "caches_sound st s \<longleftrightarrow>
     remembers (as_log s) (\<lambda>h c. {Token_of key c | key. sha256_hex st key = h}) (IAM_CACHE_TTL st) (ac_jwt s) \<and>
     remembers (as_log s) (\<lambda>(crn, h) a. {Instance_of key crn a | key. sha256_hex st key = h}) (IAM_CACHE_TTL st) (ac_access s) \<and>
     remembers (as_log s) (\<lambda>(account, h) ids. {Groups_of key account ids | key. sha256_hex st key = h}) (IAM_CACHE_TTL st) (ac_groups s) \<and>
     remembers (as_log s) (\<lambda>(crn, h) far. {Access_of key crn far | key. sha256_hex st key = h}) (RUNTIME_CACHE_TTL st) (ac_functions s)"

lemma caches_sound_mono:
  assumes "caches_sound st s" "set (as_log s) \<subseteq> set (as_log s')" "set (ac_jwt s') \<subseteq> set (ac_jwt s)" "set (ac_access s') \<subseteq> set (ac_access s)"
    "set (ac_groups s') \<subseteq> set (ac_groups s)" "set (ac_functions s') \<subseteq> set (ac_functions s)"
  shows "caches_sound st s'"
  using assms unfolding caches_sound_def by (auto intro: remembers_mono)

lemma caches_sound_note: "caches_sound st s \<Longrightarrow> caches_sound st (note_call w e s)"
  by (rule caches_sound_mono) (auto simp: note_call_def)

text \<open>\<open>vouched s now ttl e\<close>: a service said \<open>e\<close>, at most \<open>ttl\<close> ago.\<close>

definition vouched :: "auth_state \<Rightarrow> int \<Rightarrow> int \<Rightarrow> call_log \<Rightarrow> bool" where
  "vouched s now ttl e \<longleftrightarrow> (\<exists>t. (t, e) \<in> set (as_log s) \<and> now - t \<le> max 0 ttl)"

lemma vouched_mono: "vouched s now ttl e \<Longrightarrow> set (as_log s) \<subseteq> set (as_log s') \<Longrightarrow> vouched s' now ttl e"
  by (auto simp: vouched_def)

lemma vouched_now: "vouched (note_call w e s) (aw_now w) ttl e"
  by (auto simp: vouched_def note_call_def)

lemma jwt_data_sound:
  assumes "request_or_cache_jwt_data st w key s = (r, s')" "caches_sound st s" "inj (sha256_hex st)" "0 \<le> aw_random w"
  shows "caches_sound st s'" "r = Inr c \<Longrightarrow> vouched s' (aw_now w) (IAM_CACHE_TTL st) (Token_of key c)"
proof -
  have m: "remembers (as_log s) (\<lambda>h c. {Token_of key c | key. sha256_hex st key = h}) (IAM_CACHE_TTL st) (ac_jwt s)" using assms(2) by (simp add: caches_sound_def)
  show "caches_sound st s'"
    using assms(1,2,4) remembers_store [OF m, where e = "Token_of key _" and r = "aw_random w" and now = "aw_now w"]
    by (auto simp: request_or_cache_jwt_data_def caches_sound_note split: option.splits sum.splits)
      (auto simp: caches_sound_def note_call_def intro: remembers_mono)
  show "vouched s' (aw_now w) (IAM_CACHE_TTL st) (Token_of key c)" if "r = Inr c"
  proof (cases "cache_read (aw_now w) (sha256_hex st key) (ac_jwt s)")
    case None
    then show ?thesis using assms(1) that by (auto simp: request_or_cache_jwt_data_def vouched_now split: sum.splits)
  next
    case (Some v)
    then have "v = c" "s' = s" using assms(1) that by (auto simp: request_or_cache_jwt_data_def)
    then show ?thesis using remembers_read [OF m Some] assms(3) by (auto simp: vouched_def inj_def)
  qed
qed

lemma instance_attributes_sound:
  assumes "request_or_cache_instance_attributes st w key crn s = (r, s')" "caches_sound st s" "inj (sha256_hex st)" "0 \<le> aw_random w"
  shows "caches_sound st s'" "r = Inr a \<Longrightarrow> vouched s' (aw_now w) (IAM_CACHE_TTL st) (Instance_of key crn a)"
proof -
  have m: "remembers (as_log s) (\<lambda>(crn, h) a. {Instance_of key crn a | key. sha256_hex st key = h}) (IAM_CACHE_TTL st) (ac_access s)"
    using assms(2) by (simp add: caches_sound_def)
  have "remembers (as_log s @ [(aw_now w, Instance_of key crn (instance_attributes i))]) (\<lambda>(crn, h) a. {Instance_of key crn a | key. sha256_hex st key = h})
      (IAM_CACHE_TTL st) (cache_store (aw_now w) (jittered_cache_ttl (aw_random w) (IAM_CACHE_TTL st)) (crn, sha256_hex st key) (instance_attributes i) (ac_access s))" for i
    by (rule remembers_store [OF m]) (use assms(4) in auto)
  then show "caches_sound st s'"
    using assms(1,2)
    by (auto simp: request_or_cache_instance_attributes_def caches_sound_note Let_def split: option.splits sum.splits call_failure.splits)
      (auto simp: caches_sound_def note_call_def intro: remembers_mono)
  show "vouched s' (aw_now w) (IAM_CACHE_TTL st) (Instance_of key crn a)" if "r = Inr a"
  proof (cases "cache_read (aw_now w) (crn, sha256_hex st key) (ac_access s)")
    case None
    then show ?thesis using assms(1) that by (auto simp: request_or_cache_instance_attributes_def vouched_now Let_def split: sum.splits call_failure.splits)
  next
    case (Some v)
    then have "v = a" "s' = s" using assms(1) that by (auto simp: request_or_cache_instance_attributes_def)
    then show ?thesis using remembers_read [OF m Some] assms(3) by (auto simp: vouched_def inj_def)
  qed
qed

lemma group_ids_sound:
  assumes "request_or_cache_group_ids st w key account s = (r, s')" "caches_sound st s" "inj (sha256_hex st)" "0 \<le> aw_random w"
  shows "caches_sound st s'" "r = Inr ids \<Longrightarrow> vouched s' (aw_now w) (IAM_CACHE_TTL st) (Groups_of key account ids) \<or>
    ids = [] \<and> (\<exists>f. aw_groups w key account = Inl f \<and> \<not> transient_failure f \<and> (aw_now w, Refused f) \<in> set (as_log s'))"
proof -
  have m: "remembers (as_log s) (\<lambda>(account, h) ids. {Groups_of key account ids | key. sha256_hex st key = h}) (IAM_CACHE_TTL st) (ac_groups s)"
    using assms(2) by (simp add: caches_sound_def)
  show "caches_sound st s'"
    using assms(1,2,4) remembers_store [OF m, where e = "Groups_of key account _" and r = "aw_random w" and now = "aw_now w"]
    by (auto simp: request_or_cache_group_ids_def caches_sound_note split: option.splits sum.splits call_failure.splits)
      (auto simp: caches_sound_def note_call_def intro: remembers_mono)
  show "vouched s' (aw_now w) (IAM_CACHE_TTL st) (Groups_of key account ids) \<or>
    ids = [] \<and> (\<exists>f. aw_groups w key account = Inl f \<and> \<not> transient_failure f \<and> (aw_now w, Refused f) \<in> set (as_log s'))" if "r = Inr ids"
  proof (cases "cache_read (aw_now w) (account, sha256_hex st key) (ac_groups s)")
    case None
    show ?thesis
    proof (cases "aw_groups w key account")
      case (Inl f)
      then show ?thesis using None assms(1) that
        by (auto simp: request_or_cache_group_ids_def note_call_def split: call_failure.splits if_splits)
    next
      case (Inr gs)
      then show ?thesis using None assms(1) that by (auto simp: request_or_cache_group_ids_def vouched_now)
    qed
  next
    case (Some v)
    then have "v = ids" "s' = s" using assms(1) that by (auto simp: request_or_cache_group_ids_def)
    then show ?thesis using remembers_read [OF m Some] assms(3) by (auto simp: vouched_def inj_def)
  qed
qed

lemma access_sound:
  assumes "get_accessible_functions st w crn key s = (r, s')" "caches_sound st s" "inj (sha256_hex st)" "0 \<le> aw_random w"
  shows "caches_sound st s'" "r = Inr far \<Longrightarrow> aw_instances_enabled w = Inr False \<and> far = legacy_access \<or>
    (\<exists>c. crn = Some c \<and> vouched s' (aw_now w) (RUNTIME_CACHE_TTL st) (Access_of key c far))"
proof -
  have m: "remembers (as_log s) (\<lambda>(crn, h) far. {Access_of key crn far | key. sha256_hex st key = h}) (RUNTIME_CACHE_TTL st) (ac_functions s)"
    using assms(2) by (simp add: caches_sound_def)
  show "caches_sound st s'"
    using assms(1,2,4) remembers_store [OF m, where e = "Access_of key _ _" and r = "aw_random w" and now = "aw_now w"]
    by (auto simp: get_accessible_functions_def caches_sound_note Let_def split: option.splits sum.splits bool.splits list.splits)
      (auto simp: caches_sound_def note_call_def intro: remembers_mono)
  show "aw_instances_enabled w = Inr False \<and> far = legacy_access \<or>
    (\<exists>c. crn = Some c \<and> vouched s' (aw_now w) (RUNTIME_CACHE_TTL st) (Access_of key c far))" if "r = Inr far"
  proof (cases "aw_instances_enabled w = Inr True \<and> (\<exists>c. crn = Some c \<and> c \<noteq> [])")
    case False
    then show ?thesis using assms(1) that by (auto simp: get_accessible_functions_def split: option.splits sum.splits bool.splits list.splits)
  next
    case True
    then obtain c x where c: "crn = Some (x # c)" "aw_instances_enabled w = Inr True" by (auto simp: neq_Nil_conv)
    show ?thesis
    proof (cases "cache_read (aw_now w) (x # c, sha256_hex st key) (ac_functions s)")
      case None
      then show ?thesis using assms(1) that c by (auto simp: get_accessible_functions_def vouched_now Let_def split: sum.splits)
    next
      case (Some v)
      then have "v = far" "s' = s" using assms(1) that c by (auto simp: get_accessible_functions_def)
      then show ?thesis using remembers_read [OF m Some] assms(3) c by (auto simp: vouched_def inj_def)
    qed
  qed
qed

lemma access_keeps_tables:
  "get_accessible_functions st w crn key s = (r, s') \<Longrightarrow> as_users s' = as_users s \<and> as_groups s' = as_groups s"
  by (auto simp: get_accessible_functions_def note_call_def Let_def split: sum.splits bool.splits option.splits list.splits)

section \<open>Users\<close>

lemma get_or_create_user_facts:
  assumes "get_or_create_user name s = (u, s')" "tables_ok s"
  shows "tables_ok s'" "u \<in> set (as_users s')" "username u = name" "s' = s\<lparr>as_users := as_users s'\<rparr>"
proof -
  have "find (\<lambda>u. username u = name) (as_users s) = None \<Longrightarrow> name \<notin> username ` set (as_users s)" by (auto simp: find_None_iff)
  moreover have "next_id (map user_id (as_users s)) \<notin> user_id ` set (as_users s)" using next_id_fresh [of "map user_id (as_users s)"] by simp
  ultimately show "tables_ok s'" using assms
    by (auto simp: get_or_create_user_def tables_ok_def Let_def split: option.splits) blast
  show "u \<in> set (as_users s')" "username u = name" "s' = s\<lparr>as_users := as_users s'\<rparr>"
    using assms by (auto simp: get_or_create_user_def Let_def find_Some_iff split: option.splits)
qed

lemma admit_facts:
  assumes "admit st channel name groups s = (r, s')" "tables_ok s" "channel \<noteq> LOCAL"
  shows "tables_ok s'" "s' = s\<lparr>as_users := as_users s', as_groups := as_groups s'\<rparr>"
    "r = Inr u \<Longrightarrow> u \<in> set (as_users s') \<and> is_active u \<and> username u = name \<and> group_names s' u = au_group_name ` set groups"
proof -
  obtain v s1 where v: "get_or_create_user name s = (v, s1)" by force
  note f = get_or_create_user_facts [OF v assms(2)]
  obtain v' s2 where y: "sync_user_groups v groups [VIEW_PROGRAM_PERMISSION] s1 = (v', s2)" by force
  note g = sync_facts [OF f(1,2) y]
  have e: "(r, s') = (if is_active v then (Inr v', s2) else (Inl (AuthenticationFailed DEACTIVATED), s1))"
    using assms(1,3) by (cases "is_active v") (simp_all add: admit_def v y)
  show "tables_ok s'" using e f(1) g(5) by (simp split: if_splits)
  have "s1\<lparr>as_users := x, as_groups := y\<rparr> = s\<lparr>as_users := x, as_groups := y\<rparr>" for x y by (subst f(4)) simp
  from trans [OF g(10) this] have "s2 = s\<lparr>as_users := as_users s2, as_groups := as_groups s2\<rparr>" .
  moreover have "s1 = s\<lparr>as_users := as_users s1, as_groups := as_groups s1\<rparr>" by (subst f(4), subst f(4)) simp
  ultimately show "s' = s\<lparr>as_users := as_users s', as_groups := as_groups s'\<rparr>" using e by (auto split: if_splits)
  show "u \<in> set (as_users s') \<and> is_active u \<and> username u = name \<and> group_names s' u = au_group_name ` set groups" if "r = Inr u"
    using e that g f(3) by (auto split: if_splits)
qed

section \<open>Requests one after another\<close>

text \<open>
  The states requests meet: they start with empty caches, answer requests, and between two requests other writers change the tables in any
  way that keeps them well formed, and the cache may lose entries.
\<close>

definition in_unit :: "rat \<Rightarrow> bool" where
  "in_unit r \<longleftrightarrow> 0 \<le> r \<and> r < 1"

inductive served :: "auth_settings \<Rightarrow> auth_state \<Rightarrow> bool" for st where
  start: "tables_ok s \<Longrightarrow> ac_jwt s = [] \<Longrightarrow> ac_access s = [] \<Longrightarrow> ac_groups s = [] \<Longrightarrow> ac_functions s = [] \<Longrightarrow> as_log s = [] \<Longrightarrow> served st s"
| request: "served st s \<Longrightarrow> in_unit (aw_random w) \<Longrightarrow> custom_token_authenticate st w rq s = (r, s') \<Longrightarrow> served st s'"
| others: "served st s \<Longrightarrow> tables_ok s' \<Longrightarrow> set (ac_jwt s') \<subseteq> set (ac_jwt s) \<Longrightarrow> set (ac_access s') \<subseteq> set (ac_access s) \<Longrightarrow>
    set (ac_groups s') \<subseteq> set (ac_groups s) \<Longrightarrow> set (ac_functions s') \<subseteq> set (ac_functions s) \<Longrightarrow> as_log s' = as_log s \<Longrightarrow> served st s'"

definition auth_inv :: "auth_settings \<Rightarrow> auth_state \<Rightarrow> bool" where
  "auth_inv st s \<longleftrightarrow> caches_sound st s \<and> tables_ok s"

lemma tables_ok_cong: "as_users s' = as_users s \<Longrightarrow> as_groups s' = as_groups s \<Longrightarrow> tables_ok s' = tables_ok s"
  by (simp add: tables_ok_def)

text \<open>The three steps of the IBM service.\<close>

lemma platform_steps:
  assumes sha: "inj (sha256_hex st)" and r: "0 \<le> aw_random w" and ok: "caches_sound st s"
  shows "platform_authenticate st w key (p, s) = (x1, p1, s1) \<Longrightarrow> caches_sound st s1 \<and> (\<forall>name. x1 = Inr name \<longrightarrow>
      (\<exists>c account. vouched s1 (aw_now w) (IAM_CACHE_TTL st) (Token_of key c) \<and> cl_iam_id c = Some name \<and> cl_account c = Some (Some account) \<and> ip_account_id p1 = Some account))"
    and "platform_verify_access st w key crn (p, s) = (x2, p1, s1) \<Longrightarrow> caches_sound st s1 \<and> ip_account_id p1 = ip_account_id p \<and> (x2 = Inr True \<longrightarrow>
      (\<exists>plan. vouched s1 (aw_now w) (IAM_CACHE_TTL st) (Instance_of key crn (Some plan, ip_subscription_id p1)) \<and> ip_plan_id p1 = Some plan \<and> plan \<in> set (PLANS_ALLOWED st)))"
    and "platform_get_groups st w key (p, s) = (x3, p1, s1) \<Longrightarrow> caches_sound st s1 \<and> (\<forall>groups. x3 = Inr groups \<longrightarrow> p1 = p \<and>
      (\<exists>account ids. ip_account_id p = Some account \<and> groups = map (\<lambda>i. \<lparr>au_group_name = i, au_account = Some account\<rparr>) ids \<and>
        (vouched s1 (aw_now w) (IAM_CACHE_TTL st) (Groups_of key account ids) \<or>
         ids = [] \<and> (\<exists>f. aw_groups w key account = Inl f \<and> \<not> transient_failure f \<and> (aw_now w, Refused f) \<in> set (as_log s1)))))"
proof -
  show "caches_sound st s1 \<and> (\<forall>name. x1 = Inr name \<longrightarrow>
      (\<exists>c account. vouched s1 (aw_now w) (IAM_CACHE_TTL st) (Token_of key c) \<and> cl_iam_id c = Some name \<and> cl_account c = Some (Some account) \<and> ip_account_id p1 = Some account))"
    if a: "platform_authenticate st w key (p, s) = (x1, p1, s1)"
  proof (cases "request_or_cache_jwt_data st w key s")
    case (Pair y t)
    note f = jwt_data_sound [OF Pair ok sha r]
    show ?thesis using a ok f by (cases y) (auto simp: platform_authenticate_def Pair split: if_splits option.splits)
  qed
  show "caches_sound st s1 \<and> ip_account_id p1 = ip_account_id p \<and> (x2 = Inr True \<longrightarrow>
      (\<exists>plan. vouched s1 (aw_now w) (IAM_CACHE_TTL st) (Instance_of key crn (Some plan, ip_subscription_id p1)) \<and> ip_plan_id p1 = Some plan \<and> plan \<in> set (PLANS_ALLOWED st)))"
    if a: "platform_verify_access st w key crn (p, s) = (x2, p1, s1)"
  proof (cases "request_or_cache_instance_attributes st w key crn s")
    case (Pair y t)
    note f = instance_attributes_sound [OF Pair ok sha r]
    show ?thesis using a ok f by (cases y) (auto simp: platform_verify_access_def Pair split: option.splits)
  qed
  show "caches_sound st s1 \<and> (\<forall>groups. x3 = Inr groups \<longrightarrow> p1 = p \<and>
      (\<exists>account ids. ip_account_id p = Some account \<and> groups = map (\<lambda>i. \<lparr>au_group_name = i, au_account = Some account\<rparr>) ids \<and>
        (vouched s1 (aw_now w) (IAM_CACHE_TTL st) (Groups_of key account ids) \<or>
         ids = [] \<and> (\<exists>f. aw_groups w key account = Inl f \<and> \<not> transient_failure f \<and> (aw_now w, Refused f) \<in> set (as_log s1)))))"
    if a: "platform_get_groups st w key (p, s) = (x3, p1, s1)"
  proof (cases "ip_account_id p")
    case None
    then show ?thesis using a ok by (auto simp: platform_get_groups_def)
  next
    case (Some account)
    obtain y t where Pair: "request_or_cache_group_ids st w key account s = (y, t)" by force
    note f = group_ids_sound [OF Pair ok sha r]
    show ?thesis using a f Some by (cases y) (auto simp: platform_get_groups_def Pair)
  qed
qed

text \<open>What the IBM service said of a user that is let in.\<close>

definition vouched_user ::
  "auth_settings \<Rightarrow> auth_world \<Rightarrow> string \<Rightarrow> string option \<Rightarrow> bool \<Rightarrow> auth_state \<Rightarrow> authentication_result \<Rightarrow> bool" where
  "vouched_user st w key crn public s res \<longleftrightarrow>
     (\<exists>c account. vouched s (aw_now w) (IAM_CACHE_TTL st) (Token_of key c) \<and> cl_iam_id c = Some (username (res_user res)) \<and>
        cl_account c = Some (Some account) \<and> res_account_id res = Some account \<and>
        ((\<exists>ids. vouched s (aw_now w) (IAM_CACHE_TTL st) (Groups_of key account ids) \<and> group_names s (res_user res) = set ids) \<or>
         (\<exists>f. aw_groups w key account = Inl f \<and> \<not> transient_failure f \<and> group_names s (res_user res) = {}))) \<and>
     (\<not> public \<longrightarrow> (\<exists>plan. vouched s (aw_now w) (IAM_CACHE_TTL st) (Instance_of key crn (Some plan, res_subscription_id res)) \<and>
        res_plan_id res = Some plan \<and> plan \<in> set (PLANS_ALLOWED st))) \<and>
     is_active (res_user res) \<and> res_user res \<in> set (as_users s)"

lemma group_names_cong: "as_groups s' = as_groups s \<Longrightarrow> group_names s' u = group_names s u"
  by (simp add: group_names_def)

lemma vouched_user_mono:
  assumes "vouched_user st w key crn public s res" "set (as_log s) \<subseteq> set (as_log s')" "as_users s' = as_users s" "as_groups s' = as_groups s"
  shows "vouched_user st w key crn public s' res"
proof -
  have v: "vouched s now ttl e \<Longrightarrow> vouched s' now ttl e" for now ttl e by (rule vouched_mono [OF _ assms(2)])
  show ?thesis using assms(1) unfolding vouched_user_def group_names_cong [OF assms(4)] assms(3) by (blast dest: v)
qed

lemma ibm_execute_sound:
  assumes sha: "inj (sha256_hex st)" and r: "0 \<le> aw_random w" and inv: "auth_inv st s" and ch: "channel \<in> {IBM_CLOUD, IBM_QUANTUM_PLATFORM}"
    and e: "execute st w channel key crn public s = (x, s')"
  shows "auth_inv st s'" "x = Inr res \<Longrightarrow> vouched_user st w key crn public s' res"
proof -
  let ?svc = "IBMQuantumPlatform st w key crn"
  have e': "execute_with st channel public ?svc s = (x, s')" using e ch by (simp add: execute_def)
  have local: "channel \<noteq> LOCAL" using ch by auto
  note steps = platform_steps [OF sha r]
  have svc: "sv_authenticate ?svc = platform_authenticate st w key" "sv_verify_access ?svc = platform_verify_access st w key crn"
    "sv_get_groups ?svc = platform_get_groups st w key" "sv_get_account_id ?svc = ip_account_id" "sv_get_plan_id ?svc = ip_plan_id"
    "sv_get_subscription_id ?svc = ip_subscription_id" by (simp_all add: IBMQuantumPlatform_def)
  have ok: "caches_sound st s" "tables_ok s" using inv by (simp_all add: auth_inv_def)
  obtain x1 p1 s1 where a: "platform_authenticate st w key (sv_object ?svc, s) = (x1, p1, s1)" by (metis prod_cases3)
  note A = steps(1) [OF ok(1) a] and A' = ibm_service.authenticate_calls [where st = st and w = w and key = key and crn = crn, unfolded svc, OF a]
  have t1: "tables_ok s1" using ok(2) A' tables_ok_cong [of s1 s] by (simp add: only_calls_def)
  obtain x2 p2 s2 where v: "(if public then (Inr True, p1, s1) else platform_verify_access st w key crn (p1, s1)) = (x2, p2, s2)" by (metis prod_cases3)
  have V: "caches_sound st s2 \<and> tables_ok s2 \<and> set (as_log s1) \<subseteq> set (as_log s2) \<and> ip_account_id p2 = ip_account_id p1 \<and>
      (x2 = Inr True \<longrightarrow> \<not> public \<longrightarrow> (\<exists>plan. vouched s2 (aw_now w) (IAM_CACHE_TTL st) (Instance_of key crn (Some plan, ip_subscription_id p2)) \<and>
        ip_plan_id p2 = Some plan \<and> plan \<in> set (PLANS_ALLOWED st)))"
  proof (cases public)
    case True
    then show ?thesis using v A t1 by auto
  next
    case False
    then have v': "platform_verify_access st w key crn (p1, s1) = (x2, p2, s2)" using v by simp
    have c: "only_calls x2 s1 s2" by (rule ibm_service.verify_calls [where st = st and w = w and key = key and crn = crn, unfolded svc, OF v'])
    then have "tables_ok s2" using t1 tables_ok_cong [of s2 s1] by (simp add: only_calls_def)
    then show ?thesis using steps(2) [OF conjunct1 [OF A] v'] c by (auto simp: only_calls_def)
  qed
  obtain x3 p3 s3 where g: "platform_get_groups st w key (p2, s2) = (x3, p3, s3)" by (metis prod_cases3)
  note G = steps(3) [OF conjunct1 [OF V] g] and G' = ibm_service.groups_calls [where st = st and w = w and key = key and crn = crn, unfolded svc, OF g]
  have t3: "tables_ok s3" using V G' tables_ok_cong [of s3 s2] by (simp add: only_calls_def)
  have l3: "set (as_log s2) \<subseteq> set (as_log s3)" using G' by (auto simp: only_calls_def)
  have eq: "(x, s') = (case x1 of Inl e \<Rightarrow> (Inl e, s1) | Inr name \<Rightarrow> (case x2 of Inl e \<Rightarrow> (Inl e, s2) | Inr verified \<Rightarrow>
      if \<not> verified then (Inl (AuthenticationFailed NOT_ENTITLED), s2) else (case x3 of Inl e \<Rightarrow> (Inl e, s3) | Inr groups \<Rightarrow>
        (case admit st channel name groups s3 of (Inl e, s4) \<Rightarrow> (Inl e, s4) | (Inr u, s4) \<Rightarrow>
          (Inr \<lparr>res_user = u, res_account_id = ip_account_id p1, res_plan_id = ip_plan_id p3, res_subscription_id = ip_subscription_id p3\<rparr>, s4)))))"
    unfolding e' [symmetric] by (simp only: execute_with_def svc a v g prod.case)
  show "auth_inv st s'" "x = Inr res \<Longrightarrow> vouched_user st w key crn public s' res"
  proof (atomize (full), cases x1)
    case (Inl err)
    then show "auth_inv st s' \<and> (x = Inr res \<longrightarrow> vouched_user st w key crn public s' res)"
      using eq A t1 by (auto simp: auth_inv_def)
  next
    case x1: (Inr name)
    show "auth_inv st s' \<and> (x = Inr res \<longrightarrow> vouched_user st w key crn public s' res)"
    proof (cases "\<exists>groups. x2 = Inr True \<and> x3 = Inr groups")
      case False
      then show ?thesis using eq x1 V G t3 by (cases x2; cases x3) (auto simp: auth_inv_def split: if_splits)
    next
      case True
      then obtain groups where x23: "x2 = Inr True" "x3 = Inr groups" by blast
      obtain x4 s4 where d: "admit st channel name groups s3 = (x4, s4)" by force
      note D = admit_facts [OF d t3 local]
      have log4: "as_log s4 = as_log s3" using admit_log [OF d] by simp
      have c4: "caches_sound st s4" by (rule caches_sound_mono [OF conjunct1 [OF G]]) (subst D(2), simp)+
      have s': "s' = s4" using eq x1 x23 by (auto simp: d split: sum.splits)
      have "vouched_user st w key crn public s4 res" if x: "x = Inr res"
      proof -
        obtain u where u: "x4 = Inr u" "res = \<lparr>res_user = u, res_account_id = ip_account_id p1, res_plan_id = ip_plan_id p3, res_subscription_id = ip_subscription_id p3\<rparr>"
          using eq x1 x23 x by (auto simp: d split: sum.splits)
        obtain c account where c: "vouched s1 (aw_now w) (IAM_CACHE_TTL st) (Token_of key c)" "cl_iam_id c = Some name" "cl_account c = Some (Some account)"
          "ip_account_id p1 = Some account" using A x1 by blast
        have p3: "p3 = p2" using G x23 by blast
        obtain ids where ids: "groups = map (\<lambda>i. \<lparr>au_group_name = i, au_account = Some account\<rparr>) ids"
          "vouched s3 (aw_now w) (IAM_CACHE_TTL st) (Groups_of key account ids) \<or> ids = [] \<and> (\<exists>f. aw_groups w key account = Inl f \<and> \<not> transient_failure f)"
          using G x23 V c(4) by auto
        note U = D(3) [OF u(1)]
        have names: "group_names s4 u = set ids" using U ids(1) by (auto simp: image_image)
        have up: "vouched s2 now ttl e \<Longrightarrow> vouched s4 now ttl e" "vouched s1 now ttl e \<Longrightarrow> vouched s4 now ttl e" "vouched s3 now ttl e \<Longrightarrow> vouched s4 now ttl e"
          for now ttl e using V l3 log4 by (auto simp: vouched_def)
        have "vouched s4 (aw_now w) (IAM_CACHE_TTL st) (Token_of key c)" by (rule up(2) [OF c(1)])
        moreover have "(\<exists>ids. vouched s4 (aw_now w) (IAM_CACHE_TTL st) (Groups_of key account ids) \<and> group_names s4 u = set ids) \<or>
            (\<exists>f. aw_groups w key account = Inl f \<and> \<not> transient_failure f \<and> group_names s4 u = {})"
          using ids(2) names up(3) [of "aw_now w" "IAM_CACHE_TTL st" "Groups_of key account ids"] by auto
        moreover have "\<exists>plan. vouched s4 (aw_now w) (IAM_CACHE_TTL st) (Instance_of key crn (Some plan, ip_subscription_id p3)) \<and>
            ip_plan_id p3 = Some plan \<and> plan \<in> set (PLANS_ALLOWED st)" if "\<not> public" using V x23 p3 up(1) that by blast
        ultimately show ?thesis using c(2-4) U unfolding vouched_user_def u(2) authentication_result.select_convs by blast
      qed
      then show ?thesis using s' c4 D(1) by (simp add: auth_inv_def)
    qed
  qed
qed

lemma backend_sound:
  assumes sha: "inj (sha256_hex st)" and r: "0 \<le> aw_random w" and inv: "auth_inv st s" and c: "custom_token_authenticate st w rq s = (x, s')"
  shows "auth_inv st s'"
    "x = Inr (Some (u, a)) \<Longrightarrow> \<exists>res. res_user res = u \<and> ca_account_id a = res_account_id res \<and> ca_plan_id a = res_plan_id res \<and>
       ca_subscription_id a = res_subscription_id res \<and> ca_instance a = service_crn rq \<and> ca_channel a \<noteq> LOCAL \<and>
       (\<exists>h. rq_authorization rq = Some h \<and> ca_token a = bearer h) \<and> (service_crn rq \<noteq> None \<or> is_public_endpoint (rq_path rq)) \<and>
       vouched_user st w (ca_token a) (ca_instance a) (is_public_endpoint (rq_path rq)) s' res \<and>
       (aw_instances_enabled w = Inr False \<and> ca_accessible a = legacy_access \<or>
        (\<exists>crn. ca_instance a = Some crn \<and> vouched s' (aw_now w) (RUNTIME_CACHE_TTL st) (Access_of (ca_token a) crn (ca_accessible a))))"
  (is "_ \<Longrightarrow> ?R")
proof -
  have "auth_inv st s' \<and> (x = Inr (Some (u, a)) \<longrightarrow> ?R)"
    using c
  proof (cases rule: custom_token_cases)
    case 1
    then show ?thesis using inv by auto
  next
    case (2 channel h r1 s1 ac)
    obtain r2 s2 where ac: "ac = (r2, s2)" by force
    note E = ibm_execute_sound [OF sha r inv 2(2,4)]
    have c1: "caches_sound st s1" "tables_ok s1" using E(1) by (simp_all add: auth_inv_def)
    note A = access_sound [OF 2(5) [unfolded ac] c1(1) sha r] and T = access_keeps_tables [OF 2(5) [unfolded ac]]
    obtain n2 where n2: "as_log s2 = as_log s1 @ n2" using access_calls [OF 2(5) [unfolded ac]] by blast
    have inv2: "auth_inv st s2" using A(1) c1(2) T tables_ok_cong [of s2 s1] by (simp add: auth_inv_def)
    have "auth_inv st s'" using 2(6) E(1) inv2 ac by (cases r1) (auto simp: backend_result_def split: sum.splits access_exn.splits)
    moreover have ?R if x: "x = Inr (Some (u, a))"
    proof -
      obtain res far where res: "r1 = Inr res" "r2 = Inr far" "s' = s2" "u = res_user res" "a = \<lparr>ca_channel = channel, ca_token = bearer h, ca_accessible = far,
          ca_instance = service_crn rq, ca_account_id = res_account_id res, ca_plan_id = res_plan_id res, ca_subscription_id = res_subscription_id res\<rparr>"
        using 2(6) x ac by (cases r1) (auto simp: backend_result_def split: sum.splits access_exn.splits)
      have "vouched_user st w (bearer h) (service_crn rq) (is_public_endpoint (rq_path rq)) s2 res"
        by (rule vouched_user_mono [OF E(2) [OF res(1)]]) (use T n2 in auto)
      then show ?thesis using res 2(1-3) A(2) [OF res(2)] by (intro exI [of _ res]) auto
    qed
    ultimately show ?thesis by blast
  qed
  then show "auth_inv st s'" "x = Inr (Some (u, a)) \<Longrightarrow> ?R" by blast+
qed

lemma served_inv:
  assumes "served st s" "inj (sha256_hex st)"
  shows "auth_inv st s"
  using assms(1)
proof induction
  case (start s)
  then show ?case by (simp add: auth_inv_def caches_sound_def remembers_def)
next
  case (request s w rq r s')
  then have "0 \<le> aw_random w" by (simp add: in_unit_def)
  from backend_sound(1) [OF assms(2) this request.IH request.hyps(3)] show ?case .
next
  case (others s s')
  have "caches_sound st s'" by (rule caches_sound_mono [of st s]) (use others in \<open>auto simp: auth_inv_def\<close>)
  then show ?case using others by (simp add: auth_inv_def)
qed

text \<open>
  C11: Nobody is let in without IBM's word. A request that authenticates, whatever was cached before, belongs to an active user of the table; IAM
  answered for its API key, at most one cache life ago, with claims that name this user and the account; the user is in exactly the access groups of
  the account IAM listed for the key, or in none when IAM refused to list them; unless the path is public the request names an instance and the
  Resource Controller gave for it, with this key, a plan that is allowed; what the request may use is what the Runtime API granted the instance,
  or the old rules while the Runtime API is switched off. The local channel never gets in here.
\<close>

theorem admitted_on_ibms_word:
  assumes "served st s" "inj (sha256_hex st)" "in_unit (aw_random w)" "custom_token_authenticate st w rq s = (Inr (Some (u, a)), s')"
  shows "is_active u \<and> u \<in> set (as_users s') \<and> ca_channel a \<noteq> LOCAL \<and> (\<exists>h. rq_authorization rq = Some h \<and> ca_token a = bearer h) \<and>
    (\<exists>c account. vouched s' (aw_now w) (IAM_CACHE_TTL st) (Token_of (ca_token a) c) \<and> cl_iam_id c = Some (username u) \<and>
       cl_account c = Some (Some account) \<and> ca_account_id a = Some account \<and>
       ((\<exists>ids. vouched s' (aw_now w) (IAM_CACHE_TTL st) (Groups_of (ca_token a) account ids) \<and> group_names s' u = set ids) \<or>
        (\<exists>f. aw_groups w (ca_token a) account = Inl f \<and> \<not> transient_failure f \<and> group_names s' u = {}))) \<and>
    (\<not> is_public_endpoint (rq_path rq) \<longrightarrow> (\<exists>crn plan. ca_instance a = Some crn \<and> ca_plan_id a = Some plan \<and> plan \<in> set (PLANS_ALLOWED st) \<and>
       vouched s' (aw_now w) (IAM_CACHE_TTL st) (Instance_of (ca_token a) (Some crn) (Some plan, ca_subscription_id a)))) \<and>
    (aw_instances_enabled w = Inr False \<and> ca_accessible a = legacy_access \<or>
     (\<exists>crn. ca_instance a = Some crn \<and> vouched s' (aw_now w) (RUNTIME_CACHE_TTL st) (Access_of (ca_token a) crn (ca_accessible a))))"
proof -
  have inv: "auth_inv st s" by (rule served_inv [OF assms(1,2)])
  have r: "0 \<le> aw_random w" using assms(3) by (simp add: in_unit_def)
  obtain res where R: "res_user res = u" "ca_account_id a = res_account_id res" "ca_plan_id a = res_plan_id res" "ca_subscription_id a = res_subscription_id res"
      "ca_instance a = service_crn rq" "ca_channel a \<noteq> LOCAL" "\<exists>h. rq_authorization rq = Some h \<and> ca_token a = bearer h"
      "service_crn rq \<noteq> None \<or> is_public_endpoint (rq_path rq)"
      "vouched_user st w (ca_token a) (ca_instance a) (is_public_endpoint (rq_path rq)) s' res"
      "aw_instances_enabled w = Inr False \<and> ca_accessible a = legacy_access \<or>
        (\<exists>crn. ca_instance a = Some crn \<and> vouched s' (aw_now w) (RUNTIME_CACHE_TTL st) (Access_of (ca_token a) crn (ca_accessible a)))"
    using backend_sound(2) [OF assms(2) r inv assms(4) refl] by blast
  note V = R(9) [unfolded vouched_user_def R(1)]
  have "\<exists>crn plan. ca_instance a = Some crn \<and> ca_plan_id a = Some plan \<and> plan \<in> set (PLANS_ALLOWED st) \<and>
       vouched s' (aw_now w) (IAM_CACHE_TTL st) (Instance_of (ca_token a) (Some crn) (Some plan, ca_subscription_id a))" if p: "\<not> is_public_endpoint (rq_path rq)"
  proof -
    obtain crn where "service_crn rq = Some crn" using R(8) p by auto
    then show ?thesis using V p R(3-5) by auto
  qed
  then show ?thesis using V R(2,6,7,10) by metis
qed

section \<open>Paths and hosts\<close>

text \<open>Any path that holds the word is public, also the one of a function whose name holds it, so the plan of its caller is not looked at.\<close>

lemma public_by_name: "is_public_endpoint ''/api/v1/programs/get_by_title/my-swagger-tool/''"
  by code_simp

text \<open>The host a URL names ends at the first slash, question mark or number sign after the scheme.\<close>

definition host_of :: "base_url \<Rightarrow> string" where
  "host_of u = takeWhile (\<lambda>c. c \<notin> set ''/?#'') (url_netloc u)"

text \<open>The region of a CRN is put before the host as it is, so one with a slash in it names another host. The access check of the path runs before.\<close>

lemma region_names_the_host:
  "host_of (regional_base_url \<lparr>url_scheme = ''https'', url_netloc = ''quantum.cloud.ibm.com'', url_path = []\<rparr>
     (Some ''crn:v1:bluemix:public:quantum-computing:evil.example/:a/acc:inst::'') ''us-east'') = ''evil.example''"
  by code_simp

section \<open>An instance\<close>

definition ex_auth_settings :: auth_settings where
  "ex_auth_settings = \<lparr>IAM_BASE_URL = Some ''iam'', IAM_CACHE_TTL = 60, PLANS_ALLOWED = [''plan''],
     RUNTIME_BASE_URL = \<lparr>url_scheme = ''https'', url_netloc = ''quantum'', url_path = []\<rparr>, RUNTIME_DEFAULT_REGION = ''us-east'', RUNTIME_CACHE_TTL = 60,
     MOCK_TOKEN = None, MOCKPROVIDER_REGISTRY = None, sha256_hex = id\<rparr>"

definition ex_auth_world :: auth_world where
  "ex_auth_world = \<lparr>aw_now = 0, aw_random = 0, aw_token = (\<lambda>k. Inr k), aw_signing_key = (\<lambda>_. Inr ''sk''),
     aw_decode = (\<lambda>_ _. Inr \<lparr>cl_iam_id = Some ''me'', cl_account = Some (Some ''acc'')\<rparr>),
     aw_instance = (\<lambda>_ _. Inr \<lparr>ri_plan_id = Some ''plan'', ri_extensions = None\<rparr>),
     aw_groups = (\<lambda>_ _. Inr [\<lparr>ag_id = ''g1'', ag_name = ''Admins''\<rparr>, \<lparr>ag_id = ''g0'', ag_name = ''Public Access''\<rparr>]),
     aw_entitlements = (\<lambda>_ _ _. None), aw_instances_enabled = Inr False\<rparr>"

definition ex_auth_request :: auth_request where
  "ex_auth_request = \<lparr>rq_path = ''/api/v1/jobs/'', rq_crn = Some ''crn'', rq_channel = None, rq_authorization = Some ''Bearer key''\<rparr>"

lemma ex_served: "served ex_auth_settings ex_groups"
  by (rule served.start) (simp_all add: ex_groups_def ex_member_def tables_ok_def)

definition let_in :: "(auth_exn + (user \<times> custom_authentication) option) \<times> auth_state \<Rightarrow> bool" where
  "let_in x = (case x of (Inr (Some _), _) \<Rightarrow> True | _ \<Rightarrow> False)"

theorem admitted_on_ibms_word_witness:
  "\<exists>u a s'. custom_token_authenticate ex_auth_settings ex_auth_world ex_auth_request ex_groups = (Inr (Some (u, a)), s') \<and>
     ca_plan_id a = Some ''plan'' \<and> is_active u"
proof -
  have "let_in (custom_token_authenticate ex_auth_settings ex_auth_world ex_auth_request ex_groups)" by code_simp
  then obtain u a s' where c: "custom_token_authenticate ex_auth_settings ex_auth_world ex_auth_request ex_groups = (Inr (Some (u, a)), s')"
    by (auto simp: let_in_def split: prod.splits sum.splits option.splits)
  have "inj (sha256_hex ex_auth_settings)" "in_unit (aw_random ex_auth_world)" by (simp_all add: ex_auth_settings_def ex_auth_world_def in_unit_def)
  moreover have "\<not> is_public_endpoint (rq_path ex_auth_request)" by code_simp
  ultimately show ?thesis using admitted_on_ibms_word [OF ex_served _ _ c] c by (auto simp: ex_auth_settings_def)
qed

theorem unavailable_iff_outage_witness:
  "fst (custom_token_authenticate ex_auth_settings (ex_auth_world\<lparr>aw_instance := (\<lambda>_ _. Inl (Api_exception (Some 429)))\<rparr>) ex_auth_request ex_groups) = Inl ServiceUnavailable"
proof -
  let ?w = "ex_auth_world\<lparr>aw_instance := (\<lambda>_ _. Inl (Api_exception (Some 429)))\<rparr>"
  obtain r s' where c: "custom_token_authenticate ex_auth_settings ?w ex_auth_request ex_groups = (r, s')" by force
  have "outage (as_log (snd (custom_token_authenticate ex_auth_settings ?w ex_auth_request ex_groups)))" by code_simp
  moreover have "as_log ex_groups = []" by (simp add: ex_groups_def)
  ultimately show ?thesis using unavailable_iff_outage [OF c] c by auto
qed

end
