(* ===== verification/Status_Token.thy ===== *)
theory Status_Token
  imports Authentication_Properties Client_Requests
begin

text \<open>
  The token that lets the author of a job read its status without the API key (\<^verbatim>\<open>api/services/authentication/job_status_token.py\<close>,
  \<^verbatim>\<open>api/v1/views/jobs/status.py\<close>): what the gateway signs when the author retrieves the job, and what it accepts. Django's signing is a
  parameter that keeps a payload and the second of the signature. The last theorem puts the gateway and the client together.
\<close>

section \<open>The gateway\<close>

record token_payload =
  tp_user :: nat
  tp_job :: string

record signer =
  sg_dumps :: "token_payload \<Rightarrow> int \<Rightarrow> string"
  sg_loads :: "string \<Rightarrow> (token_payload \<times> int) option"

definition MAX_AGE_SECONDS :: int where
  "MAX_AGE_SECONDS = 300"

text \<open>The time of a signature is a whole number of seconds; an age counts from there.\<close>

definition issue_job_status_token :: "signer \<Rightarrow> int \<Rightarrow> nat \<Rightarrow> string \<Rightarrow> string" where
  "issue_job_status_token sg now uid jid = sg_dumps sg \<lparr>tp_user = uid, tp_job = jid\<rparr> (now div 1000000)"

definition signing_loads :: "signer \<Rightarrow> int \<Rightarrow> string \<Rightarrow> token_payload option" where
  "signing_loads sg now tok =
     (case sg_loads sg tok of
        None \<Rightarrow> None
      | Some (p, t) \<Rightarrow> if now - seconds t > seconds MAX_AGE_SECONDS then None else Some p)"

definition INVALID_TOKEN :: string where
  "INVALID_TOKEN = ''The job status token is not valid or has expired.''"

definition status_token_authenticate :: "signer \<Rightarrow> user list \<Rightarrow> int \<Rightarrow> string option \<Rightarrow> auth_exn + (user \<times> string) option" where
  "status_token_authenticate sg users now header =
     (if \<not> truthy header then Inr None
      else case signing_loads sg now (the header) of
        None \<Rightarrow> Inl (AuthenticationFailed INVALID_TOKEN)
      | Some p \<Rightarrow>
          (case first_by user_id (filter (\<lambda>u. user_id u = tp_user p \<and> is_active u) users) of
             None \<Rightarrow> Inl (AuthenticationFailed INVALID_TOKEN)
           | Some u \<Rightarrow> Inr (Some (u, tp_job p))))"

definition status_view ::
  "signer \<Rightarrow> user list \<Rightarrow> job list \<Rightarrow> int \<Rightarrow> string option \<Rightarrow> string \<Rightarrow> auth_exn + Status \<times> SubStatus option \<times> string option" where
  "status_view sg users jobs now header jid =
     (case status_token_authenticate sg users now header of
        Inl e \<Rightarrow> Inl e
      | Inr None \<Rightarrow> Inl (AuthenticationFailed ''Authentication credentials were not provided.'')
      | Inr (Some (u, authorized)) \<Rightarrow>
          if authorized \<noteq> jid then Inl (Unhandled (JobNotFoundException jid))
          else (case first_by job_id (filter (\<lambda>j. job_id j = jid \<and> user_id (author j) = user_id u) jobs) of
                  None \<Rightarrow> Inl (Unhandled (JobNotFoundException jid))
                | Some j \<Rightarrow> Inr (status j, sub_status j, fleet_id j)))"

text \<open>The header of the answer of \<open>retrieve\<close>, once the job was found for the user.\<close>

definition retrieve_token :: "signer \<Rightarrow> int \<Rightarrow> user \<Rightarrow> job \<Rightarrow> string option" where
  "retrieve_token sg now u j =
     (if can_get_status_token u j then Some (issue_job_status_token sg now (user_id u) (job_id j)) else None)"

section \<open>What a token opens\<close>

lemma status_view_opens:
  assumes "status_view sg users jobs now header jid = Inr x"
  shows "\<exists>p t u j. header \<noteq> None \<and> sg_loads sg (the header) = Some (p, t) \<and> now - seconds t \<le> seconds 300 \<and> tp_job p = jid \<and>
    u \<in> set users \<and> is_active u \<and> user_id u = tp_user p \<and> j \<in> set jobs \<and> job_id j = jid \<and> user_id (author j) = tp_user p \<and>
    x = (status j, sub_status j, fleet_id j)"
  using assms
  by (auto simp: status_view_def status_token_authenticate_def signing_loads_def MAX_AGE_SECONDS_def truthy_def dest!: first_by_mem
      split: sum.splits option.splits if_splits prod.splits) blast

text \<open>
  C15: A status token the client still sends is one the gateway still takes. When the author retrieves a job, the answer carries a token; the client
  dates it when the answer arrives and sends it for less than 270 seconds from then. As long as the answer and the later request together spend no
  more than 29 seconds on the way, the gateway reads the status of the job for it: signing to the second and the two ways fit into the five minutes
  of the signature. The author must still be active and the job still be the author's.
\<close>

theorem young_token_is_accepted:
  assumes "\<forall>p t. sg_loads sg (sg_dumps sg p t) = Some (p, t) \<and> sg_dumps sg p t \<noteq> []"
    and "retrieve_token sg issued u j = Some tok" "young now since" "since \<le> issued + there" "arrival \<le> now + forth" "there + forth \<le> seconds 29"
    and "v \<in> set users" "user_id v = user_id u" "is_active v"
    and "distinct (map job_id jobs)" "k \<in> set jobs" "job_id k = job_id j" "user_id (author k) = user_id u"
  shows "status_view sg users jobs arrival (Some tok) (job_id j) = Inr (status k, sub_status k, fleet_id k)"
proof -
  have tok: "tok = issue_job_status_token sg issued (user_id u) (job_id j)" using assms(2) by (auto simp: retrieve_token_def split: if_splits)
  have "issued < seconds (issued div 1000000) + 1000000" by (simp add: seconds_def)
  then have "arrival - seconds (issued div 1000000) \<le> seconds 300"
    using assms(3-6) by (simp add: young_def seconds_def STATUS_TOKEN_REUSE_SECONDS_def)
  then have "signing_loads sg arrival tok = Some \<lparr>tp_user = user_id u, tp_job = job_id j\<rparr>"
    using assms(1) by (simp add: signing_loads_def tok issue_job_status_token_def MAX_AGE_SECONDS_def)
  moreover obtain x where x: "first_by user_id (filter (\<lambda>w. user_id w = user_id u \<and> is_active w) users) = Some x"
    using assms(7-9) by (cases "first_by user_id (filter (\<lambda>w. user_id w = user_id u \<and> is_active w) users)") (auto simp: filter_empty_conv)
  moreover have "user_id x = user_id u" using first_by_mem [OF x] by simp
  moreover have "first_by job_id (filter (\<lambda>i. job_id i = job_id j \<and> user_id (author i) = user_id u) jobs) = Some k"
    by (rule first_by_single) (use assms(10-13) in \<open>auto simp: distinct_map inj_on_def\<close>)
  moreover have "tok \<noteq> []" using assms(1) by (simp add: tok issue_job_status_token_def)
  ultimately show ?thesis by (simp add: status_view_def status_token_authenticate_def truthy_def)
qed

text \<open>A signature for the witness: the payload and the second in a text that reads back.\<close>

definition ex_signer :: signer where
  "ex_signer = \<lparr>sg_dumps = (\<lambda>p t. replicate (tp_user p) (CHR ''u'') @ ''.'' @ replicate (nat (2 * abs t + (if t < 0 then 1 else 0))) (CHR ''t'') @ ''.'' @ tp_job p),
     sg_loads = (\<lambda>s. case dropWhile (\<lambda>c. c = CHR ''u'') s of
        [] \<Rightarrow> None
      | _ # r \<Rightarrow> let n = length (takeWhile (\<lambda>c. c = CHR ''t'') r)
                 in Some (\<lparr>tp_user = length (takeWhile (\<lambda>c. c = CHR ''u'') s), tp_job = drop (Suc n) r\<rparr>,
                          if even n then int (n div 2) else - int (n div 2)))\<rparr>"

lemma take_drop_replicate:
  assumes "x \<noteq> y"
  shows "takeWhile (\<lambda>c. c = x) (replicate n x @ y # r) = replicate n x" "dropWhile (\<lambda>c. c = x) (replicate n x @ y # r) = y # r"
  using assms by (induction n) auto

lemma ex_signer_reads_back: "sg_loads ex_signer (sg_dumps ex_signer p t) = Some (p, t) \<and> sg_dumps ex_signer p t \<noteq> []"
proof -
  define n where "n = nat (2 * abs t + (if t < 0 then 1 else 0))"
  have "(even n \<longrightarrow> int (n div 2) = t) \<and> (odd n \<longrightarrow> - int (n div 2) = t)"
  proof (cases "t < 0")
    case True
    then have "n = Suc (2 * nat (- t))" by (simp add: n_def nat_add_distrib nat_mult_distrib)
    then show ?thesis using True by simp
  next
    case False
    then have "n = 2 * nat t" by (simp add: n_def nat_mult_distrib)
    then show ?thesis using False by simp
  qed
  moreover have "sg_dumps ex_signer p t = replicate (tp_user p) (CHR ''u'') @ CHR ''.'' # replicate n (CHR ''t'') @ CHR ''.'' # tp_job p"
    by (simp add: ex_signer_def n_def)
  ultimately show ?thesis by (simp add: ex_signer_def take_drop_replicate Let_def)
qed

definition ex_owner :: user where
  "ex_owner = \<lparr>user_id = 7, username = ''u'', is_active = True, user_groups = []\<rparr>"

theorem young_token_is_accepted_witness:
  "status_view ex_signer [ex_owner] [Job_new ''j'' ex_owner 0] (seconds 280)
     (Some (issue_job_status_token ex_signer 0 7 ''j'')) ''j'' = Inr (QUEUED, None, None)"
proof -
  let ?j = "Job_new ''j'' ex_owner 0"
  have r: "retrieve_token ex_signer 0 ex_owner ?j = Some (issue_job_status_token ex_signer 0 7 ''j'')" by code_simp
  have "young (seconds 275) (seconds 10)" by code_simp
  note accepted = young_token_is_accepted [where there = "seconds 10" and forth = "seconds 5" and v = ex_owner and users = "[ex_owner]" and jobs = "[?j]" and k = ?j
      and sg = ex_signer and arrival = "seconds 280", OF _ r this]
  have "author ?j = ex_owner" "job_id ?j = ''j''" "status ?j = QUEUED" "sub_status ?j = None" "fleet_id ?j = None" "is_active ex_owner" by code_simp+
  then show ?thesis using accepted ex_signer_reads_back by (simp add: seconds_def)
qed

end
