(* ===== verification/File_Storage.thy ===== *)
theory File_Storage
  imports Storage_Paths Fleet_Config "HOL-Library.AList" "HOL-Library.List_Lexorder" "HOL-Library.Char_ord"
begin

text \<open>
  The files of users and providers: the two backends behind \<open>FileStorage\<close> (\<^verbatim>\<open>core/services/storage/file_storage_fleets.py\<close> on Cloud
  Object Storage with its client, \<^verbatim>\<open>file_storage_ray.py\<close> on a file system) and the factory. The content of both stores is the state; which call fails,
  and how, is a parameter.
\<close>

section \<open>The two stores\<close>

text \<open>\<open>ds_objects\<close> maps a bucket and a key to the bytes of an object, \<open>ds_files\<close> the path of a file to its bytes. Directories hold no bytes.\<close>

record data_stores =
  ds_objects :: "((string \<times> string) \<times> string) list"
  ds_files :: "(string \<times> string) list"

datatype store_call = List_keys | Get_object | Put_object | Delete_object | Wait_gone | Write_file | Remove_file

text \<open>A failure is a \<open>ClientError\<close> with its code, or any other exception.\<close>

datatype store_failure = Client_error string | Other_error exn

record store_env =
  se_fails :: "store_call \<Rightarrow> string \<Rightarrow> string \<Rightarrow> store_failure option"
  se_media :: string
  se_mime :: "string \<Rightarrow> string option"

type_synonym 'a store_res = "store_failure + 'a"

definition BUCKET_REQUIRED :: exn where "BUCKET_REQUIRED = ValueError ''bucket_name is required.''"

definition KEY_REQUIRED :: exn where "KEY_REQUIRED = ValueError ''key is required.''"

text \<open>\<open>JobCOS\<close> over \<open>COSClient\<close>: the keys of a bucket under a prefix come sorted.\<close>

definition cos_list_keys :: "store_env \<Rightarrow> string \<Rightarrow> string \<Rightarrow> data_stores \<Rightarrow> string list store_res" where
  "cos_list_keys env b p s =
     (case se_fails env List_keys b p of
        Some f \<Rightarrow> Inl f
      | None \<Rightarrow> Inr (sort (filter (prefix p) (map (snd \<circ> fst) (filter (\<lambda>o'. fst (fst o') = b) (ds_objects s))))))"

definition cos_get_object_bytes :: "store_env \<Rightarrow> string \<Rightarrow> string \<Rightarrow> data_stores \<Rightarrow> string store_res" where
  "cos_get_object_bytes env b k s =
     (if b = [] then Inl (Other_error BUCKET_REQUIRED) else if k = [] then Inl (Other_error KEY_REQUIRED)
      else case se_fails env Get_object b k of
        Some f \<Rightarrow> Inl f
      | None \<Rightarrow> (case map_of (ds_objects s) (b, k) of None \<Rightarrow> Inl (Client_error ''NoSuchKey'') | Some c \<Rightarrow> Inr c))"

definition cos_upload_fileobj :: "store_env \<Rightarrow> string \<Rightarrow> string \<Rightarrow> string \<Rightarrow> data_stores \<Rightarrow> unit store_res \<times> data_stores" where
  "cos_upload_fileobj env content b k s =
     (if b = [] then (Inl (Other_error BUCKET_REQUIRED), s) else if k = [] then (Inl (Other_error KEY_REQUIRED), s)
      else case se_fails env Put_object b k of
        Some f \<Rightarrow> (Inl f, s)
      | None \<Rightarrow> (Inr (), s\<lparr>ds_objects := AList.update (b, k) content (ds_objects s)\<rparr>))"

definition GONE_CODES :: "string list" where
  "GONE_CODES = [''404'', ''NoSuchKey'', ''NotFound'']"

text \<open>Deleting a missing object is a success; so is a waiter that ends with one of the codes of a missing object.\<close>

definition cos_delete_object :: "store_env \<Rightarrow> string \<Rightarrow> string \<Rightarrow> data_stores \<Rightarrow> unit store_res \<times> data_stores" where
  "cos_delete_object env b k s =
     (if b = [] then (Inl (Other_error BUCKET_REQUIRED), s) else if k = [] then (Inl (Other_error KEY_REQUIRED), s)
      else case se_fails env Delete_object b k of
        Some (Client_error code) \<Rightarrow> (if code \<in> set GONE_CODES then Inr () else Inl (Client_error code), s)
      | Some f \<Rightarrow> (Inl f, s)
      | None \<Rightarrow>
          let s' = s\<lparr>ds_objects := AList.delete (b, k) (ds_objects s)\<rparr> in
          (case se_fails env Wait_gone b k of
             Some (Client_error code) \<Rightarrow> (if code \<in> set GONE_CODES then Inr () else Inl (Client_error code), s')
           | Some f \<Rightarrow> (Inl f, s')
           | None \<Rightarrow> (Inr (), s')))"

section \<open>The interface\<close>

text \<open>What a download streams: the chunks, the type and the size.\<close>

type_synonym file_stream = "string list \<times> string option \<times> nat"

record file_storage =
  get_public_files :: "string option \<Rightarrow> data_stores \<Rightarrow> string list res"
  get_private_files :: "data_stores \<Rightarrow> string list option res"
  get_public_file_stream :: "string \<Rightarrow> data_stores \<Rightarrow> file_stream option res"
  get_private_file_stream :: "string \<Rightarrow> data_stores \<Rightarrow> file_stream option res"
  upload_public_file :: "string \<Rightarrow> string \<Rightarrow> string option \<Rightarrow> data_stores \<Rightarrow> string res \<times> data_stores"
  upload_private_file :: "string \<Rightarrow> string \<Rightarrow> data_stores \<Rightarrow> string res \<times> data_stores"
  remove_public_file :: "string \<Rightarrow> string option \<Rightarrow> data_stores \<Rightarrow> bool res \<times> data_stores"
  remove_private_file :: "string \<Rightarrow> data_stores \<Rightarrow> bool res \<times> data_stores"

definition CHUNK_SIZE :: nat where
  "CHUNK_SIZE = 65536"

text \<open>The generator reads chunk after chunk until a read is empty.\<close>

function chunks_of :: "nat \<Rightarrow> string \<Rightarrow> string list" where
  "chunks_of n bs = (if n = 0 \<or> bs = [] then [] else take n bs # chunks_of n (drop n bs))"
  by auto

termination chunks_of
  by (relation "measure (\<lambda>(n, bs). length bs)") auto

declare chunks_of.simps [simp del]

definition basename :: "string \<Rightarrow> string" where
  "basename p = last (split_on (CHR ''/'') p)"

section \<open>FileStorageFleets\<close>

record fleets_files =
  ff_public :: string
  ff_private :: "string option"
  ff_user_bucket :: string
  ff_provider_bucket :: "string option"

definition build_custom_function_paths :: "program \<Rightarrow> string \<Rightarrow> string \<times> string option" where
  "build_custom_function_paths p user = (''users/'' @ user @ ''/custom_functions/'' @ title p @ ''/data'', None)"

definition build_provider_function_paths :: "program \<Rightarrow> provider \<Rightarrow> string \<Rightarrow> string \<times> string option" where
  "build_provider_function_paths p pr user =
     (''users/'' @ user @ ''/provider_functions/'' @ provider_name pr @ ''/'' @ title p @ ''/data'',
      Some (''providers/'' @ provider_name pr @ ''/'' @ title p @ ''/data''))"

definition build_function_paths :: "program \<Rightarrow> string \<Rightarrow> string \<times> string option" where
  "build_function_paths p user =
     (case program_provider p of None \<Rightarrow> build_custom_function_paths p user | Some pr \<Rightarrow> build_provider_function_paths p pr user)"

definition NO_PROJECT :: "program \<Rightarrow> exn" where
  "NO_PROJECT p = ValueError (''Program '' @ quoted (nat_text (program_id p)) @ '' has no CodeEngineProject assigned'')"

definition load_user_bucket :: "program \<Rightarrow> string res" where
  "load_user_bucket p =
     (case program_project p of
        None \<Rightarrow> Inl (NO_PROJECT p)
      | Some cep \<Rightarrow>
          if truthy (cos_bucket_user_data_name cep) then Inr (the (cos_bucket_user_data_name cep))
          else Inl (ValueError (''CodeEngineProject '' @ quoted (project_name cep) @ '' has no cos_bucket_user_data_name configured'')))"

definition load_provider_bucket :: "program \<Rightarrow> string option res" where
  "load_provider_bucket p =
     (case program_project p of
        None \<Rightarrow> Inl (NO_PROJECT p)
      | Some cep \<Rightarrow>
          if program_provider p = None then Inr None
          else if truthy (cos_bucket_provider_data_name cep) then Inr (cos_bucket_provider_data_name cep)
          else Inl (ValueError (''CodeEngineProject '' @ quoted (project_name cep) @ '' has no cos_bucket_provider_data_name configured'')))"

definition fleets_files_init :: "string \<Rightarrow> program \<Rightarrow> fleets_files res" where
  "fleets_files_init user p =
     (case load_user_bucket p of
        Inl e \<Rightarrow> Inl e
      | Inr ub \<Rightarrow>
          (case load_provider_bucket p of
             Inl e \<Rightarrow> Inl e
           | Inr pb \<Rightarrow>
               let paths = build_function_paths p user in
               Inr \<lparr>ff_public = fst paths, ff_private = snd paths, ff_user_bucket = ub, ff_provider_bucket = pb\<rparr>))"

definition INTERNAL_FUNCTION_FILES :: "string list" where
  "INTERNAL_FUNCTION_FILES = [CUSTOM_JOB_WRAPPER_NAME, PROVIDER_JOB_WRAPPER_NAME]"

text \<open>The name of an object below the public folder.\<close>

definition relative_path :: "string \<Rightarrow> string option \<Rightarrow> string" where
  "relative_path name sub =
     (let b = basename (sanitize_file_path name); sp = sanitize_sub_path sub in if sp \<noteq> [] then sp @ ''/'' @ b else b)"

definition listed_prefix :: "string \<Rightarrow> string option \<Rightarrow> string" where
  "listed_prefix folder sub =
     (let sp = sanitize_sub_path sub; f = (if sp \<noteq> [] then folder @ ''/'' @ sp else folder)
      in rev (dropWhile (\<lambda>c. c = CHR ''/'') (rev f)) @ ''/'')"

definition fleets_public_files :: "store_env \<Rightarrow> fleets_files \<Rightarrow> string option \<Rightarrow> data_stores \<Rightarrow> string list res" where
  "fleets_public_files env ff sub s =
     (let p = listed_prefix (ff_public ff) sub in
      case cos_list_keys env (ff_user_bucket ff) p s of
        Inr ks \<Rightarrow> Inr (filter (\<lambda>r. r \<noteq> [] \<and> CHR ''/'' \<notin> set r \<and> r \<notin> set INTERNAL_FUNCTION_FILES) (map (drop (length p)) ks))
      | Inl (Client_error _) \<Rightarrow> Inr []
      | Inl (Other_error e) \<Rightarrow> Inl e)"

definition fleets_private_files :: "store_env \<Rightarrow> fleets_files \<Rightarrow> data_stores \<Rightarrow> string list option res" where
  "fleets_private_files env ff s =
     (if \<not> truthy (ff_private ff) then Inr None
      else case cos_list_keys env (the (ff_provider_bucket ff)) (the (ff_private ff)) s of
        Inr ks \<Rightarrow> Inr (Some (map basename ks))
      | Inl (Client_error _) \<Rightarrow> Inr None
      | Inl (Other_error e) \<Rightarrow> Inl e)"

definition stream_object :: "store_env \<Rightarrow> string \<Rightarrow> string \<Rightarrow> data_stores \<Rightarrow> file_stream option res" where
  "stream_object env b k s =
     (case cos_get_object_bytes env b k s of
        Inr c \<Rightarrow> Inr (Some (chunks_of CHUNK_SIZE c, Some ''application/octet-stream'', length c))
      | Inl (Client_error _) \<Rightarrow> Inr None
      | Inl (Other_error e) \<Rightarrow> Inl e)"

definition fleets_public_stream :: "store_env \<Rightarrow> fleets_files \<Rightarrow> string \<Rightarrow> data_stores \<Rightarrow> file_stream option res" where
  "fleets_public_stream env ff name s = stream_object env (ff_user_bucket ff) (ff_public ff @ ''/'' @ name) s"

definition fleets_private_stream :: "store_env \<Rightarrow> fleets_files \<Rightarrow> string \<Rightarrow> data_stores \<Rightarrow> file_stream option res" where
  "fleets_private_stream env ff name s =
     (if \<not> truthy (ff_private ff) then Inr None
      else stream_object env (the (ff_provider_bucket ff)) (the (ff_private ff) @ ''/'' @ name) s)"

text \<open>A \<open>ClientError\<close> of an upload is raised again.\<close>

definition put_object :: "store_env \<Rightarrow> string \<Rightarrow> string \<Rightarrow> string \<Rightarrow> string \<Rightarrow> data_stores \<Rightarrow> string res \<times> data_stores" where
  "put_object env content b k answer s =
     (case cos_upload_fileobj env content b k s of
        (Inr _, s') \<Rightarrow> (Inr answer, s')
      | (Inl (Client_error code), s') \<Rightarrow> (Inl (OtherException code), s')
      | (Inl (Other_error e), s') \<Rightarrow> (Inl e, s'))"

definition fleets_upload_public :: "store_env \<Rightarrow> fleets_files \<Rightarrow> string \<Rightarrow> string \<Rightarrow> string option \<Rightarrow> data_stores \<Rightarrow> string res \<times> data_stores" where
  "fleets_upload_public env ff name content sub s =
     (let rel = relative_path name sub in put_object env content (ff_user_bucket ff) (ff_public ff @ ''/'' @ rel) rel s)"

definition fleets_upload_private :: "store_env \<Rightarrow> fleets_files \<Rightarrow> string \<Rightarrow> string \<Rightarrow> data_stores \<Rightarrow> string res \<times> data_stores" where
  "fleets_upload_private env ff name content s =
     (if \<not> truthy (ff_private ff) then (Inl (ValueError ''Private folder key is not configured''), s)
      else put_object env content (the (ff_provider_bucket ff)) (the (ff_private ff) @ ''/'' @ name) name s)"

definition remove_object :: "store_env \<Rightarrow> string \<Rightarrow> string \<Rightarrow> data_stores \<Rightarrow> bool res \<times> data_stores" where
  "remove_object env b k s =
     (case cos_delete_object env b k s of
        (Inr _, s') \<Rightarrow> (Inr True, s')
      | (Inl (Client_error _), s') \<Rightarrow> (Inr False, s')
      | (Inl (Other_error e), s') \<Rightarrow> (Inl e, s'))"

definition fleets_remove_public :: "store_env \<Rightarrow> fleets_files \<Rightarrow> string \<Rightarrow> string option \<Rightarrow> data_stores \<Rightarrow> bool res \<times> data_stores" where
  "fleets_remove_public env ff name sub s = remove_object env (ff_user_bucket ff) (ff_public ff @ ''/'' @ relative_path name sub) s"

definition fleets_remove_private :: "store_env \<Rightarrow> fleets_files \<Rightarrow> string \<Rightarrow> data_stores \<Rightarrow> bool res \<times> data_stores" where
  "fleets_remove_private env ff name s =
     (if \<not> truthy (ff_private ff) then (Inr False, s)
      else remove_object env (the (ff_provider_bucket ff)) (the (ff_private ff) @ ''/'' @ name) s)"

definition FileStorageFleets :: "store_env \<Rightarrow> fleets_files \<Rightarrow> file_storage" where
  "FileStorageFleets env ff =
     \<lparr>get_public_files = fleets_public_files env ff, get_private_files = fleets_private_files env ff,
      get_public_file_stream = fleets_public_stream env ff, get_private_file_stream = fleets_private_stream env ff,
      upload_public_file = fleets_upload_public env ff, upload_private_file = fleets_upload_private env ff,
      remove_public_file = fleets_remove_public env ff, remove_private_file = fleets_remove_private env ff\<rparr>"

section \<open>FileStorageRay\<close>

record ray_files =
  rf_public :: string
  rf_private :: "string option"

definition ray_files_init :: "store_env \<Rightarrow> string \<Rightarrow> program \<Rightarrow> ray_files res" where
  "ray_files_init env user p =
     (let pn = map_option provider_name (program_provider p) in
      case absolute_path (se_media env) USER_STORAGE user (title p) pn None of
        Inl e \<Rightarrow> Inl e
      | Inr pub \<Rightarrow>
          if truthy pn
          then (case absolute_path (se_media env) PROVIDER_STORAGE user (title p) pn None of
                  Inl e \<Rightarrow> Inl e
                | Inr priv \<Rightarrow> Inr \<lparr>rf_public = pub, rf_private = Some priv\<rparr>)
          else Inr \<lparr>rf_public = pub, rf_private = None\<rparr>)"

text \<open>\<open>os.path.join\<close> with \<open>None\<close> raises, while the text of \<open>None\<close> is a directory like any other.\<close>

definition NO_FOLDER :: exn where
  "NO_FOLDER = OtherException ''TypeError''"

definition folder_text :: "string option \<Rightarrow> string" where
  "folder_text folder = (case folder of None \<Rightarrow> ''None'' | Some f \<Rightarrow> f)"

definition joined_folder :: "string option \<Rightarrow> string option \<Rightarrow> string option res" where
  "joined_folder folder sub =
     (let sp = sanitize_sub_path sub in
      if sp = [] then Inr folder else case folder of None \<Rightarrow> Inl NO_FOLDER | Some f \<Rightarrow> Inr (Some (path_join f sp)))"

text \<open>\<open>glob\<close> of \<^verbatim>\<open>target/*\<close>, files only: a star matches no leading dot.\<close>

definition glob_files :: "string \<Rightarrow> data_stores \<Rightarrow> string list" where
  "glob_files target s =
     map (drop (length target + 1))
       (filter (\<lambda>f. prefix (target @ ''/'') f \<and> (let n = drop (length target + 1) f in n \<noteq> [] \<and> CHR ''/'' \<notin> set n \<and> hd n \<noteq> CHR ''.''))
         (map fst (ds_files s)))"

definition get_files_in_path :: "string option \<Rightarrow> string option \<Rightarrow> data_stores \<Rightarrow> string list res" where
  "get_files_in_path folder sub s =
     (case joined_folder folder sub of Inl e \<Rightarrow> Inl e | Inr target \<Rightarrow> Inr (map basename (glob_files (folder_text target) s)))"

definition get_file_stream_in_folder :: "store_env \<Rightarrow> string option \<Rightarrow> string \<Rightarrow> data_stores \<Rightarrow> file_stream option res" where
  "get_file_stream_in_folder env folder name s =
     (case folder of
        None \<Rightarrow> Inl NO_FOLDER
      | Some f \<Rightarrow>
          let path = sanitize_file_path (path_join f (basename name)) in
          (case map_of (ds_files s) path of
             None \<Rightarrow> Inr None
           | Some c \<Rightarrow> Inr (Some (chunks_of CHUNK_SIZE c, se_mime env path, length c))))"

definition raised :: "store_failure \<Rightarrow> exn" where
  "raised f = (case f of Client_error code \<Rightarrow> OtherException code | Other_error e \<Rightarrow> e)"

definition upload_file_to_folder :: "store_env \<Rightarrow> string option \<Rightarrow> string \<Rightarrow> string \<Rightarrow> string option \<Rightarrow> data_stores \<Rightarrow> string res \<times> data_stores" where
  "upload_file_to_folder env folder name content sub s =
     (let b = basename (sanitize_file_path name) in
      case joined_folder folder sub of
        Inl e \<Rightarrow> (Inl e, s)
      | Inr None \<Rightarrow> (Inl NO_FOLDER, s)
      | Inr (Some dest) \<Rightarrow>
          let path = sanitize_file_path (path_join dest b) in
          (case se_fails env Write_file dest path of
             Some f \<Rightarrow> (Inl (raised f), s)
           | None \<Rightarrow> (Inr path, s\<lparr>ds_files := AList.update path content (ds_files s)\<rparr>)))"

definition remove_file_from_folder :: "store_env \<Rightarrow> string option \<Rightarrow> string \<Rightarrow> string option \<Rightarrow> data_stores \<Rightarrow> bool res \<times> data_stores" where
  "remove_file_from_folder env folder name sub s =
     (case joined_folder folder sub of
        Inl e \<Rightarrow> (Inl e, s)
      | Inr None \<Rightarrow> (Inl NO_FOLDER, s)
      | Inr (Some dest) \<Rightarrow>
          let path = sanitize_file_path (path_join dest (basename name)) in
          (case se_fails env Remove_file dest path of
             Some f \<Rightarrow> (case raised f of OSError _ \<Rightarrow> Inr False | e \<Rightarrow> Inl e, s)
           | None \<Rightarrow>
               if map_of (ds_files s) path = None then (Inr False, s)
               else (Inr True, s\<lparr>ds_files := AList.delete path (ds_files s)\<rparr>)))"

definition FileStorageRay :: "store_env \<Rightarrow> ray_files \<Rightarrow> file_storage" where
  "FileStorageRay env rf =
     \<lparr>get_public_files = get_files_in_path (Some (rf_public rf)), get_private_files = (\<lambda>s. map_sum id Some (get_files_in_path (rf_private rf) None s)),
      get_public_file_stream = get_file_stream_in_folder env (Some (rf_public rf)), get_private_file_stream = get_file_stream_in_folder env (rf_private rf),
      upload_public_file = upload_file_to_folder env (Some (rf_public rf)),
      upload_private_file = (\<lambda>name content. upload_file_to_folder env (rf_private rf) name content None),
      remove_public_file = remove_file_from_folder env (Some (rf_public rf)), remove_private_file = (\<lambda>name. remove_file_from_folder env (rf_private rf) name None)\<rparr>"

definition get_file_storage :: "store_env \<Rightarrow> string \<Rightarrow> program \<Rightarrow> file_storage res" where
  "get_file_storage env user p =
     (case program_runner p of
        RAY \<Rightarrow> map_sum id (FileStorageRay env) (ray_files_init env user p)
      | FLEETS \<Rightarrow> map_sum id (FileStorageFleets env) (fleets_files_init user p))"

end
