(* ===== verification/File_Contract.thy ===== *)
theory File_Contract
  imports File_Storage
begin

text \<open>
  What both file backends promise. A storage is seen as a map from a sub-directory and a plain name to bytes (\<open>folder_view\<close>); uploading,
  downloading, listing and removing a file are updates and look-ups of that map, for objects in a bucket and for files on disk alike.
\<close>

section \<open>Names\<close>

definition plain :: "string \<Rightarrow> bool" where
  "plain n \<longleftrightarrow> n \<noteq> [] \<and> CHR ''/'' \<notin> set n"

lemma replace2_sep: "y \<noteq> a \<Longrightarrow> y \<noteq> b \<Longrightarrow> replace2 a b c (xs @ y # ys) = replace2 a b c xs @ y # replace2 a b c ys"
  by (induction a b c xs rule: replace2.induct) (cases ys; auto)+

lemma sub_runs_sep: "ok y \<Longrightarrow> sub_runs ok (xs @ y # ys) = sub_runs ok xs @ y # sub_runs ok ys"
proof (induction ok xs rule: sub_runs.induct)
  case (2 ok c cs)
  have "dropWhile (\<lambda>x. \<not> ok x) (cs @ y # ys) = dropWhile (\<lambda>x. \<not> ok x) cs @ y # ys" using 2(3) by (induction cs) auto
  then show ?case using 2 by simp
qed simp

lemma sanitize_file_path_sep: "sanitize_file_path (d @ ''/'' @ n) = sanitize_file_path d @ ''/'' @ sanitize_file_path n"
  by (simp add: sanitize_file_path_def replace2_sep sub_runs_sep)

lemma basename_plain: "CHR ''/'' \<notin> set n \<Longrightarrow> basename n = n"
  by (simp add: basename_def split_on_no_sep)

lemma sanitize_file_name_plain:
  assumes "plain n"
  shows "plain (sanitize_file_name n)" "sanitize_file_path n = sanitize_file_name n" "sanitize_file_path (sanitize_file_name n) = sanitize_file_name n"
    "basename (sanitize_file_path n) = sanitize_file_name n" "basename (sanitize_file_name n) = sanitize_file_name n"
proof -
  have slash: "CHR ''/'' \<notin> set (sanitize_file_name n)"
    using sub_runs_set [of file_char "CHR ''/''" "no_dots n"] char_classes unfolding sanitize_file_name_def by blast
  moreover have "sanitize_file_name n \<noteq> []" using assms by (cases "no_dots n") (auto simp: plain_def sanitize_file_name_def)
  ultimately show "plain (sanitize_file_name n)" by (simp add: plain_def)
  show e: "sanitize_file_path n = sanitize_file_name n" using assms by (simp add: sanitize_file_name_path plain_def)
  show "sanitize_file_path (sanitize_file_name n) = sanitize_file_name n" using sanitize_file_path_idem [of n] by (simp add: e)
  show "basename (sanitize_file_path n) = sanitize_file_name n" "basename (sanitize_file_name n) = sanitize_file_name n"
    using slash by (simp_all add: e basename_plain)
qed

lemma sub_path_clean: "sanitize_file_path (sanitize_sub_path sub) = sanitize_sub_path sub"
proof (cases "sanitize_sub_path sub = []")
  case False
  note p = sanitize_sub_path_parts [OF refl False]
  then show ?thesis by (simp add: sanitize_file_path_def replace2_id sub_runs_id)
qed (simp add: sanitize_file_path_def)

lemma sub_path_ends: "sanitize_sub_path sub \<noteq> [] \<Longrightarrow> last (sanitize_sub_path sub) \<noteq> CHR ''/'' \<and> hd (sanitize_sub_path sub) \<noteq> CHR ''/''"
proof -
  assume ne: "sanitize_sub_path sub \<noteq> []"
  note p = sanitize_sub_path_parts(1) [OF refl ne]
  have "split_on c (xs @ [c]) = split_on c xs @ [[]]" for c xs by (induction xs) (auto split: list.splits)
  then have "[] \<in> set (split_on c (xs @ [c]))" for c xs by simp
  moreover have "[] \<in> set (split_on c (c # xs))" for c xs by simp
  ultimately show ?thesis using p ne by (metis append_butlast_last_id list.collapse)
qed

text \<open>A file's place below a folder.\<close>

definition below :: "string \<times> string \<Rightarrow> string" where
  "below = (\<lambda>(sp, m). if sp = [] then m else sp @ ''/'' @ m)"

lemma last_slash: "CHR ''/'' \<notin> set m \<Longrightarrow> CHR ''/'' \<notin> set m' \<Longrightarrow> a @ CHR ''/'' # m = a' @ CHR ''/'' # m' \<Longrightarrow> a = a' \<and> m = m'"
proof -
  assume m: "CHR ''/'' \<notin> set m" "CHR ''/'' \<notin> set m'" and e: "a @ CHR ''/'' # m = a' @ CHR ''/'' # m'"
  have "rev m @ CHR ''/'' # rev a = rev m' @ CHR ''/'' # rev a'" using arg_cong [OF e, of rev] by simp
  moreover have "takeWhile (\<lambda>c. c \<noteq> CHR ''/'') (rev x @ CHR ''/'' # r) = rev x" if "CHR ''/'' \<notin> set x" for x r
    using that by (subst takeWhile_append2) auto
  ultimately have "rev m = rev m'" using m by metis
  then show ?thesis using e by simp
qed

lemma below_inj: "plain m \<Longrightarrow> plain m' \<Longrightarrow> below (sp, m) = below (sp', m') \<longleftrightarrow> sp = sp' \<and> m = m'"
  using last_slash [of m m' sp sp'] by (auto simp: below_def plain_def split: if_splits)

section \<open>The contract\<close>

definition quiet :: "store_env \<Rightarrow> bool" where
  "quiet env \<longleftrightarrow> (\<forall>op b k. se_fails env op b k = None)"

lemma chunks_whole: "0 < n \<Longrightarrow> concat (chunks_of n bs) = bs"
proof (induction n bs rule: chunks_of.induct)
  case (1 n bs)
  then show ?case by (subst chunks_of.simps) auto
qed

locale file_folder =
  fixes st :: file_storage
    and folder_view :: "data_stores \<Rightarrow> string \<times> string \<Rightarrow> string option"
    and shown :: "string \<Rightarrow> bool"
    and calm :: bool
  assumes view_plain: "folder_view s (sp, m) \<noteq> None \<Longrightarrow> plain m"
    and upload_law: "calm \<Longrightarrow> plain n \<Longrightarrow> upload_public_file st n c sub s = (Inr a, s') \<Longrightarrow>
      folder_view s' = (folder_view s)((sanitize_sub_path sub, sanitize_file_name n) \<mapsto> c)"
    and upload_works: "calm \<Longrightarrow> plain n \<Longrightarrow> \<exists>a s'. upload_public_file st n c sub s = (Inr a, s')"
    and list_law: "calm \<Longrightarrow> \<exists>xs. get_public_files st sub s = Inr xs \<and> set xs = {m. folder_view s (sanitize_sub_path sub, m) \<noteq> None \<and> shown m}"
    and stream_law: "calm \<Longrightarrow> plain m \<Longrightarrow> sanitize_file_name m = m \<Longrightarrow>
      \<exists>ty. get_public_file_stream st m s = Inr (map_option (\<lambda>x. (chunks_of CHUNK_SIZE x, ty, length x)) (folder_view s ([], m)))"
    and remove_law: "calm \<Longrightarrow> plain n \<Longrightarrow> remove_public_file st n sub s = (r, s') \<Longrightarrow>
      \<not> isl r \<and> (folder_view s (sanitize_sub_path sub, sanitize_file_name n) \<noteq> None \<longrightarrow> r = Inr True) \<and>
      folder_view s' = (folder_view s)((sanitize_sub_path sub, sanitize_file_name n) := None)"
begin

text \<open>What was uploaded is what is downloaded, byte for byte, and it is listed where it was put.\<close>

lemma download_stored:
  assumes "calm" "plain n" "folder_view s ([], sanitize_file_name n) = Some c"
  shows "\<exists>cs ty. get_public_file_stream st (sanitize_file_name n) s = Inr (Some (cs, ty, length c)) \<and> concat cs = c"
proof -
  have p: "plain (sanitize_file_name n)" "sanitize_file_name (sanitize_file_name n) = sanitize_file_name n"
    using sanitize_file_name_plain [OF assms(2)] sanitize_file_name_path [of "sanitize_file_name n"] by (auto simp: plain_def)
  have "concat (chunks_of CHUNK_SIZE c) = c" by (rule chunks_whole) (simp add: CHUNK_SIZE_def)
  then show ?thesis using stream_law [OF assms(1) p, of s] assms(3) by auto
qed

text \<open>The life of a file: uploaded, downloaded, listed and removed, with every other file of its directory untouched.\<close>

lemma file_life:
  assumes calm: "calm" and n: "plain n"
  shows "\<exists>a s' s'' xs ys zs. upload_public_file st n c sub s = (Inr a, s') \<and> remove_public_file st n sub s' = (Inr True, s'') \<and>
    (sanitize_sub_path sub = [] \<longrightarrow> (\<exists>cs ty. get_public_file_stream st (sanitize_file_name n) s' = Inr (Some (cs, ty, length c)) \<and> concat cs = c)) \<and>
    (sanitize_sub_path sub = [] \<longrightarrow> get_public_file_stream st (sanitize_file_name n) s'' = Inr None) \<and>
    get_public_files st sub s = Inr xs \<and> get_public_files st sub s' = Inr ys \<and> get_public_files st sub s'' = Inr zs \<and>
    set ys = set xs \<union> (if shown (sanitize_file_name n) then {sanitize_file_name n} else {}) \<and> set zs = set xs - {sanitize_file_name n}"
proof -
  let ?k = "(sanitize_sub_path sub, sanitize_file_name n)"
  obtain a s' where u: "upload_public_file st n c sub s = (Inr a, s')" using upload_works [OF calm n] by blast
  obtain r s'' where d: "remove_public_file st n sub s' = (r, s'')" by fastforce
  note v = upload_law [OF calm n u]
  have w: "r = Inr True" "folder_view s'' = (folder_view s)(?k := None)" using remove_law [OF calm n d] v by auto
  obtain xs ys zs where l: "get_public_files st sub s = Inr xs" "get_public_files st sub s' = Inr ys" "get_public_files st sub s'' = Inr zs"
    and m: "set xs = {m. folder_view s (sanitize_sub_path sub, m) \<noteq> None \<and> shown m}" "set ys = {m. folder_view s' (sanitize_sub_path sub, m) \<noteq> None \<and> shown m}"
      "set zs = {m. folder_view s'' (sanitize_sub_path sub, m) \<noteq> None \<and> shown m}" using list_law [OF calm] by metis
  have "set ys = set xs \<union> (if shown (sanitize_file_name n) then {sanitize_file_name n} else {})" "set zs = set xs - {sanitize_file_name n}"
    unfolding m v w(2) by auto
  moreover have "\<exists>cs ty. get_public_file_stream st (sanitize_file_name n) s' = Inr (Some (cs, ty, length c)) \<and> concat cs = c" if "sanitize_sub_path sub = []"
    by (rule download_stored [OF calm n]) (simp add: v that)
  moreover have "get_public_file_stream st (sanitize_file_name n) s'' = Inr None" if "sanitize_sub_path sub = []"
  proof -
    have p: "plain (sanitize_file_name n)" "sanitize_file_name (sanitize_file_name n) = sanitize_file_name n"
      using sanitize_file_name_plain [OF n] sanitize_file_name_path [of "sanitize_file_name n"] by (auto simp: plain_def)
    show ?thesis using stream_law [OF calm p, of s''] w(2) that by auto
  qed
  ultimately show ?thesis using u d w(1) l by blast
qed

end

section \<open>Objects in a bucket\<close>

definition fleets_view :: "fleets_files \<Rightarrow> data_stores \<Rightarrow> string \<times> string \<Rightarrow> string option" where
  "fleets_view ff s = (\<lambda>(sp, m). if plain m then map_of (ds_objects s) (ff_user_bucket ff, ff_public ff @ ''/'' @ below (sp, m)) else None)"

definition fleets_calm :: "store_env \<Rightarrow> fleets_files \<Rightarrow> bool" where
  "fleets_calm env ff \<longleftrightarrow> quiet env \<and> ff_user_bucket ff \<noteq> [] \<and> ff_public ff \<noteq> [] \<and> last (ff_public ff) \<noteq> CHR ''/''"

lemma relative_path_below: "plain n \<Longrightarrow> relative_path n sub = below (sanitize_sub_path sub, sanitize_file_name n)"
  by (simp add: relative_path_def below_def Let_def sanitize_file_name_plain)

lemma listed_prefix_below:
  assumes "f \<noteq> []" "last f \<noteq> CHR ''/''" "m \<noteq> []"
  shows "listed_prefix f sub @ m = f @ ''/'' @ below (sanitize_sub_path sub, m)"
proof -
  have d: "rev (dropWhile (\<lambda>c. c = CHR ''/'') (rev g)) = g" if "g \<noteq> []" "last g \<noteq> CHR ''/''" for g
    using that by (cases g rule: rev_cases) auto
  have "last (f @ ''/'' @ sanitize_sub_path sub) \<noteq> CHR ''/''" if "sanitize_sub_path sub \<noteq> []" using sub_path_ends [OF that] that by simp
  then show ?thesis using assms d [of f] d [of "f @ ''/'' @ sanitize_sub_path sub"] by (auto simp: listed_prefix_def below_def Let_def)
qed

lemma view_update:
  assumes "plain n"
  shows "(\<lambda>(sp, m). if plain m then ((map_of xs)((b, f @ ''/'' @ below (sp0, n)) := v)) (b, f @ ''/'' @ below (sp, m)) else None) =
    (\<lambda>(sp, m). if plain m then map_of xs (b, f @ ''/'' @ below (sp, m)) else None)((sp0, n) := v)"
  using assms below_inj by (auto simp: fun_eq_iff)

interpretation fleets_folder: file_folder "FileStorageFleets env ff" "fleets_view ff" "\<lambda>m. m \<notin> set INTERNAL_FUNCTION_FILES" "fleets_calm env ff" for env ff
proof
  let ?b = "ff_user_bucket ff" and ?f = "ff_public ff"
  fix s s' sp m n c sub a r
  show "plain m" if "fleets_view ff s (sp, m) \<noteq> None" using that by (auto simp: fleets_view_def split: if_splits)
  show "fleets_view ff s' = (fleets_view ff s)((sanitize_sub_path sub, sanitize_file_name n) \<mapsto> c)"
    if "plain n" "upload_public_file (FileStorageFleets env ff) n c sub s = (Inr a, s')"
  proof -
    have "ds_objects s' = AList.update (?b, ?f @ ''/'' @ below (sanitize_sub_path sub, sanitize_file_name n)) c (ds_objects s)"
      using that by (auto simp: FileStorageFleets_def fleets_upload_public_def put_object_def cos_upload_fileobj_def relative_path_below Let_def
          split: sum.splits store_failure.splits if_splits option.splits)
    then show ?thesis unfolding fleets_view_def by (simp only: update_conv' view_update [OF sanitize_file_name_plain(1) [OF that(1)]])
  qed
  show "\<exists>a s'. upload_public_file (FileStorageFleets env ff) n c sub s = (Inr a, s')" if "fleets_calm env ff" "plain n"
    using that by (auto simp: FileStorageFleets_def fleets_upload_public_def put_object_def cos_upload_fileobj_def fleets_calm_def quiet_def Let_def)
  show "\<exists>xs. get_public_files (FileStorageFleets env ff) sub s = Inr xs \<and> set xs = {m. fleets_view ff s (sanitize_sub_path sub, m) \<noteq> None \<and> m \<notin> set INTERNAL_FUNCTION_FILES}"
    if calm: "fleets_calm env ff"
  proof -
    let ?p = "listed_prefix ?f sub"
    have key: "?p @ m = ?f @ ''/'' @ below (sanitize_sub_path sub, m)" if "plain m" for m
      by (rule listed_prefix_below) (use calm that in \<open>auto simp: fleets_calm_def plain_def\<close>)
    have some: "fleets_view ff s (sanitize_sub_path sub, m) \<noteq> None \<longleftrightarrow> plain m \<and> (?b, ?p @ m) \<in> fst ` set (ds_objects s)" for m
    proof (cases "plain m")
      case True
      show ?thesis using True unfolding fleets_view_def key [OF True] by (simp add: map_of_eq_None_iff del: not_None_eq)
    qed (simp add: fleets_view_def)
    have "set (map (drop (length ?p)) (filter (prefix ?p) (map (snd \<circ> fst) (filter (\<lambda>o'. fst (fst o') = ?b) (ds_objects s))))) =
        {m. (?b, ?p @ m) \<in> fst ` set (ds_objects s)}" (is "?L = ?R")
    proof (intro set_eqI iffI)
      fix m assume "m \<in> ?L"
      then obtain k c where "((?b, k), c) \<in> set (ds_objects s)" "prefix ?p k" "m = drop (length ?p) k" by auto
      then show "m \<in> ?R" by (force simp: prefix_def)
    next
      fix m assume "m \<in> ?R"
      then obtain c where "((?b, ?p @ m), c) \<in> set (ds_objects s)" by auto
      then show "m \<in> ?L" by force
    qed
    then show ?thesis unfolding some using calm by (auto simp: FileStorageFleets_def fleets_public_files_def cos_list_keys_def fleets_calm_def quiet_def plain_def Let_def)
  qed
  show "\<exists>ty. get_public_file_stream (FileStorageFleets env ff) m s = Inr (map_option (\<lambda>x. (chunks_of CHUNK_SIZE x, ty, length x)) (fleets_view ff s ([], m)))"
    if "fleets_calm env ff" "plain m"
    using that by (auto simp: FileStorageFleets_def fleets_public_stream_def stream_object_def cos_get_object_bytes_def fleets_view_def below_def
        fleets_calm_def quiet_def plain_def split: option.splits)
  show "\<not> isl r \<and> (fleets_view ff s (sanitize_sub_path sub, sanitize_file_name n) \<noteq> None \<longrightarrow> r = Inr True) \<and>
      fleets_view ff s' = (fleets_view ff s)((sanitize_sub_path sub, sanitize_file_name n) := None)"
    if "fleets_calm env ff" "plain n" "remove_public_file (FileStorageFleets env ff) n sub s = (r, s')"
  proof -
    have r: "r = Inr True" "ds_objects s' = AList.delete (?b, ?f @ ''/'' @ below (sanitize_sub_path sub, sanitize_file_name n)) (ds_objects s)"
      using that by (auto simp: FileStorageFleets_def fleets_remove_public_def remove_object_def cos_delete_object_def relative_path_below fleets_calm_def quiet_def Let_def)
    then show ?thesis unfolding fleets_view_def by (simp only: delete_conv' view_update [OF sanitize_file_name_plain(1) [OF that(2)]]) simp
  qed
qed

section \<open>Files on disk\<close>

definition ray_view :: "ray_files \<Rightarrow> data_stores \<Rightarrow> string \<times> string \<Rightarrow> string option" where
  "ray_view rf s = (\<lambda>(sp, m). if plain m then map_of (ds_files s) (rf_public rf @ ''/'' @ below (sp, m)) else None)"

definition clean_folder :: "string \<Rightarrow> bool" where
  "clean_folder f \<longleftrightarrow> f \<noteq> [] \<and> last f \<noteq> CHR ''/'' \<and> sanitize_file_path f = f"

definition ray_calm :: "store_env \<Rightarrow> ray_files \<Rightarrow> bool" where
  "ray_calm env rf \<longleftrightarrow> quiet env \<and> clean_folder (rf_public rf)"

lemma path_join_plain: "f \<noteq> [] \<Longrightarrow> last f \<noteq> CHR ''/'' \<Longrightarrow> hd b \<noteq> CHR ''/'' \<Longrightarrow> path_join f b = f @ ''/'' @ b"
  by (cases b) (auto simp: path_join_def)

lemma plain_hd: "plain n \<Longrightarrow> hd n \<noteq> CHR ''/''"
  by (cases n) (auto simp: plain_def)

text \<open>The folder of a sub-directory, and the path of a plain name in it.\<close>

definition dest_folder :: "string \<Rightarrow> string option \<Rightarrow> string" where
  "dest_folder f sub = (let sp = sanitize_sub_path sub in if sp = [] then f else f @ ''/'' @ sp)"

lemma dest_folder_facts:
  assumes "clean_folder f"
  shows "joined_folder (Some f) sub = Inr (Some (dest_folder f sub))" "clean_folder (dest_folder f sub)"
    "dest_folder f sub @ ''/'' @ m = f @ ''/'' @ below (sanitize_sub_path sub, m)"
  using assms sub_path_ends [of sub]
  by (auto simp: joined_folder_def dest_folder_def clean_folder_def below_def Let_def path_join_plain sanitize_file_path_sep [simplified] sub_path_clean)

lemma stored_path:
  assumes "clean_folder d" "plain n"
  shows "sanitize_file_path (path_join d n) = d @ ''/'' @ sanitize_file_name n"
proof -
  have "path_join d n = d @ ''/'' @ n" by (rule path_join_plain) (use assms plain_hd in \<open>auto simp: clean_folder_def\<close>)
  then show ?thesis using assms sanitize_file_path_sep [of d n] sanitize_file_name_plain(2) [OF assms(2)] by (simp add: clean_folder_def)
qed

lemma stored_path_again:
  assumes "clean_folder d" "plain n"
  shows "sanitize_file_path (path_join d (sanitize_file_name n)) = d @ ''/'' @ sanitize_file_name n"
proof -
  note p = sanitize_file_name_plain [OF assms(2)]
  have "path_join d (sanitize_file_name n) = d @ ''/'' @ sanitize_file_name n" by (rule path_join_plain) (use assms plain_hd [OF p(1)] in \<open>auto simp: clean_folder_def\<close>)
  then show ?thesis using assms sanitize_file_path_sep [of d "sanitize_file_name n"] p(3) by (simp add: clean_folder_def)
qed

lemma file_view_update:
  assumes "plain n"
  shows "(\<lambda>(sp, m). if plain m then ((map_of xs)(f @ ''/'' @ below (sp0, n) := v)) (f @ ''/'' @ below (sp, m)) else None) =
    (\<lambda>(sp, m). if plain m then map_of xs (f @ ''/'' @ below (sp, m)) else None)((sp0, n) := v)"
  using assms below_inj by (auto simp: fun_eq_iff)

lemma glob_files_names: "set (map basename (glob_files t s)) = {m. plain m \<and> hd m \<noteq> CHR ''.'' \<and> t @ ''/'' @ m \<in> fst ` set (ds_files s)}" (is "?L = ?R")
proof (intro set_eqI iffI)
  fix m assume "m \<in> ?L"
  then obtain f where f: "f \<in> fst ` set (ds_files s)" "prefix (t @ ''/'') f" "plain (drop (length t + 1) f)" "hd (drop (length t + 1) f) \<noteq> CHR ''.''"
      "m = basename (drop (length t + 1) f)" by (auto simp: glob_files_def plain_def Let_def)
  from f(2) obtain g where g: "f = t @ ''/'' @ g" by (auto simp: prefix_def)
  then show "m \<in> ?R" using f by (simp add: basename_plain plain_def)
next
  fix m assume m: "m \<in> ?R"
  then have "t @ ''/'' @ m \<in> set (map fst (ds_files s))" "drop (length t + 1) (t @ ''/'' @ m) = m" by auto
  then have "m \<in> set (glob_files t s)" using m unfolding glob_files_def by (force simp: plain_def Let_def)
  then show "m \<in> ?L" using m by (force simp: basename_plain plain_def)
qed

interpretation ray_folder: file_folder "FileStorageRay env rf" "ray_view rf" "\<lambda>m. hd m \<noteq> CHR ''.''" "ray_calm env rf" for env rf
proof
  let ?f = "rf_public rf"
  fix s s' sp m n c sub a r
  show "plain m" if "ray_view rf s (sp, m) \<noteq> None" using that by (auto simp: ray_view_def split: if_splits)
  show "ray_view rf s' = (ray_view rf s)((sanitize_sub_path sub, sanitize_file_name n) \<mapsto> c)"
    if "ray_calm env rf" "plain n" "upload_public_file (FileStorageRay env rf) n c sub s = (Inr a, s')"
  proof -
    have cf: "clean_folder ?f" using that(1) by (simp add: ray_calm_def)
    note d = dest_folder_facts [OF cf, of sub]
    have "ds_files s' = AList.update (?f @ ''/'' @ below (sanitize_sub_path sub, sanitize_file_name n)) c (ds_files s)"
      using that(3) d sanitize_file_name_plain(4) [OF that(2)] stored_path_again [OF d(2) that(2)]
      by (auto simp: FileStorageRay_def upload_file_to_folder_def Let_def split: option.splits)
    then show ?thesis unfolding ray_view_def by (simp only: update_conv' file_view_update [OF sanitize_file_name_plain(1) [OF that(2)]])
  qed
  show "\<exists>a s'. upload_public_file (FileStorageRay env rf) n c sub s = (Inr a, s')" if "ray_calm env rf" "plain n"
    using that dest_folder_facts(1) [of ?f sub] by (auto simp: FileStorageRay_def upload_file_to_folder_def ray_calm_def quiet_def Let_def)
  show "\<exists>xs. get_public_files (FileStorageRay env rf) sub s = Inr xs \<and> set xs = {m. ray_view rf s (sanitize_sub_path sub, m) \<noteq> None \<and> hd m \<noteq> CHR ''.''}"
    if "ray_calm env rf"
  proof -
    have cf: "clean_folder ?f" using that by (simp add: ray_calm_def)
    have some: "ray_view rf s (sanitize_sub_path sub, m) \<noteq> None \<longleftrightarrow> plain m \<and> dest_folder ?f sub @ ''/'' @ m \<in> fst ` set (ds_files s)" for m
      unfolding dest_folder_facts(3) [OF cf] ray_view_def by (simp add: map_of_eq_None_iff del: not_None_eq)
    show ?thesis unfolding some using dest_folder_facts(1) [OF cf, of sub] glob_files_names [of "dest_folder ?f sub" s]
      by (auto simp: FileStorageRay_def get_files_in_path_def folder_text_def)
  qed
  show "\<exists>ty. get_public_file_stream (FileStorageRay env rf) m s = Inr (map_option (\<lambda>x. (chunks_of CHUNK_SIZE x, ty, length x)) (ray_view rf s ([], m)))"
    if "ray_calm env rf" "plain m" "sanitize_file_name m = m"
    using that stored_path [of ?f m] by (auto simp: FileStorageRay_def get_file_stream_in_folder_def ray_view_def below_def ray_calm_def basename_plain plain_def Let_def
        split: option.splits)
  show "\<not> isl r \<and> (ray_view rf s (sanitize_sub_path sub, sanitize_file_name n) \<noteq> None \<longrightarrow> r = Inr True) \<and>
      ray_view rf s' = (ray_view rf s)((sanitize_sub_path sub, sanitize_file_name n) := None)"
    if "ray_calm env rf" "plain n" "remove_public_file (FileStorageRay env rf) n sub s = (r, s')"
  proof -
    have cf: "clean_folder ?f" and q: "quiet env" using that(1) by (simp_all add: ray_calm_def)
    note d = dest_folder_facts [OF cf, of sub]
    let ?k = "?f @ ''/'' @ below (sanitize_sub_path sub, sanitize_file_name n)"
    have b: "basename n = n" using that(2) by (simp add: basename_plain plain_def)
    have path: "sanitize_file_path (path_join (dest_folder ?f sub) n) = ?k" using stored_path [OF d(2) that(2)] unfolding d(3) .
    have "(r, s') = (if map_of (ds_files s) ?k = None then (Inr False, s) else (Inr True, s\<lparr>ds_files := AList.delete ?k (ds_files s)\<rparr>))"
      unfolding that(3) [symmetric] using q by (simp add: FileStorageRay_def remove_file_from_folder_def quiet_def Let_def d(1) b path)
    then have r: "\<not> isl r" "map_of (ds_files s) ?k \<noteq> None \<longrightarrow> r = Inr True" "map_of (ds_files s') = (map_of (ds_files s))(?k := None)"
      by (auto simp: delete_conv' fun_upd_idem split: if_splits)
    then show ?thesis unfolding ray_view_def by (simp only: file_view_update [OF sanitize_file_name_plain(1) [OF that(2)]]) simp
  qed
qed

section \<open>The storage of a function\<close>

lemma plain_last: "plain n \<Longrightarrow> n \<noteq> [] \<and> last n \<noteq> CHR ''/''"
  by (cases n rule: rev_cases) (auto simp: plain_def)

lemma clean_path:
  assumes "q \<noteq> []" "last q \<noteq> CHR ''/''"
  shows "clean_folder (sanitize_file_path q)"
proof -
  let ?n = "rev (takeWhile (\<lambda>c. c \<noteq> CHR ''/'') (rev q))" and ?d = "dropWhile (\<lambda>c. c \<noteq> CHR ''/'') (rev q)"
  have split: "q = rev ?d @ ?n" by (metis rev_append rev_rev_ident takeWhile_dropWhile_id)
  have n: "plain ?n" using assms by (cases q rule: rev_cases) (auto simp: plain_def dest: set_takeWhileD)
  have "\<exists>pre. sanitize_file_path q = pre @ sanitize_file_name ?n"
  proof (cases ?d)
    case Nil
    then have "q = ?n" using split by (metis append_Nil rev.simps(1))
    then have "sanitize_file_path q = sanitize_file_name ?n" using sanitize_file_name_plain(2) [OF n] by metis
    then show ?thesis by (intro exI [of _ "[]"]) simp
  next
    case (Cons x xs)
    then have "x = CHR ''/''" using hd_dropWhile [of "\<lambda>c. c \<noteq> CHR ''/''" "rev q"] by simp
    then have "q = rev xs @ ''/'' @ ?n" using split Cons by simp
    then have "sanitize_file_path q = sanitize_file_path (rev xs) @ ''/'' @ sanitize_file_path ?n" using sanitize_file_path_sep by metis
    then show ?thesis using sanitize_file_name_plain(2) [OF n] by simp
  qed
  moreover have "sanitize_file_name ?n \<noteq> []" "last (sanitize_file_name ?n) \<noteq> CHR ''/''"
    using plain_last [OF sanitize_file_name_plain(1) [OF n]] by simp_all
  ultimately show ?thesis by (auto simp: clean_folder_def sanitize_file_path_idem)
qed

lemma path_join_last: "b \<noteq> [] \<Longrightarrow> path_join a b \<noteq> [] \<and> last (path_join a b) = last b"
  by (simp add: path_join_def)

definition plain_names :: "string \<Rightarrow> program \<Rightarrow> bool" where
  "plain_names user p \<longleftrightarrow> plain user \<and> plain (title p) \<and> (case program_provider p of None \<Rightarrow> True | Some pr \<Rightarrow> plain (provider_name pr))"

lemma ray_folder_clean: "ray_files_init env user p = Inr rf \<Longrightarrow> plain_names user p \<Longrightarrow> clean_folder (rf_public rf)"
proof -
  assume i: "ray_files_init env user p = Inr rf" and pn: "plain_names user p"
  let ?q = "case program_provider p of None \<Rightarrow> user | Some pr \<Rightarrow> path_join (path_join user (provider_name pr)) (title p)"
  have "?q \<noteq> [] \<and> last ?q \<noteq> CHR ''/''" using pn plain_last path_join_last by (auto simp: plain_names_def split: option.splits)
  then have "clean_folder (sanitize_file_path ?q)" using clean_path by blast
  then have "clean_folder (sanitize_file_path (path_join (se_media env) (sanitize_file_path ?q)))"
    using clean_path path_join_last by (simp add: clean_folder_def)
  moreover have "rf_public rf = sanitize_file_path (path_join (se_media env) (sanitize_file_path ?q))"
    using i by (auto simp: ray_files_init_def absolute_path_def sub_path_def get_user_sub_path_def Let_def split: option.splits if_splits sum.splits)
  ultimately show ?thesis by simp
qed

lemma fleets_folder_clean: "fleets_files_init user p = Inr ff \<Longrightarrow> quiet env \<Longrightarrow> fleets_calm env ff"
  by (auto simp: fleets_files_init_def fleets_calm_def load_user_bucket_def build_function_paths_def build_custom_function_paths_def
      build_provider_function_paths_def truthy_def Let_def split: option.splits sum.splits if_splits)

lemma storage_cases:
  assumes "get_file_storage env user p = Inr st" "quiet env" "plain_names user p"
  obtains (ray) rf where "program_runner p = RAY" "st = FileStorageRay env rf" "ray_calm env rf"
  | (fleets) ff where "program_runner p = FLEETS" "st = FileStorageFleets env ff" "fleets_calm env ff"
proof (cases "program_runner p")
  case RAY
  then obtain rf where "ray_files_init env user p = Inr rf" "st = FileStorageRay env rf"
    using assms(1) by (auto simp: get_file_storage_def map_sum_def split: sum.splits)
  then show ?thesis using ray [OF RAY] ray_folder_clean assms(2,3) by (simp add: ray_calm_def)
next
  case FLEETS
  then obtain ff where "fleets_files_init user p = Inr ff" "st = FileStorageFleets env ff"
    using assms(1) by (auto simp: get_file_storage_def map_sum_def split: sum.splits)
  then show ?thesis using fleets [OF FLEETS] fleets_folder_clean assms(2) by simp
qed

text \<open>The names a listing leaves out: the wrappers of the job runner for Fleets, dot files for Ray.\<close>

definition unlisted :: "Runner \<Rightarrow> string \<Rightarrow> bool" where
  "unlisted r m \<longleftrightarrow> (case r of FLEETS \<Rightarrow> m \<in> set INTERNAL_FUNCTION_FILES | RAY \<Rightarrow> hd m = CHR ''.'')"



end
