(* ===== verification/File_Use_Cases.thy ===== *)
theory File_Use_Cases
  imports File_Contract Authorization
begin

text \<open>
  The requests on files (\<^verbatim>\<open>api/use_cases/files/*.py\<close>): four on the files of the caller, four on the files of a provider, each behind its permission,
  and the isolation of one user's files from the requests of every other.
\<close>

section \<open>The use cases\<close>

definition PLATFORM_PERMISSION_USER_FILES_READ :: string where "PLATFORM_PERMISSION_USER_FILES_READ = ''function-files.read''"

definition PLATFORM_PERMISSION_USER_FILES_WRITE :: string where "PLATFORM_PERMISSION_USER_FILES_WRITE = ''function-files.write''"

text \<open>\<open>FileNotFoundException()\<close> names no file.\<close>

definition NO_SUCH_FILE :: exn where
  "NO_SUCH_FILE = FileNotFoundException []"

text \<open>The start all requests share: the function under its permission, then the storage of the caller for it.\<close>

definition user_file_storage ::
  "string \<Rightarrow> store_env \<Rightarrow> catalog \<Rightarrow> user \<Rightarrow> string option \<Rightarrow> string \<Rightarrow> function_access_result \<Rightarrow> file_storage res" where
  "user_file_storage perm env cat u pn t far =
     (case get_function_by_permission cat u t pn (Some far) perm (Some RUN_PROGRAM_PERMISSION) of
        None \<Rightarrow> Inl (FunctionNotFoundException t None)
      | Some f \<Rightarrow> get_file_storage env (username u) f)"

definition provider_file_storage ::
  "(catalog \<Rightarrow> user \<Rightarrow> provider option \<Rightarrow> string \<Rightarrow> function_access_result option \<Rightarrow> bool res) \<Rightarrow>
     store_env \<Rightarrow> catalog \<Rightarrow> user \<Rightarrow> string \<Rightarrow> string \<Rightarrow> function_access_result \<Rightarrow> file_storage res" where
  "provider_file_storage policy env cat u pn t far =
     (case get_by_name cat pn of
        None \<Rightarrow> Inl (ProviderNotFoundException pn)
      | Some pr \<Rightarrow>
          (case policy cat u (Some pr) t (Some far) of
             Inl e \<Rightarrow> Inl e
           | Inr False \<Rightarrow> Inl (ProviderNotFoundException pn)
           | Inr True \<Rightarrow>
               (case get_function t (Some pn) (cat_programs cat) of
                  None \<Rightarrow> Inl (FunctionNotFoundException t (Some pn))
                | Some f \<Rightarrow> get_file_storage env (username u) f)))"

text \<open>A missing file is an error of the request.\<close>

definition found :: "'a option res \<Rightarrow> 'a res" where
  "found r = (case r of Inl e \<Rightarrow> Inl e | Inr None \<Rightarrow> Inl NO_SUCH_FILE | Inr (Some x) \<Rightarrow> Inr x)"

definition removed :: "bool res \<times> data_stores \<Rightarrow> unit res \<times> data_stores" where
  "removed = (\<lambda>(r, s). (case r of Inl e \<Rightarrow> Inl e | Inr False \<Rightarrow> Inl NO_SUCH_FILE | Inr True \<Rightarrow> Inr (), s))"

definition FilesListUseCase ::
  "store_env \<Rightarrow> catalog \<Rightarrow> user \<Rightarrow> string option \<Rightarrow> string \<Rightarrow> string option \<Rightarrow> function_access_result \<Rightarrow> data_stores \<Rightarrow> string list res" where
  "FilesListUseCase env cat u pn t sub far s =
     (case user_file_storage PLATFORM_PERMISSION_USER_FILES_READ env cat u pn t far of Inl e \<Rightarrow> Inl e | Inr st \<Rightarrow> get_public_files st sub s)"

definition FilesDownloadUseCase ::
  "store_env \<Rightarrow> catalog \<Rightarrow> user \<Rightarrow> string option \<Rightarrow> string \<Rightarrow> string \<Rightarrow> function_access_result \<Rightarrow> data_stores \<Rightarrow> file_stream res" where
  "FilesDownloadUseCase env cat u pn t n far s =
     (case user_file_storage PLATFORM_PERMISSION_USER_FILES_READ env cat u pn t far of
        Inl e \<Rightarrow> Inl e | Inr st \<Rightarrow> found (get_public_file_stream st n s))"

definition FilesUploadUseCase ::
  "store_env \<Rightarrow> catalog \<Rightarrow> user \<Rightarrow> string option \<Rightarrow> string \<Rightarrow> string \<Rightarrow> string \<Rightarrow> string option \<Rightarrow> function_access_result \<Rightarrow>
     data_stores \<Rightarrow> string res \<times> data_stores" where
  "FilesUploadUseCase env cat u pn t n c sub far s =
     (case user_file_storage PLATFORM_PERMISSION_USER_FILES_WRITE env cat u pn t far of
        Inl e \<Rightarrow> (Inl e, s) | Inr st \<Rightarrow> upload_public_file st n c sub s)"

definition FilesDeleteUseCase ::
  "store_env \<Rightarrow> catalog \<Rightarrow> user \<Rightarrow> string option \<Rightarrow> string \<Rightarrow> string \<Rightarrow> string option \<Rightarrow> function_access_result \<Rightarrow>
     data_stores \<Rightarrow> unit res \<times> data_stores" where
  "FilesDeleteUseCase env cat u pn t n sub far s =
     (case user_file_storage PLATFORM_PERMISSION_USER_FILES_WRITE env cat u pn t far of
        Inl e \<Rightarrow> (Inl e, s) | Inr st \<Rightarrow> removed (remove_public_file st n sub s))"

definition FilesProviderListUseCase ::
  "store_env \<Rightarrow> catalog \<Rightarrow> user \<Rightarrow> string \<Rightarrow> string \<Rightarrow> function_access_result \<Rightarrow> data_stores \<Rightarrow> string list option res" where
  "FilesProviderListUseCase env cat u pn t far s =
     (case provider_file_storage can_read_files env cat u pn t far of Inl e \<Rightarrow> Inl e | Inr st \<Rightarrow> get_private_files st s)"

definition FilesProviderDownloadUseCase ::
  "store_env \<Rightarrow> catalog \<Rightarrow> user \<Rightarrow> string \<Rightarrow> string \<Rightarrow> string \<Rightarrow> function_access_result \<Rightarrow> data_stores \<Rightarrow> file_stream res" where
  "FilesProviderDownloadUseCase env cat u pn t n far s =
     (case provider_file_storage can_read_files env cat u pn t far of
        Inl e \<Rightarrow> Inl e | Inr st \<Rightarrow> found (get_private_file_stream st n s))"

definition FilesProviderUploadUseCase ::
  "store_env \<Rightarrow> catalog \<Rightarrow> user \<Rightarrow> string \<Rightarrow> string \<Rightarrow> string \<Rightarrow> string \<Rightarrow> function_access_result \<Rightarrow> data_stores \<Rightarrow> string res \<times> data_stores" where
  "FilesProviderUploadUseCase env cat u pn t n c far s =
     (case provider_file_storage can_write_files env cat u pn t far of
        Inl e \<Rightarrow> (Inl e, s) | Inr st \<Rightarrow> upload_private_file st n c s)"

definition FilesProviderDeleteUseCase ::
  "store_env \<Rightarrow> catalog \<Rightarrow> user \<Rightarrow> string \<Rightarrow> string \<Rightarrow> string \<Rightarrow> function_access_result \<Rightarrow> data_stores \<Rightarrow> unit res \<times> data_stores" where
  "FilesProviderDeleteUseCase env cat u pn t n far s =
     (case provider_file_storage can_write_files env cat u pn t far of
        Inl e \<Rightarrow> (Inl e, s) | Inr st \<Rightarrow> removed (remove_private_file st n s))"

section \<open>A history of requests\<close>

text \<open>The state after each request that writes, answered or not; the tables may change between two requests.\<close>

inductive file_step :: "store_env \<Rightarrow> user \<Rightarrow> data_stores \<Rightarrow> data_stores \<Rightarrow> bool" for env where
  upload: "FilesUploadUseCase env cat u pn t n c sub far s = (r, s') \<Longrightarrow> file_step env u s s'"
| delete: "FilesDeleteUseCase env cat u pn t n sub far s = (r', s') \<Longrightarrow> file_step env u s s'"
| provider_upload: "FilesProviderUploadUseCase env cat u p t n c far s = (r, s') \<Longrightarrow> file_step env u s s'"
| provider_delete: "FilesProviderDeleteUseCase env cat u p t n far s = (r', s') \<Longrightarrow> file_step env u s s'"

inductive requests_of_others :: "store_env \<Rightarrow> string \<Rightarrow> data_stores \<Rightarrow> data_stores \<Rightarrow> bool" for env w where
  none: "requests_of_others env w s s"
| more: "requests_of_others env w s s' \<Longrightarrow> file_step env u s' s'' \<Longrightarrow> plain (username u) \<Longrightarrow> username u \<noteq> w \<Longrightarrow> requests_of_others env w s s''"

text \<open>What one user's requests may change: objects below the caller's folder or below the folder of a provider.\<close>

definition user_home :: "string \<Rightarrow> string" where
  "user_home w = ''users/'' @ w @ ''/''"

definition confined :: "string \<Rightarrow> data_stores \<Rightarrow> data_stores \<Rightarrow> bool" where
  "confined w s s' \<longleftrightarrow> (distinct (map fst (ds_objects s)) \<longrightarrow> distinct (map fst (ds_objects s'))) \<and>
     (\<forall>b k. map_of (ds_objects s') (b, k) \<noteq> map_of (ds_objects s) (b, k) \<longrightarrow> prefix (user_home w) k \<or> prefix ''providers/'' k)"

lemma confined_refl [simp]: "confined w s s"
  by (simp add: confined_def)

lemma confined_update [simp]:
  "prefix (user_home w) k \<or> prefix ''providers/'' k \<Longrightarrow> confined w s (s\<lparr>ds_objects := AList.update (b, k) c (ds_objects s)\<rparr>)"
  "prefix (user_home w) k \<or> prefix ''providers/'' k \<Longrightarrow> confined w s (s\<lparr>ds_objects := AList.delete (b, k) (ds_objects s)\<rparr>)"
  by (auto simp: confined_def distinct_update update_conv' delete_conv' distinct_delete split: if_splits)

lemma confined_put: "prefix (user_home w) k \<or> prefix ''providers/'' k \<Longrightarrow> confined w s (snd (put_object env c b k a s))"
  by (auto simp: put_object_def cos_upload_fileobj_def split: option.splits store_failure.splits)

lemma confined_remove: "prefix (user_home w) k \<or> prefix ''providers/'' k \<Longrightarrow> confined w s (snd (remove_object env b k s))"
  by (auto simp: remove_object_def cos_delete_object_def Let_def split: option.splits store_failure.splits)

lemma fleets_paths:
  assumes "fleets_files_init w p = Inr ff"
  shows "prefix (user_home w) (ff_public ff @ x)" "truthy (ff_private ff) \<Longrightarrow> prefix ''providers/'' (the (ff_private ff) @ x)"
  using assms by (auto simp: fleets_files_init_def build_function_paths_def build_custom_function_paths_def build_provider_function_paths_def
      user_home_def prefix_def truthy_def Let_def split: option.splits sum.splits)

lemma ray_keeps_objects:
  "ds_objects (snd (upload_file_to_folder env f n c sub s)) = ds_objects s"
  "ds_objects (snd (remove_file_from_folder env f n sub s)) = ds_objects s"
  by (auto simp: upload_file_to_folder_def remove_file_from_folder_def Let_def split: sum.splits option.splits exn.splits)

lemma confined_same: "ds_objects s' = ds_objects s \<Longrightarrow> confined w s s'"
  by (simp add: confined_def)

text \<open>Each writing call of the storage of a user is confined.\<close>

lemma storage_confined:
  assumes "get_file_storage env w p = Inr st"
  shows "confined w s (snd (upload_public_file st n c sub s))" "confined w s (snd (remove_public_file st n sub s))"
    "confined w s (snd (upload_private_file st n c s))" "confined w s (snd (remove_private_file st n s))"
proof -
  have "confined w s (snd (upload_public_file st n c sub s)) \<and> confined w s (snd (remove_public_file st n sub s)) \<and>
    confined w s (snd (upload_private_file st n c s)) \<and> confined w s (snd (remove_private_file st n s))"
  proof (cases "program_runner p")
    case RAY
    then obtain rf where "st = FileStorageRay env rf" using assms by (auto simp: get_file_storage_def map_sum_def split: sum.splits)
    then show ?thesis by (simp add: FileStorageRay_def confined_same ray_keeps_objects)
  next
    case FLEETS
    then obtain ff where ff: "fleets_files_init w p = Inr ff" "st = FileStorageFleets env ff"
      using assms by (auto simp: get_file_storage_def map_sum_def split: sum.splits)
    note paths = fleets_paths [OF ff(1)]
    show ?thesis unfolding ff(2) using paths
      by (auto simp: FileStorageFleets_def fleets_upload_public_def fleets_remove_public_def fleets_upload_private_def fleets_remove_private_def Let_def
          intro!: confined_put confined_remove)
  qed
  then show "confined w s (snd (upload_public_file st n c sub s))" "confined w s (snd (remove_public_file st n sub s))"
    "confined w s (snd (upload_private_file st n c s))" "confined w s (snd (remove_private_file st n s))" by auto
qed

lemma removed_state [simp]: "snd (removed x) = snd x"
  by (cases x) (simp add: removed_def)

lemma user_file_storageD: "user_file_storage perm env cat u pn t far = Inr st \<Longrightarrow>
  \<exists>p. get_function_by_permission cat u t pn (Some far) perm (Some RUN_PROGRAM_PERMISSION) = Some p \<and> get_file_storage env (username u) p = Inr st"
  by (auto simp: user_file_storage_def split: option.splits)

lemma provider_file_storageD: "provider_file_storage policy env cat u pn t far = Inr st \<Longrightarrow>
  \<exists>pr p. get_by_name cat pn = Some pr \<and> policy cat u (Some pr) t (Some far) = Inr True \<and> get_file_storage env (username u) p = Inr st"
  by (auto simp: provider_file_storage_def split: option.splits sum.splits bool.splits)

lemma file_step_confined: "file_step env u s s' \<Longrightarrow> confined (username u) s s'"
proof (induction rule: file_step.induct)
  case (upload cat u pn t n c sub far s r s')
  then have "s' = snd (FilesUploadUseCase env cat u pn t n c sub far s)" by simp
  then show ?case using storage_confined by (auto simp: FilesUploadUseCase_def split: sum.splits dest!: user_file_storageD)
next
  case (delete cat u pn t n sub far s r' s')
  then have "s' = snd (FilesDeleteUseCase env cat u pn t n sub far s)" by simp
  then show ?case using storage_confined by (auto simp: FilesDeleteUseCase_def split: sum.splits dest!: user_file_storageD)
next
  case (provider_upload cat u p t n c far s r s')
  then have "s' = snd (FilesProviderUploadUseCase env cat u p t n c far s)" by simp
  then show ?case using storage_confined by (auto simp: FilesProviderUploadUseCase_def split: sum.splits dest!: provider_file_storageD)
next
  case (provider_delete cat u p t n far s r' s')
  then have "s' = snd (FilesProviderDeleteUseCase env cat u p t n far s)" by simp
  then show ?case using storage_confined by (auto simp: FilesProviderDeleteUseCase_def split: sum.splits dest!: provider_file_storageD)
qed

section \<open>Isolation\<close>

lemma homes_apart:
  assumes "plain v" "plain w" "v \<noteq> w" "prefix (user_home w) k"
  shows "\<not> prefix (user_home v) k" "\<not> prefix ''providers/'' k"
proof -
  have first: "takeWhile (\<lambda>c. c \<noteq> CHR ''/'') (x @ ''/'' @ r) = x" if "plain x" for x r using that by (subst takeWhile_append2) (auto simp: plain_def)
  have "v = w" if "v @ ''/'' @ a = w @ ''/'' @ b" for a b using that first [OF assms(1), of a] first [OF assms(2), of b] by metis
  then show "\<not> prefix (user_home v) k" using assms(3,4) by (auto simp: user_home_def prefix_def dest: sym)
  show "\<not> prefix ''providers/'' k" using assms(4) by (auto simp: user_home_def prefix_def)
qed

text \<open>Two stores look alike to a user when they hold the same objects below that user's folder.\<close>

definition same_home :: "string \<Rightarrow> data_stores \<Rightarrow> data_stores \<Rightarrow> bool" where
  "same_home w s s' \<longleftrightarrow> distinct (map fst (ds_objects s)) \<and> distinct (map fst (ds_objects s')) \<and>
     (\<forall>b k. prefix (user_home w) k \<longrightarrow> map_of (ds_objects s') (b, k) = map_of (ds_objects s) (b, k))"

lemma others_keep_home:
  "requests_of_others env w s s' \<Longrightarrow> plain w \<Longrightarrow> distinct (map fst (ds_objects s)) \<Longrightarrow> same_home w s s'"
proof (induction rule: requests_of_others.induct)
  case (more s s' u s'')
  have c: "confined (username u) s' s''" using file_step_confined [OF more(2)] .
  have "map_of (ds_objects s'') (b, k) = map_of (ds_objects s') (b, k)" if "prefix (user_home w) k" for b k
    using c homes_apart [OF more(3) more.prems(1) more(4) that] unfolding confined_def by blast
  then show ?case using more c by (simp add: same_home_def confined_def)
qed (simp add: same_home_def)

lemma same_home_keys:
  assumes "same_home w s s'" "prefix (user_home w) p"
  shows "cos_list_keys env b p s' = cos_list_keys env b p s"
proof (cases "se_fails env List_keys b p")
  case None
  let ?keys = "\<lambda>s. filter (prefix p) (map (snd \<circ> fst) (filter (\<lambda>o'. fst (fst o') = b) (ds_objects s)))"
  have dist: "distinct (?keys s)" if "distinct (map fst (ds_objects s))" for s
  proof -
    have "inj_on snd (fst ` set (filter (\<lambda>o'. fst (fst o') = b) (ds_objects s)))" by (auto simp: inj_on_def)
    moreover have "distinct (map fst (filter (\<lambda>o'. fst (fst o') = b) (ds_objects s)))" using that by (rule distinct_map_filter)
    ultimately have "distinct (map snd (map fst (filter (\<lambda>o'. fst (fst o') = b) (ds_objects s))))" by (simp add: distinct_map comp_inj_on_iff)
    then show ?thesis by (simp add: comp_def)
  qed
  have keys: "set (?keys s) = {k. prefix p k \<and> map_of (ds_objects s) (b, k) \<noteq> None}" for s
    by (force simp: map_of_eq_None_iff simp del: not_None_eq)
  have "prefix (user_home w) k" if "prefix p k" for k using assms(2) that by (rule prefix_order.trans)
  then have "set (?keys s') = set (?keys s)" unfolding keys using assms(1) unfolding same_home_def by (metis (no_types, lifting))
  moreover have "distinct (?keys s)" "distinct (?keys s')" using assms(1) by (intro dist, simp add: same_home_def)+
  ultimately have "sort (?keys s') = sort (?keys s)" by (metis distinct_sort set_sort sorted_distinct_set_unique sorted_sort)
  then show ?thesis using None by (simp add: cos_list_keys_def)
qed (simp add: cos_list_keys_def)

text \<open>The answers of a user's storage on Fleets depend on that user's objects alone.\<close>

lemma same_home_answers:
  assumes "get_file_storage env w p = Inr st" "program_runner p = FLEETS" "same_home w s s'"
  shows "get_public_files st sub s' = get_public_files st sub s" "get_public_file_stream st n s' = get_public_file_stream st n s"
proof -
  obtain ff where ff: "fleets_files_init w p = Inr ff" "st = FileStorageFleets env ff"
    using assms(1,2) by (auto simp: get_file_storage_def map_sum_def split: sum.splits)
  have last: "ff_public ff \<noteq> []" "last (ff_public ff) \<noteq> CHR ''/''"
    using ff(1) by (auto simp: fleets_files_init_def build_function_paths_def build_custom_function_paths_def build_provider_function_paths_def Let_def
        split: option.splits sum.splits)
  obtain q where "below (sanitize_sub_path sub, ''x'') = q @ ''x''" by (cases "sanitize_sub_path sub = []") (auto simp: below_def)
  then have "listed_prefix (ff_public ff) sub = ff_public ff @ ''/'' @ q" using listed_prefix_below [OF last, of "''x''" sub] by simp
  then have "prefix (user_home w) (listed_prefix (ff_public ff) sub)" using fleets_paths(1) [OF ff(1)] by simp
  then show "get_public_files st sub s' = get_public_files st sub s"
    using same_home_keys [OF assms(3)] by (simp add: ff(2) FileStorageFleets_def fleets_public_files_def Let_def)
  have "map_of (ds_objects s') (ff_user_bucket ff, ff_public ff @ ''/'' @ n) = map_of (ds_objects s) (ff_user_bucket ff, ff_public ff @ ''/'' @ n)"
    using assms(3) fleets_paths(1) [OF ff(1)] by (simp add: same_home_def)
  then show "get_public_file_stream st n s' = get_public_file_stream st n s"
    by (simp add: ff(2) FileStorageFleets_def fleets_public_stream_def stream_object_def cos_get_object_bytes_def split: option.splits)
qed

text \<open>
  C13: The files of a user on Fleets are isolated. Whatever other users upload and delete, in their own folders or in the folders of providers, answered or
  refused, with any names and sub-directories, and however calls to the store fail: what the user lists and what the user downloads afterwards is what it
  was before.
\<close>

theorem files_are_isolated:
  assumes "requests_of_others env (username u) s s'" "plain (username u)" "distinct (map fst (ds_objects s))"
    "\<And>p. get_function_by_permission cat u t pn (Some far) PLATFORM_PERMISSION_USER_FILES_READ (Some RUN_PROGRAM_PERMISSION) = Some p \<Longrightarrow>
      program_runner p = FLEETS"
  shows "FilesListUseCase env cat u pn t sub far s' = FilesListUseCase env cat u pn t sub far s \<and>
    FilesDownloadUseCase env cat u pn t n far s' = FilesDownloadUseCase env cat u pn t n far s"
proof (cases "user_file_storage PLATFORM_PERMISSION_USER_FILES_READ env cat u pn t far")
  case (Inr st)
  then obtain p where p: "get_file_storage env (username u) p = Inr st" "program_runner p = FLEETS" using user_file_storageD assms(4) by blast
  note same_home_answers [OF p others_keep_home [OF assms(1-3)]]
  then show ?thesis by (simp add: FilesListUseCase_def FilesDownloadUseCase_def Inr)
qed (simp add: FilesListUseCase_def FilesDownloadUseCase_def)

text \<open>A custom function on Fleets, and what its author keeps in the bucket.\<close>

definition ex_file_function :: program where
  "ex_file_function = ex_function\<lparr>program_runner := FLEETS, program_author := ex_user, program_provider := None,
     program_project := Some \<lparr>cep_id = 1, project_id = ''i'', project_name = ''p'', cep_region = ''us-east'', cos_bucket_task_store_name = None,
       cos_bucket_user_data_name = Some ''b'', cos_bucket_provider_data_name = None, cep_active = True, cep_dedicated = False\<rparr>\<rparr>"

definition ex_store_env :: store_env where
  "ex_store_env = \<lparr>se_fails = (\<lambda>_ _ _. None), se_media = ''/media'', se_mime = (\<lambda>_. None)\<rparr>"

definition ex_stores :: data_stores where
  "ex_stores = \<lparr>ds_objects = [((''b'', ''users/u/custom_functions/f/data/a.txt''), ''A'')], ds_files = []\<rparr>"

definition ex_files_catalog :: catalog where
  "ex_files_catalog = ex_catalog\<lparr>cat_programs := [ex_file_function]\<rparr>"

theorem files_are_isolated_witness:
  "\<exists>s'. requests_of_others ex_store_env ''u'' ex_stores s' \<and> ds_objects s' \<noteq> ds_objects ex_stores \<and>
     FilesListUseCase ex_store_env ex_files_catalog ex_user None ''f'' None ex_access s' = Inr [''a.txt'']"
proof -
  define v where "v = ex_user\<lparr>user_id := 5, username := ''v''\<rparr>"
  define cat where "cat = ex_catalog\<lparr>cat_programs := [ex_file_function\<lparr>program_author := v\<rparr>]\<rparr>"
  define s' where "s' = snd (FilesUploadUseCase ex_store_env cat v None ''f'' ''a.txt'' ''B'' (Some ''../u'') ex_access ex_stores)"
  have step: "file_step ex_store_env v ex_stores s'" unfolding s'_def by (rule file_step.upload [OF prod.collapse [symmetric]])
  have others: "requests_of_others ex_store_env (username ex_user) ex_stores s'"
    by (rule requests_of_others.more [OF requests_of_others.none step]) (simp_all add: v_def ex_user_def plain_def)
  have "FilesListUseCase ex_store_env ex_files_catalog ex_user None ''f'' None ex_access s' = FilesListUseCase ex_store_env ex_files_catalog ex_user None ''f'' None ex_access ex_stores"
  proof (rule files_are_isolated [OF others, THEN conjunct1])
    show "plain (username ex_user)" by (simp add: ex_user_def plain_def)
    show "distinct (map fst (ds_objects ex_stores))" by (simp add: ex_stores_def)
    fix p assume "get_function_by_permission ex_files_catalog ex_user ''f'' None (Some ex_access) PLATFORM_PERMISSION_USER_FILES_READ (Some RUN_PROGRAM_PERMISSION) = Some p"
    then have "p \<in> set (cat_programs ex_files_catalog)"
      by (auto simp: get_function_by_permission_def get_function_def user_functions_def truthy_def Let_def dest!: first_by_mem)
    then show "program_runner p = FLEETS" by (simp add: ex_files_catalog_def ex_file_function_def)
  qed
  moreover have "FilesListUseCase ex_store_env ex_files_catalog ex_user None ''f'' None ex_access ex_stores = Inr [''a.txt'']" by code_simp
  moreover have "ds_objects s' \<noteq> ds_objects ex_stores" unfolding s'_def cat_def v_def by code_simp
  ultimately show ?thesis using others by (auto simp: ex_user_def)
qed

end
