(* ===== verification/Spec2Isabelle.thy ===== *)
theory Spec2Isabelle
  imports Config_Store Crn Billing_Events Executor_Invariants Circuit_Breaker Job_Properties Outbox_Properties
    Fair_Share Scheduler_Loop Job_Use_Cases Listings Arguments_Schema Storage_Paths Run_Function Upload_Function Blocked_Events Ray_Logs Ray_Tasks Metric_Tasks Fleets_Runner
    Upload_Request Job_Timeline Status_Token File_Use_Cases
begin

text \<open>
  A verification development of Qiskit Serverless: the gateway that serves the API (\<^verbatim>\<open>src/gateway/api\<close>), the scheduler that moves the
  jobs (\<^verbatim>\<open>src/gateway/scheduler\<close>), the core they share (\<^verbatim>\<open>src/gateway/core\<close>) and the client library (\<^verbatim>\<open>src/client\<close>). Every definition
  translates the Python code named in the theory that holds it.

  \<^bold>\<open>The program.\<close> A user uploads a function and runs it; the run stores a job in state QUEUED. The scheduler is one loop over a list of tasks:
  it takes queued jobs by fair share and hands them to a runner (Ray on Kubernetes, or Fleets on IBM Code Engine), reads their status back,
  stops the jobs of blocked accounts, frees clusters and fleets, keeps a number of filler jobs, and delivers the outbox: the messages about
  billing and usage that a job owes once it ended. Every change of a Fleets job's status goes through \<open>JobTransitionService\<close>, which locks the row,
  checks the table of transitions, and writes the status, its event and the owed messages in one transaction. The client library sends the
  requests, waits for a job and reads its result.

  \<^bold>\<open>Conventions.\<close> A table is the list of its rows, a foreign key is the row it joins, a dictionary is an association list in insertion
  order. A moment is an integer number of microseconds and a text a list of ASCII characters. What may raise returns a sum, with the exception on
  the left; \<open>transaction.atomic\<close> restores the database on an exception. An instance of a job in memory may be older than its row: an
  operation takes both, and concurrency is the order of the atomic calls together with the age of the instances. The answers of code
  outside the repository (Kubernetes, Ray, Code Engine, COS, Kafka, the Runtime API, the HTTP and JSON libraries, jsonschema, packaging, the operating system)
  and the clock are arguments of the definitions that use them, mostly in a record of the environment; Prometheus metrics are a log or are left out.

  \<^bold>\<open>Foundations.\<close>
  \<^item> \<open>Prelude\<close>, \<open>Python_Text\<close>: exceptions, results, tables, the operations of Python on text and numbers, and the collections \<open>status_simps\<close>,
    \<open>frame_simps\<close> and \<open>effect_simps\<close> the component proofs share.
  \<^item> \<open>Models\<close> (\<^verbatim>\<open>core/models.py\<close>), \<open>Job_Events\<close> (\<^verbatim>\<open>core/model_managers/job_events.py\<close>), \<open>Config_Store\<close> (\<open>Config\<close>, \<open>ConfigKey\<close>), \<open>Crn\<close>,
    \<open>Billing_Events\<close>, \<open>Workload_Payload\<close>: rows, the history of a job, the cached configuration, the messages.

  \<^bold>\<open>The life of a job.\<close>
  \<^item> \<open>Job_Transitions\<close> translates every method of \<open>JobTransitionService\<close>. \<open>Job_Lifecycle\<close> states the contract all methods refine (the locale
    \<open>transition_method\<close>) and the relation of what the writers of the database do; its invariants hold in every reachable database. \<open>Job_Properties\<close>
    proves that the history is a path of the table of transitions with one end, that an end is final, what each end owes and when it
    returns, and that \<open>stop\<close> never loses a fleet.
  \<^item> \<open>Background_Executor\<close> and \<open>Executor_Invariants\<close>: the thread pool as atomic steps under its lock, with accounting and bounds over every
    interleaving. \<open>Workload_Mirror\<close> sends the intermediate statuses through it (locale \<open>replacing_pool\<close>).
  \<^item> \<open>Outbox_Delivery\<close> and \<open>Outbox_Properties\<close>: draining the outbox per channel and region (locale \<open>batch_sender\<close>): a row disappears only when it was
    taken, each row is tried at most once in a tick, and a tick ends.

  \<^bold>\<open>The scheduler.\<close>
  \<^item> \<open>Circuit_Breaker\<close>, \<open>Fair_Share\<close>, \<open>Fleets_Operations\<close> (\<^verbatim>\<open>scheduler/schedule.py\<close>): breakers per region, the choice of jobs, and submitting,
    cancelling and deleting behind the breakers. \<open>Fleets_Tasks\<close>, \<open>Fleets_Cleanup\<close>, \<open>Filler_Balance\<close>: the tasks on Fleets jobs.
    \<open>Fleets_Refinement\<close> (locale \<open>lifecycle_op\<close>) shows that each operation is made of steps of the life cycle; \<open>Fleets_Properties\<close> what a submission
    leaves behind and that a stopping job ends.
  \<^item> \<open>Ray_Tasks\<close>, \<open>Ray_Logs\<close>: clusters, status and logs of Ray jobs. \<open>Blocked_Events\<close>: the Kafka consumer and the set of blocked
    accounts, which mirrors an ideal set (locale \<open>last_writer\<close>). \<open>Metric_Tasks\<close>: the gauges.
  \<^item> \<open>Scheduler_Loop\<close> (\<^verbatim>\<open>scheduler/main.py\<close>): the loop over all tasks in their order refines the life cycle, so the invariants hold
    whatever the tasks do, and it shuts down in order.
  \<^item> \<open>Fleet_Config\<close>, \<open>Fleet_Handler\<close>, \<open>Fleets_Runner\<close>: compute profiles, names, paths, mounts and variables of a fleet, the calls of Code Engine,
    and the runner: what a submission stores and where, that submitting again makes no second fleet, that a running fleet is not deleted.

  \<^bold>\<open>The API.\<close>
  \<^item> \<open>Authorization\<close> (access policies and query sets), \<open>Listings\<close>, \<open>Job_Use_Cases\<close>: what a user may see and do; a job of somebody else is
    missing to every operation. \<open>Run_Function\<close>: the gates of a run and its transaction. \<open>Upload_Request\<close> and \<open>Upload_Function\<close>: what a request must
    satisfy and what the upload leaves in the catalog.
  \<^item> \<open>Authentication\<close>, \<open>User_Groups\<close>, \<open>Authentication_Properties\<close>, \<open>Status_Token\<close> (\<^verbatim>\<open>api/authentication.py\<close>, \<^verbatim>\<open>api/use_cases/authentication.py\<close>,
    \<^verbatim>\<open>api/services/authentication\<close>, \<^verbatim>\<open>api/clients/function_access_client.py\<close>): who a request comes from. The locale \<open>authentication_service\<close>
    is \<open>AuthenticationBase\<close>, interpreted for IBM's platform and for the local one. Nobody gets in without an answer of IBM's services that is
    younger than the life of the cache, 503 means an outage, the groups of a user follow the service, and a status token the client still sends is taken.
  \<^item> \<open>File_Storage\<close>, \<open>File_Contract\<close>, \<open>File_Use_Cases\<close> (\<^verbatim>\<open>core/services/storage/file_storage_*.py\<close>, \<^verbatim>\<open>api/use_cases/files\<close>): the files of users and
    providers. Both backends refine one map from directories and names to bytes (locale \<open>file_folder\<close>), so an uploaded file comes back
    unchanged; requests of others change nothing a user sees.
  \<^item> \<open>Json_Documents\<close>, \<open>Arguments_Schema\<close>, \<open>Isolation\<close>: the schema of the arguments, its limits and references, and the forked child that
    evaluates it. \<open>Storage_Paths\<close>: sanitised names and the paths made of them. \<open>Job_Timeline\<close>: the numbers behind the timeline page.

  \<^bold>\<open>The client.\<close>
  \<^item> \<open>Client_Requests\<close>: answers and errors, status tokens. \<open>Client_Wait\<close>: the wait with its back-off, which ends by its timeout and sees the
    end of the job. \<open>Client_Library\<close>: results, titles, schemas, logs, profiles, dependencies, and the checks before a run.

  \<^bold>\<open>Fuel and bounds.\<close> Loops that only the outside world ends take fuel, or are partial functions into an option (the main loop, which
  returns once the kill signal is read as received). A tick of the outbox that lasts under a second has enough with one unit per row and two
  more; the pages of a list of fleets need one unit per page the service can name and two more, since a repeated page ends the list; a wait
  needs one unit per 0.9 seconds of its timeout and two more, because 0.9 seconds is the shortest pause. Each theorem that such a loop
  returns says how much is enough. The delays of the network in \<open>Client_Wait\<close> are bounded by two numbers that appear in its theorems.

  \<^bold>\<open>Not modelled.\<close> The routes, the views, the serializers other than the one of the upload, and the admin site are glue of Django. The storages of
  logs, results and arguments read and write one object each; their answers are arguments. The Code Engine client is generated. Settings are parameters, management commands are
  one-off work, and the metrics collector only counts. Of the data model, columns that no modelled code reads are left out. Of the client library,
  building requests and archives, tracing and the Ray decorators are left out.
\<close>

end
